(* ===== verification/Takt_Prelude.thy ===== *)
theory Takt_Prelude
  imports Main "HOL-Library.AList" "HOL-Library.Word" "HOL-Library.Char_ord"
    "HOL-Library.List_Lexorder"
begin

text \<open>
  Shared vocabulary of the development: Go maps as association lists, Go errors as lists of
  sentinels, the parts of the Go standard library that several components use on strings, and
  the lemma collections that carry the component proofs.
\<close>

named_theorems gomap \<open>rewrite rules for Go maps\<close>

section \<open>Go maps\<close>

text \<open>
  A Go map is an association list with distinct keys. The position of a key in the list is its
  place in the order in which \<open>range\<close> visits the map; Go leaves that order open, and so do
  the theorems, which are stated for every list.
\<close>

type_synonym ('k, 'v) gomap = "('k \<times> 'v) list"

definition mget :: "'v \<Rightarrow> ('k, 'v) gomap \<Rightarrow> 'k \<Rightarrow> 'v" where
  "mget z m k = (case map_of m k of None \<Rightarrow> z | Some v \<Rightarrow> v)"

definition mhas :: "('k, 'v) gomap \<Rightarrow> 'k \<Rightarrow> bool" where
  "mhas m k \<longleftrightarrow> map_of m k \<noteq> None"

definition mput :: "'k \<Rightarrow> 'v \<Rightarrow> ('k, 'v) gomap \<Rightarrow> ('k, 'v) gomap" where
  "mput k v m = AList.update k v m"

definition mdel :: "'k \<Rightarrow> ('k, 'v) gomap \<Rightarrow> ('k, 'v) gomap" where
  "mdel k m = filter (\<lambda>p. fst p \<noteq> k) m"

definition mkeys :: "('k, 'v) gomap \<Rightarrow> 'k list" where
  "mkeys m = map fst m"

definition wf_map :: "('k, 'v) gomap \<Rightarrow> bool" where
  "wf_map m \<longleftrightarrow> distinct (mkeys m)"

text \<open>\<open>maps.Copy(dst, src)\<close> and \<open>maps.DeleteFunc(m, gone)\<close>.\<close>

definition mcopy :: "('k, 'v) gomap \<Rightarrow> ('k, 'v) gomap \<Rightarrow> ('k, 'v) gomap" where
  "mcopy dst src = fold (\<lambda>(k, v) m. mput k v m) src dst"

definition mdel_func :: "('k \<Rightarrow> 'v \<Rightarrow> bool) \<Rightarrow> ('k, 'v) gomap \<Rightarrow> ('k, 'v) gomap" where
  "mdel_func gone m = filter (\<lambda>(k, v). \<not> gone k v) m"

lemma map_of_mput [simp, gomap]: "map_of (mput k v m) = (map_of m)(k \<mapsto> v)"
  by (simp add: mput_def update_conv')

lemma map_of_mdel [simp, gomap]: "map_of (mdel k m) = (map_of m)(k := None)"
proof
  fix x
  show "map_of (mdel k m) x = ((map_of m)(k := None)) x"
    unfolding mdel_def by (induction m) auto
qed

lemma mget_mput [simp, gomap]: "mget z (mput k v m) j = (if j = k then v else mget z m j)"
  by (simp add: mget_def)

lemma mget_mdel [simp, gomap]: "mget z (mdel k m) j = (if j = k then z else mget z m j)"
  by (simp add: mget_def)

lemma mhas_mput [simp, gomap]: "mhas (mput k v m) j \<longleftrightarrow> j = k \<or> mhas m j"
  by (simp add: mhas_def)

lemma mhas_mdel [simp, gomap]: "mhas (mdel k m) j \<longleftrightarrow> j \<noteq> k \<and> mhas m j"
  by (simp add: mhas_def)

lemma mget_Nil [simp]: "mget z [] k = z"
  by (simp add: mget_def)

lemma mhas_Nil [simp]: "\<not> mhas [] k"
  by (simp add: mhas_def)

lemma mget_None: "map_of m k = None \<Longrightarrow> mget z m k = z"
  by (simp add: mget_def)

lemma mget_Some: "map_of m k = Some v \<Longrightarrow> mget z m k = v"
  by (simp add: mget_def)

lemma mhas_iff: "mhas m k \<longleftrightarrow> (\<exists>v. map_of m k = Some v)"
  by (simp add: mhas_def)

lemma mhas_keys: "mhas m k \<longleftrightarrow> k \<in> set (mkeys m)"
  by (induction m) (auto simp: mhas_def mkeys_def)

lemma mkeys_mput: "set (mkeys (mput k v m)) = insert k (set (mkeys m))"
  using mhas_mput [of k v m] by (auto simp: mhas_keys)

lemma wf_map_Nil [simp, intro]: "wf_map []"
  by (simp add: wf_map_def mkeys_def)

lemma wf_map_mput [simp, intro]: "wf_map m \<Longrightarrow> wf_map (mput k v m)"
  by (simp add: wf_map_def mkeys_def mput_def distinct_update)

lemma wf_map_mdel [simp, intro]: "wf_map m \<Longrightarrow> wf_map (mdel k m)"
  by (simp add: wf_map_def mkeys_def mdel_def distinct_map_filter)

lemma wf_map_mdel_func [simp, intro]: "wf_map m \<Longrightarrow> wf_map (mdel_func d m)"
  by (simp add: wf_map_def mkeys_def mdel_func_def distinct_map_filter)

lemma wf_map_mem: "wf_map m \<Longrightarrow> (k, v) \<in> set m \<longleftrightarrow> map_of m k = Some v"
  by (simp add: wf_map_def mkeys_def map_of_eq_Some_iff)

lemma map_of_mdel_func:
  "wf_map m \<Longrightarrow> map_of (mdel_func d m) k =
     (case map_of m k of None \<Rightarrow> None | Some v \<Rightarrow> if d k v then None else Some v)"
proof (induction m)
  case (Cons p m)
  then have "wf_map m" and "fst p \<notin> fst ` set m" by (auto simp: wf_map_def mkeys_def)
  then have "map_of m (fst p) = None" by (simp add: map_of_eq_None_iff)
  with Cons.IH [OF \<open>wf_map m\<close>] show ?case
    by (cases p) (auto simp: mdel_func_def)
qed (simp add: mdel_func_def)

lemma map_of_mcopy: "map_of (mcopy dst src) k = (case map_of (rev src) k of None \<Rightarrow> map_of dst k | Some v \<Rightarrow> Some v)"
  unfolding mcopy_def
  by (induction src arbitrary: dst) (auto simp: map_add_def split: option.splits)

section \<open>Go errors\<close>

text \<open>
  An error value is the list of the sentinels it wraps: the empty list is \<open>nil\<close>,
  \<open>errors.Join\<close> is append and \<open>errors.Is\<close> is membership.
\<close>

definition errs_is :: "'e list \<Rightarrow> 'e \<Rightarrow> bool" where
  "errs_is es e \<longleftrightarrow> e \<in> set es"

text \<open>Sequencing of fallible reads: the first error returns.\<close>

definition and_then :: "'e + 'a \<Rightarrow> ('a \<Rightarrow> 'e + 'b) \<Rightarrow> 'e + 'b" where
  "and_then r f = (case r of Inl e \<Rightarrow> Inl e | Inr x \<Rightarrow> f x)"

lemma and_then_Inr [simp]: "and_then (Inr x) f = f x"
  by (simp add: and_then_def)

lemma and_then_Inl [simp]: "and_then (Inl e) f = Inl e"
  by (simp add: and_then_def)

lemma and_then_eq_Inr: "and_then r f = Inr y \<longleftrightarrow> (\<exists>x. r = Inr x \<and> f x = Inr y)"
  by (cases r) auto

text \<open>The first refusal of a loop whose body may return an error.\<close>

fun first_err :: "('a \<Rightarrow> 'e list) \<Rightarrow> 'a list \<Rightarrow> 'e list" where
  "first_err f [] = []"
| "first_err f (x # xs) = (if f x \<noteq> [] then f x else first_err f xs)"

lemma first_err_Nil_iff: "first_err f xs = [] \<longleftrightarrow> (\<forall>x \<in> set xs. f x = [])"
  by (induction xs) auto

section \<open>Strings\<close>

text \<open>
  A Go string is its list of bytes. \<open>blank s\<close> is \<open>strings.TrimSpace(s) == ""\<close>: only the
  encodings of Unicode white space occur. Bytes above 127 are written by number.
\<close>

definition space_len :: "nat list \<Rightarrow> nat" where
  "space_len bs = (case bs of [] \<Rightarrow> 0 | b # rest \<Rightarrow>
    if b \<in> {9, 10, 11, 12, 13, 32} then 1
    else case rest of [] \<Rightarrow> 0 | c # rest' \<Rightarrow>
      if b = 194 \<and> c \<in> {133, 160} then 2
      else case rest' of [] \<Rightarrow> 0 | d # _ \<Rightarrow>
        if b = 225 \<and> c = 154 \<and> d = 128 then 3
        else if b = 226 \<and> c = 128 \<and> (128 \<le> d \<and> d \<le> 138 \<or> d \<in> {168, 169, 175}) then 3
        else if b = 226 \<and> c = 129 \<and> d = 159 then 3
        else if b = 227 \<and> c = 128 \<and> d = 128 then 3
        else 0)"

lemma space_len_le: "space_len bs \<le> length bs"
  by (auto simp: space_len_def split: list.splits)

function drop_spaces :: "nat list \<Rightarrow> nat list" where
  "drop_spaces bs = (if space_len bs = 0 then bs else drop_spaces (drop (space_len bs) bs))"
  by pat_completeness auto
termination
proof (relation "measure length")
  fix bs :: "nat list"
  assume "space_len bs \<noteq> 0"
  with space_len_le [of bs] show "(drop (space_len bs) bs, bs) \<in> measure length" by simp
qed simp

declare drop_spaces.simps [simp del]

definition blank :: "string \<Rightarrow> bool" where
  "blank s \<longleftrightarrow> drop_spaces (map of_char s) = []"

lemma blank_Nil [simp]: "blank []"
  by (simp add: blank_def drop_spaces.simps space_len_def)

definition has_prefix :: "string \<Rightarrow> string \<Rightarrow> bool" where
  "has_prefix s p \<longleftrightarrow> take (length p) s = p"

definition has_suffix :: "string \<Rightarrow> string \<Rightarrow> bool" where
  "has_suffix s p \<longleftrightarrow> has_prefix (rev s) (rev p)"

definition trim_prefix :: "string \<Rightarrow> string \<Rightarrow> string" where
  "trim_prefix s p = (if has_prefix s p then drop (length p) s else s)"

definition trim_suffix :: "string \<Rightarrow> string \<Rightarrow> string" where
  "trim_suffix s p = (if has_suffix s p then take (length s - length p) s else s)"

lemma has_prefix_append [simp]: "has_prefix (p @ s) p"
  by (simp add: has_prefix_def)

lemma has_prefix_iff: "has_prefix s p \<longleftrightarrow> (\<exists>t. s = p @ t)"
  by (metis append_take_drop_id has_prefix_append has_prefix_def)

lemma has_suffix_iff: "has_suffix s p \<longleftrightarrow> (\<exists>t. s = t @ p)"
  unfolding has_suffix_def has_prefix_iff
  by (metis rev_append rev_rev_ident)

lemma trim_prefix_append [simp]: "trim_prefix (p @ s) p = s"
  by (simp add: trim_prefix_def)

lemma trim_suffix_append [simp]: "trim_suffix (s @ p) p = s"
  using has_suffix_iff by (auto simp: trim_suffix_def)

text \<open>\<open>strings.Join\<close> and \<open>strings.Split\<close> on a one-byte separator.\<close>

fun join_with :: "string \<Rightarrow> string list \<Rightarrow> string" where
  "join_with sep [] = []"
| "join_with sep [x] = x"
| "join_with sep (x # y # zs) = x @ sep @ join_with sep (y # zs)"

fun split_on :: "char \<Rightarrow> string \<Rightarrow> string list" where
  "split_on c [] = [[]]"
| "split_on c (x # xs) =
    (if x = c then [] # split_on c xs
     else case split_on c xs of [] \<Rightarrow> [[x]] | w # ws \<Rightarrow> (x # w) # ws)"

lemma split_on_nonempty [simp]: "split_on c s \<noteq> []"
  by (induction s) (auto split: list.splits)

lemma join_split: "join_with [c] (split_on c s) = s"
proof (induction s)
  case (Cons x xs)
  then show ?case
    by (cases "split_on c xs"; cases "tl (split_on c xs)") (auto split: if_splits)
qed simp

lemma split_on_notin: "w \<in> set (split_on c s) \<Longrightarrow> c \<notin> set w"
  by (induction s arbitrary: w) (auto split: if_splits list.splits)

lemma split_on_plain: "c \<notin> set s \<Longrightarrow> split_on c s = [s]"
  by (induction s) auto

lemma split_on_append_sep: "c \<notin> set w \<Longrightarrow> split_on c (w @ c # s) = w # split_on c s"
  by (induction w) auto

lemma split_on_append: "split_on c (s @ c # t) = split_on c s @ split_on c t"
proof (induction s)
  case (Cons x xs)
  show ?case
  proof (cases "x = c")
    case True
    then show ?thesis using Cons by simp
  next
    case False
    obtain w ws where "split_on c xs = w # ws" by (cases "split_on c xs") simp_all
    then show ?thesis using Cons False by simp
  qed
qed simp

lemma split_join: "ws \<noteq> [] \<Longrightarrow> \<forall>w \<in> set ws. c \<notin> set w \<Longrightarrow> split_on c (join_with [c] ws) = ws"
  by (induction "[c]" ws rule: join_with.induct) (auto simp: split_on_plain split_on_append_sep)

text \<open>\<open>slices.Sorted(maps.Keys(m))\<close>.\<close>

definition sorted_keys :: "('k::linorder, 'v) gomap \<Rightarrow> 'k list" where
  "sorted_keys m = sort (mkeys m)"

lemma set_sorted_keys [simp]: "set (sorted_keys m) = set (mkeys m)"
  by (simp add: sorted_keys_def)

lemma distinct_sorted_keys: "wf_map m \<Longrightarrow> distinct (sorted_keys m)"
  by (simp add: sorted_keys_def wf_map_def)

section \<open>Decimal numbers\<close>

text \<open>\<open>strconv.Itoa\<close> and \<open>strconv.Atoi\<close> on 64-bit integers; \<open>None\<close> is the parse error.\<close>

definition digit_char :: "nat \<Rightarrow> char" where
  "digit_char d = char_of (48 + d)"

definition digit_val :: "char \<Rightarrow> nat option" where
  "digit_val c = (let b = of_char c in if 48 \<le> b \<and> b \<le> (57::nat) then Some (b - 48) else None)"

fun show_nat :: "nat \<Rightarrow> string" where
  "show_nat n = (if n < 10 then [digit_char n] else show_nat (n div 10) @ [digit_char (n mod 10)])"

declare show_nat.simps [simp del]

definition Itoa :: "int \<Rightarrow> string" where
  "Itoa i = (if i < 0 then CHR ''-'' # show_nat (nat (- i)) else show_nat (nat i))"

fun read_digits :: "nat \<Rightarrow> string \<Rightarrow> nat option" where
  "read_digits acc [] = Some acc"
| "read_digits acc (c # cs) =
    (case digit_val c of None \<Rightarrow> None | Some d \<Rightarrow> read_digits (10 * acc + d) cs)"

definition int64 :: "int \<Rightarrow> bool" where
  "int64 i \<longleftrightarrow> - (2 ^ 63) \<le> i \<and> i < 2 ^ 63"

definition parse_int :: "string \<Rightarrow> int option" where
  "parse_int s =
    (let (neg, ds) = (case s of [] \<Rightarrow> (False, [])
                      | c # cs \<Rightarrow> if c = CHR ''-'' then (True, cs)
                                 else if c = CHR ''+'' then (False, cs) else (False, s))
     in if ds = [] then None
        else map_option (\<lambda>n. if neg then - int n else int n) (read_digits 0 ds))"

definition Atoi :: "string \<Rightarrow> int option" where
  "Atoi s = (case parse_int s of None \<Rightarrow> None | Some i \<Rightarrow> if int64 i then Some i else None)"

text \<open>A sum of Go's 64-bit \<open>int\<close>s wraps around.\<close>

definition wrap_int :: "int \<Rightarrow> int" where
  "wrap_int i = signed_take_bit 63 i"

lemma wrap_int_add_left [simp]: "wrap_int (wrap_int a + b) = wrap_int (a + b)"
  unfolding wrap_int_def by (metis signed_take_bit_add signed_take_bit_signed_take_bit min.idem)

lemma wrap_int_add_right [simp]: "wrap_int (a + wrap_int b) = wrap_int (a + b)"
  using wrap_int_add_left [of b a] by (simp add: add.commute)

lemma wrap_int_id: "int64 i \<Longrightarrow> wrap_int i = i"
  by (simp add: wrap_int_def int64_def signed_take_bit_int_eq_self)

lemma wrap_int_0 [simp]: "wrap_int 0 = 0"
  by (simp add: wrap_int_def)

text \<open>The value \<open>Atoi\<close> returns beside its error: zero, or the nearest 64-bit integer.\<close>

definition Atoi_value :: "string \<Rightarrow> int" where
  "Atoi_value s = (case parse_int s of None \<Rightarrow> 0 | Some i \<Rightarrow> max (- (2 ^ 63)) (min (2 ^ 63 - 1) i))"

lemma Atoi_value_Some: "Atoi s = Some i \<Longrightarrow> Atoi_value s = i"
  by (auto simp: Atoi_def Atoi_value_def int64_def split: option.splits if_splits)

lemma digit_val_char [simp]: "d < 10 \<Longrightarrow> digit_val (digit_char d) = Some d"
  by (simp add: digit_val_def digit_char_def)

lemma read_digits_append:
  "read_digits a (s @ t) = (case read_digits a s of None \<Rightarrow> None | Some b \<Rightarrow> read_digits b t)"
  by (induction s arbitrary: a) (auto split: option.splits)

lemma read_show_nat: "read_digits 0 (show_nat n) = Some n"
proof (induction n rule: show_nat.induct)
  case (1 n)
  show ?case
  proof (cases "n < 10")
    case True
    then show ?thesis by (simp add: show_nat.simps [of n])
  next
    case False
    with 1 show ?thesis by (simp add: show_nat.simps [of n] read_digits_append)
  qed
qed

lemma show_nat_digits: "c \<in> set (show_nat n) \<Longrightarrow> \<exists>d < 10. c = digit_char d"
proof (induction n rule: show_nat.induct)
  case (1 n)
  have "n mod 10 < 10" by simp
  with 1 show ?case
    by (cases "n < 10") (force simp: show_nat.simps [of n])+
qed

lemma show_nat_nonempty [simp]: "show_nat n \<noteq> []"
  by (subst show_nat.simps) simp

lemma of_digit_char: "d < 10 \<Longrightarrow> of_char (digit_char d) = (48 + d :: nat)"
  by (simp add: digit_char_def)

lemma digit_char_sign: "d < 10 \<Longrightarrow> digit_char d \<noteq> CHR ''-'' \<and> digit_char d \<noteq> CHR ''+''"
  using of_digit_char [of d] by auto

lemma Atoi_Itoa: "int64 i \<Longrightarrow> Atoi (Itoa i) = Some i"
proof -
  assume i: "int64 i"
  obtain c cs where s: "show_nat (nat i) = c # cs" by (cases "show_nat (nat i)") auto
  then obtain d where "d < 10" "c = digit_char d"
    using show_nat_digits [of c "nat i"] by auto
  then have c: "c \<noteq> CHR ''-''" "c \<noteq> CHR ''+''" using digit_char_sign by auto
  show ?thesis
    using i c s read_show_nat [of "nat i"] read_show_nat [of "nat (- i)"]
    by (auto simp: Atoi_def parse_int_def Itoa_def)
qed

end
