(* ===== verification/Hist_Types.thy ===== *)
theory Hist_Types
  imports Takt_Prelude
begin

text \<open>
  The data of package \<open>takt/history\<close>: the recorded acts (\<open>Entry\<close>), and the work units,
  activities, recoveries, budgets and executions the replay derives from them. Constructors and
  fields keep the source's names, with a one-letter prefix for the record they belong to
  (\<open>e_\<close> entry, \<open>u_\<close> unit, \<open>a_\<close> activity, \<open>r_\<close> recovery, \<open>b_\<close> budgets, \<open>x_\<close>
  execution, \<open>p_\<close> projection). The string-typed enumerations of the source are datatypes with
  one constructor for the empty string, and one for any other string where a recorded
  value is checked against the closed set.
\<close>

section \<open>Enumerations\<close>

datatype state = StateNone | StatePlanned | StateInFlight | StateSettled | StateWithdrawn

datatype flight = FlightNone | FlightPendingLaunch | FlightRunning | FlightSuspended
  | FlightCancelling | FlightUncertain | FlightUnmonitored

datatype outcome = OutcomeNone | OutcomeCompleted | OutcomeFailed | OutcomeBacktracked
  | OutcomeInterrupted | OutcomeOther string

datatype result_status = StatusNone | ResultVerified | ResultFailed | ResultBlocked
  | ResultImpossible | ResultUnverified | ResultOther string

datatype author = AuthorNone | AuthorOrchestrator | AuthorHarness | AuthorVerification
  | AuthorOther string

datatype node_kind = NodeKindNone | NodeKindDelegated | NodeKindOrchestrator
  | NodeKindMaintenance | NodeKindOther string

datatype kind =
    KindPlanned | KindWithdrawn | KindAdmitted | KindDenied | KindLaunched | KindUncertain
  | KindUnmonitored | KindSuspended | KindCancelRequested | KindTerminated | KindContested
  | KindRecoveryDeclared | KindRecoveryClosed | KindActions | KindActionsUncertain
  | KindRestored | KindStopped | KindEscalated | KindException | KindInterlocutorSwitched
  | KindInterlocutorHandoff | KindInterlocutorAborted | KindSeatRestored | KindRevised
  | KindQARound | KindInvalidRevision | KindActivityStarted | KindActivityFinished
  | KindMaintenanceStarted | KindMaintenanceFinished | KindResult
  | KindInputs | KindExecution | KindChild | KindDelivery | KindLaneStopped | KindLane
  | KindPrompt | KindPrepared | KindExecutionEnded | KindLease
  | KindOther string

text \<open>\<open>authorOf\<close>: the single semantic author of each known kind.\<close>

fun authorOf :: "kind \<Rightarrow> author option" where
  "authorOf KindInputs = Some AuthorOrchestrator"
| "authorOf KindExecution = Some AuthorHarness"
| "authorOf KindPrepared = Some AuthorHarness"
| "authorOf KindChild = Some AuthorHarness"
| "authorOf KindDelivery = Some AuthorHarness"
| "authorOf KindLane = Some AuthorHarness"
| "authorOf KindPrompt = Some AuthorHarness"
| "authorOf KindExecutionEnded = Some AuthorHarness"
| "authorOf KindLease = Some AuthorHarness"
| "authorOf KindSeatRestored = Some AuthorOrchestrator"
| "authorOf KindPlanned = Some AuthorOrchestrator"
| "authorOf KindWithdrawn = Some AuthorOrchestrator"
| "authorOf KindCancelRequested = Some AuthorOrchestrator"
| "authorOf KindContested = Some AuthorOrchestrator"
| "authorOf KindRecoveryDeclared = Some AuthorOrchestrator"
| "authorOf KindStopped = Some AuthorOrchestrator"
| "authorOf KindEscalated = Some AuthorOrchestrator"
| "authorOf KindInterlocutorSwitched = Some AuthorOrchestrator"
| "authorOf KindInterlocutorHandoff = Some AuthorOrchestrator"
| "authorOf KindRevised = Some AuthorOrchestrator"
| "authorOf KindQARound = Some AuthorOrchestrator"
| "authorOf KindInvalidRevision = Some AuthorOrchestrator"
| "authorOf KindActivityStarted = Some AuthorOrchestrator"
| "authorOf KindActivityFinished = Some AuthorOrchestrator"
| "authorOf KindAdmitted = Some AuthorHarness"
| "authorOf KindDenied = Some AuthorHarness"
| "authorOf KindLaunched = Some AuthorHarness"
| "authorOf KindUncertain = Some AuthorHarness"
| "authorOf KindUnmonitored = Some AuthorHarness"
| "authorOf KindResult = Some AuthorVerification"
| "authorOf KindSuspended = Some AuthorHarness"
| "authorOf KindTerminated = Some AuthorHarness"
| "authorOf KindRecoveryClosed = Some AuthorHarness"
| "authorOf KindException = Some AuthorHarness"
| "authorOf KindActions = Some AuthorHarness"
| "authorOf KindActionsUncertain = Some AuthorHarness"
| "authorOf KindRestored = Some AuthorHarness"
| "authorOf KindInterlocutorAborted = Some AuthorHarness"
| "authorOf KindMaintenanceStarted = Some AuthorHarness"
| "authorOf KindMaintenanceFinished = Some AuthorHarness"
| "authorOf _ = None"

text \<open>\<open>AuthorOf\<close> reads the same table, with the zero value for an unknown kind.\<close>

definition AuthorOf :: "kind \<Rightarrow> author" where
  "AuthorOf k = (case authorOf k of Some a \<Rightarrow> a | None \<Rightarrow> AuthorNone)"

text \<open>\<open>flightOf\<close>: the in-flight condition an in-flight transition leads to.\<close>

fun flightOf :: "kind \<Rightarrow> flight" where
  "flightOf KindAdmitted = FlightPendingLaunch"
| "flightOf KindLaunched = FlightRunning"
| "flightOf KindSuspended = FlightSuspended"
| "flightOf KindCancelRequested = FlightCancelling"
| "flightOf KindUncertain = FlightUncertain"
| "flightOf KindUnmonitored = FlightUnmonitored"
| "flightOf _ = FlightNone"

fun executionKind :: "kind \<Rightarrow> bool" where
  "executionKind KindInputs = True"
| "executionKind KindExecution = True"
| "executionKind KindChild = True"
| "executionKind KindDelivery = True"
| "executionKind KindLane = True"
| "executionKind KindPrompt = True"
| "executionKind KindExecutionEnded = True"
| "executionKind KindPrepared = True"
| "executionKind KindLease = True"
| "executionKind KindLaneStopped = True"
| "executionKind _ = False"

section \<open>Named strings\<close>

definition CauseNone :: string where "CauseNone = ''none''"
definition CauseUncaptured :: string where "CauseUncaptured = ''uncaptured''"
definition FirstAttempt :: string where "FirstAttempt = ''1''"

definition BoundConcurrency :: string where "BoundConcurrency = ''ceiling/concurrent-specialists''"
definition BoundUnplanned :: string where "BoundUnplanned = ''budget/unplanned-units''"
definition BoundContests :: string where "BoundContests = ''budget/contests''"
definition BoundRecovery :: string where "BoundRecovery = ''budget/recovery-failures''"
definition BoundRecoveryActions :: string where "BoundRecoveryActions = ''budget/recovery-actions''"
definition BoundRecoveryAttempts :: string where "BoundRecoveryAttempts = ''budget/recovery-attempts''"
definition BoundQARounds :: string where "BoundQARounds = ''budget/qa-strengthening-rounds''"

lemmas bound_defs = BoundConcurrency_def BoundUnplanned_def BoundContests_def BoundRecovery_def
  BoundRecoveryActions_def BoundRecoveryAttempts_def BoundQARounds_def

definition bounds :: "string list" where
  "bounds = [BoundConcurrency, BoundUnplanned, BoundContests, BoundRecovery,
             BoundRecoveryActions, BoundRecoveryAttempts, BoundQARounds]"

definition ClassificationTactical :: string where "ClassificationTactical = ''tactical''"
definition ClassificationStrategic :: string where "ClassificationStrategic = ''strategic''"

section \<open>Records\<close>

type_synonym revision = "64 word"

record qa_round =
  q_Objective :: string
  q_Units :: "string list"

record entry =
  e_Seq :: int
  e_Author :: author
  e_Kind :: kind
  e_SessionID :: string
  e_WorkUnitID :: string
  e_AttemptID :: string
  e_ActivityID :: string
  e_NodeKind :: node_kind
  e_Dispatch :: string
  e_Agent :: string
  e_Cause :: string
  e_JournalRef :: string
  e_Outcome :: outcome
  e_PolicyRef :: string
  e_Objective :: string
  e_Bound :: string
  e_Allowance :: int
  e_Result :: string
  e_Scope :: "string list"
  e_Artifact :: string
  e_Actions :: int
  e_Attempts :: int
  e_Evidence :: string
  e_Status :: result_status
  e_Revision :: "revision option"
  e_PlanVersion :: string
  e_QARound :: "qa_round option"
  e_Contract :: string
  e_Prerequisites :: "string list"
  e_BaseVersion :: string
  e_Classification :: string
  e_Reason :: string
  e_Caller :: string
  e_Child :: string
  e_Background :: bool
  e_CreatedAt :: int
  e_ResultIDs :: "int list"
  e_None :: bool
  e_CycleID :: string
  e_Role :: string
  e_Phase :: string
  e_Owner :: string
  e_Model :: string
  e_Substitute :: bool

definition zero_entry :: entry where
  "zero_entry = \<lparr>e_Seq = 0, e_Author = AuthorNone, e_Kind = KindOther [], e_SessionID = [],
    e_WorkUnitID = [], e_AttemptID = [], e_ActivityID = [], e_NodeKind = NodeKindNone,
    e_Dispatch = [], e_Agent = [], e_Cause = [], e_JournalRef = [], e_Outcome = OutcomeNone,
    e_PolicyRef = [], e_Objective = [], e_Bound = [], e_Allowance = 0, e_Result = [],
    e_Scope = [], e_Artifact = [], e_Actions = 0, e_Attempts = 0, e_Evidence = [],
    e_Status = StatusNone, e_Revision = None, e_PlanVersion = [], e_QARound = None,
    e_Contract = [], e_Prerequisites = [], e_BaseVersion = [], e_Classification = [],
    e_Reason = [], e_Caller = [], e_Child = [], e_Background = False, e_CreatedAt = 0,
    e_ResultIDs = [], e_None = False, e_CycleID = [], e_Role = [], e_Phase = [],
    e_Owner = [], e_Model = [], e_Substitute = False\<rparr>"

record assurance =
  as_Status :: result_status
  as_Revision :: "revision option"
  as_Evidence :: string
  as_Author :: author

record work_unit =
  u_SessionID :: string
  u_WorkUnitID :: string
  u_NodeKind :: node_kind
  u_AttemptID :: string
  u_Dispatch :: string
  u_Agent :: string
  u_State :: state
  u_Flight :: flight
  u_Outcome :: outcome
  u_Assurance :: "assurance option"
  u_Launched :: bool
  u_CancelRequested :: bool
  u_Committed :: bool
  u_Contract :: string
  u_Prerequisites :: "string list"

definition zero_unit :: work_unit where
  "zero_unit = \<lparr>u_SessionID = [], u_WorkUnitID = [], u_NodeKind = NodeKindNone,
    u_AttemptID = [], u_Dispatch = [], u_Agent = [], u_State = StateNone, u_Flight = FlightNone,
    u_Outcome = OutcomeNone, u_Assurance = None, u_Launched = False, u_CancelRequested = False,
    u_Committed = False, u_Contract = [], u_Prerequisites = []\<rparr>"

record activity =
  a_ActivityID :: string
  a_SessionID :: string
  a_NodeKind :: node_kind
  a_State :: state
  a_Flight :: flight
  a_Outcome :: outcome
  a_Owner :: string

record recovery =
  r_Open :: bool
  r_Failures :: int
  r_Unit :: string
  r_Result :: string
  r_Scope :: "string list"
  r_Actions :: int
  r_Attempts :: int
  r_Used :: int
  r_Attempted :: "(string, bool) gomap option"
  r_Cursor :: int
  r_Unreconciled :: bool
  r_Backtracked :: bool
  r_Restored :: bool
  r_Cause :: string

definition zero_recovery :: recovery where
  "zero_recovery = \<lparr>r_Open = False, r_Failures = 0, r_Unit = [], r_Result = [], r_Scope = [],
    r_Actions = 0, r_Attempts = 0, r_Used = 0, r_Attempted = None, r_Cursor = 0,
    r_Unreconciled = False, r_Backtracked = False, r_Restored = False, r_Cause = []\<rparr>"

record strengthening =
  s_Round :: qa_round
  s_Started :: bool

definition zero_strengthening :: strengthening where
  "zero_strengthening = \<lparr>s_Round = \<lparr>q_Objective = [], q_Units = []\<rparr>, s_Started = False\<rparr>"

record budgets =
  b_QARounds :: "(string, strengthening) gomap"
  b_Unplanned :: int
  b_Contests :: "(string, bool) gomap"
  b_Recoveries :: "(string, recovery) gomap"
  b_Allowance :: "(string, int) gomap"
  b_Stopped :: int
  b_Escalated :: int
  b_PlanVersion :: string
  b_InterlocutorHolder :: string
  b_InterlocutorAgent :: string
  b_InterlocutorArtifact :: string

definition zero_budgets :: budgets where
  "zero_budgets = \<lparr>b_QARounds = [], b_Unplanned = 0, b_Contests = [], b_Recoveries = [],
    b_Allowance = [], b_Stopped = 0, b_Escalated = 0, b_PlanVersion = [],
    b_InterlocutorHolder = [], b_InterlocutorAgent = [], b_InterlocutorArtifact = []\<rparr>"

record execution =
  x_Dispatch :: string
  x_Root :: string
  x_Unit :: string
  x_Attempt :: string
  x_Agent :: string
  x_Caller :: string
  x_Child :: string
  x_Background :: bool
  x_AdmittedAt :: int
  x_Inputs :: "int list"
  x_Delivery :: "int list"
  x_Cycle :: string
  x_Role :: string
  x_Prompted :: string
  x_Ready :: bool
  x_Terminated :: bool
  x_Settled :: bool
  x_Model :: string
  x_Substitute :: bool
  x_Owner :: string

definition zero_execution :: execution where
  "zero_execution = \<lparr>x_Dispatch = [], x_Root = [], x_Unit = [], x_Attempt = [], x_Agent = [],
    x_Caller = [], x_Child = [], x_Background = False, x_AdmittedAt = 0, x_Inputs = [],
    x_Delivery = [], x_Cycle = [], x_Role = [], x_Prompted = [], x_Ready = False,
    x_Terminated = False, x_Settled = False, x_Model = [], x_Substitute = False, x_Owner = []\<rparr>"

record projection =
  p_Inputs :: "(string, int list) gomap"
  p_Executions :: "(string, execution) gomap"
  p_Leases :: "(string, int) gomap"
  p_Units :: "(string, work_unit) gomap"
  p_Activities :: "(string, activity) gomap"
  p_Sessions :: "(string, budgets) gomap"

definition newProjection :: projection where
  "newProjection = \<lparr>p_Inputs = [], p_Executions = [], p_Leases = [], p_Units = [],
    p_Activities = [], p_Sessions = []\<rparr>"

definition UnitKey :: "string \<Rightarrow> string \<Rightarrow> string" where
  "UnitKey session u = session @ CHR 0x00 # u"

text \<open>Two roots' units never share a key when session identities hold no NUL byte.\<close>

lemma UnitKey_inject:
  assumes "CHR 0x00 \<notin> set s" and "CHR 0x00 \<notin> set t"
  shows "UnitKey s u = UnitKey t v \<longleftrightarrow> s = t \<and> u = v"
  using assms
  by (auto simp: UnitKey_def append_eq_append_conv2 Cons_eq_append_conv append_eq_Cons_conv)

lemma UnitKey_same_session [simp]: "UnitKey s u = UnitKey s v \<longleftrightarrow> u = v"
  by (simp add: UnitKey_def)


end
