(* ===== verification/Hist_Fold.thy ===== *)
theory Hist_Fold
  imports Hist_Types
begin

text \<open>
  The replay of \<open>takt/history/projection.go\<close> and \<open>takt/history/execution.go\<close>: the state is
  never edited in place but folded from the recorded entries, one entry at a time.
\<close>

section \<open>Reading the projection\<close>

definition unit_at :: "projection \<Rightarrow> string \<Rightarrow> string \<Rightarrow> work_unit" where
  "unit_at p session u = mget zero_unit (p_Units p) (UnitKey session u)"

definition unit_known :: "projection \<Rightarrow> string \<Rightarrow> string \<Rightarrow> bool" where
  "unit_known p session u = mhas (p_Units p) (UnitKey session u)"

definition Budgets :: "projection \<Rightarrow> string \<Rightarrow> budgets" where
  "Budgets p session = mget zero_budgets (p_Sessions p) session"

definition put_budgets :: "string \<Rightarrow> budgets \<Rightarrow> projection \<Rightarrow> projection" where
  "put_budgets session b p = p\<lparr>p_Sessions := mput session b (p_Sessions p)\<rparr>"

definition put_unit :: "string \<Rightarrow> string \<Rightarrow> work_unit \<Rightarrow> projection \<Rightarrow> projection" where
  "put_unit session name u p = p\<lparr>p_Units := mput (UnitKey session name) u (p_Units p)\<rparr>"

definition InFlight :: "projection \<Rightarrow> int" where
  "InFlight p = int (length (filter (\<lambda>(k, u). u_State u = StateInFlight) (p_Units p)))"

text \<open>\<open>QARoundFor\<close> and \<open>Scope\<close> return the first match in range order.\<close>

definition QARoundFor :: "budgets \<Rightarrow> string \<Rightarrow> string \<times> strengthening" where
  "QARoundFor b u =
    (case find (\<lambda>(v, r). u \<in> set (q_Units (s_Round r))) (b_QARounds b) of
       Some vr \<Rightarrow> vr | None \<Rightarrow> ([], zero_strengthening))"

definition StrengtheningUsed :: "budgets \<Rightarrow> string \<Rightarrow> int" where
  "StrengtheningUsed b objective =
    int (length (filter (\<lambda>(v, r). q_Objective (s_Round r) = objective \<and> s_Started r) (b_QARounds b)))"

definition AllowanceKey :: "string \<Rightarrow> string \<Rightarrow> string" where
  "AllowanceKey bound objective = (if objective = [] then bound else bound @ ''/'' @ objective)"

definition allowance :: "budgets \<Rightarrow> string \<Rightarrow> int" where
  "allowance b key = mget 0 (b_Allowance b) key"

definition recovery_of :: "budgets \<Rightarrow> string \<Rightarrow> recovery" where
  "recovery_of b objective = mget zero_recovery (b_Recoveries b) objective"

definition put_recovery :: "string \<Rightarrow> recovery \<Rightarrow> budgets \<Rightarrow> budgets" where
  "put_recovery objective r b = b\<lparr>b_Recoveries := mput objective r (b_Recoveries b)\<rparr>"

definition Unresolved :: "recovery \<Rightarrow> bool" where
  "Unresolved r \<longleftrightarrow> r_Open r \<or> (r_Backtracked r \<and> \<not> r_Restored r)"

definition Scope :: "budgets \<Rightarrow> string \<Rightarrow> string \<times> recovery" where
  "Scope b u =
    (case find (\<lambda>(objective, r). Unresolved r \<and> u \<in> set (r_Scope r)) (b_Recoveries b) of
       Some vr \<Rightarrow> vr | None \<Rightarrow> ([], zero_recovery))"

definition refSeq :: "string \<Rightarrow> int" where
  "refSeq ref = (if ref = [] then -1
     else case Atoi (trim_prefix ref ''journal/'') of None \<Rightarrow> -1 | Some i \<Rightarrow> i)"

definition prevails :: "assurance option \<Rightarrow> entry \<Rightarrow> bool" where
  "prevails a incoming =
    (case a of None \<Rightarrow> True
     | Some as \<Rightarrow> (case as_Revision as of None \<Rightarrow> True
        | Some r \<Rightarrow> (case e_Revision incoming of None \<Rightarrow> False | Some r' \<Rightarrow> r \<le> r')))"

section \<open>Classification of entries\<close>

text \<open>\<open>activityKindOf\<close>: \<open>Some\<close> exactly when the source's second result is true.\<close>

definition activityKindOf :: "entry \<Rightarrow> node_kind option" where
  "activityKindOf e = (case e_Kind e of
      KindActivityStarted \<Rightarrow> Some NodeKindOrchestrator
    | KindActivityFinished \<Rightarrow> Some NodeKindOrchestrator
    | KindMaintenanceStarted \<Rightarrow> Some NodeKindMaintenance
    | KindMaintenanceFinished \<Rightarrow> Some NodeKindMaintenance
    | KindUnmonitored \<Rightarrow>
        if e_ActivityID e \<noteq> [] \<and> e_NodeKind e = NodeKindOrchestrator
        then Some NodeKindOrchestrator else None
    | _ \<Rightarrow> None)"

definition isActivityStarted :: "kind \<Rightarrow> bool" where
  "isActivityStarted k \<longleftrightarrow> k = KindActivityStarted \<or> k = KindMaintenanceStarted"

definition isActivityFinished :: "kind \<Rightarrow> bool" where
  "isActivityFinished k \<longleftrightarrow> k = KindActivityFinished \<or> k = KindMaintenanceFinished"

definition accepts :: "work_unit \<Rightarrow> bool \<Rightarrow> kind \<Rightarrow> bool" where
  "accepts u known k = (case k of
      KindPlanned \<Rightarrow> \<not> known \<or> u_State u = StatePlanned
    | KindWithdrawn \<Rightarrow> u_State u = StatePlanned
    | KindResult \<Rightarrow> known \<and> (u_State u = StateInFlight \<or> u_State u = StateSettled)
    | KindAdmitted \<Rightarrow> \<not> known \<or> u_State u = StatePlanned \<or> u_State u = StateSettled
    | _ \<Rightarrow> u_State u = StateInFlight)"

section \<open>Session accounting\<close>

text \<open>
  \<open>budgeted\<close> folds the kinds that carry session accounting; \<open>None\<close> is its result
  \<open>false\<close>, an entry that goes on to the unit. A declared round always carries its
  \<open>QARound\<close>: \<open>validate\<close> refuses the entry otherwise (\<open>validate_qa_round\<close> of
  \<open>Hist_Store\<close>), so the branch that keeps the budgets stands for the source's nil dereference.
\<close>

definition fold_exception :: "budgets \<Rightarrow> entry \<Rightarrow> budgets" where
  "fold_exception b0 e =
    (let key = AllowanceKey (e_Bound e) (e_Objective e);
         b1 = b0\<lparr>b_Allowance := mput key (wrap_int (allowance b0 key + e_Allowance e)) (b_Allowance b0)\<rparr>;
         b2 = (if e_Bound e = BoundRecoveryActions \<and> e_Objective e \<noteq> [] then
                 put_recovery (e_Objective e)
                   ((recovery_of b1 (e_Objective e))\<lparr>r_Unreconciled := False, r_Cursor := refSeq (e_JournalRef e)\<rparr>) b1
               else b1)
     in if e_Bound e = BoundRecoveryActions \<or> e_Bound e = BoundRecoveryAttempts then
          (let r = recovery_of b2 (e_Objective e)
           in if e_Objective e \<noteq> [] \<and> r_Backtracked r \<and> \<not> r_Restored r then
                put_recovery (e_Objective e)
                  (r\<lparr>r_Open := True, r_Backtracked := False, r_Cause := [],
                     r_Failures := (if r_Failures r > 0 then r_Failures r - 1 else r_Failures r)\<rparr>) b2
              else b2)
        else b2)"

definition fold_recovery_closed :: "budgets \<Rightarrow> entry \<Rightarrow> budgets" where
  "fold_recovery_closed b e =
    (let r0 = (recovery_of b (e_Objective e))\<lparr>r_Open := False\<rparr>;
         r1 = (if e_Outcome e = OutcomeBacktracked then r0\<lparr>r_Backtracked := True, r_Cause := e_Cause e\<rparr> else r0);
         r2 = (if e_Outcome e = OutcomeCompleted then r1\<lparr>r_Failures := 0\<rparr>
               else r1\<lparr>r_Failures := wrap_int (r_Failures r1 + 1)\<rparr>)
     in put_recovery (e_Objective e) r2 b)"

definition budgeted :: "budgets \<Rightarrow> entry \<Rightarrow> budgets option" where
  "budgeted b e = (let obj = e_Objective e; r = recovery_of b obj in case e_Kind e of
      KindQARound \<Rightarrow> Some (case e_QARound e of None \<Rightarrow> b
        | Some q \<Rightarrow> b\<lparr>b_QARounds := mput (e_PlanVersion e) \<lparr>s_Round = q, s_Started = False\<rparr> (b_QARounds b)\<rparr>)
    | KindDenied \<Rightarrow> Some b
    | KindContested \<Rightarrow> Some (b\<lparr>b_Contests := mput (e_WorkUnitID e @ ''/'' @ e_AttemptID e) True (b_Contests b)\<rparr>)
    | KindException \<Rightarrow> Some (fold_exception b e)
    | KindStopped \<Rightarrow> Some (b\<lparr>b_Stopped := wrap_int (b_Stopped b + 1)\<rparr>)
    | KindEscalated \<Rightarrow> Some (b\<lparr>b_Escalated := wrap_int (b_Escalated b + 1)\<rparr>)
    | KindRecoveryDeclared \<Rightarrow> Some (put_recovery obj
        (zero_recovery\<lparr>r_Open := True, r_Failures := r_Failures r, r_Unit := e_WorkUnitID e,
           r_Result := e_Result e, r_Scope := e_Scope e, r_Actions := e_Actions e,
           r_Attempts := e_Attempts e, r_Attempted := Some [], r_Cursor := refSeq (e_JournalRef e)\<rparr>) b)
    | KindActions \<Rightarrow> Some (put_recovery obj
        (r\<lparr>r_Used := wrap_int (r_Used r + e_Actions e), r_Cursor := refSeq (e_JournalRef e)\<rparr>) b)
    | KindActionsUncertain \<Rightarrow> Some (put_recovery obj (r\<lparr>r_Unreconciled := True\<rparr>) b)
    | KindRestored \<Rightarrow> Some (put_recovery obj (r\<lparr>r_Restored := True\<rparr>) b)
    | KindRecoveryClosed \<Rightarrow> Some (fold_recovery_closed b e)
    | KindInterlocutorSwitched \<Rightarrow> Some (b\<lparr>b_InterlocutorHolder := e_WorkUnitID e,
        b_InterlocutorAgent := e_Agent e, b_InterlocutorArtifact := e_Artifact e\<rparr>)
    | KindInterlocutorHandoff \<Rightarrow> Some (b\<lparr>b_InterlocutorHolder := [], b_InterlocutorAgent := [],
        b_InterlocutorArtifact := []\<rparr>)
    | KindInterlocutorAborted \<Rightarrow> Some (b\<lparr>b_InterlocutorHolder := [], b_InterlocutorAgent := [],
        b_InterlocutorArtifact := []\<rparr>)
    | KindRevised \<Rightarrow> Some (b\<lparr>b_PlanVersion := e_PlanVersion e\<rparr>)
    | KindInvalidRevision \<Rightarrow> Some b
    | KindSeatRestored \<Rightarrow> Some b
    | _ \<Rightarrow> None)"

section \<open>Folding one entry\<close>

definition foldExecution :: "entry \<Rightarrow> projection \<Rightarrow> projection" where
  "foldExecution e p =
    (let d = mget zero_execution (p_Executions p) (e_Dispatch e);
         key = UnitKey (e_SessionID e) (e_WorkUnitID e);
         put = (\<lambda>d. p\<lparr>p_Executions := mput (e_Dispatch e) d (p_Executions p)\<rparr>);
         start = \<lparr>x_Dispatch = e_Dispatch e, x_Root = e_SessionID e, x_Unit = e_WorkUnitID e,
            x_Attempt = e_AttemptID e, x_Agent = e_Agent e, x_Caller = e_Caller e, x_Child = e_Child e,
            x_Background = e_Background e, x_AdmittedAt = e_CreatedAt e,
            x_Inputs = mget [] (p_Inputs p) key, x_Delivery = [], x_Cycle = e_CycleID e,
            x_Role = e_Role e, x_Prompted = [], x_Ready = False, x_Terminated = False,
            x_Settled = False, x_Model = e_Model e, x_Substitute = e_Substitute e,
            x_Owner = e_Owner e\<rparr>
     in case e_Kind e of
          KindLease \<Rightarrow> p\<lparr>p_Leases := mput (e_Owner e) (max (mget 0 (p_Leases p) (e_Owner e)) (e_CreatedAt e)) (p_Leases p)\<rparr>
        | KindInputs \<Rightarrow> p\<lparr>p_Inputs := mput key (e_ResultIDs e) (p_Inputs p)\<rparr>
        | KindExecution \<Rightarrow> if x_Dispatch d \<noteq> [] then p else put start
        | KindLane \<Rightarrow> if x_Dispatch d \<noteq> [] then p else put start
        | KindPrepared \<Rightarrow> put (d\<lparr>x_Ready := True\<rparr>)
        | KindChild \<Rightarrow> put (d\<lparr>x_Child := e_Child e\<rparr>)
        | KindDelivery \<Rightarrow> put (d\<lparr>x_Delivery :=
            fold (\<lambda>i ids. if i \<in> set ids then ids else ids @ [i]) (e_ResultIDs e) (x_Delivery d)\<rparr>)
        | KindPrompt \<Rightarrow> put (d\<lparr>x_Prompted := e_Phase e\<rparr>)
        | KindLaneStopped \<Rightarrow> put (d\<lparr>x_Terminated := True\<rparr>)
        | KindExecutionEnded \<Rightarrow> put (d\<lparr>x_Settled := True\<rparr>)
        | _ \<Rightarrow> put d)"

definition foldActivity :: "entry \<Rightarrow> node_kind \<Rightarrow> projection \<Rightarrow> projection" where
  "foldActivity e nodeKind p =
    (let put = (\<lambda>a. p\<lparr>p_Activities := mput (e_ActivityID e) a (p_Activities p)\<rparr>)
     in if isActivityStarted (e_Kind e) then
          (case map_of (p_Activities p) (e_ActivityID e) of
             None \<Rightarrow> put \<lparr>a_ActivityID = e_ActivityID e, a_SessionID = e_SessionID e,
               a_NodeKind = nodeKind, a_State = StateInFlight, a_Flight = FlightRunning,
               a_Outcome = OutcomeNone, a_Owner = e_Owner e\<rparr>
           | Some a \<Rightarrow> if a_State a = StateInFlight \<and> e_Owner e \<noteq> []
               then put (a\<lparr>a_Owner := e_Owner e, a_Flight := FlightRunning\<rparr>) else p)
        else (case map_of (p_Activities p) (e_ActivityID e) of
             None \<Rightarrow> p
           | Some a \<Rightarrow>
               if a_SessionID a \<noteq> e_SessionID e \<or> a_NodeKind a \<noteq> nodeKind \<or> a_State a \<noteq> StateInFlight then p
               else if e_Kind e = KindUnmonitored then put (a\<lparr>a_Flight := FlightUnmonitored\<rparr>)
               else put (a\<lparr>a_State := StateSettled, a_Flight := FlightNone, a_Outcome := e_Outcome e\<rparr>)))"

text \<open>The budgets an admission changes: uncovered work, a strengthening round, a recovery attempt.\<close>

definition admit_budgets :: "entry \<Rightarrow> bool \<Rightarrow> budgets \<Rightarrow> budgets" where
  "admit_budgets e known b0 =
    (if e_Kind e \<noteq> KindAdmitted then b0
     else let b1 = (if known then b0 else b0\<lparr>b_Unplanned := wrap_int (b_Unplanned b0 + 1)\<rparr>);
              vr = QARoundFor b1 (e_WorkUnitID e);
              b2 = (if fst vr \<noteq> [] then
                      b1\<lparr>b_QARounds := mput (fst vr) ((snd vr)\<lparr>s_Started := True\<rparr>) (b_QARounds b1)\<rparr>
                    else b1)
          in if e_Objective e = [] then b2
             else case r_Attempted (recovery_of b2 (e_Objective e)) of
                 None \<Rightarrow> b2
               | Some att \<Rightarrow> put_recovery (e_Objective e)
                   ((recovery_of b2 (e_Objective e))\<lparr>r_Attempted :=
                      Some (mput (e_WorkUnitID e @ ''/'' @ e_AttemptID e) True att)\<rparr>) b2)"

text \<open>The unit after an accepted lifecycle entry (\<open>KindResult\<close> excepted).\<close>

definition next_unit :: "entry \<Rightarrow> work_unit \<Rightarrow> work_unit" where
  "next_unit e u0 =
    (let u1 = (if u_NodeKind u0 = NodeKindNone \<and> e_NodeKind e = NodeKindDelegated
               then u0\<lparr>u_NodeKind := e_NodeKind e\<rparr> else u0);
         u = u1\<lparr>u_SessionID := e_SessionID e, u_WorkUnitID := e_WorkUnitID e, u_AttemptID := e_AttemptID e\<rparr>
     in case e_Kind e of
          KindAdmitted \<Rightarrow> u\<lparr>u_State := StateInFlight, u_Flight := flightOf (e_Kind e),
            u_Outcome := OutcomeNone, u_Launched := False, u_Dispatch := e_Dispatch e,
            u_Agent := e_Agent e, u_CancelRequested := False, u_Assurance := None\<rparr>
        | KindPlanned \<Rightarrow> u\<lparr>u_State := StatePlanned, u_Committed := True,
            u_Contract := e_Contract e, u_Prerequisites := e_Prerequisites e\<rparr>
        | KindWithdrawn \<Rightarrow> u\<lparr>u_State := StateWithdrawn\<rparr>
        | KindTerminated \<Rightarrow> u\<lparr>u_State := StateSettled, u_Flight := FlightNone, u_Outcome := e_Outcome e\<rparr>
        | _ \<Rightarrow> u\<lparr>u_State := StateInFlight, u_Flight := flightOf (e_Kind e),
            u_Launched := (u_Launched u \<or> e_Kind e = KindLaunched),
            u_CancelRequested := (u_CancelRequested u \<or> e_Kind e = KindCancelRequested)\<rparr>)"

definition fold_unit :: "entry \<Rightarrow> budgets \<Rightarrow> projection \<Rightarrow> projection" where
  "fold_unit e b p =
    (let s = e_SessionID e; n = e_WorkUnitID e; u = unit_at p s n; known = unit_known p s n
     in if \<not> accepts u known (e_Kind e) then put_budgets s b p
        else if e_Kind e = KindResult then
          (if e_AttemptID e = u_AttemptID u \<and> prevails (u_Assurance u) e
           then put_unit s n (u\<lparr>u_Assurance := Some \<lparr>as_Status = e_Status e, as_Revision = e_Revision e,
                  as_Evidence = e_Evidence e, as_Author = e_Author e\<rparr>\<rparr>) (put_budgets s b p)
           else put_budgets s b p)
        else put_unit s n (next_unit e u) (put_budgets s (admit_budgets e known b) p))"

definition settle_executions :: "entry \<Rightarrow> projection \<Rightarrow> projection" where
  "settle_executions e p = (if e_Kind e \<noteq> KindTerminated then p
     else p\<lparr>p_Executions := map (\<lambda>(i, d).
        if x_Root d = e_SessionID e \<and> x_Unit d = e_WorkUnitID e \<and> x_Attempt d = e_AttemptID e
        then (i, d\<lparr>x_Settled := True\<rparr>) else (i, d)) (p_Executions p)\<rparr>)"

text \<open>\<open>fold\<close> of the source; the budgets of the session exist once an ordinary entry named it.\<close>

definition fold_entry :: "entry \<Rightarrow> projection \<Rightarrow> projection" where
  "fold_entry e p0 =
    (if executionKind (e_Kind e) then foldExecution e p0
     else let p = settle_executions e p0
          in case activityKindOf e of
               Some nk \<Rightarrow> foldActivity e nk p
             | None \<Rightarrow>
                 (let b0 = Budgets p (e_SessionID e);
                      b = (if e_Kind e = KindPlanned then b0\<lparr>b_PlanVersion := e_PlanVersion e\<rparr> else b0)
                  in case budgeted b e of
                       Some b' \<Rightarrow> put_budgets (e_SessionID e) b' p
                     | None \<Rightarrow> fold_unit e b p))"

definition Project :: "entry list \<Rightarrow> projection" where
  "Project entries = fold fold_entry entries newProjection"

lemma Project_Nil [simp]: "Project [] = newProjection"
  by (simp add: Project_def)

lemma Project_append: "Project (xs @ ys) = fold fold_entry ys (Project xs)"
  by (simp add: Project_def)

lemma Project_snoc: "Project (xs @ [e]) = fold_entry e (Project xs)"
  by (simp add: Project_def)

section \<open>Queries of the execution history\<close>

definition HeldRoot :: "projection \<Rightarrow> string \<Rightarrow> string option" where
  "HeldRoot p session = (if session = [] then None
     else map_option fst (find (\<lambda>(root, b). b_InterlocutorHolder b = session) (p_Sessions p)))"

text \<open>Instants are nanoseconds; a lease holds the Unix milliseconds of its last renewal.\<close>

definition LeaseTTL :: int where "LeaseTTL = 90 * 10 ^ 9"

definition LeaseLapsed :: "projection \<Rightarrow> string \<Rightarrow> int \<Rightarrow> bool" where
  "LeaseLapsed p owner now =
    (owner = [] \<or> (case map_of (p_Leases p) owner of None \<Rightarrow> True
       | Some renewed \<Rightarrow> now - renewed * 10 ^ 6 > LeaseTTL))"

definition Orphaned :: "projection \<Rightarrow> execution \<Rightarrow> int \<Rightarrow> bool" where
  "Orphaned p d now = LeaseLapsed p (x_Owner d) now"

definition ExecutionForChild :: "projection \<Rightarrow> string \<Rightarrow> string \<Rightarrow> execution option" where
  "ExecutionForChild p child agent = (if child = [] then None
     else map_option snd (find (\<lambda>(i, d). \<not> x_Settled d \<and> x_Child d = child \<and> (agent = [] \<or> x_Agent d = agent))
            (p_Executions p)))"

text \<open>\<open>strconv.Itoa(n+1)\<close> on a 64-bit \<open>int\<close>: the sum wraps.\<close>

definition succ_int :: "int \<Rightarrow> int" where
  "succ_int n = wrap_int (n + 1)"

definition NextAttempt :: "projection \<Rightarrow> string \<Rightarrow> string \<Rightarrow> string" where
  "NextAttempt p root u =
    (if unit_known p root u then
       (if u_State (unit_at p root u) \<noteq> StateSettled then FirstAttempt
        else case Atoi (u_AttemptID (unit_at p root u)) of
               None \<Rightarrow> FirstAttempt | Some n \<Rightarrow> Itoa (succ_int n))
     else Itoa (succ_int (fold (\<lambda>(i, d) n. if x_Root d = root \<and> x_Unit d = u
              then max n (Atoi_value (x_Attempt d)) else n) (p_Executions p) 0)))"

definition LaneUnit :: "string \<Rightarrow> string \<Rightarrow> string \<times> string" where
  "LaneUnit cycle role = (if role = ''verifier'' then (cycle @ ''/verify'', ''verify'') else (cycle, ''simplify''))"

end
