(* ===== verification/Hist_Store.thy ===== *)
theory Hist_Store
  imports Hist_Fold
begin

text \<open>
  The append-only store of \<open>takt/history/history.go\<close>: what an entry must satisfy to be
  recorded, the indivisible append, the replay of the stored rows and its pages. A refusal is
  a constructor of \<open>herror\<close>; its text is not modelled. The SQLite transaction of an append
  may fail for reasons outside the program: \<open>h_faults\<close> says which of the coming transactions
  fail, and an exhausted list means that they all commit.
\<close>

datatype herror = ExecutionRootRequired | LeaseShape | InputsShape | ExactDispatchRequired
  | UnknownKind | WrongAuthor | SessionRequired | ActivityShape | ActivityNodeKind | WorkIdentity
  | CauseRequired | UnknownNodeKind | DelegatedRequired | OutcomeShape | ActivityOutcome
  | QARoundMisplaced | ResultFieldsMisplaced | UnknownStatus | EvaluatedShape | QARoundShape
  | QARoundUnits | ObjectiveRequired | ExceptionShape | RevisionShape | UnknownClassification
  | ReasonRequired | SeatShape | UnknownOutcome | TransactionFailed | SequenceCorrupt
  | NoLongerRuns | NoActiveDelegation | PreparationIncomplete | OtherChildHolds | ChildBusy
  | NoActiveCycle | ChildOtherDispatch | ChildAttached | IndependentChildren

section \<open>What a recorded entry satisfies\<close>

definition validateExecution :: "entry \<Rightarrow> herror list" where
  "validateExecution e =
    (if e_SessionID e = [] \<and> e_Kind e \<noteq> KindLease then [ExecutionRootRequired]
     else if e_Kind e = KindLease then
       (if e_Author e \<noteq> AuthorHarness \<or> e_Owner e = [] \<or> e_CreatedAt e \<le> 0 then [LeaseShape] else [])
     else if e_Kind e = KindInputs then
       (if e_Author e \<noteq> AuthorOrchestrator \<or> e_WorkUnitID e = [] \<or> (e_ResultIDs e \<noteq> []) = e_None e
        then [InputsShape] else [])
     else if e_Author e \<noteq> AuthorHarness \<or> e_Dispatch e = [] \<or> e_AttemptID e = [] \<or> e_WorkUnitID e = []
     then [ExactDispatchRequired] else [])"

text \<open>\<open>validateIdentity\<close> answers whether the entry is an activity record.\<close>

definition validateIdentity :: "entry \<Rightarrow> herror list + bool" where
  "validateIdentity e = (case authorOf (e_Kind e) of
      None \<Rightarrow> Inl [UnknownKind]
    | Some author \<Rightarrow>
        if e_Author e \<noteq> author \<and> (e_Kind e \<noteq> KindResult \<or> e_Author e \<noteq> AuthorHarness) then Inl [WrongAuthor]
        else if e_SessionID e = [] then Inl [SessionRequired]
        else (case activityKindOf e of
            Some activityKind \<Rightarrow>
              if e_ActivityID e = [] \<or> e_WorkUnitID e \<noteq> [] \<or> e_AttemptID e \<noteq> [] then Inl [ActivityShape]
              else if e_NodeKind e \<noteq> activityKind then Inl [ActivityNodeKind]
              else if e_Cause e = [] then Inl [CauseRequired] else Inr True
          | None \<Rightarrow>
              if e_WorkUnitID e = [] \<or> e_AttemptID e = [] \<or> e_ActivityID e \<noteq> [] then Inl [WorkIdentity]
              else if e_Cause e = [] then Inl [CauseRequired] else Inr False))"

definition validateNodeKind :: "entry \<Rightarrow> bool \<Rightarrow> herror list" where
  "validateNodeKind e isActivity = (case e_NodeKind e of
      NodeKindOther _ \<Rightarrow> [UnknownNodeKind]
    | nk \<Rightarrow> if \<not> isActivity \<and> nk \<noteq> NodeKindNone \<and> nk \<noteq> NodeKindDelegated then [DelegatedRequired] else [])"

definition validateOutcomeShape :: "entry \<Rightarrow> herror list" where
  "validateOutcomeShape e =
    (let terminal = (e_Kind e = KindTerminated \<or> e_Kind e = KindRecoveryClosed \<or> isActivityFinished (e_Kind e))
     in if terminal \<noteq> (e_Outcome e \<noteq> OutcomeNone) then [OutcomeShape]
        else if isActivityFinished (e_Kind e) \<and> e_Outcome e \<noteq> OutcomeCompleted
             \<and> e_Outcome e \<noteq> OutcomeFailed \<and> e_Outcome e \<noteq> OutcomeInterrupted then [ActivityOutcome]
        else [])"

fun known_status :: "result_status \<Rightarrow> bool" where
  "known_status StatusNone = False"
| "known_status (ResultOther _) = False"
| "known_status _ = True"

text \<open>The units of a round are distinct and nonempty: the source's loop over \<open>seen\<close>.\<close>

fun distinct_units :: "string list \<Rightarrow> string list \<Rightarrow> bool" where
  "distinct_units seen [] = True"
| "distinct_units seen (u # us) = (if blank u \<or> u \<in> set seen then False else distinct_units (u # seen) us)"

definition validateKindFields :: "entry \<Rightarrow> herror list" where
  "validateKindFields e =
    (if e_QARound e \<noteq> None \<and> e_Kind e \<noteq> KindQARound then [QARoundMisplaced]
     else if (e_Status e \<noteq> StatusNone \<or> e_Revision e \<noteq> None) \<and> e_Kind e \<noteq> KindResult then [ResultFieldsMisplaced]
     else case e_Kind e of
        KindResult \<Rightarrow>
          if \<not> known_status (e_Status e) then [UnknownStatus]
          else if (e_Status e = ResultVerified \<or> e_Status e = ResultFailed)
                  \<and> (e_Revision e = None \<or> blank (e_Evidence e)) then [EvaluatedShape]
          else []
      | KindQARound \<Rightarrow>
          (case e_QARound e of None \<Rightarrow> [QARoundShape]
           | Some q \<Rightarrow> if e_PlanVersion e = [] \<or> blank (q_Objective q) \<or> q_Units q = [] then [QARoundShape]
                       else if \<not> distinct_units [] (q_Units q) then [QARoundUnits] else [])
      | KindRecoveryDeclared \<Rightarrow> if e_Objective e = [] then [ObjectiveRequired] else []
      | KindRecoveryClosed \<Rightarrow> if e_Objective e = [] then [ObjectiveRequired] else []
      | KindActions \<Rightarrow> if e_Objective e = [] then [ObjectiveRequired] else []
      | KindActionsUncertain \<Rightarrow> if e_Objective e = [] then [ObjectiveRequired] else []
      | KindRestored \<Rightarrow> if e_Objective e = [] then [ObjectiveRequired] else []
      | KindException \<Rightarrow>
          if e_Bound e \<notin> set bounds \<or> e_Allowance e \<le> 0 then [ExceptionShape] else []
      | KindRevised \<Rightarrow>
          if e_BaseVersion e = [] \<or> e_PlanVersion e = [] then [RevisionShape]
          else if e_Classification e \<noteq> ClassificationTactical \<and> e_Classification e \<noteq> ClassificationStrategic
          then [UnknownClassification] else []
      | KindInvalidRevision \<Rightarrow> if e_Reason e = [] then [ReasonRequired] else []
      | KindSeatRestored \<Rightarrow>
          if e_Agent e = [] \<or> e_Model e = [] \<or> e_Reason e = [] then [SeatShape] else []
      | _ \<Rightarrow> [])"

definition validate :: "entry \<Rightarrow> herror list" where
  "validate e =
    (if executionKind (e_Kind e) then validateExecution e
     else case validateIdentity e of
        Inl err \<Rightarrow> err
      | Inr isActivity \<Rightarrow>
          if validateNodeKind e isActivity \<noteq> [] then validateNodeKind e isActivity
          else if validateOutcomeShape e \<noteq> [] then validateOutcomeShape e
          else if validateKindFields e \<noteq> [] then validateKindFields e
          else (case e_Outcome e of OutcomeOther _ \<Rightarrow> [UnknownOutcome] | _ \<Rightarrow> []))"

section \<open>The store\<close>

record hist =
  h_entries :: "entry list"
  h_faults :: "bool list"

text \<open>One transaction: whether it fails, and the store with that outcome consumed.\<close>

definition next_fault :: "hist \<Rightarrow> bool \<times> hist" where
  "next_fault h = (case h_faults h of [] \<Rightarrow> (False, h) | b # bs \<Rightarrow> (b, h\<lparr>h_faults := bs\<rparr>))"

fun number_from :: "int \<Rightarrow> entry list \<Rightarrow> entry list" where
  "number_from i [] = []"
| "number_from i (e # es) = e\<lparr>e_Seq := i\<rparr> # number_from (i + 1) es"

definition AppendBatch :: "entry list \<Rightarrow> hist \<Rightarrow> herror list \<times> hist" where
  "AppendBatch entries h =
    (let es = number_from (int (length (h_entries h))) entries;
         err = first_err validate es
     in if err \<noteq> [] then (err, h)
        else let (failed, h') = next_fault h
             in if failed then ([TransactionFailed], h')
                else ([], h'\<lparr>h_entries := h_entries h' @ es\<rparr>))"

definition Append :: "entry \<Rightarrow> hist \<Rightarrow> herror list \<times> hist" where
  "Append e h = AppendBatch [e] h"

definition hProject :: "hist \<Rightarrow> projection" where
  "hProject h = Project (h_entries h)"

text \<open>\<open>replay\<close> reads the rows in order and refuses a gap.\<close>

fun replay_rows :: "entry list \<Rightarrow> entry list \<Rightarrow> herror list + entry list" where
  "replay_rows acc [] = Inr acc"
| "replay_rows acc (e # rows) =
    (if e_Seq e \<noteq> int (length acc) then Inl [SequenceCorrupt] else replay_rows (acc @ [e]) rows)"

definition MaxPageSize :: int where "MaxPageSize = 500"

fun page_from :: "nat \<Rightarrow> (entry \<Rightarrow> bool) \<Rightarrow> entry list \<Rightarrow> entry list \<Rightarrow> entry list" where
  "page_from limit p page [] = page"
| "page_from limit p page (e # es) =
    (if p e then (if length (page @ [e]) = limit then page @ [e] else page_from limit p (page @ [e]) es)
     else page_from limit p page es)"

definition ReadPage :: "entry list \<Rightarrow> string \<Rightarrow> string \<Rightarrow> int \<Rightarrow> int \<Rightarrow> entry list" where
  "ReadPage entries sessionID unitID after limit =
    page_from (nat (max 1 (min limit MaxPageSize)))
      (\<lambda>e. e_Seq e > after \<and> (sessionID = [] \<or> e_SessionID e = sessionID) \<and> (unitID = [] \<or> e_WorkUnitID e = unitID))
      [] entries"

section \<open>Execution records\<close>

definition ExecutionFact :: "execution \<Rightarrow> kind \<Rightarrow> string \<Rightarrow> string \<Rightarrow> int list \<Rightarrow> hist \<Rightarrow> herror list \<times> hist" where
  "ExecutionFact d k child phase ids h =
    (case map_of (p_Executions (hProject h)) (x_Dispatch d) of
       None \<Rightarrow> ([NoLongerRuns], h)
     | Some current \<Rightarrow>
         if x_Root current \<noteq> x_Root d \<or> x_Unit current \<noteq> x_Unit d \<or> x_Attempt current \<noteq> x_Attempt d \<or> x_Settled current
         then ([NoLongerRuns], h)
         else Append (zero_entry\<lparr>e_Author := AuthorHarness, e_Kind := k, e_SessionID := x_Root d,
                e_WorkUnitID := x_Unit d, e_AttemptID := x_Attempt d, e_Dispatch := x_Dispatch d,
                e_Child := child, e_Phase := phase, e_ResultIDs := ids, e_Cause := CauseNone\<rparr>) h)"

definition AttachChild :: "string \<Rightarrow> string \<Rightarrow> string \<Rightarrow> hist \<Rightarrow> (herror list + execution) \<times> hist" where
  "AttachChild dispatch child agent h =
    (let p = hProject h; d = mget zero_execution (p_Executions p) dispatch
     in if \<not> mhas (p_Executions p) dispatch \<or> x_Settled d \<or> x_Agent d \<noteq> agent \<or> child = [] then (Inl [NoActiveDelegation], h)
        else if \<not> x_Ready d \<and> x_Cycle d = [] then (Inl [PreparationIncomplete], h)
        else if x_Child d \<noteq> [] then
          (if x_Child d = child then (Inr d, h) else (Inl [OtherChildHolds], h))
        else if \<exists>(i, old) \<in> set (p_Executions p).
               x_Child old = child \<and> x_Dispatch old \<noteq> dispatch \<and> (\<not> x_Settled old \<or> x_Cycle old \<noteq> [])
        then (Inl [ChildBusy], h)
        else case ExecutionFact d KindChild child [] [] h of
               (err, h') \<Rightarrow> if err \<noteq> [] then (Inl err, h') else (Inr (d\<lparr>x_Child := child\<rparr>), h'))"

text \<open>
  \<open>AttachMaintenance\<close>: the loop over the executions returns at the first one that decides;
  \<open>Some []\<close> is its early \<open>nil\<close>. \<open>now\<close> is the clock in Unix milliseconds.
\<close>

fun lane_scan :: "string \<Rightarrow> string \<Rightarrow> string \<Rightarrow> (string, execution) gomap \<Rightarrow> herror list option" where
  "lane_scan cycle role child [] = None"
| "lane_scan cycle role child ((i, d) # ds) =
    (if x_Child d = child \<and> (x_Cycle d \<noteq> cycle \<or> x_Role d \<noteq> role) \<and> (\<not> x_Settled d \<or> x_Cycle d \<noteq> [])
     then Some [ChildOtherDispatch]
     else if x_Settled d \<or> x_Cycle d \<noteq> cycle then lane_scan cycle role child ds
     else if x_Role d = role then (if x_Child d = child then Some [] else Some [ChildAttached])
     else if x_Child d = child then Some [IndependentChildren]
     else lane_scan cycle role child ds)"

definition AttachMaintenance ::
  "string \<Rightarrow> string \<Rightarrow> string \<Rightarrow> string \<Rightarrow> string \<Rightarrow> int \<Rightarrow> hist \<Rightarrow> herror list \<times> hist" where
  "AttachMaintenance root cycle role child owner now h =
    (if cycle = [] \<or> root = [] \<or> child = [] \<or> (role \<noteq> ''collector'' \<and> role \<noteq> ''verifier'') then ([NoActiveCycle], h)
     else case lane_scan cycle role child (p_Executions (hProject h)) of
        Some err \<Rightarrow> (err, h)
      | None \<Rightarrow>
          (let (u, agent) = LaneUnit cycle role
           in Append (zero_entry\<lparr>e_Author := AuthorHarness, e_Kind := KindLane, e_SessionID := root,
                e_WorkUnitID := u, e_AttemptID := NextAttempt (hProject h) root u,
                e_Dispatch := cycle @ ''/'' @ role, e_Agent := agent, e_Caller := root,
                e_Child := child, e_CycleID := cycle, e_Role := role, e_Owner := owner,
                e_CreatedAt := now, e_Cause := CauseNone\<rparr>) h))"

end
