(* ===== verification/Hist_Laws.thy ===== *)
theory Hist_Laws
  imports Hist_Store
begin

text \<open>
  Laws of the replay: how one entry changes the units, the shape every unit of a valid history
  has, the acts that are final, and the session accounting.
\<close>

named_theorems hist \<open>unfolding rules of the replay\<close>

section \<open>Counting in a map\<close>

definition count_map :: "('k \<Rightarrow> 'v \<Rightarrow> bool) \<Rightarrow> ('k, 'v) gomap \<Rightarrow> int" where
  "count_map P m = int (length (filter (\<lambda>(k, v). P k v) m))"

lemma count_map_mput:
  "wf_map m \<Longrightarrow> count_map P (mput k v m) = count_map P m
     - (case map_of m k of None \<Rightarrow> 0 | Some w \<Rightarrow> if P k w then 1 else 0) + (if P k v then 1 else 0)"
proof (induction m)
  case Nil
  then show ?case by (simp add: count_map_def mput_def)
next
  case (Cons p m)
  then have wf: "wf_map m" and new: "fst p \<notin> fst ` set m" by (auto simp: wf_map_def mkeys_def)
  then have none: "map_of m (fst p) = None" by (simp add: map_of_eq_None_iff)
  from Cons.IH [OF wf] none show ?case
    by (cases p) (auto simp: count_map_def mput_def)
qed

lemma InFlight_count: "InFlight p = count_map (\<lambda>k u. u_State u = StateInFlight) (p_Units p)"
  by (simp add: InFlight_def count_map_def)

section \<open>How one entry changes the units and the budgets\<close>

definition accounting :: "kind \<Rightarrow> bool" where
  "accounting k \<longleftrightarrow> k \<in> {KindQARound, KindDenied, KindContested, KindException, KindStopped,
     KindEscalated, KindRecoveryDeclared, KindActions, KindActionsUncertain, KindRestored,
     KindRecoveryClosed, KindInterlocutorSwitched, KindInterlocutorHandoff,
     KindInterlocutorAborted, KindRevised, KindInvalidRevision, KindSeatRestored}"

lemma budgeted_None: "budgeted b e = None \<longleftrightarrow> \<not> accounting (e_Kind e)"
  by (cases "e_Kind e") (simp_all add: budgeted_def accounting_def Let_def)

text \<open>The entries that reach a work unit.\<close>

definition lifecycle :: "entry \<Rightarrow> bool" where
  "lifecycle e \<longleftrightarrow> \<not> executionKind (e_Kind e) \<and> activityKindOf e = None \<and> \<not> accounting (e_Kind e)"

definition entry_key :: "entry \<Rightarrow> string" where
  "entry_key e = UnitKey (e_SessionID e) (e_WorkUnitID e)"

definition unit_after :: "entry \<Rightarrow> bool \<Rightarrow> work_unit \<Rightarrow> work_unit option" where
  "unit_after e known u =
    (if \<not> lifecycle e \<or> \<not> accepts u known (e_Kind e) then None
     else if e_Kind e = KindResult then
       (if e_AttemptID e = u_AttemptID u \<and> prevails (u_Assurance u) e
        then Some (u\<lparr>u_Assurance := Some \<lparr>as_Status = e_Status e, as_Revision = e_Revision e,
               as_Evidence = e_Evidence e, as_Author = e_Author e\<rparr>\<rparr>) else None)
     else Some (next_unit e u))"

lemma p_Units_put_budgets [simp]: "p_Units (put_budgets s b p) = p_Units p"
  by (simp add: put_budgets_def)

lemma p_Units_settle [simp]: "p_Units (settle_executions e p) = p_Units p"
  by (simp add: settle_executions_def)

lemma p_Sessions_settle [simp]: "p_Sessions (settle_executions e p) = p_Sessions p"
  by (simp add: settle_executions_def)

lemma p_Units_foldExecution [simp]: "p_Units (foldExecution e p) = p_Units p"
  by (simp add: foldExecution_def Let_def split: kind.splits)

lemma p_Sessions_foldExecution [simp]: "p_Sessions (foldExecution e p) = p_Sessions p"
  by (simp add: foldExecution_def Let_def split: kind.splits)

lemma p_Units_foldActivity [simp]: "p_Units (foldActivity e nk p) = p_Units p"
  by (simp add: foldActivity_def Let_def split: option.splits)

lemma p_Sessions_foldActivity [simp]: "p_Sessions (foldActivity e nk p) = p_Sessions p"
  by (simp add: foldActivity_def Let_def split: option.splits)

lemma unit_at_settle [simp]: "unit_at (settle_executions e p) s n = unit_at p s n"
  by (simp add: unit_at_def)

lemma unit_known_settle [simp]: "unit_known (settle_executions e p) s n = unit_known p s n"
  by (simp add: unit_known_def)

lemma Budgets_settle [simp]: "Budgets (settle_executions e p) s = Budgets p s"
  by (simp add: Budgets_def)

lemma p_Units_fold_unit:
  "p_Units (fold_unit e b p) =
     (if accepts (unit_at p (e_SessionID e) (e_WorkUnitID e)) (unit_known p (e_SessionID e) (e_WorkUnitID e)) (e_Kind e) then
        (if e_Kind e = KindResult then
           (if e_AttemptID e = u_AttemptID (unit_at p (e_SessionID e) (e_WorkUnitID e))
               \<and> prevails (u_Assurance (unit_at p (e_SessionID e) (e_WorkUnitID e))) e
            then mput (entry_key e) ((unit_at p (e_SessionID e) (e_WorkUnitID e))\<lparr>u_Assurance :=
                   Some \<lparr>as_Status = e_Status e, as_Revision = e_Revision e,
                         as_Evidence = e_Evidence e, as_Author = e_Author e\<rparr>\<rparr>) (p_Units p)
            else p_Units p)
         else mput (entry_key e) (next_unit e (unit_at p (e_SessionID e) (e_WorkUnitID e))) (p_Units p))
      else p_Units p)"
  by (simp add: fold_unit_def Let_def put_unit_def entry_key_def)

lemma fold_entry_units:
  "p_Units (fold_entry e p) =
    (case unit_after e (mhas (p_Units p) (entry_key e)) (mget zero_unit (p_Units p) (entry_key e)) of
       None \<Rightarrow> p_Units p | Some u \<Rightarrow> mput (entry_key e) u (p_Units p))"
proof (cases "lifecycle e")
  case True
  then have "activityKindOf e = None" "\<not> executionKind (e_Kind e)"
    and none: "\<And>b. budgeted b e = None"
    by (auto simp: lifecycle_def budgeted_None)
  then have "p_Units (fold_entry e p) = p_Units (fold_unit e
      (let b0 = Budgets p (e_SessionID e) in
       if e_Kind e = KindPlanned then b0\<lparr>b_PlanVersion := e_PlanVersion e\<rparr> else b0) (settle_executions e p))"
    by (simp add: fold_entry_def Let_def)
  with True show ?thesis
    by (simp add: p_Units_fold_unit unit_after_def entry_key_def unit_at_def unit_known_def)
next
  case False
  have some: "budgeted b e \<noteq> None" if "accounting (e_Kind e)" for b
    using that budgeted_None [of b e] by auto
  from False consider "executionKind (e_Kind e)" | nk where "\<not> executionKind (e_Kind e)" "activityKindOf e = Some nk"
    | "\<not> executionKind (e_Kind e)" "activityKindOf e = None" "accounting (e_Kind e)"
    by (auto simp: lifecycle_def)
  then show ?thesis
  proof cases
    case 3
    then have "e_Kind e \<noteq> KindPlanned" by (auto simp: accounting_def)
    moreover obtain b where "budgeted (Budgets p (e_SessionID e)) e = Some b"
      using some 3 by fast
    ultimately show ?thesis using 3 False by (simp add: fold_entry_def Let_def unit_after_def)
  qed (use False in \<open>simp_all add: fold_entry_def unit_after_def Let_def\<close>)
qed

lemma map_of_fold_entry:
  "map_of (p_Units (fold_entry e p)) k =
    (if k = entry_key e then
       (case unit_after e (mhas (p_Units p) k) (mget zero_unit (p_Units p) k) of
          None \<Rightarrow> map_of (p_Units p) k | Some u \<Rightarrow> Some u)
     else map_of (p_Units p) k)"
  by (auto simp: fold_entry_units split: option.splits)

text \<open>A property of one unit that every entry keeps holds of it along a whole history.\<close>

lemma unit_kept:
  assumes "map_of (p_Units p) k = Some u" and "P u"
    and "\<And>e u u'. e \<in> set es \<Longrightarrow> entry_key e = k \<Longrightarrow> P u \<Longrightarrow> unit_after e True u = Some u' \<Longrightarrow> P u'"
  shows "\<exists>u'. map_of (p_Units (fold fold_entry es p)) k = Some u' \<and> P u'"
  using assms
proof (induction es arbitrary: p u)
  case (Cons e es)
  have "\<exists>u1. map_of (p_Units (fold_entry e p)) k = Some u1 \<and> P u1"
  proof (cases "entry_key e = k \<and> unit_after e True u \<noteq> None")
    case True
    then obtain v where v: "entry_key e = k" "unit_after e True u = Some v" by auto
    with Cons.prems(1) have "map_of (p_Units (fold_entry e p)) k = Some v"
      by (simp add: map_of_fold_entry mget_def mhas_def)
    with v Cons.prems(2) Cons.prems(3) [of e u v] show ?thesis by simp
  next
    case False
    with Cons.prems(1) have "map_of (p_Units (fold_entry e p)) k = Some u"
      by (auto simp: map_of_fold_entry mget_def mhas_def)
    with Cons.prems(2) show ?thesis by simp
  qed
  then obtain u1 where u1: "map_of (p_Units (fold_entry e p)) k = Some u1" "P u1" by blast
  have "\<exists>u'. map_of (p_Units (fold fold_entry es (fold_entry e p))) k = Some u' \<and> P u'"
    by (rule Cons.IH [OF u1]) (use Cons.prems(3) in auto)
  then show ?case by simp
qed auto

section \<open>Acts that are final\<close>

lemma unit_after_withdrawn: "u_State u = StateWithdrawn \<Longrightarrow> unit_after e True u = None"
  by (cases "e_Kind e") (simp_all add: unit_after_def accepts_def)

lemma withdrawn_final:
  assumes "map_of (p_Units p) k = Some u" and "u_State u = StateWithdrawn"
  shows "map_of (p_Units (fold fold_entry es p)) k = Some u"
  using unit_kept [OF assms(1), of "\<lambda>v. v = u" es] assms(2) unit_after_withdrawn by auto

lemma next_unit_committed:
  "e_Kind e \<noteq> KindPlanned \<Longrightarrow> u_Contract (next_unit e u) = u_Contract u
     \<and> u_Prerequisites (next_unit e u) = u_Prerequisites u \<and> u_Committed (next_unit e u) = u_Committed u"
  by (cases "e_Kind e") (simp_all add: next_unit_def Let_def)

lemma next_unit_state:
  "u_State (next_unit e u) = (case e_Kind e of KindPlanned \<Rightarrow> StatePlanned
     | KindWithdrawn \<Rightarrow> StateWithdrawn | KindTerminated \<Rightarrow> StateSettled | _ \<Rightarrow> StateInFlight)"
  by (cases "e_Kind e") (simp_all add: next_unit_def Let_def)

lemma unit_after_admitted:
  assumes "unit_after e True u = Some u'" and "u_State u = StateInFlight \<or> u_State u = StateSettled"
  shows "(u_State u' = StateInFlight \<or> u_State u' = StateSettled) \<and> u_Contract u' = u_Contract u
    \<and> u_Prerequisites u' = u_Prerequisites u \<and> u_Committed u' = u_Committed u"
  using assms next_unit_committed [of e u] next_unit_state [of e u]
  by (cases "e_Kind e") (auto simp: unit_after_def accepts_def split: if_splits)

lemma admitted_frozen:
  assumes "map_of (p_Units p) k = Some u" and "u_State u = StateInFlight \<or> u_State u = StateSettled"
  shows "\<exists>u'. map_of (p_Units (fold fold_entry es p)) k = Some u'
    \<and> (u_State u' = StateInFlight \<or> u_State u' = StateSettled) \<and> u_Contract u' = u_Contract u
    \<and> u_Prerequisites u' = u_Prerequisites u \<and> u_Committed u' = u_Committed u"
  using unit_kept [OF assms(1), of "\<lambda>v. (u_State v = StateInFlight \<or> u_State v = StateSettled)
      \<and> u_Contract v = u_Contract u \<and> u_Prerequisites v = u_Prerequisites u \<and> u_Committed v = u_Committed u" es]
    assms(2) unit_after_admitted by fastforce

text \<open>Settled work is rewritten by nothing but its next admission.\<close>

lemma unit_after_settled:
  assumes "unit_after e True u = Some u'" and "u_State u = StateSettled" and "e_Kind e \<noteq> KindAdmitted"
  shows "\<exists>a. u' = u\<lparr>u_Assurance := a\<rparr>"
  using assms by (cases "e_Kind e") (auto simp: unit_after_def accepts_def split: if_splits)

lemma settled_stands:
  assumes "map_of (p_Units p) k = Some u" and "u_State u = StateSettled"
    and "\<And>e. e \<in> set es \<Longrightarrow> entry_key e = k \<Longrightarrow> e_Kind e \<noteq> KindAdmitted"
  shows "\<exists>a. map_of (p_Units (fold fold_entry es p)) k = Some (u\<lparr>u_Assurance := a\<rparr>)"
proof -
  have "\<exists>v. map_of (p_Units (fold fold_entry es p)) k = Some v \<and> (\<exists>a. v = u\<lparr>u_Assurance := a\<rparr>)"
  proof (rule unit_kept [OF assms(1)])
    show "\<exists>a. u = u\<lparr>u_Assurance := a\<rparr>" by (rule exI [of _ "u_Assurance u"]) simp
  next
    fix e v v'
    assume e: "e \<in> set es" "entry_key e = k" and v: "\<exists>a. v = u\<lparr>u_Assurance := a\<rparr>"
      and v': "unit_after e True v = Some v'"
    from v assms(2) have "u_State v = StateSettled" by auto
    from unit_after_settled [OF v' this assms(3) [OF e]] v
    show "\<exists>a. v' = u\<lparr>u_Assurance := a\<rparr>" by auto
  qed
  then show ?thesis by blast
qed

section \<open>The shape of a unit\<close>

definition unit_shape :: "work_unit \<Rightarrow> bool" where
  "unit_shape u \<longleftrightarrow>
     u_State u \<noteq> StateNone
   \<and> (u_State u = StateInFlight \<longleftrightarrow> u_Flight u \<noteq> FlightNone)
   \<and> (u_State u = StateSettled \<longleftrightarrow> u_Outcome u \<noteq> OutcomeNone)
   \<and> (u_Launched u \<or> u_CancelRequested u \<or> u_Assurance u \<noteq> None
        \<longrightarrow> u_State u = StateInFlight \<or> u_State u = StateSettled)
   \<and> (u_State u = StatePlanned \<or> u_State u = StateWithdrawn \<longrightarrow> u_Committed u)"

lemma validate_lifecycle:
  assumes "validate e = []" and "lifecycle e"
  shows "e_Kind e \<in> {KindPlanned, KindWithdrawn, KindAdmitted, KindLaunched, KindUncertain,
      KindUnmonitored, KindSuspended, KindCancelRequested, KindTerminated, KindResult}"
    and "e_Kind e = KindTerminated \<longleftrightarrow> e_Outcome e \<noteq> OutcomeNone"
proof -
  from assms have 1: "validateIdentity e = Inr False"
    by (auto simp: lifecycle_def validate_def validateIdentity_def split: sum.splits option.splits if_splits)
  then show "e_Kind e \<in> {KindPlanned, KindWithdrawn, KindAdmitted, KindLaunched, KindUncertain,
      KindUnmonitored, KindSuspended, KindCancelRequested, KindTerminated, KindResult}"
    using assms(2) by (cases "e_Kind e") (auto simp: lifecycle_def accounting_def activityKindOf_def validateIdentity_def)
  from 1 assms have "validateOutcomeShape e = []"
    by (auto simp: lifecycle_def validate_def split: if_splits)
  then show "e_Kind e = KindTerminated \<longleftrightarrow> e_Outcome e \<noteq> OutcomeNone"
    using assms(2) by (auto simp: validateOutcomeShape_def lifecycle_def accounting_def activityKindOf_def
        isActivityFinished_def Let_def split: if_splits)
qed

lemma next_unit_shape:
  assumes "e_Kind e \<in> {KindPlanned, KindWithdrawn, KindAdmitted, KindLaunched, KindUncertain,
      KindUnmonitored, KindSuspended, KindCancelRequested, KindTerminated}"
    and "e_Kind e = KindTerminated \<longleftrightarrow> e_Outcome e \<noteq> OutcomeNone"
    and "accepts u known (e_Kind e)" and "if known then unit_shape u else u = zero_unit"
  shows "unit_shape (next_unit e u)"
proof (cases known)
  case True
  with assms(4) have "unit_shape u" by simp
  with assms(1-3) True show ?thesis
    by (elim insertE emptyE; simp add: accepts_def unit_shape_def next_unit_def Let_def)
next
  case False
  with assms(4) have "u = zero_unit" by simp
  with assms(1-3) False show ?thesis
    by (elim insertE emptyE; simp add: accepts_def unit_shape_def next_unit_def Let_def zero_unit_def)
qed

lemma unit_after_shape:
  assumes "validate e = []" and "unit_after e known u = Some u'"
    and "if known then unit_shape u else u = zero_unit"
  shows "unit_shape u'"
proof -
  from assms(2) have life: "lifecycle e" and acc: "accepts u known (e_Kind e)"
    by (auto simp: unit_after_def split: if_splits)
  note valid = validate_lifecycle [OF assms(1) life]
  show ?thesis
  proof (cases "e_Kind e = KindResult")
    case True
    with assms(2) obtain a where "u' = u\<lparr>u_Assurance := Some a\<rparr>"
      by (auto simp: unit_after_def split: if_splits)
    with True acc assms(3) show ?thesis by (auto simp: unit_shape_def accepts_def)
  next
    case False
    with assms(2) have "u' = next_unit e u" by (auto simp: unit_after_def split: if_splits)
    with False valid next_unit_shape [OF _ valid(2) acc assms(3)] show ?thesis by simp
  qed
qed

lemma units_shape:
  assumes "\<And>e. e \<in> set es \<Longrightarrow> validate e = []"
    and "\<And>k u. map_of (p_Units p) k = Some u \<Longrightarrow> unit_shape u"
  shows "map_of (p_Units (fold fold_entry es p)) k = Some u \<Longrightarrow> unit_shape u"
  using assms
proof (induction es arbitrary: p)
  case (Cons e es)
  have shape: "unit_shape v" if v: "map_of (p_Units (fold_entry e p)) j = Some v" for j v
  proof (cases "unit_after e (mhas (p_Units p) j) (mget zero_unit (p_Units p) j)")
    case None
    with v Cons.prems(3) show ?thesis by (auto simp: map_of_fold_entry split: if_splits)
  next
    case (Some w)
    have "unit_shape w"
      by (rule unit_after_shape [OF _ Some])
        (use Cons.prems in \<open>auto simp: mhas_def mget_def split: option.splits\<close>)
    with Some v Cons.prems(3) show ?thesis by (auto simp: map_of_fold_entry split: if_splits)
  qed
  show ?case
    by (rule Cons.IH) (use Cons.prems shape in auto)
qed auto


section \<open>Session accounting\<close>

definition budgets_after :: "entry \<Rightarrow> projection \<Rightarrow> budgets" where
  "budgets_after e p =
    (let b0 = Budgets p (e_SessionID e);
         b = (if e_Kind e = KindPlanned then b0\<lparr>b_PlanVersion := e_PlanVersion e\<rparr> else b0);
         known = mhas (p_Units p) (entry_key e); u = mget zero_unit (p_Units p) (entry_key e)
     in case budgeted b e of Some b' \<Rightarrow> b'
        | None \<Rightarrow> if accepts u known (e_Kind e) \<and> e_Kind e \<noteq> KindResult then admit_budgets e known b else b)"

lemma p_Sessions_put_unit [simp]: "p_Sessions (put_unit s n u p) = p_Sessions p"
  by (simp add: put_unit_def)

lemma p_Sessions_put_budgets [simp]: "p_Sessions (put_budgets s b p) = mput s b (p_Sessions p)"
  by (simp add: put_budgets_def)

lemma fold_entry_sessions:
  "p_Sessions (fold_entry e p) =
    (if executionKind (e_Kind e) \<or> activityKindOf e \<noteq> None then p_Sessions p
     else mput (e_SessionID e) (budgets_after e p) (p_Sessions p))"
proof -
  have "p_Sessions (fold_unit e b (settle_executions e p)) = mput (e_SessionID e)
     (if accepts (mget zero_unit (p_Units p) (entry_key e)) (mhas (p_Units p) (entry_key e)) (e_Kind e) \<and> e_Kind e \<noteq> KindResult
      then admit_budgets e (mhas (p_Units p) (entry_key e)) b else b) (p_Sessions p)" for b
    by (simp add: fold_unit_def Let_def unit_at_def unit_known_def entry_key_def)
  then show ?thesis
    by (simp add: fold_entry_def Let_def budgets_after_def split: option.splits)
qed

lemma Budgets_fold_entry:
  "Budgets (fold_entry e p) s =
    (if executionKind (e_Kind e) \<or> activityKindOf e \<noteq> None \<or> s \<noteq> e_SessionID e then Budgets p s
     else budgets_after e p)"
  by (simp add: Budgets_def fold_entry_sessions)

lemma b_Unplanned_put_recovery [simp]: "b_Unplanned (put_recovery obj r b) = b_Unplanned b"
  by (simp add: put_recovery_def)

lemma b_Unplanned_budgeted: "budgeted b e = Some b' \<Longrightarrow> b_Unplanned b' = b_Unplanned b"
  by (cases "e_Kind e")
    (auto simp: budgeted_def Let_def fold_exception_def fold_recovery_closed_def split: option.splits if_splits)

lemma b_Unplanned_admit: "b_Unplanned (admit_budgets e known b) =
    (if e_Kind e = KindAdmitted \<and> \<not> known then wrap_int (b_Unplanned b + 1) else b_Unplanned b)"
  by (simp add: admit_budgets_def Let_def split: option.splits)

lemma b_Unplanned_after:
  "b_Unplanned (budgets_after e p) =
     (if e_Kind e = KindAdmitted \<and> \<not> mhas (p_Units p) (entry_key e)
      then wrap_int (b_Unplanned (Budgets p (e_SessionID e)) + 1) else b_Unplanned (Budgets p (e_SessionID e)))"
proof (cases "accounting (e_Kind e)")
  case True
  then have k: "e_Kind e \<noteq> KindPlanned" "e_Kind e \<noteq> KindAdmitted" by (auto simp: accounting_def)
  obtain b' where "budgeted (Budgets p (e_SessionID e)) e = Some b'"
    using True budgeted_None by fast
  with k b_Unplanned_budgeted [OF this] show ?thesis by (simp add: budgets_after_def Let_def)
next
  case False
  then have "\<And>b. budgeted b e = None" by (simp add: budgeted_None)
  then show ?thesis by (auto simp: budgets_after_def Let_def b_Unplanned_admit accepts_def)
qed

text \<open>
  The uncovered count of a session is the number of its units no commitment declared. The
  invariant speaks of histories whose session identities hold no NUL byte, the separator of
  the unit keys.
\<close>

definition nul_free :: "string \<Rightarrow> bool" where
  "nul_free s \<longleftrightarrow> CHR 0x00 \<notin> set s"

definition uncovered :: "projection \<Rightarrow> string \<Rightarrow> int" where
  "uncovered p s = count_map (\<lambda>k u. u_SessionID u = s \<and> \<not> u_Committed u) (p_Units p)"

definition keyed :: "projection \<Rightarrow> bool" where
  "keyed p \<longleftrightarrow> wf_map (p_Units p) \<and> (\<forall>k u. map_of (p_Units p) k = Some u \<longrightarrow>
     unit_shape u \<and> k = UnitKey (u_SessionID u) (u_WorkUnitID u) \<and> nul_free (u_SessionID u))"

lemma next_unit_identity:
  "u_SessionID (next_unit e u) = e_SessionID e \<and> u_WorkUnitID (next_unit e u) = e_WorkUnitID e"
  by (cases "e_Kind e") (simp_all add: next_unit_def Let_def)

lemma unit_after_identity:
  assumes "unit_after e known u = Some u'"
  shows "(u_SessionID u' = e_SessionID e \<and> u_WorkUnitID u' = e_WorkUnitID e)
     \<or> (known \<and> u_SessionID u' = u_SessionID u \<and> u_WorkUnitID u' = u_WorkUnitID u)"
  using assms next_unit_identity [of e u] by (auto simp: unit_after_def accepts_def split: if_splits)

lemma keyed_fold_entry:
  assumes "keyed p" and "validate e = []" and "nul_free (e_SessionID e)"
  shows "keyed (fold_entry e p)"
proof -
  let ?known = "mhas (p_Units p) (entry_key e)" and ?u = "mget zero_unit (p_Units p) (entry_key e)"
  have u: "if ?known then unit_shape ?u else ?u = zero_unit"
    using assms(1) by (auto simp: keyed_def mhas_def mget_def split: option.splits)
  show ?thesis
  proof (cases "unit_after e ?known ?u")
    case None
    with assms(1) show ?thesis by (simp add: keyed_def fold_entry_units)
  next
    case (Some u')
    have "unit_shape u'" by (rule unit_after_shape [OF assms(2) Some u])
    moreover have "entry_key e = UnitKey (u_SessionID u') (u_WorkUnitID u') \<and> nul_free (u_SessionID u')"
    proof (cases "u_SessionID u' = e_SessionID e \<and> u_WorkUnitID u' = e_WorkUnitID e")
      case True
      with assms(3) show ?thesis by (simp add: entry_key_def)
    next
      case False
      with unit_after_identity [OF Some] obtain v where "map_of (p_Units p) (entry_key e) = Some v"
        "u_SessionID u' = u_SessionID v" "u_WorkUnitID u' = u_WorkUnitID v"
        by (auto simp: mhas_def mget_def)
      with assms(1) show ?thesis by (simp add: keyed_def)
    qed
    moreover have "wf_map (p_Units p)" and
      "\<And>k v. map_of (p_Units p) k = Some v \<Longrightarrow> unit_shape v \<and> k = UnitKey (u_SessionID v) (u_WorkUnitID v) \<and> nul_free (u_SessionID v)"
      using assms(1) by (simp_all add: keyed_def)
    moreover have "p_Units (fold_entry e p) = mput (entry_key e) u' (p_Units p)"
      using Some by (simp add: fold_entry_units)
    ultimately show ?thesis by (simp add: keyed_def)
  qed
qed

lemma next_unit_cover:
  "u_Committed (next_unit e u) \<longleftrightarrow> e_Kind e = KindPlanned \<or> u_Committed u"
  by (cases "e_Kind e") (simp_all add: next_unit_def Let_def)

lemma unit_after_committed:
  assumes "validate e = []" and "unit_after e known u = Some u'"
    and "if known then unit_shape u else u = zero_unit"
  shows "u_Committed u' \<longleftrightarrow> (if known then u_Committed u else e_Kind e \<noteq> KindAdmitted)"
proof -
  from assms(2) have life: "lifecycle e" and acc: "accepts u known (e_Kind e)"
    by (auto simp: unit_after_def split: if_splits)
  have kinds: "e_Kind e = KindPlanned \<or> e_Kind e = KindAdmitted" if "\<not> known"
    using that acc assms(3) validate_lifecycle(1) [OF assms(1) life] by (auto simp: accepts_def zero_unit_def)
  have cover: "u_Committed u' \<longleftrightarrow> e_Kind e = KindPlanned \<or> u_Committed u"
    using assms(2) next_unit_cover [of e u] by (auto simp: unit_after_def split: if_splits)
  have planned: "known \<Longrightarrow> e_Kind e = KindPlanned \<Longrightarrow> u_Committed u"
    using acc assms(3) by (simp add: accepts_def unit_shape_def)
  show ?thesis
    using cover kinds planned assms(3) by (cases known) (auto simp: zero_unit_def)
qed

lemma uncovered_fold_entry:
  assumes "keyed p" and "validate e = []" and nul: "nul_free (e_SessionID e)"
  shows "uncovered (fold_entry e p) s = uncovered p s
    + (if lifecycle e \<and> e_SessionID e = s \<and> e_Kind e = KindAdmitted \<and> \<not> mhas (p_Units p) (entry_key e) then 1 else 0)"
proof -
  let ?known = "mhas (p_Units p) (entry_key e)" and ?u = "mget zero_unit (p_Units p) (entry_key e)"
  have wf: "wf_map (p_Units p)" using assms(1) by (simp add: keyed_def)
  have u: "if ?known then unit_shape ?u else ?u = zero_unit"
    using assms(1) by (auto simp: keyed_def mhas_def mget_def split: option.splits)
  have sess: "u_SessionID ?u = e_SessionID e" if "?known"
  proof -
    from that obtain v where v: "map_of (p_Units p) (entry_key e) = Some v" by (auto simp: mhas_def)
    with assms(1) have "entry_key e = UnitKey (u_SessionID v) (u_WorkUnitID v)" "nul_free (u_SessionID v)"
      by (auto simp: keyed_def)
    with nul v show ?thesis
      by (simp add: entry_key_def nul_free_def UnitKey_inject mget_def)
  qed
  show ?thesis
  proof (cases "unit_after e ?known ?u")
    case None
    then have "\<not> (lifecycle e \<and> e_Kind e = KindAdmitted \<and> \<not> ?known)"
      by (auto simp: unit_after_def accepts_def split: if_splits)
    with None show ?thesis by (auto simp: uncovered_def fold_entry_units)
  next
    case (Some u')
    note com = unit_after_committed [OF assms(2) Some u]
    have life: "lifecycle e" using Some by (auto simp: unit_after_def split: if_splits)
    have sess': "u_SessionID u' = e_SessionID e"
      using unit_after_identity [OF Some] sess by auto
    have old: "map_of (p_Units p) (entry_key e) = (if ?known then Some ?u else None)"
      by (auto simp: mhas_def mget_def)
    have kinds: "\<not> ?known \<Longrightarrow> e_Kind e = KindAdmitted \<or> e_Kind e = KindPlanned"
      using Some u validate_lifecycle(1) [OF assms(2) life]
      by (auto simp: unit_after_def accepts_def zero_unit_def split: if_splits)
    show ?thesis
      using Some com sess sess' life kinds
      by (simp add: uncovered_def fold_entry_units count_map_mput [OF wf] old)
  qed
qed

lemma unplanned_fold:
  assumes "\<And>e. e \<in> set es \<Longrightarrow> validate e = [] \<and> nul_free (e_SessionID e)"
    and "keyed p" and "\<And>s. b_Unplanned (Budgets p s) = wrap_int (uncovered p s)"
  shows "b_Unplanned (Budgets (fold fold_entry es p) s) = wrap_int (uncovered (fold fold_entry es p) s)"
  using assms
proof (induction es arbitrary: p)
  case (Cons e es)
  have e: "validate e = []" "nul_free (e_SessionID e)" using Cons.prems(1) [of e] by auto
  have adm: "e_Kind e = KindAdmitted \<Longrightarrow> lifecycle e"
    by (simp add: lifecycle_def accounting_def activityKindOf_def)
  have step: "b_Unplanned (Budgets (fold_entry e p) r) = wrap_int (uncovered (fold_entry e p) r)" for r
    using Cons.prems(3) [of r] adm uncovered_fold_entry [OF Cons.prems(2) e, of r]
    by (auto simp: Budgets_fold_entry b_Unplanned_after lifecycle_def)
  show ?case
    using Cons.IH [OF _ keyed_fold_entry [OF Cons.prems(2) e] step] Cons.prems(1) by simp
qed simp

lemma keyed_new [simp]: "keyed newProjection"
  by (simp add: keyed_def newProjection_def)

lemma Budgets_new [simp]: "Budgets newProjection s = zero_budgets"
  by (simp add: Budgets_def newProjection_def)


section \<open>Contests are never forgotten\<close>

definition budgets_grow :: "budgets \<Rightarrow> budgets \<Rightarrow> bool" where
  "budgets_grow b b' \<longleftrightarrow> set (mkeys (b_Contests b)) \<subseteq> set (mkeys (b_Contests b'))"

lemma budgets_grow_refl [simp]: "budgets_grow b b"
  by (simp add: budgets_grow_def)

lemma budgets_grow_trans: "budgets_grow a b \<Longrightarrow> budgets_grow b c \<Longrightarrow> budgets_grow a c"
  unfolding budgets_grow_def by (blast intro: order_trans)

lemma put_recovery_fields [simp]:
  "b_Stopped (put_recovery obj r b) = b_Stopped b"
  "b_Escalated (put_recovery obj r b) = b_Escalated b"
  "b_Contests (put_recovery obj r b) = b_Contests b"
  "b_Allowance (put_recovery obj r b) = b_Allowance b"
  by (simp_all add: put_recovery_def)

lemma allowance_put_recovery [simp]: "allowance (put_recovery obj r b) k = allowance b k"
  by (simp add: allowance_def)

lemma budgets_grow_budgeted:
  assumes "budgeted b e = Some b'"
  shows "budgets_grow b b'"
  using assms
  by (cases "e_Kind e")
    (auto simp: budgeted_def Let_def budgets_grow_def mkeys_mput fold_exception_def fold_recovery_closed_def
      split: option.splits)

lemma budgets_grow_admit: "budgets_grow b (admit_budgets e known b)"
  by (auto simp: admit_budgets_def Let_def budgets_grow_def put_recovery_def split: option.splits)

lemma budgets_grow_version: "budgets_grow b (b\<lparr>b_PlanVersion := v\<rparr>)"
  by (simp add: budgets_grow_def)

lemma validateIdentity_refusal: "validateIdentity e \<noteq> Inl []"
  by (simp add: validateIdentity_def split: option.splits)

lemma validate_exception:
  assumes "validate e = []" and "e_Kind e = KindException"
  shows "e_Bound e \<in> set bounds \<and> 0 < e_Allowance e"
  using assms validateIdentity_refusal [of e]
  by (auto simp: validate_def validateKindFields_def split: sum.splits if_splits)

lemma budgets_grow_after: "budgets_grow (Budgets p (e_SessionID e)) (budgets_after e p)"
proof -
  define b where "b = (if e_Kind e = KindPlanned then (Budgets p (e_SessionID e))\<lparr>b_PlanVersion := e_PlanVersion e\<rparr>
    else Budgets p (e_SessionID e))"
  have 1: "budgets_grow (Budgets p (e_SessionID e)) b"
    by (simp add: b_def budgets_grow_version)
  have "budgets_grow b (budgets_after e p)"
  proof (cases "budgeted b e")
    case None
    then show ?thesis
      by (simp add: budgets_after_def Let_def b_def [symmetric] budgets_grow_admit)
  next
    case (Some b')
    then have "budgets_after e p = b'" by (simp add: budgets_after_def Let_def b_def [symmetric])
    moreover have "budgets_grow b b'"
      by (rule budgets_grow_budgeted [OF Some])
    ultimately show ?thesis by simp
  qed
  with 1 show ?thesis by (rule budgets_grow_trans)
qed

lemma budgets_grow_fold: "budgets_grow (Budgets p s) (Budgets (fold fold_entry es p) s)"
proof (induction es arbitrary: p)
  case (Cons e es)
  have "budgets_grow (Budgets p s) (Budgets (fold_entry e p) s)"
    using budgets_grow_after [of p e] by (simp add: Budgets_fold_entry)
  with Cons.IH [of "fold_entry e p"] show ?case by (simp add: budgets_grow_trans)
qed simp

text \<open>The allowance of a key is the wrapped sum of what its exceptions granted.\<close>

definition granted :: "entry list \<Rightarrow> string \<Rightarrow> string \<Rightarrow> int" where
  "granted es s key = sum_list (map e_Allowance (filter (\<lambda>e. e_Kind e = KindException
     \<and> e_SessionID e = s \<and> AllowanceKey (e_Bound e) (e_Objective e) = key) es))"

lemma allowance_exception:
  "allowance (fold_exception b e) key =
    (if AllowanceKey (e_Bound e) (e_Objective e) = key then wrap_int (allowance b key + e_Allowance e) else allowance b key)"
  by (auto simp: fold_exception_def Let_def) (auto simp: allowance_def)

lemma allowance_budgeted:
  assumes "budgeted b e = Some b'" and "e_Kind e \<noteq> KindException"
  shows "allowance b' key = allowance b key"
  using assms
  by (cases "e_Kind e")
    (auto simp: budgeted_def Let_def allowance_def fold_recovery_closed_def split: option.splits)

lemma allowance_admit [simp]: "allowance (admit_budgets e known b) key = allowance b key"
  by (simp add: admit_budgets_def Let_def allowance_def split: option.splits)

lemma allowance_version [simp]: "allowance (b\<lparr>b_PlanVersion := v\<rparr>) key = allowance b key"
  by (simp add: allowance_def)

lemma allowance_after:
  "allowance (budgets_after e p) key =
    (if e_Kind e = KindException \<and> AllowanceKey (e_Bound e) (e_Objective e) = key
     then wrap_int (allowance (Budgets p (e_SessionID e)) key + e_Allowance e)
     else allowance (Budgets p (e_SessionID e)) key)"
proof (cases "e_Kind e = KindException")
  case True
  then show ?thesis by (simp add: budgets_after_def Let_def budgeted_def allowance_exception)
next
  case False
  then show ?thesis
    by (auto simp: budgets_after_def Let_def split: option.splits dest: allowance_budgeted [where key = key])
qed

lemma allowance_fold:
  "wrap_int (allowance (Budgets p s) key) = allowance (Budgets p s) key \<Longrightarrow>
   allowance (Budgets (fold fold_entry es p) s) key = wrap_int (allowance (Budgets p s) key + granted es s key)"
proof (induction es arbitrary: p)
  case (Cons e es)
  let ?a = "allowance (Budgets p s) key"
  have kind: "\<not> executionKind (e_Kind e) \<and> activityKindOf e = None" if "e_Kind e = KindException"
    using that by (simp add: activityKindOf_def)
  have step: "allowance (Budgets (fold_entry e p) s) key = wrap_int (?a + granted [e] s key)"
    using Cons.prems kind by (auto simp: Budgets_fold_entry allowance_after granted_def)
  moreover have "wrap_int (wrap_int x) = wrap_int x" for x
    using wrap_int_add_left [of x 0] by simp
  ultimately have "wrap_int (allowance (Budgets (fold_entry e p) s) key) = allowance (Budgets (fold_entry e p) s) key"
    by simp
  from Cons.IH [OF this] step show ?case by (simp add: granted_def add.assoc)
qed (simp add: granted_def)

lemma allowance_Project: "allowance (Budgets (Project es) s) key = wrap_int (granted es s key)"
  using allowance_fold [of newProjection s key es] by (simp add: Project_def allowance_def zero_budgets_def)

section \<open>Assurance\<close>

definition evaluated_at :: "work_unit \<Rightarrow> revision \<Rightarrow> bool" where
  "evaluated_at u r \<longleftrightarrow> (\<exists>a r'. u_Assurance u = Some a \<and> as_Revision a = Some r' \<and> r \<le> r')"

lemma next_unit_assurance: "e_Kind e \<noteq> KindAdmitted \<Longrightarrow> u_Assurance (next_unit e u) = u_Assurance u"
  by (cases "e_Kind e") (simp_all add: next_unit_def Let_def)

lemma unit_after_evaluated:
  assumes "unit_after e True u = Some u'" and "e_Kind e \<noteq> KindAdmitted" and "evaluated_at u r"
  shows "evaluated_at u' r"
  using assms next_unit_assurance [of e u]
  by (auto simp: unit_after_def evaluated_at_def prevails_def split: if_splits option.splits)

section \<open>Executions\<close>

definition same_link :: "execution \<Rightarrow> execution \<Rightarrow> bool" where
  "same_link d d' \<longleftrightarrow> x_Dispatch d' = x_Dispatch d \<and> x_Root d' = x_Root d \<and> x_Unit d' = x_Unit d
     \<and> x_Attempt d' = x_Attempt d \<and> x_Agent d' = x_Agent d \<and> x_Caller d' = x_Caller d
     \<and> x_Cycle d' = x_Cycle d \<and> x_Role d' = x_Role d \<and> x_Inputs d' = x_Inputs d
     \<and> x_Model d' = x_Model d \<and> x_Substitute d' = x_Substitute d \<and> x_Owner d' = x_Owner d
     \<and> x_AdmittedAt d' = x_AdmittedAt d \<and> (x_Ready d \<longrightarrow> x_Ready d')
     \<and> (x_Terminated d \<longrightarrow> x_Terminated d') \<and> (x_Settled d \<longrightarrow> x_Settled d')
     \<and> set (x_Delivery d) \<subseteq> set (x_Delivery d')"

lemma same_link_refl [simp]: "same_link d d"
  by (simp add: same_link_def)

lemma same_link_trans: "same_link a b \<Longrightarrow> same_link b c \<Longrightarrow> same_link a c"
  by (auto simp: same_link_def)

lemma set_delivery:
  "set (fold (\<lambda>i ids. if i \<in> set ids then ids else ids @ [i]) js ids) = set ids \<union> set js"
  by (induction js arbitrary: ids) auto

lemma p_Executions_fold_unit [simp]: "p_Executions (fold_unit e b p) = p_Executions p"
  by (simp add: fold_unit_def Let_def put_unit_def put_budgets_def)

lemma p_Executions_foldActivity [simp]: "p_Executions (foldActivity e nk p) = p_Executions p"
  by (simp add: foldActivity_def Let_def split: option.splits)

lemma p_Executions_put_budgets [simp]: "p_Executions (put_budgets s b p) = p_Executions p"
  by (simp add: put_budgets_def)

lemma p_Executions_fold_entry:
  "p_Executions (fold_entry e p) =
    (if executionKind (e_Kind e) then p_Executions (foldExecution e p) else p_Executions (settle_executions e p))"
  by (simp add: fold_entry_def Let_def split: option.splits)

lemma map_of_settle:
  "map_of (p_Executions (settle_executions e p)) i = map_option (\<lambda>d.
     if e_Kind e = KindTerminated \<and> x_Root d = e_SessionID e \<and> x_Unit d = e_WorkUnitID e \<and> x_Attempt d = e_AttemptID e
     then d\<lparr>x_Settled := True\<rparr> else d) (map_of (p_Executions p) i)"
proof -
  have "map_of (map (\<lambda>(i, d). if P d then (i, f d) else (i, d)) m) i
      = map_option (\<lambda>d. if P d then f d else d) (map_of m i)" for P f and m :: "(string, execution) gomap"
    by (induction m) auto
  then show ?thesis
    by (cases "e_Kind e = KindTerminated") (auto simp: settle_executions_def option.map_ident)
qed

lemma link_step:
  assumes "map_of (p_Executions p) i = Some d" and "x_Dispatch d \<noteq> []"
  shows "\<exists>d'. map_of (p_Executions (fold_entry e p)) i = Some d' \<and> same_link d d'"
proof (cases "executionKind (e_Kind e)")
  case True
  with assms show ?thesis
    by (cases "e_Kind e")
      (auto simp: p_Executions_fold_entry foldExecution_def Let_def mget_def same_link_def set_delivery split: if_splits)
next
  case False
  with assms show ?thesis
    by (auto simp: p_Executions_fold_entry map_of_settle same_link_def)
qed

lemma link_fold:
  assumes "map_of (p_Executions p) i = Some d" and "x_Dispatch d \<noteq> []"
  shows "\<exists>d'. map_of (p_Executions (fold fold_entry es p)) i = Some d' \<and> same_link d d'"
  using assms
proof (induction es arbitrary: p d)
  case (Cons e es)
  obtain d1 where d1: "map_of (p_Executions (fold_entry e p)) i = Some d1" "same_link d d1"
    using link_step [OF Cons.prems] by blast
  with Cons.prems(2) have "x_Dispatch d1 \<noteq> []" by (simp add: same_link_def)
  from Cons.IH [OF d1(1) this] d1(2) show ?case by (auto intro: same_link_trans)
qed auto

section \<open>The store\<close>

definition numbered :: "entry list \<Rightarrow> bool" where
  "numbered es \<longleftrightarrow> (\<forall>i < length es. e_Seq (es ! i) = int i)"

definition valid_store :: "entry list \<Rightarrow> bool" where
  "valid_store es \<longleftrightarrow> numbered es \<and> (\<forall>e \<in> set es. validate e = [])"

lemma length_number_from [simp]: "length (number_from i es) = length es"
  by (induction es arbitrary: i) auto

lemma nth_number_from: "j < length es \<Longrightarrow> number_from i es ! j = (es ! j)\<lparr>e_Seq := i + int j\<rparr>"
  by (induction es arbitrary: i j) (auto simp: nth_Cons split: nat.splits)

lemma numbered_append: "numbered xs \<Longrightarrow> numbered (xs @ number_from (int (length xs)) ys)"
  by (auto simp: numbered_def nth_append nth_number_from)

lemma next_fault_entries [simp]: "h_entries (snd (next_fault h)) = h_entries h"
  by (simp add: next_fault_def split: list.splits)

lemma AppendBatch_cases:
  obtains (refused) err where "AppendBatch es h = (err, h)" "err \<noteq> []"
    "\<not> (\<forall>e \<in> set (number_from (int (length (h_entries h))) es). validate e = [])"
  | (failed) h' where "AppendBatch es h = ([TransactionFailed], h')" "h_entries h' = h_entries h"
  | (stored) h' where "AppendBatch es h = ([], h')"
    "h_entries h' = h_entries h @ number_from (int (length (h_entries h))) es"
    "\<forall>e \<in> set (number_from (int (length (h_entries h))) es). validate e = []"
proof (cases "first_err validate (number_from (int (length (h_entries h))) es) = []")
  case False
  then show ?thesis
    by (intro refused [of "first_err validate (number_from (int (length (h_entries h))) es)"])
      (simp_all add: AppendBatch_def Let_def first_err_Nil_iff)
next
  case True
  obtain f h' where f: "next_fault h = (f, h')" by (cases "next_fault h")
  then have "h_entries h' = h_entries h" using next_fault_entries [of h] by simp
  with True f failed stored show ?thesis
    by (cases f) (auto simp: AppendBatch_def first_err_Nil_iff)
qed

lemma AppendBatch_valid_store:
  assumes "valid_store (h_entries h)"
  shows "valid_store (h_entries (snd (AppendBatch es h)))"
  using assms by (cases rule: AppendBatch_cases [of es h]) (auto simp: valid_store_def numbered_append)

lemma replay_rows_prefix:
  "numbered (acc @ rows) \<Longrightarrow> replay_rows acc rows = Inr (acc @ rows)"
proof (induction rows arbitrary: acc)
  case (Cons e rows)
  have "e_Seq ((acc @ e # rows) ! length acc) = int (length acc)"
    using Cons.prems unfolding numbered_def by (metis length_append length_Cons less_add_Suc1 add_Suc_right)
  then have "e_Seq e = int (length acc)" by simp
  moreover have "numbered ((acc @ [e]) @ rows)" using Cons.prems by simp
  ultimately show ?case using Cons.IH [of "acc @ [e]"] by simp
qed simp

lemma page_from_eq:
  "length page < limit \<Longrightarrow> page_from limit P page es = page @ take (limit - length page) (filter P es)"
proof (induction es arbitrary: page)
  case (Cons e es)
  show ?case
  proof (cases "P e \<and> length (page @ [e]) \<noteq> limit")
    case True
    with Cons.prems have "length (page @ [e]) < limit" by simp
    then have "limit - length page = Suc (limit - length (page @ [e]))" by simp
    with True Cons.IH [OF \<open>length (page @ [e]) < limit\<close>] show ?thesis by simp
  next
    case False
    with Cons show ?thesis by auto
  qed
qed simp

lemma ReadPage_eq:
  "ReadPage es s u after limit = take (nat (max 1 (min limit MaxPageSize)))
     (filter (\<lambda>e. e_Seq e > after \<and> (s = [] \<or> e_SessionID e = s) \<and> (u = [] \<or> e_WorkUnitID e = u)) es)"
  unfolding ReadPage_def by (subst page_from_eq) (auto simp: MaxPageSize_def)

text \<open>What a query selects, and how a page splits it.\<close>

definition selected :: "entry list \<Rightarrow> string \<Rightarrow> string \<Rightarrow> int \<Rightarrow> entry list" where
  "selected es s u after =
     filter (\<lambda>e. e_Seq e > after \<and> (s = [] \<or> e_SessionID e = s) \<and> (u = [] \<or> e_WorkUnitID e = u)) es"

lemma numbered_sorted: "numbered es \<Longrightarrow> sorted_wrt (\<lambda>x y. e_Seq x < e_Seq y) es"
  by (simp add: numbered_def sorted_wrt_iff_nth_less)

lemma take_filter_split:
  assumes "sorted_wrt (\<lambda>x y. e_Seq x < e_Seq y) ys" and "take n ys \<noteq> []"
  shows "filter (\<lambda>e. e_Seq e > e_Seq (last (take n ys))) ys = drop n ys"
proof -
  let ?z = "last (take n ys)"
  have s: "sorted_wrt (\<lambda>x y. e_Seq x < e_Seq y) (butlast (take n ys) @ [?z] @ drop n ys)"
    using assms by (metis append_assoc append_butlast_last_id append_take_drop_id)
  then have "filter (\<lambda>e. e_Seq e > e_Seq ?z) (butlast (take n ys) @ [?z] @ drop n ys) = drop n ys"
    by (auto simp: sorted_wrt_append filter_empty_conv intro!: filter_True)
  then show ?thesis using assms(2) by (metis append_assoc append_butlast_last_id append_take_drop_id)
qed

lemma page_split:
  assumes "numbered es" and "page = ReadPage es s u after limit" and "page \<noteq> []"
  shows "selected es s u after = page @ selected es s u (e_Seq (last page))"
proof -
  define n where "n = nat (max 1 (min limit MaxPageSize))"
  let ?ys = "selected es s u after"
  have page: "page = take n ?ys" using assms(2) by (simp add: ReadPage_eq selected_def n_def)
  have "sorted_wrt (\<lambda>x y. e_Seq x < e_Seq y) ?ys"
    unfolding selected_def by (rule sorted_wrt_filter [OF numbered_sorted [OF assms(1)]])
  then have "filter (\<lambda>e. e_Seq e > e_Seq (last page)) ?ys = drop n ?ys"
    using take_filter_split assms(3) page by auto
  moreover have "after < e_Seq (last page)"
    using last_in_set [OF assms(3)] page by (auto simp: selected_def dest: in_set_takeD)
  then have "filter (\<lambda>e. e_Seq e > e_Seq (last page)) ?ys = selected es s u (e_Seq (last page))"
    unfolding selected_def filter_filter by (intro filter_cong) auto
  ultimately show ?thesis using page by (metis append_take_drop_id)
qed

end
