(* ===== verification/Hist_Snapshot.thy ===== *)
theory Hist_Snapshot
  imports Hist_Laws
begin

text \<open>
  The content-free snapshot of \<open>takt/history/snapshot.go\<close>: the recorded prefix projected onto
  nodes, edges and activities, with the inferred prerequisites of work delegated without a
  commitment. The recursive \<open>walk\<close> of \<open>frontier\<close> is written with fuel, and
  \<open>walk_complete\<close> shows that the fuel the model gives is enough.
\<close>

datatype capture = CaptureCurrent | CaptureEmpty | CaptureUncertain | CaptureUnavailable

definition SnapshotSchemaVersion :: int where "SnapshotSchemaVersion = 1"

record node =
  n_ID :: string
  n_NodeKind :: node_kind
  n_SessionID :: string
  n_AttemptID :: string
  n_State :: state
  n_Flight :: flight
  n_Outcome :: outcome
  n_Assurance :: "assurance option"
  n_Launched :: bool
  n_Contract :: string
  n_Prerequisites :: "string list"
  n_Agent :: string

record activity_node =
  an_ActivityID :: string
  an_NodeKind :: node_kind
  an_State :: state
  an_Flight :: flight
  an_Outcome :: outcome

record edge =
  ed_From :: string
  ed_To :: string

record snapshot =
  sn_SchemaVersion :: int
  sn_ProjectionRevision :: int
  sn_HistoryPosition :: int
  sn_SessionID :: string
  sn_Capture :: capture
  sn_PlanVersion :: string
  sn_Stopped :: int
  sn_Escalated :: int
  sn_Nodes :: "node list"
  sn_Edges :: "edge list"
  sn_Activities :: "activity_node list"

section \<open>The frontier of settled work\<close>

definition settledUnitIDs :: "projection \<Rightarrow> string \<Rightarrow> string list" where
  "settledUnitIDs p session = map (\<lambda>(k, u). u_WorkUnitID u)
     (filter (\<lambda>(k, u). u_SessionID u = session \<and> u_State u = StateSettled) (p_Units p))"

definition prerequisitesOf :: "projection \<Rightarrow> string \<Rightarrow> (string, string list) gomap \<Rightarrow> string \<Rightarrow> string list" where
  "prerequisitesOf p session inferred i =
    (if u_Committed (unit_at p session i) then u_Prerequisites (unit_at p session i)
     else mget [] inferred (UnitKey session i))"

text \<open>
  \<open>walk n pre ps seen\<close> is the loop of the source's \<open>walk\<close> over the prerequisites \<open>ps\<close> that
  are left, with \<open>n\<close> the recursion depth allowed: a new prerequisite is marked and walked first.
\<close>

fun walk :: "nat \<Rightarrow> (string \<Rightarrow> string list) \<Rightarrow> string list \<Rightarrow> string list \<Rightarrow> string list" where
  "walk 0 pre ps seen = seen"
| "walk (Suc n) pre [] seen = seen"
| "walk (Suc n) pre (q # ps) seen =
    (if q \<in> set seen then walk (Suc n) pre ps seen
     else walk (Suc n) pre ps (walk n pre (pre q) (q # seen)))"

definition frontier :: "nat \<Rightarrow> string list \<Rightarrow> (string \<Rightarrow> string list) \<Rightarrow> string list" where
  "frontier fuel candidates pre =
    (let implied = concat (map (\<lambda>c. walk fuel pre (pre c) []) candidates)
     in sort (filter (\<lambda>c. c \<notin> set implied) candidates))"

text \<open>No walk is deeper than the number of prerequisites recorded anywhere.\<close>

definition walk_fuel :: "projection \<Rightarrow> (string, string list) gomap \<Rightarrow> nat" where
  "walk_fuel p inferred = Suc (sum_list (map (\<lambda>(k, u). length (u_Prerequisites u)) (p_Units p))
     + sum_list (map (\<lambda>(k, qs). length qs) inferred))"

definition order_entry :: "entry \<Rightarrow> projection \<times> (string, string list) gomap \<Rightarrow> projection \<times> (string, string list) gomap" where
  "order_entry e pi =
    (let (p, inferred) = pi;
         known = unit_known p (e_SessionID e) (e_WorkUnitID e);
         fresh = (e_Kind e = KindAdmitted \<and> \<not> known);
         settled = (if fresh then settledUnitIDs p (e_SessionID e) else []);
         p' = fold_entry e p
     in if fresh \<and> unit_known p' (e_SessionID e) (e_WorkUnitID e)
        then (p', mput (UnitKey (e_SessionID e) (e_WorkUnitID e))
                (frontier (walk_fuel p' inferred) settled (prerequisitesOf p' (e_SessionID e) inferred)) inferred)
        else (p', inferred))"

definition projectWithExecutionOrder :: "entry list \<Rightarrow> projection \<times> (string, string list) gomap" where
  "projectWithExecutionOrder entries = fold order_entry entries (newProjection, [])"

section \<open>The snapshot\<close>

definition rootSession :: "entry list \<Rightarrow> string" where
  "rootSession entries = (case entries of [] \<Rightarrow> [] | e # _ \<Rightarrow> e_SessionID e)"

text \<open>The body of the loop over the sorted unit keys, and of the loop over the activities.\<close>

definition snapshot_unit :: "string \<Rightarrow> projection \<Rightarrow> (string, string list) gomap \<Rightarrow> string \<Rightarrow> snapshot \<Rightarrow> snapshot" where
  "snapshot_unit session p inferred key s =
    (let u = mget zero_unit (p_Units p) key
     in if u_SessionID u \<noteq> session then s
        else let prerequisites = (if \<not> u_Committed u then mget [] inferred key else u_Prerequisites u)
             in s\<lparr>sn_Capture := (if u_Flight u = FlightUncertain then CaptureUncertain else sn_Capture s),
                  sn_Nodes := sn_Nodes s @ [\<lparr>n_ID = u_WorkUnitID u, n_NodeKind = NodeKindDelegated,
                    n_SessionID = u_SessionID u, n_AttemptID = u_AttemptID u, n_State = u_State u,
                    n_Flight = u_Flight u, n_Outcome = u_Outcome u, n_Assurance = u_Assurance u,
                    n_Launched = u_Launched u, n_Contract = u_Contract u,
                    n_Prerequisites = prerequisites, n_Agent = u_Agent u\<rparr>],
                  sn_Edges := sn_Edges s @ map (\<lambda>from. \<lparr>ed_From = from, ed_To = u_WorkUnitID u\<rparr>) prerequisites\<rparr>)"

definition zero_activity :: activity where
  "zero_activity = \<lparr>a_ActivityID = [], a_SessionID = [], a_NodeKind = NodeKindNone,
    a_State = StateNone, a_Flight = FlightNone, a_Outcome = OutcomeNone, a_Owner = []\<rparr>"

definition snapshot_activity :: "string \<Rightarrow> projection \<Rightarrow> string \<Rightarrow> snapshot \<Rightarrow> snapshot" where
  "snapshot_activity session p i s =
    (let a = mget zero_activity (p_Activities p) i
     in if a_SessionID a \<noteq> session then s
        else s\<lparr>sn_Activities := sn_Activities s @ [\<lparr>an_ActivityID = a_ActivityID a,
               an_NodeKind = a_NodeKind a, an_State = a_State a, an_Flight = a_Flight a,
               an_Outcome = a_Outcome a\<rparr>]\<rparr>)"

definition BuildSnapshot :: "entry list \<Rightarrow> snapshot" where
  "BuildSnapshot entries =
    (let (p, inferred) = projectWithExecutionOrder entries;
         session = rootSession entries;
         s0 = \<lparr>sn_SchemaVersion = SnapshotSchemaVersion, sn_ProjectionRevision = int (length entries),
               sn_HistoryPosition = int (length entries), sn_SessionID = session,
               sn_Capture = (if entries = [] then CaptureEmpty else CaptureCurrent),
               sn_PlanVersion = b_PlanVersion (Budgets p session),
               sn_Stopped = b_Stopped (Budgets p session),
               sn_Escalated = b_Escalated (Budgets p session),
               sn_Nodes = [], sn_Edges = [], sn_Activities = []\<rparr>;
         s1 = fold (snapshot_unit session p inferred) (sorted_keys (p_Units p)) s0
     in fold (snapshot_activity session p) (sorted_keys (p_Activities p)) s1)"

section \<open>Laws of the walk\<close>

text \<open>One declared step, and the prerequisites reachable by at least one.\<close>

definition needs :: "(string \<Rightarrow> string list) \<Rightarrow> (string \<times> string) set" where
  "needs pre = {(a, b). b \<in> set (pre a)}"

lemma walk_mono: "set seen \<subseteq> set (walk n pre ps seen)"
  by (induction n pre ps seen rule: walk.induct) auto

lemma walk_sound:
  assumes "\<And>q. q \<in> set ps \<Longrightarrow> (c, q) \<in> (needs pre)\<^sup>+" and "\<And>q. q \<in> set seen \<Longrightarrow> (c, q) \<in> (needs pre)\<^sup>+"
  shows "q \<in> set (walk n pre ps seen) \<Longrightarrow> (c, q) \<in> (needs pre)\<^sup>+"
  using assms
proof (induction n pre ps seen arbitrary: q rule: walk.induct)
  case (3 n pre r ps seen)
  show ?case
  proof (cases "r \<in> set seen")
    case True
    with 3 show ?thesis by auto
  next
    case False
    have r: "(c, r) \<in> (needs pre)\<^sup>+" using 3 by simp
    have step: "(c, x) \<in> (needs pre)\<^sup>+" if "x \<in> set (pre r)" for x
      using r that by (auto simp: needs_def intro: trancl_into_trancl)
    have inner: "(c, x) \<in> (needs pre)\<^sup>+" if "x \<in> set (walk n pre (pre r) (r # seen))" for x
      by (rule "3.IH"(2) [OF False that step]) (use r 3 in auto)
    show ?thesis
      by (rule "3.IH"(3) [OF False _ _ inner]) (use 3 False in auto)
  qed
qed auto

text \<open>
  With fuel above the number of unseen identities of a closed universe, everything the walk
  adds has its prerequisites walked too.
\<close>

lemma walk_complete:
  assumes "finite U" and "\<And>x. set (pre x) \<subseteq> U" and "set ps \<subseteq> U" and "card (U - set seen) < n"
  shows "set ps \<subseteq> set (walk n pre ps seen)
    \<and> (\<forall>x \<in> set (walk n pre ps seen) - set seen. set (pre x) \<subseteq> set (walk n pre ps seen))"
  using assms
proof (induction n pre ps seen rule: walk.induct)
  case (3 n pre r ps seen)
  show ?case
  proof (cases "r \<in> set seen")
    case True
    with 3 show ?thesis using walk_mono [of seen "Suc n" pre ps] by auto
  next
    case False
    let ?w = "walk n pre (pre r) (r # seen)" and ?v = "walk (Suc n) pre ps (walk n pre (pre r) (r # seen))"
    have rU: "r \<in> U" using "3.prems" by simp
    have "U - set (r # seen) \<subset> U - set seen" using False rU by auto
    then have less: "card (U - set (r # seen)) < card (U - set seen)"
      using \<open>finite U\<close> by (intro psubset_card_mono) auto
    have inner: "set (pre r) \<subseteq> set ?w" "\<forall>x \<in> set ?w - set (r # seen). set (pre x) \<subseteq> set ?w"
      using "3.IH"(2) [OF False "3.prems"(1,2,2)] less "3.prems"(4) by auto
    have "card (U - set ?w) \<le> card (U - set seen)"
      using walk_mono [of "r # seen" n pre "pre r"] \<open>finite U\<close> by (intro card_mono) auto
    then have outer: "set ps \<subseteq> set ?v" "\<forall>x \<in> set ?v - set ?w. set (pre x) \<subseteq> set ?v"
      using "3.IH"(3) [OF False "3.prems"(1,2)] "3.prems"(3,4) by auto
    have wv: "set ?w \<subseteq> set ?v" by (rule walk_mono)
    have "r \<in> set ?w" using walk_mono [of "r # seen" n pre "pre r"] by auto
    then have "set (r # ps) \<subseteq> set ?v" using wv outer(1) by auto
    moreover have "set (pre x) \<subseteq> set ?v" if "x \<in> set ?v - set seen" for x
    proof (cases "x \<in> set ?w")
      case True
      with inner wv that show ?thesis by (cases "x = r") auto
    qed (use outer that in auto)
    ultimately show ?thesis using False by simp
  qed
qed auto

lemma walk_reach:
  assumes "finite U" and "\<And>x. set (pre x) \<subseteq> U" and "card U < n"
  shows "set (walk n pre (pre c) []) = {q. (c, q) \<in> (needs pre)\<^sup>+}"
proof -
  have closed: "set (pre c) \<subseteq> set (walk n pre (pre c) [])"
    "\<forall>x \<in> set (walk n pre (pre c) []). set (pre x) \<subseteq> set (walk n pre (pre c) [])"
    using walk_complete [where pre = pre and ps = "pre c" and seen = "[]" and n = n, OF assms(1,2,2)] assms(3)
    by simp_all
  have "q \<in> set (walk n pre (pre c) [])" if "(c, q) \<in> (needs pre)\<^sup>+" for q
    using that by induction (use closed in \<open>auto simp: needs_def\<close>)
  moreover have "(c, q) \<in> (needs pre)\<^sup>+" if "q \<in> set (walk n pre (pre c) [])" for q
    by (rule walk_sound [OF _ _ that]) (auto simp: needs_def)
  ultimately show ?thesis by blast
qed

lemma mget_list_universe: "set (f (mget z m k)) \<subseteq> set (f z) \<union> \<Union> (set ` f ` snd ` set m)"
proof (cases "map_of m k")
  case (Some v)
  then have "(k, v) \<in> set m" by (rule map_of_SomeD)
  with Some show ?thesis by (force simp: mget_def)
qed (simp add: mget_def)

lemma prerequisites_universe:
  "set (prerequisitesOf p s inferred i) \<subseteq> \<Union> (set ` u_Prerequisites ` snd ` set (p_Units p)) \<union> \<Union> (set ` snd ` set inferred)"
  using mget_list_universe [of u_Prerequisites zero_unit "p_Units p" "UnitKey s i"]
    mget_list_universe [of "\<lambda>x. x" "[]" inferred "UnitKey s i"]
  by (cases "u_Committed (unit_at p s i)")
    (simp_all add: prerequisitesOf_def unit_at_def zero_unit_def le_supI1 le_supI2)

lemma card_lists: "card (\<Union> (set ` f ` set xs)) \<le> sum_list (map (\<lambda>x. length (f x)) xs)"
proof (induction xs)
  case (Cons x xs)
  have "card (\<Union> (set ` f ` set (x # xs))) \<le> card (set (f x)) + card (\<Union> (set ` f ` set xs))"
    by (simp add: card_Un_le)
  with Cons card_length [of "f x"] show ?case by simp
qed simp

lemma walk_fuel_enough:
  "card (\<Union> (set ` u_Prerequisites ` snd ` set (p_Units p)) \<union> \<Union> (set ` snd ` set inferred)) < walk_fuel p inferred"
proof -
  have "card (\<Union> (set ` u_Prerequisites ` snd ` set (p_Units p)))
      \<le> sum_list (map (\<lambda>(k, u). length (u_Prerequisites u)) (p_Units p))"
    using card_lists [of "\<lambda>x. u_Prerequisites (snd x)" "p_Units p"] by (simp add: image_image case_prod_unfold)
  moreover have "card (\<Union> (set ` snd ` set inferred)) \<le> sum_list (map (\<lambda>(k, qs). length qs) inferred)"
    using card_lists [of snd inferred] by (simp add: case_prod_unfold)
  ultimately show ?thesis
    using card_Un_le [of "\<Union> (set ` u_Prerequisites ` snd ` set (p_Units p))" "\<Union> (set ` snd ` set inferred)"]
    unfolding walk_fuel_def by linarith
qed

lemma frontier_spec:
  "set (frontier (walk_fuel p inferred) cs (prerequisitesOf p s inferred)) =
     {c \<in> set cs. \<forall>d \<in> set cs. (d, c) \<notin> (needs (prerequisitesOf p s inferred))\<^sup>+}"
proof -
  have "set (walk (walk_fuel p inferred) (prerequisitesOf p s inferred) (prerequisitesOf p s inferred c) [])
      = {q. (c, q) \<in> (needs (prerequisitesOf p s inferred))\<^sup>+}" for c
    by (rule walk_reach [OF _ prerequisites_universe walk_fuel_enough]) auto
  then show ?thesis by (auto simp: frontier_def)
qed

lemma frontier_sorted: "sorted (frontier n cs pre)"
  by (simp add: frontier_def)

lemma projectWithExecutionOrder_fst: "fst (projectWithExecutionOrder es) = Project es"
proof -
  have "fst (fold order_entry es pi) = fold fold_entry es (fst pi)" for pi
    by (induction es arbitrary: pi) (auto simp: order_entry_def Let_def split: prod.splits)
  then show ?thesis by (simp add: projectWithExecutionOrder_def Project_def)
qed

section \<open>Laws of the snapshot\<close>

definition node_of :: "(string, string list) gomap \<Rightarrow> string \<Rightarrow> work_unit \<Rightarrow> node" where
  "node_of inferred key u = \<lparr>n_ID = u_WorkUnitID u, n_NodeKind = NodeKindDelegated,
     n_SessionID = u_SessionID u, n_AttemptID = u_AttemptID u, n_State = u_State u,
     n_Flight = u_Flight u, n_Outcome = u_Outcome u, n_Assurance = u_Assurance u,
     n_Launched = u_Launched u, n_Contract = u_Contract u,
     n_Prerequisites = (if \<not> u_Committed u then mget [] inferred key else u_Prerequisites u),
     n_Agent = u_Agent u\<rparr>"

definition edges_of :: "node \<Rightarrow> edge list" where
  "edges_of n = map (\<lambda>from. \<lparr>ed_From = from, ed_To = n_ID n\<rparr>) (n_Prerequisites n)"

lemma snapshot_unit_fields:
  assumes "u = mget zero_unit (p_Units p) key" and "s' = snapshot_unit session p inferred key s"
  shows "sn_Nodes s' = sn_Nodes s @ (if u_SessionID u = session then [node_of inferred key u] else [])"
    and "sn_Edges s' = sn_Edges s @ (if u_SessionID u = session then edges_of (node_of inferred key u) else [])"
    and "sn_Capture s' = (if u_SessionID u = session \<and> u_Flight u = FlightUncertain then CaptureUncertain else sn_Capture s)"
    and "sn_Activities s' = sn_Activities s"
  using assms by (simp_all add: snapshot_unit_def Let_def node_of_def edges_of_def)

definition session_nodes :: "string \<Rightarrow> projection \<Rightarrow> (string, string list) gomap \<Rightarrow> string list \<Rightarrow> node list" where
  "session_nodes session p inferred keys =
     map (\<lambda>k. node_of inferred k (mget zero_unit (p_Units p) k))
       (filter (\<lambda>k. u_SessionID (mget zero_unit (p_Units p) k) = session) keys)"

lemma snapshot_units:
  "sn_Nodes (fold (snapshot_unit session p inferred) keys s) = sn_Nodes s @ session_nodes session p inferred keys"
  "sn_Edges (fold (snapshot_unit session p inferred) keys s)
     = sn_Edges s @ concat (map edges_of (session_nodes session p inferred keys))"
  "sn_Capture (fold (snapshot_unit session p inferred) keys s)
     = (if \<exists>n \<in> set (session_nodes session p inferred keys). n_Flight n = FlightUncertain
        then CaptureUncertain else sn_Capture s)"
  by (induction keys arbitrary: s)
    (auto simp: snapshot_unit_fields [OF refl refl] session_nodes_def node_of_def)

lemma snapshot_activities:
  "sn_Nodes (fold (snapshot_activity session p) ids s) = sn_Nodes s"
  "sn_Edges (fold (snapshot_activity session p) ids s) = sn_Edges s"
  "sn_Capture (fold (snapshot_activity session p) ids s) = sn_Capture s"
  by (induction ids arbitrary: s) (simp_all add: snapshot_activity_def Let_def)

lemma BuildSnapshot_fields:
  assumes "projectWithExecutionOrder es = (p, inferred)"
  shows "sn_Nodes (BuildSnapshot es) = session_nodes (rootSession es) p inferred (sorted_keys (p_Units p))"
    and "sn_Edges (BuildSnapshot es) = concat (map edges_of (sn_Nodes (BuildSnapshot es)))"
    and "sn_Capture (BuildSnapshot es) =
      (if \<exists>n \<in> set (sn_Nodes (BuildSnapshot es)). n_Flight n = FlightUncertain then CaptureUncertain
       else if es = [] then CaptureEmpty else CaptureCurrent)"
  using assms by (simp_all add: BuildSnapshot_def Let_def snapshot_units snapshot_activities)

end
