(* ===== verification/Hist_Props.thy ===== *)
theory Hist_Props
  imports Hist_Snapshot
begin

text \<open>
  Properties of package \<open>takt/history\<close>, with the recorded acts the witnesses replay.
\<close>

section \<open>Recorded acts\<close>

definition act :: "kind \<Rightarrow> string \<Rightarrow> string \<Rightarrow> string \<Rightarrow> entry" where
  "act k session u attempt = zero_entry\<lparr>e_Author := AuthorOf k, e_Kind := k, e_SessionID := session,
     e_WorkUnitID := u, e_AttemptID := attempt, e_Cause := CauseNone\<rparr>"

definition planned_act :: entry where
  "planned_act = (act KindPlanned ''root'' ''build'' ''1'')\<lparr>e_PlanVersion := ''v1'', e_Contract := ''compile''\<rparr>"

definition terminated_act :: entry where
  "terminated_act = (act KindTerminated ''root'' ''build'' ''1'')\<lparr>e_Outcome := OutcomeCompleted\<rparr>"

definition verified_act :: "revision \<Rightarrow> entry" where
  "verified_act r = (act KindResult ''root'' ''build'' ''1'')\<lparr>e_Status := ResultVerified,
     e_Revision := Some r, e_Evidence := ''report''\<rparr>"

definition execution_act :: entry where
  "execution_act = (act KindExecution ''root'' ''build'' ''1'')\<lparr>e_Dispatch := ''d1'', e_Agent := ''builder''\<rparr>"

definition settled_example :: "entry list" where
  "settled_example = [planned_act, act KindAdmitted ''root'' ''build'' ''1'', terminated_act]"

definition withdrawn_example :: "entry list" where
  "withdrawn_example = [planned_act, act KindWithdrawn ''root'' ''build'' ''1'']"

lemmas example_defs = act_def planned_act_def terminated_act_def verified_act_def execution_act_def
  settled_example_def withdrawn_example_def

section \<open>Work units\<close>

text \<open>C11: Withdrawal is final: no later act of any kind, valid or not, changes a withdrawn unit.\<close>

theorem withdrawal_final:
  assumes "map_of (p_Units (Project es)) k = Some u" and "u_State u = StateWithdrawn"
  shows "map_of (p_Units (Project (es @ es'))) k = Some u"
  unfolding Project_append by (rule withdrawn_final [OF assms])

theorem withdrawal_final_witness:
  "map_option u_State (map_of (p_Units (Project (withdrawn_example @ [act KindAdmitted ''root'' ''build'' ''1''])))
     (UnitKey ''root'' ''build'')) = Some StateWithdrawn"
proof -
  have "map_option u_State (map_of (p_Units (Project withdrawn_example)) (UnitKey ''root'' ''build'')) = Some StateWithdrawn"
    by code_simp
  then obtain u where u: "map_of (p_Units (Project withdrawn_example)) (UnitKey ''root'' ''build'') = Some u"
    "u_State u = StateWithdrawn" by auto
  from withdrawal_final [OF u] u(2) show ?thesis by simp
qed

text \<open>C12: Once a unit was admitted, its contract, its prerequisites and whether a commitment
  declared it never change again, whatever is recorded afterwards.\<close>

theorem admitted_contract_frozen:
  assumes "map_of (p_Units (Project es)) k = Some u" and "u_State u = StateInFlight \<or> u_State u = StateSettled"
  shows "\<exists>u'. map_of (p_Units (Project (es @ es'))) k = Some u'
    \<and> (u_State u' = StateInFlight \<or> u_State u' = StateSettled) \<and> u_Contract u' = u_Contract u
    \<and> u_Prerequisites u' = u_Prerequisites u \<and> u_Committed u' = u_Committed u"
  unfolding Project_append by (rule admitted_frozen [OF assms])

theorem admitted_contract_frozen_witness:
  "\<exists>u'. map_of (p_Units (Project (settled_example @ [planned_act\<lparr>e_Contract := ''other''\<rparr>])))
     (UnitKey ''root'' ''build'') = Some u' \<and> u_Contract u' = ''compile''"
proof -
  have "map_option (\<lambda>u. (u_State u, u_Contract u)) (map_of (p_Units (Project settled_example)) (UnitKey ''root'' ''build''))
      = Some (StateSettled, ''compile'')"
    by code_simp
  then obtain u where u: "map_of (p_Units (Project settled_example)) (UnitKey ''root'' ''build'') = Some u"
    "u_State u = StateSettled" "u_Contract u = ''compile''" by auto
  from admitted_contract_frozen [OF u(1), of "[planned_act\<lparr>e_Contract := ''other''\<rparr>]"] u(2,3) show ?thesis by auto
qed

text \<open>A settled unit stands: until it is admitted again, later acts change nothing of it but
  its assurance.\<close>

theorem settled_until_readmitted:
  assumes "map_of (p_Units (Project es)) k = Some u" and "u_State u = StateSettled"
    and "\<And>e. e \<in> set es' \<Longrightarrow> entry_key e = k \<Longrightarrow> e_Kind e \<noteq> KindAdmitted"
  shows "\<exists>a. map_of (p_Units (Project (es @ es'))) k = Some (u\<lparr>u_Assurance := a\<rparr>)"
  unfolding Project_append by (rule settled_stands [OF assms])

theorem settled_until_readmitted_witness:
  "map_option u_Outcome (map_of (p_Units (Project (settled_example @ [verified_act 7, act KindLaunched ''root'' ''build'' ''1''])))
     (UnitKey ''root'' ''build'')) = Some OutcomeCompleted"
proof -
  have "map_option (\<lambda>u. (u_State u, u_Outcome u)) (map_of (p_Units (Project settled_example)) (UnitKey ''root'' ''build''))
      = Some (StateSettled, OutcomeCompleted)"
    by code_simp
  then obtain u where u: "map_of (p_Units (Project settled_example)) (UnitKey ''root'' ''build'') = Some u"
    "u_State u = StateSettled" "u_Outcome u = OutcomeCompleted" by auto
  have "e_Kind e \<noteq> KindAdmitted" if "e \<in> set [verified_act 7, act KindLaunched ''root'' ''build'' ''1'']" for e
    using that by (auto simp: verified_act_def act_def)
  then obtain a where "map_of (p_Units (Project (settled_example @ [verified_act 7, act KindLaunched ''root'' ''build'' ''1''])))
      (UnitKey ''root'' ''build'') = Some (u\<lparr>u_Assurance := a\<rparr>)"
    using settled_until_readmitted [OF u(1,2)] by blast
  with u(3) show ?thesis by simp
qed

text \<open>In every history of valid entries each unit has a lawful state: it is in flight exactly
  when it has an in-flight condition, settled exactly when it has an outcome, launched, cancelled
  or assured only once admitted, and planned or withdrawn only if a commitment declared it.\<close>

theorem valid_history_units:
  assumes "\<And>e. e \<in> set es \<Longrightarrow> validate e = []" and "map_of (p_Units (Project es)) k = Some u"
  shows "unit_shape u"
proof (rule units_shape [OF assms(1)])
  show "map_of (p_Units (fold fold_entry es newProjection)) k = Some u" using assms(2) by (simp add: Project_def)
qed (simp_all add: newProjection_def)

theorem valid_history_units_witness:
  "\<exists>u. map_of (p_Units (Project settled_example)) (UnitKey ''root'' ''build'') = Some u \<and> unit_shape u"
proof -
  have "map_option u_State (map_of (p_Units (Project settled_example)) (UnitKey ''root'' ''build'')) = Some StateSettled"
    by code_simp
  then obtain u where u: "map_of (p_Units (Project settled_example)) (UnitKey ''root'' ''build'') = Some u" by auto
  have "list_all (\<lambda>e. validate e = []) settled_example" by code_simp
  then have "\<And>e. e \<in> set settled_example \<Longrightarrow> validate e = []" by (simp add: list_all_iff)
  from valid_history_units [OF this u] u show ?thesis by blast
qed

section \<open>Accounting\<close>

text \<open>The uncovered count the unplanned bound is checked against is exactly the number of
  the session's units that no commitment declared, as Go's integers hold it.\<close>

theorem unplanned_count_exact:
  assumes "\<And>e. e \<in> set es \<Longrightarrow> validate e = [] \<and> nul_free (e_SessionID e)"
  shows "b_Unplanned (Budgets (Project es) s) = wrap_int (uncovered (Project es) s)"
  unfolding Project_def
proof (rule unplanned_fold [OF assms])
  show "b_Unplanned (Budgets newProjection r) = wrap_int (uncovered newProjection r)" for r
    by (simp add: zero_budgets_def uncovered_def count_map_def) (simp add: newProjection_def)
qed simp_all

theorem unplanned_count_exact_witness:
  "b_Unplanned (Budgets (Project [act KindAdmitted ''root'' ''probe'' ''1'', planned_act]) ''root'') = 1
   \<and> wrap_int (uncovered (Project [act KindAdmitted ''root'' ''probe'' ''1'', planned_act]) ''root'') = 1"
proof -
  have "list_all (\<lambda>e. validate e = [] \<and> CHR 0x00 \<notin> set (e_SessionID e)) [act KindAdmitted ''root'' ''probe'' ''1'', planned_act]"
    by code_simp
  then have valid: "e \<in> set [act KindAdmitted ''root'' ''probe'' ''1'', planned_act] \<Longrightarrow> validate e = [] \<and> nul_free (e_SessionID e)" for e
    by (simp add: list_all_iff nul_free_def del: list.set)
  have "b_Unplanned (Budgets (Project [act KindAdmitted ''root'' ''probe'' ''1'', planned_act]) ''root'') = 1"
    by code_simp
  moreover have "b_Unplanned (Budgets (Project [act KindAdmitted ''root'' ''probe'' ''1'', planned_act]) ''root'')
      = wrap_int (uncovered (Project [act KindAdmitted ''root'' ''probe'' ''1'', planned_act]) ''root'')"
    by (rule unplanned_count_exact [OF valid])
  ultimately show ?thesis by simp
qed

text \<open>The allowance of a bound is exactly the sum of what the session's recorded exceptions
  granted on it, as Go's wrapping addition leaves it; no other act touches it.\<close>

theorem allowance_is_what_was_granted:
  "allowance (Budgets (Project es) s) key = wrap_int (granted es s key)"
  by (rule allowance_Project)

section \<open>Assurance and executions\<close>

text \<open>An evaluated result of the current attempt is never replaced by a judgement of an earlier
  revision nor by an unevaluated one: until readmission the recorded revision never goes back.\<close>

theorem evaluation_never_regresses:
  assumes "map_of (p_Units (Project es)) k = Some u" and "evaluated_at u r"
    and "\<And>e. e \<in> set es' \<Longrightarrow> entry_key e = k \<Longrightarrow> e_Kind e \<noteq> KindAdmitted"
  shows "\<exists>u'. map_of (p_Units (Project (es @ es'))) k = Some u' \<and> evaluated_at u' r"
  unfolding Project_append
proof (rule unit_kept [where P = "\<lambda>u. evaluated_at u r", OF assms(1,2)])
  fix e u u'
  assume "e \<in> set es'" "entry_key e = k" "evaluated_at u r" "unit_after e True u = Some u'"
  with assms(3) show "evaluated_at u' r" using unit_after_evaluated by blast
qed

theorem evaluation_never_regresses_witness:
  "\<exists>u'. map_of (p_Units (Project ((settled_example @ [verified_act 7]) @ [verified_act 3])))
     (UnitKey ''root'' ''build'') = Some u' \<and> evaluated_at u' 7"
proof -
  have "Option.bind (map_of (p_Units (Project (settled_example @ [verified_act 7]))) (UnitKey ''root'' ''build''))
      (\<lambda>u. Option.bind (u_Assurance u) as_Revision) = Some 7"
    by code_simp
  then obtain u where u: "map_of (p_Units (Project (settled_example @ [verified_act 7]))) (UnitKey ''root'' ''build'') = Some u"
    "evaluated_at u 7" by (auto simp: evaluated_at_def bind_eq_Some_conv)
  show ?thesis
    by (rule evaluation_never_regresses [OF u]) (simp add: verified_act_def act_def)
qed

text \<open>The identity of a dispatched execution is recorded once: whatever follows, its root, unit,
  attempt, agent, caller, inputs, model and owner stay, and its readiness, termination, settlement
  and deliveries are never undone.\<close>

theorem execution_identity_fixed:
  assumes "map_of (p_Executions (Project es)) i = Some d" and "x_Dispatch d \<noteq> []"
  shows "\<exists>d'. map_of (p_Executions (Project (es @ es'))) i = Some d' \<and> same_link d d'"
  unfolding Project_append by (rule link_fold [OF assms])

theorem execution_identity_fixed_witness:
  "\<exists>d'. map_of (p_Executions (Project ([execution_act] @ [execution_act\<lparr>e_Agent := ''other''\<rparr>]))) ''d1'' = Some d'
     \<and> x_Agent d' = ''builder''"
proof -
  have "map_option (\<lambda>d. (x_Dispatch d, x_Agent d)) (map_of (p_Executions (Project [execution_act])) ''d1'')
      = Some (''d1'', ''builder'')"
    by code_simp
  then obtain d where d: "map_of (p_Executions (Project [execution_act])) ''d1'' = Some d" "x_Dispatch d \<noteq> []"
    "x_Agent d = ''builder''" by auto
  from execution_identity_fixed [OF d(1,2), of "[execution_act\<lparr>e_Agent := ''other''\<rparr>]"] d(3) show ?thesis
    by (auto simp: same_link_def)
qed

section \<open>The store\<close>

text \<open>A batch is appended as a whole or not at all, whatever its entries and whichever
  transaction fails; the store stays gapless and valid, so its next replay succeeds.\<close>

theorem append_indivisible:
  assumes "valid_store (h_entries h)" and "AppendBatch es h = (err, h')"
  shows "valid_store (h_entries h') \<and> replay_rows [] (h_entries h') = Inr (h_entries h')
    \<and> h_entries h' = h_entries h @ (if err = [] then number_from (int (length (h_entries h))) es else [])"
proof -
  have "valid_store (h_entries h')" using AppendBatch_valid_store [OF assms(1), of es] assms(2) by simp
  moreover have "replay_rows [] (h_entries h') = Inr (h_entries h')"
    using \<open>valid_store (h_entries h')\<close> replay_rows_prefix [of "[]"] by (simp add: valid_store_def)
  moreover have "h_entries h' = h_entries h @ (if err = [] then number_from (int (length (h_entries h))) es else [])"
    using assms(2) by (cases rule: AppendBatch_cases [of es h]) (auto simp: AppendBatch_def Let_def)
  ultimately show ?thesis by blast
qed

theorem append_indivisible_witness:
  "h_entries (snd (AppendBatch settled_example \<lparr>h_entries = [], h_faults = [True]\<rparr>)) = []"
proof -
  have "fst (AppendBatch settled_example \<lparr>h_entries = [], h_faults = [True]\<rparr>) \<noteq> []" by code_simp
  moreover have "valid_store (h_entries \<lparr>h_entries = [], h_faults = [True]\<rparr>)"
    by (simp add: valid_store_def numbered_def)
  ultimately show ?thesis
    using append_indivisible [of "\<lparr>h_entries = [], h_faults = [True]\<rparr>" settled_example]
    by (cases "AppendBatch settled_example \<lparr>h_entries = [], h_faults = [True]\<rparr>") auto
qed

text \<open>Pages tile the history: the entries a query selects are one nonempty page of at most
  500 entries followed by what the same query selects after the page's last entry.\<close>

theorem pages_tile:
  assumes "valid_store es" and "ReadPage es s u after limit \<noteq> []"
  shows "selected es s u after = ReadPage es s u after limit @ selected es s u (e_Seq (last (ReadPage es s u after limit)))
    \<and> length (ReadPage es s u after limit) \<le> 500"
  using page_split [OF _ refl, where es = es and s = s and u = u and after = after and limit = limit] assms by (simp add: valid_store_def ReadPage_eq MaxPageSize_def)

theorem pages_tile_witness:
  "length (ReadPage (number_from 0 settled_example) ''root'' [] (- 1) 2) = 2
   \<and> selected (number_from 0 settled_example) ''root'' [] (- 1) =
     ReadPage (number_from 0 settled_example) ''root'' [] (- 1) 2
     @ selected (number_from 0 settled_example) ''root'' []
         (e_Seq (last (ReadPage (number_from 0 settled_example) ''root'' [] (- 1) 2)))"
proof -
  have len: "length (ReadPage (number_from 0 settled_example) ''root'' [] (- 1) 2) = 2" by code_simp
  have "list_all (\<lambda>e. validate e = []) (number_from 0 settled_example)" by code_simp
  then have "valid_store (number_from 0 settled_example)"
    by (simp add: valid_store_def numbered_def nth_number_from list_all_iff)
  moreover have "ReadPage (number_from 0 settled_example) ''root'' [] (- 1) 2 \<noteq> []" using len by auto
  ultimately show ?thesis using pages_tile len by blast
qed

section \<open>The snapshot\<close>

text \<open>What a snapshot shows of the settled work: the units, the order among them, and the units no other of
  them comes after.\<close>

definition settled_in :: "snapshot \<Rightarrow> string set" where
  "settled_in sn = n_ID ` {n \<in> set (sn_Nodes sn). n_State n = StateSettled}"

definition follows :: "snapshot \<Rightarrow> (string \<times> string) set" where
  "follows sn = (\<lambda>x. (ed_To x, ed_From x)) ` set (sn_Edges sn)"

definition leading :: "snapshot \<Rightarrow> string set" where
  "leading sn = {c \<in> settled_in sn. \<forall>d \<in> settled_in sn. (d, c) \<notin> (follows sn)\<^sup>+}"

text \<open>Along a valid history the units lie under their own keys, and only known units have an inferred order.\<close>

definition ordered_state :: "projection \<times> (string, string list) gomap \<Rightarrow> bool" where
  "ordered_state x \<longleftrightarrow> keyed (fst x) \<and> (\<forall>k. mhas (snd x) k \<longrightarrow> mhas (p_Units (fst x)) k)"

definition acceptable :: "entry \<Rightarrow> bool" where
  "acceptable e \<longleftrightarrow> validate e = [] \<and> nul_free (e_SessionID e)"

lemma known_stays: "mhas (p_Units p) k \<Longrightarrow> mhas (p_Units (fold_entry e p)) k"
  by (auto simp: mhas_def map_of_fold_entry split: option.splits)

lemma order_fields:
  "fst (order_entry e x) = fold_entry e (fst x)"
  "mhas (p_Units (fst x)) k \<Longrightarrow> map_of (snd (order_entry e x)) k = map_of (snd x) k"
  by (auto simp: order_entry_def Let_def unit_known_def split: prod.split)

lemma order_entry_state: "ordered_state x \<Longrightarrow> acceptable e \<Longrightarrow> ordered_state (order_entry e x)"
  using keyed_fold_entry [of "fst x" e] known_stays [of "fst x" _ e]
  by (auto simp: ordered_state_def acceptable_def order_entry_def Let_def unit_known_def mhas_def split: prod.splits if_splits)

lemma order_fold_state: "ordered_state x \<Longrightarrow> list_all acceptable es \<Longrightarrow> ordered_state (fold order_entry es x)"
  by (induction es arbitrary: x) (simp_all add: order_entry_state)

lemma order_state: "list_all acceptable es \<Longrightarrow> ordered_state (projectWithExecutionOrder es)"
  unfolding projectWithExecutionOrder_def
  by (rule order_fold_state) (simp_all add: ordered_state_def mhas_def)

lemma order_kept: "mhas (p_Units (fst x)) k \<Longrightarrow> map_of (snd (fold order_entry es x)) k = map_of (snd x) k"
proof (induction es arbitrary: x)
  case (Cons e es)
  have "mhas (p_Units (fst (order_entry e x))) k" using Cons.prems known_stays by (simp add: order_fields)
  from Cons.IH [OF this] show ?case using order_fields(2) [OF Cons.prems] by simp
qed simp

lemma keyed_unit:
  assumes "keyed p" "nul_free s"
  shows "map_of (p_Units p) (UnitKey s i) = Some u \<Longrightarrow> u_SessionID u = s \<and> u_WorkUnitID u = i"
proof -
  assume "map_of (p_Units p) (UnitKey s i) = Some u"
  then have "UnitKey s i = UnitKey (u_SessionID u) (u_WorkUnitID u)" "nul_free (u_SessionID u)"
    using assms(1) by (auto simp: keyed_def)
  then show ?thesis using assms(2) UnitKey_inject [of s "u_SessionID u" i "u_WorkUnitID u"] by (auto simp: nul_free_def)
qed

text \<open>The nodes of a snapshot, by the key of their unit.\<close>

lemma node_fields [simp]: "n_ID (node_of inferred k u) = u_WorkUnitID u" "n_State (node_of inferred k u) = u_State u"
  by (simp_all add: node_of_def)

lemma snapshot_nodes:
  assumes "projectWithExecutionOrder es = (p, inferred)" "keyed p"
  shows "n \<in> set (sn_Nodes (BuildSnapshot es)) \<longleftrightarrow>
    (\<exists>u. map_of (p_Units p) (UnitKey (rootSession es) (n_ID n)) = Some u \<and> u_SessionID u = rootSession es \<and>
      u_WorkUnitID u = n_ID n \<and> n = node_of inferred (UnitKey (rootSession es) (n_ID n)) u)"
proof -
  have key: "k = UnitKey (u_SessionID u) (u_WorkUnitID u)" if "map_of (p_Units p) k = Some u" for k u
    using assms(2) that by (simp add: keyed_def)
  have "n \<in> set (sn_Nodes (BuildSnapshot es)) \<longleftrightarrow>
    (\<exists>k u. map_of (p_Units p) k = Some u \<and> u_SessionID u = rootSession es \<and> n = node_of inferred k u)"
    unfolding BuildSnapshot_fields(1) [OF assms(1)] session_nodes_def
    by (force simp: mget_def mhas_keys [symmetric] mhas_def image_iff)
  also have "\<dots> \<longleftrightarrow> (\<exists>u. map_of (p_Units p) (UnitKey (rootSession es) (n_ID n)) = Some u \<and> u_SessionID u = rootSession es \<and>
      u_WorkUnitID u = n_ID n \<and> n = node_of inferred (UnitKey (rootSession es) (n_ID n)) u)"
  proof
    assume "\<exists>k u. map_of (p_Units p) k = Some u \<and> u_SessionID u = rootSession es \<and> n = node_of inferred k u"
    then obtain k u where u: "map_of (p_Units p) k = Some u" "u_SessionID u = rootSession es" "n = node_of inferred k u" by blast
    have i: "n_ID n = u_WorkUnitID u" using u(3) by (simp add: node_of_def)
    have "k = UnitKey (rootSession es) (n_ID n)" using key [OF u(1)] u(2) i by simp
    then show "\<exists>u. map_of (p_Units p) (UnitKey (rootSession es) (n_ID n)) = Some u \<and> u_SessionID u = rootSession es \<and>
      u_WorkUnitID u = n_ID n \<and> n = node_of inferred (UnitKey (rootSession es) (n_ID n)) u"
      using u i by (intro exI [of _ u]) simp
  qed blast
  finally show ?thesis .
qed

lemma snapshot_node:
  assumes "projectWithExecutionOrder es = (p, inferred)" "keyed p" "nul_free (rootSession es)"
  shows "n \<in> set (sn_Nodes (BuildSnapshot es)) \<and> n_ID n = i \<longleftrightarrow>
    (\<exists>u. map_of (p_Units p) (UnitKey (rootSession es) i) = Some u \<and> n = node_of inferred (UnitKey (rootSession es) i) u)"
proof (cases "map_of (p_Units p) (UnitKey (rootSession es) i)")
  case None
  then show ?thesis by (auto simp: snapshot_nodes [OF assms(1,2)])
next
  case (Some u)
  have id: "u_SessionID u = rootSession es" "u_WorkUnitID u = i" using keyed_unit [OF assms(2,3) Some] by simp_all
  then have "n_ID (node_of inferred (UnitKey (rootSession es) i) u) = i" by simp
  then have "n \<in> set (sn_Nodes (BuildSnapshot es)) \<and> n_ID n = i \<longleftrightarrow> n = node_of inferred (UnitKey (rootSession es) i) u"
    unfolding snapshot_nodes [OF assms(1,2), of n] using Some id by fastforce
  then show ?thesis using Some by simp
qed

text \<open>The candidates and the order the fold reads are those its snapshot shows.\<close>

lemma settled_shown:
  assumes "projectWithExecutionOrder es = (p, inferred)" "keyed p" "nul_free (rootSession es)"
  shows "set (settledUnitIDs p (rootSession es)) = settled_in (BuildSnapshot es)"
proof -
  have wf: "wf_map (p_Units p)" using assms(2) by (simp add: keyed_def)
  have at: "(k, u) \<in> set (p_Units p) \<longleftrightarrow> map_of (p_Units p) k = Some u" for k u
    using wf by (auto simp: wf_map_def mkeys_def map_of_eq_Some_iff)
  have key: "k = UnitKey (u_SessionID u) (u_WorkUnitID u)" if "map_of (p_Units p) k = Some u" for k u
    using assms(2) that by (simp add: keyed_def)
  have "i \<in> set (settledUnitIDs p (rootSession es)) \<longleftrightarrow>
    (\<exists>u. map_of (p_Units p) (UnitKey (rootSession es) i) = Some u \<and> u_State u = StateSettled)" for i
  proof
    assume "i \<in> set (settledUnitIDs p (rootSession es))"
    then obtain k u where u: "map_of (p_Units p) k = Some u" "u_SessionID u = rootSession es" "u_State u = StateSettled" "i = u_WorkUnitID u"
      by (auto simp: settledUnitIDs_def at)
    then show "\<exists>u. map_of (p_Units p) (UnitKey (rootSession es) i) = Some u \<and> u_State u = StateSettled" using key [OF u(1)] by auto
  next
    assume "\<exists>u. map_of (p_Units p) (UnitKey (rootSession es) i) = Some u \<and> u_State u = StateSettled"
    then obtain u where u: "map_of (p_Units p) (UnitKey (rootSession es) i) = Some u" "u_State u = StateSettled" by blast
    then show "i \<in> set (settledUnitIDs p (rootSession es))"
      using keyed_unit [OF assms(2,3) u(1)] by (force simp: settledUnitIDs_def at)
  qed
  moreover have "i \<in> settled_in (BuildSnapshot es) \<longleftrightarrow>
    (\<exists>u. map_of (p_Units p) (UnitKey (rootSession es) i) = Some u \<and> u_State u = StateSettled)" for i
  proof -
    have "i \<in> settled_in (BuildSnapshot es) \<longleftrightarrow> (\<exists>n. (n \<in> set (sn_Nodes (BuildSnapshot es)) \<and> n_ID n = i) \<and> n_State n = StateSettled)"
      by (auto simp: settled_in_def)
    then show ?thesis unfolding snapshot_node [OF assms] by force
  qed
  ultimately show ?thesis by blast
qed

lemma order_shown:
  assumes "projectWithExecutionOrder es = (p, inferred)" "ordered_state (p, inferred)" "nul_free (rootSession es)"
  shows "needs (prerequisitesOf p (rootSession es) inferred) = follows (BuildSnapshot es)"
proof -
  have k: "keyed p" using assms(2) by (simp add: ordered_state_def)
  let ?s = "rootSession es"
  have edges: "(a, b) \<in> follows (BuildSnapshot es) \<longleftrightarrow> (\<exists>n. (n \<in> set (sn_Nodes (BuildSnapshot es)) \<and> n_ID n = a) \<and> b \<in> set (n_Prerequisites n))" for a b
    unfolding follows_def BuildSnapshot_fields(2) [OF assms(1)] by (auto simp: edges_of_def image_iff)
  have "b \<in> set (prerequisitesOf p ?s inferred a) \<longleftrightarrow> (\<exists>n. (n \<in> set (sn_Nodes (BuildSnapshot es)) \<and> n_ID n = a) \<and> b \<in> set (n_Prerequisites n))" for a b
  proof (cases "map_of (p_Units p) (UnitKey ?s a)")
    case None
    then have "map_of inferred (UnitKey ?s a) = None" using assms(2) by (auto simp: ordered_state_def mhas_def)
    then show ?thesis using None
      unfolding snapshot_node [OF assms(1) k assms(3)] by (simp add: prerequisitesOf_def unit_at_def mget_def zero_unit_def)
  next
    case (Some u)
    then show ?thesis
      unfolding snapshot_node [OF assms(1) k assms(3)] by (simp add: prerequisitesOf_def unit_at_def mget_def node_of_def)
  qed
  then show ?thesis using edges by (auto simp: needs_def)
qed

text \<open>The first admission of a unit nobody planned, and what it infers.\<close>

lemma first_admission:
  assumes "e_Kind e = KindAdmitted" "\<not> unit_known p (e_SessionID e) (e_WorkUnitID e)"
  shows "map_of (p_Units (fold_entry e p)) (entry_key e) = Some (next_unit e zero_unit)"
    and "u_State (next_unit e zero_unit) = StateInFlight \<and> \<not> u_Committed (next_unit e zero_unit)"
proof -
  have "lifecycle e" using assms(1) by (simp add: lifecycle_def accounting_def activityKindOf_def)
  then show "map_of (p_Units (fold_entry e p)) (entry_key e) = Some (next_unit e zero_unit)"
    using assms by (simp add: map_of_fold_entry unit_after_def accepts_def unit_known_def entry_key_def mget_def mhas_def split: option.splits)
  show "u_State (next_unit e zero_unit) = StateInFlight \<and> \<not> u_Committed (next_unit e zero_unit)"
    using assms(1) by (simp add: next_unit_def zero_unit_def Let_def)
qed

lemma admission_order:
  assumes "e_Kind e = KindAdmitted" "\<not> unit_known p (e_SessionID e) (e_WorkUnitID e)" "ordered_state (p, inferred)" "acceptable e"
  shows "prerequisitesOf (fold_entry e p) (e_SessionID e) inferred = prerequisitesOf p (e_SessionID e) inferred"
proof
  fix i
  show "prerequisitesOf (fold_entry e p) (e_SessionID e) inferred i = prerequisitesOf p (e_SessionID e) inferred i"
  proof (cases "UnitKey (e_SessionID e) i = entry_key e")
    case True
    have "\<not> mhas (p_Units p) (entry_key e)" using assms(2) by (simp add: unit_known_def entry_key_def)
    then have "map_of (p_Units p) (entry_key e) = None" by (simp add: mhas_def)
    then show ?thesis using first_admission [OF assms(1,2)] True
      by (simp add: prerequisitesOf_def unit_at_def mget_def zero_unit_def)
  next
    case False
    then show ?thesis by (simp add: prerequisitesOf_def unit_at_def mget_def map_of_fold_entry)
  qed
qed

text \<open>C13: Work that no commitment declared is ordered after exactly the leading settled work. When a unit of the
  root session nobody planned is admitted for the first time, then the snapshot of every later history draws
  it once, and its prerequisites are, in sorted order, the units settled in the snapshot just before the
  admission that no other settled unit comes after, directly or through any chain of that snapshot's edges;
  later entries never change them. The entries are valid and their session identities hold no NUL byte.\<close>

theorem frontier_exact:
  assumes valid: "list_all acceptable (es @ e # fs)" and root: "e_SessionID e = rootSession (es @ e # fs)"
    and first: "e_Kind e = KindAdmitted" "\<not> unit_known (Project es) (e_SessionID e) (e_WorkUnitID e)"
  shows "\<exists>n. {m \<in> set (sn_Nodes (BuildSnapshot (es @ e # fs))). n_ID m = e_WorkUnitID e} = {n} \<and>
    set (n_Prerequisites n) = leading (BuildSnapshot es) \<and> sorted (n_Prerequisites n)"
proof -
  let ?s = "e_SessionID e" and ?k = "entry_key e"
  obtain p inferred where pi: "projectWithExecutionOrder es = (p, inferred)" by fastforce
  have p: "p = Project es" using projectWithExecutionOrder_fst [of es] pi by simp
  have ok: "ordered_state (p, inferred)" "acceptable e" using order_state [of es] pi valid by auto
  have nul: "nul_free ?s" using ok(2) by (simp add: acceptable_def)
  have shown: "set (settledUnitIDs p ?s) = settled_in (BuildSnapshot es)"
      "needs (prerequisitesOf p ?s inferred) = follows (BuildSnapshot es)"
  proof (atomize (full), cases "es = []")
    case True
    then have "p = newProjection" "inferred = []" using pi by (simp_all add: projectWithExecutionOrder_def)
    then show "set (settledUnitIDs p ?s) = settled_in (BuildSnapshot es) \<and>
        needs (prerequisitesOf p ?s inferred) = follows (BuildSnapshot es)"
      using True BuildSnapshot_fields(1,2) [OF pi]
      by (simp add: settledUnitIDs_def settled_in_def follows_def session_nodes_def needs_def prerequisitesOf_def unit_at_def
          newProjection_def mget_def zero_unit_def sorted_keys_def mkeys_def)
  next
    case False
    then have "rootSession es = ?s" using root by (cases es) (simp_all add: rootSession_def)
    then show "set (settledUnitIDs p ?s) = settled_in (BuildSnapshot es) \<and>
        needs (prerequisitesOf p ?s inferred) = follows (BuildSnapshot es)"
      using settled_shown [OF pi] order_shown [OF pi ok(1)] ok(1) nul by (simp add: ordered_state_def)
  qed
  define out where "out = frontier (walk_fuel (fold_entry e p) inferred) (settledUnitIDs p ?s) (prerequisitesOf (fold_entry e p) ?s inferred)"
  have out: "set out = leading (BuildSnapshot es)" "sorted out"
    unfolding out_def leading_def frontier_spec
    by (simp_all add: admission_order [OF first(1) first(2) [folded p] ok] shown frontier_sorted)
  note adm = first_admission [OF first(1) first(2) [folded p]]
  have "mhas (p_Units (fold_entry e p)) ?k" using adm(1) by (simp add: mhas_def)
  then have step: "order_entry e (p, inferred) = (fold_entry e p, mput ?k out inferred)"
    using first p by (simp add: order_entry_def Let_def unit_known_def entry_key_def out_def)
  obtain q inferred' where qi: "projectWithExecutionOrder (es @ e # fs) = (q, inferred')" by fastforce
  have fold: "fold order_entry fs (fold_entry e p, mput ?k out inferred) = (q, inferred')"
    using pi qi step by (simp add: projectWithExecutionOrder_def)
  have kept: "map_of inferred' ?k = Some out"
    using order_kept [of "(fold_entry e p, mput ?k out inferred)" ?k fs] adm(1) fold by (simp add: mhas_def)
  have "q = fold fold_entry fs (fold_entry e p)"
    using projectWithExecutionOrder_fst [of "es @ e # fs"] qi p by (simp add: Project_def)
  then obtain u where u: "map_of (p_Units q) ?k = Some u" "\<not> u_Committed u"
    using admitted_frozen [OF adm(1), of fs] adm(2) by auto
  have kq: "keyed q" using order_state [OF valid] qi by (simp add: ordered_state_def)
  have id: "u_SessionID u = ?s" "u_WorkUnitID u = e_WorkUnitID e"
    using keyed_unit [OF kq nul] u(1) by (simp_all add: entry_key_def)
  let ?n = "node_of inferred' ?k u"
  have "{m \<in> set (sn_Nodes (BuildSnapshot (es @ e # fs))). n_ID m = e_WorkUnitID e} = {?n}"
    using u(1) snapshot_node [OF qi kq nul [unfolded root], of _ "e_WorkUnitID e"] root by (auto simp: entry_key_def)
  moreover have "n_Prerequisites ?n = out" using u(2) kept by (simp add: node_of_def mget_def)
  ultimately show ?thesis using out by blast
qed

text \<open>A planned unit settles, and work nobody planned follows it.\<close>

theorem frontier_exact_witness:
  "\<exists>n. {m \<in> set (sn_Nodes (BuildSnapshot (settled_example @ act KindAdmitted ''root'' ''probe'' ''1'' # [act KindLaunched ''root'' ''probe'' ''1'']))).
     n_ID m = ''probe''} = {n} \<and> set (n_Prerequisites n) = {''build''}"
proof -
  define e where "e = act KindAdmitted ''root'' ''probe'' ''1''"
  define l where "l = act KindLaunched ''root'' ''probe'' ''1''"
  have "list_all (\<lambda>e. validate e = [] \<and> CHR 0x00 \<notin> set (e_SessionID e)) (settled_example @ e # [l])"
    unfolding e_def l_def by code_simp
  then have valid: "list_all acceptable (settled_example @ e # [l])" unfolding list_all_iff acceptable_def nul_free_def .
  have fields: "e_SessionID e = ''root''" "e_WorkUnitID e = ''probe''" "e_Kind e = KindAdmitted"
    by (simp_all add: act_def e_def)
  have root: "e_SessionID e = rootSession (settled_example @ e # [l])"
    unfolding fields by (simp add: act_def rootSession_def settled_example_def planned_act_def)
  have new: "\<not> unit_known (Project settled_example) (e_SessionID e) (e_WorkUnitID e)" unfolding fields by code_simp
  have nodes: "map (\<lambda>n. (n_ID n, n_State n)) (sn_Nodes (BuildSnapshot settled_example)) = [(''build'', StateSettled)]"
    "sn_Edges (BuildSnapshot settled_example) = []" by code_simp+
  then obtain n0 where n0: "sn_Nodes (BuildSnapshot settled_example) = [n0]" "n_ID n0 = ''build''" "n_State n0 = StateSettled"
    unfolding map_eq_Cons_conv by blast
  have "{n \<in> set [n0]. n_State n = StateSettled} = {n0}" using n0(3) by auto
  then have "settled_in (BuildSnapshot settled_example) = {''build''}" unfolding settled_in_def n0(1) using n0(2) by simp
  then have "leading (BuildSnapshot settled_example) = {''build''}" using nodes(2) by (simp add: leading_def follows_def)
  with frontier_exact [OF valid root fields(3) new]
  have "\<exists>n. {m \<in> set (sn_Nodes (BuildSnapshot (settled_example @ e # [l]))). n_ID m = ''probe''} = {n} \<and> set (n_Prerequisites n) = {''build''}"
    unfolding fields by (simp only:) blast
  then show ?thesis unfolding e_def l_def .
qed

text \<open>The snapshot draws the projection and nothing else: its nodes are the units of the root
  session in key order with their projected state, its edges are the nodes' prerequisites, and it
  reports an uncertain capture exactly when a drawn unit is uncertain.\<close>

theorem snapshot_draws_projection:
  "map (\<lambda>n. (n_ID n, n_State n, n_Flight n, n_Outcome n, n_Assurance n)) (sn_Nodes (BuildSnapshot es)) =
     map (\<lambda>k. let u = mget zero_unit (p_Units (Project es)) k
               in (u_WorkUnitID u, u_State u, u_Flight u, u_Outcome u, u_Assurance u))
       (filter (\<lambda>k. u_SessionID (mget zero_unit (p_Units (Project es)) k) = rootSession es) (sorted_keys (p_Units (Project es))))
   \<and> sn_Edges (BuildSnapshot es) = concat (map edges_of (sn_Nodes (BuildSnapshot es)))
   \<and> (sn_Capture (BuildSnapshot es) = CaptureUncertain \<longleftrightarrow> FlightUncertain \<in> n_Flight ` set (sn_Nodes (BuildSnapshot es)))"
proof -
  obtain p inferred where pi: "projectWithExecutionOrder es = (p, inferred)" by fastforce
  then have p: "p = Project es" using projectWithExecutionOrder_fst [of es] by simp
  note f = BuildSnapshot_fields [OF pi]
  have capture: "sn_Capture (BuildSnapshot es) = CaptureUncertain \<longleftrightarrow> FlightUncertain \<in> n_Flight ` set (sn_Nodes (BuildSnapshot es))"
    unfolding f(3) by (cases "es = []") (auto intro: rev_image_eqI)
  have "map (\<lambda>n. (n_ID n, n_State n, n_Flight n, n_Outcome n, n_Assurance n)) (session_nodes session p inferred keys) =
     map (\<lambda>k. let u = mget zero_unit (p_Units p) k in (u_WorkUnitID u, u_State u, u_Flight u, u_Outcome u, u_Assurance u))
       (filter (\<lambda>k. u_SessionID (mget zero_unit (p_Units p) k) = session) keys)" for session keys
    unfolding session_nodes_def node_of_def Let_def by simp
  with f(1) p have nodes: "map (\<lambda>n. (n_ID n, n_State n, n_Flight n, n_Outcome n, n_Assurance n)) (sn_Nodes (BuildSnapshot es)) =
     map (\<lambda>k. let u = mget zero_unit (p_Units (Project es)) k
               in (u_WorkUnitID u, u_State u, u_Flight u, u_Outcome u, u_Assurance u))
       (filter (\<lambda>k. u_SessionID (mget zero_unit (p_Units (Project es)) k) = rootSession es) (sorted_keys (p_Units (Project es))))"
    by simp
  show ?thesis by (intro conjI nodes f(2) capture)
qed

end
