(* ===== verification/Disp_Admission.thy ===== *)
theory Disp_Admission
  imports Hist_Laws
begin

text \<open>
  The admission protocol of \<open>takt/dispatch\<close> (\<open>policy.go\<close>, \<open>dispatch.go\<close>, \<open>contest.go\<close>,
  \<open>activity.go\<close>): the decision over one projection, and the records it appends. Each operation
  takes the history and returns the errors joined beside the history it leaves. A refusal is
  a constructor of \<open>refusal\<close>; its text is not modelled.
\<close>

datatype 'r derror = HistoryError herror | Refused 'r

datatype refusal = IdentityRequired | CeilingReached | UnitInFlight | UnitWithdrawn | UnplannedBound
  | QABudget | RecoveryAbandoned | Unreconciled | AttemptBudget | ActionBudget
  | NotInFlight | LaunchUncertain | NothingUncertain | NotPlanned
  | ExceptionObjective | ExceptionWrongBound | NoTerminalFailure | ContestAllowance
  | ActivityIdentity | ActivityKind | ActivityRecorded | ActivityNotActive | ActivityFinished
  | PolicyError

type_synonym 'r errs = "'r derror list"

definition hist_errs :: "herror list \<times> hist \<Rightarrow> 'r errs \<times> hist" where
  "hist_errs r = (map HistoryError (fst r), snd r)"

text \<open>\<open>errors.Join(h.Append(entry), e)\<close>.\<close>

definition append_join :: "entry \<Rightarrow> 'r errs \<Rightarrow> hist \<Rightarrow> 'r errs \<times> hist" where
  "append_join e err h = (let (herr, h') = hist_errs (Append e h) in (herr @ err, h'))"

section \<open>Policy\<close>

record admission_policy =
  ap_Version :: int
  ap_Specialists :: int
  ap_UnplannedUnits :: int
  ap_Contests :: int
  ap_RecoveryFailures :: int
  ap_MaxFileLines :: int
  ap_MaxActions :: int
  ap_MaxAttempts :: int
  ap_MemoryPage :: int

text \<open>The embedded \<open>admission_policy.yaml\<close>.\<close>

definition admission_policy_yaml :: admission_policy where
  "admission_policy_yaml = \<lparr>ap_Version = 1, ap_Specialists = 4, ap_UnplannedUnits = 4, ap_Contests = 3,
    ap_RecoveryFailures = 2, ap_MaxFileLines = 1000, ap_MaxActions = 200, ap_MaxAttempts = 3,
    ap_MemoryPage = 50\<rparr>"

text \<open>\<open>parseAdmissionPolicy\<close> after the YAML decoding, whose result is its argument.\<close>

definition parseAdmissionPolicy :: "admission_policy option \<Rightarrow> refusal errs + admission_policy" where
  "parseAdmissionPolicy decoded = (case decoded of None \<Rightarrow> Inl [Refused PolicyError]
    | Some p \<Rightarrow>
        if ap_Version p \<noteq> 1 then Inl [Refused PolicyError]
        else if ap_MaxActions p \<le> 0 \<or> ap_MaxAttempts p \<le> 0 then Inl [Refused PolicyError]
        else if ap_Specialists p \<le> 0 \<or> ap_UnplannedUnits p \<le> 0 \<or> ap_Contests p \<le> 0
             \<or> ap_RecoveryFailures p \<le> 0 \<or> ap_MaxFileLines p \<le> 0 \<or> ap_MemoryPage p \<le> 0
        then Inl [Refused PolicyError]
        else Inr p)"

definition LoadAdmissionPolicy :: "refusal errs + admission_policy" where
  "LoadAdmissionPolicy = parseAdmissionPolicy (Some admission_policy_yaml)"

definition AdmissionPolicyRef :: string where "AdmissionPolicyRef = ''harness.admission''"
definition CauseRepetition :: string where "CauseRepetition = ''control/unit-in-flight''"
definition CauseWithdrawn :: string where "CauseWithdrawn = ''control/unit-withdrawn''"
definition CauseNoFailure :: string where "CauseNoFailure = ''control/no-terminal-failure''"

section \<open>Admission\<close>

record admission_request =
  rq_Event :: string
  rq_Session :: string
  rq_Agent :: string
  rq_Dispatch :: string

definition CurrentAttempt :: "projection \<Rightarrow> string \<Rightarrow> string \<Rightarrow> string" where
  "CurrentAttempt p session event =
    (if u_AttemptID (unit_at p session event) \<noteq> [] then u_AttemptID (unit_at p session event) else FirstAttempt)"

definition attempted :: "recovery \<Rightarrow> int" where
  "attempted r = (case r_Attempted r of None \<Rightarrow> 0 | Some m \<Rightarrow> int (length m))"

text \<open>The reason the switch of \<open>decide\<close> finds first, with the cause it records.\<close>

definition refusal_of :: "projection \<Rightarrow> admission_policy \<Rightarrow> admission_request \<Rightarrow> (string \<times> refusal) option" where
  "refusal_of p pol req =
    (let u = unit_at p (rq_Session req) (rq_Event req);
         known = unit_known p (rq_Session req) (rq_Event req);
         b = Budgets p (rq_Session req);
         (objective, r) = Scope b (rq_Event req);
         ceiling = wrap_int (ap_Specialists pol + allowance b BoundConcurrency);
         attempts = wrap_int (r_Attempts r + allowance b (AllowanceKey BoundRecoveryAttempts objective));
         actions = wrap_int (r_Actions r + allowance b (AllowanceKey BoundRecoveryActions objective));
         (qaVersion, qaRound) = QARoundFor b (rq_Event req);
         qaObjective = q_Objective (s_Round qaRound);
         qaCeiling = wrap_int (ap_MaxAttempts pol + allowance b (AllowanceKey BoundQARounds qaObjective))
     in if InFlight p \<ge> ceiling then Some (BoundConcurrency, CeilingReached)
        else if known \<and> u_State u = StateInFlight then Some (CauseRepetition, UnitInFlight)
        else if known \<and> u_State u = StateWithdrawn then Some (CauseWithdrawn, UnitWithdrawn)
        else if \<not> known \<and> b_Unplanned b \<ge> wrap_int (ap_UnplannedUnits pol + allowance b BoundUnplanned)
        then Some (BoundUnplanned, UnplannedBound)
        else if qaVersion \<noteq> [] \<and> \<not> s_Started qaRound \<and> StrengtheningUsed b qaObjective \<ge> qaCeiling
        then Some (BoundQARounds, QABudget)
        else if objective \<noteq> [] \<and> \<not> r_Open r then Some (BoundRecoveryAttempts, RecoveryAbandoned)
        else if objective \<noteq> [] \<and> r_Unreconciled r then Some (BoundRecoveryActions, Unreconciled)
        else if objective \<noteq> [] \<and> attempted r \<ge> attempts then Some (BoundRecoveryAttempts, AttemptBudget)
        else if objective \<noteq> [] \<and> r_Used r \<ge> actions then Some (BoundRecoveryActions, ActionBudget)
        else None)"

definition decide :: "projection \<Rightarrow> admission_policy \<Rightarrow> admission_request \<Rightarrow> entry \<times> refusal errs" where
  "decide p pol req =
    (let entry = zero_entry\<lparr>e_Author := AuthorHarness, e_Kind := KindAdmitted, e_SessionID := rq_Session req,
           e_WorkUnitID := rq_Event req, e_NodeKind := NodeKindDelegated,
           e_AttemptID := NextAttempt p (rq_Session req) (rq_Event req), e_Dispatch := rq_Dispatch req,
           e_Agent := rq_Agent req, e_Cause := CauseUncaptured, e_PolicyRef := AdmissionPolicyRef,
           e_Objective := fst (Scope (Budgets p (rq_Session req)) (rq_Event req))\<rparr>
     in case refusal_of p pol req of
          None \<Rightarrow> (entry, [])
        | Some (cause, err) \<Rightarrow> (entry\<lparr>e_Kind := KindDenied, e_Cause := cause\<rparr>, [Refused err]))"

definition Admit :: "admission_policy \<Rightarrow> string \<Rightarrow> admission_request \<Rightarrow> hist \<Rightarrow> refusal errs \<times> hist" where
  "Admit pol journalRef req h =
    (if rq_Event req = [] \<or> rq_Session req = [] then ([Refused IdentityRequired], h)
     else let (entry, err) = decide (hProject h) pol req
          in append_join (entry\<lparr>e_JournalRef := journalRef\<rparr>) err h)"

definition Admissible :: "admission_policy \<Rightarrow> admission_request \<Rightarrow> hist \<Rightarrow> refusal errs" where
  "Admissible pol req h =
    (if rq_Event req = [] \<or> rq_Session req = [] then [Refused IdentityRequired]
     else snd (decide (hProject h) pol req))"

section \<open>Termination, launch and reconciliation\<close>

definition terminate_outcome :: "projection \<Rightarrow> string \<Rightarrow> string \<Rightarrow> bool \<Rightarrow> outcome" where
  "terminate_outcome p event session nonStart =
    (let u = unit_at p session event
     in if r_Backtracked (snd (Scope (Budgets p session) event)) then OutcomeBacktracked
        else if nonStart \<or> u_CancelRequested u \<or> u_Flight u = FlightUncertain then OutcomeInterrupted
        else OutcomeCompleted)"

definition terminate_unit :: "string \<Rightarrow> string \<Rightarrow> string \<Rightarrow> bool \<Rightarrow> hist \<Rightarrow> refusal errs \<times> hist" where
  "terminate_unit journalRef event session nonStart h =
    (let p = hProject h; u = unit_at p session event;
         outcome = terminate_outcome p event session nonStart;
         terminated = zero_entry\<lparr>e_Author := AuthorHarness, e_Kind := KindTerminated, e_SessionID := session,
           e_WorkUnitID := event, e_AttemptID := CurrentAttempt p session event, e_Cause := CauseUncaptured,
           e_JournalRef := journalRef, e_Outcome := outcome,
           e_Objective := fst (Scope (Budgets p session) event)\<rparr>
     in if outcome \<noteq> OutcomeCompleted \<or> u_Assurance u \<noteq> None then hist_errs (Append terminated h)
        else hist_errs (AppendBatch [terminated,
               terminated\<lparr>e_Kind := KindResult, e_Author := AuthorHarness, e_Outcome := OutcomeNone,
                 e_Objective := [], e_Status := ResultUnverified\<rparr>] h))"

definition Finish :: "string \<Rightarrow> string \<Rightarrow> string \<Rightarrow> hist \<Rightarrow> refusal errs \<times> hist" where
  "Finish journalRef event session h = terminate_unit journalRef event session False h"

definition Record :: "string \<Rightarrow> string \<Rightarrow> string \<Rightarrow> kind \<Rightarrow> hist \<Rightarrow> refusal errs \<times> hist" where
  "Record journalRef event session k h =
    hist_errs (Append (zero_entry\<lparr>e_Author := AuthorOf k, e_Kind := k, e_SessionID := session,
      e_WorkUnitID := event, e_AttemptID := CurrentAttempt (hProject h) session event,
      e_Cause := CauseUncaptured, e_JournalRef := journalRef\<rparr>) h)"

definition UncertainFlight :: "flight \<Rightarrow> bool" where
  "UncertainFlight f \<longleftrightarrow> f = FlightUncertain \<or> f = FlightUnmonitored"

definition Launch :: "string \<Rightarrow> string \<Rightarrow> string \<Rightarrow> hist \<Rightarrow> refusal errs \<times> hist" where
  "Launch journalRef event session h =
    (let u = unit_at (hProject h) session event
     in if u_State u \<noteq> StateInFlight then ([Refused NotInFlight], h)
        else if u_Launched u then ([], h)
        else if UncertainFlight (u_Flight u) then ([Refused LaunchUncertain], h)
        else Record journalRef event session KindLaunched h)"

definition Reconcile :: "string \<Rightarrow> string \<Rightarrow> string \<Rightarrow> bool \<Rightarrow> hist \<Rightarrow> refusal errs \<times> hist" where
  "Reconcile journalRef event session running h =
    (let u = unit_at (hProject h) session event
     in if \<not> running \<and> u_State u \<noteq> StateInFlight then ([], h)
        else if \<not> UncertainFlight (u_Flight u) then ([Refused NothingUncertain], h)
        else if running then Record journalRef event session KindLaunched h
        else terminate_unit journalRef event session True h)"

definition Withdraw :: "string \<Rightarrow> string \<Rightarrow> string \<Rightarrow> hist \<Rightarrow> refusal errs \<times> hist" where
  "Withdraw journalRef event session h =
    (if u_State (unit_at (hProject h) session event) \<noteq> StatePlanned then ([Refused NotPlanned], h)
     else Record journalRef event session KindWithdrawn h)"

section \<open>Exceptions\<close>

definition checkException :: "budgets \<Rightarrow> string \<Rightarrow> string \<Rightarrow> refusal errs" where
  "checkException b bound objective =
    (if bound \<in> {BoundRecovery, BoundRecoveryActions, BoundRecoveryAttempts, BoundQARounds} \<and> objective = []
     then [Refused ExceptionObjective]
     else let r = recovery_of b objective;
              spentLimit = (bound = BoundRecoveryActions \<or> bound = BoundRecoveryAttempts)
          in if spentLimit \<and> r_Backtracked r \<and> \<not> r_Restored r \<and> bound \<noteq> r_Cause r then [Refused ExceptionWrongBound]
             else [])"

definition Except :: "string \<Rightarrow> string \<Rightarrow> string \<Rightarrow> string \<Rightarrow> string \<Rightarrow> int \<Rightarrow> hist \<Rightarrow> refusal errs \<times> hist" where
  "Except journalRef event session bound objective grant h =
    (let err = checkException (Budgets (hProject h) session) bound objective;
         label = (if event \<noteq> [] then event else if objective \<noteq> [] then objective else bound)
     in if err \<noteq> [] then (err, h)
        else hist_errs (Append (zero_entry\<lparr>e_Author := AuthorHarness, e_Kind := KindException, e_SessionID := session,
               e_WorkUnitID := label, e_AttemptID := FirstAttempt, e_Cause := CauseUncaptured,
               e_JournalRef := journalRef, e_PolicyRef := AdmissionPolicyRef, e_Bound := bound,
               e_Objective := objective, e_Allowance := grant\<rparr>) h))"

section \<open>Contests\<close>

definition terminalFailure :: "entry list \<Rightarrow> string \<Rightarrow> string \<Rightarrow> string \<Rightarrow> bool" where
  "terminalFailure entries session event attempt \<longleftrightarrow>
    (\<exists>e \<in> set entries. e_Kind e = KindTerminated \<and> e_SessionID e = session \<and> e_WorkUnitID e = event
       \<and> e_AttemptID e = attempt \<and> e_Outcome e \<noteq> OutcomeCompleted)"

definition Contest :: "admission_policy \<Rightarrow> string \<Rightarrow> string \<Rightarrow> string \<Rightarrow> string \<Rightarrow> hist \<Rightarrow> refusal errs \<times> hist" where
  "Contest pol journalRef event session attempt h =
    (if event = [] \<or> session = [] then ([Refused IdentityRequired], h)
     else let b = Budgets (hProject h) session
          in if mget False (b_Contests b) (event @ ''/'' @ attempt) then ([], h)
             else let entry = zero_entry\<lparr>e_Author := AuthorOrchestrator, e_Kind := KindContested,
                        e_SessionID := session, e_WorkUnitID := event, e_AttemptID := attempt,
                        e_Cause := CauseUncaptured, e_JournalRef := journalRef, e_PolicyRef := AdmissionPolicyRef\<rparr>;
                      deny = (\<lambda>cause err. append_join (entry\<lparr>e_Author := AuthorHarness, e_Kind := KindDenied,
                        e_Cause := cause\<rparr>) [Refused err] h)
                  in if \<not> terminalFailure (h_entries h) session event attempt then deny CauseNoFailure NoTerminalFailure
                     else if int (length (b_Contests b)) \<ge> wrap_int (ap_Contests pol + allowance b BoundContests)
                     then deny BoundContests ContestAllowance
                     else append_join entry [] h)"

section \<open>Activities\<close>

definition activityRecordKind :: "node_kind \<Rightarrow> bool \<Rightarrow> refusal errs + kind" where
  "activityRecordKind nk start =
    (if nk = NodeKindOrchestrator \<and> start then Inr KindActivityStarted
     else if nk = NodeKindOrchestrator then Inr KindActivityFinished
     else if nk = NodeKindMaintenance \<and> start then Inr KindMaintenanceStarted
     else if nk = NodeKindMaintenance then Inr KindMaintenanceFinished
     else Inl [Refused ActivityKind])"

definition activity_entry :: "kind \<Rightarrow> string \<Rightarrow> string \<Rightarrow> node_kind \<Rightarrow> entry" where
  "activity_entry k session activityID nk = zero_entry\<lparr>e_Author := AuthorOf k, e_Kind := k,
     e_SessionID := session, e_ActivityID := activityID, e_NodeKind := nk, e_Cause := CauseNone\<rparr>"

definition StartActivity :: "string \<Rightarrow> string \<Rightarrow> node_kind \<Rightarrow> string \<Rightarrow> hist \<Rightarrow> refusal errs \<times> hist" where
  "StartActivity session activityID nk owner h =
    (if session = [] \<or> activityID = [] then ([Refused ActivityIdentity], h)
     else case activityRecordKind nk True of Inl err \<Rightarrow> (err, h)
       | Inr k \<Rightarrow>
           let record = hist_errs (Append ((activity_entry k session activityID nk)\<lparr>e_Owner := owner\<rparr>) h)
           in case map_of (p_Activities (hProject h)) activityID of
                Some prior \<Rightarrow>
                  if a_SessionID prior \<noteq> session \<or> a_NodeKind prior \<noteq> nk \<or> a_State prior \<noteq> StateInFlight
                  then ([Refused ActivityRecorded], h)
                  else if owner = [] \<or> owner = a_Owner prior then ([], h)
                  else record
              | None \<Rightarrow> record)"

definition FinishActivity :: "string \<Rightarrow> string \<Rightarrow> node_kind \<Rightarrow> outcome \<Rightarrow> hist \<Rightarrow> refusal errs \<times> hist" where
  "FinishActivity session activityID nk outcome h =
    (if session = [] \<or> activityID = [] then ([Refused ActivityIdentity], h)
     else case map_of (p_Activities (hProject h)) activityID of
         None \<Rightarrow> ([Refused ActivityNotActive], h)
       | Some prior \<Rightarrow>
           if a_SessionID prior \<noteq> session \<or> a_NodeKind prior \<noteq> nk then ([Refused ActivityNotActive], h)
           else if a_State prior = StateSettled then
             (if a_Outcome prior = outcome then ([], h) else ([Refused ActivityFinished], h))
           else case activityRecordKind nk False of Inl err \<Rightarrow> (err, h)
             | Inr k \<Rightarrow> hist_errs (Append ((activity_entry k session activityID nk)\<lparr>e_Outcome := outcome\<rparr>) h))"

definition MarkActivityUnmonitored :: "string \<Rightarrow> string \<Rightarrow> hist \<Rightarrow> refusal errs \<times> hist" where
  "MarkActivityUnmonitored session activityID h =
    (if session = [] \<or> activityID = [] then ([Refused ActivityIdentity], h)
     else case map_of (p_Activities (hProject h)) activityID of
         None \<Rightarrow> ([Refused ActivityNotActive], h)
       | Some prior \<Rightarrow>
           if a_SessionID prior \<noteq> session \<or> a_NodeKind prior \<noteq> NodeKindOrchestrator then ([Refused ActivityNotActive], h)
           else if a_State prior = StateSettled \<or> a_Flight prior = FlightUnmonitored then ([], h)
           else hist_errs (Append (activity_entry KindUnmonitored session activityID NodeKindOrchestrator) h))"

end
