(* ===== verification/Disp_Plan.thy ===== *)
theory Disp_Plan
  imports Disp_Admission
begin

text \<open>
  Plan commitment and revision of \<open>takt/dispatch/plan.go\<close>. The graph of the in-plan prerequisites
  is checked by Kahn's algorithm; \<open>acyclic_plan_correct\<close> shows that it accepts exactly
  the acyclic plans. The reason of a rejected revision is recorded in the history, so the refusals
  carry the names their texts quote; \<open>quote\<close> is \<open>%q\<close> for names of printable ASCII.
\<close>

record plan_unit =
  pu_Unit :: string
  pu_Contract :: string
  pu_Prerequisites :: "string list"

definition zero_plan_unit :: plan_unit where
  "zero_plan_unit = \<lparr>pu_Unit = [], pu_Contract = [], pu_Prerequisites = []\<rparr>"

datatype plan_refusal = CommitShape | NoPlanStands | PlanStands string
  | UnitShape | DuplicateUnit string | UnknownPrerequisite string | PrerequisiteCycle
  | RevisionIdentity | StaleBase | AddedAndWithdrawn string | WithdrawnNotPlanned string
  | AdmittedChanged string | AddedUnsettled string string
  | OneRound | RoundShape | RoundImmutable | RoundUnits | RoundAbsent string
  | RoundAdmitted string | RoundMember string string

definition quote :: "string \<Rightarrow> string" where
  "quote s = CHR 0x22 # concat (map (\<lambda>c. if c = CHR 0x22 \<or> c = CHR 0x5C then [CHR 0x5C, c] else [c]) s) @ [CHR 0x22]"

definition reason :: "plan_refusal \<Rightarrow> string" where
  "reason r = (case r of
      CommitShape \<Rightarrow> ''dispatch: a commitment records an identified baseline version and its work''
    | NoPlanStands \<Rightarrow> ''dispatch: no plan stands in this session yet; commit one before revising it''
    | PlanStands v \<Rightarrow> ''dispatch: plan version '' @ v @ '' already stands; name it as the base version to revise it''
    | UnitShape \<Rightarrow> ''dispatch: every committed unit needs an identity and a contract''
    | DuplicateUnit u \<Rightarrow> ''dispatch: duplicate identity in commitment: '' @ u
    | UnknownPrerequisite u \<Rightarrow> ''dispatch: unknown prerequisite identity: '' @ u
    | PrerequisiteCycle \<Rightarrow> ''dispatch: committed prerequisites form a cycle''
    | RevisionIdentity \<Rightarrow> ''dispatch: a revision identifies its session, expected base version and new version''
    | StaleBase \<Rightarrow> ''dispatch: revision declares a stale base version''
    | AddedAndWithdrawn u \<Rightarrow> ''dispatch: '' @ u @ '' is both added and withdrawn in one revision''
    | WithdrawnNotPlanned u \<Rightarrow> ''dispatch: '' @ u @ '' is not planned; only still-planned work may be withdrawn''
    | AdmittedChanged u \<Rightarrow> ''dispatch: '' @ u @ '' is no longer planned; its contract and prerequisites cannot change; omit it from the revision''
    | AddedUnsettled u n \<Rightarrow> ''dispatch: '' @ u @ '' depends on '' @ n @ '', which is withdrawn or not settled; a new declaration depends only on planned or settled work''
    | OneRound \<Rightarrow> ''dispatch: declare at most one qa_round per plan version''
    | RoundShape \<Rightarrow> ''dispatch: qa_round requires a stable acceptance objective and authoring units''
    | RoundImmutable \<Rightarrow> ''dispatch: this plan version already declares a QA round; its membership is immutable; use a new version for a new round''
    | RoundUnits \<Rightarrow> ''dispatch: qa_round units must be distinct and nonempty''
    | RoundAbsent u \<Rightarrow> ''dispatch: qa_round unit '' @ quote u @ '' is absent from the resulting plan; declare its contract with dispatch_commit''
    | RoundAdmitted u \<Rightarrow> ''dispatch: qa_round unit '' @ quote u @ '' has already been admitted or withdrawn; declare new authoring units before delegation''
    | RoundMember u v \<Rightarrow> ''dispatch: qa_round unit '' @ quote u @ '' already belongs to round '' @ v @ ''; membership is immutable'')"

section \<open>The plan graph\<close>

fun indexPendingUnits :: "(string, int) gomap \<Rightarrow> plan_unit list \<Rightarrow> plan_refusal + (string, int) gomap" where
  "indexPendingUnits pending [] = Inr pending"
| "indexPendingUnits pending (u # us) =
    (if pu_Unit u = [] \<or> pu_Contract u = [] then Inl UnitShape
     else if mhas pending (pu_Unit u) then Inl (DuplicateUnit (pu_Unit u))
     else indexPendingUnits (mput (pu_Unit u) 0 pending) us)"

type_synonym graph = "(string, int) gomap \<times> (string, string list) gomap"

fun link_needs :: "projection \<Rightarrow> string \<Rightarrow> string \<Rightarrow> string list \<Rightarrow> graph \<Rightarrow> plan_refusal + graph" where
  "link_needs p session u [] g = Inr g"
| "link_needs p session u (need # needs) (pending, dependents) =
    (if \<not> mhas pending need then
       (if \<not> unit_known p session need then Inl (UnknownPrerequisite need)
        else link_needs p session u needs (pending, dependents))
     else link_needs p session u needs
       (mput u (mget 0 pending u + 1) pending, mput need (mget [] dependents need @ [u]) dependents))"

fun linkPrerequisites :: "projection \<Rightarrow> string \<Rightarrow> plan_unit list \<Rightarrow> graph \<Rightarrow> plan_refusal + graph" where
  "linkPrerequisites p session [] g = Inr g"
| "linkPrerequisites p session (u # us) g =
    and_then (link_needs p session (pu_Unit u) (pu_Prerequisites u) g) (linkPrerequisites p session us)"

definition planGraph :: "projection \<Rightarrow> string \<Rightarrow> plan_unit list \<Rightarrow> plan_refusal + graph" where
  "planGraph p session units = and_then (indexPendingUnits [] units)
     (\<lambda>pending. linkPrerequisites p session units (pending, []))"

text \<open>
  \<open>release\<close> is the inner loop of \<open>acyclic\<close> over the dependents of a settled unit, \<open>kahn\<close> its
  outer loop; the unit popped is the last of \<open>ready\<close>.
\<close>

fun release :: "string list \<Rightarrow> (string, int) gomap \<Rightarrow> string list \<Rightarrow> (string, int) gomap \<times> string list" where
  "release [] pending ready = (pending, ready)"
| "release (n # ns) pending ready =
    (let c = mget 0 pending n - 1
     in release ns (mput n c pending) (if c = 0 then ready @ [n] else ready))"

definition positive :: "(string, int) gomap \<Rightarrow> nat" where
  "positive m = length (filter (\<lambda>(k, v). 0 < v) m)"

lemma positive_mput:
  "positive (mput k (mget 0 m k - 1) m) + (if mget 0 m k = 1 then 1 else 0) \<le> positive m"
proof (induction m)
  case (Cons a m)
  then show ?case by (cases a) (auto simp: positive_def mput_def mget_def)
qed (simp add: positive_def mput_def)

lemma release_measure:
  "release ns pending ready = (pending', ready') \<Longrightarrow>
   length ready' + positive pending' \<le> length ready + positive pending"
proof (induction ns pending ready rule: release.induct)
  case (2 n ns pending ready)
  have "length ready' + positive pending' \<le> length (if mget 0 pending n - 1 = 0 then ready @ [n] else ready)
      + positive (mput n (mget 0 pending n - 1) pending)"
    by (rule "2.IH" [OF refl]) (use "2.prems" in \<open>simp add: Let_def\<close>)
  with positive_mput [of n pending] show ?case by (auto split: if_splits)
qed simp

lemma release_less:
  assumes "ready \<noteq> []" and "release ns pending (butlast ready) = (pending', ready')"
  shows "length ready' + positive pending' < length ready + positive pending"
proof -
  have "length (butlast ready) < length ready" using assms(1) by (cases ready rule: rev_cases) auto
  with release_measure [OF assms(2)] show ?thesis by simp
qed

function kahn :: "string list \<Rightarrow> (string, int) gomap \<Rightarrow> (string, string list) gomap \<Rightarrow> nat \<Rightarrow> (string, int) gomap \<times> nat" where
  "kahn ready pending dependents settled =
    (if ready = [] then (pending, settled)
     else case release (mget [] dependents (last ready)) pending (butlast ready) of
       (pending', ready') \<Rightarrow> kahn ready' pending' dependents (Suc settled))"
  by pat_completeness auto
termination
  by (relation "measure (\<lambda>(ready, pending, d, s). length ready + positive pending)") (auto simp: release_less)

declare kahn.simps [simp del]

definition acyclic_plan :: "graph \<Rightarrow> bool" where
  "acyclic_plan g =
    (let (pending, dependents) = g;
         ready = map fst (filter (\<lambda>(u, blocked). blocked = 0) pending);
         (pending', settled) = kahn ready pending dependents 0
     in settled = length pending')"

definition validPlan :: "projection \<Rightarrow> string \<Rightarrow> plan_unit list \<Rightarrow> plan_refusal option" where
  "validPlan p session units = (case planGraph p session units of
      Inl err \<Rightarrow> Some err
    | Inr g \<Rightarrow> if \<not> acyclic_plan g then Some PrerequisiteCycle else None)"

section \<open>Commitment\<close>

definition plannedEntry :: "string \<Rightarrow> string \<Rightarrow> string \<Rightarrow> plan_unit \<Rightarrow> entry" where
  "plannedEntry ref session version u = zero_entry\<lparr>e_Author := AuthorOrchestrator, e_Kind := KindPlanned,
     e_SessionID := session, e_WorkUnitID := pu_Unit u, e_NodeKind := NodeKindDelegated,
     e_AttemptID := FirstAttempt, e_Cause := CauseNone, e_JournalRef := ref, e_PlanVersion := version,
     e_Contract := pu_Contract u, e_Prerequisites := pu_Prerequisites u\<rparr>"

text \<open>The loop over the units of a declared round; \<open>seen\<close> holds those already checked.\<close>

fun round_units :: "projection \<Rightarrow> string \<Rightarrow> plan_unit list \<Rightarrow> string list \<Rightarrow> string list \<Rightarrow> plan_refusal option" where
  "round_units p session plan seen [] = None"
| "round_units p session plan seen (i # ids) =
    (if blank i \<or> i \<in> set seen then Some RoundUnits
     else if i \<notin> pu_Unit ` set plan then Some (RoundAbsent i)
     else if unit_known p session i \<and> u_State (unit_at p session i) \<noteq> StatePlanned then Some (RoundAdmitted i)
     else if fst (QARoundFor (Budgets p session) i) \<noteq> [] then Some (RoundMember i (fst (QARoundFor (Budgets p session) i)))
     else round_units p session plan (i # seen) ids)"

definition qaRoundEntries :: "projection \<Rightarrow> string \<Rightarrow> string \<Rightarrow> string \<Rightarrow> plan_unit list \<Rightarrow> qa_round option list \<Rightarrow> plan_refusal + entry list" where
  "qaRoundEntries p ref session version plan rounds =
    (if length rounds > 1 then Inl OneRound
     else case rounds of [] \<Rightarrow> Inr []
     | None # _ \<Rightarrow> Inr []
     | Some r # _ \<Rightarrow>
        if blank (q_Objective r) \<or> q_Units r = [] then Inl RoundShape
        else if mhas (b_QARounds (Budgets p session)) version then Inl RoundImmutable
        else (case round_units p session plan [] (q_Units r) of
            Some err \<Rightarrow> Inl err
          | None \<Rightarrow> Inr [zero_entry\<lparr>e_Author := AuthorOrchestrator, e_Kind := KindQARound, e_SessionID := session,
              e_WorkUnitID := session, e_AttemptID := FirstAttempt, e_Cause := CauseNone, e_JournalRef := ref,
              e_PlanVersion := version, e_QARound := Some r\<rparr>]))"

definition Commit :: "string \<Rightarrow> string \<Rightarrow> string \<Rightarrow> plan_unit list \<Rightarrow> qa_round option list \<Rightarrow> hist \<Rightarrow> plan_refusal errs \<times> hist" where
  "Commit journalRef session version units qaRound h =
    (if session = [] \<or> version = [] \<or> units = [] then ([Refused CommitShape], h)
     else case validPlan (hProject h) session units of
        Some err \<Rightarrow> ([Refused err], h)
      | None \<Rightarrow> (case qaRoundEntries (hProject h) journalRef session version units qaRound of
          Inl err \<Rightarrow> ([Refused err], h)
        | Inr entries \<Rightarrow> hist_errs (AppendBatch (entries @ map (plannedEntry journalRef session version) units) h)))"

section \<open>Revision\<close>

definition invalidRevision :: "string \<Rightarrow> string \<Rightarrow> string \<Rightarrow> string \<Rightarrow> plan_refusal \<Rightarrow> hist \<Rightarrow> plan_refusal errs \<times> hist" where
  "invalidRevision journalRef session baseVersion newVersion why h =
    append_join (zero_entry\<lparr>e_Author := AuthorOrchestrator, e_Kind := KindInvalidRevision, e_SessionID := session,
      e_WorkUnitID := session, e_AttemptID := FirstAttempt, e_Cause := CauseUncaptured,
      e_JournalRef := journalRef, e_BaseVersion := baseVersion, e_PlanVersion := newVersion,
      e_Reason := reason why\<rparr>) [Refused why] h"

definition currentPlan :: "projection \<Rightarrow> string \<Rightarrow> plan_unit list" where
  "currentPlan p session = sort_key pu_Unit (map (\<lambda>(k, u). \<lparr>pu_Unit = u_WorkUnitID u,
       pu_Contract = u_Contract u, pu_Prerequisites = u_Prerequisites u\<rparr>)
     (filter (\<lambda>(k, u). u_SessionID u = session \<and> u_Contract u \<noteq> []
        \<and> (u_State u = StatePlanned \<or> u_State u = StateInFlight)) (p_Units p)))"

text \<open>The two loops of \<open>reviseUnits\<close> over the index \<open>byID\<close> and the order of its identities.\<close>

definition revise_keep :: "string list \<Rightarrow> plan_unit \<Rightarrow> (string, plan_unit) gomap \<times> string list \<Rightarrow> (string, plan_unit) gomap \<times> string list" where
  "revise_keep withdrawals u st = (if pu_Unit u \<in> set withdrawals then st
     else (mput (pu_Unit u) u (fst st), snd st @ [pu_Unit u]))"

definition revise_add :: "plan_unit \<Rightarrow> (string, plan_unit) gomap \<times> string list \<Rightarrow> (string, plan_unit) gomap \<times> string list" where
  "revise_add u st = (mput (pu_Unit u) u (fst st),
     if mhas (fst st) (pu_Unit u) then snd st else snd st @ [pu_Unit u])"

definition reviseUnits :: "plan_unit list \<Rightarrow> plan_unit list \<Rightarrow> string list \<Rightarrow> plan_unit list" where
  "reviseUnits current adds withdrawals =
    (let (byID, order) = fold revise_add adds (fold (revise_keep withdrawals) current ([], []))
     in map (mget zero_plan_unit byID) order)"

definition checkWithdrawalsPlanned :: "projection \<Rightarrow> string \<Rightarrow> string list \<Rightarrow> plan_refusal option" where
  "checkWithdrawalsPlanned p session withdrawals =
    map_option WithdrawnNotPlanned (find (\<lambda>w. u_State (unit_at p session w) \<noteq> StatePlanned) withdrawals)"

definition checkAdmittedUnchanged :: "projection \<Rightarrow> string \<Rightarrow> plan_unit list \<Rightarrow> plan_refusal option" where
  "checkAdmittedUnchanged p session adds =
    map_option (\<lambda>u. AdmittedChanged (pu_Unit u)) (find (\<lambda>u.
      let existing = unit_at p session (pu_Unit u)
      in \<not> (\<not> unit_known p session (pu_Unit u) \<or> u_State existing = StatePlanned)
         \<and> (u_Contract existing \<noteq> pu_Contract u \<or> u_Prerequisites existing \<noteq> pu_Prerequisites u)) adds)"

definition checkAddedPrerequisitesSettled ::
  "projection \<Rightarrow> string \<Rightarrow> plan_unit list \<Rightarrow> plan_unit list \<Rightarrow> plan_refusal option" where
  "checkAddedPrerequisitesSettled p session resulting adds =
    map_option (\<lambda>(u, need). AddedUnsettled u need) (find (\<lambda>(u, need).
      need \<notin> pu_Unit ` set resulting \<and> u_State (unit_at p session need) \<noteq> StateSettled)
      (concat (map (\<lambda>u. map (Pair (pu_Unit u)) (pu_Prerequisites u)) adds)))"

definition classify :: "plan_unit list \<Rightarrow> plan_unit list \<Rightarrow> string" where
  "classify current resulting =
    (let old = fold (\<lambda>u m. mput (pu_Unit u) (pu_Prerequisites u) m) current []
     in if \<exists>u \<in> set resulting. mhas old (pu_Unit u) \<and> mget [] old (pu_Unit u) \<noteq> pu_Prerequisites u
        then ClassificationStrategic else ClassificationTactical)"

definition withdrawnEntry :: "string \<Rightarrow> string \<Rightarrow> string \<Rightarrow> entry" where
  "withdrawnEntry ref session w = zero_entry\<lparr>e_Author := AuthorOrchestrator, e_Kind := KindWithdrawn,
     e_SessionID := session, e_WorkUnitID := w, e_AttemptID := FirstAttempt, e_Cause := CauseUncaptured,
     e_JournalRef := ref\<rparr>"

text \<open>The checks of \<open>Revise\<close> on a projection, in order: the refusal, or the batch it appends.\<close>

definition check_revision :: "projection \<Rightarrow> string \<Rightarrow> string \<Rightarrow> string \<Rightarrow> string \<Rightarrow> plan_unit list \<Rightarrow> string list \<Rightarrow> qa_round option list \<Rightarrow> plan_refusal + entry list" where
  "check_revision p journalRef session baseVersion newVersion adds withdrawals qaRound =
    (let current = currentPlan p session;
         resulting = reviseUnits current adds withdrawals;
         check = (\<lambda>c k. case c of Some err \<Rightarrow> Inl err | None \<Rightarrow> k)
     in if b_PlanVersion (Budgets p session) \<noteq> baseVersion then Inl StaleBase
        else check (map_option (\<lambda>u. AddedAndWithdrawn (pu_Unit u)) (find (\<lambda>u. pu_Unit u \<in> set withdrawals) adds))
          (check (validPlan p session resulting)
          (check (checkWithdrawalsPlanned p session withdrawals)
          (check (checkAdmittedUnchanged p session adds)
          (check (checkAddedPrerequisitesSettled p session resulting adds)
          (and_then (qaRoundEntries p journalRef session newVersion resulting qaRound)
            (\<lambda>entries. Inr (entries @ [zero_entry\<lparr>e_Author := AuthorOrchestrator, e_Kind := KindRevised,
                e_SessionID := session, e_WorkUnitID := session, e_AttemptID := FirstAttempt, e_Cause := CauseNone,
                e_JournalRef := journalRef, e_BaseVersion := baseVersion, e_PlanVersion := newVersion,
                e_Classification := classify current resulting\<rparr>]
              @ map (plannedEntry journalRef session newVersion) adds
              @ map (withdrawnEntry journalRef session) withdrawals))))))))"

definition Revise :: "string \<Rightarrow> string \<Rightarrow> string \<Rightarrow> string \<Rightarrow> plan_unit list \<Rightarrow> string list \<Rightarrow> qa_round option list \<Rightarrow> hist \<Rightarrow> plan_refusal errs \<times> hist" where
  "Revise journalRef session baseVersion newVersion adds withdrawals qaRound h =
    (if session = [] \<or> baseVersion = [] \<or> newVersion = [] then ([Refused RevisionIdentity], h)
     else case check_revision (hProject h) journalRef session baseVersion newVersion adds withdrawals qaRound of
        Inl err \<Rightarrow> invalidRevision journalRef session baseVersion newVersion err h
      | Inr entries \<Rightarrow> hist_errs (AppendBatch entries h))"

definition Declare :: "string \<Rightarrow> string \<Rightarrow> string \<Rightarrow> string \<Rightarrow> plan_unit list \<Rightarrow> string list \<Rightarrow> qa_round option list \<Rightarrow> hist \<Rightarrow> plan_refusal errs \<times> hist" where
  "Declare journalRef session version baseVersion units withdrawals qaRound h =
    (let standing = b_PlanVersion (Budgets (hProject h) session)
     in if standing = [] then
          (if baseVersion \<noteq> [] \<or> withdrawals \<noteq> [] then ([Refused NoPlanStands], h)
           else Commit journalRef session version units qaRound h)
        else if baseVersion = [] then ([Refused (PlanStands standing)], h)
        else Revise journalRef session baseVersion version units withdrawals qaRound h)"

end
