(* ===== verification/Disp_Plan_Laws.thy ===== *)
theory Disp_Plan_Laws
  imports Disp_Plan
begin

text \<open>
  Laws of the plan graph: Kahn's loop settles every unit exactly when the relation of in-plan
  prerequisites has no cycle, and what a revision makes of the standing plan.
\<close>

section \<open>The inner loop\<close>

lemma release_spec:
  assumes "release ns w r = (w', r')" and "\<And>n. int (count_list ns n) \<le> mget 0 w n"
  shows "(\<forall>n. mget 0 w' n = mget 0 w n - int (count_list ns n))
    \<and> (\<exists>xs. r' = r @ xs \<and> distinct xs \<and> set xs = {n \<in> set ns. mget 0 w n = int (count_list ns n)})"
  using assms
proof (induction ns w r rule: release.induct)
  case (2 m ns w r)
  let ?c = "mget 0 w m - 1"
  let ?r = "if ?c = 0 then r @ [m] else r"
  have le: "int (count_list ns n) \<le> mget 0 (mput m ?c w) n" for n
    using "2.prems"(2) [of n] by auto
  have "(\<forall>n. mget 0 w' n = mget 0 (mput m ?c w) n - int (count_list ns n))
    \<and> (\<exists>xs. r' = ?r @ xs \<and> distinct xs \<and> set xs = {n \<in> set ns. mget 0 (mput m ?c w) n = int (count_list ns n)})"
    by (rule "2.IH" [OF refl]) (use "2.prems"(1) le in \<open>simp_all add: Let_def\<close>)
  then obtain xs where w': "\<And>n. mget 0 w' n = mget 0 (mput m ?c w) n - int (count_list ns n)"
    and xs: "r' = ?r @ xs" "distinct xs" "set xs = {n \<in> set ns. mget 0 (mput m ?c w) n = int (count_list ns n)}"
    by blast
  have nums: "\<And>n. mget 0 w' n = mget 0 w n - int (count_list (m # ns) n)" using w' by auto
  show ?case
  proof (cases "?c = 0")
    case True
    with le [of m] have "count_list ns m = 0" by simp
    then have m: "m \<notin> set ns" by (simp add: count_list_0_iff)
    with xs True have "r' = r @ (m # xs)" "distinct (m # xs)"
      "set (m # xs) = {n \<in> set (m # ns). mget 0 w n = int (count_list (m # ns) n)}" by auto
    with nums show ?thesis by blast
  next
    case False
    have "m \<in> set ns" if "mget 0 w m = int (count_list (m # ns) m)"
      using that False by (cases "m \<in> set ns") (auto simp: count_list_0_iff)
    with xs(3) have "set xs = {n \<in> set (m # ns). mget 0 w n = int (count_list (m # ns) n)}" by auto
    with xs False nums show ?thesis by auto
  qed
qed auto

lemma release_keys:
  "release ns w r = (w', r') \<Longrightarrow> set ns \<subseteq> set (mkeys w) \<Longrightarrow> wf_map w \<Longrightarrow> set (mkeys w') = set (mkeys w) \<and> wf_map w'"
proof (induction ns w r rule: release.induct)
  case (2 m ns w r)
  have "set (mkeys (mput m c w)) = set (mkeys w)" for c using "2.prems"(2) by (auto simp: mkeys_mput)
  with 2 show ?case by (simp add: Let_def)
qed auto

section \<open>The outer loop\<close>

definition edges :: "(string, string list) gomap \<Rightarrow> string set \<Rightarrow> (string \<times> string) set" where
  "edges d K = {(need, u). need \<in> K \<and> u \<in> set (mget [] d need)}"

text \<open>
  What holds before each turn of the outer loop, with \<open>S\<close> the units settled so far: the count
  of a unit is the number of its prerequisite edges from units not settled, the units with count
  zero are the settled and the ready ones, and every settled unit follows only settled units.
\<close>

definition kahn_inv :: "(string, string list) gomap \<Rightarrow> string set \<Rightarrow> string list \<Rightarrow> (string, int) gomap \<Rightarrow> string set \<Rightarrow> bool" where
  "kahn_inv d K ready w S \<longleftrightarrow> finite K \<and> distinct ready \<and> set ready \<subseteq> K \<and> S \<subseteq> K \<and> set ready \<inter> S = {}
     \<and> set (mkeys w) = K \<and> wf_map w \<and> (\<forall>need \<in> K. set (mget [] d need) \<subseteq> K)
     \<and> (\<forall>u. mget 0 w u = (\<Sum>need \<in> K - S. int (count_list (mget [] d need) u)))
     \<and> set ready \<union> S = {u \<in> K. mget 0 w u = 0} \<and> S \<subseteq> Wellfounded.acc (edges d K)"

lemma kahn_invD:
  assumes "kahn_inv d K ready w S"
  shows "finite K" "distinct ready" "set ready \<subseteq> K" "S \<subseteq> K" "set ready \<inter> S = {}" "set (mkeys w) = K" "wf_map w"
    "\<forall>need \<in> K. set (mget [] d need) \<subseteq> K"
    "\<forall>u. mget 0 w u = (\<Sum>need \<in> K - S. int (count_list (mget [] d need) u))"
    "set ready \<union> S = {u \<in> K. mget 0 w u = 0}" "S \<subseteq> Wellfounded.acc (edges d K)"
proof -
  note all = assms [unfolded kahn_inv_def]
  show "finite K" "distinct ready" "set ready \<subseteq> K" "S \<subseteq> K" "set ready \<inter> S = {}" "set (mkeys w) = K" "wf_map w"
    using all by blast+
  show "\<forall>need \<in> K. set (mget [] d need) \<subseteq> K" using all by blast
  show "\<forall>u. mget 0 w u = (\<Sum>need \<in> K - S. int (count_list (mget [] d need) u))" using all by blast
  show "set ready \<union> S = {u \<in> K. mget 0 w u = 0}" using all by blast
  show "S \<subseteq> Wellfounded.acc (edges d K)" using all by blast
qed

lemma kahn_step:
  assumes inv: "kahn_inv d K ready w S" and ne: "ready \<noteq> []"
    and rel: "release (mget [] d (last ready)) w (butlast ready) = (w', ready')"
  shows "kahn_inv d K ready' w' (insert (last ready) S)" and "last ready \<notin> S"
proof -
  let ?n = "last ready" and ?f = "\<lambda>need u. int (count_list (mget [] d need) u)"
  let ?ns = "mget [] d (last ready)"
  have ready: "ready = butlast ready @ [?n]" using ne by simp
  note K = kahn_invD(1-7) [OF inv] and zero = kahn_invD(10) [OF inv] and acc = kahn_invD(11) [OF inv]
  have DK: "set (mget [] d need) \<subseteq> K" if "need \<in> K" for need
    using kahn_invD(8) [OF inv] that by blast
  have w: "mget 0 w u = (\<Sum>need \<in> K - S. ?f need u)" for u
    using kahn_invD(9) [OF inv] by blast
  have in_ready: "?n \<in> set ready" using ne by simp
  have last: "?n \<notin> set (butlast ready)" using K(2) ready by (metis distinct_butlast distinct_append disjoint_iff list.set_intros(1))
  have n: "?n \<in> K" "?n \<notin> S" "?n \<notin> set (butlast ready)"
    using in_ready K(3,5) last by auto
  then show nS: "?n \<notin> S" by simp
  have split: "(\<Sum>need \<in> K - S. ?f need u) = ?f ?n u + (\<Sum>need \<in> K - insert ?n S. ?f need u)" for u
  proof -
    have "finite (K - S)" and "?n \<in> K - S" and eq: "K - insert ?n S = (K - S) - {?n}" using K(1) n by auto
    then show ?thesis unfolding eq by (intro sum.remove)
  qed
  have nonneg: "0 \<le> (\<Sum>need \<in> K - insert ?n S. ?f need u)" for u by (simp add: sum_nonneg)
  have le: "int (count_list ?ns u) \<le> mget 0 w u" for u using w [of u] split [of u] nonneg [of u] by simp
  from release_spec [OF rel le] obtain xs where w': "\<And>u. mget 0 w' u = mget 0 w u - int (count_list ?ns u)"
    and xs: "ready' = butlast ready @ xs" "distinct xs" "set xs = {u \<in> set ?ns. mget 0 w u = int (count_list ?ns u)}"
    by blast
  have keys: "set (mkeys w') = K" "wf_map w'"
    using release_keys [OF rel] DK [OF n(1)] K(6,7) by auto
  have xsK: "set xs \<subseteq> K" using xs(3) DK [OF n(1)] by auto
  have pos: "0 < mget 0 w u" if "u \<in> set xs" for u
  proof -
    have "count_list ?ns u \<noteq> 0" using that xs(3) by (auto simp: count_list_0_iff)
    then show ?thesis using that xs(3) by auto
  qed
  have fresh: "set xs \<inter> (set ready \<union> S) = {}"
  proof -
    have "u \<notin> set ready \<union> S" if "u \<in> set xs" for u using pos [OF that] unfolding zero by simp
    then show ?thesis by blast
  qed
  have zero': "set ready' \<union> insert ?n S = {u \<in> K. mget 0 w' u = 0}"
  proof -
    have "{u \<in> K. mget 0 w' u = 0} = {u \<in> K. mget 0 w u = 0} \<union> set xs"
    proof -
      have "mget 0 w' u = 0 \<longleftrightarrow> mget 0 w u = 0 \<or> u \<in> set xs" if "u \<in> K" for u
      proof (cases "u \<in> set ?ns")
        case True
        then have "count_list ?ns u \<noteq> 0" by (simp add: count_list_0_iff)
        with True xs(3) w' [of u] le [of u] show ?thesis by auto
      next
        case False
        then have "count_list ?ns u = 0" by (simp add: count_list_0_iff)
        with False xs(3) w' [of u] show ?thesis by auto
      qed
      with xsK show ?thesis by auto
    qed
    moreover have "set ready = insert ?n (set (butlast ready))" using ready by (metis append_butlast_last_id ne
          insert_is_Un list.simps(15) set_append sup_commute list.set(1))
    ultimately show ?thesis using zero xs(1) by auto
  qed
  have "?n \<in> Wellfounded.acc (edges d K)"
  proof (rule acc.accI)
    fix m assume m: "(m, ?n) \<in> edges d K"
    have "mget 0 w ?n = 0" using zero ne last_in_set by blast
    with w [of ?n] have h: "\<forall>need \<in> K - S. ?f need ?n = 0"
      using K(1) by (simp add: sum_nonneg_eq_0_iff)
    have m': "?f m ?n \<noteq> 0" "m \<in> K" using m by (auto simp: edges_def count_list_0_iff)
    have "m \<in> S" using h m' by blast
    with acc show "m \<in> Wellfounded.acc (edges d K)" by auto
  qed
  moreover have "distinct (butlast ready)" "set (butlast ready) \<subseteq> set ready"
    using K(2) ready by (auto simp: distinct_butlast dest: in_set_butlastD)
  moreover have "?n \<notin> set xs" using fresh in_ready by blast
  ultimately have r: "distinct ready'" "set ready' \<subseteq> K" "set ready' \<inter> insert ?n S = {}"
    and S': "insert ?n S \<subseteq> Wellfounded.acc (edges d K)" "insert ?n S \<subseteq> K"
    using K n xs(1,2) xsK fresh acc by auto
  have sums: "\<forall>u. mget 0 w' u = (\<Sum>need \<in> K - insert ?n S. ?f need u)"
    using w w' split by simp
  show "kahn_inv d K ready' w' (insert ?n S)"
    unfolding kahn_inv_def using K(1) r S'(2) keys DK sums zero' S'(1) by (intro conjI) auto
qed

lemma kahn_result:
  assumes "kahn_inv d K ready w S" and "kahn ready w d (card S) = (w', settled)"
  shows "\<exists>S'. kahn_inv d K [] w' S' \<and> settled = card S'"
  using assms
proof (induction ready w d "card S" arbitrary: S rule: kahn.induct)
  case (1 ready w d)
  show ?case
  proof (cases "ready = []")
    case True
    with "1.prems" show ?thesis by (auto simp: kahn.simps [of "[]"])
  next
    case False
    obtain w1 r1 where rel: "release (mget [] d (last ready)) w (butlast ready) = (w1, r1)" by fastforce
    note step = kahn_step [OF "1.prems"(1) False rel]
    have "finite S" using "1.prems"(1) by (auto simp: kahn_inv_def intro: finite_subset)
    then have card: "Suc (card S) = card (insert (last ready) S)" using step(2) by simp
    have "kahn r1 w1 d (card (insert (last ready) S)) = (w', settled)"
      using "1.prems"(2) False rel card by (simp add: kahn.simps [of ready])
    from "1.hyps" [OF False rel [symmetric] card step(1) this] show ?thesis .
  qed
qed

lemma kahn_acyclic:
  assumes "kahn_inv d K [] w S"
  shows "card S = card K \<longleftrightarrow> acyclic (edges d K)"
proof -
  note K = kahn_invD(1,4) [OF assms] and acc = kahn_invD(11) [OF assms]
  have zero: "S = {u \<in> K. mget 0 w u = 0}" using kahn_invD(10) [OF assms] by simp
  have DK: "set (mget [] d need) \<subseteq> K" if "need \<in> K" for need
    using kahn_invD(8) [OF assms] that by blast
  have w: "mget 0 w u = (\<Sum>need \<in> K - S. int (count_list (mget [] d need) u))" for u
    using kahn_invD(9) [OF assms] by blast
  have sub: "edges d K \<subseteq> K \<times> K" using DK by (auto simp: edges_def)
  show ?thesis
  proof
    assume "card S = card K"
    then have "S = K" using K by (simp add: card_subset_eq)
    have "x \<in> Wellfounded.acc (edges d K)" for x
    proof (cases "x \<in> K")
      case False
      with sub show ?thesis by (blast intro: acc.accI)
    qed (use acc \<open>S = K\<close> in auto)
    then have "wf (edges d K)" by (intro acc_wfI) auto
    then show "acyclic (edges d K)" by (rule wf_acyclic)
  next
    assume ac: "acyclic (edges d K)"
    have "finite (edges d K)" by (rule finite_subset [OF sub]) (simp add: K(1))
    with ac have wf: "wf (edges d K)" by (intro finite_acyclic_wf)
    have "K - S = {}"
    proof (rule ccontr)
      assume "K - S \<noteq> {}"
      then obtain x where "x \<in> K - S" by auto
      from wfE_min [OF wf this] obtain z where z: "z \<in> K - S" and min: "\<And>y. (y, z) \<in> edges d K \<Longrightarrow> y \<notin> K - S"
        by blast
      have "count_list (mget [] d need) z = 0" if "need \<in> K - S" for need
        using that min by (auto simp: edges_def count_list_0_iff)
      then have "mget 0 w z = 0" unfolding w by (intro sum.neutral) auto
      then have "z \<in> S" using z unfolding zero by blast
      with z show False by blast
    qed
    with K have "S = K" by blast
    then show "card S = card K" by simp
  qed
qed

section \<open>The plan graph\<close>

text \<open>The in-plan prerequisites of a list of units, as edges from the prerequisite.\<close>

definition plan_edges :: "plan_unit list \<Rightarrow> (string \<times> string) set" where
  "plan_edges units = {(need, v). need \<in> pu_Unit ` set units
     \<and> (\<exists>u \<in> set units. v = pu_Unit u \<and> need \<in> set (pu_Prerequisites u))}"

definition known_needs :: "projection \<Rightarrow> string \<Rightarrow> plan_unit list \<Rightarrow> plan_unit list \<Rightarrow> bool" where
  "known_needs p session all units \<longleftrightarrow> (\<forall>u \<in> set units. \<forall>need \<in> set (pu_Prerequisites u).
     need \<in> pu_Unit ` set all \<or> unit_known p session need)"

lemma indexPendingUnits_Inr:
  "indexPendingUnits pending us = Inr pending' \<longleftrightarrow>
     (\<forall>u \<in> set us. pu_Unit u \<noteq> [] \<and> pu_Contract u \<noteq> [] \<and> \<not> mhas pending (pu_Unit u))
     \<and> distinct (map pu_Unit us) \<and> pending' = fold (\<lambda>u. mput (pu_Unit u) 0) us pending"
  by (induction pending us rule: indexPendingUnits.induct) (auto dest: image_eqI [OF sym])

lemma index_fold:
  "(\<forall>u \<in> set us. \<not> mhas pending (pu_Unit u)) \<Longrightarrow> distinct (map pu_Unit us) \<Longrightarrow> wf_map pending \<Longrightarrow>
   (\<forall>k. mget 0 pending k = 0) \<Longrightarrow>
   set (mkeys (fold (\<lambda>u. mput (pu_Unit u) 0) us pending)) = set (mkeys pending) \<union> pu_Unit ` set us
   \<and> wf_map (fold (\<lambda>u. mput (pu_Unit u) 0) us pending)
   \<and> (\<forall>k. mget 0 (fold (\<lambda>u. mput (pu_Unit u) (0::int)) us pending) k = 0)"
proof (induction us arbitrary: pending)
  case (Cons u us)
  have "\<forall>v \<in> set us. \<not> mhas (mput (pu_Unit u) 0 pending) (pu_Unit v)"
    using Cons.prems(1,2) by (auto dest: image_eqI [OF sym])
  from Cons.IH [OF this] Cons.prems show ?case by (simp add: mkeys_mput)
qed simp

text \<open>What the construction keeps: every count is the number of edges into the unit.\<close>

definition balanced :: "string set \<Rightarrow> graph \<Rightarrow> bool" where
  "balanced K g \<longleftrightarrow> finite K \<and> set (mkeys (fst g)) = K \<and> wf_map (fst g) \<and> (\<forall>need. set (mget [] (snd g) need) \<subseteq> K)
     \<and> (\<forall>u. mget 0 (fst g) u = (\<Sum>need \<in> K. int (count_list (mget [] (snd g) need) u)))"

lemma balanced_link:
  assumes "balanced K (pending, d)" and "need \<in> K" and "u \<in> K"
  shows "balanced K (mput u (mget 0 pending u + 1) pending, mput need (mget [] d need @ [u]) d)"
proof -
  note b = assms(1) [unfolded balanced_def fst_conv snd_conv]
  have sums: "(\<Sum>n \<in> K. int (count_list (mget [] (mput need (mget [] d need @ [u]) d) n) v))
      = (\<Sum>n \<in> K. int (count_list (mget [] d n) v)) + (if v = u then 1 else 0)" for v
  proof -
    have "int (count_list (mget [] (mput need (mget [] d need @ [u]) d) n) v)
        = int (count_list (mget [] d n) v) + (if n = need then (if v = u then 1 else 0) else 0)" for n
      by auto
    then show ?thesis using b assms(2) by (simp add: sum.distrib)
  qed
  have nums: "mget 0 (mput u (mget 0 pending u + 1) pending) v
      = (\<Sum>n \<in> K. int (count_list (mget [] (mput need (mget [] d need @ [u]) d) n) v))" for v
    unfolding sums using b by simp
  have keys: "set (mkeys (mput u (mget 0 pending u + 1) pending)) = K" "finite K"
    "wf_map (mput u (mget 0 pending u + 1) pending)"
    using b assms(3) by (auto simp: mkeys_mput)
  have sub: "set (mget [] (mput need (mget [] d need @ [u]) d) n) \<subseteq> K" for n
    using b assms(3) by auto
  show ?thesis
    unfolding balanced_def fst_conv snd_conv using keys sub nums by blast
qed

definition linked :: "graph \<Rightarrow> (string \<times> string) set" where
  "linked g = {(need, u). u \<in> set (mget [] (snd g) need)}"

lemma link_needs_Inr:
  assumes "link_needs p s u needs g = Inr g'" and "balanced K g" and "u \<in> K"
  shows "balanced K g' \<and> linked g' = linked g \<union> {(need, u) |need. need \<in> set needs \<inter> K}
     \<and> (\<forall>need \<in> set needs. need \<in> K \<or> unit_known p s need)"
  using assms
proof (induction p s u needs g rule: link_needs.induct)
  case (2 p s u need needs pending d)
  have K: "mhas pending need \<longleftrightarrow> need \<in> K" using "2.prems"(2) by (auto simp: balanced_def mhas_keys)
  show ?case
  proof (cases "need \<in> K")
    case False
    with K 2 show ?thesis by (auto split: if_splits)
  next
    case True
    have b: "balanced K (mput u (mget 0 pending u + 1) pending, mput need (mget [] d need @ [u]) d)"
      by (rule balanced_link [OF "2.prems"(2) True "2.prems"(3)])
    have l: "linked (w, mput need (mget [] d need @ [u]) d) = linked (pending, d) \<union> {(need, u)}" for w
      by (auto simp: linked_def split: if_splits)
    from "2.IH"(2) [OF _ _ b "2.prems"(3)] "2.prems"(1) True K l show ?thesis by auto
  qed
qed auto

lemma link_needs_Inl:
  "(\<exists>e. link_needs p s u needs g = Inl e) \<Longrightarrow> \<exists>need \<in> set needs. \<not> unit_known p s need \<and> (u \<in> set (mkeys (fst g)) \<longrightarrow> need \<notin> set (mkeys (fst g)))"
  by (induction p s u needs g rule: link_needs.induct) (auto simp: mhas_keys mkeys_mput split: if_splits)

lemma linkPrerequisites_Inr:
  assumes "linkPrerequisites p s us g = Inr g'" and "balanced K g" and "pu_Unit ` set us \<subseteq> K"
  shows "balanced K g' \<and> linked g' = linked g \<union> {(need, pu_Unit u) |need u. u \<in> set us \<and> need \<in> set (pu_Prerequisites u) \<inter> K}
     \<and> (\<forall>u \<in> set us. \<forall>need \<in> set (pu_Prerequisites u). need \<in> K \<or> unit_known p s need)"
  using assms
proof (induction us arbitrary: g)
  case (Cons u us)
  from Cons.prems(1) obtain g1 where g1: "link_needs p s (pu_Unit u) (pu_Prerequisites u) g = Inr g1"
    "linkPrerequisites p s us g1 = Inr g'" by (auto simp: and_then_eq_Inr)
  note l = link_needs_Inr [OF g1(1) Cons.prems(2)]
  have "balanced K g' \<and> linked g' = linked g1 \<union> {(need, pu_Unit u) |need u. u \<in> set us \<and> need \<in> set (pu_Prerequisites u) \<inter> K}
     \<and> (\<forall>u \<in> set us. \<forall>need \<in> set (pu_Prerequisites u). need \<in> K \<or> unit_known p s need)"
    by (rule Cons.IH [OF g1(2)]) (use l Cons.prems(3) in auto)
  with l Cons.prems(3) show ?case by auto
qed auto

lemma linkPrerequisites_Inl:
  assumes "linkPrerequisites p s us g = Inl err" and "balanced K g" and "pu_Unit ` set us \<subseteq> K"
  shows "\<exists>u \<in> set us. \<exists>need \<in> set (pu_Prerequisites u). need \<notin> K \<and> \<not> unit_known p s need"
  using assms
proof (induction us arbitrary: g)
  case (Cons u us)
  show ?case
  proof (cases "link_needs p s (pu_Unit u) (pu_Prerequisites u) g")
    case (Inl e)
    with link_needs_Inl [of p s "pu_Unit u" "pu_Prerequisites u" g] Cons.prems(2,3) show ?thesis
      by (auto simp: balanced_def)
  next
    case (Inr g1)
    with Cons.prems have "linkPrerequisites p s us g1 = Inl err" by simp
    from Cons.IH [OF this] link_needs_Inr [OF Inr Cons.prems(2)] Cons.prems(3) show ?thesis by auto
  qed
qed simp

lemma acyclic_plan_iff:
  assumes "balanced K g"
  shows "acyclic_plan g \<longleftrightarrow> acyclic (edges (snd g) K)"
proof -
  obtain w d where g: "g = (w, d)" by (cases g)
  let ?ready = "map fst (filter (\<lambda>(u, blocked). blocked = 0) w)"
  note b = assms [unfolded g balanced_def fst_conv snd_conv]
  have wf: "wf_map w" and keys: "set (mkeys w) = K" using b by auto
  have ready: "set ?ready = {u \<in> K. mget 0 w u = 0}"
  proof -
    have "u \<in> set ?ready \<longleftrightarrow> u \<in> K \<and> mget 0 w u = 0" for u
      using wf_map_mem [OF wf] keys mhas_keys [of w u] by (force simp: mhas_def mget_def image_iff)
    then show ?thesis by blast
  qed
  have dist: "distinct ?ready" using wf by (simp add: wf_map_def mkeys_def distinct_map_filter)
  have inv: "kahn_inv d K ?ready w {}"
    unfolding kahn_inv_def using b ready dist by (intro conjI) auto
  obtain w' n where k: "kahn ?ready w d 0 = (w', n)" by fastforce
  from kahn_result [OF inv, of w' n] k obtain S where S: "kahn_inv d K [] w' S" "n = card S" by auto
  have "set (mkeys w') = K" "wf_map w'" using kahn_invD(6,7) [OF S(1)] by auto
  then have "length w' = card K" using distinct_card [of "mkeys w'"] by (simp add: wf_map_def mkeys_def)
  with k S kahn_acyclic [OF S(1)] show ?thesis by (simp add: acyclic_plan_def g)
qed

text \<open>A plan is valid exactly when its identities are, its prerequisites are known and it has no cycle.\<close>

lemma validPlan_iff:
  "validPlan p s units = None \<longleftrightarrow>
     (\<forall>u \<in> set units. pu_Unit u \<noteq> [] \<and> pu_Contract u \<noteq> []) \<and> distinct (map pu_Unit units)
     \<and> known_needs p s units units \<and> acyclic (plan_edges units)"
proof (cases "indexPendingUnits [] units")
  case (Inl e)
  then have "\<not> ((\<forall>u \<in> set units. pu_Unit u \<noteq> [] \<and> pu_Contract u \<noteq> []) \<and> distinct (map pu_Unit units))"
    using indexPendingUnits_Inr [of "[]" units] by auto
  with Inl show ?thesis by (auto simp: validPlan_def planGraph_def)
next
  case (Inr pending)
  let ?K = "pu_Unit ` set units"
  from Inr have ids: "\<forall>u \<in> set units. pu_Unit u \<noteq> [] \<and> pu_Contract u \<noteq> []" "distinct (map pu_Unit units)"
    and pending: "pending = fold (\<lambda>u. mput (pu_Unit u) 0) units []"
    using indexPendingUnits_Inr [of "[]" units pending] by auto
  have "set (mkeys pending) = ?K \<and> wf_map pending \<and> (\<forall>k. mget 0 pending k = 0)"
    using index_fold [of units "[]"] ids unfolding pending by (simp add: mkeys_def)
  then have bal: "balanced ?K (pending, [])" by (simp add: balanced_def)
  show ?thesis
  proof (cases "linkPrerequisites p s units (pending, [])")
    case Left: (Inl e)
    from linkPrerequisites_Inl [OF Left bal] have "\<not> known_needs p s units units"
      by (auto simp: known_needs_def)
    with Inr Left show ?thesis by (auto simp: validPlan_def planGraph_def)
  next
    case Right: (Inr g)
    from linkPrerequisites_Inr [OF Right bal] have g: "balanced ?K g" "known_needs p s units units"
      "linked g = {(need, pu_Unit u) |need u. u \<in> set units \<and> need \<in> set (pu_Prerequisites u) \<inter> ?K}"
      by (auto simp: known_needs_def linked_def)
    have "edges (snd g) ?K = linked g \<inter> {(need, u). need \<in> ?K}" by (auto simp: edges_def linked_def)
    also have "\<dots> = plan_edges units" unfolding g(3) plan_edges_def by blast
    finally have "edges (snd g) ?K = plan_edges units" .
    with acyclic_plan_iff [OF g(1)] Inr Right ids g(2) show ?thesis
      by (simp add: validPlan_def planGraph_def)
  qed
qed

section \<open>Revised units\<close>

lemma revise_keep_fold:
  assumes "fold (revise_keep ws) current (m, order) = (m', order')" and "distinct (map pu_Unit current)"
    and "pu_Unit ` set current \<inter> set (mkeys m) = {}"
  shows "order' = order @ map pu_Unit (filter (\<lambda>u. pu_Unit u \<notin> set ws) current)
    \<and> (\<forall>k. map_of m' k = (case find (\<lambda>u. pu_Unit u = k) (filter (\<lambda>u. pu_Unit u \<notin> set ws) current) of
          None \<Rightarrow> map_of m k | Some u \<Rightarrow> Some u))"
  using assms
proof (induction current arbitrary: m order)
  case (Cons u us)
  show ?case
  proof (cases "pu_Unit u \<in> set ws")
    case True
    with Cons show ?thesis by (simp add: revise_keep_def)
  next
    case False
    have none: "find (\<lambda>v. pu_Unit v = pu_Unit u) (filter (\<lambda>v. pu_Unit v \<notin> set ws) us) = None"
      using Cons.prems(2) by (auto simp: find_None_iff dest: image_eqI [OF sym])
    have "pu_Unit ` set us \<inter> set (mkeys (mput (pu_Unit u) u m)) = {}"
      using Cons.prems(2,3) by (auto simp: mkeys_mput)
    with Cons.IH [of "mput (pu_Unit u) u m" "order @ [pu_Unit u]"] Cons.prems False none show ?thesis
      by (auto simp: revise_keep_def split: option.splits)
  qed
qed simp

lemma revise_add_fold:
  assumes "fold revise_add adds (m, order) = (m', order')" and "set order = set (mkeys m)" and "distinct order"
  shows "distinct order' \<and> set order' = set order \<union> pu_Unit ` set adds
    \<and> (\<forall>k. map_of m' k = (case find (\<lambda>u. pu_Unit u = k) (rev adds) of None \<Rightarrow> map_of m k | Some u \<Rightarrow> Some u))"
  using assms
proof (induction adds arbitrary: m order)
  case (Cons u us)
  define order1 where "order1 = (if mhas m (pu_Unit u) then order else order @ [pu_Unit u])"
  have 1: "fold revise_add us (mput (pu_Unit u) u m, order1) = (m', order')"
    using Cons.prems(1) by (cases "mhas m (pu_Unit u)") (simp_all add: revise_add_def [of u "(m, order)"] order1_def)
  have 2: "set order1 = set (mkeys (mput (pu_Unit u) u m))" "distinct order1"
    using Cons.prems(2,3) by (auto simp: order1_def mkeys_mput mhas_keys)
  have "find P (xs @ [u]) = (case find P xs of None \<Rightarrow> if P u then Some u else None | Some x \<Rightarrow> Some x)" for P xs
    by (induction xs) auto
  with Cons.IH [OF 1 2] Cons.prems(2) 2(1) show ?case
    by (auto simp: mkeys_mput split: option.splits)
qed simp

definition last_named :: "plan_unit list \<Rightarrow> string \<Rightarrow> plan_unit option" where
  "last_named us k = find (\<lambda>u. pu_Unit u = k) (rev us)"

lemma find_SomeD: "find P xs = Some x \<Longrightarrow> x \<in> set xs \<and> P x"
  by (induction xs) (auto split: if_splits)

lemma last_named_None: "last_named us k = None \<longleftrightarrow> k \<notin> pu_Unit ` set us"
  by (auto simp: last_named_def find_None_iff)

lemma last_named_Some: "last_named us k = Some u \<Longrightarrow> u \<in> set us \<and> pu_Unit u = k"
  using find_SomeD [of "\<lambda>u. pu_Unit u = k" "rev us" u] by (simp add: last_named_def)

lemma find_distinct:
  "distinct (map pu_Unit us) \<Longrightarrow> find (\<lambda>u. pu_Unit u = k) us = Some u \<longleftrightarrow> u \<in> set us \<and> pu_Unit u = k"
  by (induction us) (auto dest: image_eqI [OF sym])

lemma reviseUnits_parts:
  assumes "distinct (map pu_Unit current)"
  shows "distinct (map pu_Unit (reviseUnits current adds ws))"
    and "u \<in> set (reviseUnits current adds ws) \<longleftrightarrow> last_named adds (pu_Unit u) = Some u
      \<or> (u \<in> set current \<and> pu_Unit u \<notin> set ws \<and> pu_Unit u \<notin> pu_Unit ` set adds)"
proof -
  let ?kept = "filter (\<lambda>u. pu_Unit u \<notin> set ws) current"
  obtain m order where k: "fold (revise_keep ws) current ([], []) = (m, order)" by fastforce
  obtain m' order' where a: "fold revise_add adds (m, order) = (m', order')" by fastforce
  have res: "reviseUnits current adds ws = map (mget zero_plan_unit m') order'"
    using k a by (simp add: reviseUnits_def)
  have dk: "distinct (map pu_Unit ?kept)" using assms by (simp add: distinct_map_filter)
  from revise_keep_fold [OF k assms] have order: "order = map pu_Unit ?kept"
    and m: "\<And>k. map_of m k = find (\<lambda>u. pu_Unit u = k) ?kept"
    by (auto simp: mkeys_def split: option.splits)
  have keys: "set order = set (mkeys m)"
  proof -
    have "k \<in> set (mkeys m) \<longleftrightarrow> k \<in> pu_Unit ` set ?kept" for k
      using m [of k] find_None_iff [of "\<lambda>u. pu_Unit u = k" ?kept] by (auto simp: mhas_keys [symmetric] mhas_def)
    then show ?thesis using order by auto
  qed
  from revise_add_fold [OF a keys] dk order have o': "distinct order'" "set order' = pu_Unit ` set ?kept \<union> pu_Unit ` set adds"
    and m': "\<And>k. map_of m' k = (case last_named adds k of None \<Rightarrow> find (\<lambda>u. pu_Unit u = k) ?kept | Some u \<Rightarrow> Some u)"
    by (auto simp: last_named_def m split: option.splits)
  have val: "map_of m' k = Some v \<longleftrightarrow> (last_named adds k = Some v \<or> (k \<notin> pu_Unit ` set adds \<and> v \<in> set ?kept \<and> pu_Unit v = k))" for k v
    using m' [of k] last_named_None [of adds k] find_distinct [OF dk, of k v] by (auto split: option.splits)
  have named: "\<exists>v. map_of m' k = Some v \<and> pu_Unit v = k" if "k \<in> set order'" for k
  proof (cases "last_named adds k")
    case None
    with that o'(2) obtain v where "v \<in> set ?kept" "pu_Unit v = k" by (auto simp: last_named_None)
    with None val [of k v] show ?thesis by (auto simp: last_named_None)
  next
    case (Some v)
    with val [of k v] last_named_Some [OF Some] show ?thesis by blast
  qed
  have get: "pu_Unit (mget zero_plan_unit m' k) = k" if "k \<in> set order'" for k
    using named [OF that] by (auto simp: mget_def)
  have names: "map pu_Unit (reviseUnits current adds ws) = order'"
    unfolding res by (simp add: map_idI get)
  with o'(1) show "distinct (map pu_Unit (reviseUnits current adds ws))" by simp
  have "u \<in> set (reviseUnits current adds ws) \<longleftrightarrow> pu_Unit u \<in> set order' \<and> map_of m' (pu_Unit u) = Some u"
  proof
    assume "u \<in> set (reviseUnits current adds ws)"
    then obtain k where k: "k \<in> set order'" "u = mget zero_plan_unit m' k" unfolding res by auto
    with named [OF k(1)] show "pu_Unit u \<in> set order' \<and> map_of m' (pu_Unit u) = Some u" by (auto simp: mget_def)
  next
    assume "pu_Unit u \<in> set order' \<and> map_of m' (pu_Unit u) = Some u"
    then show "u \<in> set (reviseUnits current adds ws)" unfolding res by (force simp: mget_def)
  qed
  also have "\<dots> \<longleftrightarrow> map_of m' (pu_Unit u) = Some u"
    using val [of "pu_Unit u" u] o'(2) last_named_Some [of adds "pu_Unit u" u] by auto
  finally show "u \<in> set (reviseUnits current adds ws) \<longleftrightarrow> last_named adds (pu_Unit u) = Some u
      \<or> (u \<in> set current \<and> pu_Unit u \<notin> set ws \<and> pu_Unit u \<notin> pu_Unit ` set adds)"
    using val [of "pu_Unit u" u] by auto
qed

end
