(* ===== verification/Disp_Laws.thy ===== *)
theory Disp_Laws
  imports Disp_Plan_Laws
begin

text \<open>
  How the operations of \<open>takt/dispatch\<close> change the projection: what one appended entry or batch
  leaves, and what an admission, a termination, a contest and a revision make of the units and of
  the session accounting.
\<close>

section \<open>Appending\<close>

lemma AppendBatch_ok:
  assumes "AppendBatch es h = ([], h')"
  shows "h_entries h' = h_entries h @ number_from (int (length (h_entries h))) es"
    and "hProject h' = fold fold_entry (number_from (int (length (h_entries h))) es) (hProject h)"
    and "e \<in> set (number_from (int (length (h_entries h))) es) \<Longrightarrow> validate e = []"
  using assms
  by (cases rule: AppendBatch_cases [of es h]; simp add: hProject_def Project_def)+

lemma AppendBatch_failed:
  assumes "AppendBatch es h = (err, h')" and "err \<noteq> []"
  shows "h_entries h' = h_entries h" and "hProject h' = hProject h"
  using assms by (cases rule: AppendBatch_cases [of es h]; simp add: hProject_def)+

lemma Append_ok:
  assumes "Append e h = ([], h')"
  obtains i where "h_entries h' = h_entries h @ [e\<lparr>e_Seq := i\<rparr>]" "hProject h' = fold_entry (e\<lparr>e_Seq := i\<rparr>) (hProject h)"
    "validate (e\<lparr>e_Seq := i\<rparr>) = []"
  using AppendBatch_ok [OF assms [unfolded Append_def]] by simp

lemma Append_failed:
  assumes "Append e h = (err, h')" and "err \<noteq> []"
  shows "h_entries h' = h_entries h" and "hProject h' = hProject h"
  using AppendBatch_failed [OF assms(1) [unfolded Append_def] assms(2)] by auto

lemma hist_errs_ok [simp]: "hist_errs r = ([], h') \<longleftrightarrow> r = ([], h')"
  by (cases r) (auto simp: hist_errs_def)

lemma hist_errs_not [simp]: "fst (hist_errs r) = [] \<longleftrightarrow> fst r = []" "snd (hist_errs r) = snd r"
  by (simp_all add: hist_errs_def)

lemma append_join_ok: "append_join e err h = ([], h') \<longleftrightarrow> Append e h = ([], h') \<and> err = []"
  by (cases "Append e h") (auto simp: append_join_def hist_errs_def)

lemma append_join_snd: "snd (append_join e err h) = snd (Append e h)"
  by (simp add: append_join_def hist_errs_def split: prod.splits)

lemma append_join_fst: "fst (append_join e err h) = map HistoryError (fst (Append e h)) @ err"
  by (simp add: append_join_def hist_errs_def split: prod.splits)

lemma Append_no_fault:
  assumes "h_faults h = []" and "\<And>i. validate (e\<lparr>e_Seq := i\<rparr>) = []"
  shows "fst (Append e h) = []"
  using assms by (simp add: Append_def AppendBatch_def next_fault_def)

text \<open>The units of a projection always have one entry per key.\<close>

lemma wf_units_entry: "wf_map (p_Units p) \<Longrightarrow> wf_map (p_Units (fold_entry e p))"
  by (simp add: fold_entry_units split: option.splits)

lemma wf_units_fold: "wf_map (p_Units p) \<Longrightarrow> wf_map (p_Units (fold fold_entry es p))"
  by (induction es arbitrary: p) (simp_all add: wf_units_entry)

lemma wf_units_Project [simp]: "wf_map (p_Units (Project es))"
  unfolding Project_def by (rule wf_units_fold) (simp add: newProjection_def)

lemma wf_units_hProject [simp]: "wf_map (p_Units (hProject h))"
  by (simp add: hProject_def)

lemma shape_hProject:
  assumes "valid_store (h_entries h)" and "map_of (p_Units (hProject h)) k = Some u"
  shows "unit_shape u"
  using units_shape [of "h_entries h" newProjection k u] assms
  by (simp add: valid_store_def hProject_def Project_def newProjection_def)

lemma unit_at_map: "map_of (p_Units p) (UnitKey s n) = Some u \<Longrightarrow> unit_at p s n = u \<and> unit_known p s n"
  by (simp add: unit_at_def unit_known_def mget_def mhas_def)

lemma unit_known_map: "unit_known p s n \<Longrightarrow> map_of (p_Units p) (UnitKey s n) = Some (unit_at p s n)"
  by (auto simp: unit_at_def unit_known_def mget_def mhas_def)

lemma unit_unknown: "\<not> unit_known p s n \<Longrightarrow> unit_at p s n = zero_unit"
  by (auto simp: unit_at_def unit_known_def mget_def mhas_def)

lemma state_known: "u_State (unit_at p s n) \<noteq> StateNone \<Longrightarrow> unit_known p s n"
  using unit_unknown [of p s n] by (cases "unit_known p s n") (simp_all add: zero_unit_def)

section \<open>Entries that reach no unit\<close>

lemma accounting_units: "accounting (e_Kind e) \<Longrightarrow> p_Units (fold_entry e p) = p_Units p"
  by (simp add: fold_entry_units unit_after_def lifecycle_def)

lemma denied_keeps:
  assumes "e_Kind e = KindDenied \<or> e_Kind e = KindInvalidRevision \<or> e_Kind e = KindSeatRestored"
  shows "p_Units (fold_entry e p) = p_Units p" and "Budgets (fold_entry e p) s = Budgets p s"
proof -
  show "p_Units (fold_entry e p) = p_Units p"
    using assms by (intro accounting_units) (auto simp: accounting_def)
  have "budgeted b e = Some b" for b using assms by (auto simp: budgeted_def Let_def)
  then have "budgets_after e p = Budgets p (e_SessionID e)"
    using assms by (auto simp: budgets_after_def Let_def)
  then show "Budgets (fold_entry e p) s = Budgets p s" by (simp add: Budgets_fold_entry)
qed

section \<open>Admission\<close>

lemma admitted_entry:
  assumes "e_Kind e = KindAdmitted" and "accepts (unit_at p (e_SessionID e) (e_WorkUnitID e)) (unit_known p (e_SessionID e) (e_WorkUnitID e)) KindAdmitted"
  shows "p_Units (fold_entry e p) = mput (entry_key e) (next_unit e (unit_at p (e_SessionID e) (e_WorkUnitID e))) (p_Units p)"
  using assms
  by (simp add: fold_entry_units unit_after_def lifecycle_def accounting_def activityKindOf_def unit_at_def
      unit_known_def entry_key_def)

lemma InFlight_admitted:
  assumes "wf_map (p_Units p)" and "e_Kind e = KindAdmitted"
    and "accepts (unit_at p (e_SessionID e) (e_WorkUnitID e)) (unit_known p (e_SessionID e) (e_WorkUnitID e)) KindAdmitted"
  shows "InFlight (fold_entry e p) = InFlight p + 1"
    and "u_State (unit_at (fold_entry e p) (e_SessionID e) (e_WorkUnitID e)) = StateInFlight"
proof -
  note up = admitted_entry [OF assms(2,3)]
  have st: "u_State (next_unit e u) = StateInFlight" for u using assms(2) by (simp add: next_unit_state)
  have old: "map_of (p_Units p) (entry_key e) = Some v \<Longrightarrow> u_State v \<noteq> StateInFlight" for v
    using assms(3) unit_at_map [of p "e_SessionID e" "e_WorkUnitID e" v] by (auto simp: accepts_def entry_key_def)
  show "InFlight (fold_entry e p) = InFlight p + 1"
    using old by (auto simp: InFlight_count up count_map_mput [OF assms(1)] st split: option.splits)
  show "u_State (unit_at (fold_entry e p) (e_SessionID e) (e_WorkUnitID e)) = StateInFlight"
    using up st by (simp add: unit_at_def entry_key_def)
qed

lemma refusal_None:
  assumes "refusal_of p pol req = None"
  shows "InFlight p < wrap_int (ap_Specialists pol + allowance (Budgets p (rq_Session req)) BoundConcurrency)"
    and "unit_known p (rq_Session req) (rq_Event req) \<Longrightarrow>
      u_State (unit_at p (rq_Session req) (rq_Event req)) \<notin> {StateInFlight, StateWithdrawn}"
    and "\<not> unit_known p (rq_Session req) (rq_Event req) \<Longrightarrow>
      b_Unplanned (Budgets p (rq_Session req)) < wrap_int (ap_UnplannedUnits pol + allowance (Budgets p (rq_Session req)) BoundUnplanned)"
  using assms unfolding refusal_of_def Let_def
  by (auto split: prod.splits if_splits)

lemma decide_kind: "e_Kind (fst (decide p pol req)) = (if snd (decide p pol req) = [] then KindAdmitted else KindDenied)"
  by (simp add: decide_def Let_def split: option.splits prod.splits)

lemma decide_fields:
  "e_SessionID (fst (decide p pol req)) = rq_Session req"
  "e_WorkUnitID (fst (decide p pol req)) = rq_Event req"
  "snd (decide p pol req) = [] \<longleftrightarrow> refusal_of p pol req = None"
  by (simp_all add: decide_def Let_def split: option.splits prod.splits)

lemma Admit_ok:
  assumes "valid_store (h_entries h)" and "Admit pol ref req h = ([], h')"
  obtains i where "hProject h' = fold_entry ((fst (decide (hProject h) pol req))\<lparr>e_JournalRef := ref, e_Seq := i\<rparr>) (hProject h)"
    "refusal_of (hProject h) pol req = None"
    "accepts (unit_at (hProject h) (rq_Session req) (rq_Event req)) (unit_known (hProject h) (rq_Session req) (rq_Event req)) KindAdmitted"
proof -
  let ?p = "hProject h" let ?e = "fst (decide ?p pol req)"
  from assms(2) have app: "Append (?e\<lparr>e_JournalRef := ref\<rparr>) h = ([], h')" and none: "refusal_of ?p pol req = None"
    using decide_fields(3) [of ?p pol req]
    by (auto simp: Admit_def append_join_ok split: if_splits prod.splits)
  from app obtain i where i: "hProject h' = fold_entry (?e\<lparr>e_JournalRef := ref, e_Seq := i\<rparr>) ?p"
    by (rule Append_ok) auto
  have "accepts (unit_at ?p (rq_Session req) (rq_Event req)) (unit_known ?p (rq_Session req) (rq_Event req)) KindAdmitted"
  proof (cases "unit_known ?p (rq_Session req) (rq_Event req)")
    case True
    with refusal_None(2) [OF none] shape_hProject [OF assms(1) unit_known_map [OF True]] show ?thesis
      by (cases "u_State (unit_at ?p (rq_Session req) (rq_Event req))") (auto simp: accepts_def unit_shape_def)
  qed (simp add: accepts_def)
  with i none show thesis by (rule that)
qed

section \<open>Validity of the recorded decisions\<close>

lemma Itoa_nonempty [simp]: "Itoa i \<noteq> []"
  by (simp add: Itoa_def)

lemma NextAttempt_nonempty [simp]: "NextAttempt p root u \<noteq> []"
  by (simp add: NextAttempt_def FirstAttempt_def split: option.splits)

lemma refusal_cause: "refusal_of p pol req = Some (cause, err) \<Longrightarrow> cause \<noteq> []"
  unfolding refusal_of_def Let_def
  by (auto simp: bound_defs CauseRepetition_def CauseWithdrawn_def split: prod.splits if_splits)

text \<open>An ordinary entry without an outcome is valid once its identity and its kind's fields are.\<close>

lemma validate_plain:
  assumes "authorOf (e_Kind e) = Some (e_Author e)" and "\<not> executionKind (e_Kind e)" and "activityKindOf e = None"
    and "e_SessionID e \<noteq> []" and "e_WorkUnitID e \<noteq> []" and "e_AttemptID e \<noteq> []" and "e_ActivityID e = []"
    and "e_Cause e \<noteq> []" and "e_NodeKind e = NodeKindNone \<or> e_NodeKind e = NodeKindDelegated"
    and "e_Outcome e = OutcomeNone" and "e_Kind e \<noteq> KindTerminated" and "e_Kind e \<noteq> KindRecoveryClosed"
    and "\<not> isActivityFinished (e_Kind e)" and "validateKindFields e = []"
  shows "validate e = []"
proof -
  have "validateIdentity e = Inr False" using assms by (simp add: validateIdentity_def)
  moreover have "validateNodeKind e False = []" using assms(9) by (auto simp: validateNodeKind_def)
  moreover have "validateOutcomeShape e = []" using assms by (simp add: validateOutcomeShape_def Let_def)
  ultimately show ?thesis using assms by (simp add: validate_def)
qed

lemma decide_valid:
  assumes "rq_Event req \<noteq> []" and "rq_Session req \<noteq> []"
  shows "validate ((fst (decide p pol req))\<lparr>e_JournalRef := ref, e_Seq := i\<rparr>) = []"
proof (cases "refusal_of p pol req")
  case None
  with assms show ?thesis
    by (intro validate_plain) (simp_all add: decide_def Let_def validateKindFields_def activityKindOf_def
      isActivityFinished_def zero_entry_def CauseUncaptured_def)
next
  case (Some r)
  then have "fst r \<noteq> []" using refusal_cause [of p pol req "fst r" "snd r"] by simp
  with Some assms show ?thesis
    by (intro validate_plain) (simp_all add: decide_def Let_def case_prod_unfold validateKindFields_def activityKindOf_def
      isActivityFinished_def zero_entry_def)
qed

section \<open>Termination\<close>

lemma next_unit_terminated:
  "e_Kind e = KindTerminated \<Longrightarrow> u_State (next_unit e u) = StateSettled \<and> u_Outcome (next_unit e u) = e_Outcome e
     \<and> u_Assurance (next_unit e u) = u_Assurance u \<and> u_AttemptID (next_unit e u) = e_AttemptID e"
  by (simp add: next_unit_def Let_def)

lemma terminated_entry:
  assumes "e_Kind e = KindTerminated" and "u_State (unit_at p (e_SessionID e) (e_WorkUnitID e)) = StateInFlight"
  shows "unit_at (fold_entry e p) (e_SessionID e) (e_WorkUnitID e) = next_unit e (unit_at p (e_SessionID e) (e_WorkUnitID e))"
  using assms
  by (simp add: unit_at_def fold_entry_units unit_after_def lifecycle_def accounting_def activityKindOf_def
      accepts_def entry_key_def)

lemma result_entry:
  assumes "e_Kind e = KindResult" and "unit_known p (e_SessionID e) (e_WorkUnitID e)"
    and "u_State (unit_at p (e_SessionID e) (e_WorkUnitID e)) = StateSettled"
    and "u_AttemptID (unit_at p (e_SessionID e) (e_WorkUnitID e)) = e_AttemptID e"
    and "u_Assurance (unit_at p (e_SessionID e) (e_WorkUnitID e)) = None"
  shows "unit_at (fold_entry e p) (e_SessionID e) (e_WorkUnitID e) =
    (unit_at p (e_SessionID e) (e_WorkUnitID e))\<lparr>u_Assurance := Some \<lparr>as_Status = e_Status e, as_Revision = e_Revision e,
       as_Evidence = e_Evidence e, as_Author = e_Author e\<rparr>\<rparr>"
  using assms
  by (simp add: unit_at_def unit_known_def fold_entry_units unit_after_def lifecycle_def accounting_def activityKindOf_def
      accepts_def entry_key_def prevails_def)

section \<open>Numbering\<close>

lemma in_number_from: "e \<in> set (number_from i es) \<Longrightarrow> \<exists>e' \<in> set es. \<exists>j. e = e'\<lparr>e_Seq := j\<rparr>"
  by (induction es arbitrary: i) auto

lemma number_from_append: "number_from i (xs @ ys) = number_from i xs @ number_from (i + int (length xs)) ys"
  by (induction xs arbitrary: i) (simp_all add: algebra_simps)

section \<open>Revision\<close>

definition plan_act :: "entry \<Rightarrow> bool" where
  "plan_act e \<longleftrightarrow> e_Kind e \<in> {KindQARound, KindRevised, KindPlanned, KindWithdrawn}"

lemma plan_act_unplanned: "plan_act e \<Longrightarrow> u_State u \<noteq> StatePlanned \<Longrightarrow> unit_after e True u = None"
  by (auto simp: plan_act_def unit_after_def accepts_def lifecycle_def accounting_def)

lemma plan_acts_keep:
  assumes "\<And>e. e \<in> set es \<Longrightarrow> plan_act e" and "map_of (p_Units p) k = Some u" and "u_State u \<noteq> StatePlanned"
  shows "map_of (p_Units (fold fold_entry es p)) k = Some u"
  using unit_kept [OF assms(2), where P = "\<lambda>v. v = u" and es = es] plan_act_unplanned assms(1,3) by fastforce

lemma plan_version_entry:
  assumes "plan_act e" and "e_SessionID e = s"
  shows "b_PlanVersion (Budgets (fold_entry e p) s) =
    (if e_Kind e \<in> {KindRevised, KindPlanned} then e_PlanVersion e else b_PlanVersion (Budgets p s))"
proof -
  have kinds: "e_Kind e = KindQARound \<or> e_Kind e = KindRevised \<or> e_Kind e = KindPlanned \<or> e_Kind e = KindWithdrawn"
    using assms(1) by (simp add: plan_act_def)
  have "admit_budgets e known b = b" for known b using kinds by (auto simp: admit_budgets_def)
  with kinds assms(2) show ?thesis
    by (elim disjE) (simp_all add: Budgets_fold_entry budgets_after_def Let_def budgeted_def activityKindOf_def split: option.splits)
qed

lemma plan_version_fold:
  assumes "\<And>e. e \<in> set es \<Longrightarrow> plan_act e \<and> e_SessionID e = s"
    and "\<And>e. e \<in> set es \<Longrightarrow> e_Kind e \<in> {KindRevised, KindPlanned} \<Longrightarrow> e_PlanVersion e = v"
    and "b_PlanVersion (Budgets p s) = v \<or> (\<exists>e \<in> set es. e_Kind e \<in> {KindRevised, KindPlanned})"
  shows "b_PlanVersion (Budgets (fold fold_entry es p) s) = v"
  using assms
proof (induction es arbitrary: p)
  case (Cons e es)
  have e: "plan_act e" "e_SessionID e = s" and v: "e_Kind e \<in> {KindRevised, KindPlanned} \<Longrightarrow> e_PlanVersion e = v"
    using Cons.prems(1,2) by auto
  have "b_PlanVersion (Budgets (fold_entry e p) s) = v \<or> (\<exists>e \<in> set es. e_Kind e \<in> {KindRevised, KindPlanned})"
    using Cons.prems(3) plan_version_entry [OF e, of p] v by auto
  then show ?case using Cons.IH [of "fold_entry e p"] Cons.prems(1,2) by simp
qed auto

lemma withdrawn_fold:
  assumes "\<And>e. e \<in> set es \<Longrightarrow> e_Kind e = KindWithdrawn" and "\<exists>e \<in> set es. entry_key e = k"
    and "map_of (p_Units p) k = Some u" and "u_State u = StatePlanned"
  shows "\<exists>u'. map_of (p_Units (fold fold_entry es p)) k = Some u' \<and> u_State u' = StateWithdrawn"
  using assms
proof (induction es arbitrary: p)
  case (Cons e es)
  show ?case
  proof (cases "entry_key e = k")
    case True
    then have "\<exists>u'. map_of (p_Units (fold_entry e p)) k = Some u' \<and> u_State u' = StateWithdrawn"
      using Cons.prems by (auto simp: map_of_fold_entry unit_after_def accepts_def lifecycle_def accounting_def
          activityKindOf_def mget_def next_unit_state)
    then show ?thesis using withdrawn_final by fastforce
  next
    case False
    then have "map_of (p_Units (fold_entry e p)) k = Some u" using Cons.prems by (simp add: map_of_fold_entry)
    then show ?thesis using Cons.IH [of "fold_entry e p"] Cons.prems False by auto
  qed
qed simp

lemma find_None_all: "find P xs = None \<longleftrightarrow> (\<forall>x \<in> set xs. \<not> P x)"
  by (auto simp: find_None_iff)

text \<open>What the checks of a revision establish, and the batch they let through.\<close>

lemma check_revision_Inr:
  assumes "check_revision p ref s base new adds ws rounds = Inr es"
  obtains qa where "b_PlanVersion (Budgets p s) = base" and "\<forall>u \<in> set adds. pu_Unit u \<notin> set ws"
    and "validPlan p s (reviseUnits (currentPlan p s) adds ws) = None"
    and "\<forall>w \<in> set ws. u_State (unit_at p s w) = StatePlanned"
    and "checkAdmittedUnchanged p s adds = None"
    and "\<forall>e \<in> set qa. e_Kind e = KindQARound \<and> e_SessionID e = s"
    and "es = qa @ [zero_entry\<lparr>e_Author := AuthorOrchestrator, e_Kind := KindRevised,
                e_SessionID := s, e_WorkUnitID := s, e_AttemptID := FirstAttempt, e_Cause := CauseNone,
                e_JournalRef := ref, e_BaseVersion := base, e_PlanVersion := new,
                e_Classification := classify (currentPlan p s) (reviseUnits (currentPlan p s) adds ws)\<rparr>]
              @ map (plannedEntry ref s new) adds @ map (withdrawnEntry ref s) ws"
proof -
  from assms obtain qa where q: "qaRoundEntries p ref s new (reviseUnits (currentPlan p s) adds ws) rounds = Inr qa"
    and checks: "b_PlanVersion (Budgets p s) = base" "find (\<lambda>u. pu_Unit u \<in> set ws) adds = None"
      "validPlan p s (reviseUnits (currentPlan p s) adds ws) = None"
      "checkWithdrawalsPlanned p s ws = None" "checkAdmittedUnchanged p s adds = None"
    and es: "es = qa @ [zero_entry\<lparr>e_Author := AuthorOrchestrator, e_Kind := KindRevised,
                e_SessionID := s, e_WorkUnitID := s, e_AttemptID := FirstAttempt, e_Cause := CauseNone,
                e_JournalRef := ref, e_BaseVersion := base, e_PlanVersion := new,
                e_Classification := classify (currentPlan p s) (reviseUnits (currentPlan p s) adds ws)\<rparr>]
              @ map (plannedEntry ref s new) adds @ map (withdrawnEntry ref s) ws"
    unfolding check_revision_def Let_def
    by (auto simp: and_then_eq_Inr split: option.splits if_splits)
  have "e_Kind e = KindQARound \<and> e_SessionID e = s" if "e \<in> set qa" for e
    using q that by (auto simp: qaRoundEntries_def split: if_splits list.splits option.splits)
  with that [of qa] checks es show thesis
    by (simp add: checkWithdrawalsPlanned_def find_None_all)
qed

lemma plan_act_entries:
  "e \<in> set (number_from i (map (plannedEntry ref s new) adds)) \<Longrightarrow> e_Kind e = KindPlanned \<and> e_SessionID e = s \<and> e_PlanVersion e = new
     \<and> e_WorkUnitID e \<in> pu_Unit ` set adds"
  "e \<in> set (number_from i (map (withdrawnEntry ref s) ws)) \<Longrightarrow> e_Kind e = KindWithdrawn \<and> e_SessionID e = s"
  by (auto dest!: in_number_from simp: plannedEntry_def withdrawnEntry_def)

end
