(* ===== verification/Disp_Props.thy ===== *)
theory Disp_Props
  imports Disp_Laws Hist_Props
begin

text \<open>
  Properties of package \<open>takt/dispatch\<close> over the execution history: admission, termination,
  contests, the plan graph and the revision of a plan.
\<close>

definition new_store :: hist where
  "new_store = \<lparr>h_entries = [], h_faults = []\<rparr>"

definition request :: "string \<Rightarrow> admission_request" where
  "request u = \<lparr>rq_Event = u, rq_Session = ''root'', rq_Agent = ''builder'', rq_Dispatch = ''d-'' @ u\<rparr>"

lemma valid_new_store [simp]: "valid_store (h_entries new_store)"
  by (simp add: new_store_def valid_store_def numbered_def)

section \<open>Admission\<close>

text \<open>C27: An admission reserves exactly one slot and never exceeds the ceiling: when \<open>Admit\<close>
  reports no error the unit is in flight, it was not before, and the number of units in flight over all
  sessions is one more and at most the policy's ceiling plus the granted allowance.\<close>

theorem admission_within_ceiling:
  assumes "valid_store (h_entries h)" and "Admit pol ref req h = ([], h')"
  shows "u_State (unit_at (hProject h') (rq_Session req) (rq_Event req)) = StateInFlight
    \<and> u_State (unit_at (hProject h) (rq_Session req) (rq_Event req)) \<noteq> StateInFlight
    \<and> InFlight (hProject h') = InFlight (hProject h) + 1
    \<and> InFlight (hProject h') \<le> wrap_int (ap_Specialists pol + allowance (Budgets (hProject h) (rq_Session req)) BoundConcurrency)"
proof -
  from assms obtain i where i: "hProject h' = fold_entry ((fst (decide (hProject h) pol req))\<lparr>e_JournalRef := ref, e_Seq := i\<rparr>) (hProject h)"
    and none: "refusal_of (hProject h) pol req = None"
    and acc: "accepts (unit_at (hProject h) (rq_Session req) (rq_Event req)) (unit_known (hProject h) (rq_Session req) (rq_Event req)) KindAdmitted"
    by (rule Admit_ok)
  let ?e = "(fst (decide (hProject h) pol req))\<lparr>e_JournalRef := ref, e_Seq := i\<rparr>"
  have e: "e_Kind ?e = KindAdmitted" "e_SessionID ?e = rq_Session req" "e_WorkUnitID ?e = rq_Event req"
    using decide_kind [of "hProject h" pol req] decide_fields [of "hProject h" pol req] none by auto
  have "u_State (unit_at (hProject h) (rq_Session req) (rq_Event req)) \<noteq> StateInFlight"
    using refusal_None(2) [OF none] unit_unknown by (fastforce simp: zero_unit_def)
  with InFlight_admitted [of "hProject h" ?e] e acc i refusal_None(1) [OF none] show ?thesis by simp
qed

theorem admission_within_ceiling_witness:
  "InFlight (hProject (snd (Admit admission_policy_yaml [] (request ''build'') new_store))) = 1"
proof -
  obtain h' where h': "Admit admission_policy_yaml [] (request ''build'') new_store = ([], h')"
  proof -
    have "fst (Admit admission_policy_yaml [] (request ''build'') new_store) = []" by code_simp
    then show thesis using that by (cases "Admit admission_policy_yaml [] (request ''build'') new_store") auto
  qed
  have "InFlight (hProject new_store) = 0" by code_simp
  with admission_within_ceiling [OF valid_new_store h'] h' show ?thesis by simp
qed

text \<open>A refused admission changes nothing but the record of the refusal: whatever error
  \<open>Admit\<close> reports, every unit and every session's accounting stay as they were.\<close>

theorem refusal_consumes_nothing:
  assumes "Admit pol ref req h = (err, h')" and "err \<noteq> []"
  shows "p_Units (hProject h') = p_Units (hProject h) \<and> Budgets (hProject h') s = Budgets (hProject h) s"
proof (cases "rq_Event req = [] \<or> rq_Session req = []")
  case True
  with assms show ?thesis by (auto simp: Admit_def)
next
  case False
  obtain e refused where d: "decide (hProject h) pol req = (e, refused)" by fastforce
  let ?e = "e\<lparr>e_JournalRef := ref\<rparr>"
  obtain err' where app: "Append ?e h = (err', h')" and err: "err = map HistoryError err' @ refused"
    using assms(1) False d append_join_snd [of ?e refused h] append_join_fst [of ?e refused h]
    by (cases "Append ?e h") (auto simp: Admit_def)
  show ?thesis
  proof (cases "err' = []")
    case True
    with err assms(2) have "refused \<noteq> []" by simp
    then have "e_Kind e = KindDenied" using decide_kind [of "hProject h" pol req] d by simp
    moreover from app True obtain i where "hProject h' = fold_entry (?e\<lparr>e_Seq := i\<rparr>) (hProject h)"
      by (auto elim: Append_ok)
    ultimately show ?thesis using denied_keeps [of "?e\<lparr>e_Seq := i\<rparr>"] by simp
  next
    case failed: False
    from Append_failed(2) [OF app failed] show ?thesis by simp
  qed
qed

theorem refusal_consumes_nothing_witness:
  "p_Units (hProject (snd (Admit admission_policy_yaml [] (request ''build'')
      (snd (Admit admission_policy_yaml [] (request ''build'') new_store)))))
   = p_Units (hProject (snd (Admit admission_policy_yaml [] (request ''build'') new_store)))"
proof -
  let ?h = "snd (Admit admission_policy_yaml [] (request ''build'') new_store)"
  have "fst (Admit admission_policy_yaml [] (request ''build'') ?h) \<noteq> []" by code_simp
  with refusal_consumes_nothing [of admission_policy_yaml "[]" "request ''build''" ?h] show ?thesis
    by (cases "Admit admission_policy_yaml [] (request ''build'') ?h") auto
qed

text \<open>C28: \<open>Admissible\<close> reports exactly what \<open>Admit\<close> would: while no transaction fails, the record
  of a decision is always valid, and \<open>Admit\<close> reports the refusal \<open>Admissible\<close> announced, or none.\<close>

theorem admissible_agrees:
  assumes "h_faults h = []"
  shows "fst (Admit pol ref req h) = Admissible pol req h"
proof (cases "rq_Event req = [] \<or> rq_Session req = []")
  case False
  have "fst (Append ((fst (decide (hProject h) pol req))\<lparr>e_JournalRef := ref\<rparr>) h) = []"
    using decide_valid False by (intro Append_no_fault [OF assms]) auto
  with False show ?thesis
    by (simp add: Admit_def Admissible_def case_prod_unfold append_join_fst Let_def)
qed (simp add: Admit_def Admissible_def)

theorem admissible_agrees_witness:
  "fst (Admit admission_policy_yaml [] (request ''build'') new_store) = []"
proof -
  have "Admissible admission_policy_yaml (request ''build'') new_store = []" by code_simp
  then show ?thesis using admissible_agrees [of new_store] by (simp add: new_store_def)
qed

section \<open>Termination\<close>

text \<open>Delivery is not acceptance: finishing a unit in flight settles it with the outcome its
  recovery scope, its cancellation and its flight determine, and a completed unit without an
  evaluated result is left with an unverified one, never with a verified one.\<close>

theorem finish_settles:
  assumes "Finish ref event session h = ([], h')"
    and "u_State (unit_at (hProject h) session event) = StateInFlight"
  shows "let u = unit_at (hProject h) session event; u' = unit_at (hProject h') session event
    in u_State u' = StateSettled \<and> u_Outcome u' = terminate_outcome (hProject h) event session False
     \<and> (if u_Assurance u = None \<and> u_Outcome u' = OutcomeCompleted
        then map_option as_Status (u_Assurance u') = Some ResultUnverified
        else u_Assurance u' = u_Assurance u)"
proof -
  let ?p = "hProject h" let ?u = "unit_at ?p session event"
  define outcome where "outcome = terminate_outcome ?p event session False"
  define t where "t = zero_entry\<lparr>e_Author := AuthorHarness, e_Kind := KindTerminated, e_SessionID := session,
           e_WorkUnitID := event, e_AttemptID := CurrentAttempt ?p session event, e_Cause := CauseUncaptured,
           e_JournalRef := ref, e_Outcome := outcome, e_Objective := fst (Scope (Budgets ?p session) event)\<rparr>"
  define r where "r = t\<lparr>e_Kind := KindResult, e_Author := AuthorHarness, e_Outcome := OutcomeNone,
                 e_Objective := [], e_Status := ResultUnverified\<rparr>"
  have t: "e_Kind (t\<lparr>e_Seq := i\<rparr>) = KindTerminated" "e_SessionID (t\<lparr>e_Seq := i\<rparr>) = session"
    "e_WorkUnitID (t\<lparr>e_Seq := i\<rparr>) = event" "e_Outcome (t\<lparr>e_Seq := i\<rparr>) = outcome"
    "e_AttemptID (t\<lparr>e_Seq := i\<rparr>) = CurrentAttempt ?p session event" for i
    by (simp_all add: t_def)
  have ended: "unit_at (fold_entry (t\<lparr>e_Seq := i\<rparr>) ?p) session event = next_unit (t\<lparr>e_Seq := i\<rparr>) ?u" for i
    using terminated_entry [of "t\<lparr>e_Seq := i\<rparr>" ?p] assms(2) t by simp
  have settled: "u_State (next_unit (t\<lparr>e_Seq := i\<rparr>) ?u) = StateSettled \<and> u_Outcome (next_unit (t\<lparr>e_Seq := i\<rparr>) ?u) = outcome
     \<and> u_Assurance (next_unit (t\<lparr>e_Seq := i\<rparr>) ?u) = u_Assurance ?u
     \<and> u_AttemptID (next_unit (t\<lparr>e_Seq := i\<rparr>) ?u) = CurrentAttempt ?p session event" for i
    using next_unit_terminated [of "t\<lparr>e_Seq := i\<rparr>" ?u] t by simp
  show ?thesis
  proof (cases "outcome \<noteq> OutcomeCompleted \<or> u_Assurance ?u \<noteq> None")
    case True
    with assms(1) have "Append t h = ([], h')"
      by (simp add: Finish_def terminate_unit_def Let_def t_def outcome_def)
    then obtain i where "hProject h' = fold_entry (t\<lparr>e_Seq := i\<rparr>) ?p" by (rule Append_ok)
    with ended settled [of i] True show ?thesis by (auto simp: Let_def outcome_def)
  next
    case False
    with assms(1) have "AppendBatch [t, r] h = ([], h')"
      by (simp add: Finish_def terminate_unit_def Let_def t_def r_def outcome_def)
    from AppendBatch_ok(2) [OF this] obtain i j where
      h': "hProject h' = fold_entry (r\<lparr>e_Seq := j\<rparr>) (fold_entry (t\<lparr>e_Seq := i\<rparr>) ?p)" by simp
    let ?p1 = "fold_entry (t\<lparr>e_Seq := i\<rparr>) ?p"
    have known: "unit_known ?p1 session event"
    proof (rule ccontr)
      assume "\<not> ?thesis"
      then have "u_State (unit_at ?p1 session event) = StateNone" by (simp add: unit_unknown zero_unit_def)
      with ended [of i] settled [of i] show False by simp
    qed
    have r: "e_Kind (r\<lparr>e_Seq := j\<rparr>) = KindResult" "e_SessionID (r\<lparr>e_Seq := j\<rparr>) = session"
      "e_WorkUnitID (r\<lparr>e_Seq := j\<rparr>) = event" "e_AttemptID (r\<lparr>e_Seq := j\<rparr>) = CurrentAttempt ?p session event"
      "e_Status (r\<lparr>e_Seq := j\<rparr>) = ResultUnverified"
      by (simp_all add: r_def t_def)
    have none: "u_Assurance (unit_at ?p1 session event) = None" using False ended [of i] settled [of i] by simp
    have "unit_at (hProject h') session event = (unit_at ?p1 session event)\<lparr>u_Assurance := Some
        \<lparr>as_Status = ResultUnverified, as_Revision = e_Revision (r\<lparr>e_Seq := j\<rparr>),
         as_Evidence = e_Evidence (r\<lparr>e_Seq := j\<rparr>), as_Author = e_Author (r\<lparr>e_Seq := j\<rparr>)\<rparr>\<rparr>"
      using result_entry [of "r\<lparr>e_Seq := j\<rparr>" ?p1] r known none ended [of i] settled [of i] h' by simp
    with ended [of i] settled [of i] False show ?thesis by (simp add: Let_def outcome_def)
  qed
qed

theorem finish_settles_witness:
  "u_State (unit_at (hProject (snd (Finish [] ''build'' ''root'' (snd (Admit admission_policy_yaml [] (request ''build'') new_store)))))
     ''root'' ''build'') = StateSettled"
proof -
  let ?h = "snd (Admit admission_policy_yaml [] (request ''build'') new_store)"
  have 1: "fst (Finish [] ''build'' ''root'' ?h) = []" by code_simp
  have 2: "u_State (unit_at (hProject ?h) ''root'' ''build'') = StateInFlight" by code_simp
  from 1 finish_settles [OF _ 2, of "[]" "snd (Finish [] ''build'' ''root'' ?h)"] show ?thesis
    by (cases "Finish [] ''build'' ''root'' ?h") (simp add: Let_def)
qed

section \<open>Contests\<close>

text \<open>Contests are bounded per session and only target recorded failures: an admitted contest
  that was not already recorded targets an attempt that ended without a completed outcome, and the session
  then holds at most the policy's contests plus the granted allowance.\<close>

theorem contests_bounded:
  assumes "Contest pol ref event session attempt h = ([], h')"
    and "\<not> mget False (b_Contests (Budgets (hProject h) session)) (event @ ''/'' @ attempt)"
  shows "terminalFailure (h_entries h) session event attempt
    \<and> mget False (b_Contests (Budgets (hProject h') session)) (event @ ''/'' @ attempt)
    \<and> int (length (b_Contests (Budgets (hProject h') session)))
        \<le> wrap_int (ap_Contests pol + allowance (Budgets (hProject h) session) BoundContests)"
proof -
  let ?b = "Budgets (hProject h) session"
  define e where "e = zero_entry\<lparr>e_Author := AuthorOrchestrator, e_Kind := KindContested,
                        e_SessionID := session, e_WorkUnitID := event, e_AttemptID := attempt,
                        e_Cause := CauseUncaptured, e_JournalRef := ref, e_PolicyRef := AdmissionPolicyRef\<rparr>"
  from assms have "Append e h = ([], h')" and fail: "terminalFailure (h_entries h) session event attempt"
    and less: "int (length (b_Contests ?b)) < wrap_int (ap_Contests pol + allowance ?b BoundContests)"
    by (auto simp: Contest_def Let_def append_join_ok e_def split: if_splits)
  then obtain i where h': "hProject h' = fold_entry (e\<lparr>e_Seq := i\<rparr>) (hProject h)" by (auto elim: Append_ok)
  have "b_Contests (Budgets (hProject h') session) = mput (event @ ''/'' @ attempt) True (b_Contests ?b)"
    by (simp add: h' Budgets_fold_entry budgets_after_def budgeted_def activityKindOf_def e_def Let_def)
  moreover have "length (mput k v m) \<le> Suc (length m)" for k :: string and v :: bool and m
    unfolding mput_def by (induction m) auto
  then have "length (mput (event @ ''/'' @ attempt) True (b_Contests ?b)) \<le> Suc (length (b_Contests ?b))" by blast
  ultimately show ?thesis using fail less by simp
qed

theorem contests_bounded_witness:
  "terminalFailure [act KindAdmitted ''root'' ''build'' ''1'', terminated_act\<lparr>e_Outcome := OutcomeFailed\<rparr>] ''root'' ''build'' ''1''"
proof -
  let ?h = "\<lparr>h_entries = [act KindAdmitted ''root'' ''build'' ''1'', terminated_act\<lparr>e_Outcome := OutcomeFailed\<rparr>], h_faults = []\<rparr>"
  have 1: "fst (Contest admission_policy_yaml [] ''build'' ''root'' ''1'' ?h) = []" by code_simp
  have 2: "\<not> mget False (b_Contests (Budgets (hProject ?h) ''root'')) (''build'' @ ''/'' @ ''1'')" by code_simp
  from 1 contests_bounded [OF _ 2] show ?thesis
    by (cases "Contest admission_policy_yaml [] ''build'' ''root'' ''1'' ?h") simp
qed

section \<open>Plans\<close>

text \<open>C25: The plan check accepts exactly the lawful plans: every unit has an identity and a
  contract and appears once, every prerequisite is in the plan or known to the session, and the
  relation of in-plan prerequisites has no cycle.\<close>

theorem valid_plan_exact:
  "validPlan p s units = None \<longleftrightarrow>
     (\<forall>u \<in> set units. pu_Unit u \<noteq> [] \<and> pu_Contract u \<noteq> []) \<and> distinct (map pu_Unit units)
     \<and> known_needs p s units units \<and> acyclic (plan_edges units)"
  by (rule validPlan_iff)

theorem valid_plan_exact_witness:
  "\<not> acyclic (plan_edges [\<lparr>pu_Unit = ''a'', pu_Contract = ''x'', pu_Prerequisites = [''b'']\<rparr>,
      \<lparr>pu_Unit = ''b'', pu_Contract = ''y'', pu_Prerequisites = [''a'']\<rparr>])"
proof -
  let ?us = "[\<lparr>pu_Unit = ''a'', pu_Contract = ''x'', pu_Prerequisites = [''b'']\<rparr>,
      \<lparr>pu_Unit = ''b'', pu_Contract = ''y'', pu_Prerequisites = [''a'']\<rparr>]"
  have "validPlan newProjection ''root'' ?us = Some PrerequisiteCycle" by code_simp
  then show ?thesis using valid_plan_exact [of newProjection "''root''" ?us] by (auto simp: known_needs_def)
qed

text \<open>A revised plan is the standing plan with the changes applied as a whole: each unit
  named once, it consists of the last declaration of every added unit and of the standing units that were
  neither withdrawn nor redeclared.\<close>

theorem revised_plan_units:
  assumes "distinct (map pu_Unit current)"
  shows "distinct (map pu_Unit (reviseUnits current adds ws))
    \<and> (u \<in> set (reviseUnits current adds ws) \<longleftrightarrow> last_named adds (pu_Unit u) = Some u
      \<or> (u \<in> set current \<and> pu_Unit u \<notin> set ws \<and> pu_Unit u \<notin> pu_Unit ` set adds))"
  using reviseUnits_parts [OF assms] by blast

theorem revised_plan_units_witness:
  "\<lparr>pu_Unit = ''a'', pu_Contract = ''new'', pu_Prerequisites = []\<rparr> \<in> set (reviseUnits
     [\<lparr>pu_Unit = ''a'', pu_Contract = ''x'', pu_Prerequisites = []\<rparr>]
     [\<lparr>pu_Unit = ''a'', pu_Contract = ''new'', pu_Prerequisites = []\<rparr>] [])"
  using revised_plan_units [of "[\<lparr>pu_Unit = ''a'', pu_Contract = ''x'', pu_Prerequisites = []\<rparr>]"
      "[\<lparr>pu_Unit = ''a'', pu_Contract = ''new'', pu_Prerequisites = []\<rparr>]" "[]"
      "\<lparr>pu_Unit = ''a'', pu_Contract = ''new'', pu_Prerequisites = []\<rparr>"]
  by (simp add: last_named_def)

text \<open>C26: A revision that succeeds stands on the version it named, becomes the version of the session,
  withdraws what it names, and leaves every unit that was no longer planned exactly as it was.\<close>

theorem revision_applies:
  assumes "Revise ref s base new adds ws rounds h = ([], h')"
  shows "b_PlanVersion (Budgets (hProject h) s) = base \<and> b_PlanVersion (Budgets (hProject h') s) = new
    \<and> (\<forall>w \<in> set ws. u_State (unit_at (hProject h') s w) = StateWithdrawn)
    \<and> (\<forall>k u. map_of (p_Units (hProject h)) k = Some u \<longrightarrow> u_State u \<noteq> StatePlanned \<longrightarrow>
        map_of (p_Units (hProject h')) k = Some u)"
proof -
  let ?p = "hProject h"
  from assms obtain es where check: "check_revision ?p ref s base new adds ws rounds = Inr es"
    and app: "AppendBatch es h = ([], h')"
    by (auto simp: Revise_def invalidRevision_def append_join_ok split: if_splits sum.splits)
  from check obtain qa where base: "b_PlanVersion (Budgets ?p s) = base"
    and disj: "\<forall>u \<in> set adds. pu_Unit u \<notin> set ws"
    and "validPlan ?p s (reviseUnits (currentPlan ?p s) adds ws) = None"
    and planned: "\<forall>w \<in> set ws. u_State (unit_at ?p s w) = StatePlanned"
    and "checkAdmittedUnchanged ?p s adds = None"
    and qa: "\<forall>e \<in> set qa. e_Kind e = KindQARound \<and> e_SessionID e = s"
    and es: "es = qa @ [zero_entry\<lparr>e_Author := AuthorOrchestrator, e_Kind := KindRevised,
                e_SessionID := s, e_WorkUnitID := s, e_AttemptID := FirstAttempt, e_Cause := CauseNone,
                e_JournalRef := ref, e_BaseVersion := base, e_PlanVersion := new,
                e_Classification := classify (currentPlan ?p s) (reviseUnits (currentPlan ?p s) adds ws)\<rparr>]
              @ map (plannedEntry ref s new) adds @ map (withdrawnEntry ref s) ws"
    by (rule check_revision_Inr)
  define i where "i = int (length (h_entries h))"
  define j where "j = i + int (length qa) + 1 + int (length adds)"
  obtain pre where pre: "number_from i es = pre @ number_from j (map (withdrawnEntry ref s) ws)"
    and pre_kind: "\<And>e. e \<in> set pre \<Longrightarrow> e_SessionID e = s \<and> ((e_Kind e = KindQARound)
       \<or> (e_Kind e = KindRevised \<and> e_PlanVersion e = new)
       \<or> (e_Kind e = KindPlanned \<and> e_PlanVersion e = new \<and> e_WorkUnitID e \<in> pu_Unit ` set adds))"
    and revised: "\<exists>e \<in> set pre. e_Kind e = KindRevised"
  proof
    let ?pre = "number_from i qa @ number_from (i + int (length qa)) [zero_entry\<lparr>e_Author := AuthorOrchestrator, e_Kind := KindRevised,
                e_SessionID := s, e_WorkUnitID := s, e_AttemptID := FirstAttempt, e_Cause := CauseNone,
                e_JournalRef := ref, e_BaseVersion := base, e_PlanVersion := new,
                e_Classification := classify (currentPlan ?p s) (reviseUnits (currentPlan ?p s) adds ws)\<rparr>]
       @ number_from (i + int (length qa) + 1) (map (plannedEntry ref s new) adds)"
    show "number_from i es = ?pre @ number_from j (map (withdrawnEntry ref s) ws)"
      by (simp add: es number_from_append j_def algebra_simps)
    show "e_SessionID e = s \<and> ((e_Kind e = KindQARound) \<or> (e_Kind e = KindRevised \<and> e_PlanVersion e = new)
       \<or> (e_Kind e = KindPlanned \<and> e_PlanVersion e = new \<and> e_WorkUnitID e \<in> pu_Unit ` set adds))" if "e \<in> set ?pre" for e
      using that qa plan_act_entries(1) [of e _ ref s new adds] by (auto dest!: in_number_from [of _ i qa])
    show "\<exists>e \<in> set ?pre. e_Kind e = KindRevised" by simp
  qed
  let ?post = "number_from j (map (withdrawnEntry ref s) ws)"
  have proj: "hProject h' = fold fold_entry ?post (fold fold_entry pre ?p)"
    using AppendBatch_ok(2) [OF app] pre by (simp add: i_def)
  have acts: "plan_act e" if "e \<in> set (pre @ ?post)" for e
    using that pre_kind plan_act_entries(2) [of e j ref s ws] by (auto simp: plan_act_def)
  have sess: "e_SessionID e = s" if "e \<in> set (pre @ ?post)" for e
    using that pre_kind plan_act_entries(2) [of e j ref s ws] by auto
  have named: "e_PlanVersion e = new" if "e \<in> set (pre @ ?post)" "e_Kind e \<in> {KindRevised, KindPlanned}" for e
    using that pre_kind [of e] plan_act_entries(2) [of e j ref s ws] by auto
  have some: "\<exists>e \<in> set (pre @ ?post). e_Kind e \<in> {KindRevised, KindPlanned}" using revised by auto
  have "b_PlanVersion (Budgets (fold fold_entry (pre @ ?post) ?p) s) = new"
    by (rule plan_version_fold) (simp_all only: acts sess named some simp_thms)
  then have version: "b_PlanVersion (Budgets (hProject h') s) = new" by (simp add: proj)
  have untouched: "map_of (p_Units (hProject h')) k = Some u"
    if "map_of (p_Units ?p) k = Some u" "u_State u \<noteq> StatePlanned" for k u
    using plan_acts_keep [of "pre @ ?post" ?p k u] acts that by (simp add: proj)
  have withdrawn: "u_State (unit_at (hProject h') s w) = StateWithdrawn" if w: "w \<in> set ws" for w
  proof -
    let ?k = "UnitKey s w"
    have "unit_known ?p s w" using bspec [OF planned w] by (intro state_known) simp
    then have u: "map_of (p_Units ?p) ?k = Some (unit_at ?p s w)" by (rule unit_known_map)
    have "unit_after e True (unit_at ?p s w) = None" if "e \<in> set pre" "entry_key e = ?k" for e
    proof -
      have "e_WorkUnitID e = w" using that pre_kind [OF that(1)] by (auto simp: entry_key_def)
      with pre_kind [OF that(1)] w disj have "e_Kind e = KindQARound \<or> e_Kind e = KindRevised" by auto
      then show ?thesis by (auto simp: unit_after_def lifecycle_def accounting_def)
    qed
    then have "map_of (p_Units (fold fold_entry pre ?p)) ?k = Some (unit_at ?p s w)"
      using unit_kept [OF u, where P = "\<lambda>v. v = unit_at ?p s w" and es = pre] by auto
    moreover have "\<exists>e \<in> set ?post. entry_key e = ?k"
    proof -
      have "\<exists>x \<in> set (number_from n xs). e_SessionID x = e_SessionID y \<and> e_WorkUnitID x = e_WorkUnitID y"
        if "y \<in> set xs" for n xs and y :: entry
        using that by (induction xs arbitrary: n) auto
      from this [of "withdrawnEntry ref s w" "map (withdrawnEntry ref s) ws" j] w
      show ?thesis by (auto simp: entry_key_def withdrawnEntry_def)
    qed
    ultimately have "\<exists>u'. map_of (p_Units (hProject h')) ?k = Some u' \<and> u_State u' = StateWithdrawn"
      unfolding proj using plan_act_entries(2) [of _ j ref s ws] bspec [OF planned w] by (intro withdrawn_fold) auto
    then show ?thesis using unit_at_map by blast
  qed
  show ?thesis using base version withdrawn untouched by blast
qed

definition plan_a :: "string \<Rightarrow> plan_unit" where
  "plan_a contract = \<lparr>pu_Unit = ''a'', pu_Contract = contract, pu_Prerequisites = []\<rparr>"

definition committed_store :: hist where
  "committed_store = snd (Commit [] ''root'' ''v1'' [plan_a ''first''] [] new_store)"

theorem revision_applies_witness:
  "u_State (unit_at (hProject (snd (Revise [] ''root'' ''v1'' ''v2'' [] [''a''] [] committed_store))) ''root'' ''a'')
    = StateWithdrawn"
proof -
  have "fst (Revise [] ''root'' ''v1'' ''v2'' [] [''a''] [] committed_store) = []" by code_simp
  then have "Revise [] ''root'' ''v1'' ''v2'' [] [''a''] [] committed_store
      = ([], snd (Revise [] ''root'' ''v1'' ''v2'' [] [''a''] [] committed_store))"
    by (cases "Revise [] ''root'' ''v1'' ''v2'' [] [''a''] [] committed_store") simp
  from revision_applies [OF this] show ?thesis by simp
qed

text \<open>A rejected revision leaves the last valid plan standing: when \<open>Revise\<close> reports an error, no
  unit and no session's accounting has changed, whatever was declared.\<close>

theorem rejected_revision_keeps_plan:
  assumes "Revise ref s base new adds ws rounds h = (err, h')" and "err \<noteq> []"
  shows "p_Units (hProject h') = p_Units (hProject h) \<and> Budgets (hProject h') r = Budgets (hProject h) r"
proof (cases "s = [] \<or> base = [] \<or> new = []")
  case True
  with assms show ?thesis by (auto simp: Revise_def)
next
  case False
  show ?thesis
  proof (cases "check_revision (hProject h) ref s base new adds ws rounds")
    case (Inr es)
    with False assms obtain err' where "AppendBatch es h = (err', h')" "err' \<noteq> []"
      by (cases "AppendBatch es h") (auto simp: Revise_def hist_errs_def)
    from AppendBatch_failed(2) [OF this] show ?thesis by simp
  next
    case (Inl why)
    define e where "e = zero_entry\<lparr>e_Author := AuthorOrchestrator, e_Kind := KindInvalidRevision, e_SessionID := s,
      e_WorkUnitID := s, e_AttemptID := FirstAttempt, e_Cause := CauseUncaptured,
      e_JournalRef := ref, e_BaseVersion := base, e_PlanVersion := new, e_Reason := reason why\<rparr>"
    obtain err' where app: "Append e h = (err', h')"
      using False assms(1) Inl append_join_snd [of e "[Refused why]" h]
      by (cases "Append e h") (auto simp: Revise_def invalidRevision_def e_def)
    show ?thesis
    proof (cases "err' = []")
      case True
      with app obtain i where "hProject h' = fold_entry (e\<lparr>e_Seq := i\<rparr>) (hProject h)" by (auto elim: Append_ok)
      with denied_keeps [of "e\<lparr>e_Seq := i\<rparr>"] show ?thesis by (simp add: e_def)
    qed (use Append_failed(2) [OF app] in simp)
  qed
qed

theorem rejected_revision_keeps_plan_witness:
  "b_PlanVersion (Budgets (hProject (snd (Revise [] ''root'' ''v0'' ''v2'' [] [''a''] [] committed_store))) ''root'') = ''v1''"
proof -
  have 1: "fst (Revise [] ''root'' ''v0'' ''v2'' [] [''a''] [] committed_store) \<noteq> []" by code_simp
  have 2: "b_PlanVersion (Budgets (hProject committed_store) ''root'') = ''v1''" by code_simp
  from rejected_revision_keeps_plan [OF _ 1, where r = "''root''"
      and h' = "snd (Revise [] ''root'' ''v0'' ''v2'' [] [''a''] [] committed_store)"] 2 show ?thesis
    by simp
qed

text \<open>A revision that declares one unit twice is accepted, although a commitment that does
  is refused as a duplicate: the two declarations are merged before the plan is checked and the last
  one is what stands.\<close>

theorem revision_merges_duplicates:
  "fst (Commit [] ''root'' ''v1'' [plan_a ''x'', plan_a ''y''] [] new_store) = [Refused (DuplicateUnit ''a'')]
   \<and> fst (Revise [] ''root'' ''v1'' ''v2'' [plan_a ''x'', plan_a ''y''] [] [] committed_store) = []
   \<and> u_Contract (unit_at (hProject (snd (Revise [] ''root'' ''v1'' ''v2'' [plan_a ''x'', plan_a ''y''] [] [] committed_store)))
        ''root'' ''a'') = ''y''"
  by code_simp

end
