(* ===== verification/Vfs_State.thy ===== *)
theory Vfs_State
  imports Hist_Fold
begin

text \<open>
  The state of the virtual file system (\<open>takt/vfs\<close>): sentinels, identities, journal entries,
  staged deltas, flush manifests, cycle snapshots, the part of the state that the SQLite store
  keeps, and the running instance with its workspace on disk. Byte contents are strings; a Go
  \<open>[]byte\<close> that may be \<open>nil\<close> is an option. Timestamps and notification handlers are left out.
\<close>

section \<open>Sentinels\<close>

text \<open>
  The sentinel errors of the package, then the errors of the operating system the code tests
  for (\<open>ErrNotExist\<close>, \<open>ErrNotEmpty\<close>) and every other one (\<open>ErrIO\<close>, and \<open>ErrOther\<close> for an error
  the package makes without a sentinel).
\<close>

datatype verror =
    ErrGitMutationDenied | ErrCollision | ErrVerificationRequired | ErrFailingVerdict
  | ErrSelfVerification | ErrFlushPartial | ErrUnknownCycle | ErrCycleDiverged
  | ErrInvalidPath | ErrScopeDenied | ErrInvalidVerdict | ErrBaseChanged
  | ErrRecoveryRequired | ErrStoreFailed | ErrStaleRevision | ErrIdentity | ErrDuplicateCall
  | ErrNothingStaged | ErrStagedWork | ErrNoAdmission
  | ErrNotExist | ErrNotEmpty | ErrIO | ErrOther

type_synonym agent_id = string
type_synonym 'a vres = "verror list + 'a"

section \<open>Bindings\<close>

record Identity =
  id_SessionID :: string
  id_WorkUnitID :: string
  id_AttemptID :: string
  id_AgentID :: agent_id
  id_Specialist :: string
  id_Role :: string
  id_Invariants :: "string list"
  id_InvariantsHash :: string
  id_CycleID :: string
  id_MandateClass :: string
  id_GateAuthorKey :: agent_id
  id_Prelaunch :: bool
  id_Superseded :: bool
  id_HostSession :: string
  id_JudgedRevision :: "64 word"
  id_JudgedHash :: string
  id_JudgedPaths :: "string list"
  id_Reads :: "string list"

definition no_identity :: Identity where
  "no_identity = \<lparr>id_SessionID = [], id_WorkUnitID = [], id_AttemptID = [], id_AgentID = [],
     id_Specialist = [], id_Role = [], id_Invariants = [], id_InvariantsHash = [],
     id_CycleID = [], id_MandateClass = [], id_GateAuthorKey = [], id_Prelaunch = False,
     id_Superseded = False, id_HostSession = [], id_JudgedRevision = 0, id_JudgedHash = [],
     id_JudgedPaths = [], id_Reads = []\<rparr>"

text \<open>A Go map indexed at an absent key yields the zero value: \<open>f.bindings[key]\<close>.\<close>

abbreviation binding_of :: "(agent_id, Identity) gomap \<Rightarrow> agent_id \<Rightarrow> Identity" where
  "binding_of \<equiv> mget no_identity"

section \<open>Journal\<close>

datatype OperationType = OpRead | OpCreate | OpPatch | OpDelete | OpFlush | OpRollback
  | OpVerdict | OpRecovery | OpUnknown string

record JournalEntry =
  je_Role :: string
  je_SessionID :: string
  je_WorkUnitID :: string
  je_AttemptID :: string
  je_CycleID :: string
  je_MandateClass :: string
  je_CallID :: string
  je_Revision :: "64 word"
  je_Outcome :: string
  je_Seq :: nat
  je_Agent :: agent_id
  je_Path :: string
  je_Operation :: OperationType
  je_BeforeHash :: string
  je_AfterHash :: string
  je_ReeditOfCycleID :: string
  je_ReeditOfMandateClass :: string

definition entry_for :: "agent_id \<Rightarrow> string \<Rightarrow> OperationType \<Rightarrow> JournalEntry" where
  "entry_for agent path op = \<lparr>je_Role = [], je_SessionID = [], je_WorkUnitID = [],
     je_AttemptID = [], je_CycleID = [], je_MandateClass = [], je_CallID = [], je_Revision = 0,
     je_Outcome = [], je_Seq = 0, je_Agent = agent, je_Path = path, je_Operation = op,
     je_BeforeHash = [], je_AfterHash = [], je_ReeditOfCycleID = [],
     je_ReeditOfMandateClass = []\<rparr>"

record CollisionEvent =
  ce_SessionID :: string
  ce_AttemptID :: string
  ce_WorkUnitID :: string
  ce_AttemptingAgent :: agent_id
  ce_OwningAgent :: agent_id
  ce_Path :: string

section \<open>Staged work, manifests and cycles\<close>

record baseFile =
  bf_Content :: string
  bf_Present :: bool
  bf_Mode :: nat

definition no_file :: baseFile where
  "no_file = \<lparr>bf_Content = [], bf_Present = False, bf_Mode = 0\<rparr>"

record VerificationVerdict =
  vv_VerifierRole :: string
  vv_Revision :: "64 word"
  vv_DeltaHash :: string
  vv_Invariants :: "string list"
  vv_InvariantsHash :: string
  vv_Pass :: bool
  vv_Finding :: string
  vv_VerifierID :: agent_id
  vv_WorkUnitID :: string
  vv_AttemptID :: string

text \<open>A staged \<open>None\<close> is the \<open>nil\<close> content of a deletion.\<close>

record agentDelta =
  d_files :: "(string, string option) gomap"
  d_revision :: "64 word"
  d_bases :: "(string, baseFile) gomap"
  d_verdicts :: "(agent_id, VerificationVerdict) gomap"

definition empty_delta :: agentDelta where
  "empty_delta = \<lparr>d_files = [], d_revision = 0, d_bases = [], d_verdicts = []\<rparr>"

record recoveryItem =
  ri_Path :: string
  ri_Temp :: string
  ri_Before :: baseFile
  ri_After :: baseFile

record recoveryManifest =
  rm_Agent :: agent_id
  rm_Items :: "recoveryItem list"
  rm_Intent :: nat
  rm_Dirs :: "string list"

record cycleSnapshot =
  cs_MandateClass :: string
  cs_Agent :: agent_id
  cs_Items :: "(string, recoveryItem) gomap"
  cs_Dirs :: "string list"
  cs_Last :: "(string, nat) gomap"
  cs_Completed :: bool

record interruptedEvidence =
  ie_Manifest :: "recoveryManifest option"
  ie_Cycle :: "cycleSnapshot option"
  ie_Physical :: "(string, baseFile) gomap"
  ie_Bindings :: "(agent_id, Identity) gomap"
  ie_Deltas :: "(agent_id, agentDelta) gomap"

section \<open>The store and the running instance\<close>

text \<open>The harness-delivered identity of the process running one command.\<close>

record Caller =
  c_Dispatch :: string
  c_SessionID :: string
  c_HostSession :: string
  c_Agent :: agent_id
  c_WorkUnitID :: string
  c_AttemptID :: string

text \<open>
  A reservation of a native inspection, and what a claim consults of a prepared shell call: the
  binding, the caller, the directory it runs in and the paths its sandbox denies.
\<close>

record nativeInspection =
  ni_Path :: string
  ni_Tree :: bool
  ni_External :: bool

record shellCall =
  sc_Inspection :: "nativeInspection option"
  sc_Key :: agent_id
  sc_Caller :: Caller
  sc_Cwd :: string
  sc_Private :: "string list"
  sc_Started :: bool

text \<open>
  The maintenance document as \<open>guardMaintenanceLocked\<close> decodes it: absent or without a cycle,
  with a cycle and its phase, or JSON of another shape, which is an error.
\<close>

datatype maintenance = NoCycle | InCycle string string | Malformed

text \<open>
  \<open>store\<close> is what \<open>persistLocked\<close> writes (\<open>storedState\<close> and the journal rows) and \<open>loadState\<close>
  adopts. Collisions are stored as observations only and never loaded back.
\<close>

record store =
  s_staged :: "(agent_id, agentDelta) gomap"
  s_owners :: "(string, agent_id) gomap"
  s_bindings :: "(agent_id, Identity) gomap"
  s_calls :: "(string, bool) gomap"
  s_recovery :: "recoveryManifest option"
  s_interrupted :: "(string, interruptedEvidence) gomap"
  s_cycles :: "(string, cycleSnapshot) gomap"
  s_shellCalls :: "(string, shellCall) gomap"
  s_maintenance :: maintenance
  s_journal :: "JournalEntry list"

definition empty_store :: store where
  "empty_store = \<lparr>s_staged = [], s_owners = [], s_bindings = [], s_calls = [],
     s_recovery = None, s_interrupted = [], s_cycles = [], s_shellCalls = [],
     s_maintenance = NoCycle, s_journal = []\<rparr>"

text \<open>
  The workspace maps a slash-separated relative path to what is there: a directory, a regular
  file with its content, permission bits and link count, a symbolic link, or anything else,
  which also stands for what cannot be opened.
\<close>

datatype disk_node = Dir | File (node_content: string) (node_mode: nat) (node_links: nat)
  | Symlink | Special

type_synonym disk = "(string, disk_node) gomap"

text \<open>
  Each durable step of the outside world (a commit of the store, one system call of a flush)
  consumes one result of the schedule \<open>f_faults\<close>; an exhausted schedule means success. \<open>Fail k\<close>
  is a failure, after \<open>k\<close> bytes where the step writes a file.
\<close>

datatype step_result = Fine | Fail nat

text \<open>
  The database: the state row, absent until the first commit, and the journal rows, which the
  schema's triggers make append-only. Of the journal inside the state row only the length is
  stored, \<open>JournalCount\<close>.
\<close>

record database =
  db_state :: "store option"
  db_journal :: "JournalEntry list"

record fs = store +
  f_fault :: bool
  f_persisted :: nat
  f_collisions :: "CollisionEvent list"
  f_db :: database
  f_disk :: disk
  f_faults :: "step_result list"
  f_entropy :: nat
  f_history :: "projection vres"

text \<open>
  \<open>f_history\<close> is what \<open>history.ReadProjection\<close> answers for the state directory: the projection of
  the execution history, or the error of reading it. The history is another process's to write.
\<close>

text \<open>
  What the instance takes from elsewhere: the catalog's agent packages (instances with their
  declared grants), the roles the catalog declares, Unicode normalization, case folding and
  lower-casing, SHA-256 in hex, the JSON encoding of a delta's files, the random identifiers, and \<open>StateHash\<close> of a
  manifest and of repair evidence (with the coordinator's state, for a cycle).
\<close>

record agent_def =
  ad_Instances :: "string list"
  ad_VFSGrants :: "(string, string list) gomap"

record env =
  e_rootDir :: string
  e_packages :: "agent_def list"
  e_roles :: "(string, string) gomap"
  e_nfc :: "string \<Rightarrow> string"
  e_fold :: "string \<Rightarrow> string \<Rightarrow> bool"
  e_lower :: "string \<Rightarrow> string"
  e_sha256 :: "string \<Rightarrow> string"
  e_json :: "(string, string option) gomap \<Rightarrow> string"
  e_random :: "nat \<Rightarrow> string"
  e_manifest_hash :: "recoveryManifest \<Rightarrow> string"
  e_evidence_hash :: "interruptedEvidence \<Rightarrow> string option \<Rightarrow> string"

text \<open>A state-changing function returns its error or value beside the state it leaves.\<close>

type_synonym 'a vstep = "fs \<Rightarrow> 'a vres \<times> fs"

definition xret :: "'a \<Rightarrow> 'a vstep" where
  "xret x s = (Inr x, s)"

definition xfail :: "verror list \<Rightarrow> 'a vstep" where
  "xfail e s = (Inl e, s)"

definition xbind :: "'a vstep \<Rightarrow> ('a \<Rightarrow> 'b vstep) \<Rightarrow> 'b vstep" where
  "xbind m k s = (case m s of (Inl e, s') \<Rightarrow> (Inl e, s') | (Inr x, s') \<Rightarrow> k x s')"

text \<open>A read of the state that may fail, and a check that only may fail.\<close>

definition xread :: "(fs \<Rightarrow> 'a vres) \<Rightarrow> 'a vstep" where
  "xread r s = (r s, s)"

definition xcheck :: "(fs \<Rightarrow> verror list) \<Rightarrow> unit vstep" where
  "xcheck c s = (if c s = [] then Inr () else Inl (c s), s)"

definition xmod :: "(fs \<Rightarrow> fs) \<Rightarrow> unit vstep" where
  "xmod g s = (Inr (), g s)"

definition xget :: "(fs \<Rightarrow> 'a) \<Rightarrow> 'a vstep" where
  "xget r s = (Inr (r s), s)"

lemma xbind_eq_Inr:
  "xbind m k s = (Inr y, t) \<longleftrightarrow> (\<exists>x s'. m s = (Inr x, s') \<and> k x s' = (Inr y, t))"
  by (auto simp: xbind_def split: prod.splits sum.splits)

named_theorems vstep \<open>evaluation of state-changing steps\<close>

lemma vstep_simps [vstep]:
  "xret x s = (Inr x, s)" "xfail e s = (Inl e, s)" "xread r s = (r s, s)"
  "xcheck c s = (if c s = [] then Inr () else Inl (c s), s)"
  "xmod g s = (Inr (), g s)" "xget q s = (Inr (q s), s)"
  by (simp_all add: xret_def xfail_def xread_def xcheck_def xmod_def xget_def)

lemma xbind_assoc: "xbind (xbind m k) h = xbind m (\<lambda>x. xbind (k x) h)"
  by (rule ext) (auto simp: xbind_def split: prod.splits sum.splits)

text \<open>
  A property of states that a step keeps whatever it returns; the keeping rules compose along
  the code.
\<close>

definition keeps :: "(fs \<Rightarrow> bool) \<Rightarrow> 'a vstep \<Rightarrow> bool" where
  "keeps P m \<longleftrightarrow> (\<forall>s. P s \<longrightarrow> P (snd (m s)))"

named_theorems keeping \<open>steps that keep a property of the state\<close>

lemma keeps_ret [keeping, intro]: "keeps P (xret x)" "keeps P (xfail e)" "keeps P (xread r)"
  "keeps P (xcheck c)" "keeps P (xget q)"
  by (simp_all add: keeps_def vstep)

lemma keeps_bind [keeping, intro]: "keeps P m \<Longrightarrow> (\<And>x. keeps P (k x)) \<Longrightarrow> keeps P (xbind m k)"
  by (fastforce simp: keeps_def xbind_def split: prod.splits sum.splits)

lemma keeps_mod: "(\<And>s. P s \<Longrightarrow> P (g s)) \<Longrightarrow> keeps P (xmod g)"
  by (simp add: keeps_def vstep)

lemma keepsD: "keeps P m \<Longrightarrow> P s \<Longrightarrow> m s = (r, t) \<Longrightarrow> P t"
  by (metis keeps_def snd_conv)

text \<open>The next scheduled result.\<close>

definition tick :: "fs \<Rightarrow> step_result \<times> fs" where
  "tick s = (case f_faults s of [] \<Rightarrow> (Fine, s) | b # bs \<Rightarrow> (b, s\<lparr>f_faults := bs\<rparr>))"

end
