(* ===== verification/Vfs_Paths.thy ===== *)
theory Vfs_Paths
  imports Vfs_State
begin

text \<open>
  Workspace paths (\<open>paths.go\<close>, the lexical part of \<open>sensitive.go\<close> and of \<open>reads.go\<close>): which
  spellings are accepted, which names are reserved or secret, what the disk holds at a path, and
  what a read selector covers. The functions of Go's \<open>path\<close> and \<open>io/fs\<close> the code calls come
  first.
\<close>

section \<open>Go's path functions\<close>

definition path_parts :: "string \<Rightarrow> string list" where
  "path_parts = split_on (CHR ''/'')"

definition join_path :: "string list \<Rightarrow> string" where
  "join_path = join_with ''/''"

text \<open>\<open>path.Clean\<close>: the components kept so far are on a stack, the last one first.\<close>

fun clean_step :: "bool \<Rightarrow> string list \<Rightarrow> string \<Rightarrow> string list" where
  "clean_step rooted stack part =
    (if part = [] \<or> part = ''.'' then stack
     else if part = ''..'' then
       (case stack of
          [] \<Rightarrow> if rooted then [] else [''..'']
        | t # rest \<Rightarrow> if t = ''..'' then ''..'' # stack else rest)
     else part # stack)"

definition path_clean :: "string \<Rightarrow> string" where
  "path_clean p =
    (let rooted = has_prefix p ''/'';
         body = join_path (rev (foldl (clean_step rooted) [] (path_parts p)))
     in if rooted then ''/'' @ body else if body = [] then ''.'' else body)"

text \<open>\<open>path.Split\<close>, \<open>path.Dir\<close>, \<open>path.Base\<close> and \<open>path.Join\<close> of two elements.\<close>

definition path_split :: "string \<Rightarrow> string \<times> string" where
  "path_split p = (let base = rev (takeWhile (\<lambda>c. c \<noteq> CHR ''/'') (rev p))
                   in (take (length p - length base) p, base))"

definition path_dir :: "string \<Rightarrow> string" where
  "path_dir p = path_clean (fst (path_split p))"

definition path_base :: "string \<Rightarrow> string" where
  "path_base p = (if p = [] then ''.'' else
     let q = rev (dropWhile (\<lambda>c. c = CHR ''/'') (rev p))
     in if q = [] then ''/'' else snd (path_split q))"

definition path_join :: "string \<Rightarrow> string \<Rightarrow> string" where
  "path_join a b = (if a = [] \<and> b = [] then [] else
     path_clean (join_path (filter (\<lambda>s. s \<noteq> []) [a, b])))"

text \<open>The loop \<open>for dir != "."; dir = path.Dir(dir)\<close>, with a bound on its steps.\<close>

fun dir_chain :: "nat \<Rightarrow> string \<Rightarrow> string list" where
  "dir_chain 0 dir = []"
| "dir_chain (Suc n) dir = (if dir = ''.'' then [] else dir # dir_chain n (path_dir dir))"

text \<open>\<open>utf8.ValidString\<close> on bytes, and \<open>fs.ValidPath\<close>.\<close>

definition utf8_tail :: "nat \<Rightarrow> bool" where
  "utf8_tail b \<longleftrightarrow> 128 \<le> b \<and> b \<le> 191"

definition utf8_second :: "nat \<Rightarrow> nat \<Rightarrow> bool" where
  "utf8_second b c \<longleftrightarrow>
    (if b = 224 then 160 \<le> c \<and> c \<le> 191 else if b = 237 then 128 \<le> c \<and> c \<le> 159
     else if b = 240 then 144 \<le> c \<and> c \<le> 191 else if b = 244 then 128 \<le> c \<and> c \<le> 143
     else utf8_tail c)"

fun valid_utf8 :: "nat list \<Rightarrow> bool" where
  "valid_utf8 [] = True"
| "valid_utf8 (b # bs) =
    (if b < 128 then valid_utf8 bs
     else case bs of [] \<Rightarrow> False | c # cs \<Rightarrow>
       utf8_second b c \<and>
       (if 194 \<le> b \<and> b \<le> 223 then valid_utf8 cs
        else case cs of [] \<Rightarrow> False | d # ds \<Rightarrow>
          utf8_tail d \<and>
          (if 224 \<le> b \<and> b \<le> 239 then valid_utf8 ds
           else case ds of [] \<Rightarrow> False | e # es \<Rightarrow>
             utf8_tail e \<and> 240 \<le> b \<and> b \<le> 244 \<and> valid_utf8 es)))"

definition ValidPath :: "string \<Rightarrow> bool" where
  "ValidPath p \<longleftrightarrow> valid_utf8 (map of_char p) \<and>
    (p = ''.'' \<or> (\<forall>part \<in> set (path_parts p). part \<notin> {[], ''.'', ''..''}))"

text \<open>
  \<open>path.Match\<close> on the patterns of \<open>SensitivePathGlobs\<close>, whose only metacharacter is the star,
  which never matches a separator.
\<close>

fun path_match :: "string \<Rightarrow> string \<Rightarrow> bool" where
  "path_match [] s = (s = [])"
| "path_match (p # ps) [] = (p = CHR ''*'' \<and> path_match ps [])"
| "path_match (p # ps) (c # cs) =
    (if p = CHR ''*'' then path_match ps (c # cs) \<or> (c \<noteq> CHR ''/'' \<and> path_match (p # ps) cs)
     else p = c \<and> path_match ps cs)"

definition contains_any :: "string \<Rightarrow> string \<Rightarrow> bool" where
  "contains_any s chars \<longleftrightarrow> (\<exists>c \<in> set s. c \<in> set chars)"

section \<open>Reserved, private and secret names\<close>

definition tempPrefix :: string where
  "tempPrefix = ''.takt-vfs-''"

definition privateStateName :: "env \<Rightarrow> string \<Rightarrow> bool" where
  "privateStateName E part \<longleftrightarrow> e_fold E part ''.takt-ai'' \<or> has_prefix (e_lower E part) tempPrefix"

definition reservedName :: "env \<Rightarrow> string \<Rightarrow> bool" where
  "reservedName E part \<longleftrightarrow> e_fold E part ''.git'' \<or> privateStateName E part"

definition SensitivePathGlobs :: "string list" where
  "SensitivePathGlobs = [''.env'', ''.env.*'', ''.ssh/**'', ''.credentials/**'',
     ''Library/Keychains/**'', ''.aws/credentials'', ''.config/gh/hosts.yml'', ''*.pem'',
     ''*.key'', ''secrets/**'', ''credentials.json'']"

text \<open>One pattern of the list against the last components of the path.\<close>

definition glob_hits :: "string list \<Rightarrow> bool \<Rightarrow> string \<Rightarrow> bool" where
  "glob_hits parts dir glob =
    (let dirPattern = has_suffix glob ''/**'';
         pattern = trim_suffix glob ''/**'';
         n = length (filter (\<lambda>c. c = CHR ''/'') pattern) + 1
     in dirPattern = dir \<and> n \<le> length parts \<and>
        path_match pattern (join_path (drop (length parts - n) parts)))"

definition matchesSensitive :: "string \<Rightarrow> bool \<Rightarrow> bool" where
  "matchesSensitive rel dir = (\<exists>glob \<in> set SensitivePathGlobs. glob_hits (path_parts rel) dir glob)"

definition sensitiveInspection :: "string \<Rightarrow> bool \<Rightarrow> bool" where
  "sensitiveInspection rel dir =
    (let parts = path_parts rel
     in (\<exists>i \<in> set [1..<length parts]. matchesSensitive (join_path (take i parts)) True) \<or>
        matchesSensitive rel dir)"

definition lexicallyCanonical :: "env \<Rightarrow> string \<Rightarrow> bool" where
  "lexicallyCanonical E rel \<longleftrightarrow>
    \<not> contains_any rel [CHR 0x5C, CHR 0x00, CHR 0x0D, CHR 0x0A] \<and> e_nfc E rel = rel"

section \<open>The disk behind a path\<close>

definition lstat :: "disk \<Rightarrow> string \<Rightarrow> disk_node option" where
  "lstat d rel = (if rel = ''.'' then Some Dir else map_of d rel)"

text \<open>The names a directory lists.\<close>

definition disk_entries :: "disk \<Rightarrow> string \<Rightarrow> string list" where
  "disk_entries d parent = map path_base (filter (\<lambda>k. path_dir k = parent) (mkeys d))"

definition checkSiblings :: "env \<Rightarrow> disk \<Rightarrow> string \<Rightarrow> string \<Rightarrow> bool vres" where
  "checkSiblings E d parent part =
    (case lstat d parent of
       None \<Rightarrow> Inr False
     | Some Dir \<Rightarrow>
         if \<exists>name \<in> set (disk_entries d parent).
              e_nfc E name \<noteq> part \<and> e_fold E (e_nfc E name) part
         then Inl [ErrInvalidPath] else Inr True
     | Some _ \<Rightarrow> Inl [ErrInvalidPath])"

definition checkEntry :: "disk \<Rightarrow> string \<Rightarrow> bool \<Rightarrow> bool \<Rightarrow> bool vres" where
  "checkEntry d rel final dirOK =
    (case lstat d rel of
       None \<Rightarrow> Inr False
     | Some Symlink \<Rightarrow> Inl [ErrInvalidPath]
     | Some Dir \<Rightarrow> if \<not> final \<or> dirOK then Inr True else Inl [ErrInvalidPath]
     | Some Special \<Rightarrow> Inl [ErrInvalidPath]
     | Some (File _ _ links) \<Rightarrow>
         if \<not> final \<or> links \<noteq> 1 then Inl [ErrInvalidPath] else Inr True)"

text \<open>
  The loop over the components: \<open>checked\<close> are the ones it has passed. It stops without an error
  at the first component that does not exist.
\<close>

fun check_parts :: "env \<Rightarrow> disk \<Rightarrow> bool \<Rightarrow> string list \<Rightarrow> string list \<Rightarrow> verror list" where
  "check_parts E d dirOK checked [] = []"
| "check_parts E d dirOK checked (part # rest) =
    (case checkSiblings E d (if checked = [] then ''.'' else join_path checked) part of
       Inl e \<Rightarrow> e
     | Inr False \<Rightarrow> []
     | Inr True \<Rightarrow>
         (case checkEntry d (join_path (checked @ [part])) (rest = []) dirOK of
            Inl e \<Rightarrow> e
          | Inr False \<Rightarrow> []
          | Inr True \<Rightarrow> check_parts E d dirOK (checked @ [part]) rest))"

definition validatePathParts :: "env \<Rightarrow> disk \<Rightarrow> string list \<Rightarrow> bool \<Rightarrow> verror list" where
  "validatePathParts E d parts dirOK = check_parts E d dirOK [] parts"

definition validatePath :: "env \<Rightarrow> disk \<Rightarrow> string \<Rightarrow> verror list" where
  "validatePath E d rel =
    (if \<not> ValidPath rel \<or> rel = ''.'' \<or> \<not> lexicallyCanonical E rel then [ErrInvalidPath]
     else if list_ex (reservedName E) (path_parts rel) then [ErrInvalidPath]
     else if sensitiveInspection rel False then [ErrScopeDenied]
     else validatePathParts E d (path_parts rel) False)"

definition physical :: "env \<Rightarrow> disk \<Rightarrow> string \<Rightarrow> baseFile vres" where
  "physical E d rel =
    (let e = validatePath E d rel in
     if e \<noteq> [] then Inl e
     else case lstat d rel of
       None \<Rightarrow> Inr no_file
     | Some (File content mode links) \<Rightarrow>
         if links \<noteq> 1 then Inl [ErrInvalidPath]
         else Inr \<lparr>bf_Content = content, bf_Present = True, bf_Mode = mode\<rparr>
     | Some Dir \<Rightarrow> Inl [ErrInvalidPath]
     | Some _ \<Rightarrow> Inl [ErrIO])"

definition hashOf :: "env \<Rightarrow> string \<Rightarrow> bool \<Rightarrow> string" where
  "hashOf E content present = (if present then e_sha256 E content else [])"

definition sameFile :: "env \<Rightarrow> baseFile \<Rightarrow> baseFile \<Rightarrow> bool" where
  "sameFile E a b \<longleftrightarrow> bf_Present a = bf_Present b \<and> bf_Mode a = bf_Mode b \<and>
     hashOf E (bf_Content a) (bf_Present a) = hashOf E (bf_Content b) (bf_Present b)"

section \<open>Read selectors\<close>

definition ReadAll :: string where "ReadAll = ''all''"
definition ReadFree :: string where "ReadFree = ''free''"
definition recursiveSuffix :: string where "recursiveSuffix = ''/**''"

definition valid_selector :: "env \<Rightarrow> string \<Rightarrow> bool" where
  "valid_selector E selector =
    (if selector = ReadAll \<or> selector = ReadFree then True
     else if has_prefix selector ''*.'' then
       \<not> (contains_any (drop 1 selector) ''/*?['' \<or> length selector = 2)
     else let dir = trim_suffix (trim_suffix selector ''/'') ''/**''
          in ValidPath dir \<and> dir \<noteq> ''.'' \<and> lexicallyCanonical E dir)"

definition ValidateReads :: "env \<Rightarrow> string list \<Rightarrow> verror list" where
  "ValidateReads E selectors = first_err (\<lambda>s. if valid_selector E s then [] else [ErrInvalidPath]) selectors"

definition readCovers :: "string \<Rightarrow> string \<Rightarrow> bool" where
  "readCovers selector rel =
    (if selector = ReadAll \<or> selector = ReadFree then True
     else if has_prefix selector ''*.'' then has_suffix (path_base rel) (drop 1 selector)
     else if has_suffix selector recursiveSuffix then has_prefix rel (trim_suffix selector ''**'')
     else if has_suffix selector ''/'' then path_dir rel = trim_suffix selector ''/''
     else rel = selector)"

definition readsCover :: "string list \<Rightarrow> string \<Rightarrow> bool" where
  "readsCover selectors rel = list_ex (\<lambda>s. readCovers s rel) selectors"

definition readsExplicitlyCover :: "string list \<Rightarrow> string \<Rightarrow> bool" where
  "readsExplicitlyCover selectors rel = list_ex (\<lambda>s. s \<noteq> ReadFree \<and> readCovers s rel) selectors"

end
