(* ===== verification/Vfs_Store.thy ===== *)
theory Vfs_Store
  imports Vfs_Paths
begin

text \<open>
  Durable state (\<open>storage.go\<close>), the journal (\<open>appendJournalLocked\<close>, \<open>correlateLocked\<close>,
  \<open>journalPage\<close>), the catalog grants (\<open>RequireVFSCapability\<close>) and the reads of a staged delta
  (\<open>staged.go\<close>).
\<close>

section \<open>Commit, load and the barrier\<close>

definition persistLocked :: "fs \<Rightarrow> verror list \<times> fs" where
  "persistLocked s =
    (case tick s of
       (Fail _, s1) \<Rightarrow> ([ErrIO], s1)
     | (Fine, s1) \<Rightarrow>
         let rows = db_journal (f_db s1);
             new = drop (f_persisted s1) (s_journal s1)
         in if \<exists>e \<in> set new. je_Seq e \<in> je_Seq ` set rows then ([ErrIO], s1)
            else ([], s1\<lparr>f_db := \<lparr>db_state = Some (store.truncate s1), db_journal = rows @ new\<rparr>\<rparr>))"

definition readyLocked :: "fs \<Rightarrow> verror list" where
  "readyLocked s = (if f_fault s then [ErrStoreFailed]
     else if s_recovery s \<noteq> None then [ErrRecoveryRequired] else [])"

definition finishLocked :: "verror list \<Rightarrow> fs \<Rightarrow> verror list \<times> fs" where
  "finishLocked result s =
    (if f_fault s then (result @ [ErrStoreFailed], s)
     else case persistLocked s of
       (e, s1) \<Rightarrow>
         if e \<noteq> [] then (result @ [ErrStoreFailed] @ e, s1\<lparr>f_fault := True\<rparr>)
         else (result, s1\<lparr>f_persisted := length (s_journal s1), f_collisions := []\<rparr>))"

definition err_of :: "'a vres \<Rightarrow> verror list" where
  "err_of r = (case r of Inl e \<Rightarrow> e | Inr _ \<Rightarrow> [])"

text \<open>\<open>defer f.finishLocked(&err)\<close> around a body, and the guard of an exported command.\<close>

definition finishing :: "'a vstep \<Rightarrow> 'a vstep" where
  "finishing m s =
    (case m s of (r, s1) \<Rightarrow> case finishLocked (err_of r) s1 of (e, s2) \<Rightarrow>
       (if e = [] then r else Inl e, s2))"

definition guarded :: "'a vstep \<Rightarrow> 'a vstep" where
  "guarded m = xbind (xcheck readyLocked) (\<lambda>_. m)"

definition command :: "'a vstep \<Rightarrow> 'a vstep" where
  "command m = guarded (finishing m)"

fun rows_numbered :: "nat \<Rightarrow> JournalEntry list \<Rightarrow> bool" where
  "rows_numbered n [] = True"
| "rows_numbered n (e # es) = (je_Seq e = n \<and> rows_numbered (Suc n) es)"

definition replayJournal :: "JournalEntry list \<Rightarrow> nat option \<Rightarrow> verror list" where
  "replayJournal rows count =
    (if \<not> rows_numbered 0 rows then [ErrOther]
     else case count of None \<Rightarrow> [] | Some n \<Rightarrow> if length rows \<noteq> n then [ErrOther] else [])"

text \<open>
  A reopened instance: the stored state over the workspace as it stands. \<open>newFS\<close> starts empty;
  the first open of a store commits that empty state. The lock, the directories and the schema
  are not modelled.
\<close>

definition newFS :: "disk \<Rightarrow> step_result list \<Rightarrow> nat \<Rightarrow> projection vres \<Rightarrow> database \<Rightarrow> fs" where
  "newFS disk faults entropy hist db = store.extend empty_store
     (fs.fields False 0 [] db disk faults entropy hist)"

definition loadState :: "unit vstep" where
  "loadState s =
    (case db_state (f_db s) of
       None \<Rightarrow> (case persistLocked s of (e, s1) \<Rightarrow> (if e = [] then Inr () else Inl e, s1))
     | Some st \<Rightarrow>
         let e = replayJournal (db_journal (f_db s)) (Some (length (s_journal st)))
         in if e \<noteq> [] then (Inl e, s)
            else (Inr (), s\<lparr>s_staged := s_staged st, s_owners := s_owners st,
              s_bindings := s_bindings st, s_calls := s_calls st, s_recovery := s_recovery st,
              s_interrupted := s_interrupted st, s_cycles := s_cycles st,
              s_shellCalls := s_shellCalls st, s_maintenance := s_maintenance st,
              s_journal := db_journal (f_db s), f_persisted := length (db_journal (f_db s)),
              f_collisions := []\<rparr>))"

text \<open>The process ends and the workspace is opened again.\<close>

definition reopen :: "step_result list \<Rightarrow> unit vstep" where
  "reopen faults s = loadState (newFS (f_disk s) faults (f_entropy s) (f_history s) (f_db s))"

section \<open>Staged work\<close>

definition stagedLocked :: "fs \<Rightarrow> agent_id \<Rightarrow> bool" where
  "stagedLocked s key = (case map_of (s_staged s) key of None \<Rightarrow> False | Some d \<Rightarrow> d_files d \<noteq> [])"

text \<open>JSON writes the files in key order.\<close>

definition ordered_files :: "(string, string option) gomap \<Rightarrow> (string, string option) gomap" where
  "ordered_files files = map (\<lambda>k. (k, mget None files k)) (sorted_keys files)"

definition deltaHashLocked :: "env \<Rightarrow> fs \<Rightarrow> agent_id \<Rightarrow> string" where
  "deltaHashLocked E s key =
    (case map_of (s_staged s) key of
       None \<Rightarrow> hashOf E ''{}'' True
     | Some d \<Rightarrow> hashOf E (e_json E (ordered_files (d_files d))) True)"

definition revisionOf :: "fs \<Rightarrow> agent_id \<Rightarrow> 64 word" where
  "revisionOf s key = (case map_of (s_staged s) key of None \<Rightarrow> 0 | Some d \<Rightarrow> d_revision d)"

definition stagedPathsLocked :: "fs \<Rightarrow> agent_id \<Rightarrow> string list" where
  "stagedPathsLocked s key =
    (case map_of (s_staged s) key of None \<Rightarrow> [] | Some d \<Rightarrow> sorted_keys (d_files d))"

definition delta_at :: "fs \<Rightarrow> agent_id \<Rightarrow> agentDelta" where
  "delta_at s key = mget empty_delta (s_staged s) key"

definition put_delta :: "agent_id \<Rightarrow> agentDelta \<Rightarrow> fs \<Rightarrow> fs" where
  "put_delta key d s = s\<lparr>s_staged := mput key d (s_staged s)\<rparr>"

definition ensureDelta :: "agent_id \<Rightarrow> fs \<Rightarrow> fs" where
  "ensureDelta key s = (if mhas (s_staged s) key then s else put_delta key empty_delta s)"

section \<open>The journal\<close>

definition stamp :: "JournalEntry \<Rightarrow> Identity \<Rightarrow> JournalEntry" where
  "stamp e i = e\<lparr>je_Agent := id_AgentID i, je_Role := id_Role i, je_SessionID := id_SessionID i,
     je_WorkUnitID := id_WorkUnitID i, je_AttemptID := id_AttemptID i,
     je_CycleID := id_CycleID i, je_MandateClass := id_MandateClass i\<rparr>"

text \<open>The cycle that last consolidated the path: later cycles win, ties go to the larger name.\<close>

definition consolidated_step ::
    "(string, cycleSnapshot) gomap \<Rightarrow> string \<Rightarrow> int \<times> (string \<times> string) option \<Rightarrow> string \<Rightarrow>
     int \<times> (string \<times> string) option" where
  "consolidated_step cycles path acc cid =
    (case map_of cycles cid of
       None \<Rightarrow> acc
     | Some snap \<Rightarrow>
         if \<not> mhas (cs_Items snap) path then acc
         else let at = int (mget 0 (cs_Last snap) path)
              in if fst acc \<le> at then (at, Some (cid, cs_MandateClass snap)) else acc)"

definition consolidatedByLocked :: "fs \<Rightarrow> string \<Rightarrow> (string \<times> string) option" where
  "consolidatedByLocked s path =
    snd (foldl (consolidated_step (s_cycles s) path) (- 1, None) (sorted_keys (s_cycles s)))"

definition stamped_entry :: "fs \<Rightarrow> JournalEntry \<Rightarrow> JournalEntry" where
  "stamped_entry s e =
    (let e1 = (case map_of (s_bindings s) (je_Agent e) of
                 None \<Rightarrow> e
               | Some i \<Rightarrow> (case map_of (s_staged s) (je_Agent e) of
                             None \<Rightarrow> stamp e i
                           | Some d \<Rightarrow> (stamp e i)\<lparr>je_Revision := d_revision d\<rparr>));
         e2 = (case consolidatedByLocked s (je_Path e1) of
                 None \<Rightarrow> e1
               | Some (c, m) \<Rightarrow> e1\<lparr>je_ReeditOfCycleID := c, je_ReeditOfMandateClass := m\<rparr>)
     in e2\<lparr>je_Seq := length (s_journal s)\<rparr>)"

definition appendJournalLocked :: "JournalEntry \<Rightarrow> fs \<Rightarrow> fs" where
  "appendJournalLocked e s = s\<lparr>s_journal := s_journal s @ [stamped_entry s e]\<rparr>"

definition correlated :: "Identity \<Rightarrow> string \<Rightarrow> agentDelta option \<Rightarrow> JournalEntry \<Rightarrow> JournalEntry" where
  "correlated i call d e =
    (let e1 = (stamp e i)\<lparr>je_CallID := call\<rparr>
     in case d of None \<Rightarrow> e1 | Some d \<Rightarrow> e1\<lparr>je_Revision := d_revision d\<rparr>)"

definition correlateLocked :: "nat \<Rightarrow> agent_id \<Rightarrow> agent_id \<Rightarrow> string \<Rightarrow> fs \<Rightarrow> fs" where
  "correlateLocked start key view call s =
    (let d = (case map_of (s_staged s) view of None \<Rightarrow> map_of (s_staged s) key | Some d \<Rightarrow> Some d)
     in s\<lparr>s_journal := take start (s_journal s) @
            map (correlated (binding_of (s_bindings s) key) call d) (drop start (s_journal s))\<rparr>)"

text \<open>\<open>sort.Search\<close> is Go's binary search on \<open>[lo, hi)\<close>; then the page is filled up to its limit.\<close>

definition MaxJournalPageSize :: int where "MaxJournalPageSize = 500"

function sort_search :: "(nat \<Rightarrow> bool) \<Rightarrow> nat \<Rightarrow> nat \<Rightarrow> nat" where
  "sort_search p lo hi =
    (if lo < hi then let h = (lo + hi) div 2 in
       if p h then sort_search p lo h else sort_search p (Suc h) hi
     else lo)"
  by pat_completeness auto
termination by (relation "measure (\<lambda>(p, lo, hi). hi - lo)") auto

declare sort_search.simps [simp del]

definition on_page :: "string \<Rightarrow> string \<Rightarrow> int \<Rightarrow> JournalEntry \<Rightarrow> bool" where
  "on_page session unit after e \<longleftrightarrow> after < int (je_Seq e) \<and>
     (session = [] \<or> je_SessionID e = session) \<and> (unit = [] \<or> je_WorkUnitID e = unit)"

fun fill_page :: "(JournalEntry \<Rightarrow> bool) \<Rightarrow> nat \<Rightarrow> JournalEntry list \<Rightarrow> JournalEntry list \<Rightarrow>
    JournalEntry list" where
  "fill_page on limit result [] = result"
| "fill_page on limit result (e # es) =
    (if on e then
       (if length (result @ [e]) = limit then result @ [e] else fill_page on limit (result @ [e]) es)
     else fill_page on limit result es)"

definition journalPage ::
    "JournalEntry list \<Rightarrow> string \<Rightarrow> string \<Rightarrow> int \<Rightarrow> int \<Rightarrow> JournalEntry list" where
  "journalPage entries session unit after limit =
    (let limit = nat (max 1 (min limit MaxJournalPageSize));
         start = sort_search (\<lambda>i. after < int (je_Seq (entries ! i))) 0 (length entries)
     in fill_page (on_page session unit after) limit [] (drop start entries))"

definition JournalPage :: "fs \<Rightarrow> string \<Rightarrow> string \<Rightarrow> int \<Rightarrow> int \<Rightarrow> JournalEntry list" where
  "JournalPage s = journalPage (take (f_persisted s) (s_journal s))"

definition ReadJournal ::
    "JournalEntry list \<Rightarrow> string \<Rightarrow> string \<Rightarrow> int \<Rightarrow> int \<Rightarrow> JournalEntry list vres" where
  "ReadJournal rows session unit after limit =
    (let e = replayJournal rows None
     in if e \<noteq> [] then Inl e else Inr (journalPage rows session unit after limit))"

section \<open>Catalog grants\<close>

definition CapBind :: string where "CapBind = ''bind''"
definition CapWrite :: string where "CapWrite = ''write''"
definition CapRead :: string where "CapRead = ''read''"
definition CapDelete :: string where "CapDelete = ''delete''"
definition CapDiscard :: string where "CapDiscard = ''discard''"
definition CapVerify :: string where "CapVerify = ''verify''"
definition CapConsolidate :: string where "CapConsolidate = ''consolidate''"

definition OrchestratorInstance :: string where "OrchestratorInstance = ''takt''"

definition VFSCapabilities :: "agent_def \<Rightarrow> string \<Rightarrow> string list \<times> bool" where
  "VFSCapabilities a instance_id =
    (case map_of (ad_VFSGrants a) instance_id of None \<Rightarrow> ([], False) | Some g \<Rightarrow> (g, True))"

definition instanceVFSCapabilities :: "env \<Rightarrow> string \<Rightarrow> (string list \<times> bool) vres" where
  "instanceVFSCapabilities E instance_id =
    (case filter (\<lambda>a. instance_id \<in> set (ad_Instances a)) (e_packages E) of
       [] \<Rightarrow> Inl [ErrIdentity]
     | a # _ \<Rightarrow> Inr (VFSCapabilities a instance_id))"

definition RequireVFSCapability :: "env \<Rightarrow> string \<Rightarrow> string \<Rightarrow> verror list" where
  "RequireVFSCapability E instance_id capability =
    (case instanceVFSCapabilities E instance_id of
       Inl e \<Rightarrow> e
     | Inr (grants, declared) \<Rightarrow>
         if \<not> declared then [ErrIdentity]
         else if capability \<notin> set grants then [ErrScopeDenied] else [])"

definition SpecialistRole :: "env \<Rightarrow> string \<Rightarrow> string vres" where
  "SpecialistRole E instance_id =
    (case map_of (e_roles E) instance_id of None \<Rightarrow> Inl [ErrIdentity] | Some r \<Rightarrow> Inr r)"

definition VFSAuthors :: "env \<Rightarrow> string list" where
  "VFSAuthors E = sort (concat (map (\<lambda>a.
     map fst (filter (\<lambda>(i, grants). CapWrite \<in> set grants) (ad_VFSGrants a))) (e_packages E)))"

definition isVFSAuthor :: "env \<Rightarrow> agent_id \<Rightarrow> bool" where
  "isVFSAuthor E agent \<longleftrightarrow> agent \<noteq> OrchestratorInstance \<and> agent \<in> set (VFSAuthors E)"

end
