(* ===== verification/Vfs_Stage.thy ===== *)
theory Vfs_Stage
  imports Vfs_Store
begin

text \<open>
  Staging and reading under exclusive ownership (\<open>vfs.go\<close>, \<open>operation.go\<close>, the mutex of
  \<open>reads.go\<close>): who may touch a path, what a write, a deletion and a rollback do to the staged
  delta, what a read sees, and the checks every operation passes before it has any effect.
\<close>

section \<open>Identities\<close>

definition sameUnit :: "Identity \<Rightarrow> Identity \<Rightarrow> bool" where
  "sameUnit a b \<longleftrightarrow> id_SessionID a = id_SessionID b \<and> id_WorkUnitID a = id_WorkUnitID b"

definition sameAttempt :: "Identity \<Rightarrow> Identity \<Rightarrow> bool" where
  "sameAttempt a b \<longleftrightarrow> sameUnit a b \<and> id_AttemptID a = id_AttemptID b"

definition verifies :: "Identity \<Rightarrow> agent_id \<Rightarrow> Identity \<Rightarrow> bool" where
  "verifies v aKey a \<longleftrightarrow> id_GateAuthorKey v = aKey \<and> id_SessionID v = id_SessionID a \<and>
     id_InvariantsHash v = id_InvariantsHash a"

abbreviation bound :: "fs \<Rightarrow> agent_id \<Rightarrow> Identity" where
  "bound s key \<equiv> binding_of (s_bindings s) key"

section \<open>Ownership\<close>

definition releaseOwnershipLocked :: "agent_id \<Rightarrow> fs \<Rightarrow> fs" where
  "releaseOwnershipLocked agent s = s\<lparr>s_owners := mdel_func (\<lambda>_ owner. owner = agent) (s_owners s)\<rparr>"

definition ownedScopeLocked :: "fs \<Rightarrow> agent_id \<Rightarrow> string list" where
  "ownedScopeLocked s key = map fst (filter (\<lambda>(_, owner). owner = key) (s_owners s))"

definition sameScope :: "string list \<Rightarrow> string list \<Rightarrow> bool" where
  "sameScope a b \<longleftrightarrow> sort a = sort b"

definition collision_event :: "fs \<Rightarrow> agent_id \<Rightarrow> agent_id \<Rightarrow> string \<Rightarrow> CollisionEvent" where
  "collision_event s agent existing rel =
    (let i = map_of (s_bindings s) agent
     in \<lparr>ce_SessionID = (case i of None \<Rightarrow> [] | Some i \<Rightarrow> id_SessionID i),
         ce_AttemptID = (case i of None \<Rightarrow> [] | Some i \<Rightarrow> id_AttemptID i),
         ce_WorkUnitID = (case i of None \<Rightarrow> [] | Some i \<Rightarrow> id_WorkUnitID i),
         ce_AttemptingAgent = (case i of None \<Rightarrow> agent | Some i \<Rightarrow> id_AgentID i),
         ce_OwningAgent = (case map_of (s_bindings s) existing of
                             None \<Rightarrow> existing | Some o' \<Rightarrow> id_AgentID o'),
         ce_Path = rel\<rparr>)"

definition checkOwnership :: "agent_id \<Rightarrow> string \<Rightarrow> unit vstep" where
  "checkOwnership agent rel s =
    (case map_of (s_owners s) rel of
       None \<Rightarrow> (Inl [ErrScopeDenied], s)
     | Some existing \<Rightarrow>
         if existing = agent then (Inr (), s)
         else (Inl [ErrCollision],
               s\<lparr>f_collisions := f_collisions s @ [collision_event s agent existing rel]\<rparr>))"

definition captureBaseLocked :: "env \<Rightarrow> agent_id \<Rightarrow> string \<Rightarrow> unit vstep" where
  "captureBaseLocked E agent rel s =
    (let s1 = ensureDelta agent s; d = delta_at s1 agent
     in if mhas (d_bases d) rel then (Inr (), s1)
        else case physical E (f_disk s1) rel of
               Inl e \<Rightarrow> (Inl e, s1)
             | Inr b \<Rightarrow> (Inr (), put_delta agent (d\<lparr>d_bases := mput rel b (d_bases d)\<rparr>) s1))"

section \<open>The merged view\<close>

definition base_content :: "baseFile \<Rightarrow> string option" where
  "base_content b = (if bf_Present b then Some (bf_Content b) else None)"

text \<open>\<open>None\<close> is the absent file.\<close>

definition readMergedLocked :: "env \<Rightarrow> fs \<Rightarrow> agent_id \<Rightarrow> string \<Rightarrow> string option vres" where
  "readMergedLocked E s agent rel =
    (case map_of (s_staged s) agent of
       None \<Rightarrow> map_sum id base_content (physical E (f_disk s) rel)
     | Some d \<Rightarrow>
         (case map_of (d_files d) rel of
            Some content \<Rightarrow> Inr content
          | None \<Rightarrow>
              (case map_of (d_bases d) rel of
                 Some base \<Rightarrow> Inr (base_content base)
               | None \<Rightarrow> map_sum id base_content (physical E (f_disk s) rel))))"

definition hash_content :: "env \<Rightarrow> string option \<Rightarrow> string" where
  "hash_content E c = (case c of None \<Rightarrow> [] | Some x \<Rightarrow> hashOf E x True)"

section \<open>Staging\<close>

text \<open>The staged entry: revision, verdicts, content and journal, once every check has passed.\<close>

definition stage_entry :: "env \<Rightarrow> agent_id \<Rightarrow> string \<Rightarrow> string option \<Rightarrow> string option \<Rightarrow> JournalEntry" where
  "stage_entry E agent rel content prior =
    (entry_for agent rel
      (case content of None \<Rightarrow> OpDelete | Some _ \<Rightarrow> if prior = None then OpCreate else OpPatch))
    \<lparr>je_BeforeHash := hash_content E prior, je_AfterHash := hash_content E content\<rparr>"

definition stage_delta :: "agent_id \<Rightarrow> string \<Rightarrow> string option \<Rightarrow> fs \<Rightarrow> fs" where
  "stage_delta agent rel content s =
    (let s1 = ensureDelta agent s; d = delta_at s1 agent
     in put_delta agent (d\<lparr>d_revision := d_revision d + 1, d_verdicts := [],
                           d_files := mput rel content (d_files d)\<rparr>) s1)"

definition stageLocked :: "env \<Rightarrow> agent_id \<Rightarrow> string \<Rightarrow> string option \<Rightarrow> unit vstep" where
  "stageLocked E agent rel content =
    xbind (xread (\<lambda>s. case map_of (s_bindings s) agent of None \<Rightarrow> Inl [ErrIdentity] | Some i \<Rightarrow> Inr i)) (\<lambda>identity.
    xbind (xcheck (\<lambda>s. RequireVFSCapability E (id_Specialist identity)
                         (if content = None then CapDelete else CapWrite))) (\<lambda>_.
    xbind (xcheck (\<lambda>s. validatePath E (f_disk s) rel)) (\<lambda>_.
    xbind (checkOwnership agent rel) (\<lambda>_.
    xbind (captureBaseLocked E agent rel) (\<lambda>_.
    xbind (xread (\<lambda>s. readMergedLocked E s agent rel)) (\<lambda>prior.
    xmod (\<lambda>s. appendJournalLocked (stage_entry E agent rel content prior)
                (stage_delta agent rel content s))))))))"

section \<open>Reading\<close>

definition liveLocked :: "fs \<Rightarrow> projection \<Rightarrow> agent_id \<Rightarrow> bool" where
  "liveLocked s p key =
    (case map_of (s_bindings s) key of
       None \<Rightarrow> False
     | Some b \<Rightarrow> id_Prelaunch b \<or>
         (unit_known p (id_SessionID b) (id_WorkUnitID b) \<and> id_AttemptID b \<noteq> [] \<and>
          u_State (unit_at p (id_SessionID b) (id_WorkUnitID b)) = StateInFlight \<and>
          u_AttemptID (unit_at p (id_SessionID b) (id_WorkUnitID b)) = id_AttemptID b))"

definition admitReadsLocked :: "env \<Rightarrow> Identity \<Rightarrow> fs \<Rightarrow> verror list" where
  "admitReadsLocked E identity s =
    (if id_Reads identity = [] then []
     else if ValidateReads E (id_Reads identity) \<noteq> [] then ValidateReads E (id_Reads identity)
     else case f_history s of
       Inl e \<Rightarrow> e
     | Inr p \<Rightarrow>
         if \<exists>(rel, owner) \<in> set (s_owners s). \<not> sameUnit (bound s owner) identity \<and>
              readsExplicitlyCover (id_Reads identity) rel \<and> liveLocked s p owner
         then [ErrCollision] else [])"

definition guardReadersLocked :: "Identity \<Rightarrow> string list \<Rightarrow> fs \<Rightarrow> verror list" where
  "guardReadersLocked identity paths s =
    (if paths = [] then []
     else case f_history s of
       Inl e \<Rightarrow> e
     | Inr p \<Rightarrow>
         if \<exists>(key, reader) \<in> set (s_bindings s). id_Reads reader \<noteq> [] \<and>
              \<not> sameUnit reader identity \<and> liveLocked s p key \<and>
              list_ex (readsCover (id_Reads reader)) paths
         then [ErrCollision] else [])"

definition readViewLocked :: "fs \<Rightarrow> agent_id \<Rightarrow> string \<Rightarrow> agent_id \<times> bool" where
  "readViewLocked s agent rel =
    (case map_of (s_bindings s) agent of
       None \<Rightarrow> (agent, False)
     | Some identity \<Rightarrow>
         if id_Reads identity = [] \<or> \<not> readsCover (id_Reads identity) rel then (agent, False)
         else case map_of (s_owners s) rel of
           None \<Rightarrow> (agent, True)
         | Some owner \<Rightarrow>
             if owner = agent then (agent, True)
             else case f_history s of
               Inl _ \<Rightarrow> (agent, False)
             | Inr p \<Rightarrow> if liveLocked s p owner then (agent, False) else (owner, True))"

text \<open>A step that journals an outcome beside the error it returns.\<close>

definition journal_on_error :: "(verror list \<Rightarrow> JournalEntry) \<Rightarrow> 'a vstep \<Rightarrow> 'a vstep" where
  "journal_on_error e m s =
    (case m s of (Inl err, s1) \<Rightarrow> (Inl err, appendJournalLocked (e err) s1) | (Inr x, s1) \<Rightarrow> (Inr x, s1))"

definition read_entry :: "agent_id \<Rightarrow> string \<Rightarrow> string \<Rightarrow> JournalEntry" where
  "read_entry agent rel outcome = (entry_for agent rel OpRead)\<lparr>je_Outcome := outcome\<rparr>"

text \<open>Whose view serves the read of a binding's own caller.\<close>

definition own_view :: "env \<Rightarrow> agent_id \<Rightarrow> string \<Rightarrow> agent_id vstep" where
  "own_view E agent rel =
    xbind (xread (\<lambda>s. case map_of (s_bindings s) agent of None \<Rightarrow> Inl [ErrIdentity] | Some i \<Rightarrow> Inr i)) (\<lambda>identity.
    xbind (xcheck (\<lambda>s. RequireVFSCapability E (id_Specialist identity) CapRead)) (\<lambda>_.
    xbind (xget (\<lambda>s. readViewLocked s agent rel)) (\<lambda>(view, granted).
      if granted then xret view
      else xbind (journal_on_error (\<lambda>_. read_entry agent rel ''denied'') (checkOwnership agent rel))
             (\<lambda>_. xret view))))"

definition readLockedAs :: "env \<Rightarrow> agent_id \<Rightarrow> string \<Rightarrow> bool \<Rightarrow> string vstep" where
  "readLockedAs E agent rel authorizedStagedView =
    xbind (journal_on_error (\<lambda>_. read_entry agent rel ''failed'')
             (xcheck (\<lambda>s. validatePath E (f_disk s) rel))) (\<lambda>_.
    xbind (if authorizedStagedView then xret agent else own_view E agent rel) (\<lambda>source.
    xbind (journal_on_error (\<lambda>_. read_entry agent rel ''failed'')
             (xread (\<lambda>s. readMergedLocked E s source rel))) (\<lambda>content.
    (case content of
       None \<Rightarrow> journal_on_error (\<lambda>_. read_entry agent rel ''not_found'') (xfail [ErrNotExist])
     | Some bytes \<Rightarrow>
         xbind (xmod (appendJournalLocked
                        ((entry_for agent rel OpRead)\<lparr>je_AfterHash := hashOf E bytes True\<rparr>)))
           (\<lambda>_. xret bytes)))))"

section \<open>Rollback\<close>

definition rollback_entry :: "env \<Rightarrow> agent_id \<Rightarrow> agentDelta \<Rightarrow> string \<Rightarrow> JournalEntry" where
  "rollback_entry E key d p =
    (entry_for key p OpRollback)\<lparr>je_BeforeHash := hash_content E (mget None (d_files d) p)\<rparr>"

definition rollbackLocked :: "env \<Rightarrow> agent_id \<Rightarrow> fs \<Rightarrow> fs" where
  "rollbackLocked E key s =
    releaseOwnershipLocked key
     (case map_of (s_staged s) key of
        None \<Rightarrow> s
      | Some d \<Rightarrow>
          put_delta key (d\<lparr>d_files := [], d_bases := [], d_verdicts := [],
                           d_revision := d_revision d + 1\<rparr>)
            (fold (\<lambda>p. appendJournalLocked (rollback_entry E key d p)) (sorted_keys (d_files d)) s))"

section \<open>Operations\<close>

record Operation =
  op_Key :: agent_id
  op_CallID :: string
  op_ExpectedRevision :: "64 word"
  op_Action :: OperationType
  op_Path :: string
  op_Content :: "string option"

record OperationResult =
  or_Content :: "string option"
  or_Revision :: "64 word"
  or_DeltaHash :: string
  or_OutdatedPaths :: "string list"

definition no_result :: OperationResult where
  "no_result = \<lparr>or_Content = None, or_Revision = 0, or_DeltaHash = [], or_OutdatedPaths = []\<rparr>"

definition call_key :: "string \<Rightarrow> string \<Rightarrow> string" where
  "call_key session call = session @ [CHR 0x00] @ call"

definition consumeCallLocked :: "string \<Rightarrow> string \<Rightarrow> unit vstep" where
  "consumeCallLocked session call s =
    (if mget False (s_calls s) (call_key session call) then (Inl [ErrDuplicateCall], s)
     else (Inr (), s\<lparr>s_calls := mput (call_key session call) True (s_calls s)\<rparr>))"

definition check_view :: "env \<Rightarrow> Operation \<Rightarrow> agent_id \<Rightarrow> Identity \<Rightarrow> fs \<Rightarrow> verror list" where
  "check_view E op view identity s =
    (if view = op_Key op then []
     else case map_of (s_bindings s) view of
       None \<Rightarrow> [ErrIdentity]
     | Some target \<Rightarrow>
         if op_Action op \<noteq> OpRead then [ErrIdentity]
         else if RequireVFSCapability E (id_Specialist identity) CapVerify \<noteq> []
         then RequireVFSCapability E (id_Specialist identity) CapVerify
         else if \<not> verifies identity view target then [ErrIdentity] else [])"

definition admitLocked :: "env \<Rightarrow> Operation \<Rightarrow> agent_id \<Rightarrow> bool \<Rightarrow> Identity vstep" where
  "admitLocked E op view checkRevision =
    xbind (xread (\<lambda>s. case map_of (s_bindings s) (op_Key op) of None \<Rightarrow> Inl [ErrIdentity] | Some i \<Rightarrow> Inr i)) (\<lambda>identity.
    xbind (xcheck (\<lambda>s. if op_CallID op = [] then [ErrIdentity] else [])) (\<lambda>_.
    xbind (xcheck (check_view E op view identity)) (\<lambda>_.
    xbind (consumeCallLocked (id_SessionID identity) (op_CallID op)) (\<lambda>_.
    xbind (xcheck (\<lambda>s. if checkRevision \<and> revisionOf s view \<noteq> op_ExpectedRevision op
                       then [ErrStaleRevision] else [])) (\<lambda>_.
    xret identity)))))"

definition dispatchLocked :: "env \<Rightarrow> Operation \<Rightarrow> agent_id \<Rightarrow> Identity \<Rightarrow> string option vstep" where
  "dispatchLocked E op view identity =
    (case op_Action op of
       OpRead \<Rightarrow>
         xbind (xcheck (\<lambda>_. RequireVFSCapability E (id_Specialist identity) CapRead)) (\<lambda>_.
         xbind (readLockedAs E view (op_Path op) (view \<noteq> op_Key op)) (\<lambda>c. xret (Some c)))
     | OpCreate \<Rightarrow> xbind (stageLocked E (op_Key op) (op_Path op)
           (Some (case op_Content op of None \<Rightarrow> [] | Some c \<Rightarrow> c))) (\<lambda>_. xret None)
     | OpPatch \<Rightarrow> xbind (stageLocked E (op_Key op) (op_Path op)
           (Some (case op_Content op of None \<Rightarrow> [] | Some c \<Rightarrow> c))) (\<lambda>_. xret None)
     | OpDelete \<Rightarrow> xbind (stageLocked E (op_Key op) (op_Path op) None) (\<lambda>_. xret None)
     | OpRollback \<Rightarrow>
         xbind (xcheck (\<lambda>_. RequireVFSCapability E OrchestratorInstance CapDiscard)) (\<lambda>_.
         xbind (xmod (rollbackLocked E (op_Key op))) (\<lambda>_. xret None))
     | _ \<Rightarrow> xfail [ErrOther])"

text \<open>
  The operation with its deferred end: a refusal that journalled nothing is journalled as denied,
  the new entries carry the caller's identity, and the state is committed. The result is filled
  in also beside an error, but without content.
\<close>

definition denied_entry :: "agent_id \<Rightarrow> OperationType \<Rightarrow> JournalEntry" where
  "denied_entry key op = (entry_for key [] op)\<lparr>je_Outcome := ''denied''\<rparr>"

definition op_body :: "env \<Rightarrow> Operation \<Rightarrow> agent_id \<Rightarrow> bool \<Rightarrow> fs \<Rightarrow> (OperationResult \<times> verror list) \<times> fs" where
  "op_body E op view checkRevision s =
    (case admitLocked E op view checkRevision s of
       (Inl e, s1) \<Rightarrow> ((no_result, e), s1)
     | (Inr identity, s1) \<Rightarrow>
         (case dispatchLocked E op view identity s1 of
            (r, s2) \<Rightarrow> ((\<lparr>or_Content = (case r of Inl _ \<Rightarrow> None | Inr c \<Rightarrow> c),
                          or_Revision = revisionOf s2 view,
                          or_DeltaHash = deltaHashLocked E s2 view, or_OutdatedPaths = []\<rparr>,
                        err_of r), s2)))"

definition applyLocked :: "env \<Rightarrow> Operation \<Rightarrow> agent_id \<Rightarrow> bool \<Rightarrow> fs \<Rightarrow> (OperationResult \<times> verror list) \<times> fs" where
  "applyLocked E op view checkRevision s =
    (let start = length (s_journal s);
         ((result, err), s1) = op_body E op view checkRevision s;
         s2 = (if err \<noteq> [] \<and> length (s_journal s1) = start
               then appendJournalLocked (denied_entry (op_Key op) (op_Action op)) s1 else s1);
         s3 = correlateLocked start (op_Key op) view (op_CallID op) s2;
         (err', s4) = finishLocked err s3
     in ((if err' \<noteq> [] then result\<lparr>or_Content := None\<rparr> else result, err'), s4))"

definition apply_op :: "env \<Rightarrow> Operation \<Rightarrow> agent_id \<Rightarrow> fs \<Rightarrow> (OperationResult \<times> verror list) \<times> fs" where
  "apply_op E op view s =
    (if readyLocked s \<noteq> [] then ((no_result, readyLocked s), s) else applyLocked E op view True s)"

definition Apply :: "env \<Rightarrow> Operation \<Rightarrow> fs \<Rightarrow> (OperationResult \<times> verror list) \<times> fs" where
  "Apply E op = apply_op E op (op_Key op)"

end
