(* ===== verification/Vfs_Bind.thy ===== *)
theory Vfs_Bind
  imports Vfs_Stage
begin

text \<open>
  Dispatch bindings (\<open>bindings.go\<close>): issuing a binding over an explicit scope, adopting a
  prelaunch assignment, answering the binding an attempt already holds, and reserving the gate of
  a verifier. The invariant-set version (\<open>verdict.go\<close>) and the guard of running inspections
  (\<open>native.go\<close>) are here because every claim needs them. A loop over a Go map takes the entries
  in the order of the association list.
\<close>

section \<open>Keys and invariant sets\<close>

text \<open>\<open>fmt.Sprintf("%x", randomID())\<close>.\<close>

definition randomID :: "env \<Rightarrow> string vstep" where
  "randomID E s = (Inr (e_random E (f_entropy s)), s\<lparr>f_entropy := Suc (f_entropy s)\<rparr>)"

definition engramInvariantPrefix :: string where "engramInvariantPrefix = ''engram:''"

definition EngramInvariant :: "int \<Rightarrow> string" where
  "EngramInvariant i = engramInvariantPrefix @ Itoa i"

definition pin_invariant :: "env \<Rightarrow> disk \<Rightarrow> string \<Rightarrow> string vres" where
  "pin_invariant E d invariant =
    (if has_prefix invariant engramInvariantPrefix then
       (case Atoi (trim_prefix invariant engramInvariantPrefix) of
          None \<Rightarrow> Inl [ErrIdentity]
        | Some i \<Rightarrow> if i \<le> 0 then Inl [ErrIdentity] else Inr (EngramInvariant i))
     else case physical E d invariant of
       Inl e \<Rightarrow> Inl (ErrIdentity # e)
     | Inr base \<Rightarrow> Inr (invariant @ [CHR 0x00] @ hashOf E (bf_Content base) (bf_Present base)))"

fun pin_all :: "env \<Rightarrow> disk \<Rightarrow> string list \<Rightarrow> string list vres" where
  "pin_all E d [] = Inr []"
| "pin_all E d (i # is) = and_then (pin_invariant E d i) (\<lambda>p. and_then (pin_all E d is) (\<lambda>ps. Inr (p # ps)))"

definition invariantsVersionLocked :: "env \<Rightarrow> disk \<Rightarrow> string list \<Rightarrow> string vres" where
  "invariantsVersionLocked E d invariants =
    and_then (pin_all E d invariants) (\<lambda>pinned. Inr (hashOf E (join_with [CHR 0x0A] pinned) True))"

section \<open>Which binding an identity holds\<close>

definition completeIdentity :: "Identity \<Rightarrow> bool" where
  "completeIdentity i \<longleftrightarrow> id_SessionID i \<noteq> [] \<and> id_WorkUnitID i \<noteq> [] \<and> id_AgentID i \<noteq> []"

definition sameLiveIdentityLocked :: "fs \<Rightarrow> agent_id \<Rightarrow> Identity \<Rightarrow> Identity \<Rightarrow> bool" where
  "sameLiveIdentityLocked s key existing identity \<longleftrightarrow>
     sameAttempt existing identity \<and> id_AgentID existing = id_AgentID identity \<and>
     id_GateAuthorKey existing = id_GateAuthorKey identity \<and> \<not> id_Superseded existing \<and>
     \<not> (id_Prelaunch identity \<and> id_CycleID identity = [] \<and> id_GateAuthorKey identity \<noteq> []) \<and>
     (id_AttemptID existing \<noteq> [] \<or> id_Prelaunch existing \<or> ownedScopeLocked s key \<noteq> [])"

definition duplicateIdentity :: "fs \<Rightarrow> Identity \<Rightarrow> agent_id \<Rightarrow> bool" where
  "duplicateIdentity s identity self \<longleftrightarrow>
    (\<exists>(key, existing) \<in> set (s_bindings s). key \<noteq> self \<and> sameLiveIdentityLocked s key existing identity)"

text \<open>\<open>None\<close>: the attempt holds nothing yet.\<close>

definition heldBindingLocked :: "env \<Rightarrow> fs \<Rightarrow> Identity \<Rightarrow> string list \<Rightarrow> agent_id option vres" where
  "heldBindingLocked E s identity scope =
    (if \<not> completeIdentity identity then Inr None
     else case find (\<lambda>(key, existing). sameLiveIdentityLocked s key existing identity) (s_bindings s) of
       None \<Rightarrow> Inr None
     | Some (key, existing) \<Rightarrow>
         if id_Specialist existing \<noteq> id_Specialist identity then Inl [ErrScopeDenied]
         else let bind = RequireVFSCapability E (id_Specialist identity) CapBind;
                  write = RequireVFSCapability E (id_Specialist identity) CapWrite in
         if bind \<noteq> [] then Inl bind
         else if scope \<noteq> [] \<and> write \<noteq> [] then Inl write
         else if \<not> sameScope (ownedScopeLocked s key) scope \<or>
                 \<not> sameScope (id_Reads existing) (id_Reads identity) then Inl [ErrScopeDenied]
         else Inr (Some key))"

definition joinedAttempt :: "fs \<Rightarrow> Identity \<Rightarrow> Identity option" where
  "joinedAttempt s identity =
    map_option snd (find (\<lambda>(_, existing). sameAttempt existing identity) (s_bindings s))"

definition attemptInvariantsLocked :: "fs \<Rightarrow> Identity \<Rightarrow> string list" where
  "attemptInvariantsLocked s identity =
    (if id_AttemptID identity = [] then id_Invariants identity
     else case joinedAttempt s identity of
       None \<Rightarrow> id_Invariants identity | Some existing \<Rightarrow> id_Invariants existing)"

definition bindableIdentity :: "env \<Rightarrow> fs \<Rightarrow> Identity \<Rightarrow> string list \<Rightarrow> Identity vres" where
  "bindableIdentity E s identity scope =
    (if \<not> completeIdentity identity then Inl [ErrIdentity]
     else and_then (SpecialistRole E (id_Specialist identity)) (\<lambda>role.
       let bind = RequireVFSCapability E (id_Specialist identity) CapBind;
           write = RequireVFSCapability E (id_Specialist identity) CapWrite;
           invariants = attemptInvariantsLocked s identity in
       if bind \<noteq> [] then Inl bind
       else if scope \<noteq> [] \<and> write \<noteq> [] then Inl write
       else and_then (invariantsVersionLocked E (f_disk s) invariants) (\<lambda>hash.
         let i = identity\<lparr>id_Role := role, id_Invariants := invariants, id_InvariantsHash := hash\<rparr>
         in if duplicateIdentity s i [] then Inl [ErrIdentity] else Inr i)))"

section \<open>Claims over paths\<close>

definition inspection_contains :: "env \<Rightarrow> nativeInspection \<Rightarrow> string \<Rightarrow> bool" where
  "inspection_contains E n path \<longleftrightarrow> \<not> ni_External n \<and>
     (ni_Path n = [] \<or> e_fold E path (ni_Path n) \<or>
      (ni_Tree n \<and> has_prefix (e_lower E path) (e_lower E (ni_Path n) @ ''/'')))"

definition inspection_exposed :: "env \<Rightarrow> Identity \<Rightarrow> agent_id \<Rightarrow> string list \<Rightarrow> shellCall \<Rightarrow> bool" where
  "inspection_exposed E identity key scope call \<longleftrightarrow>
     sc_Started call \<and> (sc_Inspection call \<noteq> None \<or> sc_Cwd call = e_rootDir E) \<and>
     isVFSAuthor E (c_Agent (sc_Caller call)) \<and>
     \<not> (key = sc_Key call \<and> id_SessionID identity = c_SessionID (sc_Caller call) \<and>
        id_WorkUnitID identity = c_WorkUnitID (sc_Caller call) \<and>
        id_AgentID identity = c_Agent (sc_Caller call)) \<and>
     (\<exists>path \<in> set scope.
        case sc_Inspection call of
          Some n \<Rightarrow> inspection_contains E n path
        | None \<Rightarrow> path_join (e_rootDir E) path \<notin> set (sc_Private call))"

definition guardInspectionClaimLocked :: "env \<Rightarrow> Identity \<Rightarrow> agent_id \<Rightarrow> string list \<Rightarrow> fs \<Rightarrow> verror list" where
  "guardInspectionClaimLocked E identity key scope s =
    (if \<exists>(_, call) \<in> set (s_shellCalls s). inspection_exposed E identity key scope call
     then [ErrScopeDenied] else [])"

fun capture_bases :: "env \<Rightarrow> disk \<Rightarrow> string list \<Rightarrow> (string, baseFile) gomap vres" where
  "capture_bases E d [] = Inr []"
| "capture_bases E d (p # ps) =
    and_then (physical E d p) (\<lambda>b. and_then (capture_bases E d ps) (\<lambda>bs. Inr (mput p b bs)))"

definition own_paths :: "agent_id \<Rightarrow> string list \<Rightarrow> (string, agent_id) gomap \<Rightarrow> (string, agent_id) gomap" where
  "own_paths key scope owners = fold (\<lambda>p. mput p key) scope owners"

definition claimLocked :: "env \<Rightarrow> Identity \<Rightarrow> string list \<Rightarrow> agent_id vstep" where
  "claimLocked E identity scope =
    xbind (xcheck (guardInspectionClaimLocked E identity [] scope)) (\<lambda>_.
    xbind (xread (\<lambda>s. capture_bases E (f_disk s) scope)) (\<lambda>bases.
    xbind (randomID E) (\<lambda>key.
    xbind (xmod (\<lambda>s. s\<lparr>s_bindings := mput key identity (s_bindings s)\<rparr>)) (\<lambda>_.
    xbind (xmod (\<lambda>s. put_delta key ((delta_at (ensureDelta key s) key)\<lparr>d_bases := bases\<rparr>)
                        (ensureDelta key s))) (\<lambda>_.
    xbind (xmod (\<lambda>s. s\<lparr>s_owners := own_paths key scope (s_owners s)\<rparr>)) (\<lambda>_.
    xret key))))))"

definition recordCollision :: "Identity \<Rightarrow> string \<Rightarrow> agent_id \<Rightarrow> fs \<Rightarrow> fs" where
  "recordCollision identity path owner s =
    s\<lparr>f_collisions := f_collisions s @
       [\<lparr>ce_SessionID = id_SessionID identity, ce_AttemptID = id_AttemptID identity,
         ce_WorkUnitID = id_WorkUnitID identity, ce_AttemptingAgent = id_AgentID identity,
         ce_OwningAgent = (case map_of (s_bindings s) owner of None \<Rightarrow> owner | Some b \<Rightarrow> id_AgentID b),
         ce_Path = path\<rparr>]\<rparr>"

fun checkScope :: "env \<Rightarrow> Identity \<Rightarrow> string list \<Rightarrow> unit vstep" where
  "checkScope E identity [] s = (Inr (), s)"
| "checkScope E identity (p # ps) s =
    (if validatePath E (f_disk s) p \<noteq> [] then (Inl (validatePath E (f_disk s) p), s)
     else case find (\<lambda>(claimed, _). e_fold E p claimed) (s_owners s) of
       None \<Rightarrow> checkScope E identity ps s
     | Some (_, owner) \<Rightarrow>
         (Inl [ErrCollision],
          if id_AgentID (bound s owner) \<noteq> id_AgentID identity \<or> \<not> sameUnit (bound s owner) identity
          then recordCollision identity p owner s else s))"

section \<open>Gates\<close>

definition validateVerifierAuthorLocked :: "env \<Rightarrow> fs \<Rightarrow> Identity \<Rightarrow> agent_id \<Rightarrow> verror list" where
  "validateVerifierAuthorLocked E s verifier authorKey =
    (case map_of (s_bindings s) authorKey of
       None \<Rightarrow> [ErrIdentity]
     | Some author \<Rightarrow>
         if id_SessionID author \<noteq> id_SessionID verifier \<or> id_AgentID author = id_AgentID verifier
         then [ErrIdentity]
         else if RequireVFSCapability E (id_Specialist author) CapWrite \<noteq> []
         then RequireVFSCapability E (id_Specialist author) CapWrite
         else if id_InvariantsHash author \<noteq> id_InvariantsHash verifier then [ErrIdentity] else [])"

definition pending_gate :: "Identity \<Rightarrow> agent_id \<Rightarrow> Identity \<Rightarrow> bool" where
  "pending_gate identity authorKey gate \<longleftrightarrow> id_Prelaunch gate \<and> \<not> id_Superseded gate \<and>
     sameUnit gate identity \<and> id_AgentID gate = id_AgentID identity \<and>
     id_Specialist gate = id_Specialist identity \<and> id_GateAuthorKey gate = authorKey \<and>
     (id_AttemptID identity = [] \<or> id_AttemptID gate = id_AttemptID identity)"

definition pendingGateLocked :: "fs \<Rightarrow> Identity \<Rightarrow> agent_id \<Rightarrow> agent_id option" where
  "pendingGateLocked s identity authorKey =
    map_option fst (find (\<lambda>(_, gate). pending_gate identity authorKey gate) (s_bindings s))"

definition supersede :: "Identity \<Rightarrow> agent_id \<Rightarrow> Identity \<Rightarrow> Identity" where
  "supersede identity authorKey previous =
    (if id_SessionID previous = id_SessionID identity \<and> id_AgentID previous = id_AgentID identity \<and>
        id_GateAuthorKey previous = authorKey \<and> \<not> id_Superseded previous
     then previous\<lparr>id_Prelaunch := False, id_Superseded := True, id_HostSession := []\<rparr>
     else previous)"

definition issueVerifierLocked :: "env \<Rightarrow> Identity \<Rightarrow> agent_id \<Rightarrow> agent_id vstep" where
  "issueVerifierLocked E identity authorKey s =
    (case (if id_AttemptID identity = [] then None else pendingGateLocked s identity authorKey) of
       Some key \<Rightarrow> (Inr key, s)
     | None \<Rightarrow>
         xbind (xmod (\<lambda>s. s\<lparr>s_bindings := map (\<lambda>(k, b). (k, supersede identity authorKey b)) (s_bindings s)\<rparr>)) (\<lambda>_.
         xbind (randomID E) (\<lambda>key.
         xbind (xmod (\<lambda>s. ensureDelta key (s\<lparr>s_bindings := mput key identity (s_bindings s)\<rparr>))) (\<lambda>_.
         xret key))) s)"

definition assignVerifierLocked :: "env \<Rightarrow> Identity \<Rightarrow> agent_id \<Rightarrow> agent_id vstep" where
  "assignVerifierLocked E identity authorKey s =
    (let caps = first_err (RequireVFSCapability E (id_Specialist identity)) [CapRead, CapVerify];
         gate = identity\<lparr>id_GateAuthorKey := authorKey, id_Prelaunch := True, id_HostSession := []\<rparr>
     in if \<not> completeIdentity identity \<or> id_Specialist identity = [] \<or> authorKey = [] then (Inl [ErrIdentity], s)
        else if caps \<noteq> [] then (Inl caps, s)
        else case (if id_AttemptID gate = [] then None else pendingGateLocked s gate authorKey) of
          Some pending \<Rightarrow> (Inr pending, s)
        | None \<Rightarrow>
            let gate' = (case map_of (s_bindings s) authorKey of
                           None \<Rightarrow> gate
                         | Some author \<Rightarrow> if id_Invariants gate = []
                                          then gate\<lparr>id_Invariants := id_Invariants author\<rparr> else gate)
            in xbind (xread (\<lambda>s. bindableIdentity E s gate' [])) (\<lambda>i.
               xbind (xcheck (\<lambda>s. validateVerifierAuthorLocked E s i authorKey)) (\<lambda>_.
               issueVerifierLocked E i authorKey)) s)"

definition AssignVerifier :: "env \<Rightarrow> Identity \<Rightarrow> agent_id \<Rightarrow> agent_id vstep" where
  "AssignVerifier E identity authorKey = command (assignVerifierLocked E identity authorKey)"

section \<open>Adoption and binding\<close>

definition requireAdoptionGrantsLocked :: "env \<Rightarrow> fs \<Rightarrow> Identity \<Rightarrow> verror list" where
  "requireAdoptionGrantsLocked E s assigned =
    (let cap = RequireVFSCapability E (id_Specialist assigned) in
     if cap CapBind \<noteq> [] then cap CapBind
     else if id_GateAuthorKey assigned = [] then cap CapWrite
     else if cap CapRead \<noteq> [] then cap CapRead
     else if cap CapVerify \<noteq> [] then cap CapVerify
     else validateVerifierAuthorLocked E s assigned (id_GateAuthorKey assigned))"

definition prelaunch_for :: "Identity \<Rightarrow> Identity \<Rightarrow> bool" where
  "prelaunch_for identity assigned \<longleftrightarrow> id_Prelaunch assigned \<and>
     id_SessionID assigned = id_SessionID identity \<and> id_WorkUnitID assigned = id_WorkUnitID identity \<and>
     id_AgentID assigned = id_AgentID identity \<and>
     \<not> (id_GateAuthorKey assigned \<noteq> [] \<and> id_GateAuthorKey assigned \<noteq> id_GateAuthorKey identity)"

text \<open>\<open>Inr None\<close>: no assignment matches.\<close>

definition adoptPrelaunchLocked :: "env \<Rightarrow> Identity \<Rightarrow> string list \<Rightarrow> agent_id option vstep" where
  "adoptPrelaunchLocked E identity scope s =
    (case find (\<lambda>(_, assigned). prelaunch_for identity assigned) (s_bindings s) of
       None \<Rightarrow> (Inr None, s)
     | Some (key, assigned) \<Rightarrow>
         if id_Specialist assigned \<noteq> id_Specialist identity \<or>
            id_GateAuthorKey assigned \<noteq> id_GateAuthorKey identity \<or>
            (id_CycleID assigned \<noteq> [] \<and> id_AttemptID identity \<noteq> [] \<and>
             id_AttemptID assigned \<noteq> id_AttemptID identity) \<or>
            (id_Invariants identity \<noteq> [] \<and> id_Invariants assigned \<noteq> id_Invariants identity) \<or>
            (scope \<noteq> [] \<and> \<not> sameScope (ownedScopeLocked s key) scope)
         then (Inl [ErrScopeDenied], s)
         else if requireAdoptionGrantsLocked E s assigned \<noteq> []
         then (Inl (requireAdoptionGrantsLocked E s assigned), s)
         else let a = (if id_CycleID assigned = []
                       then assigned\<lparr>id_AttemptID := id_AttemptID identity\<rparr> else assigned)
              in if id_CycleID assigned = [] \<and> duplicateIdentity s a key then (Inl [ErrIdentity], s)
                 else (Inr (Some key), s\<lparr>s_bindings := mput key
                        (a\<lparr>id_Prelaunch := False, id_HostSession := id_HostSession identity\<rparr>)
                        (s_bindings s)\<rparr>))"

definition fresh_binding :: "env \<Rightarrow> Identity \<Rightarrow> string list \<Rightarrow> agent_id vstep" where
  "fresh_binding E identity scope =
    xbind (xread (\<lambda>_. instanceVFSCapabilities E (id_Specialist identity))) (\<lambda>(grants, declared).
    xbind (xcheck (\<lambda>_. if declared \<and> CapVerify \<in> set grants then [ErrScopeDenied] else [])) (\<lambda>_.
    xbind (xread (\<lambda>s. bindableIdentity E s identity scope)) (\<lambda>i.
    xbind (checkScope E i scope) (\<lambda>_.
    claimLocked E i scope))))"

definition bindLocked :: "env \<Rightarrow> Identity \<Rightarrow> string list \<Rightarrow> agent_id vstep" where
  "bindLocked E identity scope =
    xbind (adoptPrelaunchLocked E identity scope) (\<lambda>adopted.
    case adopted of
      Some key \<Rightarrow> xret key
    | None \<Rightarrow>
        xbind (xread (\<lambda>s. heldBindingLocked E s identity scope)) (\<lambda>held.
        case held of
          Some key \<Rightarrow> xret key
        | None \<Rightarrow> fresh_binding E identity scope))"

definition Bind :: "env \<Rightarrow> Identity \<Rightarrow> string list \<Rightarrow> agent_id vstep" where
  "Bind E identity scope = command (bindLocked E identity scope)"

definition BindingIdentity :: "fs \<Rightarrow> agent_id \<Rightarrow> Identity option" where
  "BindingIdentity s key = map_of (s_bindings s) key"

section \<open>Both lanes of a maintenance cycle\<close>

text \<open>\<open>PrepareMaintenance\<close>: a refusal restores the three maps both reservations touch.\<close>

definition reserve_lanes :: "env \<Rightarrow> Identity \<Rightarrow> Identity \<Rightarrow> string list \<Rightarrow> (agent_id \<times> agent_id) vstep" where
  "reserve_lanes E author verifier scope =
    xbind (bindLocked E author scope) (\<lambda>authorKey.
    xbind (assignVerifierLocked E verifier authorKey) (\<lambda>verifierKey.
    xret (authorKey, verifierKey)))"

definition PrepareMaintenance :: "env \<Rightarrow> Identity \<Rightarrow> Identity \<Rightarrow> string list \<Rightarrow> (agent_id \<times> agent_id) vstep" where
  "PrepareMaintenance E author verifier scope =
    guarded (\<lambda>s.
      if id_AttemptID author = [] \<or> id_AttemptID verifier = [] then (Inl [ErrIdentity], s)
      else case reserve_lanes E author verifier scope s of
        (Inl e, s1) \<Rightarrow> (Inl e, s1\<lparr>s_bindings := s_bindings s, s_staged := s_staged s,
                                  s_owners := s_owners s\<rparr>)
      | (Inr keys, s1) \<Rightarrow> finishing (xret keys) s1)"

end
