(* ===== verification/Vfs_Verdict.thy ===== *)
theory Vfs_Verdict
  imports Vfs_Bind
begin

text \<open>
  Verdicts on staged work (\<open>verdict.go\<close> and the gates of \<open>vfs.go\<close>): who may judge whom, which
  statement describes the staged work, which attached verdicts are current, and what they refuse.
\<close>

section \<open>Attaching a verdict\<close>

definition admitVerifierLocked ::
    "env \<Rightarrow> fs \<Rightarrow> agent_id \<Rightarrow> agent_id \<Rightarrow> string \<Rightarrow> (Identity \<times> Identity) vres" where
  "admitVerifierLocked E s verifier author callID =
    (case (map_of (s_bindings s) verifier, map_of (s_bindings s) author) of
       (Some v, Some a) \<Rightarrow>
         if callID = [] then Inl [ErrIdentity]
         else if RequireVFSCapability E (id_Specialist v) CapVerify \<noteq> []
         then Inl (RequireVFSCapability E (id_Specialist v) CapVerify)
         else if \<not> verifies v author a then Inl [ErrIdentity]
         else if id_Superseded v then Inl [ErrIdentity]
         else if id_AgentID v = id_AgentID a then Inl [ErrSelfVerification]
         else Inr (v, a)
     | _ \<Rightarrow> Inl [ErrIdentity])"

definition validVerdict ::
    "agentDelta option \<Rightarrow> 64 word \<Rightarrow> string \<Rightarrow> string \<Rightarrow> bool \<Rightarrow> string \<Rightarrow> verror list" where
  "validVerdict d expected actualHash deltaHash pass finding =
    (case d of
       None \<Rightarrow> [ErrInvalidVerdict]
     | Some d \<Rightarrow>
         if d_revision d \<noteq> expected then [ErrInvalidVerdict]
         else if actualHash \<noteq> deltaHash then [ErrInvalidVerdict]
         else if \<not> pass \<and> blank finding then [ErrInvalidVerdict] else [])"

definition attach_verdict :: "agent_id \<Rightarrow> VerificationVerdict \<Rightarrow> fs \<Rightarrow> fs" where
  "attach_verdict author v s =
    (let d = delta_at s author
     in put_delta author (d\<lparr>d_verdicts := mput (vv_VerifierID v) v (d_verdicts d)\<rparr>) s)"

definition verdict_entry :: "agent_id \<Rightarrow> bool \<Rightarrow> string \<Rightarrow> JournalEntry" where
  "verdict_entry verifier pass deltaHash =
    (entry_for verifier [] OpVerdict)
    \<lparr>je_Outcome := if pass then ''passed'' else ''rejected'', je_AfterHash := deltaHash\<rparr>"

definition verdict_of ::
    "Identity \<Rightarrow> Identity \<Rightarrow> 64 word \<Rightarrow> string \<Rightarrow> string \<Rightarrow> bool \<Rightarrow> string \<Rightarrow> VerificationVerdict" where
  "verdict_of v a expected deltaHash version pass finding =
    \<lparr>vv_VerifierRole = id_Role v, vv_Revision = expected, vv_DeltaHash = deltaHash,
     vv_Invariants = id_Invariants a, vv_InvariantsHash = version, vv_Pass = pass,
     vv_Finding = finding, vv_VerifierID = id_AgentID v, vv_WorkUnitID = id_WorkUnitID a,
     vv_AttemptID = id_AttemptID a\<rparr>"

definition verify_body ::
    "env \<Rightarrow> agent_id \<Rightarrow> agent_id \<Rightarrow> string \<Rightarrow> 64 word \<Rightarrow> string \<Rightarrow> bool \<Rightarrow> string \<Rightarrow> unit vstep" where
  "verify_body E verifier author callID expected deltaHash pass finding =
    xbind (xread (\<lambda>s. admitVerifierLocked E s verifier author callID)) (\<lambda>(v, a).
    xbind (xcheck (\<lambda>s. validVerdict (map_of (s_staged s) author) expected (deltaHashLocked E s author)
                         deltaHash pass finding)) (\<lambda>_.
    xbind (xread (\<lambda>s. invariantsVersionLocked E (f_disk s) (id_Invariants a))) (\<lambda>version.
    xbind (consumeCallLocked (id_SessionID v) callID) (\<lambda>_.
    xbind (xmod (attach_verdict author (verdict_of v a expected deltaHash version pass finding))) (\<lambda>_.
    xmod (appendJournalLocked (verdict_entry verifier pass deltaHash)))))))"

definition verifyLocked ::
    "env \<Rightarrow> agent_id \<Rightarrow> agent_id \<Rightarrow> string \<Rightarrow> 64 word \<Rightarrow> string \<Rightarrow> bool \<Rightarrow> string \<Rightarrow> unit vstep" where
  "verifyLocked E verifier author callID expected deltaHash pass finding s =
    (let start = length (s_journal s) in
     finishing (\<lambda>s.
       case verify_body E verifier author callID expected deltaHash pass finding s of
         (r, s1) \<Rightarrow>
           let s2 = (if err_of r \<noteq> [] \<and> length (s_journal s1) = start
                     then appendJournalLocked (denied_entry verifier OpVerdict) s1 else s1)
           in (r, correlateLocked start verifier author callID s2)) s)"

definition Verify ::
    "env \<Rightarrow> agent_id \<Rightarrow> agent_id \<Rightarrow> string \<Rightarrow> 64 word \<Rightarrow> string \<Rightarrow> bool \<Rightarrow> string \<Rightarrow> unit vstep" where
  "Verify E verifier author callID expected deltaHash pass finding =
    guarded (verifyLocked E verifier author callID expected deltaHash pass finding)"

section \<open>Current verdicts\<close>

record VerdictSummary =
  vs_VerifierKey :: agent_id
  vs_Pass :: bool
  vs_Finding :: string

definition verdictDescribesLocked :: "fs \<Rightarrow> agent_id \<Rightarrow> VerificationVerdict \<Rightarrow> bool" where
  "verdictDescribesLocked s key v =
    (case (map_of (s_bindings s) key, map_of (s_staged s) key) of
       (Some binding, Some d) \<Rightarrow> vv_WorkUnitID v = id_WorkUnitID binding \<and>
         vv_AttemptID v = id_AttemptID binding \<and> vv_Revision v = d_revision d
     | _ \<Rightarrow> False)"

definition verdict_current :: "env \<Rightarrow> fs \<Rightarrow> agent_id \<Rightarrow> VerificationVerdict \<Rightarrow> bool" where
  "verdict_current E s key v \<longleftrightarrow> vv_DeltaHash v = deltaHashLocked E s key \<and>
     invariantsVersionLocked E (f_disk s) (vv_Invariants v) = Inr (vv_InvariantsHash v) \<and>
     verdictDescribesLocked s key v"

definition currentVerdictsLocked :: "env \<Rightarrow> fs \<Rightarrow> agent_id \<Rightarrow> VerdictSummary list" where
  "currentVerdictsLocked E s key =
    (case map_of (s_staged s) key of
       None \<Rightarrow> []
     | Some d \<Rightarrow> concat (map (\<lambda>judge.
         case map_of (d_verdicts d) judge of
           None \<Rightarrow> []
         | Some v \<Rightarrow> if verdict_current E s key v
             then [\<lparr>vs_VerifierKey = judge, vs_Pass = vv_Pass v, vs_Finding = vv_Finding v\<rparr>]
             else []) (sorted_keys (d_verdicts d))))"

definition failingVerdictsLocked :: "env \<Rightarrow> fs \<Rightarrow> agent_id \<Rightarrow> verror list" where
  "failingVerdictsLocked E s key =
    (if list_ex (\<lambda>v. \<not> vs_Pass v) (currentVerdictsLocked E s key) then [ErrFailingVerdict] else [])"

definition consolidationAcceptedLocked :: "env \<Rightarrow> fs \<Rightarrow> agent_id \<Rightarrow> bool \<Rightarrow> verror list" where
  "consolidationAcceptedLocked E s key acceptFailing =
    (if acceptFailing then [] else failingVerdictsLocked E s key)"

definition maintenanceGateLocked :: "env \<Rightarrow> fs \<Rightarrow> agent_id \<Rightarrow> verror list" where
  "maintenanceGateLocked E s agent =
    (let current = currentVerdictsLocked E s agent
     in if current = [] then
          (if d_verdicts (delta_at s agent) \<noteq> [] then [ErrInvalidVerdict] else [ErrVerificationRequired])
        else if list_ex (\<lambda>v. \<not> vs_Pass v) current then [ErrVerificationRequired] else [])"

definition verdictRequiredLocked :: "fs \<Rightarrow> agent_id \<Rightarrow> bool" where
  "verdictRequiredLocked s agent \<longleftrightarrow> id_CycleID (bound s agent) \<noteq> []"

section \<open>What a judge has read\<close>

text \<open>
  \<open>recordJudgedLocked\<close> returns the paths the gate read under an earlier state of its author's work.
\<close>

definition judged_moved :: "Identity \<Rightarrow> 64 word \<Rightarrow> string \<Rightarrow> bool" where
  "judged_moved gate revision hash \<longleftrightarrow> id_JudgedHash gate \<noteq> hash \<or> id_JudgedRevision gate \<noteq> revision"

definition recordJudgedLocked ::
    "agent_id \<Rightarrow> 64 word \<Rightarrow> string \<Rightarrow> string \<Rightarrow> fs \<Rightarrow> string list \<times> fs" where
  "recordJudgedLocked key revision hash path s =
    (let gate = bound s key;
         moved = judged_moved gate revision hash;
         outdated = (if moved then filter (\<lambda>p. p \<noteq> path) (id_JudgedPaths gate) else []);
         paths = (if moved then [path]
                  else if path \<in> set (id_JudgedPaths gate) then id_JudgedPaths gate
                  else id_JudgedPaths gate @ [path])
     in (outdated, s\<lparr>s_bindings := mput key (gate\<lparr>id_JudgedPaths := paths,
           id_JudgedRevision := revision, id_JudgedHash := hash\<rparr>) (s_bindings s)\<rparr>))"

definition verifyJudgedLocked ::
    "env \<Rightarrow> agent_id \<Rightarrow> agent_id \<Rightarrow> string \<Rightarrow> bool \<Rightarrow> string \<Rightarrow> unit vstep" where
  "verifyJudgedLocked E gate author callID pass finding s =
    (let g = bound s gate
     in if id_JudgedHash g = [] \<or> id_JudgedRevision g \<noteq> revisionOf s author \<or>
           id_JudgedHash g \<noteq> deltaHashLocked E s author
        then (Inl [ErrInvalidVerdict], s)
        else verifyLocked E gate author callID (id_JudgedRevision g) (id_JudgedHash g) pass finding s)"

text \<open>The candidate a maintenance verifier is given, and its verdict (\<open>maintenance.go\<close>).\<close>

record StagedView =
  sv_Revision :: "64 word"
  sv_Hash :: string
  sv_Files :: "(string, string option) gomap"

definition viewLocked :: "env \<Rightarrow> fs \<Rightarrow> agent_id \<Rightarrow> StagedView" where
  "viewLocked E s key = \<lparr>sv_Revision = revisionOf s key, sv_Hash = deltaHashLocked E s key,
     sv_Files = d_files (delta_at s key)\<rparr>"

definition JudgeDelta :: "env \<Rightarrow> agent_id \<Rightarrow> agent_id \<Rightarrow> StagedView vstep" where
  "JudgeDelta E gate author s =
    (case map_of (s_bindings s) gate of
       None \<Rightarrow> (Inl [ErrIdentity], s)
     | Some b \<Rightarrow>
         if id_GateAuthorKey b \<noteq> author \<or> id_Superseded b then (Inl [ErrIdentity], s)
         else finishing (\<lambda>s. let view = viewLocked E s author
                in (Inr view, snd (recordJudgedLocked gate (sv_Revision view) (sv_Hash view) [] s))) s)"

definition VerifyJudgedDelta ::
    "env \<Rightarrow> agent_id \<Rightarrow> agent_id \<Rightarrow> string \<Rightarrow> bool \<Rightarrow> string \<Rightarrow> unit vstep" where
  "VerifyJudgedDelta E gate author callID pass evidence s =
    (case map_of (s_bindings s) gate of
       None \<Rightarrow> (Inl [ErrIdentity], s)
     | Some b \<Rightarrow>
         if id_GateAuthorKey b \<noteq> author then (Inl [ErrIdentity], s)
         else verifyJudgedLocked E gate author callID pass evidence s)"

end
