(* ===== verification/Vfs_Claims.thy ===== *)
theory Vfs_Claims
  imports Vfs_Verdict
begin

text \<open>
  Claims the orchestrator manages (\<open>claims.go\<close>, \<open>transfer.go\<close>): assigning a scope before the target
  starts, listing and releasing claims, and giving existing work a new scope or handing part of
  it over, with its staged bytes.
\<close>

section \<open>Assignment\<close>

definition overlaps :: "env \<Rightarrow> fs \<Rightarrow> string list \<Rightarrow> bool" where
  "overlaps E s scope = (\<exists>path \<in> set scope. \<exists>(claimed, _) \<in> set (s_owners s). e_fold E path claimed)"

definition assign_fresh :: "env \<Rightarrow> Identity \<Rightarrow> string list \<Rightarrow> agent_id vstep" where
  "assign_fresh E identity scope =
    xbind (xcheck (\<lambda>_. if id_Specialist identity = [] \<or> scope = [] then [ErrIdentity] else [])) (\<lambda>_.
    xbind (xread (\<lambda>_. instanceVFSCapabilities E (id_Specialist identity))) (\<lambda>(grants, _).
    xbind (xcheck (\<lambda>_. if CapVerify \<in> set grants then [ErrScopeDenied] else [])) (\<lambda>_.
    xbind (xread (\<lambda>s. bindableIdentity E s (identity\<lparr>id_Prelaunch := True\<rparr>) scope)) (\<lambda>i.
    xbind (xread (\<lambda>s. capture_bases E (f_disk s) scope)) (\<lambda>_.
    xbind (xcheck (admitReadsLocked E i)) (\<lambda>_.
    xbind (xcheck (guardReadersLocked i scope)) (\<lambda>_.
    xbind (xcheck (\<lambda>s. if overlaps E s scope then [ErrCollision] else [])) (\<lambda>_.
    claimLocked E i scope))))))))"

definition AssignScope :: "env \<Rightarrow> Identity \<Rightarrow> string list \<Rightarrow> agent_id vstep" where
  "AssignScope E identity scope = command (
    if \<not> completeIdentity identity then xfail [ErrIdentity]
    else let i = identity\<lparr>id_AttemptID := [], id_HostSession := []\<rparr> in
      xbind (xread (\<lambda>s. heldBindingLocked E s i scope)) (\<lambda>held.
      case held of Some key \<Rightarrow> xret key | None \<Rightarrow> assign_fresh E i scope))"

section \<open>Listing and release\<close>

record OwnershipClaim =
  oc_Key :: agent_id
  oc_AgentID :: agent_id
  oc_TargetInstance :: string
  oc_RootSessionID :: string
  oc_WorkUnitID :: string
  oc_Scope :: "string list"
  oc_AuthorKey :: agent_id
  oc_Active :: bool
  oc_Pending :: bool
  oc_Staged :: bool
  oc_Verdicts :: "VerdictSummary list"

definition listed_gate :: "fs \<Rightarrow> Identity \<Rightarrow> bool" where
  "listed_gate s i \<longleftrightarrow> \<not> id_Superseded i \<and> (id_Prelaunch i \<or>
     (id_GateAuthorKey i \<noteq> [] \<and> id_GateAuthorKey i \<in> set (map snd (s_owners s))))"

definition claim_keys :: "fs \<Rightarrow> agent_id list" where
  "claim_keys s = sort (remdups (map snd (s_owners s) @
     map fst (filter (\<lambda>(_, i). listed_gate s i) (s_bindings s))))"

definition OwnershipClaims :: "env \<Rightarrow> fs \<Rightarrow> string \<Rightarrow> OwnershipClaim list" where
  "OwnershipClaims E s currentSessionID = map (\<lambda>key.
     let i = bound s key
     in \<lparr>oc_Key = key, oc_AgentID = id_AgentID i, oc_TargetInstance = id_Specialist i,
         oc_RootSessionID = id_SessionID i, oc_WorkUnitID = id_WorkUnitID i,
         oc_Scope = sort (ownedScopeLocked s key), oc_AuthorKey = id_GateAuthorKey i,
         oc_Active = (id_SessionID i = currentSessionID \<and> \<not> id_Prelaunch i),
         oc_Pending = id_Prelaunch i, oc_Staged = stagedLocked s key,
         oc_Verdicts = currentVerdictsLocked E s key\<rparr>) (claim_keys s)"

definition revokeLocked :: "agent_id \<Rightarrow> unit vstep" where
  "revokeLocked key s =
    (case map_of (s_bindings s) key of
       None \<Rightarrow> (Inl [ErrIdentity], s)
     | Some identity \<Rightarrow>
         if stagedLocked s key then (Inl [ErrStagedWork], s)
         else (Inr (), releaseOwnershipLocked key (s\<lparr>s_bindings := mput key
                (identity\<lparr>id_Prelaunch := False, id_HostSession := []\<rparr>) (s_bindings s)\<rparr>)))"

definition RevokeOwnership :: "agent_id \<Rightarrow> unit vstep" where
  "RevokeOwnership key = command (revokeLocked key)"

section \<open>Hand-over and reassignment\<close>

definition checkClaimScope :: "env \<Rightarrow> string list \<Rightarrow> fs \<Rightarrow> verror list" where
  "checkClaimScope E scope s = first_err (\<lambda>requested.
     if validatePath E (f_disk s) requested \<noteq> [] then validatePath E (f_disk s) requested
     else if \<exists>(existing, _) \<in> set (s_owners s). e_fold E requested existing then [ErrCollision]
     else []) scope"

text \<open>One path's staged content or tombstone moves with its captured base.\<close>

definition transferStagedLocked :: "agentDelta \<Rightarrow> agentDelta \<Rightarrow> string \<Rightarrow> agentDelta \<times> agentDelta" where
  "transferStagedLocked from to path =
    (let (from1, to1) = (case map_of (d_files from) path of
            None \<Rightarrow> (from, to)
          | Some content \<Rightarrow> (from\<lparr>d_files := mdel path (d_files from)\<rparr>,
                             to\<lparr>d_files := mput path content (d_files to)\<rparr>))
     in case map_of (d_bases from1) path of
          None \<Rightarrow> (from1, to1)
        | Some base \<Rightarrow> (from1\<lparr>d_bases := mdel path (d_bases from1)\<rparr>,
                        to1\<lparr>d_bases := mput path base (d_bases to1)\<rparr>))"

definition hand_over_path :: "agent_id \<Rightarrow> agent_id \<Rightarrow> string \<Rightarrow> fs \<Rightarrow> fs" where
  "hand_over_path key new_key path s =
    (if map_of (s_owners s) path \<noteq> Some key then s
     else let (from, to) = transferStagedLocked (delta_at s key) (delta_at s new_key) path
          in (put_delta new_key to (put_delta key from s))\<lparr>s_owners := mput path new_key (s_owners s)\<rparr>)"

definition handOverLocked ::
    "env \<Rightarrow> Identity \<Rightarrow> agent_id \<Rightarrow> string list \<Rightarrow> string list \<Rightarrow> agent_id vstep" where
  "handOverLocked E identity key scope added =
    xbind (xcheck (checkClaimScope E added)) (\<lambda>_.
    xbind (xcheck (admitReadsLocked E identity)) (\<lambda>_.
    xbind (xcheck (guardReadersLocked identity added)) (\<lambda>_.
    xbind (xread (\<lambda>s. bindableIdentity E s
             (identity\<lparr>id_AttemptID := [], id_HostSession := [], id_Prelaunch := True\<rparr>) scope)) (\<lambda>i.
    xbind (claimLocked E i added) (\<lambda>new_key.
    xbind (xmod (\<lambda>s. fold (hand_over_path key new_key) scope
                        (ensureDelta new_key (ensureDelta key s)))) (\<lambda>_.
    xret new_key))))))"

definition retarget :: "Identity \<Rightarrow> string \<Rightarrow> string \<Rightarrow> Identity \<Rightarrow> Identity" where
  "retarget identity role hash held =
    held\<lparr>id_SessionID := id_SessionID identity, id_WorkUnitID := id_WorkUnitID identity,
      id_AgentID := id_AgentID identity, id_Specialist := id_Specialist identity, id_Role := role,
      id_AttemptID := [], id_Invariants := id_Invariants identity, id_InvariantsHash := hash,
      id_Prelaunch := True, id_HostSession := [], id_Reads := id_Reads identity\<rparr>"

definition rescope :: "agent_id \<Rightarrow> string list \<Rightarrow> string list \<Rightarrow> (string, baseFile) gomap \<Rightarrow> fs \<Rightarrow> fs" where
  "rescope key scope owned bases s =
    (let s1 = releaseOwnershipLocked key s;
         s2 = s1\<lparr>s_owners := own_paths key scope (s_owners s1)\<rparr>;
         d = delta_at s2 key;
         kept = fold mdel (filter (\<lambda>p. p \<notin> set scope) owned) (d_bases d)
     in put_delta key (d\<lparr>d_bases := mcopy kept bases, d_verdicts := []\<rparr>) s2)"

definition reassign_body :: "env \<Rightarrow> Identity \<Rightarrow> agent_id \<Rightarrow> string list \<Rightarrow> Identity \<Rightarrow> string \<Rightarrow> agent_id vstep" where
  "reassign_body E identity key scope held role =
    xbind (xcheck (\<lambda>s. if duplicateIdentity s identity key then [ErrIdentity] else [])) (\<lambda>_.
    xbind (xcheck (guardInspectionClaimLocked E identity key scope)) (\<lambda>_.
    xbind (xcheck (admitReadsLocked E identity)) (\<lambda>_.
    xbind (xcheck (guardReadersLocked identity scope)) (\<lambda>_.
    xbind (xget (\<lambda>s. (ownedScopeLocked s key, map_of (s_staged s) key))) (\<lambda>(owned, d).
    let added = filter (\<lambda>p. p \<notin> set owned) scope in
    if (case d of None \<Rightarrow> False | Some d \<Rightarrow> list_ex (\<lambda>p. p \<notin> set scope) (mkeys (d_files d)))
    then handOverLocked E identity key scope added
    else
      xbind (xread (\<lambda>s. capture_bases E (f_disk s) added)) (\<lambda>bases.
      xbind (xcheck (checkClaimScope E added)) (\<lambda>_.
      xbind (xread (\<lambda>s. invariantsVersionLocked E (f_disk s) (id_Invariants identity))) (\<lambda>hash.
      xbind (xmod (\<lambda>s. (ensureDelta key s)\<lparr>s_bindings := mput key (retarget identity role hash held)
                                             (s_bindings s)\<rparr>)) (\<lambda>_.
      xbind (xmod (rescope key scope owned bases)) (\<lambda>_.
      xret key))))))))))"

definition ReassignScope :: "env \<Rightarrow> Identity \<Rightarrow> agent_id \<Rightarrow> string list \<Rightarrow> agent_id vstep" where
  "ReassignScope E identity key scope = command (
    xbind (xread (\<lambda>s. case map_of (s_bindings s) key of
             None \<Rightarrow> Inl [ErrIdentity]
           | Some held \<Rightarrow> if id_GateAuthorKey held \<noteq> [] then Inl [ErrIdentity] else Inr held)) (\<lambda>held.
    xbind (xread (\<lambda>_. SpecialistRole E (id_Specialist identity))) (\<lambda>role.
    xbind (xcheck (\<lambda>_. if scope = [] \<or> \<not> completeIdentity identity then [ErrIdentity] else [])) (\<lambda>_.
    reassign_body E (identity\<lparr>id_AttemptID := [], id_HostSession := [], id_Prelaunch := True\<rparr>)
      key scope held role))))"

end
