(* ===== verification/Vfs_Flush.thy ===== *)
theory Vfs_Flush
  imports Vfs_Claims
begin

text \<open>
  Consolidation (\<open>recovery.go\<close>, \<open>consolidateLocked\<close>, \<open>ConsolidateCheckpoint\<close>): the plan of a flush,
  its durable intent, the replacement of each file, and the recovery of a flush that did not
  finish. Every commit and every system call that changes the workspace takes the next result of
  the schedule, so a run under a schedule is a run in which exactly those steps fail.
\<close>

section \<open>System calls\<close>

definition set_disk :: "(disk \<Rightarrow> disk) \<Rightarrow> fs \<Rightarrow> fs" where
  "set_disk g s = s\<lparr>f_disk := g (f_disk s)\<rparr>"

text \<open>One fallible call: a failure changes nothing.\<close>

definition syscall :: "'a vstep \<Rightarrow> 'a vstep" where
  "syscall m s = (case tick s of (Fail _, s1) \<Rightarrow> (Inl [ErrIO], s1) | (Fine, s1) \<Rightarrow> m s1)"

definition sync :: "unit vstep" where
  "sync = syscall (xret ())"

definition is_dir :: "fs \<Rightarrow> string \<Rightarrow> bool" where
  "is_dir s rel \<longleftrightarrow> lstat (f_disk s) rel = Some Dir"

definition syncParent :: "string \<Rightarrow> unit vstep" where
  "syncParent rel =
    xbind (xcheck (\<lambda>s. if is_dir s (path_dir rel) then [] else [ErrNotExist])) (\<lambda>_. sync)"

definition mkdir :: "string \<Rightarrow> unit vstep" where
  "mkdir dir = syscall (\<lambda>s.
     if lstat (f_disk s) dir \<noteq> None then (Inr (), s)
     else if \<not> is_dir s (path_dir dir) then (Inl [ErrNotExist], s)
     else (Inr (), set_disk (mput dir Dir) s))"

text \<open>\<open>openParent\<close> walks the directories above \<open>rel\<close> without following a link.\<close>

definition openParent :: "string \<Rightarrow> fs \<Rightarrow> verror list" where
  "openParent rel s =
    (if path_dir rel = ''.'' then []
     else let parts = path_parts (path_dir rel)
          in if \<forall>i \<in> set [1..<length parts + 1]. is_dir s (join_path (take i parts)) then []
             else [ErrNotExist])"

text \<open>\<open>os.Root.Remove\<close>: a directory must be empty; absence is the caller's to tolerate.\<close>

definition remove_entry :: "string \<Rightarrow> unit vstep" where
  "remove_entry rel = syscall (\<lambda>s.
     case lstat (f_disk s) rel of
       None \<Rightarrow> (Inl [ErrNotExist], s)
     | Some Dir \<Rightarrow> if disk_entries (f_disk s) rel \<noteq> [] then (Inl [ErrNotEmpty], s)
                   else (Inr (), set_disk (mdel rel) s)
     | Some _ \<Rightarrow> (Inr (), set_disk (mdel rel) s))"

definition removeIfPresentLocked :: "string \<Rightarrow> unit vstep" where
  "removeIfPresentLocked rel s =
    (case remove_entry rel s of
       (Inl e, s1) \<Rightarrow> if errs_is e ErrNotExist then (Inr (), s1) else (Inl e, s1)
     | (Inr _, s1) \<Rightarrow> syncParent rel s1)"

text \<open>\<open>removeLocked\<close>: \<open>unlinkat\<close> without \<open>AT_REMOVEDIR\<close>, then the directory's sync.\<close>

definition removeLocked :: "string \<Rightarrow> unit vstep" where
  "removeLocked rel =
    xbind (syscall (\<lambda>s. case lstat (f_disk s) rel of
        None \<Rightarrow> (Inr (), s)
      | Some Dir \<Rightarrow> (Inl [ErrIO], s)
      | Some _ \<Rightarrow> (Inr (), set_disk (mdel rel) s))) (\<lambda>_. sync)"

text \<open>
  \<open>writeLocked\<close>: exclusive creation of the sibling, its mode, content and sync (a failure leaves
  the bytes written so far), the rename over the target, and the directory's sync. The sibling's
  name is the manifest's, which \<open>tempName\<close> put into the target's directory.
\<close>

definition create_temp :: "string \<Rightarrow> nat \<Rightarrow> unit vstep" where
  "create_temp temp mode = syscall (\<lambda>s.
     if lstat (f_disk s) temp \<noteq> None then (Inl [ErrIO], s)
     else (Inr (), set_disk (mput temp (File [] mode 1)) s))"

definition fill_temp :: "string \<Rightarrow> baseFile \<Rightarrow> unit vstep" where
  "fill_temp temp value s =
    (case tick s of
       (Fail k, s1) \<Rightarrow>
         (Inl [ErrIO], set_disk (mput temp (File (take k (bf_Content value)) (bf_Mode value) 1)) s1)
     | (Fine, s1) \<Rightarrow> (Inr (), set_disk (mput temp (File (bf_Content value) (bf_Mode value) 1)) s1))"

definition rename_over :: "string \<Rightarrow> string \<Rightarrow> unit vstep" where
  "rename_over temp rel = syscall (\<lambda>s.
     case (lstat (f_disk s) temp, lstat (f_disk s) rel) of
       (Some n, Some Dir) \<Rightarrow> (Inl [ErrIO], s)
     | (Some n, _) \<Rightarrow> (Inr (), set_disk (\<lambda>d. mput rel n (mdel temp d)) s)
     | (None, _) \<Rightarrow> (Inl [ErrNotExist], s))"

definition writeLocked :: "string \<Rightarrow> string \<Rightarrow> baseFile \<Rightarrow> unit vstep" where
  "writeLocked rel temp value =
    xbind (create_temp temp (bf_Mode value)) (\<lambda>_.
    xbind (fill_temp temp value) (\<lambda>_.
    xbind (rename_over temp rel) (\<lambda>_. sync)))"

definition replaceLocked :: "env \<Rightarrow> string \<Rightarrow> string \<Rightarrow> baseFile \<Rightarrow> unit vstep" where
  "replaceLocked E rel temp value =
    xbind (xcheck (\<lambda>s. validatePath E (f_disk s) rel)) (\<lambda>_.
    xbind (xcheck (openParent rel)) (\<lambda>_.
    if bf_Present value then writeLocked rel temp value else removeLocked rel))"

section \<open>The flush\<close>

definition tag_errors :: "verror list \<Rightarrow> 'a vstep \<Rightarrow> 'a vstep" where
  "tag_errors t m s = (case m s of (Inl e, s1) \<Rightarrow> (Inl (t @ e), s1) | (Inr x, s1) \<Rightarrow> (Inr x, s1))"

definition partial_flush :: "'a vstep \<Rightarrow> 'a vstep" where
  "partial_flush = tag_errors [ErrFlushPartial]"

definition checkpointLocked :: "unit vstep" where
  "checkpointLocked s =
    (case persistLocked s of
       (e, s1) \<Rightarrow> if e \<noteq> [] then (Inl (ErrStoreFailed # e), s1\<lparr>f_fault := True\<rparr>) else (Inr (), s1))"

definition checkBase :: "env \<Rightarrow> string \<Rightarrow> baseFile \<Rightarrow> fs \<Rightarrow> verror list" where
  "checkBase E rel want s =
    (case physical E (f_disk s) rel of
       Inl e \<Rightarrow> ErrBaseChanged # e
     | Inr current \<Rightarrow> if sameFile E current want then [] else [ErrBaseChanged])"

definition tempName :: "env \<Rightarrow> string \<Rightarrow> string vstep" where
  "tempName E rel = xbind (randomID E) (\<lambda>r. xret (path_join (path_dir rel) (tempPrefix @ r)))"

text \<open>
  The directories above \<open>rel\<close>, nearest first: \<open>path.Dir\<close> shortens a valid path, so its length
  bounds the walk.
\<close>

definition noteMissingDirs :: "disk \<Rightarrow> string \<Rightarrow> string list \<Rightarrow> string list" where
  "noteMissingDirs d rel dirs = foldl (\<lambda>dirs dir.
     if lstat d dir = None \<and> dir \<notin> set dirs then dirs @ [dir] else dirs) dirs
     (dir_chain (length rel) (path_dir rel))"

definition flushed_file :: "baseFile \<Rightarrow> string option \<Rightarrow> baseFile" where
  "flushed_file prior content =
    (case content of
       None \<Rightarrow> no_file
     | Some c \<Rightarrow> \<lparr>bf_Content = c, bf_Present = True,
                   bf_Mode = (if bf_Present prior then bf_Mode prior else 420)\<rparr>)"

fun plan_items :: "env \<Rightarrow> agentDelta \<Rightarrow> string list \<Rightarrow> recoveryManifest \<Rightarrow> recoveryManifest vstep" where
  "plan_items E d [] m = xret m"
| "plan_items E d (rel # rels) m =
    xbind (\<lambda>s. (case physical E (f_disk s) rel of Inl _ \<Rightarrow> Inl [ErrFlushPartial] | Inr b \<Rightarrow> Inr b, s)) (\<lambda>prior.
    xbind (xcheck (\<lambda>_. case map_of (d_bases d) rel of
             None \<Rightarrow> []
           | Some original \<Rightarrow> if sameFile E original prior then [] else [ErrBaseChanged])) (\<lambda>_.
    xbind (tempName E rel) (\<lambda>temp.
    xbind (xget (\<lambda>s. noteMissingDirs (f_disk s) rel (rm_Dirs m))) (\<lambda>dirs.
    plan_items E d rels (m\<lparr>rm_Items := rm_Items m @
        [\<lparr>ri_Path = rel, ri_Temp = temp, ri_Before = prior,
          ri_After = flushed_file prior (mget None (d_files d) rel)\<rparr>], rm_Dirs := dirs\<rparr>)))))"

definition planFlush :: "env \<Rightarrow> agent_id \<Rightarrow> agentDelta \<Rightarrow> recoveryManifest vstep" where
  "planFlush E agent d =
    xbind (plan_items E d (sorted_keys (d_files d))
             \<lparr>rm_Agent = agent, rm_Items = [], rm_Intent = 0, rm_Dirs = []\<rparr>) (\<lambda>m.
    xret (m\<lparr>rm_Dirs := sort_key length (rm_Dirs m)\<rparr>))"

fun xfor :: "('a \<Rightarrow> unit vstep) \<Rightarrow> 'a list \<Rightarrow> unit vstep" where
  "xfor body [] = xret ()"
| "xfor body (x # xs) = xbind (body x) (\<lambda>_. xfor body xs)"

definition createDirs :: "string list \<Rightarrow> unit vstep" where
  "createDirs = xfor (\<lambda>dir. partial_flush (xbind (mkdir dir) (\<lambda>_. syncParent dir)))"

text \<open>The intent is committed before each replacement.\<close>

definition set_intent :: "nat \<Rightarrow> fs \<Rightarrow> fs" where
  "set_intent n s = s\<lparr>s_recovery := map_option (\<lambda>m. m\<lparr>rm_Intent := n\<rparr>) (s_recovery s)\<rparr>"

definition replace_item :: "env \<Rightarrow> nat \<times> recoveryItem \<Rightarrow> unit vstep" where
  "replace_item E ii = (case ii of (i, item) \<Rightarrow>
    xbind (xcheck (checkBase E (ri_Path item) (ri_Before item))) (\<lambda>_.
    xbind (xmod (set_intent (i + 1))) (\<lambda>_.
    xbind (partial_flush checkpointLocked) (\<lambda>_.
    xbind (partial_flush (replaceLocked E (ri_Path item) (ri_Temp item) (ri_After item))) (\<lambda>_.
    partial_flush checkpointLocked)))))"

definition replaceItems :: "env \<Rightarrow> recoveryItem list \<Rightarrow> unit vstep" where
  "replaceItems E items = xfor (replace_item E) (enumerate 0 items)"

text \<open>What a flush and a discard of a cycle do differently.\<close>

record flushHooks =
  fh_journalEntry :: "recoveryItem \<Rightarrow> JournalEntry"
  fh_postStep :: "recoveryManifest \<Rightarrow> unit vstep"

definition applyFlush :: "env \<Rightarrow> recoveryManifest \<Rightarrow> flushHooks \<Rightarrow> unit vstep" where
  "applyFlush E m h =
    xbind (xmod (\<lambda>s. s\<lparr>s_recovery := Some m\<rparr>)) (\<lambda>_.
    xbind (partial_flush checkpointLocked) (\<lambda>_.
    xbind (createDirs (rm_Dirs m)) (\<lambda>_.
    xbind (replaceItems E (rm_Items m)) (\<lambda>_.
    xbind (xfor (\<lambda>item. xcheck (checkBase E (ri_Path item) (ri_After item))) (rm_Items m)) (\<lambda>_.
    xbind (partial_flush checkpointLocked) (\<lambda>_.
    xbind (xfor (\<lambda>item. xmod (appendJournalLocked (fh_journalEntry h item))) (rm_Items m)) (\<lambda>_.
    xbind (fh_postStep h m) (\<lambda>_.
    xmod (\<lambda>s. s\<lparr>s_recovery := None\<rparr>)))))))))"

section \<open>What a maintenance cycle keeps of a flush\<close>

definition new_snapshot :: "string \<Rightarrow> cycleSnapshot" where
  "new_snapshot mandate = \<lparr>cs_MandateClass = mandate, cs_Agent = [], cs_Items = [], cs_Dirs = [],
     cs_Last = [], cs_Completed = False\<rparr>"

definition retain_item :: "nat \<Rightarrow> cycleSnapshot \<Rightarrow> recoveryItem \<Rightarrow> cycleSnapshot" where
  "retain_item at snap item =
    (let item' = (case map_of (cs_Items snap) (ri_Path item) of
                    None \<Rightarrow> item | Some prior \<Rightarrow> item\<lparr>ri_Before := ri_Before prior\<rparr>)
     in snap\<lparr>cs_Last := mput (ri_Path item) at (cs_Last snap),
             cs_Items := mput (ri_Path item) item' (cs_Items snap)\<rparr>)"

definition retainCycleLocked :: "agent_id \<Rightarrow> recoveryManifest \<Rightarrow> fs \<Rightarrow> fs" where
  "retainCycleLocked agent m s =
    (case map_of (s_bindings s) agent of
       None \<Rightarrow> s
     | Some i \<Rightarrow>
         if id_CycleID i = [] then s
         else let snap = mget (new_snapshot (id_MandateClass i)) (s_cycles s) (id_CycleID i);
                  snap1 = foldl (retain_item (length (s_journal s))) (snap\<lparr>cs_Agent := agent\<rparr>) (rm_Items m);
                  dirs = foldl (\<lambda>ds d. if d \<in> set ds then ds else ds @ [d]) (cs_Dirs snap1) (rm_Dirs m)
              in s\<lparr>s_cycles := mput (id_CycleID i)
                     (snap1\<lparr>cs_Dirs := sort_key length dirs\<rparr>) (s_cycles s)\<rparr>)"

section \<open>Consolidation\<close>

definition flush_entry :: "env \<Rightarrow> agent_id \<Rightarrow> recoveryItem \<Rightarrow> JournalEntry" where
  "flush_entry E agent item = (entry_for agent (ri_Path item) OpFlush)
     \<lparr>je_BeforeHash := hashOf E (bf_Content (ri_Before item)) (bf_Present (ri_Before item)),
      je_AfterHash := hashOf E (bf_Content (ri_After item)) (bf_Present (ri_After item))\<rparr>"

definition applyManifest :: "env \<Rightarrow> agent_id \<Rightarrow> recoveryManifest \<Rightarrow> unit vstep" where
  "applyManifest E agent m = applyFlush E m
     \<lparr>fh_journalEntry = flush_entry E agent, fh_postStep = (\<lambda>m. xmod (retainCycleLocked agent m))\<rparr>"

definition materializeLocked :: "env \<Rightarrow> agent_id \<Rightarrow> agentDelta \<Rightarrow> unit vstep" where
  "materializeLocked E agent d =
    xbind (xfor (\<lambda>(rel, base). xcheck (checkBase E rel base)) (d_bases d)) (\<lambda>_.
    xbind (planFlush E agent d) (\<lambda>m. applyManifest E agent m))"

definition drop_delta :: "agent_id \<Rightarrow> fs \<Rightarrow> fs" where
  "drop_delta key s = s\<lparr>s_staged := mdel key (s_staged s)\<rparr>"

definition consolidateLocked :: "env \<Rightarrow> agent_id \<Rightarrow> unit vstep" where
  "consolidateLocked E agent s =
    (case map_of (s_staged s) agent of
       None \<Rightarrow> (Inr (), s)
     | Some d \<Rightarrow>
         if \<exists>path \<in> set (mkeys (d_files d)). mget [] (s_owners s) path \<noteq> agent
         then (Inl [ErrScopeDenied], s)
         else if verdictRequiredLocked s agent \<and> maintenanceGateLocked E s agent \<noteq> []
         then (Inl (maintenanceGateLocked E s agent), s)
         else xbind (materializeLocked E agent d) (\<lambda>_.
              xmod (\<lambda>s. releaseOwnershipLocked agent (drop_delta agent s))) s)"

definition consolidateCheckpointLocked ::
    "env \<Rightarrow> agent_id \<Rightarrow> string \<Rightarrow> 64 word \<Rightarrow> bool \<Rightarrow> unit vstep" where
  "consolidateCheckpointLocked E key checkpoint expected acceptFailing s =
    (let label = (if blank checkpoint then key @ ''@'' @ show_nat (unat expected) else checkpoint)
     in if \<not> mhas (s_bindings s) key then (Inl [ErrIdentity], s)
        else if \<not> stagedLocked s key then (Inl [ErrNothingStaged], s)
        else if revisionOf s key \<noteq> expected then (Inl [ErrStaleRevision], s)
        else if \<not> verdictRequiredLocked s key \<and> consolidationAcceptedLocked E s key acceptFailing \<noteq> []
        then (Inl (consolidationAcceptedLocked E s key acceptFailing), s)
        else finishing (\<lambda>s0.
               case consolidateLocked E key s0 of
                 (r, s1) \<Rightarrow> (r, correlateLocked (length (s_journal s)) key key
                                  (''checkpoint/'' @ hashOf E label True) s1)) s)"

definition ConsolidateCheckpoint ::
    "env \<Rightarrow> agent_id \<Rightarrow> string \<Rightarrow> 64 word \<Rightarrow> bool \<Rightarrow> unit vstep" where
  "ConsolidateCheckpoint E key checkpoint expected acceptFailing =
    guarded (consolidateCheckpointLocked E key checkpoint expected acceptFailing)"

section \<open>Recovery\<close>

definition checkTouched :: "env \<Rightarrow> recoveryItem list \<Rightarrow> fs \<Rightarrow> verror list" where
  "checkTouched E items s = first_err (\<lambda>item.
     case physical E (f_disk s) (ri_Path item) of
       Inl e \<Rightarrow> e
     | Inr current \<Rightarrow>
         if \<not> sameFile E current (ri_Before item) \<and> \<not> sameFile E current (ri_After item)
         then [ErrBaseChanged] else []) items"

definition set_temp :: "string \<Rightarrow> string \<Rightarrow> fs \<Rightarrow> fs" where
  "set_temp rel temp s = s\<lparr>s_recovery := map_option (\<lambda>m. m\<lparr>rm_Items :=
     map (\<lambda>item. if ri_Path item = rel then item\<lparr>ri_Temp := temp\<rparr> else item) (rm_Items m)\<rparr>)
     (s_recovery s)\<rparr>"

definition rewriteOriginal :: "env \<Rightarrow> recoveryItem \<Rightarrow> unit vstep" where
  "rewriteOriginal E item =
    xbind (tempName E (ri_Path item)) (\<lambda>temp.
    xbind (removeIfPresentLocked (ri_Temp item)) (\<lambda>_.
    xbind (xmod (set_temp (ri_Path item) temp)) (\<lambda>_.
    xbind checkpointLocked (\<lambda>_.
    replaceLocked E (ri_Path item) temp (ri_Before item)))))"

definition restoreItem :: "env \<Rightarrow> recoveryItem \<Rightarrow> unit vstep" where
  "restoreItem E item =
    xbind (xread (\<lambda>s. physical E (f_disk s) (ri_Path item))) (\<lambda>current.
    xbind (if sameFile E current (ri_Before item) then xret () else rewriteOriginal E item) (\<lambda>_.
    xbind (xcheck (\<lambda>s. case physical E (f_disk s) (ri_Path item) of
             Inl e \<Rightarrow> ErrRecoveryRequired # e
           | Inr restored \<Rightarrow> if sameFile E restored (ri_Before item) then [] else [ErrRecoveryRequired])) (\<lambda>_.
    checkpointLocked)))"

definition removeLeftovers :: "unit vstep" where
  "removeLeftovers s =
    (case s_recovery s of
       None \<Rightarrow> (Inr (), s)
     | Some m \<Rightarrow> xbind (xfor (\<lambda>item. removeIfPresentLocked (ri_Temp item)) (rm_Items m)) (\<lambda>_.
                 xfor removeIfPresentLocked (rev (rm_Dirs m))) s)"

definition recovery_entry :: "agent_id \<Rightarrow> string \<Rightarrow> JournalEntry" where
  "recovery_entry agent outcome = (entry_for agent [] OpRecovery)\<lparr>je_Outcome := outcome\<rparr>"

definition recoverLocked :: "env \<Rightarrow> unit vstep" where
  "recoverLocked E s =
    (if f_fault s then (Inl [ErrStoreFailed], s)
     else case s_recovery s of
       None \<Rightarrow> (Inr (), s)
     | Some m \<Rightarrow>
         let touched = take (rm_Intent m) (rm_Items m) in
         xbind (xcheck (checkTouched E touched)) (\<lambda>_.
         xbind (xfor (restoreItem E) touched) (\<lambda>_.
         xbind removeLeftovers (\<lambda>_.
         finishing (xmod (\<lambda>s. appendJournalLocked (recovery_entry (rm_Agent m) ''restored'')
                                (s\<lparr>s_recovery := None\<rparr>)))))) s)"

definition Recover :: "env \<Rightarrow> unit vstep" where
  "Recover = recoverLocked"

end
