(* ===== verification/Vfs_Cycle.thy ===== *)
theory Vfs_Cycle
  imports Vfs_Flush
begin

text \<open>
  Maintenance cycles (\<open>cycle.go\<close>, \<open>maintenance.go\<close>), the barrier document (\<open>gc_state.go\<close>) and the
  approved repair of a flush or cycle that cannot be undone (\<open>repair.go\<close>).
\<close>

section \<open>Completing and discarding a cycle\<close>

definition CompleteCycle :: "string \<Rightarrow> unit vstep" where
  "CompleteCycle cycle = command (xmod (\<lambda>s.
     case map_of (s_cycles s) cycle of
       None \<Rightarrow> s
     | Some snap \<Rightarrow> s\<lparr>s_cycles := mput cycle (snap\<lparr>cs_Completed := True\<rparr>) (s_cycles s)\<rparr>))"

definition ConsolidatedBy :: "fs \<Rightarrow> string \<Rightarrow> (string \<times> string) option" where
  "ConsolidatedBy = consolidatedByLocked"

text \<open>Undoing a cycle is flushing its reverse: what it left is checked, what it found is written.\<close>

fun plan_discard_items ::
    "env \<Rightarrow> cycleSnapshot \<Rightarrow> string list \<Rightarrow> recoveryManifest \<Rightarrow> recoveryManifest vstep" where
  "plan_discard_items E snap [] m = xret m"
| "plan_discard_items E snap (rel # rels) m =
    (case map_of (cs_Items snap) rel of
       None \<Rightarrow> plan_discard_items E snap rels m
     | Some item \<Rightarrow>
         xbind (tag_errors [ErrCycleDiverged] (xcheck (checkBase E rel (ri_After item)))) (\<lambda>_.
         xbind (tempName E rel) (\<lambda>temp.
         xbind (xget (\<lambda>s. if bf_Present (ri_Before item)
                            then noteMissingDirs (f_disk s) rel (rm_Dirs m) else rm_Dirs m)) (\<lambda>dirs.
         plan_discard_items E snap rels (m\<lparr>rm_Items := rm_Items m @
           [\<lparr>ri_Path = rel, ri_Temp = temp, ri_Before = ri_After item,
             ri_After = ri_Before item\<rparr>], rm_Dirs := dirs\<rparr>)))))"

definition planDiscard :: "env \<Rightarrow> cycleSnapshot \<Rightarrow> (recoveryManifest \<times> string list) vstep" where
  "planDiscard E snap =
    xbind (plan_discard_items E snap (sorted_keys (cs_Items snap))
             \<lparr>rm_Agent = cs_Agent snap, rm_Items = [], rm_Intent = 0, rm_Dirs = []\<rparr>) (\<lambda>m.
    xret (m\<lparr>rm_Dirs := sort_key length (rm_Dirs m)\<rparr>, map ri_Path (rm_Items m)))"

definition tolerate :: "verror \<Rightarrow> unit vstep \<Rightarrow> unit vstep" where
  "tolerate ok m s = (case m s of
     (Inl e, s1) \<Rightarrow> if errs_is e ok then (Inr (), s1) else (Inl e, s1)
   | (Inr x, s1) \<Rightarrow> (Inr x, s1))"

definition cleanupCycleLocked :: "cycleSnapshot \<Rightarrow> recoveryManifest \<Rightarrow> unit vstep" where
  "cleanupCycleLocked snap m =
    xbind (xfor (\<lambda>item. removeIfPresentLocked (ri_Temp item)) (rm_Items m)) (\<lambda>_.
    xfor (\<lambda>dir. tolerate ErrNotEmpty (removeIfPresentLocked dir)) (rev (cs_Dirs snap)))"

definition discard_entry :: "env \<Rightarrow> cycleSnapshot \<Rightarrow> string \<Rightarrow> recoveryItem \<Rightarrow> JournalEntry" where
  "discard_entry E snap cycle item = (flush_entry E (cs_Agent snap) item)
     \<lparr>je_Outcome := ''discarded'', je_CycleID := cycle, je_MandateClass := cs_MandateClass snap\<rparr>"

definition applyDiscard :: "env \<Rightarrow> cycleSnapshot \<Rightarrow> string \<Rightarrow> recoveryManifest \<Rightarrow> unit vstep" where
  "applyDiscard E snap cycle m = applyFlush E m
     \<lparr>fh_journalEntry = discard_entry E snap cycle, fh_postStep = cleanupCycleLocked snap\<rparr>"

definition DiscardCycle :: "env \<Rightarrow> string \<Rightarrow> string list vstep" where
  "DiscardCycle E cycle = command (
    xbind (xread (\<lambda>s. case map_of (s_cycles s) cycle of
             None \<Rightarrow> Inl [ErrUnknownCycle]
           | Some snap \<Rightarrow> if cs_Completed snap then Inl [ErrUnknownCycle] else Inr snap)) (\<lambda>snap.
    xbind (planDiscard E snap) (\<lambda>(m, restored).
    xbind (applyDiscard E snap cycle m) (\<lambda>_.
    xbind (xmod (\<lambda>s. s\<lparr>s_cycles := mdel cycle (s_cycles s)\<rparr>)) (\<lambda>_.
    xret restored)))))"

section \<open>Staging of a cycle\<close>

definition cycle_keys :: "fs \<Rightarrow> string \<Rightarrow> agent_id list" where
  "cycle_keys s cycle = sort (map fst (filter (\<lambda>(_, i). id_CycleID i = cycle) (s_bindings s)))"

definition drop_binding :: "env \<Rightarrow> agent_id \<Rightarrow> fs \<Rightarrow> fs" where
  "drop_binding E key s =
    (let s1 = rollbackLocked E key s
     in s1\<lparr>s_bindings := mdel key (s_bindings s1), s_staged := mdel key (s_staged s1)\<rparr>)"

definition DropCycleStaging :: "env \<Rightarrow> string \<Rightarrow> unit vstep" where
  "DropCycleStaging E cycle = command (xmod (\<lambda>s. fold (drop_binding E) (cycle_keys s cycle) s))"

definition PendingOrdinaryDeltas :: "fs \<Rightarrow> int" where
  "PendingOrdinaryDeltas s = int (length (filter (\<lambda>(key, d).
     id_CycleID (bound s key) = [] \<and> d_files d \<noteq> []) (s_staged s)))"

definition InspectDelta :: "env \<Rightarrow> fs \<Rightarrow> agent_id \<Rightarrow> StagedView" where
  "InspectDelta = viewLocked"

text \<open>The last matching binding in the order of the map, as the loops leave it.\<close>

definition CycleKeys :: "fs \<Rightarrow> string \<Rightarrow> agent_id \<times> agent_id" where
  "CycleKeys s cycle =
    (let author = foldl (\<lambda>acc (key, b). if id_CycleID b = cycle \<and> id_GateAuthorKey b = [] then key else acc)
                    [] (s_bindings s);
         verifier = foldl (\<lambda>acc (key, b). if author \<noteq> [] \<and> id_CycleID b = cycle \<and>
                              id_GateAuthorKey b = author \<and> \<not> id_Superseded b then key else acc)
                    [] (s_bindings s)
     in (author, verifier))"

section \<open>The barrier document\<close>

text \<open>\<open>None\<close> is text that is not JSON.\<close>

definition SetMaintenance :: "maintenance option \<Rightarrow> unit vstep" where
  "SetMaintenance doc = guarded (case doc of
     None \<Rightarrow> xfail [ErrOther]
   | Some m \<Rightarrow> finishing (xmod (\<lambda>s. s\<lparr>s_maintenance := m\<rparr>)))"

definition guard_mutation :: "fs \<Rightarrow> Identity \<Rightarrow> agent_id \<Rightarrow> string \<Rightarrow> string \<Rightarrow> string \<Rightarrow> string \<Rightarrow> verror list" where
  "guard_mutation s b key phase command_name action path =
    (if command_name = ''verify'' \<or> command_name = ''consolidate'' then [ErrOther]
     else if command_name = ''op'' \<or> command_name = ''shell-prepare'' then
       (if action = ''read'' then []
        else if phase \<noteq> ''collect'' then [ErrOther]
        else let author = (if id_GateAuthorKey b \<noteq> [] then id_GateAuthorKey b else key)
             in if command_name = ''op'' \<and> path \<notin> set (ownedScopeLocked s author) then [ErrOther] else [])
     else [])"

definition guardMaintenanceLocked ::
    "fs \<Rightarrow> string \<Rightarrow> string \<Rightarrow> string \<Rightarrow> string \<Rightarrow> agent_id \<Rightarrow> verror list" where
  "guardMaintenanceLocked s command_name attempt action path key =
    (if s_maintenance s = Malformed then [ErrOther]
     else if command_name = ''bind'' \<and> s_maintenance s \<noteq> NoCycle \<and> attempt = [] then [ErrOther]
     else case map_of (s_bindings s) key of
       None \<Rightarrow> []
     | Some b \<Rightarrow>
         if id_CycleID b = [] then []
         else case s_maintenance s of
           InCycle cycle phase \<Rightarrow>
             if cycle \<noteq> id_CycleID b then [ErrOther]
             else guard_mutation s b key phase command_name action path
         | _ \<Rightarrow> [ErrOther])"

section \<open>Repair\<close>

record Repair =
  rp_Kind :: string
  rp_ID :: string
  rp_Author :: agent_id
  rp_Paths :: "string list"
  rp_State :: string
  rp_Preserve :: bool

record RepairApproval =
  ra_Kind :: string
  ra_ID :: string
  ra_State :: string
  ra_Preserve :: bool

fun inspect_paths :: "env \<Rightarrow> disk \<Rightarrow> string list \<Rightarrow> (string, baseFile) gomap \<Rightarrow> (string, baseFile) gomap vres" where
  "inspect_paths E d [] acc = Inr acc"
| "inspect_paths E d (p # ps) acc =
    and_then (physical E d p) (\<lambda>b. inspect_paths E d ps (mput p b acc))"

definition repairEvidenceLocked ::
    "env \<Rightarrow> fs \<Rightarrow> recoveryManifest option \<Rightarrow> cycleSnapshot option \<Rightarrow> agent_id list \<Rightarrow> string list \<Rightarrow>
     interruptedEvidence vres" where
  "repairEvidenceLocked E s manifest cycle authors paths =
    and_then (inspect_paths E (f_disk s) paths []) (\<lambda>physical_now.
      Inr \<lparr>ie_Manifest = manifest, ie_Cycle = cycle, ie_Physical = physical_now,
           ie_Bindings = map (\<lambda>k. (k, bound s k)) authors,
           ie_Deltas = map (\<lambda>k. (k, delta_at s k)) (filter (mhas (s_staged s)) authors)\<rparr>)"

definition item_diverged :: "env \<Rightarrow> interruptedEvidence \<Rightarrow> recoveryItem \<Rightarrow> bool" where
  "item_diverged E e item \<longleftrightarrow>
    (let current = mget no_file (ie_Physical e) (ri_Path item)
     in \<not> sameFile E current (ri_Before item) \<and> \<not> sameFile E current (ri_After item))"

definition recoveryRepairLocked :: "env \<Rightarrow> fs \<Rightarrow> (Repair \<times> interruptedEvidence) option vres" where
  "recoveryRepairLocked E s =
    (case s_recovery s of
       None \<Rightarrow> Inr None
     | Some m \<Rightarrow>
         let paths = sort (map ri_Path (rm_Items m)) in
         and_then (repairEvidenceLocked E s (Some m) None [rm_Agent m] paths) (\<lambda>e.
           Inr (Some (\<lparr>rp_Kind = ''manifest'', rp_ID = e_manifest_hash E m, rp_Author = rm_Agent m,
             rp_Paths = paths, rp_State = e_evidence_hash E e None,
             rp_Preserve = list_ex (item_diverged E e) (take (rm_Intent m) (rm_Items m))\<rparr>, e))))"

definition RecoveryRepair :: "env \<Rightarrow> fs \<Rightarrow> Repair option vres" where
  "RecoveryRepair E s = and_then (recoveryRepairLocked E s) (\<lambda>r. Inr (map_option fst r))"

definition RepairRecovery :: "env \<Rightarrow> RepairApproval \<Rightarrow> unit vstep" where
  "RepairRecovery E a s =
    (if f_fault s then (Inl [ErrStoreFailed], s)
     else case recoveryRepairLocked E s of
       Inl e \<Rightarrow> (Inl e, s)
     | Inr None \<Rightarrow> (Inl [ErrOther], s)
     | Inr (Some (r, evidence)) \<Rightarrow>
         if ra_Kind a \<noteq> ''manifest'' \<or> rp_ID r \<noteq> ra_ID a \<or> rp_State r \<noteq> ra_State a \<or>
            rp_Preserve r \<noteq> ra_Preserve a
         then (Inl [ErrOther], s)
         else if \<not> rp_Preserve r then recoverLocked E s
         else finishing (xmod (\<lambda>s.
                appendJournalLocked (recovery_entry (rp_Author r) ''interrupted'')
                  (s\<lparr>s_interrupted := mput (''manifest/'' @ rp_ID r) evidence (s_interrupted s),
                     s_recovery := None\<rparr>))) s)"

definition cycleRepairLocked ::
    "env \<Rightarrow> fs \<Rightarrow> string \<Rightarrow> string \<Rightarrow> (Repair \<times> interruptedEvidence) vres" where
  "cycleRepairLocked E s cycle state =
    (case map_of (s_cycles s) cycle of
       None \<Rightarrow> Inl [ErrUnknownCycle]
     | Some snap \<Rightarrow>
         if cs_Completed snap then Inl [ErrUnknownCycle]
         else let authors = cycle_keys s cycle;
                  paths = sort (remdups (mkeys (cs_Items snap) @ concat (map (ownedScopeLocked s) authors)))
              in and_then (repairEvidenceLocked E s None (Some snap) authors paths) (\<lambda>e.
                   Inr (\<lparr>rp_Kind = ''cycle'', rp_ID = cycle, rp_Author = cs_Agent snap,
                         rp_Paths = paths, rp_State = e_evidence_hash E e (Some state),
                         rp_Preserve = True\<rparr>, e)))"

definition PreserveInterruptedCycle :: "env \<Rightarrow> string \<Rightarrow> string \<Rightarrow> RepairApproval \<Rightarrow> unit vstep" where
  "PreserveInterruptedCycle E cycle state a = guarded (
    xbind (xread (\<lambda>s. cycleRepairLocked E s cycle state)) (\<lambda>(r, evidence).
    xbind (xcheck (\<lambda>_. if ra_Kind a \<noteq> ''cycle'' \<or> ra_ID a \<noteq> rp_ID r \<or> ra_State a \<noteq> rp_State r \<or>
                          \<not> ra_Preserve a then [ErrOther] else [])) (\<lambda>_.
    xbind (xget (\<lambda>s. mget (new_snapshot []) (s_cycles s) cycle)) (\<lambda>snap.
    (\<lambda>s. case planDiscard E snap s of
       (Inr _, s1) \<Rightarrow> (Inl [ErrOther], s1)
     | (Inl e, s1) \<Rightarrow>
         if \<not> errs_is e ErrCycleDiverged then (Inl [ErrOther], s1)
         else finishing (xmod (\<lambda>s.
                appendJournalLocked ((recovery_entry (rp_Author r) ''interrupted'')\<lparr>je_CycleID := cycle\<rparr>)
                  (s\<lparr>s_interrupted := mput (''cycle/'' @ cycle) evidence (s_interrupted s),
                     s_cycles := mdel cycle (s_cycles s)\<rparr>))) s1)))))"

definition CycleInterrupted :: "fs \<Rightarrow> string \<Rightarrow> bool" where
  "CycleInterrupted s cycle = mhas (s_interrupted s) (''cycle/'' @ cycle)"

end
