(* ===== verification/Vfs_Caller.thy ===== *)
theory Vfs_Caller
  imports Vfs_Cycle
begin

text \<open>
  The commands that serve a harness-delivered caller (\<open>caller.go\<close>, \<open>execution.go\<close>): each resolves
  which binding the caller holds, authorizes against it and acts in the same transaction.
\<close>

section \<open>Who is calling\<close>

definition caller_mismatch :: "Caller \<Rightarrow> execution \<Rightarrow> bool" where
  "caller_mismatch c d \<longleftrightarrow>
     (c_Dispatch c \<noteq> [] \<and> c_Dispatch c \<noteq> x_Dispatch d) \<or>
     (c_AttemptID c \<noteq> [] \<and> c_AttemptID c \<noteq> x_Attempt d) \<or> c_SessionID c \<noteq> x_Root d \<or>
     (c_WorkUnitID c \<noteq> [] \<and> c_WorkUnitID c \<noteq> x_Unit d)"

definition unit_runs :: "projection \<Rightarrow> execution \<Rightarrow> bool" where
  "unit_runs p d \<longleftrightarrow>
    (let u = unit_at p (x_Root d) (x_Unit d)
     in u_State u = StateInFlight \<and> u_AttemptID u = x_Attempt d \<and> u_Dispatch u = x_Dispatch d \<and>
        u_Agent u = x_Agent d)"

definition currentCallerLocked :: "Caller \<Rightarrow> bool \<Rightarrow> fs \<Rightarrow> Caller vres" where
  "currentCallerLocked c required s =
    (if c_Agent c = OrchestratorInstance \<and> c_HostSession c = c_SessionID c then Inr c
     else and_then (f_history s) (\<lambda>p.
       case ExecutionForChild p (c_HostSession c) (c_Agent c) of
         None \<Rightarrow> if required then Inl [ErrNoAdmission]
                 else Inr (c\<lparr>c_AttemptID := [], c_WorkUnitID := []\<rparr>)
       | Some d \<Rightarrow>
           if x_Terminated d then
             (if required then Inl [ErrNoAdmission]
              else Inr (c\<lparr>c_AttemptID := [], c_WorkUnitID := []\<rparr>))
           else if caller_mismatch c d then Inl [ErrIdentity]
           else if x_Cycle d = [] \<and> \<not> x_Ready d then Inl [ErrOther]
           else if x_Cycle d = [] \<and> \<not> unit_runs p d then Inl [ErrNoAdmission]
           else Inr (c\<lparr>c_WorkUnitID := x_Unit d, c_AttemptID := x_Attempt d,
                       c_Dispatch := x_Dispatch d\<rparr>)))"

definition holds :: "Caller \<Rightarrow> Identity \<Rightarrow> bool" where
  "holds c b \<longleftrightarrow> c_HostSession c \<noteq> [] \<and> id_HostSession b = c_HostSession c \<and>
     id_SessionID b = c_SessionID c \<and> id_AgentID b = c_Agent c \<and>
     id_WorkUnitID b = c_WorkUnitID c \<and> id_AttemptID b = c_AttemptID c \<and> \<not> id_Prelaunch b"

definition heldLocked :: "fs \<Rightarrow> Caller \<Rightarrow> bool \<Rightarrow> bool \<Rightarrow> agent_id list" where
  "heldLocked s c gates superseded =
    filter (\<lambda>key. let b = bound s key
                  in holds c b \<and> ((id_GateAuthorKey b \<noteq> []) = gates) \<and> (superseded \<or> \<not> id_Superseded b))
      (sorted_keys (s_bindings s))"

definition heldAuthorLocked :: "fs \<Rightarrow> Caller \<Rightarrow> agent_id \<Rightarrow> agent_id vres" where
  "heldAuthorLocked s c named =
    (let authors = heldLocked s c False False in
     if named \<noteq> [] then (if named \<in> set authors then Inr named else Inl [ErrIdentity])
     else case authors of [a] \<Rightarrow> Inr a | _ \<Rightarrow> Inl [ErrIdentity])"

definition heldGateLocked :: "fs \<Rightarrow> Caller \<Rightarrow> agent_id \<Rightarrow> string \<Rightarrow> agent_id vres" where
  "heldGateLocked s c named path =
    (let gates = heldLocked s c True False;
         over = (\<lambda>author. find (\<lambda>g. id_GateAuthorKey (bound s g) = author) gates)
     in if named \<noteq> [] then (case over named of Some g \<Rightarrow> Inr g | None \<Rightarrow> Inl [ErrIdentity])
        else let owner = mget [] (s_owners s) path
             in case (if owner = [] then None else over owner) of
                  Some g \<Rightarrow> Inr g | None \<Rightarrow> Inr (hd gates))"

definition resolveLocked :: "fs \<Rightarrow> Caller \<Rightarrow> agent_id \<Rightarrow> string \<Rightarrow> bool \<Rightarrow> (agent_id \<times> agent_id) vres" where
  "resolveLocked s c0 named path read =
    and_then (currentCallerLocked c0 False s) (\<lambda>c.
      if read \<and> heldLocked s c True False \<noteq> [] \<and>
         (named = [] \<or> named \<notin> set (heldLocked s c False False))
      then and_then (heldGateLocked s c named path) (\<lambda>key. Inr (key, id_GateAuthorKey (bound s key)))
      else and_then (heldAuthorLocked s c named) (\<lambda>key. Inr (key, key)))"

section \<open>Binding and adopting gates\<close>

definition bindHeldLocked :: "env \<Rightarrow> Caller \<Rightarrow> Identity \<Rightarrow> string list \<Rightarrow> agent_id vstep" where
  "bindHeldLocked E c identity scope =
    xbind (adoptPrelaunchLocked E identity scope) (\<lambda>adopted.
    case adopted of
      Some key \<Rightarrow> xret key
    | None \<Rightarrow>
        xbind (xget (\<lambda>s. find (\<lambda>key. holds c (bound s key) \<and> id_GateAuthorKey (bound s key) = [])
                            (sorted_keys (s_bindings s)))) (\<lambda>held.
        case held of
          None \<Rightarrow> bindLocked E identity scope
        | Some key \<Rightarrow>
            xbind (xcheck (\<lambda>s. if scope \<noteq> [] \<and> \<not> sameScope (ownedScopeLocked s key) scope
                               then [ErrScopeDenied] else [])) (\<lambda>_. xret key)))"

record BindResult =
  br_Key :: agent_id
  br_AttemptID :: string
  br_InvariantsVersion :: string
  br_Staged :: bool
  br_Revision :: "64 word"
  br_DeltaHash :: string

definition bind_result :: "env \<Rightarrow> fs \<Rightarrow> agent_id \<Rightarrow> BindResult" where
  "bind_result E s key =
    (let staged = stagedLocked s key
     in \<lparr>br_Key = key, br_AttemptID = id_AttemptID (bound s key),
         br_InvariantsVersion = id_InvariantsHash (bound s key), br_Staged = staged,
         br_Revision = (if staged then revisionOf s key else 0),
         br_DeltaHash = (if staged then deltaHashLocked E s key else [])\<rparr>)"

definition caller_identity :: "Caller \<Rightarrow> string list \<Rightarrow> Identity" where
  "caller_identity c invariants = no_identity\<lparr>id_SessionID := c_SessionID c,
     id_WorkUnitID := c_WorkUnitID c, id_AttemptID := c_AttemptID c, id_AgentID := c_Agent c,
     id_Specialist := c_Agent c, id_Invariants := invariants, id_HostSession := c_HostSession c\<rparr>"

definition BindAs :: "env \<Rightarrow> Caller \<Rightarrow> string list \<Rightarrow> string list \<Rightarrow> BindResult vstep" where
  "BindAs E c0 scope invariants = command (
    xbind (xread (currentCallerLocked c0 True)) (\<lambda>c.
    xbind (xcheck (\<lambda>s. guardMaintenanceLocked s ''bind'' (c_AttemptID c) [] [] [])) (\<lambda>_.
    xbind (bindHeldLocked E c (caller_identity c invariants) scope) (\<lambda>key.
    xget (\<lambda>s. bind_result E s key)))))"

record AdoptedGate =
  ag_Key :: agent_id
  ag_AuthorKey :: agent_id
  ag_Scope :: "string list"
  ag_Error :: "verror list"

definition adoptGateLocked :: "env \<Rightarrow> agent_id \<Rightarrow> Caller \<Rightarrow> string \<Rightarrow> unit vstep" where
  "adoptGateLocked E key c attempt s =
    (let gate = bound s key;
         gate' = (if id_CycleID gate = [] then gate\<lparr>id_AttemptID := attempt\<rparr> else gate)
     in if id_CycleID gate = [] \<and>
           (attempt = [] \<or> (id_AttemptID gate \<noteq> [] \<and> id_AttemptID gate \<noteq> attempt))
        then (Inl [ErrNoAdmission], s)
        else if requireAdoptionGrantsLocked E s gate' \<noteq> []
        then (Inl (requireAdoptionGrantsLocked E s gate'), s)
        else (Inr (), s\<lparr>s_bindings := mput key
               (gate'\<lparr>id_Prelaunch := False, id_HostSession := c_HostSession c\<rparr>) (s_bindings s)\<rparr>))"

definition adopt_one :: "env \<Rightarrow> Caller \<Rightarrow> agent_id \<Rightarrow> AdoptedGate list \<times> fs \<Rightarrow> AdoptedGate list \<times> fs" where
  "adopt_one E c key acc = (case acc of (gates, s) \<Rightarrow>
    let gate = bound s key;
        entry = \<lparr>ag_Key = key, ag_AuthorKey = id_GateAuthorKey gate,
                 ag_Scope = sort (ownedScopeLocked s (id_GateAuthorKey gate)), ag_Error = []\<rparr>
    in if id_GateAuthorKey gate = [] \<or> id_Superseded gate \<or> id_SessionID gate \<noteq> c_SessionID c \<or>
          id_AgentID gate \<noteq> c_Agent c then (gates, s)
       else if \<not> id_Prelaunch gate then (if holds c gate then gates @ [entry] else gates, s)
       else if id_WorkUnitID gate \<noteq> c_WorkUnitID c then (gates, s)
       else case adoptGateLocked E key c (c_AttemptID c) s of
         (r, s1) \<Rightarrow> (gates @ [entry\<lparr>ag_Error := err_of r\<rparr>], s1))"

definition AdoptGates :: "env \<Rightarrow> Caller \<Rightarrow> AdoptedGate list vstep" where
  "AdoptGates E c0 = command (
    xbind (xread (currentCallerLocked c0 True)) (\<lambda>c.
    (\<lambda>s. case fold (adopt_one E c) (sorted_keys (s_bindings s)) ([], s) of (gates, s1) \<Rightarrow> (Inr gates, s1))))"

section \<open>Operating and judging\<close>

record CallerOperation =
  co_CallID :: string
  co_Action :: OperationType
  co_Path :: string
  co_Content :: "string option"
  co_AuthorKey :: agent_id

definition operate_action :: "OperationType \<Rightarrow> string" where
  "operate_action a = (case a of OpRead \<Rightarrow> ''read'' | OpCreate \<Rightarrow> ''create'' | OpPatch \<Rightarrow> ''patch''
     | OpDelete \<Rightarrow> ''delete'' | _ \<Rightarrow> [])"

definition Operate :: "env \<Rightarrow> Caller \<Rightarrow> CallerOperation \<Rightarrow> fs \<Rightarrow> (OperationResult \<times> verror list) \<times> fs" where
  "Operate E c op s =
    (if readyLocked s \<noteq> [] then ((no_result, readyLocked s), s)
     else if co_Action op \<notin> {OpRead, OpCreate, OpPatch, OpDelete} then ((no_result, [ErrIdentity]), s)
     else case resolveLocked s c (co_AuthorKey op) (co_Path op) (co_Action op = OpRead) of
       Inl e \<Rightarrow> ((no_result, e), s)
     | Inr (key, view) \<Rightarrow>
         let g = guardMaintenanceLocked s ''op'' [] (operate_action (co_Action op)) (co_Path op) key in
         if g \<noteq> [] then ((no_result, g), s)
         else let revision = revisionOf s view; hash = deltaHashLocked E s view;
                  ((result, err), s1) = applyLocked E \<lparr>op_Key = key, op_CallID = co_CallID op,
                     op_ExpectedRevision = 0, op_Action = co_Action op, op_Path = co_Path op,
                     op_Content = co_Content op\<rparr> view False s
              in if err \<noteq> [] \<or> view = key then ((result, err), s1)
                 else let (outdated, s2) = recordJudgedLocked key revision hash (co_Path op) s1;
                          (err', s3) = finishLocked [] s2
                      in ((result\<lparr>or_OutdatedPaths := outdated\<rparr>, err'), s3))"

definition choose_gate :: "fs \<Rightarrow> Caller \<Rightarrow> agent_id \<Rightarrow> agent_id" where
  "choose_gate s c author = foldl (\<lambda>gate key.
     if id_GateAuthorKey (bound s key) = author \<and> (gate = [] \<or> \<not> id_Superseded (bound s key))
     then key else gate) [] (heldLocked s c True True)"

definition VerifyAs :: "env \<Rightarrow> Caller \<Rightarrow> string \<Rightarrow> agent_id \<Rightarrow> bool \<Rightarrow> string \<Rightarrow> unit vstep" where
  "VerifyAs E c0 callID author pass finding = guarded (
    xbind (xread (currentCallerLocked c0 False)) (\<lambda>c.
    xbind (xget (\<lambda>s. choose_gate s c author)) (\<lambda>gate.
    xbind (xcheck (\<lambda>s. if gate = [] then [ErrIdentity]
                       else guardMaintenanceLocked s ''verify'' [] [] [] gate)) (\<lambda>_.
    verifyJudgedLocked E gate author callID pass finding))))"

section \<open>The orchestrator's closures\<close>

definition closableKeyLocked :: "fs \<Rightarrow> string \<Rightarrow> agent_id \<Rightarrow> verror list" where
  "closableKeyLocked s session author =
    (case map_of (s_bindings s) author of
       None \<Rightarrow> [ErrIdentity]
     | Some b \<Rightarrow> if id_GateAuthorKey b \<noteq> [] then [ErrIdentity]
                 else if id_SessionID b \<noteq> session then [ErrIdentity] else [])"

definition orchestratorKeyLocked :: "env \<Rightarrow> Caller \<Rightarrow> agent_id \<Rightarrow> string \<Rightarrow> fs \<Rightarrow> verror list" where
  "orchestratorKeyLocked E c author capability s =
    (if c_HostSession c \<noteq> c_SessionID c then [ErrScopeDenied]
     else let g = guardMaintenanceLocked s ''consolidate'' [] [] [] author in
     if g \<noteq> [] then g
     else if c_Agent c \<noteq> OrchestratorInstance then [ErrScopeDenied]
     else let r = RequireVFSCapability E OrchestratorInstance capability in
     if r \<noteq> [] then r else closableKeyLocked s (c_SessionID c) author)"

definition ConsolidateAs ::
    "env \<Rightarrow> Caller \<Rightarrow> agent_id \<Rightarrow> string \<Rightarrow> (64 word \<times> string) option \<Rightarrow> int vstep" where
  "ConsolidateAs E c author checkpoint accepted = guarded (
    xbind (xcheck (orchestratorKeyLocked E c author CapConsolidate)) (\<lambda>_.
    xbind (xget (\<lambda>s. (revisionOf s author, deltaHashLocked E s author))) (\<lambda>current.
    xbind (xcheck (\<lambda>_. case accepted of None \<Rightarrow> []
                       | Some a \<Rightarrow> if a \<noteq> current then [ErrStaleRevision] else [])) (\<lambda>_.
    xbind (consolidateCheckpointLocked E author checkpoint (fst current) (accepted \<noteq> None)) (\<lambda>_.
    xget (\<lambda>s. int (length (s_journal s)) - 1))))))"

definition DiscardAs :: "env \<Rightarrow> Caller \<Rightarrow> agent_id \<Rightarrow> unit vstep" where
  "DiscardAs E c author = guarded (
    xbind (xcheck (orchestratorKeyLocked E c author CapDiscard)) (\<lambda>_.
    finishing (xmod (\<lambda>s. correlateLocked (length (s_journal s)) author author []
                           (rollbackLocked E author s)))))"

text \<open>\<open>inFlight\<close> names the dispatch still running the unit of a claim, if any.\<close>

definition ReleaseClaim :: "string \<Rightarrow> agent_id \<Rightarrow> (Identity \<Rightarrow> string option) \<Rightarrow> unit vstep" where
  "ReleaseClaim session key inFlight = command (
    xbind (xread (\<lambda>s. case map_of (s_bindings s) key of None \<Rightarrow> Inl [ErrIdentity] | Some b \<Rightarrow> Inr b)) (\<lambda>b.
    xbind (xcheck (\<lambda>s. if stagedLocked s key
                       then (if id_SessionID b \<noteq> session then [ErrStagedWork, ErrIdentity] else [])
                       else if inFlight b \<noteq> None then [ErrScopeDenied] else [])) (\<lambda>_.
    revokeLocked key)))"

section \<open>Preparing a delegation\<close>

definition check_pending_claim :: "Identity \<Rightarrow> fs \<Rightarrow> verror list" where
  "check_pending_claim identity s =
    (case find (\<lambda>(_, b). id_Prelaunch b \<and> id_GateAuthorKey b = [] \<and> sameUnit b identity \<and>
                  id_AgentID b = id_AgentID identity) (s_bindings s) of
       None \<Rightarrow> [ErrScopeDenied]
     | Some (_, b) \<Rightarrow> if id_Invariants b \<noteq> id_Invariants identity then [ErrOther] else [])"

definition validateDelegatedAuthorLocked :: "env \<Rightarrow> fs \<Rightarrow> Identity \<Rightarrow> agent_id \<Rightarrow> verror list" where
  "validateDelegatedAuthorLocked E s judge key =
    (if id_CycleID (bound s key) \<noteq> [] then [ErrIdentity]
     else validateVerifierAuthorLocked E s judge key)"

fun prepare_judges ::
    "env \<Rightarrow> fs \<Rightarrow> Identity \<Rightarrow> agent_id list \<Rightarrow> (agent_id, Identity) gomap \<Rightarrow> (agent_id, Identity) gomap vres" where
  "prepare_judges E s identity [] prepared = Inr prepared"
| "prepare_judges E s identity (key # keys) prepared =
    (if blank key \<or> mhas prepared key then Inl [ErrIdentity]
     else and_then (bindableIdentity E s
            (if id_Invariants identity = [] then identity\<lparr>id_Invariants := id_Invariants (bound s key)\<rparr>
             else identity) []) (\<lambda>judge.
       if validateDelegatedAuthorLocked E s judge key \<noteq> []
       then Inl (validateDelegatedAuthorLocked E s judge key)
       else prepare_judges E s identity keys (mput key judge prepared)))"

definition prepared_gates :: "env \<Rightarrow> Identity \<Rightarrow> agent_id list option \<Rightarrow> fs \<Rightarrow> (agent_id, Identity) gomap vres" where
  "prepared_gates E identity authors s =
    (case authors of
       None \<Rightarrow> Inr []
     | Some keys \<Rightarrow>
         if keys = [] then Inl [ErrIdentity]
         else if RequireVFSCapability E (id_Specialist identity) CapVerify \<noteq> []
         then Inl (RequireVFSCapability E (id_Specialist identity) CapVerify)
         else prepare_judges E s identity keys [])"

definition surplus_gate :: "Identity \<Rightarrow> (agent_id, Identity) gomap \<Rightarrow> Identity \<Rightarrow> bool" where
  "surplus_gate identity prepared b \<longleftrightarrow> id_Prelaunch b \<and> id_GateAuthorKey b \<noteq> [] \<and>
     sameAttempt b identity \<and> id_AgentID b = id_AgentID identity \<and>
     \<not> mhas prepared (id_GateAuthorKey b)"

definition drop_gates :: "(Identity \<Rightarrow> bool) \<Rightarrow> fs \<Rightarrow> fs" where
  "drop_gates gone s =
    (let keys = map fst (filter (\<lambda>(_, b). gone b) (s_bindings s))
     in s\<lparr>s_bindings := fold mdel keys (s_bindings s), s_staged := fold mdel keys (s_staged s)\<rparr>)"

text \<open>\<open>admit\<close> issues the attempt under the same lock and may itself change this instance.\<close>

definition PrepareDelegation ::
    "env \<Rightarrow> Identity \<Rightarrow> agent_id list option \<Rightarrow> bool \<Rightarrow> string vstep option \<Rightarrow> unit vstep" where
  "PrepareDelegation E identity authors needsClaim admit = guarded (
    xbind (xcheck (\<lambda>s. if needsClaim then check_pending_claim identity s else [])) (\<lambda>_.
    xbind (xread (prepared_gates E identity authors)) (\<lambda>prepared.
    xbind (case admit of
             None \<Rightarrow> xret (id_AttemptID identity)
           | Some issue \<Rightarrow>
               xbind issue (\<lambda>attempt.
               xbind (xcheck (\<lambda>s. first_err (\<lambda>(key, judge).
                        validateDelegatedAuthorLocked E s judge key) prepared)) (\<lambda>_. xret attempt))) (\<lambda>attempt.
    xbind (xmod (drop_gates (surplus_gate (identity\<lparr>id_AttemptID := attempt\<rparr>) prepared))) (\<lambda>_.
    finishing (xfor (\<lambda>key.
      xbind (issueVerifierLocked E ((mget no_identity prepared key)\<lparr>id_AttemptID := attempt,
               id_GateAuthorKey := key, id_Prelaunch := True, id_HostSession := []\<rparr>) key) (\<lambda>_. xret ()))
      (case authors of None \<Rightarrow> [] | Some keys \<Rightarrow> keys)))))))"

definition cancelled_gate :: "string \<Rightarrow> string \<Rightarrow> string \<Rightarrow> Identity \<Rightarrow> bool" where
  "cancelled_gate root unit attempt b \<longleftrightarrow> id_SessionID b = root \<and> id_WorkUnitID b = unit \<and>
     id_AttemptID b = attempt \<and> id_Prelaunch b \<and> id_GateAuthorKey b \<noteq> []"

definition cancelled_shell :: "string \<Rightarrow> string \<Rightarrow> string \<Rightarrow> shellCall \<Rightarrow> bool" where
  "cancelled_shell root unit attempt call \<longleftrightarrow> sc_Inspection call = None \<and>
     c_SessionID (sc_Caller call) = root \<and> c_WorkUnitID (sc_Caller call) = unit \<and>
     c_AttemptID (sc_Caller call) = attempt"

definition CancelPreparedDelegation :: "string \<Rightarrow> string \<Rightarrow> string \<Rightarrow> unit vstep" where
  "CancelPreparedDelegation root unit attempt = command (xmod (\<lambda>s.
     let s1 = drop_gates (cancelled_gate root unit attempt) s
     in s1\<lparr>s_shellCalls := mdel_func (\<lambda>_. cancelled_shell root unit attempt) (s_shellCalls s1)\<rparr>))"

end
