(* ===== verification/Vfs_Rules.thy ===== *)
theory Vfs_Rules
  imports Vfs_Caller
begin

text \<open>
  Rules for steps that may fail: a triple relates the state before to the value and state of a
  success and to the state of a failure, and composes along the code as a Hoare logic. The
  invariants of the whole instance and the functional properties are proved with it.
\<close>

definition triple :: "(fs \<Rightarrow> bool) \<Rightarrow> 'a vstep \<Rightarrow> ('a \<Rightarrow> fs \<Rightarrow> bool) \<Rightarrow> (fs \<Rightarrow> bool) \<Rightarrow> bool" where
  "triple P m Q R \<longleftrightarrow> (\<forall>s. P s \<longrightarrow> (case m s of (Inl _, t) \<Rightarrow> R t | (Inr x, t) \<Rightarrow> Q x t))"

named_theorems triples \<open>proof rules of the steps\<close>

lemma tripleI: "(\<And>s x t. P s \<Longrightarrow> m s = (Inr x, t) \<Longrightarrow> Q x t) \<Longrightarrow>
    (\<And>s e t. P s \<Longrightarrow> m s = (Inl e, t) \<Longrightarrow> R t) \<Longrightarrow> triple P m Q R"
  by (auto simp: triple_def split: prod.splits sum.splits)

lemma triple_InrD: "triple P m Q R \<Longrightarrow> P s \<Longrightarrow> m s = (Inr x, t) \<Longrightarrow> Q x t"
  by (fastforce simp: triple_def)

lemma triple_InlD: "triple P m Q R \<Longrightarrow> P s \<Longrightarrow> m s = (Inl e, t) \<Longrightarrow> R t"
  by (fastforce simp: triple_def)

lemma triple_weaken: "triple P' m Q' R' \<Longrightarrow> (\<And>s. P s \<Longrightarrow> P' s) \<Longrightarrow> (\<And>x s. Q' x s \<Longrightarrow> Q x s) \<Longrightarrow>
    (\<And>s. R' s \<Longrightarrow> R s) \<Longrightarrow> triple P m Q R"
  by (fastforce simp: triple_def split: prod.splits sum.splits)

lemma triple_pre: "triple P' m Q R \<Longrightarrow> (\<And>s. P s \<Longrightarrow> P' s) \<Longrightarrow> triple P m Q R"
  by (rule triple_weaken)

lemma triple_bind:
  "triple P m Q R \<Longrightarrow> (\<And>x. triple (Q x) (k x) S R) \<Longrightarrow> triple P (xbind m k) S R"
  by (fastforce simp: triple_def xbind_def split: prod.splits sum.splits)

lemma triple_ret: "(\<And>s. P s \<Longrightarrow> Q x s) \<Longrightarrow> triple P (xret x) Q R"
  and triple_fail: "(\<And>s. P s \<Longrightarrow> R s) \<Longrightarrow> triple P (xfail e) Q R"
  and triple_mod: "(\<And>s. P s \<Longrightarrow> Q () (g s)) \<Longrightarrow> triple P (xmod g) Q R"
  by (simp_all add: triple_def vstep)

lemma triple_read: "(\<And>s. P s \<Longrightarrow> R s) \<Longrightarrow> triple P (xread r) (\<lambda>x s. P s \<and> r s = Inr x) R"
  and triple_check: "(\<And>s. P s \<Longrightarrow> R s) \<Longrightarrow> triple P (xcheck c) (\<lambda>_ s. P s \<and> c s = []) R"
  and triple_get: "triple P (xget q) (\<lambda>x s. P s \<and> x = q s) R"
  by (auto simp: triple_def vstep split: sum.splits)

lemma keeps_triple: "keeps P m \<longleftrightarrow> triple P m (\<lambda>_. P) P"
proof -
  have "(case m s of (Inl e, t) \<Rightarrow> P t | (Inr x, t) \<Rightarrow> P t) = P (snd (m s))" for s
    by (simp split: prod.split sum.split)
  then show ?thesis by (simp add: keeps_def triple_def)
qed

lemma triple_keeps: "keeps P m \<Longrightarrow> triple P m (\<lambda>_. P) P"
  by (simp add: keeps_triple)

text \<open>The body of a committed step keeps what its commit keeps.\<close>

lemma keeps_finishing:
  assumes "triple P m (\<lambda>_. P) P" and "\<And>s e. P s \<Longrightarrow> P (snd (finishLocked e s))"
  shows "triple P (finishing m) (\<lambda>_. P) P"
proof (unfold keeps_triple [symmetric] keeps_def, intro allI impI)
  fix s assume "P s"
  obtain r t where m: "m s = (r, t)" by fastforce
  have "P t" using assms(1) \<open>P s\<close> m by (cases r) (auto dest: triple_InrD triple_InlD)
  then have "P (snd (finishLocked (err_of r) t))" by (rule assms(2))
  then show "P (snd (finishing m s))" 
    by (cases "finishLocked (err_of r) t") (simp add: finishing_def m)
qed

lemma keeps_guarded: "triple P m (\<lambda>_. P) P \<Longrightarrow> triple P (guarded m) (\<lambda>_. P) P"
  unfolding guarded_def
  by (rule triple_bind, rule triple_check) (auto elim: triple_pre)

lemma keeps_command:
  assumes "triple P m (\<lambda>_. P) P" and "\<And>s e. P s \<Longrightarrow> P (snd (finishLocked e s))"
  shows "triple P (command m) (\<lambda>_. P) P"
  unfolding command_def by (intro keeps_guarded keeps_finishing assms)

lemma triple_xfor:
  assumes "\<And>x. x \<in> set xs \<Longrightarrow> triple P (body x) (\<lambda>_. P) P"
  shows "triple P (xfor body xs) (\<lambda>_. P) P"
  using assms
proof (induction xs)
  case Nil
  then show ?case by (auto intro: triple_ret)
next
  case (Cons x xs)
  then show ?case by (auto intro!: triple_bind)
qed

lemma triple_tag: "triple P m Q R \<Longrightarrow> triple P (tag_errors t m) Q R"
  by (fastforce simp: triple_def tag_errors_def split: prod.splits sum.splits)

lemma triple_tolerate: "triple P m (\<lambda>_. Q) Q \<Longrightarrow> triple P (tolerate ok m) (\<lambda>_. Q) Q"
  by (fastforce simp: triple_def tolerate_def split: prod.splits sum.splits if_splits)

lemma triple_journal_on_error:
  "triple P m Q P' \<Longrightarrow> (\<And>s e. P' s \<Longrightarrow> R (appendJournalLocked e s)) \<Longrightarrow>
   triple P (journal_on_error e m) Q R"
  by (fastforce simp: triple_def journal_on_error_def split: prod.splits sum.splits)

lemma keeps_if [keeping]: "(b \<Longrightarrow> keeps P m) \<Longrightarrow> (\<not> b \<Longrightarrow> keeps P n) \<Longrightarrow> keeps P (if b then m else n)"
  by simp

lemma keeps_option [keeping]:
  "keeps P m \<Longrightarrow> (\<And>x. keeps P (k x)) \<Longrightarrow> keeps P (case opt of None \<Rightarrow> m | Some x \<Rightarrow> k x)"
  by (cases opt) auto

lemma keeps_prod [keeping]: "(\<And>x y. keeps P (k x y)) \<Longrightarrow> keeps P (case pr of (x, y) \<Rightarrow> k x y)"
  by (cases pr) auto

text \<open>A claim and a gate in one piece.\<close>

definition claimed :: "env \<Rightarrow> Identity \<Rightarrow> string list \<Rightarrow> (string, baseFile) gomap \<Rightarrow> fs \<Rightarrow> fs" where
  "claimed E identity scope bases s =
    (let key = e_random E (f_entropy s);
         s1 = s\<lparr>f_entropy := Suc (f_entropy s), s_bindings := mput key identity (s_bindings s)\<rparr>;
         s2 = put_delta key ((delta_at (ensureDelta key s1) key)\<lparr>d_bases := bases\<rparr>) (ensureDelta key s1)
     in s2\<lparr>s_owners := own_paths key scope (s_owners s2)\<rparr>)"

definition issued :: "env \<Rightarrow> Identity \<Rightarrow> fs \<Rightarrow> fs" where
  "issued E identity s =
    (let key = e_random E (f_entropy s)
     in ensureDelta key (s\<lparr>f_entropy := Suc (f_entropy s), s_bindings := mput key identity (s_bindings s)\<rparr>))"

lemma claimLocked_eq: "claimLocked E i scope s =
    (if guardInspectionClaimLocked E i [] scope s \<noteq> [] then (Inl (guardInspectionClaimLocked E i [] scope s), s)
     else case capture_bases E (f_disk s) scope of
       Inl e \<Rightarrow> (Inl e, s)
     | Inr bases \<Rightarrow> (Inr (e_random E (f_entropy s)), claimed E i scope bases s))"
  by (simp add: claimLocked_def xbind_def vstep randomID_def claimed_def Let_def put_delta_def
      ensureDelta_def split: sum.split)

lemma issueVerifierLocked_eq: "issueVerifierLocked E i author s =
    (case (if id_AttemptID i = [] then None else pendingGateLocked s i author) of
       Some key \<Rightarrow> (Inr key, s)
     | None \<Rightarrow> (Inr (e_random E (f_entropy s)),
         issued E i (s\<lparr>s_bindings := map (\<lambda>(k, b). (k, supersede i author b)) (s_bindings s)\<rparr>)))"
  by (simp add: issueVerifierLocked_def xbind_def vstep randomID_def issued_def Let_def split: option.split)

text \<open>Random identifiers are only ever drawn, never put back.\<close>

lemma entropy_adopt [keeping]: "keeps (\<lambda>s. n \<le> f_entropy s) (adoptPrelaunchLocked E i scope)"
  by (auto simp: keeps_def adoptPrelaunchLocked_def Let_def split: option.splits prod.splits)

lemma entropy_scope [keeping]: "keeps (\<lambda>s. n \<le> f_entropy s) (checkScope E i scope)"
proof -
  have "f_entropy (snd (checkScope E i scope s)) = f_entropy s" for s
    by (induction scope) (auto simp: recordCollision_def split: option.splits)
  then show ?thesis by (simp add: keeps_def)
qed

lemma entropy_claim [keeping]: "keeps (\<lambda>s. n \<le> f_entropy s) (claimLocked E i scope)"
  by (auto simp: keeps_def claimLocked_eq claimed_def Let_def put_delta_def ensureDelta_def split: sum.splits)

lemma entropy_issue [keeping]: "keeps (\<lambda>s. n \<le> f_entropy s) (issueVerifierLocked E i author)"
  by (auto simp: keeps_def issueVerifierLocked_eq issued_def Let_def put_delta_def ensureDelta_def
      split: option.splits)

lemma entropy_gate [keeping]: "keeps (\<lambda>s. n \<le> f_entropy s) (assignVerifierLocked E i author)"
proof -
  have h: "keeps (\<lambda>s. n \<le> f_entropy s) (xbind (xread (\<lambda>s. bindableIdentity E s g [])) (\<lambda>i.
      xbind (xcheck (\<lambda>s. validateVerifierAuthorLocked E s i author)) (\<lambda>_. issueVerifierLocked E i author)))" for g
    by (intro keeping)
  show ?thesis
    using h [unfolded keeps_def]
    by (simp add: keeps_def assignVerifierLocked_def Let_def split: option.split)
qed

lemma lanes_entropy: "keeps (\<lambda>s. n \<le> f_entropy s) (reserve_lanes E a v scope)"
  unfolding reserve_lanes_def bindLocked_def fresh_binding_def by (intro keeping)

text \<open>An operation never changes who is bound.\<close>

lemma bindings_simps [simp]:
  "s_bindings (appendJournalLocked e s) = s_bindings s"
  "s_bindings (put_delta key d s) = s_bindings s"
  "s_bindings (ensureDelta key s) = s_bindings s"
  "s_bindings (releaseOwnershipLocked key s) = s_bindings s"
  "s_bindings (correlateLocked n key view call s) = s_bindings s"
  by (simp_all add: appendJournalLocked_def put_delta_def ensureDelta_def releaseOwnershipLocked_def
      correlateLocked_def Let_def)

lemma bindings_appends [simp]: "s_bindings (fold (\<lambda>p. appendJournalLocked (e p)) ps s) = s_bindings s"
  by (induction ps arbitrary: s) simp_all

lemma bindings_joe [keeping]: "keeps (\<lambda>s. s_bindings s = B) m \<Longrightarrow> keeps (\<lambda>s. s_bindings s = B) (journal_on_error e m)"
  by (auto simp: keeps_def journal_on_error_def split: prod.splits sum.splits)

lemma bindings_ownership [keeping]: "keeps (\<lambda>s. s_bindings s = B) (checkOwnership agent rel)"
  by (auto simp: keeps_def checkOwnership_def split: option.split)

lemma bindings_capture [keeping]: "keeps (\<lambda>s. s_bindings s = B) (captureBaseLocked E agent rel)"
  by (auto simp: keeps_def captureBaseLocked_def Let_def split: sum.split)

lemma bindings_consume [keeping]: "keeps (\<lambda>s. s_bindings s = B) (consumeCallLocked session call)"
  by (auto simp: keeps_def consumeCallLocked_def)

lemma bindings_stage [keeping]: "keeps (\<lambda>s. s_bindings s = B) (stageLocked E agent rel content)"
  unfolding stageLocked_def by (intro keeping keeps_mod) (simp add: stage_delta_def Let_def)

lemma bindings_read [keeping]: "keeps (\<lambda>s. s_bindings s = B) (readLockedAs E agent rel auth)"
  unfolding readLockedAs_def own_view_def by (intro keeping keeps_mod; simp)

lemma bindings_rollback [simp]: "s_bindings (rollbackLocked E key s) = s_bindings s"
  by (simp add: rollbackLocked_def split: option.split)

lemma bindings_dispatch [keeping]: "keeps (\<lambda>s. s_bindings s = B) (dispatchLocked E op view i)"
  unfolding dispatchLocked_def
  by (cases "op_Action op"; simp only: OperationType.case; intro keeping keeps_mod; simp)

lemma bindings_admit [keeping]: "keeps (\<lambda>s. s_bindings s = B) (admitLocked E op view chk)"
  unfolding admitLocked_def by (intro keeping)

lemma bindings_persist [simp]: "s_bindings (snd (persistLocked s)) = s_bindings s"
  by (auto simp: persistLocked_def tick_def Let_def split: prod.split list.split step_result.split)

lemma bindings_finish [simp]: "s_bindings (snd (finishLocked e s)) = s_bindings s"
  using bindings_persist [of s] by (cases "persistLocked s") (simp add: finishLocked_def)

lemma bindings_op_body: "s_bindings (snd (op_body E op view chk s)) = s_bindings s"
proof -
  obtain r t where a: "admitLocked E op view chk s = (r, t)" by fastforce
  have t: "s_bindings t = s_bindings s" using keepsD [OF bindings_admit refl a] .
  show ?thesis
    using keepsD [OF bindings_dispatch t]
    by (cases r) (auto simp: op_body_def a t split: prod.split)
qed

lemma bindings_applyLocked:
  assumes "applyLocked E op view chk s = (r, t)" shows "s_bindings t = s_bindings s"
proof -
  obtain res err u where b: "op_body E op view chk s = ((res, err), u)" by (metis surj_pair)
  have "t = snd (finishLocked err (correlateLocked (length (s_journal s)) (op_Key op) view (op_CallID op)
        (if err \<noteq> [] \<and> length (s_journal u) = length (s_journal s)
         then appendJournalLocked (denied_entry (op_Key op) (op_Action op)) u else u)))"
    using assms by (auto simp: applyLocked_def b Let_def split: prod.splits)
  then show ?thesis using bindings_op_body [of E op view chk s] b by simp
qed

lemma held_bound: "key \<in> set (heldLocked s c gates superseded) \<Longrightarrow> mhas (s_bindings s) key"
  by (auto simp: heldLocked_def mhas_keys)

lemma resolve_gate:
  assumes "resolveLocked s c named path rd = Inr (key, view)" and "view \<noteq> key"
  shows "mhas (s_bindings s) key"
proof -
  obtain c' where g: "heldGateLocked s c' named path = Inr key" "heldLocked s c' True False \<noteq> []"
    using assms by (auto simp: resolveLocked_def and_then_eq_Inr split: if_splits)
  then have "key \<in> set (heldLocked s c' True False)"
    by (auto simp: heldGateLocked_def Let_def find_Some_iff split: if_splits option.splits)
  then show ?thesis by (rule held_bound)
qed

lemma operate_state:
  assumes "resolveLocked s c (co_AuthorKey op) (co_Path op) (co_Action op = OpRead) = Inr (key, view)"
    and a: "applyLocked E \<lparr>op_Key = key, op_CallID = co_CallID op, op_ExpectedRevision = 0,
      op_Action = co_Action op, op_Path = co_Path op, op_Content = co_Content op\<rparr> view False s = ((res, err), t)"
  obtains "snd (Operate E c op s) = s" | "snd (Operate E c op s) = t"
    | "view \<noteq> key" "snd (Operate E c op s) = snd (finishLocked [] (snd (recordJudgedLocked key
        (revisionOf s view) (deltaHashLocked E s view) (co_Path op) t)))"
proof -
  obtain out u where j: "recordJudgedLocked key (revisionOf s view) (deltaHashLocked E s view) (co_Path op) t = (out, u)"
    by fastforce
  obtain e v where f: "finishLocked [] u = (e, v)" by fastforce
  have "snd (Operate E c op s) = s \<or> snd (Operate E c op s) = t \<or> (view \<noteq> key \<and> snd (Operate E c op s) = v)"
    unfolding Operate_def assms(1) sum.case prod.case Let_def a j f by (simp only: snd_conv split: if_split) blast
  then show thesis using that by (auto simp: j f)
qed

lemma staged_ensure [simp]: "mhas (s_staged (ensureDelta key s)) k \<longleftrightarrow> k = key \<or> mhas (s_staged s) k"
  by (auto simp: ensureDelta_def put_delta_def)

end
