(* ===== verification/Vfs_Invariant.thy ===== *)
theory Vfs_Invariant
  imports Vfs_Rules
begin

text \<open>
  What every command of the instance keeps. The locale lists the elementary changes the code
  makes to its state, each under the condition the code has established when it makes it; inside
  it, every command is shown to keep the property once and for all. The invariants of the
  instance are interpretations of it.
\<close>

definition free_paths :: "fs \<Rightarrow> string list \<Rightarrow> bool" where
  "free_paths s scope \<longleftrightarrow> (\<forall>p \<in> set scope. map_of (s_owners s) p = None)"

locale vfs_invariant =
  fixes E :: env and P :: "fs \<Rightarrow> bool"
  assumes fold_refl: "P s \<Longrightarrow> e_fold E p p"
    and on_disk: "P s \<Longrightarrow> P (s\<lparr>f_disk := d\<rparr>)"
    and on_faults: "P s \<Longrightarrow> P (s\<lparr>f_faults := fl\<rparr>)"
    and on_history: "P s \<Longrightarrow> P (s\<lparr>f_history := h\<rparr>)"
    and on_collisions: "P s \<Longrightarrow> P (s\<lparr>f_collisions := c\<rparr>)"
    and on_entropy: "P s \<Longrightarrow> P (s\<lparr>f_entropy := Suc (f_entropy s)\<rparr>)"
    and on_fault: "P s \<Longrightarrow> P (s\<lparr>f_fault := True\<rparr>)"
    and on_recovery: "P s \<Longrightarrow> P (s\<lparr>s_recovery := m\<rparr>)"
    and on_cycles: "P s \<Longrightarrow> P (s\<lparr>s_cycles := cs\<rparr>)"
    and on_interrupted: "P s \<Longrightarrow> P (s\<lparr>s_interrupted := i\<rparr>)"
    and on_shellCalls: "P s \<Longrightarrow> P (s\<lparr>s_shellCalls := sc\<rparr>)"
    and on_maintenance: "P s \<Longrightarrow> P (s\<lparr>s_maintenance := mn\<rparr>)"
    and on_call: "P s \<Longrightarrow> P (s\<lparr>s_calls := mput k True (s_calls s)\<rparr>)"
    and on_append: "P s \<Longrightarrow> P (appendJournalLocked e s)"
    and on_correlate: "P s \<Longrightarrow> P (correlateLocked start key view call s)"
    and on_persist: "P s \<Longrightarrow> P (snd (persistLocked s))"
    and on_finish: "P s \<Longrightarrow> P (snd (finishLocked err s))"
    and on_reopen: "P s \<Longrightarrow> P (snd (reopen fl s))"
    and on_ensure: "P s \<Longrightarrow> mhas (s_bindings s) key \<Longrightarrow> P (ensureDelta key s)"
    and on_delta: "P s \<Longrightarrow> map_of (s_staged s) key = Some dl \<Longrightarrow> d_files dl' = d_files dl \<Longrightarrow>
      P (put_delta key dl' s)"
    and on_stage: "P s \<Longrightarrow> mhas (s_bindings s) key \<Longrightarrow> map_of (s_owners s) rel = Some key \<Longrightarrow>
      P (stage_delta key rel content s)"
    and on_clear: "P s \<Longrightarrow> mhas (s_staged s) key \<Longrightarrow> d_files dl = [] \<Longrightarrow>
      P (releaseOwnershipLocked key (put_delta key dl s))"
    and on_release: "P s \<Longrightarrow> \<not> stagedLocked s key \<Longrightarrow> P (releaseOwnershipLocked key s)"
    and on_drop: "P s \<Longrightarrow> P (drop_delta key s)"
    and on_bindings: "P s \<Longrightarrow> set (mkeys b) \<subseteq> set (mkeys (s_bindings s)) \<Longrightarrow> P (s\<lparr>s_bindings := b\<rparr>)"
    and on_claim: "P s \<Longrightarrow> free_paths s scope \<Longrightarrow> P (claimed E identity scope bases s)"
    and on_issue: "P s \<Longrightarrow> P (issued E identity s)"
    and on_rescope: "P s \<Longrightarrow> mhas (s_staged s) key \<Longrightarrow>
      set (mkeys (d_files (delta_at s key))) \<subseteq> set scope \<Longrightarrow>
      (\<forall>p \<in> set scope. map_of (s_owners s) p \<in> {None, Some key}) \<Longrightarrow>
      P (rescope key scope owned bases s)"
    and on_hand_over: "P s \<Longrightarrow> key \<noteq> new_key \<Longrightarrow> mhas (s_staged s) key \<Longrightarrow> mhas (s_staged s) new_key \<Longrightarrow>
      P (hand_over_path key new_key path s)"
    and on_restore: "P s \<Longrightarrow> P t \<Longrightarrow> f_entropy s \<le> f_entropy t \<Longrightarrow>
      P (t\<lparr>s_bindings := s_bindings s, s_staged := s_staged s, s_owners := s_owners s\<rparr>)"
    and owners_wf: "P s \<Longrightarrow> wf_map (s_owners s)"
    and fresh_key: "P s \<Longrightarrow> \<not> mhas (s_bindings s) (e_random E (f_entropy s)) \<and>
      \<not> mhas (s_staged s) (e_random E (f_entropy s))"
begin

subsection \<open>Elementary steps\<close>

lemma keeps_fin [keeping]: "keeps P m \<Longrightarrow> keeps P (finishing m)"
  and keeps_grd [keeping]: "keeps P m \<Longrightarrow> keeps P (guarded m)"
  and keeps_cmd [keeping]: "keeps P m \<Longrightarrow> keeps P (command m)"
  by (simp_all add: keeps_triple keeps_finishing keeps_guarded keeps_command on_finish)

lemma keeps_for [keeping]: "(\<And>x. x \<in> set xs \<Longrightarrow> keeps P (body x)) \<Longrightarrow> keeps P (xfor body xs)"
  by (simp add: keeps_triple triple_xfor)

lemma keeps_tag [keeping]: "keeps P m \<Longrightarrow> keeps P (tag_errors t m)"
  and keeps_partial [keeping]: "keeps P m \<Longrightarrow> keeps P (partial_flush m)"
  and keeps_tolerate [keeping]: "keeps P u \<Longrightarrow> keeps P (tolerate ok u)"
  by (simp_all add: keeps_triple triple_tag triple_tolerate partial_flush_def)

lemma P_tick: "P s \<Longrightarrow> P (snd (tick s))"
  by (simp add: tick_def on_faults split: list.split)

lemma keeps_syscall [keeping]: "keeps P m \<Longrightarrow> keeps P (syscall m)"
  using P_tick by (fastforce simp: keeps_def syscall_def split: prod.splits step_result.splits)

lemma P_set_disk: "P s \<Longrightarrow> P (set_disk g s)"
  by (simp add: set_disk_def on_disk)

lemma keeps_disk [keeping]: "keeps P sync" "keeps P (syncParent rel)" "keeps P (mkdir rel)"
  "keeps P (remove_entry rel)" "keeps P (removeLocked rel)" "keeps P (create_temp rel md)"
  "keeps P (rename_over temp rel)"
  unfolding sync_def syncParent_def mkdir_def remove_entry_def removeLocked_def create_temp_def
    rename_over_def
  by (intro keeping; fastforce simp: keeps_def P_set_disk split: option.splits disk_node.splits)+

lemma keeps_fill [keeping]: "keeps P (fill_temp temp value)"
  unfolding keeps_def fill_temp_def
  using P_tick by (fastforce simp: P_set_disk split: prod.splits step_result.splits)

lemma keeps_remove [keeping]: "keeps P (removeIfPresentLocked rel)"
  unfolding keeps_def
proof (intro allI impI)
  fix s assume s: "P s"
  obtain r t where r: "remove_entry rel s = (r, t)" by fastforce
  have t: "P t" using keeps_disk(4) s r by (rule keepsD)
  then show "P (snd (removeIfPresentLocked rel s))"
    using keeps_disk(2) [of rel] by (cases r) (simp_all add: removeIfPresentLocked_def r keeps_def)
qed

lemma keeps_checkpoint [keeping]: "keeps P checkpointLocked"
  unfolding keeps_def
proof (intro allI impI)
  fix s assume "P s"
  then have "P (snd (persistLocked s))" by (rule on_persist)
  then show "P (snd (checkpointLocked s))"
    by (cases "persistLocked s") (simp add: checkpointLocked_def on_fault)
qed

lemma keeps_random [keeping]: "keeps P (randomID E)"
  by (simp add: keeps_def randomID_def on_entropy)

lemma keeps_temp [keeping]: "keeps P (tempName E rel)"
  unfolding tempName_def by (intro keeping)

lemma keeps_replace [keeping]: "keeps P (replaceLocked E rel temp value)"
  unfolding replaceLocked_def writeLocked_def by (intro keeping)

lemma keeps_append [keeping]: "keeps P (xmod (appendJournalLocked e))"
  by (rule keeps_mod) (rule on_append)

lemma keeps_joe [keeping]: "keeps P m \<Longrightarrow> keeps P (journal_on_error e m)"
  unfolding keeps_triple by (rule triple_journal_on_error [where P' = P]) (auto intro: on_append)

subsection \<open>Flush and recovery\<close>

lemma keeps_replace_items [keeping]: "keeps P (replaceItems E items)"
  unfolding replaceItems_def replace_item_def
  by (intro keeping keeps_mod) (simp add: set_intent_def on_recovery)

lemma keeps_flush:
  "(\<And>m. keeps P (fh_postStep h m)) \<Longrightarrow> keeps P (applyFlush E m h)"
  unfolding applyFlush_def createDirs_def
  by (intro keeping keeps_mod on_recovery)

lemma keeps_plan [keeping]: "keeps P (plan_items E d rels m)"
proof (induction rels arbitrary: m)
  case (Cons rel rels)
  then show ?case unfolding plan_items.simps
    by (intro keeping) (simp add: keeps_def)
qed (simp add: keeping)

lemma keeps_materialize [keeping]: "keeps P (materializeLocked E agent d)"
  unfolding materializeLocked_def planFlush_def applyManifest_def
  by (intro keeping keeps_flush keeps_mod)
    (auto simp: retainCycleLocked_def Let_def on_cycles split: option.splits
      intro: keeping keeps_mod)

lemma P_consolidate: "P s \<Longrightarrow> P (snd (consolidateLocked E agent s))"
proof -
  assume s: "P s"
  have drop: "P (releaseOwnershipLocked agent (drop_delta agent t))" if "P t" for t
    using that by (intro on_release on_drop) (simp_all add: stagedLocked_def drop_delta_def)
  have "keeps P (xbind (materializeLocked E agent d)
      (\<lambda>_. xmod (\<lambda>s. releaseOwnershipLocked agent (drop_delta agent s))))" for d
    by (intro keeping keeps_mod drop)
  then show ?thesis using s
    by (auto simp: consolidateLocked_def keeps_def split: option.splits)
qed

lemma P_consolidate_checkpoint: "P s \<Longrightarrow> P (snd (consolidateCheckpointLocked E key cp ex acc s))"
proof -
  assume s: "P s"
  have "keeps P (\<lambda>s0. case consolidateLocked E key s0 of (r, s1) \<Rightarrow> (r, correlateLocked n key key lb s1))" for n lb
    by (auto simp: keeps_def split: prod.splits intro!: on_correlate dest: P_consolidate)
       (metis P_consolidate snd_conv)
  then have "keeps P (finishing (\<lambda>s0. case consolidateLocked E key s0 of (r, s1) \<Rightarrow> (r, correlateLocked n key key lb s1)))" for n lb
    by (rule keeping)
  with s show ?thesis by (simp add: consolidateCheckpointLocked_def Let_def keeps_def)
qed

lemma keeps_consolidate [keeping]: "keeps P (consolidateCheckpointLocked E key cp ex acc)"
  by (simp add: keeps_def P_consolidate_checkpoint)

lemma keeps_restore [keeping]: "keeps P (restoreItem E item)"
  unfolding restoreItem_def rewriteOriginal_def
  by (intro keeping keeps_mod) (simp add: set_temp_def on_recovery)

lemma keeps_leftovers [keeping]: "keeps P removeLeftovers"
proof -
  have h: "keeps P (xbind (xfor (\<lambda>item. removeIfPresentLocked (ri_Temp item)) items)
      (\<lambda>_. xfor removeIfPresentLocked dirs))" for items :: "recoveryItem list" and dirs
    by (intro keeping)
  show ?thesis
    using h [unfolded keeps_def] by (simp add: keeps_def removeLeftovers_def split: option.split)
qed

lemma keeps_recover [keeping]: "keeps P (recoverLocked E)"
proof -
  have "keeps P (xbind (xcheck (checkTouched E touched)) (\<lambda>_. xbind (xfor (restoreItem E) touched)
     (\<lambda>_. xbind removeLeftovers (\<lambda>_. finishing (xmod (\<lambda>s. appendJournalLocked e (s\<lparr>s_recovery := None\<rparr>)))))))"
    for touched e
    by (intro keeping keeps_mod on_append on_recovery)
  then show ?thesis by (simp add: keeps_def recoverLocked_def Let_def split: option.split)
qed

subsection \<open>Staging, reading and operations\<close>

lemma P_ensure_delta: "P s \<Longrightarrow> mhas (s_bindings s) key \<Longrightarrow> d_files d = d_files (delta_at s key) \<Longrightarrow>
    P (put_delta key d (ensureDelta key s))"
  by (rule on_delta [where dl = "delta_at s key"], rule on_ensure)
    (auto simp: ensureDelta_def put_delta_def delta_at_def mhas_def mget_def)

lemma keeps_capture:
  "keeps (\<lambda>s. P s \<and> mhas (s_bindings s) agent \<and> map_of (s_owners s) r = Some agent)
     (captureBaseLocked E agent rel)"
proof (unfold keeps_def, intro allI impI, elim conjE)
  fix s assume s: "P s" "mhas (s_bindings s) agent" "map_of (s_owners s) r = Some agent"
  have fields: "s_bindings (ensureDelta agent s) = s_bindings s" "s_owners (ensureDelta agent s) = s_owners s"
    "s_bindings (put_delta agent d t) = s_bindings t" "s_owners (put_delta agent d t) = s_owners t" for d t
    by (simp_all add: ensureDelta_def put_delta_def)
  have files: "d_files (delta_at (ensureDelta agent s) agent) = d_files (delta_at s agent)"
    by (simp add: ensureDelta_def put_delta_def delta_at_def mhas_def mget_def split: option.split)
  have "P (put_delta agent (delta_at (ensureDelta agent s) agent\<lparr>d_bases := b\<rparr>) (ensureDelta agent s))" for b
    using s by (intro P_ensure_delta) (simp_all add: files)
  with s show "P (snd (captureBaseLocked E agent rel s)) \<and>
      mhas (s_bindings (snd (captureBaseLocked E agent rel s))) agent \<and>
      map_of (s_owners (snd (captureBaseLocked E agent rel s))) r = Some agent"
    by (simp add: captureBaseLocked_def Let_def fields on_ensure split: sum.split)
qed

lemma triple_ownership:
  "triple (\<lambda>s. P s \<and> mhas (s_bindings s) agent) (checkOwnership agent rel)
     (\<lambda>_ s. P s \<and> mhas (s_bindings s) agent \<and> map_of (s_owners s) rel = Some agent) P"
  by (rule tripleI) (auto simp: checkOwnership_def on_collisions split: option.splits if_splits)

lemma keeps_ownership [keeping]: "keeps P (checkOwnership agent rel)"
  by (auto simp: keeps_def checkOwnership_def on_collisions split: option.splits)

lemma keeps_stage [keeping]: "keeps P (stageLocked E agent rel content)"
proof -
  let ?B = "\<lambda>s. P s \<and> mhas (s_bindings s) agent"
  let ?C = "\<lambda>s. ?B s \<and> map_of (s_owners s) rel = Some agent"
  have end_step: "triple ?C (xmod (\<lambda>s. appendJournalLocked e (stage_delta agent rel content s))) (\<lambda>_. P) P" for e
    by (rule triple_mod) (auto intro: on_append on_stage)
  show ?thesis
    unfolding keeps_triple stageLocked_def
    apply (rule triple_bind, rule triple_read, assumption)
    apply (rule triple_pre [where P' = ?B])
     apply (rule triple_bind [where Q = "\<lambda>_. ?B"])
      apply (rule triple_weaken, rule triple_check [where P = ?B and R = P]; simp)
     apply (rule triple_bind [where Q = "\<lambda>_. ?B"])
      apply (rule triple_weaken, rule triple_check [where P = ?B and R = P]; simp)
     apply (rule triple_bind, rule triple_ownership)
     apply (rule triple_bind [where Q = "\<lambda>_. ?C"])
      apply (rule triple_weaken, rule triple_keeps, rule keeps_capture; auto)
     apply (rule triple_bind [where Q = "\<lambda>_. ?C"])
      apply (rule triple_weaken, rule triple_read [where P = ?C and R = P]; simp)
     apply (rule end_step)
    apply (auto simp: mhas_def split: option.splits)
    done
qed

lemma keeps_read [keeping]: "keeps P (readLockedAs E agent rel auth)"
  unfolding readLockedAs_def own_view_def by (intro keeping keeps_mod on_append)

lemma P_appends: "P s \<Longrightarrow> P (fold (\<lambda>p. appendJournalLocked (e p)) ps s)"
  by (induction ps arbitrary: s) (simp_all add: on_append)

lemma staged_appends [simp]: "s_staged (fold (\<lambda>p. appendJournalLocked (e p)) ps s) = s_staged s"
  by (induction ps arbitrary: s) (simp_all add: appendJournalLocked_def)

lemma P_rollback: "P s \<Longrightarrow> P (rollbackLocked E key s)"
proof (cases "map_of (s_staged s) key")
  case None
  assume "P s"
  then have "P (releaseOwnershipLocked key s)"
    by (rule on_release) (simp add: stagedLocked_def None)
  then show ?thesis by (simp add: rollbackLocked_def None)
next
  case (Some d)
  assume "P s"
  then show ?thesis
    unfolding rollbackLocked_def Some option.case
    by (intro on_clear P_appends) (simp_all add: mhas_def Some)
qed

lemma keeps_consume [keeping]: "keeps P (consumeCallLocked session call)"
  by (simp add: keeps_def consumeCallLocked_def on_call)

lemma keeps_admit [keeping]: "keeps P (admitLocked E op view chk)"
  unfolding admitLocked_def by (intro keeping)

lemma keeps_dispatch [keeping]: "keeps P (dispatchLocked E op view identity)"
  unfolding dispatchLocked_def
  by (cases "op_Action op"; simp; intro keeping keeps_mod P_rollback)

lemma P_op_body: "P s \<Longrightarrow> P (snd (op_body E op view chk s))"
proof -
  assume s: "P s"
  obtain r t where a: "admitLocked E op view chk s = (r, t)" by fastforce
  have t: "P t" using keeps_admit s a by (rule keepsD)
  show ?thesis
  proof (cases r)
    case (Inr i)
    have "P (snd (dispatchLocked E op view i t))" using keeps_dispatch t by (simp add: keeps_def)
    then show ?thesis
      by (cases "dispatchLocked E op view i t") (simp add: op_body_def a Inr)
  qed (simp add: op_body_def a t)
qed

lemma P_applyLocked: "P s \<Longrightarrow> P (snd (applyLocked E op view chk s))"
proof -
  assume "P s"
  then have "P (snd (op_body E op view chk s))" by (rule P_op_body)
  moreover obtain res err t where b: "op_body E op view chk s = ((res, err), t)"
    by (metis surj_pair)
  ultimately have t: "P t" by simp
  have "P (snd (finishLocked err (correlateLocked n k v c
      (if b then appendJournalLocked e t else t))))" for n k v c b e
    using t by (auto intro: on_finish on_correlate on_append)
  moreover have "snd (applyLocked E op view chk s) = snd (finishLocked err
      (correlateLocked (length (s_journal s)) (op_Key op) view (op_CallID op)
        (if err \<noteq> [] \<and> length (s_journal t) = length (s_journal s)
         then appendJournalLocked (denied_entry (op_Key op) (op_Action op)) t else t)))"
    by (simp add: applyLocked_def b Let_def split: prod.split)
  ultimately show ?thesis by metis
qed

lemma P_apply: "P s \<Longrightarrow> P (snd (apply_op E op view s))"
  by (simp add: apply_op_def P_applyLocked)

subsection \<open>Bindings, gates and claims\<close>

lemma P_rebind: "P s \<Longrightarrow> mhas (s_bindings s) key \<Longrightarrow> P (s\<lparr>s_bindings := mput key i (s_bindings s)\<rparr>)"
  by (rule on_bindings) (auto simp: mkeys_mput mhas_keys)

lemma P_claim: "P s \<Longrightarrow> free_paths s scope \<Longrightarrow> P (snd (claimLocked E i scope s))"
  by (simp add: claimLocked_eq on_claim split: sum.split)

lemma not_folded_free:
  assumes "P s" and "\<forall>(claimed, owner) \<in> set m. \<not> e_fold E p claimed" shows "map_of m p = None"
  using assms(2) fold_refl [OF assms(1)] by (auto simp: map_of_eq_None_iff)

lemma checkScope_free: "P s \<Longrightarrow> checkScope E i scope s = (Inr u, t) \<Longrightarrow> t = s \<and> free_paths s scope"
proof (induction scope)
  case (Cons p ps)
  then show ?case
    by (auto simp: free_paths_def find_None_iff split: if_splits option.splits
        intro!: not_folded_free [of s])
qed (simp add: free_paths_def)

lemma keeps_scope: "P s \<Longrightarrow> P (snd (checkScope E i scope s))"
  by (induction scope) (auto simp: recordCollision_def on_collisions split: option.splits)

lemma keeps_claim_after:
  "keeps P (xbind (checkScope E i scope) (\<lambda>_. claimLocked E i scope))"
  unfolding keeps_def
proof (intro allI impI)
  fix s assume s: "P s"
  obtain r t where c: "checkScope E i scope s = (r, t)" by fastforce
  show "P (snd (xbind (checkScope E i scope) (\<lambda>_. claimLocked E i scope) s))"
  proof (cases r)
    case (Inl e)
    then show ?thesis using keeps_scope [OF s, of i scope] by (simp add: xbind_def c)
  next
    case (Inr u)
    then have "t = s" "free_paths s scope" using checkScope_free [OF s] c by auto
    then show ?thesis using s P_claim Inr by (simp add: xbind_def c)
  qed
qed

lemma keeps_fresh [keeping]: "keeps P (fresh_binding E i scope)"
  unfolding fresh_binding_def by (intro keeping keeps_claim_after)

lemma find_bound: "find q (s_bindings s) = Some (key, i) \<Longrightarrow> mhas (s_bindings s) key"
  by (auto simp: find_Some_iff mhas_keys mkeys_def image_iff in_set_conv_nth) (metis fst_conv nth_mem)

lemma keeps_adopt [keeping]: "keeps P (adoptPrelaunchLocked E identity scope)"
  by (auto simp: keeps_def adoptPrelaunchLocked_def Let_def split: option.splits prod.splits
      intro: P_rebind find_bound)

lemma keeps_bind_locked [keeping]: "keeps P (bindLocked E identity scope)"
  unfolding bindLocked_def by (intro keeping)

lemma keeps_issue [keeping]: "keeps P (issueVerifierLocked E i author)"
proof -
  have "mkeys (map (\<lambda>(k, b). (k, supersede i author b)) m) = mkeys m"
    for m :: "(agent_id, Identity) gomap"
    by (simp add: mkeys_def case_prod_beta' comp_def)
  then show ?thesis
    by (auto simp: keeps_def issueVerifierLocked_eq split: option.splits intro!: on_issue on_bindings)
qed

lemma keeps_assign_verifier [keeping]: "keeps P (assignVerifierLocked E i author)"
proof -
  have h: "keeps P (xbind (xread (\<lambda>s. bindableIdentity E s g [])) (\<lambda>i.
      xbind (xcheck (\<lambda>s. validateVerifierAuthorLocked E s i author)) (\<lambda>_. issueVerifierLocked E i author)))" for g
    by (intro keeping)
  show ?thesis
    using h [unfolded keeps_def]
    by (simp add: keeps_def assignVerifierLocked_def Let_def split: option.split)
qed

lemma keeps_lanes: "keeps P (reserve_lanes E a v scope)"
  unfolding reserve_lanes_def by (intro keeping)

lemma keeps_assign_fresh [keeping]: "keeps P (assign_fresh E i scope)"
proof -
  have free: "free_paths s scope" if "P s" "\<not> overlaps E s scope" for s
    using that by (auto simp: free_paths_def overlaps_def intro!: not_folded_free [of s])
  have last: "keeps P (xbind (xcheck (\<lambda>s. if overlaps E s scope then [ErrCollision] else []))
      (\<lambda>_. claimLocked E g scope))" for g
    using P_claim free by (simp add: keeps_def xbind_def vstep)
  show ?thesis unfolding assign_fresh_def by (rule last | rule keeping)+
qed

lemma keeps_revoke [keeping]: "keeps P (revokeLocked key)"
proof -
  have "P (releaseOwnershipLocked key (s\<lparr>s_bindings := mput key i (s_bindings s)\<rparr>))"
    if "P s" "\<not> stagedLocked s key" "mhas (s_bindings s) key" for s i
    using that by (intro on_release P_rebind) (simp_all add: stagedLocked_def)
  then show ?thesis by (auto simp: keeps_def revokeLocked_def mhas_def split: option.split)
qed

lemma staged_hand_over: "mhas (s_staged s) k \<Longrightarrow> mhas (s_staged (hand_over_path key new_key p s)) k"
  by (simp add: hand_over_path_def put_delta_def split: prod.split)

lemma P_hand_over: "P s \<Longrightarrow> key \<noteq> new_key \<Longrightarrow> mhas (s_staged s) key \<Longrightarrow> mhas (s_staged s) new_key \<Longrightarrow>
    P (fold (hand_over_path key new_key) scope s)"
  by (induction scope arbitrary: s) (simp_all add: on_hand_over staged_hand_over)

lemma claimed_fields [simp]:
  "s_bindings (claimed E i scope bases s) = mput (e_random E (f_entropy s)) i (s_bindings s)"
  by (simp add: claimed_def Let_def put_delta_def ensureDelta_def)

lemma free_added:
  "P s \<Longrightarrow> checkClaimScope E added s = [] \<Longrightarrow> free_paths s added"
  by (auto simp: checkClaimScope_def first_err_Nil_iff free_paths_def split: if_splits
      intro!: not_folded_free [of s])

lemma keeps_hand_over:
  "keeps (\<lambda>s. P s \<and> mhas (s_bindings s) key) (handOverLocked E identity key scope added)"
proof -
  let ?B = "\<lambda>s. P s \<and> mhas (s_bindings s) key"
  have bound: "mhas (s_bindings (fold (hand_over_path key n) ps s)) k \<longleftrightarrow> mhas (s_bindings s) k" for n ps s k
    by (induction ps arbitrary: s)
      (simp_all add: hand_over_path_def put_delta_def split: prod.split)
  have bound': "s_bindings (ensureDelta k s) = s_bindings s" for k s
    by (simp add: ensureDelta_def put_delta_def)
  have move: "?B (snd (xbind (claimLocked E i added) (\<lambda>n. xbind (xmod (\<lambda>s.
      fold (hand_over_path key n) scope (ensureDelta n (ensureDelta key s)))) (\<lambda>_. xret n)) s))"
    if s: "?B s" and free: "free_paths s added" for i s
  proof (cases "capture_bases E (f_disk s) added")
    case (Inr bases)
    have "key \<noteq> e_random E (f_entropy s)" using s fresh_key by metis
    then show ?thesis
      using s free Inr
      by (simp add: claimLocked_eq xbind_def vstep bound bound' P_hand_over on_ensure on_claim)
  qed (simp add: s claimLocked_eq xbind_def)
  have pre: "keeps ?B (xread r)" "keeps ?B (xcheck c)" for r :: "fs \<Rightarrow> 'b vres" and c
    by (rule keeps_ret)+
  show ?thesis
    unfolding keeps_def handOverLocked_def
    using move free_added
    by (auto simp: xbind_def [of "xcheck _"] xbind_def [of "xread _"] vstep split: sum.splits)
qed

lemma owned_iff: "P s \<Longrightarrow> p \<in> set (ownedScopeLocked s key) \<longleftrightarrow> map_of (s_owners s) p = Some key"
  using wf_map_mem [OF owners_wf, of s p key] by (force simp: ownedScopeLocked_def)

lemma P_rescope:
  assumes "P s" "mhas (s_bindings s) key"
    and "\<forall>p \<in> set (mkeys (d_files (delta_at s key))). p \<in> set scope"
    and "free_paths s (filter (\<lambda>p. p \<notin> set (ownedScopeLocked s key)) scope)"
  shows "P (rescope key scope owned bases ((ensureDelta key s)\<lparr>s_bindings := mput key i (s_bindings s)\<rparr>))"
proof (rule on_rescope)
  let ?t = "(ensureDelta key s)\<lparr>s_bindings := mput key i (s_bindings s)\<rparr>"
  have b: "s_bindings (ensureDelta key s) = s_bindings s" "s_owners (ensureDelta key s) = s_owners s"
    by (simp_all add: ensureDelta_def put_delta_def)
  show "P ?t" using P_rebind [of "ensureDelta key s" key i] assms(1,2) by (simp add: b on_ensure)
  show "mhas (s_staged ?t) key" by simp
  have "d_files (delta_at ?t key) = d_files (delta_at s key)"
    by (simp add: ensureDelta_def put_delta_def delta_at_def mhas_def mget_def empty_delta_def split: option.split)
  then show "set (mkeys (d_files (delta_at ?t key))) \<subseteq> set scope" using assms(3) by auto
  show "\<forall>p \<in> set scope. map_of (s_owners ?t) p \<in> {None, Some key}"
  proof
    fix p assume p: "p \<in> set scope"
    show "map_of (s_owners ?t) p \<in> {None, Some key}"
      using assms(4) p owned_iff [OF assms(1)] by (auto simp: b free_paths_def)
  qed
qed

lemma reassign_scope_step:
  assumes s: "P s" "mhas (s_bindings s) key"
    and inside: "\<not> (case map_of (s_staged s) key of None \<Rightarrow> False
                     | Some d \<Rightarrow> list_ex (\<lambda>p. p \<notin> set scope) (mkeys (d_files d)))"
    and free: "checkClaimScope E (filter (\<lambda>p. p \<notin> set (ownedScopeLocked s key)) scope) s = []"
  shows "P (rescope key scope (ownedScopeLocked s key) bases
           ((ensureDelta key s)\<lparr>s_bindings := mput key i (s_bindings s)\<rparr>))"
proof (rule P_rescope [OF s])
  show "\<forall>p \<in> set (mkeys (d_files (delta_at s key))). p \<in> set scope"
    using inside by (auto simp: delta_at_def mget_def empty_delta_def list_ex_iff mkeys_def split: option.splits)
  show "free_paths s (filter (\<lambda>p. p \<notin> set (ownedScopeLocked s key)) scope)"
    using s(1) free by (rule free_added)
qed

lemma keeps_reassign_body:
  "keeps P (\<lambda>s. if mhas (s_bindings s) key then reassign_body E i key scope held role s else (Inl e, s))"
proof -
  have ho: "P (snd (handOverLocked E i key scope added s))" if "P s" "mhas (s_bindings s) key" for s added
    using keeps_hand_over that unfolding keeps_def by blast
  show ?thesis
    unfolding keeps_def reassign_body_def
    by (auto simp: xbind_def vstep Let_def ho reassign_scope_step split: sum.splits)
qed

lemma keeps_claims [keeping]:
  "keeps P (Bind E i scope)" "keeps P (AssignVerifier E i author)" "keeps P (AssignScope E i scope)"
  "keeps P (RevokeOwnership key)" "keeps P (ReleaseClaim session key inFlight)"
  unfolding Bind_def AssignVerifier_def AssignScope_def RevokeOwnership_def ReleaseClaim_def Let_def
  by (intro keeping)+

lemma keeps_reassign [keeping]: "keeps P (ReassignScope E i key scope)"
proof -
  have body: "P (snd (reassign_body E i' key scope h r s))" if "P s" "mhas (s_bindings s) key" for s i' h r
    using keeps_reassign_body [of key i' scope h r] that unfolding keeps_def by (metis (full_types))
  have "keeps P (xbind (xread (\<lambda>s. case map_of (s_bindings s) key of
             None \<Rightarrow> Inl [ErrIdentity]
           | Some held \<Rightarrow> if id_GateAuthorKey held \<noteq> [] then Inl [ErrIdentity] else Inr held)) (\<lambda>held.
    xbind (xread (\<lambda>_. SpecialistRole E (id_Specialist i))) (\<lambda>role.
    xbind (xcheck (\<lambda>_. if scope = [] \<or> \<not> completeIdentity i then [ErrIdentity] else [])) (\<lambda>_.
    reassign_body E j key scope held role))))" for j
    by (auto simp: keeps_def xbind_def vstep mhas_def body split: option.splits sum.splits if_splits)
  then show ?thesis unfolding ReassignScope_def by (rule keeping)
qed

lemma keeps_prepare_maintenance [keeping]: "keeps P (PrepareMaintenance E a v scope)"
proof -
  have "P (snd ((\<lambda>s. if id_AttemptID a = [] \<or> id_AttemptID v = [] then (Inl [ErrIdentity], s)
      else case reserve_lanes E a v scope s of
        (Inl e, s1) \<Rightarrow> (Inl e, s1\<lparr>s_bindings := s_bindings s, s_staged := s_staged s,
                                  s_owners := s_owners s\<rparr>)
      | (Inr keys, s1) \<Rightarrow> finishing (xret keys) s1) s))" if s: "P s" for s
  proof -
    obtain r t where l: "reserve_lanes E a v scope s = (r, t)" by fastforce
    have t: "P t" using keeps_lanes s l by (rule keepsD)
    have "f_entropy s \<le> f_entropy t" using keepsD [OF lanes_entropy [of "f_entropy s"] order.refl l] .
    moreover have "P (snd (finishing (xret k) t))" for k :: "agent_id \<times> agent_id"
      using keeps_fin [OF keeps_ret(1) [of P k]] t by (simp add: keeps_def)
    ultimately show ?thesis using s t by (simp add: l on_restore split: sum.split)
  qed
  then show ?thesis unfolding PrepareMaintenance_def by (intro keeping) (simp add: keeps_def)
qed

subsection \<open>Verdicts, cycles and repair\<close>

lemma P_attach: "P s \<Longrightarrow> map_of (s_staged s) author \<noteq> None \<Longrightarrow> P (attach_verdict author v s)"
  by (auto simp: attach_verdict_def Let_def delta_at_def mget_def intro: on_delta)

lemma keeps_verify_body [keeping]: "keeps P (verify_body E v a call ex hash pass finding)"
proof -
  have "P (snd (xbind (consumeCallLocked sess call) (\<lambda>_. xbind (xmod (attach_verdict a vd)) (\<lambda>_.
      xmod (appendJournalLocked e))) s))" if "P s" "map_of (s_staged s) a \<noteq> None" for s sess vd e
    using that by (auto simp: xbind_def vstep consumeCallLocked_def intro!: on_append P_attach on_call)
  then show ?thesis
    by (auto simp: keeps_def verify_body_def xbind_def [of "xread _"] xbind_def [of "xcheck _"] vstep
        validVerdict_def split: sum.splits option.splits if_splits)
qed

lemma keeps_verify_locked [keeping]: "keeps P (verifyLocked E v a call ex hash pass finding)"
proof -
  have "keeps P (\<lambda>s. case verify_body E v a call ex hash pass finding s of
         (r, s1) \<Rightarrow> let s2 = (if err_of r \<noteq> [] \<and> length (s_journal s1) = n
                     then appendJournalLocked (denied_entry v OpVerdict) s1 else s1)
           in (r, correlateLocked n v a call s2))" for n
    by (auto simp: keeps_def Let_def split: prod.splits intro!: on_correlate on_append
        intro: keepsD [OF keeps_verify_body])
  then have "keeps P (finishing (\<lambda>s. case verify_body E v a call ex hash pass finding s of
         (r, s1) \<Rightarrow> let s2 = (if err_of r \<noteq> [] \<and> length (s_journal s1) = n
                     then appendJournalLocked (denied_entry v OpVerdict) s1 else s1)
           in (r, correlateLocked n v a call s2)))" for n
    by (rule keeping)
  then show ?thesis unfolding keeps_def verifyLocked_def Let_def by blast
qed

lemma P_judged: "P s \<Longrightarrow> mhas (s_bindings s) key \<Longrightarrow> P (snd (recordJudgedLocked key revision hash path s))"
  by (simp add: recordJudgedLocked_def Let_def P_rebind)

lemma keeps_verify_judged [keeping]: "keeps P (verifyJudgedLocked E g a call pass finding)"
  using keeps_verify_locked by (simp add: keeps_def verifyJudgedLocked_def Let_def)

lemma keeps_judging [keeping]: "keeps P (Verify E v a call ex hash pass finding)"
  "keeps P (VerifyJudgedDelta E g a call pass finding)"
  unfolding Verify_def
  using keeps_verify_judged by (auto simp: keeps_def VerifyJudgedDelta_def split: option.split
      intro: keeping [unfolded keeps_def, rule_format])

lemma keeps_judge [keeping]: "keeps P (JudgeDelta E gate author)"
proof -
  have "P (snd (finishing (\<lambda>s. let view = viewLocked E s author
      in (Inr view, snd (recordJudgedLocked gate (sv_Revision view) (sv_Hash view) [] s))) s))"
    if "P s" "mhas (s_bindings s) gate" for s
    using that P_judged by (auto simp: finishing_def Let_def on_finish split: prod.split)
      (metis on_finish snd_conv)
  then show ?thesis by (simp add: keeps_def JudgeDelta_def mhas_def split: option.split)
qed

lemma keeps_cycle_steps [keeping]: "keeps P (CompleteCycle cycle)" "keeps P (SetMaintenance doc)"
  unfolding CompleteCycle_def SetMaintenance_def
  by (intro keeping keeps_mod; simp add: on_cycles on_maintenance split: option.split)+

lemma keeps_plan_discard_items [keeping]: "keeps P (plan_discard_items E snap rels m)"
proof (induction rels arbitrary: m)
  case (Cons rel rels)
  then show ?case unfolding plan_discard_items.simps by (intro keeping)
qed (simp add: keeping)

lemma keeps_plan_discard [keeping]: "keeps P (planDiscard E snap)"
  unfolding planDiscard_def by (intro keeping)

lemma keeps_discard [keeping]: "keeps P (DiscardCycle E cycle)"
  unfolding DiscardCycle_def applyDiscard_def
  by (intro keeping keeps_flush keeps_mod on_cycles) (simp add: cleanupCycleLocked_def keeping)

lemma P_drop_binding: "P s \<Longrightarrow> P (drop_binding E key s)"
proof -
  assume "P s"
  then have "P ((rollbackLocked E key s)\<lparr>s_bindings := mdel key (s_bindings (rollbackLocked E key s))\<rparr>)"
    by (intro on_bindings P_rollback) (auto simp: mkeys_def mdel_def)
  then show ?thesis
    using on_drop [of _ key] by (fastforce simp: drop_binding_def Let_def drop_delta_def)
qed

lemma keeps_drop_staging [keeping]: "keeps P (DropCycleStaging E cycle)"
proof -
  have "P (fold (drop_binding E) keys s)" if "P s" for keys s
    using that by (induction keys arbitrary: s) (simp_all add: P_drop_binding)
  then show ?thesis unfolding DropCycleStaging_def by (intro keeping keeps_mod)
qed

lemma keeps_repair_manifest [keeping]: "keeps P (RepairRecovery E a)"
proof -
  have "keeps P (finishing (xmod (\<lambda>s. appendJournalLocked e (s\<lparr>s_interrupted := g s, s_recovery := None\<rparr>))))" for e g
    by (intro keeping keeps_mod on_append on_recovery on_interrupted)
  with keeps_recover show ?thesis
    by (auto simp: keeps_def RepairRecovery_def split: option.splits sum.splits)
qed

lemma keeps_preserve [keeping]: "keeps P (PreserveInterruptedCycle E cycle state a)"
proof -
  have fin: "keeps P (finishing (xmod (\<lambda>s. appendJournalLocked e
      (s\<lparr>s_interrupted := g s, s_cycles := h s\<rparr>))))" for e g h
    by (intro keeping keeps_mod on_append on_cycles on_interrupted)
  have last: "keeps P (\<lambda>s. case planDiscard E snap s of
       (Inr _, s1) \<Rightarrow> (Inl [ErrOther], s1)
     | (Inl e, s1) \<Rightarrow>
         if \<not> errs_is e ErrCycleDiverged then (Inl [ErrOther], s1)
         else finishing (xmod (\<lambda>s. appendJournalLocked j
                  (s\<lparr>s_interrupted := mput k ev (s_interrupted s),
                     s_cycles := mdel c (s_cycles s)\<rparr>))) s1)" for snap j k ev c
    using fin [where e = j and g = "\<lambda>s. mput k ev (s_interrupted s)" and h = "\<lambda>s. mdel c (s_cycles s)"]
    by (auto simp: keeps_def split: prod.splits sum.splits dest: keepsD [OF keeps_plan_discard])
  show ?thesis unfolding PreserveInterruptedCycle_def by (rule last | rule keeping)+
qed

subsection \<open>Commands of a caller\<close>

lemma keeps_bind_held [keeping]: "keeps P (bindHeldLocked E c i scope)"
  unfolding bindHeldLocked_def by (intro keeping)

lemma keeps_adopt_gate: "P s \<Longrightarrow> mhas (s_bindings s) key \<Longrightarrow> P (snd (adoptGateLocked E key c attempt s))"
  by (simp add: adoptGateLocked_def Let_def P_rebind)

lemma P_adopt_one: "P s \<Longrightarrow> P (snd (adopt_one E c key (gates, s)))"
proof -
  assume s: "P s"
  have "P (snd (adoptGateLocked E key c (c_AttemptID c) s))" if "id_GateAuthorKey (bound s key) \<noteq> []"
    using that by (intro keeps_adopt_gate s) (auto simp: mget_def mhas_def no_identity_def split: option.splits)
  with s show ?thesis by (auto simp: adopt_one_def Let_def split: prod.split)
qed

lemma keeps_adopt_gates [keeping]: "keeps P (AdoptGates E c)"
proof -
  have "P (snd (fold (adopt_one E c) keys (gates, s)))" if "P s" for keys gates s c
    using that
  proof (induction keys arbitrary: gates s)
    case (Cons k keys)
    then show ?case
      using P_adopt_one [of s c k gates] by (cases "adopt_one E c k (gates, s)") simp
  qed simp
  then have "keeps P (\<lambda>s. case fold (adopt_one E c) (sorted_keys (s_bindings s)) ([], s) of
      (gates, s1) \<Rightarrow> (Inr gates, s1))" for c
    by (simp add: keeps_def split: prod.split) (metis snd_conv)
  then show ?thesis unfolding AdoptGates_def by (intro keeping)
qed

lemma P_operate: "P s \<Longrightarrow> P (snd (Operate E c op s))"
proof (cases "resolveLocked s c (co_AuthorKey op) (co_Path op) (co_Action op = OpRead)")
  case (Inr kv)
  assume s: "P s"
  obtain key view where kv: "kv = (key, view)" by fastforce
  let ?a = "applyLocked E \<lparr>op_Key = key, op_CallID = co_CallID op, op_ExpectedRevision = 0,
    op_Action = co_Action op, op_Path = co_Path op, op_Content = co_Content op\<rparr> view False s"
  obtain res err t where a: "?a = ((res, err), t)" by (metis surj_pair)
  have t: "P t" using P_applyLocked [OF s] a by (metis snd_conv)
  have "mhas (s_bindings t) key" if "view \<noteq> key"
    using resolve_gate [of s c _ _ _ key view] Inr kv that bindings_applyLocked [OF a] by simp
  then have judged: "P (snd (finishLocked [] (snd (recordJudgedLocked key r h p t))))" if "view \<noteq> key" for r h p
    using t that by (intro on_finish P_judged)
  from operate_state [OF Inr [unfolded kv] a] show ?thesis
    using s t judged by cases auto
qed (simp add: Operate_def)

lemma keeps_caller_commands [keeping]:
  "keeps P (BindAs E c scope invariants)" "keeps P (VerifyAs E c call author pass finding)"
  "keeps P (ConsolidateAs E c author cp accepted)"
  unfolding BindAs_def VerifyAs_def ConsolidateAs_def by (intro keeping)+

lemma keeps_discard_as [keeping]: "keeps P (DiscardAs E c author)"
  unfolding DiscardAs_def by (intro keeping keeps_mod on_correlate P_rollback)

lemma P_drop_gates: "P s \<Longrightarrow> P (drop_gates gone s)"
proof -
  assume s: "P s"
  have staged: "P (t\<lparr>s_staged := fold mdel keys (s_staged t)\<rparr>)" if "P t" for keys t
    using that
  proof (induction keys arbitrary: t)
    case (Cons k keys)
    then show ?case using Cons.IH [OF on_drop [of t k]] by (simp add: drop_delta_def)
  qed simp
  have sub: "set (mkeys (fold mdel keys b)) \<subseteq> set (mkeys b)" for keys and b :: "(agent_id, Identity) gomap"
  proof (induction keys arbitrary: b)
    case (Cons k keys)
    have "set (mkeys (mdel k b)) \<subseteq> set (mkeys b)" by (auto simp: mkeys_def mdel_def)
    with Cons.IH [of "mdel k b"] show ?case by auto
  qed simp
  show ?thesis
    unfolding drop_gates_def Let_def
    using staged [OF on_bindings [OF s sub [of "map fst (filter (\<lambda>(_, b). gone b) (s_bindings s))"]]]
    by simp
qed

lemma keeps_cancel [keeping]: "keeps P (CancelPreparedDelegation root unit attempt)"
  unfolding CancelPreparedDelegation_def Let_def
  by (intro keeping keeps_mod on_shellCalls P_drop_gates)

lemma keeps_prepare:
  assumes "\<And>issue. admit = Some issue \<Longrightarrow> keeps P issue"
  shows "keeps P (PrepareDelegation E identity authors needsClaim admit)"
proof (cases admit)
  case None
  show ?thesis
    unfolding PrepareDelegation_def None option.case by (intro keeping keeps_mod P_drop_gates)
next
  case (Some issue)
  then have "keeps P issue" by (rule assms)
  then show ?thesis
    unfolding PrepareDelegation_def Some option.case by (intro keeping keeps_mod P_drop_gates)
qed

end

end
