(* ===== verification/Vfs_System.thy ===== *)
theory Vfs_System
  imports Vfs_Invariant "HOL-Library.Sublist"
begin

text \<open>
  The instance as a whole: the modelled commands, which can run one after another, with the workspace, the
  history and the failures of the outside world in between, and the three invariants of every
  state they reach: staged work is owned, the journal is numbered, and what was committed is
  never taken back.
\<close>

section \<open>Runs\<close>

text \<open>
  \<open>evolves E s t\<close>: some sequence of commands, of changes by other programs, of schedules of
  failures and of restarts leads from \<open>s\<close> to \<open>t\<close>. The admission callback of a delegation may
  itself run commands.
\<close>

inductive evolves :: "env \<Rightarrow> fs \<Rightarrow> fs \<Rightarrow> bool" for E :: env where
  same: "evolves E s s"
| sequence: "evolves E s t \<Longrightarrow> evolves E t u \<Longrightarrow> evolves E s u"
| workspace: "evolves E s (s\<lparr>f_disk := d\<rparr>)"
| history: "evolves E s (s\<lparr>f_history := h\<rparr>)"
| schedule: "evolves E s (s\<lparr>f_faults := fl\<rparr>)"
| restart: "evolves E s (snd (reopen fl s))"
| bind: "evolves E s (snd (Bind E i scope s))"
| bind_as: "evolves E s (snd (BindAs E c scope invariants s))"
| assign_verifier: "evolves E s (snd (AssignVerifier E i author s))"
| assign_scope: "evolves E s (snd (AssignScope E i scope s))"
| revoke: "evolves E s (snd (RevokeOwnership key s))"
| release_claim: "evolves E s (snd (ReleaseClaim session key inFlight s))"
| reassign: "evolves E s (snd (ReassignScope E i key scope s))"
| maintenance_lanes: "evolves E s (snd (PrepareMaintenance E i v scope s))"
| adopt_gates: "evolves E s (snd (AdoptGates E c s))"
| apply_operation: "evolves E s (snd (apply_op E op view s))"
| operate: "evolves E s (snd (Operate E c cop s))"
| verify: "evolves E s (snd (Verify E v a call ex hash pass finding s))"
| verify_as: "evolves E s (snd (VerifyAs E c call author pass finding s))"
| judge: "evolves E s (snd (JudgeDelta E gate author s))"
| verify_judged: "evolves E s (snd (VerifyJudgedDelta E gate author call pass finding s))"
| consolidate: "evolves E s (snd (ConsolidateCheckpoint E key cp ex acc s))"
| consolidate_as: "evolves E s (snd (ConsolidateAs E c author cp accepted s))"
| discard_as: "evolves E s (snd (DiscardAs E c author s))"
| recover: "evolves E s (snd (Recover E s))"
| complete_cycle: "evolves E s (snd (CompleteCycle cycle s))"
| discard_cycle: "evolves E s (snd (DiscardCycle E cycle s))"
| drop_staging: "evolves E s (snd (DropCycleStaging E cycle s))"
| set_maintenance: "evolves E s (snd (SetMaintenance doc s))"
| repair_manifest: "evolves E s (snd (RepairRecovery E ap s))"
| preserve_cycle: "evolves E s (snd (PreserveInterruptedCycle E cycle st ap s))"
| prepare: "evolves E s (snd (PrepareDelegation E i authors needs None s))"
| prepare_admitting: "(\<And>t. evolves E t (snd (issue t))) \<Longrightarrow>
    evolves E s (snd (PrepareDelegation E i authors needs (Some issue) s))"
| cancel: "evolves E s (snd (CancelPreparedDelegation root unit attempt s))"

context vfs_invariant
begin

lemma evolves_keeps: "evolves E s t \<Longrightarrow> P s \<Longrightarrow> P t"
proof (induction rule: evolves.induct)
  case (prepare_admitting issue s i authors needs)
  then have "keeps P issue" by (simp add: keeps_def)
  then have "keeps P (PrepareDelegation E i authors needs (Some issue))" by (intro keeps_prepare) simp
  then show ?case using prepare_admitting.prems by (simp add: keeps_def)
next
  case (prepare s i authors needs)
  then show ?case using keeps_prepare [of None] by (simp add: keeps_def)
next
  case (consolidate s key cp ex acc)
  have "keeps P (ConsolidateCheckpoint E key cp ex acc)"
    unfolding ConsolidateCheckpoint_def by (intro keeping)
  then show ?case using consolidate by (simp add: keeps_def)
qed (simp_all add: on_disk on_history on_faults on_reopen P_apply P_operate Recover_def
      keeps_recover [unfolded keeps_def, rule_format] keeps_claims [unfolded keeps_def, rule_format]
      keeps_reassign [unfolded keeps_def, rule_format] keeps_caller_commands [unfolded keeps_def, rule_format]
      keeps_prepare_maintenance [unfolded keeps_def, rule_format] keeps_adopt_gates [unfolded keeps_def, rule_format]
      keeps_judging [unfolded keeps_def, rule_format] keeps_judge [unfolded keeps_def, rule_format]
      keeps_discard_as [unfolded keeps_def, rule_format] keeps_cycle_steps [unfolded keeps_def, rule_format]
      keeps_discard [unfolded keeps_def, rule_format] keeps_drop_staging [unfolded keeps_def, rule_format]
      keeps_repair_manifest [unfolded keeps_def, rule_format] keeps_preserve [unfolded keeps_def, rule_format]
      keeps_cancel [unfolded keeps_def, rule_format])

end

section \<open>What the commit layer does\<close>

lemma persist_cases:
  obtains "persistLocked s = ([ErrIO], snd (tick s))"
  | "persistLocked s = ([], (snd (tick s))\<lparr>f_db := \<lparr>db_state = Some (store.truncate s),
        db_journal = db_journal (f_db s) @ drop (f_persisted s) (s_journal s)\<rparr>\<rparr>)"
    "\<forall>e \<in> set (drop (f_persisted s) (s_journal s)). je_Seq e \<notin> je_Seq ` set (db_journal (f_db s))"
proof -
  have t: "store.truncate (snd (tick s)) = store.truncate s" "f_db (snd (tick s)) = f_db s"
    "f_persisted (snd (tick s)) = f_persisted s" "s_journal (snd (tick s)) = s_journal s"
    by (simp_all add: tick_def store.truncate_def split: list.split)
  show thesis
  proof (cases "fst (tick s)")
    case (Fail k)
    then show thesis using that(1) by (cases "tick s") (simp add: persistLocked_def)
  next
    case Fine
    then have *: "tick s = (Fine, snd (tick s))" by (cases "tick s") simp
    show thesis
    proof (cases "\<exists>e \<in> set (drop (f_persisted s) (s_journal s)). je_Seq e \<in> je_Seq ` set (db_journal (f_db s))")
      case True
      then show thesis by (intro that(1)) (subst (asm) t [symmetric], subst persistLocked_def, subst *, simp add: t Let_def)
    next
      case False
      then show thesis by (intro that(2)) (subst persistLocked_def, subst *, simp add: t Let_def, blast)
    qed
  qed
qed

section \<open>Staged work is owned\<close>

text \<open>
  What the model takes from Go's runtime: random identifiers do not repeat, and a string folds to
  itself.
\<close>

definition trusted :: "env \<Rightarrow> bool" where
  "trusted E \<longleftrightarrow> inj (e_random E) \<and> (\<forall>p. e_fold E p p)"

definition drawn :: "env \<Rightarrow> nat \<Rightarrow> agent_id \<Rightarrow> bool" where
  "drawn E n key \<longleftrightarrow> (\<exists>i < n. key = e_random E i)"

text \<open>
  Every staged path is owned by the key that staged it, and every key in use was drawn before. The
  files of a delta have one entry per path, as a Go map has.
\<close>

definition staged_owned :: "'z store_scheme \<Rightarrow> bool" where
  "staged_owned st \<longleftrightarrow> (\<forall>key d p. map_of (s_staged st) key = Some d \<longrightarrow> mhas (d_files d) p \<longrightarrow>
     map_of (s_owners st) p = Some key)"

definition files_wf :: "'z store_scheme \<Rightarrow> bool" where
  "files_wf st \<longleftrightarrow> (\<forall>key d. map_of (s_staged st) key = Some d \<longrightarrow> wf_map (d_files d))"

definition keys_drawn :: "env \<Rightarrow> nat \<Rightarrow> 'z store_scheme \<Rightarrow> bool" where
  "keys_drawn E n st \<longleftrightarrow> (\<forall>key. mhas (s_bindings st) key \<or> mhas (s_staged st) key \<longrightarrow> drawn E n key)"

definition owned_store :: "env \<Rightarrow> nat \<Rightarrow> 'z store_scheme \<Rightarrow> bool" where
  "owned_store E n st \<longleftrightarrow> wf_map (s_owners st) \<and> staged_owned st \<and> files_wf st \<and> keys_drawn E n st"

definition ownership_sound :: "env \<Rightarrow> fs \<Rightarrow> bool" where
  "ownership_sound E s \<longleftrightarrow> trusted E \<and> owned_store E (f_entropy s) s \<and>
     (\<forall>st. db_state (f_db s) = Some st \<longrightarrow> owned_store E (f_entropy s) st)"

lemma drawn_mono: "drawn E n key \<Longrightarrow> n \<le> m \<Longrightarrow> drawn E m key"
  unfolding drawn_def using order_less_le_trans by blast

lemma owned_store_mono: "owned_store E n st \<Longrightarrow> n \<le> m \<Longrightarrow> owned_store E m st"
  by (auto simp: owned_store_def keys_drawn_def intro: drawn_mono)

lemma owned_cong:
  "s_staged t = s_staged s \<Longrightarrow> s_owners t = s_owners s \<Longrightarrow> s_bindings t = s_bindings s \<Longrightarrow>
   owned_store E n t = owned_store E n s"
  by (simp add: owned_store_def files_wf_def staged_owned_def keys_drawn_def)

lemma ownership_cong:
  "s_staged t = s_staged s \<Longrightarrow> s_owners t = s_owners s \<Longrightarrow> s_bindings t = s_bindings s \<Longrightarrow>
   f_db t = f_db s \<Longrightarrow> f_entropy t = f_entropy s \<Longrightarrow> ownership_sound E s \<Longrightarrow> ownership_sound E t"
  by (simp add: ownership_sound_def owned_cong [of t s])

lemma not_drawn: "trusted E \<Longrightarrow> \<not> drawn E n (e_random E n)"
  by (auto simp: trusted_def drawn_def dest: injD)

lemma own_paths_map: "map_of (own_paths key scope owners) p = (if p \<in> set scope then Some key else map_of owners p)"
  by (induction scope arbitrary: owners) (simp_all add: own_paths_def)

lemma own_paths_wf: "wf_map owners \<Longrightarrow> wf_map (own_paths key scope owners)"
  by (induction scope arbitrary: owners) (simp_all add: own_paths_def)

lemma released_map: "wf_map owners \<Longrightarrow> map_of (mdel_func (\<lambda>_ owner. owner = key) owners) p =
    (if map_of owners p = Some key then None else map_of owners p)"
  by (simp add: map_of_mdel_func split: option.split)

lemma store_fields_simps [simp]:
  "s_staged (store.truncate s) = s_staged s" "s_owners (store.truncate s) = s_owners s"
  "s_bindings (store.truncate s) = s_bindings s" "s_calls (store.truncate s) = s_calls s"
  "s_journal (store.truncate s) = s_journal s"
  by (simp_all add: store.truncate_def)

lemma tick_fields [simp]: "s_staged (snd (tick s)) = s_staged s" "s_owners (snd (tick s)) = s_owners s"
  "s_bindings (snd (tick s)) = s_bindings s" "f_db (snd (tick s)) = f_db s"
  "f_entropy (snd (tick s)) = f_entropy s" "s_journal (snd (tick s)) = s_journal s"
  "f_persisted (snd (tick s)) = f_persisted s" "s_calls (snd (tick s)) = s_calls s"
  by (simp_all add: tick_def split: list.split)

lemma owned_persist: "ownership_sound E s \<Longrightarrow> ownership_sound E (snd (persistLocked s))"
  by (rule persist_cases [of s])
    (auto simp: ownership_sound_def owned_cong [of "snd (tick s)" s] owned_cong [of "store.truncate s" s]
      owned_cong [of "snd (tick s)\<lparr>f_db := x\<rparr>" s for x])

text \<open>A commit that finishes a command changes the database and the bookkeeping of the journal.\<close>

lemma finish_cases:
  obtains "snd (finishLocked e s) = s"
  | "snd (finishLocked e s) = (snd (persistLocked s))\<lparr>f_fault := True\<rparr>"
  | "fst (persistLocked s) = []" "snd (finishLocked e s) = (snd (persistLocked s))
       \<lparr>f_persisted := length (s_journal (snd (persistLocked s))), f_collisions := []\<rparr>"
  by (cases "persistLocked s") (fastforce simp: finishLocked_def split: if_splits)

lemma owned_reopen: "ownership_sound E s \<Longrightarrow> ownership_sound E (snd (reopen fl s))"
proof -
  assume s: "ownership_sound E s"
  let ?n = "newFS (f_disk s) fl (f_entropy s) (f_history s) (f_db s)"
  have n: "ownership_sound E ?n" using s
    by (simp add: ownership_sound_def newFS_def store.extend_def fs.fields_def empty_store_def
        owned_store_def files_wf_def staged_owned_def keys_drawn_def)
  show ?thesis
  proof (cases "db_state (f_db ?n)")
    case None
    have "snd (loadState ?n) = snd (persistLocked ?n)"
      by (cases "persistLocked ?n") (simp add: loadState_def None)
    then show ?thesis using owned_persist [OF n] by (simp add: reopen_def)
  next
    case (Some st)
    then show ?thesis
      using n by (auto simp: reopen_def loadState_def Let_def ownership_sound_def owned_store_def files_wf_def
          staged_owned_def keys_drawn_def)
  qed
qed

lemma owned_finish: "ownership_sound E s \<Longrightarrow> ownership_sound E (snd (finishLocked e s))"
  by (rule finish_cases [of e s])
    (auto intro: ownership_cong [of _ "snd (persistLocked s)"] owned_persist)

lemma owned_ensure:
  assumes "ownership_sound E s" "mhas (s_bindings s) key"
  shows "ownership_sound E (ensureDelta key s)"
  using assms
  by (auto simp: ensureDelta_def put_delta_def ownership_sound_def owned_store_def files_wf_def staged_owned_def
      keys_drawn_def empty_delta_def)

lemma owned_delta:
  assumes "ownership_sound E s" "map_of (s_staged s) key = Some d" "d_files d' = d_files d"
  shows "ownership_sound E (put_delta key d' s)"
proof -
  have "mhas (s_staged s) key" using assms(2) by (simp add: mhas_def)
  with assms show ?thesis
    by (auto simp: put_delta_def ownership_sound_def owned_store_def files_wf_def staged_owned_def keys_drawn_def)
qed

lemma owned_stage:
  assumes "ownership_sound E s" "mhas (s_bindings s) key" "map_of (s_owners s) rel = Some key"
  shows "ownership_sound E (stage_delta key rel content s)"
proof -
  have "ownership_sound E (ensureDelta key s)" using assms(1,2) by (rule owned_ensure)
  moreover have "map_of (s_owners (ensureDelta key s)) rel = Some key"
    using assms(3) by (simp add: ensureDelta_def put_delta_def)
  moreover obtain d where "map_of (s_staged (ensureDelta key s)) key = Some d"
    using staged_ensure [of key s key] by (auto simp: mhas_def)
  moreover have "mhas (s_bindings (ensureDelta key s)) key" using assms(2) by simp
  ultimately show ?thesis
    by (auto simp: stage_delta_def Let_def delta_at_def mget_def put_delta_def ownership_sound_def
        owned_store_def files_wf_def staged_owned_def keys_drawn_def)
qed

lemma owned_clear:
  assumes "ownership_sound E s" "mhas (s_staged s) key" "d_files d = []"
  shows "ownership_sound E (releaseOwnershipLocked key (put_delta key d s))"
  using assms
  by (auto simp: releaseOwnershipLocked_def put_delta_def ownership_sound_def owned_store_def files_wf_def
      staged_owned_def keys_drawn_def released_map split: if_splits)

lemma owned_release:
  assumes "ownership_sound E s" "\<not> stagedLocked s key"
  shows "ownership_sound E (releaseOwnershipLocked key s)"
  using assms
  by (auto simp: releaseOwnershipLocked_def ownership_sound_def owned_store_def files_wf_def stagedLocked_def
      staged_owned_def keys_drawn_def released_map split: if_splits option.splits)

lemma owned_drop: "ownership_sound E s \<Longrightarrow> ownership_sound E (drop_delta key s)"
  by (auto simp: drop_delta_def ownership_sound_def owned_store_def files_wf_def staged_owned_def keys_drawn_def
      split: if_splits)

lemma owned_bindings: "ownership_sound E s \<Longrightarrow> set (mkeys b) \<subseteq> set (mkeys (s_bindings s)) \<Longrightarrow>
    ownership_sound E (s\<lparr>s_bindings := b\<rparr>)"
  by (auto simp: ownership_sound_def owned_store_def files_wf_def staged_owned_def keys_drawn_def mhas_keys)

lemma fresh_drawn:
  assumes "ownership_sound E s"
  shows "map_of (s_staged s) (e_random E (f_entropy s)) = None"
    and "drawn E (f_entropy s) key \<Longrightarrow> drawn E (Suc (f_entropy s)) key"
    and "drawn E (Suc (f_entropy s)) (e_random E (f_entropy s))"
    and "\<not> mhas (s_bindings s) (e_random E (f_entropy s))"
proof -
  show "map_of (s_staged s) (e_random E (f_entropy s)) = None" "\<not> mhas (s_bindings s) (e_random E (f_entropy s))"
    using assms not_drawn [of E "f_entropy s"]
    by (auto simp: ownership_sound_def owned_store_def keys_drawn_def mhas_def)
  show "drawn E (f_entropy s) key \<Longrightarrow> drawn E (Suc (f_entropy s)) key" by (rule drawn_mono) auto
  show "drawn E (Suc (f_entropy s)) (e_random E (f_entropy s))" by (auto simp: drawn_def)
qed

lemma unstaged_elsewhere:
  assumes "ownership_sound E s" "map_of (s_staged s) key = Some d" "map_of (s_owners s) p \<noteq> Some key"
  shows "map_of (d_files d) p = None"
proof (rule ccontr)
  assume "map_of (d_files d) p \<noteq> None"
  moreover have "staged_owned s" using assms(1) by (simp add: ownership_sound_def owned_store_def)
  ultimately show False using assms(2,3) by (auto simp: staged_owned_def mhas_def)
qed

lemma owned_claim:
  assumes s: "ownership_sound E s" and free: "free_paths s scope"
  shows "ownership_sound E (claimed E identity scope bases s)"
proof -
  have other: "map_of (d_files d) p = None" if "map_of (s_staged s) key = Some d" "p \<in> set scope" for key d p
    using that free by (intro unstaged_elsewhere [OF s]) (auto simp: free_paths_def)
  show ?thesis
  using s free fresh_drawn [OF s] other
  by (auto simp: claimed_def Let_def ensureDelta_def put_delta_def delta_at_def empty_delta_def
      ownership_sound_def owned_store_def files_wf_def staged_owned_def keys_drawn_def free_paths_def mhas_def
      own_paths_map own_paths_wf split: if_splits)
qed

lemma owned_issue:
  assumes s: "ownership_sound E s" shows "ownership_sound E (issued E identity s)"
  using s fresh_drawn [OF s]
  by (auto simp: issued_def Let_def ensureDelta_def put_delta_def empty_delta_def
      ownership_sound_def owned_store_def files_wf_def staged_owned_def keys_drawn_def mhas_def split: if_splits)

lemma owned_rescope:
  assumes s: "ownership_sound E s" and key: "mhas (s_staged s) key"
    and inside: "set (mkeys (d_files (delta_at s key))) \<subseteq> set scope"
    and free: "\<forall>p \<in> set scope. map_of (s_owners s) p \<in> {None, Some key}"
  shows "ownership_sound E (rescope key scope owned bases s)"
proof -
  obtain d where d: "map_of (s_staged s) key = Some d" using key by (auto simp: mhas_def)
  have wf: "wf_map (s_owners s)" using s by (simp add: ownership_sound_def owned_store_def)
  have scope: "p \<in> set scope" if "mhas (d_files d) p" for p
    using inside that by (auto simp: delta_at_def mget_def d mhas_keys)
  have other: "p \<notin> set scope" if "map_of (s_owners s) p = Some k" "k \<noteq> key" for p k
    using free that by auto
  show ?thesis
    using s d scope other
    by (auto simp: rescope_def Let_def releaseOwnershipLocked_def put_delta_def delta_at_def mget_def
        ownership_sound_def owned_store_def files_wf_def staged_owned_def keys_drawn_def mhas_def
        own_paths_map own_paths_wf released_map [OF wf] split: if_splits)
qed

lemma transfer_files:
  "transferStagedLocked from to path = (from', to') \<Longrightarrow>
   map_of (d_files from') p = (if p = path then None else map_of (d_files from) p) \<and>
   map_of (d_files to') p = (if p = path \<and> map_of (d_files from) path \<noteq> None
                             then map_of (d_files from) path else map_of (d_files to) p)"
  by (auto simp: transferStagedLocked_def Let_def split: option.splits)

lemma transfer_wf:
  "transferStagedLocked from to path = (from', to') \<Longrightarrow> wf_map (d_files from) \<Longrightarrow> wf_map (d_files to) \<Longrightarrow>
   wf_map (d_files from') \<and> wf_map (d_files to')"
  by (auto simp: transferStagedLocked_def Let_def split: option.splits)

lemma owned_hand_over:
  assumes s: "ownership_sound E s" and "key \<noteq> new_key" "mhas (s_staged s) key" "mhas (s_staged s) new_key"
  shows "ownership_sound E (hand_over_path key new_key path s)"
proof -
  obtain from' to' where t: "transferStagedLocked (delta_at s key) (delta_at s new_key) path = (from', to')"
    by fastforce
  obtain d d' where d: "map_of (s_staged s) key = Some d" "map_of (s_staged s) new_key = Some d'"
    using assms(3,4) by (auto simp: mhas_def)
  have moved: "hand_over_path key new_key path s = (if map_of (s_owners s) path = Some key
      then (put_delta new_key to' (put_delta key from' s))\<lparr>s_owners := mput path new_key (s_owners s)\<rparr> else s)"
    by (simp add: hand_over_path_def t)
  have files: "map_of (d_files from') p = (if p = path then None else map_of (d_files d) p)"
    "map_of (d_files to') p = (if p = path \<and> map_of (d_files d) path \<noteq> None
       then map_of (d_files d) path else map_of (d_files d') p)" for p
    using transfer_files [OF t, of p] by (auto simp: delta_at_def mget_def d)
  have other: "map_of (d_files e) path = None"
    if "map_of (s_owners s) path = Some key" "map_of (s_staged s) k = Some e" "k \<noteq> key" for k e
    using that by (intro unstaged_elsewhere [OF s]) auto
  show ?thesis
  proof (cases "map_of (s_owners s) path = Some key")
    case False
    then show ?thesis using s by (simp add: moved)
  next
    case True
    let ?t = "(put_delta new_key to' (put_delta key from' s))\<lparr>s_owners := mput path new_key (s_owners s)\<rparr>"
    have old: "map_of (d_files e) p \<noteq> None \<Longrightarrow> map_of (s_owners s) p = Some k"
      if "map_of (s_staged s) k = Some e" for k e p
      by (cases "map_of (s_owners s) p = Some k") (use unstaged_elsewhere [OF s that, of p] in auto)
    have "staged_owned ?t"
      unfolding staged_owned_def
    proof (intro allI impI)
      fix k e p
      assume e: "map_of (s_staged ?t) k = Some e" and p: "mhas (d_files e) p"
      consider "k = new_key" "e = to'" | "k = key" "e = from'" | "k \<noteq> key" "k \<noteq> new_key" "map_of (s_staged s) k = Some e"
        using e \<open>key \<noteq> new_key\<close> by (auto simp: put_delta_def split: if_splits)
      then show "map_of (s_owners ?t) p = Some k"
      proof cases
        case 1
        then have "p \<noteq> path \<Longrightarrow> map_of (d_files d') p \<noteq> None" using p by (simp add: mhas_def files(2))
        then show ?thesis using 1(1) old [OF d(2), of p] by (cases "p = path") simp_all
      next
        case 2
        then have "p \<noteq> path" "map_of (d_files d) p \<noteq> None" using p by (simp_all add: mhas_def files(1) split: if_splits)
        then show ?thesis using 2(1) old [OF d(1), of p] by simp
      next
        case 3
        then have "p \<noteq> path" using p other [OF True 3(3,1)] by (auto simp: mhas_def)
        then show ?thesis using p old [OF 3(3), of p] by (simp add: mhas_def)
      qed
    qed
    moreover have "wf_map (d_files from')" "wf_map (d_files to')"
      using s d transfer_wf [OF t] by (auto simp: ownership_sound_def owned_store_def files_wf_def delta_at_def mget_def)
    then have "files_wf ?t"
      using s by (auto simp: ownership_sound_def owned_store_def files_wf_def put_delta_def split: if_splits)
    moreover have "keys_drawn E (f_entropy s) ?t" "wf_map (s_owners ?t)"
      using s d by (auto simp: ownership_sound_def owned_store_def keys_drawn_def put_delta_def mhas_def)
    ultimately show ?thesis
      using s True by (simp add: moved ownership_sound_def owned_store_def put_delta_def)
  qed
qed

lemma owned_restore:
  assumes "ownership_sound E s" "ownership_sound E t" "f_entropy s \<le> f_entropy t"
  shows "ownership_sound E (t\<lparr>s_bindings := s_bindings s, s_staged := s_staged s, s_owners := s_owners s\<rparr>)"
proof -
  have "owned_store E (f_entropy t) s" using assms by (auto simp: ownership_sound_def intro: owned_store_mono)
  with assms(2) show ?thesis
    by (simp add: ownership_sound_def owned_store_def files_wf_def staged_owned_def keys_drawn_def)
qed

interpretation own: vfs_invariant E "ownership_sound E" for E
proof (unfold_locales, goal_cases)
  case (1 s p)
  then show ?case by (simp add: ownership_sound_def trusted_def)
next
  case (6 s)
  then show ?case
    by (auto simp: ownership_sound_def owned_cong [of "s\<lparr>f_entropy := n\<rparr>" s for n] intro: owned_store_mono)
next
  case (31 s)
  then show ?case by (simp add: ownership_sound_def owned_store_def)
next
  case (28 s key scope owned bases)
  then show ?case by (rule owned_rescope)
next
  case (32 s)
  then show ?case using fresh_drawn(1,4) [OF 32] by (simp add: mhas_def)
qed (auto intro: ownership_cong owned_persist owned_finish owned_reopen owned_ensure owned_delta
       owned_stage owned_clear owned_release owned_drop owned_bindings owned_claim owned_issue
       owned_hand_over owned_restore
     simp: appendJournalLocked_def correlateLocked_def Let_def)

section \<open>The journal is numbered and the committed rows stay\<close>

text \<open>
  A second property may ride on an invariant when it speaks only of the journal, the spent calls
  and the database: every other change of the code leaves these alone.
\<close>

definition same_log :: "fs \<Rightarrow> fs \<Rightarrow> bool" where
  "same_log s t \<longleftrightarrow> s_journal t = s_journal s \<and> f_persisted t = f_persisted s \<and>
     s_calls t = s_calls s \<and> f_db t = f_db s"

lemma same_log_steps [simp]:
  "same_log s (ensureDelta key s)" "same_log s (put_delta key d s)" "same_log s (stage_delta key rel c s)"
  "same_log s (releaseOwnershipLocked key s)" "same_log s (drop_delta key s)"
  "same_log s (claimed E i scope bases s)" "same_log s (issued E i s)"
  "same_log s (rescope key scope owned bs s)" "same_log s (hand_over_path key new_key p s)"
  "same_log s (releaseOwnershipLocked key (put_delta key d s))"
  by (simp_all add: same_log_def ensureDelta_def put_delta_def stage_delta_def releaseOwnershipLocked_def
      drop_delta_def claimed_def issued_def rescope_def hand_over_path_def Let_def split: prod.split)

lemma same_log_updates [simp]:
  "same_log s (s\<lparr>f_disk := d\<rparr>)" "same_log s (s\<lparr>f_faults := fl\<rparr>)" "same_log s (s\<lparr>f_history := h\<rparr>)"
  "same_log s (s\<lparr>f_collisions := c\<rparr>)" "same_log s (s\<lparr>f_entropy := n\<rparr>)" "same_log s (s\<lparr>f_fault := b\<rparr>)"
  "same_log s (s\<lparr>s_recovery := m\<rparr>)" "same_log s (s\<lparr>s_cycles := cs\<rparr>)" "same_log s (s\<lparr>s_interrupted := i\<rparr>)"
  "same_log s (s\<lparr>s_shellCalls := sc\<rparr>)" "same_log s (s\<lparr>s_maintenance := mn\<rparr>)" "same_log s (s\<lparr>s_bindings := bi\<rparr>)"
  "same_log t (t\<lparr>s_bindings := bi, s_staged := st, s_owners := ow\<rparr>)"
  by (simp_all add: same_log_def)

locale log_invariant = vfs_invariant +
  fixes Q :: "fs \<Rightarrow> bool"
  assumes log_same: "P s \<Longrightarrow> Q s \<Longrightarrow> same_log s t \<Longrightarrow> Q t"
    and log_call: "P s \<Longrightarrow> Q s \<Longrightarrow> Q (s\<lparr>s_calls := mput k True (s_calls s)\<rparr>)"
    and log_append: "P s \<Longrightarrow> Q s \<Longrightarrow> Q (appendJournalLocked e s)"
    and log_correlate: "P s \<Longrightarrow> Q s \<Longrightarrow> Q (correlateLocked start key view call s)"
    and log_persist: "P s \<Longrightarrow> Q s \<Longrightarrow> Q (snd (persistLocked s))"
    and log_finish: "P s \<Longrightarrow> Q s \<Longrightarrow> Q (snd (finishLocked err s))"
    and log_reopen: "P s \<Longrightarrow> Q s \<Longrightarrow> Q (snd (reopen fl s))"

sublocale log_invariant \<subseteq> both: vfs_invariant E "\<lambda>s. P s \<and> Q s"
proof (unfold_locales, goal_cases)
  case (31 s) then show ?case using owners_wf by blast
next
  case (32 s) then show ?case using fresh_key by blast
next
  case (1 s p) then show ?case using fold_refl by blast
qed (auto intro: on_disk on_faults on_history on_collisions on_entropy on_fault on_recovery on_cycles
      on_interrupted on_shellCalls on_maintenance on_call on_append on_correlate on_persist on_finish
      on_reopen on_ensure on_delta on_stage on_clear on_release on_drop on_bindings on_claim on_issue
      on_hand_over on_restore on_rescope log_call log_append log_correlate log_persist log_finish
      log_reopen log_same)

definition numbered :: "JournalEntry list \<Rightarrow> bool" where
  "numbered js \<longleftrightarrow> (\<forall>i < length js. je_Seq (js ! i) = i)"

text \<open>The state row counts the journal rows; without a state row there are none.\<close>

definition counted :: "database \<Rightarrow> bool" where
  "counted db \<longleftrightarrow> (case db_state db of None \<Rightarrow> db_journal db = []
     | Some st \<Rightarrow> length (s_journal st) = length (db_journal db))"

definition log_sound :: "fs \<Rightarrow> bool" where
  "log_sound s \<longleftrightarrow> numbered (s_journal s) \<and> numbered (db_journal (f_db s)) \<and>
     f_persisted s \<le> length (db_journal (f_db s)) \<and>
     length (db_journal (f_db s)) \<le> length (s_journal s) \<and>
     counted (f_db s)"

lemma rows_numbered_iff: "rows_numbered n js \<longleftrightarrow> (\<forall>i < length js. je_Seq (js ! i) = n + i)"
proof (induction js arbitrary: n)
  case (Cons e js)
  then show ?case by (auto simp: less_Suc_eq_0_disj nth_Cons')
qed simp

lemma numbered_seqs: "numbered js \<Longrightarrow> je_Seq ` set js = {0 ..< length js}"
  by (auto simp: numbered_def in_set_conv_nth image_iff) (metis nth_mem)

lemma journal_grows_numbered: "numbered js \<Longrightarrow> je_Seq e = length js \<Longrightarrow> numbered (js @ [e])"
  by (auto simp: numbered_def nth_append less_Suc_eq)

lemma stamped_seq [simp]: "je_Seq (stamped_entry s e) = length (s_journal s)"
  by (simp add: stamped_entry_def Let_def)

lemma correlated_seq [simp]: "je_Seq (correlated i call d e) = je_Seq e"
  by (simp add: correlated_def stamp_def Let_def split: option.split)

lemma correlate_journal:
  "length (s_journal (correlateLocked start key view call s)) = length (s_journal s)"
  "i < length (s_journal s) \<Longrightarrow> je_Seq (s_journal (correlateLocked start key view call s) ! i) = je_Seq (s_journal s ! i)"
  by (auto simp: correlateLocked_def Let_def nth_append)

lemma commit_length:
  assumes "log_sound s"
    and "\<forall>e \<in> set (drop (f_persisted s) (s_journal s)). je_Seq e \<notin> je_Seq ` set (db_journal (f_db s))"
  shows "length (db_journal (f_db s) @ drop (f_persisted s) (s_journal s)) = length (s_journal s)"
    and "numbered (db_journal (f_db s) @ drop (f_persisted s) (s_journal s))"
proof -
  let ?r = "db_journal (f_db s)" and ?j = "s_journal s" and ?p = "f_persisted s"
  have l: "?p = length ?r \<or> length ?j = ?p"
  proof (rule ccontr)
    assume "\<not> ?thesis"
    then have p: "?p < length ?r" "?p < length ?j" using assms(1) by (auto simp: log_sound_def)
    then have "?j ! ?p \<in> set (drop ?p ?j)" by (metis Cons_nth_drop_Suc list.set_intros(1))
    moreover have "je_Seq (?j ! ?p) = ?p" using p assms(1) by (simp add: log_sound_def numbered_def)
    moreover have "?p \<in> je_Seq ` set ?r" using p assms(1) by (simp add: log_sound_def numbered_seqs)
    ultimately show False using assms(2) by metis
  qed
  then have eq: "?p = length ?r" using assms(1) by (auto simp: log_sound_def)
  show "length (?r @ drop ?p ?j) = length ?j" using assms(1) eq by (simp add: log_sound_def)
  show "numbered (?r @ drop ?p ?j)"
    using assms(1) eq by (auto simp: log_sound_def numbered_def nth_append)
qed

lemma log_same_sound: "log_sound s \<Longrightarrow> same_log s t \<Longrightarrow> log_sound t"
  by (simp add: log_sound_def same_log_def)

lemma log_persist_sound:
  assumes "log_sound s" shows "log_sound (snd (persistLocked s))"
proof (rule persist_cases [of s])
  assume "persistLocked s = ([ErrIO], snd (tick s))"
  then show ?thesis using assms by (simp add: log_sound_def)
next
  assume p: "persistLocked s = ([], (snd (tick s))\<lparr>f_db := \<lparr>db_state = Some (store.truncate s),
      db_journal = db_journal (f_db s) @ drop (f_persisted s) (s_journal s)\<rparr>\<rparr>)"
    and new: "\<forall>e \<in> set (drop (f_persisted s) (s_journal s)). je_Seq e \<notin> je_Seq ` set (db_journal (f_db s))"
  show ?thesis
    using assms commit_length [OF assms new] by (simp add: p log_sound_def counted_def)
qed

lemma persist_ok_journal:
  assumes "log_sound s" "fst (persistLocked s) = []"
  shows "length (db_journal (f_db (snd (persistLocked s)))) = length (s_journal (snd (persistLocked s)))"
proof (rule persist_cases [of s])
  assume "persistLocked s = ([ErrIO], snd (tick s))"
  then show ?thesis using assms(2) by simp
next
  assume p: "persistLocked s = ([], (snd (tick s))\<lparr>f_db := \<lparr>db_state = Some (store.truncate s),
      db_journal = db_journal (f_db s) @ drop (f_persisted s) (s_journal s)\<rparr>\<rparr>)"
    and new: "\<forall>e \<in> set (drop (f_persisted s) (s_journal s)). je_Seq e \<notin> je_Seq ` set (db_journal (f_db s))"
  show ?thesis using commit_length(1) [OF assms(1) new] by (simp add: p)
qed

lemma log_finish_sound:
  assumes "log_sound s" shows "log_sound (snd (finishLocked e s))"
proof (rule finish_cases [of e s])
  assume "fst (persistLocked s) = []" and f: "snd (finishLocked e s) = (snd (persistLocked s))
       \<lparr>f_persisted := length (s_journal (snd (persistLocked s))), f_collisions := []\<rparr>"
  then have "length (db_journal (f_db (snd (persistLocked s)))) = length (s_journal (snd (persistLocked s)))"
    using assms by (intro persist_ok_journal)
  with log_persist_sound [OF assms] show ?thesis by (simp add: f log_sound_def)
qed (use assms log_persist_sound [OF assms] in \<open>simp_all add: log_sound_def\<close>)

lemma reopen_sound:
  assumes "log_sound s" "db_state (f_db s) = Some st"
  shows "fst (reopen fl s) = Inr ()" and "log_sound (snd (reopen fl s))"
proof -
  have "rows_numbered 0 (db_journal (f_db s))"
    using assms(1) by (simp add: log_sound_def numbered_def rows_numbered_iff)
  moreover have "length (db_journal (f_db s)) = length (s_journal st)"
    using assms by (simp add: log_sound_def counted_def)
  ultimately have r: "replayJournal (db_journal (f_db s)) (Some (length (s_journal st))) = []"
    by (simp add: replayJournal_def)
  have db: "f_db (newFS (f_disk s) fl (f_entropy s) (f_history s) (f_db s)) = f_db s"
    by (simp add: newFS_def store.extend_def fs.fields_def)
  show "fst (reopen fl s) = Inr ()" by (simp add: reopen_def loadState_def db assms(2) r)
  show "log_sound (snd (reopen fl s))"
    using assms(1) r by (simp add: reopen_def loadState_def db assms(2) Let_def log_sound_def counted_def)
qed

lemma log_reopen_sound:
  assumes "log_sound s" shows "log_sound (snd (reopen fl s))"
proof (cases "db_state (f_db s)")
  case None
  let ?n = "newFS (f_disk s) fl (f_entropy s) (f_history s) (f_db s)"
  have db: "f_db ?n = f_db s" by (simp add: newFS_def store.extend_def fs.fields_def)
  have "log_sound ?n"
    using assms None by (simp add: counted_def newFS_def store.extend_def fs.fields_def log_sound_def empty_store_def numbered_def)
  then have "log_sound (snd (persistLocked ?n))" by (rule log_persist_sound)
  moreover have "snd (reopen fl s) = snd (persistLocked ?n)"
    by (cases "persistLocked ?n") (simp add: reopen_def loadState_def db None)
  ultimately show ?thesis by simp
qed (use reopen_sound [OF assms] in simp)

lemma log_append_sound: "log_sound s \<Longrightarrow> log_sound (appendJournalLocked e s)"
  by (auto simp: log_sound_def appendJournalLocked_def journal_grows_numbered)

lemma log_correlate_sound: "log_sound s \<Longrightarrow> log_sound (correlateLocked start key view call s)"
  using correlate_journal [where start = start and key = key and view = view and call = call and s = s]
  by (simp add: log_sound_def numbered_def) (simp add: correlateLocked_def Let_def)

interpretation journal: log_invariant E "ownership_sound E" log_sound for E
  by unfold_locales
    (simp_all add: log_same_sound log_append_sound log_correlate_sound log_persist_sound
      log_finish_sound log_reopen_sound, simp add: log_sound_def)

section \<open>What was committed is never taken back\<close>

text \<open>
  The rows \<open>rows\<close> of the journal and the spent call \<open>k\<close> are committed: every later state, also after
  a restart, still has them.
\<close>

definition spent :: "string \<Rightarrow> 'z store_scheme \<Rightarrow> bool" where
  "spent k st \<longleftrightarrow> mget False (s_calls st) k"

definition rows_kept :: "JournalEntry list \<Rightarrow> fs \<Rightarrow> bool" where
  "rows_kept rows s \<longleftrightarrow> prefix rows (db_journal (f_db s))"

definition call_kept :: "string \<Rightarrow> fs \<Rightarrow> bool" where
  "call_kept k s \<longleftrightarrow> spent k s \<and> (\<exists>st. db_state (f_db s) = Some st \<and> spent k st)"

lemma spent_truncate [simp]: "spent k (store.truncate s) = spent k s"
  by (simp add: spent_def)

lemma spent_tick [simp]: "spent k (snd (tick s)) = spent k s"
  by (simp add: spent_def)

lemma rows_persist: "rows_kept rows s \<Longrightarrow> rows_kept rows (snd (persistLocked s))"
  by (rule persist_cases [of s]) (auto simp: rows_kept_def)

lemma call_persist: "call_kept k s \<Longrightarrow> call_kept k (snd (persistLocked s))"
  by (rule persist_cases [of s]) (auto simp: call_kept_def, simp_all add: spent_def)

lemma spent_persist [simp]: "spent k (snd (persistLocked s)) = spent k s"
  by (rule persist_cases [of s]) (simp_all, simp add: spent_def)

lemma rows_finish: "rows_kept rows s \<Longrightarrow> rows_kept rows (snd (finishLocked e s))"
  by (rule finish_cases [of e s]) (use rows_persist in \<open>simp_all add: rows_kept_def\<close>)

lemma call_finish: "call_kept k s \<Longrightarrow> call_kept k (snd (finishLocked e s))"
proof (rule finish_cases [of e s])
qed (use call_persist [of k s] in \<open>auto simp: call_kept_def spent_def\<close>)

lemma rows_reopen:
  assumes "rows_kept rows s" shows "rows_kept rows (snd (reopen fl s))"
proof -
  let ?n = "newFS (f_disk s) fl (f_entropy s) (f_history s) (f_db s)"
  have db: "f_db ?n = f_db s" by (simp add: newFS_def store.extend_def fs.fields_def)
  then have n: "rows_kept rows ?n" using assms by (simp add: rows_kept_def)
  show ?thesis
  proof (cases "db_state (f_db s)")
    case None
    then show ?thesis
      using rows_persist [OF n] by (cases "persistLocked ?n") (simp add: reopen_def loadState_def db)
  next
    case (Some st)
    then show ?thesis using n by (simp add: reopen_def loadState_def db Let_def rows_kept_def)
  qed
qed

lemma call_reopen:
  assumes "log_sound s" "call_kept k s" shows "call_kept k (snd (reopen fl s))"
proof -
  obtain st where st: "db_state (f_db s) = Some st" "spent k st" using assms(2) by (auto simp: call_kept_def)
  have db: "f_db (newFS (f_disk s) fl (f_entropy s) (f_history s) (f_db s)) = f_db s"
    by (simp add: newFS_def store.extend_def fs.fields_def)
  have "replayJournal (db_journal (f_db s)) (Some (length (s_journal st))) = []"
    using assms(1) st(1) by (simp add: log_sound_def numbered_def rows_numbered_iff replayJournal_def counted_def)
  then show ?thesis
    using st by (simp add: reopen_def loadState_def db Let_def call_kept_def spent_def)
qed

lemma keeps_logs [simp]:
  "rows_kept rows (appendJournalLocked e s) = rows_kept rows s"
  "rows_kept rows (correlateLocked start key view call s) = rows_kept rows s"
  "call_kept k (appendJournalLocked e s) = call_kept k s"
  "call_kept k (correlateLocked start key view call s) = call_kept k s"
  by (simp_all add: rows_kept_def call_kept_def spent_def appendJournalLocked_def correlateLocked_def Let_def)

interpretation rows: log_invariant E "\<lambda>s. ownership_sound E s \<and> log_sound s" "rows_kept rows" for E rows
  by unfold_locales
    (simp_all add: rows_persist rows_finish rows_reopen, simp_all add: rows_kept_def same_log_def)

interpretation calls: log_invariant E "\<lambda>s. ownership_sound E s \<and> log_sound s" "call_kept k" for E k
  by unfold_locales
    (simp_all add: call_persist call_finish call_reopen, auto simp: call_kept_def spent_def same_log_def mget_def)

section \<open>Reachable states\<close>

text \<open>
  A workspace whose store holds nothing yet, and every state that some run leads to from there.
\<close>

definition untouched :: "disk \<Rightarrow> nat \<Rightarrow> projection vres \<Rightarrow> fs" where
  "untouched d n hist = newFS d [] n hist \<lparr>db_state = None, db_journal = []\<rparr>"

definition reachable :: "env \<Rightarrow> fs \<Rightarrow> bool" where
  "reachable E s \<longleftrightarrow> trusted E \<and> (\<exists>d n hist. evolves E (untouched d n hist) s)"

lemma untouched_sound: "trusted E \<Longrightarrow> ownership_sound E (untouched d n hist)" "log_sound (untouched d n hist)"
  by (simp_all add: untouched_def newFS_def store.extend_def fs.fields_def empty_store_def ownership_sound_def
      owned_store_def files_wf_def staged_owned_def keys_drawn_def log_sound_def numbered_def counted_def)

lemma reachable_sound: "reachable E s \<Longrightarrow> ownership_sound E s \<and> log_sound s"
  unfolding reachable_def using journal.both.evolves_keeps untouched_sound by blast

lemma reachable_step: "reachable E s \<Longrightarrow> evolves E s t \<Longrightarrow> reachable E t"
  unfolding reachable_def by (blast intro: evolves.sequence)

end
