(* ===== verification/Vfs_Example.thy ===== *)
theory Vfs_Example
  imports Vfs_System
begin

text \<open>
  A small instance on which the properties are exercised: one author with two paths in scope, one
  reviewer, a workspace with one file.
\<close>

definition demo_env :: env where
  "demo_env = \<lparr>e_rootDir = ''/w'',
     e_packages = [\<lparr>ad_Instances = [''takt''], ad_VFSGrants = [(''takt'', [CapConsolidate, CapDiscard])]\<rparr>,
       \<lparr>ad_Instances = [''coder''], ad_VFSGrants = [(''coder'', [CapBind, CapRead, CapWrite, CapDelete])]\<rparr>,
       \<lparr>ad_Instances = [''judge''], ad_VFSGrants = [(''judge'', [CapBind, CapRead, CapVerify])]\<rparr>],
     e_roles = [(''coder'', ''author''), (''judge'', ''reviewer'')],
     e_nfc = (\<lambda>x. x), e_fold = (\<lambda>a b. a = b), e_lower = (\<lambda>x. x), e_sha256 = (\<lambda>x. CHR ''#'' # x),
     e_json = (\<lambda>fs. concat (map (\<lambda>(k, c). k @ ''='' @ (case c of None \<Rightarrow> ''~'' | Some x \<Rightarrow> x) @ '';'') fs)),
     e_random = (\<lambda>n. replicate (Suc n) (CHR ''k'')),
     e_manifest_hash = (\<lambda>_. ''m''), e_evidence_hash = (\<lambda>_ _. ''e'')\<rparr>"

lemma demo_trusted: "trusted demo_env"
  by (auto simp: trusted_def demo_env_def inj_def)

definition demo_disk :: disk where
  "demo_disk = [(''src'', Dir), (''src/a.go'', File ''old'' 384 1)]"

definition demo_coder :: Identity where
  "demo_coder = no_identity\<lparr>id_SessionID := ''s'', id_WorkUnitID := ''u'', id_AttemptID := ''t'',
     id_AgentID := ''coder'', id_Specialist := ''coder''\<rparr>"

definition demo_judge :: Identity where
  "demo_judge = no_identity\<lparr>id_SessionID := ''s'', id_WorkUnitID := ''u'', id_AttemptID := ''t'',
     id_AgentID := ''judge'', id_Specialist := ''judge''\<rparr>"

definition demo_op :: "string \<Rightarrow> 64 word \<Rightarrow> OperationType \<Rightarrow> string \<Rightarrow> string \<Rightarrow> Operation" where
  "demo_op call revision action path content = \<lparr>op_Key = ''k'', op_CallID = call,
     op_ExpectedRevision = revision, op_Action = action, op_Path = path, op_Content = Some content\<rparr>"

text \<open>A state whose last command was committed.\<close>

definition committed :: "fs \<Rightarrow> fs" where
  "committed s = s\<lparr>f_persisted := length (s_journal s),
     f_db := \<lparr>db_state = Some (store.truncate s), db_journal = s_journal s\<rparr>\<rparr>"

definition demo_opened :: fs where
  "demo_opened = committed (newFS demo_disk [] 0 (Inl [ErrIO]) \<lparr>db_state = None, db_journal = []\<rparr>)"

text \<open>The author is bound over two paths, one of which exists; then it patches and creates.\<close>

definition demo_delta :: "(string, string option) gomap \<Rightarrow> 64 word \<Rightarrow> agentDelta" where
  "demo_delta files revision = \<lparr>d_files = files, d_revision = revision,
     d_bases = [(''src/b.go'', no_file),
       (''src/a.go'', \<lparr>bf_Content = ''old'', bf_Present = True, bf_Mode = 384\<rparr>)], d_verdicts = []\<rparr>"

definition demo_bound :: fs where
  "demo_bound = committed (demo_opened\<lparr>
     s_staged := [(''k'', demo_delta [] 0)],
     s_owners := [(''src/a.go'', ''k''), (''src/b.go'', ''k'')],
     s_bindings := [(''k'', demo_coder\<lparr>id_Role := ''author'', id_InvariantsHash := ''#''\<rparr>)],
     f_entropy := 1\<rparr>)"

definition demo_entry :: "nat \<Rightarrow> string \<Rightarrow> string \<Rightarrow> OperationType \<Rightarrow> string \<Rightarrow> string \<Rightarrow> JournalEntry" where
  "demo_entry n call path action old new = (entry_for ''coder'' path action)
     \<lparr>je_Role := ''author'', je_SessionID := ''s'', je_WorkUnitID := ''u'', je_AttemptID := ''t'',
      je_CallID := call, je_Revision := of_nat (Suc n), je_Seq := n, je_BeforeHash := old,
      je_AfterHash := new\<rparr>"

definition demo_patched :: fs where
  "demo_patched = committed (demo_bound\<lparr>
     s_staged := [(''k'', demo_delta [(''src/a.go'', Some ''new'')] 1)],
     s_calls := [(call_key ''s'' ''c1'', True)],
     s_journal := [demo_entry 0 ''c1'' ''src/a.go'' OpPatch ''#old'' ''#new'']\<rparr>)"

definition demo_staged :: fs where
  "demo_staged = committed (demo_patched\<lparr>
     s_staged := [(''k'', demo_delta [(''src/a.go'', Some ''new''), (''src/b.go'', Some ''made'')] 2)],
     s_calls := [(call_key ''s'' ''c1'', True), (call_key ''s'' ''c2'', True)],
     s_journal := s_journal demo_patched @ [demo_entry 1 ''c2'' ''src/b.go'' OpCreate [] ''#made'']\<rparr>)"

lemma demo_runs: "snd (reopen [] (untouched demo_disk 0 (Inl [ErrIO]))) = demo_opened"
  "Bind demo_env demo_coder [''src/a.go'', ''src/b.go''] demo_opened = (Inr ''k'', demo_bound)"
  "snd (Apply demo_env (demo_op ''c1'' 0 OpPatch ''src/a.go'' ''new'') demo_bound) = demo_patched"
  "snd (Apply demo_env (demo_op ''c2'' 1 OpCreate ''src/b.go'' ''made'') demo_patched) = demo_staged"
  by code_simp+

lemma demo_reachable: "reachable demo_env demo_opened" "reachable demo_env demo_bound"
  "reachable demo_env demo_patched" "reachable demo_env demo_staged"
proof -
  show o: "reachable demo_env demo_opened"
    unfolding reachable_def demo_runs(1) [symmetric] using demo_trusted evolves.restart by blast
  show b: "reachable demo_env demo_bound"
    using reachable_step [OF o evolves.bind] demo_runs(2) by (metis snd_conv)
  show p: "reachable demo_env demo_patched"
    unfolding demo_runs(3) [symmetric] Apply_def by (rule reachable_step [OF b evolves.apply_operation])
  show "reachable demo_env demo_staged"
    unfolding demo_runs(4) [symmetric] Apply_def by (rule reachable_step [OF p evolves.apply_operation])
qed

end
