(* ===== verification/Vfs_Run_Props.thy ===== *)
theory Vfs_Run_Props
  imports Vfs_Example
begin

text \<open>
  Properties of whole runs: who owns staged work, which calls are refused, what a committed journal
  and a committed state are still worth after a restart.
\<close>

text \<open>C3: In every state a run reaches, whatever failed on the way, each path an agent has staged is
  owned by that agent, so no two agents ever hold staged content for the same path, and the
  ownership guard of a consolidation never fires.\<close>

theorem staged_work_is_owned:
  assumes "reachable E s" and "map_of (s_staged s) key = Some d" and "mhas (d_files d) p"
  shows "map_of (s_owners s) p = Some key \<and>
    (\<forall>other d'. other \<noteq> key \<longrightarrow> map_of (s_staged s) other = Some d' \<longrightarrow> \<not> mhas (d_files d') p)"
proof -
  have "staged_owned s" using reachable_sound [OF assms(1)] by (simp add: ownership_sound_def owned_store_def)
  then have own: "map_of (s_staged s) k = Some e \<Longrightarrow> mhas (d_files e) p \<Longrightarrow> map_of (s_owners s) p = Some k" for k e
    by (simp add: staged_owned_def)
  have "other = key" if "map_of (s_staged s) other = Some d'" "mhas (d_files d') p" for other d'
    using own [OF assms(2,3)] own [OF that] by simp
  then show ?thesis using own [OF assms(2,3)] by blast
qed

lemma demo_staged_delta: "map_of (s_staged demo_staged) ''k'' = Some (delta_at demo_staged ''k'')"
  "mhas (d_files (delta_at demo_staged ''k'')) ''src/a.go''"
  by code_simp+

theorem staged_work_is_owned_witness: "map_of (s_owners demo_staged) ''src/a.go'' = Some ''k''"
  using staged_work_is_owned [OF demo_reachable(4) demo_staged_delta] by blast

text \<open>Opening a committed store yields what it holds.\<close>

lemma reopened_store:
  assumes "log_sound s" "db_state (f_db s) = Some st"
  shows "store.truncate (snd (reopen fl s)) = st\<lparr>s_journal := db_journal (f_db s)\<rparr>"
    and "s_journal (snd (reopen fl s)) = db_journal (f_db s)"
    and "f_disk (snd (reopen fl s)) = f_disk s" and "f_db (snd (reopen fl s)) = f_db s"
    and "f_persisted (snd (reopen fl s)) = length (db_journal (f_db s))"
proof -
  have r: "replayJournal (db_journal (f_db s)) (Some (length (s_journal st))) = []"
    using assms by (simp add: log_sound_def numbered_def rows_numbered_iff replayJournal_def counted_def)
  have n: "f_db (newFS (f_disk s) fl (f_entropy s) (f_history s) (f_db s)) = f_db s"
    "f_disk (newFS (f_disk s) fl (f_entropy s) (f_history s) (f_db s)) = f_disk s"
    by (simp_all add: newFS_def store.extend_def fs.fields_def)
  show "store.truncate (snd (reopen fl s)) = st\<lparr>s_journal := db_journal (f_db s)\<rparr>"
    "s_journal (snd (reopen fl s)) = db_journal (f_db s)"
    "f_disk (snd (reopen fl s)) = f_disk s" "f_db (snd (reopen fl s)) = f_db s"
    "f_persisted (snd (reopen fl s)) = length (db_journal (f_db s))"
    by (simp_all add: reopen_def loadState_def n assms(2) Let_def r store.truncate_def)
qed

lemma spent_body:
  assumes "mget False (s_calls s) (call_key (id_SessionID (bound s (op_Key op))) (op_CallID op))"
  shows "\<exists>e. e \<noteq> [] \<and> op_body E op view chk s = ((no_result, e), s)"
proof (cases "map_of (s_bindings s) (op_Key op)")
  case None
  then show ?thesis by (simp add: op_body_def admitLocked_def xbind_def vstep)
next
  case (Some i)
  then show ?thesis
    using assms by (simp add: op_body_def admitLocked_def xbind_def vstep consumeCallLocked_def mget_def)
qed

lemma appended_fields [simp]:
  "s_staged (appendJournalLocked e s) = s_staged s" "s_owners (appendJournalLocked e s) = s_owners s"
  "f_disk (appendJournalLocked e s) = f_disk s" "s_calls (appendJournalLocked e s) = s_calls s"
  "s_staged (correlateLocked n key view call s) = s_staged s"
  "s_owners (correlateLocked n key view call s) = s_owners s"
  "f_disk (correlateLocked n key view call s) = f_disk s"
  "s_calls (correlateLocked n key view call s) = s_calls s"
  by (simp_all add: appendJournalLocked_def correlateLocked_def Let_def)

lemma tick_disk [simp]: "f_disk (snd (tick s)) = f_disk s"
  by (simp add: tick_def split: list.split)

lemma finished_fields [simp]:
  "s_staged (snd (finishLocked e s)) = s_staged s" "s_owners (snd (finishLocked e s)) = s_owners s"
  "f_disk (snd (finishLocked e s)) = f_disk s" "s_calls (snd (finishLocked e s)) = s_calls s"
proof -
  have "s_staged (snd (persistLocked s)) = s_staged s \<and> s_owners (snd (persistLocked s)) = s_owners s \<and>
      f_disk (snd (persistLocked s)) = f_disk s \<and> s_calls (snd (persistLocked s)) = s_calls s"
    by (rule persist_cases [of s]) simp_all
  then show "s_staged (snd (finishLocked e s)) = s_staged s" "s_owners (snd (finishLocked e s)) = s_owners s"
    "f_disk (snd (finishLocked e s)) = f_disk s" "s_calls (snd (finishLocked e s)) = s_calls s"
    by (auto intro: finish_cases [of e s])
qed

text \<open>A finished command returns its own errors, or reports that the store failed.\<close>

lemma finish_errors: "fst (finishLocked e s) = e \<or> ErrStoreFailed \<in> set (fst (finishLocked e s))"
  by (cases "persistLocked s") (simp add: finishLocked_def)

lemma finish_extends: "set e \<subseteq> set (fst (finishLocked e s))"
  by (cases "persistLocked s") (auto simp: finishLocked_def)

lemma finish_committed:
  assumes "ErrStoreFailed \<notin> set (fst (finishLocked e s))"
  obtains "fst (persistLocked s) = []" "\<not> f_fault s"
    "db_state (f_db (snd (persistLocked s))) = Some (store.truncate s)"
    "snd (finishLocked e s) = (snd (persistLocked s))
       \<lparr>f_persisted := length (s_journal (snd (persistLocked s))), f_collisions := []\<rparr>"
proof -
  have f: "\<not> f_fault s" "fst (persistLocked s) = []"
    using assms by (cases "persistLocked s", auto simp: finishLocked_def split: if_splits)+
  then have p: "persistLocked s = ([], snd (persistLocked s))" by (cases "persistLocked s") simp
  moreover have "db_state (f_db (snd (persistLocked s))) = Some (store.truncate s)"
    by (rule persist_cases [of s]) (use p in auto)
  moreover have "snd (finishLocked e s) = (snd (persistLocked s))
       \<lparr>f_persisted := length (s_journal (snd (persistLocked s))), f_collisions := []\<rparr>"
    by (subst finishLocked_def, subst p) (simp add: f)
  ultimately show thesis using that f by blast
qed

lemma committed_call_kept:
  assumes "ErrStoreFailed \<notin> set (fst (finishLocked e s))" and "spent k s"
  shows "call_kept k (snd (finishLocked e s))"
proof (rule finish_committed [OF assms(1)])
  assume db: "db_state (f_db (snd (persistLocked s))) = Some (store.truncate s)"
    and fin: "snd (finishLocked e s) = (snd (persistLocked s))
       \<lparr>f_persisted := length (s_journal (snd (persistLocked s))), f_collisions := []\<rparr>"
  have "spent k (snd (finishLocked e s))" using assms(2) by (simp add: spent_def)
  then show ?thesis using db assms(2) by (simp add: call_kept_def) (simp add: fin)
qed

text \<open>The last state of an operation is that of its commit.\<close>

lemma applyLocked_state:
  obtains err u where "snd (applyLocked E op view chk s) = snd (finishLocked err u)"
    "snd (fst (applyLocked E op view chk s)) = fst (finishLocked err u)"
proof -
  obtain res err u where b: "op_body E op view chk s = ((res, err), u)" by (metis surj_pair)
  let ?u = "correlateLocked (length (s_journal s)) (op_Key op) view (op_CallID op)
        (if err \<noteq> [] \<and> length (s_journal u) = length (s_journal s)
         then appendJournalLocked (denied_entry (op_Key op) (op_Action op)) u else u)"
  have "snd (applyLocked E op view chk s) = snd (finishLocked err ?u)"
    "snd (fst (applyLocked E op view chk s)) = fst (finishLocked err ?u)"
    by (simp_all add: applyLocked_def b Let_def split: prod.split)
  then show thesis by (rule that)
qed

text \<open>C6: A call identifier serves one operation for ever: once an operation of a session has
  spent it and its commit succeeded, every later operation of that session under the same
  identifier is refused and leaves the staged work, the claims and the workspace alone, also after
  crashes and restarts, in every state the run goes on to.\<close>

theorem spent_call_refused:
  assumes "reachable E s" and ready: "readyLocked s = []"
    and op: "Apply E op s = ((result, err), t)" "ErrStoreFailed \<notin> set err"
    and spent: "mget False (s_calls t) (call_key session (op_CallID op))"
    and later: "evolves E t u" and same: "op_CallID op' = op_CallID op"
      "id_SessionID (bound u (op_Key op')) = session"
  shows "snd (fst (Apply E op' u)) \<noteq> [] \<and> s_staged (snd (Apply E op' u)) = s_staged u \<and>
    s_owners (snd (Apply E op' u)) = s_owners u \<and> f_disk (snd (Apply E op' u)) = f_disk u"
proof -
  let ?k = "call_key session (op_CallID op)"
  have a: "applyLocked E op (op_Key op) True s = ((result, err), t)"
    using op(1) ready by (simp add: Apply_def apply_op_def)
  obtain e v where v: "t = snd (finishLocked e v)" "err = fst (finishLocked e v)"
    using applyLocked_state [of E op "op_Key op" True s] a by auto
  have "spent ?k v" using spent by (simp add: v spent_def)
  then have "call_kept ?k t" using op(2) unfolding v by (intro committed_call_kept) simp_all
  moreover have "reachable E t"
    using reachable_step [OF assms(1) evolves.apply_operation [of E s op "op_Key op"]] op(1) by (simp add: Apply_def)
  ultimately have "call_kept ?k u"
    using calls.both.evolves_keeps [OF later, of ?k] reachable_sound by blast
  then have "mget False (s_calls u) (call_key (id_SessionID (bound u (op_Key op'))) (op_CallID op'))"
    by (simp add: call_kept_def spent_def same)
  then obtain e where e: "e \<noteq> []" "op_body E op' (op_Key op') True u = ((no_result, e), u)"
    using spent_body by blast
  show ?thesis
  proof (cases "readyLocked u = []")
    case False
    then show ?thesis by (simp add: Apply_def apply_op_def)
  next
    case True
    let ?w = "correlateLocked (length (s_journal u)) (op_Key op') (op_Key op') (op_CallID op')
        (appendJournalLocked (denied_entry (op_Key op') (op_Action op')) u)"
    have "snd (Apply E op' u) = snd (finishLocked e ?w)" "snd (fst (Apply E op' u)) = fst (finishLocked e ?w)"
      by (simp_all add: Apply_def apply_op_def True applyLocked_def e Let_def split: prod.split)
    moreover have "fst (finishLocked e ?w) \<noteq> []"
      using finish_extends [of e ?w] e(1) by auto
    ultimately show ?thesis by simp
  qed
qed

lemma demo_spent: "readyLocked demo_bound = []"
  "fst (Apply demo_env (demo_op ''c1'' 0 OpPatch ''src/a.go'' ''new'') demo_bound) =
     (\<lparr>or_Content = None, or_Revision = 1, or_DeltaHash = ''#src/a.go=new;'', or_OutdatedPaths = []\<rparr>, [])"
  "mget False (s_calls demo_patched) (call_key ''s'' ''c1'')"
  "id_SessionID (bound (snd (reopen [] demo_patched)) ''k'') = ''s''"
  by code_simp+

theorem spent_call_refused_witness:
  "snd (fst (Apply demo_env (demo_op ''c1'' 1 OpDelete ''src/a.go'' []) (snd (reopen [] demo_patched)))) \<noteq> []"
proof -
  have "Apply demo_env (demo_op ''c1'' 0 OpPatch ''src/a.go'' ''new'') demo_bound = ((\<lparr>or_Content = None,
      or_Revision = 1, or_DeltaHash = ''#src/a.go=new;'', or_OutdatedPaths = []\<rparr>, []), demo_patched)"
    using demo_spent(2) demo_runs(3) by (metis prod.collapse)
  from spent_call_refused [OF demo_reachable(2) demo_spent(1) this _ _ evolves.restart,
      of "''s''" "demo_op ''c1'' 1 OpDelete ''src/a.go'' []" "[]"]
  show ?thesis using demo_spent(3,4) by (simp add: demo_op_def)
qed

text \<open>C5: What has been committed to the journal stays: from any reachable state, whatever the run
  does next, the committed rows remain a prefix of the committed rows, their sequence numbers are
  consecutive from zero, and a store that was ever committed can always be opened again and yields
  exactly that journal.\<close>

theorem committed_journal_is_kept:
  assumes "reachable E s" "evolves E s t"
  shows "prefix (db_journal (f_db s)) (db_journal (f_db t)) \<and>
    map je_Seq (db_journal (f_db t)) = [0 ..< length (db_journal (f_db t))] \<and>
    (db_state (f_db t) \<noteq> None \<longrightarrow>
      fst (reopen fl t) = Inr () \<and> s_journal (snd (reopen fl t)) = db_journal (f_db t))"
proof -
  have "rows_kept (db_journal (f_db s)) t"
    using rows.both.evolves_keeps [OF assms(2)] reachable_sound [OF assms(1)] by (simp add: rows_kept_def)
  moreover have t: "log_sound t" using reachable_sound [OF reachable_step [OF assms]] by blast
  moreover have "map je_Seq (db_journal (f_db t)) = [0 ..< length (db_journal (f_db t))]"
    using t by (intro nth_equalityI) (simp_all add: log_sound_def numbered_def)
  moreover have "s_journal (snd (reopen fl t)) = db_journal (f_db t)" if "db_state (f_db t) \<noteq> None"
    using that t by (auto simp: reopened_store)
  ultimately show ?thesis using reopen_sound(1) [OF t] by (auto simp: rows_kept_def)
qed

theorem committed_journal_is_kept_witness:
  "prefix (db_journal (f_db demo_patched)) (db_journal (f_db demo_staged)) \<and>
   fst (reopen [] demo_staged) = Inr () \<and> length (db_journal (f_db demo_staged)) = 2"
proof -
  have "evolves demo_env demo_patched demo_staged"
    using evolves.apply_operation [of demo_env demo_patched "demo_op ''c2'' 1 OpCreate ''src/b.go'' ''made''" "''k''"]
      demo_runs(4) by (simp add: Apply_def demo_op_def)
  from committed_journal_is_kept [OF demo_reachable(3) this, of "[]"]
  show ?thesis by (simp add: demo_staged_def demo_patched_def committed_def)
qed

text \<open>The committed rows are the journal as far as it was committed.\<close>

definition synced :: "fs \<Rightarrow> bool" where
  "synced s \<longleftrightarrow> f_persisted s \<le> length (s_journal s) \<and> db_journal (f_db s) = take (f_persisted s) (s_journal s)"

text \<open>Until it commits, an operation only adds to the journal.\<close>

definition uncommitted :: "fs \<Rightarrow> fs \<Rightarrow> bool" where
  "uncommitted s t \<longleftrightarrow> f_persisted t = f_persisted s \<and> f_db t = f_db s \<and> prefix (s_journal s) (s_journal t)"

lemma uncommitted_refl [simp]: "uncommitted s s"
  by (simp add: uncommitted_def)

lemma uncommitted_steps [simp]:
  "uncommitted s t \<Longrightarrow> uncommitted s (appendJournalLocked e t)"
  "uncommitted s (put_delta key d t) = uncommitted s t"
  "uncommitted s (ensureDelta key t) = uncommitted s t"
  "uncommitted s (stage_delta key rel c t) = uncommitted s t"
  "uncommitted s (releaseOwnershipLocked key t) = uncommitted s t"
  by (simp_all add: uncommitted_def appendJournalLocked_def put_delta_def ensureDelta_def stage_delta_def
      releaseOwnershipLocked_def Let_def)

lemma uncommitted_appends: "uncommitted s t \<Longrightarrow> uncommitted s (fold (\<lambda>p. appendJournalLocked (e p)) ps t)"
  by (induction ps arbitrary: t) simp_all

lemma uncommitted_rollback: "uncommitted s t \<Longrightarrow> uncommitted s (rollbackLocked E key t)"
  by (simp add: rollbackLocked_def uncommitted_appends split: option.split)

lemma uncommitted_joe [keeping]: "keeps (uncommitted s) m \<Longrightarrow> keeps (uncommitted s) (journal_on_error e m)"
  by (fastforce simp: keeps_def journal_on_error_def split: prod.splits sum.splits)

lemma uncommitted_checks [keeping]: "keeps (uncommitted s) (checkOwnership agent rel)"
  "keeps (uncommitted s) (captureBaseLocked E agent rel)"
  "keeps (uncommitted s) (consumeCallLocked session call)"
  by (auto simp: keeps_def checkOwnership_def captureBaseLocked_def consumeCallLocked_def Let_def
      split: option.split sum.split) (auto simp: uncommitted_def)

lemma uncommitted_stage [keeping]: "keeps (uncommitted s) (stageLocked E agent rel content)"
  unfolding stageLocked_def by (intro keeping keeps_mod) simp

lemma uncommitted_read [keeping]: "keeps (uncommitted s) (readLockedAs E agent rel auth)"
  unfolding readLockedAs_def own_view_def by (intro keeping keeps_mod; simp)

lemma uncommitted_dispatch [keeping]: "keeps (uncommitted s) (dispatchLocked E op view i)"
  unfolding dispatchLocked_def
  by (cases "op_Action op"; simp only: OperationType.case; intro keeping keeps_mod; simp add: uncommitted_rollback)

lemma uncommitted_admit [keeping]: "keeps (uncommitted s) (admitLocked E op view chk)"
  unfolding admitLocked_def by (intro keeping)

lemma uncommitted_body: "uncommitted s (snd (op_body E op view chk s))"
proof -
  obtain r t where a: "admitLocked E op view chk s = (r, t)" by fastforce
  have t: "uncommitted s t" using keepsD [OF uncommitted_admit uncommitted_refl a] .
  show ?thesis
    using keepsD [OF uncommitted_dispatch t] t
    by (cases r) (auto simp: op_body_def a split: prod.split)
qed

lemma correlate_synced:
  assumes "synced s" "uncommitted s t"
  shows "synced (correlateLocked (length (s_journal s)) key view call t)"
proof -
  have "take (f_persisted t) (s_journal (correlateLocked (length (s_journal s)) key view call t)) =
      take (f_persisted s) (s_journal s)"
    using assms by (auto simp: synced_def uncommitted_def correlateLocked_def Let_def prefix_def)
  moreover have "f_db (correlateLocked n key view call t) = f_db t"
    "f_persisted (correlateLocked n key view call t) = f_persisted t" for n
    by (simp_all add: correlateLocked_def Let_def)
  moreover have "length (s_journal (correlateLocked (length (s_journal s)) key view call t)) = length (s_journal t)"
    by (simp add: correlate_journal)
  ultimately show ?thesis
    using assms by (auto simp: synced_def uncommitted_def dest: prefix_length_le)
qed

lemma finish_synced:
  assumes "synced s" "ErrStoreFailed \<notin> set (fst (finishLocked e s))"
  shows "db_state (f_db (snd (finishLocked e s))) = Some (store.truncate (snd (finishLocked e s)))"
    and "db_journal (f_db (snd (finishLocked e s))) = s_journal (snd (finishLocked e s))"
    and "f_persisted (snd (finishLocked e s)) = length (s_journal (snd (finishLocked e s)))"
proof -
  obtain p: "fst (persistLocked s) = []" and fin: "snd (finishLocked e s) = (snd (persistLocked s))
       \<lparr>f_persisted := length (s_journal (snd (persistLocked s))), f_collisions := []\<rparr>"
    using finish_committed [OF assms(2)] .
  obtain q: "snd (persistLocked s) = (snd (tick s))\<lparr>f_db := \<lparr>db_state = Some (store.truncate s),
        db_journal = db_journal (f_db s) @ drop (f_persisted s) (s_journal s)\<rparr>\<rparr>"
    using p by (rule_tac persist_cases [of s]) auto
  have "store.truncate (snd (tick s)) = store.truncate s"
    by (simp add: tick_def store.truncate_def split: list.split)
  then show "db_state (f_db (snd (finishLocked e s))) = Some (store.truncate (snd (finishLocked e s)))"
    "db_journal (f_db (snd (finishLocked e s))) = s_journal (snd (finishLocked e s))"
    "f_persisted (snd (finishLocked e s)) = length (s_journal (snd (finishLocked e s)))"
    using assms(1) by (simp_all add: fin q synced_def) (simp_all add: store.truncate_def)
qed

text \<open>C4: An operation that returned without reporting a failed store survives a restart: reopening
  the workspace restores the staged work, the claims, the bindings, the spent calls, the cycles, the
  maintenance document and the journal to exactly what they were when it returned. It starts from a reachable
  state that accepts operations (\<open>readyLocked\<close>: its store has not failed and no flush is left to recover) and whose stored journal is
  the journal as far as it was committed (\<open>synced\<close>), which both the operation and the restart re-establish.\<close>

theorem operation_survives_restart:
  assumes "reachable E s" "synced s" and ready: "readyLocked s = []"
    and op: "Apply E op s = ((result, err), t)" "ErrStoreFailed \<notin> set err"
  shows "synced t \<and> fst (reopen fl t) = Inr () \<and>
    store.truncate (snd (reopen fl t)) = store.truncate t \<and> f_disk (snd (reopen fl t)) = f_disk t \<and>
    synced (snd (reopen fl t))"
proof -
  obtain res e u where b: "op_body E op (op_Key op) True s = ((res, e), u)" by (metis surj_pair)
  define v where "v = correlateLocked (length (s_journal s)) (op_Key op) (op_Key op) (op_CallID op)
        (if e \<noteq> [] \<and> length (s_journal u) = length (s_journal s)
         then appendJournalLocked (denied_entry (op_Key op) (op_Action op)) u else u)"
  have t: "t = snd (finishLocked e v)" "err = fst (finishLocked e v)"
    using op(1) ready by (auto simp: Apply_def apply_op_def applyLocked_def b Let_def v_def split: prod.splits)
  have "uncommitted s u" using uncommitted_body [of s E op "op_Key op" True] by (simp add: b)
  then have "synced v" unfolding v_def using assms(2) by (intro correlate_synced) auto
  note t' = finish_synced [OF this op(2) [unfolded t], folded t]
  have "reachable E t"
    using reachable_step [OF assms(1) evolves.apply_operation [of E s op "op_Key op"]] op(1) by (simp add: Apply_def)
  then have l: "log_sound t" by (simp add: reachable_sound)
  have "synced t" "store.truncate t = (store.truncate t)\<lparr>s_journal := s_journal t\<rparr>"
    using t' by (simp_all add: synced_def store.truncate_def)
  then show ?thesis
    using reopen_sound(1) [OF l t'(1), of fl] reopened_store [OF l t'(1), of fl] t'
    by (simp add: synced_def)
qed

lemma demo_synced: "synced demo_bound" "readyLocked demo_bound = []"
  by (simp_all add: synced_def demo_bound_def committed_def readyLocked_def demo_opened_def newFS_def
      fs.fields_def store.extend_def empty_store_def)

theorem operation_survives_restart_witness:
  "store.truncate (snd (reopen [] demo_patched)) = store.truncate demo_patched"
proof -
  have "Apply demo_env (demo_op ''c1'' 0 OpPatch ''src/a.go'' ''new'') demo_bound = ((\<lparr>or_Content = None,
      or_Revision = 1, or_DeltaHash = ''#src/a.go=new;'', or_OutdatedPaths = []\<rparr>, []), demo_patched)"
    using demo_spent(2) demo_runs(3) by (metis prod.collapse)
  from operation_survives_restart [OF demo_reachable(2) demo_synced this, of "[]"] show ?thesis by simp
qed

end
