(* ===== verification/Vfs_Stage_Props.thy ===== *)
theory Vfs_Stage_Props
  imports Vfs_Run_Props
begin

text \<open>
  Properties of single steps on staged work: what a write does to the views of all agents, when a
  verdict counts, and what it takes to consolidate.
\<close>

section \<open>A write is an update of one view\<close>

lemma check_ownership_ok:
  "checkOwnership agent rel s = (Inr x, t) \<longleftrightarrow> t = s \<and> map_of (s_owners s) rel = Some agent"
  by (auto simp: checkOwnership_def split: option.splits)

text \<open>What each agent reads at each path.\<close>

definition view_of :: "env \<Rightarrow> fs \<Rightarrow> agent_id \<Rightarrow> string \<Rightarrow> string option vres" where
  "view_of E s = readMergedLocked E s"

lemma view_ensure: "view_of E (ensureDelta agent s) k p = view_of E s k p"
  by (simp add: ensureDelta_def put_delta_def mhas_def view_of_def readMergedLocked_def empty_delta_def split: option.split)

lemma stage_delta_eq:
  "map_of (s_staged s) agent = Some d \<Longrightarrow> stage_delta agent rel content s = put_delta agent
     (d\<lparr>d_revision := d_revision d + 1, d_verdicts := [], d_files := mput rel content (d_files d)\<rparr>) s"
  by (simp add: stage_delta_def ensureDelta_def mhas_def delta_at_def mget_def)

lemma view_put: "view_of E (put_delta agent d s) k p =
    (if k = agent then (case map_of (d_files d) p of Some c \<Rightarrow> Inr c
       | None \<Rightarrow> (case map_of (d_bases d) p of Some b \<Rightarrow> Inr (base_content b)
          | None \<Rightarrow> map_sum id base_content (physical E (f_disk s) p)))
     else view_of E s k p)"
  by (simp add: view_of_def readMergedLocked_def put_delta_def split: option.split)

lemma view_stage_delta:
  assumes "map_of (s_staged s) agent = Some d"
  shows "view_of E (stage_delta agent rel content s) = (view_of E s)(agent := (view_of E s agent)(rel := Inr content))"
proof (intro ext)
  fix k p
  show "view_of E (stage_delta agent rel content s) k p =
      ((view_of E s)(agent := (view_of E s agent)(rel := Inr content))) k p"
    by (cases "k = agent"; cases "p = rel")
      (simp_all add: stage_delta_eq [OF assms] view_put, simp add: view_of_def readMergedLocked_def assms split: option.split)
qed

lemma revision_append [simp]: "revisionOf (appendJournalLocked e s) key = revisionOf s key"
  by (simp add: revisionOf_def)

lemma revision_stage: "mhas (s_staged s) agent \<Longrightarrow>
    revisionOf (stage_delta agent rel content s) agent = revisionOf s agent + 1"
  by (auto simp: stage_delta_def Let_def ensureDelta_def put_delta_def delta_at_def revisionOf_def mget_def mhas_def)

lemma view_append [simp]: "view_of E (appendJournalLocked e s) = view_of E s"
  by (intro ext) (simp add: view_of_def readMergedLocked_def split: option.split)

text \<open>Capturing the base of a path fixes what the agent reads there and nothing else.\<close>

lemma capture_base_ok:
  assumes "captureBaseLocked E agent rel s = (Inr x, t)"
  shows "(\<forall>k p. view_of E t k p = view_of E s k p) \<and> f_disk t = f_disk s \<and>
    s_owners t = s_owners s \<and> s_bindings t = s_bindings s \<and> s_journal t = s_journal s \<and>
    revisionOf t agent = revisionOf s agent \<and> mhas (s_staged t) agent"
proof -
  let ?s = "ensureDelta agent s"
  obtain d where d: "map_of (s_staged ?s) agent = Some d" using staged_ensure [of agent s agent] by (auto simp: mhas_def)
  have same: "f_disk ?s = f_disk s" "s_owners ?s = s_owners s" "s_journal ?s = s_journal s"
    "revisionOf ?s agent = revisionOf s agent"
    by (simp_all add: ensureDelta_def put_delta_def revisionOf_def mhas_def empty_delta_def split: option.split)
  consider "t = ?s" | b where "map_of (d_bases d) rel = None" "physical E (f_disk s) rel = Inr b"
      "t = put_delta agent (d\<lparr>d_bases := mput rel b (d_bases d)\<rparr>) ?s"
    using assms same(1) d
    by (auto simp: captureBaseLocked_def Let_def delta_at_def mget_def mhas_def split: if_splits sum.splits)
  then show ?thesis
  proof cases
    case 1
    then show ?thesis by (simp add: same view_ensure)
  next
    case 2
    have "view_of E t k p = view_of E ?s k p" for k p
      using 2(1,2) same(1)
      by (simp add: 2(3) view_put) (simp add: view_of_def readMergedLocked_def d split: option.split)
    moreover have "revisionOf t agent = revisionOf ?s agent" "f_disk t = f_disk s" "s_owners t = s_owners s"
      "s_bindings t = s_bindings s" "s_journal t = s_journal s" "mhas (s_staged t) agent"
      using same by (simp_all add: 2(3) put_delta_def revisionOf_def d)
    ultimately show ?thesis using same(4) by (simp add: view_ensure)
  qed
qed

lemma staged_step:
  assumes "stageLocked E agent rel content s = (Inr u, t)"
  obtains prior s2 where "t = appendJournalLocked (stage_entry E agent rel content prior) (stage_delta agent rel content s2)"
    "\<forall>k p. view_of E s2 k p = view_of E s k p" "f_disk s2 = f_disk s" "s_owners s2 = s_owners s"
    "s_bindings s2 = s_bindings s" "s_journal s2 = s_journal s" "revisionOf s2 agent = revisionOf s agent"
    "readMergedLocked E s agent rel = Inr prior" "map_of (s_owners s) rel = Some agent" "mhas (s_bindings s) agent"
    "validatePath E (f_disk s) rel = []" "mhas (s_staged s2) agent"
proof -
  obtain i s2 prior where i: "map_of (s_bindings s) agent = Some i" "validatePath E (f_disk s) rel = []"
      "map_of (s_owners s) rel = Some agent" "captureBaseLocked E agent rel s = (Inr (), s2)"
      "readMergedLocked E s2 agent rel = Inr prior"
      "t = appendJournalLocked (stage_entry E agent rel content prior) (stage_delta agent rel content s2)"
    using assms
    by (auto simp: stageLocked_def xbind_eq_Inr vstep check_ownership_ok split: option.splits if_splits)
  from capture_base_ok [OF i(4)] i show thesis
    by (intro that [of prior s2]) (simp_all add: mhas_def, metis view_of_def)
qed

lemma staging_updates_one_view_step:
  assumes "stageLocked E agent rel content s = (Inr u, t)"
  shows "revisionOf t agent = revisionOf s agent + 1"
  using staged_step [OF assms] revision_stage by (metis revision_append)

text \<open>C8: Staging refines the update of one agent's view at one path: on success the writer reads
  back what it wrote, every other path and every other agent's view is what it was, the workspace
  and the claims are untouched, the revision of the delta advances by one, and the journal gains
  exactly one entry for the path.\<close>

theorem staging_updates_one_view:
  assumes "stageLocked E agent rel content s = (Inr u, t)"
  shows "view_of E t = (view_of E s)(agent := (view_of E s agent)(rel := Inr content)) \<and>
    f_disk t = f_disk s \<and> s_owners t = s_owners s \<and> revisionOf t agent = revisionOf s agent + 1 \<and>
    (\<exists>e. s_journal t = s_journal s @ [e] \<and> je_Path e = rel \<and> je_Seq e = length (s_journal s) \<and>
       je_AfterHash e = hash_content E content)"
proof -
  obtain prior s2 where s2: "t = appendJournalLocked (stage_entry E agent rel content prior) (stage_delta agent rel content s2)"
    "\<forall>k p. view_of E s2 k p = view_of E s k p" "f_disk s2 = f_disk s" "s_owners s2 = s_owners s"
    "s_journal s2 = s_journal s" "revisionOf s2 agent = revisionOf s agent" "mhas (s_staged s2) agent"
    using staged_step [OF assms] by metis
  have "view_of E s2 = view_of E s" by (intro ext) (simp add: s2(2))
  then have "view_of E t = (view_of E s)(agent := (view_of E s agent)(rel := Inr content))"
    using s2(7) by (auto simp: s2(1) view_stage_delta mhas_def)
  moreover have "f_disk t = f_disk s" "s_owners t = s_owners s" "revisionOf t agent = revisionOf s agent + 1"
    "s_journal (stage_delta agent rel content s2) = s_journal s"
    using s2(3-7) by (simp_all add: s2(1) revision_stage) (simp_all add: stage_delta_def Let_def ensureDelta_def put_delta_def)
  moreover define e where "e = stamped_entry (stage_delta agent rel content s2) (stage_entry E agent rel content prior)"
  moreover have "s_journal t = s_journal s @ [e]"
    using \<open>s_journal (stage_delta agent rel content s2) = s_journal s\<close>
    by (simp add: s2(1) appendJournalLocked_def e_def)
  moreover have "je_Path e = rel" "je_AfterHash e = hash_content E content"
    by (simp_all add: e_def stamped_entry_def stage_entry_def entry_for_def stamp_def Let_def split: option.split)
  moreover have "je_Seq e = length (s_journal s)" using s2(5)
    by (simp add: e_def stage_delta_def Let_def ensureDelta_def put_delta_def)
  ultimately show ?thesis by blast
qed

lemma demo_stages: "fst (stageLocked demo_env ''k'' ''src/b.go'' (Some ''made'') demo_patched) = Inr ()"
  by code_simp

theorem staging_updates_one_view_witness:
  "view_of demo_env (snd (stageLocked demo_env ''k'' ''src/b.go'' (Some ''made'') demo_patched)) ''k'' ''src/b.go'' =
     Inr (Some ''made'')"
  using staging_updates_one_view [OF prod.collapse [symmetric, of "stageLocked demo_env ''k'' ''src/b.go'' (Some ''made'') demo_patched",
      unfolded demo_stages]] by simp

section \<open>Verdicts\<close>

lemma current_verdicts_iff: "x \<in> set (currentVerdictsLocked E s key) \<longleftrightarrow>
    (\<exists>d judge v. map_of (s_staged s) key = Some d \<and> map_of (d_verdicts d) judge = Some v \<and>
       verdict_current E s key v \<and> x = \<lparr>vs_VerifierKey = judge, vs_Pass = vv_Pass v, vs_Finding = vv_Finding v\<rparr>)"
proof (cases "map_of (s_staged s) key")
  case (Some d)
  have "judge \<in> set (sorted_keys (d_verdicts d))" if "map_of (d_verdicts d) judge = Some v" for judge v
    using that mhas_keys [of "d_verdicts d" judge] by (simp add: mhas_def)
  then show ?thesis by (auto simp: currentVerdictsLocked_def Some split: option.splits if_splits; metis)
qed (simp add: currentVerdictsLocked_def)

text \<open>C9: Staging anything after a review takes every verdict on the delta back: none is current, the
  maintenance gate asks for a new verification, and a judge that had read the delta only at its
  earlier revision cannot attach a verdict any more.\<close>

theorem staging_withdraws_verdicts:
  assumes "stageLocked E agent rel content s = (Inr u, t)"
  shows "currentVerdictsLocked E t agent = [] \<and> maintenanceGateLocked E t agent = [ErrVerificationRequired] \<and>
    (id_JudgedRevision (bound t gate) = revisionOf s agent \<longrightarrow>
     verifyJudgedLocked E gate agent call pass finding t = (Inl [ErrInvalidVerdict], t))"
proof -
  obtain prior s2 where s2: "t = appendJournalLocked (stage_entry E agent rel content prior) (stage_delta agent rel content s2)"
    "revisionOf s2 agent = revisionOf s agent" "mhas (s_staged s2) agent"
    using staged_step [OF assms] by metis
  obtain d where d: "map_of (s_staged s2) agent = Some d" using s2(3) by (auto simp: mhas_def)
  have v: "d_verdicts (delta_at t agent) = []" "map_of (s_staged t) agent = Some (delta_at t agent)"
    by (simp_all add: s2(1) stage_delta_eq [OF d] delta_at_def put_delta_def mget_def)
  then have c: "currentVerdictsLocked E t agent = []"
    by (simp add: currentVerdictsLocked_def sorted_keys_def mkeys_def)
  have "revisionOf t agent \<noteq> revisionOf s agent"
    using staging_updates_one_view_step [OF assms] by simp
  then show ?thesis
    using v c by (auto simp: maintenanceGateLocked_def verifyJudgedLocked_def Let_def)
qed

theorem staging_withdraws_verdicts_witness:
  "currentVerdictsLocked demo_env (snd (stageLocked demo_env ''k'' ''src/b.go'' (Some ''made'') demo_patched)) ''k'' = []"
  using staging_withdraws_verdicts [OF prod.collapse [symmetric, of "stageLocked demo_env ''k'' ''src/b.go'' (Some ''made'') demo_patched",
      unfolded demo_stages]] by blast

lemma current_cong:
  "s_staged t = s_staged s \<Longrightarrow> s_bindings t = s_bindings s \<Longrightarrow> f_disk t = f_disk s \<Longrightarrow>
   currentVerdictsLocked E t key = currentVerdictsLocked E s key"
  by (simp add: currentVerdictsLocked_def verdict_current_def verdictDescribesLocked_def deltaHashLocked_def
      cong: option.case_cong)

lemma finishing_Inr: "finishing m s = (Inr x, t) \<Longrightarrow>
    \<exists>w. m s = (Inr x, w) \<and> t = snd (finishLocked [] w) \<and> fst (finishLocked [] w) = []"
  by (auto simp: finishing_def err_of_def split: prod.splits sum.splits if_splits)

lemma verify_commits:
  assumes "Verify E verifier author call expected hash pass finding s = (Inr u, t)"
  shows "\<exists>w. verify_body E verifier author call expected hash pass finding s = (Inr (), w) \<and>
    currentVerdictsLocked E t key = currentVerdictsLocked E w key"
proof -
  have "verifyLocked E verifier author call expected hash pass finding s = (Inr u, t)"
    using assms by (auto simp: Verify_def guarded_def xbind_eq_Inr vstep split: if_splits)
  then obtain w where w: "verify_body E verifier author call expected hash pass finding s = (Inr u, w)"
    "t = snd (finishLocked [] (correlateLocked (length (s_journal s)) verifier author call w))"
    unfolding verifyLocked_def Let_def
    by (auto dest!: finishing_Inr split: prod.splits sum.splits if_splits simp: err_of_def)
  moreover have "currentVerdictsLocked E t key = currentVerdictsLocked E w key"
    by (rule current_cong) (simp_all add: w(2))
  ultimately show ?thesis by auto
qed

text \<open>C10: A verdict that was accepted describes the work as it stands: its judge has the grant to
  verify, is another agent than the author in the same session under the same invariants, and its gate
  is not superseded; the revision and hash it names are those of the delta at that moment, a
  rejection says why; it is then current, and a rejection makes consolidation without explicit
  acceptance fail.\<close>

theorem accepted_verdict_is_current:
  assumes "Verify E verifier author call expected hash pass finding s = (Inr u, t)"
  shows "id_AgentID (bound s verifier) \<noteq> id_AgentID (bound s author) \<and>
    id_SessionID (bound s verifier) = id_SessionID (bound s author) \<and>
    id_InvariantsHash (bound s verifier) = id_InvariantsHash (bound s author) \<and>
    RequireVFSCapability E (id_Specialist (bound s verifier)) CapVerify = [] \<and>
    id_GateAuthorKey (bound s verifier) = author \<and> \<not> id_Superseded (bound s verifier) \<and>
    expected = revisionOf s author \<and> hash = deltaHashLocked E s author \<and> (pass \<or> \<not> blank finding) \<and>
    \<lparr>vs_VerifierKey = id_AgentID (bound s verifier), vs_Pass = pass, vs_Finding = finding\<rparr>
       \<in> set (currentVerdictsLocked E t author) \<and>
    (pass \<or> consolidationAcceptedLocked E t author False = [ErrFailingVerdict])"
proof -
  obtain w where body: "verify_body E verifier author call expected hash pass finding s = (Inr (), w)"
    and t: "currentVerdictsLocked E t author = currentVerdictsLocked E w author"
    using assms verify_commits by blast
  obtain v a version d w1 where w: "map_of (s_bindings s) verifier = Some v" "map_of (s_bindings s) author = Some a"
      "RequireVFSCapability E (id_Specialist v) CapVerify = []" "verifies v author a" "\<not> id_Superseded v"
      "id_AgentID v \<noteq> id_AgentID a" "map_of (s_staged s) author = Some d" "d_revision d = expected"
      "deltaHashLocked E s author = hash" "pass \<or> \<not> blank finding"
      "invariantsVersionLocked E (f_disk s) (id_Invariants a) = Inr version"
      "consumeCallLocked (id_SessionID v) call s = (Inr (), w1)"
      "w = appendJournalLocked (verdict_entry verifier pass hash)
             (attach_verdict author (verdict_of v a expected hash version pass finding) w1)"
    using body by (auto simp: verify_body_def xbind_eq_Inr vstep admitVerifierLocked_def validVerdict_def
        split: option.splits if_splits)
  let ?v = "verdict_of v a expected hash version pass finding"
  let ?x = "\<lparr>vs_VerifierKey = id_AgentID v, vs_Pass = pass, vs_Finding = finding\<rparr>"
  have w1: "s_staged w1 = s_staged s" "s_bindings w1 = s_bindings s" "f_disk w1 = f_disk s"
    using w(12) by (auto simp: consumeCallLocked_def split: if_splits)
  have att: "map_of (s_staged w) author = Some (d\<lparr>d_verdicts := mput (id_AgentID v) ?v (d_verdicts d)\<rparr>)"
    "s_bindings w = s_bindings s" "f_disk w = f_disk s"
    by (simp_all add: w(13) attach_verdict_def Let_def put_delta_def delta_at_def mget_def w1 w(7) verdict_of_def)
  have "verdict_current E w author ?v"
    using w(8,9,11) by (simp add: verdict_current_def verdictDescribesLocked_def att w(2) w(7) deltaHashLocked_def verdict_of_def)
  then have "?x \<in> set (currentVerdictsLocked E w author)"
    unfolding current_verdicts_iff using att(1) by (force simp: verdict_of_def)
  moreover have "pass \<or> consolidationAcceptedLocked E t author False = [ErrFailingVerdict]"
    using calculation by (auto simp: consolidationAcceptedLocked_def failingVerdictsLocked_def list_ex_iff t)
  ultimately show ?thesis
    using w(3-10) by (auto simp: t mget_def w(1,2) verifies_def revisionOf_def)
qed

definition demo_gated :: fs where
  "demo_gated = committed (demo_staged\<lparr>
     s_bindings := s_bindings demo_staged @ [(''kk'', demo_judge\<lparr>id_Role := ''reviewer'',
       id_InvariantsHash := ''#'', id_GateAuthorKey := ''k'', id_Prelaunch := True\<rparr>)],
     s_staged := s_staged demo_staged @ [(''kk'', empty_delta)], f_entropy := 2\<rparr>)"

lemma demo_gates: "AssignVerifier demo_env demo_judge ''k'' demo_staged = (Inr ''kk'', demo_gated)"
  by code_simp

definition demo_verdict :: "(verror list + unit) \<times> fs" where
  "demo_verdict = Verify demo_env ''kk'' ''k'' ''v1'' 2 (deltaHashLocked demo_env demo_gated ''k'') False
     ''broken'' demo_gated"

lemma demo_verdict_accepted: "fst demo_verdict = Inr ()"
  by code_simp

theorem accepted_verdict_is_current_witness:
  "consolidationAcceptedLocked demo_env (snd demo_verdict) ''k'' False = [ErrFailingVerdict]"
proof -
  have "demo_verdict = (Inr (), snd demo_verdict)" using demo_verdict_accepted by (metis prod.collapse)
  from accepted_verdict_is_current [OF this [unfolded demo_verdict_def]]
  show ?thesis by (simp add: demo_verdict_def)
qed

section \<open>Consolidation is gated\<close>

lemma consolidate_checkpoint_ok:
  assumes "consolidateCheckpointLocked E key cp expected accept s = (Inr u, t)"
  shows "mhas (s_bindings s) key \<and> stagedLocked s key \<and> revisionOf s key = expected \<and>
    (id_CycleID (bound s key) = [] \<longrightarrow> consolidationAcceptedLocked E s key accept = []) \<and>
    (\<exists>w. consolidateLocked E key s = (Inr (), w) \<and> t = snd (finishLocked []
       (correlateLocked (length (s_journal s)) key key
         (''checkpoint/'' @ hashOf E (if blank cp then key @ ''@'' @ show_nat (unat expected) else cp) True) w)) \<and>
       fst (finishLocked [] (correlateLocked (length (s_journal s)) key key
         (''checkpoint/'' @ hashOf E (if blank cp then key @ ''@'' @ show_nat (unat expected) else cp) True) w)) = [])"
  using assms
  by (auto simp: consolidateCheckpointLocked_def Let_def verdictRequiredLocked_def
      dest!: finishing_Inr split: if_splits prod.splits)

lemma accepted_iff: "consolidationAcceptedLocked E s key accept = [] \<longleftrightarrow>
    accept \<or> (\<forall>v \<in> set (currentVerdictsLocked E s key). vs_Pass v)"
  by (auto simp: consolidationAcceptedLocked_def failingVerdictsLocked_def list_ex_iff)

lemma gate_iff: "maintenanceGateLocked E s key = [] \<longleftrightarrow>
    currentVerdictsLocked E s key \<noteq> [] \<and> (\<forall>v \<in> set (currentVerdictsLocked E s key). vs_Pass v)"
  by (auto simp: maintenanceGateLocked_def Let_def list_ex_iff)

text \<open>C7: What reaches the workspace has passed its gate: a consolidation that succeeds consolidates
  existing staged work at exactly the revision it names; work of a maintenance cycle then carries a
  current verdict and only passing ones, other work carries no current rejection unless the
  rejections were explicitly accepted. A consolidation by a caller succeeds only for the orchestrator
  in its own session, with its grant, on a claim of that session that is not a gate, and an acceptance
  must name the revision and hash the work has now.\<close>

theorem consolidation_is_gated:
  "(ConsolidateCheckpoint E key cp expected accept s = (Inr u, t) \<longrightarrow>
     stagedLocked s key \<and> revisionOf s key = expected \<and>
     (if id_CycleID (bound s key) \<noteq> []
      then currentVerdictsLocked E s key \<noteq> [] \<and> (\<forall>v \<in> set (currentVerdictsLocked E s key). vs_Pass v)
      else accept \<or> (\<forall>v \<in> set (currentVerdictsLocked E s key). vs_Pass v))) \<and>
   (ConsolidateAs E c key cp accepted s = (Inr n, t) \<longrightarrow>
     c_Agent c = OrchestratorInstance \<and> c_HostSession c = c_SessionID c \<and>
     RequireVFSCapability E OrchestratorInstance CapConsolidate = [] \<and>
     id_GateAuthorKey (bound s key) = [] \<and> id_SessionID (bound s key) = c_SessionID c \<and>
     (if accepted = None then (\<forall>v \<in> set (currentVerdictsLocked E s key). vs_Pass v)
      else accepted = Some (revisionOf s key, deltaHashLocked E s key)))"
proof -
  have gate: "stagedLocked s key \<and> revisionOf s key = x \<and>
      (if id_CycleID (bound s key) \<noteq> []
       then currentVerdictsLocked E s key \<noteq> [] \<and> (\<forall>v \<in> set (currentVerdictsLocked E s key). vs_Pass v)
       else b \<or> (\<forall>v \<in> set (currentVerdictsLocked E s key). vs_Pass v))"
    if c: "consolidateCheckpointLocked E key cp x b s = (Inr y, t)" for x b y t
  proof -
    note ok = consolidate_checkpoint_ok [OF c]
    then obtain w d where "consolidateLocked E key s = (Inr (), w)" "map_of (s_staged s) key = Some d"
      by (auto simp: stagedLocked_def split: option.splits)
    then have "id_CycleID (bound s key) \<noteq> [] \<Longrightarrow> maintenanceGateLocked E s key = []"
      by (auto simp: consolidateLocked_def verdictRequiredLocked_def split: if_splits)
    with ok show ?thesis by (auto simp: accepted_iff gate_iff)
  qed
  have "c_Agent c = OrchestratorInstance \<and> c_HostSession c = c_SessionID c \<and>
     RequireVFSCapability E OrchestratorInstance CapConsolidate = [] \<and>
     id_GateAuthorKey (bound s key) = [] \<and> id_SessionID (bound s key) = c_SessionID c \<and>
     (if accepted = None then (\<forall>v \<in> set (currentVerdictsLocked E s key). vs_Pass v)
      else accepted = Some (revisionOf s key, deltaHashLocked E s key))"
    if c: "ConsolidateAs E c key cp accepted s = (Inr n, t)"
  proof -
    obtain w where w: "orchestratorKeyLocked E c key CapConsolidate s = []"
        "accepted = None \<or> accepted = Some (revisionOf s key, deltaHashLocked E s key)"
        "consolidateCheckpointLocked E key cp (revisionOf s key) (accepted \<noteq> None) s = (Inr (), w)"
      using c by (auto simp: ConsolidateAs_def guarded_def xbind_eq_Inr vstep split: if_splits option.splits)
    have "\<forall>v \<in> set (currentVerdictsLocked E s key). vs_Pass v" if "accepted = None"
      using gate [OF w(3)] that by (simp split: if_splits)
    moreover have "c_Agent c = OrchestratorInstance \<and> c_HostSession c = c_SessionID c \<and>
       RequireVFSCapability E OrchestratorInstance CapConsolidate = [] \<and>
       id_GateAuthorKey (bound s key) = [] \<and> id_SessionID (bound s key) = c_SessionID c"
      using w(1) by (auto simp: orchestratorKeyLocked_def closableKeyLocked_def Let_def mget_def
          split: if_splits option.splits)
    ultimately show ?thesis using w(2) by auto
  qed
  moreover have "consolidateCheckpointLocked E key cp expected accept s = (Inr u, t)"
    if "ConsolidateCheckpoint E key cp expected accept s = (Inr u, t)"
    using that by (auto simp: ConsolidateCheckpoint_def guarded_def xbind_eq_Inr vstep split: if_splits)
  ultimately show ?thesis using gate by blast
qed

definition demo_orchestrator :: Caller where
  "demo_orchestrator = \<lparr>c_Dispatch = [], c_SessionID = ''s'', c_HostSession = ''s'', c_Agent = ''takt'',
     c_WorkUnitID = [], c_AttemptID = []\<rparr>"

lemma demo_consolidates: "fst (ConsolidateAs demo_env demo_orchestrator ''k'' [] None demo_staged) = Inr 3"
  by code_simp

theorem consolidation_is_gated_witness:
  "list_all vs_Pass (currentVerdictsLocked demo_env demo_staged ''k'') \<and>
   id_SessionID (bound demo_staged ''k'') = c_SessionID demo_orchestrator"
proof -
  have "ConsolidateAs demo_env demo_orchestrator ''k'' [] None demo_staged =
      (Inr 3, snd (ConsolidateAs demo_env demo_orchestrator ''k'' [] None demo_staged))"
    using demo_consolidates by (metis prod.collapse)
  then show ?thesis
    using consolidation_is_gated [THEN conjunct2, rule_format, of demo_env demo_orchestrator "''k''" "[]" None demo_staged 3]
    by (simp add: list_all_iff)
qed

end
