(* ===== verification/Vfs_Recovery.thy ===== *)
theory Vfs_Recovery
  imports Vfs_Stage_Props
begin

text \<open>
  Why a flush that did not finish can be undone: which differences from the workspace it started on
  are possible while a manifest is pending, and that the recovery of the manifest removes them. A
  crash is a restart, so the committed manifest and the one in memory are tracked side by side.
\<close>

section \<open>Differences a manifest allows\<close>

abbreviation manifest_temps :: "recoveryManifest \<Rightarrow> string set" where
  "manifest_temps m \<equiv> ri_Temp ` set (rm_Items m)"

abbreviation touched_paths :: "recoveryManifest \<Rightarrow> string set" where
  "touched_paths m \<equiv> set (take (rm_Intent m) (map ri_Path (rm_Items m)))"

definition allowed :: "recoveryManifest \<Rightarrow> string set" where
  "allowed m = touched_paths m \<union> manifest_temps m \<union> set (rm_Dirs m)"

text \<open>The plan of a flush over the workspace \<open>d0\<close>.\<close>

definition planned :: "env \<Rightarrow> disk \<Rightarrow> recoveryManifest \<Rightarrow> bool" where
  "planned E d0 m \<longleftrightarrow> (\<forall>p \<in> manifest_temps m \<union> set (rm_Dirs m). map_of d0 p = None) \<and>
     (\<forall>i \<in> set (rm_Items m). physical E d0 (ri_Path i) = Inr (ri_Before i)) \<and>
     distinct (map ri_Path (rm_Items m))"

definition differs :: "disk \<Rightarrow> disk \<Rightarrow> string set" where
  "differs d0 d = {p. map_of d p \<noteq> map_of d0 p}"

definition undoable :: "env \<Rightarrow> disk \<Rightarrow> disk \<Rightarrow> recoveryManifest option \<Rightarrow> bool" where
  "undoable E d0 d r \<longleftrightarrow>
    (case r of None \<Rightarrow> differs d0 d = {} | Some m \<Rightarrow> planned E d0 m \<and> differs d0 d \<subseteq> allowed m)"

text \<open>After a crash here, and going on from here; \<open>staged0\<close> is the work to be kept.\<close>

definition crash_safe :: "env \<Rightarrow> disk \<Rightarrow> (agent_id, agentDelta) gomap \<Rightarrow> fs \<Rightarrow> bool" where
  "crash_safe E d0 staged0 s \<longleftrightarrow> (\<exists>st. db_state (f_db s) = Some st \<and> s_staged st = staged0 \<and>
     undoable E d0 (f_disk s) (s_recovery st))"

definition flush_base :: "env \<Rightarrow> disk \<Rightarrow> (agent_id, agentDelta) gomap \<Rightarrow> fs \<Rightarrow> bool" where
  "flush_base E d0 staged0 s \<longleftrightarrow> crash_safe E d0 staged0 s \<and> s_staged s = staged0 \<and>
     undoable E d0 (f_disk s) (s_recovery s)"

text \<open>Between commands the manifest in memory is the committed one, unless a commit has failed.\<close>

definition manifest_synced :: "fs \<Rightarrow> bool" where
  "manifest_synced s \<longleftrightarrow> (\<exists>st. db_state (f_db s) = Some st \<and> s_recovery st = s_recovery s)"

definition flush_safe :: "env \<Rightarrow> disk \<Rightarrow> (agent_id, agentDelta) gomap \<Rightarrow> fs \<Rightarrow> bool" where
  "flush_safe E d0 staged0 s \<longleftrightarrow> flush_base E d0 staged0 s \<and> (f_fault s \<or> manifest_synced s)"

text \<open>A manifest pending in both, and one that is not committed yet.\<close>

definition logged :: "env \<Rightarrow> disk \<Rightarrow> (agent_id, agentDelta) gomap \<Rightarrow> recoveryManifest \<Rightarrow> fs \<Rightarrow> bool" where
  "logged E d0 staged0 m s \<longleftrightarrow> flush_base E d0 staged0 s \<and> s_recovery s = Some m \<and> manifest_synced s"

definition noted :: "env \<Rightarrow> disk \<Rightarrow> (agent_id, agentDelta) gomap \<Rightarrow> recoveryManifest \<Rightarrow> fs \<Rightarrow> bool" where
  "noted E d0 staged0 m s \<longleftrightarrow> flush_base E d0 staged0 s \<and> s_recovery s = Some m"

lemmas flush_defs = flush_safe_def flush_base_def crash_safe_def logged_def noted_def manifest_synced_def

lemma logged_safe: "logged E d0 staged0 m s \<Longrightarrow> flush_safe E d0 staged0 s"
  and safe_base: "flush_safe E d0 staged0 s \<Longrightarrow> flush_base E d0 staged0 s"
  and noted_base: "noted E d0 staged0 m s \<Longrightarrow> flush_base E d0 staged0 s"
  and logged_noted: "logged E d0 staged0 m s \<Longrightarrow> noted E d0 staged0 m s"
  by (simp_all add: logged_def noted_def flush_safe_def)

lemma logged_iff: "logged E d0 staged0 m s \<longleftrightarrow> s_recovery s = Some m \<and> s_staged s = staged0 \<and>
    planned E d0 m \<and> differs d0 (f_disk s) \<subseteq> allowed m \<and>
    (\<exists>st. db_state (f_db s) = Some st \<and> s_recovery st = Some m \<and> s_staged st = staged0)"
  by (auto simp: flush_defs undoable_def)

text \<open>Changes outside the workspace, the manifest, the staged work and the database do not matter.\<close>

lemma safe_cong:
  assumes "f_disk t = f_disk s" "s_recovery t = s_recovery s" "s_staged t = s_staged s" "f_db t = f_db s"
  shows "flush_base E d0 staged0 t = flush_base E d0 staged0 s" "logged E d0 staged0 m t = logged E d0 staged0 m s"
    "noted E d0 staged0 m t = noted E d0 staged0 m s"
    "f_fault t = f_fault s \<Longrightarrow> flush_safe E d0 staged0 t = flush_safe E d0 staged0 s"
  using assms by (simp_all add: flush_defs)

lemma tick_more [simp]: "s_recovery (snd (tick s)) = s_recovery s" "f_fault (snd (tick s)) = f_fault s"
  by (simp_all add: tick_def split: list.split)

lemma safe_tick [simp]: "flush_base E d0 staged0 (snd (tick s)) = flush_base E d0 staged0 s"
  "logged E d0 staged0 m (snd (tick s)) = logged E d0 staged0 m s"
  "noted E d0 staged0 m (snd (tick s)) = noted E d0 staged0 m s"
  by (rule safe_cong; simp)+

lemma safe_append [simp]: "flush_base E d0 staged0 (appendJournalLocked e s) = flush_base E d0 staged0 s"
  "logged E d0 staged0 m (appendJournalLocked e s) = logged E d0 staged0 m s"
  by (rule safe_cong; simp add: appendJournalLocked_def)+

section \<open>Commits\<close>

text \<open>A finished command leaves its state alone only when a commit failed before.\<close>

lemma finish_unchanged:
  assumes "snd (finishLocked e s) = s"
  shows "f_fault s \<or> manifest_synced s"
proof (cases "f_fault s")
  case False
  show ?thesis
  proof (rule persist_cases [of s])
    assume p: "persistLocked s = ([ErrIO], snd (tick s))"
    then have "snd (finishLocked e s) = (snd (tick s))\<lparr>f_fault := True\<rparr>" by (simp add: finishLocked_def False)
    then show ?thesis using assms False by (metis fs.select_convs(1) fs.update_convs(1) fs.surjective)
  next
    assume p: "persistLocked s = ([], (snd (tick s))\<lparr>f_db := \<lparr>db_state = Some (store.truncate s),
        db_journal = db_journal (f_db s) @ drop (f_persisted s) (s_journal s)\<rparr>\<rparr>)"
    have "db_state (f_db (snd (finishLocked e s))) = Some (store.truncate s)"
      by (simp add: finishLocked_def False p)
    then show ?thesis using assms by (simp add: manifest_synced_def store.truncate_def)
  qed
qed simp

lemma persist_recovery [simp]: "s_recovery (snd (persistLocked s)) = s_recovery s"
  "f_disk (snd (persistLocked s)) = f_disk s" "s_staged (snd (persistLocked s)) = s_staged s"
  by (rule persist_cases [of s], simp_all)+

lemma persist_base: "flush_base E d0 staged0 s \<Longrightarrow> flush_base E d0 staged0 (snd (persistLocked s))"
  by (rule persist_cases [of s]) (auto simp: flush_defs store.truncate_def)

lemma persist_synced: "fst (persistLocked s) = [] \<Longrightarrow> manifest_synced (snd (persistLocked s))"
  by (rule persist_cases [of s]) (auto simp: flush_defs store.truncate_def)

text \<open>A commit that fails bars every later command, so it may leave the two manifests apart.\<close>

lemma failed_commit_safe:
  assumes "flush_base E d0 staged0 s"
  shows "flush_safe E d0 staged0 ((snd (persistLocked s))\<lparr>f_fault := True\<rparr>)"
  using persist_base [OF assms] by (simp add: flush_defs)

lemma checkpoint_logs: "triple (\<lambda>s. noted E d0 staged0 m s \<and> X (f_disk s)) checkpointLocked
    (\<lambda>_ s. logged E d0 staged0 m s \<and> X (f_disk s)) (flush_safe E d0 staged0)"
proof (rule tripleI)
  fix s x t assume s: "noted E d0 staged0 m s \<and> X (f_disk s)" "checkpointLocked s = (Inr x, t)"
  then have "fst (persistLocked s) = []" "t = snd (persistLocked s)"
    by (cases "persistLocked s"; simp add: checkpointLocked_def split: if_splits)+
  then show "logged E d0 staged0 m t \<and> X (f_disk t)"
    using persist_base [of E d0 staged0 s] persist_synced [of s] s(1) by (simp add: logged_def noted_def)
next
  fix s e t assume s: "noted E d0 staged0 m s \<and> X (f_disk s)" "checkpointLocked s = (Inl e, t)"
  then show "flush_safe E d0 staged0 t"
    using failed_commit_safe [of E d0 staged0 s]
    by (cases "persistLocked s") (simp add: checkpointLocked_def noted_def split: if_splits)
qed

lemma finish_safe: "flush_base E d0 staged0 s \<Longrightarrow> flush_safe E d0 staged0 (snd (finishLocked e s))"
proof (rule finish_cases [of e s])
  assume s: "flush_base E d0 staged0 s"
  show "snd (finishLocked e s) = s \<Longrightarrow> flush_safe E d0 staged0 (snd (finishLocked e s))"
    using finish_unchanged [of e s] s by (auto simp: flush_safe_def)
  show "snd (finishLocked e s) = (snd (persistLocked s))\<lparr>f_fault := True\<rparr> \<Longrightarrow>
      flush_safe E d0 staged0 (snd (finishLocked e s))"
    using failed_commit_safe [OF s] by simp
  show "fst (persistLocked s) = [] \<Longrightarrow> snd (finishLocked e s) = (snd (persistLocked s))
      \<lparr>f_persisted := length (s_journal (snd (persistLocked s))), f_collisions := []\<rparr> \<Longrightarrow>
      flush_safe E d0 staged0 (snd (finishLocked e s))"
    using persist_base [OF s] persist_synced [of s] by (simp add: flush_defs)
qed

section \<open>System calls\<close>

text \<open>
  \<open>restored E d0 staged0 D m s\<close>: besides, each path of \<open>D\<close> is again as it was, or is a temporary of
  the manifest.
\<close>

definition restored :: "env \<Rightarrow> disk \<Rightarrow> (agent_id, agentDelta) gomap \<Rightarrow> string set \<Rightarrow> recoveryManifest \<Rightarrow> fs \<Rightarrow> bool" where
  "restored E d0 staged0 D m s \<longleftrightarrow> logged E d0 staged0 m s \<and>
     (\<forall>q \<in> D. map_of (f_disk s) q = map_of d0 q \<or> q \<in> manifest_temps m)"

lemma restored_empty [simp]: "restored E d0 staged0 {} m = logged E d0 staged0 m"
  by (intro ext) (simp add: restored_def)

lemma restored_logged: "restored E d0 staged0 D m s \<Longrightarrow> logged E d0 staged0 m s"
  by (simp add: restored_def)

lemma restored_tick [simp]: "restored E d0 staged0 D m (snd (tick s)) = restored E d0 staged0 D m s"
  by (simp add: restored_def)

lemma restored_put:
  assumes "restored E d0 staged0 D m s" "p \<in> allowed m" "p \<in> manifest_temps m \<or> p \<notin> D"
  shows "restored E d0 staged0 D m (set_disk (mput p n) s)"
  using assms by (auto simp: restored_def logged_iff set_disk_def differs_def split: if_splits)

lemma restored_del:
  assumes "restored E d0 staged0 D m s" "p \<in> allowed m" "map_of d0 p = None \<or> p \<notin> D"
  shows "restored E d0 staged0 D m (set_disk (mdel p) s)"
  using assms by (auto simp: restored_def logged_iff set_disk_def differs_def split: if_splits)

lemma keeps_syscall_on: assumes "\<And>s. P (snd (tick s)) = P s" "keeps P m" shows "keeps P (syscall m)"
proof -
  have "P (snd (syscall m s))" if "P s" for s
  proof (cases "tick s")
    case (Pair r t)
    then have "P t" using assms(1) [of s] that by simp
    then show ?thesis using assms(2) Pair by (cases r) (simp_all add: syscall_def keeps_def)
  qed
  then show ?thesis by (simp add: keeps_def)
qed

lemma keeps_plain:
  assumes "\<And>s. P (snd (tick s)) = P s"
  shows "keeps P sync" "keeps P (syncParent rel)"
  unfolding syncParent_def sync_def by (intro keeping keeps_syscall_on assms)+

text \<open>Each call changes one path: a temporary, a directory of the manifest or a touched path.\<close>

lemma restored_calls:
  assumes "p \<in> allowed m"
  shows "p \<in> manifest_temps m \<or> p \<notin> D \<Longrightarrow> keeps (restored E d0 staged0 D m) (mkdir p)"
    and "map_of d0 p = None \<or> p \<notin> D \<Longrightarrow> keeps (restored E d0 staged0 D m) (remove_entry p)"
    and "map_of d0 p = None \<or> p \<notin> D \<Longrightarrow> keeps (restored E d0 staged0 D m) (removeLocked p)"
    and "p \<in> manifest_temps m \<or> p \<notin> D \<Longrightarrow> keeps (restored E d0 staged0 D m) (create_temp p md)"
    and "p \<in> manifest_temps m \<or> p \<notin> D \<Longrightarrow> keeps (restored E d0 staged0 D m) (fill_temp p v)"
proof -
  let ?P = "restored E d0 staged0 D m"
  show "keeps ?P (mkdir p)" if "p \<in> manifest_temps m \<or> p \<notin> D"
    unfolding mkdir_def
    by (intro keeps_syscall_on restored_tick) (simp add: keeps_def restored_put [OF _ assms that])
  show "keeps ?P (remove_entry p)" if "map_of d0 p = None \<or> p \<notin> D"
    unfolding remove_entry_def
    by (intro keeps_syscall_on restored_tick)
      (simp add: keeps_def restored_del [OF _ assms that] split: option.split disk_node.split)
  show "keeps ?P (removeLocked p)" if "map_of d0 p = None \<or> p \<notin> D"
    unfolding removeLocked_def
    by (intro keeps_bind keeps_plain keeps_syscall_on restored_tick)
      (simp add: keeps_def restored_del [OF _ assms that] split: option.split disk_node.split)
  show "keeps ?P (create_temp p md)" if "p \<in> manifest_temps m \<or> p \<notin> D"
    unfolding create_temp_def
    by (intro keeps_syscall_on restored_tick) (simp add: keeps_def restored_put [OF _ assms that])
  show "keeps ?P (fill_temp p v)" if "p \<in> manifest_temps m \<or> p \<notin> D"
    unfolding keeps_def
  proof (intro allI impI)
    fix s assume "?P s"
    then have "?P (snd (tick s))" by simp
    then show "?P (snd (fill_temp p v s))"
      by (cases "tick s"; cases "fst (tick s)") (simp_all add: fill_temp_def restored_put [OF _ assms that])
  qed
qed

lemma restored_rename:
  assumes "temp \<in> manifest_temps m" "planned E d0 m" "p \<in> allowed m" "p \<in> manifest_temps m \<or> p \<notin> D"
  shows "keeps (restored E d0 staged0 D m) (rename_over temp p)"
  unfolding rename_over_def
proof (intro keeps_syscall_on restored_tick, unfold keeps_def, intro allI impI)
  fix s assume s: "restored E d0 staged0 D m s"
  have "restored E d0 staged0 D m (set_disk (mput p n) (set_disk (mdel temp) s))" for n
    using assms by (intro restored_put restored_del s) (auto simp: allowed_def planned_def)
  then show "restored E d0 staged0 D m (snd (case (lstat (f_disk s) temp, lstat (f_disk s) p) of
       (Some n, Some Dir) \<Rightarrow> (Inl [ErrIO], s)
     | (Some n, _) \<Rightarrow> (Inr (), set_disk (\<lambda>d. mput p n (mdel temp d)) s)
     | (None, _) \<Rightarrow> (Inl [ErrNotExist], s)))"
    using s by (simp add: set_disk_def split: option.split disk_node.split)
qed

lemma restored_replace:
  assumes "temp \<in> manifest_temps m" "planned E d0 m" "p \<in> allowed m" "p \<notin> D"
  shows "keeps (restored E d0 staged0 D m) (replaceLocked E p temp v)"
proof -
  have "temp \<in> allowed m" using assms(1) by (simp add: allowed_def)
  with assms show ?thesis
    unfolding replaceLocked_def writeLocked_def
    by (intro keeps_bind keeps_if keeps_ret keeps_plain restored_calls restored_rename restored_tick) auto
qed

lemma restored_remove:
  assumes "p \<in> allowed m" "map_of d0 p = None"
  shows "keeps (restored E d0 staged0 D m) (removeIfPresentLocked p)"
  unfolding keeps_def
proof (intro allI impI)
  fix s assume s: "restored E d0 staged0 D m s"
  obtain r t where r: "remove_entry p s = (r, t)" by fastforce
  have "keeps (restored E d0 staged0 D m) (remove_entry p)" using assms by (intro restored_calls) auto
  then have t: "restored E d0 staged0 D m t" using s r by (rule keepsD)
  then show "restored E d0 staged0 D m (snd (removeIfPresentLocked p s))"
    using keeps_plain(2) [of "restored E d0 staged0 D m" p]
    by (cases r) (simp_all add: removeIfPresentLocked_def r keeps_def)
qed

text \<open>After a removal that succeeded nothing is there, and nothing new is anywhere else.\<close>

lemma sync_same: "f_disk (snd (syncParent p s)) = f_disk s"
  by (simp add: syncParent_def sync_def xbind_def vstep syscall_def tick_def split: list.split step_result.split)

lemma remove_entry_gone:
  assumes "remove_entry p s = (r, u)"
  shows "(\<exists>e. r = Inl e \<and> ErrNotExist \<in> set e \<and> map_of (f_disk s) p = None \<and> f_disk u = f_disk s) \<or>
    (\<exists>e. r = Inl e \<and> ErrNotExist \<notin> set e) \<or> (r = Inr () \<and> f_disk u = mdel p (f_disk s))"
proof -
  obtain b v where b: "tick s = (b, v)" by fastforce
  then have v: "f_disk v = f_disk s" using tick_disk [of s] by simp
  show ?thesis
  proof (cases b)
    case (Fail k)
    then show ?thesis using assms by (auto simp: remove_entry_def syscall_def b)
  next
    case Fine
    then have r: "(case lstat (f_disk v) p of
       None \<Rightarrow> (Inl [ErrNotExist], v)
     | Some Dir \<Rightarrow> if disk_entries (f_disk v) p \<noteq> [] then (Inl [ErrNotEmpty], v)
                   else (Inr (), set_disk (mdel p) v)
     | Some _ \<Rightarrow> (Inr (), set_disk (mdel p) v)) = (r, u)"
      using assms by (simp add: remove_entry_def syscall_def b)
    show ?thesis
    proof (cases "lstat (f_disk v) p")
      case None
      then show ?thesis using r v by (auto simp: lstat_def split: if_splits)
    next
      case (Some n)
      then show ?thesis using r v by (cases n) (auto simp: set_disk_def split: if_splits)
    qed
  qed
qed

lemma remove_gone:
  assumes "removeIfPresentLocked p s = (Inr x, t)"
  shows "map_of (f_disk t) p = None \<and> (\<forall>q. map_of (f_disk s) q = None \<longrightarrow> map_of (f_disk t) q = None)"
proof -
  obtain r u where r: "remove_entry p s = (r, u)" by fastforce
  have out: "(case r of Inl e \<Rightarrow> if errs_is e ErrNotExist then (Inr (), u) else (Inl e, u)
      | Inr _ \<Rightarrow> syncParent p u) = (Inr x, t)"
    using assms by (simp add: removeIfPresentLocked_def r split: sum.splits)
  show ?thesis
  proof (cases r)
    case (Inl e)
    then have "ErrNotExist \<in> set e" "t = u" using out by (simp_all add: errs_is_def split: if_splits)
    then show ?thesis using remove_entry_gone [OF r] Inl by auto
  next
    case (Inr y)
    then have "f_disk t = f_disk u" using out sync_same [of p u] by simp
    then show ?thesis using remove_entry_gone [OF r] Inr by simp
  qed
qed

section \<open>Restoring the originals\<close>

text \<open>No temporary name the flush can draw is taken in the workspace it started on.\<close>

definition unguessed :: "env \<Rightarrow> disk \<Rightarrow> bool" where
  "unguessed E d0 \<longleftrightarrow> (\<forall>n rel. map_of d0 (path_join (path_dir rel) (tempPrefix @ e_random E n)) = None)"

text \<open>A readable path holds a regular file with one link, or nothing; equal hashes of present files are
  equal contents when the hash does not collide.\<close>

lemma physical_node:
  assumes "physical E d p = Inr b"
  shows "map_of d p = (if bf_Present b then Some (File (bf_Content b) (bf_Mode b) 1) else None) \<and>
    (\<not> bf_Present b \<longrightarrow> b = no_file)"
proof -
  have v: "validatePath E d p = []" using assms by (simp add: physical_def Let_def split: if_splits)
  then have "p \<noteq> ''.''" by (auto simp: validatePath_def split: if_splits)
  then show ?thesis
    using assms v by (auto simp: physical_def Let_def lstat_def no_file_def split: option.splits disk_node.splits if_splits)
qed

lemma same_file_node:
  assumes "inj (e_sha256 E)" "physical E d p = Inr b" "physical E d0 p = Inr b0" "sameFile E b b0"
  shows "map_of d p = map_of d0 p"
proof (cases "bf_Present b")
  case True
  then have "bf_Present b0" "bf_Mode b = bf_Mode b0" "e_sha256 E (bf_Content b) = e_sha256 E (bf_Content b0)"
    using assms(4) by (simp_all add: sameFile_def hashOf_def)
  moreover have "bf_Content b = bf_Content b0" using calculation(3) assms(1) by (auto dest: injD)
  ultimately show ?thesis using physical_node [OF assms(2)] physical_node [OF assms(3)] True by simp
next
  case False
  then have "\<not> bf_Present b0" using assms(4) by (simp add: sameFile_def)
  then show ?thesis using physical_node [OF assms(2)] physical_node [OF assms(3)] False by simp
qed

definition retemp :: "string \<Rightarrow> string \<Rightarrow> recoveryManifest \<Rightarrow> recoveryManifest" where
  "retemp rel temp m = m\<lparr>rm_Items :=
     map (\<lambda>item. if ri_Path item = rel then item\<lparr>ri_Temp := temp\<rparr> else item) (rm_Items m)\<rparr>"

lemma retemp_simps [simp]: "rm_Intent (retemp rel temp m) = rm_Intent m" "rm_Dirs (retemp rel temp m) = rm_Dirs m"
  "map ri_Path (rm_Items (retemp rel temp m)) = map ri_Path (rm_Items m)"
  by (simp_all add: retemp_def o_def)

lemma retemp_other: "i \<in> set (rm_Items m) \<Longrightarrow> ri_Path i \<noteq> rel \<Longrightarrow> i \<in> set (rm_Items (retemp rel temp m))"
  by (force simp: retemp_def)

lemma retemp_temps:
  assumes "item \<in> set (rm_Items m)" "distinct (map ri_Path (rm_Items m))"
  shows "manifest_temps m \<subseteq> insert (ri_Temp item) (manifest_temps (retemp (ri_Path item) temp m))"
    and "temp \<in> manifest_temps (retemp (ri_Path item) temp m)"
    and "manifest_temps (retemp (ri_Path item) temp m) \<subseteq> insert temp (manifest_temps m)"
proof -
  have one: "i = item" if "i \<in> set (rm_Items m)" "ri_Path i = ri_Path item" for i
    using assms that by (auto simp: distinct_map dest: inj_onD)
  show "manifest_temps m \<subseteq> insert (ri_Temp item) (manifest_temps (retemp (ri_Path item) temp m))"
    using one retemp_other [of _ m "ri_Path item" temp] by fastforce
  show "temp \<in> manifest_temps (retemp (ri_Path item) temp m)"
  proof (rule rev_image_eqI)
    show "item\<lparr>ri_Temp := temp\<rparr> \<in> set (rm_Items (retemp (ri_Path item) temp m))"
      using assms(1) by (force simp: retemp_def)
  qed simp
  show "manifest_temps (retemp (ri_Path item) temp m) \<subseteq> insert temp (manifest_temps m)"
    by (auto simp: retemp_def)
qed

lemma retemp_planned:
  "planned E d0 m \<Longrightarrow> map_of d0 temp = None \<Longrightarrow> planned E d0 (retemp rel temp m)"
  unfolding planned_def by (simp only: retemp_simps) (auto simp: retemp_def)

lemma set_temp_disk [simp]: "f_disk (set_temp rel temp s) = f_disk s"
  by (simp add: set_temp_def)

text \<open>The manifest gets its new temporary once the old one is gone.\<close>

lemma retemp_noted:
  assumes s: "restored E d0 staged0 D m s" and item: "item \<in> set (rm_Items m)"
    and temp: "map_of d0 temp = None" and gone: "map_of (f_disk s) (ri_Temp item) = None"
  defines "m' \<equiv> retemp (ri_Path item) temp m"
  shows "noted E d0 staged0 m' (set_temp (ri_Path item) temp s) \<and>
    (\<forall>q \<in> D. map_of (f_disk s) q = map_of d0 q \<or> q \<in> manifest_temps m')"
proof -
  have l: "planned E d0 m" "differs d0 (f_disk s) \<subseteq> allowed m" "s_recovery s = Some m"
    using s by (simp_all add: restored_def logged_iff)
  have safe: "flush_base E d0 staged0 s" by (rule noted_base [OF logged_noted [OF restored_logged [OF s]]])
  have d: "distinct (map ri_Path (rm_Items m))" using l(1) by (simp add: planned_def)
  note t = retemp_temps [OF item d, of temp, folded m'_def]
  have old: "map_of d0 (ri_Temp item) = None" using l(1) item by (simp add: planned_def)
  have "allowed m \<subseteq> insert (ri_Temp item) (allowed m')"
    using t(1) unfolding allowed_def by (auto simp: m'_def)
  then have "differs d0 (f_disk s) \<subseteq> allowed m'" using l(2) gone old by (auto simp: differs_def)
  moreover have "planned E d0 m'" unfolding m'_def by (rule retemp_planned [OF l(1) temp])
  moreover have "s_recovery (set_temp (ri_Path item) temp s) = Some m'"
    by (simp add: set_temp_def l(3) m'_def retemp_def)
  moreover have "f_disk (set_temp (ri_Path item) temp s) = f_disk s" "f_db (set_temp (ri_Path item) temp s) = f_db s"
    "s_staged (set_temp (ri_Path item) temp s) = s_staged s" by (simp_all add: set_temp_def)
  ultimately have "noted E d0 staged0 m' (set_temp (ri_Path item) temp s)"
    using safe by (simp add: flush_defs undoable_def)
  moreover have "map_of (f_disk s) q = map_of d0 q \<or> q \<in> manifest_temps m'" if "q \<in> D" for q
  proof (cases "q \<in> manifest_temps m")
    case True
    then have "q = ri_Temp item \<or> q \<in> manifest_temps m'" using t(1) by blast
    then show ?thesis using gone old by auto
  next
    case False
    then show ?thesis using s that by (auto simp: restored_def)
  qed
  ultimately show ?thesis by blast
qed

lemma keeps_random_name: "(\<And>s n. P (s\<lparr>f_entropy := n\<rparr>) = P s) \<Longrightarrow>
    triple P (tempName E rel) (\<lambda>temp s. P s \<and> (\<exists>n. temp = path_join (path_dir rel) (tempPrefix @ e_random E n))) P"
  by (auto simp: triple_def tempName_def xbind_def randomID_def vstep)

lemma restored_entropy [simp]: "restored E d0 staged0 D m (s\<lparr>f_entropy := n\<rparr>) = restored E d0 staged0 D m s"
  by (simp add: restored_def safe_cong(2) [of "s\<lparr>f_entropy := n\<rparr>" s])

lemma restored_failure:
  assumes "keeps (restored E d0 staged0 D m) f"
  shows "triple (restored E d0 staged0 D m) f (\<lambda>_. restored E d0 staged0 D m) (flush_safe E d0 staged0)"
proof -
  have "triple (restored E d0 staged0 D m) f (\<lambda>_. restored E d0 staged0 D m) (restored E d0 staged0 D m)"
    by (rule triple_keeps [OF assms])
  then show ?thesis by (rule triple_weaken) (auto intro: logged_safe restored_logged)
qed

lemma rewrite_restores:
  assumes fresh: "unguessed E d0" and item: "item \<in> set (rm_Items m)" "ri_Path item \<in> touched_paths m"
    and out: "ri_Path item \<notin> D"
  shows "triple (restored E d0 staged0 D m) (rewriteOriginal E item)
    (\<lambda>_ s. \<exists>temp. restored E d0 staged0 D (retemp (ri_Path item) temp m) s) (flush_safe E d0 staged0)"
proof -
  let ?P = "restored E d0 staged0 D m" and ?R = "flush_safe E d0 staged0"
  have safe: "?P s \<Longrightarrow> ?R s" for s by (blast intro: logged_safe restored_logged)
  have name: "triple ?P (tempName E (ri_Path item)) (\<lambda>temp s. ?P s \<and> map_of d0 temp = None) ?R"
    using fresh by (intro triple_weaken [OF keeps_random_name [of ?P]]) (auto simp: unguessed_def intro: safe)
  have remove: "triple (\<lambda>s. ?P s \<and> map_of d0 temp = None) (removeIfPresentLocked (ri_Temp item))
      (\<lambda>_ s. ?P s \<and> map_of d0 temp = None \<and> map_of (f_disk s) (ri_Temp item) = None) ?R" for temp
  proof (rule tripleI)
    fix s x t assume s: "?P s \<and> map_of d0 temp = None" "removeIfPresentLocked (ri_Temp item) s = (Inr x, t)"
    have "planned E d0 m" using s(1) by (simp add: restored_def logged_iff)
    then have "keeps ?P (removeIfPresentLocked (ri_Temp item))"
      using item by (intro restored_remove) (auto simp: allowed_def planned_def)
    then show "?P t \<and> map_of d0 temp = None \<and> map_of (f_disk t) (ri_Temp item) = None"
      using s remove_gone [OF s(2)] by (auto dest: keepsD)
  next
    fix s e t assume s: "?P s \<and> map_of d0 temp = None" "removeIfPresentLocked (ri_Temp item) s = (Inl e, t)"
    have "planned E d0 m" using s(1) by (simp add: restored_def logged_iff)
    then have "keeps ?P (removeIfPresentLocked (ri_Temp item))"
      using item by (intro restored_remove) (auto simp: allowed_def planned_def)
    then show "?R t" using s by (auto dest: keepsD intro: safe)
  qed
  let ?N = "\<lambda>temp s. noted E d0 staged0 (retemp (ri_Path item) temp m) s \<and>
      (\<forall>q \<in> D. map_of (f_disk s) q = map_of d0 q \<or> q \<in> manifest_temps (retemp (ri_Path item) temp m))"
  have note_temp: "triple (\<lambda>s. ?P s \<and> map_of d0 temp = None \<and> map_of (f_disk s) (ri_Temp item) = None)
      (xmod (set_temp (ri_Path item) temp)) (\<lambda>_. ?N temp) ?R" for temp
  proof (rule triple_mod)
    fix s assume "?P s \<and> map_of d0 temp = None \<and> map_of (f_disk s) (ri_Temp item) = None"
    then show "?N temp (set_temp (ri_Path item) temp s)"
      using retemp_noted [of E d0 staged0 D m s item temp] item(1) by simp
  qed
  have commit: "triple (?N temp) checkpointLocked
      (\<lambda>_. restored E d0 staged0 D (retemp (ri_Path item) temp m)) ?R" for temp
    using checkpoint_logs [of E d0 staged0 "retemp (ri_Path item) temp m"
        "\<lambda>d. \<forall>q \<in> D. map_of d q = map_of d0 q \<or> q \<in> manifest_temps (retemp (ri_Path item) temp m)"]
    by (simp add: restored_def [abs_def])
  have put_back: "triple (restored E d0 staged0 D (retemp (ri_Path item) temp m))
      (replaceLocked E (ri_Path item) temp (ri_Before item))
      (\<lambda>_ s. \<exists>temp. restored E d0 staged0 D (retemp (ri_Path item) temp m) s) ?R" for temp
  proof (cases "planned E d0 (retemp (ri_Path item) temp m)")
    case True
    have d: "distinct (map ri_Path (rm_Items m))" using True unfolding planned_def by (simp only: retemp_simps)
    have "ri_Path item \<in> allowed (retemp (ri_Path item) temp m)"
      using item(2) unfolding allowed_def retemp_simps by blast
    then have "keeps (restored E d0 staged0 D (retemp (ri_Path item) temp m))
        (replaceLocked E (ri_Path item) temp (ri_Before item))"
      using True out retemp_temps(2) [OF item(1) d] by (intro restored_replace)
    then show ?thesis by (intro triple_weaken [OF restored_failure]) auto
  next
    case False
    then show ?thesis by (auto simp: triple_def restored_def logged_iff)
  qed
  show ?thesis
    unfolding rewriteOriginal_def
    by (rule triple_bind [OF name], rule triple_bind [OF remove], rule triple_bind [OF note_temp],
        rule triple_bind [OF commit], rule put_back)
qed

text \<open>An item that was restored is as the flush found it.\<close>

lemma item_restores:
  assumes fresh: "unguessed E d0" and hash: "inj (e_sha256 E)"
    and item: "item \<in> set (rm_Items m)" "ri_Path item \<in> touched_paths m" and out: "ri_Path item \<notin> D"
  shows "triple (restored E d0 staged0 D m) (restoreItem E item)
    (\<lambda>_ s. \<exists>m'. (m' = m \<or> (\<exists>temp. m' = retemp (ri_Path item) temp m)) \<and>
       restored E d0 staged0 (insert (ri_Path item) D) m' s) (flush_safe E d0 staged0)"
proof -
  let ?P = "restored E d0 staged0 D m" and ?R = "flush_safe E d0 staged0"
  let ?M = "\<lambda>m'. m' = m \<or> (\<exists>temp. m' = retemp (ri_Path item) temp m)"
  let ?Q = "\<lambda>s. \<exists>m'. ?M m' \<and> restored E d0 staged0 D m' s"
  have safe: "restored E d0 staged0 D' m' s \<Longrightarrow> ?R s" for D' m' s by (blast intro: logged_safe restored_logged)
  have rewrite: "triple (\<lambda>s. ?P s \<and> physical E (f_disk s) (ri_Path item) = Inr current)
      (if sameFile E current (ri_Before item) then xret () else rewriteOriginal E item) (\<lambda>_. ?Q) ?R" for current
  proof (cases "sameFile E current (ri_Before item)")
    case True
    then show ?thesis by (auto intro!: triple_ret)
  next
    case False
    then show ?thesis
      using rewrite_restores [OF fresh item out, of staged0] by (auto elim!: triple_weaken)
  qed
  have check: "triple ?Q (xcheck (\<lambda>s. case physical E (f_disk s) (ri_Path item) of
             Inl e \<Rightarrow> ErrRecoveryRequired # e
           | Inr now \<Rightarrow> if sameFile E now (ri_Before item) then [] else [ErrRecoveryRequired]))
      (\<lambda>_ s. \<exists>m'. ?M m' \<and> restored E d0 staged0 (insert (ri_Path item) D) m' s) ?R"
  proof (rule triple_weaken [OF triple_check [of ?Q ?R]])
    fix x s
    assume s: "?Q s \<and> (case physical E (f_disk s) (ri_Path item) of Inl e \<Rightarrow> ErrRecoveryRequired # e
           | Inr now \<Rightarrow> if sameFile E now (ri_Before item) then [] else [ErrRecoveryRequired]) = []"
    then obtain now where now: "physical E (f_disk s) (ri_Path item) = Inr now" "sameFile E now (ri_Before item)"
      by (auto split: sum.splits if_splits)
    from s obtain m' where m': "?M m'" "restored E d0 staged0 D m' s" by blast
    obtain i where i: "i \<in> set (rm_Items m')" "ri_Path i = ri_Path item" "ri_Before i = ri_Before item"
      using m'(1) item(1) by (force simp: retemp_def)
    have "planned E d0 m'" using m'(2) by (simp add: restored_def logged_iff)
    then have "physical E d0 (ri_Path item) = Inr (ri_Before item)" using i by (auto simp: planned_def)
    then have "map_of (f_disk s) (ri_Path item) = map_of d0 (ri_Path item)"
      using same_file_node [OF hash now(1) _ now(2)] by blast
    then have "restored E d0 staged0 (insert (ri_Path item) D) m' s" using m'(2) by (simp add: restored_def)
    then show "\<exists>m'. ?M m' \<and> restored E d0 staged0 (insert (ri_Path item) D) m' s" using m'(1) by blast
  qed (auto intro: safe)
  have commit: "triple (\<lambda>s. \<exists>m'. ?M m' \<and> restored E d0 staged0 (insert (ri_Path item) D) m' s) checkpointLocked
      (\<lambda>_ s. \<exists>m'. ?M m' \<and> restored E d0 staged0 (insert (ri_Path item) D) m' s) ?R"
  proof (rule tripleI)
    fix s x t
    assume "\<exists>m'. ?M m' \<and> restored E d0 staged0 (insert (ri_Path item) D) m' s" and c: "checkpointLocked s = (Inr x, t)"
    then obtain m' where m': "?M m'" "restored E d0 staged0 (insert (ri_Path item) D) m' s" by blast
    have "logged E d0 staged0 m' t \<and> (\<forall>q \<in> insert (ri_Path item) D. map_of (f_disk t) q = map_of d0 q \<or> q \<in> manifest_temps m')"
      using triple_InrD [OF checkpoint_logs [of E d0 staged0 m' "\<lambda>d. \<forall>q \<in> insert (ri_Path item) D. map_of d q = map_of d0 q \<or> q \<in> manifest_temps m'"] _ c]
        m'(2) by (simp add: restored_def logged_noted)
    then show "\<exists>m'. ?M m' \<and> restored E d0 staged0 (insert (ri_Path item) D) m' t"
      using m'(1) unfolding restored_def by blast
  next
    fix s e t
    assume "\<exists>m'. ?M m' \<and> restored E d0 staged0 (insert (ri_Path item) D) m' s" and c: "checkpointLocked s = (Inl e, t)"
    then obtain m' where m': "?M m'" "restored E d0 staged0 (insert (ri_Path item) D) m' s" by blast
    show "?R t"
      using triple_InlD [OF checkpoint_logs [of E d0 staged0 m' "\<lambda>_. True"] _ c] m'(2)
      by (simp add: restored_def logged_noted)
  qed
  show ?thesis
    unfolding restoreItem_def
    by (rule triple_bind [OF triple_read], erule safe, rule triple_bind [OF rewrite],
        rule triple_bind [OF check], rule commit)
qed

text \<open>Then all touched items, then the removal of everything the flush may have left.\<close>

definition same_plan :: "recoveryManifest \<Rightarrow> recoveryManifest \<Rightarrow> bool" where
  "same_plan m m' \<longleftrightarrow> rm_Intent m' = rm_Intent m \<and> rm_Dirs m' = rm_Dirs m \<and>
     map ri_Path (rm_Items m') = map ri_Path (rm_Items m)"

lemma same_plan_retemp: "m' = m \<or> (\<exists>temp. m' = retemp p temp m) \<Longrightarrow> same_plan m m'"
  unfolding same_plan_def using retemp_simps by metis

lemma same_plan_trans: "same_plan m m' \<Longrightarrow> same_plan m' m'' \<Longrightarrow> same_plan m m''"
  by (simp add: same_plan_def)

lemma items_restore:
  assumes fresh: "unguessed E d0" and hash: "inj (e_sha256 E)"
    and "set items \<subseteq> set (rm_Items m)" "ri_Path ` set items \<subseteq> touched_paths m"
    and "distinct (map ri_Path items)" "D \<inter> ri_Path ` set items = {}"
  shows "triple (restored E d0 staged0 D m) (xfor (restoreItem E) items)
    (\<lambda>_ s. \<exists>m'. same_plan m m' \<and> restored E d0 staged0 (D \<union> ri_Path ` set items) m' s)
    (flush_safe E d0 staged0)"
  using assms(3-)
proof (induction items arbitrary: D m)
  case Nil
  then show ?case by (auto intro!: triple_ret simp: same_plan_def)
next
  case (Cons item items)
  let ?M = "\<lambda>m'. m' = m \<or> (\<exists>temp. m' = retemp (ri_Path item) temp m)"
  have one: "triple (restored E d0 staged0 D m) (restoreItem E item)
      (\<lambda>_ s. \<exists>m'. ?M m' \<and> restored E d0 staged0 (insert (ri_Path item) D) m' s) (flush_safe E d0 staged0)"
    using Cons.prems by (intro item_restores fresh hash) auto
  have rest: "triple (restored E d0 staged0 (insert (ri_Path item) D) m') (xfor (restoreItem E) items)
      (\<lambda>_ s. \<exists>m''. same_plan m' m'' \<and>
         restored E d0 staged0 (insert (ri_Path item) D \<union> ri_Path ` set items) m'' s) (flush_safe E d0 staged0)"
    if "?M m'" for m'
  proof (rule Cons.IH)
    have other: "ri_Path i \<noteq> ri_Path item" if "i \<in> set items" for i using Cons.prems(3) that by (auto simp: image_iff)
    show "set items \<subseteq> set (rm_Items m')"
      using that Cons.prems(1) other by (auto intro: retemp_other)
    have "touched_paths m' = touched_paths m" using same_plan_retemp [OF that] by (simp add: same_plan_def)
    then show "ri_Path ` set items \<subseteq> touched_paths m'" using Cons.prems(2) by simp
    show "insert (ri_Path item) D \<inter> ri_Path ` set items = {}" using Cons.prems(4) other by fastforce
  qed (use Cons.prems in simp)
  have rest': "triple (\<lambda>s. \<exists>m'. ?M m' \<and> restored E d0 staged0 (insert (ri_Path item) D) m' s)
      (xfor (restoreItem E) items)
      (\<lambda>_ s. \<exists>m'. same_plan m m' \<and> restored E d0 staged0 (D \<union> ri_Path ` set (item # items)) m' s)
      (flush_safe E d0 staged0)"
  proof (rule tripleI)
    fix s x t
    assume "\<exists>m'. ?M m' \<and> restored E d0 staged0 (insert (ri_Path item) D) m' s"
      and c: "xfor (restoreItem E) items s = (Inr x, t)"
    then obtain m' where m': "?M m'" "restored E d0 staged0 (insert (ri_Path item) D) m' s" by blast
    from triple_InrD [OF rest [OF m'(1)] m'(2) c] obtain m'' where "same_plan m' m''"
      "restored E d0 staged0 (insert (ri_Path item) D \<union> ri_Path ` set items) m'' t" by blast
    then show "\<exists>m'. same_plan m m' \<and> restored E d0 staged0 (D \<union> ri_Path ` set (item # items)) m' t"
      using same_plan_trans [OF same_plan_retemp [OF m'(1)]] by auto
  next
    fix s e t
    assume "\<exists>m'. ?M m' \<and> restored E d0 staged0 (insert (ri_Path item) D) m' s"
      and c: "xfor (restoreItem E) items s = (Inl e, t)"
    then show "flush_safe E d0 staged0 t" using triple_InlD [OF rest _ c] by blast
  qed
  show ?case by (simp only: xfor.simps) (rule triple_bind [OF one], rule rest')
qed

lemma removals:
  assumes "set ps \<subseteq> allowed m" "\<forall>p \<in> set ps. map_of d0 p = None"
  shows "triple (\<lambda>s. restored E d0 staged0 D m s \<and> (\<forall>q \<in> A. map_of (f_disk s) q = None)) (xfor removeIfPresentLocked ps)
    (\<lambda>_ s. restored E d0 staged0 D m s \<and> (\<forall>q \<in> A \<union> set ps. map_of (f_disk s) q = None)) (flush_safe E d0 staged0)"
  using assms
proof (induction ps arbitrary: A)
  case Nil
  then show ?case by (auto intro!: triple_ret)
next
  case (Cons p ps)
  have k: "keeps (restored E d0 staged0 D m) (removeIfPresentLocked p)"
    using Cons.prems by (intro restored_remove) auto
  have one: "triple (\<lambda>s. restored E d0 staged0 D m s \<and> (\<forall>q \<in> A. map_of (f_disk s) q = None)) (removeIfPresentLocked p)
      (\<lambda>_ s. restored E d0 staged0 D m s \<and> (\<forall>q \<in> insert p A. map_of (f_disk s) q = None)) (flush_safe E d0 staged0)"
  proof (rule tripleI)
    fix s x t assume s: "restored E d0 staged0 D m s \<and> (\<forall>q \<in> A. map_of (f_disk s) q = None)"
      and r: "removeIfPresentLocked p s = (Inr x, t)"
    then show "restored E d0 staged0 D m t \<and> (\<forall>q \<in> insert p A. map_of (f_disk t) q = None)"
      using keepsD [OF k _ r] remove_gone [OF r] by simp
  next
    fix s e t assume s: "restored E d0 staged0 D m s \<and> (\<forall>q \<in> A. map_of (f_disk s) q = None)"
      and r: "removeIfPresentLocked p s = (Inl e, t)"
    then show "flush_safe E d0 staged0 t" using keepsD [OF k _ r] by (blast intro: logged_safe restored_logged)
  qed
  have "triple (\<lambda>s. restored E d0 staged0 D m s \<and> (\<forall>q \<in> insert p A. map_of (f_disk s) q = None))
      (xfor removeIfPresentLocked ps)
      (\<lambda>_ s. restored E d0 staged0 D m s \<and> (\<forall>q \<in> insert p A \<union> set ps. map_of (f_disk s) q = None)) (flush_safe E d0 staged0)"
    using Cons.prems by (intro Cons.IH) auto
  then show ?case by (simp only: xfor.simps) (rule triple_bind [OF one], simp)
qed

lemma xfor_map: "xfor (\<lambda>x. f (g x)) xs = xfor f (map g xs)"
  by (induction xs) simp_all

lemma triple_cases: "(\<And>x. triple (\<lambda>s. Q x s) m R S) \<Longrightarrow> triple (\<lambda>s. \<exists>x. Q x s) m R S"
  by (fastforce simp: triple_def)

text \<open>Nothing the flush may have left is there any more, so the workspace is what it was.\<close>

lemma leftovers_removed:
  assumes m: "same_plan m m'" and D: "D = touched_paths m"
  shows "triple (restored E d0 staged0 D m') removeLeftovers
    (\<lambda>_ s. flush_safe E d0 staged0 s \<and> differs d0 (f_disk s) = {}) (flush_safe E d0 staged0)"
proof -
  let ?P = "restored E d0 staged0 D m'"
  have safe: "?P s \<Longrightarrow> flush_safe E d0 staged0 s" for s by (blast intro: logged_safe restored_logged)
  have t: "triple (\<lambda>s. ?P s \<and> planned E d0 m') (xbind (xfor (\<lambda>item. removeIfPresentLocked (ri_Temp item)) (rm_Items m')) (\<lambda>_.
      xfor removeIfPresentLocked (rev (rm_Dirs m')))) (\<lambda>_ s. ?P s \<and>
      (\<forall>q \<in> manifest_temps m' \<union> set (rm_Dirs m'). map_of (f_disk s) q = None)) (flush_safe E d0 staged0)"
  proof (cases "planned E d0 m'")
    case True
    have temps: "triple (\<lambda>s. ?P s \<and> planned E d0 m') (xfor (\<lambda>item. removeIfPresentLocked (ri_Temp item)) (rm_Items m'))
        (\<lambda>_ s. ?P s \<and> (\<forall>q \<in> manifest_temps m'. map_of (f_disk s) q = None)) (flush_safe E d0 staged0)"
    proof -
      have "set (map ri_Temp (rm_Items m')) \<subseteq> allowed m'" "\<forall>p \<in> set (map ri_Temp (rm_Items m')). map_of d0 p = None"
        using True by (auto simp: allowed_def planned_def)
      from removals [OF this, of E staged0 D "{}"] show ?thesis
        unfolding xfor_map [of removeIfPresentLocked ri_Temp] by (rule triple_weaken) auto
    qed
    have dirs: "triple (\<lambda>s. ?P s \<and> (\<forall>q \<in> manifest_temps m'. map_of (f_disk s) q = None))
        (xfor removeIfPresentLocked (rev (rm_Dirs m')))
        (\<lambda>_ s. ?P s \<and> (\<forall>q \<in> manifest_temps m' \<union> set (rm_Dirs m'). map_of (f_disk s) q = None)) (flush_safe E d0 staged0)"
      using removals [of "rev (rm_Dirs m')" m' d0 E staged0 D "manifest_temps m'"] True
      by (simp add: allowed_def planned_def)
    show ?thesis by (rule triple_bind [OF temps]) (rule dirs)
  next
    case False
    then show ?thesis by (simp add: triple_def)
  qed
  have p: "?P s \<Longrightarrow> planned E d0 m'" for s by (simp add: restored_def logged_iff)
  have undone: "flush_safe E d0 staged0 s \<and> differs d0 (f_disk s) = {}"
    if s: "?P s" and gone: "\<forall>q \<in> manifest_temps m' \<union> set (rm_Dirs m'). map_of (f_disk s) q = None" for s
  proof -
    have "map_of (f_disk s) q = map_of d0 q" if "q \<in> allowed m'" for q
    proof (cases "q \<in> manifest_temps m' \<union> set (rm_Dirs m')")
      case True
      then show ?thesis using gone p [OF s] by (auto simp: planned_def)
    next
      case False
      then have "q \<in> D" using that m D by (simp add: allowed_def same_plan_def)
      then show ?thesis using s False by (auto simp: restored_def)
    qed
    moreover have "differs d0 (f_disk s) \<subseteq> allowed m'" using s by (simp add: restored_def logged_iff)
    ultimately show ?thesis using safe [OF s] by (auto simp: differs_def)
  qed
  let ?body = "xbind (xfor (\<lambda>item. removeIfPresentLocked (ri_Temp item)) (rm_Items m')) (\<lambda>_.
      xfor removeIfPresentLocked (rev (rm_Dirs m')))"
  have body: "triple ?P ?body (\<lambda>_ s. flush_safe E d0 staged0 s \<and> differs d0 (f_disk s) = {}) (flush_safe E d0 staged0)"
    by (rule triple_weaken [OF t]) (use p undone in blast)+
  have same: "removeLeftovers s = ?body s" if "?P s" for s
    using that by (simp add: removeLeftovers_def restored_def logged_iff)
  show ?thesis
  proof (rule tripleI)
    fix s x u assume "?P s" "removeLeftovers s = (Inr x, u)"
    then show "flush_safe E d0 staged0 u \<and> differs d0 (f_disk u) = {}"
      using triple_InrD [OF body, of s] same by metis
  next
    fix s e u assume "?P s" "removeLeftovers s = (Inl e, u)"
    then show "flush_safe E d0 staged0 u" using triple_InlD [OF body, of s] same by metis
  qed
qed

section \<open>Recovery as a whole\<close>

lemma triple_snd: "triple P m (\<lambda>_. Q) Q \<Longrightarrow> P s \<Longrightarrow> Q (snd (m s))"
  by (cases "m s"; cases "fst (m s)") (auto simp: triple_def)

lemma finishing_safe:
  assumes "triple P m (\<lambda>_. flush_base E d0 staged0) (flush_base E d0 staged0)" "P s"
  shows "flush_safe E d0 staged0 (snd (finishing m s))"
proof -
  obtain r t where m: "m s = (r, t)" by fastforce
  have "flush_base E d0 staged0 t" using assms m by (cases r) (auto dest: triple_InrD triple_InlD)
  then have "flush_safe E d0 staged0 (snd (finishLocked (err_of r) t))" by (rule finish_safe)
  then show ?thesis by (cases "finishLocked (err_of r) t") (simp add: finishing_def m)
qed

lemma recover_safe:
  assumes fresh: "unguessed E d0" and hash: "inj (e_sha256 E)" and s: "flush_safe E d0 staged0 s"
  shows "flush_safe E d0 staged0 (snd (Recover E s))"
proof (cases "f_fault s \<or> s_recovery s = None")
  case True
  then show ?thesis using s by (auto simp: Recover_def recoverLocked_def)
next
  case False
  then obtain m where m: "s_recovery s = Some m" "\<not> f_fault s" by auto
  let ?items = "take (rm_Intent m) (rm_Items m)"
  have l: "restored E d0 staged0 {} m s" using s m by (auto simp: logged_def flush_safe_def)
  then have "planned E d0 m" by (simp add: logged_iff)
  then have d: "distinct (map ri_Path ?items)" by (simp add: planned_def take_map [symmetric])
  have paths: "ri_Path ` set ?items = touched_paths m" by (simp add: take_map)
  have restore: "triple (restored E d0 staged0 {} m) (xfor (restoreItem E) ?items)
      (\<lambda>_ s. \<exists>m'. same_plan m m' \<and> restored E d0 staged0 (touched_paths m) m' s) (flush_safe E d0 staged0)"
    using items_restore [OF fresh hash, of ?items m "{}" staged0] d paths set_take_subset by fastforce
  have clean: "triple (\<lambda>s. \<exists>m'. same_plan m m' \<and> restored E d0 staged0 (touched_paths m) m' s) removeLeftovers
      (\<lambda>_ s. flush_safe E d0 staged0 s \<and> differs d0 (f_disk s) = {}) (flush_safe E d0 staged0)"
    by (rule triple_cases) (auto simp: triple_def dest!: leftovers_removed [OF _ refl, unfolded triple_def, rule_format])
  have finish: "triple (\<lambda>s. flush_safe E d0 staged0 s \<and> differs d0 (f_disk s) = {})
      (finishing (xmod (\<lambda>s. appendJournalLocked (recovery_entry (rm_Agent m) ''restored'') (s\<lparr>s_recovery := None\<rparr>))))
      (\<lambda>_. flush_safe E d0 staged0) (flush_safe E d0 staged0)"
  proof -
    have "triple (\<lambda>s. flush_safe E d0 staged0 s \<and> differs d0 (f_disk s) = {})
      (xmod (\<lambda>s. appendJournalLocked (recovery_entry (rm_Agent m) ''restored'') (s\<lparr>s_recovery := None\<rparr>)))
      (\<lambda>_. flush_base E d0 staged0) (flush_base E d0 staged0)"
      by (rule triple_mod) (simp only: safe_append, simp add: flush_defs undoable_def)
    from finishing_safe [OF this] show ?thesis by (auto simp: triple_def split: prod.split sum.split) (metis snd_conv)+
  qed
  have "triple (restored E d0 staged0 {} m) (xbind (xcheck (checkTouched E ?items)) (\<lambda>_.
         xbind (xfor (restoreItem E) ?items) (\<lambda>_.
         xbind removeLeftovers (\<lambda>_.
         finishing (xmod (\<lambda>s. appendJournalLocked (recovery_entry (rm_Agent m) ''restored'')
                                (s\<lparr>s_recovery := None\<rparr>)))))))
      (\<lambda>_. flush_safe E d0 staged0) (flush_safe E d0 staged0)"
    by (rule triple_bind [OF triple_check], erule logged_safe [OF restored_logged],
        rule triple_pre [OF triple_bind [OF restore triple_bind [OF clean finish]]]) simp
  then show ?thesis
    using l m triple_snd by (fastforce simp: Recover_def recoverLocked_def Let_def)
qed

end
