(* ===== verification/Vfs_Flush_Props.thy ===== *)
theory Vfs_Flush_Props
  imports Vfs_Recovery
begin

text \<open>
  What a consolidation does to the workspace: all of it or, after any failure and any number of
  crashes and recoveries, none of it.
\<close>

section \<open>Planning\<close>

text \<open>The items of a plan so far: what the disk holds and what the delta wants there.\<close>

definition plan_ok :: "env \<Rightarrow> disk \<Rightarrow> agentDelta \<Rightarrow> string list \<Rightarrow> recoveryManifest \<Rightarrow> bool" where
  "plan_ok E d0 d rels m \<longleftrightarrow> rm_Intent m = 0 \<and> map ri_Path (rm_Items m) = rels \<and>
     (\<forall>i \<in> set (rm_Items m). map_of d0 (ri_Temp i) = None \<and> physical E d0 (ri_Path i) = Inr (ri_Before i) \<and>
        ri_After i = flushed_file (ri_Before i) (mget None (d_files d) (ri_Path i)) \<and>
        (\<exists>n. ri_Temp i = path_join (path_dir (ri_Path i)) (tempPrefix @ e_random E n))) \<and>
     (\<forall>dir \<in> set (rm_Dirs m). map_of d0 dir = None \<and> (\<exists>rel \<in> set rels. dir \<in> set (dir_chain (length rel) (path_dir rel))))"

lemma missing_dirs:
  "dir \<in> set (noteMissingDirs d0 rel dirs) \<Longrightarrow> dir \<in> set dirs \<or>
     (map_of d0 dir = None \<and> dir \<in> set (dir_chain (length rel) (path_dir rel)))"
proof -
  define f where "f = (\<lambda>dirs dir. if lstat d0 dir = None \<and> dir \<notin> set dirs then dirs @ [dir] else dirs)"
  have step: "x \<in> set (f dirs a) \<Longrightarrow> x \<in> set dirs \<or> (x = a \<and> map_of d0 x = None)" for x a dirs
    by (auto simp: f_def lstat_def split: if_splits)
  have "dir \<in> set (foldl f dirs chain) \<Longrightarrow> dir \<in> set dirs \<or> (map_of d0 dir = None \<and> dir \<in> set chain)" for chain
  proof (induction chain arbitrary: dirs)
    case (Cons a chain)
    then show ?case using Cons.IH [of "f dirs a"] step [of dir dirs a] by auto
  qed simp
  then show "dir \<in> set (noteMissingDirs d0 rel dirs) \<Longrightarrow> dir \<in> set dirs \<or>
     (map_of d0 dir = None \<and> dir \<in> set (dir_chain (length rel) (path_dir rel)))"
    by (simp add: noteMissingDirs_def f_def)
qed

text \<open>\<open>S\<close> stands for anything the drawing of random names does not disturb.\<close>

lemma plan_items_ok:
  assumes fresh: "unguessed E d0" and S: "\<And>s n. S (s\<lparr>f_entropy := n\<rparr>) = S s" "\<And>s. S s \<Longrightarrow> f_disk s = d0"
  shows "plan_ok E d0 d done_rels m \<Longrightarrow> triple S (plan_items E d rels m) (\<lambda>m s. S s \<and> plan_ok E d0 d (done_rels @ rels) m) S"
proof (induction rels arbitrary: done_rels m)
  case Nil
  then show ?case by (simp add: triple_def vstep)
next
  case (Cons rel rels)
  let ?item = "\<lambda>prior temp. \<lparr>ri_Path = rel, ri_Temp = temp, ri_Before = prior,
      ri_After = flushed_file prior (mget None (d_files d) rel)\<rparr>"
  have read: "triple S (\<lambda>s. (case physical E (f_disk s) rel of Inl _ \<Rightarrow> Inl [ErrFlushPartial] | Inr b \<Rightarrow> Inr b, s))
      (\<lambda>prior s. S s \<and> physical E d0 rel = Inr prior) S"
    using S(2) by (auto simp: triple_def split: sum.splits)
  have check: "triple (\<lambda>s. S s \<and> physical E d0 rel = Inr prior) (xcheck c)
      (\<lambda>_ s. S s \<and> physical E d0 rel = Inr prior) S" for prior c
    by (auto simp: triple_def vstep)
  have name: "triple (\<lambda>s. S s \<and> physical E d0 rel = Inr prior) (tempName E rel) (\<lambda>temp s. S s \<and>
      physical E d0 rel = Inr prior \<and> (\<exists>n. temp = path_join (path_dir rel) (tempPrefix @ e_random E n))) S" for prior
    by (rule triple_weaken [OF keeps_random_name [of "\<lambda>s. S s \<and> physical E d0 rel = Inr prior"]]) (auto simp: S(1))
  have dirs: "triple (\<lambda>s. S s \<and> physical E d0 rel = Inr prior \<and> (\<exists>n. temp = path_join (path_dir rel) (tempPrefix @ e_random E n)))
      (xget (\<lambda>s. noteMissingDirs (f_disk s) rel (rm_Dirs m)))
      (\<lambda>dirs s. S s \<and> plan_ok E d0 d (done_rels @ [rel]) (m\<lparr>rm_Items := rm_Items m @ [?item prior temp], rm_Dirs := dirs\<rparr>)) S"
    for prior temp
  proof -
    have "plan_ok E d0 d (done_rels @ [rel]) (m\<lparr>rm_Items := rm_Items m @ [?item prior temp],
        rm_Dirs := noteMissingDirs d0 rel (rm_Dirs m)\<rparr>)"
      if "physical E d0 rel = Inr prior" "\<exists>n. temp = path_join (path_dir rel) (tempPrefix @ e_random E n)"
      using Cons.prems that fresh missing_dirs [of _ d0 rel "rm_Dirs m"]
      by (fastforce simp: plan_ok_def unguessed_def)
    then show ?thesis using S(2) by (auto simp: triple_def vstep)
  qed
  have rest: "triple (\<lambda>s. S s \<and> plan_ok E d0 d (done_rels @ [rel]) m') (plan_items E d rels m')
      (\<lambda>m s. S s \<and> plan_ok E d0 d (done_rels @ rel # rels) m) S" for m'
  proof (cases "plan_ok E d0 d (done_rels @ [rel]) m'")
    case True
    then show ?thesis using Cons.IH [OF True] by simp
  qed (simp add: triple_def)
  show ?case
    by (simp only: plan_items.simps) (rule triple_bind [OF read], rule triple_bind [OF check],
      rule triple_bind [OF name], rule triple_bind [OF dirs], rule rest)
qed

lemma plan_flush_ok:
  assumes fresh: "unguessed E d0" and S: "\<And>s n. S (s\<lparr>f_entropy := n\<rparr>) = S s" "\<And>s. S s \<Longrightarrow> f_disk s = d0"
  shows "triple S (planFlush E agent d) (\<lambda>m s. S s \<and> plan_ok E d0 d (sorted_keys (d_files d)) m) S"
proof -
  have "triple S (plan_items E d (sorted_keys (d_files d)) \<lparr>rm_Agent = agent, rm_Items = [], rm_Intent = 0, rm_Dirs = []\<rparr>)
      (\<lambda>m s. S s \<and> plan_ok E d0 d (sorted_keys (d_files d)) m) S"
    using plan_items_ok [OF assms, of d "[]" "\<lparr>rm_Agent = agent, rm_Items = [], rm_Intent = 0, rm_Dirs = []\<rparr>"
        "sorted_keys (d_files d)"] by (simp add: plan_ok_def)
  then show ?thesis
    unfolding planFlush_def by (rule triple_bind) (auto simp: triple_def vstep plan_ok_def)
qed

lemma plan_paths: "plan_ok E d0 d rels m \<Longrightarrow> map ri_Path (rm_Items m) = rels"
  by (simp add: plan_ok_def)

lemma plan_planned: "plan_ok E d0 d rels m \<Longrightarrow> distinct rels \<Longrightarrow> planned E d0 m"
  by (auto simp: plan_ok_def planned_def)

section \<open>Replacing\<close>

lemma keeps_logged_for:
  assumes "\<And>x. x \<in> set xs \<Longrightarrow> keeps P (f x)" shows "keeps P (xfor f xs)"
  using assms by (induction xs) (auto intro!: keeps_bind keeps_ret)

lemma create_dirs_logged:
  assumes "set dirs \<subseteq> set (rm_Dirs m)"
  shows "keeps (logged E d0 staged0 m) (createDirs dirs)"
  unfolding createDirs_def partial_flush_def
proof (rule keeps_logged_for)
  fix dir assume "dir \<in> set dirs"
  then have "dir \<in> allowed m" using assms by (auto simp: allowed_def)
  then have "keeps (logged E d0 staged0 m) (mkdir dir)"
    using restored_calls(1) [of dir m "{}" E d0 staged0] by simp
  then have "keeps (logged E d0 staged0 m) (xbind (mkdir dir) (\<lambda>_. syncParent dir))"
    by (intro keeps_bind keeps_plain) simp_all
  then show "keeps (logged E d0 staged0 m) (tag_errors [ErrFlushPartial] (xbind (mkdir dir) (\<lambda>_. syncParent dir)))"
    by (simp add: keeps_triple triple_tag)
qed

abbreviation with_intent :: "nat \<Rightarrow> recoveryManifest \<Rightarrow> recoveryManifest" where
  "with_intent n m \<equiv> m\<lparr>rm_Intent := n\<rparr>"

lemma intent_noted:
  assumes "logged E d0 staged0 (with_intent k m) s"
  shows "noted E d0 staged0 (with_intent (k + 1) m) (set_intent (k + 1) s)"
proof -
  have l: "s_recovery s = Some (with_intent k m)" "planned E d0 m" "differs d0 (f_disk s) \<subseteq> allowed (with_intent k m)"
    using assms by (simp_all add: logged_iff planned_def)
  have base: "flush_base E d0 staged0 s" using assms by (simp add: logged_def)
  have "set (take k (map ri_Path (rm_Items m))) \<subseteq> set (take (k + 1) (map ri_Path (rm_Items m)))"
    by (rule set_take_subset_set_take) simp
  then have "allowed (with_intent k m) \<subseteq> allowed (with_intent (k + 1) m)" by (auto simp: allowed_def)
  then have "undoable E d0 (f_disk s) (Some (with_intent (k + 1) m))"
    using l(2,3) by (auto simp: undoable_def planned_def)
  then show ?thesis using l base by (simp add: noted_def flush_base_def crash_safe_def set_intent_def)
qed

lemma replace_item_logged:
  assumes "k < length (rm_Items m)"
  shows "triple (logged E d0 staged0 (with_intent k m)) (replace_item E (k, rm_Items m ! k))
    (\<lambda>_. logged E d0 staged0 (with_intent (Suc k) m)) (flush_safe E d0 staged0)"
proof -
  let ?i = "rm_Items m ! k" and ?L = "logged E d0 staged0 (with_intent (k + 1) m)" and ?R = "flush_safe E d0 staged0"
  have check: "triple (logged E d0 staged0 (with_intent k m)) (xcheck c) (\<lambda>_. logged E d0 staged0 (with_intent k m)) ?R" for c
    by (auto simp: triple_def vstep intro: logged_safe)
  have intent: "triple (logged E d0 staged0 (with_intent k m)) (xmod (set_intent (k + 1)))
      (\<lambda>_. noted E d0 staged0 (with_intent (k + 1) m)) ?R"
    by (rule triple_mod) (rule intent_noted)
  have commit: "triple (noted E d0 staged0 m') (partial_flush checkpointLocked) (\<lambda>_. logged E d0 staged0 m') ?R" for m'
    unfolding partial_flush_def using checkpoint_logs [of E d0 staged0 m' "\<lambda>_. True"] by (intro triple_tag) simp
  have item: "ri_Path ?i \<in> allowed (with_intent (k + 1) m)" "ri_Temp ?i \<in> manifest_temps (with_intent (k + 1) m)"
    using assms by (auto simp: allowed_def take_Suc_conv_app_nth)
  have replace: "triple ?L (partial_flush (replaceLocked E (ri_Path ?i) (ri_Temp ?i) (ri_After ?i))) (\<lambda>_. ?L) ?R"
  proof (cases "planned E d0 (with_intent (k + 1) m)")
    case True
    have "keeps (restored E d0 staged0 {} (with_intent (k + 1) m)) (replaceLocked E (ri_Path ?i) (ri_Temp ?i) (ri_After ?i))"
      using item True by (intro restored_replace) auto
    from restored_failure [OF this] have "triple ?L (replaceLocked E (ri_Path ?i) (ri_Temp ?i) (ri_After ?i)) (\<lambda>_. ?L) ?R"
      by simp
    then show ?thesis unfolding partial_flush_def by (rule triple_tag)
  next
    case False
    then show ?thesis by (simp add: triple_def logged_iff)
  qed
  have last: "triple ?L (partial_flush checkpointLocked) (\<lambda>_. ?L) ?R"
    by (rule triple_pre [OF commit]) (rule logged_noted)
  show ?thesis
    unfolding replace_item_def prod.case
    by (rule triple_bind [OF check], rule triple_bind [OF intent], rule triple_bind [OF commit],
        rule triple_bind [OF replace]) (use last in simp)
qed

lemma replace_items_logged:
  "drop k (rm_Items m) = items \<Longrightarrow> triple (logged E d0 staged0 (with_intent k m))
     (xfor (replace_item E) (enumerate k items))
     (\<lambda>_. logged E d0 staged0 (with_intent (k + length items) m)) (flush_safe E d0 staged0)"
proof (induction items arbitrary: k)
  case Nil
  then show ?case by (simp add: triple_def vstep)
next
  case (Cons item items)
  have k: "k < length (rm_Items m)" "rm_Items m ! k = item" "drop (Suc k) (rm_Items m) = items"
    using Cons.prems by (auto simp: drop_Suc dest: nth_via_drop split: if_splits)
      (metis drop_all list.distinct(1) not_le, metis Cons_nth_drop_Suc drop_all list.inject not_le list.distinct(1) tl_drop list.sel(3))
  have "triple (logged E d0 staged0 (with_intent k m)) (replace_item E (k, item))
      (\<lambda>_. logged E d0 staged0 (with_intent (Suc k) m)) (flush_safe E d0 staged0)"
    using replace_item_logged [OF k(1)] k(2) by simp
  then show ?case
    using Cons.IH [OF k(3)] by (simp add: enumerate_simps) (erule triple_bind, simp)
qed

section \<open>A whole flush\<close>

text \<open>Where a flush starts, and what holds once every item is in place and the manifest is closed.\<close>

definition flush_start :: "env \<Rightarrow> disk \<Rightarrow> (agent_id, agentDelta) gomap \<Rightarrow> fs \<Rightarrow> bool" where
  "flush_start E d0 staged0 s \<longleftrightarrow> flush_safe E d0 staged0 s \<and> manifest_synced s \<and> s_recovery s = None \<and> f_disk s = d0"

definition flushed :: "env \<Rightarrow> recoveryManifest \<Rightarrow> disk \<Rightarrow> bool" where
  "flushed E m d \<longleftrightarrow> (\<forall>i \<in> set (rm_Items m). \<exists>b. physical E d (ri_Path i) = Inr b \<and> sameFile E b (ri_After i))"

definition flush_done :: "env \<Rightarrow> disk \<Rightarrow> (agent_id, agentDelta) gomap \<Rightarrow> recoveryManifest \<Rightarrow> fs \<Rightarrow> bool" where
  "flush_done E d0 staged0 m s \<longleftrightarrow> crash_safe E d0 staged0 s \<and> s_staged s = staged0 \<and> s_recovery s = None \<and>
     flushed E m (f_disk s) \<and> differs d0 (f_disk s) \<subseteq> allowed (with_intent (length (rm_Items m)) m)"

lemma start_entropy [simp]: "flush_start E d0 staged0 (s\<lparr>f_entropy := n\<rparr>) = flush_start E d0 staged0 s"
  by (simp add: flush_start_def safe_cong(4) [of "s\<lparr>f_entropy := n\<rparr>" s] manifest_synced_def)

lemma triple_checks: "triple P (xfor (\<lambda>i. xcheck (c i)) items) (\<lambda>_ s. P s \<and> (\<forall>i \<in> set items. c i s = [])) P"
proof -
  have "triple P (xfor (\<lambda>i. xcheck (c i)) items) (\<lambda>_ s. P s \<and> (\<forall>i \<in> set items. c i s = [])) P" for P
  proof (induction items arbitrary: P)
    case (Cons i items)
    have "triple (\<lambda>s. P s \<and> c i s = []) (xfor (\<lambda>i. xcheck (c i)) items)
        (\<lambda>_ s. P s \<and> (\<forall>j \<in> set (i # items). c j s = [])) P"
      by (rule triple_weaken [OF Cons.IH [of "\<lambda>s. P s \<and> c i s = []"]]) auto
    then show ?case by (simp only: xfor.simps) (rule triple_bind [OF triple_check], simp)
  qed (simp add: triple_def vstep)
  then show ?thesis .
qed

lemma check_base_flushed:
  "checkBase E p w s = [] \<longleftrightarrow> (\<exists>b. physical E (f_disk s) p = Inr b \<and> sameFile E b w)"
  by (simp add: checkBase_def split: sum.split)

lemma apply_flush:
  assumes m: "planned E d0 m" "rm_Intent m = 0"
    and post: "\<And>m' n. keeps (\<lambda>s. logged E d0 staged0 m' s \<and> flushed E m (f_disk s)) (fh_postStep h n)"
  shows "triple (flush_start E d0 staged0) (applyFlush E m h) (\<lambda>_. flush_done E d0 staged0 m) (flush_safe E d0 staged0)"
proof -
  let ?R = "flush_safe E d0 staged0" and ?m = "with_intent (length (rm_Items m)) m"
  let ?L = "\<lambda>s. logged E d0 staged0 ?m s \<and> flushed E m (f_disk s)"
  have open_manifest: "triple (flush_start E d0 staged0) (xmod (\<lambda>s. s\<lparr>s_recovery := Some m\<rparr>)) (\<lambda>_. noted E d0 staged0 m) ?R"
    using m by (intro triple_mod) (auto simp: flush_start_def flush_defs undoable_def differs_def)
  have commit: "triple (noted E d0 staged0 m) (partial_flush checkpointLocked) (\<lambda>_. logged E d0 staged0 m) ?R"
    unfolding partial_flush_def using checkpoint_logs [of E d0 staged0 m "\<lambda>_. True"] by (intro triple_tag) simp
  have dirs: "triple (logged E d0 staged0 m) (createDirs (rm_Dirs m)) (\<lambda>_. logged E d0 staged0 m) ?R"
    by (rule triple_weaken [OF triple_keeps [OF create_dirs_logged]]) (auto intro: logged_safe)
  have items: "triple (logged E d0 staged0 m) (replaceItems E (rm_Items m)) (\<lambda>_. logged E d0 staged0 ?m) ?R"
  proof -
    have "with_intent 0 m = m" using m(2) by simp
    then show ?thesis using replace_items_logged [of 0 m "rm_Items m" E d0 staged0] by (simp add: replaceItems_def)
  qed
  have checks: "triple (logged E d0 staged0 ?m) (xfor (\<lambda>item. xcheck (checkBase E (ri_Path item) (ri_After item))) (rm_Items m))
      (\<lambda>_. ?L) ?R"
    by (rule triple_weaken [OF triple_checks [of "logged E d0 staged0 ?m"]])
      (auto simp: check_base_flushed flushed_def intro: logged_safe)
  have again: "triple ?L (partial_flush checkpointLocked) (\<lambda>_. ?L) ?R"
    unfolding partial_flush_def
    by (intro triple_tag triple_pre [OF checkpoint_logs [of E d0 staged0 ?m "flushed E m"]]) (auto intro: logged_noted)
  have entries: "triple ?L (xfor (\<lambda>item. xmod (appendJournalLocked (fh_journalEntry h item))) (rm_Items m)) (\<lambda>_. ?L) ?R"
    by (rule triple_weaken [OF triple_keeps [of ?L]])
      (auto intro!: keeps_logged_for keeps_mod intro: logged_safe)
  have step: "triple ?L (fh_postStep h m) (\<lambda>_. ?L) ?R"
    by (rule triple_weaken [OF triple_keeps [OF post]]) (auto intro: logged_safe)
  have close: "triple ?L (xmod (\<lambda>s. s\<lparr>s_recovery := None\<rparr>)) (\<lambda>_. flush_done E d0 staged0 m) ?R"
    by (rule triple_mod) (auto simp: flush_done_def logged_iff crash_safe_def undoable_def)
  show ?thesis
    unfolding applyFlush_def
    by (rule triple_bind [OF open_manifest], rule triple_bind [OF commit], rule triple_bind [OF dirs],
        rule triple_bind [OF items], rule triple_bind [OF checks], rule triple_bind [OF again],
        rule triple_bind [OF entries], rule triple_bind [OF step], rule close)
qed

lemma retain_cycles: "\<exists>c. retainCycleLocked agent n s = s\<lparr>s_cycles := c\<rparr>"
proof (cases "map_of (s_bindings s) agent")
  case None
  then show ?thesis by (intro exI [of _ "s_cycles s"]) (simp add: retainCycleLocked_def)
next
  case (Some i)
  show ?thesis
  proof (cases "id_CycleID i = []")
    case True
    then show ?thesis by (intro exI [of _ "s_cycles s"]) (simp add: retainCycleLocked_def Some)
  next
    case False
    show ?thesis unfolding retainCycleLocked_def Some option.case if_not_P [OF False] Let_def by (rule exI, rule refl)
  qed
qed

lemma retain_logged: "keeps (\<lambda>s. logged E d0 staged0 m s \<and> X (f_disk s)) (xmod (retainCycleLocked agent n))"
proof (rule keeps_mod)
  fix s assume s: "logged E d0 staged0 m s \<and> X (f_disk s)"
  obtain c where c: "retainCycleLocked agent n s = s\<lparr>s_cycles := c\<rparr>" using retain_cycles by blast
  have "logged E d0 staged0 m (s\<lparr>s_cycles := c\<rparr>) = logged E d0 staged0 m s" by (rule safe_cong) simp_all
  then show "logged E d0 staged0 m (retainCycleLocked agent n s) \<and> X (f_disk (retainCycleLocked agent n s))"
    unfolding c using s by simp
qed

lemma start_disk: "flush_start E d0 staged0 s \<Longrightarrow> f_disk s = d0"
  and start_safe: "flush_start E d0 staged0 s \<Longrightarrow> flush_safe E d0 staged0 s"
  by (simp_all add: flush_start_def)

lemma materialize_flushes:
  assumes "unguessed E d0" "wf_map (d_files d)"
  shows "triple (flush_start E d0 staged0) (materializeLocked E agent d)
    (\<lambda>_ s. \<exists>m. plan_ok E d0 d (sorted_keys (d_files d)) m \<and> flush_done E d0 staged0 m s) (flush_safe E d0 staged0)"
proof -
  let ?S = "flush_start E d0 staged0" and ?R = "flush_safe E d0 staged0"
  have bases: "triple ?S (xfor (\<lambda>(rel, base). xcheck (checkBase E rel base)) (d_bases d)) (\<lambda>_. ?S) ?R"
    by (rule triple_weaken [OF triple_keeps [of ?S]]) (auto intro!: keeps_logged_for intro: start_safe)
  have plan: "triple ?S (planFlush E agent d) (\<lambda>m s. ?S s \<and> plan_ok E d0 d (sorted_keys (d_files d)) m) ?R"
    by (rule triple_weaken [OF plan_flush_ok [OF assms(1), of ?S]]) (auto intro: start_safe start_disk)
  have flush: "triple (\<lambda>s. ?S s \<and> plan_ok E d0 d (sorted_keys (d_files d)) m) (applyManifest E agent m)
      (\<lambda>_ s. \<exists>m. plan_ok E d0 d (sorted_keys (d_files d)) m \<and> flush_done E d0 staged0 m s) ?R" for m
  proof (cases "plan_ok E d0 d (sorted_keys (d_files d)) m")
    case True
    have "distinct (sorted_keys (d_files d))" using assms(2) by (simp add: sorted_keys_def wf_map_def)
    then have "planned E d0 m" by (rule plan_planned [OF True])
    moreover have "rm_Intent m = 0" using True by (simp add: plan_ok_def)
    ultimately have "triple ?S (applyManifest E agent m) (\<lambda>_. flush_done E d0 staged0 m) ?R"
      unfolding applyManifest_def by (intro apply_flush) (simp_all add: retain_logged)
    then show ?thesis by (rule triple_weaken) (use True in auto)
  qed (simp add: triple_def)
  show ?thesis
    unfolding materializeLocked_def by (rule triple_bind [OF bases], rule triple_bind [OF plan], rule flush)
qed

section \<open>Consolidation\<close>

lemma crash_cong: "f_disk t = f_disk s \<Longrightarrow> f_db t = f_db s \<Longrightarrow> crash_safe E d0 staged0 t = crash_safe E d0 staged0 s"
  by (simp add: crash_safe_def)

lemma release_fields [simp]: "f_disk (releaseOwnershipLocked key s) = f_disk s" "f_db (releaseOwnershipLocked key s) = f_db s"
  "s_recovery (releaseOwnershipLocked key s) = s_recovery s" "s_staged (releaseOwnershipLocked key s) = s_staged s"
  "f_disk (drop_delta key s) = f_disk s" "f_db (drop_delta key s) = f_db s"
  "s_recovery (drop_delta key s) = s_recovery s" "s_staged (drop_delta key s) = mdel key (s_staged s)"
  by (simp_all add: releaseOwnershipLocked_def drop_delta_def)

lemma correlate_fields [simp]: "f_db (correlateLocked n key view call s) = f_db s"
  "s_recovery (correlateLocked n key view call s) = s_recovery s" "f_fault (correlateLocked n key view call s) = f_fault s"
  by (simp_all add: correlateLocked_def Let_def)

lemma correlate_safe [simp]: "flush_safe E d0 staged0 (correlateLocked n key view call s) = flush_safe E d0 staged0 s"
  by (rule safe_cong) simp_all

lemma consolidate_flushes:
  assumes "unguessed E d0" "map_of (s_staged s) key = Some d" "wf_map (d_files d)" "flush_start E d0 staged0 s"
    and c: "consolidateLocked E key s = (r, w)"
  shows "case r of Inl e \<Rightarrow> flush_safe E d0 staged0 w
    | Inr _ \<Rightarrow> \<exists>m w0. plan_ok E d0 d (sorted_keys (d_files d)) m \<and> flush_done E d0 staged0 m w0 \<and>
        w = releaseOwnershipLocked key (drop_delta key w0)"
proof -
  obtain r0 w0 where m: "materializeLocked E key d s = (r0, w0)" by fastforce
  note t = materialize_flushes [OF assms(1,3), of staged0 key]
  from c have cases: "(\<exists>e. r = Inl e \<and> w = s) \<or> (\<exists>e. r0 = Inl e \<and> r = Inl e \<and> w = w0) \<or>
      (r0 = Inr () \<and> r = Inr () \<and> w = releaseOwnershipLocked key (drop_delta key w0))"
    by (cases r0) (auto simp: consolidateLocked_def assms(2) xbind_def m vstep split: if_splits)
  have safe: "flush_safe E d0 staged0 s" by (rule start_safe [OF assms(4)])
  show ?thesis
    using cases triple_InrD [OF t assms(4), of _ w0] triple_InlD [OF t assms(4), of _ w0] m safe
    by (cases r) auto
qed

lemma finish_recovery [simp]: "s_recovery (snd (finishLocked e s)) = s_recovery s"
  by (rule finish_cases [of e s]) simp_all

text \<open>C2: A consolidation that reports success has put exactly the staged work into the workspace: every
  staged path now holds a file with the staged content's hash, or nothing where the work deletes it;
  every other path that changed is a directory above a staged path or a temporary of the flush; the
  delta and its claims are gone, everybody else's staged work is as it was, and no manifest is
  pending.\<close>

theorem consolidation_materializes:
  assumes s: "reachable E s" and ready: "readyLocked s = []" and "db_state (f_db s) = Some (store.truncate s)"
    and fresh: "\<forall>n rel. map_of (f_disk s) (path_join (path_dir rel) (tempPrefix @ e_random E n)) = None"
    and d: "map_of (s_staged s) key = Some d" and c: "ConsolidateCheckpoint E key cp ex acc s = (Inr u, t)"
  shows "(\<forall>p content. map_of (d_files d) p = Some content \<longrightarrow> (\<exists>b. physical E (f_disk t) p = Inr b \<and>
       bf_Present b = (content \<noteq> None) \<and> hashOf E (bf_Content b) (bf_Present b) = hash_content E content)) \<and>
    (\<forall>p. map_of (f_disk t) p \<noteq> map_of (f_disk s) p \<longrightarrow> mhas (d_files d) p \<or>
       (\<exists>q. mhas (d_files d) q \<and> (p \<in> set (dir_chain (length q) (path_dir q)) \<or>
          (\<exists>n. p = path_join (path_dir q) (tempPrefix @ e_random E n))))) \<and>
    s_staged t = mdel key (s_staged s) \<and> key \<notin> snd ` set (s_owners t) \<and> s_recovery t = None"
proof -
  have un: "unguessed E (f_disk s)" using fresh by (simp add: unguessed_def)
  have wf: "wf_map (d_files d)"
    using reachable_sound [OF s] d by (auto simp: ownership_sound_def owned_store_def files_wf_def)
  have none: "s_recovery s = None" using ready by (simp add: readyLocked_def split: if_splits)
  have start: "flush_start E (f_disk s) (s_staged s) s"
    using none assms(3) by (simp add: flush_start_def flush_defs undoable_def differs_def store.truncate_def)
  have "consolidateCheckpointLocked E key cp ex acc s = (Inr u, t)"
    using c ready by (simp add: ConsolidateCheckpoint_def guarded_def xbind_def vstep)
  then obtain w call where w: "consolidateLocked E key s = (Inr (), w)"
      "t = snd (finishLocked [] (correlateLocked (length (s_journal s)) key key call w))"
    using consolidate_checkpoint_ok by blast
  obtain m w0 where m: "plan_ok E (f_disk s) d (sorted_keys (d_files d)) m"
      "flush_done E (f_disk s) (s_staged s) m w0" "w = releaseOwnershipLocked key (drop_delta key w0)"
    using consolidate_flushes [OF un d wf start w(1)] by auto
  have t: "f_disk t = f_disk w0" "s_staged t = mdel key (s_staged s)" "s_recovery t = None" "s_owners t = s_owners w"
    using m(2) by (simp_all add: w(2) m(3) flush_done_def)
  have paths: "ri_Path ` set (rm_Items m) = set (mkeys (d_files d))"
    using arg_cong [of _ _ set, OF plan_paths [OF m(1)]] by simp
  have files: "\<exists>b. physical E (f_disk t) p = Inr b \<and> bf_Present b = (content \<noteq> None) \<and>
      hashOf E (bf_Content b) (bf_Present b) = hash_content E content" if "map_of (d_files d) p = Some content" for p content
  proof -
    have "mhas (d_files d) p" using that by (simp add: mhas_def)
    then have "p \<in> ri_Path ` set (rm_Items m)" by (simp only: mhas_keys paths)
    then obtain i where i: "i \<in> set (rm_Items m)" "ri_Path i = p" by auto
    then obtain b where b: "physical E (f_disk w0) p = Inr b" "sameFile E b (ri_After i)"
      using m(2) by (auto simp: flush_done_def flushed_def)
    have "ri_After i = flushed_file (ri_Before i) content" using m(1) i that by (auto simp: plan_ok_def mget_def)
    then have "bf_Present b = (content \<noteq> None)" "hashOf E (bf_Content b) (bf_Present b) = hash_content E content"
      using b(2) by (cases content; simp add: sameFile_def flushed_file_def no_file_def hash_content_def hashOf_def)+
    then show ?thesis using b(1) t(1) by auto
  qed
  have frame: "mhas (d_files d) p \<or> (\<exists>q. mhas (d_files d) q \<and> (p \<in> set (dir_chain (length q) (path_dir q)) \<or>
      (\<exists>n. p = path_join (path_dir q) (tempPrefix @ e_random E n))))"
    if "map_of (f_disk t) p \<noteq> map_of (f_disk s) p" for p
  proof -
    have "p \<in> allowed (with_intent (length (rm_Items m)) m)" using that t(1) m(2) by (auto simp: flush_done_def differs_def)
    then consider "p \<in> ri_Path ` set (rm_Items m)" | i where "i \<in> set (rm_Items m)" "p = ri_Temp i" | "p \<in> set (rm_Dirs m)"
      by (auto simp: allowed_def)
    then show ?thesis
    proof cases
      case 1
      then show ?thesis using paths by (simp add: mhas_keys)
    next
      case 2
      then have "mhas (d_files d) (ri_Path i)" using paths by (auto simp: mhas_keys)
      moreover have "\<exists>n. p = path_join (path_dir (ri_Path i)) (tempPrefix @ e_random E n)"
        using m(1) 2 by (auto simp: plan_ok_def)
      ultimately show ?thesis by blast
    next
      case 3
      then have "\<exists>q \<in> set (sorted_keys (d_files d)). p \<in> set (dir_chain (length q) (path_dir q))"
        using m(1) by (auto simp: plan_ok_def)
      then show ?thesis by (auto simp: mhas_keys)
    qed
  qed
  have "key \<notin> snd ` set (s_owners w)" by (auto simp: m(3) releaseOwnershipLocked_def mdel_func_def)
  then show ?thesis using files frame t by simp
qed

text \<open>A commit that reports an error has changed no durable state.\<close>

lemma finish_failed:
  assumes "fst (finishLocked [] w) \<noteq> []"
  shows "f_db (snd (finishLocked [] w)) = f_db w"
proof (rule persist_cases [of w])
  assume "persistLocked w = ([ErrIO], snd (tick w))"
  then show ?thesis by (simp add: finishLocked_def)
next
  assume "persistLocked w = ([], (snd (tick w))\<lparr>f_db := \<lparr>db_state = Some (store.truncate w),
        db_journal = db_journal (f_db w) @ drop (f_persisted w) (s_journal w)\<rparr>\<rparr>)"
  then show ?thesis using assms by (cases "f_fault w") (simp_all add: finishLocked_def)
qed

lemma failed_consolidation_safe:
  assumes fresh: "unguessed E d0" and wf: "\<And>d. map_of (s_staged s) key = Some d \<Longrightarrow> wf_map (d_files d)"
    and start: "flush_start E d0 staged0 s"
    and c: "consolidateCheckpointLocked E key cp ex acc s = (Inl e, t)"
  shows "crash_safe E d0 staged0 t"
proof -
  have safe: "crash_safe E d0 staged0 s" using start by (simp add: flush_start_def flush_safe_def flush_base_def)
  show ?thesis
  proof (cases "t = s")
    case False
    then obtain d where d: "map_of (s_staged s) key = Some d"
      using c by (auto simp: consolidateCheckpointLocked_def Let_def stagedLocked_def split: if_splits option.splits)
    define call where "call = ''checkpoint/'' @ hashOf E (if blank cp then key @ ''@'' @ show_nat (unat ex) else cp) True"
    obtain r w where w: "consolidateLocked E key s = (r, w)" by fastforce
    let ?w = "correlateLocked (length (s_journal s)) key key call w"
    have fin: "finishing (\<lambda>s0. case consolidateLocked E key s0 of
        (r, s1) \<Rightarrow> (r, correlateLocked (length (s_journal s)) key key call s1)) s = (Inl e, t)"
      using c False by (simp add: consolidateCheckpointLocked_def Let_def call_def split: if_splits)
    then have t: "t = snd (finishLocked (err_of r) ?w)" "r = Inr () \<Longrightarrow> fst (finishLocked [] ?w) \<noteq> []"
      by (auto simp: finishing_def w err_of_def split: prod.splits if_splits sum.splits)
    note flush = consolidate_flushes [OF fresh d wf [OF d] start w]
    show ?thesis
    proof (cases r)
      case (Inl x)
      then have "flush_safe E d0 staged0 ?w" using flush by simp
      then have "flush_safe E d0 staged0 t" unfolding t(1) by (intro finish_safe safe_base)
      then show ?thesis by (simp add: flush_safe_def flush_base_def)
    next
      case (Inr x)
      then obtain w0 where w0: "crash_safe E d0 staged0 w0" "w = releaseOwnershipLocked key (drop_delta key w0)"
        using flush by (auto simp: flush_done_def)
      have "f_db t = f_db ?w" unfolding t(1) using finish_failed [OF t(2)] Inr by (simp add: err_of_def)
      moreover have "f_disk t = f_disk ?w" unfolding t(1) by simp
      ultimately show ?thesis using w0 by (simp add: crash_cong [of t w0])
    qed
  qed (use safe in simp)
qed

section \<open>Crashes and recoveries\<close>

text \<open>Any number of recovery attempts, restarts and schedules of failures.\<close>

inductive recovering :: "env \<Rightarrow> fs \<Rightarrow> fs \<Rightarrow> bool" for E :: env where
  start: "recovering E s s"
| attempt: "recovering E s t \<Longrightarrow> recovering E s (snd (Recover E t))"
| restart: "recovering E s t \<Longrightarrow> recovering E s (snd (reopen fl t))"
| schedule: "recovering E s t \<Longrightarrow> recovering E s (t\<lparr>f_faults := fl\<rparr>)"

lemma recovering_evolves: "recovering E s t \<Longrightarrow> evolves E s t"
  by (induction rule: recovering.induct) (blast intro: evolves.intros)+

lemma reopen_safe:
  assumes "log_sound s" "crash_safe E d0 staged0 s"
  shows "flush_safe E d0 staged0 (snd (reopen fl s))"
proof -
  obtain st where st: "db_state (f_db s) = Some st" "s_staged st = staged0" "undoable E d0 (f_disk s) (s_recovery st)"
    using assms(2) by (auto simp: crash_safe_def)
  note r = reopened_store [OF assms(1) st(1), of fl]
  have "s_staged (snd (reopen fl s)) = s_staged st" "s_recovery (snd (reopen fl s)) = s_recovery st"
    using arg_cong [OF r(1), of s_staged] arg_cong [OF r(1), of s_recovery] by (simp_all add: store.truncate_def)
  then show ?thesis using st r by (simp add: flush_defs)
qed

lemma recovering_safe:
  assumes "recovering E s t" and fresh: "unguessed E d0" "inj (e_sha256 E)"
    and "reachable E s" "flush_safe E d0 staged0 s"
  shows "flush_safe E d0 staged0 t"
  using assms(1,4,5)
proof (induction rule: recovering.induct)
  case (attempt s t)
  then show ?case by (intro recover_safe [OF fresh]) simp
next
  case (restart s t fl)
  then have "reachable E t" using reachable_step recovering_evolves by blast
  then show ?case using restart by (intro reopen_safe) (auto simp: reachable_sound flush_safe_def flush_base_def)
next
  case (schedule s t fl)
  then show ?case using safe_cong(4) [of "t\<lparr>f_faults := fl\<rparr>" t E d0 staged0] by simp
qed simp

text \<open>C1: A consolidation is atomic: if it reports an error, whatever step failed or wherever the
  process died, then after the workspace is opened again and any number of recovery attempts, each
  with failures and crashes of its own, as soon as no manifest is pending the workspace holds exactly
  what it held before the consolidation, and the staged work is all there.\<close>

theorem interrupted_flush_is_undone:
  assumes s: "reachable E s" and ready: "readyLocked s = []" and "db_state (f_db s) = Some (store.truncate s)"
    and hash: "inj (e_sha256 E)"
    and fresh: "\<forall>n rel. map_of (f_disk s) (path_join (path_dir rel) (tempPrefix @ e_random E n)) = None"
    and c: "ConsolidateCheckpoint E key cp ex acc s = (Inl e, t)"
    and r: "recovering E (snd (reopen fl t)) v" "s_recovery v = None"
  shows "map_of (f_disk v) = map_of (f_disk s) \<and> s_staged v = s_staged s"
proof -
  have un: "unguessed E (f_disk s)" using fresh by (simp add: unguessed_def)
  have wf: "map_of (s_staged s) key = Some d \<Longrightarrow> wf_map (d_files d)" for d
    using reachable_sound [OF s] by (auto simp: ownership_sound_def owned_store_def files_wf_def)
  have none: "s_recovery s = None" using ready by (simp add: readyLocked_def split: if_splits)
  have "flush_start E (f_disk s) (s_staged s) s"
    using none assms(3) by (simp add: flush_start_def flush_defs undoable_def differs_def store.truncate_def)
  moreover have "consolidateCheckpointLocked E key cp ex acc s = (Inl e, t)"
    using c ready by (simp add: ConsolidateCheckpoint_def guarded_def xbind_def vstep)
  ultimately have "crash_safe E (f_disk s) (s_staged s) t" by (intro failed_consolidation_safe [OF un wf])
  moreover have t: "reachable E t" using reachable_step [OF s evolves.consolidate] c by (metis snd_conv)
  ultimately have "flush_safe E (f_disk s) (s_staged s) (snd (reopen fl t))"
    by (intro reopen_safe) (simp add: reachable_sound)
  then have "flush_safe E (f_disk s) (s_staged s) v"
    using recovering_safe [OF r(1) un hash] reachable_step [OF t evolves.restart] by blast
  then show ?thesis using r(2) by (auto simp: flush_defs undoable_def differs_def)
qed

section \<open>The names of temporaries\<close>

lemma join_path_last: "\<exists>x. join_path (ws @ [t]) = x @ t"
proof (induction ws)
  case (Cons w ws)
  then obtain x where "join_path (ws @ [t]) = x @ t" by blast
  then show ?case by (cases "ws @ [t]") (simp_all add: join_path_def)
qed (simp add: join_path_def)

text \<open>A plain name joined to a directory stays the last component.\<close>

lemma path_join_last:
  assumes "CHR ''/'' \<notin> set t" "t \<notin> {[], ''.'', ''..''}"
  shows "\<exists>x. path_join d t = x @ t"
proof -
  define p where "p = join_path (filter (\<lambda>s. s \<noteq> []) [d, t])"
  obtain front where parts: "path_parts p = front @ [t]"
  proof (cases "d = []")
    case True
    then show thesis using that [of "[]"] assms by (simp add: p_def path_parts_def join_path_def split_on_plain)
  next
    case False
    then show thesis using that [of "path_parts d"] assms
      by (simp add: p_def path_parts_def join_path_def split_on_append split_on_plain)
  qed
  let ?stack = "foldl (clean_step (has_prefix p ''/'')) [] front"
  have "join_path (rev (foldl (clean_step (has_prefix p ''/'')) [] (path_parts p))) = join_path (rev ?stack @ [t])"
    using assms(2) by (simp add: parts)
  moreover obtain x where x: "join_path (rev ?stack @ [t]) = x @ t" using join_path_last by blast
  ultimately have body: "join_path (rev (foldl (clean_step (has_prefix p ''/'')) [] (path_parts p))) = x @ t" by simp
  have clean: "path_clean p = (if has_prefix p ''/'' then ''/'' @ x @ t else x @ t)"
    unfolding path_clean_def Let_def body using assms(2) by simp
  have "path_join d t = path_clean p" using assms(2) by (simp add: path_join_def p_def)
  then have "path_join d t = (if has_prefix p ''/'' then ''/'' @ x else x) @ t" using clean by simp
  then show ?thesis ..
qed

lemma demo_names_fresh: "map_of demo_disk (path_join (path_dir rel) (tempPrefix @ e_random demo_env n)) = None"
proof -
  have t: "tempPrefix @ e_random demo_env n = (tempPrefix @ replicate n (CHR ''k'')) @ [CHR ''k'']"
    by (simp add: demo_env_def replicate_append_same)
  obtain x where "path_join (path_dir rel) (tempPrefix @ e_random demo_env n) = x @ tempPrefix @ e_random demo_env n"
    using path_join_last [of "tempPrefix @ e_random demo_env n" "path_dir rel"]
    by (auto simp: demo_env_def tempPrefix_def)
  then have "last (path_join (path_dir rel) (tempPrefix @ e_random demo_env n)) = CHR ''k''"
    by (simp add: t)
  then show ?thesis by (auto simp: demo_disk_def)
qed

lemma demo_hash_inj: "inj (e_sha256 demo_env)"
  by (simp add: demo_env_def inj_def)

text \<open>The flush of two files fails in the middle of the second, and the next commit fails as well.\<close>

definition demo_failing :: fs where
  "demo_failing = demo_staged\<lparr>f_faults := replicate 9 Fine @ [Fail 2, Fail 0]\<rparr>"

definition demo_interrupted :: "(verror list + unit) \<times> fs" where
  "demo_interrupted = ConsolidateCheckpoint demo_env ''k'' [] 2 False demo_failing"

lemma demo_interrupts: "fst demo_interrupted = Inl [ErrFlushPartial, ErrIO, ErrStoreFailed, ErrIO]"
  by code_simp

lemma demo_interrupts_half_way: "map_of (f_disk (snd demo_interrupted)) ''src/a.go'' = Some (File ''new'' 384 1)"
  by code_simp

lemma demo_recovers: "s_recovery (snd (Recover demo_env (snd (reopen [] (snd demo_interrupted))))) = None"
  by code_simp

theorem interrupted_flush_is_undone_witness:
  "map_of (f_disk (snd (Recover demo_env (snd (reopen [] (snd demo_interrupted)))))) ''src/a.go'' =
     Some (File ''old'' 384 1)"
proof -
  have s: "reachable demo_env demo_failing"
    unfolding demo_failing_def by (rule reachable_step [OF demo_reachable(4) evolves.schedule])
  have d: "readyLocked demo_failing = []" "db_state (f_db demo_failing) = Some (store.truncate demo_failing)"
    "f_disk demo_failing = demo_disk"
    by (simp_all add: demo_failing_def demo_staged_def demo_patched_def demo_bound_def demo_opened_def committed_def
        readyLocked_def newFS_def fs.fields_def store.extend_def empty_store_def store.truncate_def)
  have c: "ConsolidateCheckpoint demo_env ''k'' [] 2 False demo_failing =
      (Inl [ErrFlushPartial, ErrIO, ErrStoreFailed, ErrIO], snd demo_interrupted)"
    using demo_interrupts by (metis demo_interrupted_def prod.collapse)
  have r: "recovering demo_env (snd (reopen [] (snd demo_interrupted)))
      (snd (Recover demo_env (snd (reopen [] (snd demo_interrupted)))))"
    by (intro recovering.intros)
  have fresh: "\<forall>n rel. map_of (f_disk demo_failing) (path_join (path_dir rel) (tempPrefix @ e_random demo_env n)) = None"
    using demo_names_fresh d(3) by simp
  show ?thesis
    using interrupted_flush_is_undone [OF s d(1,2) demo_hash_inj fresh c r demo_recovers] d(3)
    by (simp add: demo_disk_def)
qed

definition demo_flushed :: "(verror list + unit) \<times> fs" where
  "demo_flushed = ConsolidateCheckpoint demo_env ''k'' [] 2 False demo_staged"

lemma demo_flushes: "fst demo_flushed = Inr ()"
  by code_simp

theorem consolidation_materializes_witness:
  "\<exists>b. physical demo_env (f_disk (snd demo_flushed)) ''src/a.go'' = Inr b \<and>
     hashOf demo_env (bf_Content b) (bf_Present b) = e_sha256 demo_env ''new''"
proof -
  have d: "readyLocked demo_staged = []" "db_state (f_db demo_staged) = Some (store.truncate demo_staged)"
    "f_disk demo_staged = demo_disk"
    "map_of (s_staged demo_staged) ''k'' = Some (demo_delta [(''src/a.go'', Some ''new''), (''src/b.go'', Some ''made'')] 2)"
    by (simp_all add: demo_staged_def demo_patched_def demo_bound_def demo_opened_def committed_def
        readyLocked_def newFS_def fs.fields_def store.extend_def empty_store_def store.truncate_def)
  have c: "ConsolidateCheckpoint demo_env ''k'' [] 2 False demo_staged = (Inr (), snd demo_flushed)"
    using demo_flushes by (metis demo_flushed_def prod.collapse)
  have fresh: "\<forall>n rel. map_of (f_disk demo_staged) (path_join (path_dir rel) (tempPrefix @ e_random demo_env n)) = None"
    using demo_names_fresh d(3) by simp
  show ?thesis
    using consolidation_materializes [OF demo_reachable(4) d(1,2) fresh d(4) c, THEN conjunct1, rule_format,
        of "''src/a.go''" "Some ''new''"]
    by (auto simp: demo_delta_def hash_content_def hashOf_def)
qed

end
