(* ===== verification/Path_Laws.thy ===== *)
theory Path_Laws
  imports Vfs_Paths
begin

text \<open>
  Laws of the path functions: what \<open>path.Clean\<close>, \<open>path.Dir\<close> and splitting at the slashes do to a path
  made of plain components. The paths of the virtual file system and those of a deployment are such paths.
\<close>

section \<open>Components\<close>

definition plain :: "string \<Rightarrow> bool" where
  "plain part \<longleftrightarrow> part \<notin> {[], ''.'', ''..''} \<and> CHR ''/'' \<notin> set part"

lemma path_parts_plain: "ValidPath rel \<Longrightarrow> rel \<noteq> ''.'' \<Longrightarrow> list_all plain (path_parts rel)"
  by (auto simp: ValidPath_def plain_def list_all_iff path_parts_def dest: split_on_notin)

lemma join_parts: "join_path (path_parts rel) = rel"
  by (simp add: join_path_def path_parts_def join_split)

lemma parts_join: "ws \<noteq> [] \<Longrightarrow> list_all plain ws \<Longrightarrow> path_parts (join_path ws) = ws"
  by (simp add: join_path_def path_parts_def split_join list_all_iff plain_def)

lemma join_snoc: "ws \<noteq> [] \<Longrightarrow> join_path (ws @ [x]) = join_path ws @ ''/'' @ x"
proof (induction ws)
  case (Cons w ws)
  then show ?case by (cases ws) (simp_all add: join_path_def)
qed simp

lemma split_snoc: "CHR ''/'' \<notin> set x \<Longrightarrow> path_split (s @ ''/'' @ x) = (s @ ''/'', x)"
proof -
  assume x: "CHR ''/'' \<notin> set x"
  have "takeWhile (\<lambda>c. c \<noteq> CHR ''/'') (rev x @ CHR ''/'' # rev s) = rev x"
    using x by (subst takeWhile_append2) auto
  then show ?thesis by (simp add: path_split_def Let_def)
qed

lemma clean_plain: "list_all plain ws \<Longrightarrow> foldl (clean_step rooted) stack ws = rev ws @ stack"
  by (induction ws arbitrary: stack) (simp_all add: plain_def)

lemma join_rooted: "ws \<noteq> [] \<Longrightarrow> list_all plain ws \<Longrightarrow> \<not> has_prefix (join_path ws @ s) ''/''"
  by (cases ws; cases "tl ws"; cases "hd ws") (auto simp: join_path_def plain_def has_prefix_def)

text \<open>\<open>path.Dir\<close> of a valid path drops the last component.\<close>

lemma path_dir_snoc:
  assumes "list_all plain (ws @ [x])"
  shows "path_dir (join_path (ws @ [x])) = (if ws = [] then ''.'' else join_path ws)"
proof (cases "ws = []")
  case True
  have "takeWhile (\<lambda>c. c \<noteq> CHR ''/'') (rev x) = rev x"
    using assms by (auto simp: takeWhile_eq_all_conv plain_def)
  then have "path_split x = ([], x)" unfolding path_split_def Let_def by (simp only: rev_rev_ident) simp
  moreover have "path_clean [] = ''.''" by code_simp
  ultimately show ?thesis using True by (simp add: join_path_def path_dir_def)
next
  case False
  have x: "CHR ''/'' \<notin> set x" and ws: "list_all plain ws" using assms by (simp_all add: plain_def)
  have "fst (path_split (join_path (ws @ [x]))) = join_path ws @ ''/''"
    using split_snoc [OF x, of "join_path ws"] by (simp add: join_snoc [OF False])
  moreover have "path_parts (join_path ws @ ''/'') = ws @ [[]]"
    using parts_join [OF False ws] split_on_append [of "CHR ''/''" "join_path ws" "[]"] by (simp add: path_parts_def)
  moreover have "foldl (clean_step False) [] (ws @ [[]]) = rev ws" using ws by (simp add: clean_plain)
  moreover have "\<not> has_prefix (join_path ws @ ''/'') ''/''" by (rule join_rooted [OF False ws])
  moreover have "join_path ws \<noteq> []" using False ws by (cases ws; cases "tl ws") (auto simp: join_path_def plain_def)
  ultimately show ?thesis using False by (simp add: path_dir_def path_clean_def Let_def)
qed

lemma join_dot: "list_all plain ws \<Longrightarrow> ws \<noteq> [] \<Longrightarrow> join_path ws \<noteq> ''.''"
  using parts_join [of ws] by (auto simp: path_parts_def plain_def)

lemma parts_length: "length (path_parts s) \<le> Suc (length s)"
  unfolding path_parts_def by (induction s) (auto split: list.split)

lemma dir_chain_parts:
  assumes "list_all plain ws" "length ws \<le> n"
  shows "dir_chain n (if ws = [] then ''.'' else join_path ws) = map (\<lambda>i. join_path (take i ws)) (rev [1..<Suc (length ws)])"
  using assms
proof (induction n arbitrary: ws)
  case (Suc n)
  show ?case
  proof (cases ws rule: rev_cases)
    case (snoc vs x)
    have "dir_chain n (if vs = [] then ''.'' else join_path vs) = map (\<lambda>i. join_path (take i vs)) (rev [1..<Suc (length vs)])"
      using Suc.prems snoc by (intro Suc.IH) auto
    moreover have "map (\<lambda>i. join_path (take i vs)) (rev [1..<Suc (length vs)]) =
        map (\<lambda>i. join_path (take i ws)) (rev [1..<Suc (length vs)])"
      by (intro map_cong) (auto simp: snoc)
    ultimately show ?thesis
      using Suc.prems(1) join_dot [of ws] by (simp add: snoc path_dir_snoc)
  qed simp
qed simp

lemma dir_chain_rel:
  assumes p: "list_all plain (path_parts rel)" and n: "length rel \<le> n"
  shows "dir_chain n (path_dir rel) =
    map (\<lambda>i. join_path (take i (path_parts rel))) (rev [1..<length (path_parts rel)])"
proof -
  obtain ws x where ws: "path_parts rel = ws @ [x]" by (cases "path_parts rel" rule: rev_cases) (auto simp: path_parts_def)
  have "path_dir rel = (if ws = [] then ''.'' else join_path ws)"
    using path_dir_snoc [of ws x] p join_parts [of rel] by (simp add: ws)
  moreover have "length ws \<le> n" using parts_length [of rel] n by (simp add: ws)
  moreover have "map (\<lambda>i. join_path (take i ws)) (rev [1..<Suc (length ws)]) =
      map (\<lambda>i. join_path (take i (path_parts rel))) (rev [1..<length (path_parts rel)])"
    by (intro map_cong) (auto simp: ws)
  ultimately show ?thesis using dir_chain_parts [of ws n] p by (simp add: ws)
qed

text \<open>\<open>path.Clean\<close> of a path without \<open>..\<close> leaves plain components.\<close>

lemma clean_steps_plain:
  "\<forall>part \<in> set parts. part \<noteq> ''..'' \<and> CHR ''/'' \<notin> set part \<Longrightarrow> list_all plain stack \<Longrightarrow>
    list_all plain (foldl (clean_step rooted) stack parts)"
  by (induction parts arbitrary: stack) (simp_all add: plain_def)

lemma path_clean_plain:
  assumes "''..'' \<notin> set (path_parts s)" "path_clean s \<noteq> ''.''" "\<not> has_prefix (path_clean s) ''/''"
  shows "list_all plain (path_parts (path_clean s))"
proof -
  define ws where "ws = rev (foldl (clean_step (has_prefix s ''/'')) [] (path_parts s))"
  have r: "\<not> has_prefix s ''/''" using assms(3) by (auto simp: path_clean_def Let_def has_prefix_def)
  have "list_all plain ws" unfolding ws_def using assms(1)
    by (simp add: list_all_rev) (intro clean_steps_plain; auto simp: path_parts_def dest: split_on_notin)
  moreover have "path_clean s = join_path ws" "ws \<noteq> []"
    using assms(2) r by (auto simp: path_clean_def ws_def Let_def join_path_def split: if_splits)
  ultimately show ?thesis using parts_join by simp
qed

text \<open>A directory above a path is a proper prefix of it.\<close>

lemma join_take_prefix:
  assumes "list_all plain ws" "0 < i" "i < length ws"
  shows "\<exists>s. join_path ws = join_path (take i ws) @ ''/'' @ s"
  using assms
proof (induction ws rule: rev_induct)
  case (snoc x ws)
  show ?case
  proof (cases "i = length ws")
    case True
    then show ?thesis using join_snoc [of ws x] snoc.prems by auto
  next
    case False
    then obtain s where "join_path ws = join_path (take i ws) @ ''/'' @ s" using snoc by auto
    then show ?thesis using join_snoc [of ws x] False snoc.prems by fastforce
  qed
qed simp

lemma above_is_less:
  assumes "list_all plain (path_parts rel)" "d \<in> set (dir_chain (length rel) (path_dir rel))"
  shows "d < rel"
proof -
  obtain i where i: "0 < i" "i < length (path_parts rel)" "d = join_path (take i (path_parts rel))"
    using assms(2) dir_chain_rel [OF assms(1) order_refl] by (fastforce simp: Suc_le_eq)
  then obtain s where "rel = d @ CHR ''/'' # s" using join_take_prefix [OF assms(1)] join_parts [of rel] by force
  then show ?thesis using lexord_append_rightI [of "CHR ''/'' # s" d "{(u, v). u < v}"] by (simp add: list_less_def)
qed

lemma chain_no_dot: "''.'' \<notin> set (dir_chain n d)"
  by (induction n d rule: dir_chain.induct) auto

end
