(* ===== verification/Vfs_Path_Props.thy ===== *)
theory Vfs_Path_Props
  imports Vfs_Flush_Props Path_Laws
begin

text \<open>
  Properties of paths and of journal pages: what an accepted path can name, which names stay secret,
  that the walk to the root of a path ends, and that a page is read by binary search.
\<close>

section \<open>The walk to the root\<close>

text \<open>C40: The walk from a path to the workspace root terminates: for a valid path the length of its
  text is fuel enough, more fuel changes nothing, and what the walk visits is exactly every directory
  above the path, nearest first.\<close>

theorem ancestor_walk_terminates:
  assumes "ValidPath rel" "rel \<noteq> ''.''" "length rel \<le> n"
  shows "dir_chain n (path_dir rel) =
    map (\<lambda>i. join_path (take i (path_parts rel))) (rev [1..<length (path_parts rel)])"
  using dir_chain_rel path_parts_plain assms by blast

theorem ancestor_walk_terminates_witness:
  "dir_chain (length ''a/b/c.go'') (path_dir ''a/b/c.go'') = [''a/b'', ''a'']"
proof -
  have "ValidPath ''a/b/c.go''" "path_parts ''a/b/c.go'' = [''a'', ''b'', ''c.go'']" by code_simp+
  then show ?thesis
    using ancestor_walk_terminates [of "''a/b/c.go''" "length ''a/b/c.go''"] by (simp add: join_path_def upt_rec)
qed

section \<open>What an accepted path can name\<close>

text \<open>A disk is a tree: what a path names lies in a directory.\<close>

definition tree_disk :: "disk \<Rightarrow> bool" where
  "tree_disk d \<longleftrightarrow> list_all (\<lambda>k. lstat d (path_dir k) = Some Dir) (mkeys d)"

definition parent_at :: "string list \<Rightarrow> nat \<Rightarrow> string" where
  "parent_at parts i = (if i = 0 then ''.'' else join_path (take i parts))"

definition no_twin :: "env \<Rightarrow> disk \<Rightarrow> string \<Rightarrow> string \<Rightarrow> bool" where
  "no_twin E d parent part \<longleftrightarrow> lstat d parent \<noteq> Some Dir \<or>
    list_all (\<lambda>name. e_nfc E name = part \<or> \<not> e_fold E (e_nfc E name) part) (disk_entries d parent)"

lemma lstat_parent:
  assumes "tree_disk d" "list_all plain (ws @ [x])" "lstat d (join_path (ws @ [x])) \<noteq> None"
  shows "lstat d (parent_at ws (length ws)) = Some Dir"
proof -
  have "join_path (ws @ [x]) \<in> set (mkeys d)"
    using assms(3) join_dot [OF assms(2)] by (auto simp: lstat_def mhas_def simp flip: mhas_keys)
  then have "lstat d (path_dir (join_path (ws @ [x]))) = Some Dir"
    using assms(1) by (simp add: tree_disk_def list_all_iff)
  then show ?thesis using path_dir_snoc [OF assms(2)] by (cases "ws = []") (simp_all add: parent_at_def)
qed

lemma absent_below:
  assumes "tree_disk d" "list_all plain (ws @ us)" "ws \<noteq> []" "lstat d (join_path ws) \<noteq> Some Dir" "us \<noteq> []"
  shows "lstat d (join_path (ws @ us)) = None"
  using assms(2,5)
proof (induction us rule: rev_induct)
  case (snoc x us)
  show ?case
  proof (rule ccontr)
    assume "lstat d (join_path (ws @ us @ [x])) \<noteq> None"
    then have "lstat d (join_path (ws @ us)) = Some Dir"
      using lstat_parent [OF assms(1), of "ws @ us" x] snoc.prems assms(3) by (simp add: parent_at_def)
    then show False using snoc assms(4) by (cases "us = []") auto
  qed
qed simp

lemma checkEntry_passed: "checkEntry d rel final False = Inr True \<Longrightarrow>
    (if final then \<exists>c m. lstat d rel = Some (File c m 1) else lstat d rel = Some Dir)"
  "checkEntry d rel final False = Inr False \<Longrightarrow> lstat d rel = None"
  by (auto simp: checkEntry_def split: option.splits disk_node.splits if_splits)

lemma checkSiblings_passed: "checkSiblings E d parent part = Inr True \<Longrightarrow> lstat d parent = Some Dir \<and> no_twin E d parent part"
  "checkSiblings E d parent part = Inr False \<Longrightarrow> lstat d parent = None"
  by (auto simp: checkSiblings_def no_twin_def list_all_iff split: option.splits disk_node.splits if_splits)

text \<open>The loop passes the components one by one; below the first absent one the disk holds nothing.\<close>

definition passed :: "env \<Rightarrow> disk \<Rightarrow> string list \<Rightarrow> nat \<Rightarrow> bool" where
  "passed E d parts i \<longleftrightarrow> no_twin E d (parent_at parts i) (parts ! i) \<and>
    (if Suc i = length parts then lstat d (join_path parts) = None \<or> (\<exists>c m. lstat d (join_path parts) = Some (File c m 1))
     else lstat d (join_path (take (Suc i) parts)) \<in> {None, Some Dir})"

lemma absent_passed:
  assumes "tree_disk d" "list_all plain parts" "i < length parts" "k \<le> i"
    and "lstat d (join_path (take (Suc k) parts)) = None"
  shows "lstat d (join_path (take (Suc i) parts)) = None"
proof (cases "k = i")
  case False
  define ws us where "ws = take (Suc k) parts" and "us = take (i - k) (drop (Suc k) parts)"
  have "take (Suc i) parts = ws @ us"
    using assms(4) by (simp add: ws_def us_def flip: take_add)
  moreover have "list_all plain (take (Suc i) parts)" using assms(2) by (auto simp: list_all_iff dest: in_set_takeD)
  ultimately show ?thesis
    using absent_below [OF assms(1), of ws us] assms False by (cases "parts = []") (auto simp: ws_def us_def)
qed (use assms in simp)

lemma absent_rest:
  assumes "tree_disk d" "list_all plain parts" "k \<le> i" "i < length parts"
    and "lstat d (join_path (take (Suc k) parts)) = None" "no_twin E d (parent_at parts k) (parts ! k)"
  shows "passed E d parts i"
proof -
  have "lstat d (join_path (take (Suc i) parts)) = None" using absent_passed assms by blast
  moreover have "no_twin E d (parent_at parts i) (parts ! i)"
  proof (cases "k = i")
    case False
    then have "lstat d (join_path (take (Suc (i - 1)) parts)) = None"
      using absent_passed [OF assms(1,2), of "i - 1" k] assms by simp
    then show ?thesis using False assms(3) by (cases i) (simp_all add: no_twin_def parent_at_def)
  qed (use assms in simp)
  ultimately show ?thesis using assms(4) by (auto simp: passed_def)
qed

lemma check_parts_passed:
  assumes "tree_disk d" "list_all plain (checked @ rest)" "check_parts E d False checked rest = []"
    and "lstat d (parent_at checked (length checked)) = Some Dir" "length checked \<le> i" "i < length (checked @ rest)"
  shows "passed E d (checked @ rest) i"
  using assms(2-)
proof (induction rest arbitrary: checked)
  case (Cons part rest)
  define parts where "parts = checked @ part # rest"
  define k where "k = length checked"
  have parent: "(if checked = [] then ''.'' else join_path checked) = parent_at parts k"
    and here: "parts ! k = part" "take (Suc k) parts = checked @ [part]"
    by (simp_all add: parent_at_def parts_def k_def)
  have up: "lstat d (parent_at parts k) = Some Dir" using Cons.prems(3)
    by (cases "checked = []") (simp_all add: parent_at_def parts_def k_def)
  have sib: "checkSiblings E d (parent_at parts k) part = Inr True"
    using Cons.prems(2) checkSiblings_passed(2) up unfolding check_parts.simps parent
    by (auto simp: checkSiblings_def split: option.splits disk_node.splits if_splits)
  then have twin: "no_twin E d (parent_at parts k) (parts ! k)" using checkSiblings_passed(1) here by auto
  have range: "k \<le> i" "i < length parts" using Cons.prems by (simp_all add: parts_def k_def)
  have all: "list_all plain parts" using Cons.prems(1) by (simp add: parts_def)
  consider (absent) "checkEntry d (join_path (checked @ [part])) (rest = []) False = Inr False"
    | (there) "checkEntry d (join_path (checked @ [part])) (rest = []) False = Inr True"
        "check_parts E d False (checked @ [part]) rest = []"
    | (wrong) e where "checkEntry d (join_path (checked @ [part])) (rest = []) False = Inl e" "e = []"
    using Cons.prems(2) sib unfolding check_parts.simps parent by (auto split: sum.splits bool.splits)
  then show ?case
  proof cases
    case absent
    then show ?thesis
      using absent_rest [OF assms(1) all range _ twin] checkEntry_passed(2) [OF absent] here by (simp add: parts_def)
  next
    case there
    show ?thesis
    proof (cases "k = i")
      case True
      then show ?thesis
        using twin checkEntry_passed(1) [OF there(1)] here by (auto simp: passed_def parts_def k_def split: if_splits)
    next
      case False
      then have "rest \<noteq> []" using range by (auto simp: parts_def k_def)
      then have "lstat d (join_path (checked @ [part])) = Some Dir" using checkEntry_passed(1) [OF there(1)] by simp
      then have "passed E d ((checked @ [part]) @ rest) i"
        using Cons.prems False range there(2) by (intro Cons.IH) (auto simp: parent_at_def k_def)
      then show ?thesis by simp
    qed
  next
    case wrong
    then show ?thesis by (auto simp: checkEntry_def split: option.splits disk_node.splits if_splits)
  qed
qed simp

text \<open>C38: A path the workspace accepts names a plain file. On a workspace whose directories form a
  tree, when \<open>validatePath\<close> finds no fault then every component of the path is an ordinary name and
  none is reserved (\<open>.git\<close>, the private state, the temporary files of a flush), every ancestor is a
  directory or does not exist, no directory on the way holds a name that differs from the component only
  by spelling, and at the path there is nothing or a regular file with one link, so \<open>physical\<close> reads
  it without an error.\<close>

theorem accepted_path_is_a_plain_file:
  assumes "tree_disk d" "validatePath E d rel = []"
  shows "list_all (\<lambda>part. plain part \<and> \<not> reservedName E part) (path_parts rel) \<and>
    list_all (\<lambda>i. lstat d (join_path (take i (path_parts rel))) \<in> {None, Some Dir}) [1..<length (path_parts rel)] \<and>
    list_all (\<lambda>i. no_twin E d (parent_at (path_parts rel) i) (path_parts rel ! i)) [0..<length (path_parts rel)] \<and>
    (lstat d rel = None \<or> (\<exists>content mode. lstat d rel = Some (File content mode 1))) \<and>
    (\<exists>file. physical E d rel = Inr file)"
proof -
  define parts where "parts = path_parts rel"
  have v: "ValidPath rel" "rel \<noteq> ''.''" "\<not> list_ex (reservedName E) parts" "check_parts E d False [] parts = []"
    using assms(2) by (auto simp: validatePath_def validatePathParts_def parts_def split: if_splits)
  then have plain: "list_all plain parts" using path_parts_plain parts_def by blast
  have passed: "passed E d parts i" if "i < length parts" for i
    using check_parts_passed [OF assms(1), of "[]" parts E i] plain v(4) that by (simp add: parent_at_def lstat_def)
  have n: "Suc (length parts - 1) = length parts" by (simp add: parts_def path_parts_def)
  have rel: "lstat d rel = None \<or> (\<exists>content mode. lstat d rel = Some (File content mode 1))"
    using passed [of "length parts - 1"] n join_parts [of rel] by (simp add: passed_def parts_def)
  have "lstat d (join_path (take i parts)) \<in> {None, Some Dir}" if "1 \<le> i" "i < length parts" for i
    using passed [of "i - 1"] that by (auto simp: passed_def)
  then have "list_all (\<lambda>i. lstat d (join_path (take i parts)) \<in> {None, Some Dir}) [1..<length parts]"
    by (auto simp: list_all_iff)
  moreover have "list_all (\<lambda>i. no_twin E d (parent_at parts i) (parts ! i)) [0..<length parts]"
    using passed by (simp add: list_all_iff passed_def)
  moreover have "\<exists>file. physical E d rel = Inr file"
    using rel assms(2) by (auto simp: physical_def)
  ultimately show ?thesis using plain v(3) rel by (auto simp: list_all_iff list_ex_iff simp flip: parts_def)
qed

theorem accepted_path_is_a_plain_file_witness:
  "validatePath demo_env demo_disk ''src/a.go'' = [] \<and> lstat demo_disk ''src/a.go'' = Some (File ''old'' 384 1) \<and>
   (\<exists>file. physical demo_env demo_disk ''src/a.go'' = Inr file)"
proof -
  have "tree_disk demo_disk" "validatePath demo_env demo_disk ''src/a.go'' = []"
    "lstat demo_disk ''src/a.go'' = Some (File ''old'' 384 1)" by code_simp+
  then show ?thesis using accepted_path_is_a_plain_file [of demo_disk demo_env "''src/a.go''"] by blast
qed

section \<open>Secret names\<close>

lemma match_literal: "CHR ''*'' \<notin> set p \<Longrightarrow> path_match p s \<longleftrightarrow> s = p"
proof (induction p arbitrary: s)
  case (Cons c p)
  then show ?case by (cases s) auto
qed simp

lemma match_star: "CHR ''/'' \<notin> set s \<Longrightarrow> CHR ''*'' \<notin> set p \<Longrightarrow> path_match (CHR ''*'' # p) s \<longleftrightarrow> has_suffix s p"
proof (induction s)
  case (Cons c s)
  then show ?case by (auto simp: match_literal has_suffix_iff Cons_eq_append_conv)
qed (auto simp: match_literal has_suffix_iff)

lemma match_prefix: "CHR ''/'' \<notin> set s \<Longrightarrow> CHR ''*'' \<notin> set p \<Longrightarrow> path_match (p @ ''*'') s \<longleftrightarrow> has_prefix s p"
proof (induction p arbitrary: s)
  case Nil
  then show ?case using match_star [of s "[]"] by (simp add: has_suffix_def has_prefix_def)
next
  case (Cons c p)
  then show ?case by (cases s) (auto simp: has_prefix_def)
qed

text \<open>The last component against the patterns of one component, a directory against its own.\<close>

definition secret_name :: "string \<Rightarrow> bool" where
  "secret_name x \<longleftrightarrow> x = ''.env'' \<or> has_prefix x ''.env.'' \<or> has_suffix x ''.pem'' \<or> has_suffix x ''.key'' \<or>
     x = ''credentials.json''"

definition secret_dir :: "string \<Rightarrow> bool" where
  "secret_dir x \<longleftrightarrow> x = ''.ssh'' \<or> x = ''.credentials'' \<or> x = ''secrets''"

lemma hits_name:
  assumes "list_all plain (ds @ [x])" "secret_name x"
  shows "\<exists>glob \<in> set SensitivePathGlobs. glob_hits (ds @ [x]) False glob"
proof -
  have x: "CHR ''/'' \<notin> set x" using assms(1) by (simp add: plain_def)
  have one: "glob_hits (ds @ [x]) False glob" if "\<not> has_suffix glob ''/**''" "CHR ''/'' \<notin> set glob" "path_match glob x" for glob
  proof -
    have "filter (\<lambda>c. c = CHR ''/'') glob = []" using that(2) by (auto simp: filter_empty_conv)
    then show ?thesis using that by (simp add: glob_hits_def trim_suffix_def join_path_def)
  qed
  consider "x = ''.env''" | "has_prefix x ''.env.''" | "has_suffix x ''.pem''" | "has_suffix x ''.key''" | "x = ''credentials.json''"
    using assms(2) unfolding secret_name_def by blast
  then show ?thesis
  proof cases
    case 1 then show ?thesis using one [of "''.env''"]
      by (simp add: SensitivePathGlobs_def match_literal has_suffix_def has_prefix_def)
  next
    case 2 then show ?thesis using one [of "''.env.*''"] match_prefix [OF x, of "''.env.''"]
      by (simp add: SensitivePathGlobs_def has_suffix_def has_prefix_def del: path_match.simps)
  next
    case 3 then show ?thesis using one [of "''*.pem''"] match_star [OF x, of "''.pem''"]
      by (simp add: SensitivePathGlobs_def has_suffix_def has_prefix_def del: path_match.simps)
  next
    case 4 then show ?thesis using one [of "''*.key''"] match_star [OF x, of "''.key''"]
      by (simp add: SensitivePathGlobs_def has_suffix_def has_prefix_def del: path_match.simps)
  next
    case 5 then show ?thesis using one [of "''credentials.json''"]
      by (simp add: SensitivePathGlobs_def match_literal has_suffix_def has_prefix_def)
  qed
qed

lemma hits_dir: "list_all plain (ds @ [x]) \<Longrightarrow> secret_dir x \<Longrightarrow> \<exists>glob \<in> set SensitivePathGlobs. glob_hits (ds @ [x]) True glob"
  by (rule bexI [of _ "x @ ''/**''"])
    (auto simp: secret_dir_def glob_hits_def SensitivePathGlobs_def has_suffix_def has_prefix_def trim_suffix_def join_path_def)

lemma hits_aws: "\<exists>glob \<in> set SensitivePathGlobs. glob_hits (ds @ [''.aws'', ''credentials'']) False glob"
  by (rule bexI [of _ "''.aws/credentials''"])
    (auto simp: SensitivePathGlobs_def glob_hits_def has_suffix_def has_prefix_def trim_suffix_def join_path_def)

lemma hits_keychains: "\<exists>glob \<in> set SensitivePathGlobs. glob_hits (ds @ [''Library'', ''Keychains'']) True glob"
  by (rule bexI [of _ "''Library/Keychains/**''"])
    (auto simp: SensitivePathGlobs_def glob_hits_def has_suffix_def has_prefix_def trim_suffix_def join_path_def)

lemma hits_hosts: "\<exists>glob \<in> set SensitivePathGlobs. glob_hits (ds @ [''.config'', ''gh'', ''hosts.yml'']) False glob"
  by (rule bexI [of _ "''.config/gh/hosts.yml''"])
    (auto simp: SensitivePathGlobs_def glob_hits_def has_suffix_def has_prefix_def trim_suffix_def join_path_def)

lemma inspected:
  assumes "\<not> sensitiveInspection rel False" "list_all plain (path_parts rel)" "glob \<in> set SensitivePathGlobs"
  shows "\<not> glob_hits (path_parts rel) False glob"
    and "path_parts rel = ds @ us \<Longrightarrow> ds \<noteq> [] \<Longrightarrow> us \<noteq> [] \<Longrightarrow> \<not> glob_hits ds True glob"
proof -
  show "\<not> glob_hits (path_parts rel) False glob"
    using assms(1,3) by (auto simp: sensitiveInspection_def matchesSensitive_def Let_def)
  show "\<not> glob_hits ds True glob" if p: "path_parts rel = ds @ us" "ds \<noteq> []" "us \<noteq> []"
  proof -
    have "length ds \<in> set [1..<length (path_parts rel)]" using p by (simp add: Suc_le_eq)
    then have "\<not> matchesSensitive (join_path (take (length ds) (path_parts rel))) True"
      using assms(1) by (auto simp: sensitiveInspection_def Let_def simp del: set_upt)
    moreover have "path_parts (join_path ds) = ds" using p(1,2) assms(2) by (intro parts_join) auto
    ultimately show ?thesis using p(1) assms(3) by (auto simp: matchesSensitive_def)
  qed
qed

text \<open>C39: No accepted path reaches a secret, at any depth of the workspace: \<open>validatePath\<close> refuses a
  file named \<open>.env\<close>, \<open>.env.*\<close>, \<open>*.pem\<close>, \<open>*.key\<close> or \<open>credentials.json\<close>, every file under a directory
  named \<open>.ssh\<close>, \<open>.credentials\<close> or \<open>secrets\<close> or under \<open>Library/Keychains\<close>, and the files
  \<open>.aws/credentials\<close> and \<open>.config/gh/hosts.yml\<close> of any directory.\<close>

theorem secrets_stay_out:
  assumes "validatePath E d rel = []"
  shows "\<not> secret_name (last (path_parts rel)) \<and> \<not> list_ex secret_dir (butlast (path_parts rel)) \<and>
    path_parts rel \<noteq> up @ [''.aws'', ''credentials''] \<and>
    path_parts rel \<noteq> up @ [''.config'', ''gh'', ''hosts.yml''] \<and>
    path_parts rel \<noteq> up @ [''Library'', ''Keychains''] @ name # below"
proof -
  have open_path: "\<not> sensitiveInspection rel False" and v: "ValidPath rel" "rel \<noteq> ''.''"
    using assms by (auto simp: validatePath_def split: if_splits)
  then have plain: "list_all plain (path_parts rel)" using path_parts_plain by blast
  note free = inspected [OF open_path plain]
  have split: "path_parts rel = butlast (path_parts rel) @ [last (path_parts rel)]" by (simp add: path_parts_def)
  have "\<not> secret_name (last (path_parts rel))"
    using hits_name [of "butlast (path_parts rel)" "last (path_parts rel)"] plain free(1) split by metis
  moreover have "\<not> list_ex secret_dir (butlast (path_parts rel))"
  proof
    assume "list_ex secret_dir (butlast (path_parts rel))"
    then obtain ds x us where ds: "butlast (path_parts rel) = ds @ x # us" "secret_dir x"
      by (auto simp: list_ex_iff dest: split_list)
    then have "path_parts rel = (ds @ [x]) @ us @ [last (path_parts rel)]" using split by simp
    then show False using hits_dir [of ds x] ds(2) free(2) plain
      by (metis append_is_Nil_conv list.distinct(1) list_all_append)
  qed
  moreover have "path_parts rel \<noteq> up @ [''.aws'', ''credentials'']"
    using hits_aws [of up] free(1) by auto
  moreover have "path_parts rel \<noteq> up @ [''.config'', ''gh'', ''hosts.yml'']"
    using hits_hosts [of up] free(1) by auto
  moreover have "path_parts rel \<noteq> up @ [''Library'', ''Keychains''] @ name # below"
    using hits_keychains [of up] free(2) [of _ "up @ [''Library'', ''Keychains'']" "name # below"]
    by auto
  ultimately show ?thesis by blast
qed

theorem secrets_stay_out_witness:
  "validatePath demo_env demo_disk ''src/a.go'' = [] \<and> \<not> secret_name ''a.go'' \<and> \<not> secret_dir ''src''"
proof -
  have "validatePath demo_env demo_disk ''src/a.go'' = []" "path_parts ''src/a.go'' = [''src'', ''a.go'']" by code_simp+
  then show ?thesis using secrets_stay_out [of demo_env demo_disk "''src/a.go''"] by simp
qed

section \<open>Journal pages\<close>

text \<open>\<open>sort.Search\<close> passes over no index at which the predicate holds, when it stays true once it is.\<close>

lemma sort_search_skips:
  assumes "\<And>i j. i \<le> j \<Longrightarrow> j < n \<Longrightarrow> p i \<Longrightarrow> p j"
  shows "\<forall>i < lo. \<not> p i \<Longrightarrow> hi \<le> n \<Longrightarrow> lo \<le> hi \<Longrightarrow> i < sort_search p lo hi \<Longrightarrow> \<not> p i"
proof (induction "hi - lo" arbitrary: lo hi rule: less_induct)
  case less
  define h where "h = (lo + hi) div 2"
  show ?case
  proof (cases "lo < hi")
    case True
    then have h: "lo \<le> h" "h < hi" by (simp_all add: h_def)
    have "\<forall>i < Suc h. \<not> p i" if "\<not> p h" using assms [of _ h] that h less.prems(2) by (meson less_Suc_eq_le less_le_trans)
    then show ?thesis
      using less.hyps [of h lo] less.hyps [of hi "Suc h"] less.prems h True
      by (cases "p h") (simp_all add: sort_search.simps [of p lo hi] h_def [symmetric] Let_def)
  next
    case False
    then have "sort_search p lo hi = lo" by (subst sort_search.simps) simp
    then show ?thesis using less.prems by simp
  qed
qed

lemma fill_page_take:
  "length result < limit \<Longrightarrow> fill_page on limit result es = result @ take (limit - length result) (filter on es)"
proof (induction es arbitrary: result)
  case (Cons e es)
  have "limit - length result = Suc (limit - Suc (length result))" using Cons.prems by simp
  then show ?case using Cons by auto
qed simp

text \<open>A journal page found by binary search is the page a scan of the whole journal gives: on a
  journal numbered in order, \<open>journalPage\<close> returns the first \<open>limit\<close> entries, \<open>limit\<close> clamped
  between 1 and the maximum page, among those after the cursor and of the requested session and unit.\<close>

theorem journal_page_is_the_scan:
  assumes "sorted (map je_Seq entries)"
  shows "journalPage entries session unit after limit =
    take (nat (max 1 (min limit MaxJournalPageSize))) (filter (on_page session unit after) entries)"
proof -
  define p where "p i \<longleftrightarrow> after < int (je_Seq (entries ! i))" for i
  define start where "start = sort_search p 0 (length entries)"
  have mono: "p j" if "i \<le> j" "j < length entries" "p i" for i j
  proof -
    have "je_Seq (entries ! i) \<le> je_Seq (entries ! j)"
      using sorted_nth_mono [OF assms that(1)] that by simp
    then show ?thesis using that(3) by (simp add: p_def)
  qed
  have start: "\<not> p i" if "i < start" for i
    using sort_search_skips [of "length entries" p 0 "length entries" i] mono that by (simp add: start_def)
  have "filter (on_page session unit after) (take start entries) = []"
    using start by (auto simp: filter_empty_conv on_page_def p_def in_set_conv_nth)
  then have "filter (on_page session unit after) entries = filter (on_page session unit after) (drop start entries)"
    by (metis append_Nil append_take_drop_id filter_append)
  moreover have "0 < nat (max 1 (min limit MaxJournalPageSize))" by simp
  ultimately show ?thesis
    by (simp add: journalPage_def Let_def fill_page_take start_def p_def [abs_def] del: nat_le_0)
qed

theorem journal_page_is_the_scan_witness:
  "map je_Seq (journalPage (s_journal demo_staged) ''s'' [] (int 0) 1) = [1]"
proof -
  have "sorted (map je_Seq (s_journal demo_staged))" by code_simp
  moreover have "map je_Seq (take (nat (max 1 (min 1 MaxJournalPageSize)))
      (filter (on_page ''s'' [] (int 0)) (s_journal demo_staged))) = [1]" by code_simp
  ultimately show ?thesis using journal_page_is_the_scan [of "s_journal demo_staged" "''s''" "[]" "int 0" 1] by simp
qed

end
