(* ===== verification/Model_Role.thy ===== *)
theory Model_Role
  imports Takt_Prelude
begin

text \<open>The role classes of the crew (\<open>takt/model/role.go\<close>); a class is its name.\<close>

definition RoleOrchestrator :: string where "RoleOrchestrator = ''orchestrator''"
definition RoleDirectInterlocutor :: string where "RoleDirectInterlocutor = ''direct_interlocutor''"

definition roleClasses :: "string list" where
  "roleClasses = [RoleOrchestrator, RoleDirectInterlocutor, ''planning_author'', ''execution'', ''verification'',
     ''quality_assurance'', ''maintenance'']"

definition role_valid :: "string \<Rightarrow> bool" where
  "role_valid r = (r \<in> set roleClasses)"

definition HoldsInterface :: "string \<Rightarrow> bool" where
  "HoldsInterface role \<longleftrightarrow> role = RoleDirectInterlocutor"

datatype role_error = MissingRole | UnknownRole string

definition ValidateRoleClass :: "string \<Rightarrow> role_error option" where
  "ValidateRoleClass r = (if r = [] then Some MissingRole else if \<not> role_valid r then Some (UnknownRole r) else None)"

end
