(* ===== verification/Vfs_Git.thy ===== *)
theory Vfs_Git
  imports Vfs_Paths Model_Role
begin

text \<open>
  The Git boundary of \<open>takt/vfs\<close> (\<open>shell.go\<close>, \<open>vfs.go\<close>): the lexer that splits a command line into the
  simple commands it runs, and the classification of the Git among them. A command is its list of
  runes, as numbers; \<open>lit\<close> writes an ASCII text.
\<close>

section \<open>Runes\<close>

type_synonym runes = "nat list"

definition lit :: "string \<Rightarrow> runes" where
  "lit s = map of_char s"

text \<open>
  \<open>unicode.IsSpace\<close>; the tables behind \<open>unicode.IsLetter\<close> and \<open>unicode.IsDigit\<close> are the argument \<open>U\<close>
  beyond ASCII.
\<close>

definition is_space :: "nat \<Rightarrow> bool" where
  "is_space r \<longleftrightarrow> r \<in> {9, 10, 11, 12, 13, 32, 133, 160, 5760, 8232, 8233, 8239, 8287, 12288} \<or> (8192 \<le> r \<and> r \<le> 8202)"

record unicode =
  un_letter :: "nat \<Rightarrow> bool"
  un_digit :: "nat \<Rightarrow> bool"

definition is_letter :: "unicode \<Rightarrow> nat \<Rightarrow> bool" where
  "is_letter U r \<longleftrightarrow> (65 \<le> r \<and> r \<le> 90) \<or> (97 \<le> r \<and> r \<le> 122) \<or> (128 \<le> r \<and> un_letter U r)"

definition is_digit :: "unicode \<Rightarrow> nat \<Rightarrow> bool" where
  "is_digit U r \<longleftrightarrow> (48 \<le> r \<and> r \<le> 57) \<or> (128 \<le> r \<and> un_digit U r)"

definition starts :: "runes \<Rightarrow> runes \<Rightarrow> bool" where
  "starts s p \<longleftrightarrow> take (length p) s = p"

definition ends :: "runes \<Rightarrow> runes \<Rightarrow> bool" where
  "ends s p \<longleftrightarrow> starts (rev s) (rev p)"

section \<open>The lexer\<close>

text \<open>A double-quoted span up to its closing quote, escapes included, and what follows it.\<close>

fun dquote :: "runes \<Rightarrow> runes \<times> runes" where
  "dquote [] = ([], [])"
| "dquote (c # cs) =
    (if c = 34 then ([], cs)
     else if c = 92 then (case cs of [] \<Rightarrow> ([c], []) | d # ds \<Rightarrow> (case dquote ds of (q, rest) \<Rightarrow> (c # d # q, rest)))
     else case dquote cs of (q, rest) \<Rightarrow> (c # q, rest))"

text \<open>The spans between an opener and the next closer, or the end: one pass of \<open>substitutions\<close>.\<close>

fun after_first :: "runes \<Rightarrow> runes \<Rightarrow> runes option" where
  "after_first p [] = (if p = [] then Some [] else None)"
| "after_first p (c # cs) = (if starts (c # cs) p then Some (drop (length p) (c # cs)) else after_first p cs)"

lemma after_first_shorter: "after_first p s = Some rest \<Longrightarrow> p \<noteq> [] \<Longrightarrow> length rest < length s"
proof (induction s)
  case (Cons c cs)
  then show ?case by (cases p) (auto split: if_splits)
qed (simp split: if_splits)

function spans :: "runes \<Rightarrow> nat \<Rightarrow> runes \<Rightarrow> runes list" where
  "spans opener closer s =
    (case (if opener = [] then None else after_first opener s) of None \<Rightarrow> []
     | Some rest \<Rightarrow> takeWhile (\<lambda>r. r \<noteq> closer) rest # spans opener closer (drop 1 (dropWhile (\<lambda>r. r \<noteq> closer) rest)))"
  by pat_completeness auto
termination
proof (relation "measure (\<lambda>(p, c, s). length s)")
  fix p :: runes and c s rest
  assume "(if p = [] then None else after_first p s) = Some rest"
  then have "length rest < length s" using after_first_shorter by (auto split: if_splits)
  moreover have "length (drop 1 (dropWhile (\<lambda>r. r \<noteq> c) rest)) \<le> length rest"
    using length_dropWhile_le [of "\<lambda>r. r \<noteq> c" rest] by simp
  ultimately show "((p, c, drop 1 (dropWhile (\<lambda>r. r \<noteq> c) rest)), (p, c, s)) \<in> measure (\<lambda>(p, c, s). length s)"
    by simp
qed simp

declare spans.simps [simp del]

definition substitution_spans :: "runes \<Rightarrow> runes list" where
  "substitution_spans quoted = spans (lit ''$('') 41 quoted @ spans [96] 96 quoted"

lemma spans_shorter: "x \<in> set (spans opener closer s) \<Longrightarrow> length x < length s"
proof (induction opener closer s rule: spans.induct)
  case (1 opener closer s)
  obtain rest where rest: "(if opener = [] then None else after_first opener s) = Some rest"
    using "1.prems" by (cases "if opener = [] then None else after_first opener s") (simp_all add: spans.simps [of opener closer s])
  then have short: "length rest < length s" using after_first_shorter by (auto split: if_splits)
  have le: "length (takeWhile (\<lambda>r. r \<noteq> closer) rest) \<le> length rest"
    "length (dropWhile (\<lambda>r. r \<noteq> closer) rest) \<le> length rest"
    by (rule length_takeWhile_le) (rule length_dropWhile_le)
  have "spans opener closer s = takeWhile (\<lambda>r. r \<noteq> closer) rest # spans opener closer (drop 1 (dropWhile (\<lambda>r. r \<noteq> closer) rest))"
    unfolding spans.simps [of opener closer s] rest by simp
  with "1.prems" consider "x = takeWhile (\<lambda>r. r \<noteq> closer) rest"
    | "x \<in> set (spans opener closer (drop 1 (dropWhile (\<lambda>r. r \<noteq> closer) rest)))"
    by auto
  then show ?case
  proof cases
    case 2
    then show ?thesis using "1.IH" [OF rest 2] short le by simp
  qed (use short le in simp)
qed

lemma substitution_shorter: "x \<in> set (substitution_spans q) \<Longrightarrow> length x < length q"
  by (auto simp: substitution_spans_def dest: spans_shorter)

lemma dquote_length: "length (fst (dquote s)) + length (snd (dquote s)) \<le> length s"
proof (induction s rule: dquote.induct)
  case (2 c cs)
  show ?case
  proof (cases "c = 92")
    case True
    then show ?thesis using "2.IH"(1) by (cases cs) (simp_all add: split_beta)
  next
    case False
    then show ?thesis using "2.IH"(2) by (simp add: split_beta)
  qed
qed simp

text \<open>
  The loop of \<open>shellCommands\<close>: \<open>words\<close> are the finished words of the command being read and \<open>w\<close> the word
  being read, if one is. What is returned are the commands in the order the source appends them.
\<close>

definition end_word :: "runes list \<Rightarrow> runes option \<Rightarrow> runes list" where
  "end_word words w = (case w of None \<Rightarrow> words | Some x \<Rightarrow> words @ [x])"

definition end_command :: "runes list \<Rightarrow> runes option \<Rightarrow> runes list list" where
  "end_command words w = (if end_word words w = [] then [] else [end_word words w])"

definition add_text :: "runes option \<Rightarrow> runes \<Rightarrow> runes option" where
  "add_text w t = Some ((case w of None \<Rightarrow> [] | Some x \<Rightarrow> x) @ t)"

function shell_lex :: "runes list \<Rightarrow> runes option \<Rightarrow> runes \<Rightarrow> runes list list" where
  "shell_lex words w [] = end_command words w"
| "shell_lex words w (r # rest) =
    (if r = 92 \<and> rest \<noteq> [] then shell_lex words (add_text w [hd rest]) (tl rest)
     else if r = 39 then
       shell_lex words (add_text w (takeWhile (\<lambda>x. x \<noteq> 39) rest)) (drop 1 (dropWhile (\<lambda>x. x \<noteq> 39) rest))
     else if r = 34 then
       concat (map (shell_lex [] None) (substitution_spans (fst (dquote rest)))) @
       shell_lex words (add_text w (fst (dquote rest))) (snd (dquote rest))
     else if is_space r \<and> r \<noteq> 10 then shell_lex (end_word words w) None rest
     else if r \<in> set (lit ''|;&()`'') \<or> r = 10 then end_command words w @ shell_lex [] None rest
     else if r = 36 \<and> rest \<noteq> [] \<and> hd rest = 40 then end_command words w @ shell_lex [] None rest
     else shell_lex words (add_text w [r]) rest)"
  by pat_completeness auto
termination
proof (relation "measure (\<lambda>(words, w, s). length s)")
  fix words :: "runes list" and w :: "runes option" and r :: nat and rest :: runes
  show "((words, add_text w (takeWhile (\<lambda>x. x \<noteq> 39) rest), drop 1 (dropWhile (\<lambda>x. x \<noteq> 39) rest)), words, w, r # rest)
      \<in> measure (\<lambda>(words, w, s). length s)"
    using length_dropWhile_le [of "\<lambda>x. x \<noteq> 39" rest] by simp
  show "((words, add_text w (fst (dquote rest)), snd (dquote rest)), words, w, r # rest) \<in> measure (\<lambda>(words, w, s). length s)"
    using dquote_length [of rest] by simp
  fix x assume "x \<in> set (substitution_spans (fst (dquote rest)))"
  then have "length x < length (fst (dquote rest))" by (rule substitution_shorter)
  moreover have "length (fst (dquote rest)) \<le> length rest" using dquote_length [of rest] by simp
  ultimately show "(([], None, x), words, w, r # rest) \<in> measure (\<lambda>(words, w, s). length s)" by simp
qed (auto simp: neq_Nil_conv)

definition shellCommands :: "runes \<Rightarrow> runes list list" where
  "shellCommands command = shell_lex [] None command"

definition substitutions :: "runes \<Rightarrow> runes list list" where
  "substitutions quoted = concat (map shellCommands (substitution_spans quoted))"

text \<open>A word costs its length and its separator; no command is longer than the text it came from.\<close>

definition wsize :: "runes list \<Rightarrow> nat" where
  "wsize words = sum_list (map (\<lambda>w. length w + 1) words)"

lemma wsize_simps [simp]: "wsize [] = 0" "wsize (w # ws) = length w + 1 + wsize ws" "wsize (a @ b) = wsize a + wsize b"
  by (simp_all add: wsize_def)

definition pending :: "runes option \<Rightarrow> nat" where
  "pending w = (case w of None \<Rightarrow> 0 | Some x \<Rightarrow> length x)"

lemma pending_simps [simp]: "pending None = 0" "pending (Some x) = length x" "pending (add_text w t) = pending w + length t"
  by (simp_all add: pending_def add_text_def split: option.split)

lemma wsize_end_word: "wsize (end_word words w) \<le> wsize words + pending w + 1"
  by (simp add: end_word_def split: option.split)

lemma wsize_end_command: "ws \<in> set (end_command words w) \<Longrightarrow> wsize ws \<le> wsize words + pending w + 1"
  using wsize_end_word by (auto simp: end_command_def split: if_splits)

lemma shell_lex_size: "ws \<in> set (shell_lex words w s) \<Longrightarrow> wsize ws \<le> wsize words + pending w + length s + 1"
proof (induction words w s rule: shell_lex.induct)
  case (1 words w)
  then show ?case using wsize_end_command by simp
next
  case (2 words w r rest)
  note ih = "2.IH"
  show ?case
  proof (cases "r = 92 \<and> rest \<noteq> []")
    case True
    then show ?thesis using ih(1) [OF True] "2.prems" by (cases rest) auto
  next
    case a: False
    show ?thesis
    proof (cases "r = 39")
      case True
      then have "wsize ws \<le> wsize words + pending w + length (takeWhile (\<lambda>x. x \<noteq> 39) rest) +
          length (drop 1 (dropWhile (\<lambda>x. x \<noteq> 39) rest)) + 1"
        using ih(2) [OF a True] "2.prems" by simp
      moreover have "length (takeWhile (\<lambda>x. x \<noteq> 39) rest) + length (dropWhile (\<lambda>x. x \<noteq> 39) rest) = length rest"
        by (metis length_append takeWhile_dropWhile_id)
      ultimately show ?thesis by simp
    next
      case b: False
      show ?thesis
      proof (cases "r = 34")
        case True
        have q: "length (fst (dquote rest)) + length (snd (dquote rest)) \<le> length rest" by (rule dquote_length)
        from True b a "2.prems" consider x where "x \<in> set (substitution_spans (fst (dquote rest)))" "ws \<in> set (shell_lex [] None x)"
          | "ws \<in> set (shell_lex words (add_text w (fst (dquote rest))) (snd (dquote rest)))" by auto
        then show ?thesis
        proof cases
          case 1
          then have "wsize ws \<le> length x + 1" using ih(3) [OF a b True 1] by simp
          then show ?thesis using substitution_shorter [OF 1(1)] q by simp
        next
          case 2
          then show ?thesis using ih(4) [OF a b True 2] q by simp
        qed
      next
        case c: False
        show ?thesis
        proof (cases "is_space r \<and> r \<noteq> 10")
          case True
          then have "wsize ws \<le> wsize (end_word words w) + length rest + 1" using ih(5) [OF a b c True] "2.prems" a b c by simp
          then show ?thesis using wsize_end_word [of words w] by simp
        next
          case d: False
          note eq = shell_lex.simps(2) [of words w r rest]
          show ?thesis
          proof (cases "r \<in> set (lit ''|;&()`'') \<or> r = 10")
            case True
            have "shell_lex words w (r # rest) = end_command words w @ shell_lex [] None rest"
              unfolding eq if_not_P [OF a] if_not_P [OF b] if_not_P [OF c] if_not_P [OF d] if_P [OF True] by (rule refl)
            with "2.prems" consider "ws \<in> set (end_command words w)" | "ws \<in> set (shell_lex [] None rest)" by auto
            then show ?thesis
            proof cases
              case 1
              then show ?thesis using wsize_end_command [of ws words w] by simp
            next
              case 2
              then show ?thesis using ih(6) [OF a b c d True] by simp
            qed
          next
            case e: False
            show ?thesis
            proof (cases "r = 36 \<and> rest \<noteq> [] \<and> hd rest = 40")
              case True
              have "shell_lex words w (r # rest) = end_command words w @ shell_lex [] None rest"
                unfolding eq if_not_P [OF a] if_not_P [OF b] if_not_P [OF c] if_not_P [OF d] if_not_P [OF e] if_P [OF True]
                by (rule refl)
              with "2.prems" consider "ws \<in> set (end_command words w)" | "ws \<in> set (shell_lex [] None rest)" by auto
              then show ?thesis
              proof cases
                case 1
                then show ?thesis using wsize_end_command [of ws words w] by simp
              next
                case 2
                then show ?thesis using ih(7) [OF a b c d e True] by simp
              qed
            next
              case f: False
              have "shell_lex words w (r # rest) = shell_lex words (add_text w [r]) rest"
                unfolding eq if_not_P [OF a] if_not_P [OF b] if_not_P [OF c] if_not_P [OF d] if_not_P [OF e] if_not_P [OF f]
                by (rule refl)
              then show ?thesis using ih(8) [OF a b c d e f] "2.prems" by simp
            qed
          qed
        qed
      qed
    qed
  qed
qed

lemma shellCommands_size: "ws \<in> set (shellCommands command) \<Longrightarrow> wsize ws \<le> length command + 1"
  using shell_lex_size [of ws "[]" None command] by (simp add: shellCommands_def)

section \<open>One simple command\<close>

definition lits :: "string list \<Rightarrow> runes list" where
  "lits xs = map lit xs"

definition gitWrappers :: "runes list" where
  "gitWrappers = lits [''command'', ''env'', ''exec'', ''sudo'', ''doas'', ''nohup'', ''time'', ''nice'', ''timeout'',
     ''stdbuf'', ''xargs'', ''builtin'']"

definition gitWrapperValueFlags :: "(runes \<times> runes list) list" where
  "gitWrapperValueFlags =
    [(lit ''env'', lits [''-u'', ''-C'', ''--unset'', ''--chdir'']),
     (lit ''sudo'', lits [''-u'', ''-g'', ''-C'', ''-D'', ''-h'', ''-p'', ''-r'', ''-t'', ''-U'', ''--user'', ''--group'',
        ''--chdir'', ''--host'', ''--prompt'', ''--role'', ''--type'', ''--other-user'']),
     (lit ''doas'', lits [''-u'', ''-C'']),
     (lit ''timeout'', lits [''-s'', ''-k'', ''--signal'', ''--kill-after'']),
     (lit ''nice'', lits [''-n'', ''--adjustment'']),
     (lit ''stdbuf'', lits [''-i'', ''-o'', ''-e'', ''--input'', ''--output'', ''--error'']),
     (lit ''xargs'', lits [''-I'', ''-n'', ''-L'', ''-P'', ''-d'', ''-E'', ''-s'', ''-a'', ''--max-args'', ''--max-lines'',
        ''--max-procs'', ''--delimiter'', ''--eof'', ''--max-chars'', ''--arg-file''])]"

definition value_flags :: "runes \<Rightarrow> runes list" where
  "value_flags wrapper = (case map_of gitWrapperValueFlags wrapper of None \<Rightarrow> [] | Some flags \<Rightarrow> flags)"

definition shellReservedWords :: "runes list" where
  "shellReservedWords = lits [''{'', ''!'', ''if'', ''then'', ''else'', ''elif'', ''do'', ''while'', ''until'']"

definition gitShells :: "runes list" where
  "gitShells = lits [''sh'', ''bash'', ''zsh'', ''dash'', ''ksh'']"

text \<open>The first byte decides, so only an ASCII digit counts.\<close>

definition startsWithDigit :: "runes \<Rightarrow> bool" where
  "startsWithDigit w \<longleftrightarrow> w \<noteq> [] \<and> 48 \<le> hd w \<and> hd w \<le> 57"

definition shellAssignment :: "unicode \<Rightarrow> runes \<Rightarrow> bool" where
  "shellAssignment U w \<longleftrightarrow>
    (let name = takeWhile (\<lambda>r. r \<noteq> 61) w
     in name \<noteq> w \<and> name \<noteq> [] \<and> list_all (\<lambda>r. r = 95 \<or> is_letter U r \<or> is_digit U r) name)"

text \<open>The words before the command: \<open>wrapper\<close> is the last wrapper seen.\<close>

function strip_prefix :: "unicode \<Rightarrow> runes \<Rightarrow> runes list \<Rightarrow> runes list" where
  "strip_prefix U wrapper [] = []"
| "strip_prefix U wrapper (w # ws) =
    (if w \<in> set gitWrappers then strip_prefix U w ws
     else if w \<in> set (value_flags wrapper) \<and> ws \<noteq> [] then strip_prefix U wrapper (tl ws)
     else if shellAssignment U w \<or> w \<in> set shellReservedWords \<or> starts w (lit ''-'') \<or> startsWithDigit w
       then strip_prefix U wrapper ws
     else w # ws)"
  by pat_completeness auto
termination by (relation "measure (\<lambda>(U, p, ws). length ws)") (auto simp: neq_Nil_conv)

text \<open>\<open>shellScript\<close>: \<open>inline\<close> is whether \<open>-c\<close> was seen.\<close>

function shell_script_loop :: "bool \<Rightarrow> runes list \<Rightarrow> runes" where
  "shell_script_loop inline [] = []"
| "shell_script_loop inline (arg # args) =
    (if arg = lit ''--'' then (if inline \<and> args \<noteq> [] then hd args else [])
     else if arg = lit ''--rcfile'' \<or> arg = lit ''--init-file'' then shell_script_loop inline (drop 1 args)
     else if starts arg (lit ''--'') then shell_script_loop inline args
     else if 1 < length arg \<and> (hd arg = 45 \<or> hd arg = 43) then
       shell_script_loop (inline \<or> (hd arg = 45 \<and> 99 \<in> set (tl arg)))
         (if last arg = 111 \<or> last arg = 79 then drop 1 args else args)
     else if inline then arg else [])"
  by pat_completeness auto
termination by (relation "measure (\<lambda>(inline, args). length args)") auto

definition shellScript :: "runes list \<Rightarrow> runes" where
  "shellScript args = shell_script_loop False args"

section \<open>Git's arguments\<close>

definition gitValueOptions :: "runes list" where
  "gitValueOptions = lits [''-C'', ''--git-dir'', ''--work-tree'', ''--namespace'', ''--super-prefix'', ''--attr-source'']"

definition readOnlyGitSubcommands :: "string list" where
  "readOnlyGitSubcommands = [''diff'', ''log'', ''show'', ''blame'', ''status'', ''ls-tree'', ''ls-files'', ''rev-parse'',
     ''cat-file'', ''grep'', ''shortlog'', ''describe'', ''merge-base'', ''rev-list'', ''for-each-ref'', ''check-ignore'',
     ''name-rev'']"

definition gitWritingOptions :: "(string \<times> string list) list" where
  "gitWritingOptions = [(''diff'', [''--output'']), (''log'', [''--output'']), (''show'', [''--output'']),
     (''grep'', [''-O'', ''--open-files-in-pager''])]"

definition read_only :: "runes \<Rightarrow> bool" where
  "read_only sub \<longleftrightarrow> sub \<in> set (lits readOnlyGitSubcommands)"

definition writing_options :: "runes \<Rightarrow> runes list" where
  "writing_options sub = (case map_of (map (\<lambda>(name, options). (lit name, lits options)) gitWritingOptions) sub of
     None \<Rightarrow> [] | Some options \<Rightarrow> options)"

text \<open>The subcommand and its arguments, or the override that may run any program.\<close>

function skipGitGlobalOptions :: "runes list \<Rightarrow> runes list \<times> runes" where
  "skipGitGlobalOptions [] = ([], [])"
| "skipGitGlobalOptions (arg # args) =
    (if arg = lit ''-c'' \<or> arg = lit ''--config-env'' \<or> starts arg (lit ''--config-env='') then
       ([], lit ''git '' @ takeWhile (\<lambda>r. r \<noteq> 61) arg)
     else if starts arg (lit ''-c'') then ([], lit ''git -c'')
     else if starts arg (lit ''--exec-path='') then ([], lit ''git --exec-path'')
     else if arg \<in> set gitValueOptions then skipGitGlobalOptions (drop 1 args)
     else if starts arg (lit ''-'') then skipGitGlobalOptions args
     else (arg # args, []))"
  by pat_completeness auto
termination by (relation "measure length") auto

definition minGitLongOptionPrefix :: nat where "minGitLongOptionPrefix = 3"

definition gitOptionMatches :: "runes \<Rightarrow> runes \<Rightarrow> bool" where
  "gitOptionMatches option arg =
    (if length option = 2 then starts arg (lit ''-'') \<and> \<not> starts arg (lit ''--'') \<and> option ! 1 \<in> set (tl arg)
     else let name = takeWhile (\<lambda>r. r \<noteq> 61) arg
       in starts name (lit ''--'') \<and> minGitLongOptionPrefix \<le> length name \<and> starts option name)"

fun gitWritingOption :: "runes \<Rightarrow> runes list \<Rightarrow> runes" where
  "gitWritingOption sub [] = []"
| "gitWritingOption sub (arg # args) =
    (if arg = lit ''--'' then []
     else case find (\<lambda>option. gitOptionMatches option arg) (writing_options sub) of
       Some option \<Rightarrow> lit ''git '' @ sub @ lit '' '' @ option
     | None \<Rightarrow> gitWritingOption sub args)"

definition gitArgsMutation :: "runes list \<Rightarrow> runes" where
  "gitArgsMutation args =
    (case skipGitGlobalOptions args of (rest, override) \<Rightarrow>
       if override \<noteq> [] then override
       else case rest of [] \<Rightarrow> []
         | sub # tail \<Rightarrow> if \<not> read_only sub then lit ''git '' @ sub else gitWritingOption sub tail)"

section \<open>The Git a line executes\<close>

fun first_found :: "runes list \<Rightarrow> runes" where
  "first_found [] = []"
| "first_found (x # xs) = (if x \<noteq> [] then x else first_found xs)"

fun join_space :: "runes list \<Rightarrow> runes" where
  "join_space [] = []"
| "join_space [w] = w"
| "join_space (w # ws) = w @ 32 # join_space ws"

fun exec_tails :: "runes list \<Rightarrow> runes list list" where
  "exec_tails [] = []"
| "exec_tails (w # ws) = (if w \<in> set (lits [''-exec'', ''-execdir'', ''-ok'']) then ws # exec_tails ws else exec_tails ws)"

definition runs_git :: "runes \<Rightarrow> bool" where
  "runs_git name \<longleftrightarrow> name = lit ''git'' \<or> ends name (lit ''/git'')"

definition runs_shell :: "runes \<Rightarrow> bool" where
  "runs_shell name \<longleftrightarrow> name \<in> set gitShells \<or> list_ex (\<lambda>sh. ends name (47 # sh)) gitShells"

lemma strip_prefix_size: "wsize (strip_prefix U wrapper words) \<le> wsize words"
proof (induction U wrapper words rule: strip_prefix.induct)
  case (2 U wrapper w ws)
  consider "w \<in> set gitWrappers"
    | "w \<notin> set gitWrappers" "w \<in> set (value_flags wrapper) \<and> ws \<noteq> []"
    | "w \<notin> set gitWrappers" "\<not> (w \<in> set (value_flags wrapper) \<and> ws \<noteq> [])"
      "shellAssignment U w \<or> w \<in> set shellReservedWords \<or> starts w (lit ''-'') \<or> startsWithDigit w"
    | "w \<notin> set gitWrappers" "\<not> (w \<in> set (value_flags wrapper) \<and> ws \<noteq> [])"
      "\<not> (shellAssignment U w \<or> w \<in> set shellReservedWords \<or> starts w (lit ''-'') \<or> startsWithDigit w)"
    by blast
  then show ?case
  proof cases
    case 1
    then show ?thesis using "2.IH"(1) [OF 1] by simp
  next
    case 2
    moreover have "wsize (tl ws) \<le> wsize ws" by (cases ws) simp_all
    ultimately show ?thesis using "2.IH"(2) [OF 2] by simp
  next
    case 3
    have "strip_prefix U wrapper (w # ws) = strip_prefix U wrapper ws"
      unfolding strip_prefix.simps(2) [of U wrapper w ws] if_not_P [OF 3(1)] if_not_P [OF 3(2)] if_P [OF 3(3)] by (rule refl)
    then show ?thesis using "2.IH"(3) [OF 3] by simp
  next
    case 4
    then have "strip_prefix U wrapper (w # ws) = w # ws" by simp
    then show ?thesis by (simp only: order_refl)
  qed
qed simp

lemma join_space_size: "length (join_space ws) \<le> wsize ws"
  by (induction ws rule: join_space.induct) simp_all

lemma wsize_mem: "w \<in> set ws \<Longrightarrow> length w < wsize ws"
  by (induction ws) auto

lemma wsize_drop: "wsize (drop n ws) \<le> wsize ws"
  by (metis add.commute append_take_drop_id le_add1 wsize_simps(3))

lemma shell_script_size: "length (shell_script_loop inline args) \<le> wsize args"
proof (induction inline args rule: shell_script_loop.induct)
  case (2 inline arg args)
  have short: "wsize (drop 1 args) \<le> wsize args" by (rule wsize_drop)
  have first: "args \<noteq> [] \<Longrightarrow> length (hd args) \<le> wsize args" by (cases args) simp_all
  consider "arg = lit ''--''"
    | "arg \<noteq> lit ''--''" "arg = lit ''--rcfile'' \<or> arg = lit ''--init-file''"
    | "arg \<noteq> lit ''--''" "\<not> (arg = lit ''--rcfile'' \<or> arg = lit ''--init-file'')" "starts arg (lit ''--'')"
    | "arg \<noteq> lit ''--''" "\<not> (arg = lit ''--rcfile'' \<or> arg = lit ''--init-file'')" "\<not> starts arg (lit ''--'')"
      "1 < length arg \<and> (hd arg = 45 \<or> hd arg = 43)"
    | "arg \<noteq> lit ''--''" "\<not> (arg = lit ''--rcfile'' \<or> arg = lit ''--init-file'')" "\<not> starts arg (lit ''--'')"
      "\<not> (1 < length arg \<and> (hd arg = 45 \<or> hd arg = 43))"
    by blast
  note c = this and eq = shell_script_loop.simps(2) [of inline arg args]
  from c show ?case
  proof cases
    case 1
    show ?thesis unfolding eq if_P [OF 1] using first by auto
  next
    case 2
    show ?thesis unfolding eq if_not_P [OF 2(1)] if_P [OF 2(2)] using "2.IH"(1) [OF 2] short by simp
  next
    case 3
    show ?thesis unfolding eq if_not_P [OF 3(1)] if_not_P [OF 3(2)] if_P [OF 3(3)] using "2.IH"(2) [OF 3] by simp
  next
    case 4
    have "wsize (if last arg = 111 \<or> last arg = 79 then drop 1 args else args) \<le> wsize args" using short by simp
    then show ?thesis
      unfolding eq if_not_P [OF 4(1)] if_not_P [OF 4(2)] if_not_P [OF 4(3)] if_P [OF 4(4)] using "2.IH"(3) [OF 4] by simp
  next
    case 5
    show ?thesis unfolding eq if_not_P [OF 5(1)] if_not_P [OF 5(2)] if_not_P [OF 5(3)] if_not_P [OF 5(4)] by simp
  qed
qed simp

lemma exec_tails_size: "t \<in> set (exec_tails ws) \<Longrightarrow> wsize t < wsize ws"
  by (induction ws) (auto split: if_splits)

text \<open>
  \<open>executedGitMutation\<close> with \<open>gitMutation\<close> unfolded in it, so that one function recurs: every script it
  enters is shorter than the command that runs it.
\<close>

function executedGitMutation :: "unicode \<Rightarrow> runes list \<Rightarrow> runes" where
  "executedGitMutation U words =
    (let ws = strip_prefix U [] words
     in if ws = [] then []
        else if runs_git (hd ws) then gitArgsMutation (tl ws)
        else if hd ws = lit ''eval'' then first_found (map (executedGitMutation U) (shellCommands (join_space (tl ws))))
        else if runs_shell (hd ws) then first_found (map (executedGitMutation U) (shellCommands (shellScript (tl ws))))
        else first_found (map (executedGitMutation U) (exec_tails ws)))"
  by pat_completeness auto
termination
proof (relation "measure (\<lambda>(U, ws). wsize ws)")
  fix U words ws c
  assume ws: "ws = strip_prefix U [] words" and ne: "ws \<noteq> []"
  have le: "wsize ws \<le> wsize words" unfolding ws by (rule strip_prefix_size)
  have tl: "wsize ws = length (hd ws) + 1 + wsize (tl ws)" using ne by (cases ws) simp_all
  {
    assume "hd ws = lit ''eval''" and "c \<in> set (shellCommands (join_space (tl ws)))"
    then show "((U, c), U, words) \<in> measure (\<lambda>(U, ws). wsize ws)"
      using shellCommands_size [of c "join_space (tl ws)"] join_space_size [of "tl ws"] tl le by (simp add: lit_def)
  next
    assume "runs_shell (hd ws)" and c: "c \<in> set (shellCommands (shellScript (tl ws)))"
    then have "hd ws \<noteq> []" by (cases "hd ws") (auto simp: runs_shell_def gitShells_def lits_def lit_def ends_def starts_def)
    then show "((U, c), U, words) \<in> measure (\<lambda>(U, ws). wsize ws)"
      using shellCommands_size [OF c] shell_script_size [of False "tl ws"] tl le by (cases "hd ws") (simp_all add: shellScript_def)
  next
    assume "c \<in> set (exec_tails ws)"
    then show "((U, c), U, words) \<in> measure (\<lambda>(U, ws). wsize ws)" using exec_tails_size [of c ws] le by simp
  }
qed simp

declare executedGitMutation.simps [simp del]

definition gitMutation :: "unicode \<Rightarrow> runes \<Rightarrow> runes" where
  "gitMutation U command = first_found (map (executedGitMutation U) (shellCommands command))"

section \<open>The guards\<close>

text \<open>What a denial names: the role it is denied to, and the Git found in the line.\<close>

datatype git_denial = GitMutationDenied string

definition GuardGitMutation :: "string \<Rightarrow> git_denial option" where
  "GuardGitMutation role = (if role \<noteq> RoleOrchestrator then Some (GitMutationDenied role) else None)"

datatype shell_decision = ShellAllow | ShellAsk | ShellDeny

datatype git_reason = NoGit | DeniedGit runes runes git_denial | AskedGit runes

definition GitShellDecision :: "unicode \<Rightarrow> string \<Rightarrow> runes \<Rightarrow> shell_decision \<times> git_reason" where
  "GitShellDecision U role command =
    (let git = gitMutation U command
     in if git = [] then (ShellAllow, NoGit)
        else case GuardGitMutation role of
          Some e \<Rightarrow> (ShellDeny, DeniedGit git command e)
        | None \<Rightarrow> (ShellAsk, AskedGit command))"

text \<open>The Git found in a line that a caller's native shell may not run.\<close>

definition GuardShellGit :: "unicode \<Rightarrow> runes \<Rightarrow> runes option" where
  "GuardShellGit U command =
    (let git = gitMutation U command in if git \<noteq> [] then Some git else None)"

definition orchestratorGatedGit :: "string list" where
  "orchestratorGatedGit = [''commit'', ''push'', ''rebase'', ''clean'', ''restore'']"

definition GitPermissionRules :: "string \<Rightarrow> (string \<times> shell_decision) list" where
  "GitPermissionRules role =
    (if GuardGitMutation role = None then
       (''git *'', ShellAllow) #
       concat (map (\<lambda>sub. [(''git '' @ sub, ShellAsk), (''git '' @ sub @ '' *'', ShellAsk),
          (''git * '' @ sub, ShellAsk), (''git * '' @ sub @ '' *'', ShellAsk)]) orchestratorGatedGit) @
       [(''git reset *--hard*'', ShellAsk), (''git *reset *--hard*'', ShellAsk)]
     else
       (''git *'', ShellDeny) #
       concat (map (\<lambda>sub. [(''git '' @ sub, ShellAllow), (''git '' @ sub @ '' *'', ShellAllow)]) readOnlyGitSubcommands) @
       concat (map (\<lambda>sub. map (\<lambda>option. (''git '' @ sub @ '' *'' @ option @ ''*'', ShellDeny))
          (mget [] gitWritingOptions sub)) readOnlyGitSubcommands))"

definition ReadOnlyGitSubcommands :: "string list" where
  "ReadOnlyGitSubcommands = readOnlyGitSubcommands"

section \<open>Classification of a line\<close>

definition mutatingWords :: "runes list" where
  "mutatingWords = lits [''tee'', ''cp'', ''mv'', ''rm'', ''rmdir'', ''mkdir'', ''touch'', ''truncate'', ''dd'', ''ln'',
     ''install'', ''chmod'', ''chown'', ''patch'', ''sponge'']"

definition inPlaceWords :: "runes list" where
  "inPlaceWords = lits [''sed'', ''perl'', ''gofmt'', ''goimports'']"

definition inPlaceFlags :: "runes list" where
  "inPlaceFlags = lits [''-i'', ''-w'', ''--write'', ''--fix'', ''--in-place'']"

definition privilegeWords :: "runes list" where
  "privilegeWords = lits [''sudo'', ''doas'', ''su'']"

definition hostWideWords :: "runes list" where
  "hostWideWords = lits [''systemctl'', ''launchctl'', ''crontab'', ''brew'', ''apt'', ''apt-get'', ''dnf'', ''yum'',
     ''pacman'', ''mkfs'', ''shutdown'', ''reboot'']"

definition toolchainWords :: "runes list" where
  "toolchainWords = lits [''npm'', ''pnpm'', ''yarn'', ''bun'', ''pip'', ''pip3'', ''gem'', ''cargo'', ''go'', ''docker'',
     ''kubectl'', ''helm'', ''git'', ''gh'']"

definition globalWords :: "runes list" where
  "globalWords = lits [''install'', ''uninstall'', ''publish'', ''push'', ''apply'', ''login'', ''config'']"

definition discardedWrites :: "runes list" where
  "discardedWrites = lits [''2>&1'', ''1>&2'', ''2>/dev/null'', ''2> /dev/null'', ''>/dev/null'', ''> /dev/null'',
     ''>>/dev/null'', ''>> /dev/null'']"

text \<open>\<open>shellWords\<close>: the maximal runs of runes that separate nothing.\<close>

definition separates :: "nat \<Rightarrow> bool" where
  "separates r \<longleftrightarrow> is_space r \<or> r \<in> set (lit ''|;&()`'') \<or> r = 39 \<or> r = 34"

function shellWords :: "runes \<Rightarrow> runes list" where
  "shellWords [] = []"
| "shellWords (r # rs) =
    (if separates r then shellWords rs
     else takeWhile (\<lambda>x. \<not> separates x) (r # rs) # shellWords (dropWhile (\<lambda>x. \<not> separates x) rs))"
  by pat_completeness auto
termination by (relation "measure length") (auto simp: less_Suc_eq_le length_dropWhile_le)

definition containsAny :: "runes list \<Rightarrow> runes list \<Rightarrow> bool" where
  "containsAny words wanted = list_ex (\<lambda>w. w \<in> set wanted) words"

text \<open>\<open>strings.ReplaceAll(s, old, "")\<close> for a nonempty \<open>old\<close>.\<close>

function remove_all :: "runes \<Rightarrow> runes \<Rightarrow> runes" where
  "remove_all old [] = []"
| "remove_all old (r # rs) =
    (if old \<noteq> [] \<and> starts (r # rs) old then remove_all old (drop (length old) (r # rs)) else r # remove_all old rs)"
  by pat_completeness auto
termination by (relation "measure (\<lambda>(old, s). length s)") auto

definition capturableRedirect :: "runes \<Rightarrow> bool" where
  "capturableRedirect command = (62 \<in> set (fold remove_all discardedWrites command))"

definition mutatesWorkspace :: "runes \<Rightarrow> bool" where
  "mutatesWorkspace command =
    (let words = shellWords command
     in capturableRedirect command \<or> containsAny words mutatingWords \<or>
        (containsAny words inPlaceWords \<and> containsAny words inPlaceFlags))"

text \<open>\<open>unquoted\<close>: \<open>quote\<close> is the quote that is open, if one is.\<close>

fun unquoted_loop :: "nat option \<Rightarrow> bool \<Rightarrow> runes \<Rightarrow> runes" where
  "unquoted_loop quote escaped [] = []"
| "unquoted_loop quote escaped (r # rs) =
    (if escaped then (if quote = None then [r] else []) @ unquoted_loop quote False rs
     else if r = 92 \<and> quote \<noteq> Some 39 then unquoted_loop quote True rs
     else case quote of
       Some q \<Rightarrow> unquoted_loop (if r = q then None else quote) False rs
     | None \<Rightarrow> if r = 39 \<or> r = 34 then unquoted_loop (Some r) False rs else r # unquoted_loop None False rs)"

definition unquoted :: "runes \<Rightarrow> runes" where
  "unquoted command = unquoted_loop None False command"

text \<open>The bytes of a text, as the paths of the virtual file system are.\<close>

definition utf8_rune :: "nat \<Rightarrow> nat list" where
  "utf8_rune r =
    (if r < 128 then [r]
     else if r < 2048 then [192 + r div 64, 128 + r mod 64]
     else if r < 65536 then [224 + r div 4096, 128 + r div 64 mod 64, 128 + r mod 64]
     else [240 + r div 262144, 128 + r div 4096 mod 64, 128 + r div 64 mod 64, 128 + r mod 64])"

definition utf8 :: "runes \<Rightarrow> string" where
  "utf8 rs = map char_of (concat (map utf8_rune rs))"

definition writesOutside :: "runes list \<Rightarrow> string \<Rightarrow> bool" where
  "writesOutside words rootDir = list_ex (\<lambda>word.
     let w = dropWhile (\<lambda>r. r \<in> {60, 62, 38}) word
     in starts w (lit ''~'') \<or>
        (starts w (lit ''/'') \<and> \<not> has_prefix (path_clean (utf8 w)) (rootDir @ ''/''))) words"

datatype outside_reason = PrivilegeEscalation | HostWide | OutsideToolchain | AbsolutePath

definition outsideWorkspace :: "runes list \<Rightarrow> bool \<Rightarrow> string \<Rightarrow> outside_reason option" where
  "outsideWorkspace words mutates rootDir =
    (if containsAny words privilegeWords then Some PrivilegeEscalation
     else if containsAny words hostWideWords then Some HostWide
     else if containsAny words toolchainWords \<and> containsAny words globalWords then Some OutsideToolchain
     else if mutates \<and> writesOutside words rootDir then Some AbsolutePath
     else None)"

datatype shell_reason = GitReason git_reason | OutsideReason outside_reason | ShellUncapturable | Captured | Inspection

definition classify_shell :: "unicode \<Rightarrow> string \<Rightarrow> fs \<Rightarrow> agent_id \<Rightarrow> runes \<Rightarrow> bool \<Rightarrow> bool \<Rightarrow> shell_decision \<times> shell_reason" where
  "classify_shell U rootDir s key command mutates scoped =
    (case GitShellDecision U (id_Role (binding_of (s_bindings s) key)) command of (decision, why) \<Rightarrow>
       if decision \<noteq> ShellAllow then (decision, GitReason why)
       else case outsideWorkspace (shellWords command) mutates rootDir of
         Some out \<Rightarrow> (ShellAsk, OutsideReason out)
       | None \<Rightarrow>
           if mutates \<and> \<not> scoped then (ShellDeny, ShellUncapturable)
           else if mutates then (ShellAllow, Captured)
           else (ShellAllow, Inspection))"

end
