(* ===== verification/Vfs_Git_Props.thy ===== *)
theory Vfs_Git_Props
  imports Vfs_Git
begin

text \<open>
  What the Git boundary promises: a line splits into the commands it spells, and a Git that writes is
  found wherever in the line it runs.
\<close>

declare shell_lex.simps(2) [simp del] strip_prefix.simps(2) [simp del]

section \<open>Spelled lines\<close>

text \<open>
  What a double-quoted text is made of: plain text, a substitution in either form with the line it runs, and an
  escaped rune. A dollar sign of plain text is followed by another rune than an opening parenthesis.
\<close>

datatype part = Plain runes | Dollar runes | Tick runes | Slash nat

fun dollars_ok :: "runes \<Rightarrow> bool" where
  "dollars_ok [] = True"
| "dollars_ok (c # cs) = ((c = 36 \<longrightarrow> cs \<noteq> [] \<and> hd cs \<noteq> 40) \<and> dollars_ok cs)"

fun part_text :: "part \<Rightarrow> runes" where
  "part_text (Plain t) = t"
| "part_text (Dollar l) = 36 # 40 # l @ [41]"
| "part_text (Tick l) = 96 # l @ [96]"
| "part_text (Slash r) = [92, r]"

definition unmarked :: "runes \<Rightarrow> bool" where
  "unmarked t \<longleftrightarrow> {34, 92, 96} \<inter> set t = {}"

fun part_ok :: "part \<Rightarrow> bool" where
  "part_ok (Plain t) = (unmarked t \<and> dollars_ok t)"
| "part_ok (Dollar l) = (unmarked l \<and> 41 \<notin> set l)"
| "part_ok (Tick l) = (unmarked l \<and> dollars_ok l)"
| "part_ok (Slash r) = (r \<noteq> 36 \<and> r \<noteq> 96)"

text \<open>
  A word is a sequence of pieces: bare, between single quotes, between double quotes, or one escaped rune. The
  lines a word runs are those its double quotes substitute, the dollar forms first.
\<close>

datatype piece = Bare runes | Single runes | Double "part list" | Escaped nat

definition bare_rune :: "nat \<Rightarrow> bool" where
  "bare_rune r \<longleftrightarrow> \<not> is_space r \<and> r \<notin> {92, 39, 34} \<and> r \<notin> set (lit ''|;&()`'')"

fun piece_ok :: "piece \<Rightarrow> bool" where
  "piece_ok (Bare t) = (list_all bare_rune t \<and> dollars_ok t \<and> t \<noteq> [])"
| "piece_ok (Single t) = (39 \<notin> set t)"
| "piece_ok (Double ps) = list_all part_ok ps"
| "piece_ok (Escaped r) = True"

fun spell_piece :: "piece \<Rightarrow> runes" where
  "spell_piece (Bare t) = t"
| "spell_piece (Single t) = 39 # t @ [39]"
| "spell_piece (Double ps) = 34 # concat (map part_text ps) @ [34]"
| "spell_piece (Escaped r) = [92, r]"

fun piece_text :: "piece \<Rightarrow> runes" where
  "piece_text (Bare t) = t"
| "piece_text (Single t) = t"
| "piece_text (Double ps) = concat (map part_text ps)"
| "piece_text (Escaped r) = [r]"

definition dollar_lines :: "part list \<Rightarrow> runes list" where
  "dollar_lines ps = concat (map (\<lambda>p. case p of Dollar l \<Rightarrow> [l] | _ \<Rightarrow> []) ps)"

definition tick_lines :: "part list \<Rightarrow> runes list" where
  "tick_lines ps = concat (map (\<lambda>p. case p of Tick l \<Rightarrow> [l] | _ \<Rightarrow> []) ps)"

fun piece_lines :: "piece \<Rightarrow> runes list" where
  "piece_lines (Double ps) = dollar_lines ps @ tick_lines ps"
| "piece_lines _ = []"

type_synonym word_spelling = "piece list"

definition word_text :: "word_spelling \<Rightarrow> runes" where
  "word_text w = concat (map piece_text w)"

definition word_lines :: "word_spelling \<Rightarrow> runes list" where
  "word_lines w = concat (map piece_lines w)"

definition spell_word :: "word_spelling \<Rightarrow> runes" where
  "spell_word w = concat (map spell_piece w)"

text \<open>A command is its words, each with the blanks behind it; only the last may have none.\<close>

definition blank_rune :: "nat \<Rightarrow> bool" where
  "blank_rune r \<longleftrightarrow> is_space r \<and> r \<noteq> 10"

type_synonym command_spelling = "(word_spelling \<times> runes) list"

fun words_ok :: "command_spelling \<Rightarrow> bool" where
  "words_ok [] = True"
| "words_ok ((w, b) # c) = (w \<noteq> [] \<and> list_all piece_ok w \<and> list_all blank_rune b \<and> (c \<noteq> [] \<longrightarrow> b \<noteq> []) \<and> words_ok c)"

definition spell_command :: "command_spelling \<Rightarrow> runes" where
  "spell_command c = concat (map (\<lambda>(w, b). spell_word w @ b) c)"

text \<open>
  Between commands stand operators and blanks: a pipe, a semicolon, an ampersand, a parenthesis, a backquote, a
  newline, the opening of a substitution. The last command may be followed by nothing.
\<close>

definition operator_unit :: "runes \<Rightarrow> bool" where
  "operator_unit u \<longleftrightarrow> u = [36, 40] \<or> (\<exists>r \<in> set (lit ''|;&()`'') \<union> {10}. u = [r])"

definition unit_ok :: "runes \<Rightarrow> bool" where
  "unit_ok u \<longleftrightarrow> operator_unit u \<or> (length u = 1 \<and> blank_rune (hd u))"

type_synonym line_spelling = "runes list \<times> (command_spelling \<times> runes list) list"

fun commands_ok :: "(command_spelling \<times> runes list) list \<Rightarrow> bool" where
  "commands_ok [] = True"
| "commands_ok ((c, s) # cs) = (c \<noteq> [] \<and> words_ok c \<and> list_all unit_ok s \<and> (s \<noteq> [] \<longrightarrow> operator_unit (hd s)) \<and>
     (cs \<noteq> [] \<longrightarrow> s \<noteq> []) \<and> commands_ok cs)"

definition line_ok :: "line_spelling \<Rightarrow> bool" where
  "line_ok line \<longleftrightarrow> list_all unit_ok (fst line) \<and> commands_ok (snd line)"

definition spell_line :: "line_spelling \<Rightarrow> runes" where
  "spell_line line = concat (fst line) @ concat (map (\<lambda>(c, s). spell_command c @ concat s) (snd line))"

text \<open>The commands a line runs: before each command those its double-quoted words substitute.\<close>

definition command_runs :: "command_spelling \<Rightarrow> runes list list" where
  "command_runs c = concat (map (\<lambda>(w, b). concat (map shellCommands (word_lines w))) c) @ [map (\<lambda>(w, b). word_text w) c]"

definition line_runs :: "line_spelling \<Rightarrow> runes list list" where
  "line_runs line = concat (map (\<lambda>(c, s). command_runs c) (snd line))"

section \<open>Reading a spelled line\<close>

lemma add_text_simps [simp]: "add_text None t = Some t" "add_text (Some x) t = Some (x @ t)"
  by (simp_all add: add_text_def)

lemma add_text_add_text [simp]: "add_text (add_text w s) t = add_text w (s @ t)"
  by (simp add: add_text_def)

lemma end_word_simps [simp]: "end_word ws None = ws" "end_word ws (Some x) = ws @ [x]"
  by (simp_all add: end_word_def)

text \<open>Double quotes.\<close>

lemma dquote_plain: "34 \<notin> set t \<Longrightarrow> 92 \<notin> set t \<Longrightarrow> dquote (t @ s) = (t @ fst (dquote s), snd (dquote s))"
  by (induction t) (auto simp: split_beta)

lemma dquote_part: "part_ok p \<Longrightarrow> dquote (part_text p @ s) = (part_text p @ fst (dquote s), snd (dquote s))"
proof -
  assume ok: "part_ok p"
  show ?thesis
  proof (cases "\<exists>r. p = Slash r")
    case True
    then show ?thesis by (auto simp: split_beta)
  next
    case False
    then have "34 \<notin> set (part_text p)" "92 \<notin> set (part_text p)" using ok by (cases p; auto simp: unmarked_def)+
    then show ?thesis by (rule dquote_plain)
  qed
qed

lemma dquote_parts: "list_all part_ok ps \<Longrightarrow>
    dquote (concat (map part_text ps) @ 34 # rest) = (concat (map part_text ps), rest)"
  by (induction ps) (simp_all add: dquote_part)

lemma starts_two: "starts s [a, b] \<longleftrightarrow> (\<exists>t. s = a # b # t)"
  by (cases s; cases "tl s") (auto simp: starts_def)

lemma starts_one: "starts s [a] \<longleftrightarrow> (\<exists>t. s = a # t)"
  by (cases s) (auto simp: starts_def)

lemma dollars_append: "dollars_ok a \<Longrightarrow> dollars_ok b \<Longrightarrow> dollars_ok (a @ b)"
  by (induction a) (auto simp: hd_append)

lemma dollars_plain: "36 \<notin> set a \<Longrightarrow> dollars_ok a"
  by (induction a) auto

lemma skip_dollars: "dollars_ok t \<Longrightarrow> after_first [36, 40] (t @ s) = after_first [36, 40] s"
proof (induction t)
  case (Cons c t)
  have "\<not> starts (c # t @ s) [36, 40]" using Cons.prems by (cases t) (auto simp: starts_two)
  then show ?case using Cons by simp
qed simp

lemma skip_ticks: "96 \<notin> set t \<Longrightarrow> after_first [96] (t @ s) = after_first [96] s"
proof (induction t)
  case (Cons c t)
  have "\<not> starts (c # t @ s) [96]" using Cons.prems by (auto simp: starts_one)
  then show ?case using Cons by simp
qed simp

lemma spans_skip: "after_first p (t @ s) = after_first p s \<Longrightarrow> spans p c (t @ s) = spans p c s"
  unfolding spans.simps [of p c "t @ s"] spans.simps [of p c s] by simp

lemma spans_here: "p \<noteq> [] \<Longrightarrow> c \<notin> set l \<Longrightarrow> spans p c (p @ l @ c # s) = l # spans p c s"
proof -
  assume p: "p \<noteq> []" and c: "c \<notin> set l"
  have "starts (p @ l @ c # s) p" by (simp add: starts_def)
  then have "after_first p (p @ l @ c # s) = Some (l @ c # s)" using p by (cases p) simp_all
  moreover have all: "\<And>x. x \<in> set l \<Longrightarrow> x \<noteq> c" using c by auto
  then have "takeWhile (\<lambda>r. r \<noteq> c) (l @ c # s) = l" "dropWhile (\<lambda>r. r \<noteq> c) (l @ c # s) = c # s"
    by (simp_all add: takeWhile_append2 dropWhile_append2)
  ultimately show ?thesis unfolding spans.simps [of p c "p @ l @ c # s"] using p by simp
qed

lemma spans_none: "spans [36, 40] 41 [] = []" "spans [96] 96 [] = []"
  by (simp_all add: spans.simps)

lemma spans_dollars: "list_all part_ok ps \<Longrightarrow> spans [36, 40] 41 (concat (map part_text ps)) = dollar_lines ps"
proof (induction ps)
  case (Cons p ps)
  let ?s = "concat (map part_text ps)"
  have ok: "part_ok p" and IH: "spans [36, 40] 41 ?s = dollar_lines ps" using Cons by simp_all
  show ?case
  proof (cases p)
    case (Plain t)
    then show ?thesis using ok IH spans_skip [OF skip_dollars [of t ?s]] by (simp add: dollar_lines_def)
  next
    case (Dollar l)
    then show ?thesis using ok IH spans_here [of "[36, 40]" 41 l ?s] by (simp add: dollar_lines_def)
  next
    case (Tick l)
    then have "dollars_ok (96 # l @ [96])" using ok dollars_append [of l "[96]"] by simp
    then show ?thesis using Tick IH spans_skip [OF skip_dollars [of "96 # l @ [96]" ?s]] by (simp add: dollar_lines_def)
  next
    case (Slash r)
    then show ?thesis using ok IH spans_skip [OF skip_dollars [of "[92, r]" ?s]] by (simp add: dollar_lines_def)
  qed
qed (simp add: spans_none dollar_lines_def)

lemma spans_ticks: "list_all part_ok ps \<Longrightarrow> spans [96] 96 (concat (map part_text ps)) = tick_lines ps"
proof (induction ps)
  case (Cons p ps)
  let ?s = "concat (map part_text ps)"
  have ok: "part_ok p" and IH: "spans [96] 96 ?s = tick_lines ps" using Cons by simp_all
  show ?case
  proof (cases p)
    case (Tick l)
    then show ?thesis using ok IH spans_here [of "[96]" 96 l ?s] by (simp add: tick_lines_def unmarked_def)
  next
    case (Plain t)
    then show ?thesis using ok IH spans_skip [OF skip_ticks [of t ?s]] by (simp add: tick_lines_def unmarked_def)
  next
    case (Dollar l)
    then show ?thesis using ok IH spans_skip [OF skip_ticks [of "36 # 40 # l @ [41]" ?s]] by (simp add: tick_lines_def unmarked_def)
  next
    case (Slash r)
    then show ?thesis using ok IH spans_skip [OF skip_ticks [of "[92, r]" ?s]] by (simp add: tick_lines_def)
  qed
qed (simp add: spans_none tick_lines_def)

lemma lit_dollar: "lit ''$('' = [36, 40]"
  by (simp add: lit_def)

lemma lex_double:
  assumes "list_all part_ok ps"
  shows "shell_lex words cur (34 # concat (map part_text ps) @ 34 # rest) =
    concat (map shellCommands (dollar_lines ps @ tick_lines ps)) @ shell_lex words (add_text cur (concat (map part_text ps))) rest"
proof -
  have "substitution_spans (concat (map part_text ps)) = dollar_lines ps @ tick_lines ps"
    using assms by (simp add: substitution_spans_def lit_dollar spans_dollars spans_ticks)
  then show ?thesis
    unfolding shell_lex.simps(2) [of words cur 34]
    by (simp add: dquote_parts [OF assms] shellCommands_def del: map_append concat_append)
      (simp add: shellCommands_def [abs_def] comp_def)
qed

text \<open>Single quotes, escapes and bare runes.\<close>

lemma lex_single:
  assumes "39 \<notin> set w"
  shows "shell_lex words cur (39 # w @ 39 # rest) = shell_lex words (add_text cur w) rest"
proof -
  have all: "\<And>x. x \<in> set w \<Longrightarrow> x \<noteq> 39" using assms by auto
  have "takeWhile (\<lambda>x. x \<noteq> 39) (w @ 39 # rest) = w" "dropWhile (\<lambda>x. x \<noteq> 39) (w @ 39 # rest) = 39 # rest"
    by (simp_all add: takeWhile_append2 dropWhile_append2 all)
  then show ?thesis unfolding shell_lex.simps(2) [of words cur 39] by (simp del: dropWhile_append takeWhile_append)
qed

lemma lex_bare_rune: "bare_rune r \<Longrightarrow> r = 36 \<longrightarrow> rest = [] \<or> hd rest \<noteq> 40 \<Longrightarrow>
    shell_lex words cur (r # rest) = shell_lex words (add_text cur [r]) rest"
  unfolding shell_lex.simps(2) [of words cur r rest] by (auto simp: bare_rune_def is_space_def)

lemma lex_bare: "list_all bare_rune w \<Longrightarrow> dollars_ok w \<Longrightarrow> w \<noteq> [] \<Longrightarrow>
    shell_lex words cur (w @ rest) = shell_lex words (add_text cur w) rest"
proof (induction w arbitrary: cur)
  case (Cons r w)
  have "shell_lex words cur ((r # w) @ rest) = shell_lex words (add_text cur [r]) (w @ rest)"
    unfolding append_Cons using Cons.prems by (intro lex_bare_rune) auto
  then show ?case using Cons by (cases "w = []") simp_all
qed simp

lemma lex_piece: "piece_ok p \<Longrightarrow> shell_lex words cur (spell_piece p @ rest) =
    concat (map shellCommands (piece_lines p)) @ shell_lex words (add_text cur (piece_text p)) rest"
proof (cases p)
  case (Double ps)
  then show "piece_ok p \<Longrightarrow> ?thesis" using lex_double [of ps words cur rest] by simp
next
  case (Escaped r)
  then show ?thesis unfolding Escaped spell_piece.simps by (simp add: shell_lex.simps(2))
qed (simp_all add: lex_single lex_bare)

lemma lex_word: "list_all piece_ok w \<Longrightarrow> w \<noteq> [] \<Longrightarrow> shell_lex words cur (spell_word w @ rest) =
    concat (map shellCommands (word_lines w)) @ shell_lex words (add_text cur (word_text w)) rest"
proof (induction w arbitrary: cur)
  case (Cons p w)
  show ?case
  proof (cases "w = []")
    case True
    then show ?thesis using Cons.prems lex_piece [of p words cur rest] by (simp add: spell_word_def word_lines_def word_text_def)
  next
    case False
    then show ?thesis
      using Cons.prems lex_piece [of p words cur "spell_word w @ rest"] Cons.IH [of "add_text cur (piece_text p)"]
      by (simp add: spell_word_def word_lines_def word_text_def)
  qed
qed simp

text \<open>Blanks end a word; operators end a command.\<close>

lemma lex_blank: "blank_rune r \<Longrightarrow> shell_lex words cur (r # rest) = shell_lex (end_word words cur) None rest"
  unfolding shell_lex.simps(2) [of words cur r] by (auto simp: blank_rune_def is_space_def)

lemma lex_blanks: "list_all blank_rune b \<Longrightarrow> b \<noteq> [] \<Longrightarrow> shell_lex words cur (b @ rest) = shell_lex (end_word words cur) None rest"
proof (induction b arbitrary: words cur)
  case (Cons r b)
  then show ?case by (cases "b = []") (simp_all add: lex_blank)
qed simp

lemma end_command_Nil [simp]: "end_command [] None = []"
  by (simp add: end_command_def)

lemma lex_operator:
  assumes "r \<in> set (lit ''|;&()`'') \<union> {10}"
  shows "shell_lex words cur (r # rest) = end_command words cur @ shell_lex [] None rest"
proof -
  have "r = 124 \<or> r = 59 \<or> r = 38 \<or> r = 40 \<or> r = 41 \<or> r = 96 \<or> r = 10" using assms by (auto simp: lit_def)
  then show ?thesis
    unfolding shell_lex.simps(2) [of words cur r] by (elim disjE) (simp_all add: lit_def is_space_def)
qed

lemma lex_unit: "operator_unit u \<Longrightarrow> shell_lex words cur (u @ rest) = end_command words cur @ shell_lex [] None rest"
proof -
  assume "operator_unit u"
  then consider "u = [36, 40]" | r where "r \<in> set (lit ''|;&()`'') \<union> {10}" "u = [r]" unfolding operator_unit_def by blast
  then show ?thesis
  proof cases
    case 1
    have "shell_lex words cur (36 # 40 # rest) = end_command words cur @ shell_lex [] None (40 # rest)"
      unfolding shell_lex.simps(2) [of words cur 36] by (simp add: lit_def is_space_def)
    moreover have "shell_lex [] None (40 # rest) = shell_lex [] None rest"
      using lex_operator [of 40 "[]" None rest] by (simp add: lit_def)
    ultimately show ?thesis using 1 by simp
  next
    case 2
    then show ?thesis using lex_operator [OF 2(1)] by simp
  qed
qed

lemma lex_units: "list_all unit_ok s \<Longrightarrow> shell_lex [] None (concat s @ rest) = shell_lex [] None rest"
proof (induction s)
  case (Cons u s)
  have "shell_lex [] None (u @ concat s @ rest) = shell_lex [] None (concat s @ rest)"
  proof (cases "operator_unit u")
    case False
    then obtain r where "u = [r]" "blank_rune r" using Cons.prems by (cases u) (auto simp: unit_ok_def)
    then show ?thesis by (simp add: lex_blank)
  qed (simp add: lex_unit)
  then show ?case using Cons by simp
qed simp

lemma lex_command: "words_ok c \<Longrightarrow>
    \<exists>ws w. end_word ws w = words @ map (\<lambda>(w, b). word_text w) c \<and>
      shell_lex words None (spell_command c @ rest) =
        concat (map (\<lambda>(w, b). concat (map shellCommands (word_lines w))) c) @ shell_lex ws w rest"
proof (induction c arbitrary: words)
  case Nil
  then show ?case by (intro exI [of _ words] exI [of _ None]) (simp add: spell_command_def)
next
  case (Cons x c)
  obtain w b where x: "x = (w, b)" by (cases x)
  have ok: "w \<noteq> []" "list_all piece_ok w" "list_all blank_rune b" "c \<noteq> [] \<longrightarrow> b \<noteq> []" "words_ok c" using Cons.prems x by simp_all
  have first: "shell_lex words None (spell_command (x # c) @ rest) =
      concat (map shellCommands (word_lines w)) @ shell_lex words (Some (word_text w)) (b @ spell_command c @ rest)"
    using lex_word [OF ok(2,1), of words None] by (simp add: spell_command_def x)
  show ?case
  proof (cases "b = []")
    case True
    then have "c = []" using ok(4) by blast
    then show ?thesis using first True
      by (intro exI [of _ words] exI [of _ "Some (word_text w)"]) (simp add: spell_command_def x)
  next
    case False
    obtain ws v where ih: "end_word ws v = (words @ [word_text w]) @ map (\<lambda>(w, b). word_text w) c"
        "shell_lex (words @ [word_text w]) None (spell_command c @ rest) =
          concat (map (\<lambda>(w, b). concat (map shellCommands (word_lines w))) c) @ shell_lex ws v rest"
      using Cons.IH [OF ok(5), of "words @ [word_text w]"] by blast
    then show ?thesis using first lex_blanks [OF ok(3) False, of words "Some (word_text w)"]
      by (intro exI [of _ ws] exI [of _ v]) (simp add: x)
  qed
qed

lemma lex_commands: "commands_ok cs \<Longrightarrow>
    shell_lex [] None (concat (map (\<lambda>(c, s). spell_command c @ concat s) cs)) = concat (map (\<lambda>(c, s). command_runs c) cs)"
proof (induction cs)
  case (Cons x cs)
  obtain c s where x: "x = (c, s)" by (cases x)
  let ?rest = "concat (map (\<lambda>(c, s). spell_command c @ concat s) cs)"
  have ok: "c \<noteq> []" "words_ok c" "list_all unit_ok s" "s \<noteq> [] \<longrightarrow> operator_unit (hd s)" "cs \<noteq> [] \<longrightarrow> s \<noteq> []" "commands_ok cs"
    using Cons.prems x by simp_all
  obtain ws w where c: "end_word ws w = map (\<lambda>(w, b). word_text w) c"
      "shell_lex [] None (spell_command c @ concat s @ ?rest) =
        concat (map (\<lambda>(w, b). concat (map shellCommands (word_lines w))) c) @ shell_lex ws w (concat s @ ?rest)"
    using lex_command [OF ok(2), of "[]" "concat s @ ?rest"] by auto
  have now: "end_command ws w = [map (\<lambda>(w, b). word_text w) c]" using c(1) ok(1) by (simp add: end_command_def)
  have "shell_lex ws w (concat s @ ?rest) = [map (\<lambda>(w, b). word_text w) c] @ shell_lex [] None ?rest"
  proof (cases s)
    case Nil
    then have "cs = []" using ok(5) by blast
    then show ?thesis using Nil now by simp
  next
    case (Cons u us)
    have "shell_lex ws w (u @ concat us @ ?rest) = end_command ws w @ shell_lex [] None (concat us @ ?rest)"
      using ok(4) Cons by (intro lex_unit) simp
    then show ?thesis using Cons now lex_units [of us ?rest] ok(3) by simp
  qed
  then show ?case using c(2) Cons.IH [OF ok(6)] by (simp add: x command_runs_def)
qed simp

lemma split_line: "line_ok line \<Longrightarrow> shellCommands (spell_line line) = line_runs line"
  unfolding shellCommands_def spell_line_def line_runs_def using lex_units lex_commands by (auto simp: line_ok_def)

text \<open>C32: A command line splits into exactly the simple commands it spells. The words of a command are made of bare
  text, text between single quotes, text between double quotes and escaped runes, one or more of them, and are
  separated by blanks; the commands are separated by any sequence of pipes, semicolons, ampersands,
  parentheses, backquotes, newlines, openings of a substitution and blanks that begins with an operator, so
  also by two ampersands or two pipes, and the last command needs nothing behind it. For every such line
  \<open>shellCommands\<close> answers the words of the commands in their order, and in front of each command those of the
  lines that the double quotes of its words substitute, in either form. A plain dollar sign is
  followed by a rune that is no opening parenthesis; a substituted line contains no double quote, backslash or
  backquote and none of the other form or its own closer; no dollar sign or backquote is escaped within double
  quotes.\<close>

theorem line_splits_into_its_commands:
  assumes "line_ok line"
  shows "shellCommands (spell_line line) =
    concat (map (\<lambda>(c, s). concat (map (\<lambda>(w, b). concat (map shellCommands (word_lines w))) c) @ [map (\<lambda>(w, b). word_text w) c]) (snd line))"
  using split_line [OF assms] by (simp add: line_runs_def command_runs_def)

section \<open>Git behind prefixes and options\<close>

definition skipped_word :: "unicode \<Rightarrow> runes \<Rightarrow> bool" where
  "skipped_word U w \<longleftrightarrow> (w \<in> set gitWrappers \<or> w \<in> set shellReservedWords \<or> shellAssignment U w) \<and> \<not> starts w (lit ''-'')"

text \<open>Global options of Git: each begins with a dash, and some take the next word.\<close>

fun global_options :: "runes list \<Rightarrow> bool" where
  "global_options [] = True"
| "global_options (w # ws) = (starts w (lit ''-'') \<and>
     (if w \<in> set gitValueOptions then (case ws of [] \<Rightarrow> False | v # vs \<Rightarrow> global_options vs) else global_options ws))"

lemma value_flag_dash: "w \<in> set (value_flags p) \<Longrightarrow> starts w (lit ''-'')"
proof -
  assume "w \<in> set (value_flags p)"
  then obtain flags where flags: "map_of gitWrapperValueFlags p = Some flags" "w \<in> set flags"
    unfolding value_flags_def by (cases "map_of gitWrapperValueFlags p") auto
  from map_of_SomeD [OF flags(1)] flags(2) show ?thesis
    by (auto simp: gitWrapperValueFlags_def lits_def lit_def starts_def)
qed

lemma strip_skipped: "list_all (skipped_word U) pre \<Longrightarrow> \<exists>p'. strip_prefix U p (pre @ rest) = strip_prefix U p' rest"
proof (induction pre arbitrary: p)
  case (Cons w pre)
  have w: "skipped_word U w" and IH: "\<And>p. \<exists>p'. strip_prefix U p (pre @ rest) = strip_prefix U p' rest"
    using Cons by simp_all
  have flag: "w \<notin> set (value_flags p)" using w value_flag_dash [of w p] by (auto simp: skipped_word_def)
  show ?case
  proof (cases "w \<in> set gitWrappers")
    case True
    then have "strip_prefix U p ((w # pre) @ rest) = strip_prefix U w (pre @ rest)"
      unfolding append_Cons strip_prefix.simps(2) [of U p w] by simp
    then show ?thesis using IH [of w] by simp
  next
    case False
    then have "strip_prefix U p ((w # pre) @ rest) = strip_prefix U p (pre @ rest)"
      unfolding append_Cons strip_prefix.simps(2) [of U p w] using w flag by (auto simp: skipped_word_def)
    then show ?thesis using IH [of p] by simp
  qed
qed auto

lemma strip_git: "strip_prefix U p (lit ''git'' # rest) = lit ''git'' # rest"
proof -
  have "lit ''git'' \<notin> set gitWrappers" "lit ''git'' \<notin> set shellReservedWords" "\<not> starts (lit ''git'') (lit ''-'')"
    "\<not> startsWithDigit (lit ''git'')" "\<not> shellAssignment U (lit ''git'')"
    by (simp_all add: gitWrappers_def shellReservedWords_def lits_def lit_def starts_def startsWithDigit_def shellAssignment_def)
  moreover from this have "lit ''git'' \<notin> set (value_flags p)" using value_flag_dash by blast
  ultimately show ?thesis unfolding strip_prefix.simps(2) by simp
qed

lemma skip_global:
  assumes "global_options options" "\<not> starts sub (lit ''-'')"
  shows "skipGitGlobalOptions (options @ sub # args) = (sub # args, []) \<or> snd (skipGitGlobalOptions (options @ sub # args)) \<noteq> []"
  using assms(1)
proof (induction options rule: global_options.induct)
  case 1
  have "sub \<notin> set gitValueOptions" "sub \<noteq> lit ''-c''" "sub \<noteq> lit ''--config-env''" "\<not> starts sub (lit ''--config-env='')"
    "\<not> starts sub (lit ''-c'')" "\<not> starts sub (lit ''--exec-path='')"
    using assms(2) by (cases sub; auto simp: gitValueOptions_def lits_def lit_def starts_def)+
  then show ?case using assms(2) by simp
next
  case (2 w ws)
  show ?case
  proof (cases "w \<in> set gitValueOptions")
    case True
    with 2 obtain v vs where "ws = v # vs" "global_options vs" by (auto split: list.splits)
    with 2 True show ?thesis by (auto simp: lit_def)
  next
    case False
    with 2 show ?thesis by (auto simp: lit_def)
  qed
qed

lemma git_args_found:
  assumes "global_options options" "\<not> starts sub (lit ''-'')" "\<not> read_only sub"
  shows "gitArgsMutation (options @ sub # args) \<noteq> []"
  using skip_global [OF assms(1,2), of args] assms(3)
  by (auto simp: gitArgsMutation_def lit_def split: prod.splits)

lemma found_first: "x \<in> set xs \<Longrightarrow> x \<noteq> [] \<Longrightarrow> first_found xs \<noteq> []"
  by (induction xs) auto

lemma executed_git:
  assumes "list_all (skipped_word U) pre"
  shows "executedGitMutation U (pre @ lit ''git'' # args) = gitArgsMutation args"
proof -
  obtain p where "strip_prefix U [] (pre @ lit ''git'' # args) = lit ''git'' # args"
    using strip_skipped [OF assms, of "[]" "lit ''git'' # args"] by (auto simp: strip_git)
  then show ?thesis by (simp add: executedGitMutation.simps Let_def runs_git_def)
qed

text \<open>C31: A Git that writes cannot hide in a line: if any command a spelled line runs, also one that a double-quoted
  word of it substitutes, and also an unterminated last one, runs \<open>git\<close> behind any number of assignments,
  reserved words and wrappers and of Git's own global options, with a subcommand outside the read-only set,
  then \<open>GuardShellGit\<close> refuses the line, and \<open>GitShellDecision\<close> denies it to every role but the orchestrator
  and asks the user for the orchestrator. The words of the line are bare, quoted either way, escaped, or any
  mixture of these, and any sequence of operators and blanks separates its commands; a plain dollar
  sign is followed by a rune that is no opening parenthesis, a substituted line contains no double quote,
  backslash or backquote and none of the other form or its own closer, and no dollar sign or backquote is
  escaped within double quotes.\<close>

theorem writing_git_is_found:
  assumes line: "line_ok line" "pre @ lit ''git'' # options @ sub # args \<in> set (line_runs line)"
    and pre: "list_all (skipped_word U) pre"
    and sub: "global_options options" "\<not> starts sub (lit ''-'')" "\<not> read_only sub"
  shows "GuardShellGit U (spell_line line) \<noteq> None \<and>
    fst (GitShellDecision U role (spell_line line)) = (if role = RoleOrchestrator then ShellAsk else ShellDeny)"
proof -
  let ?c = "pre @ lit ''git'' # options @ sub # args"
  have "executedGitMutation U ?c \<noteq> []"
    unfolding executed_git [OF pre] using git_args_found [OF sub] .
  moreover have "?c \<in> set (shellCommands (spell_line line))"
    unfolding split_line [OF line(1)] using line(2) .
  ultimately have "gitMutation U (spell_line line) \<noteq> []"
    unfolding gitMutation_def by (intro found_first [of "executedGitMutation U ?c"]) auto
  then show ?thesis by (simp add: GuardShellGit_def GitShellDecision_def GuardGitMutation_def Let_def)
qed

section \<open>A redirection before the command\<close>

text \<open>A redirection in front of the command is taken for the command, and the Git behind it is not found.\<close>

lemma redirected_words: "shellCommands (lit ''>log git push'') = [lits [''>log'', ''git'', ''push'']]"
  by (simp add: shellCommands_def lits_def lit_def shell_lex.simps(2) is_space_def end_command_def)

theorem redirection_hides_git: "GuardShellGit U (lit ''>log git push'') = None"
proof -
  have strip: "strip_prefix U [] (lits [''>log'', ''git'', ''push'']) = lits [''>log'', ''git'', ''push'']"
    by (simp add: strip_prefix.simps(2) gitWrappers_def shellReservedWords_def value_flags_def gitWrapperValueFlags_def
        lits_def lit_def starts_def startsWithDigit_def shellAssignment_def)
  have "\<not> runs_git (lit ''>log'')" "\<not> runs_shell (lit ''>log'')"
    by (simp_all add: runs_git_def runs_shell_def gitShells_def lits_def lit_def ends_def starts_def)
  then have "executedGitMutation U (lits [''>log'', ''git'', ''push'']) = []"
    unfolding executedGitMutation.simps [of U "lits [''>log'', ''git'', ''push'']"] strip
    by (simp add: lits_def lit_def)
  then show ?thesis by (simp add: GuardShellGit_def gitMutation_def redirected_words)
qed

section \<open>Witnesses\<close>

text \<open>\<open>cd 'my dir' && LANG=C env "git" -C sub push\<close>, with nothing behind the last word, and a push that a
  double-quoted word runs.\<close>

definition spaced :: "string list \<Rightarrow> command_spelling" where
  "spaced ws = map (\<lambda>w. ([Bare (lit w)], lit '' '')) ws"

definition demo_git_line :: line_spelling where
  "demo_git_line =
    ([lit '' ''],
     [([([Bare (lit ''cd'')], lit '' ''), ([Single (lit ''my dir'')], lit '' '')], [lit ''&'', lit ''&'', lit '' '']),
      (spaced [''LANG=C'', ''env''] @ [([Bare (lit ''g''), Double [Plain (lit ''it'')]], lit '' '')] @ spaced [''-C'', ''sub''] @
       [([Bare (lit ''push'')], [])], [])])"

definition demo_quoted_line :: line_spelling where
  "demo_quoted_line = ([], [(spaced [''echo''] @ [([Double [Plain (lit ''done: ''), Dollar (lit ''git push'')]], [])], [])])"

definition ascii_only :: unicode where
  "ascii_only = \<lparr>un_letter = (\<lambda>_. False), un_digit = (\<lambda>_. False)\<rparr>"

lemmas demo_line_defs = line_ok_def demo_git_line_def demo_quoted_line_def spaced_def bare_rune_def blank_rune_def is_space_def lit_def
  operator_unit_def unit_ok_def unmarked_def

lemma demo_line_ok: "line_ok demo_git_line" "line_ok demo_quoted_line"
  by (simp_all add: demo_line_defs)

lemma demo_line_runs: "line_runs demo_git_line =
    [lits [''cd'', ''my dir''], lits [''LANG=C'', ''env'', ''git'', ''-C'', ''sub'', ''push'']]"
  by (simp add: line_runs_def command_runs_def demo_git_line_def spaced_def word_lines_def word_text_def dollar_lines_def tick_lines_def
      lits_def lit_def)

lemma substituted_push: "shellCommands (lit ''git push'') = [lits [''git'', ''push'']]"
  by (simp add: shellCommands_def lits_def lit_def shell_lex.simps(2) is_space_def end_command_def)

theorem line_splits_into_its_commands_witness:
  "shellCommands (spell_line demo_git_line) =
    [lits [''cd'', ''my dir''], lits [''LANG=C'', ''env'', ''git'', ''-C'', ''sub'', ''push'']] \<and>
   shellCommands (spell_line demo_quoted_line) = [lits [''git'', ''push''], lits [''echo'', ''done: $(git push)'']]"
proof -
  have "shellCommands (spell_line demo_git_line) = line_runs demo_git_line"
    unfolding line_splits_into_its_commands [OF demo_line_ok(1)] by (simp add: line_runs_def command_runs_def)
  moreover have "shellCommands (spell_line demo_quoted_line) = [lits [''git'', ''push''], lits [''echo'', ''done: $(git push)'']]"
    unfolding line_splits_into_its_commands [OF demo_line_ok(2)]
    by (simp add: demo_quoted_line_def spaced_def word_lines_def word_text_def dollar_lines_def tick_lines_def substituted_push)
      (simp add: lits_def lit_def)
  ultimately show ?thesis unfolding demo_line_runs by simp
qed

theorem writing_git_is_found_witness:
  "GuardShellGit ascii_only (spell_line demo_git_line) \<noteq> None \<and>
   fst (GitShellDecision ascii_only ''execution'' (spell_line demo_git_line)) = ShellDeny"
proof -
  have ok: "list_all (skipped_word ascii_only) (lits [''LANG=C'', ''env''])" "global_options (lits [''-C'', ''sub''])"
    "\<not> starts (lit ''push'') (lit ''-'')" "\<not> read_only (lit ''push'')"
    by (simp_all add: skipped_word_def gitWrappers_def shellReservedWords_def shellAssignment_def is_letter_def is_digit_def
        gitValueOptions_def read_only_def readOnlyGitSubcommands_def lits_def lit_def starts_def)
  have "lits [''LANG=C'', ''env''] @ lit ''git'' # lits [''-C'', ''sub''] @ lit ''push'' # [] \<in> set (line_runs demo_git_line)"
    unfolding demo_line_runs by (simp add: lits_def)
  from writing_git_is_found [OF demo_line_ok(1) this ok, of "''execution''"]
  show ?thesis by (simp add: RoleOrchestrator_def)
qed

end
