(* ===== verification/Disp_Recovery.thy ===== *)
theory Disp_Recovery
  imports Disp_Laws Vfs_State
begin

text \<open>
  Bounded recovery of an objective (\<open>takt/dispatch/recovery.go\<close>): its declaration, its closing, and
  the accounting of the actions the journal shows, which abandons a recovery whose budgets are spent.
  \<open>Restore\<close>, which also acts on the virtual file system, is in \<open>Disp_Restore\<close>.
\<close>

datatype recovery_refusal = DeclarationIncomplete | OverCeiling | ScopeOverlap | FailureStreak
  | LeftAbandoned | NotOpen | EvidenceMissing
  | StillOpen | AlreadyRestored | NeverAbandoned | AwaitsReturn | NoEntropy
  | RollbackFailed "verror list" | ReleaseFailed "verror list"

record recovery_declaration =
  rd_Objective :: string
  rd_Result :: string
  rd_Scope :: "string list"
  rd_Actions :: int
  rd_Attempts :: int

definition causeIncomplete :: string where "causeIncomplete = ''declaration/recovery-incomplete''"
definition causeRecoveryOverlap :: string where "causeRecoveryOverlap = ''declaration/recovery-overlap''"

section \<open>Declaration\<close>

definition scopeOwner :: "budgets \<Rightarrow> string list \<Rightarrow> string \<times> recovery" where
  "scopeOwner b scope =
    (case find (\<lambda>u. fst (Scope b u) \<noteq> []) scope of None \<Rightarrow> ([], zero_recovery) | Some u \<Rightarrow> Scope b u)"

definition declare_refusal ::
    "budgets \<Rightarrow> admission_policy \<Rightarrow> recovery_declaration \<Rightarrow> (string \<times> recovery_refusal) option" where
  "declare_refusal b pol d =
    (let allowed = wrap_int (ap_RecoveryFailures pol + allowance b (AllowanceKey BoundRecovery (rd_Objective d)))
     in if rd_Objective d = [] \<or> rd_Result d = [] \<or> rd_Scope d = [] \<or> rd_Actions d \<le> 0 \<or> rd_Attempts d \<le> 0
        then Some (causeIncomplete, DeclarationIncomplete)
        else if rd_Actions d > ap_MaxActions pol then Some (BoundRecoveryActions, OverCeiling)
        else if rd_Attempts d > ap_MaxAttempts pol then Some (BoundRecoveryAttempts, OverCeiling)
        else if fst (scopeOwner b (rd_Scope d)) \<noteq> [] then Some (causeRecoveryOverlap, ScopeOverlap)
        else if r_Failures (recovery_of b (rd_Objective d)) \<ge> allowed then Some (BoundRecovery, FailureStreak)
        else None)"

definition DeclareRecovery ::
    "admission_policy \<Rightarrow> string \<Rightarrow> string \<Rightarrow> string \<Rightarrow> recovery_declaration \<Rightarrow> hist \<Rightarrow>
     recovery_refusal errs \<times> hist" where
  "DeclareRecovery pol journalRef event session d h =
    (let b = Budgets (hProject h) session;
         entry = zero_entry\<lparr>e_Author := AuthorOrchestrator, e_Kind := KindRecoveryDeclared, e_SessionID := session,
           e_WorkUnitID := event, e_AttemptID := FirstAttempt, e_Cause := CauseUncaptured,
           e_JournalRef := journalRef, e_PolicyRef := AdmissionPolicyRef, e_Objective := rd_Objective d,
           e_Result := rd_Result d, e_Scope := rd_Scope d, e_Actions := rd_Actions d, e_Attempts := rd_Attempts d\<rparr>
     in if r_Open (recovery_of b (rd_Objective d)) then ([], h)
        else case declare_refusal b pol d of
               None \<Rightarrow> append_join entry [] h
             | Some (cause, err) \<Rightarrow>
                 append_join (entry\<lparr>e_Author := AuthorHarness, e_Kind := KindDenied, e_Cause := cause\<rparr>) [Refused err] h)"

section \<open>Closing\<close>

definition CloseRecovery ::
    "string \<Rightarrow> string \<Rightarrow> string \<Rightarrow> string \<Rightarrow> string \<Rightarrow> bool \<Rightarrow> hist \<Rightarrow> recovery_refusal errs \<times> hist" where
  "CloseRecovery journalRef event session objective evidence demonstrated h =
    (let r = recovery_of (Budgets (hProject h) session) objective
     in if \<not> r_Open r then
          (if r_Backtracked r \<and> \<not> r_Restored r then ([Refused LeftAbandoned], h) else ([Refused NotOpen], h))
        else if demonstrated \<and> evidence = [] then ([Refused EvidenceMissing], h)
        else hist_errs (Append (zero_entry\<lparr>e_Author := AuthorHarness, e_Kind := KindRecoveryClosed,
               e_SessionID := session, e_WorkUnitID := event, e_AttemptID := FirstAttempt,
               e_Cause := CauseUncaptured, e_JournalRef := journalRef, e_PolicyRef := AdmissionPolicyRef,
               e_Objective := objective, e_Outcome := (if demonstrated then OutcomeCompleted else OutcomeFailed),
               e_Evidence := evidence\<rparr>) h))"

section \<open>Accounting\<close>

definition journalPosition :: "int \<Rightarrow> string" where
  "journalPosition n = (if n < 0 then [] else ''journal/'' @ Itoa n)"

definition scopeActions :: "JournalEntry list \<Rightarrow> string \<Rightarrow> recovery \<Rightarrow> int" where
  "scopeActions entries session r = int (length (remdups (map (\<lambda>e. je_SessionID e @ ''/'' @ je_CallID e)
     (filter (\<lambda>e. int (je_Seq e) > r_Cursor r \<and> je_CallID e \<noteq> [] \<and> je_SessionID e = session \<and>
        je_WorkUnitID e \<in> set (r_Scope r)) entries))))"

definition recordActions ::
    "string \<Rightarrow> string \<Rightarrow> recovery \<Rightarrow> kind \<Rightarrow> int \<Rightarrow> int \<Rightarrow> hist \<Rightarrow> recovery_refusal errs \<times> hist" where
  "recordActions session objective r k actions head h =
    hist_errs (Append (zero_entry\<lparr>e_Author := AuthorHarness, e_Kind := k, e_SessionID := session,
      e_WorkUnitID := r_Unit r, e_AttemptID := FirstAttempt, e_Cause := CauseUncaptured,
      e_JournalRef := journalPosition head, e_PolicyRef := AdmissionPolicyRef, e_Objective := objective,
      e_Actions := actions\<rparr>) h)"

text \<open>The bound that is spent, if one is: \<open>None\<close> is the source's \<open>default\<close>.\<close>

definition inFlightScope :: "projection \<Rightarrow> string \<Rightarrow> string list \<Rightarrow> bool" where
  "inFlightScope p session scope \<longleftrightarrow> list_ex (\<lambda>u. u_State (unit_at p session u) = StateInFlight) scope"

definition spent_bound :: "projection \<Rightarrow> string \<Rightarrow> string \<Rightarrow> recovery \<Rightarrow> string option" where
  "spent_bound p session objective r =
    (let b = Budgets p session;
         actions = wrap_int (r_Actions r + allowance b (AllowanceKey BoundRecoveryActions objective));
         attempts = wrap_int (r_Attempts r + allowance b (AllowanceKey BoundRecoveryAttempts objective))
     in if r_Used r \<ge> actions then Some BoundRecoveryActions
        else if attempted r \<ge> attempts \<and> \<not> inFlightScope p session (r_Scope r) then Some BoundRecoveryAttempts
        else None)"

definition forceBacktrackIfExhausted ::
    "string \<Rightarrow> string \<Rightarrow> recovery \<Rightarrow> projection \<Rightarrow> int \<Rightarrow> hist \<Rightarrow> recovery_refusal errs \<times> hist" where
  "forceBacktrackIfExhausted session objective r p head h =
    (case spent_bound p session objective r of
       None \<Rightarrow> ([], h)
     | Some cause \<Rightarrow> hist_errs (Append (zero_entry\<lparr>e_Author := AuthorHarness, e_Kind := KindRecoveryClosed,
         e_SessionID := session, e_WorkUnitID := r_Unit r, e_AttemptID := FirstAttempt, e_Cause := cause,
         e_JournalRef := journalPosition head, e_PolicyRef := AdmissionPolicyRef, e_Objective := objective,
         e_Outcome := OutcomeBacktracked, e_Scope := r_Scope r\<rparr>) h))"

definition accountRecovery ::
    "JournalEntry list \<Rightarrow> projection \<Rightarrow> int \<Rightarrow> string \<Rightarrow> string \<Rightarrow> recovery \<Rightarrow> hist \<Rightarrow>
     recovery_refusal errs \<times> hist" where
  "accountRecovery entries p head session objective r h =
    (if head < r_Cursor r then recordActions session objective r KindActionsUncertain 0 head h
     else let n = scopeActions entries session r
          in if n > 0 then
               let r' = r\<lparr>r_Used := wrap_int (r_Used r + n)\<rparr>
               in case recordActions session objective r' KindActions n head h of
                    (err, h') \<Rightarrow> if err \<noteq> [] then (err, h')
                                else forceBacktrackIfExhausted session objective r' p head h'
             else forceBacktrackIfExhausted session objective r p head h)"

text \<open>The two nested loops of \<open>Account\<close>, over the sessions and objectives one projection shows.\<close>

definition account_pairs :: "projection \<Rightarrow> (string \<times> string) list" where
  "account_pairs p = concat (map (\<lambda>session. map (Pair session) (sorted_keys (b_Recoveries (Budgets p session))))
     (sorted_keys (p_Sessions p)))"

fun account_each ::
    "JournalEntry list \<Rightarrow> projection \<Rightarrow> int \<Rightarrow> (string \<times> string) list \<Rightarrow> hist \<Rightarrow> recovery_refusal errs \<times> hist" where
  "account_each entries p head [] h = ([], h)"
| "account_each entries p head ((session, objective) # rest) h =
    (let r = recovery_of (Budgets p session) objective
     in if \<not> r_Open r \<or> r_Unreconciled r then account_each entries p head rest h
        else case accountRecovery entries p head session objective r h of
               (err, h') \<Rightarrow> if err \<noteq> [] then (err, h') else account_each entries p head rest h')"

definition journal_head :: "JournalEntry list \<Rightarrow> int" where
  "journal_head entries = (if entries = [] then - 1 else int (je_Seq (last entries)))"

definition Account :: "JournalEntry list \<Rightarrow> hist \<Rightarrow> recovery_refusal errs \<times> hist" where
  "Account entries h =
    (let p = hProject h in account_each entries p (journal_head entries) (account_pairs p) h)"

end
