(* ===== verification/Disp_Recovery_Props.thy ===== *)
theory Disp_Recovery_Props
  imports Disp_Recovery Disp_Props
begin

text \<open>
  Properties of bounded recovery: what a declaration needs, and that one accounting leaves no open
  recovery beyond its budgets and counts every tool call once.
\<close>

section \<open>Recoveries of a replayed history\<close>

definition wf_sessions :: "projection \<Rightarrow> bool" where
  "wf_sessions p \<longleftrightarrow> wf_map (p_Sessions p) \<and> (\<forall>s. wf_map (b_Recoveries (Budgets p s)))"

lemma wf_put_recovery: "wf_map (b_Recoveries b) \<Longrightarrow> wf_map (b_Recoveries (put_recovery o' r b))"
  by (simp add: put_recovery_def)

lemma recoveries_budgeted:
  "budgeted b e = Some b' \<Longrightarrow> wf_map (b_Recoveries b) \<Longrightarrow> wf_map (b_Recoveries b')"
  by (cases "e_Kind e")
    (auto simp: budgeted_def Let_def fold_exception_def fold_recovery_closed_def put_recovery_def
       split: option.splits if_splits)

lemma recoveries_admit: "wf_map (b_Recoveries b) \<Longrightarrow> wf_map (b_Recoveries (admit_budgets e known b))"
  by (auto simp: admit_budgets_def Let_def put_recovery_def split: option.splits)

lemma wf_sessions_entry: "wf_sessions p \<Longrightarrow> wf_sessions (fold_entry e p)"
proof -
  assume w: "wf_sessions p"
  then have s: "wf_map (b_Recoveries (Budgets p (e_SessionID e)))" by (simp add: wf_sessions_def)
  have "wf_map (b_Recoveries (budgets_after e p))"
    unfolding budgets_after_def Let_def
    using s recoveries_budgeted [of "(Budgets p (e_SessionID e))\<lparr>b_PlanVersion := e_PlanVersion e\<rparr>" e]
      recoveries_budgeted [of "Budgets p (e_SessionID e)" e]
    by (auto simp: recoveries_admit split: option.split)
  then show ?thesis using w by (auto simp: wf_sessions_def Budgets_fold_entry fold_entry_sessions)
qed

lemma wf_sessions_Project: "wf_sessions (Project es)"
proof (induction es rule: rev_induct)
  case Nil
  show ?case by (simp add: wf_sessions_def newProjection_def Budgets_def zero_budgets_def)
qed (simp add: Project_snoc wf_sessions_entry)

lemma wf_sessions_hProject: "wf_sessions (hProject h)"
  by (simp add: hProject_def wf_sessions_Project)

lemma recovery_put [simp]: "recovery_of (put_recovery o' r b) q = (if q = o' then r else recovery_of b q)"
  by (simp add: recovery_of_def put_recovery_def)

lemma Budgets_put [simp]: "Budgets (put_budgets s b p) t = (if t = s then b else Budgets p t)"
  by (simp add: Budgets_def put_budgets_def)

lemma mkeys_mput_old: "mhas m k \<Longrightarrow> mkeys (mput k v m) = mkeys m"
  by (simp add: mhas_keys mkeys_def mput_def update_keys)

section \<open>Accounting one recovery\<close>

text \<open>The three acts of the accounting change one recovery of one session.\<close>

definition account_act :: "entry \<Rightarrow> bool" where
  "account_act e \<longleftrightarrow> e_Kind e \<in> {KindActions, KindActionsUncertain, KindRecoveryClosed}"

definition recovery_after :: "entry \<Rightarrow> recovery \<Rightarrow> recovery" where
  "recovery_after e r =
    (if e_Kind e = KindActions then r\<lparr>r_Used := wrap_int (r_Used r + e_Actions e), r_Cursor := refSeq (e_JournalRef e)\<rparr>
     else if e_Kind e = KindActionsUncertain then r\<lparr>r_Unreconciled := True\<rparr>
     else recovery_of (fold_recovery_closed (put_recovery (e_Objective e) r zero_budgets) e) (e_Objective e))"

lemma account_act_entry:
  assumes "account_act e"
  shows "fold_entry e p = put_budgets (e_SessionID e) (put_recovery (e_Objective e)
      (recovery_after e (recovery_of (Budgets p (e_SessionID e)) (e_Objective e))) (Budgets p (e_SessionID e))) p"
proof -
  have k: "\<not> executionKind (e_Kind e)" "activityKindOf e = None" "settle_executions e p = p"
    "e_Kind e \<noteq> KindPlanned"
    using assms by (auto simp: account_act_def activityKindOf_def settle_executions_def)
  have "budgeted b e = Some (put_recovery (e_Objective e) (recovery_after e (recovery_of b (e_Objective e))) b)" for b
    using assms by (auto simp: account_act_def budgeted_def recovery_after_def fold_recovery_closed_def Let_def)
  then show ?thesis using k by (simp add: fold_entry_def Let_def)
qed

text \<open>What an accounting up to \<open>head\<close> leaves of a recovery: nothing more to record, and no budget spent.\<close>

definition accounted :: "JournalEntry list \<Rightarrow> projection \<Rightarrow> int \<Rightarrow> string \<times> string \<Rightarrow> bool" where
  "accounted es p head = (\<lambda>(s, ob). let r = recovery_of (Budgets p s) ob in
     \<not> r_Open r \<or> r_Unreconciled r \<or>
     (r_Cursor r \<le> head \<and> scopeActions es s r = 0 \<and> spent_bound p s ob r = None))"

text \<open>The tool calls of a scope that the journal shows after a recovery's cursor: each call once, however many
  rows it has.\<close>

definition new_calls :: "JournalEntry list \<Rightarrow> string \<Rightarrow> recovery \<Rightarrow> string set" where
  "new_calls entries session r = je_CallID ` {e \<in> set entries. r_Cursor r < int (je_Seq e) \<and> je_CallID e \<noteq> [] \<and>
     je_SessionID e = session \<and> je_WorkUnitID e \<in> set (r_Scope r)}"

lemma scopeActions_calls: "scopeActions entries session r = int (card (new_calls entries session r))"
proof -
  define es where "es = filter (\<lambda>e. int (je_Seq e) > r_Cursor r \<and> je_CallID e \<noteq> [] \<and> je_SessionID e = session \<and>
      je_WorkUnitID e \<in> set (r_Scope r)) entries"
  have "set (map (\<lambda>e. je_SessionID e @ ''/'' @ je_CallID e) es) = (\<lambda>c. session @ ''/'' @ c) ` new_calls entries session r"
    by (auto simp: es_def new_calls_def image_iff)
  moreover have "inj_on (\<lambda>c. session @ ''/'' @ c) (new_calls entries session r)" by (simp add: inj_on_def)
  ultimately have "card (set (map (\<lambda>e. je_SessionID e @ ''/'' @ je_CallID e) es)) = card (new_calls entries session r)"
    by (simp add: card_image)
  then show ?thesis unfolding scopeActions_def es_def [symmetric] length_remdups_card_conv by simp
qed

text \<open>What the accounting up to \<open>head\<close> makes of the consumption of a recovery that was open and established.\<close>

definition charged :: "JournalEntry list \<Rightarrow> int \<Rightarrow> string \<Rightarrow> recovery \<Rightarrow> recovery \<Rightarrow> bool" where
  "charged es head s r r' \<longleftrightarrow>
    (if head < r_Cursor r then r' = r\<lparr>r_Unreconciled := True\<rparr>
     else if new_calls es s r = {} then r_Used r' = r_Used r \<and> r_Cursor r' = r_Cursor r
     else r_Used r' = wrap_int (r_Used r + int (card (new_calls es s r))) \<and> r_Cursor r' = head)"

text \<open>Two projections that differ only in recoveries, all of them listed.\<close>

definition differ_at :: "(string \<times> string) set \<Rightarrow> projection \<Rightarrow> projection \<Rightarrow> bool" where
  "differ_at D p q \<longleftrightarrow> p_Units q = p_Units p \<and> mkeys (p_Sessions q) = mkeys (p_Sessions p) \<and>
     (\<forall>s. b_Allowance (Budgets q s) = b_Allowance (Budgets p s) \<and>
          mkeys (b_Recoveries (Budgets q s)) = mkeys (b_Recoveries (Budgets p s)) \<and>
          (\<forall>ob. (s, ob) \<notin> D \<longrightarrow> recovery_of (Budgets q s) ob = recovery_of (Budgets p s) ob))"

lemma differ_refl [simp]: "differ_at D p p"
  by (simp add: differ_at_def)

lemma differ_trans: "differ_at D p q \<Longrightarrow> differ_at D' q u \<Longrightarrow> differ_at (D \<union> D') p u"
  by (auto simp: differ_at_def)

lemma differ_same: "differ_at D p q \<Longrightarrow> differ_at D q u \<Longrightarrow> differ_at D p u"
  using differ_trans [of D p q D u] by simp

lemma differ_pairs: "differ_at D p q \<Longrightarrow> account_pairs q = account_pairs p"
  by (simp add: differ_at_def account_pairs_def sorted_keys_def)

lemma differ_spent: "differ_at D p q \<Longrightarrow> spent_bound q s ob r = spent_bound p s ob r"
  by (simp add: differ_at_def spent_bound_def allowance_def inFlightScope_def unit_at_def)

lemma differ_accounted: "differ_at D p q \<Longrightarrow> x \<notin> D \<Longrightarrow> accounted es q head x = accounted es p head x"
  by (cases x) (simp add: accounted_def Let_def differ_spent, simp add: differ_at_def)

lemma account_act_differ:
  assumes "account_act e" "mhas (b_Recoveries (Budgets p (e_SessionID e))) (e_Objective e)"
  shows "differ_at {(e_SessionID e, e_Objective e)} p (fold_entry e p)"
proof -
  have "mhas (p_Sessions p) (e_SessionID e)"
    using assms(2) by (cases "map_of (p_Sessions p) (e_SessionID e)") (auto simp: Budgets_def mget_def zero_budgets_def mhas_def)
  then show ?thesis
    using assms by (auto simp: differ_at_def account_act_entry mkeys_mput_old)
      (simp_all add: put_budgets_def put_recovery_def mkeys_mput_old)
qed

lemma ref_position: "- 1 \<le> n \<Longrightarrow> int64 n \<Longrightarrow> refSeq (journalPosition n) = n"
  by (auto simp: refSeq_def journalPosition_def trim_prefix_def has_prefix_def Atoi_Itoa)

lemma act_appended:
  assumes "Append e h = ([], h')" "account_act e" "e_SessionID e = s" "e_Objective e = ob"
    and "mhas (b_Recoveries (Budgets (hProject h) s)) ob"
  shows "differ_at {(s, ob)} (hProject h) (hProject h')"
    and "recovery_of (Budgets (hProject h') s) ob = recovery_after e (recovery_of (Budgets (hProject h) s) ob)"
proof -
  obtain i where i: "hProject h' = fold_entry (e\<lparr>e_Seq := i\<rparr>) (hProject h)" using Append_ok [OF assms(1)] by metis
  have a: "account_act (e\<lparr>e_Seq := i\<rparr>)" "recovery_after (e\<lparr>e_Seq := i\<rparr>) = recovery_after e"
    using assms(2) by (simp_all add: account_act_def recovery_after_def fold_recovery_closed_def fun_eq_iff Let_def)
  show "differ_at {(s, ob)} (hProject h) (hProject h')"
    using account_act_differ [OF a(1)] assms i by simp
  show "recovery_of (Budgets (hProject h') s) ob = recovery_after e (recovery_of (Budgets (hProject h) s) ob)"
    using account_act_entry [OF a(1)] a(2) assms(3,4) i by simp
qed

lemma forced:
  assumes "forceBacktrackIfExhausted s ob r p head h = ([], h')" "differ_at D p (hProject h)"
    and "mhas (b_Recoveries (Budgets (hProject h) s)) ob"
    and "recovery_of (Budgets (hProject h) s) ob = r\<lparr>r_Cursor := c\<rparr>"
    and "c \<le> head" "scopeActions es s (r\<lparr>r_Cursor := c\<rparr>) = 0"
  shows "differ_at {(s, ob)} (hProject h) (hProject h') \<and> accounted es (hProject h') head (s, ob) \<and>
    r_Used (recovery_of (Budgets (hProject h') s) ob) = r_Used r \<and> r_Cursor (recovery_of (Budgets (hProject h') s) ob) = c"
proof (cases "spent_bound p s ob r")
  case None
  have "spent_bound p s ob (r\<lparr>r_Cursor := c\<rparr>) = spent_bound p s ob r" by (simp add: spent_bound_def attempted_def Let_def cong: if_cong)
  then show ?thesis
    using None assms differ_spent [OF assms(2)] by (simp add: forceBacktrackIfExhausted_def accounted_def Let_def)
next
  case (Some cause)
  define e where "e = zero_entry\<lparr>e_Author := AuthorHarness, e_Kind := KindRecoveryClosed,
         e_SessionID := s, e_WorkUnitID := r_Unit r, e_AttemptID := FirstAttempt, e_Cause := cause,
         e_JournalRef := journalPosition head, e_PolicyRef := AdmissionPolicyRef, e_Objective := ob,
         e_Outcome := OutcomeBacktracked, e_Scope := r_Scope r\<rparr>"
  have "Append e h = ([], h')" using assms(1) Some by (simp add: forceBacktrackIfExhausted_def e_def)
  note act = act_appended [OF this, of s ob]
  have e: "account_act e" "e_SessionID e = s" "e_Objective e = ob" "\<not> r_Open (recovery_after e x)"
      "r_Used (recovery_after e x) = r_Used x" "r_Cursor (recovery_after e x) = r_Cursor x" for x
    by (simp_all add: e_def account_act_def recovery_after_def fold_recovery_closed_def Let_def)
  show ?thesis using act e assms(3,4) by (simp add: accounted_def Let_def)
qed

lemma scopeActions_head: "sorted (map je_Seq es) \<Longrightarrow> scopeActions es s (r\<lparr>r_Cursor := journal_head es\<rparr>) = 0"
proof -
  assume sorted: "sorted (map je_Seq es)"
  have "int (je_Seq e) \<le> journal_head es" if "e \<in> set es" for e
  proof -
    obtain i where "i < length es" "e = es ! i" using \<open>e \<in> set es\<close> by (auto simp: in_set_conv_nth)
    then have "je_Seq e \<le> je_Seq (es ! (length es - 1))"
      using sorted_nth_mono [OF sorted, of i "length es - 1"] by simp
    then show ?thesis using \<open>i < length es\<close> by (cases "es = []") (auto simp: journal_head_def last_conv_nth)
  qed
  then have "filter (\<lambda>e. int (je_Seq e) > journal_head es \<and> je_CallID e \<noteq> [] \<and> je_SessionID e = s \<and>
      je_WorkUnitID e \<in> set (r_Scope r)) es = []" by (auto simp: filter_empty_conv not_less)
  then show ?thesis by (simp add: scopeActions_def)
qed

lemma accountRecovery_ok:
  assumes "accountRecovery es p (journal_head es) s ob r h = ([], h')" "differ_at D p (hProject h)"
    and "mhas (b_Recoveries (Budgets (hProject h) s)) ob" "recovery_of (Budgets (hProject h) s) ob = r"
    and sorted: "sorted (map je_Seq es)" and range: "int64 (journal_head es)"
  shows "differ_at {(s, ob)} (hProject h) (hProject h') \<and> accounted es (hProject h') (journal_head es) (s, ob) \<and>
    charged es (journal_head es) s r (recovery_of (Budgets (hProject h') s) ob)"
proof -
  define head where "head = journal_head es"
  have fin: "finite (new_calls es s r)" by (simp add: new_calls_def)
  have low: "- 1 \<le> head" by (simp add: head_def journal_head_def)
  define act where "act k n = zero_entry\<lparr>e_Author := AuthorHarness, e_Kind := k, e_SessionID := s,
      e_WorkUnitID := r_Unit r, e_AttemptID := FirstAttempt, e_Cause := CauseUncaptured,
      e_JournalRef := journalPosition head, e_PolicyRef := AdmissionPolicyRef, e_Objective := ob,
      e_Actions := n\<rparr>" for k n
  have act: "account_act (act KindActionsUncertain n)" "account_act (act KindActions n)" "e_SessionID (act k n) = s" "e_Objective (act k n) = ob"
    "e_Kind (act k n) = k" "e_Actions (act k n) = n" "e_JournalRef (act k n) = journalPosition head" for k n
    by (simp_all add: act_def account_act_def)
  show ?thesis
  proof (cases "head < r_Cursor r")
    case True
    then have "Append (act KindActionsUncertain 0) h = ([], h')"
      using assms(1) by (simp add: accountRecovery_def recordActions_def act_def head_def)
    note acted = act_appended [OF this, of s ob]
    show ?thesis using acted act assms(3,4) True by (simp add: accounted_def Let_def recovery_after_def charged_def head_def)
  next
    case cursor: False
    define n where "n = scopeActions es s r"
    show ?thesis
    proof (cases "n > 0")
      case True
      define r' where "r' = r\<lparr>r_Used := wrap_int (r_Used r + n)\<rparr>"
      obtain h1 where h1: "Append (act KindActions n) h = ([], h1)"
        and f: "forceBacktrackIfExhausted s ob r' p head h1 = ([], h')"
        using assms(1) cursor True
        by (auto simp: accountRecovery_def recordActions_def act_def head_def n_def r'_def Let_def split: prod.splits if_splits)
      note acted = act_appended [OF h1, of s ob, OF act(2-4) assms(3)]
      have r1: "recovery_of (Budgets (hProject h1) s) ob = r'\<lparr>r_Cursor := head\<rparr>"
        using acted(2) act ref_position [OF low] range by (simp add: assms(4) recovery_after_def r'_def head_def)
      have "differ_at (D \<union> {(s, ob)}) p (hProject h1)" using differ_trans [OF assms(2) acted(1)] .
      moreover have "mhas (b_Recoveries (Budgets (hProject h1) s)) ob"
        using acted(1) assms(3) by (simp add: differ_at_def mhas_keys)
      moreover have "scopeActions es s (r'\<lparr>r_Cursor := head\<rparr>) = 0" using scopeActions_head [OF sorted] by (simp add: head_def)
      ultimately have fo: "differ_at {(s, ob)} (hProject h1) (hProject h') \<and> accounted es (hProject h') head (s, ob) \<and>
          r_Used (recovery_of (Budgets (hProject h') s) ob) = r_Used r' \<and> r_Cursor (recovery_of (Budgets (hProject h') s) ob) = head"
        using forced [OF f _ _ r1, of _ es] by simp
      have "new_calls es s r \<noteq> {}" "n = int (card (new_calls es s r))" using True by (auto simp: n_def scopeActions_calls)
      then have "charged es head s r (recovery_of (Budgets (hProject h') s) ob)" using fo cursor by (simp add: charged_def r'_def head_def)
      then show ?thesis using fo differ_same [OF acted(1)] by (simp add: head_def)
    next
      case False
      then have "forceBacktrackIfExhausted s ob r p head h = ([], h')" "scopeActions es s r = 0"
        using assms(1) cursor by (auto simp: accountRecovery_def head_def n_def Let_def scopeActions_def)
      moreover from this(2) have "new_calls es s r = {}" using fin by (simp add: scopeActions_calls)
      ultimately show ?thesis
        using forced [of s ob r p head h h' D "r_Cursor r" es] assms cursor by (simp add: head_def charged_def)
    qed
  qed
qed

section \<open>Accounting a projection\<close>

definition counts :: "JournalEntry list \<Rightarrow> projection \<Rightarrow> projection \<Rightarrow> int \<Rightarrow> string \<times> string \<Rightarrow> bool" where
  "counts es p q head = (\<lambda>(s, ob). let r = recovery_of (Budgets p s) ob in
     r_Open r \<and> \<not> r_Unreconciled r \<longrightarrow> charged es head s r (recovery_of (Budgets q s) ob))"

lemma differ_counts: "differ_at D q u \<Longrightarrow> x \<notin> D \<Longrightarrow> counts es p u head x = counts es p q head x"
  by (cases x) (simp add: counts_def differ_at_def Let_def)

lemma account_each_ok:
  assumes "account_each es p (journal_head es) xs h = ([], h')" "distinct xs" "differ_at D p (hProject h)"
    and "set xs \<inter> D = {}" "\<And>s ob. (s, ob) \<in> set xs \<Longrightarrow> mhas (b_Recoveries (Budgets p s)) ob"
    and sorted: "sorted (map je_Seq es)" and range: "int64 (journal_head es)"
  shows "differ_at (set xs) (hProject h) (hProject h') \<and> list_all (accounted es (hProject h') (journal_head es)) xs \<and>
    list_all (counts es p (hProject h') (journal_head es)) xs"
  using assms(1-5)
proof (induction xs arbitrary: D h)
  case (Cons x xs)
  define head where "head = journal_head es"
  obtain s ob where x: "x = (s, ob)" by (cases x)
  define r where "r = recovery_of (Budgets p s) ob"
  have r: "recovery_of (Budgets (hProject h) s) ob = r"
    using Cons.prems(3,4) by (simp add: differ_at_def x r_def)
  have has: "mhas (b_Recoveries (Budgets (hProject h) s)) ob"
    using Cons.prems(3,5) by (simp add: differ_at_def x mhas_keys)
  obtain h1 where h1: "differ_at {x} (hProject h) (hProject h1)" "accounted es (hProject h1) head x"
    "account_each es p head xs h1 = ([], h')" "counts es p (hProject h1) head x"
  proof (cases "\<not> r_Open r \<or> r_Unreconciled r")
    case True
    then have "accounted es (hProject h) head x" by (auto simp: accounted_def x r Let_def)
    then show ?thesis using that [of h] True Cons.prems(1) by (auto simp: x r_def head_def counts_def Let_def)
  next
    case False
    obtain h1 where "accountRecovery es p head s ob r h = ([], h1)" "account_each es p head xs h1 = ([], h')"
      using Cons.prems(1) False by (auto simp: x r_def head_def Let_def split: prod.splits if_splits)
    then show ?thesis
      using that [of h1] accountRecovery_ok [OF _ Cons.prems(3) has r sorted range]
      by (simp add: x head_def counts_def Let_def r_def [symmetric])
  qed
  have "differ_at (D \<union> {x}) p (hProject h1)" using differ_trans Cons.prems(3) h1(1) by blast
  then have rest: "differ_at (set xs) (hProject h1) (hProject h') \<and> list_all (accounted es (hProject h') head) xs \<and>
      list_all (counts es p (hProject h') head) xs"
    using Cons.IH [of h1 "D \<union> {x}"] Cons.prems h1(3) by (auto simp: head_def)
  moreover have "x \<notin> set xs" using Cons.prems(2) by simp
  ultimately have "accounted es (hProject h') head x" "counts es p (hProject h') head x"
    using h1(2,4) differ_accounted differ_counts by blast+
  then show ?case using differ_trans [OF h1(1), of "set xs" "hProject h'"] rest by (simp add: head_def)
qed simp

lemma account_each_again:
  "list_all (accounted es p head) xs \<Longrightarrow> account_each es p head xs h = ([], h)"
proof (induction xs)
  case (Cons x xs)
  obtain s ob where x: "x = (s, ob)" by (cases x)
  define r where "r = recovery_of (Budgets p s) ob"
  have "accountRecovery es p head s ob r h = ([], h)" if "r_Open r" "\<not> r_Unreconciled r"
    using Cons.prems that
    by (auto simp: x accounted_def r_def [symmetric] Let_def accountRecovery_def forceBacktrackIfExhausted_def)
  then show ?case using Cons by (auto simp: x r_def [symmetric] Let_def)
qed simp

lemma account_pairs_keys: "(s, ob) \<in> set (account_pairs p) \<Longrightarrow> mhas (b_Recoveries (Budgets p s)) ob"
  by (auto simp: account_pairs_def mhas_keys)

lemma account_pairs_all: "mhas (b_Recoveries (Budgets p s)) ob \<Longrightarrow> (s, ob) \<in> set (account_pairs p)"
proof -
  assume a: "mhas (b_Recoveries (Budgets p s)) ob"
  then have "mhas (p_Sessions p) s"
    by (cases "map_of (p_Sessions p) s") (auto simp: Budgets_def mget_def zero_budgets_def mhas_def)
  then show ?thesis using a by (auto simp: account_pairs_def mhas_keys)
qed

lemma distinct_pairs:
  "distinct ks \<Longrightarrow> (\<And>k. distinct (f k)) \<Longrightarrow> distinct (concat (map (\<lambda>k. map (Pair k) (f k)) ks))"
  by (induction ks) (auto simp: distinct_map inj_on_def)

lemma distinct_account_pairs: "wf_sessions p \<Longrightarrow> distinct (account_pairs p)"
  unfolding account_pairs_def by (intro distinct_pairs) (auto simp: wf_sessions_def distinct_sorted_keys)

text \<open>C29: Accounting counts every tool call once and leaves no open recovery over budget. When \<open>Account\<close> succeeds
  on a journal numbered in order whose last position fits 64 bits, then for every session and objective: a recovery that was open, with its
  consumption established, has consumed as many more actions as there are distinct calls of its session on
  units of its scope past its cursor, on Go's wrapping integers, and its cursor stands at the end of the
  journal if there were any; or, if the journal ends before the cursor, nothing was consumed and the
  consumption is no longer established. A recovery that is open and established afterwards has actions left,
  and has either attempts left or a unit of its scope still in flight. Accounting the same journal again
  records nothing.\<close>

theorem accounting_settles:
  assumes "Account entries h = ([], h')" "sorted (map je_Seq entries)" "int64 (journal_head entries)"
    and "r = recovery_of (Budgets (hProject h) session) objective" "r' = recovery_of (Budgets (hProject h') session) objective"
  shows "Account entries h' = ([], h') \<and>
    (r_Open r \<and> \<not> r_Unreconciled r \<longrightarrow> charged entries (journal_head entries) session r r') \<and>
    (r_Open r' \<and> \<not> r_Unreconciled r' \<longrightarrow>
      r_Used r' < wrap_int (r_Actions r' + allowance (Budgets (hProject h') session) (AllowanceKey BoundRecoveryActions objective)) \<and>
      (attempted r' < wrap_int (r_Attempts r' + allowance (Budgets (hProject h') session) (AllowanceKey BoundRecoveryAttempts objective)) \<or>
       inFlightScope (hProject h') session (r_Scope r')))"
proof -
  define pairs where "pairs = account_pairs (hProject h)"
  have run: "account_each entries (hProject h) (journal_head entries) pairs h = ([], h')"
    using assms(1) by (simp add: Account_def pairs_def Let_def)
  note all = account_each_ok [OF run _ differ_refl [of "{}"] _ _ assms(2,3)]
  have settled: "differ_at (set pairs) (hProject h) (hProject h')"
    "list_all (accounted entries (hProject h') (journal_head entries)) pairs"
    "list_all (counts entries (hProject h) (hProject h') (journal_head entries)) pairs"
    using all distinct_account_pairs [OF wf_sessions_hProject] account_pairs_keys by (auto simp: pairs_def)
  have pairs: "account_pairs (hProject h') = pairs" using differ_pairs [OF settled(1)] by (simp add: pairs_def)
  have open_pair: "(session, objective) \<in> set (account_pairs p)" if "r_Open (recovery_of (Budgets p session) objective)" for p
    using that by (intro account_pairs_all) (auto simp: recovery_of_def mget_def mhas_def zero_recovery_def split: option.splits)
  have "charged entries (journal_head entries) session r r'" if "r_Open r" "\<not> r_Unreconciled r"
    using settled(3) open_pair [of "hProject h"] that assms(4,5) by (auto simp: list_all_iff counts_def pairs_def Let_def)
  moreover have "spent_bound (hProject h') session objective r' = None" if o': "r_Open r'" "\<not> r_Unreconciled r'"
    using settled(2) open_pair [of "hProject h'"] pairs that assms(5) by (auto simp: list_all_iff accounted_def Let_def)
  moreover have "Account entries h' = ([], h')"
    using account_each_again [OF settled(2)] pairs by (simp add: Account_def Let_def)
  ultimately show ?thesis by (auto simp: spent_bound_def Let_def split: if_splits)
qed

definition recovery_a :: recovery_declaration where
  "recovery_a = \<lparr>rd_Objective = ''o'', rd_Result = ''green'', rd_Scope = [''a''], rd_Actions = 3, rd_Attempts = 1\<rparr>"

definition recovering_store :: hist where
  "recovering_store = snd (DeclareRecovery admission_policy_yaml [] ''recover'' ''root'' recovery_a new_store)"

definition call_entry :: "nat \<Rightarrow> string \<Rightarrow> JournalEntry" where
  "call_entry n call = (entry_for ''k'' ''f'' OpPatch)\<lparr>je_Seq := n, je_SessionID := ''root'', je_WorkUnitID := ''a'', je_CallID := call\<rparr>"

definition accounted_store :: hist where
  "accounted_store = snd (Account [call_entry 0 ''c1'', call_entry 1 ''c1'', call_entry 2 ''c2''] recovering_store)"

lemma accounted_run: "Account [call_entry 0 ''c1'', call_entry 1 ''c1'', call_entry 2 ''c2''] recovering_store = ([], accounted_store)"
  by code_simp

lemma accounted_recovery:
  "r_Open (recovery_of (Budgets (hProject recovering_store) ''root'') ''o'')"
  "\<not> r_Unreconciled (recovery_of (Budgets (hProject recovering_store) ''root'') ''o'')"
  "r_Used (recovery_of (Budgets (hProject recovering_store) ''root'') ''o'') = 0"
  "r_Cursor (recovery_of (Budgets (hProject recovering_store) ''root'') ''o'') = - 1"
  "r_Scope (recovery_of (Budgets (hProject recovering_store) ''root'') ''o'') = [''a'']"
  by code_simp+

lemma accounted_after:
  "r_Open (recovery_of (Budgets (hProject accounted_store) ''root'') ''o'')"
  "\<not> r_Unreconciled (recovery_of (Budgets (hProject accounted_store) ''root'') ''o'')"
  by code_simp+

text \<open>Three rows of two calls.\<close>

theorem accounting_settles_witness:
  "Account [call_entry 0 ''c1'', call_entry 1 ''c1'', call_entry 2 ''c2''] accounted_store = ([], accounted_store) \<and>
   r_Used (recovery_of (Budgets (hProject accounted_store) ''root'') ''o'') = 2"
proof -
  define es where "es = [call_entry 0 ''c1'', call_entry 1 ''c1'', call_entry 2 ''c2'']"
  define r where "r = recovery_of (Budgets (hProject recovering_store) ''root'') ''o''"
  define r' where "r' = recovery_of (Budgets (hProject accounted_store) ''root'') ''o''"
  have j: "sorted (map je_Seq es)" "int64 (journal_head es)" "journal_head es = 2" unfolding es_def by code_simp+
  have "{e \<in> set es. - 1 < int (je_Seq e) \<and> je_CallID e \<noteq> [] \<and> je_SessionID e = ''root'' \<and> je_WorkUnitID e \<in> set [''a'']} = set es"
    by (auto simp: es_def call_entry_def)
  then have "new_calls es ''root'' r = je_CallID ` set es" unfolding new_calls_def r_def accounted_recovery by simp
  also have "\<dots> = {''c1'', ''c2''}" by (simp add: es_def call_entry_def)
  finally have calls: "new_calls es ''root'' r = {''c1'', ''c2''}" .
  have "Account es recovering_store = ([], accounted_store)" unfolding es_def by (rule accounted_run)
  from accounting_settles [OF this j(1,2) r_def r'_def] accounted_recovery(1-4) accounted_after
  have "Account es accounted_store = ([], accounted_store) \<and> r_Used r' = wrap_int 2"
    unfolding r_def [symmetric] r'_def [symmetric] charged_def calls j(3) by simp
  moreover have "wrap_int 2 = 2" by code_simp
  ultimately show ?thesis by (simp add: es_def r'_def)
qed

end
