(* ===== verification/Disp_Interlocutor.thy ===== *)
theory Disp_Interlocutor
  imports Disp_Laws Model_Role
begin

text \<open>
  The turn of the user-facing specialist (\<open>interlocutor.go\<close>), the restoration of an unavailable seat
  (\<open>seat.go\<close>) and the policy values substituted into prompts (\<open>placeholders.go\<close>), of package
  \<open>takt/dispatch\<close>. The catalog of the crew is the argument \<open>crew\<close>: the role of a member, \<open>None\<close> for
  a name that is none or a catalog that does not load. What the memory store answers is an argument too.
\<close>

datatype turn_refusal = NotInterlocutorRole | InterfaceHeld | NotCurrentHolder | OriginInvalid
  | NoSwitchActive | OtherHolder | NeverLent | NotInIndex | PolicyUnavailable | MemoryFailed
  | NotCrew | OrchestratorSeat | SeatUnnamed | SubstituteTooEarly | UnprovenModel

definition CauseInterlocutorRole :: string where "CauseInterlocutorRole = ''interlocutor/role-ineligible''"
definition CauseInterlocutorHeld :: string where "CauseInterlocutorHeld = ''interlocutor/already-held''"
definition CauseInterlocutorOrigin :: string where "CauseInterlocutorOrigin = ''interlocutor/origin-invalid''"
definition CauseInterlocutorHolder :: string where "CauseInterlocutorHolder = ''interlocutor/not-current-holder''"

section \<open>The interface\<close>

definition holder :: "hist \<Rightarrow> string \<Rightarrow> string" where
  "holder h root = b_InterlocutorHolder (Budgets (hProject h) root)"

definition turn_entry :: "author \<Rightarrow> kind \<Rightarrow> string \<Rightarrow> string \<Rightarrow> string \<Rightarrow> entry" where
  "turn_entry a k journalRef root child = zero_entry\<lparr>e_Author := a, e_Kind := k, e_SessionID := root,
     e_WorkUnitID := child, e_AttemptID := FirstAttempt, e_Cause := CauseUncaptured, e_JournalRef := journalRef\<rparr>"

definition denied :: "string \<Rightarrow> entry \<Rightarrow> entry" where
  "denied cause e = e\<lparr>e_Author := AuthorHarness, e_Kind := KindDenied, e_Cause := cause\<rparr>"

definition Switch ::
    "(string \<Rightarrow> string option) \<Rightarrow> string \<Rightarrow> string \<Rightarrow> string \<Rightarrow> string \<Rightarrow> string \<Rightarrow> hist \<Rightarrow>
     turn_refusal errs \<times> hist" where
  "Switch crew journalRef root childSession targetAgent expectedArtifact h =
    (let entry = (turn_entry AuthorOrchestrator KindInterlocutorSwitched journalRef root childSession)
           \<lparr>e_Agent := targetAgent, e_Artifact := expectedArtifact\<rparr>
     in if (case crew targetAgent of None \<Rightarrow> True | Some role \<Rightarrow> \<not> HoldsInterface role)
        then append_join (denied CauseInterlocutorRole entry) [Refused NotInterlocutorRole] h
        else if holder h root \<noteq> []
        then append_join (denied CauseInterlocutorHeld entry) [Refused InterfaceHeld] h
        else append_join entry [] h)"

definition Handoff :: "string \<Rightarrow> string \<Rightarrow> string \<Rightarrow> string \<Rightarrow> hist \<Rightarrow> turn_refusal errs \<times> hist" where
  "Handoff journalRef root callerSession result h =
    (let entry = (turn_entry AuthorOrchestrator KindInterlocutorHandoff journalRef root callerSession)\<lparr>e_Result := result\<rparr>
     in if callerSession \<noteq> holder h root
        then append_join (denied CauseInterlocutorHolder entry) [Refused NotCurrentHolder] h
        else append_join entry [] h)"

definition Abort :: "string \<Rightarrow> string \<Rightarrow> string \<Rightarrow> string \<Rightarrow> hist \<Rightarrow> turn_refusal errs \<times> hist" where
  "Abort journalRef root childSession origin h =
    (let child = (if childSession = [] then holder h root else childSession);
         entry = (turn_entry AuthorHarness KindInterlocutorAborted journalRef root child)\<lparr>e_Result := ''Aborted''\<rparr>
     in if origin \<noteq> ''user'' \<and> origin \<noteq> ''harness''
        then append_join (denied CauseInterlocutorOrigin entry) [Refused OriginInvalid] h
        else if holder h root = []
        then append_join (denied CauseInterlocutorHolder entry) [Refused NoSwitchActive] h
        else if holder h root \<noteq> child
        then append_join (denied CauseInterlocutorHolder entry) [Refused OtherHolder] h
        else append_join entry [] h)"

definition ExpectedArtifact :: "hist \<Rightarrow> string \<Rightarrow> string" where
  "ExpectedArtifact h root = b_InterlocutorArtifact (Budgets (hProject h) root)"

definition CurrentAgent :: "hist \<Rightarrow> string \<Rightarrow> string" where
  "CurrentAgent h root = b_InterlocutorAgent (Budgets (hProject h) root)"

definition CurrentHolder :: "hist \<Rightarrow> string \<Rightarrow> string" where
  "CurrentHolder h root = holder h root"

section \<open>Envelopes\<close>

record memory_index =
  mi_Entries :: "int list"
  mi_NextAfter :: int

record envelope =
  en_Result :: string
  en_AdditionalContext :: string
  en_ExtraArtifacts :: "string list"
  en_Memory :: memory_index

definition no_envelope :: envelope where
  "no_envelope = \<lparr>en_Result = [], en_AdditionalContext = [], en_ExtraArtifacts = [],
     en_Memory = \<lparr>mi_Entries = [], mi_NextAfter = 0\<rparr>\<rparr>"

text \<open>
  \<open>ids\<close> is what \<open>memory.EntryIDsByCaller\<close> answers. \<open>after_index\<close> drops up to and with the first
  occurrence of the cursor; \<open>None\<close> is a cursor the index does not hold.
\<close>

fun after_index :: "int \<Rightarrow> int list \<Rightarrow> int list option" where
  "after_index a [] = None"
| "after_index a (i # rest) = (if i = a then Some rest else after_index a rest)"

definition lentIndex :: "admission_policy \<Rightarrow> int list option \<Rightarrow> int \<Rightarrow> turn_refusal errs + memory_index" where
  "lentIndex pol ids cursor =
    (case ids of None \<Rightarrow> Inl [Refused MemoryFailed]
     | Some ids \<Rightarrow>
         (case (if cursor = 0 then Some ids else after_index cursor ids) of
            None \<Rightarrow> Inl [Refused NotInIndex]
          | Some rest \<Rightarrow>
              if int (length rest) > ap_MemoryPage pol
              then let page = take (nat (ap_MemoryPage pol)) rest in Inr \<lparr>mi_Entries = page, mi_NextAfter = last page\<rparr>
              else Inr \<lparr>mi_Entries = rest, mi_NextAfter = 0\<rparr>))"

definition LentEntries ::
    "admission_policy \<Rightarrow> int list option \<Rightarrow> hist \<Rightarrow> string \<Rightarrow> string \<Rightarrow> int \<Rightarrow> turn_refusal errs + memory_index" where
  "LentEntries pol ids h root child cursor =
    (if \<exists>e \<in> set (h_entries h). e_Kind e = KindInterlocutorSwitched \<and> e_SessionID e = root \<and> e_WorkUnitID e = child
     then lentIndex pol ids cursor else Inl [Refused NeverLent])"

text \<open>\<open>valid_results\<close> is whether \<open>memory.ValidateSessionResultIDs\<close> accepts the declared results.\<close>

definition BuildHandoffEnvelope ::
    "admission_policy \<Rightarrow> bool \<Rightarrow> int list option \<Rightarrow> string \<Rightarrow> string \<Rightarrow> string \<Rightarrow> string \<Rightarrow> string \<Rightarrow>
     string list \<Rightarrow> int list \<Rightarrow> hist \<Rightarrow> (turn_refusal errs + envelope) \<times> hist" where
  "BuildHandoffEnvelope pol valid_results ids journalRef root callerSession result context extra resultIDs h =
    (if (result = ''Standard'' \<or> resultIDs \<noteq> []) \<and> \<not> valid_results then (Inl [Refused MemoryFailed], h)
     else if callerSession \<noteq> holder h root then
       (case Handoff journalRef root callerSession result h of
          (err, h') \<Rightarrow> (if err = [] then Inr no_envelope else Inl err, h'))
     else case lentIndex pol ids 0 of
            Inl e \<Rightarrow> (Inl e, h)
          | Inr index \<Rightarrow>
              (case Handoff journalRef root callerSession result h of
                 (err, h') \<Rightarrow> if err \<noteq> [] then (Inl err, h')
                   else (Inr \<lparr>en_Result = result, en_AdditionalContext = context, en_ExtraArtifacts = extra,
                           en_Memory = index\<rparr>, h')))"

definition BuildAbortEnvelope ::
    "admission_policy \<Rightarrow> (string \<Rightarrow> int list option) \<Rightarrow> string \<Rightarrow> string \<Rightarrow> string \<Rightarrow> string \<Rightarrow> string \<Rightarrow> hist \<Rightarrow>
     (turn_refusal errs + envelope \<times> string) \<times> hist" where
  "BuildAbortEnvelope pol ids journalRef root childSession why origin h =
    (let aborted = (if childSession \<noteq> [] then childSession else holder h root)
     in case (if aborted = [] then Inr (en_Memory no_envelope) else lentIndex pol (ids aborted) 0) of
          Inl e \<Rightarrow> (Inl e, h)
        | Inr index \<Rightarrow>
            (case Abort journalRef root childSession origin h of
               (err, h') \<Rightarrow> if err \<noteq> [] then (Inl err, h')
                 else (Inr (\<lparr>en_Result = ''Aborted'', en_AdditionalContext = why, en_ExtraArtifacts = [],
                         en_Memory = index\<rparr>, aborted), h')))"

section \<open>Seats\<close>

record seat =
  se_Agent :: string
  se_Model :: string
  se_Configured :: string
  se_Reason :: string
  se_Substitute :: bool
  se_UserConfirmed :: bool

definition Restores :: "seat \<Rightarrow> bool" where
  "Restores s \<longleftrightarrow> se_Substitute s \<or> (se_Model s \<noteq> [] \<and> se_Model s \<noteq> se_Configured s)"

text \<open>The variables of the loop: the unit and attempt of the latest reassignment, whether it was seen
  launched, and whether it failed after that.\<close>

definition reassignment_step ::
    "string \<Rightarrow> string \<Rightarrow> entry \<Rightarrow> string \<times> string \<times> bool \<times> bool \<Rightarrow> string \<times> string \<times> bool \<times> bool" where
  "reassignment_step root agent e st =
    (case st of (u, attempt, launched, failed) \<Rightarrow>
       let latest = (u \<noteq> [] \<and> e_WorkUnitID e = u \<and> e_AttemptID e = attempt)
       in if e_SessionID e \<noteq> root then st
          else if e_Kind e = KindSeatRestored \<and> e_Agent e = agent \<and> \<not> e_Substitute e
          then (e_WorkUnitID e, e_AttemptID e, False, False)
          else if e_Kind e = KindLaunched \<and> latest then (u, attempt, True, failed)
          else if e_Kind e = KindTerminated \<and> latest
          then (u, attempt, launched, launched \<and> (e_Outcome e = OutcomeFailed \<or> e_Outcome e = OutcomeInterrupted))
          else st)"

definition reassignmentFailed :: "entry list \<Rightarrow> string \<Rightarrow> string \<Rightarrow> bool" where
  "reassignmentFailed entries root agent =
    (case fold (reassignment_step root agent) entries ([], [], False, False) of (_, _, _, failed) \<Rightarrow> failed)"

definition proven :: "projection \<Rightarrow> string \<Rightarrow> string \<Rightarrow> bool" where
  "proven p root modelID = list_ex (\<lambda>(_, d). x_Root d = root \<and> x_Model d = modelID \<and>
     unit_known p root (x_Unit d) \<and> u_AttemptID (unit_at p root (x_Unit d)) = x_Attempt d \<and>
     u_Outcome (unit_at p root (x_Unit d)) = OutcomeCompleted) (p_Executions p)"

definition ValidateSeat :: "(string \<Rightarrow> string option) \<Rightarrow> hist \<Rightarrow> string \<Rightarrow> seat \<Rightarrow> turn_refusal errs" where
  "ValidateSeat crew h root s =
    (if \<not> Restores s then []
     else case crew (se_Agent s) of None \<Rightarrow> [Refused NotCrew]
        | Some role \<Rightarrow>
            if role = RoleOrchestrator then [Refused OrchestratorSeat]
            else if blank (se_Reason s) \<or> se_Model s = [] then [Refused SeatUnnamed]
            else if se_Substitute s \<and> \<not> reassignmentFailed (h_entries h) root (se_Agent s) then [Refused SubstituteTooEarly]
            else if \<not> se_UserConfirmed s \<and> \<not> proven (hProject h) root (se_Model s) then [Refused UnprovenModel]
            else [])"

definition SeatEntry :: "string \<Rightarrow> string \<Rightarrow> string \<Rightarrow> seat \<Rightarrow> entry" where
  "SeatEntry root u attempt s = zero_entry\<lparr>e_Author := AuthorOrchestrator, e_Kind := KindSeatRestored,
     e_SessionID := root, e_WorkUnitID := u, e_AttemptID := attempt, e_Agent := se_Agent s,
     e_Model := se_Model s, e_Reason := se_Reason s, e_Substitute := se_Substitute s, e_Cause := CauseNone\<rparr>"

section \<open>Policy values in prompts\<close>

text \<open>
  \<open>bytes.ReplaceAll\<close> for a nonempty pattern, and \<open>bytes.Contains\<close>. The values are replaced in the
  order they are written in; no value can complete another's placeholder, so the order Go takes them
  in makes no difference.
\<close>

function replace_all :: "string \<Rightarrow> string \<Rightarrow> string \<Rightarrow> string" where
  "replace_all old new s =
    (if s = [] \<or> old = [] then s
     else if has_prefix s old then new @ replace_all old new (drop (length old) s)
     else hd s # replace_all old new (tl s))"
  by pat_completeness auto
termination by (relation "measure (\<lambda>(old, new, s). length s)") auto

declare replace_all.simps [simp del]

fun contains :: "string \<Rightarrow> string \<Rightarrow> bool" where
  "contains [] p = (p = [])"
| "contains (c # cs) p = (has_prefix (c # cs) p \<or> contains cs p)"

definition policyPlaceholderPrefix :: string where "policyPlaceholderPrefix = ''{{policy.''"

definition policy_values :: "admission_policy \<Rightarrow> (string \<times> int) list" where
  "policy_values p = [(''concurrent_specialists'', ap_Specialists p), (''unplanned_units'', ap_UnplannedUnits p),
     (''contests'', ap_Contests p), (''recovery_failures'', ap_RecoveryFailures p),
     (''max_file_lines'', ap_MaxFileLines p), (''recovery_max_actions'', ap_MaxActions p),
     (''recovery_max_attempts'', ap_MaxAttempts p)]"

definition ResolvePolicyPlaceholders :: "admission_policy \<Rightarrow> string \<Rightarrow> string option" where
  "ResolvePolicyPlaceholders p content =
    (if \<not> contains content policyPlaceholderPrefix then Some content
     else let resolved = fold (\<lambda>(name, value) c.
                replace_all (policyPlaceholderPrefix @ name @ ''}}'') (Itoa value) c) (policy_values p) content
          in if contains resolved policyPlaceholderPrefix then None else Some resolved)"

end
