(* ===== verification/Disp_Restore.thy ===== *)
theory Disp_Restore
  imports Disp_Recovery_Props Vfs_Stage_Props Vfs_Example
begin

text \<open>
  Restoration of an abandoned recovery (\<open>Restore\<close> of \<open>takt/dispatch/recovery.go\<close>), which acts on the
  execution history and on the virtual file system, and what it leaves of both.
\<close>

section \<open>The operation\<close>

text \<open>\<open>fresh n\<close> is the random part of the identity of the \<open>n\<close>-th rollback, \<open>None\<close> when none can be read.\<close>

definition restoreCall :: "(nat \<Rightarrow> string option) \<Rightarrow> nat \<Rightarrow> string \<Rightarrow> string option" where
  "restoreCall fresh n objective =
    map_option (\<lambda>r. ''recovery-restore/'' @ objective @ ''/'' @ r) (fresh n)"

definition restorable :: "string \<Rightarrow> string list \<Rightarrow> OwnershipClaim \<Rightarrow> bool" where
  "restorable session scope c \<longleftrightarrow>
     \<not> (oc_AuthorKey c \<noteq> [] \<or> oc_RootSessionID c \<noteq> session \<or> oc_WorkUnitID c \<notin> set scope)"

definition release_claim :: "agent_id \<Rightarrow> string list \<Rightarrow> fs \<Rightarrow> (recovery_refusal errs + string list) \<times> fs" where
  "release_claim key restored s =
    (case RevokeOwnership key s of
       (Inl e, s1) \<Rightarrow> (Inl [Refused (ReleaseFailed e)], s1)
     | (Inr _, s1) \<Rightarrow> (Inr restored, s1))"

definition restore_claim ::
    "env \<Rightarrow> (nat \<Rightarrow> string option) \<Rightarrow> nat \<Rightarrow> string \<Rightarrow> OwnershipClaim \<Rightarrow> string list \<Rightarrow> fs \<Rightarrow>
     (recovery_refusal errs + string list) \<times> fs" where
  "restore_claim E fresh n objective c restored s =
    (if \<not> oc_Staged c then release_claim (oc_Key c) restored s
     else case restoreCall fresh n objective of
       None \<Rightarrow> (Inl [Refused NoEntropy], s)
     | Some call \<Rightarrow>
         (case Apply E \<lparr>op_Key = oc_Key c, op_CallID = call,
                 op_ExpectedRevision = sv_Revision (InspectDelta E s (oc_Key c)), op_Action = OpRollback,
                 op_Path = [], op_Content = None\<rparr> s of
            ((result, e), s1) \<Rightarrow>
              if e \<noteq> [] then (Inl [Refused (RollbackFailed e)], s1)
              else release_claim (oc_Key c) (restored @ [oc_Key c @ ''@'' @ show_nat (unat (or_Revision result))]) s1))"

fun restore_claims ::
    "env \<Rightarrow> (nat \<Rightarrow> string option) \<Rightarrow> nat \<Rightarrow> string \<Rightarrow> string \<Rightarrow> string list \<Rightarrow> OwnershipClaim list \<Rightarrow>
     string list \<Rightarrow> fs \<Rightarrow> (recovery_refusal errs + string list) \<times> fs" where
  "restore_claims E fresh n session objective scope [] restored s = (Inr restored, s)"
| "restore_claims E fresh n session objective scope (c # cs) restored s =
    (if \<not> restorable session scope c then restore_claims E fresh n session objective scope cs restored s
     else case restore_claim E fresh n objective c restored s of
       (Inl e, s1) \<Rightarrow> (Inl e, s1)
     | (Inr restored', s1) \<Rightarrow> restore_claims E fresh (Suc n) session objective scope cs restored' s1)"

definition restored_entry :: "string \<Rightarrow> string \<Rightarrow> string \<Rightarrow> recovery \<Rightarrow> string list \<Rightarrow> entry" where
  "restored_entry journalRef session objective r restored = zero_entry\<lparr>e_Author := AuthorHarness,
     e_Kind := KindRestored, e_SessionID := session, e_WorkUnitID := r_Unit r, e_AttemptID := FirstAttempt,
     e_Cause := CauseUncaptured, e_JournalRef := journalRef, e_PolicyRef := AdmissionPolicyRef,
     e_Objective := objective, e_Scope := r_Scope r, e_Evidence := ''restored/'' @ join_with '','' restored\<rparr>"

definition Restore ::
    "env \<Rightarrow> (nat \<Rightarrow> string option) \<Rightarrow> string \<Rightarrow> string \<Rightarrow> string \<Rightarrow> hist \<Rightarrow> fs \<Rightarrow>
     recovery_refusal errs \<times> hist \<times> fs" where
  "Restore E fresh journalRef session objective h s =
    (let p = hProject h; r = recovery_of (Budgets p session) objective
     in if r_Open r then ([Refused StillOpen], h, s)
        else if r_Restored r then ([Refused AlreadyRestored], h, s)
        else if \<not> r_Backtracked r then ([Refused NeverAbandoned], h, s)
        else if inFlightScope p session (r_Scope r) then ([Refused AwaitsReturn], h, s)
        else case restore_claims E fresh 0 session objective (r_Scope r) (OwnershipClaims E s session) [] s of
            (Inl e, s1) \<Rightarrow> (e, h, s1)
          | (Inr restored, s1) \<Rightarrow>
              (case hist_errs (Append (restored_entry journalRef session objective r restored) h) of
                 (e, h1) \<Rightarrow> (e, h1, s1)))"

section \<open>What a release and a rollback leave\<close>

definition freed :: "agent_id \<Rightarrow> fs \<Rightarrow> (string, agent_id) gomap" where
  "freed key s = mdel_func (\<lambda>_ owner. owner = key) (s_owners s)"

definition retired :: "Identity \<Rightarrow> Identity" where
  "retired i = i\<lparr>id_Prelaunch := False, id_HostSession := []\<rparr>"

lemma finished_bindings [simp]: "s_bindings (snd (finishLocked e s)) = s_bindings s"
proof -
  have "s_bindings (snd (persistLocked s)) = s_bindings s" by (rule persist_cases [of s]) simp_all
  then show ?thesis by (cases "persistLocked s") (auto simp: finishLocked_def)
qed

lemma revoke_ok:
  assumes "RevokeOwnership key s = (Inr x, t)"
  shows "s_owners t = freed key s \<and> \<not> stagedLocked s key \<and> mhas (s_bindings s) key \<and>
    s_bindings t = mput key (retired (binding_of (s_bindings s) key)) (s_bindings s) \<and> s_staged t = s_staged s"
proof -
  obtain w where w: "revokeLocked key s = (Inr x, w)" "t = snd (finishLocked [] w)"
    using assms finishing_Inr by (fastforce simp: RevokeOwnership_def command_def guarded_def xbind_def vstep split: if_splits)
  then show ?thesis
    by (auto simp: revokeLocked_def releaseOwnershipLocked_def freed_def retired_def mhas_def mget_def
        split: option.splits if_splits)
qed

lemma entries_appended_fields [simp]:
  "s_owners (fold (\<lambda>p. appendJournalLocked (f p)) ps s) = s_owners s"
  "s_bindings (fold (\<lambda>p. appendJournalLocked (f p)) ps s) = s_bindings s"
  "s_staged (fold (\<lambda>p. appendJournalLocked (f p)) ps s) = s_staged s"
  by (induction ps arbitrary: s) (simp_all add: appendJournalLocked_def)

lemma rollback_fields: "s_owners (rollbackLocked E key s) = freed key s" "s_bindings (rollbackLocked E key s) = s_bindings s"
  "\<not> stagedLocked (rollbackLocked E key s) key"
  "k \<noteq> key \<Longrightarrow> map_of (s_staged (rollbackLocked E key s)) k = map_of (s_staged s) k"
  by (auto simp: rollbackLocked_def releaseOwnershipLocked_def freed_def put_delta_def stagedLocked_def split: option.splits)

lemma admit_fields:
  assumes "admitLocked E op view chk s = (Inr i, w)"
  shows "s_owners w = s_owners s \<and> s_bindings w = s_bindings s \<and> s_staged w = s_staged s"
  using assms by (auto simp: admitLocked_def consumeCallLocked_def xbind_eq_Inr vstep split: if_splits)

lemma admit_error: "admitLocked E op view chk s = (Inl e, w) \<Longrightarrow> e \<noteq> []"
  by (auto simp: admitLocked_def consumeCallLocked_def xbind_def vstep split: if_splits sum.splits prod.splits option.splits)

lemma rollback_ok:
  assumes "Apply E op s = ((res, []), t)" "op_Action op = OpRollback"
  shows "s_owners t = freed (op_Key op) s \<and> s_bindings t = s_bindings s \<and> \<not> stagedLocked t (op_Key op) \<and>
    (\<forall>k. k \<noteq> op_Key op \<longrightarrow> map_of (s_staged t) k = map_of (s_staged s) k)"
proof -
  obtain r err w where body: "op_body E op (op_Key op) True s = ((r, err), w)"
    by (cases "op_body E op (op_Key op) True s") auto
  obtain z where z: "finishLocked err z = ([], t)" "s_owners z = s_owners w" "s_bindings z = s_bindings w" "s_staged z = s_staged w"
    using assms(1) body
    by (auto simp: Apply_def apply_op_def applyLocked_def correlateLocked_def appendJournalLocked_def Let_def
        split: if_splits prod.splits)
  have err: "err = []" and fin: "t = snd (finishLocked [] z)"
    using finish_extends [of err z] z(1) by auto
  obtain i v where "admitLocked E op (op_Key op) True s = (Inr i, v)" "dispatchLocked E op (op_Key op) i v = (Inr None, w)"
    using body assms(2) err admit_error [of E op "op_Key op" True s]
    by (auto simp: op_body_def dispatchLocked_def err_of_def xbind_def vstep split: prod.splits sum.splits if_splits)
  then have v: "s_owners v = s_owners s" "s_bindings v = s_bindings s" "s_staged v = s_staged s"
    and "w = rollbackLocked E (op_Key op) v"
    using admit_fields assms(2) by (auto simp: dispatchLocked_def xbind_eq_Inr vstep split: if_splits)
  then have "s_owners w = freed (op_Key op) s" "s_bindings w = s_bindings s" "\<not> stagedLocked w (op_Key op)"
    "\<forall>k. k \<noteq> op_Key op \<longrightarrow> map_of (s_staged w) k = map_of (s_staged s) k"
    by (simp_all add: rollback_fields, simp add: freed_def)
  then show ?thesis using fin z(2-4) by (auto simp: stagedLocked_def)
qed

section \<open>What a restoration leaves\<close>

text \<open>\<open>freed_of K s t\<close>: the bindings \<open>K\<close> are retired and hold nothing, and nothing else changed.\<close>

definition freed_of :: "agent_id set \<Rightarrow> fs \<Rightarrow> fs \<Rightarrow> bool" where
  "freed_of K s t \<longleftrightarrow> s_owners t = filter (\<lambda>x. snd x \<notin> K) (s_owners s) \<and>
     (wf_map (s_bindings s) \<longrightarrow> wf_map (s_bindings t)) \<and>
     (\<forall>k. mhas (s_bindings t) k = mhas (s_bindings s) k) \<and>
     (\<forall>k. bound t k = (if k \<in> K then retired (bound s k) else bound s k)) \<and>
     (\<forall>k \<in> K. mhas (s_bindings s) k \<and> \<not> stagedLocked t k) \<and>
     (\<forall>k. k \<notin> K \<longrightarrow> map_of (s_staged t) k = map_of (s_staged s) k)"

lemma freed_filter: "freed key s = filter (\<lambda>x. snd x \<noteq> key) (s_owners s)"
  by (simp add: freed_def mdel_func_def case_prod_unfold)

lemma freed_none: "freed_of {} s s"
  by (simp add: freed_of_def split_beta)

lemma freed_trans: "freed_of K s t \<Longrightarrow> freed_of L t u \<Longrightarrow> freed_of (K \<union> L) s u"
  by (auto simp: freed_of_def retired_def stagedLocked_def split_beta intro!: filter_cong)

lemma release_ok: "release_claim key restored s = (Inr out, t) \<Longrightarrow> freed_of {key} s t"
proof -
  assume "release_claim key restored s = (Inr out, t)"
  then have "RevokeOwnership key s = (Inr (), t)" by (auto simp: release_claim_def split: prod.splits sum.splits)
  from revoke_ok [OF this] show ?thesis
    by (auto simp: freed_of_def freed_filter stagedLocked_def split_beta)
qed

lemma restore_claim_ok:
  assumes "restore_claim E fresh n objective c restored s = (Inr out, t)"
  shows "freed_of {oc_Key c} s t"
proof (cases "oc_Staged c")
  case False
  then show ?thesis using assms release_ok by (simp add: restore_claim_def)
next
  case True
  then obtain call where call: "restoreCall fresh n objective = Some call"
    using assms by (auto simp: restore_claim_def split: option.splits)
  define op where "op = \<lparr>op_Key = oc_Key c, op_CallID = call,
      op_ExpectedRevision = sv_Revision (InspectDelta E s (oc_Key c)), op_Action = OpRollback,
      op_Path = [], op_Content = None\<rparr>"
  obtain res e w where a: "Apply E op s = ((res, e), w)" by (cases "Apply E op s") auto
  then obtain restored' where op: "op_Action op = OpRollback" "op_Key op = oc_Key c"
    "Apply E op s = ((res, []), w)" "release_claim (oc_Key c) restored' w = (Inr out, t)"
    using assms True call by (simp add: restore_claim_def op_def [symmetric] split: if_splits) (simp add: op_def)
  then have w: "s_owners w = freed (oc_Key c) s" "s_bindings w = s_bindings s"
    "k \<noteq> oc_Key c \<Longrightarrow> map_of (s_staged w) k = map_of (s_staged s) k" for k
    using rollback_ok [OF op(3,1)] by auto
  show ?thesis using release_ok [OF op(4)] w by (simp add: freed_of_def freed_filter split_beta)
qed

lemma restore_claims_ok:
  "restore_claims E fresh n session objective scope cs restored s = (Inr out, t) \<Longrightarrow>
    freed_of (oc_Key ` {c \<in> set cs. restorable session scope c}) s t"
proof (induction cs arbitrary: n restored s)
  case Nil
  then show ?case using freed_none by simp
next
  case (Cons c cs)
  show ?case
  proof (cases "restorable session scope c")
    case False
    then have "{x \<in> set (c # cs). restorable session scope x} = {x \<in> set cs. restorable session scope x}" by auto
    then show ?thesis using Cons False by simp
  next
    case True
    obtain mid w where w: "restore_claim E fresh n objective c restored s = (Inr mid, w)"
      "restore_claims E fresh (Suc n) session objective scope cs mid w = (Inr out, t)"
      using Cons.prems True by (auto split: prod.splits sum.splits)
    have "freed_of ({oc_Key c} \<union> oc_Key ` {c \<in> set cs. restorable session scope c}) s t"
      using freed_trans [OF restore_claim_ok [OF w(1)] Cons.IH [OF w(2)]] .
    moreover have "oc_Key ` {x \<in> set (c # cs). restorable session scope x} =
        {oc_Key c} \<union> oc_Key ` {c \<in> set cs. restorable session scope c}" using True by auto
    ultimately show ?thesis by simp
  qed
qed

lemma restore_claims_failed: "restore_claims E fresh n session objective scope cs restored s = (Inl e, t) \<Longrightarrow> e \<noteq> []"
proof (induction cs arbitrary: n restored s)
  case (Cons c cs)
  have "e \<noteq> []" if "restore_claim E fresh n objective c restored s = (Inl e, t)"
    using that by (auto simp: restore_claim_def release_claim_def split: option.splits prod.splits sum.splits if_splits)
  then show ?case using Cons by (auto split: if_splits prod.splits sum.splits)
qed simp

lemma no_claim_left:
  assumes "freed_of (oc_Key ` {c \<in> set (OwnershipClaims E s session). restorable session scope c}) s t"
    and "wf_map (s_bindings s)"
  shows "filter (restorable session scope) (OwnershipClaims E t session) = []"
proof -
  define K where "K = oc_Key ` {c \<in> set (OwnershipClaims E s session). restorable session scope c}"
  have free: "freed_of K s t" using assms by (simp add: K_def)
  have claims: "set (map oc_Key (OwnershipClaims E v session)) = set (claim_keys v)" for v
    by (simp add: OwnershipClaims_def Let_def comp_def)
  have test: "restorable session scope c \<longleftrightarrow> id_GateAuthorKey (bound v k) = [] \<and> id_SessionID (bound v k) = session \<and>
      id_WorkUnitID (bound v k) \<in> set scope" if "c \<in> set (OwnershipClaims E v session)" "oc_Key c = k" for c k v
    using that by (auto simp: OwnershipClaims_def Let_def restorable_def)
  have keys: "k \<in> set (claim_keys v) \<longleftrightarrow> k \<in> snd ` set (s_owners v) \<or> (\<exists>i. (k, i) \<in> set (s_bindings v) \<and> listed_gate v i)" for k v
    by (force simp: claim_keys_def)
  have no: False if c: "c \<in> set (OwnershipClaims E t session)" "restorable session scope c" for c
  proof -
    define k where "k = oc_Key c"
    have b: "id_GateAuthorKey (bound t k) = []" "id_SessionID (bound t k) = session" "id_WorkUnitID (bound t k) \<in> set scope"
      using test [OF c(1)] c(2) by (simp_all add: k_def)
    have same: "id_GateAuthorKey (bound s k) = []" "id_SessionID (bound s k) = session" "id_WorkUnitID (bound s k) \<in> set scope"
      using b free by (auto simp: freed_of_def retired_def split: if_splits)
    have "k \<in> set (claim_keys t)" using claims [of t] c(1) by (auto simp: k_def)
    then consider (own) "k \<in> snd ` set (s_owners t)" | (gate) i where "(k, i) \<in> set (s_bindings t)" "listed_gate t i"
      using keys by blast
    then have "k \<notin> K \<and> k \<in> set (claim_keys s)"
    proof cases
      case own
      have "s_owners t = filter (\<lambda>x. snd x \<notin> K) (s_owners s)" using free by (simp add: freed_of_def)
      then have "k \<notin> K" "k \<in> snd ` set (s_owners s)" using own by auto
      then show ?thesis using keys [of k s] by blast
    next
      case gate
      have wf: "wf_map (s_bindings t)" using free assms(2) by (simp add: freed_of_def)
      have i: "i = bound t k" using gate(1) wf_map_mem [OF wf] by (simp add: mget_def)
      have live: "id_Prelaunch i" "\<not> id_Superseded i" using gate(2) b(1) i by (auto simp: listed_gate_def)
      then have k: "k \<notin> K" using free i by (auto simp: freed_of_def retired_def)
      have "mhas (s_bindings s) k" using free gate(1) wf_map_mem [OF wf] by (auto simp: freed_of_def mhas_def)
      then have "(k, bound s k) \<in> set (s_bindings s)" using wf_map_mem [OF assms(2)] by (auto simp: mhas_def mget_def)
      moreover have "listed_gate s (bound s k)" using live i free k by (simp add: listed_gate_def freed_of_def)
      ultimately show ?thesis using keys k by blast
    qed
    moreover have "k \<in> K" if known: "k \<in> set (claim_keys s)"
    proof -
      obtain c' where c': "c' \<in> set (OwnershipClaims E s session)" "oc_Key c' = k"
        using known unfolding claims [of s, symmetric] list.set_map by blast
      then show ?thesis using test [OF c'] same by (auto simp: K_def)
    qed
    ultimately show False by blast
  qed
  then show ?thesis by (auto simp: filter_empty_conv)
qed

text \<open>C30: Restoration frees exactly the abandoned scope. When \<open>Restore\<close> succeeds, the recovery is
  recorded as restored, no author claim of the session over a unit of its scope is left and nothing of
  such a claim is staged any more, while every other binding keeps its identity, its staged work and the
  paths it owns.\<close>

theorem restored_scope_is_free:
  assumes "Restore E fresh journalRef session objective h s = ([], h', t)" "wf_map (s_bindings s)"
    and "scope = r_Scope (recovery_of (Budgets (hProject h) session) objective)"
    and "keys = map oc_Key (filter (restorable session scope) (OwnershipClaims E s session))"
  shows "r_Restored (recovery_of (Budgets (hProject h') session) objective) \<and>
    filter (restorable session scope) (OwnershipClaims E t session) = [] \<and>
    (key \<in> set keys \<longrightarrow> \<not> stagedLocked t key \<and> ownedScopeLocked t key = []) \<and>
    (key \<notin> set keys \<longrightarrow> map_of (s_staged t) key = map_of (s_staged s) key \<and> bound t key = bound s key \<and>
       ownedScopeLocked t key = ownedScopeLocked s key)"
proof -
  define r where "r = recovery_of (Budgets (hProject h) session) objective"
  obtain restored where run: "restore_claims E fresh 0 session objective scope (OwnershipClaims E s session) [] s = (Inr restored, t)"
    and entry: "Append (restored_entry journalRef session objective r restored) h = ([], h')"
    using assms(1) restore_claims_failed [of E fresh 0 session objective scope "OwnershipClaims E s session" "[]" s]
    by (auto simp: Restore_def r_def [symmetric] assms(3) Let_def split: if_splits prod.splits sum.splits)
  have K: "set keys = oc_Key ` {c \<in> set (OwnershipClaims E s session). restorable session scope c}"
    by (simp add: assms(4))
  have free: "freed_of (set keys) s t" using restore_claims_ok [OF run] by (simp add: K)
  obtain i where i: "hProject h' = fold_entry ((restored_entry journalRef session objective r restored)\<lparr>e_Seq := i\<rparr>) (hProject h)"
    using Append_ok [OF entry] by metis
  have "r_Restored (recovery_of (Budgets (hProject h') session) objective)"
    by (simp add: i fold_entry_def restored_entry_def Let_def activityKindOf_def budgeted_def settle_executions_def)
  moreover have "filter (restorable session scope) (OwnershipClaims E t session) = []"
    using no_claim_left [of E s session scope t] free assms(2) by (simp add: K)
  moreover have "ownedScopeLocked t key = (if key \<in> set keys then [] else ownedScopeLocked s key)"
    using free by (auto simp: freed_of_def ownedScopeLocked_def filter_empty_conv split_beta intro!: arg_cong [where f = "map fst"] filter_cong)
  ultimately show ?thesis using free by (auto simp: freed_of_def)
qed

text \<open>A recovery of the author's unit whose one action is spent; the author still has work staged.\<close>

definition abandoned_entries :: "entry list" where
  "abandoned_entries =
    [zero_entry\<lparr>e_Seq := 0, e_Author := AuthorOrchestrator, e_Kind := KindRecoveryDeclared, e_SessionID := ''s'',
       e_WorkUnitID := ''recover'', e_AttemptID := FirstAttempt, e_Cause := CauseUncaptured, e_Objective := ''o'',
       e_Result := ''green'', e_Scope := [''u''], e_Actions := 1, e_Attempts := 1\<rparr>,
     zero_entry\<lparr>e_Seq := 1, e_Author := AuthorHarness, e_Kind := KindRecoveryClosed, e_SessionID := ''s'',
       e_WorkUnitID := ''recover'', e_AttemptID := FirstAttempt, e_Cause := BoundRecoveryActions, e_Objective := ''o'',
       e_Outcome := OutcomeBacktracked, e_Scope := [''u'']\<rparr>]"

definition abandoned_store :: hist where
  "abandoned_store = \<lparr>h_entries = abandoned_entries, h_faults = []\<rparr>"

definition demo_restored :: "recovery_refusal errs \<times> hist \<times> fs" where
  "demo_restored = Restore demo_env (\<lambda>n. Some ''r'') [] ''s'' ''o'' abandoned_store demo_staged"

lemma demo_restores: "fst demo_restored = []"
  by code_simp

lemma demo_restored_keys: "map oc_Key (filter (restorable ''s'' (r_Scope (recovery_of (Budgets (hProject abandoned_store) ''s'') ''o'')))
    (OwnershipClaims demo_env demo_staged ''s'')) = [''k'']"
  by code_simp

theorem restored_scope_is_free_witness:
  "stagedLocked demo_staged ''k'' \<and> \<not> stagedLocked (snd (snd demo_restored)) ''k'' \<and>
   ownedScopeLocked (snd (snd demo_restored)) ''k'' = []"
proof -
  have "Restore demo_env (\<lambda>n. Some ''r'') [] ''s'' ''o'' abandoned_store demo_staged =
      ([], fst (snd demo_restored), snd (snd demo_restored))"
    using demo_restores by (simp add: demo_restored_def prod_eq_iff)
  moreover have "wf_map (s_bindings demo_staged)" "stagedLocked demo_staged ''k''" by code_simp+
  ultimately show ?thesis
    using restored_scope_is_free [OF _ _ refl refl, of demo_env _ "[]" "''s''" "''o''" abandoned_store demo_staged _ _ "''k''"]
    unfolding demo_restored_keys by (metis list.set_intros(1))
qed

end
