(* ===== verification/Gc_Plan.thy ===== *)
theory Gc_Plan
  imports Vfs_State
begin

text \<open>
  What a maintenance cycle is about (\<open>takt/gc\<close>: \<open>plan.go\<close>, \<open>investigation.go\<close>, \<open>refutation.go\<close>, the
  symbol protection of \<open>snapshot.go\<close>, the checks of \<open>preparation.go\<close>, \<open>AuthorizedScope\<close> of
  \<open>coordinator.go\<close>, \<open>acceptance.go\<close>): the paths a session changed, the findings of the analyzers, the
  investigations behind them, and the paths a collector may edit. What the code graph, the analyzers
  and the clock answer are arguments.
\<close>

datatype gc_error = IdentifiersRequired | UnknownMandate | ReachFailed string | NoEvidence | UnknownFinding
  | InvalidOutcome | ConflictingInvestigation | OutsideClosure string | PolicyInvalid | PublishFailed
  | NotParticipant | InvalidState | EntropyFailed | InvalidAnalyzer | UnknownAcceptance
  | NoAnalyzer | AnalyzerFailed | BadLocation | EscapesWorkspace | NotPrepared | Unreadable

type_synonym 'a gres = "gc_error + 'a"

section \<open>Mandates and policy\<close>

datatype mandate = MandateDeadCode | MandateComplexity | MandateDuplication | MandateDocumentation
  | MandateAnalyzerIntegrity | MandateOther string

definition mandateRotation :: "mandate list" where
  "mandateRotation = [MandateDeadCode, MandateComplexity, MandateDuplication, MandateDocumentation,
     MandateAnalyzerIntegrity]"

definition mandate_name :: "mandate \<Rightarrow> string" where
  "mandate_name m = (case m of MandateDeadCode \<Rightarrow> ''dead-code'' | MandateComplexity \<Rightarrow> ''complexity''
     | MandateDuplication \<Rightarrow> ''duplication'' | MandateDocumentation \<Rightarrow> ''documentation''
     | MandateAnalyzerIntegrity \<Rightarrow> ''analyzer-integrity'' | MandateOther s \<Rightarrow> s)"

text \<open>
  The reversion rate of the policy is a fraction \<open>tp_RateNum / tp_RateDen\<close>. The code compares
  double-precision quotients; on the embedded policy, and for counts below \<open>2 ^ 50\<close>, that is the
  comparison of the fractions.
\<close>

record trigger_policy =
  tp_Version :: int
  tp_Findings :: int
  tp_Files :: int
  tp_UnitsPerCycle :: int
  tp_MutationsPerCycle :: int
  tp_MaxDeferrals :: int
  tp_RateNum :: int
  tp_RateDen :: int
  tp_MinRegisteredWork :: int

definition trigger_policy_yaml :: trigger_policy where
  "trigger_policy_yaml = \<lparr>tp_Version = 1, tp_Findings = 3, tp_Files = 5, tp_UnitsPerCycle = 8,
     tp_MutationsPerCycle = 40, tp_MaxDeferrals = 3, tp_RateNum = 1, tp_RateDen = 4,
     tp_MinRegisteredWork = 8\<rparr>"

text \<open>\<open>parseTriggerPolicy\<close> after the YAML decoding, whose result is its argument.\<close>

definition parseTriggerPolicy :: "trigger_policy option \<Rightarrow> trigger_policy gres" where
  "parseTriggerPolicy decoded = (case decoded of None \<Rightarrow> Inl PolicyInvalid
    | Some p \<Rightarrow>
        if tp_Version p \<noteq> 1 then Inl PolicyInvalid
        else if tp_UnitsPerCycle p \<le> 0 \<or> tp_MutationsPerCycle p \<le> 0 \<or> tp_MaxDeferrals p \<le> 0 then Inl PolicyInvalid
        else if \<not> (0 < tp_RateNum p \<and> tp_RateNum p < tp_RateDen p) \<or> tp_MinRegisteredWork p \<le> 0 then Inl PolicyInvalid
        else Inr p)"

definition LoadTriggerPolicy :: "trigger_policy gres" where
  "LoadTriggerPolicy = parseTriggerPolicy (Some trigger_policy_yaml)"

section \<open>The delta of a session\<close>

record change =
  ch_Path :: string
  ch_Introduced :: bool
  ch_Deleted :: bool

definition no_change :: change where
  "no_change = \<lparr>ch_Path = [], ch_Introduced = False, ch_Deleted = False\<rparr>"

definition merge_change :: "change \<Rightarrow> change \<Rightarrow> change" where
  "merge_change prev next = next\<lparr>ch_Introduced := (ch_Introduced next \<or> ch_Introduced prev)\<rparr>"

type_synonym changes = "(string, change) gomap"

definition sessionEntry :: "JournalEntry \<Rightarrow> string \<Rightarrow> bool" where
  "sessionEntry e session \<longleftrightarrow> je_Path e \<noteq> [] \<and> je_Outcome e = [] \<and> je_CycleID e = [] \<and>
     (je_SessionID e = [] \<or> je_SessionID e = session)"

definition record_change :: "string \<Rightarrow> change \<Rightarrow> changes \<Rightarrow> changes" where
  "record_change path c m = mput path (merge_change (mget no_change m path) c) m"

definition applyJournalEntry :: "JournalEntry \<Rightarrow> changes \<times> changes \<Rightarrow> changes \<times> changes" where
  "applyJournalEntry e = (\<lambda>(staged, flushed).
    let path = je_Path e;
        stage = (\<lambda>introduced deleted. (record_change path
           \<lparr>ch_Path = path, ch_Introduced = introduced, ch_Deleted = deleted\<rparr> staged, flushed))
    in case je_Operation e of
         OpCreate \<Rightarrow> stage (je_BeforeHash e = []) False
       | OpPatch \<Rightarrow> stage False False
       | OpDelete \<Rightarrow> stage False True
       | OpRollback \<Rightarrow> (mdel path staged, flushed)
       | OpFlush \<Rightarrow> (mdel path staged, record_change path
           \<lparr>ch_Path = path, ch_Introduced = (je_BeforeHash e = [] \<and> je_AfterHash e \<noteq> []),
            ch_Deleted = (je_AfterHash e = [])\<rparr> flushed)
       | _ \<Rightarrow> (staged, flushed))"

definition mergeAll :: "changes \<Rightarrow> changes \<Rightarrow> changes" where
  "mergeAll flushed staged = fold (\<lambda>(p, c) m. record_change p c m) staged (mcopy [] flushed)"

definition SessionDelta :: "JournalEntry list \<Rightarrow> string \<Rightarrow> change list" where
  "SessionDelta entries session =
    (let (staged, flushed) = fold applyJournalEntry (filter (\<lambda>e. sessionEntry e session) entries) ([], [])
     in sort_key ch_Path (filter (\<lambda>c. \<not> ch_Introduced c \<or> \<not> ch_Deleted c) (map snd (mergeAll flushed staged))))"

section \<open>The declaration of a cycle\<close>

record gc_request =
  gq_SessionID :: string
  gq_CycleID :: string
  gq_Mandate :: mandate

record gc_plan =
  pl_Request :: gc_request
  pl_Delta :: "change list"
  pl_Closure :: "string list"
  pl_Reachability :: string
  pl_Gap :: string

definition ReachCodegraph :: string where "ReachCodegraph = ''codegraph''"
definition ReachJournalOnly :: string where "ReachJournalOnly = ''journal-only''"

text \<open>The code graph answers the files reachable from a path, or the text of an error.\<close>

fun dependents :: "(string \<Rightarrow> string + string list) \<Rightarrow> change list \<Rightarrow> string + string list" where
  "dependents reach [] = Inr []"
| "dependents reach (c # cs) =
    (case reach (ch_Path c) of Inl e \<Rightarrow> Inl e
     | Inr deps \<Rightarrow> (case dependents reach cs of Inl e \<Rightarrow> Inl e | Inr rest \<Rightarrow> Inr (deps @ rest)))"

definition gc_Declare ::
    "JournalEntry list \<Rightarrow> gc_request \<Rightarrow> (string \<Rightarrow> string + string list) option \<Rightarrow> gc_plan gres" where
  "gc_Declare entries req reach =
    (if gq_SessionID req = [] \<or> gq_CycleID req = [] then Inl IdentifiersRequired
     else if gq_Mandate req \<notin> set mandateRotation then Inl UnknownMandate
     else
       let delta = SessionDelta entries (gq_SessionID req);
           (reached, reachability, gap) =
             (case reach of None \<Rightarrow> ([], ReachJournalOnly, ''no code graph available'')
              | Some r \<Rightarrow> (case dependents r delta of
                   Inl e \<Rightarrow> ([], ReachJournalOnly, e) | Inr deps \<Rightarrow> (deps, ReachCodegraph, [])))
       in Inr \<lparr>pl_Request = req, pl_Delta = delta,
            pl_Closure = sort (remdups (map ch_Path delta @ reached)),
            pl_Reachability = reachability, pl_Gap = gap\<rparr>)"

section \<open>Findings and investigations\<close>

record finding =
  fi_Mandate :: mandate
  fi_Language :: string
  fi_Tool :: string
  fi_ToolVersion :: string
  fi_Rule :: string
  fi_Evidence :: string
  fi_Investigation :: string
  fi_ProposalOnly :: bool
  fi_Introduced :: bool
  fi_ID :: string
  fi_Status :: string
  fi_Path :: string
  fi_Symbol :: string
  fi_Kind :: string
  fi_Line :: int
  fi_Exported :: bool

definition StatusPending :: string where "StatusPending = ''pending''"
definition StatusDead :: string where "StatusDead = ''dead''"

text \<open>Instants are integers; zero is the zero time.\<close>

record investigation =
  iv_FindingID :: string
  iv_CycleID :: string
  iv_SessionID :: string
  iv_Instance :: string
  iv_Outcome :: string
  iv_Evidence :: string
  iv_At :: int

definition validateInvestigation :: "finding list \<Rightarrow> investigation \<Rightarrow> gc_error option" where
  "validateInvestigation findings r =
    (if blank (iv_Evidence r) \<or> iv_Instance r = [] \<or> iv_At r = 0 then Some NoEvidence
     else if iv_Outcome r \<notin> {''refuted'', ''confirmed'', ''proposal''} then Some InvalidOutcome
     else if list_ex (\<lambda>f. fi_ID f = iv_FindingID r) findings then None else Some UnknownFinding)"

text \<open>The first prior record of the same finding decides: a repetition, or a conflict.\<close>

definition Investigate ::
    "gc_plan \<Rightarrow> finding list \<Rightarrow> investigation list \<Rightarrow> investigation \<Rightarrow> investigation list gres" where
  "Investigate plan findings prior r =
    (case validateInvestigation findings r of Some e \<Rightarrow> Inl e
     | None \<Rightarrow>
         let r' = r\<lparr>iv_CycleID := gq_CycleID (pl_Request plan), iv_SessionID := gq_SessionID (pl_Request plan)\<rparr>
         in case find (\<lambda>p. iv_FindingID p = iv_FindingID r') prior of
              None \<Rightarrow> Inr (prior @ [r'])
            | Some p \<Rightarrow> if iv_Outcome p = iv_Outcome r' \<and> iv_Evidence p = iv_Evidence r' then Inr prior
                        else Inl ConflictingInvestigation)"

definition eligibleFinding :: "finding \<Rightarrow> mandate list \<Rightarrow> bool" where
  "eligibleFinding f demoted =
    (if fi_ProposalOnly f \<or> fi_Introduced f \<or> fi_Exported f \<or> fi_Mandate f = MandateAnalyzerIntegrity \<or>
        fi_Status f = StatusPending \<or> fi_Mandate f \<in> set demoted then False
     else fi_Tool f \<noteq> [] \<and> fi_ToolVersion f \<noteq> [] \<and> fi_Rule f \<noteq> [] \<and> fi_Evidence f \<noteq> [])"

definition AuthorizedFinding :: "finding \<Rightarrow> investigation list \<Rightarrow> mandate list \<Rightarrow> bool" where
  "AuthorizedFinding f rs demoted \<longleftrightarrow> eligibleFinding f demoted \<and>
     list_ex (\<lambda>r. iv_FindingID r = fi_ID f \<and> iv_Outcome r = ''confirmed'' \<and> \<not> blank (iv_Evidence r)) rs"

text \<open>The loop over the findings: \<open>out\<close> holds the distinct paths so far, \<open>n\<close> the findings taken.\<close>

fun scope_loop ::
    "trigger_policy \<Rightarrow> gc_plan \<Rightarrow> investigation list \<Rightarrow> mandate list \<Rightarrow> finding list \<Rightarrow> string list \<Rightarrow> int \<Rightarrow>
     string list gres" where
  "scope_loop p plan rs demoted [] out n = Inr out"
| "scope_loop p plan rs demoted (f # fs) out n =
    (if \<not> AuthorizedFinding f rs demoted then scope_loop p plan rs demoted fs out n
     else if fi_Path f \<notin> set (pl_Closure plan) then Inl (OutsideClosure (fi_Path f))
     else if n \<ge> tp_Findings p then Inr out
     else if fi_Path f \<notin> set out then
       (if int (length out) \<ge> tp_Files p then Inr out
        else scope_loop p plan rs demoted fs (out @ [fi_Path f]) (n + 1))
     else scope_loop p plan rs demoted fs out (n + 1))"

definition AuthorizedScope ::
    "gc_plan \<Rightarrow> finding list \<Rightarrow> investigation list \<Rightarrow> mandate list \<Rightarrow> string list gres" where
  "AuthorizedScope plan findings investigations demoted =
    and_then LoadTriggerPolicy (\<lambda>p. map_sum id sort (scope_loop p plan investigations demoted findings [] 0))"

section \<open>Demotion\<close>

definition registered_work :: "JournalEntry list \<Rightarrow> string \<Rightarrow> mandate \<Rightarrow> (string \<times> string) list" where
  "registered_work entries session m = remdups (map (\<lambda>e. (je_CycleID e, je_Path e)) (filter (\<lambda>e.
     je_SessionID e = session \<and> je_Outcome e = [] \<and> je_Path e \<noteq> [] \<and> je_Operation e = OpFlush \<and>
     je_CycleID e \<noteq> [] \<and> je_MandateClass e = mandate_name m) entries))"

definition reverted_work :: "JournalEntry list \<Rightarrow> string \<Rightarrow> mandate \<Rightarrow> (string \<times> string) list" where
  "reverted_work entries session m = remdups (map (\<lambda>e. (je_ReeditOfCycleID e, je_Path e)) (filter (\<lambda>e.
     je_SessionID e = session \<and> je_Outcome e = [] \<and> je_Path e \<noteq> [] \<and>
     je_Operation e \<in> {OpCreate, OpPatch, OpDelete} \<and>
     je_ReeditOfCycleID e \<noteq> [] \<and> je_ReeditOfMandateClass e = mandate_name m) entries))"

record rate_decision =
  rd_Mandate :: mandate
  rd_Reversions :: int
  rd_RegisteredWork :: int
  rd_Demoted :: bool

text \<open>
  \<open>published\<close> is whether the bus accepts the rate, \<open>effected\<close> whether it accepts the effect of a
  demotion. The decision is returned beside an error.
\<close>

definition EvaluateMandateReversionRate ::
    "JournalEntry list \<Rightarrow> string \<Rightarrow> mandate \<Rightarrow> bool \<Rightarrow> bool \<Rightarrow> rate_decision \<times> gc_error list" where
  "EvaluateMandateReversionRate entries session m published effected =
    (let work = registered_work entries session m;
         reversions = int (length (filter (\<lambda>k. k \<in> set work) (reverted_work entries session m)));
         registered = int (length work);
         d = \<lparr>rd_Mandate = m, rd_Reversions = reversions, rd_RegisteredWork = registered, rd_Demoted = False\<rparr>
     in if registered = 0 then (d, [])
        else case LoadTriggerPolicy of Inl e \<Rightarrow> (\<lparr>rd_Mandate = MandateOther [], rd_Reversions = 0, rd_RegisteredWork = 0, rd_Demoted = False\<rparr>, [e])
        | Inr p \<Rightarrow>
            if \<not> published then (d, [PublishFailed])
            else if registered \<ge> tp_MinRegisteredWork p \<and>
                    reversions * tp_RateDen p > tp_RateNum p * registered
            then (d\<lparr>rd_Demoted := True\<rparr>, if effected then [] else [PublishFailed])
            else (d, []))"

section \<open>Refutations\<close>

definition evidenceClasses :: "string list" where
  "evidenceClasses = [''dynamic-dispatch'', ''reflection'', ''config-wiring'', ''framework-entrypoint'',
     ''serialization'', ''re-export'', ''value-reference'', ''public-contract'']"

record refutation =
  rf_FindingID :: string
  rf_SessionID :: string
  rf_CycleID :: string
  rf_Class :: string
  rf_Evidence :: string
  rf_Instance :: string
  rf_At :: int

definition Refute ::
    "gc_plan \<Rightarrow> finding list \<Rightarrow> refutation list \<Rightarrow> refutation \<Rightarrow> refutation list gres" where
  "Refute plan findings existing r =
    (if rf_Class r \<notin> set evidenceClasses \<or> blank (rf_Evidence r) \<or> rf_Instance r = [] \<or> rf_At r = 0
     then Inl NoEvidence
     else if \<not> list_ex (\<lambda>f. fi_ID f = rf_FindingID r) findings then Inl UnknownFinding
     else if list_ex (\<lambda>e. rf_FindingID e = rf_FindingID r) existing then Inr existing
     else Inr (existing @ [r\<lparr>rf_SessionID := gq_SessionID (pl_Request plan),
                            rf_CycleID := gq_CycleID (pl_Request plan)\<rparr>]))"

definition Actionable :: "finding list \<Rightarrow> refutation list \<Rightarrow> finding list" where
  "Actionable findings refs =
    filter (\<lambda>f. fi_Status f = StatusDead \<and> \<not> list_ex (\<lambda>r. rf_FindingID r = fi_ID f) refs) findings"

section \<open>Symbols of a finding\<close>

record symbol =
  sy_Name :: string
  sy_Line :: int
  sy_End :: int
  sy_Exported :: bool

fun protectFinding :: "finding \<Rightarrow> symbol list \<Rightarrow> symbol list \<Rightarrow> finding" where
  "protectFinding f [] prior = f\<lparr>fi_ProposalOnly := True\<rparr>"
| "protectFinding f (sy # rest) prior =
    (if fi_Line f < sy_Line sy \<or> fi_Line f > sy_End sy then protectFinding f rest prior
     else let old = list_ex (\<lambda>x. sy_Name x = sy_Name sy) prior;
              f1 = f\<lparr>fi_Symbol := sy_Name sy, fi_Exported := (fi_Exported f \<or> sy_Exported sy), fi_Introduced := \<not> old\<rparr>
          in if fi_Mandate f1 = MandateDocumentation
             then f1\<lparr>fi_Introduced := False, fi_ProposalOnly := (fi_ProposalOnly f1 \<or> old)\<rparr>
             else f1)"

section \<open>Checks and analyzers\<close>

record check_evidence =
  ev_Command :: "string list"
  ev_Exit :: int
  ev_Completed :: bool
  ev_At :: int

definition ChecksPass :: "check_evidence list \<Rightarrow> bool" where
  "ChecksPass checks \<longleftrightarrow> checks \<noteq> [] \<and>
     list_all (\<lambda>c. \<not> (\<not> ev_Completed c \<or> ev_Exit c \<noteq> 0 \<or> ev_Command c = [] \<or> ev_At c = 0)) checks"

record analyzer =
  an_Language :: string
  an_Mandate :: mandate
  an_Tool :: string
  an_Version :: string
  an_Command :: "string list"
  an_VersionCommand :: "string list"

text \<open>\<open>local_path\<close> is \<open>filepath.IsLocal\<close>.\<close>

definition validateAnalyzerCommand :: "(string \<Rightarrow> bool) \<Rightarrow> string list \<Rightarrow> bool" where
  "validateAnalyzerCommand local_path argv =
    (case argv of [] \<Rightarrow> False
     | cmd # args \<Rightarrow>
         if cmd = ''go'' \<and> length argv > 2 \<and> args ! 0 \<in> {''tool'', ''list'', ''version''} then True
         else has_prefix cmd ''./'' \<and> local_path cmd)"

definition validateProductionRTA :: "analyzer \<Rightarrow> bool" where
  "validateProductionRTA a =
    (let args = tl (an_Command a)
     in if hd (an_Command a) = ''go'' \<and> (length args < 2 \<or> args ! 0 \<noteq> ''tool'' \<or> args ! 1 \<noteq> ''deadcode'') then False
        else let rest = (if hd (an_Command a) = ''go'' then drop 2 args else args)
             in an_Tool a = ''deadcode'' \<and> rest = [''-json'', ''./...''])"

definition validateAnalyzer :: "(string \<Rightarrow> bool) \<Rightarrow> analyzer \<Rightarrow> bool" where
  "validateAnalyzer local_path a =
    (if an_Version a = [] \<or> an_Command a = [] \<or> an_VersionCommand a = [] then False
     else if \<not> validateAnalyzerCommand local_path (an_Command a) then False
     else if \<not> validateAnalyzerCommand local_path (an_VersionCommand a) then False
     else if an_Language a = ''go'' \<and> an_Mandate a = MandateDeadCode then validateProductionRTA a
     else True)"

section \<open>Acceptance\<close>

datatype acceptance = AcceptancePass | AcceptanceRegress

definition ParseAcceptanceResult :: "string \<Rightarrow> acceptance gres" where
  "ParseAcceptanceResult value = (if value = ''pass'' then Inr AcceptancePass
     else if value = ''regress'' then Inr AcceptanceRegress else Inl UnknownAcceptance)"

record closure_record =
  cl_CycleID :: string
  cl_Mandate :: mandate
  cl_Result :: acceptance
  cl_Restored :: "string list"
  cl_Reason :: string

definition Discarded :: "closure_record \<Rightarrow> bool" where
  "Discarded c \<longleftrightarrow> cl_Result c = AcceptanceRegress"

end
