(* ===== verification/Gc_Analysis.thy ===== *)
theory Gc_Analysis
  imports Gc_Plan Vfs_Paths
begin

text \<open>
  One analysis pass (\<open>analyzers.go\<close>, \<open>deadcode.go\<close>, the symbol snapshots of \<open>snapshot.go\<close> in
  \<open>takt/gc\<close>): which files are analyzed, which analyzers run, and which of their findings the report
  keeps. What an external analyzer prints, once parsed, and the symbols of a file are arguments.
\<close>

section \<open>Files\<close>

text \<open>\<open>path.Ext\<close>: from the last dot of the last component.\<close>

definition path_ext :: "string \<Rightarrow> string" where
  "path_ext p = (let base = rev (takeWhile (\<lambda>c. c \<noteq> CHR ''/'') (rev p));
                     tail = takeWhile (\<lambda>c. c \<noteq> CHR ''.'') (rev base)
                 in if length tail = length base then [] else CHR ''.'' # rev tail)"

definition sourceLanguage :: "string \<Rightarrow> string" where
  "sourceLanguage p = (if path_ext p = ''.go'' then ''go''
     else if path_ext p \<in> {''.ts'', ''.tsx''} then ''typescript''
     else if path_ext p = ''.py'' then ''python'' else [])"

definition IsTest :: "string \<Rightarrow> bool" where
  "IsTest p =
    (let base = path_base p; stem = trim_suffix base (path_ext base)
     in if has_suffix stem ''_test'' \<or> has_prefix stem ''test_'' \<or> base = ''conftest.py'' \<or>
           has_suffix stem ''.test'' \<or> has_suffix stem ''.spec'' then True
        else list_ex (\<lambda>dir. dir \<in> {''test'', ''tests'', ''__tests__'', ''testdata''}) (path_parts (path_dir p)))"

definition excludedPath :: "gc_plan \<Rightarrow> string \<Rightarrow> bool" where
  "excludedPath plan p \<longleftrightarrow> IsTest p \<or> list_ex (\<lambda>c. ch_Path c = p \<and> ch_Deleted c) (pl_Delta plan)"

record coverage_gap =
  ga_Path :: string
  ga_Language :: string
  ga_Reason :: string

record report =
  rp_Findings :: "finding list"
  rp_Coverage :: "string list"
  rp_Gaps :: "coverage_gap list"

definition empty_report :: report where
  "empty_report = \<lparr>rp_Findings = [], rp_Coverage = [], rp_Gaps = []\<rparr>"

text \<open>The languages found are a set of the source's map.\<close>

definition analysisScope :: "gc_plan \<Rightarrow> report \<times> string list" where
  "analysisScope plan =
    (let paths = filter (\<lambda>p. \<not> excludedPath plan p) (pl_Closure plan)
     in (empty_report\<lparr>rp_Gaps := map (\<lambda>p. \<lparr>ga_Path = p, ga_Language = ''unknown'',
            ga_Reason = ''no analyzer declared for this file type''\<rparr>) (filter (\<lambda>p. sourceLanguage p = []) paths)\<rparr>,
         remdups (filter (\<lambda>l. l \<noteq> []) (map sourceLanguage paths))))"

definition recordCoverageGap :: "gc_plan \<Rightarrow> string \<Rightarrow> string \<Rightarrow> report \<Rightarrow> report" where
  "recordCoverageGap plan lang why out = out\<lparr>rp_Gaps := rp_Gaps out @
     map (\<lambda>p. \<lparr>ga_Path = p, ga_Language = lang, ga_Reason = why\<rparr>)
       (filter (\<lambda>p. \<not> (excludedPath plan p \<or> sourceLanguage p \<noteq> lang)) (pl_Closure plan))\<rparr>"

section \<open>Analyzers\<close>

definition analyzersFor :: "analyzer list \<Rightarrow> string \<Rightarrow> mandate \<Rightarrow> analyzer list gres" where
  "analyzersFor analyzers lang m =
    (let out = filter (\<lambda>a. an_Language a = lang \<and> an_Mandate a = m) analyzers
     in if out = [] then Inl NoAnalyzer
        else if lang = ''go'' \<and> m = MandateDeadCode \<and> (length out \<noteq> 1 \<or> an_Tool (hd out) \<noteq> ''deadcode'')
        then Inl NoAnalyzer else Inr out)"

definition pylintConventionExitMask :: int where "pylintConventionExitMask = or (or 4 8) 16"

definition analyzerExitOK :: "string \<Rightarrow> int \<Rightarrow> bool" where
  "analyzerExitOK tool exit =
    (if tool = ''deadcode'' then exit = 0
     else if tool = ''vulture'' then exit = 0 \<or> exit = 3
     else if tool = ''pylint'' then exit \<ge> 0 \<and> and exit (not pylintConventionExitMask) = 0
     else exit = 0 \<or> exit = 1)"

text \<open>What one run of an analyzer gave: whether it completed, its exit and its parsed findings.\<close>

record analyzer_run =
  ar_Verified :: bool
  ar_Completed :: bool
  ar_Exit :: int
  ar_Findings :: "finding list option"

definition executeAnalyzer ::
    "(string \<Rightarrow> bool) \<Rightarrow> (analyzer \<Rightarrow> analyzer_run) \<Rightarrow> analyzer \<Rightarrow> finding list gres" where
  "executeAnalyzer local_path run a =
    (if \<not> validateAnalyzer local_path a then Inl InvalidAnalyzer
     else if \<not> ar_Verified (run a) then Inl NotPrepared
     else if \<not> ar_Completed (run a) \<or> \<not> analyzerExitOK (an_Tool a) (ar_Exit (run a)) then Inl AnalyzerFailed
     else case ar_Findings (run a) of None \<Rightarrow> Inl AnalyzerFailed
       | Some findings \<Rightarrow> if ar_Exit (run a) \<noteq> 0 \<and> findings = [] then Inl AnalyzerFailed else Inr findings)"

text \<open>\<open>filepath.Rel\<close> of two absolute paths.\<close>

fun strip_common :: "string list \<Rightarrow> string list \<Rightarrow> string list \<times> string list" where
  "strip_common (b # bs) (t # ts) = (if b = t then strip_common bs ts else (b # bs, t # ts))"
| "strip_common bs ts = (bs, ts)"

definition path_rel :: "string \<Rightarrow> string \<Rightarrow> string" where
  "path_rel base target =
    (let parts = (\<lambda>p. filter (\<lambda>c. c \<noteq> []) (path_parts (path_clean p)));
         (bs, ts) = strip_common (parts base) (parts target);
         rel = replicate (length bs) ''..'' @ ts
     in if rel = [] then ''.'' else join_path rel)"

definition findingPath :: "string \<Rightarrow> string \<Rightarrow> string gres" where
  "findingPath workspace raw =
    (let p = path_clean (if has_prefix raw ''/'' then path_rel workspace raw else raw)
     in if p = ''..'' \<or> has_prefix p ''../'' then Inl EscapesWorkspace else Inr p)"

fun collectFindings :: "string \<Rightarrow> gc_plan \<Rightarrow> analyzer \<Rightarrow> finding list \<Rightarrow> report \<Rightarrow> gc_error list \<times> report" where
  "collectFindings workspace plan a [] out = ([], out)"
| "collectFindings workspace plan a (f # fs) out =
    (if fi_Path f = [] \<or> fi_Line f < 1 then ([BadLocation], out)
     else case findingPath workspace (fi_Path f) of
       Inl e \<Rightarrow> ([e], out)
     | Inr p \<Rightarrow>
         if p \<notin> set (pl_Closure plan) \<or> excludedPath plan p then collectFindings workspace plan a fs out
         else collectFindings workspace plan a fs (out\<lparr>rp_Findings := rp_Findings out @ [f\<lparr>fi_Path := p,
                fi_Language := an_Language a, fi_Mandate := gq_Mandate (pl_Request plan), fi_Tool := an_Tool a,
                fi_ToolVersion := an_Version a, fi_Investigation := ''uninvestigated'', fi_Status := ''candidate''\<rparr>]\<rparr>))"

section \<open>Symbols and identities\<close>

text \<open>
  \<open>now\<close> and \<open>prior\<close> are the symbols of a file today and in the retained snapshot; \<open>None\<close> is a file
  that does not parse. The findings before it keep their protection.
\<close>

fun protectSessionSymbols ::
    "(string \<Rightarrow> symbol list option) \<Rightarrow> (string \<Rightarrow> symbol list) \<Rightarrow> finding list \<Rightarrow> gc_error list \<times> finding list" where
  "protectSessionSymbols now prior [] = ([], [])"
| "protectSessionSymbols now prior (f # fs) =
    (if sourceLanguage (fi_Path f) = [] then
       (case protectSessionSymbols now prior fs of (e, rest) \<Rightarrow> (e, f # rest))
     else case now (fi_Path f) of None \<Rightarrow> ([Unreadable], f # fs)
       | Some symbols \<Rightarrow>
           (case protectSessionSymbols now prior fs of (e, rest) \<Rightarrow> (e, protectFinding f symbols (prior (fi_Path f)) # rest)))"

definition finding_id :: "(string \<Rightarrow> string) \<Rightarrow> finding \<Rightarrow> string" where
  "finding_id sha256 f = sha256 (mandate_name (fi_Mandate f) @ '':'' @ fi_Path f @ '':'' @ fi_Symbol f @ '':'' @
     fi_Rule f @ '':'' @ Itoa (fi_Line f))"

definition finalize_finding :: "(string \<Rightarrow> string) \<Rightarrow> finding \<Rightarrow> finding" where
  "finalize_finding sha256 f =
    (if fi_Mandate f = MandateDeadCode \<and> fi_Language f = ''go'' then
       f\<lparr>fi_Kind := (if CHR ''.'' \<in> set (fi_Symbol f) then ''method'' else ''function''),
         fi_Status := (if fi_Introduced f then StatusPending else StatusDead),
         fi_ID := mandate_name (fi_Mandate f) @ '':'' @ fi_Path f @ ''#'' @ fi_Symbol f\<rparr>
     else f\<lparr>fi_ID := finding_id sha256 f\<rparr>)"

text \<open>\<open>slices.CompactFunc\<close> keeps the first of each run of equal identities.\<close>

fun compact_by :: "('a \<Rightarrow> 'b) \<Rightarrow> 'a list \<Rightarrow> 'a list" where
  "compact_by key [] = []"
| "compact_by key [x] = [x]"
| "compact_by key (x # y # zs) = (if key x = key y then compact_by key (x # zs) else x # compact_by key (y # zs))"

definition finalizeFindings :: "(string \<Rightarrow> string) \<Rightarrow> finding list \<Rightarrow> finding list" where
  "finalizeFindings sha256 findings =
    compact_by fi_ID (sort_key fi_ID (map (finalize_finding sha256) findings))"

text \<open>The loops of \<open>AnalyzePrepared\<close> over the languages and their analyzers; a failure leaves its gap.\<close>

fun run_analyzers ::
    "(string \<Rightarrow> bool) \<Rightarrow> (analyzer \<Rightarrow> analyzer_run) \<Rightarrow> string \<Rightarrow> gc_plan \<Rightarrow> string \<Rightarrow> analyzer list \<Rightarrow> report \<Rightarrow>
     gc_error list \<times> report" where
  "run_analyzers local_path run workspace plan lang [] out = ([], out)"
| "run_analyzers local_path run workspace plan lang (a # rest) out =
    (case executeAnalyzer local_path run a of
       Inl e \<Rightarrow> ([e], recordCoverageGap plan lang ''failed'' out)
     | Inr findings \<Rightarrow>
         (case collectFindings workspace plan a findings out of
            (e, out1) \<Rightarrow> if e \<noteq> [] then (e, recordCoverageGap plan lang ''failed'' out1)
              else run_analyzers local_path run workspace plan lang rest
                     (out1\<lparr>rp_Coverage := rp_Coverage out1 @ [an_Tool a]\<rparr>)))"

fun run_languages ::
    "(string \<Rightarrow> bool) \<Rightarrow> (analyzer \<Rightarrow> analyzer_run) \<Rightarrow> string \<Rightarrow> gc_plan \<Rightarrow> analyzer list \<Rightarrow> string list \<Rightarrow> report \<Rightarrow>
     gc_error list \<times> report" where
  "run_languages local_path run workspace plan analyzers [] out = ([], out)"
| "run_languages local_path run workspace plan analyzers (lang # langs) out =
    (case analyzersFor analyzers lang (gq_Mandate (pl_Request plan)) of
       Inl e \<Rightarrow> ([e], recordCoverageGap plan lang ''failed'' out)
     | Inr chosen \<Rightarrow>
         (case run_analyzers local_path run workspace plan lang chosen out of
            (e, out1) \<Rightarrow> if e \<noteq> [] then (e, out1)
              else run_languages local_path run workspace plan analyzers langs out1))"

text \<open>\<open>integrity\<close> is what \<open>IntegrityFindings\<close> answers, which compares the text of the files.\<close>

definition AnalyzePrepared ::
    "(string \<Rightarrow> bool) \<Rightarrow> (analyzer \<Rightarrow> analyzer_run) \<Rightarrow> (string \<Rightarrow> symbol list option) \<Rightarrow> (string \<Rightarrow> symbol list) \<Rightarrow>
     (string \<Rightarrow> string) \<Rightarrow> gc_error list \<times> report \<Rightarrow> string \<Rightarrow> gc_plan \<Rightarrow> analyzer list \<Rightarrow> gc_error list \<times> report" where
  "AnalyzePrepared local_path run now prior sha256 integrity workspace plan analyzers =
    (if gq_Mandate (pl_Request plan) = MandateAnalyzerIntegrity then integrity
     else let (out, langs) = analysisScope plan
     in case run_languages local_path run workspace plan analyzers
               (filter (\<lambda>l. l \<in> set langs) [''go'', ''typescript'', ''python'']) out of
          (e, out1) \<Rightarrow>
            if e \<noteq> [] then (e, out1)
            else case protectSessionSymbols now prior (rp_Findings out1) of
              (e, findings) \<Rightarrow> if e \<noteq> [] then (e, out1\<lparr>rp_Findings := findings\<rparr>)
                else ([], out1\<lparr>rp_Findings := finalizeFindings sha256 findings\<rparr>))"

end
