(* ===== verification/Gc_Pace.thy ===== *)
theory Gc_Pace
  imports Gc_Analysis Disp_Laws Vfs_Cycle
begin

text \<open>
  When a maintenance cycle starts and ends (\<open>takt/gc\<close>: \<open>trigger.go\<close>, \<open>barrier.go\<close>,
  \<open>coordinator.go\<close>): the pace counters, the decision, the barrier, and the coordinator whose one
  cycle they start. Records for the control bus are not modelled.
\<close>

section \<open>The trigger\<close>

datatype trigger_kind = TriggerCadence | TriggerUser

datatype gc_outcome = OutcomeIdle | OutcomeRun | OutcomeSkip | OutcomeAbort

definition ReasonInFlight :: string where "ReasonInFlight = ''cycle_in_flight''"
definition ReasonNoDelta :: string where "ReasonNoDelta = ''no_delta''"
definition ReasonDeferralLimit :: string where "ReasonDeferralLimit = ''deferral_limit''"

record trigger_input =
  ti_Units :: int
  ti_Mutations :: int
  ti_UserRequested :: bool
  ti_CycleInFlight :: bool
  ti_Deferrals :: int

record decision =
  de_Outcome :: gc_outcome
  de_Trigger :: trigger_kind
  de_Reason :: string
  de_Units :: int
  de_Mutations :: int

definition due :: "trigger_input \<Rightarrow> trigger_policy \<Rightarrow> bool" where
  "due i p \<longleftrightarrow> ti_UserRequested i \<or>
     wrap_int (ti_Units i * tp_MutationsPerCycle p + ti_Mutations i * tp_UnitsPerCycle p)
       \<ge> wrap_int (tp_UnitsPerCycle p * tp_MutationsPerCycle p)"

definition Decide :: "trigger_input \<Rightarrow> trigger_policy \<Rightarrow> decision" where
  "Decide i p =
    (let d = \<lparr>de_Outcome = OutcomeRun, de_Trigger = (if ti_UserRequested i then TriggerUser else TriggerCadence),
               de_Reason = [], de_Units = ti_Units i, de_Mutations = ti_Mutations i\<rparr>
     in if \<not> due i p then d\<lparr>de_Outcome := OutcomeIdle\<rparr>
        else if ti_Deferrals i \<ge> tp_MaxDeferrals p then d\<lparr>de_Outcome := OutcomeAbort, de_Reason := ReasonDeferralLimit\<rparr>
        else if ti_CycleInFlight i then d\<lparr>de_Outcome := OutcomeSkip, de_Reason := ReasonInFlight\<rparr>
        else if ti_Mutations i = 0 then d\<lparr>de_Outcome := OutcomeSkip, de_Reason := ReasonNoDelta\<rparr>
        else d)"

definition Recorded :: "decision \<Rightarrow> bool" where
  "Recorded d \<longleftrightarrow> de_Outcome d \<noteq> OutcomeIdle"

section \<open>The barrier\<close>

definition ReasonActiveUnits :: string where "ReasonActiveUnits = ''active_units''"
definition ReasonPendingDeltas :: string where "ReasonPendingDeltas = ''pending_ordinary_deltas''"

record barrier_input =
  bi_Decision :: decision
  bi_ActiveUnits :: int
  bi_ActiveUnitIDs :: "string list"
  bi_PendingOrdinaryDeltas :: int
  bi_Deferrals :: int

record barrier_verdict =
  bv_Decision :: decision
  bv_Proceed :: bool
  bv_Reason :: string
  bv_Deferrals :: int
  bv_ActiveUnitIDs :: "string list"

definition Barrier :: "barrier_input \<Rightarrow> barrier_verdict" where
  "Barrier i =
    (let v = \<lparr>bv_Decision = bi_Decision i, bv_Proceed = False, bv_Reason = [], bv_Deferrals = bi_Deferrals i,
               bv_ActiveUnitIDs = []\<rparr>;
         why = (if bi_ActiveUnits i \<noteq> 0 then ReasonActiveUnits
                else if bi_PendingOrdinaryDeltas i \<noteq> 0 then ReasonPendingDeltas else [])
     in if de_Outcome (bi_Decision i) \<noteq> OutcomeRun then v
        else if why \<noteq> [] then v\<lparr>bv_Reason := why, bv_Deferrals := bi_Deferrals i + 1,
                                bv_ActiveUnitIDs := bi_ActiveUnitIDs i\<rparr>
        else v\<lparr>bv_Proceed := True, bv_Deferrals := 0\<rparr>)"

definition bv_Held :: "barrier_verdict \<Rightarrow> bool" where
  "bv_Held v \<longleftrightarrow> bv_Reason v \<noteq> []"

section \<open>The coordinator\<close>

record cycle =
  cy_Plan :: gc_plan
  cy_Phase :: string
  cy_Scope :: "string list"
  cy_Sessions :: "(string, string) gomap"
  cy_AuthorKey :: agent_id
  cy_VerifierKey :: agent_id
  cy_Baseline :: "check_evidence list"
  cy_Acceptance :: "check_evidence list"
  cy_Report :: report
  cy_Investigations :: "investigation list"
  cy_Reason :: string
  cy_Started :: int

record coordinator =
  co_Since :: int
  co_observedJournal :: int
  co_observedHistory :: int
  co_Version :: int
  co_Units :: int
  co_Mutations :: int
  co_Cursor :: int
  co_Deferrals :: int
  co_NextMandate :: nat
  co_Requested :: bool
  co_Session :: string
  co_Cycle :: "cycle option"
  co_History :: "cycle list"
  co_Demoted :: "mandate list"

definition fresh_coordinator :: coordinator where
  "fresh_coordinator = \<lparr>co_Since = - 1, co_observedJournal = - 1, co_observedHistory = - 1, co_Version = 1,
     co_Units = 0, co_Mutations = 0, co_Cursor = - 1, co_Deferrals = 0, co_NextMandate = 0,
     co_Requested = False, co_Session = [], co_Cycle = None, co_History = [], co_Demoted = []\<rparr>"

definition Demote :: "mandate \<Rightarrow> coordinator \<Rightarrow> coordinator" where
  "Demote m c = (if m \<in> set (co_Demoted c) then c else c\<lparr>co_Demoted := co_Demoted c @ [m]\<rparr>)"

text \<open>
  The document of the store: what \<open>SaveCoordinator\<close> encodes, with every projection blanked, and what
  the virtual file system's guard decodes of it. The fields the encoding leaves out start at \<open>-1\<close>.
\<close>

definition withoutProjections :: "cycle \<Rightarrow> cycle" where
  "withoutProjections cy = cy\<lparr>cy_Sessions := [], cy_Scope := [], cy_AuthorKey := [], cy_VerifierKey := []\<rparr>"

definition stored_coordinator :: "coordinator \<Rightarrow> coordinator" where
  "stored_coordinator c = c\<lparr>co_Units := 0, co_Mutations := 0, co_NextMandate := 0, co_observedJournal := - 1,
     co_observedHistory := - 1, co_Cycle := map_option withoutProjections (co_Cycle c),
     co_History := map withoutProjections (co_History c)\<rparr>"

definition SaveCoordinator :: "coordinator \<Rightarrow> unit vstep" where
  "SaveCoordinator c = SetMaintenance (Some (case co_Cycle c of None \<Rightarrow> NoCycle
     | Some cy \<Rightarrow> InCycle (gq_CycleID (pl_Request (cy_Plan cy))) (cy_Phase cy)))"

definition claimed_scope :: "env \<Rightarrow> fs \<Rightarrow> string \<Rightarrow> agent_id \<Rightarrow> string list" where
  "claimed_scope E s session author = foldl (\<lambda>scope claim.
     if author \<noteq> [] \<and> oc_Key claim = author then oc_Scope claim else scope) [] (OwnershipClaims E s session)"

definition LoadCoordinator :: "env \<Rightarrow> fs \<Rightarrow> coordinator option gres \<Rightarrow> coordinator gres" where
  "LoadCoordinator E s decoded =
    and_then decoded (\<lambda>doc.
      let c = (case doc of None \<Rightarrow> fresh_coordinator | Some c \<Rightarrow> c)
      in if co_Version c \<noteq> 1 then Inl InvalidState
         else Inr (c\<lparr>co_NextMandate := length (co_History c) mod length mandateRotation,
           co_Cycle := map_option (\<lambda>cy.
             let (author, verifier) = CycleKeys s (gq_CycleID (pl_Request (cy_Plan cy)))
             in cy\<lparr>cy_Sessions := [], cy_AuthorKey := author, cy_VerifierKey := verifier,
                  cy_Scope := claimed_scope E s (gq_SessionID (pl_Request (cy_Plan cy))) author\<rparr>) (co_Cycle c)\<rparr>))"

definition ObserveExecutions :: "hist \<Rightarrow> coordinator \<Rightarrow> coordinator" where
  "ObserveExecutions h c =
    (let c1 = c\<lparr>co_Units := int (length (filter (\<lambda>e. e_Seq e > co_Since c \<and> e_Kind e = KindAdmitted \<and>
                  e_SessionID e = co_Session c) (h_entries h))),
                co_observedHistory := int (length (h_entries h)) - 1\<rparr>
     in case co_Cycle c of None \<Rightarrow> c1
        | Some cy \<Rightarrow> c1\<lparr>co_Cycle := Some (cy\<lparr>cy_Sessions := fold (\<lambda>(_, d) m.
             if \<not> x_Settled d \<and> x_Cycle d = gq_CycleID (pl_Request (cy_Plan cy)) then mput (x_Role d) (x_Child d) m else m)
             (p_Executions (hProject h)) []\<rparr>)\<rparr>)"

definition reset_pace :: "coordinator \<Rightarrow> coordinator" where
  "reset_pace c = c\<lparr>co_Units := 0, co_Mutations := 0, co_Deferrals := 0, co_Requested := False\<rparr>"

definition gc_Bind :: "string \<Rightarrow> coordinator \<Rightarrow> coordinator" where
  "gc_Bind session c =
    (if session = [] \<or> session = co_Session c then c
     else (reset_pace c)\<lparr>co_Cursor := - 1, co_Since := - 1, co_Session := session\<rparr>)"

definition counts_mutation :: "coordinator \<Rightarrow> JournalEntry \<Rightarrow> bool" where
  "counts_mutation c e \<longleftrightarrow>
     \<not> (int (je_Seq e) \<le> co_Cursor c \<or> je_CycleID e \<noteq> [] \<or> je_Outcome e \<noteq> [] \<or> je_BeforeHash e = je_AfterHash e \<or>
        (je_SessionID e \<noteq> [] \<and> je_SessionID e \<noteq> co_Session c)) \<and>
     je_Operation e \<in> {OpCreate, OpPatch, OpDelete}"

definition gc_Observe :: "JournalEntry list \<Rightarrow> coordinator \<Rightarrow> coordinator" where
  "gc_Observe entries c = c\<lparr>co_Mutations := int (length (filter (counts_mutation c) entries)),
     co_observedJournal := fold (\<lambda>e m. max m (int (je_Seq e))) entries (co_Cursor c)\<rparr>"

definition gc_Held :: "coordinator \<Rightarrow> bool" where
  "gc_Held c \<longleftrightarrow> co_Cycle c \<noteq> None"

definition gc_Admit ::
    "string \<Rightarrow> string \<Rightarrow> string \<Rightarrow> string \<Rightarrow> string \<Rightarrow> coordinator \<Rightarrow> hist \<Rightarrow> refusal errs \<times> coordinator \<times> hist" where
  "gc_Admit journalRef event session agent delegation c h =
    (let c1 = gc_Bind session c
     in case LoadAdmissionPolicy of
          Inl e \<Rightarrow> (e, c1, h)
        | Inr p \<Rightarrow>
            (case Admit p journalRef \<lparr>rq_Event = event, rq_Session = session, rq_Agent = agent, rq_Dispatch = delegation\<rparr> h of
               (e, h1) \<Rightarrow> if e \<noteq> [] then (e, c1, h1) else ([], ObserveExecutions h1 c1, h1)))"

definition unfinishedUnitIDs :: "projection \<Rightarrow> string list" where
  "unfinishedUnitIDs p = sort (remdups (map (\<lambda>(_, u). u_WorkUnitID u)
     (filter (\<lambda>(_, u). u_State u = StateInFlight \<or> u_State u = StatePlanned) (p_Units p))))"

definition consumed :: "coordinator \<Rightarrow> coordinator" where
  "consumed c = c\<lparr>co_Cursor := co_observedJournal c, co_Since := co_observedHistory c\<rparr>"

definition trigger_of :: "coordinator \<Rightarrow> trigger_input" where
  "trigger_of c = \<lparr>ti_Units = co_Units c, ti_Mutations = co_Mutations c, ti_UserRequested = co_Requested c,
     ti_CycleInFlight = (co_Cycle c \<noteq> None), ti_Deferrals = co_Deferrals c\<rparr>"

definition no_verdict :: "decision \<Rightarrow> barrier_verdict" where
  "no_verdict d = \<lparr>bv_Decision = d, bv_Proceed = False, bv_Reason = [], bv_Deferrals = 0, bv_ActiveUnitIDs = []\<rparr>"

text \<open>
  \<open>random\<close> is the identifier drawn for the cycle, \<open>None\<close> when none can be read; \<open>now\<close> is the clock. The
  verdict of an advance that never asks the barrier is the zero value, of which only \<open>bv_Proceed\<close> and
  \<open>bv_Reason\<close> mean anything.
\<close>

definition start_cycle ::
    "JournalEntry list \<Rightarrow> string \<Rightarrow> (string \<Rightarrow> string + string list) option \<Rightarrow> string option \<Rightarrow> int \<Rightarrow>
     coordinator \<Rightarrow> gc_error list \<times> coordinator" where
  "start_cycle entries session reach random now c =
    (case random of
       None \<Rightarrow> ([EntropyFailed], c\<lparr>co_Deferrals := co_Deferrals c + 1\<rparr>)
     | Some cid \<Rightarrow>
         (case gc_Declare entries \<lparr>gq_SessionID = session, gq_CycleID = cid,
                  gq_Mandate = mandateRotation ! co_NextMandate c\<rparr> reach of
            Inl e \<Rightarrow> ([e], c\<lparr>co_Deferrals := co_Deferrals c + 1\<rparr>)
          | Inr plan \<Rightarrow> ([], c\<lparr>co_Deferrals := 0, co_Cycle := Some \<lparr>cy_Plan = plan, cy_Phase = ''baseline'',
               cy_Scope = [], cy_Sessions = [], cy_AuthorKey = [], cy_VerifierKey = [], cy_Baseline = [],
               cy_Acceptance = [], cy_Report = empty_report, cy_Investigations = [], cy_Reason = [],
               cy_Started = now\<rparr>\<rparr>)))"

definition Advance ::
    "fs \<Rightarrow> hist \<Rightarrow> JournalEntry list \<Rightarrow> string \<Rightarrow> (string \<Rightarrow> string + string list) option \<Rightarrow> string option \<Rightarrow> int \<Rightarrow>
     coordinator \<Rightarrow> (decision \<times> barrier_verdict \<times> gc_error list) \<times> coordinator" where
  "Advance s h entries session reach random now c0 =
    (let c = ObserveExecutions h (gc_Observe entries c0)
     in case LoadTriggerPolicy of
          Inl e \<Rightarrow> ((Decide (trigger_of c) trigger_policy_yaml, no_verdict (Decide (trigger_of c) trigger_policy_yaml), [e]), c)
        | Inr p \<Rightarrow>
            let d = Decide (trigger_of c) p
            in if co_Cycle c \<noteq> None then ((d, no_verdict d, []), c)
               else if de_Outcome d = OutcomeSkip \<or> de_Outcome d = OutcomeAbort
               then ((d, no_verdict d, []), reset_pace (consumed c))
               else if de_Outcome d \<noteq> OutcomeRun then ((d, no_verdict d, []), c)
               else
                 let unfinished = unfinishedUnitIDs (hProject h);
                     b = Barrier \<lparr>bi_Decision = d, bi_ActiveUnits = int (length unfinished), bi_ActiveUnitIDs = unfinished,
                                  bi_PendingOrdinaryDeltas = PendingOrdinaryDeltas s, bi_Deferrals = co_Deferrals c\<rparr>;
                     c1 = c\<lparr>co_Deferrals := bv_Deferrals b\<rparr>
                 in if \<not> bv_Proceed b then ((d, b, []), c1)
                    else case start_cycle entries session reach random now c1 of (e, c2) \<Rightarrow> ((d, b, e), c2))"

definition gc_Close :: "string \<Rightarrow> coordinator \<Rightarrow> coordinator" where
  "gc_Close why c =
    (case co_Cycle c of None \<Rightarrow> c
     | Some cy \<Rightarrow>
         let history = co_History c @ [cy\<lparr>cy_Phase := ''closed'', cy_Reason := why\<rparr>]
         in reset_pace (consumed (c\<lparr>co_History := history, co_Cycle := None,
              co_NextMandate := length history mod length mandateRotation\<rparr>)))"

definition Require :: "string \<Rightarrow> string \<Rightarrow> coordinator \<Rightarrow> gc_error list" where
  "Require session role c =
    (case co_Cycle c of None \<Rightarrow> [NotParticipant]
     | Some cy \<Rightarrow> if mget [] (cy_Sessions cy) role = [] \<or> mget [] (cy_Sessions cy) role \<noteq> session
                  then [NotParticipant] else [])"

end
