(* ===== verification/Gc_Props.thy ===== *)
theory Gc_Props
  imports Gc_Pace Vfs_Example
begin

text \<open>
  Properties of the maintenance cycle: what a collector may edit, and that a due cycle is not put off
  for ever.
\<close>

section \<open>The authorized scope\<close>

lemma trigger_policy: "LoadTriggerPolicy = Inr trigger_policy_yaml"
  by (simp add: LoadTriggerPolicy_def parseTriggerPolicy_def trigger_policy_yaml_def)

definition backed :: "gc_plan \<Rightarrow> finding list \<Rightarrow> investigation list \<Rightarrow> mandate list \<Rightarrow> string \<Rightarrow> bool" where
  "backed plan findings rs demoted p \<longleftrightarrow> p \<in> set (pl_Closure plan) \<and>
     list_ex (\<lambda>f. fi_Path f = p \<and> AuthorizedFinding f rs demoted) findings"

lemma scope_loop_backed:
  "scope_loop p plan rs demoted fs out n = Inr scope \<Longrightarrow> int (length out) \<le> n \<Longrightarrow> n \<le> tp_Findings p \<Longrightarrow>
    int (length out) \<le> tp_Files p \<Longrightarrow> distinct out \<Longrightarrow>
    distinct scope \<and> int (length scope) \<le> tp_Findings p \<and> int (length scope) \<le> tp_Files p \<and>
    (\<forall>x \<in> set scope. x \<in> set out \<or> backed plan fs rs demoted x)"
proof (induction fs arbitrary: out n)
  case (Cons f fs)
  have mono: "backed plan fs rs demoted x \<Longrightarrow> backed plan (f # fs) rs demoted x" for x by (simp add: backed_def)
  show ?case
  proof (cases "AuthorizedFinding f rs demoted \<and> fi_Path f \<in> set (pl_Closure plan) \<and> n < tp_Findings p \<and>
      (fi_Path f \<notin> set out \<longrightarrow> int (length out) < tp_Files p)")
    case True
    then have "backed plan (f # fs) rs demoted (fi_Path f)" by (simp add: backed_def)
    then show ?thesis
      using True Cons.prems Cons.IH [of "out @ [fi_Path f]" "n + 1"] Cons.IH [of out "n + 1"] mono
      by (cases "fi_Path f \<in> set out") auto
  next
    case False
    then show ?thesis using Cons.prems Cons.IH [of out n] mono by (auto split: if_splits)
  qed
qed simp

lemma authorized: "AuthorizedFinding f rs demoted \<Longrightarrow> \<not> fi_Introduced f \<and> \<not> fi_Exported f \<and> \<not> fi_ProposalOnly f \<and>
    fi_Status f \<noteq> StatusPending \<and> fi_Mandate f \<notin> set demoted \<and>
    list_ex (\<lambda>r. iv_FindingID r = fi_ID f \<and> iv_Outcome r = ''confirmed'' \<and> \<not> blank (iv_Evidence r)) rs"
  by (simp add: AuthorizedFinding_def eligibleFinding_def split: if_splits)

lemma list_ex_mono': "list_ex P xs \<Longrightarrow> (\<And>x. P x \<Longrightarrow> Q x) \<Longrightarrow> list_ex Q xs"
  by (auto simp: list_ex_iff)

text \<open>C36: What a collector may edit is small and every path of it is earned: when \<open>AuthorizedScope\<close>
  answers, the scope has at most three distinct paths, each in the causal closure of the cycle and each
  named by a finding that a confirmed investigation with evidence stands behind and that is not
  introduced by the session, exported, proposal-only, pending or of a demoted mandate.\<close>

theorem authorized_scope_is_earned:
  assumes "AuthorizedScope plan findings investigations demoted = Inr scope"
  shows "distinct scope \<and> sorted scope \<and> length scope \<le> 3 \<and>
    list_all (\<lambda>path. path \<in> set (pl_Closure plan) \<and> list_ex (\<lambda>f. fi_Path f = path \<and>
      \<not> fi_Introduced f \<and> \<not> fi_Exported f \<and> \<not> fi_ProposalOnly f \<and> fi_Status f \<noteq> StatusPending \<and>
      fi_Mandate f \<notin> set demoted \<and> list_ex (\<lambda>r. iv_FindingID r = fi_ID f \<and> iv_Outcome r = ''confirmed'' \<and>
        \<not> blank (iv_Evidence r)) investigations) findings) scope"
proof -
  obtain out where out: "scope_loop trigger_policy_yaml plan investigations demoted findings [] 0 = Inr out" "scope = sort out"
    using assms by (auto simp: AuthorizedScope_def trigger_policy map_sum_def split: sum.splits)
  have "distinct out \<and> int (length out) \<le> tp_Findings trigger_policy_yaml \<and>
      (\<forall>x \<in> set out. x \<in> set [] \<or> backed plan findings investigations demoted x)"
    using scope_loop_backed [OF out(1)] by (simp add: trigger_policy_yaml_def)
  then show ?thesis
    using authorized
    by (auto simp: out(2) trigger_policy_yaml_def backed_def list_all_iff elim!: list_ex_mono')
qed

definition dead_finding :: "string \<Rightarrow> string \<Rightarrow> finding" where
  "dead_finding fid path = \<lparr>fi_Mandate = MandateDeadCode, fi_Language = ''go'', fi_Tool = ''deadcode'', fi_ToolVersion = ''1'',
     fi_Rule = ''dead'', fi_Evidence = ''unreachable'', fi_Investigation = [], fi_ProposalOnly = False,
     fi_Introduced = False, fi_ID = fid, fi_Status = StatusDead, fi_Path = path, fi_Symbol = ''f'', fi_Kind = ''function'',
     fi_Line = 1, fi_Exported = False\<rparr>"

definition confirmed_by :: "string \<Rightarrow> investigation" where
  "confirmed_by fid = \<lparr>iv_FindingID = fid, iv_CycleID = ''c'', iv_SessionID = ''s'', iv_Instance = ''simplify'',
     iv_Outcome = ''confirmed'', iv_Evidence = ''no caller'', iv_At = 1\<rparr>"

definition demo_plan :: gc_plan where
  "demo_plan = \<lparr>pl_Request = \<lparr>gq_SessionID = ''s'', gq_CycleID = ''c'', gq_Mandate = MandateDeadCode\<rparr>, pl_Delta = [],
     pl_Closure = [''a.go'', ''b.go''], pl_Reachability = ReachCodegraph, pl_Gap = []\<rparr>"

theorem authorized_scope_is_earned_witness:
  "AuthorizedScope demo_plan [dead_finding ''1'' ''b.go'', dead_finding ''2'' ''a.go''] [confirmed_by ''1''] [] = Inr [''b.go''] \<and>
   length [''b.go''] \<le> 3"
proof -
  have "AuthorizedScope demo_plan [dead_finding ''1'' ''b.go'', dead_finding ''2'' ''a.go''] [confirmed_by ''1''] [] = Inr [''b.go'']"
    by code_simp
  then show ?thesis using authorized_scope_is_earned by blast
qed

section \<open>The pace\<close>

text \<open>What the outside world holds at one advance.\<close>

record advance_input =
  ai_fs :: fs
  ai_hist :: hist
  ai_entries :: "JournalEntry list"
  ai_session :: string
  ai_reach :: "(string \<Rightarrow> string + string list) option"
  ai_random :: "string option"
  ai_now :: int

definition advance :: "advance_input \<Rightarrow> coordinator \<Rightarrow> (decision \<times> barrier_verdict \<times> gc_error list) \<times> coordinator" where
  "advance i = Advance (ai_fs i) (ai_hist i) (ai_entries i) (ai_session i) (ai_reach i) (ai_random i) (ai_now i)"











text \<open>A cycle the user asked for, held up by an author's pending work.\<close>

definition demo_coordinator :: coordinator where
  "demo_coordinator = fresh_coordinator\<lparr>co_Session := ''s'', co_Requested := True\<rparr>"

definition demo_advance :: advance_input where
  "demo_advance = \<lparr>ai_fs = demo_staged, ai_hist = \<lparr>h_entries = [], h_faults = []\<rparr>, ai_entries = s_journal demo_staged,
     ai_session = ''s'', ai_reach = None, ai_random = Some ''c'', ai_now = 1\<rparr>"



section \<open>Starts that fail\<close>

text \<open>
  A start that fails past the barrier is not counted on top of the deferrals before it: the barrier has
  set the count to zero by then, so the count is one after every failed start and the valve that aborts
  a cycle after three deferrals is never reached.
\<close>

theorem failed_start_resets_deferrals:
  "case advance (demo_advance\<lparr>ai_fs := demo_bound, ai_random := None\<rparr>) (demo_coordinator\<lparr>co_Deferrals := 2\<rparr>) of
     ((d, v, e), c) \<Rightarrow> de_Outcome d = OutcomeRun \<and> bv_Proceed v \<and> e = [EntropyFailed] \<and> co_Deferrals c = 1"
  by code_simp

end
