(* ===== verification/Cfg_Json.thy ===== *)
theory Cfg_Json
  imports Takt_Prelude
begin

text \<open>
  Merging of the user's JSON configuration (\<open>takt/internal/filemerge\<close>: \<open>json_merge.go\<close>,
  \<open>remove.go\<close>, \<open>mcp.go\<close>): the normalization of commented JSON, the deep merge and the removal of a
  key. \<open>encoding/json\<close> decodes to and encodes from the values below.
\<close>

section \<open>Normalization\<close>

record jsonString =
  js_in :: bool
  js_escaped :: bool

definition outside :: jsonString where
  "outside = \<lparr>js_in = False, js_escaped = False\<rparr>"

definition consume :: "jsonString \<Rightarrow> char \<Rightarrow> bool \<times> jsonString" where
  "consume s ch =
    (if js_in s \<and> js_escaped s then (True, s\<lparr>js_escaped := False\<rparr>)
     else if js_in s \<and> ch = CHR 0x5C then (True, s\<lparr>js_escaped := True\<rparr>)
     else if js_in s \<and> ch = CHR 0x22 then (True, s\<lparr>js_in := False\<rparr>)
     else if js_in s then (True, s)
     else if ch = CHR 0x22 then (True, s\<lparr>js_in := True\<rparr>)
     else (False, s))"

text \<open>\<open>blank\<close> of the source.\<close>

definition blank_byte :: "char \<Rightarrow> char" where
  "blank_byte ch = (if ch = CHR 0x0A \<or> ch = CHR 0x0D then ch else CHR '' '')"

text \<open>The byte after the current one, zero at the end.\<close>

definition next_byte :: "string \<Rightarrow> char" where
  "next_byte rest = (case rest of [] \<Rightarrow> CHR 0x00 | d # _ \<Rightarrow> d)"

datatype comment_mode = InCode | InLine | InBlock

text \<open>The loop of \<open>stripJSONComments\<close>: the mode is its two flags, of which at most one is set.\<close>

function strip_comments :: "comment_mode \<Rightarrow> jsonString \<Rightarrow> string \<Rightarrow> string" where
  "strip_comments mode str [] = []"
| "strip_comments mode str (ch # rest) =
    (case mode of
       InLine \<Rightarrow> if ch = CHR 0x0A then ch # strip_comments InCode str rest else CHR '' '' # strip_comments InLine str rest
     | InBlock \<Rightarrow> if ch = CHR ''*'' \<and> next_byte rest = CHR ''/''
         then CHR '' '' # CHR '' '' # strip_comments InCode str (drop 1 rest)
         else blank_byte ch # strip_comments InBlock str rest
     | InCode \<Rightarrow>
         (case consume str ch of (consumed, str') \<Rightarrow>
            if consumed then ch # strip_comments InCode str' rest
            else if ch = CHR ''/'' \<and> next_byte rest = CHR ''/''
              then CHR '' '' # CHR '' '' # strip_comments InLine str' (drop 1 rest)
            else if ch = CHR ''/'' \<and> next_byte rest = CHR ''*''
              then CHR '' '' # CHR '' '' # strip_comments InBlock str' (drop 1 rest)
            else ch # strip_comments InCode str' rest))"
  by pat_completeness auto
termination by (relation "measure (\<lambda>(mode, str, s). length s)") auto

definition stripJSONComments :: "string \<Rightarrow> string" where
  "stripJSONComments raw = strip_comments InCode outside raw"

fun closesContainer :: "string \<Rightarrow> bool" where
  "closesContainer [] = False"
| "closesContainer (c # rest) =
    (if c \<in> {CHR '' '', CHR 0x09, CHR 0x0A, CHR 0x0D} then closesContainer rest
     else c \<in> {CHR ''}'', CHR '']''})"

fun strip_commas :: "jsonString \<Rightarrow> string \<Rightarrow> string" where
  "strip_commas str [] = []"
| "strip_commas str (ch # rest) =
    (case consume str ch of (consumed, str') \<Rightarrow>
       (if consumed \<or> ch \<noteq> CHR '','' \<or> \<not> closesContainer rest then ch else CHR '' '') # strip_commas str' rest)"

definition stripTrailingCommas :: "string \<Rightarrow> string" where
  "stripTrailingCommas raw = strip_commas outside raw"

definition NormalizeJSON :: "string \<Rightarrow> string" where
  "NormalizeJSON raw = stripTrailingCommas (stripJSONComments raw)"

section \<open>Values\<close>

text \<open>
  A decoded value. An object is the list of its members in the order of their keys, so that two equal
  values are the same term; \<open>canonical\<close> says so of the values inside too. A number is the value
  \<open>encoding/json\<close> reads, by its text.
\<close>

datatype json = JNull | JBool bool | JNum string | JStr string | JArr "json list" | JObj "(string \<times> json) list"

type_synonym json_object = "(string \<times> json) list"

fun oput :: "string \<Rightarrow> json \<Rightarrow> json_object \<Rightarrow> json_object" where
  "oput k v [] = [(k, v)]"
| "oput k v ((j, w) # m) =
    (if k = j then (k, v) # m else if k < j then (k, v) # (j, w) # m else (j, w) # oput k v m)"

text \<open>A missing member reads as \<open>nil\<close>, which is also what \<open>null\<close> decodes to.\<close>

definition oget :: "json_object \<Rightarrow> string \<Rightarrow> json" where
  "oget m k = mget JNull m k"

fun canonical :: "json \<Rightarrow> bool" where
  "canonical (JArr xs) = list_all canonical xs"
| "canonical (JObj m) = (sorted_wrt (<) (map fst m) \<and> list_all (\<lambda>p. canonical (snd p)) m)"
| "canonical _ = True"

section \<open>The merge\<close>

definition ReplaceSentinel :: string where "ReplaceSentinel = ''__replace__''"

definition asSentinel :: "json \<Rightarrow> json option" where
  "asSentinel v = (case v of JObj [(k, replacement)] \<Rightarrow> if k = ReplaceSentinel then Some replacement else None | _ \<Rightarrow> None)"

definition arrayUnionKeys :: "string list" where
  "arrayUnionKeys = [''plugins'', ''skills'', ''instructions'']"

definition containsArrayEntry :: "json list \<Rightarrow> json \<Rightarrow> bool" where
  "containsArrayEntry entries candidate = list_ex (\<lambda>e. e = candidate) entries"

definition unionArrays :: "json list \<Rightarrow> json list \<Rightarrow> json list" where
  "unionArrays base overlay =
    fold (\<lambda>candidate merged. if containsArrayEntry merged candidate then merged else merged @ [candidate]) overlay base"

definition members :: "json \<Rightarrow> json_object" where
  "members v = (case v of JObj m \<Rightarrow> m | _ \<Rightarrow> [])"

function mergeValue :: "json \<Rightarrow> json \<Rightarrow> bool \<Rightarrow> json"
  and mergeObjects :: "json_object \<Rightarrow> json_object \<Rightarrow> json_object" where
  "mergeValue baseValue overlayValue registry =
    (case asSentinel overlayValue of Some replacement \<Rightarrow> replacement
     | None \<Rightarrow>
         (case overlayValue of
            JObj overlayMap \<Rightarrow> JObj (mergeObjects (members baseValue) overlayMap)
          | JArr overlayArray \<Rightarrow>
              (case baseValue of JArr baseArray \<Rightarrow> if registry then JArr (unionArrays baseArray overlayArray) else overlayValue
               | _ \<Rightarrow> overlayValue)
          | _ \<Rightarrow> overlayValue))"
| "mergeObjects base [] = base"
| "mergeObjects base ((key, overlayValue) # rest) =
    mergeObjects (oput key (mergeValue (oget base key) overlayValue (key \<in> set arrayUnionKeys)) base) rest"
  by pat_completeness auto
termination
  by (relation "measure (\<lambda>x. case x of Inl (b, v, u) \<Rightarrow> size v | Inr (b, m) \<Rightarrow> size_list (size_prod (\<lambda>_. 0) size) m)") auto

section \<open>Documents\<close>

text \<open>
  \<open>encoding/json\<close>: a text decodes to a value or fails at an offset with a reason, and a value encodes
  with the indentation of the source.
\<close>

record codec =
  cd_decode :: "string \<Rightarrow> (int \<times> string) + json"
  cd_encode :: "json \<Rightarrow> string"

record InvalidJSONError =
  ij_Line :: int
  ij_Column :: int
  ij_Reason :: string

text \<open>\<open>bytes.LastIndexByte\<close>, \<open>-1\<close> when there is none.\<close>

fun last_index :: "char \<Rightarrow> string \<Rightarrow> int" where
  "last_index c [] = -1"
| "last_index c (d # s) = (let i = last_index c s in if i \<ge> 0 then i + 1 else if d = c then 0 else -1)"

definition invalidJSONAt :: "string \<Rightarrow> int \<Rightarrow> string \<Rightarrow> InvalidJSONError" where
  "invalidJSONAt raw offset why =
    (let offset = max 0 (min offset (int (length raw) - 1));
         before = take (nat offset) raw
     in \<lparr>ij_Line = int (count_list before (CHR 0x0A)) + 1,
         ij_Column = int (length before) - (last_index (CHR 0x0A) before + 1) + 1, ij_Reason = why\<rparr>)"

definition jsonKind :: "json \<Rightarrow> string" where
  "jsonKind v = (case v of JNull \<Rightarrow> ''null'' | JArr _ \<Rightarrow> ''an array'' | JStr _ \<Rightarrow> ''a string''
     | JBool _ \<Rightarrow> ''a boolean'' | _ \<Rightarrow> ''a number'')"

definition json_blank :: "char \<Rightarrow> bool" where
  "json_blank c \<longleftrightarrow> c \<in> {CHR '' '', CHR 0x09, CHR 0x0D, CHR 0x0A}"

text \<open>\<open>blank\<close> is whether \<open>bytes.TrimSpace\<close> leaves nothing.\<close>

definition ParseJSONObject :: "codec \<Rightarrow> string \<Rightarrow> InvalidJSONError + json_object" where
  "ParseJSONObject cd raw =
    (let normalized = NormalizeJSON raw
     in if blank normalized then Inr []
        else case cd_decode cd normalized of
          Inl (offset, why) \<Rightarrow> Inl (invalidJSONAt raw (offset - 1) why)
        | Inr (JObj m) \<Rightarrow> Inr m
        | Inr v \<Rightarrow>
            Inl (invalidJSONAt raw (int (length raw - length (dropWhile json_blank normalized)))
              (''root is '' @ jsonKind v @ '', not an object'')))"

text \<open>Which of the two inputs is unreadable, and where.\<close>

datatype merge_error = BaseInvalid InvalidJSONError | OverlayInvalid InvalidJSONError

definition MergeJSONObjects :: "codec \<Rightarrow> string \<Rightarrow> string \<Rightarrow> merge_error + string" where
  "MergeJSONObjects cd baseJSON overlayJSON =
    (case ParseJSONObject cd baseJSON of
       Inl e \<Rightarrow> Inl (BaseInvalid e)
     | Inr base \<Rightarrow>
         (case ParseJSONObject cd overlayJSON of
            Inl e \<Rightarrow> Inl (OverlayInvalid e)
          | Inr overlay \<Rightarrow> Inr (cd_encode cd (JObj (mergeObjects base overlay)) @ [CHR 0x0A])))"

section \<open>Removal of a key\<close>

definition odel :: "string \<Rightarrow> json_object \<Rightarrow> json_object" where
  "odel k m = filter (\<lambda>p. fst p \<noteq> k) m"

text \<open>
  The objects \<open>findJSONPath\<close> walks, the deletion from the last of them and \<open>pruneJSONPath\<close> on the way
  back; \<open>None\<close> when the path or the key is not there.
\<close>

fun remove_key :: "string \<Rightarrow> string list \<Rightarrow> json_object \<Rightarrow> json_object option" where
  "remove_key key [] m = (if mhas m key then Some (odel key m) else None)"
| "remove_key key (parent # parents) m =
    (case map_of m parent of
       Some (JObj nested) \<Rightarrow>
         (case remove_key key parents nested of
            None \<Rightarrow> None
          | Some nested' \<Rightarrow> Some (if nested' = [] then odel parent m else oput parent (JObj nested') m))
     | _ \<Rightarrow> None)"

text \<open>
  What a path holds: nothing, a directory, a file, or a link to a file. \<open>ReadRegularFile\<close> refuses
  everything but a regular file of at most 16 MiB.
\<close>

datatype config_file = NoFile | Directory | Regular string | LinkTo string

datatype config_error = MergeFailed merge_error | ReadFailed

definition maxAtomicFileSize :: nat where "maxAtomicFileSize = 16777216"

definition read_config :: "config_file \<Rightarrow> config_error + string option" where
  "read_config f = (case f of NoFile \<Rightarrow> Inr None | Directory \<Rightarrow> Inl ReadFailed | LinkTo _ \<Rightarrow> Inl ReadFailed
     | Regular s \<Rightarrow> if length s > maxAtomicFileSize then Inl ReadFailed else Inr (Some s))"

text \<open>The file and whether it changed, when every write of \<open>EditFileAtomic\<close> succeeds.\<close>

definition MergeJSONFile :: "codec \<Rightarrow> string \<Rightarrow> config_file \<Rightarrow> config_error + bool \<times> config_file" where
  "MergeJSONFile cd overlay f =
    (case read_config f of
       Inl e \<Rightarrow> Inl e
     | Inr existing \<Rightarrow>
         (case MergeJSONObjects cd (case existing of None \<Rightarrow> [] | Some s \<Rightarrow> s) overlay of
            Inl e \<Rightarrow> Inl (MergeFailed e)
          | Inr merged \<Rightarrow> Inr (existing \<noteq> Some merged, Regular merged)))"

text \<open>
  \<open>RemoveJSONKey\<close> decodes the bytes as they are, read through a link, and leaves alone what does not
  decode to an object (\<open>null\<close> decodes to one without members). The write refuses what
  \<open>ReadRegularFile\<close> refuses.
\<close>

definition remove_from :: "codec \<Rightarrow> string \<Rightarrow> string list \<Rightarrow> string \<Rightarrow> json_object option" where
  "remove_from cd key parents raw =
    (case cd_decode cd raw of Inr (JObj root) \<Rightarrow> remove_key key parents root | _ \<Rightarrow> None)"

definition RemoveJSONKey :: "codec \<Rightarrow> string \<Rightarrow> string list \<Rightarrow> config_file \<Rightarrow> config_error + bool \<times> config_file" where
  "RemoveJSONKey cd key parents f =
    (case f of NoFile \<Rightarrow> Inr (False, f) | Directory \<Rightarrow> Inl ReadFailed
     | LinkTo raw \<Rightarrow> (case remove_from cd key parents raw of None \<Rightarrow> Inr (False, f) | Some _ \<Rightarrow> Inl ReadFailed)
     | Regular raw \<Rightarrow>
         (case remove_from cd key parents raw of None \<Rightarrow> Inr (False, f)
          | Some root \<Rightarrow> if length raw > maxAtomicFileSize then Inl ReadFailed
              else Inr (True, Regular (cd_encode cd (JObj root) @ [CHR 0x0A]))))"

section \<open>Registration of a server\<close>

definition MCPKeyOpenCode :: string where "MCPKeyOpenCode = ''mcp''"
definition MCPServersKeyOpenCode :: string where "MCPServersKeyOpenCode = ''servers''"

definition mcp_server :: "string list \<Rightarrow> json" where
  "mcp_server command =
    JObj [(''command'', JArr (map JStr command)), (''disabled'', JBool False), (''type'', JStr ''local'')]"

definition mcp_overlay :: "string \<Rightarrow> string list \<Rightarrow> json_object" where
  "mcp_overlay name command =
    [(MCPKeyOpenCode, JObj [(MCPServersKeyOpenCode, JObj [(name, JObj [(ReplaceSentinel, mcp_server command)])])])]"

definition InjectMCPServer :: "codec \<Rightarrow> string \<Rightarrow> string list \<Rightarrow> config_file \<Rightarrow> config_error + bool \<times> config_file" where
  "InjectMCPServer cd name command f =
    (case MergeJSONFile cd (cd_encode cd (JObj (mcp_overlay name command)) @ [CHR 0x0A]) f of
       Inl e \<Rightarrow> Inl e
     | Inr (changed, f1) \<Rightarrow>
         (case RemoveJSONKey cd name [MCPKeyOpenCode] f1 of
            Inl e \<Rightarrow> Inl e
          | Inr (dropped, f2) \<Rightarrow> Inr (changed \<or> dropped, f2)))"

definition RemoveMCPServer :: "codec \<Rightarrow> string \<Rightarrow> config_file \<Rightarrow> config_error + bool \<times> config_file" where
  "RemoveMCPServer cd name f = RemoveJSONKey cd name [MCPKeyOpenCode, MCPServersKeyOpenCode] f"

end
