(* ===== verification/Cfg_Section.thy ===== *)
theory Cfg_Section
  imports Takt_Prelude
begin

text \<open>
  The marked section of a markdown file (\<open>takt/internal/filemerge/section.go\<close>): how it is replaced,
  appended or removed between its two markers.
\<close>

section \<open>Searching\<close>

text \<open>\<open>strings.Index\<close>, with no index for a string that does not occur.\<close>

fun index_of :: "string \<Rightarrow> string \<Rightarrow> nat option" where
  "index_of p [] = (if p = [] then Some 0 else None)"
| "index_of p (c # s) = (if has_prefix (c # s) p then Some 0 else map_option Suc (index_of p s))"

text \<open>\<open>strings.TrimRight(s, "\n")\<close>.\<close>

definition trim_newlines :: "string \<Rightarrow> string" where
  "trim_newlines s = rev (dropWhile (\<lambda>c. c = CHR 0x0A) (rev s))"

section \<open>Markers\<close>

definition markerPrefix :: string where "markerPrefix = ''<!-- takt-ai:''"
definition markerSuffix :: string where "markerSuffix = '' -->''"
definition closePrefix :: string where "closePrefix = ''<!-- /takt-ai:''"

definition openMarker :: "string \<Rightarrow> string" where
  "openMarker sectionID = markerPrefix @ sectionID @ markerSuffix"

definition closeMarker :: "string \<Rightarrow> string" where
  "closeMarker sectionID = closePrefix @ sectionID @ markerSuffix"

text \<open>\<open>content[:i] + content[i+len(marker):]\<close>.\<close>

definition cut_at :: "nat \<Rightarrow> string \<Rightarrow> string \<Rightarrow> string" where
  "cut_at i marker content = take i content @ drop (i + length marker) content"

lemma index_of_bound: "index_of p s = Some i \<Longrightarrow> i + length p \<le> length s"
proof (induction s arbitrary: i)
  case (Cons c s)
  show ?case
  proof (cases "has_prefix (c # s) p")
    case True
    then obtain t where "c # s = p @ t" by (auto simp: has_prefix_iff)
    then have "length (c # s) = length p + length t" by (metis length_append)
    with True Cons.prems show ?thesis by simp
  next
    case False
    with Cons.prems obtain j where "index_of p s = Some j" "i = Suc j" by auto
    with Cons.IH show ?thesis by simp
  qed
qed (simp split: if_splits)

lemma cut_shorter: "index_of p s = Some i \<Longrightarrow> p \<noteq> [] \<Longrightarrow> length (cut_at i p s) < length s"
  using index_of_bound [of p s i] by (cases p) (simp_all add: cut_at_def)

text \<open>
  The loop of \<open>stripOrphanMarkers\<close>. The markers are never empty; the first test makes the function
  total for every argument.
\<close>

function stripOrphanMarkers :: "string \<Rightarrow> string \<Rightarrow> string \<Rightarrow> string" where
  "stripOrphanMarkers content opener closer =
    (if opener = [] \<or> closer = [] then content
     else case (index_of opener content, index_of closer content) of
       (None, None) \<Rightarrow> content
     | (None, Some j) \<Rightarrow> stripOrphanMarkers (cut_at j closer content) opener closer
     | (Some i, None) \<Rightarrow> stripOrphanMarkers (cut_at i opener content) opener closer
     | (Some i, Some j) \<Rightarrow>
         if j < i then stripOrphanMarkers (cut_at j closer content) opener closer else content)"
  by pat_completeness auto
termination by (relation "measure (\<lambda>(content, opener, closer). length content)") (auto simp: cut_shorter)

declare stripOrphanMarkers.simps [simp del]

section \<open>Injection\<close>

definition sectionBlock :: "string \<Rightarrow> string \<Rightarrow> string \<Rightarrow> string" where
  "sectionBlock opener content closer =
    (let content = (if has_suffix content [CHR 0x0A] then content else content @ [CHR 0x0A])
     in opener @ [CHR 0x0A] @ content @ closer)"

definition withoutSection :: "string \<Rightarrow> string \<Rightarrow> string" where
  "withoutSection before after =
    (let after = trim_prefix after [CHR 0x0A]; result = trim_newlines before;
         result' = (if result \<noteq> [] then result @ [CHR 0x0A] else result)
     in if after \<noteq> [] then result' @ after else result')"

definition InjectMarkdownSection :: "string \<Rightarrow> string \<Rightarrow> string \<Rightarrow> string" where
  "InjectMarkdownSection existing0 sectionID content =
    (let opener = openMarker sectionID; closer = closeMarker sectionID;
         existing = stripOrphanMarkers existing0 opener closer;
         separator = (if existing = [] then []
           else (if has_suffix existing [CHR 0x0A] then [] else [CHR 0x0A]) @ [CHR 0x0A]);
         absent = (if content = [] then existing
           else existing @ separator @ sectionBlock opener content closer @ [CHR 0x0A])
     in case (index_of opener existing, index_of closer existing) of
          (Some i, Some j) \<Rightarrow>
            if j > i then
              (let before = take i existing; after = drop (j + length closer) existing
               in if content = [] then withoutSection before after
                  else before @ sectionBlock opener content closer @ after)
            else absent
        | _ \<Rightarrow> absent)"

end
