(* ===== verification/Cfg_Props.thy ===== *)
theory Cfg_Props
  imports Cfg_Json Cfg_Section
begin

text \<open>
  What a merge of the user's configuration promises: normalization moves nothing, the merge keeps what
  the overlay does not name and is idempotent, and a server's registration can be taken back.
\<close>

section \<open>Objects\<close>

lemma map_of_oput [simp]: "map_of (oput k v m) = (map_of m)(k \<mapsto> v)"
  by (induction k v m rule: oput.induct) auto

lemma oget_oput [simp]: "oget (oput k v m) j = (if j = k then v else oget m j)"
  by (simp add: oget_def mget_def)

lemma keys_oput: "fst ` set (oput k v m) = insert k (fst ` set m)"
  by (induction k v m rule: oput.induct) auto

lemma sorted_oput: "sorted_wrt (<) (map fst m) \<Longrightarrow> sorted_wrt (<) (map fst (oput k v m))"
proof (induction k v m rule: oput.induct)
  case (2 k v j w m)
  consider "k = j" | "k \<noteq> j" "k < j" | "k \<noteq> j" "\<not> k < j" by blast
  then show ?case
  proof cases
    case 2
    with "2.prems" show ?thesis by (auto dest: order.strict_trans)
  next
    case 3
    with 2 keys_oput [of k v m] show ?thesis by (auto simp: not_less image_iff order.order_iff_strict)
  qed (use "2.prems" in auto)
qed simp

lemma set_oput: "p \<in> set (oput k v m) \<Longrightarrow> p = (k, v) \<or> p \<in> set m"
  by (induction k v m rule: oput.induct) (auto split: if_splits)

lemma canonical_JObj: "canonical (JObj m) \<longleftrightarrow> sorted_wrt (<) (map fst m) \<and> (\<forall>p \<in> set m. canonical (snd p))"
  by (simp add: list_all_iff)

declare canonical.simps(2) [simp del] mergeValue.simps [simp del]

lemma canonical_oput: "canonical (JObj m) \<Longrightarrow> canonical v \<Longrightarrow> canonical (JObj (oput k v m))"
  unfolding canonical_JObj using sorted_oput set_oput by fastforce

lemma canonical_lookup: "canonical (JObj m) \<Longrightarrow> map_of m k = Some v \<Longrightarrow> canonical v"
  using map_of_SomeD [of m k v] by (fastforce simp: canonical_JObj)

lemma canonical_oget: "canonical (JObj m) \<Longrightarrow> canonical (oget m k)"
  using canonical_lookup [of m k] by (cases "map_of m k") (simp_all add: oget_def mget_def)

lemma canonical_members: "canonical v \<Longrightarrow> canonical (JObj (members v))"
  by (cases v) (simp_all add: members_def canonical_JObj)

lemma canonical_distinct: "canonical (JObj m) \<Longrightarrow> distinct (map fst m)"
  using strict_sorted_iff by (auto simp: canonical_JObj)

lemma canonical_eqI:
  assumes "canonical (JObj m)" "canonical (JObj n)" "map_of m = map_of n"
  shows "m = n"
proof -
  have d: "distinct (map fst m)" "distinct (map fst n)" using assms by (auto dest: canonical_distinct)
  have s: "sorted (map fst m)" "sorted (map fst n)"
    using assms(1,2) by (auto simp: canonical_JObj strict_sorted_iff)
  have "set m = set n"
    using d assms(3) by (metis map_of_eq_Some_iff set_eqI surj_pair)
  moreover have "inj_on fst (set m)" using d by (simp add: distinct_map)
  ultimately show ?thesis
    using d s by (intro map_sorted_distinct_set_unique [of fst m n]) (auto simp: distinct_map)
qed

section \<open>The merge of two objects\<close>

lemma merge_lookup: "distinct (map fst overlay) \<Longrightarrow>
    map_of (mergeObjects base overlay) k = (case map_of overlay k of None \<Rightarrow> map_of base k
      | Some v \<Rightarrow> Some (mergeValue (oget base k) v (k \<in> set arrayUnionKeys)))"
proof (induction overlay arbitrary: base)
  case (Cons p overlay)
  obtain j w where p: "p = (j, w)" by force
  with Cons.prems have "map_of overlay j = None" by (simp add: map_of_eq_None_iff)
  with Cons show ?case by (auto simp: p split: option.split)
qed simp

lemma union_step: "\<exists>extra. unionArrays base overlay = base @ extra \<and> set extra \<subseteq> set overlay \<and>
    set overlay \<subseteq> set (base @ extra)"
proof (induction overlay rule: rev_induct)
  case (snoc x overlay)
  then obtain extra where e: "unionArrays base overlay = base @ extra" "set extra \<subseteq> set overlay"
    "set overlay \<subseteq> set (base @ extra)" by blast
  show ?case
  proof (cases "x \<in> set (base @ extra)")
    case True
    with e show ?thesis by (auto simp: unionArrays_def containsArrayEntry_def list_ex_iff)
  next
    case False
    with e have "unionArrays base (overlay @ [x]) = base @ (extra @ [x])"
      by (auto simp: unionArrays_def containsArrayEntry_def list_ex_iff)
    with e show ?thesis by (intro exI [of _ "extra @ [x]"]) auto
  qed
qed (simp add: unionArrays_def)

lemma union_contained: "set overlay \<subseteq> set base \<Longrightarrow> unionArrays base overlay = base"
  by (induction overlay) (auto simp: unionArrays_def containsArrayEntry_def list_ex_iff)

lemma union_idem: "unionArrays (unionArrays base overlay) overlay = unionArrays base overlay"
  using union_step [of base overlay] by (intro union_contained) auto

lemma canonical_union: "list_all canonical base \<Longrightarrow> list_all canonical overlay \<Longrightarrow>
    list_all canonical (unionArrays base overlay)"
  using union_step [of base overlay] by (fastforce simp: list_all_iff)

lemma sentinel_canonical: "canonical v \<Longrightarrow> asSentinel v = Some r \<Longrightarrow> canonical r"
  by (auto simp: asSentinel_def canonical_JObj split: json.splits list.splits if_splits)

lemma merge_canonical:
  "canonical b \<Longrightarrow> canonical v \<Longrightarrow> canonical (mergeValue b v u)"
  "canonical (JObj base) \<Longrightarrow> \<forall>p \<in> set overlay. canonical (snd p) \<Longrightarrow> canonical (JObj (mergeObjects base overlay))"
proof (induction b v u and base overlay rule: mergeValue_mergeObjects.induct)
  case (1 b v u)
  show ?case
  proof (cases "asSentinel v")
    case None
    then show ?thesis
    proof (cases v)
      case (JArr xs)
      with None 1(2,3) show ?thesis by (auto simp: mergeValue.simps [of b "JArr xs" u] canonical_union split: json.split)
    next
      case (JObj m)
      with None 1 canonical_members [of b] show ?thesis
        by (simp add: mergeValue.simps [of b "JObj m" u] canonical_JObj [of m])
    qed (use None in \<open>simp_all add: mergeValue.simps\<close>)
  qed (use 1(3) in \<open>simp add: mergeValue.simps [of b v u] sentinel_canonical\<close>)
next
  case (3 base key v rest)
  then show ?case using canonical_oget [of base key] canonical_oput [of base] by simp
qed simp_all

lemma merge_value_idem: "canonical b \<Longrightarrow> canonical v \<Longrightarrow> mergeValue (mergeValue b v u) v u = mergeValue b v u"
proof (induction v arbitrary: b u)
  case (JArr xs)
  then show ?case
    by (cases b) (simp_all add: mergeValue.simps asSentinel_def union_idem union_contained)
next
  case (JObj m)
  let ?v = "JObj m" and ?M = "members b"
  have M: "canonical (JObj ?M)" and d: "distinct (map fst m)" and all: "\<forall>p \<in> set m. canonical (snd p)"
    using canonical_members [OF JObj.prems(1)] canonical_distinct [OF JObj.prems(2)] JObj.prems(2)
    by (auto simp: canonical_JObj)
  have once: "canonical (JObj (mergeObjects ?M m))" and twice: "canonical (JObj (mergeObjects (mergeObjects ?M m) m))"
    using merge_canonical(2) [OF M all] merge_canonical(2) [OF _ all] by blast+
  have step: "mergeValue (mergeValue (oget ?M k) w r) w r = mergeValue (oget ?M k) w r" if "map_of m k = Some w" for k w r
    using JObj.IH [of "(k, w)" w "oget ?M k" r] map_of_SomeD [OF that] canonical_oget [OF M] canonical_lookup [OF JObj.prems(2) that]
    by simp
  have "map_of (mergeObjects (mergeObjects ?M m) m) = map_of (mergeObjects ?M m)"
  proof
    fix k
    show "map_of (mergeObjects (mergeObjects ?M m) m) k = map_of (mergeObjects ?M m) k"
      by (cases "map_of m k") (simp_all add: merge_lookup [OF d] oget_def mget_def step [unfolded oget_def mget_def])
  qed
  then have "mergeObjects (mergeObjects ?M m) m = mergeObjects ?M m" by (rule canonical_eqI [OF twice once])
  then show ?case by (cases "asSentinel ?v") (simp_all add: mergeValue.simps [of _ ?v] members_def)
qed (simp_all add: mergeValue.simps asSentinel_def)

lemma merge_objects_idem:
  assumes "canonical (JObj base)" "canonical (JObj overlay)"
  shows "mergeObjects (mergeObjects base overlay) overlay = mergeObjects base overlay"
proof -
  have all: "\<forall>p \<in> set overlay. canonical (snd p)" and d: "distinct (map fst overlay)"
    using assms(2) canonical_distinct by (auto simp: canonical_JObj)
  have "map_of (mergeObjects (mergeObjects base overlay) overlay) k = map_of (mergeObjects base overlay) k" for k
  proof (cases "map_of overlay k")
    case (Some v)
    then show ?thesis
      using merge_value_idem [OF canonical_oget [OF assms(1)] canonical_lookup [OF assms(2) Some], of k]
      by (simp add: merge_lookup [OF d] oget_def mget_def)
  qed (simp add: merge_lookup [OF d])
  then show ?thesis using assms merge_canonical(2) [OF _ all] by (intro canonical_eqI) auto
qed

section \<open>What the overlay does not name\<close>

fun json_at :: "string list \<Rightarrow> json \<Rightarrow> json option" where
  "json_at [] v = Some v"
| "json_at (k # p) v = (case map_of (members v) k of None \<Rightarrow> None | Some w \<Rightarrow> json_at p w)"

text \<open>A path the overlay leaves alone: on the way down it stops naming the members of the path.\<close>

fun spared :: "string list \<Rightarrow> json_object \<Rightarrow> bool" where
  "spared [] overlay = False"
| "spared (k # p) overlay = (case map_of overlay k of None \<Rightarrow> True
     | Some w \<Rightarrow> (case w of JObj m \<Rightarrow> asSentinel w = None \<and> spared p m | _ \<Rightarrow> False))"

lemma members_simps [simp]: "members (JObj m) = m" "members JNull = []"
  by (simp_all add: members_def)

lemma json_at_members: "p \<noteq> [] \<Longrightarrow> json_at p (JObj (members v)) = json_at p v"
  by (cases p) simp_all

lemma spared_kept: "canonical (JObj overlay) \<Longrightarrow> spared p overlay \<Longrightarrow>
    json_at p (JObj (mergeObjects base overlay)) = json_at p (JObj base)"
proof (induction p arbitrary: base overlay)
  case (Cons k p)
  have d: "distinct (map fst overlay)" by (rule canonical_distinct [OF Cons.prems(1)])
  show ?case
  proof (cases "map_of overlay k")
    case (Some w)
    with Cons.prems(2) obtain m where w: "w = JObj m" "asSentinel w = None" "spared p m" by (auto split: json.splits)
    have ne: "p \<noteq> []" using w(3) by auto
    have "canonical (JObj m)" using canonical_lookup [OF Cons.prems(1) Some] w(1) by simp
    note step = Cons.IH [OF this w(3), of "members (oget base k)"]
    have "json_at (k # p) (JObj (mergeObjects base overlay)) = json_at p (mergeValue (oget base k) w (k \<in> set arrayUnionKeys))"
      by (simp add: merge_lookup [OF d] Some)
    also have "\<dots> = json_at p (JObj (mergeObjects (members (oget base k)) m))"
      using w by (simp add: mergeValue.simps)
    also have "\<dots> = json_at p (oget base k)" unfolding step by (rule json_at_members [OF ne])
    also have "\<dots> = json_at (k # p) (JObj base)"
      using ne by (cases p) (auto simp: oget_def mget_def split: option.split)
    finally show ?thesis .
  qed (simp add: merge_lookup [OF d])
qed simp

lemma registry_grows:
  assumes "canonical (JObj overlay)" "k \<in> set arrayUnionKeys" "map_of base k = Some (JArr old)" "map_of overlay k = Some (JArr new)"
  shows "\<exists>extra. map_of (mergeObjects base overlay) k = Some (JArr (old @ extra)) \<and> set extra \<subseteq> set new \<and>
    set new \<subseteq> set (old @ extra)"
  using union_step [of old new]
  by (auto simp: merge_lookup [OF canonical_distinct [OF assms(1)]] assms oget_def mget_def mergeValue.simps asSentinel_def)

text \<open>C33: Merging a configuration never drops what is the user's: every path the overlay does not name
  holds after the merge what it held before, and an array of a user-extensible registry (plugins, skills,
  instructions) keeps its entries, in their order and in front, and only gains the entries it lacked.\<close>

theorem merge_keeps_user_content:
  assumes "canonical (JObj overlay)"
  shows "(spared p overlay \<longrightarrow> json_at p (JObj (mergeObjects base overlay)) = json_at p (JObj base)) \<and>
    (k \<in> set arrayUnionKeys \<longrightarrow> map_of base k = Some (JArr old) \<longrightarrow> map_of overlay k = Some (JArr new) \<longrightarrow>
      (\<exists>extra. map_of (mergeObjects base overlay) k = Some (JArr (old @ extra)) \<and>
         set extra \<subseteq> set new \<and> set new \<subseteq> set (old @ extra)))"
  using spared_kept [OF assms] registry_grows [OF assms] by blast

text \<open>Merging is idempotent and keeps objects well formed: deploying the same overlay again, at any
  nesting, with its replaced values and its registries, changes nothing.\<close>

theorem merge_is_idempotent:
  assumes "canonical (JObj base)" "canonical (JObj overlay)"
  shows "mergeObjects (mergeObjects base overlay) overlay = mergeObjects base overlay \<and>
    canonical (JObj (mergeObjects base overlay))"
  using merge_objects_idem [OF assms] merge_canonical(2) [OF assms(1)] assms(2) by (auto simp: canonical_JObj [of overlay])

section \<open>Registration of a server\<close>

lemma odel_lookup [simp]: "map_of (odel k m) = (map_of m)(k := None)"
  unfolding odel_def using map_of_mdel [of k m] by (simp add: mdel_def)

lemma canonical_odel: "canonical (JObj m) \<Longrightarrow> canonical (JObj (odel k m))"
  unfolding canonical_JObj odel_def by (auto simp: sorted_wrt_map sorted_wrt_filter)

lemma lookup_neq_Nil: "map_of m k = Some v \<Longrightarrow> m \<noteq> []"
  by auto

text \<open>A member that is an object, or none: its members are read as they are, and an object is put back.\<close>

definition object_or_absent :: "string \<Rightarrow> json_object \<Rightarrow> bool" where
  "object_or_absent k m \<longleftrightarrow> (case map_of m k of None \<Rightarrow> True | Some v \<Rightarrow> (case v of JObj n \<Rightarrow> True | _ \<Rightarrow> False))"

text \<open>An object without a member that is empty.\<close>

definition pruned_at :: "string \<Rightarrow> json_object \<Rightarrow> json_object" where
  "pruned_at k m = (if map_of m k = Some (JObj []) then odel k m else m)"

text \<open>
  A configuration without the server: \<open>mcp\<close>, and \<open>servers\<close> in it, are objects or absent, and neither
  has a member of the name. What is left of it when an empty \<open>servers\<close> and then an empty \<open>mcp\<close> are taken out.
\<close>

definition unregistered :: "string \<Rightarrow> json_object \<Rightarrow> bool" where
  "unregistered name m \<longleftrightarrow>
    (let mcp = members (oget m MCPKeyOpenCode); servers = members (oget mcp MCPServersKeyOpenCode)
     in object_or_absent MCPKeyOpenCode m \<and> object_or_absent MCPServersKeyOpenCode mcp \<and>
        \<not> mhas mcp name \<and> \<not> mhas servers name)"

definition pruned :: "json_object \<Rightarrow> json_object" where
  "pruned m = (if map_of m MCPKeyOpenCode = None then m
     else pruned_at MCPKeyOpenCode (oput MCPKeyOpenCode (JObj (pruned_at MCPServersKeyOpenCode (members (oget m MCPKeyOpenCode)))) m))"

lemma object_or_absent_cases:
  assumes "object_or_absent k m"
  obtains (absent) "map_of m k = None" "members (oget m k) = []"
    | (object) "map_of m k = Some (JObj (members (oget m k)))"
  using assms by (auto simp: object_or_absent_def oget_def mget_def split: option.splits json.splits)

lemma odel_absent: "map_of m k = None \<Longrightarrow> odel k m = m"
  by (force simp: odel_def filter_id_conv map_of_eq_None_iff)

lemma oput_oput: "oput k x (oput k y m) = oput k x m"
  by (induction k y m rule: oput.induct) auto

lemma odel_oput: "odel k (oput k x m) = odel k m"
  unfolding odel_def by (induction k x m rule: oput.induct) auto

lemma oput_same: "canonical (JObj m) \<Longrightarrow> map_of m k = Some (JObj n) \<Longrightarrow> oput k (JObj n) m = m"
proof -
  assume m: "canonical (JObj m)" "map_of m k = Some (JObj n)"
  then have "canonical (JObj (members (oget m k)))" by (intro canonical_members canonical_oget)
  then have "canonical (JObj n)" using m(2) by (simp add: oget_def mget_def)
  then show ?thesis using m by (intro canonical_eqI canonical_oput) auto
qed

text \<open>Taking back what was put beneath one key: the object is pruned when nothing else is in it.\<close>

lemma put_back:
  assumes "canonical (JObj m)" "object_or_absent k m" "n = members (oget m k)"
  shows "(if n = [] then odel k (oput k (JObj x) m) else oput k (JObj n) (oput k (JObj x) m)) = pruned_at k m"
  using assms(2)
proof (cases rule: object_or_absent_cases)
  case absent
  then show ?thesis using assms(3) by (simp add: odel_oput pruned_at_def odel_absent)
next
  case object
  then show ?thesis using assms oput_same [OF assms(1), of k n] by (auto simp: odel_oput oput_oput pruned_at_def)
qed

lemma merge_one: "mergeObjects m [(k, v)] = oput k (mergeValue (oget m k) v (k \<in> set arrayUnionKeys)) m"
  by simp

lemma registered_eq:
  fixes m name command
  defines "M \<equiv> members (oget m MCPKeyOpenCode)"
  defines "S \<equiv> members (oget M MCPServersKeyOpenCode)"
  assumes "name \<noteq> ReplaceSentinel"
  shows "mergeObjects m (mcp_overlay name command) =
    oput MCPKeyOpenCode (JObj (oput MCPServersKeyOpenCode (JObj (oput name (mcp_server command) S)) M)) m"
proof -
  have sent: "asSentinel (JObj [(name, v)]) = None" "asSentinel (JObj [(MCPServersKeyOpenCode, v)]) = None"
    "asSentinel (JObj [(ReplaceSentinel, v)]) = Some v" for v
    using assms(3) by (simp_all add: asSentinel_def ReplaceSentinel_def MCPServersKeyOpenCode_def)
  show ?thesis unfolding mcp_overlay_def merge_one mergeValue.simps sent M_def S_def by (simp add: sent mergeValue.simps)
qed

text \<open>What the merged members hold, what the clean-up of the old form finds in them, and what the removal leaves.\<close>

lemma registered_removed:
  fixes m name command
  assumes "canonical (JObj m)" "unregistered name m" "name \<noteq> ReplaceSentinel" "name \<noteq> MCPServersKeyOpenCode"
  defines "k \<equiv> mergeObjects m (mcp_overlay name command)"
  shows "json_at [MCPKeyOpenCode, MCPServersKeyOpenCode, name] (JObj k) = Some (mcp_server command)"
    "remove_key name [MCPKeyOpenCode] k = None"
    "remove_key name [MCPKeyOpenCode, MCPServersKeyOpenCode] k = Some (pruned m)"
proof -
  define M where "M = members (oget m MCPKeyOpenCode)"
  define S where "S = members (oget M MCPServersKeyOpenCode)"
  have un: "object_or_absent MCPKeyOpenCode m" "object_or_absent MCPServersKeyOpenCode M" "\<not> mhas M name" "\<not> mhas S name"
    using assms(2) by (simp_all add: unregistered_def M_def S_def Let_def)
  have c: "canonical (JObj M)" "canonical (JObj S)"
    unfolding S_def M_def by (intro canonical_members canonical_oget assms(1))+
  have eq: "k = oput MCPKeyOpenCode (JObj (oput MCPServersKeyOpenCode (JObj (oput name (mcp_server command) S)) M)) m"
    unfolding k_def M_def S_def by (rule registered_eq [OF assms(3)])
  show "json_at [MCPKeyOpenCode, MCPServersKeyOpenCode, name] (JObj k) = Some (mcp_server command)" by (simp add: eq)
  show "remove_key name [MCPKeyOpenCode] k = None" using un(3) assms(4) by (simp add: eq mhas_def)
  have "canonical (mcp_server command)"
    by (simp add: mcp_server_def canonical_JObj list_all_iff less_char_simp)
  then have "odel name (oput name (mcp_server command) S) = S"
    using un(4) c(2) by (intro canonical_eqI canonical_odel canonical_oput) (auto simp: mhas_def)
  then have "remove_key name [MCPKeyOpenCode, MCPServersKeyOpenCode] k =
      Some (if pruned_at MCPServersKeyOpenCode M = [] then odel MCPKeyOpenCode m
        else oput MCPKeyOpenCode (JObj (pruned_at MCPServersKeyOpenCode M)) m)"
    using put_back [OF c(1) un(2) S_def, of "oput name (mcp_server command) S"]
    by (simp add: eq mhas_def odel_oput oput_oput split: if_splits)
  moreover have "pruned m = (if pruned_at MCPServersKeyOpenCode M = [] then odel MCPKeyOpenCode m
        else oput MCPKeyOpenCode (JObj (pruned_at MCPServersKeyOpenCode M)) m)"
    using un(1)
  proof (cases rule: object_or_absent_cases)
    case absent
    then show ?thesis by (simp add: pruned_def pruned_at_def M_def odel_absent)
  next
    case object
    then show ?thesis by (auto simp: pruned_def pruned_at_def [of MCPKeyOpenCode] M_def odel_oput)
  qed
  ultimately show "remove_key name [MCPKeyOpenCode, MCPServersKeyOpenCode] k = Some (pruned m)" by simp
qed

lemma pruned_same:
  assumes "canonical (JObj m)" "map_of m MCPKeyOpenCode \<noteq> Some (JObj [])"
    and "map_of (members (oget m MCPKeyOpenCode)) MCPServersKeyOpenCode \<noteq> Some (JObj [])" "object_or_absent MCPKeyOpenCode m"
  shows "pruned m = m"
  using assms(4)
proof (cases rule: object_or_absent_cases)
  case object
  then show ?thesis using assms(1-3) oput_same [OF assms(1) object] by (simp add: pruned_def pruned_at_def)
qed (simp add: pruned_def)

text \<open>The file \<open>encoding/json\<close> writes for an object, which reads back as that object.\<close>

definition written :: "codec \<Rightarrow> json_object \<Rightarrow> string" where
  "written cd m = cd_encode cd (JObj m) @ [CHR 0x0A]"

definition reads_back :: "codec \<Rightarrow> json_object \<Rightarrow> bool" where
  "reads_back cd m \<longleftrightarrow> cd_decode cd (written cd m) = Inr (JObj m) \<and> ParseJSONObject cd (written cd m) = Inr m"

text \<open>C35: Registering a server in a configuration file and removing it again leaves the user's configuration as it
  was. The file is missing or a regular file that parses as an object, its members in the order of their keys
  as Go encodes a map, without the server: its \<open>mcp\<close>, and
  \<open>servers\<close> in it, are objects or absent, and neither has a member of the server's name, which is not
  \<open>servers\<close> nor the replacement sentinel. When what is written reads back and stays within the size limit, then
  \<open>InjectMCPServer\<close> changes the file to one that holds the server's entry, and \<open>RemoveMCPServer\<close>, run on that
  file, to one that holds the configuration from before, less an empty \<open>servers\<close> and an \<open>mcp\<close> that is empty
  then; when neither was empty, to exactly that configuration.\<close>

theorem registration_round_trip:
  assumes held: "read_config f = Inr existing" "ParseJSONObject cd (case existing of None \<Rightarrow> [] | Some s \<Rightarrow> s) = Inr m"
    and user: "canonical (JObj m)" "unregistered name m" "name \<noteq> ReplaceSentinel" "name \<noteq> MCPServersKeyOpenCode"
    and codec: "reads_back cd (mcp_overlay name command)" "reads_back cd (mergeObjects m (mcp_overlay name command))"
      "length (written cd (mergeObjects m (mcp_overlay name command))) \<le> maxAtomicFileSize"
  shows "\<exists>k. InjectMCPServer cd name command f = Inr (True, Regular (written cd k)) \<and>
    cd_decode cd (written cd k) = Inr (JObj k) \<and>
    json_at [MCPKeyOpenCode, MCPServersKeyOpenCode, name] (JObj k) = Some (mcp_server command) \<and>
    RemoveMCPServer cd name (Regular (written cd k)) = Inr (True, Regular (written cd (pruned m))) \<and>
    (map_of m MCPKeyOpenCode \<noteq> Some (JObj []) \<and>
     map_of (members (oget m MCPKeyOpenCode)) MCPServersKeyOpenCode \<noteq> Some (JObj []) \<longrightarrow> pruned m = m)"
proof -
  define k where "k = mergeObjects m (mcp_overlay name command)"
  note r = registered_removed [OF user, of command, folded k_def]
  have k: "cd_decode cd (written cd k) = Inr (JObj k)" "ParseJSONObject cd (written cd k) = Inr k"
      "ParseJSONObject cd (written cd (mcp_overlay name command)) = Inr (mcp_overlay name command)"
    using codec by (simp_all add: reads_back_def k_def)
  have "\<not> mhas (members (oget (members (oget m MCPKeyOpenCode)) MCPServersKeyOpenCode)) name"
    using user(2) by (simp add: unregistered_def Let_def)
  then have "json_at [MCPKeyOpenCode, MCPServersKeyOpenCode, name] (JObj m) = None"
    by (auto simp: oget_def mget_def mhas_def split: option.splits json.splits)
  then have "k \<noteq> m" using r(1) by auto
  then have new: "existing \<noteq> Some (written cd k)" using held(2) k(2) by auto
  have "MergeJSONFile cd (written cd (mcp_overlay name command)) f = Inr (True, Regular (written cd k))"
    using held k(3) new by (simp add: MergeJSONFile_def MergeJSONObjects_def written_def [symmetric] k_def [symmetric])
  then have "InjectMCPServer cd name command f = Inr (True, Regular (written cd k))"
    using k(1) r(2) by (simp add: InjectMCPServer_def written_def [symmetric] RemoveJSONKey_def remove_from_def)
  moreover have "RemoveMCPServer cd name (Regular (written cd k)) = Inr (True, Regular (written cd (pruned m)))"
    using k(1) r(3) codec(3) by (simp add: RemoveMCPServer_def RemoveJSONKey_def remove_from_def written_def [symmetric] k_def [symmetric])
  moreover have "object_or_absent MCPKeyOpenCode m" using user(2) by (simp add: unregistered_def Let_def)
  ultimately show ?thesis using r(1) k(1) pruned_same [OF user(1)] by blast
qed

section \<open>Normalization\<close>

text \<open>A byte kept, or a byte other than a newline blanked.\<close>

definition kept_or_blanked :: "char \<Rightarrow> char \<Rightarrow> bool" where
  "kept_or_blanked a b \<longleftrightarrow> b = a \<or> (b = CHR '' '' \<and> a \<noteq> CHR 0x0A)"

lemma kept_refl [simp]: "kept_or_blanked a a"
  by (simp add: kept_or_blanked_def)

lemma kept_trans: "kept_or_blanked a b \<Longrightarrow> kept_or_blanked b c \<Longrightarrow> kept_or_blanked a c"
  by (auto simp: kept_or_blanked_def)

lemma next_byte_drop: "next_byte rest = c \<Longrightarrow> c \<noteq> CHR 0x00 \<Longrightarrow> rest = c # drop 1 rest"
  by (cases rest) (simp_all add: next_byte_def)

lemma comments_blanked: "list_all2 kept_or_blanked s (strip_comments mode str s)"
proof (induction mode str s rule: strip_comments.induct)
  case (2 mode str ch rest)
  note ih = "2.IH"
  show ?case
  proof (cases mode)
    case InCode
    obtain consumed str' where c: "consume str ch = (consumed, str')" by force
    show ?thesis
    proof (cases "consumed \<or> \<not> (ch = CHR ''/'' \<and> (next_byte rest = CHR ''/'' \<or> next_byte rest = CHR ''*''))")
      case True
      then show ?thesis using ih InCode c by auto
    next
      case False
      then obtain d where "next_byte rest = d" "d = CHR ''/'' \<or> d = CHR ''*''" by blast
      then have "rest = d # drop 1 rest" using next_byte_drop [of rest d] by auto
      with False ih InCode c show ?thesis
        by (cases rest) (auto simp: kept_or_blanked_def next_byte_def)
    qed
  next
    case InBlock
    show ?thesis
    proof (cases "ch = CHR ''*'' \<and> next_byte rest = CHR ''/''")
      case True
      then have "rest = CHR ''/'' # drop 1 rest" using next_byte_drop [of rest] by auto
      with True ih InBlock show ?thesis by (cases rest) (auto simp: kept_or_blanked_def)
    next
      case False
      then show ?thesis using ih InBlock by (auto simp: kept_or_blanked_def blank_byte_def)
    qed
  qed (use ih in \<open>auto simp: kept_or_blanked_def\<close>)
qed simp

lemma commas_blanked: "list_all2 kept_or_blanked s (strip_commas str s)"
  by (induction str s rule: strip_commas.induct) (auto simp: kept_or_blanked_def split: prod.split)

text \<open>Comments are gone after one pass: inside one, nothing is read as a literal.\<close>

lemma consume_blank: "\<not> js_in str \<Longrightarrow> c \<noteq> CHR 0x22 \<Longrightarrow> consume str c = (False, str)"
  by (simp add: consume_def)

lemma consume_state: "consume str ch = (False, str') \<Longrightarrow> str' = str \<and> \<not> js_in str"
  by (auto simp: consume_def split: if_splits)

lemma strip_head: "next_byte (strip_comments InCode str s) = CHR ''/'' \<or> next_byte (strip_comments InCode str s) = CHR ''*'' \<Longrightarrow>
    next_byte (strip_comments InCode str s) = next_byte s"
  by (cases s) (auto simp: next_byte_def split: prod.splits if_splits)

lemma strip_again: "mode = InCode \<or> \<not> js_in str \<Longrightarrow>
    strip_comments InCode str (strip_comments mode str s) = strip_comments mode str s"
proof (induction mode str s rule: strip_comments.induct)
  case (2 mode str ch rest)
  note ih = "2.IH"
  show ?case
  proof (cases mode)
    case InCode
    obtain consumed str' where c: "consume str ch = (consumed, str')" by force
    consider "consumed" | "\<not> consumed" "ch = CHR ''/''" "next_byte rest = CHR ''/''"
      | "\<not> consumed" "ch = CHR ''/''" "next_byte rest = CHR ''*''"
      | "\<not> consumed" "\<not> (ch = CHR ''/'' \<and> (next_byte rest = CHR ''/'' \<or> next_byte rest = CHR ''*''))" by blast
    then show ?thesis
    proof cases
      case 1
      then show ?thesis using ih(1) [OF InCode c [symmetric] 1] InCode c by simp
    next
      case 2
      then have "str' = str" "\<not> js_in str" using c consume_state by auto
      then show ?thesis using 2 ih(2) [OF InCode c [symmetric] 2(1)] InCode c by (simp add: consume_blank)
    next
      case 3
      then have "str' = str" "\<not> js_in str" using c consume_state by auto
      then show ?thesis using 3 ih(3) [OF InCode c [symmetric] 3(1)] InCode c by (simp add: consume_blank)
    next
      case 4
      then have "str' = str" "\<not> js_in str" using c consume_state by auto
      then show ?thesis using 4 ih(4) [OF InCode c [symmetric] 4(1)] InCode c strip_head [of str rest] by auto
    qed
  next
    case InLine
    then show ?thesis using ih "2.prems" by (auto simp: consume_blank)
  next
    case InBlock
    then show ?thesis using ih "2.prems" by (auto simp: consume_blank blank_byte_def)
  qed
qed simp

text \<open>Normalizing a commented document moves nothing: the text keeps its length, every byte of it is
  kept or blanked, no newline is blanked, so a position the parser reports is a position of the original;
  and no comment is left.\<close>

theorem normalization_keeps_positions:
  shows "list_all2 kept_or_blanked raw (NormalizeJSON raw) \<and>
    length (NormalizeJSON raw) = length raw \<and>
    stripJSONComments (stripJSONComments raw) = stripJSONComments raw"
proof -
  have "list_all2 kept_or_blanked raw (NormalizeJSON raw)"
    unfolding NormalizeJSON_def stripJSONComments_def stripTrailingCommas_def
    by (rule list_all2_trans [OF kept_trans comments_blanked commas_blanked])
  then show ?thesis
    using strip_again [of InCode outside raw] by (simp add: stripJSONComments_def list_all2_lengthD)
qed

section \<open>Witnesses\<close>

definition demo_user :: json_object where
  "demo_user = [(''plugins'', JArr [JStr ''mine'']), (''theme'', JStr ''dark'')]"

definition demo_overlay :: json_object where
  "demo_overlay = [(''model'', JStr ''m''), (''plugins'', JArr [JStr ''takt'', JStr ''mine''])]"

lemma demo_canonical: "canonical (JObj demo_user)" "canonical (JObj demo_overlay)"
  by (simp_all add: demo_user_def demo_overlay_def canonical_JObj less_char_simp)

theorem merge_keeps_user_content_witness:
  "json_at [''theme''] (JObj (mergeObjects demo_user demo_overlay)) = Some (JStr ''dark'') \<and>
   (\<exists>extra. map_of (mergeObjects demo_user demo_overlay) ''plugins'' = Some (JArr ([JStr ''mine''] @ extra)) \<and>
      JStr ''takt'' \<in> set ([JStr ''mine''] @ extra))"
proof -
  have "spared [''theme''] demo_overlay" "''plugins'' \<in> set arrayUnionKeys"
    "map_of demo_user ''plugins'' = Some (JArr [JStr ''mine''])"
    "map_of demo_overlay ''plugins'' = Some (JArr [JStr ''takt'', JStr ''mine''])"
    by (simp_all add: demo_overlay_def demo_user_def arrayUnionKeys_def)
  then show ?thesis
    using merge_keeps_user_content [OF demo_canonical(2), of "[''theme'']" demo_user "''plugins''" "[JStr ''mine'']"
        "[JStr ''takt'', JStr ''mine'']"]
    by (auto simp: demo_user_def)
qed

theorem merge_is_idempotent_witness:
  "mergeObjects (mergeObjects demo_user demo_overlay) demo_overlay = mergeObjects demo_user demo_overlay \<and>
   mergeObjects demo_user demo_overlay \<noteq> demo_user"
  using merge_is_idempotent [OF demo_canonical] merge_lookup [of demo_overlay demo_user "''model''"]
  by (auto simp: demo_overlay_def demo_user_def)

text \<open>A codec that knows two configurations, the overlay and their merge, each by a text of its own.\<close>

definition demo_registered :: json_object where
  "demo_registered = mergeObjects demo_user (mcp_overlay ''engram'' [''engram'', ''mcp''])"

definition table_codec :: codec where
  "table_codec = \<lparr>cd_decode = (\<lambda>t. if t = ''user'' @ [CHR 0x0A] then Inr (JObj demo_user)
       else if t = ''both'' @ [CHR 0x0A] then Inr (JObj demo_registered)
       else if t = ''overlay'' @ [CHR 0x0A] then Inr (JObj (mcp_overlay ''engram'' [''engram'', ''mcp'']))
       else Inl (0, ''unknown'')),
     cd_encode = (\<lambda>v. if v = JObj demo_user then ''user'' else if v = JObj demo_registered then ''both'' else ''overlay'')\<rparr>"

theorem registration_round_trip_witness:
  "\<exists>k. InjectMCPServer table_codec ''engram'' [''engram'', ''mcp''] (Regular (''user'' @ [CHR 0x0A])) = Inr (True, Regular (written table_codec k)) \<and>
     RemoveMCPServer table_codec ''engram'' (Regular (written table_codec k)) = Inr (True, Regular (''user'' @ [CHR 0x0A]))"
proof -
  have un: "unregistered ''engram'' demo_user"
    by (simp add: unregistered_def object_or_absent_def demo_user_def MCPKeyOpenCode_def MCPServersKeyOpenCode_def oget_def
        mget_def mhas_def Let_def)
  have names: "''engram'' \<noteq> ReplaceSentinel" "''engram'' \<noteq> MCPServersKeyOpenCode" by (simp_all add: ReplaceSentinel_def MCPServersKeyOpenCode_def)
  have held: "read_config (Regular (''user'' @ [CHR 0x0A])) = Inr (Some (''user'' @ [CHR 0x0A]))"
    by (simp add: read_config_def maxAtomicFileSize_def)
  have parse: "ParseJSONObject table_codec (''user'' @ [CHR 0x0A]) = Inr demo_user" by code_simp
  have reads: "reads_back table_codec (mcp_overlay ''engram'' [''engram'', ''mcp''])" "reads_back table_codec demo_registered" by code_simp+
  have size: "length (written table_codec demo_registered) \<le> maxAtomicFileSize"
    by (simp add: written_def table_codec_def maxAtomicFileSize_def)
  have keep: "map_of demo_user MCPKeyOpenCode \<noteq> Some (JObj [])"
    "map_of (members (oget demo_user MCPKeyOpenCode)) MCPServersKeyOpenCode \<noteq> Some (JObj [])"
    by (simp_all add: demo_user_def MCPKeyOpenCode_def oget_def mget_def)
  have "written table_codec demo_user = ''user'' @ [CHR 0x0A]" by (simp add: written_def table_codec_def)
  then show ?thesis
    using registration_round_trip [OF held _ demo_canonical(1) un names reads(1), unfolded demo_registered_def [symmetric]] parse reads(2) size keep
    by auto
qed

end
