(* ===== verification/Cfg_Section_Props.thy ===== *)
theory Cfg_Section_Props
  imports Cfg_Section
begin

text \<open>
  What the injection of a marked section promises: it puts the content between its markers and settles after
  one run, whatever the file held, and on a file without the section it can be updated and taken back.
\<close>

section \<open>First occurrences\<close>

text \<open>
  A marker opens with the only angle bracket of its kind in it and ends with a bracket of the other
  kind, so that two occurrences never overlap and none ends in newlines.
\<close>

definition marker :: "string \<Rightarrow> bool" where
  "marker p \<longleftrightarrow> p \<noteq> [] \<and> hd p = CHR ''<'' \<and> CHR ''<'' \<notin> set (tl p) \<and> last p = CHR ''>'' \<and> tl p \<noteq> []"

lemma index_None: "index_of p s = None \<longleftrightarrow> (\<forall>a b. s \<noteq> a @ p @ b)"
proof (induction s)
  case (Cons c s)
  show ?case
  proof (cases "has_prefix (c # s) p")
    case True
    then show ?thesis by (auto simp: has_prefix_iff) (metis append_Nil)
  next
    case False
    have "(\<exists>a b. c # s = a @ p @ b) \<longleftrightarrow> (\<exists>a b. s = a @ p @ b)"
    proof
      assume "\<exists>a b. c # s = a @ p @ b"
      then obtain a b where ab: "c # s = a @ p @ b" by blast
      with False have "a \<noteq> []" by (auto simp: has_prefix_iff)
      with ab show "\<exists>a b. s = a @ p @ b" by (cases a) auto
    qed (metis append_Cons)
    with Cons False show ?thesis by auto
  qed
qed auto

lemma index_Some: "index_of p s = Some i \<Longrightarrow> \<exists>b. s = take i s @ p @ b"
proof (induction s arbitrary: i)
  case (Cons c s)
  then show ?case by (auto simp: has_prefix_iff split: if_splits)
qed (simp split: if_splits)

lemma index_take: "index_of p s = Some i \<Longrightarrow> p \<noteq> [] \<Longrightarrow> n \<le> i \<Longrightarrow> index_of p (take n s) = None"
proof (induction s arbitrary: i n)
  case (Cons c s)
  show ?case
  proof (cases n)
    case (Suc m)
    with Cons.prems obtain j where j: "\<not> has_prefix (c # s) p" "index_of p s = Some j" "i = Suc j"
      by (auto split: if_splits)
    then have "\<not> has_prefix (c # take m s) p"
      by (auto simp: has_prefix_iff) (metis append_Cons append_assoc append_take_drop_id)
    with Cons.IH [OF j(2) Cons.prems(2), of m] Cons.prems(3) j(3) Suc show ?thesis by simp
  qed (use Cons.prems in simp)
qed (simp split: if_splits)

lemma index_first:
  assumes "marker p" "index_of p a = None"
  shows "index_of p (a @ p @ b) = Some (length a)"
  using assms(2)
proof (induction a)
  case Nil
  then show ?case using assms(1) by (cases p) (simp_all add: marker_def has_prefix_append [of "_ # _" b, simplified])
next
  case (Cons c a)
  have "\<not> has_prefix (c # a @ p @ b) p"
  proof
    assume "has_prefix (c # a @ p @ b) p"
    then obtain t where t: "c # a @ p @ b = p @ t" by (auto simp: has_prefix_iff)
    obtain q where p: "p = CHR ''<'' # q" "CHR ''<'' \<notin> set q" using assms(1) by (cases p) (auto simp: marker_def)
    from t p have "c = CHR ''<''" "a @ p @ b = q @ t" by auto
    then obtain us where "(a = q @ us \<and> us @ p @ b = t) \<or> (a @ us = q \<and> p @ b = us @ t)"
      by (auto simp: append_eq_append_conv2)
    then show False
    proof
      assume "a = q @ us \<and> us @ p @ b = t"
      with \<open>c = CHR ''<''\<close> p(1) have "c # a = [] @ p @ us" by simp
      with Cons.prems show False unfolding index_None by blast
    next
      assume us: "a @ us = q \<and> p @ b = us @ t"
      show False
      proof (cases us)
        case Nil
        with us \<open>c = CHR ''<''\<close> p(1) have "c # a = [] @ p @ []" by simp
        with Cons.prems show False unfolding index_None by blast
      next
        case (Cons u us')
        with us p have "u = CHR ''<''" "u \<in> set q" by auto
        with p(2) show False by simp
      qed
    qed
  qed
  moreover from this Cons.prems have "index_of p a = None" by (simp split: if_splits)
  ultimately show ?case using Cons.IH by simp
qed

text \<open>Text that a marker cannot end in adds no occurrence.\<close>

lemma index_extend:
  assumes "marker p" "index_of p a = None" "CHR ''>'' \<notin> set b"
  shows "index_of p (a @ b) = None"
  unfolding index_None
proof (intro allI notI)
  fix x y assume eq: "a @ b = x @ p @ y"
  have "p \<noteq> []" "last p = CHR ''>''" using assms(1) by (auto simp: marker_def)
  then obtain q where p: "p = q @ [CHR ''>'']" by (metis append_butlast_last_id)
  from eq have "a @ b = (x @ p) @ y" by simp
  then obtain us where "(a = (x @ p) @ us \<and> us @ b = y) \<or> (a @ us = x @ p \<and> b = us @ y)"
    unfolding append_eq_append_conv2 by blast
  then show False
  proof
    assume "a = (x @ p) @ us \<and> us @ b = y"
    with assms(2) show False unfolding index_None by auto
  next
    assume us: "a @ us = x @ p \<and> b = us @ y"
    show False
    proof (cases "us = []")
      case True
      with us assms(2) show False unfolding index_None by (metis append.right_neutral append_assoc)
    next
      case False
      with us p have "last us = CHR ''>''" by (metis last_appendR last_snoc append_assoc)
      with False us assms(3) show False by (metis last_in_set Un_iff set_append)
    qed
  qed
qed

section \<open>Markers of a section\<close>

lemma openMarker_marker: "CHR ''<'' \<notin> set sectionID \<Longrightarrow> marker (openMarker sectionID)"
  by (simp add: marker_def openMarker_def markerPrefix_def markerSuffix_def)

lemma closeMarker_marker: "CHR ''<'' \<notin> set sectionID \<Longrightarrow> marker (closeMarker sectionID)"
  by (simp add: marker_def closeMarker_def closePrefix_def markerSuffix_def)

lemma markers_clash: "s = openMarker i @ a \<Longrightarrow> s = closeMarker j @ b \<Longrightarrow> False"
  by (simp add: openMarker_def closeMarker_def markerPrefix_def closePrefix_def)

lemma index_after_plain:
  assumes "marker p" "CHR ''<'' \<notin> set u" "index_of p v = None"
  shows "index_of p (u @ v) = None"
  using assms(2)
proof (induction u)
  case (Cons c u)
  have "\<not> has_prefix ((c # u) @ v) p"
    using assms(1) Cons.prems by (cases p) (auto simp: marker_def has_prefix_iff)
  with Cons show ?case by simp
qed (use assms(3) in simp)

lemma index_before_open:
  assumes "marker p" "index_of p a = None" "index_of p (CHR ''<'' # b) = None"
  shows "index_of p (a @ CHR ''<'' # b) = None"
  using assms(2)
proof (induction a)
  case (Cons c a)
  have "\<not> has_prefix ((c # a) @ CHR ''<'' # b) p"
  proof
    assume "has_prefix ((c # a) @ CHR ''<'' # b) p"
    then obtain t where "c # a @ CHR ''<'' # b = p @ t" by (auto simp: has_prefix_iff)
    moreover obtain q where p: "p = CHR ''<'' # q" "CHR ''<'' \<notin> set q" using assms(1) by (cases p) (auto simp: marker_def)
    ultimately have c: "c = CHR ''<''" and "a @ CHR ''<'' # b = q @ t" by auto
    then obtain us where "(a = q @ us \<and> us @ CHR ''<'' # b = t) \<or> (a @ us = q \<and> CHR ''<'' # b = us @ t)"
      by (auto simp: append_eq_append_conv2)
    then consider "a = q @ us" | "a @ us = q" "us = []" | "a @ us = q" "us \<noteq> []" "CHR ''<'' # b = us @ t" by blast
    then show False
    proof cases
      case 1
      with c p(1) have "c # a = [] @ p @ us" by simp
      with Cons.prems show False unfolding index_None by blast
    next
      case 2
      with c p(1) have "c # a = [] @ p @ []" by simp
      with Cons.prems show False unfolding index_None by blast
    next
      case 3
      then have "CHR ''<'' \<in> set us" by (cases us) auto
      with 3 p(2) show False by auto
    qed
  qed
  with Cons show ?case by (simp split: if_splits)
qed (use assms(3) in simp)

lemma opener_free_of_closer: 
  assumes "CHR ''<'' \<notin> set i" "index_of (closeMarker i) s = None"
  shows "index_of (closeMarker i) (openMarker i @ s) = None"
proof -
  have "\<not> has_prefix (openMarker i @ s) (closeMarker i)"
    using markers_clash [of "openMarker i @ s" i s i] by (auto simp: has_prefix_iff)
  moreover have "CHR ''<'' \<notin> set (tl (openMarker i))" using openMarker_marker [OF assms(1)] by (simp add: marker_def)
  then have "index_of (closeMarker i) (tl (openMarker i) @ s) = None"
    by (rule index_after_plain [OF closeMarker_marker [OF assms(1)] _ assms(2)])
  moreover have "openMarker i @ s = hd (openMarker i) # tl (openMarker i) @ s" by (simp add: openMarker_def markerPrefix_def)
  ultimately show ?thesis by (metis index_of.simps(2) option.simps(8))
qed

section \<open>The settled shape\<close>

text \<open>A text that names neither marker.\<close>

definition unmarked :: "string \<Rightarrow> string \<Rightarrow> bool" where
  "unmarked i s \<longleftrightarrow> index_of (openMarker i) s = None \<and> index_of (closeMarker i) s = None"

definition with_newline :: "string \<Rightarrow> string" where
  "with_newline content = (if has_suffix content [CHR 0x0A] then content else content @ [CHR 0x0A])"

lemma sectionBlock_eq: "sectionBlock opener content closer = opener @ [CHR 0x0A] @ with_newline content @ closer"
  by (simp add: sectionBlock_def with_newline_def)

lemma indexes_of_block:
  fixes after :: string
  assumes "CHR ''<'' \<notin> set i" "unmarked i before" "unmarked i content"
  defines "s \<equiv> before @ sectionBlock (openMarker i) content (closeMarker i) @ after"
  shows "index_of (openMarker i) s = Some (length before)"
    and "index_of (closeMarker i) s = Some (length before + length (openMarker i) + 1 + length (with_newline content))"
proof -
  have m: "marker (openMarker i)" "marker (closeMarker i)"
    using openMarker_marker closeMarker_marker assms(1) by blast+
  show "index_of (openMarker i) s = Some (length before)"
    using index_first [OF m(1)] assms(2) by (simp add: s_def sectionBlock_eq unmarked_def)
  have "index_of (closeMarker i) ([CHR 0x0A] @ with_newline content) = None"
    using index_extend [OF m(2)] assms(3)
    by (intro index_after_plain m) (simp_all add: with_newline_def unmarked_def)
  then have "index_of (closeMarker i) (openMarker i @ [CHR 0x0A] @ with_newline content) = None"
    by (rule opener_free_of_closer [OF assms(1)])
  then have "index_of (closeMarker i) (before @ openMarker i @ [CHR 0x0A] @ with_newline content) = None"
    using index_before_open [OF m(2), of before] assms(2)
    by (simp add: unmarked_def openMarker_def markerPrefix_def)
  from index_first [OF m(2) this, of after]
  show "index_of (closeMarker i) s = Some (length before + length (openMarker i) + 1 + length (with_newline content))"
    by (simp add: s_def sectionBlock_eq)
qed

lemma strip_settled: "index_of opener s = Some a \<Longrightarrow> index_of closer s = Some b \<Longrightarrow> a \<le> b \<Longrightarrow>
    stripOrphanMarkers s opener closer = s"
  by (simp add: stripOrphanMarkers.simps [of s opener closer])

lemma strip_unmarked: "unmarked i s \<Longrightarrow> stripOrphanMarkers s (openMarker i) (closeMarker i) = s"
  by (simp add: stripOrphanMarkers.simps [of s] unmarked_def)

text \<open>Injection into a file that holds the section: the text around it stays.\<close>

lemma inject_settled:
  assumes "CHR ''<'' \<notin> set i" "unmarked i before" "unmarked i old"
  shows "InjectMarkdownSection (before @ sectionBlock (openMarker i) old (closeMarker i) @ after) i content =
    (if content = [] then withoutSection before after
     else before @ sectionBlock (openMarker i) content (closeMarker i) @ after)"
proof -
  let ?s = "before @ sectionBlock (openMarker i) old (closeMarker i) @ after"
  note ix = indexes_of_block [OF assms, of after]
  have "stripOrphanMarkers ?s (openMarker i) (closeMarker i) = ?s" by (rule strip_settled [OF ix]) simp
  then show ?thesis unfolding InjectMarkdownSection_def by (simp add: ix) (simp add: sectionBlock_eq)
qed

lemma strip_result:
  "opener \<noteq> [] \<Longrightarrow> closer \<noteq> [] \<Longrightarrow> s = stripOrphanMarkers content opener closer \<Longrightarrow>
    (index_of opener s = None \<and> index_of closer s = None) \<or>
    (\<exists>a b. index_of opener s = Some a \<and> index_of closer s = Some b \<and> a \<le> b)"
proof (induction content opener closer rule: stripOrphanMarkers.induct)
  case (1 content opener closer)
  then show ?case
    by (cases "index_of opener content"; cases "index_of closer content")
      (auto simp: stripOrphanMarkers.simps [of content opener closer] split: if_splits)
qed

lemma markers_differ: "index_of (openMarker i) s = Some a \<Longrightarrow> index_of (closeMarker i) s = Some b \<Longrightarrow> a \<noteq> b"
  using index_Some [of "openMarker i" s a] index_Some [of "closeMarker i" s b]
  by (metis append_same_eq markers_clash same_append_eq)

lemma marker_nonempty [simp]: "openMarker i \<noteq> []" "closeMarker i \<noteq> []"
  by (simp_all add: openMarker_def closeMarker_def markerPrefix_def closePrefix_def)

definition separator :: "string \<Rightarrow> string" where
  "separator s = (if s = [] then [] else (if has_suffix s [CHR 0x0A] then [] else [CHR 0x0A]) @ [CHR 0x0A])"

lemma separator_plain: "CHR ''>'' \<notin> set (separator s)"
  by (simp add: separator_def)

lemma unmarked_separated: "CHR ''<'' \<notin> set i \<Longrightarrow> unmarked i s \<Longrightarrow> unmarked i (s @ separator s)"
  using index_extend openMarker_marker closeMarker_marker separator_plain unfolding unmarked_def by blast

lemma inject_unmarked:
  assumes "unmarked i s" "content \<noteq> []"
  shows "InjectMarkdownSection s i content =
    (s @ separator s) @ sectionBlock (openMarker i) content (closeMarker i) @ [CHR 0x0A]"
  unfolding InjectMarkdownSection_def Let_def strip_unmarked [OF assms(1)]
  using assms by (simp add: unmarked_def separator_def)

lemma injected_shape:
  assumes "CHR ''<'' \<notin> set i" "content \<noteq> []"
  shows "\<exists>before after. InjectMarkdownSection e i content =
    before @ sectionBlock (openMarker i) content (closeMarker i) @ after \<and> unmarked i before"
proof -
  define s where "s = stripOrphanMarkers e (openMarker i) (closeMarker i)"
  have inject: "InjectMarkdownSection e i content = InjectMarkdownSection s i content" if "stripOrphanMarkers s (openMarker i) (closeMarker i) = s"
    unfolding InjectMarkdownSection_def Let_def that s_def [symmetric] by (rule refl)
  from strip_result [OF marker_nonempty s_def] consider "unmarked i s"
    | a b where "index_of (openMarker i) s = Some a" "index_of (closeMarker i) s = Some b" "a < b"
    using markers_differ [of i s] by (fastforce simp: unmarked_def order.order_iff_strict)
  then show ?thesis
  proof cases
    case 1
    then show ?thesis
      using inject [OF strip_unmarked [OF 1]] inject_unmarked [OF 1 assms(2)] unmarked_separated [OF assms(1) 1] by metis
  next
    case 2
    have settled: "stripOrphanMarkers s (openMarker i) (closeMarker i) = s"
      by (rule strip_settled [OF 2(1,2)]) (use 2(3) in simp)
    have "InjectMarkdownSection e i content = take a s @ sectionBlock (openMarker i) content (closeMarker i) @
        drop (b + length (closeMarker i)) s"
      unfolding inject [OF settled] unfolding InjectMarkdownSection_def Let_def settled using 2 assms(2) by simp
    moreover have "unmarked i (take a s)"
      using index_take [OF 2(1)] index_take [OF 2(2)] 2(3) by (simp add: unmarked_def)
    ultimately show ?thesis by blast
  qed
qed

lemma removed_unmarked: "withoutSection (s @ separator s) [CHR 0x0A] =
    (if trim_newlines s = [] then [] else trim_newlines s @ [CHR 0x0A])"
  by (simp add: withoutSection_def trim_newlines_def separator_def trim_prefix_def has_prefix_def)

text \<open>The text of a section: its content on lines of its own between its two markers.\<close>

definition section_text :: "string \<Rightarrow> string \<Rightarrow> string" where
  "section_text i content = openMarker i @ [CHR 0x0A] @ content @
     (if has_suffix content [CHR 0x0A] then [] else [CHR 0x0A]) @ closeMarker i"

lemma sectionBlock_text: "sectionBlock (openMarker i) content (closeMarker i) = section_text i content"
  by (simp add: sectionBlock_def section_text_def)

text \<open>C34: A managed section holds its content and settles after one injection, whatever the file held before, for a
  section name without an opening angle bracket and a content that is not empty and names neither marker of the
  section. The file then holds the content, byte for byte and closed by a newline, between the two markers,
  and the opening marker nowhere before them; injecting the same content again changes nothing. In a file that
  held the section, the text in front of it and behind it stays and only the content is replaced. In a file
  that names no marker of the section, the section is appended after the user's text; injecting other content
  gives what injecting that content first would have given, and injecting nothing takes the section out and
  leaves the user's text, closed by one newline.\<close>

theorem section_settles:
  assumes "CHR ''<'' \<notin> set i" "content \<noteq> []" "unmarked i content"
  shows "(\<exists>before after. InjectMarkdownSection e i content = before @ section_text i content @ after \<and> unmarked i before) \<and>
    InjectMarkdownSection (InjectMarkdownSection e i content) i content = InjectMarkdownSection e i content \<and>
    (unmarked i before \<longrightarrow> unmarked i old \<longrightarrow>
      InjectMarkdownSection (before @ section_text i old @ after) i content = before @ section_text i content @ after) \<and>
    (unmarked i s \<longrightarrow>
      InjectMarkdownSection s i content = s @ separator s @ section_text i content @ [CHR 0x0A] \<and>
      (other \<noteq> [] \<longrightarrow> InjectMarkdownSection (InjectMarkdownSection s i content) i other = InjectMarkdownSection s i other) \<and>
      InjectMarkdownSection (InjectMarkdownSection s i content) i [] =
        (if trim_newlines s = [] then [] else trim_newlines s @ [CHR 0x0A]))"
proof (intro conjI impI)
  obtain before after where shape: "InjectMarkdownSection e i content =
      before @ sectionBlock (openMarker i) content (closeMarker i) @ after" "unmarked i before"
    using injected_shape [OF assms(1,2)] by blast
  then show "\<exists>before after. InjectMarkdownSection e i content = before @ section_text i content @ after \<and> unmarked i before"
    unfolding sectionBlock_text by blast
  show "InjectMarkdownSection (InjectMarkdownSection e i content) i content = InjectMarkdownSection e i content"
    using shape inject_settled [OF assms(1) _ assms(3), of before after content] assms(2) by simp
next
  assume "unmarked i before" "unmarked i old"
  then show "InjectMarkdownSection (before @ section_text i old @ after) i content = before @ section_text i content @ after"
    using inject_settled [OF assms(1), of before old after content] assms(2) by (simp add: sectionBlock_text)
next
  assume s: "unmarked i s"
  note first = inject_unmarked [OF s assms(2)]
  note again = inject_settled [OF assms(1) unmarked_separated [OF assms(1) s] assms(3), of "[CHR 0x0A]"]
  show "InjectMarkdownSection s i content = s @ separator s @ section_text i content @ [CHR 0x0A]"
    unfolding first by (simp add: sectionBlock_text)
  show "InjectMarkdownSection (InjectMarkdownSection s i content) i other = InjectMarkdownSection s i other"
    if "other \<noteq> []"
    unfolding first again using that inject_unmarked [OF s that] by simp
  show "InjectMarkdownSection (InjectMarkdownSection s i content) i [] =
      (if trim_newlines s = [] then [] else trim_newlines s @ [CHR 0x0A])"
    unfolding first again using removed_unmarked by simp
qed

theorem section_settles_witness:
  "InjectMarkdownSection ''# Mine'' ''crew'' ''be kind'' =
     ''# Mine'' @ [CHR 0x0A, CHR 0x0A] @ ''<!-- takt-ai:crew -->'' @ [CHR 0x0A] @ ''be kind'' @ [CHR 0x0A] @ ''<!-- /takt-ai:crew -->'' @ [CHR 0x0A] \<and>
   InjectMarkdownSection (InjectMarkdownSection ''# Mine'' ''crew'' ''be kind'') ''crew'' ''be kind'' =
     InjectMarkdownSection ''# Mine'' ''crew'' ''be kind'' \<and>
   InjectMarkdownSection (InjectMarkdownSection ''# Mine'' ''crew'' ''be kind'') ''crew'' [] = ''# Mine'' @ [CHR 0x0A]"
proof -
  have u: "unmarked ''crew'' ''be kind''" "unmarked ''crew'' ''# Mine''" by code_simp+
  have "''# Mine'' @ separator ''# Mine'' @ section_text ''crew'' ''be kind'' @ [CHR 0x0A] =
     ''# Mine'' @ [CHR 0x0A, CHR 0x0A] @ ''<!-- takt-ai:crew -->'' @ [CHR 0x0A] @ ''be kind'' @ [CHR 0x0A] @ ''<!-- /takt-ai:crew -->'' @ [CHR 0x0A]"
    by code_simp
  moreover have "(if trim_newlines ''# Mine'' = [] then [] else trim_newlines ''# Mine'' @ [CHR 0x0A]) = ''# Mine'' @ [CHR 0x0A]"
    by (simp add: trim_newlines_def)
  moreover have "CHR ''<'' \<notin> set ''crew''" "''be kind'' \<noteq> []" by simp_all
  note section_settles [OF this u(1), of "''# Mine''" "[]" "[]" "[]" "''# Mine''" "''x''"]
  ultimately show ?thesis using u(2) by metis
qed

end
