(* ===== verification/Setup_Disk.thy ===== *)
theory Setup_Disk
  imports Path_Laws
begin

text \<open>
  The deployment root as package \<open>takt/setup\<close> sees it: what each relative path holds, the system calls
  that change it, and the relative paths that are accepted (\<open>takt/internal/artifacts\<close>). Every call that
  changes the disk consumes one result of a schedule, \<open>True\<close> for a failure without effect. A temporary
  file is kept apart, under the number of its creation, with the directory it lies in: its name is one
  \<open>os.CreateTemp\<close> has found unused.
\<close>

section \<open>The disk\<close>

text \<open>
  A directory, a regular file with its content and permission bits, a symbolic link, or anything else.
  A link leads outside the root, to a file with the given content or to nothing.
\<close>

datatype fsnode = NDir | NFile string nat | NLink "string option" | NOther

record world =
  w_disk :: "(string, fsnode) gomap"
  w_temps :: "(nat, string \<times> string \<times> nat) gomap"
  w_next :: nat
  w_faults :: "bool list"

datatype syserr = EExist | ENotExist | ENotEmpty | EIO

type_synonym 'a syscall = "world \<Rightarrow> (syserr + 'a) \<times> world"

definition lookup :: "world \<Rightarrow> string \<Rightarrow> fsnode option" where
  "lookup w p = map_of (w_disk w) p"

definition is_dir :: "world \<Rightarrow> string \<Rightarrow> bool" where
  "is_dir w p \<longleftrightarrow> p = ''.'' \<or> lookup w p = Some NDir"

text \<open>What lies directly in a directory.\<close>

definition holds_entries :: "world \<Rightarrow> string \<Rightarrow> bool" where
  "holds_entries w dir \<longleftrightarrow> list_ex (\<lambda>q. path_dir q = dir) (mkeys (w_disk w)) \<or>
     list_ex (\<lambda>(_, t). fst t = dir) (w_temps w)"

section \<open>System calls\<close>

definition next_result :: "world \<Rightarrow> bool \<times> world" where
  "next_result w = (case w_faults w of [] \<Rightarrow> (False, w) | b # bs \<Rightarrow> (b, w\<lparr>w_faults := bs\<rparr>))"

definition may_fail :: "'a syscall \<Rightarrow> 'a syscall" where
  "may_fail f w = (case next_result w of (failed, w1) \<Rightarrow> if failed then (Inl EIO, w1) else f w1)"

text \<open>\<open>os.Lstat\<close>, and \<open>os.ReadFile\<close>, which follows a link.\<close>

definition sys_lstat :: "string \<Rightarrow> fsnode syscall" where
  "sys_lstat p = may_fail (\<lambda>w. case lookup w p of None \<Rightarrow> (Inl ENotExist, w) | Some n \<Rightarrow> (Inr n, w))"

definition sys_read :: "string \<Rightarrow> string syscall" where
  "sys_read p = may_fail (\<lambda>w. case lookup w p of
     None \<Rightarrow> (Inl ENotExist, w)
   | Some (NFile content _) \<Rightarrow> (Inr content, w)
   | Some (NLink None) \<Rightarrow> (Inl ENotExist, w)
   | Some (NLink (Some content)) \<Rightarrow> (Inr content, w)
   | Some _ \<Rightarrow> (Inl EIO, w))"

definition sys_mkdir :: "string \<Rightarrow> unit syscall" where
  "sys_mkdir p = may_fail (\<lambda>w.
     if lookup w p \<noteq> None then (Inl EExist, w)
     else if \<not> is_dir w (path_dir p) then (Inl ENotExist, w)
     else (Inr (), w\<lparr>w_disk := mput p NDir (w_disk w)\<rparr>))"

text \<open>\<open>filemerge.StageTempFile\<close>: a failure leaves no file.\<close>

definition sys_stage :: "string \<Rightarrow> string \<Rightarrow> nat \<Rightarrow> nat syscall" where
  "sys_stage dir content mode = may_fail (\<lambda>w.
     if \<not> is_dir w dir then (Inl ENotExist, w)
     else (Inr (w_next w), w\<lparr>w_temps := mput (w_next w) (dir, content, mode) (w_temps w), w_next := w_next w + 1\<rparr>))"

text \<open>A rename of a temporary over a path, and of a file over a path.\<close>

definition sys_install :: "nat \<Rightarrow> string \<Rightarrow> unit syscall" where
  "sys_install t p = may_fail (\<lambda>w.
     case map_of (w_temps w) t of
       None \<Rightarrow> (Inl ENotExist, w)
     | Some (_, content, mode) \<Rightarrow>
         if lookup w p = Some NDir then (Inl EExist, w)
         else if \<not> is_dir w (path_dir p) then (Inl ENotExist, w)
         else (Inr (), w\<lparr>w_disk := mput p (NFile content mode) (w_disk w), w_temps := mdel t (w_temps w)\<rparr>))"

definition sys_rename :: "string \<Rightarrow> string \<Rightarrow> unit syscall" where
  "sys_rename p q = may_fail (\<lambda>w.
     case lookup w p of
       Some (NFile content mode) \<Rightarrow>
         if lookup w q = Some NDir then (Inl EExist, w)
         else if \<not> is_dir w (path_dir q) then (Inl ENotExist, w)
         else (Inr (), w\<lparr>w_disk := mput q (NFile content mode) (mdel p (w_disk w))\<rparr>)
     | _ \<Rightarrow> (Inl ENotExist, w))"

definition sys_remove :: "string \<Rightarrow> unit syscall" where
  "sys_remove p = may_fail (\<lambda>w.
     case lookup w p of
       None \<Rightarrow> (Inl ENotExist, w)
     | Some NDir \<Rightarrow> if holds_entries w p then (Inl ENotEmpty, w) else (Inr (), w\<lparr>w_disk := mdel p (w_disk w)\<rparr>)
     | Some _ \<Rightarrow> (Inr (), w\<lparr>w_disk := mdel p (w_disk w)\<rparr>))"

definition sys_remove_temp :: "nat \<Rightarrow> unit syscall" where
  "sys_remove_temp t = may_fail (\<lambda>w.
     if map_of (w_temps w) t = None then (Inl ENotExist, w)
     else (Inr (), w\<lparr>w_temps := mdel t (w_temps w)\<rparr>))"

text \<open>\<open>filemerge.SyncDir\<close>.\<close>

definition sys_sync :: "string \<Rightarrow> unit syscall" where
  "sys_sync dir = may_fail (\<lambda>w. if is_dir w dir then (Inr (), w) else (Inl ENotExist, w))"

section \<open>Relative paths\<close>

definition NormalizeRelPath :: "string \<Rightarrow> string option" where
  "NormalizeRelPath candidate =
    (let clean = path_clean candidate
     in if blank candidate \<or> CHR 0x5C \<in> set candidate \<or> ''..'' \<in> set (path_parts candidate) \<or>
           clean = ''.'' \<or> has_prefix clean ''/''
        then None else Some clean)"

text \<open>The path to each component of a relative path, from the first.\<close>

definition components :: "string \<Rightarrow> string list" where
  "components rel = (let parts = path_parts rel in map (\<lambda>n. join_path (take (Suc n) parts)) [0..<length parts])"

section \<open>What a call leaves\<close>

lemma next_result_fields [simp]:
  "w_disk (snd (next_result w)) = w_disk w" "w_temps (snd (next_result w)) = w_temps w"
  "w_next (snd (next_result w)) = w_next w"
  by (simp_all add: next_result_def split: list.split)

lemma next_result_cases:
  obtains (failed) w1 where "next_result w = (True, w1)" "w_disk w1 = w_disk w" "w_temps w1 = w_temps w" "w_next w1 = w_next w"
    | (fine) w1 where "next_result w = (False, w1)" "w_disk w1 = w_disk w" "w_temps w1 = w_temps w" "w_next w1 = w_next w"
  using next_result_fields [of w] by (cases "next_result w") (metis snd_conv)

named_theorems syscalls \<open>definitions of the system calls\<close>

lemmas syscall_defs [syscalls] = sys_mkdir_def sys_stage_def sys_install_def sys_rename_def sys_remove_def
  sys_remove_temp_def sys_sync_def

text \<open>The effect of a success, and that a failure has none, call by call, in terms of lookups.\<close>

lemma mkdir_ok: "sys_mkdir p w = (Inr x, w') \<Longrightarrow> lookup w p = None \<and> is_dir w (path_dir p) \<and>
    w_temps w' = w_temps w \<and> w_next w' = w_next w \<and> (\<forall>q. lookup w' q = (if q = p then Some NDir else lookup w q))"
  by (rule next_result_cases [of w]) (auto simp: sys_mkdir_def may_fail_def lookup_def is_dir_def split: if_splits)

lemma stage_ok: "sys_stage dir content mode w = (Inr t, w') \<Longrightarrow> t = w_next w \<and> w_next w' = w_next w + 1 \<and>
    w_disk w' = w_disk w \<and> w_temps w' = mput t (dir, content, mode) (w_temps w)"
  by (rule next_result_cases [of w]) (auto simp: sys_stage_def may_fail_def is_dir_def lookup_def split: if_splits)

lemma install_ok: "sys_install t p w = (Inr x, w') \<Longrightarrow>
    \<exists>dir content mode. map_of (w_temps w) t = Some (dir, content, mode) \<and> w_temps w' = mdel t (w_temps w) \<and>
      w_next w' = w_next w \<and> lookup w p \<noteq> Some NDir \<and> is_dir w (path_dir p) \<and>
      (\<forall>q. lookup w' q = (if q = p then Some (NFile content mode) else lookup w q))"
  by (rule next_result_cases [of w])
    (auto simp: sys_install_def may_fail_def lookup_def is_dir_def split: if_splits option.splits)

lemma remove_ok: "sys_remove p w = (Inr x, w') \<Longrightarrow> lookup w p \<noteq> None \<and> w_temps w' = w_temps w \<and> w_next w' = w_next w \<and>
    (\<forall>q. lookup w' q = (if q = p then None else lookup w q))"
  by (rule next_result_cases [of w])
    (auto simp: sys_remove_def may_fail_def lookup_def holds_entries_def split: if_splits option.splits fsnode.splits)

lemma remove_temp_ok: "sys_remove_temp t w = (r, w') \<Longrightarrow> w_disk w' = w_disk w \<and> w_next w' = w_next w \<and>
    (\<forall>u. u \<noteq> t \<longrightarrow> map_of (w_temps w') u = map_of (w_temps w) u)"
  by (rule next_result_cases [of w]) (auto simp: sys_remove_temp_def may_fail_def split: if_splits)

lemma sync_keeps: "sys_sync dir w = (r, w') \<Longrightarrow> w_disk w' = w_disk w \<and> w_temps w' = w_temps w \<and> w_next w' = w_next w"
  by (rule next_result_cases [of w]) (auto simp: sys_sync_def may_fail_def is_dir_def lookup_def split: if_splits)

lemma failed_keeps:
  "sys_mkdir p w = (Inl e, w') \<Longrightarrow> w_disk w' = w_disk w \<and> w_temps w' = w_temps w \<and> w_next w' = w_next w"
  "sys_stage dir content mode w = (Inl e, w') \<Longrightarrow> w_disk w' = w_disk w \<and> w_temps w' = w_temps w \<and> w_next w' = w_next w"
  "sys_install t p w = (Inl e, w') \<Longrightarrow> w_disk w' = w_disk w \<and> w_temps w' = w_temps w \<and> w_next w' = w_next w"
  "sys_rename p q w = (Inl e, w') \<Longrightarrow> w_disk w' = w_disk w \<and> w_temps w' = w_temps w \<and> w_next w' = w_next w"
  "sys_remove p w = (Inl e, w') \<Longrightarrow> w_disk w' = w_disk w \<and> w_temps w' = w_temps w \<and> w_next w' = w_next w"
  by (rule next_result_cases [of w];
      auto simp: syscall_defs may_fail_def split: if_splits option.splits fsnode.splits prod.splits)+

lemma reads_keep:
  "sys_lstat p w = (r, w') \<Longrightarrow> w_disk w' = w_disk w \<and> w_temps w' = w_temps w \<and> w_next w' = w_next w"
  "sys_read p w = (r2, w') \<Longrightarrow> w_disk w' = w_disk w \<and> w_temps w' = w_temps w \<and> w_next w' = w_next w"
  by (rule next_result_cases [of w];
      auto simp: sys_lstat_def sys_read_def may_fail_def split: if_splits option.splits fsnode.splits)+

lemma lstat_ok: "sys_lstat p w = (Inr n, w') \<Longrightarrow> lookup w p = Some n"
  by (rule next_result_cases [of w]) (auto simp: sys_lstat_def may_fail_def lookup_def split: option.splits)

lemma lstat_absent: "sys_lstat p w = (Inl ENotExist, w') \<Longrightarrow> lookup w p = None"
  by (rule next_result_cases [of w]) (auto simp: sys_lstat_def may_fail_def lookup_def split: option.splits)

lemma read_ok: "sys_read p w = (Inr c, w') \<Longrightarrow> (\<exists>m. lookup w p = Some (NFile c m)) \<or> lookup w p = Some (NLink (Some c))"
  by (rule next_result_cases [of w]) (auto simp: sys_read_def may_fail_def lookup_def split: option.splits fsnode.splits)

lemma read_absent: "sys_read p w = (Inl ENotExist, w') \<Longrightarrow> lookup w p = None \<or> lookup w p = Some (NLink None)"
  by (rule next_result_cases [of w]) (auto simp: sys_read_def may_fail_def lookup_def split: option.splits fsnode.splits)

lemma remove_absent: "sys_remove p w = (Inl ENotExist, w') \<Longrightarrow> lookup w p = None"
  by (rule next_result_cases [of w])
    (auto simp: sys_remove_def may_fail_def lookup_def split: if_splits option.splits fsnode.splits)

end
