(* ===== verification/Setup_Deploy.thy ===== *)
theory Setup_Deploy
  imports Setup_Disk
begin

text \<open>
  The deployment of rendered artifacts (\<open>takt/setup/deploy.go\<close>): the batch is validated, compared with
  the disk, staged beside its destinations and renamed into place, and a failure undoes what was done.
  The files are named by their paths under the deployment root; the progress callbacks are not part of
  the model. What other processes write while the batch is committed is an argument, the edits made
  before each artifact's turn.
\<close>

section \<open>Data\<close>

definition ManagedFileMode :: nat where
  "ManagedFileMode = 420"

record Artifact =
  art_path :: string
  art_content :: string

record DeploymentResult =
  dr_changed :: "string list"
  dr_unchanged :: "string list"
  dr_notApplied :: "string list"

record pendingDeployment =
  pd_path :: string
  pd_exists :: bool
  pd_mode :: nat
  pd_original :: string
  pd_content :: string
  pd_missing :: "string list"

record stagedDeployment =
  sd_path :: string
  sd_staged :: "nat option"
  sd_backup :: "nat option"
  sd_exists :: bool
  sd_mode :: nat
  sd_installed :: bool
  sd_original :: string

text \<open>The set of created directories is the set of their list, the order in which they were created.\<close>

record deploymentTransaction =
  tx_files :: "stagedDeployment list"
  tx_createdOrder :: "string list"

datatype deploy_error =
    RootRequired | InvalidPath | DuplicatePath | NotManaged | PathConflict
  | InspectFailed | LinkInPath | ParentNotDir | NotRegular | ChangedDuringApply string
  | PrepareFailed | StageFailed | BackupFailed | InstallFailed | SyncFailed | ContextErr
  | RollbackFailed | CleanupFailed

section \<open>Validation\<close>

fun validate_managed_from :: "string list \<Rightarrow> string list \<Rightarrow> deploy_error + string list" where
  "validate_managed_from managed [] = Inr managed"
| "validate_managed_from managed (c # cs) =
    (case NormalizeRelPath c of
       None \<Rightarrow> Inl InvalidPath
     | Some clean \<Rightarrow> if clean \<in> set managed then Inl DuplicatePath else validate_managed_from (managed @ [clean]) cs)"

definition validateManagedPaths :: "string list \<Rightarrow> deploy_error + string list" where
  "validateManagedPaths = validate_managed_from []"

fun validate_artifacts_from :: "string list \<Rightarrow> Artifact list \<Rightarrow> Artifact list \<Rightarrow> deploy_error + Artifact list" where
  "validate_artifacts_from managed normalized [] = Inr normalized"
| "validate_artifacts_from managed normalized (a # rest) =
    (case NormalizeRelPath (art_path a) of
       None \<Rightarrow> Inl InvalidPath
     | Some clean \<Rightarrow>
         if clean \<in> set (map art_path normalized) then Inl DuplicatePath
         else if clean \<notin> set managed then Inl NotManaged
         else validate_artifacts_from managed (normalized @ [\<lparr>art_path = clean, art_content = art_content a\<rparr>]) rest)"

definition validateArtifacts :: "string list \<Rightarrow> Artifact list \<Rightarrow> deploy_error + Artifact list" where
  "validateArtifacts managed input = and_then (validate_artifacts_from managed [] input) (\<lambda>ns. Inr (sort_key art_path ns))"

text \<open>The walk from a path to the root ends after at most one step for each of its characters.\<close>

fun path_conflict_from :: "string list \<Rightarrow> Artifact list \<Rightarrow> bool" where
  "path_conflict_from seen [] = False"
| "path_conflict_from seen (a # rest) =
    (list_ex (\<lambda>p. p \<in> set seen) (dir_chain (length (art_path a)) (path_dir (art_path a))) \<or>
     path_conflict_from (art_path a # seen) rest)"

definition validateArtifactPathConflicts :: "Artifact list \<Rightarrow> deploy_error + unit" where
  "validateArtifactPathConflicts artifacts = (if path_conflict_from [] artifacts then Inl PathConflict else Inr ())"

definition prepareDeployment :: "string \<Rightarrow> string list \<Rightarrow> Artifact list \<Rightarrow> deploy_error + Artifact list" where
  "prepareDeployment rootDir managedPaths artifacts =
    (if blank rootDir then Inl RootRequired
     else and_then (validateManagedPaths managedPaths) (\<lambda>managed.
       and_then (validateArtifacts managed artifacts) (\<lambda>normalized.
       and_then (validateArtifactPathConflicts normalized) (\<lambda>_. Inr normalized))))"

section \<open>Inspection\<close>

type_synonym 'a inspecting = "world \<Rightarrow> (deploy_error + 'a) \<times> world"

fun inspect_components :: "string list \<Rightarrow> string list inspecting" where
  "inspect_components [] w = (Inr [], w)"
| "inspect_components (c # cs) w =
    (case sys_lstat c w of
       (Inl ENotExist, w1) \<Rightarrow>
         (case inspect_components cs w1 of
            (Inl e, w2) \<Rightarrow> (Inl e, w2)
          | (Inr missing, w2) \<Rightarrow> (Inr (if cs = [] then missing else c # missing), w2))
     | (Inl _, w1) \<Rightarrow> (Inl InspectFailed, w1)
     | (Inr (NLink _), w1) \<Rightarrow> (Inl LinkInPath, w1)
     | (Inr n, w1) \<Rightarrow> if cs \<noteq> [] \<and> n \<noteq> NDir then (Inl ParentNotDir, w1) else inspect_components cs w1)"

definition inspectDeploymentPath :: "string \<Rightarrow> string list inspecting" where
  "inspectDeploymentPath rel = inspect_components (components rel)"

text \<open>An artifact that needs no write is \<open>None\<close>.\<close>

definition inspectArtifact :: "Artifact \<Rightarrow> pendingDeployment option inspecting" where
  "inspectArtifact a w =
    (case inspectDeploymentPath (art_path a) w of
       (Inl e, w1) \<Rightarrow> (Inl e, w1)
     | (Inr missing, w1) \<Rightarrow>
         (case sys_lstat (art_path a) w1 of
            (Inl ENotExist, w2) \<Rightarrow>
              (Inr (Some \<lparr>pd_path = art_path a, pd_exists = False, pd_mode = ManagedFileMode, pd_original = [],
                 pd_content = art_content a, pd_missing = missing\<rparr>), w2)
          | (Inl _, w2) \<Rightarrow> (Inl InspectFailed, w2)
          | (Inr (NFile _ mode), w2) \<Rightarrow>
              (case sys_read (art_path a) w2 of
                 (Inl _, w3) \<Rightarrow> (Inl InspectFailed, w3)
               | (Inr current, w3) \<Rightarrow>
                   if current = art_content a then (Inr None, w3)
                   else (Inr (Some \<lparr>pd_path = art_path a, pd_exists = True, pd_mode = mode, pd_original = current,
                     pd_content = art_content a, pd_missing = missing\<rparr>), w3))
          | (Inr _, w2) \<Rightarrow> (Inl NotRegular, w2)))"

text \<open>\<open>pendingDeployment.holds\<close>: the hash of the content is an argument.\<close>

definition holds_inspected :: "(string \<Rightarrow> string) \<Rightarrow> string \<Rightarrow> pendingDeployment option \<Rightarrow> string \<Rightarrow> bool" where
  "holds_inspected sha want item content =
    (case item of
       None \<Rightarrow> want = sha content
     | Some p \<Rightarrow> if \<not> pd_exists p then want = [] else want = sha (pd_original p))"

fun inspect_from :: "(string \<Rightarrow> string) \<Rightarrow> (string, string) gomap \<Rightarrow> string list \<Rightarrow> pendingDeployment list \<Rightarrow> Artifact list \<Rightarrow>
    (string list \<times> pendingDeployment list) inspecting" where
  "inspect_from sha observed unchanged pending [] w = (Inr (unchanged, pending), w)"
| "inspect_from sha observed unchanged pending (a # rest) w =
    (case inspectArtifact a w of
       (Inl e, w1) \<Rightarrow> (Inl e, w1)
     | (Inr item, w1) \<Rightarrow>
         if mhas observed (art_path a) \<and> \<not> holds_inspected sha (mget [] observed (art_path a)) item (art_content a)
         then (Inl (ChangedDuringApply (art_path a)), w1)
         else (case item of
             None \<Rightarrow> inspect_from sha observed (unchanged @ [art_path a]) pending rest w1
           | Some p \<Rightarrow> inspect_from sha observed unchanged (pending @ [p]) rest w1))"

definition inspectDeployments :: "(string \<Rightarrow> string) \<Rightarrow> (string, string) gomap \<Rightarrow> Artifact list \<Rightarrow>
    (string list \<times> pendingDeployment list) inspecting" where
  "inspectDeployments sha observed = inspect_from sha observed [] []"

section \<open>Staging\<close>

fun createMissingDirectories :: "string list \<Rightarrow> string list \<Rightarrow> world \<Rightarrow> deploy_error list \<times> string list \<times> world" where
  "createMissingDirectories [] created w = ([], created, w)"
| "createMissingDirectories (d # ds) created w =
    (if d \<in> set created then createMissingDirectories ds created w
     else case sys_mkdir d w of
       (Inr _, w1) \<Rightarrow> createMissingDirectories ds (created @ [d]) w1
     | (Inl EExist, w1) \<Rightarrow> createMissingDirectories ds (created @ [d]) w1
     | (Inl _, w1) \<Rightarrow> ([PrepareFailed], created, w1))"

definition new_staged :: "pendingDeployment \<Rightarrow> stagedDeployment" where
  "new_staged p = \<lparr>sd_path = pd_path p, sd_staged = None, sd_backup = None, sd_exists = pd_exists p,
     sd_mode = pd_mode p, sd_installed = False, sd_original = pd_original p\<rparr>"

definition stageOne :: "stagedDeployment \<Rightarrow> pendingDeployment \<Rightarrow> string list \<Rightarrow> world \<Rightarrow>
    deploy_error list \<times> stagedDeployment \<times> string list \<times> world" where
  "stageOne file p created w =
    (case createMissingDirectories (pd_missing p) created w of
       (es, created1, w1) \<Rightarrow>
         if es \<noteq> [] then (es, file, created1, w1)
         else case sys_stage (path_dir (pd_path p)) (pd_content p) (pd_mode p) w1 of
           (Inl _, w2) \<Rightarrow> ([StageFailed], file, created1, w2)
         | (Inr t, w2) \<Rightarrow>
             let file1 = file\<lparr>sd_staged := Some t\<rparr>
             in if \<not> pd_exists p then ([], file1, created1, w2)
                else case sys_stage (path_dir (pd_path p)) (pd_original p) (pd_mode p) w2 of
                  (Inl _, w3) \<Rightarrow> ([BackupFailed], file1, created1, w3)
                | (Inr b, w3) \<Rightarrow> ([], file1\<lparr>sd_backup := Some b\<rparr>, created1, w3))"

fun stage :: "pendingDeployment list \<Rightarrow> deploymentTransaction \<Rightarrow> world \<Rightarrow> deploy_error list \<times> deploymentTransaction \<times> world" where
  "stage [] tx w = ([], tx, w)"
| "stage (p # ps) tx w =
    (case stageOne (new_staged p) p (tx_createdOrder tx) w of
       (es, file, created, w1) \<Rightarrow>
         let tx1 = \<lparr>tx_files = tx_files tx @ [file], tx_createdOrder = created\<rparr>
         in if es \<noteq> [] then (es, tx1, w1) else stage ps tx1 w1)"

section \<open>Commit\<close>

definition unchangedSinceInspection :: "stagedDeployment \<Rightarrow> bool inspecting" where
  "unchangedSinceInspection file w =
    (case sys_read (sd_path file) w of
       (Inl ENotExist, w1) \<Rightarrow> (Inr (\<not> sd_exists file), w1)
     | (Inl _, w1) \<Rightarrow> (Inl InspectFailed, w1)
     | (Inr current, w1) \<Rightarrow> (Inr (sd_exists file \<and> current = sd_original file), w1))"

text \<open>An edit by another process sets what a path holds, or removes it.\<close>

type_synonym edit = "string \<times> fsnode option"

definition apply_edit :: "edit \<Rightarrow> world \<Rightarrow> world" where
  "apply_edit e w = w\<lparr>w_disk := (case snd e of None \<Rightarrow> mdel (fst e) (w_disk w) | Some n \<Rightarrow> mput (fst e) n (w_disk w))\<rparr>"

definition cancelled :: "nat option \<Rightarrow> nat \<Rightarrow> bool" where
  "cancelled cancel i = (case cancel of None \<Rightarrow> False | Some c \<Rightarrow> c \<le> i)"

fun commit_files :: "(nat \<Rightarrow> edit list) \<Rightarrow> nat option \<Rightarrow> nat \<Rightarrow> stagedDeployment list \<Rightarrow> world \<Rightarrow>
    deploy_error list \<times> stagedDeployment list \<times> world" where
  "commit_files edits cancel i [] w = ([], [], w)"
| "commit_files edits cancel i (file # files) w =
    (let w0 = fold apply_edit (edits i) w
     in if cancelled cancel i then ([ContextErr], file # files, w0)
        else case unchangedSinceInspection file w0 of
          (Inl e, w1) \<Rightarrow> ([e], file # files, w1)
        | (Inr False, w1) \<Rightarrow> ([ChangedDuringApply (sd_path file)], file # files, w1)
        | (Inr True, w1) \<Rightarrow>
            (case sd_staged file of
               None \<Rightarrow> ([InstallFailed], file # files, w1)
             | Some t \<Rightarrow>
                 (case sys_install t (sd_path file) w1 of
                    (Inl _, w2) \<Rightarrow> ([InstallFailed], file # files, w2)
                  | (Inr _, w2) \<Rightarrow>
                      let file1 = file\<lparr>sd_installed := True\<rparr>
                      in case sys_sync (path_dir (sd_path file)) w2 of
                        (Inl _, w3) \<Rightarrow> ([InstallFailed], file1 # files, w3)
                      | (Inr _, w3) \<Rightarrow>
                          (case commit_files edits cancel (Suc i) files w3 of
                             (es, files1, w4) \<Rightarrow> (es, file1 # files1, w4)))))"

fun sync_all :: "string list \<Rightarrow> world \<Rightarrow> deploy_error list \<times> world" where
  "sync_all [] w = ([], w)"
| "sync_all (d # ds) w = (case sys_sync d w of (Inl _, w1) \<Rightarrow> ([SyncFailed], w1) | (Inr _, w1) \<Rightarrow> sync_all ds w1)"

definition commit :: "(nat \<Rightarrow> edit list) \<Rightarrow> nat option \<Rightarrow> deploymentTransaction \<Rightarrow> world \<Rightarrow>
    deploy_error list \<times> deploymentTransaction \<times> world" where
  "commit edits cancel tx w =
    (case commit_files edits cancel 0 (tx_files tx) w of
       (es, files, w1) \<Rightarrow>
         let tx1 = tx\<lparr>tx_files := files\<rparr>
         in if es \<noteq> [] then (es, tx1, w1)
            else case sync_all (rev (tx_createdOrder tx)) w1 of (es2, w2) \<Rightarrow> (es2, tx1, w2))"

section \<open>Undoing\<close>

definition restoreBackup :: "stagedDeployment \<Rightarrow> world \<Rightarrow> deploy_error list \<times> world" where
  "restoreBackup file w =
    (let rename = (case sd_backup file of None \<Rightarrow> (\<lambda>w. (Inl ENotExist, w)) | Some b \<Rightarrow> sys_install b (sd_path file))
     in case rename w of
       (Inr _, w1) \<Rightarrow> ([], w1)
     | (Inl _, w1) \<Rightarrow>
         (case sys_remove (sd_path file) w1 of
            (r, w2) \<Rightarrow>
              if r \<noteq> Inr () \<and> r \<noteq> Inl ENotExist then ([RollbackFailed], w2)
              else case rename w2 of (Inl _, w3) \<Rightarrow> ([RollbackFailed], w3) | (Inr _, w3) \<Rightarrow> ([], w3)))"

definition restoreExisting :: "stagedDeployment \<Rightarrow> world \<Rightarrow> deploy_error list \<times> world" where
  "restoreExisting file w =
    (case restoreBackup file w of
       (es, w1) \<Rightarrow>
         if es \<noteq> [] then (es, w1)
         else case sys_sync (path_dir (sd_path file)) w1 of (Inl _, w2) \<Rightarrow> ([RollbackFailed], w2) | (Inr _, w2) \<Rightarrow> ([], w2))"

definition removeInstalled :: "stagedDeployment \<Rightarrow> world \<Rightarrow> deploy_error list \<times> world" where
  "removeInstalled file w =
    (case sys_remove (sd_path file) w of
       (Inl ENotExist, w1) \<Rightarrow> ([], w1)
     | (Inl _, w1) \<Rightarrow> ([RollbackFailed], w1)
     | (Inr _, w1) \<Rightarrow>
         (case sys_sync (path_dir (sd_path file)) w1 of (Inl _, w2) \<Rightarrow> ([RollbackFailed], w2) | (Inr _, w2) \<Rightarrow> ([], w2)))"

definition restore :: "stagedDeployment \<Rightarrow> world \<Rightarrow> deploy_error list \<times> world" where
  "restore file w =
    (if \<not> sd_installed file then ([], w) else if sd_exists file then restoreExisting file w else removeInstalled file w)"

text \<open>Every entry of a list in turn, the errors joined.\<close>

fun join_all :: "('a \<Rightarrow> world \<Rightarrow> deploy_error list \<times> world) \<Rightarrow> 'a list \<Rightarrow> world \<Rightarrow> deploy_error list \<times> world" where
  "join_all f [] w = ([], w)"
| "join_all f (x # xs) w = (case f x w of (es, w1) \<Rightarrow> case join_all f xs w1 of (es2, w2) \<Rightarrow> (es @ es2, w2))"

definition remove_temporary :: "nat \<Rightarrow> world \<Rightarrow> deploy_error list \<times> world" where
  "remove_temporary t w =
    (case sys_remove_temp t w of (r, w1) \<Rightarrow> (if r \<noteq> Inr () \<and> r \<noteq> Inl ENotExist then [CleanupFailed] else [], w1))"

definition temporaries :: "stagedDeployment \<Rightarrow> nat list" where
  "temporaries file = (case sd_staged file of None \<Rightarrow> [] | Some t \<Rightarrow> [t]) @ (case sd_backup file of None \<Rightarrow> [] | Some b \<Rightarrow> [b])"

definition cleanupTemps :: "deploymentTransaction \<Rightarrow> world \<Rightarrow> deploy_error list \<times> world" where
  "cleanupTemps tx = join_all remove_temporary (concat (map temporaries (tx_files tx)))"

definition remove_created :: "string \<Rightarrow> world \<Rightarrow> deploy_error list \<times> world" where
  "remove_created directory w =
    (case sys_remove directory w of
       (r, w1) \<Rightarrow>
         if r \<noteq> Inr () \<and> r \<noteq> Inl ENotExist then ([RollbackFailed], w1)
         else case sys_sync (path_dir directory) w1 of (Inl _, w2) \<Rightarrow> ([RollbackFailed], w2) | (Inr _, w2) \<Rightarrow> ([], w2))"

definition rollback :: "deploymentTransaction \<Rightarrow> world \<Rightarrow> deploy_error list \<times> world" where
  "rollback tx w =
    (case join_all restore (rev (tx_files tx)) w of
       (es1, w1) \<Rightarrow> case cleanupTemps tx w1 of
         (es2, w2) \<Rightarrow> case join_all remove_created (rev (tx_createdOrder tx)) w2 of
           (es3, w3) \<Rightarrow> (es1 @ es2 @ es3, w3))"

definition abort :: "deploy_error list \<Rightarrow> deploymentTransaction \<Rightarrow> world \<Rightarrow> deploy_error list \<times> world" where
  "abort err tx w = (case rollback tx w of (es, w1) \<Rightarrow> (if es \<noteq> [] then err @ [RollbackFailed] else err, w1))"

definition stopCancelled :: "DeploymentResult \<Rightarrow> deploy_error list \<Rightarrow> deploymentTransaction \<Rightarrow> world \<Rightarrow>
    DeploymentResult \<times> deploy_error list \<times> world" where
  "stopCancelled result cause tx w =
    (let result1 = result\<lparr>dr_changed := dr_changed result @ map sd_path (filter sd_installed (tx_files tx)),
           dr_notApplied := dr_notApplied result @ map sd_path (filter (\<lambda>f. \<not> sd_installed f) (tx_files tx))\<rparr>
     in case cleanupTemps tx w of
       (es, w1) \<Rightarrow>
         if es \<noteq> [] then (result1, cause @ es, w1)
         else (result1, cause, fold (\<lambda>d v. snd (sys_remove d v)) (rev (tx_createdOrder tx)) w1))"

section \<open>Deployment\<close>

definition no_deployment :: DeploymentResult where
  "no_deployment = \<lparr>dr_changed = [], dr_unchanged = [], dr_notApplied = []\<rparr>"

definition deployObserved :: "(string \<Rightarrow> string) \<Rightarrow> (nat \<Rightarrow> edit list) \<Rightarrow> nat option \<Rightarrow> string \<Rightarrow> string list \<Rightarrow> Artifact list \<Rightarrow>
    (string, string) gomap \<Rightarrow> world \<Rightarrow> DeploymentResult \<times> deploy_error list \<times> world" where
  "deployObserved sha edits cancel rootDir managedPaths artifacts observed w =
    (case prepareDeployment rootDir managedPaths artifacts of
       Inl e \<Rightarrow> (no_deployment, [e], w)
     | Inr normalized \<Rightarrow>
         (case inspectDeployments sha observed normalized w of
            (Inl e, w1) \<Rightarrow> (no_deployment, [e], w1)
          | (Inr (unchanged, pending), w1) \<Rightarrow>
              let result = no_deployment\<lparr>dr_unchanged := unchanged\<rparr>
              in if pending = [] then (result, [], w1)
                 else case stage pending \<lparr>tx_files = [], tx_createdOrder = []\<rparr> w1 of
                   (es, tx, w2) \<Rightarrow>
                     if es \<noteq> [] then (case abort es tx w2 of (es2, w3) \<Rightarrow> (no_deployment, es2, w3))
                     else case commit edits cancel tx w2 of
                       (es2, tx2, w3) \<Rightarrow>
                         if es2 \<noteq> [] then
                           (if errs_is es2 ContextErr then stopCancelled result es2 tx2 w3
                            else case abort es2 tx2 w3 of (es3, w4) \<Rightarrow> (no_deployment, es3, w4))
                         else let result2 = result\<lparr>dr_changed := map pd_path pending\<rparr>
                              in case cleanupTemps tx2 w3 of (es3, w4) \<Rightarrow> (result2, es3, w4)))"

definition DeployContextProgress :: "nat option \<Rightarrow> string \<Rightarrow> string list \<Rightarrow> Artifact list \<Rightarrow> world \<Rightarrow>
    DeploymentResult \<times> deploy_error list \<times> world" where
  "DeployContextProgress cancel rootDir managedPaths artifacts =
    deployObserved (\<lambda>s. s) (\<lambda>_. []) cancel rootDir managedPaths artifacts []"

end
