(* ===== verification/Setup_Deploy_Laws.thy ===== *)
theory Setup_Deploy_Laws
  imports Setup_Deploy
begin

text \<open>
  What a deployment does to the disk. Throughout a transaction the disk is the one that was inspected,
  overlaid with the directories created and the files installed so far; undoing removes the overlay.
\<close>

section \<open>The overlay\<close>

definition overlay :: "(string \<Rightarrow> fsnode option) \<Rightarrow> (string \<Rightarrow> fsnode option) \<Rightarrow> string list \<Rightarrow> string \<Rightarrow> fsnode option" where
  "overlay D I created q =
    (case I q of Some n \<Rightarrow> Some n | None \<Rightarrow> if q \<in> set created then Some NDir else D q)"

definition installed_of :: "(string \<Rightarrow> string) \<Rightarrow> stagedDeployment list \<Rightarrow> string \<Rightarrow> fsnode option" where
  "installed_of C fs = map_of (map (\<lambda>f. (sd_path f, NFile (C (sd_path f)) (sd_mode f))) (filter sd_installed fs))"

text \<open>What a file's record says of the disk that was inspected, and of its temporaries.\<close>

definition inspected :: "(string \<Rightarrow> fsnode option) \<Rightarrow> stagedDeployment \<Rightarrow> bool" where
  "inspected D f \<longleftrightarrow> D (sd_path f) = (if sd_exists f then Some (NFile (sd_original f) (sd_mode f)) else None)"

definition temps_held :: "(string \<Rightarrow> string) \<Rightarrow> world \<Rightarrow> stagedDeployment \<Rightarrow> bool" where
  "temps_held C w f \<longleftrightarrow>
    (\<forall>b. sd_backup f = Some b \<longrightarrow> map_of (w_temps w) b = Some (path_dir (sd_path f), sd_original f, sd_mode f)) \<and>
    (\<forall>t. sd_staged f = Some t \<longrightarrow> \<not> sd_installed f \<longrightarrow>
       map_of (w_temps w) t = Some (path_dir (sd_path f), C (sd_path f), sd_mode f))"

definition all_temps :: "stagedDeployment list \<Rightarrow> nat list" where
  "all_temps fs = concat (map temporaries fs)"

definition tx_ok :: "(string \<Rightarrow> fsnode option) \<Rightarrow> (string \<Rightarrow> string) \<Rightarrow> stagedDeployment list \<Rightarrow> string list \<Rightarrow> world \<Rightarrow> bool" where
  "tx_ok D C fs created w \<longleftrightarrow>
    (\<forall>q. lookup w q = overlay D (installed_of C fs) created q) \<and>
    distinct (map sd_path fs) \<and> list_all (inspected D) fs \<and> (\<forall>d \<in> set created. D d = None) \<and>
    list_all (temps_held C w) fs \<and> distinct (all_temps fs) \<and> (\<forall>t \<in> set (all_temps fs). t < w_next w) \<and>
    (\<forall>f \<in> set fs. sd_installed f \<longrightarrow> sd_path f \<notin> set created)"

lemma tx_okD:
  assumes "tx_ok D C fs created w"
  shows "lookup w q = overlay D (installed_of C fs) created q" "distinct (map sd_path fs)" "list_all (inspected D) fs"
    "d \<in> set created \<Longrightarrow> D d = None" "list_all (temps_held C w) fs" "distinct (all_temps fs)"
    "t \<in> set (all_temps fs) \<Longrightarrow> t < w_next w" "f \<in> set fs \<Longrightarrow> sd_installed f \<Longrightarrow> sd_path f \<notin> set created"
  using assms by (auto simp: tx_ok_def)

lemma installed_of_Nil [simp]: "installed_of C [] = Map.empty"
  by (simp add: installed_of_def)

lemma installed_of_Cons: "installed_of C (f # fs) =
    (if sd_installed f then (installed_of C fs)(sd_path f \<mapsto> NFile (C (sd_path f)) (sd_mode f)) else installed_of C fs)"
  by (simp add: installed_of_def)

lemma installed_of_notin: "q \<notin> sd_path ` set fs \<Longrightarrow> installed_of C fs q = None"
  by (induction fs) (auto simp: installed_of_Cons)

lemma installed_of_none: "list_all (\<lambda>f. \<not> sd_installed f) fs \<Longrightarrow> installed_of C fs = Map.empty"
  by (induction fs) (auto simp: installed_of_Cons)

lemma installed_of_append:
  "distinct (map sd_path (fs @ gs)) \<Longrightarrow> installed_of C (fs @ gs) = installed_of C fs ++ installed_of C gs"
  by (induction fs) (auto simp: installed_of_Cons installed_of_notin map_add_def split: option.splits)

lemma installed_of_perm:
  "distinct (map sd_path fs) \<Longrightarrow> set fs = set gs \<Longrightarrow> distinct (map sd_path gs) \<Longrightarrow> installed_of C fs = installed_of C gs"
  unfolding installed_of_def
  by (rule map_of_inject_set [THEN iffD2]) (auto simp: comp_def distinct_map inj_on_def)

text \<open>Reads leave the world as it is, up to the schedule.\<close>

definition same_disk :: "world \<Rightarrow> world \<Rightarrow> bool" where
  "same_disk w w' \<longleftrightarrow> w_disk w' = w_disk w \<and> w_temps w' = w_temps w \<and> w_next w' = w_next w"

lemma same_disk_refl [simp]: "same_disk w w"
  by (simp add: same_disk_def)

lemma same_disk_trans: "same_disk w w1 \<Longrightarrow> same_disk w1 w2 \<Longrightarrow> same_disk w w2"
  by (simp add: same_disk_def)

lemma same_disk_lookup: "same_disk w w' \<Longrightarrow> lookup w' = lookup w"
  by (simp add: same_disk_def lookup_def fun_eq_iff)

lemma lstat_same: "sys_lstat p w = (r, w') \<Longrightarrow> same_disk w w'"
  using reads_keep(1) [of p w r w'] by (simp add: same_disk_def)

lemma read_same: "sys_read p w = (r, w') \<Longrightarrow> same_disk w w'"
  using reads_keep(2) [of p w r w'] by (simp add: same_disk_def)

lemma sync_quiet: "sys_sync d w = (r, w') \<Longrightarrow> same_disk w w'"
  using sync_keeps [of d w r w'] by (simp add: same_disk_def)

lemma failed_same:
  "sys_mkdir p w = (Inl e, w') \<Longrightarrow> same_disk w w'"
  "sys_stage dir content mode w = (Inl e, w') \<Longrightarrow> same_disk w w'"
  "sys_install t p w = (Inl e, w') \<Longrightarrow> same_disk w w'"
  "sys_remove p w = (Inl e, w') \<Longrightarrow> same_disk w w'"
  using failed_keeps by (simp_all add: same_disk_def)

lemma tx_ok_same: "tx_ok D C fs created w \<Longrightarrow> same_disk w w' \<Longrightarrow> tx_ok D C fs created w'"
  using same_disk_lookup [of w w'] by (simp add: tx_ok_def temps_held_def list_all_iff same_disk_def)

section \<open>Inspection\<close>

lemma inspect_components_same: "inspect_components cs w = (r, w') \<Longrightarrow> same_disk w w'"
proof (induction cs arbitrary: w r w')
  case (Cons c cs)
  from Cons.prems show ?case
    by (auto split: prod.splits sum.splits syserr.splits fsnode.splits if_splits
        dest!: lstat_same Cons.IH intro: same_disk_trans)
qed simp

lemma inspect_components_missing:
  "inspect_components cs w = (Inr missing, w') \<Longrightarrow> d \<in> set missing \<Longrightarrow> lookup w d = None"
proof (induction cs arbitrary: w missing w')
  case (Cons c cs)
  obtain r w1 where l: "sys_lstat c w = (r, w1)" by (cases "sys_lstat c w")
  have s: "lookup w1 = lookup w" using same_disk_lookup lstat_same [OF l] by blast
  have IH: "\<And>ms w2. inspect_components cs w1 = (Inr ms, w2) \<Longrightarrow> d \<in> set ms \<Longrightarrow> lookup w d = None"
    using Cons.IH [of w1] s by metis
  show ?case
  proof (cases r)
    case (Inl e)
    then have "e = ENotExist" using Cons.prems l by (cases e) auto
    with Inl Cons.prems l lstat_absent [of c w w1] show ?thesis
      by (auto split: prod.splits sum.splits if_splits dest: IH)
  next
    case (Inr n)
    with Cons.prems l show ?thesis by (auto split: fsnode.splits if_splits dest: IH)
  qed
qed simp

text \<open>What a pending write records agrees with the disk.\<close>

definition agrees :: "(string \<Rightarrow> fsnode option) \<Rightarrow> pendingDeployment \<Rightarrow> bool" where
  "agrees D p \<longleftrightarrow>
    D (pd_path p) = (if pd_exists p then Some (NFile (pd_original p) (pd_mode p)) else None) \<and>
    (\<forall>d \<in> set (pd_missing p). D d = None)"

lemma inspectArtifact_same: "inspectArtifact a w = (r, w') \<Longrightarrow> same_disk w w'"
  unfolding inspectArtifact_def inspectDeploymentPath_def
  by (auto split: prod.splits sum.splits syserr.splits fsnode.splits if_splits
      dest!: inspect_components_same lstat_same read_same intro: same_disk_trans)

lemma inspectArtifact_some:
  assumes "inspectArtifact a w = (Inr (Some p), w')"
  shows "agrees (lookup w) p" "pd_path p = art_path a" "pd_content p = art_content a"
proof -
  obtain r w1 where i: "inspect_components (components (art_path a)) w = (r, w1)" by fastforce
  then obtain missing where r: "r = Inr missing"
    using assms by (cases r) (auto simp: inspectArtifact_def inspectDeploymentPath_def)
  have s1: "lookup w1 = lookup w" using i inspect_components_same same_disk_lookup by blast
  have m: "\<forall>d \<in> set missing. lookup w d = None" using i inspect_components_missing r by blast
  obtain s w2 where l: "sys_lstat (art_path a) w1 = (s, w2)" by fastforce
  have s2: "lookup w2 = lookup w" using s1 l lstat_same same_disk_lookup by metis
  have "agrees (lookup w) p \<and> pd_path p = art_path a \<and> pd_content p = art_content a"
  proof (cases s)
    case (Inl e)
    then have e: "e = ENotExist"
      using assms i r l by (cases e) (auto simp: inspectArtifact_def inspectDeploymentPath_def)
    then have "lookup w (art_path a) = None" using l Inl lstat_absent s1 by metis
    then show ?thesis using assms i r l Inl e m
      by (auto simp: inspectArtifact_def inspectDeploymentPath_def agrees_def)
  next
    case (Inr n)
    then obtain c mode where n: "n = NFile c mode"
      using assms i r l by (cases n) (auto simp: inspectArtifact_def inspectDeploymentPath_def)
    then have L: "lookup w (art_path a) = Some (NFile c mode)" using l Inr lstat_ok s1 by metis
    obtain u w3 where u: "sys_read (art_path a) w2 = (u, w3)" by fastforce
    show ?thesis
    proof (cases u)
      case (Inr current)
      then have "current = c" using read_ok [of "art_path a" w2 current w3] u L s2 by auto
      then show ?thesis using assms i r l \<open>s = Inr n\<close> n m u Inr L
        by (auto simp: inspectArtifact_def inspectDeploymentPath_def agrees_def split: if_splits)
    qed (use assms i r l Inr n u in \<open>auto simp: inspectArtifact_def inspectDeploymentPath_def\<close>)
  qed
  then show "agrees (lookup w) p" "pd_path p = art_path a" "pd_content p = art_content a" by auto
qed

lemma inspectArtifact_none:
  assumes "inspectArtifact a w = (Inr None, w')"
  shows "\<exists>mode. lookup w (art_path a) = Some (NFile (art_content a) mode)"
proof -
  obtain r w1 where i: "inspect_components (components (art_path a)) w = (r, w1)" by fastforce
  then obtain missing where r: "r = Inr missing"
    using assms by (cases r) (auto simp: inspectArtifact_def inspectDeploymentPath_def)
  have s1: "lookup w1 = lookup w" using i inspect_components_same same_disk_lookup by blast
  obtain s w2 where l: "sys_lstat (art_path a) w1 = (s, w2)" by fastforce
  then have s2: "lookup w2 = lookup w" using s1 lstat_same same_disk_lookup by metis
  obtain n where n: "s = Inr n" using assms i r l
    by (cases s) (auto simp: inspectArtifact_def inspectDeploymentPath_def split: syserr.splits)
  obtain c mode where "n = NFile c mode"
    using assms i r l n by (cases n) (auto simp: inspectArtifact_def inspectDeploymentPath_def)
  then have L: "lookup w (art_path a) = Some (NFile c mode)" using l n lstat_ok s1 by metis
  obtain u w3 where u: "sys_read (art_path a) w2 = (u, w3)" by fastforce
  then obtain current where "u = Inr current" using assms i r l n \<open>n = _\<close>
    by (cases u) (auto simp: inspectArtifact_def inspectDeploymentPath_def)
  then show ?thesis using read_ok [of "art_path a" w2 current w3] u L s2 assms i r l n \<open>n = _\<close>
    by (auto simp: inspectArtifact_def inspectDeploymentPath_def split: if_splits)
qed


text \<open>The whole batch: what is pending agrees with the disk, and what is unchanged holds its content already.\<close>

definition holds_content :: "(string \<Rightarrow> fsnode option) \<Rightarrow> string \<Rightarrow> string \<Rightarrow> bool" where
  "holds_content D p content \<longleftrightarrow> (\<exists>mode. D p = Some (NFile content mode))"

lemma inspect_from_same: "inspect_from sha obs u ps as w = (r, w') \<Longrightarrow> same_disk w w'"
proof (induction as arbitrary: u ps w r w')
  case (Cons a as)
  from Cons.prems show ?case
    by (auto split: prod.splits sum.splits option.splits if_splits
        dest!: inspectArtifact_same Cons.IH intro: same_disk_trans)
qed simp

definition batch_seen :: "(string \<Rightarrow> fsnode option) \<Rightarrow> Artifact list \<Rightarrow> string list \<Rightarrow> pendingDeployment list \<Rightarrow> bool" where
  "batch_seen D as u ps \<longleftrightarrow>
    list_all (agrees D) ps \<and> set (map pd_path ps) \<union> set u = set (map art_path as) \<and>
    (distinct (map art_path as) \<longrightarrow> distinct (map pd_path ps) \<and> set (map pd_path ps) \<inter> set u = {}) \<and>
    (\<forall>p \<in> set ps. \<exists>a \<in> set as. pd_path p = art_path a \<and> pd_content p = art_content a) \<and>
    (\<forall>q \<in> set u. \<exists>a \<in> set as. q = art_path a \<and> holds_content D q (art_content a))"

lemma batch_seen_unchanged:
  "batch_seen D as u ps \<Longrightarrow> holds_content D (art_path a) (art_content a) \<Longrightarrow> batch_seen D (a # as) (art_path a # u) ps"
  by (auto simp: batch_seen_def)

lemma batch_seen_pending:
  "batch_seen D as u ps \<Longrightarrow> agrees D p \<Longrightarrow> pd_path p = art_path a \<Longrightarrow> pd_content p = art_content a \<Longrightarrow>
    batch_seen D (a # as) u (p # ps)"
  by (auto simp: batch_seen_def)

lemma inspect_from_sound:
  "inspect_from sha obs u0 ps0 as w = (Inr (u, ps), w') \<Longrightarrow>
    \<exists>u1 ps1. u = u0 @ u1 \<and> ps = ps0 @ ps1 \<and> batch_seen (lookup w) as u1 ps1"
proof (induction as arbitrary: u0 ps0 w)
  case Nil
  then show ?case by (simp add: batch_seen_def)
next
  case (Cons a as)
  obtain r w1 where i: "inspectArtifact a w = (r, w1)" by fastforce
  then obtain item where r: "r = Inr item" using Cons.prems by (cases r) auto
  have s: "lookup w1 = lookup w" using i inspectArtifact_same same_disk_lookup by blast
  show ?case
  proof (cases item)
    case None
    have "inspect_from sha obs (u0 @ [art_path a]) ps0 as w1 = (Inr (u, ps), w')"
      using Cons.prems i r None by (simp split: if_splits)
    from Cons.IH [OF this] obtain u1 ps1 where *: "u = (u0 @ [art_path a]) @ u1" "ps = ps0 @ ps1"
      "batch_seen (lookup w) as u1 ps1" by (auto simp: s)
    moreover have "holds_content (lookup w) (art_path a) (art_content a)"
      using inspectArtifact_none i r None by (auto simp: holds_content_def)
    ultimately show ?thesis using batch_seen_unchanged [OF *(3)]
      by (intro exI [of _ "art_path a # u1"] exI [of _ ps1]) simp
  next
    case (Some p)
    have "inspect_from sha obs u0 (ps0 @ [p]) as w1 = (Inr (u, ps), w')"
      using Cons.prems i r Some by (simp split: if_splits)
    from Cons.IH [OF this] obtain u1 ps1 where *: "u = u0 @ u1" "ps = (ps0 @ [p]) @ ps1"
      "batch_seen (lookup w) as u1 ps1" by (auto simp: s)
    moreover have "agrees (lookup w) p" "pd_path p = art_path a" "pd_content p = art_content a"
      using inspectArtifact_some i r Some by blast+
    ultimately show ?thesis using batch_seen_pending [OF *(3)]
      by (intro exI [of _ u1] exI [of _ "p # ps1"]) simp
  qed
qed

section \<open>Staging\<close>

lemma created_ok:
  assumes "createMissingDirectories ds created w = (es, created', w')"
    and "\<forall>q. lookup w q = overlay D Map.empty created q" "\<forall>d \<in> set created. D d = None" "\<forall>d \<in> set ds. D d = None"
  shows "(\<forall>q. lookup w' q = overlay D Map.empty created' q) \<and> (\<forall>d \<in> set created'. D d = None) \<and>
    w_temps w' = w_temps w \<and> w_next w' = w_next w \<and> set es \<subseteq> {PrepareFailed}"
  using assms
proof (induction ds arbitrary: created w)
  case Nil
  then show ?case by simp
next
  case (Cons d ds)
  show ?case
  proof (cases "d \<in> set created")
    case False
    obtain r w1 where m: "sys_mkdir d w = (r, w1)" by fastforce
    have L: "lookup w d = None" using Cons.prems False by (simp add: overlay_def)
    show ?thesis
    proof (cases r)
      case (Inr x)
      note ok = mkdir_ok [OF m [unfolded Inr]]
      have "createMissingDirectories ds (created @ [d]) w1 = (es, created', w')" using Cons.prems(1) m Inr False by simp
      moreover have "\<forall>q. lookup w1 q = overlay D Map.empty (created @ [d]) q"
        using ok Cons.prems(2) by (auto simp: overlay_def)
      moreover have "\<forall>d \<in> set (created @ [d]). D d = None" using Cons.prems(3,4) by auto
      moreover have "\<forall>d \<in> set ds. D d = None" using Cons.prems(4) by auto
      ultimately have "(\<forall>q. lookup w' q = overlay D Map.empty created' q) \<and> (\<forall>d \<in> set created'. D d = None) \<and>
          w_temps w' = w_temps w1 \<and> w_next w' = w_next w1 \<and> set es \<subseteq> {PrepareFailed}" by (rule Cons.IH)
      moreover have "w_temps w1 = w_temps w" "w_next w1 = w_next w" using ok by blast+
      ultimately show ?thesis by metis
    next
      case (Inl e)
      have "e \<noteq> EExist" using m L Inl
        by (rule_tac next_result_cases [of w]) (auto simp: sys_mkdir_def may_fail_def lookup_def split: if_splits)
      moreover have "same_disk w w1" using failed_same(1) m Inl by blast
      ultimately show ?thesis using Cons.prems m Inl False same_disk_lookup [of w w1]
        by (cases e) (auto simp: same_disk_def)
    qed
  next
    case True
    with Cons.prems(1) have "createMissingDirectories ds created w = (es, created', w')" by simp
    then show ?thesis using Cons.prems(2-4) by (intro Cons.IH) auto
  qed
qed


text \<open>Staging a file adds its temporaries under fresh numbers.\<close>

definition staging_errors :: "deploy_error set" where
  "staging_errors = {PrepareFailed, StageFailed, BackupFailed}"

lemma all_temps_snoc: "all_temps (fs @ [f]) = all_temps fs @ temporaries f"
  by (simp add: all_temps_def)

lemma temps_held_grow:
  assumes "list_all (temps_held C w) fs" "\<forall>t \<in> set (all_temps fs). t < w_next w"
    and "\<forall>t < w_next w. map_of (w_temps w') t = map_of (w_temps w) t"
  shows "list_all (temps_held C w') fs"
proof -
  have "temps_held C w' f" if f: "f \<in> set fs" for f
  proof -
    have "\<forall>t \<in> set (temporaries f). t < w_next w" using assms(2) f by (auto simp: all_temps_def)
    moreover have "temps_held C w f" using assms(1) f by (simp add: list_all_iff)
    ultimately show ?thesis using assms(3) by (auto simp: temps_held_def temporaries_def)
  qed
  then show ?thesis by (simp add: list_all_iff)
qed

definition staged_for :: "pendingDeployment \<Rightarrow> stagedDeployment \<Rightarrow> bool" where
  "staged_for p g \<longleftrightarrow> sd_path g = pd_path p \<and> sd_exists g = pd_exists p \<and> sd_mode g = pd_mode p \<and>
    sd_original g = pd_original p \<and> \<not> sd_installed g"

lemma tx_ok_snoc:
  assumes ok: "tx_ok D C fs created w" and none: "list_all (\<lambda>f. \<not> sd_installed f) fs"
    and p: "agrees D p" "pd_path p \<notin> sd_path ` set fs" and g: "staged_for p g"
    and L: "\<forall>q. lookup v q = overlay D Map.empty created' q" "\<forall>d \<in> set created'. D d = None"
    and h: "temps_held C v g" "distinct (temporaries g)" "\<forall>t \<in> set (temporaries g). w_next w \<le> t \<and> t < w_next v"
    and n: "w_next w \<le> w_next v" "\<forall>t < w_next w. map_of (w_temps v) t = map_of (w_temps w) t"
  shows "tx_ok D C (fs @ [g]) created' v"
proof -
  note t = tx_okD [OF ok]
  have "list_all (temps_held C v) fs" using temps_held_grow [OF t(5) _ n(2)] t(7) by blast
  moreover have "installed_of C (fs @ [g]) = Map.empty" using none g by (intro installed_of_none) (simp add: staged_for_def)
  moreover have "distinct (all_temps (fs @ [g]))" using t(6,7) h(2,3) by (force simp: all_temps_snoc)
  moreover have "\<forall>t \<in> set (all_temps (fs @ [g])). t < w_next v" using t(7) h(3) n(1) by (force simp: all_temps_snoc)
  moreover have "inspected D g" using p(1) g by (simp add: agrees_def inspected_def staged_for_def)
  ultimately show ?thesis using t(2,3) g h(1) L p(2) none by (simp add: tx_ok_def staged_for_def list_all_iff)
qed

lemma stageOne_ok:
  assumes st: "stageOne (new_staged p) p created w = (es, f, created', w')"
    and ok: "tx_ok D C fs created w" and none: "list_all (\<lambda>f. \<not> sd_installed f) fs"
    and p: "agrees D p" "pd_path p \<notin> sd_path ` set fs" "C (pd_path p) = pd_content p"
  shows "tx_ok D C (fs @ [f]) created' w' \<and> \<not> sd_installed f \<and> set es \<subseteq> staging_errors \<and> sd_path f = pd_path p \<and>
    (es = [] \<longrightarrow> sd_staged f \<noteq> None \<and> (sd_exists f \<longrightarrow> sd_backup f \<noteq> None))"
proof -
  obtain es1 created1 w1 where c: "createMissingDirectories (pd_missing p) created w = (es1, created1, w1)"
    by (cases "createMissingDirectories (pd_missing p) created w")
  note t = tx_okD [OF ok]
  have c1: "(\<forall>q. lookup w1 q = overlay D Map.empty created1 q) \<and> (\<forall>d \<in> set created1. D d = None) \<and>
      w_temps w1 = w_temps w \<and> w_next w1 = w_next w \<and> set es1 \<subseteq> {PrepareFailed}"
    using created_ok [OF c, of D] t(1,4) p(1) installed_of_none [OF none] by (simp add: agrees_def)
  have build: "tx_ok D C (fs @ [g]) created1 v"
    if "lookup v = lookup w1" "staged_for p g" "temps_held C v g" "distinct (temporaries g)"
      "\<forall>t \<in> set (temporaries g). w_next w \<le> t \<and> t < w_next v" "w_next w \<le> w_next v"
      "\<forall>t < w_next w. map_of (w_temps v) t = map_of (w_temps w) t" for g v
    by (rule tx_ok_snoc [OF ok none p(1,2)]) (use that c1 in auto)
  let ?g = "new_staged p"
  have g: "staged_for p ?g" by (simp add: staged_for_def new_staged_def)
  show ?thesis
  proof (cases "es1 = []")
    case False
    then have "es = es1" "f = ?g" "created' = created1" "w' = w1" using st c by (auto simp: stageOne_def)
    then show ?thesis using build [OF refl g] c1 False
      by (auto simp: new_staged_def temps_held_def temporaries_def staging_errors_def)
  next
    case True
    obtain r2 w2 where s2: "sys_stage (path_dir (pd_path p)) (pd_content p) (pd_mode p) w1 = (r2, w2)" by fastforce
    show ?thesis
    proof (cases r2)
      case (Inl e)
      then have "same_disk w1 w2" using failed_same(2) s2 by blast
      then have "lookup w2 = lookup w1" "w_next w2 = w_next w" "w_temps w2 = w_temps w"
        using c1 same_disk_lookup [of w1 w2] by (auto simp: same_disk_def)
      then show ?thesis using build [of w2 ?g] g st c True s2 Inl
        by (auto simp: stageOne_def new_staged_def temps_held_def temporaries_def staging_errors_def)
    next
      case (Inr t1)
      note k2 = stage_ok [OF s2 [unfolded Inr]]
      let ?g2 = "?g\<lparr>sd_staged := Some t1\<rparr>"
      have g2: "lookup w2 = lookup w1" "staged_for p ?g2"
        using k2 by (auto simp: staged_for_def new_staged_def lookup_def)
      have h2: "temps_held C w2 ?g2" using k2 p(3) by (simp add: temps_held_def new_staged_def)
      have n2: "\<forall>t < w_next w. map_of (w_temps w2) t = map_of (w_temps w) t" "t1 = w_next w" "w_next w2 = Suc (w_next w)"
        using k2 c1 by auto
      have ok2: "tx_ok D C (fs @ [?g2]) created1 w2"
        by (rule build [OF g2 h2 _ _ _ n2(1)]) (use n2 in \<open>auto simp: temporaries_def new_staged_def\<close>)
      show ?thesis
      proof (cases "pd_exists p")
        case False
        then show ?thesis using ok2 st c True s2 Inr by (auto simp: stageOne_def new_staged_def)
      next
        case ex: True
        obtain r3 w3 where s3: "sys_stage (path_dir (pd_path p)) (pd_original p) (pd_mode p) w2 = (r3, w3)" by fastforce
        show ?thesis
        proof (cases r3)
          case (Inl e)
          then have "same_disk w2 w3" using failed_same(2) s3 by blast
          then show ?thesis using tx_ok_same [OF ok2] st c True s2 Inr s3 Inl ex
            by (auto simp: stageOne_def new_staged_def staging_errors_def)
        next
          case b: (Inr b)
          note k3 = stage_ok [OF s3 [unfolded b]]
          let ?g3 = "?g2\<lparr>sd_backup := Some b\<rparr>"
          have "lookup w3 = lookup w2" using k3 by (simp add: lookup_def fun_eq_iff)
          then have g3: "lookup w3 = lookup w1" "staged_for p ?g3" using g2 by (simp_all add: staged_for_def)
          have h3: "temps_held C w3 ?g3" using k3 k2 p(3) by (auto simp: temps_held_def new_staged_def)
          have n3: "\<forall>t < w_next w. map_of (w_temps w3) t = map_of (w_temps w) t" "b = Suc (w_next w)"
              "w_next w3 = Suc (Suc (w_next w))"
            using k3 n2 by auto
          have "tx_ok D C (fs @ [?g3]) created1 w3"
            by (rule build [OF g3 h3 _ _ _ n3(1)]) (use n2 n3 in \<open>auto simp: temporaries_def new_staged_def\<close>)
          then show ?thesis using st c True s2 Inr s3 b ex by (auto simp: stageOne_def new_staged_def)
        qed
      qed
    qed
  qed
qed


text \<open>The whole batch is staged, or what is staged can be undone.\<close>

definition fully_staged :: "stagedDeployment \<Rightarrow> bool" where
  "fully_staged f \<longleftrightarrow> sd_staged f \<noteq> None \<and> (sd_exists f \<longrightarrow> sd_backup f \<noteq> None)"

lemma stage_tx_ok:
  assumes "stage ps tx w = (es, tx', w')"
    and "tx_ok D C (tx_files tx) (tx_createdOrder tx) w" "list_all (\<lambda>f. \<not> sd_installed f) (tx_files tx)"
    and "list_all (agrees D) ps" "\<forall>p \<in> set ps. C (pd_path p) = pd_content p"
    and "distinct (map sd_path (tx_files tx) @ map pd_path ps)"
  shows "tx_ok D C (tx_files tx') (tx_createdOrder tx') w' \<and> list_all (\<lambda>f. \<not> sd_installed f) (tx_files tx') \<and>
    set es \<subseteq> staging_errors \<and>
    (es = [] \<longrightarrow> map sd_path (tx_files tx') = map sd_path (tx_files tx) @ map pd_path ps \<and>
      (list_all fully_staged (tx_files tx) \<longrightarrow> list_all fully_staged (tx_files tx')))"
  using assms
proof (induction ps arbitrary: tx w)
  case Nil
  then show ?case by simp
next
  case (Cons p ps)
  obtain es1 f created w1 where o: "stageOne (new_staged p) p (tx_createdOrder tx) w = (es1, f, created, w1)"
    by (cases "stageOne (new_staged p) p (tx_createdOrder tx) w")
  have s: "tx_ok D C (tx_files tx @ [f]) created w1 \<and> \<not> sd_installed f \<and> set es1 \<subseteq> staging_errors \<and> sd_path f = pd_path p \<and>
      (es1 = [] \<longrightarrow> sd_staged f \<noteq> None \<and> (sd_exists f \<longrightarrow> sd_backup f \<noteq> None))"
    by (rule stageOne_ok [OF o Cons.prems(2,3)]) (use Cons.prems(4-6) in auto)
  define tx1 where "tx1 = \<lparr>tx_files = tx_files tx @ [f], tx_createdOrder = created\<rparr>"
  show ?case
  proof (cases "es1 = []")
    case False
    then have "es = es1" "tx' = tx1" "w' = w1" using Cons.prems(1) o by (simp_all add: tx1_def)
    then show ?thesis using s False Cons.prems(3) by (simp add: tx1_def)
  next
    case True
    then have "stage ps tx1 w1 = (es, tx', w')" using Cons.prems(1) o by (simp add: tx1_def)
    then have "tx_ok D C (tx_files tx') (tx_createdOrder tx') w' \<and> list_all (\<lambda>f. \<not> sd_installed f) (tx_files tx') \<and>
        set es \<subseteq> staging_errors \<and>
        (es = [] \<longrightarrow> map sd_path (tx_files tx') = map sd_path (tx_files tx1) @ map pd_path ps \<and>
          (list_all fully_staged (tx_files tx1) \<longrightarrow> list_all fully_staged (tx_files tx')))"
      by (rule Cons.IH) (use s Cons.prems in \<open>auto simp: tx1_def\<close>)
    moreover have "fully_staged f" using s True by (simp add: fully_staged_def)
    ultimately show ?thesis using s True by (simp add: tx1_def)
  qed
qed

section \<open>Commit\<close>

text \<open>An install moves one file from pending to installed.\<close>

lemma overlay_install: "q' \<noteq> p \<Longrightarrow> overlay D (I(p \<mapsto> n)) created q' = overlay D I created q'"
  "overlay D (I(p \<mapsto> n)) created p = Some n"
  by (simp_all add: overlay_def)

lemma installed_of_switch:
  assumes "distinct (map sd_path (done @ f # rest))"
  shows "installed_of C (done @ f\<lparr>sd_installed := True\<rparr> # rest) =
    (installed_of C (done @ f # rest))(sd_path f \<mapsto> NFile (C (sd_path f)) (sd_mode f))"
proof -
  have "installed_of C rest (sd_path f) = None" "installed_of C done (sd_path f) = None"
    using assms by (auto intro!: installed_of_notin)
  then show ?thesis using assms
    by (subst (1 2) installed_of_append) (auto simp: installed_of_Cons fun_eq_iff map_add_def split: option.splits)
qed

lemma all_temps_switch: "all_temps (done @ f\<lparr>sd_installed := True\<rparr> # rest) = all_temps (done @ f # rest)"
  by (simp add: all_temps_def temporaries_def)

lemma all_temps_disjoint:
  assumes "distinct (all_temps fs)" "g \<in> set fs" "f \<in> set fs" "t \<in> set (temporaries f)" "t \<in> set (temporaries g)"
  shows "f = g"
proof (rule ccontr)
  assume "f \<noteq> g"
  obtain a b where "fs = a @ f # b" using assms(3) by (meson split_list)
  with assms \<open>f \<noteq> g\<close> show False by (auto simp: all_temps_def)
qed

lemma install_tx_ok:
  assumes ok: "tx_ok D C (done @ f # rest) created w" and i: "sys_install t (sd_path f) w = (Inr x, w')"
    and f: "sd_staged f = Some t" "\<not> sd_installed f"
  shows "tx_ok D C (done @ f\<lparr>sd_installed := True\<rparr> # rest) created w'"
proof -
  note k = install_ok [OF i]
  note o = tx_okD [OF ok]
  have tf: "map_of (w_temps w) t = Some (path_dir (sd_path f), C (sd_path f), sd_mode f)"
    using o(5) f by (simp add: temps_held_def)
  have L: "lookup w' q = (if q = sd_path f then Some (NFile (C (sd_path f)) (sd_mode f)) else lookup w q)" for q
    using k tf by auto
  have tt: "w_temps w' = mdel t (w_temps w)" "w_next w' = w_next w" using k by auto
  have notin: "sd_path f \<notin> set created"
  proof
    assume c: "sd_path f \<in> set created"
    have "installed_of C (done @ f # rest) (sd_path f) = None"
      using o(2) f(2) installed_of_notin [of "sd_path f"] by (subst installed_of_append) (auto simp: installed_of_Cons)
    with c o(1) k show False by (auto simp: overlay_def)
  qed
  have held: "temps_held C w' g" if g: "g \<in> set (done @ rest)" for g
  proof -
    have "f \<noteq> g" using o(2) g by auto
    then have "t \<notin> set (temporaries g)"
      using all_temps_disjoint [OF o(6), of g f t] g f by (auto simp: temporaries_def)
    moreover have "temps_held C w g" using o(5) g by (auto simp: list_all_iff)
    ultimately show ?thesis using tt by (auto simp: temps_held_def temporaries_def)
  qed
  have "t \<notin> set (case sd_backup f of None \<Rightarrow> [] | Some b \<Rightarrow> [b])"
    using o(6) f(1) by (auto simp: all_temps_def temporaries_def split: option.splits)
  then have "temps_held C w' (f\<lparr>sd_installed := True\<rparr>)"
    using o(5) tt by (auto simp: temps_held_def)
  moreover have "\<forall>q. lookup w' q = overlay D (installed_of C (done @ f\<lparr>sd_installed := True\<rparr> # rest)) created q"
    unfolding installed_of_switch [OF o(2)] using L o(1) by (auto simp: overlay_def)
  ultimately show ?thesis using o held notin tt
    by (auto simp: tx_ok_def all_temps_switch list_all_iff inspected_def)
qed


definition commit_errors :: "deploy_error set" where
  "commit_errors = {ContextErr, InspectFailed, InstallFailed, SyncFailed} \<union> range ChangedDuringApply"

lemma unchanged_same: "unchangedSinceInspection f w = (r, w') \<Longrightarrow> same_disk w w'"
  unfolding unchangedSinceInspection_def by (auto split: prod.splits sum.splits syserr.splits dest!: read_same)

lemma unchanged_error: "unchangedSinceInspection f w = (Inl e, w') \<Longrightarrow> e = InspectFailed"
  unfolding unchangedSinceInspection_def by (auto split: prod.splits sum.splits syserr.splits)

lemma commit_files_ok:
  assumes "commit_files (\<lambda>_. []) cancel i rest w = (es, rest', w')"
    and "tx_ok D C (done @ rest) created w" "list_all (\<lambda>f. \<not> sd_installed f) rest"
  shows "tx_ok D C (done @ rest') created w' \<and> map sd_path rest' = map sd_path rest \<and>
    (es = [] \<longrightarrow> list_all sd_installed rest') \<and> set es \<subseteq> commit_errors"
  using assms
proof (induction rest arbitrary: i "done" w es rest')
  case Nil
  then show ?case by simp
next
  case (Cons f rest)
  obtain r w1 where u: "unchangedSinceInspection f w = (r, w1)" by fastforce
  have ok1: "tx_ok D C (done @ f # rest) created w1" using Cons.prems(2) tx_ok_same unchanged_same [OF u] by blast
  have stop: ?case if "es \<noteq> []" "set es \<subseteq> commit_errors" "rest' = f # rest" "tx_ok D C (done @ f # rest) created w'"
    using that by simp
  show ?case
  proof (cases "cancelled cancel i")
    case True
    then show ?thesis using Cons.prems by (intro stop) (auto simp: commit_errors_def)
  next
    case go: False
    show ?thesis
    proof (cases "r = Inr True \<and> sd_staged f \<noteq> None")
      case False
      show ?thesis
      proof (cases r)
        case (Inl e)
        then show ?thesis using Cons.prems(1) u go ok1 unchanged_error [of f w e w1]
          by (intro stop) (auto simp: commit_errors_def)
      next
        case (Inr b)
        then show ?thesis using Cons.prems(1) u go ok1 False
          by (intro stop) (auto simp: commit_errors_def split: bool.splits)
      qed
    next
      case True
      then obtain t where t: "r = Inr True" "sd_staged f = Some t" by blast
      obtain x w2 where ins: "sys_install t (sd_path f) w1 = (x, w2)" by fastforce
      show ?thesis
      proof (cases x)
        case (Inl e)
        then have "tx_ok D C (done @ f # rest) created w2" using tx_ok_same [OF ok1] failed_same(3) ins by blast
        then show ?thesis using Cons.prems(1) u go t ins Inl by (intro stop) (auto simp: commit_errors_def)
      next
        case x: (Inr y)
        define f1 where "f1 = f\<lparr>sd_installed := True\<rparr>"
        have ok2: "tx_ok D C ((done @ [f1]) @ rest) created w2"
          using install_tx_ok [OF ok1 ins [unfolded x] t(2)] Cons.prems(3) by (simp add: f1_def)
        obtain z w3 where sy: "sys_sync (path_dir (sd_path f)) w2 = (z, w3)" by fastforce
        have ok3: "tx_ok D C ((done @ [f1]) @ rest) created w3" using tx_ok_same [OF ok2 sync_quiet [OF sy]] .
        show ?thesis
        proof (cases z)
          case (Inl e)
          then have "es = [InstallFailed]" "rest' = f1 # rest" "w' = w3"
            using Cons.prems(1) u go t ins x sy by (auto simp: f1_def)
          then show ?thesis using ok3 by (simp add: f1_def commit_errors_def)
        next
          case (Inr v)
          obtain es1 rest1 w4 where c: "commit_files (\<lambda>_. []) cancel (Suc i) rest w3 = (es1, rest1, w4)"
            by (cases "commit_files (\<lambda>_. []) cancel (Suc i) rest w3")
          have e: "es = es1" "rest' = f1 # rest1" "w' = w4"
            using Cons.prems(1) u go t ins x sy Inr c by (auto simp: f1_def)
          have "commit_files (\<lambda>_. []) cancel (Suc i) rest w3 = (es, rest1, w')" using c e by simp
          from Cons.IH [OF this ok3] have "tx_ok D C ((done @ [f1]) @ rest1) created w' \<and>
              map sd_path rest1 = map sd_path rest \<and> (es = [] \<longrightarrow> list_all sd_installed rest1) \<and> set es \<subseteq> commit_errors"
            using Cons.prems(3) by simp
          then show ?thesis using e by (simp add: f1_def)
        qed
      qed
    qed
  qed
qed

lemma sync_all_same: "sync_all ds w = (es, w') \<Longrightarrow> same_disk w w' \<and> set es \<subseteq> {SyncFailed}"
proof (induction ds arbitrary: w)
  case (Cons d ds)
  obtain r w1 where s: "sys_sync d w = (r, w1)" by fastforce
  then show ?case using Cons sync_quiet [OF s] same_disk_trans by (cases r) auto
qed simp

lemma commit_ok:
  assumes c: "commit (\<lambda>_. []) cancel tx w = (es, tx', w')"
    and ok: "tx_ok D C (tx_files tx) (tx_createdOrder tx) w" "list_all (\<lambda>f. \<not> sd_installed f) (tx_files tx)"
  shows "tx_ok D C (tx_files tx') (tx_createdOrder tx) w'" "map sd_path (tx_files tx') = map sd_path (tx_files tx)"
    "es = [] \<Longrightarrow> list_all sd_installed (tx_files tx')" "set es \<subseteq> commit_errors" "tx_createdOrder tx' = tx_createdOrder tx"
proof -
  obtain es1 files w1 where f: "commit_files (\<lambda>_. []) cancel 0 (tx_files tx) w = (es1, files, w1)"
    by (cases "commit_files (\<lambda>_. []) cancel 0 (tx_files tx) w")
  have *: "tx_ok D C ([] @ files) (tx_createdOrder tx) w1 \<and> map sd_path files = map sd_path (tx_files tx) \<and>
      (es1 = [] \<longrightarrow> list_all sd_installed files) \<and> set es1 \<subseteq> commit_errors"
    by (rule commit_files_ok [OF f]) (use ok in auto)
  obtain es2 w2 where s: "sync_all (rev (tx_createdOrder tx)) w1 = (es2, w2)" by fastforce
  have t: "tx_files tx' = files" "tx_createdOrder tx' = tx_createdOrder tx"
    and w: "es1 \<noteq> [] \<and> es = es1 \<and> w' = w1 \<or> es1 = [] \<and> es = es2 \<and> w' = w2"
    using c f s by (auto simp: commit_def Let_def split: if_splits)
  have "tx_ok D C files (tx_createdOrder tx) w'" "set es \<subseteq> commit_errors"
    using * w tx_ok_same sync_all_same [OF s] by (auto simp: commit_errors_def)
  with * t w show "tx_ok D C (tx_files tx') (tx_createdOrder tx) w'" "map sd_path (tx_files tx') = map sd_path (tx_files tx)"
    "es = [] \<Longrightarrow> list_all sd_installed (tx_files tx')" "set es \<subseteq> commit_errors" "tx_createdOrder tx' = tx_createdOrder tx"
    by auto
qed

section \<open>Undoing\<close>

lemma all_temps_perm: "set fs = set gs \<Longrightarrow> set (all_temps fs) = set (all_temps gs)"
  by (simp add: all_temps_def)

lemma all_temps_rev: "distinct (all_temps fs) \<Longrightarrow> distinct (all_temps (rev fs))"
  by (induction fs) (auto simp: all_temps_def)

lemma tx_ok_rev: "tx_ok D C fs created w \<Longrightarrow> tx_ok D C (rev fs) created w"
  using installed_of_perm [of fs "rev fs" C] all_temps_rev [of fs] all_temps_perm [of "rev fs" fs]
  by (simp add: tx_ok_def rev_map [symmetric])

lemma tx_ok_drop:
  assumes ok: "tx_ok D C (f # gs) created w"
    and L: "\<forall>q. lookup w' q = overlay D (installed_of C gs) created q" "w_next w' = w_next w"
    and t: "\<forall>t. t \<notin> set (temporaries f) \<longrightarrow> map_of (w_temps w') t = map_of (w_temps w) t"
  shows "tx_ok D C gs created w'"
proof -
  note o = tx_okD [OF ok]
  have "temps_held C w' g" if g: "g \<in> set gs" for g
  proof -
    have "f \<noteq> g" using o(2) g by auto
    then have "set (temporaries g) \<inter> set (temporaries f) = {}"
      using all_temps_disjoint [OF o(6), of f g] g by auto
    moreover have "temps_held C w g" using o(5) g by (auto simp: list_all_iff)
    ultimately show ?thesis using t by (auto simp: temps_held_def temporaries_def)
  qed
  then show ?thesis using o L by (simp add: tx_ok_def list_all_iff all_temps_def)
qed


lemma remove_none: "sys_remove p w = (r, w') \<Longrightarrow> r = Inr () \<or> r = Inl ENotExist \<Longrightarrow>
    (\<forall>q. lookup w' q = (if q = p then None else lookup w q)) \<and> w_temps w' = w_temps w \<and> w_next w' = w_next w"
  using remove_ok [of p w "()" w'] remove_absent [of p w w'] failed_same(4) [of p w ENotExist w']
  by (auto simp: same_disk_def lookup_def)

lemma restoreBackup_ok:
  assumes "restoreBackup f w = ([], w')" "temps_held C w f"
  shows "(\<forall>q. lookup w' q = (if q = sd_path f then Some (NFile (sd_original f) (sd_mode f)) else lookup w q)) \<and>
    w_next w' = w_next w \<and> (\<forall>t. t \<notin> set (temporaries f) \<longrightarrow> map_of (w_temps w') t = map_of (w_temps w) t)"
proof -
  obtain b where b: "sd_backup f = Some b" using assms(1)
    by (cases "sd_backup f") (auto simp: restoreBackup_def split: prod.splits if_splits)
  have h: "map_of (w_temps w) b = Some (path_dir (sd_path f), sd_original f, sd_mode f)"
    using assms(2) b by (simp add: temps_held_def)
  have bt: "b \<in> set (temporaries f)" using b by (simp add: temporaries_def)
  obtain r w1 where r: "sys_install b (sd_path f) w = (r, w1)" by fastforce
  show ?thesis
  proof (cases r)
    case (Inr x)
    then show ?thesis using install_ok [OF r [unfolded Inr]] assms(1) b r h bt by (auto simp: restoreBackup_def)
  next
    case (Inl e)
    have s: "same_disk w w1" using failed_same(3) r Inl by blast
    obtain r2 w2 where r2: "sys_remove (sd_path f) w1 = (r2, w2)" by fastforce
    have good: "r2 = Inr () \<or> r2 = Inl ENotExist" using assms(1) b r Inl r2 by (auto simp: restoreBackup_def split: if_splits)
    note k2 = remove_none [OF r2 good]
    obtain r3 w3 where r3: "sys_install b (sd_path f) w2 = (r3, w3)" by fastforce
    then obtain y where y: "r3 = Inr y" using assms(1) b r Inl r2 good by (cases r3) (auto simp: restoreBackup_def)
    have "w' = w3" using assms(1) b r Inl r2 good r3 y by (auto simp: restoreBackup_def)
    then show ?thesis using install_ok [OF r3 [unfolded y]] k2 s h bt same_disk_lookup [OF s] by (auto simp: same_disk_def)
  qed
qed

lemma tx_ok_head:
  assumes "tx_ok D C (f # gs) created w" "sd_installed f"
  shows "overlay D (installed_of C gs) created (sd_path f) = D (sd_path f)"
proof -
  have "sd_path f \<notin> sd_path ` set gs" using tx_okD(2) [OF assms(1)] by auto
  then have "installed_of C gs (sd_path f) = None" by (rule installed_of_notin)
  then show ?thesis using tx_okD(8) [OF assms(1), of f] assms(2) by (simp add: overlay_def)
qed

lemma restore_tx_ok:
  assumes r: "restore f w = ([], w')" and ok: "tx_ok D C (f # gs) created w"
  shows "tx_ok D C gs created w'"
proof -
  note o = tx_okD [OF ok]
  have ins: "inspected D f" and held: "temps_held C w f" using o(3,5) by simp_all
  show ?thesis
  proof (cases "sd_installed f")
    case False
    then show ?thesis using r o(1) by (intro tx_ok_drop [OF ok]) (auto simp: restore_def installed_of_Cons)
  next
    case inst: True
    have other: "q \<noteq> sd_path f \<Longrightarrow> lookup w q = overlay D (installed_of C gs) created q" for q
      using o(1) [of q] inst by (simp add: installed_of_Cons overlay_def)
    note head = tx_ok_head [OF ok inst]
    show ?thesis
    proof (cases "sd_exists f")
      case True
      obtain es w1 where b: "restoreBackup f w = (es, w1)" by fastforce
      have es: "es = []" using r inst True b by (auto simp: restore_def restoreExisting_def split: if_splits)
      obtain z w2 where sy: "sys_sync (path_dir (sd_path f)) w1 = (z, w2)" by fastforce
      have w': "w' = w2" using r inst True b es sy by (cases z) (auto simp: restore_def restoreExisting_def)
      note k = restoreBackup_ok [OF b [unfolded es] held] and s = sync_quiet [OF sy]
      show ?thesis
        by (rule tx_ok_drop [OF ok])
          (use k w' s same_disk_lookup [OF s] other head ins True in \<open>auto simp: inspected_def same_disk_def\<close>)
    next
      case False
      obtain x w1 where rm: "sys_remove (sd_path f) w = (x, w1)" by fastforce
      have good: "x = Inr () \<or> x = Inl ENotExist"
        using r inst False rm by (auto simp: restore_def removeInstalled_def split: sum.splits syserr.splits)
      have s: "same_disk w1 w'" using r inst False rm good
        by (auto simp: restore_def removeInstalled_def split: sum.splits syserr.splits prod.splits dest: sync_quiet)
      show ?thesis
        by (rule tx_ok_drop [OF ok])
          (use remove_none [OF rm good] s same_disk_lookup [OF s] other head ins False in \<open>auto simp: inspected_def same_disk_def\<close>)
    qed
  qed
qed

lemma join_all_Nil: "join_all f (x # xs) w = ([], w') \<longleftrightarrow> (\<exists>w1. f x w = ([], w1) \<and> join_all f xs w1 = ([], w'))"
  by (auto split: prod.splits)

lemma restore_all_tx_ok: "join_all restore fs w = ([], w') \<Longrightarrow> tx_ok D C fs created w \<Longrightarrow> tx_ok D C [] created w'"
proof (induction fs arbitrary: w)
  case (Cons f fs)
  from Cons.prems(1) obtain w1 where "restore f w = ([], w1)" "join_all restore fs w1 = ([], w')"
    by (auto simp: join_all_Nil simp del: join_all.simps(2))
  then show ?case using Cons.IH restore_tx_ok Cons.prems(2) by blast
qed simp

lemma remove_temporary_disk: "remove_temporary t w = (es, w') \<Longrightarrow> w_disk w' = w_disk w \<and> set es \<subseteq> {CleanupFailed}"
  by (auto simp: remove_temporary_def split: prod.splits if_splits dest: remove_temp_ok)

lemma remove_temporaries_disk: "join_all remove_temporary ts w = (es, w') \<Longrightarrow> w_disk w' = w_disk w \<and> set es \<subseteq> {CleanupFailed}"
proof (induction ts arbitrary: w es)
  case (Cons t ts)
  obtain es1 w1 where o: "remove_temporary t w = (es1, w1)" by fastforce
  obtain es2 w2 where a: "join_all remove_temporary ts w1 = (es2, w2)" by fastforce
  have "es = es1 @ es2" "w' = w2" using Cons.prems o a by simp_all
  then show ?case using Cons.IH [of w1 es2] a remove_temporary_disk [OF o] by simp
qed simp

lemma remove_all_created:
  "join_all remove_created ds w = ([], w') \<Longrightarrow> lookup w' q = (if q \<in> set ds then None else lookup w q)"
proof (induction ds arbitrary: w)
  case (Cons d ds)
  from Cons.prems obtain w1 where r: "remove_created d w = ([], w1)" "join_all remove_created ds w1 = ([], w')"
    by (auto simp: join_all_Nil simp del: join_all.simps(2))
  obtain x w2 where x: "sys_remove d w = (x, w2)" by fastforce
  have good: "x = Inr () \<or> x = Inl ENotExist" using r(1) x by (auto simp: remove_created_def split: if_splits)
  have s: "same_disk w2 w1" using r(1) x good
    by (auto simp: remove_created_def split: sum.splits prod.splits dest: sync_quiet)
  show ?case using Cons.IH [OF r(2)] remove_none [OF x good] same_disk_lookup [OF s] by simp
qed simp

lemma rollback_restores:
  assumes "rollback tx w = ([], w')" "tx_ok D C (tx_files tx) (tx_createdOrder tx) w"
  shows "lookup w' q = D q"
proof -
  obtain es1 w1 es2 w2 es3 where r: "join_all restore (rev (tx_files tx)) w = (es1, w1)" "cleanupTemps tx w1 = (es2, w2)"
      "join_all remove_created (rev (tx_createdOrder tx)) w2 = (es3, w')" "es1 @ es2 @ es3 = []"
    using assms(1) by (auto simp: rollback_def split: prod.splits)
  have ok: "tx_ok D C [] (tx_createdOrder tx) w1"
    using restore_all_tx_ok [of "rev (tx_files tx)" w w1] r(1,4) tx_ok_rev [OF assms(2)] by simp
  have "w_disk w2 = w_disk w1" using r(2) remove_temporaries_disk by (auto simp: cleanupTemps_def)
  then have "lookup w2 q = overlay D Map.empty (tx_createdOrder tx) q" using tx_okD(1) [OF ok] by (simp add: lookup_def)
  then show ?thesis using remove_all_created [of "rev (tx_createdOrder tx)" w2 w' q] r(3,4) tx_okD(4) [OF ok]
    by (simp add: overlay_def split: if_splits)
qed


section \<open>Accepted batches\<close>

lemma normalized_plain: "NormalizeRelPath p = Some c \<Longrightarrow> list_all plain (path_parts c)"
  using path_clean_plain [of p] by (auto simp: NormalizeRelPath_def Let_def split: if_splits)

lemma validate_artifacts_plain:
  "validate_artifacts_from managed ns as = Inr ns' \<Longrightarrow> \<forall>a \<in> set ns. list_all plain (path_parts (art_path a)) \<Longrightarrow>
    \<forall>a \<in> set ns'. list_all plain (path_parts (art_path a))"
  by (induction managed ns as rule: validate_artifacts_from.induct)
    (auto split: option.splits if_splits dest: normalized_plain)

lemma validate_artifacts_distinct:
  "validate_artifacts_from managed ns as = Inr ns' \<Longrightarrow> distinct (map art_path ns) \<Longrightarrow> distinct (map art_path ns')"
  by (induction managed ns as rule: validate_artifacts_from.induct) (auto split: option.splits if_splits)

lemma prepared_batch:
  assumes "prepareDeployment rootDir managed as = Inr ns"
  shows "distinct (map art_path ns)" "a \<in> set ns \<Longrightarrow> list_all plain (path_parts (art_path a))"
    "sorted (map art_path ns)" "\<not> path_conflict_from [] ns"
proof -
  obtain m ns0 where n: "validate_artifacts_from m [] as = Inr ns0" "ns = sort_key art_path ns0" "\<not> path_conflict_from [] ns"
    using assms by (auto simp: prepareDeployment_def validateArtifacts_def validateArtifactPathConflicts_def and_then_eq_Inr split: if_splits)
  show "distinct (map art_path ns)" using validate_artifacts_distinct [OF n(1)] n(2) by (simp add: distinct_map inj_on_def)
  show "a \<in> set ns \<Longrightarrow> list_all plain (path_parts (art_path a))" using validate_artifacts_plain [OF n(1)] n(2) by simp
  show "sorted (map art_path ns)" "\<not> path_conflict_from [] ns" using n(2,3) by simp_all
qed

definition above_path :: "string \<Rightarrow> string list" where
  "above_path rel = dir_chain (length rel) (path_dir rel)"

lemma no_conflict:
  "\<not> path_conflict_from seen (xs @ b # ys) \<Longrightarrow> d \<in> set (above_path (art_path b)) \<Longrightarrow> d \<notin> set seen \<and> d \<notin> art_path ` set xs"
proof (induction xs arbitrary: seen)
  case Nil
  then show ?case by (auto simp: above_path_def list_ex_iff)
next
  case (Cons a xs)
  then show ?case using Cons.IH [of "art_path a # seen"] by auto
qed

lemma prepared_no_conflict:
  assumes p: "prepareDeployment rootDir managed as = Inr ns" and ab: "a \<in> set ns" "b \<in> set ns"
  shows "art_path a \<notin> set (above_path (art_path b))"
proof
  note n = prepared_batch [OF p]
  assume up: "art_path a \<in> set (above_path (art_path b))"
  then have less: "art_path a < art_path b" using above_is_less [OF n(2) [OF ab(2)]] by (simp add: above_path_def)
  obtain xs ys where ns: "ns = xs @ b # ys" using ab(2) by (meson split_list)
  have "a \<in> set xs"
  proof (rule ccontr)
    assume "a \<notin> set xs"
    then have "a \<in> set (b # ys)" using ab(1) ns by auto
    then have "art_path b \<le> art_path a" using n(3) by (auto simp: ns sorted_append)
    with less show False by simp
  qed
  then show False using no_conflict [of "[]" xs b ys "art_path a"] n(4) up by (auto simp: ns)
qed

text \<open>The missing directories of a pending write lie above it.\<close>

lemma missing_above: "inspect_components cs w = (Inr missing, w') \<Longrightarrow> set missing \<subseteq> set (butlast cs)"
proof (induction cs arbitrary: w missing)
  case (Cons c cs)
  from Cons.prems show ?case
    by (auto split: prod.splits sum.splits syserr.splits fsnode.splits if_splits dest!: Cons.IH)
qed simp

lemma components_above:
  assumes "list_all plain (path_parts rel)"
  shows "components rel = rev (above_path rel) @ [rel]"
proof -
  have "path_parts rel \<noteq> []" by (simp add: path_parts_def)
  then obtain m where m: "length (path_parts rel) = Suc m" by (cases "path_parts rel") auto
  have "components rel = map (\<lambda>n. join_path (take (Suc n) (path_parts rel))) [0..<m] @ [rel]"
    using m join_parts [of rel] by (simp add: components_def Let_def)
  moreover have "rev (above_path rel) = map (\<lambda>i. join_path (take i (path_parts rel))) (map Suc [0..<m])"
    using dir_chain_rel [OF assms order_refl] m by (simp add: above_path_def rev_map map_Suc_upt del: upt_Suc)
  ultimately show ?thesis by (simp add: comp_def)
qed

lemma inspectArtifact_missing:
  assumes "inspectArtifact a w = (Inr (Some p), w')" "list_all plain (path_parts (art_path a))"
  shows "set (pd_missing p) \<subseteq> set (above_path (art_path a))"
proof -
  obtain r w1 where i: "inspect_components (components (art_path a)) w = (r, w1)" by fastforce
  then obtain missing where r: "r = Inr missing"
    using assms by (cases r) (auto simp: inspectArtifact_def inspectDeploymentPath_def)
  have "pd_missing p = missing" using assms(1) i r
    by (auto simp: inspectArtifact_def inspectDeploymentPath_def split: prod.splits sum.splits syserr.splits fsnode.splits if_splits)
  then show ?thesis using missing_above [of "components (art_path a)" w missing w1] i r components_above [OF assms(2)]
    by (simp add: butlast_append)
qed

lemma inspect_from_missing:
  "inspect_from sha obs u ps as w = (Inr (u', ps'), w') \<Longrightarrow> \<forall>a \<in> set as. list_all plain (path_parts (art_path a)) \<Longrightarrow>
    \<forall>p \<in> set ps. set (pd_missing p) \<subseteq> set (above_path (pd_path p)) \<Longrightarrow>
    \<forall>p \<in> set ps'. set (pd_missing p) \<subseteq> set (above_path (pd_path p))"
proof (induction as arbitrary: u ps w)
  case (Cons a as)
  obtain r w1 where i: "inspectArtifact a w = (r, w1)" by fastforce
  then obtain item where r: "r = Inr item" using Cons.prems by (cases r) auto
  show ?case
  proof (cases item)
    case None
    then have "inspect_from sha obs (u @ [art_path a]) ps as w1 = (Inr (u', ps'), w')"
      using Cons.prems(1) i r by (simp split: if_splits)
    then show ?thesis by (rule Cons.IH) (use Cons.prems(2,3) in auto)
  next
    case (Some p)
    then have *: "inspect_from sha obs u (ps @ [p]) as w1 = (Inr (u', ps'), w')"
      using Cons.prems(1) i r by (simp split: if_splits)
    have "set (pd_missing p) \<subseteq> set (above_path (pd_path p))"
      using inspectArtifact_missing [of a w p w1] inspectArtifact_some(2) [of a w p w1] i r Some Cons.prems(2) by simp
    then show ?thesis by (intro Cons.IH [OF *]) (use Cons.prems(2,3) in auto)
  qed
qed simp

end
