(* ===== verification/Setup_Deploy_Props.thy ===== *)
theory Setup_Deploy_Props
  imports Setup_Deploy_Laws
begin

text \<open>
  Properties of a deployment: a batch is installed as a whole or not at all, whichever calls fail, and a
  cancellation reports what it left.
\<close>

section \<open>The outcome of a batch\<close>

text \<open>The paths in the list hold the content of their artifacts; whatever else the disk holds is as
  before, apart from directories that were missing.\<close>

definition applied :: "(string \<Rightarrow> fsnode option) \<Rightarrow> Artifact list \<Rightarrow> string list \<Rightarrow> world \<Rightarrow> bool" where
  "applied D as paths w \<longleftrightarrow>
    (\<forall>a \<in> set as. art_path a \<in> set paths \<longrightarrow> holds_content (lookup w) (art_path a) (art_content a)) \<and>
    (\<forall>q. q \<notin> set paths \<longrightarrow> lookup w q = D q \<or> D q = None \<and> lookup w q = Some NDir)"

definition content_of :: "Artifact list \<Rightarrow> string \<Rightarrow> string" where
  "content_of as = mget [] (map (\<lambda>a. (art_path a, art_content a)) as)"

lemma content_of: "distinct (map art_path as) \<Longrightarrow> a \<in> set as \<Longrightarrow> content_of as (art_path a) = art_content a"
  by (induction as) (force simp: content_of_def mget_def image_iff)+

lemma installed_of_in: "q \<in> set (map sd_path (filter sd_installed fs)) \<Longrightarrow> \<exists>m. installed_of C fs q = Some (NFile (C q) m)"
  by (induction fs) (auto simp: installed_of_Cons split: if_splits)

lemma installed_of_out: "q \<notin> set (map sd_path (filter sd_installed fs)) \<Longrightarrow> installed_of C fs q = None"
  by (induction fs) (auto simp: installed_of_Cons split: if_splits)

lemma applied_overlay:
  assumes ok: "tx_ok D C fs created w" and C: "\<forall>a \<in> set as. C (art_path a) = art_content a"
    and paths: "set paths = set (map sd_path (filter sd_installed fs))"
    and L: "\<forall>q. lookup w' q = lookup w q \<or> q \<in> set created \<and> lookup w' q = None"
  shows "applied D as paths w'"
  unfolding applied_def
proof (intro conjI ballI impI allI)
  fix a assume a: "a \<in> set as" "art_path a \<in> set paths"
  then obtain m where "installed_of C fs (art_path a) = Some (NFile (C (art_path a)) m)" using installed_of_in paths by blast
  then have "lookup w (art_path a) = Some (NFile (art_content a) m)"
    using tx_okD(1) [OF ok] a(1) C by (simp add: overlay_def)
  moreover have "art_path a \<notin> set created" using tx_okD(8) [OF ok] a paths by auto
  ultimately show "holds_content (lookup w') (art_path a) (art_content a)"
    using L [rule_format, of "art_path a"] by (simp add: holds_content_def)
next
  fix q assume "q \<notin> set paths"
  then have "lookup w q = (if q \<in> set created then Some NDir else D q)"
    using tx_okD(1) [OF ok] installed_of_out [of q fs C] paths by (simp add: overlay_def)
  then show "lookup w' q = D q \<or> D q = None \<and> lookup w' q = Some NDir"
    using L tx_okD(4) [OF ok] by (metis option.distinct(1))
qed

lemma cleanup_disk: "cleanupTemps tx w = (es, w') \<Longrightarrow> lookup w' = lookup w \<and> set es \<subseteq> {CleanupFailed}"
  using remove_temporaries_disk by (fastforce simp: cleanupTemps_def lookup_def)

lemma best_effort_removal:
  "lookup (fold (\<lambda>d v. snd (sys_remove d v)) ds w) q = lookup w q \<or>
   q \<in> set ds \<and> lookup (fold (\<lambda>d v. snd (sys_remove d v)) ds w) q = None"
proof (induction ds arbitrary: w)
  case (Cons d ds)
  obtain r w1 where r: "sys_remove d w = (r, w1)" by fastforce
  have "lookup w1 q = lookup w q \<or> q = d \<and> lookup w1 q = None"
  proof (cases r)
    case (Inl e)
    then show ?thesis using failed_same(4) r same_disk_lookup by metis
  next
    case (Inr x)
    then show ?thesis using remove_ok [of d w x w1] r by auto
  qed
  then show ?case using Cons.IH [of w1] r by auto
qed simp

text \<open>How a staged batch ends.\<close>

lemma abort_restores:
  assumes "abort err tx w = (es, w')" "tx_ok D C (tx_files tx) (tx_createdOrder tx) w"
  shows "set err \<subseteq> set es \<and> set es \<subseteq> set err \<union> {RollbackFailed} \<and> (RollbackFailed \<notin> set es \<longrightarrow> lookup w' = D)"
proof -
  obtain es1 w1 where r: "rollback tx w = (es1, w1)" by fastforce
  then show ?thesis using assms rollback_restores [of tx w w1 D C] by (auto simp: abort_def fun_eq_iff split: if_splits)
qed


definition inspection_errors :: "deploy_error set" where
  "inspection_errors = {InspectFailed, LinkInPath, ParentNotDir, NotRegular} \<union> range ChangedDuringApply"

lemma inspect_components_error: "inspect_components cs w = (Inl e, w') \<Longrightarrow> e \<in> inspection_errors"
proof (induction cs arbitrary: w)
  case (Cons c cs)
  from Cons.prems show ?case
    by (auto simp: inspection_errors_def [symmetric] split: prod.splits sum.splits syserr.splits fsnode.splits if_splits dest: Cons.IH)
      (simp_all add: inspection_errors_def)
qed simp

lemma inspectArtifact_error: "inspectArtifact a w = (Inl e, w') \<Longrightarrow> e \<in> inspection_errors"
  unfolding inspectArtifact_def inspectDeploymentPath_def
  by (auto split: prod.splits sum.splits syserr.splits fsnode.splits if_splits dest: inspect_components_error)
    (simp_all add: inspection_errors_def)

lemma inspect_from_error: "inspect_from sha obs u ps as w = (Inl e, w') \<Longrightarrow> e \<in> inspection_errors"
proof (induction as arbitrary: u ps w)
  case (Cons a as)
  from Cons.prems show ?case
    by (auto split: prod.splits sum.splits option.splits if_splits dest: inspectArtifact_error Cons.IH)
      (simp_all add: inspection_errors_def)
qed simp

definition staged_outcome :: "(string \<Rightarrow> fsnode option) \<Rightarrow> Artifact list \<Rightarrow> string list \<Rightarrow> pendingDeployment list \<Rightarrow>
    DeploymentResult \<Rightarrow> deploy_error list \<Rightarrow> world \<Rightarrow> bool" where
  "staged_outcome D as unchanged pending r es w \<longleftrightarrow>
    (if ContextErr \<in> set es then applied D as (dr_changed r) w \<and> dr_unchanged r = unchanged \<and>
       set (dr_changed r) \<union> set (dr_notApplied r) = set (map pd_path pending)
     else if set es \<subseteq> {CleanupFailed} then applied D as (dr_changed r) w \<and> dr_unchanged r = unchanged \<and>
       dr_changed r = map pd_path pending
     else RollbackFailed \<notin> set es \<longrightarrow> lookup w = D)"

lemma created_frame:
  "createMissingDirectories ds created w = (es, created', w') \<Longrightarrow> set created' \<subseteq> set created \<union> set ds"
  by (induction ds created w rule: createMissingDirectories.induct)
    (force split: prod.splits sum.splits syserr.splits if_splits)+

lemma stageOne_created: "stageOne f p created w = (es, f', created', w') \<Longrightarrow> set created' \<subseteq> set created \<union> set (pd_missing p)"
  by (auto simp: stageOne_def Let_def split: prod.splits sum.splits if_splits dest!: created_frame)

lemma stage_created: "stage ps tx w = (es, tx', w') \<Longrightarrow>
    set (tx_createdOrder tx') \<subseteq> set (tx_createdOrder tx) \<union> (\<Union>p \<in> set ps. set (pd_missing p))"
proof (induction ps arbitrary: tx w)
  case (Cons p ps)
  obtain es1 f created w1 where o: "stageOne (new_staged p) p (tx_createdOrder tx) w = (es1, f, created, w1)"
    by (cases "stageOne (new_staged p) p (tx_createdOrder tx) w")
  show ?case
  proof (cases "es1 = []")
    case True
    with Cons.prems o have "stage ps \<lparr>tx_files = tx_files tx @ [f], tx_createdOrder = created\<rparr> w1 = (es, tx', w')" by simp
    from Cons.IH [OF this] stageOne_created [OF o] show ?thesis by auto
  next
    case False
    with Cons.prems o stageOne_created [OF o] show ?thesis by auto
  qed
qed simp

text \<open>A batch that has been inspected and staged.\<close>

lemma staged_batch:
  assumes p: "prepareDeployment rootDir managed artifacts = Inr ns"
    and i: "inspectDeployments sha obs ns w = (Inr (u, ps), w1)"
    and st: "stage ps \<lparr>tx_files = [], tx_createdOrder = []\<rparr> w1 = (es, tx, w2)"
  shows "tx_ok (lookup w) (content_of ns) (tx_files tx) (tx_createdOrder tx) w2"
    "list_all (\<lambda>f. \<not> sd_installed f) (tx_files tx)" "set es \<subseteq> staging_errors"
    "es = [] \<Longrightarrow> map sd_path (tx_files tx) = map pd_path ps" "batch_seen (lookup w) ns u ps"
    "q \<in> set ps \<Longrightarrow> pd_path q \<notin> set (tx_createdOrder tx)"
proof -
  show seen: "batch_seen (lookup w) ns u ps" using inspect_from_sound [of sha obs "[]" "[]" ns w u ps w1] i
    by (simp add: inspectDeployments_def)
  have s1: "lookup w1 = lookup w" using inspect_from_same i same_disk_lookup by (fastforce simp: inspectDeployments_def)
  have "\<forall>q \<in> set ps. content_of ns (pd_path q) = pd_content q"
    using seen content_of [OF prepared_batch(1) [OF p]] by (fastforce simp: batch_seen_def)
  moreover have "tx_ok (lookup w) (content_of ns) [] [] w1" using s1 by (simp add: tx_ok_def overlay_def all_temps_def)
  ultimately show "tx_ok (lookup w) (content_of ns) (tx_files tx) (tx_createdOrder tx) w2"
    "list_all (\<lambda>f. \<not> sd_installed f) (tx_files tx)" "set es \<subseteq> staging_errors"
    "es = [] \<Longrightarrow> map sd_path (tx_files tx) = map pd_path ps"
    using stage_tx_ok [OF st, of "lookup w" "content_of ns"] seen prepared_batch(1) [OF p] by (auto simp: batch_seen_def)
  have above: "\<forall>q \<in> set ps. set (pd_missing q) \<subseteq> set (above_path (pd_path q))"
    using inspect_from_missing [of sha obs "[]" "[]" ns w u ps w1] i prepared_batch(2) [OF p]
    by (simp add: inspectDeployments_def)
  have art: "\<exists>a \<in> set ns. pd_path q = art_path a" if "q \<in> set ps" for q using seen that by (auto simp: batch_seen_def)
  show "pd_path q \<notin> set (tx_createdOrder tx)" if q: "q \<in> set ps"
  proof
    assume "pd_path q \<in> set (tx_createdOrder tx)"
    then obtain q2 where q2: "q2 \<in> set ps" "pd_path q \<in> set (pd_missing q2)" using stage_created [OF st] by auto
    then have "pd_path q \<in> set (above_path (pd_path q2))" using above by blast
    with art [OF q] art [OF q2(1)] prepared_no_conflict [OF p] show False by metis
  qed
qed

lemma aborted_outcome:
  assumes "abort err tx w1 = (es, w')" "tx_ok D C (tx_files tx) (tx_createdOrder tx) w1"
    and "err \<noteq> []" "ContextErr \<notin> set err" "RollbackFailed \<notin> set err" "CleanupFailed \<notin> set err"
  shows "staged_outcome D as u ps r es w'"
proof -
  note ab = abort_restores [OF assms(1,2)]
  obtain e where "e \<in> set err" using assms(3) by (cases err) auto
  then have "ContextErr \<notin> set es" "\<not> set es \<subseteq> {CleanupFailed}" using ab assms(4,6) by blast+
  then show ?thesis using ab by (simp add: staged_outcome_def)
qed

lemma deploy_outcome:
  assumes d: "deployObserved sha (\<lambda>_. []) cancel rootDir managed artifacts obs w = (r, es, w')"
    and p: "prepareDeployment rootDir managed artifacts = Inr ns"
    and i: "inspectDeployments sha obs ns w = (Inr (u, ps), w1)" and ps: "ps \<noteq> []"
  shows "staged_outcome (lookup w) ns u ps r es w'"
proof -
  obtain es1 tx w2 where st: "stage ps \<lparr>tx_files = [], tx_createdOrder = []\<rparr> w1 = (es1, tx, w2)"
    by (cases "stage ps \<lparr>tx_files = [], tx_createdOrder = []\<rparr> w1")
  note t = staged_batch [OF p i st]
  have C: "\<forall>a \<in> set ns. content_of ns (art_path a) = art_content a" using content_of [OF prepared_batch(1) [OF p]] by blast
  show ?thesis
  proof (cases "es1 = []")
    case False
    then have "abort es1 tx w2 = (es, w')" using d p i ps st by (auto simp: deployObserved_def Let_def split: prod.splits)
    then show ?thesis using t(3) False by (intro aborted_outcome [OF _ t(1)]) (auto simp: staging_errors_def)
  next
    case True
    obtain es2 tx2 w3 where c: "commit (\<lambda>_. []) cancel tx w2 = (es2, tx2, w3)" by (cases "commit (\<lambda>_. []) cancel tx w2")
    note k = commit_ok [OF c t(1,2)]
    obtain es3 w4 where cl: "cleanupTemps tx2 w3 = (es3, w4)" by fastforce
    note cd = cleanup_disk [OF cl]
    show ?thesis
    proof (cases "es2 = []")
      case True
      then have "es = es3" "w' = w4" "r = no_deployment\<lparr>dr_unchanged := u, dr_changed := map pd_path ps\<rparr>"
        using d p i ps st \<open>es1 = []\<close> c cl by (auto simp: deployObserved_def Let_def no_deployment_def)
      moreover have "filter sd_installed (tx_files tx2) = tx_files tx2" using k(3) [OF True] by (simp add: list_all_iff)
      ultimately show ?thesis
        using applied_overlay [OF k(1) C, of "map pd_path ps" w4] cd t(4) \<open>es1 = []\<close> k(2) by (auto simp: staged_outcome_def)
    next
      case err: False
      show ?thesis
      proof (cases "ContextErr \<in> set es2")
        case True
        define wf where "wf = (if es3 \<noteq> [] then w4 else fold (\<lambda>d v. snd (sys_remove d v)) (rev (tx_createdOrder tx2)) w4)"
        have out: "es = es2 @ es3" "w' = wf" "dr_changed r = map sd_path (filter sd_installed (tx_files tx2))"
            "dr_notApplied r = map sd_path (filter (\<lambda>f. \<not> sd_installed f) (tx_files tx2))" "dr_unchanged r = u"
          using d p i ps st \<open>es1 = []\<close> c cl err True
          by (auto simp: deployObserved_def Let_def no_deployment_def errs_is_def stopCancelled_def wf_def split: if_splits)
        have "\<forall>q. lookup wf q = lookup w3 q \<or> q \<in> set (tx_createdOrder tx) \<and> lookup wf q = None"
          using cd best_effort_removal [of "rev (tx_createdOrder tx)" w4] k(5) by (auto simp: wf_def)
        then have "applied (lookup w) ns (dr_changed r) w'"
          using applied_overlay [OF k(1) C, of "dr_changed r" wf] out by simp
        moreover have "set (dr_changed r) \<union> set (dr_notApplied r) = set (map sd_path (tx_files tx2))" using out by auto
        ultimately show ?thesis using out True t(4) \<open>es1 = []\<close> k(2) by (auto simp: staged_outcome_def)
      next
        case False
        then have ab: "abort es2 tx2 w3 = (es, w')" using d p i ps st \<open>es1 = []\<close> c err
          by (auto simp: deployObserved_def Let_def errs_is_def split: prod.splits)
        have "tx_ok (lookup w) (content_of ns) (tx_files tx2) (tx_createdOrder tx2) w3" using k(1,5) by simp
        then show ?thesis using k(4) err False by (intro aborted_outcome [OF ab]) (auto simp: commit_errors_def)
      qed
    qed
  qed
qed


lemma staged_fully:
  assumes p: "prepareDeployment rootDir managed artifacts = Inr ns"
    and i: "inspectDeployments sha obs ns w = (Inr (u, ps), w1)"
    and st: "stage ps \<lparr>tx_files = [], tx_createdOrder = []\<rparr> w1 = ([], tx, w2)"
  shows "list_all fully_staged (tx_files tx)"
proof -
  have seen: "batch_seen (lookup w) ns u ps" by (rule staged_batch(5) [OF p i st])
  have s1: "lookup w1 = lookup w" using inspect_from_same i same_disk_lookup by (fastforce simp: inspectDeployments_def)
  have "\<forall>q \<in> set ps. content_of ns (pd_path q) = pd_content q"
    using seen content_of [OF prepared_batch(1) [OF p]] by (fastforce simp: batch_seen_def)
  moreover have "tx_ok (lookup w) (content_of ns) [] [] w1" using s1 by (simp add: tx_ok_def overlay_def all_temps_def)
  ultimately show ?thesis
    using stage_tx_ok [OF st, of "lookup w" "content_of ns"] seen prepared_batch(1) [OF p] by (simp add: batch_seen_def)
qed

lemma stage_paths: "stage ps tx w = (es, tx', w') \<Longrightarrow> sd_path ` set (tx_files tx') \<subseteq> sd_path ` set (tx_files tx) \<union> pd_path ` set ps"
proof (induction ps arbitrary: tx w)
  case (Cons p ps)
  obtain es1 f created w1 where o: "stageOne (new_staged p) p (tx_createdOrder tx) w = (es1, f, created, w1)"
    by (cases "stageOne (new_staged p) p (tx_createdOrder tx) w")
  have f: "sd_path f = pd_path p" using o by (auto simp: stageOne_def new_staged_def Let_def split: prod.splits sum.splits if_splits)
  show ?case
  proof (cases "es1 = []")
    case True
    with Cons.prems o have "stage ps \<lparr>tx_files = tx_files tx @ [f], tx_createdOrder = created\<rparr> w1 = (es, tx', w')" by simp
    from Cons.IH [OF this] f show ?thesis by auto
  next
    case False
    with Cons.prems o f show ?thesis by auto
  qed
qed simp

lemma deployment_outcome:
  assumes d: "deployObserved sha (\<lambda>_. []) cancel rootDir managed artifacts obs w = (r, es, w')"
    and p: "prepareDeployment rootDir managed artifacts = Inr ns"
  shows "if ContextErr \<in> set es then applied (lookup w) ns (dr_changed r) w' \<and>
           set (dr_changed r) \<union> set (dr_notApplied r) \<union> set (dr_unchanged r) = set (map art_path ns)
         else if set es \<subseteq> {CleanupFailed} then applied (lookup w) ns (dr_changed r) w' \<and>
           (\<forall>a \<in> set ns. holds_content (lookup w') (art_path a) (art_content a))
         else RollbackFailed \<notin> set es \<longrightarrow> lookup w' = lookup w"
proof -
  obtain x w1 where i: "inspectDeployments sha obs ns w = (x, w1)" by fastforce
  have s1: "lookup w1 = lookup w" using inspect_from_same i same_disk_lookup by (fastforce simp: inspectDeployments_def)
  show ?thesis
  proof (cases x)
    case (Inl e)
    then have *: "es = [e]" "w' = w1" using d p i by (simp_all add: deployObserved_def)
    have "e \<in> inspection_errors" using inspect_from_error i Inl by (fastforce simp: inspectDeployments_def)
    then have "e \<noteq> ContextErr" "e \<noteq> CleanupFailed" by (auto simp: inspection_errors_def)
    with * s1 show ?thesis by simp
  next
    case (Inr up)
    obtain u ps where x: "x = Inr (u, ps)" using Inr by (cases up) simp
    have seen: "batch_seen (lookup w) ns u ps" using inspect_from_sound [of sha obs "[]" "[]" ns w u ps w1] i x
      by (simp add: inspectDeployments_def)
    have paths: "set (map pd_path ps) \<union> set u = set (map art_path ns)" using seen by (simp add: batch_seen_def)
    have same: "holds_content (lookup w) (art_path a) (art_content a)" if a: "a \<in> set ns" "art_path a \<in> set u" for a
    proof -
      obtain b where b: "b \<in> set ns" "art_path a = art_path b" "holds_content (lookup w) (art_path a) (art_content b)"
        using seen a(2) unfolding batch_seen_def by blast
      have "inj_on art_path (set ns)" using prepared_batch(1) [OF p] by (simp add: distinct_map)
      then have "a = b" using b(2) a(1) b(1) by (rule inj_onD)
      with b(3) show ?thesis by simp
    qed
    have disj: "art_path a \<notin> set (map pd_path ps)" if "a \<in> set ns" "art_path a \<in> set u" for a
      using seen that prepared_batch(1) [OF p] unfolding batch_seen_def by blast
    show ?thesis
    proof (cases "ps = []")
      case True
      then have "es = []" "w' = w1" "r = no_deployment\<lparr>dr_unchanged := u\<rparr>"
        using d p i x by (simp_all add: deployObserved_def Let_def no_deployment_def)
      then show ?thesis using s1 same paths True by (auto simp: applied_def no_deployment_def)
    next
      case False
      have out: "staged_outcome (lookup w) ns u ps r es w'" by (rule deploy_outcome [OF d p _ False]) (use i x in simp)
      have all: "holds_content (lookup w') (art_path a) (art_content a)"
        if ap: "applied (lookup w) ns (map pd_path ps) w'" and a: "a \<in> set ns" for a
      proof (cases "art_path a \<in> set u")
        case True
        obtain m where "lookup w (art_path a) = Some (NFile (art_content a) m)" using same [OF a True] by (auto simp: holds_content_def)
        moreover have "lookup w' (art_path a) = lookup w (art_path a) \<or> lookup w (art_path a) = None"
          using ap [unfolded applied_def, THEN conjunct2, rule_format, OF disj [OF a True]] by (elim disjE conjE) simp_all
        ultimately show ?thesis by (auto simp: holds_content_def)
      next
        case False
        then have "art_path a \<in> set (map pd_path ps)" using paths a by auto
        then show ?thesis using ap [unfolded applied_def, THEN conjunct1] a by blast
      qed
      show ?thesis
      proof (cases "ContextErr \<in> set es")
        case True
        with out paths show ?thesis by (auto simp: staged_outcome_def)
      next
        case False
        show ?thesis
        proof (cases "set es \<subseteq> {CleanupFailed}")
          case True
          then have "applied (lookup w) ns (map pd_path ps) w'" "dr_changed r = map pd_path ps"
            using out False by (auto simp: staged_outcome_def)
          then show ?thesis using all False True by simp
        qed (use out False in \<open>simp add: staged_outcome_def\<close>)
      qed
    qed
  qed
qed


text \<open>C19: A deployment with nothing else writing to the disk: on success every artifact is in place; a cancelled
  one has applied exactly what it reports as changed; and a failed one, unless it says that undoing failed,
  leaves every path as it found it. No other path is touched, except for directories that were missing.\<close>

theorem deployment_all_or_nothing:
  assumes d: "deployObserved sha (\<lambda>_. []) cancel rootDir managed artifacts obs w = (r, es, w')"
    and p: "prepareDeployment rootDir managed artifacts = Inr ns"
  shows "if ContextErr \<in> set es then applied (lookup w) ns (dr_changed r) w' \<and>
           set (dr_changed r) \<union> set (dr_notApplied r) \<union> set (dr_unchanged r) = set (map art_path ns)
         else if set es \<subseteq> {CleanupFailed} then applied (lookup w) ns (dr_changed r) w' \<and>
           (\<forall>a \<in> set ns. holds_content (lookup w') (art_path a) (art_content a))
         else RollbackFailed \<notin> set es \<longrightarrow> lookup w' = lookup w"
  by (rule deployment_outcome [OF d p])

text \<open>A batch of two: one file to replace, one to create in a directory that is missing.\<close>

definition demo_world :: "bool list \<Rightarrow> world" where
  "demo_world schedule =
    \<lparr>w_disk = [(''a.md'', NFile ''old'' 420), (''cfg'', NDir)], w_temps = [], w_next = 0, w_faults = schedule\<rparr>"

definition demo_artifacts :: "Artifact list" where
  "demo_artifacts = [\<lparr>art_path = ''cfg/x/b.md'', art_content = ''B''\<rparr>, \<lparr>art_path = ''./a.md'', art_content = ''new''\<rparr>]"

definition demo_run :: "(nat \<Rightarrow> edit list) \<Rightarrow> nat option \<Rightarrow> bool list \<Rightarrow> DeploymentResult \<times> deploy_error list \<times> world" where
  "demo_run edits cancel schedule =
    deployObserved (\<lambda>s. s) edits cancel ''/'' [''a.md'', ''cfg/x/b.md''] demo_artifacts [] (demo_world schedule)"

lemma demo_prepared: "prepareDeployment ''/'' [''a.md'', ''cfg/x/b.md''] demo_artifacts =
    Inr [\<lparr>art_path = ''a.md'', art_content = ''new''\<rparr>, \<lparr>art_path = ''cfg/x/b.md'', art_content = ''B''\<rparr>]"
  by code_simp

lemma demo_fails: "fst (snd (demo_run (\<lambda>_. []) None (replicate 15 False @ [True]))) = [InstallFailed]"
  by code_simp

lemma demo_lookup: "lookup (demo_world (b # bs)) = lookup (demo_world [])" "lookup (demo_world (replicate n b @ bs)) = lookup (demo_world [])"
  by (simp_all add: fun_eq_iff lookup_def demo_world_def)

lemma demo_dirs: "path_dir ''a.md'' = ''.''" "path_dir ''cfg'' = ''.''"
  by code_simp+

theorem deployment_all_or_nothing_witness:
  "lookup (snd (snd (demo_run (\<lambda>_. []) None (replicate 15 False @ [True])))) = lookup (demo_world []) \<and>
   holds_content (lookup (snd (snd (demo_run (\<lambda>_. []) None [])))) ''cfg/x/b.md'' ''B''"
proof
  obtain r es w' where d: "demo_run (\<lambda>_. []) None (replicate 15 False @ [True]) = (r, es, w')"
    by (cases "demo_run (\<lambda>_. []) None (replicate 15 False @ [True])")
  have es: "es = [InstallFailed]" using demo_fails d by simp
  show "lookup (snd (snd (demo_run (\<lambda>_. []) None (replicate 15 False @ [True])))) = lookup (demo_world [])"
    using deployment_all_or_nothing [OF d [unfolded demo_run_def] demo_prepared] es d demo_lookup by simp
  obtain r es w' where d: "demo_run (\<lambda>_. []) None [] = (r, es, w')" by (cases "demo_run (\<lambda>_. []) None []")
  have "fst (snd (demo_run (\<lambda>_. []) None [])) = []" by code_simp
  then have "es = []" using d by simp
  then show "holds_content (lookup (snd (snd (demo_run (\<lambda>_. []) None [])))) ''cfg/x/b.md'' ''B''"
    using deployment_all_or_nothing [OF d [unfolded demo_run_def] demo_prepared] d by simp
qed

section \<open>Edits made meanwhile\<close>

text \<open>What each step leaves at a path it is not about.\<close>

lemma restoreBackup_frame: "restoreBackup f w = (es, w') \<Longrightarrow> sd_path f \<noteq> p \<Longrightarrow> lookup w' p = lookup w p"
proof -
  assume r: "restoreBackup f w = (es, w')" and p: "sd_path f \<noteq> p"
  have ins: "sys_install b (sd_path f) v = (x, v') \<Longrightarrow> lookup v' p = lookup v p" for b v x v'
    using install_ok [of b "sd_path f" v "()" v'] failed_same(3) [of b "sd_path f" v _ v'] same_disk_lookup [of v v'] p
    by (cases x) auto
  have rem: "sys_remove (sd_path f) v = (x, v') \<Longrightarrow> lookup v' p = lookup v p" for v x v'
    using remove_ok [of "sd_path f" v "()" v'] failed_same(4) [of "sd_path f" v _ v'] same_disk_lookup [of v v'] p
    by (cases x) auto
  from r show ?thesis
    by (auto simp: restoreBackup_def Let_def split: option.splits prod.splits sum.splits if_splits dest!: ins rem)
qed

lemma removed_frame: "sys_remove d w = (x, w') \<Longrightarrow> d \<noteq> p \<Longrightarrow> lookup w' p = lookup w p"
  using remove_ok [of d w "()" w'] failed_same(4) [of d w _ w'] same_disk_lookup [of w w'] by (cases x) auto

lemma synced_frame: "sys_sync d w = (x, w') \<Longrightarrow> lookup w' p = lookup w p"
  using sync_quiet [of d w x w'] same_disk_lookup [of w w'] by simp

lemma restore_frame: "restore f w = (es, w') \<Longrightarrow> sd_path f = p \<longrightarrow> \<not> sd_installed f \<Longrightarrow> lookup w' p = lookup w p"
  by (auto simp: restore_def restoreExisting_def removeInstalled_def split: prod.splits sum.splits syserr.splits if_splits
      dest!: restoreBackup_frame [where p = p] removed_frame [where p = p] synced_frame [where p = p])

lemma remove_created_frame: "remove_created d w = (es, w') \<Longrightarrow> d \<noteq> p \<Longrightarrow> lookup w' p = lookup w p"
  by (auto simp: remove_created_def split: prod.splits sum.splits if_splits
      dest!: removed_frame [where p = p] synced_frame [where p = p])

lemma join_all_frame:
  assumes "join_all f xs w = (es, w')" "\<And>x v es v'. x \<in> set xs \<Longrightarrow> f x v = (es, v') \<Longrightarrow> lookup v' p = lookup v p"
  shows "lookup w' p = lookup w p"
  using assms
proof (induction xs arbitrary: w es)
  case (Cons x xs)
  obtain es1 w1 where f: "f x w = (es1, w1)" by fastforce
  obtain es2 w2 where j: "join_all f xs w1 = (es2, w2)" by fastforce
  have "join_all f xs w1 = (es2, w')" using Cons.prems(1) f j by simp
  then have "lookup w' p = lookup w1 p" by (rule Cons.IH) (use Cons.prems(2) in auto)
  moreover have "lookup w1 p = lookup w p" using Cons.prems(2) f by auto
  ultimately show ?case by simp
qed simp

lemma rollback_frame:
  assumes "rollback tx w = (es, w')" "\<forall>f \<in> set (tx_files tx). sd_path f = p \<longrightarrow> \<not> sd_installed f" "p \<notin> set (tx_createdOrder tx)"
  shows "lookup w' p = lookup w p"
proof -
  obtain es1 w1 es2 w2 es3 where r: "join_all restore (rev (tx_files tx)) w = (es1, w1)" "cleanupTemps tx w1 = (es2, w2)"
      "join_all remove_created (rev (tx_createdOrder tx)) w2 = (es3, w')"
    using assms(1) by (auto simp: rollback_def split: prod.splits)
  have "lookup w1 p = lookup w p" using assms(2) by (intro join_all_frame [OF r(1)] restore_frame) auto
  moreover have "lookup w2 p = lookup w1 p" using cleanup_disk [OF r(2)] by simp
  moreover have "lookup w' p = lookup w2 p" using assms(3) by (intro join_all_frame [OF r(3)] remove_created_frame) auto
  ultimately show ?thesis by simp
qed

lemma abort_frame:
  assumes "abort err tx w = (es, w')" "\<forall>f \<in> set (tx_files tx). sd_path f = p \<longrightarrow> \<not> sd_installed f" "p \<notin> set (tx_createdOrder tx)"
  shows "lookup w' p = lookup w p \<and> (err \<noteq> [] \<longrightarrow> es \<noteq> [])"
proof -
  obtain es1 w1 where rb: "rollback tx w = (es1, w1)" by fastforce
  then have "lookup w1 p = lookup w p" by (rule rollback_frame) (use assms in auto)
  then show ?thesis using assms(1) rb by (auto simp: abort_def split: if_splits)
qed

text \<open>What \<open>os.ReadFile\<close> reads from a node.\<close>

fun reads_as :: "fsnode option \<Rightarrow> string option" where
  "reads_as (Some (NFile c _)) = Some c"
| "reads_as (Some (NLink c)) = c"
| "reads_as _ = None"

lemma unchanged_reads:
  assumes "unchangedSinceInspection f w = (Inr True, w')" "inspected D f"
  shows "reads_as (lookup w (sd_path f)) = reads_as (D (sd_path f))"
proof -
  obtain x w1 where r: "sys_read (sd_path f) w = (x, w1)" by fastforce
  show ?thesis
  proof (cases x)
    case (Inl e)
    then have "e = ENotExist" "\<not> sd_exists f" using assms(1) r by (cases e; auto simp: unchangedSinceInspection_def)+
    then show ?thesis using read_absent [of "sd_path f" w w1] r Inl assms(2) by (auto simp: inspected_def)
  next
    case (Inr c)
    then have "sd_exists f" "c = sd_original f" using assms(1) r by (auto simp: unchangedSinceInspection_def)
    then show ?thesis using read_ok [of "sd_path f" w c w1] r Inr assms(2) by (auto simp: inspected_def)
  qed
qed


lemma edits_frame: "p \<notin> fst ` set es \<Longrightarrow> lookup (fold apply_edit es w) p = lookup w p"
proof (induction es arbitrary: w)
  case (Cons e es)
  have "lookup (apply_edit e w) p = lookup w p" using Cons.prems
    by (cases e) (auto simp: apply_edit_def lookup_def split: option.splits)
  with Cons show ?case by simp
qed simp

lemma edit_sets: "lookup (fold apply_edit (es @ [(p, n)]) w) p = n"
  by (simp add: apply_edit_def lookup_def split: option.splits)

lemma install_frame: "sys_install t q w = (x, w') \<Longrightarrow> q \<noteq> p \<Longrightarrow> lookup w' p = lookup w p"
  using install_ok [of t q w "()" w'] failed_same(3) [of t q w _ w'] same_disk_lookup [of w w'] by (cases x) auto

text \<open>A commit that meets the edit at its turn stops, and the edit stands.\<close>

lemma commit_meets_edit:
  assumes "commit_files edits cancel i rest w = (es, rest', w')"
    and "m < length rest" "sd_path (rest ! m) = p" "distinct (map sd_path rest)" "list_all (\<lambda>f. \<not> sd_installed f) rest"
    and "edits (i + m) = es0 @ [(p, n)]" "\<forall>j. j \<noteq> i + m \<longrightarrow> p \<notin> fst ` set (edits j)"
    and "list_all (inspected D) rest" "reads_as n \<noteq> reads_as (D p)"
  shows "es \<noteq> [] \<and> (\<forall>f \<in> set rest'. sd_path f = p \<longrightarrow> \<not> sd_installed f) \<and> (lookup w' p = n \<or> lookup w' p = lookup w p)"
  using assms
proof (induction rest arbitrary: i m w es rest')
  case Nil
  then show ?case by simp
next
  case (Cons f rest)
  define w0 where "w0 = fold apply_edit (edits i) w"
  have w0: "lookup w0 p = n \<and> m = 0 \<or> lookup w0 p = lookup w p \<and> 0 < m"
    using Cons.prems(6,7) edits_frame [of p "edits i" w] edit_sets [of es0 p n w]
    by (cases m) (auto simp: w0_def simp del: fold_append)
  have stop: ?case if "es \<noteq> []" "rest' = f # rest" "lookup w' p = lookup w0 p"
    using that w0 Cons.prems(5) by (auto simp: list_all_iff)
  obtain r w1 where u: "unchangedSinceInspection f w0 = (r, w1)" by fastforce
  have L1: "lookup w1 p = lookup w0 p" using unchanged_same [OF u] same_disk_lookup by metis
  show ?case
  proof (cases "\<not> cancelled cancel i \<and> r = Inr True \<and> sd_staged f \<noteq> None")
    case False
    then show ?thesis using Cons.prems(1) u L1
      by (intro stop) (auto simp: w0_def [symmetric] Let_def split: if_splits sum.splits bool.splits option.splits)
  next
    case go: True
    then obtain t where t: "\<not> cancelled cancel i" "r = Inr True" "sd_staged f = Some t" by blast
    have "m \<noteq> 0"
    proof
      assume "m = 0"
      then have "reads_as n = reads_as (D p)"
        using unchanged_reads [of f w0 w1 D] u t(2) w0 Cons.prems(3,8) by simp
      with Cons.prems(9) show False by simp
    qed
    then obtain m1 where m: "m = Suc m1" by (cases m) auto
    have pf: "sd_path f \<noteq> p" using Cons.prems(2-4) m by auto
    have L0: "lookup w0 p = lookup w p" using w0 m by simp
    obtain x w2 where ins: "sys_install t (sd_path f) w1 = (x, w2)" by fastforce
    note L2 = install_frame [OF ins pf]
    show ?thesis
    proof (cases x)
      case (Inl e)
      then show ?thesis using Cons.prems(1) u t ins L1 L2 by (intro stop) (auto simp: w0_def [symmetric])
    next
      case x: (Inr y)
      obtain z w3 where sy: "sys_sync (path_dir (sd_path f)) w2 = (z, w3)" by fastforce
      note L3 = synced_frame [OF sy, of p]
      show ?thesis
      proof (cases z)
        case (Inl e)
        then have "es = [InstallFailed]" "rest' = f\<lparr>sd_installed := True\<rparr> # rest" "w' = w3"
          using Cons.prems(1) u t ins x sy by (auto simp: w0_def [symmetric])
        then show ?thesis using L0 L1 L2 L3 pf Cons.prems(5) by (auto simp: list_all_iff)
      next
        case (Inr v)
        obtain es1 rest1 w4 where c: "commit_files edits cancel (Suc i) rest w3 = (es1, rest1, w4)"
          by (cases "commit_files edits cancel (Suc i) rest w3")
        have e: "es = es1" "rest' = f\<lparr>sd_installed := True\<rparr> # rest1" "w' = w4"
          using Cons.prems(1) u t ins x sy Inr c by (auto simp: w0_def [symmetric])
        have "commit_files edits cancel (Suc i) rest w3 = (es, rest1, w')" using c e by simp
        then have "es \<noteq> [] \<and> (\<forall>f \<in> set rest1. sd_path f = p \<longrightarrow> \<not> sd_installed f) \<and> (lookup w' p = n \<or> lookup w' p = lookup w3 p)"
          by (rule Cons.IH [of _ _ _ _ m1]) (use Cons.prems m in auto)
        then show ?thesis using e pf L0 L1 L2 L3 by auto
      qed
    qed
  qed
qed

text \<open>C21: An edit another process makes to an artifact's file after it was inspected, before its turn in
  the commit, survives the deployment: the deployment fails, does not report the path as changed, and
  the path ends holding the edit, or what it held at the start when the commit stopped before that turn.
  This holds whichever calls fail and whatever else is written meanwhile.\<close>

theorem deployment_keeps_outside_edit:
  assumes d: "deployObserved sha edits cancel rootDir managed artifacts obs w = (r, es, w')"
    and p: "prepareDeployment rootDir managed artifacts = Inr ns"
    and i: "inspectDeployments sha obs ns w = (Inr (u, ps), w1)" and k: "k < length ps" "pd_path (ps ! k) = path"
    and e: "edits k = es0 @ [(path, n)]" "\<forall>j. j \<noteq> k \<longrightarrow> path \<notin> fst ` set (edits j)"
    and n: "reads_as n \<noteq> reads_as (lookup w path)"
  shows "es \<noteq> [] \<and> path \<notin> set (dr_changed r) \<and> (lookup w' path = n \<or> lookup w' path = lookup w path)"
proof -
  obtain es1 tx w2 where st: "stage ps \<lparr>tx_files = [], tx_createdOrder = []\<rparr> w1 = (es1, tx, w2)"
    by (cases "stage ps \<lparr>tx_files = [], tx_createdOrder = []\<rparr> w1")
  note t = staged_batch [OF p i st]
  have notin: "path \<notin> set (tx_createdOrder tx)" using t(6) [OF nth_mem [OF k(1)]] k(2) by simp
  have ps: "ps \<noteq> []" using k by auto
  have at: "lookup w2 path = lookup w path"
    using tx_okD(1) [OF t(1)] notin installed_of_none [OF t(2)] by (simp add: overlay_def)
  show ?thesis
  proof (cases "es1 = []")
    case False
    then have "abort es1 tx w2 = (es, w')" "r = no_deployment" using d p i ps st by (auto simp: deployObserved_def Let_def split: prod.splits)
    then show ?thesis using abort_frame [of es1 tx w2 es w' path] False t(2) at notin by (auto simp: no_deployment_def list_all_iff)
  next
    case True
    have m: "k < length (tx_files tx)" "sd_path (tx_files tx ! k) = path"
      using t(4) True k by (metis length_map, metis nth_map length_map)
    obtain es2 files w3 where c: "commit_files edits cancel 0 (tx_files tx) w2 = (es2, files, w3)"
      by (cases "commit_files edits cancel 0 (tx_files tx) w2")
    have *: "es2 \<noteq> [] \<and> (\<forall>f \<in> set files. sd_path f = path \<longrightarrow> \<not> sd_installed f) \<and> (lookup w3 path = n \<or> lookup w3 path = lookup w2 path)"
      by (rule commit_meets_edit [OF c m]) (use e n t(2) tx_okD(2,3) [OF t(1)] in auto)
    define tx2 where "tx2 = tx\<lparr>tx_files := files\<rparr>"
    have cm: "commit edits cancel tx w2 = (es2, tx2, w3)" using c * by (simp add: commit_def tx2_def)
    show ?thesis
    proof (cases "ContextErr \<in> set es2")
      case False
      then have "abort es2 tx2 w3 = (es, w')" "r = no_deployment" using d p i ps st True cm *
        by (auto simp: deployObserved_def Let_def errs_is_def split: prod.splits)
      then show ?thesis using abort_frame [of es2 tx2 w3 es w' path] * at notin by (auto simp: no_deployment_def tx2_def)
    next
      case ctx: True
      obtain es3 w4 where cl: "cleanupTemps tx2 w3 = (es3, w4)" by fastforce
      have "lookup (fold (\<lambda>d v. snd (sys_remove d v)) (rev (tx_createdOrder tx)) w4) path = lookup w4 path"
        using best_effort_removal [of "rev (tx_createdOrder tx)" w4 path] notin by auto
      moreover have "stopCancelled (no_deployment\<lparr>dr_unchanged := u\<rparr>) es2 tx2 w3 = (r, es, w')"
        using d p i ps st True cm * ctx by (auto simp: deployObserved_def Let_def errs_is_def)
      ultimately show ?thesis using * at cl cleanup_disk [OF cl]
        by (auto simp: stopCancelled_def tx2_def no_deployment_def Let_def split: if_splits)
    qed
  qed
qed


definition demo_edits :: "nat \<Rightarrow> edit list" where
  "demo_edits j = (if j = 0 then [(''a.md'', Some (NFile ''mine'' 384))] else [])"

theorem deployment_keeps_outside_edit_witness:
  "lookup (snd (snd (demo_run demo_edits None []))) ''a.md'' \<in> {Some (NFile ''mine'' 384), Some (NFile ''old'' 420)} \<and>
   fst (snd (demo_run demo_edits None [])) = [ChangedDuringApply ''a.md'']"
proof
  let ?ns = "[\<lparr>art_path = ''a.md'', art_content = ''new''\<rparr>, \<lparr>art_path = ''cfg/x/b.md'', art_content = ''B''\<rparr>]"
  obtain r es w' where d: "demo_run demo_edits None [] = (r, es, w')" by (cases "demo_run demo_edits None []")
  have i: "inspectDeployments (\<lambda>s. s) [] ?ns (demo_world []) = (Inr ([],
      [\<lparr>pd_path = ''a.md'', pd_exists = True, pd_mode = 420, pd_original = ''old'', pd_content = ''new'', pd_missing = []\<rparr>,
       \<lparr>pd_path = ''cfg/x/b.md'', pd_exists = False, pd_mode = 420, pd_original = [], pd_content = ''B'', pd_missing = [''cfg/x'']\<rparr>]),
      demo_world [])"
    by code_simp
  show "lookup (snd (snd (demo_run demo_edits None []))) ''a.md'' \<in> {Some (NFile ''mine'' 384), Some (NFile ''old'' 420)}"
    using deployment_keeps_outside_edit [OF d [unfolded demo_run_def] demo_prepared i, of 0 "''a.md''" "[]" "Some (NFile ''mine'' 384)"] d
    by (simp add: demo_edits_def demo_world_def lookup_def)
  show "fst (snd (demo_run demo_edits None [])) = [ChangedDuringApply ''a.md'']" by code_simp
qed

end
