(* ===== verification/Setup_Deploy_Faults.thy ===== *)
theory Setup_Deploy_Faults
  imports Setup_Deploy_Props
begin

text \<open>
  A deployment over which one system call fails: wherever that is, what was done is undone, because no
  other call of the deployment can fail. The lemmas give, call by call, the conditions under which only
  the schedule can make it fail, and carry them through staging, commit and undoing.
\<close>

section \<open>The schedule\<close>

definition faults :: "world \<Rightarrow> nat" where
  "faults w = count_list (w_faults w) True"

text \<open>A step that fails only by consuming a fault.\<close>

definition sound :: "bool \<Rightarrow> world \<Rightarrow> world \<Rightarrow> bool" where
  "sound failed w w' \<longleftrightarrow> faults w' \<le> faults w \<and> (failed \<longrightarrow> faults w' < faults w)"

lemma sound_trans: "sound b w w1 \<Longrightarrow> sound c w1 w2 \<Longrightarrow> sound (b \<or> c) w w2"
  by (auto simp: sound_def)

lemma sound_le: "sound b w w1 \<Longrightarrow> faults w1 \<le> faults w"
  by (simp add: sound_def)

lemma sound_weaken: "sound b w w1 \<Longrightarrow> (c \<longrightarrow> b) \<Longrightarrow> sound c w w1"
  by (auto simp: sound_def)

lemma next_result_sound: "next_result w = (b, w1) \<Longrightarrow> sound b w w1"
  by (auto simp: next_result_def sound_def faults_def split: list.splits)

lemma may_fail_sound:
  assumes "may_fail f w = (r, w')" "\<And>w1. w_disk w1 = w_disk w \<Longrightarrow> w_temps w1 = w_temps w \<Longrightarrow> w_next w1 = w_next w \<Longrightarrow>
    \<exists>x. fst (f w1) = x \<and> P x \<and> w_faults (snd (f w1)) = w_faults w1"
  shows "sound (\<not> P r) w w'"
proof -
  obtain b w1 where n: "next_result w = (b, w1)" by fastforce
  have w1: "w_disk w1 = w_disk w" "w_temps w1 = w_temps w" "w_next w1 = w_next w"
    using next_result_fields [of w] n by simp_all
  show ?thesis
  proof (cases b)
    case True
    then have "w' = w1" using assms(1) n by (simp add: may_fail_def)
    then show ?thesis using next_result_sound [OF n] True by (auto simp: sound_def)
  next
    case False
    then have "f w1 = (r, w')" using assms(1) n by (simp add: may_fail_def)
    then have "P r" "faults w' = faults w1" using assms(2) [OF w1] by (auto simp: faults_def)
    then show ?thesis using next_result_sound [OF n] by (auto simp: sound_def)
  qed
qed

section \<open>When a call can only fail by the schedule\<close>

lemma mkdir_sound: "sys_mkdir p w = (r, w') \<Longrightarrow> lookup w p = None \<Longrightarrow> is_dir w (path_dir p) \<Longrightarrow> sound (isl r) w w'"
  unfolding sys_mkdir_def by (drule may_fail_sound [where P = "\<lambda>r. \<not> isl r"]) (auto simp: lookup_def is_dir_def)

lemma stage_sound: "sys_stage dir content mode w = (r, w') \<Longrightarrow> is_dir w dir \<Longrightarrow> sound (isl r) w w'"
  unfolding sys_stage_def by (drule may_fail_sound [where P = "\<lambda>r. \<not> isl r"]) (auto simp: lookup_def is_dir_def)

lemma install_sound: "sys_install t p w = (r, w') \<Longrightarrow> map_of (w_temps w) t \<noteq> None \<Longrightarrow> lookup w p \<noteq> Some NDir \<Longrightarrow>
    is_dir w (path_dir p) \<Longrightarrow> sound (isl r) w w'"
  unfolding sys_install_def by (drule may_fail_sound [where P = "\<lambda>r. \<not> isl r"]) (auto simp: lookup_def is_dir_def)

lemma remove_file_sound: "sys_remove p w = (r, w') \<Longrightarrow> lookup w p \<noteq> Some NDir \<Longrightarrow> sound (r \<noteq> Inr () \<and> r \<noteq> Inl ENotExist) w w'"
  unfolding sys_remove_def
  by (drule may_fail_sound [where P = "\<lambda>r. r = Inr () \<or> r = Inl ENotExist"])
    (auto simp: lookup_def split: option.splits fsnode.splits elim: sound_weaken)

lemma remove_dir_sound: "sys_remove p w = (r, w') \<Longrightarrow> \<not> holds_entries w p \<Longrightarrow> sound (r \<noteq> Inr () \<and> r \<noteq> Inl ENotExist) w w'"
  unfolding sys_remove_def
  by (drule may_fail_sound [where P = "\<lambda>r. r = Inr () \<or> r = Inl ENotExist"])
    (auto simp: lookup_def holds_entries_def split: option.splits fsnode.splits elim: sound_weaken)

lemma remove_temp_sound: "sys_remove_temp t w = (r, w') \<Longrightarrow> sound (r \<noteq> Inr () \<and> r \<noteq> Inl ENotExist) w w'"
  unfolding sys_remove_temp_def
  by (drule may_fail_sound [where P = "\<lambda>r. r = Inr () \<or> r = Inl ENotExist"]) (auto elim: sound_weaken)

lemma sync_sound: "sys_sync d w = (r, w') \<Longrightarrow> is_dir w d \<Longrightarrow> sound (isl r) w w'"
  unfolding sys_sync_def by (drule may_fail_sound [where P = "\<lambda>r. \<not> isl r"]) (auto simp: lookup_def is_dir_def)

lemma read_sound: "sys_read p w = (r, w') \<Longrightarrow> lookup w p = None \<or> (\<exists>c m. lookup w p = Some (NFile c m)) \<Longrightarrow>
    sound (isl r \<and> r \<noteq> Inl ENotExist) w w'"
  unfolding sys_read_def
  by (drule may_fail_sound [where P = "\<lambda>r. isl r \<longrightarrow> r = Inl ENotExist"])
    (auto simp: lookup_def elim: sound_weaken)

lemma lstat_sound: "sys_lstat p w = (r, w') \<Longrightarrow> sound False w w'"
  unfolding sys_lstat_def by (drule may_fail_sound [where P = "\<lambda>r. True"]) (auto simp: lookup_def split: option.split)

lemma read_le: "sys_read p w = (r, w') \<Longrightarrow> sound False w w'"
  unfolding sys_read_def by (drule may_fail_sound [where P = "\<lambda>r. True"]) (auto simp: lookup_def split: option.split fsnode.split)

section \<open>Directories in order\<close>

text \<open>A directory of the inspected disk, or one of those created so far.\<close>

definition base :: "(string \<Rightarrow> fsnode option) \<Rightarrow> string set \<Rightarrow> string \<Rightarrow> bool" where
  "base D K q \<longleftrightarrow> q = ''.'' \<or> D q = Some NDir \<or> q \<in> K"

lemma base_mono: "base D K q \<Longrightarrow> K \<subseteq> K' \<Longrightarrow> base D K' q"
  by (auto simp: base_def)

fun chain :: "(string \<Rightarrow> fsnode option) \<Rightarrow> string set \<Rightarrow> string list \<Rightarrow> bool" where
  "chain D K [] = True"
| "chain D K (d # ds) = (base D K (path_dir d) \<and> chain D (insert d K) ds)"

lemma chain_mono: "chain D K ds \<Longrightarrow> K \<subseteq> K' \<Longrightarrow> chain D K' ds"
proof (induction ds arbitrary: K K')
  case (Cons d ds)
  then show ?case using base_mono [of D K "path_dir d" K'] Cons.IH [of "insert d K" "insert d K'"] by auto
qed simp

lemma chain_snoc: "chain D K (ds @ [d]) \<longleftrightarrow> chain D K ds \<and> base D (K \<union> set ds) (path_dir d)"
  by (induction ds arbitrary: K) auto

fun linked :: "string \<Rightarrow> string list \<Rightarrow> bool" where
  "linked q [] = True"
| "linked q (c # cs) = (path_dir c = q \<and> linked c cs)"

lemma inspect_chain:
  assumes "inspect_components cs w = (Inr ms, w')" "linked q cs" "base (lookup w) K q" "cs \<noteq> []"
  shows "chain (lookup w) K ms \<and> base (lookup w) (K \<union> set ms) (path_dir (last cs))"
  using assms
proof (induction cs arbitrary: w ms q K)
  case (Cons c cs)
  obtain r w1 where l: "sys_lstat c w = (r, w1)" by fastforce
  have s: "lookup w1 = lookup w" using same_disk_lookup lstat_same [OF l] by blast
  show ?case
  proof (cases "cs = []")
    case True
    then have "ms = []" using Cons.prems(1) l by (auto split: sum.splits syserr.splits fsnode.splits)
    then show ?thesis using True Cons.prems by simp
  next
    case more: False
    show ?thesis
    proof (cases r)
      case (Inl e)
      then obtain ms1 where ms: "inspect_components cs w1 = (Inr ms1, w')" "ms = c # ms1"
        using Cons.prems(1) l more by (cases e) (auto split: prod.splits sum.splits)
      have "chain (lookup w) (insert c K) ms1 \<and> base (lookup w) (insert c K \<union> set ms1) (path_dir (last cs))"
        using Cons.IH [OF ms(1), of c "insert c K"] Cons.prems(2) more s by (simp add: base_def)
      then show ?thesis using ms(2) Cons.prems more by simp
    next
      case (Inr n)
      then have n: "n = NDir" "inspect_components cs w1 = (Inr ms, w')"
        using Cons.prems(1) l more by (auto split: fsnode.splits if_splits)
      have "base (lookup w1) K c" using lstat_ok l Inr n s by (auto simp: base_def)
      then show ?thesis using Cons.IH [OF n(2), of c K] Cons.prems(2) more s by simp
    qed
  qed
qed simp

lemma linked_snoc: "linked q (cs @ [d]) \<longleftrightarrow> linked q cs \<and> path_dir d = (if cs = [] then q else last cs)"
  by (induction cs arbitrary: q) auto

lemma linked_takes: "list_all plain ws \<Longrightarrow> linked ''.'' (map (\<lambda>n. join_path (take (Suc n) ws)) [0..<length ws])"
proof (induction ws rule: rev_induct)
  case (snoc x ws)
  have "map (\<lambda>n. join_path (take (Suc n) (ws @ [x]))) [0..<length (ws @ [x])] =
      map (\<lambda>n. join_path (take (Suc n) ws)) [0..<length ws] @ [join_path (ws @ [x])]"
    by simp
  moreover have "path_dir (join_path (ws @ [x])) = (if ws = [] then ''.'' else join_path ws)"
    by (rule path_dir_snoc [OF snoc.prems])
  moreover have "last (map (\<lambda>n. join_path (take (Suc n) ws)) [0..<length ws]) = join_path ws" if "ws \<noteq> []"
    using that by (simp add: last_map)
  ultimately show ?case using snoc by (simp only: linked_snoc) auto
qed simp

lemma inspectArtifact_chain:
  assumes "inspectArtifact a w = (Inr (Some p), w')" "list_all plain (path_parts (art_path a))"
  shows "chain (lookup w) {} (pd_missing p)" "base (lookup w) (set (pd_missing p)) (path_dir (art_path a))"
proof -
  obtain r w1 where i: "inspect_components (components (art_path a)) w = (r, w1)" by fastforce
  then obtain missing where r: "r = Inr missing"
    using assms by (cases r) (auto simp: inspectArtifact_def inspectDeploymentPath_def)
  have m: "pd_missing p = missing" using assms(1) i r
    by (auto simp: inspectArtifact_def inspectDeploymentPath_def split: prod.splits sum.splits syserr.splits fsnode.splits if_splits)
  have "linked ''.'' (components (art_path a))" using linked_takes [OF assms(2)] by (simp add: components_def Let_def)
  moreover have "last (components (art_path a)) = art_path a" "components (art_path a) \<noteq> []"
    using components_above [OF assms(2)] by simp_all
  ultimately have "chain (lookup w) {} missing \<and> base (lookup w) (set missing) (path_dir (art_path a))"
    using inspect_chain [of "components (art_path a)" w missing w1 "''.''" "{}"] i r by (simp add: base_def)
  then show "chain (lookup w) {} (pd_missing p)" "base (lookup w) (set (pd_missing p)) (path_dir (art_path a))"
    using m by simp_all
qed


text \<open>The pending writes of an inspected batch have what they need above them, once it is created.\<close>

definition grounded :: "(string \<Rightarrow> fsnode option) \<Rightarrow> pendingDeployment \<Rightarrow> bool" where
  "grounded D p \<longleftrightarrow> chain D {} (pd_missing p) \<and> base D (set (pd_missing p)) (path_dir (pd_path p)) \<and> ''.'' \<notin> set (pd_missing p)"

lemma above_no_dot: "list_all plain (path_parts rel) \<Longrightarrow> ''.'' \<notin> set (above_path rel)"
  unfolding above_path_def using chain_no_dot by blast

lemma inspect_from_grounded:
  "inspect_from sha obs u ps as w = (Inr (u', ps'), w') \<Longrightarrow> \<forall>a \<in> set as. list_all plain (path_parts (art_path a)) \<Longrightarrow>
    list_all (grounded (lookup w)) ps \<Longrightarrow> list_all (grounded (lookup w)) ps'"
proof (induction as arbitrary: u ps w)
  case (Cons a as)
  obtain r w1 where i: "inspectArtifact a w = (r, w1)" by fastforce
  then obtain item where r: "r = Inr item" using Cons.prems by (cases r) auto
  have s: "lookup w1 = lookup w" using i inspectArtifact_same same_disk_lookup by blast
  show ?case
  proof (cases item)
    case None
    then have "inspect_from sha obs (u @ [art_path a]) ps as w1 = (Inr (u', ps'), w')"
      using Cons.prems(1) i r by (simp split: if_splits)
    from Cons.IH [OF this] Cons.prems(2,3) s show ?thesis by simp
  next
    case (Some p)
    then have *: "inspect_from sha obs u (ps @ [p]) as w1 = (Inr (u', ps'), w')"
      using Cons.prems(1) i r by (simp split: if_splits)
    have a: "list_all plain (path_parts (art_path a))" using Cons.prems(2) by simp
    have ip: "inspectArtifact a w = (Inr (Some p), w1)" using i r Some by simp
    have "grounded (lookup w) p" unfolding grounded_def
      using inspectArtifact_chain [OF ip a] inspectArtifact_missing [OF ip a] inspectArtifact_some(2) [OF ip]
        above_no_dot [OF a] by auto
    then show ?thesis using Cons.IH [OF *] Cons.prems(2,3) s by simp
  qed
qed simp

section \<open>Staging\<close>

text \<open>The directories created so far: each has its parent on the disk or before it.\<close>

definition ordered :: "(string \<Rightarrow> fsnode option) \<Rightarrow> string list \<Rightarrow> bool" where
  "ordered D ds \<longleftrightarrow> distinct ds \<and> chain D {} ds \<and> ''.'' \<notin> set ds"

lemma ordered_snoc: "ordered D (ds @ [d]) \<longleftrightarrow> ordered D ds \<and> d \<notin> set ds \<and> base D (set ds) (path_dir d) \<and> d \<noteq> ''.''"
  by (auto simp: ordered_def chain_snoc)

lemma base_is_dir: "base D (set created) q \<Longrightarrow> \<forall>d \<in> set created. D d = None \<Longrightarrow>
    lookup w q = overlay D I created q \<Longrightarrow> I q = None \<Longrightarrow> is_dir w q"
  by (auto simp: base_def is_dir_def overlay_def)

lemma created_sound:
  assumes "createMissingDirectories ds created w = (es, created', w')"
    and "\<forall>q. lookup w q = overlay D Map.empty created q" "\<forall>d \<in> set created. D d = None" "\<forall>d \<in> set ds. D d = None"
    and "ordered D created" "chain D (set created) ds" "''.'' \<notin> set ds"
  shows "ordered D created' \<and> set created \<subseteq> set created' \<and> (es = [] \<longrightarrow> set ds \<subseteq> set created') \<and> sound (es \<noteq> []) w w'"
  using assms
proof (induction ds arbitrary: created w)
  case Nil
  then show ?case by (simp add: sound_def)
next
  case (Cons d ds)
  show ?case
  proof (cases "d \<in> set created")
    case True
    with Cons.prems(1) have "createMissingDirectories ds created w = (es, created', w')" by simp
    then have "ordered D created' \<and> set created \<subseteq> set created' \<and> (es = [] \<longrightarrow> set ds \<subseteq> set created') \<and> sound (es \<noteq> []) w w'"
      by (rule Cons.IH) (use Cons.prems True in \<open>auto simp: insert_absorb\<close>)
    with True show ?thesis by auto
  next
    case False
    obtain r w1 where m: "sys_mkdir d w = (r, w1)" by fastforce
    have L: "lookup w d = None" using Cons.prems False by (simp add: overlay_def)
    have dir: "is_dir w (path_dir d)"
      by (rule base_is_dir [of D created _ w Map.empty]) (use Cons.prems in auto)
    note so = mkdir_sound [OF m L dir]
    show ?thesis
    proof (cases r)
      case (Inr x)
      note ok = mkdir_ok [OF m [unfolded Inr]]
      have "createMissingDirectories ds (created @ [d]) w1 = (es, created', w')" using Cons.prems(1) m Inr False by simp
      moreover have "\<forall>q. lookup w1 q = overlay D Map.empty (created @ [d]) q"
        using ok Cons.prems(2) by (auto simp: overlay_def)
      ultimately have "ordered D created' \<and> set (created @ [d]) \<subseteq> set created' \<and> (es = [] \<longrightarrow> set ds \<subseteq> set created') \<and> sound (es \<noteq> []) w1 w'"
        by (rule Cons.IH) (use Cons.prems False in \<open>auto simp: ordered_snoc\<close>)
      then show ?thesis using sound_trans [OF so, of "es \<noteq> []" w'] Inr by simp
    next
      case (Inl e)
      have "e \<noteq> EExist" using m L Inl
        by (rule_tac next_result_cases [of w]) (auto simp: sys_mkdir_def may_fail_def lookup_def split: if_splits)
      then have "es \<noteq> []" "created' = created" "w' = w1" using Cons.prems(1) m Inl False by (cases e; auto)+
      then show ?thesis using so Inl Cons.prems(5) by (simp add: sound_def)
    qed
  qed
qed

text \<open>The temporaries on disk are those of the transaction.\<close>

definition own_temps :: "stagedDeployment list \<Rightarrow> world \<Rightarrow> bool" where
  "own_temps fs w \<longleftrightarrow> set (mkeys (w_temps w)) \<subseteq> set (all_temps fs)"

definition tx_sound :: "(string \<Rightarrow> fsnode option) \<Rightarrow> stagedDeployment list \<Rightarrow> string list \<Rightarrow> world \<Rightarrow> bool" where
  "tx_sound D fs created w \<longleftrightarrow> ordered D created \<and> own_temps fs w \<and>
    (\<forall>f \<in> set fs. sd_staged f \<noteq> None \<longrightarrow> base D (set created) (path_dir (sd_path f)))"


lemma ordered_base: "ordered D ds \<Longrightarrow> q \<in> set ds \<Longrightarrow> base D (set ds) (path_dir q)"
proof (induction ds rule: rev_induct)
  case (snoc d ds)
  then show ?case using base_mono [of D "set ds" "path_dir q" "set (ds @ [d])"] by (auto simp: ordered_snoc)
qed simp

lemma own_temps_grow: "own_temps fs w \<Longrightarrow> w_temps w' = w_temps w \<Longrightarrow> own_temps (fs @ [f]) w'"
  by (auto simp: own_temps_def all_temps_snoc)

lemma stageOne_sound:
  assumes st: "stageOne (new_staged p) p created w = (es, f, created', w')"
    and ok: "tx_ok D C fs created w" and none: "list_all (\<lambda>f. \<not> sd_installed f) fs" and ts: "tx_sound D fs created w"
    and p: "agrees D p" "grounded D p"
  shows "tx_sound D (fs @ [f]) created' w' \<and> sound (es \<noteq> []) w w'"
proof -
  obtain es1 created1 w1 where c: "createMissingDirectories (pd_missing p) created w = (es1, created1, w1)"
    by (cases "createMissingDirectories (pd_missing p) created w")
  note t = tx_okD [OF ok]
  have L: "\<forall>q. lookup w q = overlay D Map.empty created q" "\<forall>d \<in> set created. D d = None" "\<forall>d \<in> set (pd_missing p). D d = None"
    using t(1,4) p(1) installed_of_none [OF none] by (simp_all add: agrees_def)
  have c1: "(\<forall>q. lookup w1 q = overlay D Map.empty created1 q) \<and> (\<forall>d \<in> set created1. D d = None) \<and>
      w_temps w1 = w_temps w \<and> w_next w1 = w_next w \<and> set es1 \<subseteq> {PrepareFailed}" by (rule created_ok [OF c L])
  have s1: "ordered D created1 \<and> set created \<subseteq> set created1 \<and> (es1 = [] \<longrightarrow> set (pd_missing p) \<subseteq> set created1) \<and> sound (es1 \<noteq> []) w w1"
    by (rule created_sound [OF c L]) (use ts p(2) chain_mono [of D "{}" "pd_missing p" "set created"] in \<open>auto simp: tx_sound_def grounded_def\<close>)
  have old: "\<forall>g \<in> set fs. sd_staged g \<noteq> None \<longrightarrow> base D (set created1) (path_dir (sd_path g))"
    using ts s1 base_mono by (fastforce simp: tx_sound_def)
  have ow: "own_temps fs w" using ts by (simp add: tx_sound_def)
  have build: "tx_sound D (fs @ [g]) created1 v" if "own_temps (fs @ [g]) v"
      "sd_staged g \<noteq> None \<longrightarrow> base D (set created1) (path_dir (sd_path g))" for g v
    using that old s1 by (simp add: tx_sound_def)
  show ?thesis
  proof (cases "es1 = []")
    case False
    then have e: "es = es1" "f = new_staged p" "created' = created1" "w' = w1" using st c by (auto simp: stageOne_def)
    have "tx_sound D (fs @ [f]) created1 w1" using c1 e(2)
      by (intro build own_temps_grow [OF ow]) (auto simp: new_staged_def)
    then show ?thesis using e s1 by simp
  next
    case True
    have par: "base D (set created1) (path_dir (pd_path p))" using p(2) s1 True base_mono by (auto simp: grounded_def)
    have dir: "is_dir w1 (path_dir (pd_path p))" by (rule base_is_dir [OF par, of w1 Map.empty]) (use c1 in auto)
    obtain r2 w2 where s2: "sys_stage (path_dir (pd_path p)) (pd_content p) (pd_mode p) w1 = (r2, w2)" by fastforce
    note so2 = sound_trans [OF s1 [THEN conjunct2, THEN conjunct2, THEN conjunct2] stage_sound [OF s2 dir]]
    show ?thesis
    proof (cases r2)
      case (Inl e)
      then have e: "es = [StageFailed]" "f = new_staged p" "created' = created1" "w' = w2"
        using st c True s2 by (auto simp: stageOne_def)
      have "w_temps w2 = w_temps w" using failed_same(2) [of _ _ _ w1 e w2] s2 Inl c1 by (simp add: same_disk_def)
      then have "tx_sound D (fs @ [f]) created1 w2" using e(2) by (intro build own_temps_grow [OF ow]) (auto simp: new_staged_def)
      then show ?thesis using e so2 Inl by simp
    next
      case (Inr t1)
      note k2 = stage_ok [OF s2 [unfolded Inr]]
      have dir2: "is_dir w2 (path_dir (pd_path p))" using dir k2 by (auto simp: is_dir_def lookup_def)
      let ?g = "(new_staged p)\<lparr>sd_staged := Some t1\<rparr>"
      have own2: "own_temps (fs @ [?g]) w2" using ow k2 c1
        by (auto simp: own_temps_def all_temps_snoc temporaries_def new_staged_def mkeys_mput)
      have g2: "tx_sound D (fs @ [?g]) created1 w2" by (rule build [OF own2]) (use par in \<open>simp add: new_staged_def\<close>)
      have so: "sound False w w2" using so2 by (rule sound_weaken) simp
      show ?thesis
      proof (cases "pd_exists p")
        case False
        then have "es = []" "f = ?g" "created' = created1" "w' = w2" using st c True s2 Inr by (auto simp: stageOne_def)
        then show ?thesis using g2 so by simp
      next
        case ex: True
        obtain r3 w3 where s3: "sys_stage (path_dir (pd_path p)) (pd_original p) (pd_mode p) w2 = (r3, w3)" by fastforce
        note so3 = sound_trans [OF so stage_sound [OF s3 dir2]]
        show ?thesis
        proof (cases r3)
          case (Inl e)
          then have e: "es = [BackupFailed]" "f = ?g" "created' = created1" "w' = w3"
            using st c True s2 \<open>r2 = Inr t1\<close> s3 ex by (auto simp: stageOne_def)
          have "w_temps w3 = w_temps w2" using failed_same(2) [of _ _ _ w2 e w3] s3 Inl by (simp add: same_disk_def)
          then show ?thesis using e so3 Inl g2 by (simp add: tx_sound_def own_temps_def)
        next
          case b: (Inr b)
          note k3 = stage_ok [OF s3 [unfolded b]]
          have e: "es = []" "f = ?g\<lparr>sd_backup := Some b\<rparr>" "created' = created1" "w' = w3"
            using st c True s2 Inr s3 b ex by (auto simp: stageOne_def)
          have "own_temps (fs @ [f]) w3" using own2 k3 e(2)
            by (auto simp: own_temps_def all_temps_snoc temporaries_def new_staged_def mkeys_mput)
          then have "tx_sound D (fs @ [f]) created1 w3" by (rule build) (use par e(2) in \<open>simp add: new_staged_def\<close>)
          then show ?thesis using e so3 b by simp
        qed
      qed
    qed
  qed
qed

lemma stage_all_sound:
  assumes "stage ps tx w = (es, tx', w')"
    and "tx_ok D C (tx_files tx) (tx_createdOrder tx) w" "list_all (\<lambda>f. \<not> sd_installed f) (tx_files tx)"
    and "list_all (agrees D) ps" "\<forall>p \<in> set ps. C (pd_path p) = pd_content p"
    and "distinct (map sd_path (tx_files tx) @ map pd_path ps)"
    and "tx_sound D (tx_files tx) (tx_createdOrder tx) w" "list_all (grounded D) ps"
  shows "tx_sound D (tx_files tx') (tx_createdOrder tx') w' \<and> sound (es \<noteq> []) w w'"
  using assms
proof (induction ps arbitrary: tx w)
  case Nil
  then show ?case by (simp add: sound_def)
next
  case (Cons p ps)
  obtain es1 f created w1 where o: "stageOne (new_staged p) p (tx_createdOrder tx) w = (es1, f, created, w1)"
    by (cases "stageOne (new_staged p) p (tx_createdOrder tx) w")
  have s: "tx_ok D C (tx_files tx @ [f]) created w1 \<and> \<not> sd_installed f \<and> set es1 \<subseteq> staging_errors \<and> sd_path f = pd_path p \<and>
      (es1 = [] \<longrightarrow> sd_staged f \<noteq> None \<and> (sd_exists f \<longrightarrow> sd_backup f \<noteq> None))"
    by (rule stageOne_ok [OF o Cons.prems(2,3)]) (use Cons.prems(4-6) in auto)
  have so: "tx_sound D (tx_files tx @ [f]) created w1 \<and> sound (es1 \<noteq> []) w w1"
    by (rule stageOne_sound [OF o Cons.prems(2,3,7)]) (use Cons.prems(4,8) in auto)
  define tx1 where "tx1 = \<lparr>tx_files = tx_files tx @ [f], tx_createdOrder = created\<rparr>"
  show ?case
  proof (cases "es1 = []")
    case False
    then have "es = es1" "tx' = tx1" "w' = w1" using Cons.prems(1) o by (simp_all add: tx1_def)
    then show ?thesis using so by (simp add: tx1_def)
  next
    case True
    then have "stage ps tx1 w1 = (es, tx', w')" using Cons.prems(1) o by (simp add: tx1_def)
    then have "tx_sound D (tx_files tx') (tx_createdOrder tx') w' \<and> sound (es \<noteq> []) w1 w'"
      by (rule Cons.IH) (use s so Cons.prems in \<open>auto simp: tx1_def\<close>)
    then show ?thesis using so sound_trans [of "es1 \<noteq> []" w w1 "es \<noteq> []" w'] True by simp
  qed
qed


lemma staged_sound:
  assumes p: "prepareDeployment rootDir managed artifacts = Inr ns" and i: "inspectDeployments sha obs ns w = (Inr (u, ps), w1)"
    and st: "stage ps \<lparr>tx_files = [], tx_createdOrder = []\<rparr> w1 = (es, tx, w2)"
    and g: "list_all (grounded (lookup w)) ps" and e: "w_temps w1 = []"
  shows "tx_sound (lookup w) (tx_files tx) (tx_createdOrder tx) w2 \<and> sound (es \<noteq> []) w1 w2"
proof -
  have s1: "lookup w1 = lookup w" using inspect_from_same i same_disk_lookup by (fastforce simp: inspectDeployments_def)
  have seen: "batch_seen (lookup w) ns u ps" by (rule staged_batch(5) [OF p i st])
  then have C: "\<forall>q \<in> set ps. content_of ns (pd_path q) = pd_content q"
    using content_of [OF prepared_batch(1) [OF p]] by (fastforce simp: batch_seen_def)
  have "tx_ok (lookup w) (content_of ns) [] [] w1" using s1 by (simp add: tx_ok_def overlay_def all_temps_def)
  moreover have "tx_sound (lookup w) [] [] w1" using e by (simp add: tx_sound_def ordered_def own_temps_def mkeys_def)
  ultimately show ?thesis
    using stage_all_sound [OF st, of "lookup w" "content_of ns"] C seen g prepared_batch(1) [OF p] by (simp add: batch_seen_def)
qed

section \<open>Commit\<close>

text \<open>No artifact is a directory above another, nor one that was created.\<close>

definition apart :: "stagedDeployment list \<Rightarrow> string list \<Rightarrow> bool" where
  "apart fs created \<longleftrightarrow> (\<forall>f \<in> set fs. sd_path f \<notin> set created \<and>
     (path_dir (sd_path f) = ''.'' \<or> path_dir (sd_path f) \<notin> sd_path ` set fs))"

lemma apart_cong: "set (map sd_path fs) = set (map sd_path gs) \<Longrightarrow> apart fs created \<longleftrightarrow> apart gs created"
proof -
  have *: "apart fs created \<longleftrightarrow> (\<forall>p \<in> sd_path ` set fs. p \<notin> set created \<and> (path_dir p = ''.'' \<or> path_dir p \<notin> sd_path ` set fs))" for fs
    by (auto simp: apart_def)
  show "set (map sd_path fs) = set (map sd_path gs) \<Longrightarrow> ?thesis" by (simp add: *)
qed

lemma apart_tail: "apart (f # gs) created \<Longrightarrow> apart gs created"
  by (auto simp: apart_def)

lemma parent_is_dir:
  assumes "\<forall>q. lookup w q = overlay D (installed_of C fs) created q" "\<forall>d \<in> set created. D d = None" "apart fs created"
    and "f \<in> set fs" "base D (set created) (path_dir (sd_path f))"
  shows "is_dir w (path_dir (sd_path f))"
proof (cases "path_dir (sd_path f) = ''.''")
  case False
  then have "path_dir (sd_path f) \<notin> sd_path ` set fs" using assms(3,4) by (auto simp: apart_def)
  then have "installed_of C fs (path_dir (sd_path f)) = None" by (rule installed_of_notin)
  then show ?thesis using base_is_dir [OF assms(5,2)] assms(1) by blast
qed (simp add: is_dir_def)

lemma tx_sound_switch:
  "tx_sound D (done @ f # rest) created w \<Longrightarrow> set (mkeys (w_temps w')) \<subseteq> set (mkeys (w_temps w)) \<Longrightarrow>
    tx_sound D (done @ f\<lparr>sd_installed := True\<rparr> # rest) created w'"
  by (auto simp: tx_sound_def own_temps_def all_temps_switch)

lemma tx_sound_same: "tx_sound D fs created w \<Longrightarrow> same_disk w w' \<Longrightarrow> tx_sound D fs created w'"
  by (simp add: tx_sound_def own_temps_def same_disk_def)

lemma mkeys_mdel: "set (mkeys (mdel k m)) = set (mkeys m) - {k}"
  by (auto simp: mkeys_def mdel_def)

lemma unchanged_sound:
  assumes u: "unchangedSinceInspection f w = (r, w')" and f: "inspected D f" "lookup w (sd_path f) = D (sd_path f)"
  shows "sound (r \<noteq> Inr True) w w'"
proof -
  obtain x w1 where rd: "sys_read (sd_path f) w = (x, w1)" by fastforce
  have w1: "w' = w1" using u rd by (auto simp: unchangedSinceInspection_def split: sum.splits syserr.splits)
  have so: "sound (isl x \<and> x \<noteq> Inl ENotExist) w w1" by (rule read_sound [OF rd]) (use f in \<open>auto simp: inspected_def\<close>)
  show ?thesis
  proof (cases x)
    case (Inl e)
    show ?thesis
    proof (cases "e = ENotExist")
      case True
      then have "\<not> sd_exists f" using read_absent [of "sd_path f" w w1] rd Inl f by (auto simp: inspected_def split: if_splits)
      then show ?thesis using u rd Inl True so w1 by (auto simp: unchangedSinceInspection_def elim: sound_weaken)
    qed (use so w1 Inl in \<open>auto elim: sound_weaken\<close>)
  next
    case (Inr c)
    then have "sd_exists f \<and> c = sd_original f"
      using read_ok [of "sd_path f" w c w1] rd f by (auto simp: inspected_def split: if_splits)
    then show ?thesis using u rd Inr so w1 by (auto simp: unchangedSinceInspection_def elim: sound_weaken)
  qed
qed

lemma commit_files_sound:
  assumes "commit_files (\<lambda>_. []) cancel i rest w = (es, rest', w')"
    and "tx_ok D C (done @ rest) created w" "list_all (\<lambda>f. \<not> sd_installed f) rest" "tx_sound D (done @ rest) created w"
    and "list_all fully_staged rest" "apart (done @ rest) created"
  shows "tx_sound D (done @ rest') created w' \<and> sound (es \<noteq> [] \<and> ContextErr \<notin> set es) w w' \<and>
    (list_all fully_staged done \<longrightarrow> list_all fully_staged (done @ rest'))"
  using assms
proof (induction rest arbitrary: i "done" w es rest')
  case Nil
  then show ?case by (simp add: sound_def)
next
  case (Cons f rest)
  note o = tx_okD [OF Cons.prems(2)]
  have fp: "sd_path f \<notin> set created" "\<not> sd_installed f" "inspected D f" "fully_staged f" "temps_held C w f"
    using Cons.prems(3,5,6) o(3,5) by (auto simp: apart_def)
  have "installed_of C (done @ f # rest) (sd_path f) = None"
    using o(2) fp(2) by (subst installed_of_append) (auto simp: installed_of_Cons intro!: installed_of_notin)
  then have Lf: "lookup w (sd_path f) = D (sd_path f)" using o(1) fp(1) by (simp add: overlay_def)
  obtain t where t: "sd_staged f = Some t" using fp(4) by (auto simp: fully_staged_def)
  have par: "is_dir w (path_dir (sd_path f))"
    by (rule parent_is_dir [of w D C "done @ f # rest" created])
      (use o(1,4) Cons.prems(4,6) t in \<open>auto simp: tx_sound_def\<close>)
  show ?case
  proof (cases "cancelled cancel i")
    case True
    then show ?thesis using Cons.prems by (auto simp: sound_def)
  next
    case go: False
    obtain r w1 where u: "unchangedSinceInspection f w = (r, w1)" by fastforce
    note s1 = unchanged_same [OF u] and so1 = unchanged_sound [OF u fp(3) Lf]
    have ts1: "tx_sound D (done @ f # rest) created w1" using Cons.prems(4) s1 tx_sound_same by blast
    show ?thesis
    proof (cases "r = Inr True")
      case False
      then have "rest' = f # rest" "w' = w1" "es \<noteq> []"
        using Cons.prems(1) u go by (auto split: sum.splits bool.splits)
      then show ?thesis using ts1 so1 False Cons.prems(5) by (auto elim: sound_weaken)
    next
      case True
      obtain x w2 where ins: "sys_install t (sd_path f) w1 = (x, w2)" by fastforce
      have "map_of (w_temps w1) t \<noteq> None" using fp(2,5) t s1 by (simp add: temps_held_def same_disk_def)
      moreover have "lookup w1 (sd_path f) \<noteq> Some NDir" "is_dir w1 (path_dir (sd_path f))"
        using fp(3) Lf par same_disk_lookup [OF s1] by (auto simp: inspected_def is_dir_def)
      ultimately have so2: "sound (isl x) w1 w2" by (rule install_sound [OF ins])
      show ?thesis
      proof (cases x)
        case (Inl e)
        then have "rest' = f # rest" "w' = w2" "es \<noteq> []" using Cons.prems(1) u go True t ins by auto
        then show ?thesis using tx_sound_same [OF ts1] failed_same(3) ins Inl sound_trans [OF so1 so2] Cons.prems(5)
          by (auto elim: sound_weaken)
      next
        case x: (Inr y)
        define f1 where "f1 = f\<lparr>sd_installed := True\<rparr>"
        have ok1: "tx_ok D C (done @ f # rest) created w1" using Cons.prems(2) s1 tx_ok_same by blast
        have ok2: "tx_ok D C ((done @ [f1]) @ rest) created w2"
          using install_tx_ok [OF ok1 ins [unfolded x] t fp(2)] by (simp add: f1_def)
        have "set (mkeys (w_temps w2)) \<subseteq> set (mkeys (w_temps w1))" using install_ok [OF ins [unfolded x]] by (auto simp: mkeys_mdel)
        then have ts2: "tx_sound D ((done @ [f1]) @ rest) created w2" using tx_sound_switch [OF ts1] by (simp add: f1_def)
        have ap2: "apart ((done @ [f1]) @ rest) created"
          using Cons.prems(6) apart_cong [of "(done @ [f1]) @ rest" "done @ f # rest"] by (simp add: f1_def)
        have dir2: "is_dir w2 (path_dir (sd_path f))"
          using parent_is_dir [of w2 D C "(done @ [f1]) @ rest" created f1] tx_okD(1,4) [OF ok2] ap2 ts2 t
          by (auto simp: tx_sound_def f1_def)
        obtain z w3 where sy: "sys_sync (path_dir (sd_path f)) w2 = (z, w3)" by fastforce
        note s3 = sync_quiet [OF sy] and so3 = sync_sound [OF sy dir2]
        note so123 = sound_trans [OF sound_trans [OF so1 so2] so3]
        have ts3: "tx_sound D ((done @ [f1]) @ rest) created w3" using tx_sound_same [OF ts2 s3] .
        have ok3: "tx_ok D C ((done @ [f1]) @ rest) created w3" using tx_ok_same [OF ok2 s3] .
        have fs1: "fully_staged f1" using fp(4) by (simp add: f1_def fully_staged_def)
        show ?thesis
        proof (cases z)
          case (Inl e)
          then have "es = [InstallFailed]" "rest' = f1 # rest" "w' = w3"
            using Cons.prems(1) u go True t ins x sy by (auto simp: f1_def)
          then show ?thesis using ts3 so123 Inl fs1 Cons.prems(5) by (auto elim: sound_weaken)
        next
          case (Inr v)
          obtain es1 rest1 w4 where c: "commit_files (\<lambda>_. []) cancel (Suc i) rest w3 = (es1, rest1, w4)"
            by (cases "commit_files (\<lambda>_. []) cancel (Suc i) rest w3")
          have e: "es = es1" "rest' = f1 # rest1" "w' = w4"
            using Cons.prems(1) u go True t ins x sy Inr c by (auto simp: f1_def)
          have "commit_files (\<lambda>_. []) cancel (Suc i) rest w3 = (es, rest1, w')" using c e by simp
          then have "tx_sound D ((done @ [f1]) @ rest1) created w' \<and> sound (es \<noteq> [] \<and> ContextErr \<notin> set es) w3 w' \<and>
              (list_all fully_staged (done @ [f1]) \<longrightarrow> list_all fully_staged ((done @ [f1]) @ rest1))"
            by (rule Cons.IH [OF _ ok3 _ ts3 _ ap2]) (use Cons.prems(3,5) in auto)
          then show ?thesis using e fs1 sound_trans [OF so123, of "es \<noteq> [] \<and> ContextErr \<notin> set es" w']
            by (auto elim: sound_weaken)
        qed
      qed
    qed
  qed
qed


lemma sync_all_sound: "sync_all ds w = (es, w') \<Longrightarrow> \<forall>d \<in> set ds. is_dir w d \<Longrightarrow> sound (es \<noteq> []) w w'"
proof (induction ds arbitrary: w)
  case Nil
  then show ?case by (simp add: sound_def)
next
  case (Cons d ds)
  obtain r w1 where s: "sys_sync d w = (r, w1)" by fastforce
  have so: "sound (isl r) w w1" using sync_sound [OF s] Cons.prems(2) by simp
  show ?case
  proof (cases r)
    case (Inl e)
    then show ?thesis using Cons.prems(1) s so by auto
  next
    case (Inr x)
    have "\<forall>d \<in> set ds. is_dir w1 d" using Cons.prems(2) same_disk_lookup [OF sync_quiet [OF s]] by (simp add: is_dir_def)
    then have "sound (es \<noteq> []) w1 w'" using Cons.IH [of w1] Cons.prems(1) s Inr by simp
    then show ?thesis using sound_trans [OF so] Inr by fastforce
  qed
qed

lemma commit_sound:
  assumes c: "commit (\<lambda>_. []) cancel tx w = (es, tx', w')"
    and ok: "tx_ok D C (tx_files tx) (tx_createdOrder tx) w" "list_all (\<lambda>f. \<not> sd_installed f) (tx_files tx)"
    and s: "tx_sound D (tx_files tx) (tx_createdOrder tx) w" "list_all fully_staged (tx_files tx)" "apart (tx_files tx) (tx_createdOrder tx)"
  shows "tx_sound D (tx_files tx') (tx_createdOrder tx') w'" "sound (es \<noteq> [] \<and> ContextErr \<notin> set es) w w'"
    "list_all fully_staged (tx_files tx')"
proof -
  obtain es1 files w1 where f: "commit_files (\<lambda>_. []) cancel 0 (tx_files tx) w = (es1, files, w1)"
    by (cases "commit_files (\<lambda>_. []) cancel 0 (tx_files tx) w")
  have *: "tx_sound D ([] @ files) (tx_createdOrder tx) w1 \<and> sound (es1 \<noteq> [] \<and> ContextErr \<notin> set es1) w w1 \<and>
      (list_all fully_staged [] \<longrightarrow> list_all fully_staged ([] @ files))"
    by (rule commit_files_sound [OF f]) (use ok s in auto)
  have ok1: "tx_ok D C ([] @ files) (tx_createdOrder tx) w1 \<and> map sd_path files = map sd_path (tx_files tx) \<and>
      (es1 = [] \<longrightarrow> list_all sd_installed files) \<and> set es1 \<subseteq> commit_errors"
    by (rule commit_files_ok [OF f]) (use ok in auto)
  have ap: "apart files (tx_createdOrder tx)" using s(3) ok1 apart_cong [of files "tx_files tx"] by (metis list.set_map)
  have dirs: "\<forall>d \<in> set (rev (tx_createdOrder tx)). is_dir w1 d"
  proof
    fix d assume d: "d \<in> set (rev (tx_createdOrder tx))"
    then have "d \<notin> sd_path ` set files" using ap by (auto simp: apart_def)
    then show "is_dir w1 d" using installed_of_notin [of d files C] ok1 d tx_okD(1) [of D C files "tx_createdOrder tx" w1 d]
      by (simp add: is_dir_def overlay_def)
  qed
  obtain es2 w2 where sy: "sync_all (rev (tx_createdOrder tx)) w1 = (es2, w2)" by fastforce
  note so2 = sync_all_sound [OF sy dirs]
  have t: "tx_files tx' = files" "tx_createdOrder tx' = tx_createdOrder tx"
    and w: "es1 \<noteq> [] \<and> es = es1 \<and> w' = w1 \<or> es1 = [] \<and> es = es2 \<and> w' = w2"
    using c f sy by (auto simp: commit_def Let_def split: if_splits)
  show "tx_sound D (tx_files tx') (tx_createdOrder tx') w'" using * w t tx_sound_same sync_all_same [OF sy] by auto
  show "list_all fully_staged (tx_files tx')" using * t by simp
  show "sound (es \<noteq> [] \<and> ContextErr \<notin> set es) w w'"
    using * w sound_trans [OF _ so2, of "es1 \<noteq> [] \<and> ContextErr \<notin> set es1" w] by (auto elim: sound_weaken)
qed

section \<open>Undoing\<close>

lemma install_le: "sys_install t p w = (r, w') \<Longrightarrow> sound False w w'"
  unfolding sys_install_def
  by (drule may_fail_sound [where P = "\<lambda>r. True"]) (auto split: option.split if_splits)

lemma remove_le: "sys_remove p w = (r, w') \<Longrightarrow> sound False w w'"
  unfolding sys_remove_def
  by (drule may_fail_sound [where P = "\<lambda>r. True"]) (auto split: option.split fsnode.split if_splits)

lemma sync_le: "sys_sync d w = (r, w') \<Longrightarrow> sound False w w'"
  unfolding sys_sync_def by (drule may_fail_sound [where P = "\<lambda>r. True"]) auto

lemma sound_False_trans: "sound False w w1 \<Longrightarrow> sound False w1 w2 \<Longrightarrow> sound False w w2"
  using sound_trans [of False w w1 False w2] by simp

lemma sound_False_refl: "sound False w w"
  by (simp add: sound_def)

lemma restoreBackup_le: "restoreBackup f w = (es, w') \<Longrightarrow> sound False w w'"
  by (auto simp: restoreBackup_def Let_def split: option.splits prod.splits sum.splits if_splits
      dest!: install_le remove_le intro: sound_False_trans sound_False_refl)

lemma restore_le: "restore f w = (es, w') \<Longrightarrow> sound False w w'"
  by (auto simp: restore_def restoreExisting_def removeInstalled_def split: prod.splits sum.splits syserr.splits if_splits
      dest!: restoreBackup_le remove_le sync_le intro: sound_False_trans sound_False_refl)

lemma remove_created_le: "remove_created d w = (es, w') \<Longrightarrow> sound False w w'"
  by (auto simp: remove_created_def split: prod.splits sum.splits if_splits
      dest!: remove_le sync_le intro: sound_False_trans)

lemma join_all_le:
  assumes "join_all f xs w = (es, w')" "\<And>x v es v'. f x v = (es, v') \<Longrightarrow> sound False v v'"
  shows "sound False w w'"
  using assms(1)
proof (induction xs arbitrary: w es)
  case (Cons x xs)
  obtain es1 w1 where f: "f x w = (es1, w1)" by fastforce
  obtain es2 w2 where j: "join_all f xs w1 = (es2, w2)" by fastforce
  have "join_all f xs w1 = (es2, w')" using Cons.prems f j by simp
  then show ?case using Cons.IH assms(2) [OF f] sound_False_trans by blast
qed (simp add: sound_def)

lemma sound_then: "sound (es \<noteq> []) w w1 \<Longrightarrow> sound False w1 w2 \<Longrightarrow> es \<noteq> [] \<Longrightarrow> sound True w w2"
  by (auto simp: sound_def)

lemma restoreBackup_sound:
  assumes r: "restoreBackup f w = (es, w')" and h: "temps_held C w f" "sd_backup f \<noteq> None"
    and L: "lookup w (sd_path f) \<noteq> Some NDir" "is_dir w (path_dir (sd_path f))"
  shows "sound (es \<noteq> []) w w'"
proof -
  obtain b where b: "sd_backup f = Some b" using h by blast
  obtain x w1 where i: "sys_install b (sd_path f) w = (x, w1)" by fastforce
  have so: "sound (isl x) w w1" by (rule install_sound [OF i _ L]) (use h b in \<open>simp add: temps_held_def\<close>)
  show ?thesis
  proof (cases x)
    case (Inr y)
    then show ?thesis using r b i so by (auto simp: restoreBackup_def)
  next
    case (Inl e)
    obtain x2 w2 where r2: "sys_remove (sd_path f) w1 = (x2, w2)" by fastforce
    obtain x3 w3 where r3: "sys_install b (sd_path f) w2 = (x3, w3)" by fastforce
    have "w' = w2 \<or> w' = w3" using r b i Inl r2 r3 by (auto simp: restoreBackup_def split: sum.splits if_splits)
    moreover have "faults w1 < faults w" using so Inl by (simp add: sound_def)
    ultimately show ?thesis using remove_le [OF r2] install_le [OF r3] by (auto simp: sound_def)
  qed
qed

lemma restore_sound:
  assumes r: "restore f w = (es, w')" and ok: "tx_ok D C (f # gs) created w" and ap: "apart (f # gs) created"
    and f: "sd_installed f \<Longrightarrow> sd_exists f \<Longrightarrow> sd_backup f \<noteq> None"
      "sd_installed f \<Longrightarrow> base D (set created) (path_dir (sd_path f))"
  shows "sound (es \<noteq> []) w w'"
proof (cases "sd_installed f")
  case False
  then show ?thesis using r by (simp add: restore_def sound_def)
next
  case inst: True
  note o = tx_okD [OF ok]
  have dir: "is_dir w (path_dir (sd_path f))"
    by (rule parent_is_dir [of w D C "f # gs" created]) (use o(1,4) ap f(2) inst in auto)
  have L: "lookup w (sd_path f) \<noteq> Some NDir" using o(1) inst by (simp add: overlay_def installed_of_Cons)
  have up: "path_dir (sd_path f) = ''.'' \<or> path_dir (sd_path f) \<noteq> sd_path f" using ap by (auto simp: apart_def)
  have dir_later: "is_dir v (path_dir (sd_path f))" if "\<forall>q. q \<noteq> sd_path f \<longrightarrow> lookup v q = lookup w q" for v
    using dir up that by (auto simp: is_dir_def)
  show ?thesis
  proof (cases "sd_exists f")
    case True
    obtain es1 w1 where b: "restoreBackup f w = (es1, w1)" by fastforce
    have so: "sound (es1 \<noteq> []) w w1" by (rule restoreBackup_sound [OF b _ f(1) [OF inst True] L dir]) (use o(5) in auto)
    show ?thesis
    proof (cases "es1 = []")
      case True
      have d1: "is_dir w1 (path_dir (sd_path f))"
        by (rule dir_later) (use restoreBackup_ok [of f w w1 C] b True o(5) in auto)
      obtain z w2 where sy: "sys_sync (path_dir (sd_path f)) w1 = (z, w2)" by fastforce
      have "w' = w2" "es \<noteq> [] \<longleftrightarrow> isl z" using r inst \<open>sd_exists f\<close> b True sy
        by (auto simp: restore_def restoreExisting_def split: sum.splits)
      then show ?thesis using sound_trans [OF so sync_sound [OF sy d1]] True by simp
    next
      case False
      then have "w' = w1" using r inst \<open>sd_exists f\<close> b by (auto simp: restore_def restoreExisting_def)
      then show ?thesis using so False by (simp add: sound_def)
    qed
  next
    case False
    obtain x w1 where rm: "sys_remove (sd_path f) w = (x, w1)" by fastforce
    note so = remove_file_sound [OF rm L]
    show ?thesis
    proof (cases x)
      case (Inl e)
      then have "w' = w1" "es \<noteq> [] \<longrightarrow> e \<noteq> ENotExist" using r inst False rm
        by (auto simp: restore_def removeInstalled_def split: syserr.splits)
      then show ?thesis using so Inl by (auto simp: sound_def)
    next
      case (Inr y)
      obtain z w2 where sy: "sys_sync (path_dir (sd_path f)) w1 = (z, w2)" by fastforce
      have d1: "is_dir w1 (path_dir (sd_path f))" by (rule dir_later) (use remove_ok [OF rm [unfolded Inr]] in auto)
      have "w' = w2" "es \<noteq> [] \<longleftrightarrow> isl z" using r inst False rm Inr sy
        by (auto simp: restore_def removeInstalled_def split: sum.splits)
      then show ?thesis using sound_trans [OF so sync_sound [OF sy d1]] by (auto simp: sound_def)
    qed
  qed
qed

lemma restore_all_sound:
  assumes "join_all restore fs w = (es, w')" "tx_ok D C fs created w" "apart fs created"
    and "\<forall>f \<in> set fs. sd_installed f \<longrightarrow> (sd_exists f \<longrightarrow> sd_backup f \<noteq> None) \<and> base D (set created) (path_dir (sd_path f))"
  shows "sound (es \<noteq> []) w w'"
  using assms
proof (induction fs arbitrary: w es)
  case Nil
  then show ?case by (simp add: sound_def)
next
  case (Cons f fs)
  obtain es1 w1 where f: "restore f w = (es1, w1)" by fastforce
  obtain es2 w2 where j: "join_all restore fs w1 = (es2, w2)" by fastforce
  have e: "es = es1 @ es2" "w' = w2" using Cons.prems(1) f j by simp_all
  have so: "sound (es1 \<noteq> []) w w1" by (rule restore_sound [OF f Cons.prems(2,3)]) (use Cons.prems(4) in auto)
  show ?case
  proof (cases "es1 = []")
    case True
    have "tx_ok D C fs created w1" using restore_tx_ok [OF f [unfolded True] Cons.prems(2)] .
    then have "sound (es2 \<noteq> []) w1 w2" using Cons.IH [of w1 es2] j e apart_tail Cons.prems(3,4) by simp
    then show ?thesis using sound_trans [OF so, of "es2 \<noteq> []" w2] e True by simp
  next
    case False
    then show ?thesis using sound_then [OF so join_all_le [OF j restore_le] False] e by simp
  qed
qed


text \<open>Undoing adds no temporary.\<close>

lemma shrink_calls:
  "sys_install t p w = (r, w') \<Longrightarrow> set (mkeys (w_temps w')) \<subseteq> set (mkeys (w_temps w))"
  "sys_remove p w = (r2, w') \<Longrightarrow> set (mkeys (w_temps w')) \<subseteq> set (mkeys (w_temps w))"
  "sys_sync d w = (r3, w') \<Longrightarrow> set (mkeys (w_temps w')) \<subseteq> set (mkeys (w_temps w))"
  by (rule next_result_cases [of w];
      auto simp: syscall_defs may_fail_def mkeys_mdel split: if_splits option.splits fsnode.splits prod.splits)+

lemma restore_temps: "restore f w = (es, w') \<Longrightarrow> set (mkeys (w_temps w')) \<subseteq> set (mkeys (w_temps w))"
  by (auto simp: restore_def restoreExisting_def removeInstalled_def restoreBackup_def Let_def
      split: option.splits prod.splits sum.splits syserr.splits if_splits dest!: shrink_calls)

lemma restore_all_temps: "join_all restore fs w = (es, w') \<Longrightarrow> set (mkeys (w_temps w')) \<subseteq> set (mkeys (w_temps w))"
proof (induction fs arbitrary: w es)
  case (Cons f fs)
  obtain es1 w1 where f: "restore f w = (es1, w1)" by fastforce
  obtain es2 w2 where j: "join_all restore fs w1 = (es2, w2)" by fastforce
  have "join_all restore fs w1 = (es2, w')" using Cons.prems f j by simp
  then show ?case using Cons.IH restore_temps [OF f] by blast
qed simp

lemma cleanup_sound:
  "join_all remove_temporary ts w = (es, w') \<Longrightarrow>
    sound (es \<noteq> []) w w' \<and> (es = [] \<longrightarrow> set (mkeys (w_temps w')) \<subseteq> set (mkeys (w_temps w)) - set ts)"
proof (induction ts arbitrary: w es)
  case Nil
  then show ?case by (simp add: sound_def)
next
  case (Cons t ts)
  obtain r w1 where rm: "sys_remove_temp t w = (r, w1)" by fastforce
  obtain es2 w2 where j: "join_all remove_temporary ts w1 = (es2, w2)" by fastforce
  define es1 where "es1 = (if r \<noteq> Inr () \<and> r \<noteq> Inl ENotExist then [CleanupFailed] else [])"
  have "remove_temporary t w = (es1, w1)" using rm by (simp add: remove_temporary_def es1_def)
  then have e: "es = es1 @ es2" "w' = w2" using Cons.prems j by simp_all
  have so: "sound (es1 \<noteq> []) w w1" using remove_temp_sound [OF rm] by (auto simp: es1_def sound_def)
  have "set (mkeys (w_temps w1)) \<subseteq> set (mkeys (w_temps w)) - {t}" if "es1 = []"
    using that rm next_result_cases [of w] unfolding es1_def sys_remove_temp_def may_fail_def
    by (rule_tac next_result_cases [of w]) (auto simp: mkeys_mdel mhas_keys [symmetric] mhas_def split: if_splits)
  moreover have "join_all remove_temporary ts w1 = (es2, w')" using j e(2) by simp
  ultimately show ?case using Cons.IH [of w1 es2] e sound_trans [OF so, of "es2 \<noteq> []" w2] by auto
qed

text \<open>The disk is a tree, and no temporary of an earlier run is left on it.\<close>

definition tidy :: "world \<Rightarrow> bool" where
  "tidy w \<longleftrightarrow> (\<forall>q \<in> set (mkeys (w_disk w)). is_dir w (path_dir q)) \<and> w_temps w = []"

lemma tidy_parent: "tidy w \<Longrightarrow> lookup w q \<noteq> None \<Longrightarrow> base (lookup w) {} (path_dir q)"
  by (auto simp: tidy_def mhas_keys [symmetric] mhas_def lookup_def is_dir_def base_def)

lemma remove_created_sound:
  assumes "join_all remove_created (rev ds) w = (es, w')" "ordered D ds" "\<forall>d \<in> set ds. D d = None"
    and "\<forall>q. lookup w q = overlay D Map.empty ds q" "w_temps w = []" "\<forall>q. D q \<noteq> None \<longrightarrow> base D {} (path_dir q)"
  shows "sound (es \<noteq> []) w w'"
  using assms
proof (induction ds arbitrary: w es rule: rev_induct)
  case Nil
  then show ?case by (simp add: sound_def)
next
  case (snoc d ds)
  have od: "ordered D ds" "d \<notin> set ds" "base D (set ds) (path_dir d)" "d \<noteq> ''.''" using snoc.prems(2) by (simp_all add: ordered_snoc)
  have dn: "D d = None" using snoc.prems(3) by simp
  have "path_dir q \<noteq> d" if "lookup w q \<noteq> None" for q
  proof
    assume pd: "path_dir q = d"
    show False
    proof (cases "D q = None")
      case True
      then have "q \<in> set (ds @ [d])" using that snoc.prems(4) by (simp add: overlay_def split: if_splits)
      then have "base D (set ds) (path_dir q)" using od(1,3) ordered_base by auto
      then show False using pd od(2,4) dn by (simp add: base_def)
    next
      case False
      then have "base D {} d" using snoc.prems(6) pd by auto
      then show False using od(4) dn by (simp add: base_def)
    qed
  qed
  then have empty: "\<not> holds_entries w d"
    using snoc.prems(5) by (auto simp: holds_entries_def list_ex_iff mhas_keys [symmetric] mhas_def lookup_def)
  obtain es1 w1 where c: "remove_created d w = (es1, w1)" by fastforce
  obtain es2 w2 where j: "join_all remove_created (rev ds) w1 = (es2, w2)" by fastforce
  have e: "es = es1 @ es2" "w' = w2" using snoc.prems(1) c j by simp_all
  obtain r w3 where rm: "sys_remove d w = (r, w3)" by fastforce
  note so = remove_dir_sound [OF rm empty]
  have step: "sound (es1 \<noteq> []) w w1 \<and> (es1 = [] \<longrightarrow> w_temps w1 = [] \<and> (\<forall>q. lookup w1 q = overlay D Map.empty ds q))"
  proof (cases "r = Inr () \<or> r = Inl ENotExist")
    case True
    note gone = remove_none [OF rm True]
    have L3: "lookup w3 q = overlay D Map.empty ds q" for q
      using gone snoc.prems(4) dn od(2) by (simp add: overlay_def)
    have dir: "is_dir w3 (path_dir d)" using base_is_dir [OF od(3), of w3 Map.empty] snoc.prems(3) L3 by simp
    obtain z w4 where sy: "sys_sync (path_dir d) w3 = (z, w4)" by fastforce
    have "w1 = w4" "es1 \<noteq> [] \<longleftrightarrow> isl z" using c rm True sy by (auto simp: remove_created_def split: sum.splits)
    then show ?thesis using sound_trans [OF so sync_sound [OF sy dir]] sync_quiet [OF sy] same_disk_lookup [OF sync_quiet [OF sy]]
        L3 gone snoc.prems(5) by (auto simp: same_disk_def sound_def)
  next
    case False
    then have "w1 = w3" "es1 \<noteq> []" using c rm by (auto simp: remove_created_def)
    then show ?thesis using so False by simp
  qed
  show ?case
  proof (cases "es1 = []")
    case True
    then have "sound (es2 \<noteq> []) w1 w2" using snoc.IH [of w1 es2] j e step od(1) snoc.prems(3,6) by simp
    then show ?thesis using sound_trans [of "es1 \<noteq> []" w w1 "es2 \<noteq> []" w2] step e True by simp
  next
    case False
    then show ?thesis using sound_then [of es1 w w1 w2] step join_all_le [OF j remove_created_le] e by simp
  qed
qed

lemma rollback_sound:
  assumes r: "rollback tx w = (es, w')" and ok: "tx_ok D C (tx_files tx) (tx_createdOrder tx) w"
    and ts: "tx_sound D (tx_files tx) (tx_createdOrder tx) w" and ap: "apart (tx_files tx) (tx_createdOrder tx)"
    and fs: "\<forall>f \<in> set (tx_files tx). sd_installed f \<longrightarrow> fully_staged f" and D: "\<forall>q. D q \<noteq> None \<longrightarrow> base D {} (path_dir q)"
  shows "sound (es \<noteq> []) w w'"
proof -
  obtain es1 w1 es2 w2 es3 where j: "join_all restore (rev (tx_files tx)) w = (es1, w1)" "cleanupTemps tx w1 = (es2, w2)"
      "join_all remove_created (rev (tx_createdOrder tx)) w2 = (es3, w')" "es = es1 @ es2 @ es3"
    using r by (auto simp: rollback_def split: prod.splits)
  have ap1: "apart (rev (tx_files tx)) (tx_createdOrder tx)" using ap apart_cong [of "rev (tx_files tx)" "tx_files tx"] by simp
  have so1: "sound (es1 \<noteq> []) w w1"
    by (rule restore_all_sound [OF j(1) tx_ok_rev [OF ok] ap1]) (use fs ts in \<open>auto simp: fully_staged_def tx_sound_def\<close>)
  have cl: "sound (es2 \<noteq> []) w1 w2 \<and> (es2 = [] \<longrightarrow> set (mkeys (w_temps w2)) \<subseteq> set (mkeys (w_temps w1)) - set (all_temps (tx_files tx)))"
    using cleanup_sound [of "all_temps (tx_files tx)" w1 es2 w2] j(2) by (simp add: cleanupTemps_def all_temps_def)
  have le3: "sound False w2 w'" by (rule join_all_le [OF j(3)]) (rule remove_created_le)
  show ?thesis
  proof (cases "es1 = [] \<and> es2 = []")
    case False
    then show ?thesis using so1 cl le3 by (auto simp: sound_def)
  next
    case True
    have ok1: "tx_ok D C [] (tx_createdOrder tx) w1"
      using restore_all_tx_ok [of "rev (tx_files tx)" w w1] j(1) True tx_ok_rev [OF ok] by simp
    have own: "set (mkeys (w_temps w1)) \<subseteq> set (all_temps (tx_files tx))"
      using restore_all_temps [OF j(1)] ts by (auto simp: tx_sound_def own_temps_def)
    then have "set (mkeys (w_temps w2)) = {}" using cl True by (metis Diff_eq_empty_iff subset_empty subset_trans Diff_mono order_refl)
    then have "w_temps w2 = []" by (simp add: mkeys_def)
    moreover have "\<forall>q. lookup w2 q = overlay D Map.empty (tx_createdOrder tx) q"
      using tx_okD(1) [OF ok1] cleanup_disk [OF j(2)] by simp
    ultimately have "sound (es3 \<noteq> []) w2 w'"
      using ts tx_okD(4) [OF ok] D by (intro remove_created_sound [OF j(3)]) (auto simp: tx_sound_def)
    then show ?thesis using so1 cl True j(4) by (auto simp: sound_def)
  qed
qed


lemma abort_quiet:
  assumes "abort err tx w = (es, w')" "RollbackFailed \<notin> set err" "faults w = 0"
    and "tx_ok D C (tx_files tx) (tx_createdOrder tx) w" "tx_sound D (tx_files tx) (tx_createdOrder tx) w"
    and "apart (tx_files tx) (tx_createdOrder tx)" "\<forall>f \<in> set (tx_files tx). sd_installed f \<longrightarrow> fully_staged f"
    and "\<forall>q. D q \<noteq> None \<longrightarrow> base D {} (path_dir q)"
  shows "RollbackFailed \<notin> set es"
proof -
  obtain es1 w1 where rb: "rollback tx w = (es1, w1)" by fastforce
  have "sound (es1 \<noteq> []) w w1" by (rule rollback_sound [OF rb assms(4-8)])
  then have "es1 = []" using assms(3) by (auto simp: sound_def)
  then show ?thesis using assms(1,2) rb by (simp add: abort_def)
qed

section \<open>A deployment over which one call fails\<close>

lemma inspect_from_le: "inspect_from sha obs u ps as w = (r, w') \<Longrightarrow> sound False w w'"
proof (induction as arbitrary: u ps w)
  case (Cons a as)
  have comp: "inspect_components cs v = (x, v') \<Longrightarrow> sound False v v'" for cs v x v'
  proof (induction cs arbitrary: v x)
    case (Cons c cs)
    from Cons.prems show ?case
      by (auto split: prod.splits sum.splits syserr.splits fsnode.splits if_splits
          dest!: lstat_sound Cons.IH intro: sound_False_trans)
  qed (simp add: sound_def)
  have one: "inspectArtifact a v = (x, v') \<Longrightarrow> sound False v v'" for v x v'
    unfolding inspectArtifact_def inspectDeploymentPath_def
    by (auto split: prod.splits sum.splits syserr.splits fsnode.splits if_splits
        dest!: comp lstat_sound read_le intro: sound_False_trans)
  from Cons.prems show ?case
    by (auto split: prod.splits sum.splits option.splits if_splits dest!: one Cons.IH intro: sound_False_trans)
qed (simp add: sound_def)

lemma staged_apart:
  assumes p: "prepareDeployment rootDir managed artifacts = Inr ns" and i: "inspectDeployments sha obs ns w = (Inr (u, ps), w1)"
    and st: "stage ps \<lparr>tx_files = [], tx_createdOrder = []\<rparr> w1 = (es, tx, w2)"
  shows "apart (tx_files tx) (tx_createdOrder tx)"
  unfolding apart_def
proof (intro ballI conjI)
  fix f assume f: "f \<in> set (tx_files tx)"
  have sub: "sd_path ` set (tx_files tx) \<subseteq> pd_path ` set ps" using stage_paths [OF st] by simp
  then obtain q where q: "q \<in> set ps" "sd_path f = pd_path q" using f by auto
  then show "sd_path f \<notin> set (tx_createdOrder tx)" using staged_batch(6) [OF p i st] by simp
  have art: "\<exists>a \<in> set ns. pd_path q = art_path a" if "q \<in> set ps" for q
    using staged_batch(5) [OF p i st] that by (auto simp: batch_seen_def)
  obtain a where a: "a \<in> set ns" "sd_path f = art_path a" using art [OF q(1)] q(2) by auto
  have up: "path_dir (art_path a) = ''.'' \<or> path_dir (art_path a) \<in> set (above_path (art_path a))"
    using prepared_batch(2) [OF p a(1)] by (cases "art_path a") (auto simp: above_path_def path_parts_def plain_def)
  show "path_dir (sd_path f) = ''.'' \<or> path_dir (sd_path f) \<notin> sd_path ` set (tx_files tx)"
  proof (rule ccontr)
    assume not: "\<not> ?thesis"
    then obtain q2 where "q2 \<in> set ps" "path_dir (sd_path f) = pd_path q2" using sub by auto
    then obtain b where "b \<in> set ns" "path_dir (sd_path f) = art_path b" using art by metis
    then show False using not up a prepared_no_conflict [OF p _ a(1)] by metis
  qed
qed

text \<open>C20: On a disk that is a tree and holds no temporary of an earlier run, when at most one system call
  of a deployment fails, whichever it is, undoing never fails: a deployment that ends in an error other
  than a cancellation or a failed clean-up leaves every path as it found it.\<close>

theorem deployment_survives_one_fault:
  assumes d: "deployObserved sha (\<lambda>_. []) cancel rootDir managed artifacts obs w = (r, es, w')"
    and p: "prepareDeployment rootDir managed artifacts = Inr ns" and one: "faults w \<le> 1" and td: "tidy w"
  shows "RollbackFailed \<notin> set es \<and>
    (ContextErr \<notin> set es \<and> \<not> set es \<subseteq> {CleanupFailed} \<longrightarrow> lookup w' = lookup w)"
proof -
  have "RollbackFailed \<notin> set es"
  proof
    assume bad: "RollbackFailed \<in> set es"
    obtain x w1 where i: "inspectDeployments sha obs ns w = (x, w1)" by fastforce
    have le1: "sound False w w1" using inspect_from_le i by (simp add: inspectDeployments_def)
    have s1: "same_disk w w1" using inspect_from_same i by (fastforce simp: inspectDeployments_def)
    obtain u ps where x: "x = Inr (u, ps)"
    proof (cases x)
      case (Inl e)
      then have "e \<in> inspection_errors" "es = [e]" using d p i inspect_from_error by (fastforce simp: inspectDeployments_def deployObserved_def)+
      then show ?thesis using bad by (auto simp: inspection_errors_def)
    qed (use that in \<open>cases "projr x"; auto\<close>)
    note i = i [unfolded x]
    have ps: "ps \<noteq> []" using d p i bad by (auto simp: deployObserved_def)
    obtain es1 tx w2 where st: "stage ps \<lparr>tx_files = [], tx_createdOrder = []\<rparr> w1 = (es1, tx, w2)"
      by (cases "stage ps \<lparr>tx_files = [], tx_createdOrder = []\<rparr> w1")
    note t = staged_batch [OF p i st] and ap = staged_apart [OF p i st]
    have D: "\<forall>q. lookup w q \<noteq> None \<longrightarrow> base (lookup w) {} (path_dir q)" using tidy_parent [OF td] by blast
    have g: "list_all (grounded (lookup w)) ps"
      using inspect_from_grounded [of sha obs "[]" "[]" ns w u ps w1] i prepared_batch(2) [OF p] by (simp add: inspectDeployments_def)
    have ts: "tx_sound (lookup w) (tx_files tx) (tx_createdOrder tx) w2 \<and> sound (es1 \<noteq> []) w1 w2"
      using staged_sound [OF p i st] g td s1 by (simp add: tidy_def same_disk_def)
    have still: "\<forall>f \<in> set (tx_files tx). sd_installed f \<longrightarrow> fully_staged f" using t(2) by (simp add: list_all_iff)
    show False
    proof (cases "es1 = []")
      case False
      then have "abort es1 tx w2 = (es, w')" using d p i ps st by (auto simp: deployObserved_def Let_def split: prod.splits)
      moreover have "faults w2 = 0" using ts le1 one False by (auto simp: sound_def)
      moreover have "RollbackFailed \<notin> set es1" using t(3) by (auto simp: staging_errors_def)
      ultimately show False using abort_quiet [OF _ _ _ t(1) _ ap still D] ts bad by blast
    next
      case True
      obtain es2 tx2 w3 where c: "commit (\<lambda>_. []) cancel tx w2 = (es2, tx2, w3)" by (cases "commit (\<lambda>_. []) cancel tx w2")
      note k = commit_ok [OF c t(1,2)]
      have staged: "list_all fully_staged (tx_files tx)" using staged_fully [OF p i st [unfolded True]] .
      note cs = commit_sound [OF c t(1,2) _ staged ap]
      obtain es3 w4 where cl: "cleanupTemps tx2 w3 = (es3, w4)" by fastforce
      note cd = cleanup_disk [OF cl]
      have "es2 \<noteq> []" using d p i ps st True c cl cd bad by (auto simp: deployObserved_def Let_def)
      moreover have "ContextErr \<notin> set es2"
        using d p i ps st True c cl cd bad k(4)
        by (auto simp: deployObserved_def Let_def errs_is_def stopCancelled_def commit_errors_def split: if_splits)
      ultimately have "abort es2 tx2 w3 = (es, w')" "faults w3 = 0" using d p i ps st True c cs(2) ts le1 one
        by (auto simp: deployObserved_def Let_def errs_is_def sound_def split: prod.splits)
      moreover have "RollbackFailed \<notin> set es2" using k(4) by (auto simp: commit_errors_def)
      moreover have "apart (tx_files tx2) (tx_createdOrder tx2)"
        using ap k(2,5) apart_cong [of "tx_files tx2" "tx_files tx"] by (metis list.set_map)
      moreover have "\<forall>f \<in> set (tx_files tx2). sd_installed f \<longrightarrow> fully_staged f" using cs(3) ts by (auto simp: list_all_iff)
      ultimately show False using abort_quiet [of es2 tx2 w3 es w' "lookup w" "content_of ns"] k(1,5) cs(1) ts D bad by metis
    qed
  qed
  then show ?thesis using deployment_outcome [OF d p] by auto
qed


lemma demo_tidy: "tidy (demo_world bs)"
  by (simp add: tidy_def demo_world_def mkeys_def is_dir_def demo_dirs)

theorem deployment_survives_one_fault_witness:
  "lookup (snd (snd (demo_run (\<lambda>_. []) None (replicate 15 False @ [True])))) = lookup (demo_world [])"
proof -
  obtain r es w' where d: "demo_run (\<lambda>_. []) None (replicate 15 False @ [True]) = (r, es, w')"
    by (cases "demo_run (\<lambda>_. []) None (replicate 15 False @ [True])")
  have es: "es = [InstallFailed]" using demo_fails d by simp
  have one: "faults (demo_world (replicate 15 False @ [True])) \<le> 1" by code_simp
  show ?thesis
    using deployment_survives_one_fault [OF d [unfolded demo_run_def] demo_prepared one demo_tidy] es d demo_lookup
    by simp
qed


text \<open>
  Three failures can lose a file. When the rename of a backup fails, the installed file is removed before the
  rename is tried again; when that fails too, the clean-up that follows removes the backup, which by then is
  the only copy of what the user had.
\<close>

lemma rollback_can_lose_the_original:
  "let (r, es, w') = demo_run (\<lambda>_. []) None (replicate 15 False @ [True, True, False, True])
   in es = [InstallFailed, RollbackFailed] \<and> lookup w' ''a.md'' = None \<and> w_temps w' = []"
  by code_simp

end
