(* ===== verification/Setup_Own.thy ===== *)
theory Setup_Own
  imports Setup_Disk
begin

text \<open>
  Ownership of deployed files: the manifest and its entries, the join that keeps recorded paths inside the
  root, and the state of a managed file (\<open>takt/setup/ownership.go\<close>); the restore of what was there before a
  file was taken over (\<open>restore.go\<close>); and what uninstalling one entry means
  (\<open>operations.go\<close>, \<open>uninstall_retention.go\<close>). A record file is represented by the value it encodes, and
  SHA-256 is an argument.
\<close>

section \<open>The manifest\<close>

definition TargetOpenCode :: string where
  "TargetOpenCode = ''opencode''"

definition TargetSkills :: string where
  "TargetSkills = ''skills''"

definition ownershipTargets :: "string list" where
  "ownershipTargets = [TargetOpenCode, TargetSkills]"

definition OwnershipManifestVersion :: int where
  "OwnershipManifestVersion = 1"

record OwnershipEntry =
  oe_path :: string
  oe_sha :: string
  oe_mode :: nat
  oe_preExisting :: bool
  oe_prior :: string
  oe_backup :: string
  oe_targets :: "string list"

record OwnershipManifest =
  om_version :: int
  om_entries :: "(string, OwnershipEntry) gomap"

text \<open>What the manifest file holds: nothing, bytes that do not parse, or a manifest.\<close>

datatype stored = NoRecord | Malformed | Stored OwnershipManifest

datatype own_error =
    UnknownTarget | NoTargets | NotExist | BadManifest | BadVersion | EscapesRoot | BadPath | NoContent | NoMode | BadPrior
  | DuplicateTarget | IOFailed | NotRegularFile | BackupMismatch | RestoreConflict string | RootMissing | CancelledErr

definition is_hex :: "char \<Rightarrow> bool" where
  "is_hex c = (let n = of_char c :: nat in (48 \<le> n \<and> n \<le> 57) \<or> (65 \<le> n \<and> n \<le> 70) \<or> (97 \<le> n \<and> n \<le> 102))"

definition valid_digest :: "string \<Rightarrow> bool" where
  "valid_digest s \<longleftrightarrow> length s = 64 \<and> list_all is_hex s"

definition lower_char :: "char \<Rightarrow> char" where
  "lower_char c = (let n = of_char c :: nat in if 65 \<le> n \<and> n \<le> 90 then char_of (n + 32) else c)"

definition OwnershipTargetFor :: "string \<Rightarrow> string option" where
  "OwnershipTargetFor ident = (if ident \<in> set ownershipTargets then Some ident else None)"

definition setPriorHash :: "OwnershipEntry \<Rightarrow> bool \<Rightarrow> string \<Rightarrow> own_error + OwnershipEntry" where
  "setPriorHash entry preExisting prior =
    (if prior = [] then (if preExisting then Inl BadPrior else Inr entry)
     else if \<not> valid_digest prior then Inl BadPrior
     else Inr (entry\<lparr>oe_prior := prior\<rparr>))"

fun check_targets :: "string list \<Rightarrow> string list \<Rightarrow> own_error + string list" where
  "check_targets seen [] = Inr seen"
| "check_targets seen (t # ts) =
    (if t \<notin> set ownershipTargets then Inl UnknownTarget
     else if t \<in> set seen then Inl DuplicateTarget else check_targets (seen @ [t]) ts)"

definition setOwnershipTargets :: "OwnershipEntry \<Rightarrow> string list \<Rightarrow> own_error + OwnershipEntry" where
  "setOwnershipTargets entry targets =
    and_then (check_targets [] targets) (\<lambda>ts. if ts = [] then Inl NoTargets else Inr (entry\<lparr>oe_targets := sort ts\<rparr>))"

definition NewOwnershipEntry :: "(string \<Rightarrow> string) \<Rightarrow> string \<Rightarrow> string \<Rightarrow> nat \<Rightarrow> bool \<Rightarrow> string \<Rightarrow> string \<Rightarrow> string list \<Rightarrow>
    own_error + OwnershipEntry" where
  "NewOwnershipEntry sha managedPath content mode preExisting prior backup targets =
    (case NormalizeRelPath managedPath of
       None \<Rightarrow> Inl BadPath
     | Some clean \<Rightarrow>
         if content = [] then Inl NoContent
         else if mode = 0 then Inl NoMode
         else and_then (setPriorHash \<lparr>oe_path = clean, oe_sha = sha content, oe_mode = mode mod 512,
             oe_preExisting = preExisting, oe_prior = [], oe_backup = backup, oe_targets = []\<rparr> preExisting prior)
           (\<lambda>entry. setOwnershipTargets entry targets))"

definition NewOwnershipManifest :: OwnershipManifest where
  "NewOwnershipManifest = \<lparr>om_version = OwnershipManifestVersion, om_entries = []\<rparr>"

definition Add :: "OwnershipManifest \<Rightarrow> OwnershipEntry list \<Rightarrow> own_error + OwnershipManifest" where
  "Add m entries =
    (if om_version m \<noteq> OwnershipManifestVersion then Inl BadVersion
     else Inr (m\<lparr>om_entries := fold (\<lambda>e es. mput (oe_path e) e es) entries (om_entries m)\<rparr>))"

section \<open>Paths inside the root\<close>

text \<open>
  A directory above the path that is a link to something leads outside; one that leads to nothing does
  not resolve and is passed over.
\<close>

definition leads_out :: "world \<Rightarrow> string \<Rightarrow> bool" where
  "leads_out w d = (case lookup w d of Some (NLink (Some _)) \<Rightarrow> True | _ \<Rightarrow> False)"

definition verifyNoSymlinkEscape :: "world \<Rightarrow> string \<Rightarrow> bool" where
  "verifyNoSymlinkEscape w rel = (\<not> list_ex (leads_out w) (dir_chain (length rel) (path_dir rel)))"

definition SafeJoin :: "world \<Rightarrow> string \<Rightarrow> string option" where
  "SafeJoin w rel =
    (let clean = path_clean rel
     in if blank rel \<or> has_prefix rel ''/'' \<or> ''..'' \<in> set (path_parts clean) \<or> \<not> verifyNoSymlinkEscape w clean
        then None else Some clean)"

definition load_entry :: "OwnershipEntry \<Rightarrow> OwnershipEntry" where
  "load_entry e = (let lower = map lower_char (oe_sha e) in e\<lparr>oe_sha := if valid_digest lower then lower else []\<rparr>)"

definition LoadOwnershipManifest :: "stored \<Rightarrow> world \<Rightarrow> own_error + OwnershipManifest" where
  "LoadOwnershipManifest st w =
    (case st of
       NoRecord \<Rightarrow> Inl NotExist
     | Malformed \<Rightarrow> Inl BadManifest
     | Stored m \<Rightarrow>
         if om_version m \<noteq> OwnershipManifestVersion then Inl BadVersion
         else if list_ex (\<lambda>p. SafeJoin w p = None) (mkeys (om_entries m)) then Inl EscapesRoot
         else Inr (m\<lparr>om_entries := map (\<lambda>(p, e). (p, load_entry e)) (om_entries m)\<rparr>))"

text \<open>\<open>saveRecord\<close>: a temporary beside the record, a rename over it, and the directory synced.\<close>

definition Save :: "OwnershipManifest \<Rightarrow> stored \<Rightarrow> world \<Rightarrow> bool \<times> stored \<times> world" where
  "Save m st w =
    (case next_result w of (failed1, w1) \<Rightarrow>
       if failed1 then (False, st, w1)
       else case next_result w1 of (failed2, w2) \<Rightarrow>
         if failed2 then (False, st, w2)
         else case next_result w2 of (failed3, w3) \<Rightarrow> (\<not> failed3, Stored m, w3))"

section \<open>The state of a managed file\<close>

datatype managedState = managedMissing | managedUnchanged | managedChanged | managedNotRegular

type_synonym 'a owning = "world \<Rightarrow> (own_error + 'a) \<times> world"

definition managedFileState :: "(string \<Rightarrow> string) \<Rightarrow> string \<Rightarrow> OwnershipEntry \<Rightarrow> (managedState \<times> string option) owning" where
  "managedFileState sha destination entry w =
    (case (if destination = ''.'' then (Inr NDir, w) else sys_lstat destination w) of
       (Inl ENotExist, w1) \<Rightarrow> (Inr (managedMissing, None), w1)
     | (Inl _, w1) \<Rightarrow> (Inl IOFailed, w1)
     | (Inr (NFile _ _), w1) \<Rightarrow>
         (case sys_read destination w1 of
            (Inl _, w2) \<Rightarrow> (Inl IOFailed, w2)
          | (Inr current, w2) \<Rightarrow>
              (Inr (if oe_sha entry \<noteq> [] \<and> sha current = oe_sha entry then managedUnchanged else managedChanged,
                Some current), w2))
     | (Inr _, w1) \<Rightarrow> (Inr (managedNotRegular, None), w1))"

definition managedRegularState :: "(string \<Rightarrow> string) \<Rightarrow> string \<Rightarrow> OwnershipEntry \<Rightarrow> (managedState \<times> string option) owning" where
  "managedRegularState sha destination entry w =
    (case managedFileState sha destination entry w of
       (Inr (state, current), w1) \<Rightarrow>
         if state = managedNotRegular then (Inl NotRegularFile, w1) else (Inr (state, current), w1)
     | (Inl e, w1) \<Rightarrow> (Inl e, w1))"

section \<open>Restoring what was there before\<close>

datatype restoreDisposition = restoreEligible | restoreNoop | restoreConflicted

datatype conflictReason = ConflictUnverifiedSinceInstall | ConflictDestinationType

record restorePlan =
  rp_path :: string
  rp_destination :: string
  rp_content :: string
  rp_replacementHash :: string
  rp_currentHash :: string
  rp_mode :: nat
  rp_disposition :: restoreDisposition
  rp_reason :: "conflictReason option"

record FileConflict =
  fc_path :: string
  fc_currentHash :: string
  fc_replacementHash :: string
  fc_reason :: "conflictReason option"

record RestoreResult =
  rr_restored :: "string list"
  rr_preserved :: "string list"
  rr_conflicts :: "FileConflict list"
  rr_incomplete :: "string list"

definition restoreMode :: "nat \<Rightarrow> nat" where
  "restoreMode mode = (if mode = 0 then 420 else mode)"

definition normalizeRestorePaths :: "OwnershipEntry \<Rightarrow> own_error + string \<times> string" where
  "normalizeRestorePaths entry =
    (case NormalizeRelPath (oe_path entry) of
       None \<Rightarrow> Inl BadPath
     | Some p \<Rightarrow> (case NormalizeRelPath (oe_backup entry) of None \<Rightarrow> Inl BadPath | Some b \<Rightarrow> Inr (p, b)))"

text \<open>\<open>filemerge.ReadRegularFile\<close> refuses a link; its bound on the size is not part of the model.\<close>

definition ReadRegularFile :: "string \<Rightarrow> string owning" where
  "ReadRegularFile p w =
    (case sys_lstat p w of
       (Inl _, w1) \<Rightarrow> (Inl IOFailed, w1)
     | (Inr (NLink _), w1) \<Rightarrow> (Inl IOFailed, w1)
     | (Inr _, w1) \<Rightarrow> (case sys_read p w1 of (Inl _, w2) \<Rightarrow> (Inl IOFailed, w2) | (Inr c, w2) \<Rightarrow> (Inr c, w2)))"

definition loadRestorePlan :: "(string \<Rightarrow> string) \<Rightarrow> OwnershipEntry \<Rightarrow> restorePlan owning" where
  "loadRestorePlan sha entry w =
    (case normalizeRestorePaths entry of
       Inl e \<Rightarrow> (Inl e, w)
     | Inr (cleanPath, cleanBackup) \<Rightarrow>
         (case SafeJoin w cleanBackup of
            None \<Rightarrow> (Inl EscapesRoot, w)
          | Some backupSrc \<Rightarrow>
              (case ReadRegularFile backupSrc w of
                 (Inl e, w1) \<Rightarrow> (Inl e, w1)
               | (Inr content, w1) \<Rightarrow>
                   (case SafeJoin w1 cleanPath of
                      None \<Rightarrow> (Inl EscapesRoot, w1)
                    | Some destination \<Rightarrow>
                        (Inr \<lparr>rp_path = cleanPath, rp_destination = destination, rp_content = content,
                           rp_replacementHash = sha content, rp_currentHash = [], rp_mode = restoreMode (oe_mode entry),
                           rp_disposition = restoreEligible, rp_reason = None\<rparr>, w1)))))"

definition classifyRestoreEntry :: "(string \<Rightarrow> string) \<Rightarrow> OwnershipEntry \<Rightarrow> restorePlan owning" where
  "classifyRestoreEntry sha entry w =
    (case loadRestorePlan sha entry w of
       (Inl e, w1) \<Rightarrow> (Inl e, w1)
     | (Inr plan, w1) \<Rightarrow>
         (case managedFileState sha (rp_destination plan) entry w1 of
            (Inl e, w2) \<Rightarrow> (Inl e, w2)
          | (Inr (state, current), w2) \<Rightarrow>
              if rp_replacementHash plan \<noteq> oe_prior entry then (Inl BackupMismatch, w2)
              else
                let plan1 = (case current of None \<Rightarrow> plan | Some c \<Rightarrow> plan\<lparr>rp_currentHash := sha c\<rparr>)
                in (Inr (if state = managedNotRegular
                         then plan1\<lparr>rp_disposition := restoreConflicted, rp_reason := Some ConflictDestinationType\<rparr>
                         else if current \<noteq> None \<and> rp_currentHash plan1 = rp_replacementHash plan1
                         then plan1\<lparr>rp_disposition := restoreNoop\<rparr>
                         else if state = managedChanged
                         then plan1\<lparr>rp_disposition := restoreConflicted, rp_reason := Some ConflictUnverifiedSinceInstall\<rparr>
                         else plan1\<lparr>rp_disposition := restoreEligible\<rparr>), w2)))"

text \<open>\<open>os.MkdirAll\<close>: the missing directories from the root downwards.\<close>

fun mkdir_each :: "string list \<Rightarrow> unit syscall" where
  "mkdir_each [] w = (Inr (), w)"
| "mkdir_each (d # ds) w =
    (if lookup w d = Some NDir then mkdir_each ds w
     else case sys_mkdir d w of (Inl e, w1) \<Rightarrow> (Inl e, w1) | (Inr _, w1) \<Rightarrow> mkdir_each ds w1)"

definition sys_mkdir_all :: "string \<Rightarrow> unit syscall" where
  "sys_mkdir_all d w = (if d = ''.'' then (Inr (), w) else mkdir_each (components d) w)"

definition applyRestorePlan :: "restorePlan \<Rightarrow> unit owning" where
  "applyRestorePlan plan w =
    (let directory = path_dir (rp_destination plan)
     in case sys_mkdir_all directory w of
       (Inl _, w1) \<Rightarrow> (Inl IOFailed, w1)
     | (Inr _, w1) \<Rightarrow>
         (case sys_stage directory (rp_content plan) (rp_mode plan) w1 of
            (Inl _, w2) \<Rightarrow> (Inl IOFailed, w2)
          | (Inr t, w2) \<Rightarrow>
              (case sys_install t (rp_destination plan) w2 of
                 (Inl _, w3) \<Rightarrow> (Inl IOFailed, snd (sys_remove_temp t w3))
               | (Inr _, w3) \<Rightarrow>
                   (case sys_sync directory w3 of (Inl _, w4) \<Rightarrow> (Inl IOFailed, w4) | (Inr _, w4) \<Rightarrow> (Inr (), w4)))))"

definition restoreEntry :: "(string \<Rightarrow> string) \<Rightarrow> OwnershipEntry \<Rightarrow> unit owning" where
  "restoreEntry sha entry w =
    (case classifyRestoreEntry sha entry w of
       (Inl e, w1) \<Rightarrow> (Inl e, w1)
     | (Inr plan, w1) \<Rightarrow>
         (case rp_disposition plan of
            restoreConflicted \<Rightarrow> (Inl (RestoreConflict (rp_path plan)), w1)
          | restoreEligible \<Rightarrow> applyRestorePlan plan w1
          | restoreNoop \<Rightarrow> (Inr (), w1)))"

definition restore_one :: "(string \<Rightarrow> string) \<Rightarrow> OwnershipEntry \<Rightarrow> RestoreResult \<Rightarrow> world \<Rightarrow>
    RestoreResult \<times> own_error list \<times> world" where
  "restore_one sha entry result w =
    (if oe_backup entry = [] then (result, [], w)
     else case classifyRestoreEntry sha entry w of
       (Inl e, w1) \<Rightarrow> (result\<lparr>rr_incomplete := rr_incomplete result @ [oe_path entry]\<rparr>, [e], w1)
     | (Inr plan, w1) \<Rightarrow>
         (case rp_disposition plan of
            restoreNoop \<Rightarrow> (result\<lparr>rr_preserved := rr_preserved result @ [rp_path plan]\<rparr>, [], w1)
          | restoreEligible \<Rightarrow>
              (case applyRestorePlan plan w1 of
                 (Inl e, w2) \<Rightarrow> (result\<lparr>rr_incomplete := rr_incomplete result @ [rp_path plan]\<rparr>, [e], w2)
               | (Inr _, w2) \<Rightarrow> (result\<lparr>rr_restored := rr_restored result @ [rp_path plan]\<rparr>, [], w2))
          | restoreConflicted \<Rightarrow>
              (result\<lparr>rr_conflicts := rr_conflicts result @ [\<lparr>fc_path = rp_path plan, fc_currentHash = rp_currentHash plan,
                 fc_replacementHash = rp_replacementHash plan, fc_reason = rp_reason plan\<rparr>]\<rparr>, [], w1)))"

fun restore_each :: "(string \<Rightarrow> string) \<Rightarrow> OwnershipEntry list \<Rightarrow> RestoreResult \<Rightarrow> world \<Rightarrow>
    RestoreResult \<times> own_error list \<times> world" where
  "restore_each sha [] result w = (result, [], w)"
| "restore_each sha (entry # entries) result w =
    (case restore_one sha entry result w of
       (result1, es1, w1) \<Rightarrow>
         (case restore_each sha entries result1 w1 of (result2, es2, w2) \<Rightarrow> (result2, es1 @ es2, w2)))"

text \<open>The entries in the order of their paths.\<close>

definition sortedEntryPaths :: "OwnershipManifest \<Rightarrow> string list" where
  "sortedEntryPaths m = sorted_keys (om_entries m)"

definition zero_entry :: OwnershipEntry where
  "zero_entry = \<lparr>oe_path = [], oe_sha = [], oe_mode = 0, oe_preExisting = False, oe_prior = [], oe_backup = [], oe_targets = []\<rparr>"

definition RestoreFiles :: "(string \<Rightarrow> string) \<Rightarrow> OwnershipManifest \<Rightarrow> world \<Rightarrow> RestoreResult \<times> own_error list \<times> world" where
  "RestoreFiles sha m w =
    restore_each sha (map (mget zero_entry (om_entries m)) (sortedEntryPaths m))
      \<lparr>rr_restored = [], rr_preserved = [], rr_conflicts = [], rr_incomplete = []\<rparr> w"

end
