(* ===== verification/Setup_Uninstall.thy ===== *)
theory Setup_Uninstall
  imports Setup_Own
begin

text \<open>
  Uninstalling (\<open>takt/setup/operations.go\<close>) and its preview: the targets and entries it selects, what it
  does with each entry, the staging of removals, and the manifest it leaves.
\<close>

section \<open>The plan\<close>

record UninstallResult =
  ur_removed :: "string list"
  ur_preserved :: "string list"
  ur_restored :: "string list"
  ur_notApplied :: "string list"
  ur_reasons :: "(string, string) gomap"

definition empty_uninstall :: UninstallResult where
  "empty_uninstall = \<lparr>ur_removed = [], ur_preserved = [], ur_restored = [], ur_notApplied = [], ur_reasons = []\<rparr>"

datatype uninstallAction = actionKeep | actionPreserve | actionRemove

record uninstallPlanEntry =
  up_path :: string
  up_action :: uninstallAction
  up_entry :: OwnershipEntry
  up_remaining :: "string list"

fun select_targets :: "string list \<Rightarrow> string list \<Rightarrow> own_error + string list" where
  "select_targets selected [] = (if selected = [] then Inl NoTargets else Inr selected)"
| "select_targets selected (t # ts) =
    (if t \<notin> set ownershipTargets then Inl UnknownTarget
     else select_targets (if t \<in> set selected then selected else selected @ [t]) ts)"

definition selectOwnershipTargets :: "string list \<Rightarrow> own_error + string list" where
  "selectOwnershipTargets = select_targets []"

definition keepSharedSkills :: "OwnershipManifest \<Rightarrow> string list \<Rightarrow> string list" where
  "keepSharedSkills m selected =
    (if TargetSkills \<in> set selected \<and>
        list_ex (\<lambda>(_, e). list_ex (\<lambda>owner. owner \<noteq> TargetSkills \<and> owner \<notin> set selected) (oe_targets e)) (om_entries m)
     then removeAll TargetSkills selected else selected)"

definition plan_entry :: "string list \<Rightarrow> string \<Rightarrow> OwnershipEntry \<Rightarrow> uninstallPlanEntry" where
  "plan_entry selected p e =
    (let remaining = filter (\<lambda>owner. owner \<notin> set selected) (oe_targets e)
     in \<lparr>up_path = p,
         up_action = (if remaining \<noteq> [] then actionKeep else if oe_preExisting e then actionPreserve else actionRemove),
         up_entry = e, up_remaining = sort remaining\<rparr>)"

definition planUninstall :: "OwnershipManifest \<Rightarrow> string list \<Rightarrow> uninstallPlanEntry list" where
  "planUninstall m selected = map (\<lambda>p. plan_entry selected p (mget zero_entry (om_entries m) p)) (sortedEntryPaths m)"

section \<open>One entry\<close>

datatype removalOutcome = removalMissing | removalEdited | removalClean

definition classifyRemoval :: "(string \<Rightarrow> string) \<Rightarrow> string \<Rightarrow> OwnershipEntry \<Rightarrow> removalOutcome owning" where
  "classifyRemoval sha path entry w =
    (case SafeJoin w path of
       None \<Rightarrow> (Inl EscapesRoot, w)
     | Some original \<Rightarrow>
         (case managedRegularState sha original entry w of
            (Inl e, w1) \<Rightarrow> (Inl e, w1)
          | (Inr (state, _), w1) \<Rightarrow>
              (Inr (case state of managedMissing \<Rightarrow> removalMissing | managedUnchanged \<Rightarrow> removalClean | _ \<Rightarrow> removalEdited), w1)))"

text \<open>\<open>os.Stat\<close> of the backup: it follows a link.\<close>

definition sys_stat :: "string \<Rightarrow> unit syscall" where
  "sys_stat p = may_fail (\<lambda>w. if p = ''.'' then (Inr (), w) else case lookup w p of
     None \<Rightarrow> (Inl ENotExist, w) | Some (NLink None) \<Rightarrow> (Inl ENotExist, w) | Some _ \<Rightarrow> (Inr (), w))"

definition restorablePreExisting :: "(string \<Rightarrow> string) \<Rightarrow> OwnershipEntry \<Rightarrow> world \<Rightarrow> bool \<times> world" where
  "restorablePreExisting sha entry w =
    (if oe_backup entry = [] then (False, w)
     else case SafeJoin w (oe_backup entry) of
       None \<Rightarrow> (False, w)
     | Some backup \<Rightarrow>
         (case sys_stat backup w of
            (Inl _, w1) \<Rightarrow> (False, w1)
          | (Inr _, w1) \<Rightarrow>
              (case classifyRemoval sha (oe_path entry) entry w1 of
                 (Inr outcome, w2) \<Rightarrow> (outcome = removalClean, w2)
               | (Inl _, w2) \<Rightarrow> (False, w2))))"

section \<open>The preview\<close>

definition previewUninstallItem :: "(string \<Rightarrow> string) \<Rightarrow> uninstallPlanEntry \<Rightarrow> UninstallResult \<Rightarrow> world \<Rightarrow>
    own_error option \<times> UninstallResult \<times> world" where
  "previewUninstallItem sha item result w =
    (if up_action item = actionPreserve then
       (case restorablePreExisting sha (up_entry item) w of
          (True, w1) \<Rightarrow> (None, result\<lparr>ur_restored := ur_restored result @ [up_path item]\<rparr>, w1)
        | (False, w1) \<Rightarrow>
            (case classifyRemoval sha (up_path item) (up_entry item) w1 of
               (r, w2) \<Rightarrow>
                 (None, result\<lparr>ur_preserved := ur_preserved result @ [up_path item],
                    ur_reasons := mput (up_path item)
                      (if r = Inr removalMissing then ''pre-existing'' else ''takt-additions'') (ur_reasons result)\<rparr>, w2)))
     else
       (case classifyRemoval sha (up_path item) (up_entry item) w of
          (Inl e, w1) \<Rightarrow> (Some e, result, w1)
        | (Inr outcome, w1) \<Rightarrow>
            if outcome = removalEdited
            then (None, result\<lparr>ur_preserved := ur_preserved result @ [up_path item],
                    ur_reasons := mput (up_path item) ''user-edited'' (ur_reasons result)\<rparr>, w1)
            else (None, result\<lparr>ur_removed := ur_removed result @ [up_path item]\<rparr>, w1)))"

fun preview_items :: "(string \<Rightarrow> string) \<Rightarrow> uninstallPlanEntry list \<Rightarrow> UninstallResult \<Rightarrow> world \<Rightarrow>
    own_error option \<times> UninstallResult \<times> world" where
  "preview_items sha [] result w = (None, result, w)"
| "preview_items sha (item # items) result w =
    (case previewUninstallItem sha item result w of
       (Some e, result1, w1) \<Rightarrow> (Some e, result1, w1)
     | (None, result1, w1) \<Rightarrow> preview_items sha items result1 w1)"

definition PreviewUninstall :: "(string \<Rightarrow> string) \<Rightarrow> string \<Rightarrow> string list \<Rightarrow> stored \<Rightarrow> world \<Rightarrow>
    own_error option \<times> UninstallResult \<times> world" where
  "PreviewUninstall sha rootDir targets st w =
    (if blank rootDir then (Some RootMissing, empty_uninstall, w)
     else case selectOwnershipTargets targets of
       Inl e \<Rightarrow> (Some e, empty_uninstall, w)
     | Inr selected \<Rightarrow>
         (case LoadOwnershipManifest st w of
            Inl e \<Rightarrow> (if e = NotExist then None else Some e, empty_uninstall, w)
          | Inr m \<Rightarrow> preview_items sha (planUninstall m (keepSharedSkills m selected)) empty_uninstall w))"

section \<open>Staging removals\<close>

definition staging_dir :: string where
  "staging_dir = ''.takt-uninstall-staging''"

record stagedFile =
  sf_original :: string
  sf_staged :: string

definition beneath :: "string \<Rightarrow> string \<Rightarrow> bool" where
  "beneath dir p \<longleftrightarrow> p = dir \<or> has_prefix p (dir @ ''/'')"

text \<open>\<open>os.RemoveAll\<close>, its error ignored: a failure is taken to remove nothing.\<close>

definition sys_remove_all :: "string \<Rightarrow> world \<Rightarrow> world" where
  "sys_remove_all dir w =
    (case next_result w of (failed, w1) \<Rightarrow>
       if failed then w1 else w1\<lparr>w_disk := filter (\<lambda>(p, _). \<not> beneath dir p) (w_disk w1)\<rparr>)"

definition removeStagingDir :: "world \<Rightarrow> world" where
  "removeStagingDir = sys_remove_all staging_dir"

definition stageForRemoval :: "string \<Rightarrow> string \<Rightarrow> string owning" where
  "stageForRemoval original rel w =
    (case SafeJoin w (path_join staging_dir rel) of
       None \<Rightarrow> (Inl EscapesRoot, w)
     | Some dst \<Rightarrow>
         (case sys_mkdir_all (path_dir dst) w of
            (Inl _, w1) \<Rightarrow> (Inl IOFailed, w1)
          | (Inr _, w1) \<Rightarrow>
              (case sys_rename original dst w1 of (Inl _, w2) \<Rightarrow> (Inl IOFailed, w2) | (Inr _, w2) \<Rightarrow> (Inr dst, w2))))"

record uninstalling =
  un_manifest :: OwnershipManifest
  un_result :: UninstallResult
  un_staged :: "stagedFile list"

definition drop_entry :: "string \<Rightarrow> OwnershipManifest \<Rightarrow> OwnershipManifest" where
  "drop_entry p m = m\<lparr>om_entries := mdel p (om_entries m)\<rparr>"

definition stageRemoval :: "(string \<Rightarrow> string) \<Rightarrow> uninstallPlanEntry \<Rightarrow> uninstalling \<Rightarrow> world \<Rightarrow> own_error option \<times> uninstalling \<times> world" where
  "stageRemoval sha item u w =
    (case classifyRemoval sha (up_path item) (up_entry item) w of
       (Inl e, w1) \<Rightarrow> (Some e, u, w1)
     | (Inr removalMissing, w1) \<Rightarrow>
         (None, u\<lparr>un_manifest := drop_entry (up_path item) (un_manifest u),
            un_result := (un_result u)\<lparr>ur_removed := ur_removed (un_result u) @ [up_path item]\<rparr>\<rparr>, w1)
     | (Inr removalEdited, w1) \<Rightarrow>
         (None, u\<lparr>un_result := (un_result u)\<lparr>ur_preserved := ur_preserved (un_result u) @ [up_path item]\<rparr>\<rparr>, w1)
     | (Inr removalClean, w1) \<Rightarrow>
         (case SafeJoin w1 (up_path item) of
            None \<Rightarrow> (Some EscapesRoot, u, w1)
          | Some original \<Rightarrow>
              (case stageForRemoval original (up_path item) w1 of
                 (Inl e, w2) \<Rightarrow> (Some e, u, w2)
               | (Inr dst, w2) \<Rightarrow>
                   (None, u\<lparr>un_staged := un_staged u @ [\<lparr>sf_original = original, sf_staged = dst\<rparr>],
                      un_manifest := drop_entry (up_path item) (un_manifest u),
                      un_result := (un_result u)\<lparr>ur_removed := ur_removed (un_result u) @ [up_path item]\<rparr>\<rparr>, w2))))"

definition applyUninstallItem :: "(string \<Rightarrow> string) \<Rightarrow> uninstallPlanEntry \<Rightarrow> uninstalling \<Rightarrow> world \<Rightarrow>
    (own_error + bool) \<times> uninstalling \<times> world" where
  "applyUninstallItem sha item u w =
    (case up_action item of
       actionKeep \<Rightarrow>
         (Inr False, u\<lparr>un_manifest := (un_manifest u)\<lparr>om_entries :=
            mput (up_path item) ((up_entry item)\<lparr>oe_targets := up_remaining item\<rparr>) (om_entries (un_manifest u))\<rparr>\<rparr>, w)
     | actionPreserve \<Rightarrow>
         (case restorablePreExisting sha (up_entry item) w of
            (shouldRestore, w1) \<Rightarrow>
              let u1 = (if shouldRestore then u
                        else u\<lparr>un_result := (un_result u)\<lparr>ur_preserved := ur_preserved (un_result u) @ [up_path item]\<rparr>\<rparr>)
              in (Inr shouldRestore, u1\<lparr>un_manifest := drop_entry (up_path item) (un_manifest u1)\<rparr>, w1))
     | actionRemove \<Rightarrow>
         (case stageRemoval sha item u w of
            (Some e, u1, w1) \<Rightarrow> (Inl e, u1, w1)
          | (None, u1, w1) \<Rightarrow> (Inr False, u1, w1)))"

section \<open>The whole plan\<close>

text \<open>The context is cancelled from the given entry on.\<close>

fun uninstall_items :: "(string \<Rightarrow> string) \<Rightarrow> nat option \<Rightarrow> nat \<Rightarrow> uninstallPlanEntry list \<Rightarrow> OwnershipEntry list \<Rightarrow> uninstalling \<Rightarrow>
    world \<Rightarrow> (own_error + OwnershipEntry list) \<times> uninstalling \<times> world" where
  "uninstall_items sha cancel i [] restores u w = (Inr restores, u, w)"
| "uninstall_items sha cancel i (item # items) restores u w =
    (if (case cancel of None \<Rightarrow> False | Some c \<Rightarrow> c \<le> i) then
       (Inr restores, u\<lparr>un_result := (un_result u)\<lparr>ur_notApplied := ur_notApplied (un_result u) @ map up_path (item # items)\<rparr>\<rparr>, w)
     else case applyUninstallItem sha item u w of
       (Inl e, u1, w1) \<Rightarrow> (Inl e, u1, w1)
     | (Inr again, u1, w1) \<Rightarrow>
         uninstall_items sha cancel (Suc i) items (if again then restores @ [up_entry item] else restores) u1 w1)"

fun uninstall_restores :: "(string \<Rightarrow> string) \<Rightarrow> OwnershipEntry list \<Rightarrow> UninstallResult \<Rightarrow> world \<Rightarrow>
    own_error option \<times> UninstallResult \<times> world" where
  "uninstall_restores sha [] result w = (None, result, w)"
| "uninstall_restores sha (entry # entries) result w =
    (case restoreEntry sha entry w of
       (Inl e, w1) \<Rightarrow> (Some e, result, w1)
     | (Inr _, w1) \<Rightarrow> uninstall_restores sha entries (result\<lparr>ur_restored := ur_restored result @ [oe_path entry]\<rparr>) w1)"

text \<open>The rollback of the staged files, the errors of the renames ignored.\<close>

fun unstage :: "stagedFile list \<Rightarrow> world \<Rightarrow> world" where
  "unstage [] w = w"
| "unstage (s # ss) w = unstage ss (snd (sys_rename (sf_staged s) (sf_original s) w))"

text \<open>Empty directories upwards; the walk ends at the root after at most one step for each character.\<close>

fun prune_dirs :: "string list \<Rightarrow> world \<Rightarrow> world" where
  "prune_dirs [] w = w"
| "prune_dirs (d # ds) w = (case sys_remove d w of (Inl _, w1) \<Rightarrow> w1 | (Inr _, w1) \<Rightarrow> prune_dirs ds w1)"

definition pruneEmptyDirs :: "string \<Rightarrow> world \<Rightarrow> world" where
  "pruneEmptyDirs original = prune_dirs (dir_chain (length original) (path_dir original))"

fun purge :: "stagedFile list \<Rightarrow> world \<Rightarrow> world" where
  "purge [] w = w"
| "purge (s # ss) w = purge ss (pruneEmptyDirs (sf_original s) (snd (sys_remove (sf_staged s) w)))"

definition undo_uninstall :: "uninstalling \<Rightarrow> world \<Rightarrow> world" where
  "undo_uninstall u w = removeStagingDir (unstage (un_staged u) w)"

definition applyUninstallPlan :: "(string \<Rightarrow> string) \<Rightarrow> nat option \<Rightarrow> OwnershipManifest \<Rightarrow> uninstallPlanEntry list \<Rightarrow> world \<Rightarrow>
    (own_error + uninstalling) \<times> world" where
  "applyUninstallPlan sha cancel m plan w =
    (case uninstall_items sha cancel 0 plan [] \<lparr>un_manifest = m, un_result = empty_uninstall, un_staged = []\<rparr> w of
       (Inl e, u, w1) \<Rightarrow> (Inl e, undo_uninstall u w1)
     | (Inr restores, u, w1) \<Rightarrow>
         (case uninstall_restores sha restores (un_result u) w1 of
            (Some e, _, w2) \<Rightarrow> (Inl e, undo_uninstall u w2)
          | (None, result, w2) \<Rightarrow> (Inr (u\<lparr>un_result := result\<rparr>), removeStagingDir (purge (un_staged u) w2))))"

definition finishUninstall :: "OwnershipManifest \<Rightarrow> UninstallResult \<Rightarrow> stored \<Rightarrow> world \<Rightarrow>
    own_error option \<times> UninstallResult \<times> stored \<times> world" where
  "finishUninstall m result st w =
    (if om_entries m = [] then
       (case next_result w of (failed, w1) \<Rightarrow>
          if failed then (Some IOFailed, empty_uninstall, st, w1) else (None, result, NoRecord, w1))
     else case Save m st w of
       (saved, st1, w1) \<Rightarrow> if saved then (None, result, st1, w1) else (Some IOFailed, empty_uninstall, st1, w1))"

definition UninstallContext :: "(string \<Rightarrow> string) \<Rightarrow> nat option \<Rightarrow> string \<Rightarrow> string list \<Rightarrow> stored \<Rightarrow> world \<Rightarrow>
    own_error option \<times> UninstallResult \<times> stored \<times> world" where
  "UninstallContext sha cancel rootDir targets st w =
    (if blank rootDir then (Some RootMissing, empty_uninstall, st, w)
     else case selectOwnershipTargets targets of
       Inl e \<Rightarrow> (Some e, empty_uninstall, st, w)
     | Inr selected \<Rightarrow>
         (case LoadOwnershipManifest st w of
            Inl e \<Rightarrow> (if e = NotExist then None else Some e, empty_uninstall, st, w)
          | Inr m \<Rightarrow>
              (case applyUninstallPlan sha cancel m (planUninstall m (keepSharedSkills m selected)) w of
                 (Inl e, w1) \<Rightarrow> (Some e, empty_uninstall, st, w1)
               | (Inr u, w1) \<Rightarrow>
                   (case finishUninstall (un_manifest u) (un_result u) st w1 of
                      (err, result, st1, w2) \<Rightarrow>
                        (if err = None \<and> ur_notApplied result \<noteq> [] then Some CancelledErr else err, result, st1, w2)))))"

end
