(* ===== verification/Setup_Uninstall_Laws.thy ===== *)
theory Setup_Uninstall_Laws
  imports Setup_Uninstall Setup_Deploy_Props
begin

text \<open>
  What restoring and uninstalling leave alone: a path that is not a directory keeps what it holds, call by
  call, unless it is the one file the call is about.
\<close>

section \<open>Cleaned paths\<close>

lemma clean_keeps_dotdot: "''..'' \<in> set stack \<Longrightarrow> ''..'' \<in> set (foldl (clean_step False) stack parts)"
proof (induction parts arbitrary: stack)
  case (Cons a parts)
  have "''..'' \<in> set (clean_step False stack a)" using Cons.prems by (auto split: list.split)
  then show ?case using Cons.IH by simp
qed simp

lemma clean_above:
  "''..'' \<notin> set (foldl (clean_step False) stack parts) \<Longrightarrow> s \<noteq> ''..'' \<Longrightarrow>
    foldl (clean_step False) (stack @ [s]) parts = foldl (clean_step False) stack parts @ [s]"
proof (induction parts arbitrary: stack)
  case (Cons a parts)
  have no: "''..'' \<notin> set (clean_step False stack a)" using Cons.prems(1) clean_keeps_dotdot [of "clean_step False stack a" parts] by (metis foldl_Cons)
  have "clean_step False (stack @ [s]) a = clean_step False stack a @ [s]"
    using no Cons.prems(2) by (cases stack) (auto split: if_splits)
  then show ?case using Cons.IH [of "clean_step False stack a"] Cons.prems by simp
qed simp

definition clean_parts :: "string \<Rightarrow> string list" where
  "clean_parts s = rev (foldl (clean_step False) [] (path_parts s))"

lemma clean_step_set: "set (clean_step False stack a) \<subseteq> set stack \<union> ({a} - {[], ''.''})"
  by (cases stack) (auto split: if_splits)

lemma clean_foldl_set: "set (foldl (clean_step False) stack parts) \<subseteq> set stack \<union> (set parts - {[], ''.''})"
proof (induction parts arbitrary: stack)
  case (Cons a parts)
  have "set (foldl (clean_step False) (clean_step False stack a) parts) \<subseteq>
      set (clean_step False stack a) \<union> (set parts - {[], ''.''})" by (rule Cons.IH)
  then show ?case using clean_step_set [of stack a] by (simp only: foldl_Cons list.set(2)) blast
qed simp

lemma clean_parts_slash: "w \<in> set (clean_parts s) \<Longrightarrow> CHR ''/'' \<notin> set w \<and> w \<noteq> [] \<and> w \<noteq> ''.''"
proof -
  assume "w \<in> set (clean_parts s)"
  then have "w \<in> set (path_parts s) - {[], ''.''}"
    using clean_foldl_set [of "[]" "path_parts s"] by (auto simp only: clean_parts_def set_rev list.set)
  then show ?thesis using split_on_notin [of w "CHR ''/''" s] by (auto simp: path_parts_def)
qed

lemma path_clean_parts: "\<not> has_prefix s ''/'' \<Longrightarrow> path_clean s = (if clean_parts s = [] then ''.'' else join_path (clean_parts s))"
proof -
  assume s: "\<not> has_prefix s ''/''"
  have "join_path ws = [] \<longleftrightarrow> ws = []" if "\<forall>w \<in> set ws. w \<noteq> []" for ws
    using that by (cases ws; cases "tl ws") (auto simp: join_path_def)
  then show ?thesis using s clean_parts_slash by (auto simp: path_clean_def Let_def clean_parts_def)
qed

lemma clean_parts_plain: "''..'' \<notin> set (clean_parts s) \<Longrightarrow> list_all plain (clean_parts s)"
  using clean_parts_slash by (auto simp: list_all_iff plain_def)

lemma parts_clean: "\<not> has_prefix s ''/'' \<Longrightarrow> clean_parts s \<noteq> [] \<Longrightarrow> path_parts (path_clean s) = clean_parts s"
  using clean_parts_slash [of _ s] by (simp add: path_clean_parts path_parts_def join_path_def split_join)

lemma clean_plain_parts: "list_all plain ws \<Longrightarrow> ws \<noteq> [] \<Longrightarrow> path_clean (join_path ws) = join_path ws"
proof -
  assume ws: "list_all plain ws" "ws \<noteq> []"
  have "\<not> has_prefix (join_path ws) ''/''" using join_rooted [OF ws(2,1), of "[]"] by simp
  moreover have "clean_parts (join_path ws) = ws" using parts_join [OF ws(2,1)] clean_plain [OF ws(1), of False "[]"]
    by (simp add: clean_parts_def)
  ultimately show ?thesis using ws(2) by (simp add: path_clean_parts)
qed

text \<open>What a safe join gives: a clean path, without a link above it that leads out.\<close>

lemma SafeJoin_clean:
  assumes "SafeJoin w rel = Some p"
  shows "p = path_clean rel" "p = ''.'' \<or> list_all plain (path_parts p)" "\<not> has_prefix rel ''/''" "''..'' \<notin> set (clean_parts rel)"
proof -
  have a: "p = path_clean rel" "\<not> has_prefix rel ''/''" "''..'' \<notin> set (path_parts p)"
    using assms by (auto simp: SafeJoin_def Let_def split: if_splits)
  have no: "''..'' \<notin> set (clean_parts rel)" using a parts_clean [of rel] by (cases "clean_parts rel = []") auto
  have "p = ''.'' \<or> list_all plain (path_parts p)"
    using a(1) path_clean_parts [OF a(2)] parts_clean [OF a(2)] clean_parts_plain [OF no] by (cases "clean_parts rel = []") simp_all
  with a no show "p = path_clean rel" "p = ''.'' \<or> list_all plain (path_parts p)" "\<not> has_prefix rel ''/''"
    "''..'' \<notin> set (clean_parts rel)" by blast+
qed

lemma SafeJoin_normal: "NormalizeRelPath s = Some c \<Longrightarrow> SafeJoin w c = Some p \<Longrightarrow> p = c"
proof -
  assume n: "NormalizeRelPath s = Some c" and j: "SafeJoin w c = Some p"
  have pl: "list_all plain (path_parts c)" by (rule normalized_plain [OF n])
  moreover have "path_parts c \<noteq> []" by (simp add: path_parts_def)
  ultimately have "path_clean c = c" using clean_plain_parts join_parts [of c] by metis
  then show "p = c" using SafeJoin_clean(1) [OF j] by simp
qed

text \<open>The place a removal is staged at lies in the staging directory.\<close>

lemma staged_beneath:
  assumes "''..'' \<notin> set (clean_parts rel)" "\<not> has_prefix rel ''/''" "SafeJoin w (path_join staging_dir rel) = Some dst"
  shows "beneath staging_dir dst"
proof -
  have sd: "plain staging_dir" "staging_dir \<noteq> []" by (simp_all add: plain_def staging_dir_def)
  have rel: "rel \<noteq> [] \<Longrightarrow> path_parts (join_path [staging_dir, rel]) = staging_dir # path_parts rel"
    using sd split_on_append_sep [of "CHR ''/''" staging_dir rel] by (simp add: join_path_def path_parts_def plain_def)
  define ws where "ws = staging_dir # clean_parts rel"
  have pj: "path_join staging_dir rel = join_path ws"
  proof (cases "rel = []")
    case True
    then show ?thesis using clean_plain_parts [of "[staging_dir]"] sd
      by (simp add: path_join_def ws_def clean_parts_def path_parts_def join_path_def)
  next
    case False
    let ?j = "join_path [staging_dir, rel]"
    have "foldl (clean_step False) [] (path_parts ?j) = foldl (clean_step False) ([] @ [staging_dir]) (path_parts rel)"
      using rel [OF False] sd by (simp add: plain_def)
    also have "\<dots> = foldl (clean_step False) [] (path_parts rel) @ [staging_dir]"
      using assms(1) sd by (intro clean_above) (auto simp: clean_parts_def plain_def)
    finally have "clean_parts ?j = ws" by (simp add: clean_parts_def ws_def)
    moreover have "\<not> has_prefix ?j ''/''" by (simp add: join_path_def has_prefix_def staging_dir_def)
    ultimately show ?thesis using path_clean_parts [of ?j] False sd by (simp add: path_join_def ws_def)
  qed
  have "list_all plain ws" using clean_parts_plain [OF assms(1)] sd by (simp add: ws_def)
  then have "dst = join_path ws" using SafeJoin_clean(1) [OF assms(3)] pj clean_plain_parts [of ws] by (simp add: ws_def)
  then show ?thesis by (cases "clean_parts rel") (simp_all add: ws_def join_path_def beneath_def has_prefix_def)
qed

section \<open>The tree\<close>

definition tree :: "world \<Rightarrow> bool" where
  "tree w \<longleftrightarrow> (\<forall>q \<in> set (mkeys (w_disk w)). is_dir w (path_dir q))"

lemma tree_chain: "tree w \<Longrightarrow> lookup w q \<noteq> None \<Longrightarrow> d \<in> set (dir_chain n (path_dir q)) \<Longrightarrow> lookup w d = Some NDir"
proof (induction n arbitrary: q)
  case (Suc n)
  then have "is_dir w (path_dir q)" by (auto simp: tree_def mhas_keys [symmetric] mhas_def lookup_def)
  then show ?case using Suc by (auto simp: is_dir_def split: if_splits)
qed simp

lemma beneath_hd: "beneath staging_dir q \<Longrightarrow> hd (path_parts q) = staging_dir"
proof -
  assume "beneath staging_dir q"
  then consider "q = staging_dir" | s where "q = staging_dir @ CHR ''/'' # s"
  proof (cases "q = staging_dir")
    case False
    then have t: "take (length (staging_dir @ ''/'')) q = staging_dir @ ''/''"
      using \<open>beneath staging_dir q\<close> by (simp add: beneath_def has_prefix_def)
    have "q = (staging_dir @ ''/'') @ drop (length (staging_dir @ ''/'')) q"
      by (subst t [symmetric], rule append_take_drop_id [symmetric])
    then show ?thesis using that by simp
  qed
  then show ?thesis
  proof cases
    case 1
    then show ?thesis by (simp add: path_parts_def split_on_plain staging_dir_def)
  next
    case 2
    then show ?thesis using split_on_append_sep [of "CHR ''/''" staging_dir s] by (simp add: path_parts_def staging_dir_def)
  qed
qed

lemma chain_beneath:
  assumes "beneath staging_dir q" "list_all plain (path_parts q)" "d \<in> set (dir_chain (length q) (path_dir q))"
  shows "beneath staging_dir d"
proof -
  obtain i where i: "0 < i" "i < length (path_parts q)" "d = join_path (take i (path_parts q))"
    using dir_chain_rel [OF assms(2) order_refl] assms(3) by (fastforce simp: Suc_le_eq)
  then obtain ws where "take i (path_parts q) = staging_dir # ws" using beneath_hd [OF assms(1)]
    by (cases "path_parts q"; cases i) auto
  then show ?thesis using i(3) by (cases ws) (simp_all add: join_path_def beneath_def has_prefix_def)
qed


section \<open>What each call leaves\<close>

lemma mkdir_each_effect: "mkdir_each ds w = (r, w') \<Longrightarrow>
    lookup w' q = lookup w q \<or> q \<in> set ds \<and> lookup w q = None \<and> lookup w' q = Some NDir"
proof (induction ds arbitrary: w)
  case (Cons d ds)
  show ?case
  proof (cases "lookup w d = Some NDir")
    case True
    then show ?thesis using Cons by auto
  next
    case False
    obtain x w1 where m: "sys_mkdir d w = (x, w1)" by fastforce
    show ?thesis
    proof (cases x)
      case (Inl e)
      then have "w' = w1" using Cons.prems False m by simp
      then show ?thesis using failed_same(1) m Inl same_disk_lookup by metis
    next
      case (Inr u)
      then have "mkdir_each ds w1 = (r, w')" using Cons.prems False m by simp
      then have "lookup w' q = lookup w1 q \<or> q \<in> set ds \<and> lookup w1 q = None \<and> lookup w' q = Some NDir" by (rule Cons.IH)
      then show ?thesis using mkdir_ok [OF m [unfolded Inr]] by (auto split: if_splits)
    qed
  qed
qed simp

lemma mkdir_all_effect: "sys_mkdir_all d w = (r, w') \<Longrightarrow>
    lookup w' q = lookup w q \<or> d \<noteq> ''.'' \<and> q \<in> set (components d) \<and> lookup w q = None \<and> lookup w' q = Some NDir"
  using mkdir_each_effect [of "components d" w r w' q] by (auto simp: sys_mkdir_all_def split: if_splits)

lemma rename_effect: "sys_rename a b w = (r, w') \<Longrightarrow> q \<noteq> a \<Longrightarrow> q \<noteq> b \<Longrightarrow> lookup w' q = lookup w q"
  by (rule next_result_cases [of w])
    (auto simp: sys_rename_def may_fail_def lookup_def split: if_splits option.splits fsnode.splits)

lemma rename_keeps_absent: "sys_rename a b w = (r, w') \<Longrightarrow> q \<noteq> b \<Longrightarrow> lookup w' q \<noteq> None \<Longrightarrow> lookup w q \<noteq> None"
  by (rule next_result_cases [of w])
    (auto simp: sys_rename_def may_fail_def lookup_def split: if_splits option.splits fsnode.splits)

lemma remove_all_effect: "\<not> beneath dir q \<Longrightarrow> lookup (sys_remove_all dir w) q = lookup w q"
proof -
  assume q: "\<not> beneath dir q"
  have *: "map_of (filter (\<lambda>(p, _). \<not> beneath dir p) d) q = map_of d q" for d :: "(string, fsnode) gomap"
    using q by (induction d) auto
  show ?thesis by (rule next_result_cases [of w]) (simp_all add: * sys_remove_all_def lookup_def)
qed

lemma file_state_same: "managedFileState sha d e w = (r, w') \<Longrightarrow> same_disk w w'"
  unfolding managedFileState_def
  by (auto split: if_splits prod.splits sum.splits syserr.splits fsnode.splits dest!: lstat_same read_same intro: same_disk_trans)

lemma classifyRemoval_same: "classifyRemoval sha p e w = (r, w') \<Longrightarrow> same_disk w w'"
  unfolding classifyRemoval_def managedRegularState_def
  by (auto split: option.splits prod.splits sum.splits if_splits dest: file_state_same)

lemma stat_same: "sys_stat p w = (r, w') \<Longrightarrow> same_disk w w'"
  by (rule next_result_cases [of w]) (auto simp: sys_stat_def may_fail_def same_disk_def split: if_splits option.splits fsnode.splits)

lemma restorable_same: "restorablePreExisting sha e w = (b, w') \<Longrightarrow> same_disk w w'"
  unfolding restorablePreExisting_def
  by (auto split: option.splits prod.splits sum.splits if_splits dest!: stat_same classifyRemoval_same intro: same_disk_trans)

text \<open>A node holds what the entry records, and nothing edited since.\<close>

definition unedited :: "(string \<Rightarrow> string) \<Rightarrow> OwnershipEntry \<Rightarrow> fsnode option \<Rightarrow> bool" where
  "unedited sha e n \<longleftrightarrow> (\<exists>c m. n = Some (NFile c m) \<and> oe_sha e \<noteq> [] \<and> sha c = oe_sha e)"

text \<open>The state a successful inspection finds is a function of the node.\<close>

fun state_of :: "(string \<Rightarrow> string) \<Rightarrow> OwnershipEntry \<Rightarrow> fsnode option \<Rightarrow> managedState \<times> string option" where
  "state_of sha e None = (managedMissing, None)"
| "state_of sha e (Some (NFile c m)) =
    (if oe_sha e \<noteq> [] \<and> sha c = oe_sha e then managedUnchanged else managedChanged, Some c)"
| "state_of sha e (Some _) = (managedNotRegular, None)"

lemma state_of_cases:
  "fst (state_of sha e n) = managedMissing \<longleftrightarrow> n = None"
  "fst (state_of sha e n) = managedUnchanged \<longleftrightarrow> unedited sha e n"
  "snd (state_of sha e n) = Some c \<longleftrightarrow> (\<exists>m. n = Some (NFile c m))"
  "fst (state_of sha e n) = managedNotRegular \<longleftrightarrow> n \<noteq> None \<and> snd (state_of sha e n) = None"
  by (cases "(sha, e, n)" rule: state_of.cases; auto simp: unedited_def)+

definition node_at :: "world \<Rightarrow> string \<Rightarrow> fsnode option" where
  "node_at w d = (if d = ''.'' then Some NDir else lookup w d)"

lemma file_state_ok:
  assumes "managedFileState sha d e w = (Inr sc, w')"
  shows "sc = state_of sha e (node_at w d)"
proof (cases "d = ''.''")
  case True
  then show ?thesis using assms by (simp add: managedFileState_def node_at_def)
next
  case False
  obtain r w1 where l: "sys_lstat d w = (r, w1)" by fastforce
  have s1: "lookup w1 = lookup w" using l lstat_same same_disk_lookup by blast
  show ?thesis
  proof (cases r)
    case (Inl err)
    then have "sc = (managedMissing, None)" "err = ENotExist" using assms l False
      by (auto simp: managedFileState_def split: syserr.splits)
    then show ?thesis using l Inl False lstat_absent [of d w w1] by (simp add: node_at_def)
  next
    case n: (Inr n)
    then have L: "lookup w d = Some n" using l lstat_ok by simp
    show ?thesis
    proof (cases n)
      case (NFile c0 m0)
      obtain x w2 where rd: "sys_read d w1 = (x, w2)" by fastforce
      obtain c1 where c1: "x = Inr c1" using assms l n NFile rd False by (cases x) (auto simp: managedFileState_def)
      have "c1 = c0" using read_ok [of d w1 c1 w2] rd c1 L NFile s1 by auto
      then show ?thesis using assms l n NFile rd c1 L False by (auto simp: managedFileState_def node_at_def)
    qed (use assms l n L False in \<open>auto simp: managedFileState_def node_at_def\<close>)
  qed
qed

text \<open>A removal that is clean is of an unedited file, at the cleaned path.\<close>

lemma classify_clean:
  assumes "classifyRemoval sha p e w = (Inr removalClean, w')"
  shows "\<exists>q. SafeJoin w p = Some q \<and> unedited sha e (lookup w q) \<and> q \<noteq> ''.''"
proof -
  obtain q where q: "SafeJoin w p = Some q" using assms by (auto simp: classifyRemoval_def split: option.splits)
  obtain r w1 where f: "managedFileState sha q e w = (r, w1)" by fastforce
  obtain s cur where sc: "r = Inr (s, cur)" "s = managedUnchanged"
    using assms q f by (cases r) (auto simp: classifyRemoval_def managedRegularState_def split: if_splits managedState.splits)
  have "unedited sha e (node_at w q)"
    using file_state_ok [of sha q e w "(s, cur)" w1] f sc state_of_cases(2) [of sha e "node_at w q"] by (metis fst_conv)
  then show ?thesis using q by (auto simp: node_at_def unedited_def split: if_splits)
qed

text \<open>An entry is eligible for restoring when nothing, or what Takt installed, stands at its path.\<close>

lemma loadRestorePlan_ok:
  assumes "loadRestorePlan sha e w = (r, w')"
  shows "same_disk w w'" "r = Inr plan \<Longrightarrow> rp_destination plan = path_clean (oe_path e) \<and> rp_replacementHash plan = sha (rp_content plan) \<and>
    rp_path plan = rp_destination plan"
proof -
  have rd: "ReadRegularFile b w = (x, w1) \<Longrightarrow> same_disk w w1" for b x w1
    by (auto simp: ReadRegularFile_def split: prod.splits sum.splits fsnode.splits dest!: lstat_same read_same intro: same_disk_trans)
  show "same_disk w w'" using assms
    by (auto simp: loadRestorePlan_def split: sum.splits prod.splits option.splits dest: rd)
  assume r: "r = Inr plan"
  obtain p b where n: "normalizeRestorePaths e = Inr (p, b)" using assms r by (auto simp: loadRestorePlan_def split: sum.splits)
  then have np: "NormalizeRelPath (oe_path e) = Some p" by (auto simp: normalizeRestorePaths_def split: option.splits)
  obtain w1 d where j: "SafeJoin w1 p = Some d" "rp_destination plan = d" "rp_replacementHash plan = sha (rp_content plan)" "rp_path plan = p"
    using assms r n by (auto simp: loadRestorePlan_def split: sum.splits prod.splits option.splits)
  have "d = p" by (rule SafeJoin_normal [OF np j(1)])
  moreover have "p = path_clean (oe_path e)" using np by (auto simp: NormalizeRelPath_def Let_def split: if_splits)
  ultimately show "rp_destination plan = path_clean (oe_path e) \<and> rp_replacementHash plan = sha (rp_content plan) \<and> rp_path plan = rp_destination plan"
    using j by simp
qed

lemma classifyRestore_ok:
  assumes "classifyRestoreEntry sha e w = (r, w')"
  shows "same_disk w w'"
    "r = Inr plan \<Longrightarrow> rp_disposition plan = restoreEligible \<Longrightarrow>
      rp_destination plan = path_clean (oe_path e) \<and> sha (rp_content plan) = oe_prior e \<and>
      (lookup w (rp_destination plan) = None \<or> unedited sha e (lookup w (rp_destination plan)))"
proof -
  obtain r1 w1 where ld: "loadRestorePlan sha e w = (r1, w1)" by fastforce
  note s1 = loadRestorePlan_ok(1) [OF ld]
  show "same_disk w w'" using assms ld s1
    by (auto simp: classifyRestoreEntry_def Let_def split: sum.splits prod.splits if_splits dest!: file_state_same intro: same_disk_trans)
  assume r: "r = Inr plan" and el: "rp_disposition plan = restoreEligible"
  then obtain plan0 where p0: "r1 = Inr plan0" using assms ld by (auto simp: classifyRestoreEntry_def split: sum.splits)
  obtain r2 w2 where f: "managedFileState sha (rp_destination plan0) e w1 = (r2, w2)" by fastforce
  obtain s cur where sc: "r2 = Inr (s, cur)" using assms ld p0 f r by (cases r2) (auto simp: classifyRestoreEntry_def)
  have st: "(s, cur) = state_of sha e (node_at w1 (rp_destination plan0))" using file_state_ok f sc by simp
  have d: "rp_destination plan = rp_destination plan0" "rp_content plan = rp_content plan0" "rp_replacementHash plan0 = oe_prior e"
      "s \<noteq> managedNotRegular" "s \<noteq> managedChanged"
    using assms ld p0 f sc r el by (auto simp: classifyRestoreEntry_def Let_def split: if_splits option.splits)
  have "s = managedMissing \<or> s = managedUnchanged" using d(4,5) by (cases s) auto
  then have "node_at w1 (rp_destination plan0) = None \<or> unedited sha e (node_at w1 (rp_destination plan0))"
    using state_of_cases(1,2) st by (metis fst_conv)
  then have "lookup w (rp_destination plan) = None \<or> unedited sha e (lookup w (rp_destination plan))"
    using d(1) same_disk_lookup [OF s1] by (auto simp: node_at_def unedited_def split: if_splits)
  then show "rp_destination plan = path_clean (oe_path e) \<and> sha (rp_content plan) = oe_prior e \<and>
      (lookup w (rp_destination plan) = None \<or> unedited sha e (lookup w (rp_destination plan)))"
    using loadRestorePlan_ok(2) [OF ld p0] d by simp
qed

lemma applyRestore_effect:
  assumes "applyRestorePlan plan w = (r, w')"
  shows "lookup w' q = lookup w q \<or> lookup w q = None \<and> lookup w' q = Some NDir \<or>
    q = rp_destination plan \<and> lookup w' q = Some (NFile (rp_content plan) (rp_mode plan))"
proof -
  let ?d = "path_dir (rp_destination plan)"
  obtain r1 w1 where m: "sys_mkdir_all ?d w = (r1, w1)" by fastforce
  have e1: "lookup w1 q = lookup w q \<or> lookup w q = None \<and> lookup w1 q = Some NDir" using mkdir_all_effect [OF m, of q] by blast
  show ?thesis
  proof (cases r1)
    case (Inl e)
    then show ?thesis using assms m e1 by (auto simp: applyRestorePlan_def Let_def)
  next
    case (Inr u)
    obtain r2 w2 where st: "sys_stage ?d (rp_content plan) (rp_mode plan) w1 = (r2, w2)" by fastforce
    show ?thesis
    proof (cases r2)
      case (Inl e)
      then have "lookup w2 = lookup w1" using failed_same(2) st same_disk_lookup by blast
      then show ?thesis using assms m Inr st Inl e1 by (auto simp: applyRestorePlan_def Let_def)
    next
      case t: (Inr t)
      note k = stage_ok [OF st [unfolded t]]
      have L2: "lookup w2 q = lookup w1 q" using k by (simp add: lookup_def)
      obtain r3 w3 where ins: "sys_install t (rp_destination plan) w2 = (r3, w3)" by fastforce
      show ?thesis
      proof (cases r3)
        case (Inl e)
        obtain x w4 where rt: "sys_remove_temp t w3 = (x, w4)" by fastforce
        have "lookup w4 q = lookup w3 q" using remove_temp_ok [OF rt] by (simp add: lookup_def)
        moreover have "lookup w3 q = lookup w2 q" using failed_same(3) ins Inl same_disk_lookup by metis
        moreover have "w' = w4" using assms m Inr st t ins Inl rt by (auto simp: applyRestorePlan_def Let_def)
        ultimately show ?thesis using e1 L2 by auto
      next
        case y: (Inr y)
        obtain z w4 where sy: "sys_sync ?d w3 = (z, w4)" by fastforce
        have "w' = w4" using assms m Inr st t ins y sy by (auto simp: applyRestorePlan_def Let_def split: sum.splits)
        moreover have "lookup w3 q = (if q = rp_destination plan then Some (NFile (rp_content plan) (rp_mode plan)) else lookup w2 q)"
          using install_ok [OF ins [unfolded y]] k by auto
        ultimately show ?thesis using e1 L2 synced_frame [OF sy, of q] by auto
      qed
    qed
  qed
qed

end
