(* ===== verification/Setup_Uninstall_Props.thy ===== *)
theory Setup_Uninstall_Props
  imports Setup_Uninstall_Laws
begin

text \<open>
  Properties of restoring and uninstalling: an edit survives both, a restored file holds the bytes recorded
  when it was taken over, every backed-up entry is accounted for, and the preview says what uninstalling does.
\<close>

section \<open>Restore\<close>

definition replaceable :: "(string \<Rightarrow> string) \<Rightarrow> OwnershipEntry list \<Rightarrow> world \<Rightarrow> string \<Rightarrow> bool" where
  "replaceable sha E w p \<longleftrightarrow> lookup w p = None \<or> (\<exists>e \<in> set E. path_clean (oe_path e) = p \<and> unedited sha e (lookup w p))"

definition holds_prior :: "(string \<Rightarrow> string) \<Rightarrow> OwnershipEntry list \<Rightarrow> world \<Rightarrow> string \<Rightarrow> bool" where
  "holds_prior sha E w p \<longleftrightarrow>
    (\<exists>e \<in> set E. \<exists>c m. path_clean (oe_path e) = p \<and> lookup w p = Some (NFile c m) \<and> sha c = oe_prior e)"

definition restored_from :: "(string \<Rightarrow> string) \<Rightarrow> OwnershipEntry list \<Rightarrow> world \<Rightarrow> world \<Rightarrow> bool" where
  "restored_from sha E w0 w \<longleftrightarrow>
    (\<forall>p. lookup w p = lookup w0 p \<or> lookup w0 p = None \<and> lookup w p = Some NDir \<or>
      replaceable sha E w0 p \<and> holds_prior sha E w p)"

lemma restored_from_same: "restored_from sha E w0 w \<Longrightarrow> same_disk w w' \<Longrightarrow> restored_from sha E w0 w'"
  using same_disk_lookup [of w w'] by (simp add: restored_from_def holds_prior_def)

lemma restored_from_step:
  assumes inv: "restored_from sha E w0 w" and e: "e \<in> set E"
    and c: "classifyRestoreEntry sha e w = (Inr plan, w1)" "rp_disposition plan = restoreEligible"
    and a: "applyRestorePlan plan w1 = (r, w2)"
  shows "restored_from sha E w0 w2"
  unfolding restored_from_def
proof
  fix p
  note k = classifyRestore_ok(1) [OF c(1)] classifyRestore_ok(2) [OF c(1) refl c(2)]
  have L: "lookup w1 = lookup w" by (rule same_disk_lookup [OF k(1)])
  have i: "lookup w p = lookup w0 p \<or> lookup w0 p = None \<and> lookup w p = Some NDir \<or>
      replaceable sha E w0 p \<and> holds_prior sha E w p" using inv by (simp add: restored_from_def)
  from applyRestore_effect [OF a, of p] show "lookup w2 p = lookup w0 p \<or> lookup w0 p = None \<and> lookup w2 p = Some NDir \<or>
      replaceable sha E w0 p \<and> holds_prior sha E w2 p"
  proof (elim disjE)
    assume "lookup w2 p = lookup w1 p"
    then show ?thesis using i L by (simp add: holds_prior_def)
  next
    assume "lookup w1 p = None \<and> lookup w2 p = Some NDir"
    then show ?thesis using i L by (auto simp: holds_prior_def)
  next
    assume d: "p = rp_destination plan \<and> lookup w2 p = Some (NFile (rp_content plan) (rp_mode plan))"
    then have "holds_prior sha E w2 p" using k(2) e by (auto simp: holds_prior_def)
    moreover have "replaceable sha E w0 p"
    proof (cases "lookup w p = lookup w0 p")
      case True
      then show ?thesis using k(2) d e by (auto simp: replaceable_def)
    next
      case False
      then show ?thesis using i by (auto simp: replaceable_def)
    qed
    ultimately show ?thesis by simp
  qed
qed

lemma restore_one_from:
  assumes r: "restore_one sha e result w = (result', es, w')" and inv: "restored_from sha E w0 w" "e \<in> set E"
  shows "restored_from sha E w0 w'"
proof (cases "oe_backup e = []")
  case True
  then show ?thesis using r inv by (simp add: restore_one_def)
next
  case False
  obtain x w1 where c: "classifyRestoreEntry sha e w = (x, w1)" by fastforce
  have s: "restored_from sha E w0 w1" using restored_from_same [OF inv(1)] classifyRestore_ok(1) [OF c] by blast
  show ?thesis
  proof (cases "\<exists>plan. x = Inr plan \<and> rp_disposition plan = restoreEligible")
    case True
    then obtain plan where p: "x = Inr plan" "rp_disposition plan = restoreEligible" by blast
    obtain y w2 where a: "applyRestorePlan plan w1 = (y, w2)" by fastforce
    have "w' = w2" using r False c p a by (auto simp: restore_one_def split: sum.splits)
    then show ?thesis using restored_from_step [OF inv c [unfolded p] p(2) a] by simp
  next
    case stay: False
    then have "w' = w1" using r False c by (auto simp: restore_one_def split: sum.splits restoreDisposition.splits)
    then show ?thesis using s by simp
  qed
qed

lemma restore_each_from:
  "restore_each sha es result w = (result', errs, w') \<Longrightarrow> restored_from sha E w0 w \<Longrightarrow> set es \<subseteq> set E \<Longrightarrow> restored_from sha E w0 w'"
proof (induction es arbitrary: result w errs)
  case (Cons e es)
  obtain r1 e1 w1 where o: "restore_one sha e result w = (r1, e1, w1)" by (cases "restore_one sha e result w")
  have "restored_from sha E w0 w1" by (rule restore_one_from [OF o Cons.prems(2)]) (use Cons.prems(3) in simp)
  moreover obtain e2 where "restore_each sha es r1 w1 = (result', e2, w')" using Cons.prems(1) o by (auto split: prod.splits)
  ultimately show ?case using Cons.IH Cons.prems(3) by auto
qed simp

definition manifest_entries :: "OwnershipManifest \<Rightarrow> OwnershipEntry list" where
  "manifest_entries m = map (mget zero_entry (om_entries m)) (sortedEntryPaths m)"

text \<open>C23: Restoring never overwrites an edit: whichever calls fail, a path that changes held nothing, or
  exactly what an entry records as installed there; and it changes to a file with the content whose digest
  an entry of that path recorded when the file was taken over, or to a directory that was missing.\<close>

theorem restore_keeps_edits:
  assumes "RestoreFiles sha m w = (result, errs, w')" "lookup w' p \<noteq> lookup w p"
  shows "replaceable sha (manifest_entries m) w p \<and>
    (holds_prior sha (manifest_entries m) w' p \<or> lookup w p = None \<and> lookup w' p = Some NDir)"
proof -
  have "restored_from sha (manifest_entries m) w w'"
    by (rule restore_each_from [OF assms(1) [unfolded RestoreFiles_def, folded manifest_entries_def]])
      (simp_all add: restored_from_def)
  then show ?thesis using assms(2) by (auto simp: restored_from_def replaceable_def)
qed

lemma restore_one_counts:
  assumes "restore_one sha e result w = (result', errs, w')"
  shows "length (rr_restored result') + length (rr_preserved result') + length (rr_conflicts result') + length (rr_incomplete result') =
      length (rr_restored result) + length (rr_preserved result) + length (rr_conflicts result) + length (rr_incomplete result) +
      (if oe_backup e = [] then 0 else 1)"
    "length (rr_incomplete result') = length (rr_incomplete result) + length errs"
  using assms by (auto simp: restore_one_def split: prod.splits sum.splits restoreDisposition.splits if_splits)

lemma restore_each_counts:
  "restore_each sha es result w = (result', errs, w') \<Longrightarrow>
    length (rr_restored result') + length (rr_preserved result') + length (rr_conflicts result') + length (rr_incomplete result') =
      length (rr_restored result) + length (rr_preserved result) + length (rr_conflicts result) + length (rr_incomplete result) +
      length (filter (\<lambda>e. oe_backup e \<noteq> []) es) \<and>
    length (rr_incomplete result') = length (rr_incomplete result) + length errs"
proof (induction es arbitrary: result w errs)
  case (Cons e es)
  obtain r1 e1 w1 where o: "restore_one sha e result w = (r1, e1, w1)" by (cases "restore_one sha e result w")
  obtain e2 where "restore_each sha es r1 w1 = (result', e2, w')" "errs = e1 @ e2" using Cons.prems o by (auto split: prod.splits)
  with Cons.IH restore_one_counts [OF o] show ?case by fastforce
qed simp

text \<open>Restoring accounts for every entry with a backup: each is reported once, as restored, preserved, in
  conflict or incomplete, and there is one error for each that is incomplete.\<close>

theorem restore_accounts:
  "case RestoreFiles sha m w of (result, errs, w') \<Rightarrow>
    length (rr_restored result) + length (rr_preserved result) + length (rr_conflicts result) + length (rr_incomplete result) =
      length (filter (\<lambda>e. oe_backup e \<noteq> []) (manifest_entries m)) \<and>
    length (rr_incomplete result) = length errs"
proof -
  obtain result errs w' where r: "RestoreFiles sha m w = (result, errs, w')" by (cases "RestoreFiles sha m w")
  show ?thesis using restore_each_counts [OF r [unfolded RestoreFiles_def, folded manifest_entries_def]] r by simp
qed

section \<open>Uninstall\<close>

text \<open>An item that cannot touch a path: it is kept, or names another path, or the path has been edited.\<close>

definition spares :: "(string \<Rightarrow> string) \<Rightarrow> string \<Rightarrow> fsnode \<Rightarrow> uninstallPlanEntry \<Rightarrow> bool" where
  "spares sha p n item \<longleftrightarrow> up_action item = actionKeep \<or>
    (path_clean (up_path item) = p \<or> path_clean (oe_path (up_entry item)) = p \<longrightarrow> \<not> unedited sha (up_entry item) (Some n))"

definition staged_away :: "string \<Rightarrow> stagedFile \<Rightarrow> bool" where
  "staged_away p s \<longleftrightarrow> sf_original s \<noteq> p \<and> beneath staging_dir (sf_staged s) \<and>
    p \<notin> set (dir_chain (length (sf_original s)) (path_dir (sf_original s)))"

text \<open>While removals are staged, the path stands and nothing appears outside the staging directory.\<close>

definition standing :: "string \<Rightarrow> fsnode \<Rightarrow> world \<Rightarrow> world \<Rightarrow> bool" where
  "standing p n w0 w \<longleftrightarrow> lookup w p = Some n \<and> (\<forall>q. \<not> beneath staging_dir q \<longrightarrow> lookup w q \<noteq> None \<longrightarrow> lookup w0 q \<noteq> None)"

lemma standing_same: "standing p n w0 w \<Longrightarrow> same_disk w w' \<Longrightarrow> standing p n w0 w'"
  using same_disk_lookup [of w w'] by (simp add: standing_def)

lemma staging_components:
  assumes "SafeJoin w rel = Some dst" "beneath staging_dir dst" "path_dir dst \<noteq> ''.''" "q \<in> set (components (path_dir dst))"
  shows "beneath staging_dir q"
proof -
  have "dst \<noteq> ''.''" using assms(2) by (auto simp: beneath_def staging_dir_def has_prefix_def)
  then have pl: "list_all plain (path_parts dst)" using SafeJoin_clean(2) [OF assms(1)] by simp
  obtain ws x where ws: "path_parts dst = ws @ [x]" by (cases "path_parts dst" rule: rev_cases) (auto simp: path_parts_def)
  have d: "path_dir dst = join_path ws" "ws \<noteq> []" "list_all plain ws"
    using path_dir_snoc [of ws x] pl ws join_parts [of dst] assms(3) by (auto split: if_splits)
  have parts: "path_parts (path_dir dst) = ws" using parts_join d by simp
  have hd: "hd ws = staging_dir" using beneath_hd [OF assms(2)] ws d(2) by simp
  obtain i where i: "q = join_path (take (Suc i) ws)" using assms(4) parts by (auto simp: components_def Let_def)
  obtain vs where "take (Suc i) ws = staging_dir # vs" using hd d(2) by (cases ws) auto
  then show ?thesis using i by (cases vs) (simp_all add: join_path_def beneath_def has_prefix_def)
qed

lemma stage_removal_stands:
  assumes st: "standing p n w0 w" and p: "\<not> beneath staging_dir p"
    and c: "classifyRemoval sha key e w = (Inr removalClean, w1)" "SafeJoin w1 key = Some original"
    and s: "stageForRemoval original key w1 = (r, w2)" and other: "original \<noteq> p"
    and n: "n \<noteq> NDir" and tr: "tree w0" and n0: "lookup w0 p = Some n"
  shows "standing p n w0 w2" "r = Inr dst \<Longrightarrow> staged_away p \<lparr>sf_original = original, sf_staged = dst\<rparr>"
proof -
  note sj = SafeJoin_clean [OF c(2)]
  have s1: "lookup w1 = lookup w" using classifyRemoval_same [OF c(1)] same_disk_lookup by blast
  have st1: "standing p n w0 w1" using standing_same [OF st classifyRemoval_same [OF c(1)]] .
  obtain q where q: "SafeJoin w key = Some q" "unedited sha e (lookup w q)" "q \<noteq> ''.''" using classify_clean [OF c(1)] by blast
  have oq: "original = q" using sj(1) SafeJoin_clean(1) [OF q(1)] by simp
  show "standing p n w0 w2"
  proof (cases "SafeJoin w1 (path_join staging_dir key)")
    case None
    then show ?thesis using s st1 by (simp add: stageForRemoval_def)
  next
    case (Some d)
    have bd: "beneath staging_dir d" by (rule staged_beneath [OF sj(4,3) Some])
    obtain x w3 where m: "sys_mkdir_all (path_dir d) w1 = (x, w3)" by fastforce
    have L3: "lookup w3 u = lookup w1 u \<or> beneath staging_dir u \<and> lookup w1 u = None" for u
      using mkdir_all_effect [OF m, of u] staging_components [OF Some bd] by blast
    have "lookup w3 p = lookup w1 p" using L3 [of p] p by blast
    then have st3: "standing p n w0 w3" using st1 L3 unfolding standing_def by metis
    show ?thesis
    proof (cases x)
      case (Inl err)
      then show ?thesis using s Some m st3 by (simp add: stageForRemoval_def)
    next
      case (Inr u)
      obtain y w4 where rn: "sys_rename original d w3 = (y, w4)" by fastforce
      have w2: "w2 = w4" using s Some m Inr rn by (simp add: stageForRemoval_def split: sum.splits)
      have pd: "p \<noteq> d" using bd p by blast
      have "lookup w4 u \<noteq> None \<longrightarrow> lookup w3 u \<noteq> None" if "\<not> beneath staging_dir u" for u
      proof (cases "u = original")
        case True
        have "u \<noteq> d" using bd that by blast
        then show ?thesis using rename_keeps_absent [OF rn] by blast
      next
        case False
        then show ?thesis using rename_effect [OF rn False] that bd by metis
      qed
      then show ?thesis using st3 rename_effect [OF rn, of p] other pd w2 by (simp add: standing_def)
    qed
  qed
  assume "r = Inr dst"
  then have j: "SafeJoin w1 (path_join staging_dir key) = Some dst"
    using s by (auto simp: stageForRemoval_def split: option.splits sum.splits prod.splits)
  have b: "beneath staging_dir dst" by (rule staged_beneath [OF sj(4,3) j])
  have pl: "list_all plain (path_parts original)" using sj(2) oq q(3) by blast
  have "p \<notin> set (dir_chain (length original) (path_dir original))"
  proof
    assume up: "p \<in> set (dir_chain (length original) (path_dir original))"
    show False
    proof (cases "beneath staging_dir original")
      case True
      then show False using chain_beneath [OF _ pl up] p by blast
    next
      case False
      then have "lookup w0 original \<noteq> None" using st q(2) oq by (auto simp: standing_def unedited_def)
      then have "lookup w0 p = Some NDir" using tree_chain [OF tr _ up] by blast
      then show False using n0 n by simp
    qed
  qed
  then show "staged_away p \<lparr>sf_original = original, sf_staged = dst\<rparr>" using other b by (simp add: staged_away_def)
qed


definition uninstall_invariant :: "(string \<Rightarrow> string) \<Rightarrow> string \<Rightarrow> fsnode \<Rightarrow> world \<Rightarrow> uninstalling \<Rightarrow> OwnershipEntry list \<Rightarrow> world \<Rightarrow> bool" where
  "uninstall_invariant sha p n w0 u restores w \<longleftrightarrow> standing p n w0 w \<and> list_all (staged_away p) (un_staged u) \<and>
    (\<forall>e \<in> set restores. path_clean (oe_path e) = p \<longrightarrow> \<not> unedited sha e (Some n))"

lemma apply_item_invariant:
  assumes a: "applyUninstallItem sha item u w = (r, u', w')" and inv: "uninstall_invariant sha p n w0 u restores w"
    and item: "spares sha p n item" and p: "\<not> beneath staging_dir p" "n \<noteq> NDir" "tree w0" "lookup w0 p = Some n"
  shows "uninstall_invariant sha p n w0 u' (if r = Inr True then restores @ [up_entry item] else restores) w'"
proof (cases "up_action item")
  case actionKeep
  then show ?thesis using a inv by (auto simp: applyUninstallItem_def uninstall_invariant_def)
next
  case actionPreserve
  obtain b w1 where b: "restorablePreExisting sha (up_entry item) w = (b, w1)" by fastforce
  have "standing p n w0 w1" using inv standing_same restorable_same [OF b] by (auto simp: uninstall_invariant_def)
  then show ?thesis using a inv b actionPreserve item
    by (auto simp: applyUninstallItem_def uninstall_invariant_def spares_def Let_def split: if_splits)
next
  case actionRemove
  obtain x w1 where c: "classifyRemoval sha (up_path item) (up_entry item) w = (x, w1)" by fastforce
  have st: "standing p n w0 w" "standing p n w0 w1"
    using inv standing_same classifyRemoval_same [OF c] by (auto simp: uninstall_invariant_def)
  show ?thesis
  proof (cases "x = Inr removalClean \<and> SafeJoin w1 (up_path item) \<noteq> None")
    case False
    then have "w' = w1" "un_staged u' = un_staged u" "r \<noteq> Inr True" using a c actionRemove
      by (auto simp: applyUninstallItem_def stageRemoval_def split: sum.splits removalOutcome.splits option.splits)
    then show ?thesis using inv st by (simp add: uninstall_invariant_def)
  next
    case True
    then obtain original where o: "x = Inr removalClean" "SafeJoin w1 (up_path item) = Some original" by blast
    obtain y w2 where s: "stageForRemoval original (up_path item) w1 = (y, w2)" by fastforce
    obtain q where q: "SafeJoin w (up_path item) = Some q" "unedited sha (up_entry item) (lookup w q)"
      using classify_clean c o(1) by blast
    have "original \<noteq> p"
    proof
      assume "original = p"
      then have "q = p" "path_clean (up_path item) = p" using SafeJoin_clean(1) [OF o(2)] SafeJoin_clean(1) [OF q(1)] by simp_all
      then show False using item q(2) st(1) actionRemove by (simp add: spares_def standing_def)
    qed
    note k = stage_removal_stands [OF st(1) p(1) c [unfolded o(1)] o(2) s this p(2-4)]
    have "w' = w2" "r \<noteq> Inr True" "un_staged u' = un_staged u \<or>
        (\<exists>dst. y = Inr dst \<and> un_staged u' = un_staged u @ [\<lparr>sf_original = original, sf_staged = dst\<rparr>])"
      using a c o s actionRemove by (auto simp: applyUninstallItem_def stageRemoval_def split: sum.splits)
    then show ?thesis using inv k by (auto simp: uninstall_invariant_def)
  qed
qed

lemma uninstall_items_invariant:
  "uninstall_items sha cancel i items restores u w = (r, u', w') \<Longrightarrow> uninstall_invariant sha p n w0 u restores w \<Longrightarrow>
    list_all (spares sha p n) items \<Longrightarrow> \<not> beneath staging_dir p \<Longrightarrow> n \<noteq> NDir \<Longrightarrow> tree w0 \<Longrightarrow> lookup w0 p = Some n \<Longrightarrow>
    uninstall_invariant sha p n w0 u' (case r of Inr rs \<Rightarrow> rs | Inl _ \<Rightarrow> []) w'"
proof (induction items arbitrary: i restores u w)
  case Nil
  then show ?case by (auto simp: uninstall_invariant_def)
next
  case (Cons item items)
  show ?case
  proof (cases "case cancel of None \<Rightarrow> False | Some c \<Rightarrow> c \<le> i")
    case True
    then show ?thesis using Cons.prems(1,2) by (auto simp: uninstall_invariant_def)
  next
    case False
    obtain x u1 w1 where a: "applyUninstallItem sha item u w = (x, u1, w1)" by (cases "applyUninstallItem sha item u w")
    have k: "uninstall_invariant sha p n w0 u1 (if x = Inr True then restores @ [up_entry item] else restores) w1"
      by (rule apply_item_invariant [OF a Cons.prems(2)]) (use Cons.prems(3-7) in auto)
    show ?thesis
    proof (cases x)
      case (Inl e)
      then show ?thesis using Cons.prems(1) False a k by (auto simp: uninstall_invariant_def)
    next
      case (Inr again)
      have "uninstall_items sha cancel (Suc i) items (if again then restores @ [up_entry item] else restores) u1 w1 = (r, u', w')"
        using Cons.prems(1) False a Inr by (simp split: option.splits)
      then show ?thesis by (rule Cons.IH) (use k Inr Cons.prems(3-7) in \<open>auto split: if_splits\<close>)
    qed
  qed
qed

lemma uninstall_restores_stands:
  "uninstall_restores sha es result w = (err, result', w') \<Longrightarrow> lookup w p = Some n \<Longrightarrow>
    \<forall>e \<in> set es. path_clean (oe_path e) = p \<longrightarrow> \<not> unedited sha e (Some n) \<Longrightarrow> lookup w' p = Some n"
proof (induction es arbitrary: result w)
  case (Cons e es)
  obtain x w1 where r: "restoreEntry sha e w = (x, w1)" by fastforce
  obtain y w0 where c: "classifyRestoreEntry sha e w = (y, w0)" by fastforce
  have L0: "lookup w0 = lookup w" using classifyRestore_ok(1) [OF c] same_disk_lookup by blast
  have L: "lookup w1 p = Some n"
  proof (cases "\<exists>plan. y = Inr plan \<and> rp_disposition plan = restoreEligible")
    case True
    then obtain plan where pl: "y = Inr plan" "rp_disposition plan = restoreEligible" by blast
    note k = classifyRestore_ok(2) [OF c pl]
    have "p \<noteq> rp_destination plan" using k Cons.prems(2,3) by auto
    moreover have "applyRestorePlan plan w0 = (x, w1)" using r c pl by (simp add: restoreEntry_def)
    ultimately show ?thesis using applyRestore_effect [of plan w0 x w1 p] L0 Cons.prems(2) by auto
  next
    case False
    then have "w1 = w0" using r c by (auto simp: restoreEntry_def split: sum.splits restoreDisposition.splits)
    then show ?thesis using L0 Cons.prems(2) by simp
  qed
  show ?case
  proof (cases x)
    case (Inl err1)
    then show ?thesis using Cons.prems(1) r L by simp
  next
    case (Inr u)
    then show ?thesis using Cons.IH Cons.prems(1,3) r L by simp
  qed
qed simp

lemma unstage_stands: "list_all (staged_away p) ss \<Longrightarrow> \<not> beneath staging_dir p \<Longrightarrow> lookup (unstage ss w) p = lookup w p"
proof (induction ss arbitrary: w)
  case (Cons s ss)
  obtain r w1 where rn: "sys_rename (sf_staged s) (sf_original s) w = (r, w1)" by fastforce
  have "lookup w1 p = lookup w p" using Cons.prems by (intro rename_effect [OF rn]) (auto simp: staged_away_def)
  then show ?case using Cons rn by simp
qed simp

lemma prune_stands: "p \<notin> set ds \<Longrightarrow> lookup (prune_dirs ds w) p = lookup w p"
proof (induction ds arbitrary: w)
  case (Cons d ds)
  obtain r w1 where rm: "sys_remove d w = (r, w1)" by fastforce
  have "lookup w1 p = lookup w p" using removed_frame [OF rm] Cons.prems by auto
  then show ?case using Cons rm by (auto split: sum.split)
qed simp

lemma purge_stands: "list_all (staged_away p) ss \<Longrightarrow> \<not> beneath staging_dir p \<Longrightarrow> lookup (purge ss w) p = lookup w p"
proof (induction ss arbitrary: w)
  case (Cons s ss)
  obtain r w1 where rm: "sys_remove (sf_staged s) w = (r, w1)" by fastforce
  have "lookup w1 p = lookup w p" using Cons.prems by (intro removed_frame [OF rm]) (auto simp: staged_away_def)
  moreover have "lookup (pruneEmptyDirs (sf_original s) w1) p = lookup w1 p"
    using prune_stands Cons.prems(1) by (simp add: pruneEmptyDirs_def staged_away_def)
  ultimately show ?case using Cons rm by simp
qed simp

lemma apply_plan_stands:
  assumes a: "applyUninstallPlan sha cancel m plan w = (r, w')" and sp: "list_all (spares sha p n) plan"
    and p: "\<not> beneath staging_dir p" "n \<noteq> NDir" "tree w" "lookup w p = Some n"
  shows "lookup w' p = Some n"
proof -
  let ?u = "\<lparr>un_manifest = m, un_result = empty_uninstall, un_staged = []\<rparr>"
  obtain x u w1 where i: "uninstall_items sha cancel 0 plan [] ?u w = (x, u, w1)" by (cases "uninstall_items sha cancel 0 plan [] ?u w")
  have "uninstall_invariant sha p n w ?u [] w" using p(4) by (simp add: uninstall_invariant_def standing_def)
  from uninstall_items_invariant [OF i this sp p] have inv: "lookup w1 p = Some n" "list_all (staged_away p) (un_staged u)"
      "x = Inr rs \<Longrightarrow> \<forall>e \<in> set rs. path_clean (oe_path e) = p \<longrightarrow> \<not> unedited sha e (Some n)" for rs
    by (auto simp: uninstall_invariant_def standing_def)
  have undo: "lookup (undo_uninstall u v) p = Some n" if "lookup v p = Some n" for v
    using that unstage_stands [OF inv(2) p(1)] remove_all_effect [OF p(1)] by (simp add: undo_uninstall_def removeStagingDir_def)
  show ?thesis
  proof (cases x)
    case (Inl e)
    then show ?thesis using a i undo inv(1) by (auto simp: applyUninstallPlan_def)
  next
    case (Inr rs)
    obtain err res w2 where rs: "uninstall_restores sha rs (un_result u) w1 = (err, res, w2)" by (cases "uninstall_restores sha rs (un_result u) w1")
    have L2: "lookup w2 p = Some n" by (rule uninstall_restores_stands [OF rs inv(1) inv(3) [OF Inr]])
    have "lookup (removeStagingDir (purge (un_staged u) w2)) p = Some n"
      using L2 purge_stands [OF inv(2) p(1)] remove_all_effect [OF p(1)] by (simp add: removeStagingDir_def)
    then show ?thesis using a i Inr rs undo L2 by (auto simp: applyUninstallPlan_def split: option.splits)
  qed
qed


lemma selected_subset: "select_targets sel ts = Inr sel' \<Longrightarrow> set sel' \<subseteq> set sel \<union> set ts"
  by (induction sel ts rule: select_targets.induct) (auto split: if_splits)

lemma kept_subset: "set (keepSharedSkills m sel) \<subseteq> set sel"
  by (auto simp: keepSharedSkills_def)

lemma loaded_entry:
  assumes "LoadOwnershipManifest st w = Inr m" "map_of (om_entries m) k = Some e"
  shows "\<exists>m0 e0. st = Stored m0 \<and> (k, e0) \<in> set (om_entries m0) \<and> e = load_entry e0"
proof -
  obtain m0 where "st = Stored m0" "om_entries m = map (\<lambda>(p, e). (p, load_entry e)) (om_entries m0)"
    using assms(1) by (auto simp: LoadOwnershipManifest_def split: stored.splits if_splits)
  then show ?thesis using map_of_SomeD [OF assms(2)] by auto
qed

lemma load_entry_fields [simp]: "oe_targets (load_entry e) = oe_targets e" "oe_path (load_entry e) = oe_path e"
  by (simp_all add: load_entry_def Let_def)

lemma next_result_lookup: "next_result w = (b, w1) \<Longrightarrow> lookup w1 = lookup w"
  by (auto simp: next_result_def lookup_def fun_eq_iff split: list.splits)

lemma finish_disk: "finishUninstall m result st w = (err, result', st', w') \<Longrightarrow> lookup w' = lookup w"
  by (auto simp: finishUninstall_def Save_def split: prod.splits if_splits dest!: next_result_lookup)

text \<open>C22: Uninstalling never touches an edit: whichever calls fail, and wherever it is cancelled, a file or
  other non-directory outside the staging directory still stands unless an entry all of whose owners were
  given records exactly its content as installed there.\<close>

theorem uninstall_keeps_edits:
  assumes u: "UninstallContext sha cancel rootDir targets st w = (err, result, st', w')"
    and p: "tree w" "\<not> beneath staging_dir p" "lookup w p = Some n" "n \<noteq> NDir"
    and edited: "\<forall>m k e. st = Stored m \<longrightarrow> (k, e) \<in> set (om_entries m) \<longrightarrow> set (oe_targets e) \<subseteq> set targets \<longrightarrow>
      path_clean k = p \<or> path_clean (oe_path e) = p \<longrightarrow> \<not> unedited sha (load_entry e) (Some n)"
  shows "lookup w' p = Some n"
proof -
  have "lookup w1 p = Some n" if "selectOwnershipTargets targets = Inr sel" "LoadOwnershipManifest st w = Inr m"
    "applyUninstallPlan sha cancel m (planUninstall m (keepSharedSkills m sel)) w = (r, w1)" for sel m r w1
  proof (rule apply_plan_stands [OF that(3) _ p(2,4,1,3)], unfold list_all_iff, rule ballI)
    fix item assume "item \<in> set (planUninstall m (keepSharedSkills m sel))"
    then obtain k where k: "k \<in> set (mkeys (om_entries m))"
        "item = plan_entry (keepSharedSkills m sel) k (mget zero_entry (om_entries m) k)"
      by (auto simp: planUninstall_def sortedEntryPaths_def)
    then obtain e where "map_of (om_entries m) k = Some e" by (auto simp: mhas_keys [symmetric] mhas_def)
    moreover from loaded_entry [OF that(2) this] obtain m0 e0 where e0: "st = Stored m0" "(k, e0) \<in> set (om_entries m0)" "e = load_entry e0"
      by blast
    moreover have "set (oe_targets e0) \<subseteq> set targets" if "filter (\<lambda>owner. owner \<notin> set (keepSharedSkills m sel)) (oe_targets e0) = []"
      using that kept_subset [of m sel] selected_subset [of "[]" targets sel] \<open>selectOwnershipTargets targets = Inr sel\<close>
      by (auto simp: selectOwnershipTargets_def filter_empty_conv)
    ultimately show "spares sha p n item" using edited k(2) by (auto simp: spares_def plan_entry_def Let_def mget_def)
  qed
  then show ?thesis using u p(3) finish_disk
    by (auto simp: UninstallContext_def split: if_splits sum.splits prod.splits)
qed


section \<open>An installation\<close>

text \<open>Two files as installed, one of them shared, one edited since, and one taken over with a backup.\<close>

definition demo_sha :: "string \<Rightarrow> string" where
  "demo_sha s = replicate 64 (if s = ''new'' then CHR ''a'' else if s = ''old'' then CHR ''b'' else CHR ''c'')"

definition own_demo_entry :: "string \<Rightarrow> bool \<Rightarrow> string list \<Rightarrow> OwnershipEntry" where
  "own_demo_entry p pre targets = \<lparr>oe_path = p, oe_sha = demo_sha ''new'', oe_mode = 420, oe_preExisting = pre,
     oe_prior = (if pre then demo_sha ''old'' else []), oe_backup = (if pre then ''.takt-backup/conf'' else []), oe_targets = targets\<rparr>"

definition own_demo_manifest :: OwnershipManifest where
  "own_demo_manifest = \<lparr>om_version = 1, om_entries =
     [(''a.md'', own_demo_entry ''a.md'' False [TargetOpenCode]),
      (''s.md'', own_demo_entry ''s.md'' False [TargetOpenCode, TargetSkills]),
      (''e.md'', own_demo_entry ''e.md'' False [TargetOpenCode]),
      (''conf'', own_demo_entry ''conf'' True [TargetOpenCode])]\<rparr>"

definition own_demo_world :: world where
  "own_demo_world = \<lparr>w_disk = [(''a.md'', NFile ''new'' 420), (''s.md'', NFile ''new'' 420), (''e.md'', NFile ''mine'' 420),
     (''conf'', NFile ''new'' 420), (''.takt-backup'', NDir), (''.takt-backup/conf'', NFile ''old'' 420)],
     w_temps = [], w_next = 0, w_faults = []\<rparr>"

lemma own_demo_tree: "tree own_demo_world"
  by code_simp

theorem restore_keeps_edits_witness:
  "replaceable demo_sha (manifest_entries own_demo_manifest) own_demo_world ''conf'' \<and>
   lookup (snd (snd (RestoreFiles demo_sha own_demo_manifest own_demo_world))) ''conf'' = Some (NFile ''old'' 420)"
proof
  obtain result errs w' where r: "RestoreFiles demo_sha own_demo_manifest own_demo_world = (result, errs, w')"
    by (cases "RestoreFiles demo_sha own_demo_manifest own_demo_world")
  show L: "lookup (snd (snd (RestoreFiles demo_sha own_demo_manifest own_demo_world))) ''conf'' = Some (NFile ''old'' 420)"
    by code_simp
  have "lookup own_demo_world ''conf'' = Some (NFile ''new'' 420)" by code_simp
  then show "replaceable demo_sha (manifest_entries own_demo_manifest) own_demo_world ''conf''"
    using restore_keeps_edits [OF r, of "''conf''"] L r by simp
qed

theorem uninstall_keeps_edits_witness:
  "lookup (snd (snd (snd (UninstallContext demo_sha None ''/'' [TargetOpenCode] (Stored own_demo_manifest) own_demo_world)))) ''e.md'' =
     Some (NFile ''mine'' 420) \<and>
   lookup (snd (snd (snd (UninstallContext demo_sha None ''/'' [TargetOpenCode] (Stored own_demo_manifest) own_demo_world)))) ''a.md'' = None"
proof
  obtain err result st' w' where u: "UninstallContext demo_sha None ''/'' [TargetOpenCode] (Stored own_demo_manifest) own_demo_world = (err, result, st', w')"
    by (cases "UninstallContext demo_sha None ''/'' [TargetOpenCode] (Stored own_demo_manifest) own_demo_world")
  have b: "\<not> beneath staging_dir ''e.md''" "lookup own_demo_world ''e.md'' = Some (NFile ''mine'' 420)" by code_simp+
  have d: "demo_sha ''mine'' \<noteq> oe_sha (load_entry (own_demo_entry ''e.md'' False [TargetOpenCode]))" by code_simp
  have other: "path_clean ''a.md'' \<noteq> ''e.md''" "path_clean ''s.md'' \<noteq> ''e.md''" "path_clean ''conf'' \<noteq> ''e.md''" by code_simp+
  have e: "\<forall>k e. (k, e) \<in> set (om_entries own_demo_manifest) \<longrightarrow> path_clean k = ''e.md'' \<or> path_clean (oe_path e) = ''e.md'' \<longrightarrow>
      \<not> unedited demo_sha (load_entry e) (Some (NFile ''mine'' 420))"
    using other d by (auto simp: own_demo_manifest_def unedited_def) (auto simp: own_demo_entry_def)
  show "lookup (snd (snd (snd (UninstallContext demo_sha None ''/'' [TargetOpenCode] (Stored own_demo_manifest) own_demo_world)))) ''e.md'' =
     Some (NFile ''mine'' 420)"
    using uninstall_keeps_edits [OF u own_demo_tree b(1,2)] e u by simp
  show "lookup (snd (snd (snd (UninstallContext demo_sha None ''/'' [TargetOpenCode] (Stored own_demo_manifest) own_demo_world)))) ''a.md'' = None"
    by code_simp
qed

end
