(* ===== verification/Setup_Preview_Props.thy ===== *)
theory Setup_Preview_Props
  imports Setup_Uninstall_Props
begin

text \<open>
  The preview of an uninstall against the uninstall itself. On a disk where no call fails, what an entry's
  item does is a function of what stands at its path and at its backup, and staging the other removals does
  not change that.
\<close>

section \<open>Calls that do not fail\<close>

definition quiet :: "world \<Rightarrow> bool" where
  "quiet w \<longleftrightarrow> w_faults w = []"

lemma may_fail_quiet: "quiet w \<Longrightarrow> may_fail f w = f w"
  by (simp add: quiet_def may_fail_def next_result_def)

lemma quiet_calls:
  "quiet w \<Longrightarrow> sys_mkdir p w = (r, w') \<Longrightarrow> quiet w'"
  "quiet w \<Longrightarrow> sys_rename p q w = (r, w') \<Longrightarrow> quiet w'"
  by (auto simp: sys_mkdir_def sys_rename_def may_fail_quiet, auto simp: quiet_def split: if_splits option.splits fsnode.splits)

lemma quiet_mkdir_each: "quiet w \<Longrightarrow> mkdir_each ds w = (r, w') \<Longrightarrow> quiet w'"
proof (induction ds arbitrary: w)
  case (Cons d ds)
  obtain x w1 where m: "sys_mkdir d w = (x, w1)" by fastforce
  show ?case using Cons.IH [of w] Cons.IH [of w1] Cons.prems m quiet_calls(1) [OF Cons.prems(1) m]
    by (auto split: if_splits sum.splits)
qed simp

lemma lstat_quiet: "quiet w \<Longrightarrow> sys_lstat p w = (case lookup w p of None \<Rightarrow> Inl ENotExist | Some n \<Rightarrow> Inr n, w)"
  by (simp add: sys_lstat_def may_fail_quiet split: option.split)

lemma file_state_quiet: "quiet w \<Longrightarrow> managedFileState sha d e w = (Inr (state_of sha e (node_at w d)), w)"
  by (cases "lookup w d")
    (auto simp: managedFileState_def node_at_def lstat_quiet sys_read_def may_fail_quiet split: fsnode.split)

definition removal_at :: "(string \<Rightarrow> string) \<Rightarrow> OwnershipEntry \<Rightarrow> fsnode option \<Rightarrow> own_error + removalOutcome" where
  "removal_at sha e n =
    (case fst (state_of sha e n) of
       managedMissing \<Rightarrow> Inr removalMissing | managedUnchanged \<Rightarrow> Inr removalClean
     | managedChanged \<Rightarrow> Inr removalEdited | managedNotRegular \<Rightarrow> Inl NotRegularFile)"

lemma classify_quiet: "quiet w \<Longrightarrow> classifyRemoval sha p e w =
    (case SafeJoin w p of None \<Rightarrow> Inl EscapesRoot | Some q \<Rightarrow> removal_at sha e (node_at w q), w)"
  by (auto simp: classifyRemoval_def managedRegularState_def file_state_quiet removal_at_def
      split: option.splits prod.splits managedState.splits)

lemma restorable_quiet: "quiet w \<Longrightarrow> restorablePreExisting sha e w =
    (oe_backup e \<noteq> [] \<and> (case SafeJoin w (oe_backup e) of
       None \<Rightarrow> False
     | Some b \<Rightarrow> (node_at w b \<noteq> None \<and> node_at w b \<noteq> Some (NLink None)) \<and>
         (case SafeJoin w (oe_path e) of None \<Rightarrow> False | Some q \<Rightarrow> removal_at sha e (node_at w q) = Inr removalClean)), w)"
  by (auto simp: restorablePreExisting_def classify_quiet sys_stat_def may_fail_quiet node_at_def
      split: option.splits fsnode.splits sum.splits)

section \<open>What staging does not change\<close>

text \<open>Outside the staging directory the disk is the one at the start, less the files staged.\<close>

definition less_staged :: "string set \<Rightarrow> world \<Rightarrow> world \<Rightarrow> bool" where
  "less_staged S w0 w \<longleftrightarrow> quiet w \<and>
    (\<forall>q. \<not> beneath staging_dir q \<longrightarrow>
      (if q \<in> S then lookup w q = None \<and> (\<exists>c m. lookup w0 q = Some (NFile c m)) else lookup w q = lookup w0 q))"

lemma chain_outside:
  assumes "list_all plain (path_parts q)" "\<not> beneath staging_dir q" "d \<in> set (dir_chain (length q) (path_dir q))"
  shows "\<not> beneath staging_dir d"
proof
  assume d: "beneath staging_dir d"
  obtain i where i: "0 < i" "i < length (path_parts q)" "d = join_path (take i (path_parts q))"
    using dir_chain_rel [OF assms(1) order_refl] assms(3) by (fastforce simp: Suc_le_eq)
  have pl: "list_all plain (take i (path_parts q))" using assms(1) by (metis append_take_drop_id list_all_append)
  have "path_parts d = take i (path_parts q)" using parts_join [OF _ pl] i by (cases "path_parts q"; cases i) auto
  then have hd: "hd (path_parts q) = staging_dir" using beneath_hd [OF d] i by (cases "path_parts q"; cases i) auto
  obtain ws where ws: "path_parts q = staging_dir # ws" using hd i by (cases "path_parts q") auto
  have "q = join_path (staging_dir # ws)" using join_parts [of q] ws by simp
  then show False using assms(2) by (cases ws) (simp_all add: join_path_def beneath_def has_prefix_def)
qed

lemma SafeJoin_stable:
  assumes s: "less_staged S w0 w" and q: "\<not> beneath staging_dir (path_clean q)"
  shows "SafeJoin w q = SafeJoin w0 q"
proof -
  let ?c = "path_clean q"
  have "verifyNoSymlinkEscape w ?c = verifyNoSymlinkEscape w0 ?c"
    if "\<not> has_prefix q ''/''" "''..'' \<notin> set (path_parts ?c)"
  proof (cases "?c = ''.''")
    case True
    have "dir_chain (length ''.'') (path_dir ''.'') = []" by code_simp
    then show ?thesis using True by (simp add: verifyNoSymlinkEscape_def)
  next
    case False
    have no: "''..'' \<notin> set (clean_parts q)"
      using that parts_clean [of q] by (cases "clean_parts q = []") auto
    have pl: "list_all plain (path_parts ?c)"
      using path_clean_parts [OF that(1)] parts_clean [OF that(1)] clean_parts_plain [OF no] False
      by (cases "clean_parts q = []") simp_all
    have "leads_out w d = leads_out w0 d" if "d \<in> set (dir_chain (length ?c) (path_dir ?c))" for d
      using s chain_outside [OF pl q that] by (auto simp: less_staged_def leads_out_def split: if_splits)
    then show ?thesis by (auto simp: verifyNoSymlinkEscape_def list_ex_iff)
  qed
  then show ?thesis by (auto simp: SafeJoin_def Let_def)
qed

lemma node_stable: "less_staged S w0 w \<Longrightarrow> \<not> beneath staging_dir q \<Longrightarrow> q \<notin> S \<Longrightarrow> node_at w q = node_at w0 q"
  by (auto simp: less_staged_def node_at_def)

text \<open>A staged removal: the file leaves its place, and nothing else outside the staging directory changes.\<close>

lemma staged_less:
  assumes s: "less_staged S w0 w" and j: "SafeJoin w key = Some key" "\<not> beneath staging_dir key"
    and f: "\<exists>c m. lookup w key = Some (NFile c m)" and st: "stageForRemoval key key w = (Inr dst, w')"
  shows "less_staged (insert key S) w0 w'"
proof -
  note sj = SafeJoin_clean [OF j(1)]
  obtain d where d: "SafeJoin w (path_join staging_dir key) = Some d" "d = dst"
    using st by (auto simp: stageForRemoval_def split: option.splits prod.splits sum.splits)
  have bd: "beneath staging_dir dst" using staged_beneath [OF sj(4,3) d(1)] d(2) by simp
  obtain x w3 where m: "sys_mkdir_all (path_dir dst) w = (x, w3)" by fastforce
  then obtain y where rn: "x = Inr y" "sys_rename key dst w3 = (Inr (), w')"
    using st d by (auto simp: stageForRemoval_def split: sum.splits prod.splits)
  have L3: "lookup w3 u = lookup w u" if "\<not> beneath staging_dir u" for u
    using mkdir_all_effect [OF m, of u] staging_components [OF d(1) [unfolded d(2)] bd] that by blast
  have q: "quiet w" "quiet w3" using s quiet_mkdir_each m
    by (auto simp: less_staged_def sys_mkdir_all_def split: if_splits)
  have kd: "key \<noteq> dst" using bd j(2) by blast
  have gone: "lookup w' key = None" using rn(2) q(2) kd
    by (auto simp: sys_rename_def may_fail_quiet lookup_def split: option.splits fsnode.splits if_splits)
  have "lookup w' u = lookup w u" if "\<not> beneath staging_dir u" "u \<noteq> key" for u
    using rename_effect [OF rn(2) that(2)] L3 [OF that(1)] bd that by metis
  moreover have "key \<notin> S" using s j(2) f by (auto simp: less_staged_def)
  moreover have q': "quiet w'" by (rule quiet_calls(2) [OF q(2) rn(2)])
  ultimately show ?thesis using s gone f j(2) unfolding less_staged_def by (metis insert_iff)
qed


section \<open>Item by item\<close>

text \<open>An item of a manifest in normal form: its path is the entry's, written cleanly, and neither it nor its
  backup is taken for another purpose.\<close>

definition normal_item :: "string set \<Rightarrow> uninstallPlanEntry \<Rightarrow> bool" where
  "normal_item K item \<longleftrightarrow> NormalizeRelPath (up_path item) = Some (up_path item) \<and> oe_path (up_entry item) = up_path item \<and>
    \<not> beneath staging_dir (up_path item) \<and>
    (oe_backup (up_entry item) \<noteq> [] \<longrightarrow>
      \<not> beneath staging_dir (path_clean (oe_backup (up_entry item))) \<and> path_clean (oe_backup (up_entry item)) \<notin> K)"

lemma normal_clean: "NormalizeRelPath k = Some k \<Longrightarrow> path_clean k = k"
  by (auto simp: NormalizeRelPath_def Let_def split: if_splits)

lemma classify_stable:
  assumes "quiet w0" "less_staged S w0 w" "NormalizeRelPath k = Some k" "\<not> beneath staging_dir k" "k \<notin> S"
  shows "classifyRemoval sha k e w = (fst (classifyRemoval sha k e w0), w)"
proof -
  have j: "SafeJoin w k = SafeJoin w0 k" using SafeJoin_stable assms normal_clean by metis
  have "SafeJoin w0 k = Some q \<Longrightarrow> q = k" for q using SafeJoin_normal assms(3) by blast
  then show ?thesis using assms j node_stable [OF assms(2,4,5)]
    by (auto simp: classify_quiet less_staged_def split: option.split)
qed

lemma restorable_stable:
  assumes "quiet w0" "less_staged S w0 w" "normal_item K item" "up_path item \<notin> S" "S \<subseteq> K"
  shows "restorablePreExisting sha (up_entry item) w = (fst (restorablePreExisting sha (up_entry item) w0), w)"
proof (cases "oe_backup (up_entry item) = []")
  case True
  then show ?thesis by (simp add: restorablePreExisting_def)
next
  case False
  let ?b = "oe_backup (up_entry item)" and ?k = "up_path item"
  have n: "NormalizeRelPath ?k = Some ?k" "oe_path (up_entry item) = ?k" "\<not> beneath staging_dir ?k"
      "\<not> beneath staging_dir (path_clean ?b)" "path_clean ?b \<notin> S"
    using assms(3,5) False by (auto simp: normal_item_def)
  have j: "SafeJoin w ?b = SafeJoin w0 ?b" "SafeJoin w ?k = SafeJoin w0 ?k"
    using SafeJoin_stable [OF assms(2)] n normal_clean by metis+
  have b: "SafeJoin w0 ?b = Some q \<Longrightarrow> node_at w q = node_at w0 q" for q
    using SafeJoin_clean(1) node_stable [OF assms(2) n(4,5)] by metis
  have k: "SafeJoin w0 ?k = Some q \<Longrightarrow> node_at w q = node_at w0 q" for q
    using SafeJoin_normal [OF n(1)] node_stable [OF assms(2) n(3) assms(4)] by metis
  show ?thesis using assms(1,2) j b k n(2)
    by (auto simp: restorable_quiet less_staged_def split: option.split)
qed

definition stays_owned :: "uninstallPlanEntry \<Rightarrow> bool" where
  "stays_owned item \<longleftrightarrow> up_action item = actionKeep"

lemma item_agrees:
  assumes q: "quiet w0" "less_staged S w0 w" and i: "normal_item K item" "up_path item \<notin> S" "S \<subseteq> K"
    and pv: "previewUninstallItem sha item pr w0 = (None, pr', wp)"
    and un: "applyUninstallItem sha item u w = (Inr again, u', w')"
  shows "wp = w0 \<and> (\<exists>xs ys. set xs \<union> set ys \<subseteq> {up_path item} \<and>
      ur_removed pr' = ur_removed pr @ xs \<and> ur_preserved pr' = ur_preserved pr @ ys \<and>
      ur_restored pr' = ur_restored pr @ (if again then [up_path item] else []) \<and>
      ur_removed (un_result u') = ur_removed (un_result u) @ (if stays_owned item then [] else xs) \<and>
      ur_preserved (un_result u') = ur_preserved (un_result u) @ (if stays_owned item then [] else ys) \<and>
      ur_restored (un_result u') = ur_restored (un_result u) \<and> ur_notApplied (un_result u') = ur_notApplied (un_result u)) \<and>
    (less_staged S w0 w' \<or> less_staged (insert (up_path item) S) w0 w')"
proof -
  let ?k = "up_path item" and ?e = "up_entry item"
  have n: "NormalizeRelPath ?k = Some ?k" "\<not> beneath staging_dir ?k" using i(1) by (simp_all add: normal_item_def)
  obtain c where c0: "classifyRemoval sha ?k ?e w0 = (c, w0)" using q(1) classify_quiet by blast
  have c: "classifyRemoval sha ?k ?e w = (c, w)" using classify_stable [OF q n i(2)] c0 by simp
  obtain b where b0: "restorablePreExisting sha ?e w0 = (b, w0)" using q(1) restorable_quiet by blast
  have b: "restorablePreExisting sha ?e w = (b, w)" using restorable_stable [OF q i] b0 by simp
  show ?thesis
  proof (cases "up_action item")
    case actionKeep
    then have "again = False" "u' = u\<lparr>un_manifest := un_manifest u'\<rparr>" "w' = w" using un by (auto simp: applyUninstallItem_def)
    then have un': "un_result u' = un_result u" by (metis uninstalling.select_convs(2) uninstalling.surjective uninstalling.update_convs(1))
    show ?thesis using pv c0 actionKeep \<open>again = False\<close> un' \<open>w' = w\<close> q(2)
      by (auto simp: previewUninstallItem_def stays_owned_def split: sum.splits if_splits)
  next
    case actionPreserve
    then show ?thesis using pv c0 b0 un b q(2)
      by (auto simp: previewUninstallItem_def applyUninstallItem_def stays_owned_def Let_def split: bool.splits)
  next
    case actionRemove
    obtain o1 where o: "c = Inr o1" using pv c0 actionRemove by (cases c) (auto simp: previewUninstallItem_def)
    show ?thesis
    proof (cases o1)
      case removalClean
      obtain q0 where q0: "SafeJoin w ?k = Some q0" "unedited sha ?e (lookup w q0)" using classify_clean c o removalClean by blast
      have q0k: "q0 = ?k" using SafeJoin_normal n(1) q0(1) by blast
      obtain dst where dst: "stageForRemoval ?k ?k w = (Inr dst, w')"
          "un_result u' = (un_result u)\<lparr>ur_removed := ur_removed (un_result u) @ [?k]\<rparr>" "again = False"
        using un actionRemove c o removalClean q0(1) q0k
        by (auto simp: applyUninstallItem_def stageRemoval_def split: prod.splits sum.splits option.splits)
      have "less_staged (insert ?k S) w0 w'"
        by (rule staged_less [OF q(2) q0(1) [unfolded q0k] n(2) _ dst(1)]) (use q0(2) q0k in \<open>auto simp: unedited_def\<close>)
      then show ?thesis using pv c0 o removalClean actionRemove dst by (auto simp: previewUninstallItem_def stays_owned_def)
    qed (use pv c0 c o un actionRemove q(2) in
        \<open>auto simp: previewUninstallItem_def applyUninstallItem_def stageRemoval_def stays_owned_def\<close>)
  qed
qed


section \<open>The whole uninstall\<close>

definition same_lists :: "(string \<Rightarrow> bool) \<Rightarrow> UninstallResult \<Rightarrow> UninstallResult \<Rightarrow> bool" where
  "same_lists moved pr r \<longleftrightarrow> ur_removed r = filter moved (ur_removed pr) \<and> ur_preserved r = filter moved (ur_preserved pr)"

lemma items_agree:
  assumes "preview_items sha items pr w0 = (None, pr', wp)"
    and "uninstall_items sha None i items restores u w = (Inr restores', u', w')"
    and "quiet w0" "less_staged S w0 w" "list_all (normal_item K) items" "S \<subseteq> K" "set (map up_path items) \<subseteq> K"
    and "distinct (map up_path items)" "set (map up_path items) \<inter> S = {}"
    and "\<forall>item \<in> set items. moved (up_path item) \<longleftrightarrow> \<not> stays_owned item"
    and "same_lists moved pr (un_result u)" "ur_restored pr = map oe_path restores" "ur_restored (un_result u) = []"
  shows "same_lists moved pr' (un_result u') \<and> ur_restored pr' = map oe_path restores' \<and> ur_restored (un_result u') = []"
  using assms
proof (induction items arbitrary: i pr restores u w S)
  case Nil
  then show ?case by simp
next
  case (Cons item items)
  obtain x pr1 w1 where pv: "previewUninstallItem sha item pr w0 = (x, pr1, w1)" by (cases "previewUninstallItem sha item pr w0")
  have x: "x = None" using Cons.prems(1) pv by (cases x) auto
  obtain y u1 w2 where un: "applyUninstallItem sha item u w = (y, u1, w2)" by (cases "applyUninstallItem sha item u w")
  obtain again where y: "y = Inr again" using Cons.prems(2) un by (cases y) auto
  have ni: "normal_item K item" "up_path item \<notin> S" using Cons.prems(5,9) by auto
  note k = item_agrees [OF Cons.prems(3,4) ni Cons.prems(6) pv [unfolded x] un [unfolded y]]
  then obtain xs ys where l: "set xs \<union> set ys \<subseteq> {up_path item}" "ur_removed pr1 = ur_removed pr @ xs"
      "ur_preserved pr1 = ur_preserved pr @ ys" "ur_restored pr1 = ur_restored pr @ (if again then [up_path item] else [])"
      "ur_removed (un_result u1) = ur_removed (un_result u) @ (if stays_owned item then [] else xs)"
      "ur_preserved (un_result u1) = ur_preserved (un_result u) @ (if stays_owned item then [] else ys)"
      "ur_restored (un_result u1) = ur_restored (un_result u)" by blast
  have mv: "moved (up_path item) \<longleftrightarrow> \<not> stays_owned item" using Cons.prems(10) by simp
  have "filter moved zs = (if stays_owned item then [] else zs)" if "set zs \<subseteq> {up_path item}" for zs
    using that mv by (induction zs) auto
  then have same: "same_lists moved pr1 (un_result u1)" using Cons.prems(11) l by (simp add: same_lists_def)
  obtain S' where S': "less_staged S' w0 w2" "S' \<subseteq> insert (up_path item) S" using k by blast
  have pv': "preview_items sha items pr1 w0 = (None, pr', wp)" using Cons.prems(1) pv x k by simp
  have un': "uninstall_items sha None (Suc i) items (if again then restores @ [up_entry item] else restores) u1 w2 = (Inr restores', u', w')"
    using Cons.prems(2) un y by simp
  have rs: "ur_restored pr1 = map oe_path (if again then restores @ [up_entry item] else restores)"
    using l(4) Cons.prems(12) ni(1) by (simp add: normal_item_def)
  show ?case
  proof (rule Cons.IH [OF pv' un' Cons.prems(3) S'(1)])
    have "up_path item \<notin> set (map up_path items)" "set (map up_path items) \<inter> S = {}" using Cons.prems(8,9) by auto
    then show "set (map up_path items) \<inter> S' = {}" using S'(2) by blast
    show "S' \<subseteq> K" using S'(2) Cons.prems(6,7) by auto
  qed (use Cons.prems(5,7,8,10,13) same rs l(7) in auto)
qed

lemma restores_results: "uninstall_restores sha es result w = (None, result', w') \<Longrightarrow>
    ur_removed result' = ur_removed result \<and> ur_preserved result' = ur_preserved result \<and>
    ur_restored result' = ur_restored result @ map oe_path es"
proof (induction es arbitrary: result w)
  case (Cons e es)
  obtain x w1 where r: "restoreEntry sha e w = (x, w1)" by fastforce
  obtain y where "x = Inr y" using Cons.prems r by (cases x) auto
  then show ?case using Cons.IH [of "result\<lparr>ur_restored := ur_restored result @ [oe_path e]\<rparr>" w1] Cons.prems r by simp
qed simp

text \<open>A manifest in normal form: every key is a clean path, is its entry's path, lies outside the staging
  directory, and is no entry's backup.\<close>

definition normal_manifest :: "OwnershipManifest \<Rightarrow> bool" where
  "normal_manifest m \<longleftrightarrow> wf_map (om_entries m) \<and>
    list_all (\<lambda>(k, e). normal_item (set (mkeys (om_entries m)))
      \<lparr>up_path = k, up_action = actionKeep, up_entry = e, up_remaining = []\<rparr>) (om_entries m)"

text \<open>The keys of the entries that an owner not selected still holds.\<close>

definition kept_by_others :: "OwnershipManifest \<Rightarrow> string list \<Rightarrow> string \<Rightarrow> bool" where
  "kept_by_others m selected k \<longleftrightarrow>
    list_ex (\<lambda>owner. owner \<notin> set (keepSharedSkills m selected)) (oe_targets (mget zero_entry (om_entries m) k))"

lemma loaded_lookup:
  assumes "LoadOwnershipManifest (Stored m) w = Inr m'"
  shows "map_of (om_entries m') k = map_option load_entry (map_of (om_entries m) k)" "mkeys (om_entries m') = mkeys (om_entries m)"
    "keepSharedSkills m' sel = keepSharedSkills m sel"
proof -
  have m': "om_entries m' = map (\<lambda>(p, e). (p, load_entry e)) (om_entries m)"
    using assms by (auto simp: LoadOwnershipManifest_def split: if_splits)
  have "map_of (map (\<lambda>(p, e). (p, load_entry e)) es) k = map_option load_entry (map_of es k)" for es
    by (induction es) auto
  then show "map_of (om_entries m') k = map_option load_entry (map_of (om_entries m) k)" by (simp add: m')
  show "mkeys (om_entries m') = mkeys (om_entries m)" by (simp add: m' mkeys_def comp_def case_prod_beta)
  show "keepSharedSkills m' sel = keepSharedSkills m sel"
    by (simp add: keepSharedSkills_def m' list_ex_iff case_prod_beta)
qed

lemma load_entry_backup [simp]: "oe_backup (load_entry e) = oe_backup e"
  by (simp add: load_entry_def Let_def)

lemma plan_normal:
  assumes m: "normal_manifest m" and l: "LoadOwnershipManifest (Stored m) w = Inr m'"
  shows "list_all (normal_item (set (mkeys (om_entries m)))) (planUninstall m' sel)"
    "distinct (map up_path (planUninstall m' sel))" "set (map up_path (planUninstall m' sel)) = set (mkeys (om_entries m))"
    "item \<in> set (planUninstall m' (keepSharedSkills m' sel)) \<Longrightarrow> stays_owned item \<longleftrightarrow> kept_by_others m sel (up_path item)"
proof -
  have paths: "map up_path (planUninstall m' sel) = sorted_keys (om_entries m')" for sel
    by (simp add: planUninstall_def sortedEntryPaths_def comp_def plan_entry_def Let_def)
  have wf: "wf_map (om_entries m')" using m loaded_lookup(2) [OF l] by (simp add: normal_manifest_def wf_map_def)
  show "distinct (map up_path (planUninstall m' sel))" using distinct_sorted_keys [OF wf] paths by simp
  show "set (map up_path (planUninstall m' sel)) = set (mkeys (om_entries m))" using loaded_lookup(2) [OF l] by (simp add: paths)
  have item: "\<exists>k e. item = plan_entry sel k (load_entry e) \<and> map_of (om_entries m) k = Some e" if i: "item \<in> set (planUninstall m' sel)" for sel item
  proof -
    obtain k where k: "k \<in> set (mkeys (om_entries m))" "item = plan_entry sel k (mget zero_entry (om_entries m') k)"
      using i loaded_lookup(2) [OF l] by (auto simp: planUninstall_def sortedEntryPaths_def)
    then obtain e where "map_of (om_entries m) k = Some e" by (auto simp: mhas_keys [symmetric] mhas_def)
    then show ?thesis using k loaded_lookup(1) [OF l, of k] by (auto simp: mget_def)
  qed
  show "list_all (normal_item (set (mkeys (om_entries m)))) (planUninstall m' sel)"
    unfolding list_all_iff
  proof
    fix item assume "item \<in> set (planUninstall m' sel)"
    then obtain k e where k: "item = plan_entry sel k (load_entry e)" "map_of (om_entries m) k = Some e" using item by blast
    then have "(k, e) \<in> set (om_entries m)" by (simp add: map_of_SomeD)
    then show "normal_item (set (mkeys (om_entries m))) item" using m k(1)
      by (fastforce simp: normal_manifest_def list_all_iff normal_item_def plan_entry_def Let_def)
  qed
  assume "item \<in> set (planUninstall m' (keepSharedSkills m' sel))"
  then obtain k e where "item = plan_entry (keepSharedSkills m' sel) k (load_entry e)" "map_of (om_entries m) k = Some e" using item by blast
  then show "stays_owned item \<longleftrightarrow> kept_by_others m sel (up_path item)"
    using loaded_lookup(3) [OF l]
    by (auto simp: stays_owned_def plan_entry_def Let_def kept_by_others_def mget_def list_ex_iff filter_empty_conv)
qed

text \<open>C24: When no call fails, the preview says what uninstalling then does, of a manifest in normal form:
  the same files restored, and the same removed and preserved, except that the preview also lists every entry
  that stays because another owner holds it, as removed or preserved by its content.\<close>

theorem preview_predicts_uninstall:
  assumes pv: "PreviewUninstall sha rootDir targets (Stored m) w = (None, pr, wp)"
    and un: "UninstallContext sha None rootDir targets (Stored m) w = (None, r, st', w')"
    and q: "quiet w" and m: "normal_manifest m"
  shows "\<exists>selected. selectOwnershipTargets targets = Inr selected \<and>
    ur_removed r = filter (\<lambda>k. \<not> kept_by_others m selected k) (ur_removed pr) \<and>
    ur_preserved r = filter (\<lambda>k. \<not> kept_by_others m selected k) (ur_preserved pr) \<and>
    ur_restored r = ur_restored pr"
proof -
  obtain sel where sel: "selectOwnershipTargets targets = Inr sel"
    using pv by (auto simp: PreviewUninstall_def split: if_splits sum.splits)
  have "LoadOwnershipManifest (Stored m) w \<noteq> Inl NotExist" by (simp add: LoadOwnershipManifest_def)
  then obtain m' where l: "LoadOwnershipManifest (Stored m) w = Inr m'"
    using pv sel by (auto simp: PreviewUninstall_def split: if_splits sum.splits)
  define plan where "plan = planUninstall m' (keepSharedSkills m' sel)"
  have p: "preview_items sha plan empty_uninstall w = (None, pr, wp)"
    using pv sel l by (simp add: PreviewUninstall_def plan_def split: if_splits)
  let ?u = "\<lparr>un_manifest = m', un_result = empty_uninstall, un_staged = []\<rparr>"
  obtain x u1 w1 where i: "uninstall_items sha None 0 plan [] ?u w = (x, u1, w1)" by (cases "uninstall_items sha None 0 plan [] ?u w")
  obtain rs where x: "x = Inr rs" using un sel l i
    by (cases x) (auto simp: UninstallContext_def applyUninstallPlan_def plan_def split: if_splits)
  obtain err res w2 where rs: "uninstall_restores sha rs (un_result u1) w1 = (err, res, w2)"
    by (cases "uninstall_restores sha rs (un_result u1) w1")
  have err: "err = None" using un sel l i x rs
    by (cases err) (auto simp: UninstallContext_def applyUninstallPlan_def plan_def split: if_splits)
  have r: "r = res" using un sel l i x rs err
    by (auto simp: UninstallContext_def applyUninstallPlan_def plan_def finishUninstall_def split: if_splits prod.splits)
  have "less_staged {} w w" using q by (simp add: less_staged_def)
  then have "same_lists (\<lambda>k. \<not> kept_by_others m sel k) pr (un_result u1) \<and> ur_restored pr = map oe_path rs \<and> ur_restored (un_result u1) = []"
    using plan_normal(1-3) [OF m l] plan_normal(4) [OF m l]
    by (intro items_agree [OF p i [unfolded x] q, where K = "set (mkeys (om_entries m))"])
      (auto simp: plan_def same_lists_def empty_uninstall_def)
  then show ?thesis using sel restores_results [OF rs [unfolded err]] r by (auto simp: same_lists_def)
qed


text \<open>The shared file is listed as removed by the preview, and stays.\<close>

theorem preview_predicts_uninstall_witness:
  "ur_removed (fst (snd (PreviewUninstall demo_sha ''/'' [TargetOpenCode] (Stored own_demo_manifest) own_demo_world))) = [''a.md'', ''s.md''] \<and>
   ur_removed (fst (snd (UninstallContext demo_sha None ''/'' [TargetOpenCode] (Stored own_demo_manifest) own_demo_world))) = [''a.md'']"
proof
  obtain err pr wp where p: "PreviewUninstall demo_sha ''/'' [TargetOpenCode] (Stored own_demo_manifest) own_demo_world = (err, pr, wp)"
    by (cases "PreviewUninstall demo_sha ''/'' [TargetOpenCode] (Stored own_demo_manifest) own_demo_world")
  obtain err2 r st' w' where u: "UninstallContext demo_sha None ''/'' [TargetOpenCode] (Stored own_demo_manifest) own_demo_world = (err2, r, st', w')"
    by (cases "UninstallContext demo_sha None ''/'' [TargetOpenCode] (Stored own_demo_manifest) own_demo_world")
  have "fst (PreviewUninstall demo_sha ''/'' [TargetOpenCode] (Stored own_demo_manifest) own_demo_world) = None"
    "fst (UninstallContext demo_sha None ''/'' [TargetOpenCode] (Stored own_demo_manifest) own_demo_world) = None" by code_simp+
  then have ok: "err = None" "err2 = None" using p u by simp_all
  have q: "quiet own_demo_world" "normal_manifest own_demo_manifest" by code_simp+
  show R: "ur_removed (fst (snd (PreviewUninstall demo_sha ''/'' [TargetOpenCode] (Stored own_demo_manifest) own_demo_world))) = [''a.md'', ''s.md'']"
    by code_simp
  have "selectOwnershipTargets [TargetOpenCode] = Inr [TargetOpenCode]" "\<not> kept_by_others own_demo_manifest [TargetOpenCode] ''a.md''"
    "kept_by_others own_demo_manifest [TargetOpenCode] ''s.md''" by code_simp+
  then show "ur_removed (fst (snd (UninstallContext demo_sha None ''/'' [TargetOpenCode] (Stored own_demo_manifest) own_demo_world))) = [''a.md'']"
    using preview_predicts_uninstall [OF p [unfolded ok] u [unfolded ok] q] R p u by simp
qed


text \<open>
  An uninstall that fails is undone only as far as it was staged: an entry restored before the failing one
  keeps its restored content, while the manifest still records it as managed.
\<close>

definition two_restores :: "OwnershipEntry list" where
  "two_restores = [own_demo_entry ''conf'' True [TargetOpenCode],
     (own_demo_entry ''e.md'' True [TargetOpenCode])\<lparr>oe_prior := []\<rparr>]"

lemma failed_uninstall_keeps_restored:
  "case uninstall_restores demo_sha two_restores empty_uninstall own_demo_world of
     (err, _, w') \<Rightarrow> err = Some BackupMismatch \<and>
       lookup (undo_uninstall \<lparr>un_manifest = own_demo_manifest, un_result = empty_uninstall, un_staged = []\<rparr> w') ''conf'' =
         Some (NFile ''old'' 420)"
  by code_simp

end
