(* ===== verification/Setup_Apply.thy ===== *)
theory Setup_Apply
  imports Setup_Deploy Setup_Uninstall Cfg_Json
begin

text \<open>
  Applying plans (the first half of \<open>takt/setup/operations.go\<close>, with \<open>config_merge.go\<close> and
  \<open>provider_actions.go\<close>): the plans are flattened, paths the user keeps are left out, the content on disk
  is backed up, the batch is deployed, ownership is recorded and the integration commands run. The decoding
  of the servers in a configuration file, the executables and the commands are arguments; so is what other
  processes write between the backups and the deployment, and during its commit.
\<close>

section \<open>Plans\<close>

record ProviderAction =
  pa_ID :: string
  pa_Program :: string
  pa_Args :: "string list"

record TargetPlan =
  tp_Target :: string
  tp_ManagedPaths :: "string list"
  tp_Artifacts :: "Artifact list"
  tp_Actions :: "ProviderAction list"

datatype plan_error =
    NoPlans | NoIdentity | DuplicatePlan | NoManagedPaths | BadManagedPath | BadArtifactPath | ForeignPath

datatype action_error = NoActionID | BadActionID | NoProgram | BadProgram | BadArgument | DuplicateAction | NotFound | ActionFailed string

datatype apply_error =
    RootNeeded | PlanErr plan_error | OwnErr own_error | DeployErr deploy_error | ActionErr action_error
  | ConfigUnreadable string | CarryFailed string | BackupFailedFor string | OtherBackup string

type_synonym 'a applying = "world \<Rightarrow> (apply_error + 'a) \<times> world"

text \<open>\<open>strings.TrimSpace\<close>: white space is dropped in front, then everything from the first blank rest on.\<close>

fun trim_right :: "string \<Rightarrow> string" where
  "trim_right [] = []"
| "trim_right (c # s) = (if blank (c # s) then [] else c # trim_right s)"

definition trim_space :: "string \<Rightarrow> string" where
  "trim_space s = trim_right (map char_of (drop_spaces (map of_char s)))"

record flattenedPlans =
  fl_managedPaths :: "string list"
  fl_artifacts :: "Artifact list"
  fl_targetByPath :: "(string, string) gomap"

definition claim_path :: "string \<Rightarrow> string \<Rightarrow> flattenedPlans \<Rightarrow> plan_error + flattenedPlans" where
  "claim_path clean target flat =
    (if mhas (fl_targetByPath flat) clean \<and> mget [] (fl_targetByPath flat) clean \<noteq> target then Inl ForeignPath
     else Inr (flat\<lparr>fl_targetByPath := mput clean target (fl_targetByPath flat)\<rparr>))"

fun add_managed :: "string \<Rightarrow> string list \<Rightarrow> flattenedPlans \<Rightarrow> plan_error + flattenedPlans" where
  "add_managed target [] flat = Inr flat"
| "add_managed target (p # ps) flat =
    (case NormalizeRelPath p of
       None \<Rightarrow> Inl BadManagedPath
     | Some clean \<Rightarrow> and_then (claim_path clean target flat) (\<lambda>flat1.
         add_managed target ps (flat1\<lparr>fl_managedPaths := fl_managedPaths flat1 @ [clean]\<rparr>)))"

fun add_artifacts :: "string \<Rightarrow> Artifact list \<Rightarrow> flattenedPlans \<Rightarrow> plan_error + flattenedPlans" where
  "add_artifacts target [] flat = Inr flat"
| "add_artifacts target (a # as) flat =
    (case NormalizeRelPath (art_path a) of
       None \<Rightarrow> Inl BadArtifactPath
     | Some clean \<Rightarrow> and_then (claim_path clean target flat) (\<lambda>flat1.
         add_artifacts target as (flat1\<lparr>fl_artifacts := fl_artifacts flat1 @ [a\<lparr>art_path := clean\<rparr>]\<rparr>)))"

definition addPlan :: "string \<Rightarrow> TargetPlan \<Rightarrow> string list \<Rightarrow> flattenedPlans \<Rightarrow> plan_error + string list \<times> flattenedPlans" where
  "addPlan target plan seenTargets flat =
    (if target = [] then Inl NoIdentity
     else if target \<in> set seenTargets then Inl DuplicatePlan
     else if tp_ManagedPaths plan = [] then Inl NoManagedPaths
     else and_then (add_managed target (tp_ManagedPaths plan) flat) (\<lambda>flat1.
       and_then (add_artifacts target (tp_Artifacts plan) flat1) (\<lambda>flat2. Inr (target # seenTargets, flat2))))"

fun flatten_from :: "TargetPlan list \<Rightarrow> string list \<Rightarrow> flattenedPlans \<Rightarrow> plan_error + flattenedPlans" where
  "flatten_from [] seenTargets flat = Inr flat"
| "flatten_from (plan # plans) seenTargets flat =
    and_then (addPlan (trim_space (tp_Target plan)) plan seenTargets flat) (\<lambda>(seen1, flat1). flatten_from plans seen1 flat1)"

definition flattenPlans :: "TargetPlan list \<Rightarrow> plan_error + flattenedPlans" where
  "flattenPlans plans =
    (if plans = [] then Inl NoPlans
     else flatten_from plans [] \<lparr>fl_managedPaths = [], fl_artifacts = [], fl_targetByPath = []\<rparr>)"

text \<open>The paths to keep: the keys of a set, each once.\<close>

definition skipSet :: "string list \<Rightarrow> string list" where
  "skipSet preserve = remdups preserve"

fun expand_skip :: "(string \<Rightarrow> string) \<Rightarrow> OwnershipManifest \<Rightarrow> Artifact list \<Rightarrow> string list \<Rightarrow> string list applying" where
  "expand_skip sha m [] skip w = (Inr skip, w)"
| "expand_skip sha m (a # as) skip w =
    (case map_of (om_entries m) (art_path a) of
       None \<Rightarrow> expand_skip sha m as skip w
     | Some entry \<Rightarrow>
         (case managedRegularState sha (art_path a) entry w of
            (Inl e, w1) \<Rightarrow> (Inl (OwnErr e), w1)
          | (Inr (state, _), w1) \<Rightarrow>
              expand_skip sha m as (if state = managedChanged then List.insert (art_path a) skip else skip) w1))"

definition expandSkipWithLocalEdits :: "(string \<Rightarrow> string) \<Rightarrow> OwnershipManifest \<Rightarrow> Artifact list \<Rightarrow> string list \<Rightarrow> string list applying" where
  "expandSkipWithLocalEdits sha m artifacts preserve = expand_skip sha m artifacts (skipSet preserve)"

definition activeWithoutSkipped :: "flattenedPlans \<Rightarrow> string list \<Rightarrow> string list \<times> Artifact list" where
  "activeWithoutSkipped flat skip =
    (filter (\<lambda>p. p \<notin> set skip) (fl_managedPaths flat), filter (\<lambda>a. art_path a \<notin> set skip) (fl_artifacts flat))"

section \<open>Configuration the user already has\<close>

definition OpenCodeConfigRelativePath :: string where
  "OpenCodeConfigRelativePath = ''.config/opencode/opencode.json''"

definition injectedMCPServers :: "string list" where
  "injectedMCPServers = [''engram'', ''codegraph'']"

definition isMergeableConfig :: "string \<Rightarrow> bool" where
  "isMergeableConfig p = has_suffix p ''.json''"

text \<open>\<open>filemerge.ReadRegularFile\<close> where a missing file is told apart.\<close>

definition read_present :: "string \<Rightarrow> string option owning" where
  "read_present p w =
    (case sys_lstat p w of
       (Inl ENotExist, w1) \<Rightarrow> (Inr None, w1)
     | (Inl _, w1) \<Rightarrow> (Inl IOFailed, w1)
     | (Inr (NLink _), w1) \<Rightarrow> (Inl IOFailed, w1)
     | (Inr _, w1) \<Rightarrow> (case sys_read p w1 of (Inl _, w2) \<Rightarrow> (Inl IOFailed, w2) | (Inr c, w2) \<Rightarrow> (Inr (Some c), w2)))"

definition mergePreexistingConfig :: "codec \<Rightarrow> OwnershipManifest \<Rightarrow> Artifact \<Rightarrow> Artifact applying" where
  "mergePreexistingConfig cd m a w =
    (if \<not> isMergeableConfig (art_path a) \<or> mhas (om_entries m) (art_path a) then (Inr a, w)
     else case read_present (art_path a) w of
       (Inl _, w1) \<Rightarrow> (Inl (ConfigUnreadable (art_path a)), w1)
     | (Inr None, w1) \<Rightarrow> (Inr a, w1)
     | (Inr (Some existing), w1) \<Rightarrow>
         (if trim_space existing = trim_space (art_content a) \<or> trim_space existing = [] then (Inr a, w1)
          else case MergeJSONObjects cd existing (art_content a) of
            Inl _ \<Rightarrow> (Inr a, w1)
          | Inr merged \<Rightarrow> (Inr (a\<lparr>art_content := merged\<rparr>), w1)))"

text \<open>The overlay with the servers carried over, its members in the order of their keys.\<close>

definition carried_overlay :: "json_object \<Rightarrow> json" where
  "carried_overlay carried = JObj [(MCPKeyOpenCode, JObj [(MCPServersKeyOpenCode, JObj carried)])]"

definition carried_servers :: "json_object \<Rightarrow> json_object" where
  "carried_servers servers =
    fold (\<lambda>name carried. case map_of servers name of None \<Rightarrow> carried | Some v \<Rightarrow> oput name v carried) injectedMCPServers []"

definition carryInjectedMCPServers :: "codec \<Rightarrow> (string \<Rightarrow> json_object option) \<Rightarrow> Artifact \<Rightarrow> Artifact applying" where
  "carryInjectedMCPServers cd decoded a w =
    (if art_path a \<noteq> OpenCodeConfigRelativePath then (Inr a, w)
     else case read_present (art_path a) w of
       (Inl _, w1) \<Rightarrow> (Inl (ConfigUnreadable (art_path a)), w1)
     | (Inr None, w1) \<Rightarrow> (Inr a, w1)
     | (Inr (Some existing), w1) \<Rightarrow>
         (case decoded existing of
            None \<Rightarrow> (Inr a, w1)
          | Some servers \<Rightarrow>
              let carried = carried_servers servers
              in if carried = [] then (Inr a, w1)
                 else case MergeJSONObjects cd (art_content a) (cd_encode cd (carried_overlay carried)) of
                   Inl _ \<Rightarrow> (Inl (CarryFailed (art_path a)), w1)
                 | Inr merged \<Rightarrow> (Inr (a\<lparr>art_content := merged\<rparr>), w1)))"

fun merge_each :: "codec \<Rightarrow> (string \<Rightarrow> json_object option) \<Rightarrow> OwnershipManifest \<Rightarrow> Artifact list \<Rightarrow> Artifact list applying" where
  "merge_each cd decoded m [] w = (Inr [], w)"
| "merge_each cd decoded m (a # as) w =
    (case mergePreexistingConfig cd m a w of
       (Inl e, w1) \<Rightarrow> (Inl e, w1)
     | (Inr merged, w1) \<Rightarrow>
         (case carryInjectedMCPServers cd decoded merged w1 of
            (Inl e, w2) \<Rightarrow> (Inl e, w2)
          | (Inr carried, w2) \<Rightarrow>
              (case merge_each cd decoded m as w2 of
                 (Inl e, w3) \<Rightarrow> (Inl e, w3)
               | (Inr rest, w3) \<Rightarrow> (Inr (carried # rest), w3))))"

definition loadOrCreateManifest :: "stored \<Rightarrow> world \<Rightarrow> own_error + OwnershipManifest" where
  "loadOrCreateManifest st w =
    (case LoadOwnershipManifest st w of Inl e \<Rightarrow> if e = NotExist then Inr NewOwnershipManifest else Inl e | Inr m \<Rightarrow> Inr m)"

record prepared =
  pr_paths :: "string list"
  pr_artifacts :: "Artifact list"
  pr_targetByPath :: "(string, string) gomap"
  pr_manifest :: OwnershipManifest

definition prepareApply :: "codec \<Rightarrow> (string \<Rightarrow> json_object option) \<Rightarrow> TargetPlan list \<Rightarrow> string list \<Rightarrow>
    OwnershipManifest option \<Rightarrow> stored \<Rightarrow> prepared applying" where
  "prepareApply cd decoded plans skip manifest st w =
    (case flattenPlans plans of
       Inl e \<Rightarrow> (Inl (PlanErr e), w)
     | Inr flat \<Rightarrow>
         (case (case manifest of Some m \<Rightarrow> Inr m | None \<Rightarrow> loadOrCreateManifest st w) of
            Inl e \<Rightarrow> (Inl (OwnErr e), w)
          | Inr m \<Rightarrow>
              (case activeWithoutSkipped flat skip of
                 (paths, artifacts) \<Rightarrow>
                   (case merge_each cd decoded m artifacts w of
                      (Inl e, w1) \<Rightarrow> (Inl e, w1)
                    | (Inr merged, w1) \<Rightarrow>
                        (Inr \<lparr>pr_paths = paths, pr_artifacts = merged, pr_targetByPath = fl_targetByPath flat, pr_manifest = m\<rparr>, w1)))))"

section \<open>Backups\<close>

definition BackupDir :: string where
  "BackupDir = ''.takt-backups''"

record priorState =
  ps_preExisting :: bool
  ps_priorSHA256 :: string
  ps_backupPath :: string
  ps_mode :: nat
  ps_copied :: string
  ps_observed :: bool
  ps_observedSHA256 :: string

definition zero_prior :: priorState where
  "zero_prior = \<lparr>ps_preExisting = False, ps_priorSHA256 = [], ps_backupPath = [], ps_mode = 0, ps_copied = [],
     ps_observed = False, ps_observedSHA256 = []\<rparr>"

definition holdsOtherBackup :: "string \<Rightarrow> string \<Rightarrow> world \<Rightarrow> bool \<times> world" where
  "holdsOtherBackup dest content w =
    (case sys_lstat dest w of
       (Inr (NFile _ _), w1) \<Rightarrow> (case ReadRegularFile dest w1 of (r, w2) \<Rightarrow> (r \<noteq> Inr content, w2))
     | (_, w1) \<Rightarrow> (False, w1))"

text \<open>The place of the copy: the path under the backup directory, or one with a suffix when that is taken.\<close>

definition backup_place :: "(string \<Rightarrow> string) \<Rightarrow> string \<Rightarrow> string \<Rightarrow> (string \<times> string) applying" where
  "backup_place sha p content w =
    (let rel = path_join BackupDir p
     in case SafeJoin w rel of
       None \<Rightarrow> (Inl (BackupFailedFor p), w)
     | Some dest \<Rightarrow>
         (case sys_lstat dest w of
            (Inl _, w1) \<Rightarrow> (Inr (rel, dest), w1)
          | (Inr _, w1) \<Rightarrow>
              (case ReadRegularFile dest w1 of
                 (r, w2) \<Rightarrow>
                   if r = Inr content then (Inr (rel, dest), w2)
                   else
                     let rel2 = rel @ ''.'' @ take 8 (sha content)
                     in case SafeJoin w2 rel2 of
                       None \<Rightarrow> (Inl (BackupFailedFor p), w2)
                     | Some dest2 \<Rightarrow>
                         (case holdsOtherBackup dest2 content w2 of
                            (True, w3) \<Rightarrow> (Inl (OtherBackup rel2), w3)
                          | (False, w3) \<Rightarrow> (Inr (rel2, dest2), w3)))))"

definition backupContent :: "(string \<Rightarrow> string) \<Rightarrow> string \<Rightarrow> string \<Rightarrow> nat \<Rightarrow> string applying" where
  "backupContent sha p content mode w =
    (case backup_place sha p content w of
       (Inl e, w1) \<Rightarrow> (Inl e, w1)
     | (Inr (rel, dest), w1) \<Rightarrow>
         (let directory = path_dir dest
          in case sys_mkdir_all directory w1 of
            (Inl _, w2) \<Rightarrow> (Inl (BackupFailedFor p), w2)
          | (Inr _, w2) \<Rightarrow>
              (case sys_stage directory content mode w2 of
                 (Inl _, w3) \<Rightarrow> (Inl (BackupFailedFor p), w3)
               | (Inr t, w3) \<Rightarrow>
                   (case sys_install t dest w3 of
                      (Inl _, w4) \<Rightarrow> (Inl (BackupFailedFor p), snd (sys_remove_temp t w4))
                    | (Inr _, w4) \<Rightarrow>
                        (case sys_sync directory w4 of
                           (Inl _, w5) \<Rightarrow> (Inl (BackupFailedFor p), w5)
                         | (Inr _, w5) \<Rightarrow> (Inr rel, w5))))))"

definition backedUpState :: "(string \<Rightarrow> string) \<Rightarrow> string \<Rightarrow> string \<Rightarrow> nat \<Rightarrow> priorState applying" where
  "backedUpState sha p content mode w =
    (case backupContent sha p content mode w of
       (Inl e, w1) \<Rightarrow> (Inl e, w1)
     | (Inr backup, w1) \<Rightarrow>
         (Inr (zero_prior\<lparr>ps_priorSHA256 := sha content, ps_backupPath := backup, ps_mode := mode, ps_copied := backup\<rparr>), w1))"

fun mode_of :: "fsnode \<Rightarrow> nat" where
  "mode_of (NFile _ mode) = mode"
| "mode_of _ = 511"

definition managedPriorState :: "(string \<Rightarrow> string) \<Rightarrow> string \<Rightarrow> OwnershipEntry \<Rightarrow> priorState applying" where
  "managedPriorState sha p entry w =
    (let state = zero_prior\<lparr>ps_preExisting := oe_preExisting entry, ps_priorSHA256 := oe_prior entry,
           ps_backupPath := oe_backup entry, ps_mode := oe_mode entry\<rparr>
     in case SafeJoin w p of
       None \<Rightarrow> (Inl (OwnErr EscapesRoot), w)
     | Some destination \<Rightarrow>
         (case managedFileState sha destination entry w of
            (Inl e, w1) \<Rightarrow> (Inl (OwnErr e), w1)
          | (Inr (current, content), w1) \<Rightarrow>
              let state1 = (case current of
                     managedMissing \<Rightarrow> state\<lparr>ps_observed := True\<rparr>
                   | managedNotRegular \<Rightarrow> state
                   | _ \<Rightarrow> state\<lparr>ps_observed := True, ps_observedSHA256 := sha (the content)\<rparr>)
              in if current \<noteq> managedChanged then (Inr state1, w1)
                 else case sys_lstat destination w1 of
                   (Inl _, w2) \<Rightarrow> (Inl (OwnErr IOFailed), w2)
                 | (Inr n, w2) \<Rightarrow>
                     (case backedUpState sha p (the content) (mode_of n) w2 of
                        (Inl e, w3) \<Rightarrow> (Inl e, w3)
                      | (Inr edited, w3) \<Rightarrow>
                          let state2 = (if oe_preExisting entry then state1
                                else state1\<lparr>ps_priorSHA256 := ps_priorSHA256 edited, ps_backupPath := ps_backupPath edited,
                                  ps_mode := ps_mode edited\<rparr>)
                          in (Inr (state2\<lparr>ps_copied := ps_backupPath edited\<rparr>), w3))))"

definition preexistingPriorState :: "(string \<Rightarrow> string) \<Rightarrow> string \<Rightarrow> priorState applying" where
  "preexistingPriorState sha p w =
    (let state = zero_prior\<lparr>ps_mode := ManagedFileMode\<rparr>
     in case SafeJoin w p of
       None \<Rightarrow> (Inl (OwnErr EscapesRoot), w)
     | Some destination \<Rightarrow>
         (case sys_lstat destination w of
            (Inl ENotExist, w1) \<Rightarrow> (Inr (state\<lparr>ps_observed := True\<rparr>), w1)
          | (Inl _, w1) \<Rightarrow> (Inl (OwnErr IOFailed), w1)
          | (Inr (NFile _ mode), w1) \<Rightarrow>
              (case ReadRegularFile destination w1 of
                 (Inl e, w2) \<Rightarrow> (Inl (OwnErr e), w2)
               | (Inr current, w2) \<Rightarrow>
                   (case backedUpState sha p current mode w2 of
                      (Inl e, w3) \<Rightarrow> (Inl e, w3)
                    | (Inr s, w3) \<Rightarrow>
                        (Inr (s\<lparr>ps_preExisting := True, ps_observed := True, ps_observedSHA256 := ps_priorSHA256 s\<rparr>), w3)))
          | (Inr _, w1) \<Rightarrow> (Inr state, w1)))"

definition priorStateFor :: "(string \<Rightarrow> string) \<Rightarrow> OwnershipManifest \<Rightarrow> string \<Rightarrow> priorState applying" where
  "priorStateFor sha m p =
    (case map_of (om_entries m) p of Some entry \<Rightarrow> managedPriorState sha p entry | None \<Rightarrow> preexistingPriorState sha p)"

fun collect_priors :: "(string \<Rightarrow> string) \<Rightarrow> OwnershipManifest \<Rightarrow> Artifact list \<Rightarrow> (string, priorState) gomap \<Rightarrow>
    (string, priorState) gomap applying" where
  "collect_priors sha m [] priors w = (Inr priors, w)"
| "collect_priors sha m (a # as) priors w =
    (case priorStateFor sha m (art_path a) w of
       (Inl e, w1) \<Rightarrow> (Inl e, w1)
     | (Inr state, w1) \<Rightarrow> collect_priors sha m as (mput (art_path a) state priors) w1)"

definition collectPriorStates :: "(string \<Rightarrow> string) \<Rightarrow> OwnershipManifest \<Rightarrow> Artifact list \<Rightarrow> (string, priorState) gomap applying" where
  "collectPriorStates sha m artifacts = collect_priors sha m artifacts []"

definition observedFrom :: "(string, priorState) gomap \<Rightarrow> (string, string) gomap" where
  "observedFrom priors = map (\<lambda>(p, s). (p, ps_observedSHA256 s)) (filter (\<lambda>(_, s). ps_observed s) priors)"

section \<open>What is reported and recorded\<close>

record Backup =
  bk_Path :: string
  bk_Copy :: string

record DeploymentReport = DeploymentResult +
  dr_actions :: "string list"
  dr_retained :: "string list"
  dr_backedUp :: "Backup list"

definition as_report :: "DeploymentResult \<Rightarrow> DeploymentReport" where
  "as_report r = DeploymentResult.extend r \<lparr>dr_actions = [], dr_retained = [], dr_backedUp = []\<rparr>"

definition no_report :: DeploymentReport where
  "no_report = as_report no_deployment"

definition markSkippedPaths :: "string list \<Rightarrow> (string, string) gomap \<Rightarrow> DeploymentReport \<Rightarrow> DeploymentReport" where
  "markSkippedPaths skip targetByPath r =
    r\<lparr>dr_unchanged := sort (dr_unchanged r @ skip),
      dr_retained := sort (dr_retained r @ filter (mhas targetByPath) skip)\<rparr>"

definition markBackedUpPaths :: "(string, priorState) gomap \<Rightarrow> DeploymentReport \<Rightarrow> DeploymentReport" where
  "markBackedUpPaths priors r =
    r\<lparr>dr_backedUp := sort_key bk_Path (dr_backedUp r @
        map (\<lambda>p. \<lparr>bk_Path = p, bk_Copy = ps_copied (mget zero_prior priors p)\<rparr>)
          (filter (\<lambda>p. ps_copied (mget zero_prior priors p) \<noteq> []) (dr_changed r)))\<rparr>"

fun buildOwnershipEntries :: "(string \<Rightarrow> string) \<Rightarrow> Artifact list \<Rightarrow> (string, string) gomap \<Rightarrow> (string, priorState) gomap \<Rightarrow>
    own_error + OwnershipEntry list" where
  "buildOwnershipEntries sha [] targetByPath priors = Inr []"
| "buildOwnershipEntries sha (a # as) targetByPath priors =
    (case OwnershipTargetFor (mget [] targetByPath (art_path a)) of
       None \<Rightarrow> Inl UnknownTarget
     | Some target \<Rightarrow>
         let s = mget zero_prior priors (art_path a)
         in and_then (NewOwnershipEntry sha (art_path a) (art_content a) (ps_mode s) (ps_preExisting s) (ps_priorSHA256 s)
              (ps_backupPath s) [target])
            (\<lambda>entry. and_then (buildOwnershipEntries sha as targetByPath priors) (\<lambda>entries. Inr (entry # entries))))"

definition notAppliedActions :: "ProviderAction list \<Rightarrow> DeploymentReport \<Rightarrow> DeploymentReport" where
  "notAppliedActions actions r =
    (if dr_notApplied r = [] then r else r\<lparr>dr_notApplied := dr_notApplied r @ map pa_ID actions\<rparr>)"

section \<open>Integration commands\<close>

definition validateProviderActionFields :: "ProviderAction \<Rightarrow> action_error + unit" where
  "validateProviderActionFields a =
    (if trim_space (pa_ID a) = [] then Inl NoActionID
     else if trim_space (pa_ID a) \<noteq> pa_ID a \<or> CHR 0x00 \<in> set (pa_ID a) then Inl BadActionID
     else if trim_space (pa_Program a) = [] then Inl NoProgram
     else if trim_space (pa_Program a) \<noteq> pa_Program a \<or> CHR 0x00 \<in> set (pa_Program a) then Inl BadProgram
     else if list_ex (\<lambda>arg. CHR 0x00 \<in> set arg) (pa_Args a) then Inl BadArgument
     else Inr ())"

definition validateProviderAction :: "(string \<Rightarrow> bool) \<Rightarrow> string list \<Rightarrow> ProviderAction \<Rightarrow> action_error + unit" where
  "validateProviderAction lookPath seen a =
    and_then (validateProviderActionFields a) (\<lambda>_.
      if pa_ID a \<in> set seen then Inl DuplicateAction
      else if \<not> lookPath (pa_Program a) then Inl NotFound else Inr ())"

fun preflight_from :: "(string \<Rightarrow> bool) \<Rightarrow> string list \<Rightarrow> ProviderAction list \<Rightarrow> action_error + unit" where
  "preflight_from lookPath seen [] = Inr ()"
| "preflight_from lookPath seen (a # as) =
    and_then (validateProviderAction lookPath seen a) (\<lambda>_. preflight_from lookPath (pa_ID a # seen) as)"

definition preflightProviderActions :: "(string \<Rightarrow> bool) \<Rightarrow> TargetPlan list \<Rightarrow> action_error + ProviderAction list" where
  "preflightProviderActions lookPath plans =
    (let actions = concat (map tp_Actions plans)
     in and_then (preflight_from lookPath [] actions) (\<lambda>_. Inr actions))"

fun executeProviderActions :: "(ProviderAction \<Rightarrow> world \<Rightarrow> bool \<times> world) \<Rightarrow> ProviderAction list \<Rightarrow> DeploymentReport \<Rightarrow> world \<Rightarrow>
    DeploymentReport \<times> apply_error list \<times> world" where
  "executeProviderActions run [] r w = (r, [], w)"
| "executeProviderActions run (a # as) r w =
    (case run a w of
       (False, w1) \<Rightarrow> (r, [ActionErr (ActionFailed (pa_ID a))], w1)
     | (True, w1) \<Rightarrow> executeProviderActions run as (r\<lparr>dr_actions := dr_actions r @ [pa_ID a]\<rparr>) w1)"

section \<open>The whole operation\<close>

record apply_env =
  ae_sha :: "string \<Rightarrow> string"
  ae_codec :: codec
  ae_servers :: "string \<Rightarrow> json_object option"
  ae_between :: "edit list"
  ae_edits :: "nat \<Rightarrow> edit list"
  ae_cancel :: "nat option"
  ae_lookPath :: "string \<Rightarrow> bool"
  ae_run :: "ProviderAction \<Rightarrow> world \<Rightarrow> bool \<times> world"

definition applyPlans :: "apply_env \<Rightarrow> string \<Rightarrow> TargetPlan list \<Rightarrow> string list \<Rightarrow> OwnershipManifest option \<Rightarrow> stored \<Rightarrow> world \<Rightarrow>
    DeploymentReport \<times> apply_error list \<times> stored \<times> world" where
  "applyPlans env rootDir plans skip manifest st w =
    (case prepareApply (ae_codec env) (ae_servers env) plans skip manifest st w of
       (Inl e, w1) \<Rightarrow> (no_report, [e], st, w1)
     | (Inr pr, w1) \<Rightarrow>
         (case collectPriorStates (ae_sha env) (pr_manifest pr) (pr_artifacts pr) w1 of
            (Inl e, w2) \<Rightarrow> (no_report, [e], st, w2)
          | (Inr priors, w2) \<Rightarrow>
              (case buildOwnershipEntries (ae_sha env) (pr_artifacts pr) (pr_targetByPath pr) priors of
                 Inl e \<Rightarrow> (no_report, [OwnErr e], st, w2)
               | Inr validated \<Rightarrow>
                   (case deployObserved (ae_sha env) (ae_edits env) (ae_cancel env) rootDir (pr_paths pr) (pr_artifacts pr)
                      (observedFrom priors) (fold apply_edit (ae_between env) w2) of
                      (result, es, w3) \<Rightarrow>
                        let stopped = errs_is es ContextErr;
                            report = markBackedUpPaths priors (markSkippedPaths skip (pr_targetByPath pr) (as_report result))
                        in if es \<noteq> [] \<and> \<not> stopped then (report, map DeployErr es, st, w3)
                           else if stopped \<and> dr_changed report = [] then (report, map DeployErr es, st, w3)
                           else case Add (pr_manifest pr) (filter (\<lambda>e. oe_path e \<notin> set (dr_notApplied report)) validated) of
                             Inl e \<Rightarrow> (report, [OwnErr e], st, w3)
                           | Inr m \<Rightarrow>
                               (case Save m st w3 of
                                  (saved, st1, w4) \<Rightarrow>
                                    (report, if saved then map DeployErr es else [OwnErr IOFailed], st1, w4))))))"

definition applyPipeline :: "apply_env \<Rightarrow> string \<Rightarrow> TargetPlan list \<Rightarrow> string list \<Rightarrow> OwnershipManifest option \<Rightarrow> stored \<Rightarrow> world \<Rightarrow>
    DeploymentReport \<times> apply_error list \<times> stored \<times> world" where
  "applyPipeline env rootDir plans skip manifest st w =
    (case preflightProviderActions (ae_lookPath env) plans of
       Inl e \<Rightarrow> (no_report, [ActionErr e], st, w)
     | Inr actions \<Rightarrow>
         (case applyPlans env rootDir plans skip manifest st w of
            (result, es, st1, w1) \<Rightarrow>
              if es \<noteq> [] then (notAppliedActions actions result, es, st1, w1)
              else case executeProviderActions (ae_run env) actions result w1 of
                (result2, es2, w2) \<Rightarrow> (result2, es2, st1, w2)))"

definition ApplyContextProgress :: "apply_env \<Rightarrow> string \<Rightarrow> TargetPlan list \<Rightarrow> string list \<Rightarrow> stored \<Rightarrow> world \<Rightarrow>
    DeploymentReport \<times> apply_error list \<times> stored \<times> world" where
  "ApplyContextProgress env rootDir plans preserve = applyPipeline env rootDir plans (skipSet preserve) None"

definition SyncContextProgress :: "apply_env \<Rightarrow> string \<Rightarrow> TargetPlan list \<Rightarrow> string list \<Rightarrow> stored \<Rightarrow> world \<Rightarrow>
    DeploymentReport \<times> apply_error list \<times> stored \<times> world" where
  "SyncContextProgress env rootDir plans preserve st w =
    (if blank rootDir then (no_report, [RootNeeded], st, w)
     else case flattenPlans plans of
       Inl e \<Rightarrow> (no_report, [PlanErr e], st, w)
     | Inr flat \<Rightarrow>
         (case loadOrCreateManifest st w of
            Inl e \<Rightarrow> (no_report, [OwnErr e], st, w)
          | Inr m \<Rightarrow>
              (case expandSkipWithLocalEdits (ae_sha env) m (fl_artifacts flat) preserve w of
                 (Inl e, w1) \<Rightarrow> (no_report, [e], st, w1)
               | (Inr skip, w1) \<Rightarrow> applyPipeline env rootDir plans skip (Some m) st w1)))"

end
