(* ===== verification/Setup_Apply_Laws.thy ===== *)
theory Setup_Apply_Laws
  imports Setup_Apply Setup_Uninstall_Laws
begin

text \<open>
  Where backups lie, what collecting them leaves alone, and what a deployment leaves at a path that is none
  of its artifacts.
\<close>

section \<open>Paths under the backup directory\<close>

text \<open>A path whose components are names.\<close>

definition normal_path :: "string \<Rightarrow> bool" where
  "normal_path p \<longleftrightarrow> list_all plain (path_parts p)"

lemma parts_nonempty: "path_parts p \<noteq> []"
  by (simp add: path_parts_def split_on_nonempty)

lemma normalized_path: "NormalizeRelPath s = Some c \<Longrightarrow> normal_path c"
  using normalized_plain by (simp add: normal_path_def)

lemma clean_normal_path: "normal_path p \<Longrightarrow> path_clean p = p"
  using clean_plain_parts [of "path_parts p"] join_parts [of p] parts_nonempty by (simp add: normal_path_def)

lemma joined_path: "normal_path p \<Longrightarrow> SafeJoin w p = Some d \<Longrightarrow> d = p"
  using SafeJoin_clean(1) clean_normal_path by metis

lemma normal_nonempty: "normal_path p \<Longrightarrow> p \<noteq> []"
  by (auto simp: normal_path_def path_parts_def plain_def)

lemma normal_no_dot: "normal_path p \<Longrightarrow> p \<noteq> ''.''"
  by (auto simp: normal_path_def path_parts_def plain_def)

lemma split_extend: "c \<notin> set t \<Longrightarrow> split_on c (s @ t) = butlast (split_on c s) @ [last (split_on c s) @ t]"
proof (induction s)
  case Nil
  then show ?case by (simp add: split_on_plain)
next
  case (Cons a s)
  then show ?case using split_on_nonempty [of c s] by (cases "split_on c s") auto
qed

lemma normal_extend: "normal_path p \<Longrightarrow> CHR ''/'' \<notin> set t \<Longrightarrow> 2 < length t \<Longrightarrow> normal_path (p @ t)"
proof -
  assume p: "normal_path p" and t: "CHR ''/'' \<notin> set t" "2 < length t"
  let ?ps = "path_parts p"
  have ps: "path_parts (p @ t) = butlast ?ps @ [last ?ps @ t]" using split_extend [OF t(1)] by (simp add: path_parts_def)
  have "plain (last ?ps)" using p parts_nonempty by (auto simp: normal_path_def list_all_iff)
  moreover have "list_all plain (butlast ?ps)" using p by (auto simp: normal_path_def list_all_iff dest: in_set_butlastD)
  ultimately show ?thesis using t ps by (auto simp: normal_path_def plain_def append_eq_Cons_conv Cons_eq_append_conv)
qed

lemma backup_rel: "normal_path p \<Longrightarrow> path_join BackupDir p = BackupDir @ ''/'' @ p \<and> normal_path (BackupDir @ ''/'' @ p)"
proof -
  assume p: "normal_path p"
  have j: "join_path [BackupDir, p] = BackupDir @ ''/'' @ p" by (simp add: join_path_def)
  have "path_parts (BackupDir @ ''/'' @ p) = BackupDir # path_parts p"
    using split_on_append_sep [of "CHR ''/''" BackupDir p] by (simp add: path_parts_def BackupDir_def)
  moreover have "plain BackupDir" by (simp add: plain_def BackupDir_def)
  ultimately have n: "normal_path (BackupDir @ ''/'' @ p)" using p by (simp add: normal_path_def)
  then show ?thesis using clean_normal_path [OF n] normal_nonempty [OF p] j by (simp add: path_join_def BackupDir_def)
qed

text \<open>The two places a backup of a path can be at.\<close>

definition backup_at :: "(string \<Rightarrow> string) \<Rightarrow> string \<Rightarrow> string \<Rightarrow> string set" where
  "backup_at sha p c = {BackupDir @ ''/'' @ p, (BackupDir @ ''/'' @ p) @ ''.'' @ take 8 (sha c)}"

lemma beneath_parts: "ws \<noteq> [] \<Longrightarrow> hd ws = d \<Longrightarrow> beneath d (join_path ws)"
  by (cases ws; cases "tl ws") (simp_all add: join_path_def beneath_def has_prefix_def)

lemma components_beneath: "q \<in> set (components s) \<Longrightarrow> hd (path_parts s) = d \<Longrightarrow> beneath d q"
proof -
  assume q: "q \<in> set (components s)" and d: "hd (path_parts s) = d"
  obtain n where n: "q = join_path (take (Suc n) (path_parts s))" using q by (auto simp: components_def Let_def)
  show ?thesis unfolding n using d parts_nonempty [of s] by (intro beneath_parts) (auto simp: hd_take)
qed

lemma backup_beneath: "b \<in> backup_at sha p c \<Longrightarrow> beneath BackupDir b"
  by (auto simp: backup_at_def beneath_def has_prefix_def)

definition digest :: "(string \<Rightarrow> string) \<Rightarrow> bool" where
  "digest sha \<longleftrightarrow> (\<forall>x. valid_digest (sha x))"

lemma digest_suffix: "digest sha \<Longrightarrow> length (take 8 (sha x)) = 8 \<and> CHR ''/'' \<notin> set (take 8 (sha x)) \<and> sha x \<noteq> []"
proof -
  assume "digest sha"
  then have v: "valid_digest (sha x)" by (simp add: digest_def)
  have "is_hex c" if "c \<in> set (take 8 (sha x))" for c using v that by (auto simp: valid_digest_def list_all_iff dest: in_set_takeD)
  then have "CHR ''/'' \<notin> set (take 8 (sha x))" by (force simp: is_hex_def Let_def)
  then show ?thesis using v by (auto simp: valid_digest_def)
qed

lemma backup_normal: "digest sha \<Longrightarrow> normal_path p \<Longrightarrow> b \<in> backup_at sha p c \<Longrightarrow> normal_path b"
  using backup_rel [of p] normal_extend [of "BackupDir @ ''/'' @ p" "''.'' @ take 8 (sha c)"] digest_suffix [of sha c]
  by (auto simp: backup_at_def)

text \<open>The directory of a backup lies under the backup directory.\<close>

lemma backup_dir_beneath:
  assumes "digest sha" "normal_path p" "b \<in> backup_at sha p c" "q \<in> set (components (path_dir b))"
  shows "beneath BackupDir q"
proof -
  have nb: "list_all plain (path_parts b)" using backup_normal [OF assms(1-3)] by (simp add: normal_path_def)
  obtain s where s: "b = BackupDir @ ''/'' @ s" using assms(3) by (auto simp: backup_at_def)
  then have ps: "path_parts b = BackupDir # path_parts s"
    using split_on_append_sep [of "CHR ''/''" BackupDir s] by (simp add: path_parts_def BackupDir_def)
  define ws where "ws = BackupDir # butlast (path_parts s)"
  have all: "path_parts b = ws @ [last (path_parts s)]" using ps parts_nonempty [of s] by (simp add: ws_def)
  then have "path_dir b = join_path ws" using path_dir_snoc [of ws "last (path_parts s)"] nb join_parts [of b] by (simp add: ws_def)
  moreover have "list_all plain ws" using nb all by simp
  ultimately have "path_parts (path_dir b) = ws" using parts_join [of ws] by (simp add: ws_def)
  then show ?thesis using components_beneath [OF assms(4), of BackupDir] by (simp add: ws_def)
qed


section \<open>Inspections\<close>

lemma regular_same: "ReadRegularFile p w = (r, w') \<Longrightarrow> same_disk w w'"
  by (auto simp: ReadRegularFile_def split: prod.splits sum.splits fsnode.splits dest!: lstat_same read_same intro: same_disk_trans)

lemma regular_ok: "ReadRegularFile p w = (Inr c, w') \<Longrightarrow> \<exists>m. lookup w p = Some (NFile c m)"
proof -
  assume r: "ReadRegularFile p w = (Inr c, w')"
  obtain x w1 where l: "sys_lstat p w = (x, w1)" by fastforce
  have s: "lookup w1 = lookup w" using l lstat_same same_disk_lookup by blast
  obtain n where n: "x = Inr n" "\<forall>t. n \<noteq> NLink t" using r l by (cases x) (auto simp: ReadRegularFile_def split: fsnode.splits)
  obtain y w2 where rd: "sys_read p w1 = (y, w2)" by fastforce
  have "y = Inr c" using r l n rd by (auto simp: ReadRegularFile_def split: fsnode.splits sum.splits)
  then show ?thesis using read_ok [of p w1 c w2] rd n lstat_ok [of p w n w1] l s by auto
qed

lemma other_same: "holdsOtherBackup dest content w = (b, w') \<Longrightarrow> same_disk w w'"
  by (auto simp: holdsOtherBackup_def split: prod.splits sum.splits fsnode.splits
      dest!: lstat_same regular_same intro: same_disk_trans)

lemma read_present_same: "read_present p w = (r, w') \<Longrightarrow> same_disk w w'"
  by (auto simp: read_present_def split: prod.splits sum.splits syserr.splits fsnode.splits
      dest!: lstat_same read_same intro: same_disk_trans)

lemma merge_preexisting_same: "mergePreexistingConfig cd m a w = (r, w') \<Longrightarrow> same_disk w w'"
  by (auto simp: mergePreexistingConfig_def split: prod.splits sum.splits option.splits if_splits dest: read_present_same)

lemma carry_same: "carryInjectedMCPServers cd dec a w = (r, w') \<Longrightarrow> same_disk w w'"
  by (auto simp: carryInjectedMCPServers_def Let_def split: prod.splits sum.splits option.splits if_splits dest: read_present_same)

lemma merge_path:
  "mergePreexistingConfig cd m a w = (Inr b, w') \<Longrightarrow> art_path b = art_path a"
  "carryInjectedMCPServers cd dec a w = (Inr b, w') \<Longrightarrow> art_path b = art_path a"
  by (auto simp: mergePreexistingConfig_def carryInjectedMCPServers_def Let_def split: prod.splits sum.splits option.splits if_splits)

lemma merge_each_effect: "merge_each cd dec m as w = (r, w') \<Longrightarrow>
    same_disk w w' \<and> (\<forall>bs. r = Inr bs \<longrightarrow> map art_path bs = map art_path as)"
proof (induction as arbitrary: w r w')
  case (Cons a as)
  obtain r1 w1 where m1: "mergePreexistingConfig cd m a w = (r1, w1)" by fastforce
  note s1 = merge_preexisting_same [OF m1]
  show ?case
  proof (cases r1)
    case (Inl e)
    then show ?thesis using Cons.prems m1 s1 by auto
  next
    case b: (Inr b)
    obtain r2 w2 where m2: "carryInjectedMCPServers cd dec b w1 = (r2, w2)" by fastforce
    note s2 = same_disk_trans [OF s1 carry_same [OF m2]]
    show ?thesis
    proof (cases r2)
      case (Inl e)
      then show ?thesis using Cons.prems m1 b m2 s2 by auto
    next
      case c: (Inr c)
      obtain r3 w3 where m3: "merge_each cd dec m as w2 = (r3, w3)" by fastforce
      have "same_disk w2 w3 \<and> (\<forall>bs. r3 = Inr bs \<longrightarrow> map art_path bs = map art_path as)" by (rule Cons.IH [OF m3])
      moreover have "art_path c = art_path a" using merge_path m1 b m2 c by metis
      ultimately show ?thesis using Cons.prems m1 b m2 c m3 same_disk_trans [OF s2, of w3] by (cases r3) auto
    qed
  qed
qed (auto simp: same_disk_refl)

section \<open>Backing up\<close>

lemma backup_place_ok:
  assumes "backup_place sha p c w = (r, w')" "digest sha" "normal_path p"
  shows "same_disk w w'" "r = Inr (rel, dest) \<Longrightarrow> dest = rel \<and> rel \<in> backup_at sha p c"
proof -
  show "same_disk w w'" using assms(1)
    by (auto simp: backup_place_def Let_def split: option.splits prod.splits sum.splits if_splits bool.splits
        dest!: lstat_same regular_same other_same intro: same_disk_trans)
  assume r: "r = Inr (rel, dest)"
  have b: "path_join BackupDir p \<in> backup_at sha p c" "path_join BackupDir p @ ''.'' @ take 8 (sha c) \<in> backup_at sha p c"
    using backup_rel [OF assms(3)] by (simp_all add: backup_at_def)
  have "(rel \<in> backup_at sha p c) \<and> (\<exists>v. SafeJoin v rel = Some dest)" using assms(1) r b
    by (auto simp: backup_place_def Let_def split: option.splits prod.splits sum.splits if_splits bool.splits)
  then show "dest = rel \<and> rel \<in> backup_at sha p c" using backup_normal [OF assms(2,3)] joined_path by metis
qed

text \<open>A path, one file of which a step may replace: it, or a directory that was missing beneath the backups.\<close>

definition writes_backup :: "string set \<Rightarrow> world \<Rightarrow> world \<Rightarrow> bool" where
  "writes_backup places w w' \<longleftrightarrow> (\<forall>q. lookup w' q = lookup w q \<or> q \<in> places \<or>
     beneath BackupDir q \<and> lookup w q = None \<and> lookup w' q = Some NDir)"

lemma writes_same: "same_disk w w' \<Longrightarrow> writes_backup P w w'"
  using same_disk_lookup by (simp add: writes_backup_def)

lemma writes_trans: "writes_backup P w w1 \<Longrightarrow> writes_backup P w1 w2 \<Longrightarrow> writes_backup P w w2"
  unfolding writes_backup_def by metis

lemma writes_mono: "writes_backup P w w' \<Longrightarrow> P \<subseteq> Q \<Longrightarrow> writes_backup Q w w'"
  unfolding writes_backup_def by blast

lemma writes_at: "writes_backup P w w' \<Longrightarrow> q \<notin> P \<Longrightarrow> lookup w q \<noteq> None \<or> \<not> beneath BackupDir q \<Longrightarrow> lookup w' q = lookup w q"
  unfolding writes_backup_def by metis

lemma backupContent_ok:
  assumes run: "backupContent sha p c mode w = (r, w')" and n: "digest sha" "normal_path p"
  shows "writes_backup (backup_at sha p c) w w'"
    "r = Inr rel \<Longrightarrow> rel \<in> backup_at sha p c \<and> lookup w' rel = Some (NFile c mode)"
proof -
  obtain r1 w1 where pl: "backup_place sha p c w = (r1, w1)" by fastforce
  note s1 = writes_same [OF backup_place_ok(1) [OF pl n]]
  have "writes_backup (backup_at sha p c) w w' \<and> (r = Inr rel \<longrightarrow> rel \<in> backup_at sha p c \<and> lookup w' rel = Some (NFile c mode))"
  proof (cases r1)
    case (Inl e)
    then show ?thesis using run pl s1 by (auto simp: backupContent_def)
  next
    case (Inr rd)
    obtain b where b: "r1 = Inr (b, b)" "b \<in> backup_at sha p c" using backup_place_ok(2) [OF pl n] Inr by (cases rd) auto
    let ?d = "path_dir b"
    obtain r2 w2 where mk: "sys_mkdir_all ?d w1 = (r2, w2)" by fastforce
    have s2: "writes_backup (backup_at sha p c) w1 w2" unfolding writes_backup_def
      using mkdir_all_effect [OF mk] backup_dir_beneath [OF n b(2)] by blast
    note t2 = writes_trans [OF s1 s2]
    show ?thesis
    proof (cases r2)
      case (Inl e)
      then show ?thesis using run pl b mk t2 by (auto simp: backupContent_def Let_def)
    next
      case u: (Inr u)
      obtain r3 w3 where st: "sys_stage ?d c mode w2 = (r3, w3)" by fastforce
      show ?thesis
      proof (cases r3)
        case (Inl e)
        then have "lookup w3 = lookup w2" using failed_same(2) st same_disk_lookup by blast
        then show ?thesis using run pl b mk u st Inl t2 by (auto simp: backupContent_def Let_def writes_backup_def)
      next
        case t: (Inr t)
        note k = stage_ok [OF st [unfolded t]]
        have L3: "lookup w3 = lookup w2" using k by (simp add: lookup_def fun_eq_iff)
        obtain r4 w4 where ins: "sys_install t b w3 = (r4, w4)" by fastforce
        show ?thesis
        proof (cases r4)
          case (Inl e)
          obtain x w5 where rt: "sys_remove_temp t w4 = (x, w5)" by fastforce
          have "lookup w5 = lookup w4" using remove_temp_ok [OF rt] by (simp add: lookup_def fun_eq_iff)
          moreover have "lookup w4 = lookup w3" using failed_same(3) ins Inl same_disk_lookup by blast
          moreover have "w' = w5" "r \<noteq> Inr rel" using run pl b mk u st t ins Inl rt by (auto simp: backupContent_def Let_def)
          ultimately show ?thesis using t2 L3 by (simp add: writes_backup_def)
        next
          case y: (Inr y)
          obtain z w5 where sy: "sys_sync ?d w4 = (z, w5)" by fastforce
          have out: "w' = w5" "r = Inr rel \<Longrightarrow> rel = b" using run pl b mk u st t ins y sy
            by (auto simp: backupContent_def Let_def split: sum.splits)
          have L4: "lookup w4 q = (if q = b then Some (NFile c mode) else lookup w3 q)" for q
            using install_ok [OF ins [unfolded y]] k by auto
          have L5: "lookup w5 q = lookup w4 q" for q by (rule synced_frame [OF sy])
          show ?thesis using t2 b(2) L3 L4 L5 out by (auto simp: writes_backup_def)
        qed
      qed
    qed
  qed
  then show "writes_backup (backup_at sha p c) w w'"
    "r = Inr rel \<Longrightarrow> rel \<in> backup_at sha p c \<and> lookup w' rel = Some (NFile c mode)" by simp_all
qed


section \<open>What was there before\<close>

definition backup_like :: "string \<Rightarrow> string set" where
  "backup_like p = {q. q = BackupDir @ ''/'' @ p \<or> (\<exists>h. length h = 8 \<and> q = (BackupDir @ ''/'' @ p) @ ''.'' @ h)}"

lemma backup_at_like: "digest sha \<Longrightarrow> backup_at sha p c \<subseteq> backup_like p"
  using digest_suffix [of sha c] by (auto simp: backup_at_def backup_like_def)

lemma like_beneath: "q \<in> backup_like p \<Longrightarrow> beneath BackupDir q"
  by (auto simp: backup_like_def beneath_def has_prefix_def)

lemma backedUpState_ok:
  assumes run: "backedUpState sha p c mode w = (r, w')" and n: "digest sha" "normal_path p"
  shows "writes_backup (backup_like p) w w'"
    "r = Inr s \<Longrightarrow> ps_copied s \<in> backup_at sha p c \<and> lookup w' (ps_copied s) = Some (NFile c mode) \<and>
      ps_backupPath s = ps_copied s \<and> ps_priorSHA256 s = sha c \<and> ps_mode s = mode"
proof -
  obtain r1 w1 where b: "backupContent sha p c mode w = (r1, w1)" by fastforce
  have w: "w' = w1" using run b by (auto simp: backedUpState_def split: sum.splits)
  then show "writes_backup (backup_like p) w w'" using writes_mono [OF backupContent_ok(1) [OF b n] backup_at_like [OF n(1)]] by simp
  assume "r = Inr s"
  then obtain rel where rel: "r1 = Inr rel" "s = zero_prior\<lparr>ps_priorSHA256 := sha c, ps_backupPath := rel, ps_mode := mode, ps_copied := rel\<rparr>"
    using run b by (auto simp: backedUpState_def split: sum.splits)
  then show "ps_copied s \<in> backup_at sha p c \<and> lookup w' (ps_copied s) = Some (NFile c mode) \<and>
      ps_backupPath s = ps_copied s \<and> ps_priorSHA256 s = sha c \<and> ps_mode s = mode"
    using backupContent_ok(2) [OF b n, of rel] w by auto
qed

text \<open>What a prior state says of a regular file, and of a path that holds nothing.\<close>

definition saved_from :: "(string \<Rightarrow> string) \<Rightarrow> OwnershipManifest \<Rightarrow> string \<Rightarrow> priorState \<Rightarrow> world \<Rightarrow> world \<Rightarrow> bool" where
  "saved_from sha m p s w w' \<longleftrightarrow>
    (\<forall>c k. lookup w p = Some (NFile c k) \<longrightarrow> ps_observed s \<and> ps_observedSHA256 s = sha c \<and>
      ((\<exists>e. map_of (om_entries m) p = Some e \<and> unedited sha e (lookup w p)) \<or>
       ps_copied s \<in> backup_at sha p c \<and> (\<exists>j. lookup w' (ps_copied s) = Some (NFile c j)))) \<and>
    (lookup w p = None \<longrightarrow> ps_observed s \<and> ps_observedSHA256 s = []) \<and>
    (\<forall>c k. map_of (om_entries m) p = None \<longrightarrow> lookup w p = Some (NFile c k) \<longrightarrow>
      ps_preExisting s \<and> ps_priorSHA256 s = sha c \<and> ps_backupPath s = ps_copied s \<and> ps_mode s = k) \<and>
    (\<forall>e. map_of (om_entries m) p = Some e \<longrightarrow> oe_preExisting e \<longrightarrow>
      ps_preExisting s \<and> ps_priorSHA256 s = oe_prior e \<and> ps_backupPath s = oe_backup e) \<and>
    (ps_copied s \<noteq> [] \<longrightarrow> (\<exists>c k. lookup w p = Some (NFile c k)) \<and>
      (\<forall>e. map_of (om_entries m) p = Some e \<longrightarrow> \<not> unedited sha e (lookup w p)))"

lemma preexisting_ok:
  assumes run: "preexistingPriorState sha p w = (r, w')" and e: "map_of (om_entries m) p = None" and n: "digest sha" "normal_path p"
  shows "writes_backup (backup_like p) w w'" "r = Inr s \<Longrightarrow> saved_from sha m p s w w'"
proof -
  have "writes_backup (backup_like p) w w' \<and> (\<forall>s. r = Inr s \<longrightarrow> saved_from sha m p s w w')"
  proof (cases "SafeJoin w p")
    case None
    then show ?thesis using run by (auto simp: preexistingPriorState_def writes_backup_def)
  next
    case (Some d)
    then have d: "SafeJoin w p = Some p" using joined_path [OF n(2)] by simp
    obtain r1 w1 where l: "sys_lstat p w = (r1, w1)" by fastforce
    note s1 = lstat_same [OF l]
    show ?thesis
    proof (cases "\<exists>c k. r1 = Inr (NFile c k)")
      case False
      then have "same_disk w w'" using run d l s1
        by (auto simp: preexistingPriorState_def Let_def split: sum.splits syserr.splits fsnode.splits)
      moreover have "saved_from sha m p s w w'" if "r = Inr s" for s
        using run d l that False e lstat_ok [of p w _ w1] lstat_absent [of p w w1]
        by (auto simp: preexistingPriorState_def Let_def saved_from_def zero_prior_def split: sum.splits syserr.splits fsnode.splits)
      ultimately show ?thesis using writes_same by blast
    next
      case True
      then obtain c k where n1: "r1 = Inr (NFile c k)" by blast
      have L: "lookup w p = Some (NFile c k)" using lstat_ok [of p w _ w1] l n1 by simp
      obtain r2 w2 where rd: "ReadRegularFile p w1 = (r2, w2)" by fastforce
      note s2 = same_disk_trans [OF s1 regular_same [OF rd]]
      show ?thesis
      proof (cases r2)
        case (Inl e)
        then have "r = Inl (OwnErr e)" "w' = w2" using run d l n1 rd by (simp_all add: preexistingPriorState_def Let_def)
        then show ?thesis using writes_same [OF s2] by simp
      next
        case c1: (Inr c1)
        have "c1 = c" using regular_ok [of p w1 c1 w2] rd c1 L same_disk_lookup [OF s1] by auto
        obtain r3 w3 where b: "backedUpState sha p c k w2 = (r3, w3)" by fastforce
        have w: "w' = w3" using run d l n1 rd c1 \<open>c1 = c\<close> b by (auto simp: preexistingPriorState_def Let_def split: sum.splits)
        have wb: "writes_backup (backup_like p) w w'" using writes_trans [OF writes_same [OF s2] backedUpState_ok(1) [OF b n]] w by simp
        moreover have "saved_from sha m p s w w'" if fin: "r = Inr s" for s
        proof -
          obtain s0 where s0: "r3 = Inr s0" "s = s0\<lparr>ps_preExisting := True, ps_observed := True, ps_observedSHA256 := ps_priorSHA256 s0\<rparr>"
            using run d l n1 rd c1 \<open>c1 = c\<close> b fin by (auto simp: preexistingPriorState_def Let_def split: sum.splits)
          then show ?thesis using backedUpState_ok(2) [OF b n s0(1)] L w e by (auto simp: saved_from_def)
        qed
        ultimately show ?thesis by blast
      qed
    qed
  qed
  then show "writes_backup (backup_like p) w w'" "r = Inr s \<Longrightarrow> saved_from sha m p s w w'" by blast+
qed


lemma managed_ok:
  assumes run: "managedPriorState sha p e w = (r, w')" and e: "map_of (om_entries m) p = Some e" and n: "digest sha" "normal_path p"
  shows "writes_backup (backup_like p) w w'" "r = Inr s \<Longrightarrow> saved_from sha m p s w w'"
proof -
  have dot: "p \<noteq> ''.''" by (rule normal_no_dot [OF n(2)])
  have "writes_backup (backup_like p) w w' \<and> (\<forall>s. r = Inr s \<longrightarrow> saved_from sha m p s w w')"
  proof (cases "SafeJoin w p")
    case None
    then show ?thesis using run by (auto simp: managedPriorState_def writes_backup_def)
  next
    case (Some d)
    then have d: "SafeJoin w p = Some p" using joined_path [OF n(2)] by simp
    obtain r1 w1 where f: "managedFileState sha p e w = (r1, w1)" by fastforce
    note s1 = file_state_same [OF f]
    show ?thesis
    proof (cases r1)
      case (Inl err)
      then show ?thesis using run d f writes_same [OF s1] by (auto simp: managedPriorState_def Let_def)
    next
      case (Inr sc)
      obtain cur con where sc: "r1 = Inr (cur, con)" "(cur, con) = state_of sha e (lookup w p)"
        using Inr file_state_ok [of sha p e w sc w1] f dot by (cases sc) (auto simp: node_at_def)
      show ?thesis
      proof (cases "cur = managedChanged")
        case False
        then have "w' = w1" using run d f sc(1) by (auto simp: managedPriorState_def Let_def)
        moreover have "saved_from sha m p s w w'" if "r = Inr s" for s
        proof -
          have "s = (case cur of managedMissing \<Rightarrow> zero_prior\<lparr>ps_preExisting := oe_preExisting e, ps_priorSHA256 := oe_prior e,
                ps_backupPath := oe_backup e, ps_mode := oe_mode e, ps_observed := True\<rparr>
             | managedNotRegular \<Rightarrow> zero_prior\<lparr>ps_preExisting := oe_preExisting e, ps_priorSHA256 := oe_prior e,
                ps_backupPath := oe_backup e, ps_mode := oe_mode e\<rparr>
             | _ \<Rightarrow> zero_prior\<lparr>ps_preExisting := oe_preExisting e, ps_priorSHA256 := oe_prior e,
                ps_backupPath := oe_backup e, ps_mode := oe_mode e, ps_observed := True, ps_observedSHA256 := sha (the con)\<rparr>)"
            using run d f sc(1) False that by (auto simp: managedPriorState_def Let_def split: managedState.splits)
          then show ?thesis using sc(2) e False
            by (cases "lookup w p") (auto simp: saved_from_def zero_prior_def unedited_def split: if_splits managedState.splits)
        qed
        ultimately show ?thesis using writes_same [OF s1] by simp
      next
        case True
        obtain c k where L: "lookup w p = Some (NFile c k)" "con = Some c" "\<not> unedited sha e (lookup w p)" using sc(2) True
          by (cases "(sha, e, lookup w p)" rule: state_of.cases) (auto simp: unedited_def split: if_splits)
        obtain r2 w2 where l: "sys_lstat p w1 = (r2, w2)" by fastforce
        note s2 = same_disk_trans [OF s1 lstat_same [OF l]]
        show ?thesis
        proof (cases r2)
          case (Inl err)
          then show ?thesis using run d f sc(1) True l writes_same [OF s2] by (auto simp: managedPriorState_def Let_def)
        next
          case node: (Inr node)
          obtain r3 w3 where b: "backedUpState sha p c (mode_of node) w2 = (r3, w3)" by fastforce
          have w: "w' = w3" using run d f sc(1) True l node L(2) b by (auto simp: managedPriorState_def Let_def split: sum.splits)
          have "writes_backup (backup_like p) w w'" using writes_trans [OF writes_same [OF s2] backedUpState_ok(1) [OF b n]] w by simp
          moreover have "saved_from sha m p s w w'" if fin: "r = Inr s" for s
          proof -
            obtain s0 where s0: "r3 = Inr s0" "ps_copied s = ps_backupPath s0" "ps_observed s" "ps_observedSHA256 s = sha c"
                "oe_preExisting e \<Longrightarrow> ps_preExisting s \<and> ps_priorSHA256 s = oe_prior e \<and> ps_backupPath s = oe_backup e"
              using run d f sc(1) True l node L(2) b fin by (auto simp: managedPriorState_def Let_def split: sum.splits)
            then show ?thesis using backedUpState_ok(2) [OF b n s0(1)] L w e by (auto simp: saved_from_def)
          qed
          ultimately show ?thesis by blast
        qed
      qed
    qed
  qed
  then show "writes_backup (backup_like p) w w'" "r = Inr s \<Longrightarrow> saved_from sha m p s w w'" by blast+
qed

lemma prior_ok:
  assumes "priorStateFor sha m p w = (r, w')" and "digest sha" "normal_path p"
  shows "writes_backup (backup_like p) w w'" "r = Inr s \<Longrightarrow> saved_from sha m p s w w'"
  using assms managed_ok(1) [of sha p _ w r w' m] managed_ok(2) [of sha p _ w r w' m s]
    preexisting_ok(1) [of sha p w r w' m] preexisting_ok(2) [of sha p w r w' m s]
  by (simp_all add: priorStateFor_def split: option.splits)

text \<open>A batch of paths: none lies in the backup directory, and none is another's backup suffix away.\<close>

definition backups_apart :: "string list \<Rightarrow> bool" where
  "backups_apart ps \<longleftrightarrow> (\<forall>p \<in> set ps. \<not> beneath BackupDir p \<and>
     (\<forall>q \<in> set ps. length q = length p + 9 \<longrightarrow> take (length p + 1) q \<noteq> p @ ''.''))"

lemma like_apart: "backups_apart ps \<Longrightarrow> p \<in> set ps \<Longrightarrow> q \<in> set ps \<Longrightarrow> p \<noteq> q \<Longrightarrow> backup_like p \<inter> backup_like q = {}"
proof -
  assume a: "backups_apart ps" "p \<in> set ps" "q \<in> set ps" "p \<noteq> q"
  have no: "x \<noteq> y @ ''.'' @ h" if "x \<in> set ps" "y \<in> set ps" "length h = 8" for x y h
  proof
    assume "x = y @ ''.'' @ h"
    then have "length x = length y + 9" "take (length y + 1) x = y @ ''.''" using that(3) by simp_all
    then show False using a(1) that(1,2) by (auto simp: backups_apart_def)
  qed
  show ?thesis using a(4) no [OF a(2,3)] no [OF a(3,2)] by (auto simp: backup_like_def)
qed

lemma collect_ok:
  assumes "collect_priors sha m as priors0 w = (r, w')" "digest sha" "\<forall>a \<in> set as. normal_path (art_path a)"
  shows "writes_backup (\<Union>a \<in> set as. backup_like (art_path a)) w w'"
    "r = Inr priors \<Longrightarrow> distinct (map art_path as) \<Longrightarrow> backups_apart (map art_path as) \<Longrightarrow>
      (\<forall>a \<in> set as. mhas priors (art_path a) \<and> saved_from sha m (art_path a) (mget zero_prior priors (art_path a)) w w') \<and>
      (\<forall>p. p \<notin> set (map art_path as) \<longrightarrow> map_of priors p = map_of priors0 p)"
proof -
  have "writes_backup (\<Union>a \<in> set as. backup_like (art_path a)) w w' \<and>
    (\<forall>priors. r = Inr priors \<longrightarrow> distinct (map art_path as) \<longrightarrow> backups_apart (map art_path as) \<longrightarrow>
      (\<forall>a \<in> set as. mhas priors (art_path a) \<and> saved_from sha m (art_path a) (mget zero_prior priors (art_path a)) w w') \<and>
      (\<forall>p. p \<notin> set (map art_path as) \<longrightarrow> map_of priors p = map_of priors0 p))"
    using assms(1,3)
  proof (induction as arbitrary: priors0 w)
    case Nil
    then show ?case by (auto simp: writes_backup_def)
  next
    case (Cons a as)
    let ?p = "art_path a"
    let ?U = "\<Union>b \<in> set as. backup_like (art_path b)"
    obtain r1 w1 where s: "priorStateFor sha m ?p w = (r1, w1)" by fastforce
    have n: "normal_path ?p" using Cons.prems(2) by simp
    note st = prior_ok [OF s assms(2) n]
    show ?case
    proof (cases r1)
      case (Inl e)
      then show ?thesis using Cons.prems(1) s writes_mono [OF st(1)] by auto
    next
      case x: (Inr x)
      have c: "collect_priors sha m as (mput ?p x priors0) w1 = (r, w')" using Cons.prems(1) s x by simp
      have n2: "\<forall>b \<in> set as. normal_path (art_path b)" using Cons.prems(2) by simp
      note ih = Cons.IH [OF c n2]
      have wr: "writes_backup (\<Union>b \<in> set (a # as). backup_like (art_path b)) w w'"
        using writes_trans [OF writes_mono [OF st(1)] writes_mono [OF ih [THEN conjunct1]]] by simp
      moreover have "(\<forall>b \<in> set (a # as). mhas priors (art_path b) \<and> saved_from sha m (art_path b) (mget zero_prior priors (art_path b)) w w') \<and>
          (\<forall>p. p \<notin> set (map art_path (a # as)) \<longrightarrow> map_of priors p = map_of priors0 p)"
        if fin: "r = Inr priors" "distinct (map art_path (a # as))" "backups_apart (map art_path (a # as))" for priors
      proof -
        have ap: "backups_apart (map art_path as)" using fin(3) by (auto simp: backups_apart_def)
        have *: "\<forall>b \<in> set as. mhas priors (art_path b) \<and> saved_from sha m (art_path b) (mget zero_prior priors (art_path b)) w1 w'"
            "\<forall>p. p \<notin> set (map art_path as) \<longrightarrow> map_of priors p = map_of (mput ?p x priors0) p"
          using ih fin ap by auto
        have pp: "map_of priors ?p = Some x" using *(2) fin(2) by simp
        have own: "saved_from sha m ?p x w w1" using st(2) x by simp
        have keep: "lookup w' (ps_copied x) = lookup w1 (ps_copied x)"
          if cp: "ps_copied x \<in> backup_like ?p" "lookup w1 (ps_copied x) \<noteq> None"
        proof -
          have "ps_copied x \<notin> ?U"
          proof
            assume "ps_copied x \<in> ?U"
            then obtain b where "b \<in> set as" "ps_copied x \<in> backup_like (art_path b)" by blast
            then show False using like_apart [OF fin(3), of ?p "art_path b"] cp(1) fin(2) by auto
          qed
          then show ?thesis using writes_at [OF ih [THEN conjunct1]] cp(2) by metis
        qed
        have "saved_from sha m ?p x w w'" using own keep backup_at_like [OF assms(2), of ?p] by (fastforce simp: saved_from_def)
        moreover have "saved_from sha m (art_path b) t w w'" if "b \<in> set as" "saved_from sha m (art_path b) t w1 w'" for b t
        proof -
          have nb: "\<not> beneath BackupDir (art_path b)" using fin(3) that(1) by (auto simp: backups_apart_def)
          then have "lookup w1 (art_path b) = lookup w (art_path b)" using like_beneath by (intro writes_at [OF st(1)]) blast+
          then show ?thesis using that(2) by (simp add: saved_from_def)
        qed
        ultimately show ?thesis using * pp fin(2) by (auto simp: mhas_def mget_def)
      qed
      ultimately show ?thesis by blast
    qed
  qed
  then show "writes_backup (\<Union>a \<in> set as. backup_like (art_path a)) w w'"
    "r = Inr priors \<Longrightarrow> distinct (map art_path as) \<Longrightarrow> backups_apart (map art_path as) \<Longrightarrow>
      (\<forall>a \<in> set as. mhas priors (art_path a) \<and> saved_from sha m (art_path a) (mget zero_prior priors (art_path a)) w w') \<and>
      (\<forall>p. p \<notin> set (map art_path as) \<longrightarrow> map_of priors p = map_of priors0 p)"
    by blast+
qed

end
