(* ===== verification/Setup_Apply_Props.thy ===== *)
theory Setup_Apply_Props
  imports Setup_Apply_Laws Setup_Uninstall_Props
begin

text \<open>
  What applying plans promises: replaced content that Takt does not own is in a backup, a sync leaves local
  edits alone, and ownership is recorded for what was written.
\<close>

section \<open>What a deployment leaves alone\<close>

lemma commit_files_frame:
  "commit_files edits cancel i fs w = (es, fs', w') \<Longrightarrow> p \<notin> sd_path ` set fs \<Longrightarrow> \<forall>j. p \<notin> fst ` set (edits j) \<Longrightarrow>
    lookup w' p = lookup w p \<and> map sd_path fs' = map sd_path fs"
proof (induction fs arbitrary: i w es fs' w')
  case (Cons f fs)
  define w0 where "w0 = fold apply_edit (edits i) w"
  have L0: "lookup w0 p = lookup w p" using edits_frame Cons.prems(3) by (simp add: w0_def)
  obtain r w1 where u: "unchangedSinceInspection f w0 = (r, w1)" by fastforce
  have L1: "lookup w1 p = lookup w p" using unchanged_same [OF u] same_disk_lookup L0 by metis
  show ?case
  proof (cases "\<not> cancelled cancel i \<and> r = Inr True \<and> sd_staged f \<noteq> None")
    case False
    then show ?thesis using Cons.prems(1) u L0 L1
      by (auto simp: w0_def [symmetric] Let_def split: if_splits sum.splits bool.splits option.splits)
  next
    case True
    then obtain t where t: "\<not> cancelled cancel i" "r = Inr True" "sd_staged f = Some t" by blast
    obtain x w2 where ins: "sys_install t (sd_path f) w1 = (x, w2)" by fastforce
    have L2: "lookup w2 p = lookup w p" using install_frame [OF ins, of p] Cons.prems(2) L1 by auto
    show ?thesis
    proof (cases x)
      case (Inl e)
      then show ?thesis using Cons.prems(1) u t ins L2 by (auto simp: w0_def [symmetric])
    next
      case x: (Inr y)
      obtain z w3 where sy: "sys_sync (path_dir (sd_path f)) w2 = (z, w3)" by fastforce
      have L3: "lookup w3 p = lookup w p" using synced_frame [OF sy, of p] L2 by simp
      show ?thesis
      proof (cases z)
        case (Inl e)
        then show ?thesis using Cons.prems(1) u t ins x sy L3 by (auto simp: w0_def [symmetric])
      next
        case (Inr v)
        obtain es1 fs1 w4 where c: "commit_files edits cancel (Suc i) fs w3 = (es1, fs1, w4)"
          by (cases "commit_files edits cancel (Suc i) fs w3")
        have e: "fs' = f\<lparr>sd_installed := True\<rparr> # fs1" "w' = w4" using Cons.prems(1) u t ins x sy Inr c by (auto simp: w0_def [symmetric])
        have "lookup w4 p = lookup w3 p \<and> map sd_path fs1 = map sd_path fs"
          using Cons.prems(2,3) by (intro Cons.IH [OF c]) auto
        then show ?thesis using e L3 by simp
      qed
    qed
  qed
qed simp

lemma commit_files_paths: "commit_files edits cancel i fs w = (es, fs', w') \<Longrightarrow> map sd_path fs' = map sd_path fs"
proof (induction fs arbitrary: i w es fs' w')
  case (Cons f fs)
  from Cons.prems show ?case
    by (auto simp: Let_def split: if_splits prod.splits sum.splits bool.splits option.splits dest!: Cons.IH)
qed simp

lemma commit_paths: "commit edits cancel tx w = (es, tx', w') \<Longrightarrow> map sd_path (tx_files tx') = map sd_path (tx_files tx)"
  by (auto simp: commit_def Let_def split: prod.splits if_splits dest!: commit_files_paths)

lemma sync_all_frame: "sync_all ds w = (es, w') \<Longrightarrow> lookup w' p = lookup w p"
proof (induction ds arbitrary: w)
  case (Cons d ds)
  obtain r w1 where s: "sys_sync d w = (r, w1)" by fastforce
  show ?case using Cons.prems Cons.IH [of w1] s synced_frame [OF s, of p] by (cases r) auto
qed simp

text \<open>A path that holds something and is none of the batch keeps it.\<close>

lemma deploy_frame:
  assumes d: "deployObserved sha edits cancel rootDir managed artifacts obs w = (r, es, w')"
    and out: "\<And>ns. prepareDeployment rootDir managed artifacts = Inr ns \<Longrightarrow> p \<notin> art_path ` set ns"
    and held: "lookup w p \<noteq> None" and e: "\<forall>j. p \<notin> fst ` set (edits j)"
  shows "lookup w' p = lookup w p \<and> p \<notin> set (dr_changed r)"
proof (cases "prepareDeployment rootDir managed artifacts")
  case (Inl err)
  then show ?thesis using d by (auto simp: deployObserved_def no_deployment_def)
next
  case ns: (Inr ns)
  obtain x w1 where i: "inspectDeployments sha obs ns w = (x, w1)" by fastforce
  have s1: "lookup w1 = lookup w" using inspect_from_same i same_disk_lookup by (fastforce simp: inspectDeployments_def)
  show ?thesis
  proof (cases x)
    case (Inl err)
    then show ?thesis using d ns i s1 by (auto simp: deployObserved_def no_deployment_def)
  next
    case (Inr up)
    obtain u ps where x: "x = Inr (u, ps)" using Inr by (cases up) simp
    have seen: "batch_seen (lookup w) ns u ps" using inspect_from_sound [of sha obs "[]" "[]" ns w u ps w1] i x
      by (simp add: inspectDeployments_def)
    have pps: "p \<notin> pd_path ` set ps" using out [OF ns] seen by (force simp: batch_seen_def)
    show ?thesis
    proof (cases "ps = []")
      case True
      then show ?thesis using d ns i x s1 by (auto simp: deployObserved_def Let_def no_deployment_def)
    next
      case False
      obtain es1 tx w2 where st: "stage ps \<lparr>tx_files = [], tx_createdOrder = []\<rparr> w1 = (es1, tx, w2)"
        by (cases "stage ps \<lparr>tx_files = [], tx_createdOrder = []\<rparr> w1")
      note t = staged_batch [OF ns i [unfolded x] st]
      have notin: "p \<notin> set (tx_createdOrder tx)" using tx_okD(4) [OF t(1), of p] held by auto
      have L2: "lookup w2 p = lookup w p"
        using tx_okD(1) [OF t(1)] notin installed_of_none [OF t(2)] by (simp add: overlay_def)
      have pf: "p \<notin> sd_path ` set (tx_files tx)" using stage_paths [OF st] pps by auto
      show ?thesis
      proof (cases "es1 = []")
        case False
        then have "abort es1 tx w2 = (es, w')" "r = no_deployment"
          using d ns i x \<open>ps \<noteq> []\<close> st by (auto simp: deployObserved_def Let_def split: prod.splits)
        then show ?thesis using abort_frame [of es1 tx w2 es w' p] pf notin L2 by (auto simp: no_deployment_def)
      next
        case True
        obtain es2 fs w3 where c: "commit_files edits cancel 0 (tx_files tx) w2 = (es2, fs, w3)"
          by (cases "commit_files edits cancel 0 (tx_files tx) w2")
        note cf = commit_files_frame [OF c pf e]
        define tx2 where "tx2 = tx\<lparr>tx_files := fs\<rparr>"
        obtain es3 w4 where cm: "commit edits cancel tx w2 = (es3, tx2, w4)" "lookup w4 p = lookup w3 p"
        proof (cases "es2 = []")
          case True
          obtain es4 w4 where sy: "sync_all (rev (tx_createdOrder tx)) w3 = (es4, w4)" by fastforce
          show thesis using that [of es4 w4] c True sy sync_all_frame [OF sy, of p] by (simp add: commit_def tx2_def)
        next
          case False
          show thesis using that [of es2 w3] c False by (simp add: commit_def tx2_def)
        qed
        have L4: "lookup w4 p = lookup w p" using cm cf L2 by simp
        have "sd_path ` set fs = sd_path ` set (tx_files tx)" using cf by (metis set_map)
        then have pf2: "p \<notin> sd_path ` set (tx_files tx2)" "p \<notin> set (tx_createdOrder tx2)" using pf notin by (simp_all add: tx2_def)
        obtain es5 w5 where cl: "cleanupTemps tx2 w4 = (es5, w5)" by fastforce
        have L5: "lookup w5 p = lookup w p" using cleanup_disk [OF cl] L4 by simp
        show ?thesis
        proof (cases "es3 = []")
          case True
          then have "w' = w5" "dr_changed r = map pd_path ps"
            using d ns i x \<open>ps \<noteq> []\<close> st \<open>es1 = []\<close> cm cl by (auto simp: deployObserved_def Let_def no_deployment_def)
          then show ?thesis using L5 pps by auto
        next
          case err: False
          show ?thesis
          proof (cases "ContextErr \<in> set es3")
            case False
            then have "abort es3 tx2 w4 = (es, w')" "r = no_deployment"
              using d ns i x \<open>ps \<noteq> []\<close> st \<open>es1 = []\<close> cm err by (auto simp: deployObserved_def Let_def errs_is_def split: prod.splits)
            then show ?thesis using abort_frame [of es3 tx2 w4 es w' p] pf2 L4 by (auto simp: no_deployment_def)
          next
            case True
            then have sc: "stopCancelled (no_deployment\<lparr>dr_unchanged := u\<rparr>) es3 tx2 w4 = (r, es, w')"
              using d ns i x \<open>ps \<noteq> []\<close> st \<open>es1 = []\<close> cm err by (auto simp: deployObserved_def Let_def errs_is_def)
            have "lookup (fold (\<lambda>d v. snd (sys_remove d v)) (rev (tx_createdOrder tx2)) w5) p = lookup w5 p"
              using best_effort_removal [of "rev (tx_createdOrder tx2)" w5 p] pf2(2) by auto
            then show ?thesis using sc cl L5 pf2(1)
              by (auto simp: stopCancelled_def no_deployment_def Let_def split: if_splits)
          qed
        qed
      qed
    qed
  qed
qed


section \<open>What a deployment replaces\<close>

lemma inspect_from_held:
  "inspect_from sha obs u ps as w = (Inr (u', ps'), w') \<Longrightarrow> q \<in> set ps' \<Longrightarrow> q \<notin> set ps \<Longrightarrow>
    mhas obs (pd_path q) \<longrightarrow> holds_inspected sha (mget [] obs (pd_path q)) (Some q) []"
proof (induction as arbitrary: u ps w)
  case (Cons a as)
  obtain r w1 where i: "inspectArtifact a w = (r, w1)" by fastforce
  then obtain item where r: "r = Inr item" using Cons.prems by (cases r) auto
  show ?case
  proof (cases item)
    case None
    then show ?thesis using Cons.prems i r by (intro Cons.IH [of "u @ [art_path a]" ps w1]) (simp_all split: if_splits)
  next
    case (Some x)
    have n: "inspect_from sha obs u (ps @ [x]) as w1 = (Inr (u', ps'), w')" using Cons.prems(1) i r Some by (simp split: if_splits)
    have h: "mhas obs (art_path a) \<longrightarrow> holds_inspected sha (mget [] obs (art_path a)) (Some x) (art_content a)"
      using Cons.prems(1) i r Some by (simp split: if_splits)
    show ?thesis
    proof (cases "q = x")
      case True
      then show ?thesis using h inspectArtifact_some(2) [of a w x w1] i r Some by (simp add: holds_inspected_def)
    next
      case False
      then show ?thesis using Cons.prems(2,3) by (intro Cons.IH [OF n]) auto
    qed
  qed
qed simp

lemma inspect_from_new:
  "inspect_from sha obs u ps as w = (Inr (u', ps'), w') \<Longrightarrow> q \<in> set ps' \<Longrightarrow> q \<notin> set ps \<Longrightarrow>
    \<exists>a \<in> set as. pd_path q = art_path a \<and> (pd_exists q \<longrightarrow> pd_original q \<noteq> art_content a)"
proof (induction as arbitrary: u ps w)
  case (Cons a as)
  obtain r w1 where i: "inspectArtifact a w = (r, w1)" by fastforce
  then obtain item where r: "r = Inr item" using Cons.prems by (cases r) auto
  show ?case
  proof (cases item)
    case None
    then show ?thesis using Cons.prems i r Cons.IH [of "u @ [art_path a]" ps w1] by (auto split: if_splits)
  next
    case (Some x)
    have n: "inspect_from sha obs u (ps @ [x]) as w1 = (Inr (u', ps'), w')" using Cons.prems(1) i r Some by (simp split: if_splits)
    show ?thesis
    proof (cases "q = x")
      case True
      have "pd_exists x \<longrightarrow> pd_original x \<noteq> art_content a" using i r Some
        by (auto simp: inspectArtifact_def split: prod.splits sum.splits syserr.splits fsnode.splits if_splits)
      then show ?thesis using True inspectArtifact_some(2) [of a w x w1] i r Some by auto
    next
      case False
      then have "q \<notin> set (ps @ [x])" using Cons.prems(3) by simp
      then show ?thesis using Cons.IH [OF n Cons.prems(2)] by auto
    qed
  qed
qed simp

text \<open>A path reported as changed was inspected, and what it held then is what was expected of it.\<close>

lemma deploy_changed:
  assumes d: "deployObserved sha edits cancel rootDir managed artifacts obs w = (r, es, w')" and p: "p \<in> set (dr_changed r)"
  shows "\<exists>ns q. prepareDeployment rootDir managed artifacts = Inr ns \<and> p \<in> art_path ` set ns \<and> pd_path q = p \<and>
    agrees (lookup w) q \<and> (mhas obs p \<longrightarrow> holds_inspected sha (mget [] obs p) (Some q) []) \<and>
    (pd_exists q \<longrightarrow> (\<exists>a \<in> set ns. art_path a = p \<and> pd_original q \<noteq> art_content a))"
proof -
  obtain ns where ns: "prepareDeployment rootDir managed artifacts = Inr ns"
    using d p by (cases "prepareDeployment rootDir managed artifacts") (auto simp: deployObserved_def no_deployment_def)
  obtain x w1 where i: "inspectDeployments sha obs ns w = (x, w1)" by fastforce
  obtain u ps where x: "x = Inr (u, ps)" using d p ns i by (cases x) (auto simp: deployObserved_def no_deployment_def)
  have seen: "batch_seen (lookup w) ns u ps" using inspect_from_sound [of sha obs "[]" "[]" ns w u ps w1] i x
    by (simp add: inspectDeployments_def)
  have "p \<in> pd_path ` set ps"
  proof (rule ccontr)
    assume no: "p \<notin> pd_path ` set ps"
    have "ps \<noteq> []" using d p ns i x by (auto simp: deployObserved_def Let_def no_deployment_def)
    obtain es1 tx w2 where st: "stage ps \<lparr>tx_files = [], tx_createdOrder = []\<rparr> w1 = (es1, tx, w2)"
      by (cases "stage ps \<lparr>tx_files = [], tx_createdOrder = []\<rparr> w1")
    have pf: "p \<notin> sd_path ` set (tx_files tx)" using stage_paths [OF st] no by auto
    obtain es2 tx2 w3 where cm: "commit edits cancel tx w2 = (es2, tx2, w3)" by (cases "commit edits cancel tx w2")
    have "map sd_path (tx_files tx2) = map sd_path (tx_files tx)" using cm commit_paths by blast
    then have "sd_path ` set (tx_files tx2) = sd_path ` set (tx_files tx)" by (metis set_map)
    then have pf2: "p \<notin> sd_path ` set (tx_files tx2)" using pf by simp
    have "p \<notin> set (dr_changed r)" using d ns i x \<open>ps \<noteq> []\<close> st cm no pf2
      by (auto simp: deployObserved_def Let_def no_deployment_def stopCancelled_def split: if_splits prod.splits)
    then show False using p by simp
  qed
  then obtain q where q: "q \<in> set ps" "pd_path q = p" by blast
  moreover have "\<exists>a \<in> set ns. pd_path q = art_path a \<and> (pd_exists q \<longrightarrow> pd_original q \<noteq> art_content a)"
    using inspect_from_new [of sha obs "[]" "[]" ns w u ps w1 q] i x q(1) by (simp add: inspectDeployments_def)
  moreover have "mhas obs p \<longrightarrow> holds_inspected sha (mget [] obs p) (Some q) []"
    using inspect_from_held [of sha obs "[]" "[]" ns w u ps w1 q] i x q by (simp add: inspectDeployments_def)
  moreover have "agrees (lookup w) q" using seen q(1) by (simp add: batch_seen_def list_all_iff)
  ultimately show ?thesis using ns q(2) by (intro exI [of _ ns] exI [of _ q]) auto
qed


section \<open>The steps of an apply\<close>

lemma claim_artifacts: "claim_path c t flat = Inr flat1 \<Longrightarrow> fl_artifacts flat1 = fl_artifacts flat"
  by (auto simp: claim_path_def split: if_splits)

lemma add_managed_artifacts: "add_managed t ps flat = Inr flat1 \<Longrightarrow> fl_artifacts flat1 = fl_artifacts flat"
proof (induction ps arbitrary: flat)
  case (Cons p ps)
  then show ?case by (auto simp: and_then_eq_Inr split: option.splits dest!: claim_artifacts Cons.IH)
qed simp

lemma add_artifacts_normal: "add_artifacts t as flat = Inr flat1 \<Longrightarrow> \<forall>a \<in> set (fl_artifacts flat). normal_path (art_path a) \<Longrightarrow>
    \<forall>a \<in> set (fl_artifacts flat1). normal_path (art_path a)"
proof (induction as arbitrary: flat)
  case (Cons a as)
  obtain c flat2 where c: "NormalizeRelPath (art_path a) = Some c" "claim_path c t flat = Inr flat2"
      "add_artifacts t as (flat2\<lparr>fl_artifacts := fl_artifacts flat2 @ [a\<lparr>art_path := c\<rparr>]\<rparr>) = Inr flat1"
    using Cons.prems(1) by (auto simp: and_then_eq_Inr split: option.splits)
  show ?case by (rule Cons.IH [OF c(3)]) (use Cons.prems(2) claim_artifacts [OF c(2)] normalized_path [OF c(1)] in auto)
qed simp

lemma flatten_from_normal: "flatten_from plans seen flat = Inr flat1 \<Longrightarrow> \<forall>a \<in> set (fl_artifacts flat). normal_path (art_path a) \<Longrightarrow>
    \<forall>a \<in> set (fl_artifacts flat1). normal_path (art_path a)"
proof (induction plans arbitrary: seen flat)
  case (Cons plan plans)
  obtain seen2 flat2 where a: "addPlan (trim_space (tp_Target plan)) plan seen flat = Inr (seen2, flat2)"
      "flatten_from plans seen2 flat2 = Inr flat1" using Cons.prems(1) by (auto simp: and_then_eq_Inr)
  have "\<forall>a \<in> set (fl_artifacts flat2). normal_path (art_path a)"
    using a(1) Cons.prems(2) add_managed_artifacts add_artifacts_normal
    by (fastforce simp: addPlan_def and_then_eq_Inr split: if_splits)
  then show ?case by (rule Cons.IH [OF a(2)])
qed simp

lemma prepareApply_same: "prepareApply cd dec plans skip manifest st w = (r, w1) \<Longrightarrow> same_disk w w1"
  by (auto simp: prepareApply_def same_disk_refl split: sum.splits prod.splits option.splits dest: merge_each_effect)

lemma prepareApply_ok:
  assumes "prepareApply cd dec plans skip manifest st w = (Inr pr, w1)"
  shows "same_disk w w1" "\<forall>a \<in> set (pr_artifacts pr). normal_path (art_path a) \<and> art_path a \<notin> set skip"
    "flattenPlans plans = Inr flat \<Longrightarrow> art_path ` set (pr_artifacts pr) \<subseteq> art_path ` set (fl_artifacts flat)"
proof -
  show "art_path ` set (pr_artifacts pr) \<subseteq> art_path ` set (fl_artifacts flat)" if f: "flattenPlans plans = Inr flat"
  proof -
    obtain m merged where "merge_each cd dec m (snd (activeWithoutSkipped flat skip)) w = (Inr merged, w1)" "pr_artifacts pr = merged"
      using assms f by (auto simp: prepareApply_def split: sum.splits prod.splits)
    then have "art_path ` set (pr_artifacts pr) = art_path ` set (snd (activeWithoutSkipped flat skip))"
      using merge_each_effect by (metis set_map)
    then show ?thesis by (auto simp: activeWithoutSkipped_def)
  qed
  obtain flat m merged where f: "flattenPlans plans = Inr flat" and
      mg: "merge_each cd dec m (snd (activeWithoutSkipped flat skip)) w = (Inr merged, w1)" "pr_artifacts pr = merged"
    using assms by (auto simp: prepareApply_def split: sum.splits prod.splits)
  have "\<forall>a \<in> set (fl_artifacts flat). normal_path (art_path a)"
    using flatten_from_normal f by (fastforce simp: flattenPlans_def split: if_splits)
  moreover have "art_path ` set merged = art_path ` set (snd (activeWithoutSkipped flat skip))"
    using merge_each_effect [OF mg(1)] by (metis set_map)
  ultimately show "\<forall>a \<in> set (pr_artifacts pr). normal_path (art_path a) \<and> art_path a \<notin> set skip"
    using mg(2) by (force simp: activeWithoutSkipped_def)
  show "same_disk w w1" using merge_each_effect [OF mg(1)] by simp
qed

lemma validated_same: "validate_artifacts_from managed ns as = Inr ns' \<Longrightarrow> \<forall>a \<in> set as. normal_path (art_path a) \<Longrightarrow> ns' = ns @ as"
proof (induction managed ns as rule: validate_artifacts_from.induct)
  case (2 managed ns a rest)
  have "c = art_path a" if "NormalizeRelPath (art_path a) = Some c" for c
    using that clean_normal_path 2(3) by (auto simp: NormalizeRelPath_def Let_def split: if_splits)
  with 2 show ?case by (auto split: option.splits if_splits)
qed simp

lemma prepared_paths:
  assumes "prepareDeployment rootDir managed as = Inr ns" "\<forall>a \<in> set as. normal_path (art_path a)"
  shows "art_path ` set ns = art_path ` set as" "distinct (map art_path as)"
proof -
  obtain m ns0 where n: "validate_artifacts_from m [] as = Inr ns0" "ns = sort_key art_path ns0"
    using assms(1) by (auto simp: prepareDeployment_def validateArtifacts_def and_then_eq_Inr split: if_splits)
  have eq: "map art_path ns0 = map art_path as" using validated_same [OF n(1) assms(2)] by simp
  show "art_path ` set ns = art_path ` set as" using eq n(2) by (metis set_map set_sort)
  show "distinct (map art_path as)" using validate_artifacts_distinct [OF n(1)] eq by simp
qed

lemma prepared_same:
  assumes "prepareDeployment rootDir managed as = Inr ns" "\<forall>a \<in> set as. normal_path (art_path a)"
  shows "set ns = set as"
  using assms validated_same by (fastforce simp: prepareDeployment_def validateArtifacts_def and_then_eq_Inr split: if_splits)

lemma report_fields [simp]:
  "dr_changed (as_report r) = dr_changed r" "dr_notApplied (as_report r) = dr_notApplied r" "dr_backedUp (as_report r) = []"
  "dr_changed (markSkippedPaths skip t x) = dr_changed x" "dr_notApplied (markSkippedPaths skip t x) = dr_notApplied x"
  "dr_backedUp (markSkippedPaths skip t x) = dr_backedUp x"
  "dr_changed (markBackedUpPaths priors x) = dr_changed x" "dr_notApplied (markBackedUpPaths priors x) = dr_notApplied x"
  "dr_changed no_report = []" "dr_changed (notAppliedActions as x) = dr_changed x"
  by (simp_all add: as_report_def markSkippedPaths_def markBackedUpPaths_def no_report_def no_deployment_def
      DeploymentResult.defs notAppliedActions_def)

lemma save_lookup: "Save m st w = (b, st', w') \<Longrightarrow> lookup w' q = lookup w q"
  using next_result_fields by (auto simp: Save_def lookup_def next_result_def split: if_splits list.splits)

lemma collect_wf: "collect_priors sha m as priors0 w = (Inr priors, w') \<Longrightarrow> wf_map priors0 \<Longrightarrow> wf_map priors"
  by (induction as arbitrary: priors0 w) (auto split: prod.splits sum.splits)

lemma observedFrom_at: "wf_map priors \<Longrightarrow> map_of priors p = Some s \<Longrightarrow> ps_observed s \<Longrightarrow>
    map_of (observedFrom priors) p = Some (ps_observedSHA256 s)"
proof -
  assume a: "wf_map priors" "map_of priors p = Some s" "ps_observed s"
  have "map_of (filter (\<lambda>(_, s). ps_observed s) priors) p = Some s"
    using map_of_mdel_func [OF a(1), of "\<lambda>_ s. \<not> ps_observed s" p] a(2,3) by (simp add: mdel_func_def)
  then show ?thesis by (simp add: observedFrom_def map_of_map)
qed

lemma edit_at: "lookup (apply_edit e w) p = (if p = fst e then snd e else lookup w p)"
  by (simp add: apply_edit_def lookup_def split: option.splits)

lemma edits_cong: "lookup w p = lookup v p \<Longrightarrow> lookup (fold apply_edit es w) p = lookup (fold apply_edit es v) p"
proof (induction es arbitrary: w v)
  case (Cons e es)
  have "lookup (apply_edit e w) p = lookup (apply_edit e v) p" by (simp only: edit_at Cons.prems)
  then have "lookup (fold apply_edit es (apply_edit e w)) p = lookup (fold apply_edit es (apply_edit e v)) p" by (rule Cons.IH)
  then show ?case by simp
qed simp

text \<open>How an apply runs once the plans are prepared.\<close>

lemma applyPlans_runs:
  assumes "applyPlans env rootDir plans skip manifest st w = (r, es, st', w')"
    and "prepareApply (ae_codec env) (ae_servers env) plans skip manifest st w = (Inr pr, w1)"
  obtains (refused) "w' = snd (collectPriorStates (ae_sha env) (pr_manifest pr) (pr_artifacts pr) w1)"
      "r = no_report" "es \<noteq> []" "st' = st"
    | (deployed) priors w2 validated result es3 w3 where
      "collectPriorStates (ae_sha env) (pr_manifest pr) (pr_artifacts pr) w1 = (Inr priors, w2)"
      "buildOwnershipEntries (ae_sha env) (pr_artifacts pr) (pr_targetByPath pr) priors = Inr validated"
      "deployObserved (ae_sha env) (ae_edits env) (ae_cancel env) rootDir (pr_paths pr) (pr_artifacts pr)
         (observedFrom priors) (fold apply_edit (ae_between env) w2) = (result, es3, w3)"
      "r = markBackedUpPaths priors (markSkippedPaths skip (pr_targetByPath pr) (as_report result))"
      "\<And>q. lookup w' q = lookup w3 q"
      "es = [] \<Longrightarrow> es3 = [] \<and> (\<exists>m w4. Add (pr_manifest pr) (filter (\<lambda>e. oe_path e \<notin> set (dr_notApplied r)) validated) = Inr m \<and>
         Save m st w3 = (True, st', w4))"
proof (cases "\<exists>priors w2 validated. collectPriorStates (ae_sha env) (pr_manifest pr) (pr_artifacts pr) w1 = (Inr priors, w2) \<and>
    buildOwnershipEntries (ae_sha env) (pr_artifacts pr) (pr_targetByPath pr) priors = Inr validated")
  case False
  then show thesis using assms by (intro refused) (auto simp: applyPlans_def split: sum.splits prod.splits)
next
  case True
  then obtain priors w2 validated where c: "collectPriorStates (ae_sha env) (pr_manifest pr) (pr_artifacts pr) w1 = (Inr priors, w2)"
      "buildOwnershipEntries (ae_sha env) (pr_artifacts pr) (pr_targetByPath pr) priors = Inr validated" by blast
  obtain result es3 w3 where dp: "deployObserved (ae_sha env) (ae_edits env) (ae_cancel env) rootDir (pr_paths pr) (pr_artifacts pr)
      (observedFrom priors) (fold apply_edit (ae_between env) w2) = (result, es3, w3)" by (metis prod_cases3)
  let ?rep = "markBackedUpPaths priors (markSkippedPaths skip (pr_targetByPath pr) (as_report result))"
  let ?stopped = "errs_is es3 ContextErr"
  note run = assms(1) [unfolded applyPlans_def assms(2) prod.case sum.case c dp Let_def]
  show thesis
  proof (cases "es3 \<noteq> [] \<and> \<not> ?stopped \<or> ?stopped \<and> dr_changed ?rep = []")
    case True
    then have "r = ?rep" "w' = w3" "es \<noteq> []" using run by (auto simp: errs_is_def split: if_splits)
    then show thesis by (intro deployed [OF c dp]) simp_all
  next
    case False
    then have "(case Add (pr_manifest pr) (filter (\<lambda>e. oe_path e \<notin> set (dr_notApplied ?rep)) validated) of
        Inl e \<Rightarrow> (?rep, [OwnErr e], st, w3)
      | Inr m \<Rightarrow> (case Save m st w3 of (saved, st1, w4) \<Rightarrow> (?rep, if saved then map DeployErr es3 else [OwnErr IOFailed], st1, w4))) =
      (r, es, st', w')" (is "?tail = _") using run by (simp only: split: if_splits) auto
    then show thesis
      by (intro deployed [OF c dp]) (auto split: sum.splits prod.splits if_splits dest: save_lookup)
  qed
qed


section \<open>Replaced content\<close>

text \<open>No other process writes to a path of the given kind.\<close>

definition edits_spare :: "(string \<Rightarrow> bool) \<Rightarrow> apply_env \<Rightarrow> bool" where
  "edits_spare keep env \<longleftrightarrow> list_all (\<lambda>e. \<not> keep (fst e)) (ae_between env) \<and> (\<forall>j. list_all (\<lambda>e. \<not> keep (fst e)) (ae_edits env j))"

text \<open>What a reported change replaced had been seen when the prior states were collected.\<close>

lemma replaced_was_saved:
  assumes c: "collectPriorStates sha m as w1 = (Inr priors, w2)"
    and d: "deployObserved sha edits cancel rootDir paths as (observedFrom priors) v = (result, es, w3)"
    and p: "p \<in> set (dr_changed result)" and n: "\<forall>a \<in> set as. normal_path (art_path a)"
    and start: "lookup w1 p = None \<or> (\<exists>c0 k0. lookup w1 p = Some (NFile c0 k0))" and now: "lookup v p = Some (NFile c k)"
    and sha: "digest sha" "\<forall>x. sha x = sha c \<longrightarrow> x = c" and apart: "backups_apart (map art_path as)"
  shows "(\<exists>e. map_of (om_entries m) p = Some e \<and> oe_sha e = sha c) \<or>
    ps_copied (mget zero_prior priors p) \<in> backup_like p \<and> (\<exists>j. lookup w2 (ps_copied (mget zero_prior priors p)) = Some (NFile c j))"
proof -
  let ?obs = "observedFrom priors"
  obtain ns q where q: "prepareDeployment rootDir paths as = Inr ns" "p \<in> art_path ` set ns"
      "pd_path q = p" "agrees (lookup v) q" "mhas ?obs p \<longrightarrow> holds_inspected sha (mget [] ?obs p) (Some q) []"
    using deploy_changed [OF d p] by blast
  note pd = prepared_paths [OF q(1) n]
  have saved: "mhas priors p" "saved_from sha m p (mget zero_prior priors p) w1 w2"
    using collect_ok(2) [OF c [unfolded collectPriorStates_def] sha(1) n refl pd(2) apart] q(2) pd(1) by auto
  obtain s where s: "map_of priors p = Some s" "mget zero_prior priors p = s" using saved(1) by (auto simp: mhas_def mget_def)
  have orig: "pd_exists q" "pd_original q = c" using q(3,4) now by (auto simp: agrees_def split: if_splits)
  have obs: "ps_observed s" "ps_observedSHA256 s = (case lookup w1 p of Some (NFile c0 _) \<Rightarrow> sha c0 | _ \<Rightarrow> [])"
    using saved(2) start s(2) by (auto simp: saved_from_def)
  have "map_of ?obs p = Some (ps_observedSHA256 s)"
    using observedFrom_at [of priors p s] collect_wf c s(1) obs(1) by (fastforce simp: collectPriorStates_def)
  then have same: "ps_observedSHA256 s = sha c" using q(5) orig by (simp add: mhas_def mget_def holds_inspected_def)
  have "\<exists>k0. lookup w1 p = Some (NFile c k0)" using start
  proof (elim disjE exE)
    assume "lookup w1 p = None"
    then show ?thesis using obs(2) same digest_suffix [OF sha(1), of c] by simp
  next
    fix c0 k0 assume a: "lookup w1 p = Some (NFile c0 k0)"
    then have "sha c0 = sha c" using obs(2) same by simp
    then show ?thesis using sha(2) a by blast
  qed
  then show ?thesis using saved(2) s(2) backup_at_like [OF sha(1), of p c] unfolding saved_from_def by (auto simp: unedited_def)
qed

lemma backup_survives:
  assumes d: "deployObserved sha edits cancel rootDir paths as obs v = (result, es, w3)"
    and n: "\<forall>a \<in> set as. normal_path (art_path a)" and apart: "backups_apart (map art_path as)"
    and b: "beneath BackupDir b" "lookup v b \<noteq> None" "\<forall>j. b \<notin> fst ` set (edits j)"
  shows "lookup w3 b = lookup v b"
proof (rule deploy_frame [OF d _ b(2,3), THEN conjunct1])
  fix ns assume "prepareDeployment rootDir paths as = Inr ns"
  then have "art_path ` set ns = art_path ` set as" by (rule prepared_paths(1) [OF _ n])
  then show "b \<notin> art_path ` set ns" using apart b(1) by (auto simp: backups_apart_def)
qed

text \<open>C14: Content that Takt did not put there is not lost when plans are applied. For every path an apply
  reports as changed, which held a regular file or nothing when the apply began: what the path held when the
  deployment replaced it is either what Takt itself had installed, or it stands, byte for byte, in the backup
  the report names for the path. This holds whichever calls fail, and whatever other processes write to the
  path between the backup and the deployment, as long as they leave the backup directory alone, no artifact
  lies there, none is named like another's backup, and no content collides with the one replaced.\<close>

theorem replaced_content_is_backed_up:
  assumes run: "applyPlans env rootDir plans skip manifest st w = (r, es, st', w')"
    and prep: "prepareApply (ae_codec env) (ae_servers env) plans skip manifest st w = (Inr pr, w1)"
    and p: "p \<in> set (dr_changed r)" and start: "lookup w p = None \<or> (\<exists>c0 k0. lookup w p = Some (NFile c0 k0))"
    and replaced: "lookup (fold apply_edit (ae_between env) w) p = Some (NFile c k)"
    and sha: "digest (ae_sha env)" "\<forall>x. ae_sha env x = ae_sha env c \<longrightarrow> x = c"
    and apart: "backups_apart (map art_path (pr_artifacts pr))" and spare: "edits_spare (beneath BackupDir) env"
  shows "(\<exists>e. map_of (om_entries (pr_manifest pr)) p = Some e \<and> oe_sha e = ae_sha env c) \<or>
    (\<exists>b \<in> set (dr_backedUp r). bk_Path b = p \<and> beneath BackupDir (bk_Copy b) \<and> (\<exists>j. lookup w' (bk_Copy b) = Some (NFile c j)))"
proof -
  note pr = prepareApply_ok [OF prep]
  have n: "\<forall>a \<in> set (pr_artifacts pr). normal_path (art_path a)" using pr(2) by blast
  show ?thesis
  proof (rule applyPlans_runs [OF run prep])
    assume "r = no_report"
    then show ?thesis using p by simp
  next
    fix priors w2 validated result es3 w3
    assume c: "collectPriorStates (ae_sha env) (pr_manifest pr) (pr_artifacts pr) w1 = (Inr priors, w2)"
      and d: "deployObserved (ae_sha env) (ae_edits env) (ae_cancel env) rootDir (pr_paths pr) (pr_artifacts pr)
         (observedFrom priors) (fold apply_edit (ae_between env) w2) = (result, es3, w3)"
      and r: "r = markBackedUpPaths priors (markSkippedPaths skip (pr_targetByPath pr) (as_report result))"
      and w': "\<And>q. lookup w' q = lookup w3 q"
    let ?v = "fold apply_edit (ae_between env) w2" and ?b = "ps_copied (mget zero_prior priors p)"
    have pc: "p \<in> set (dr_changed result)" using p r by simp
    have "p \<in> art_path ` set (pr_artifacts pr)" using deploy_changed [OF d pc] prepared_paths(1) [OF _ n] by blast
    then have nb: "\<not> beneath BackupDir p" using apart by (auto simp: backups_apart_def)
    have L1: "lookup w1 = lookup w" by (rule same_disk_lookup [OF pr(1)])
    have "lookup w2 p = lookup w p"
      using writes_at [OF collect_ok(1) [OF c [unfolded collectPriorStates_def] sha(1) n], of p] nb like_beneath L1 by auto
    then have now: "lookup ?v p = Some (NFile c k)" using edits_cong [of w2 p w] replaced by simp
    from replaced_was_saved [OF c d pc n start [folded L1] now sha apart] show ?thesis
    proof (elim disjE conjE exE)
      fix j assume b: "?b \<in> backup_like p" "lookup w2 ?b = Some (NFile c j)"
      note bb = like_beneath [OF b(1)]
      have keep: "lookup ?v ?b = lookup w2 ?b"
        using spare bb by (intro edits_frame) (auto simp: edits_spare_def list_all_iff)
      have "\<forall>j. ?b \<notin> fst ` set (ae_edits env j)" using spare bb by (fastforce simp: edits_spare_def list_all_iff)
      then have "lookup w3 ?b = lookup ?v ?b" using keep b by (intro backup_survives [OF d n apart bb]) simp_all
      moreover have "\<lparr>bk_Path = p, bk_Copy = ?b\<rparr> \<in> set (dr_backedUp r)"
        using pc bb r by (auto simp: markBackedUpPaths_def beneath_def has_prefix_def BackupDir_def)
      ultimately show ?thesis using keep b(2) bb w' by (intro disjI2 bexI) auto
    qed blast
  qed
qed


text \<open>A plan of two files: one that replaces a file of the user's, one in a directory that is missing.\<close>

definition demo_env :: apply_env where
  "demo_env = \<lparr>ae_sha = demo_sha, ae_codec = \<lparr>cd_decode = \<lambda>_. Inl (0, []), cd_encode = \<lambda>_. []\<rparr>, ae_servers = \<lambda>_. None,
     ae_between = [], ae_edits = \<lambda>_. [], ae_cancel = None, ae_lookPath = \<lambda>_. True, ae_run = \<lambda>_ w. (True, w)\<rparr>"

definition demo_plans :: "TargetPlan list" where
  "demo_plans = [\<lparr>tp_Target = TargetOpenCode, tp_ManagedPaths = [''e.md'', ''d/x.md''],
     tp_Artifacts = [\<lparr>art_path = ''e.md'', art_content = ''new''\<rparr>, \<lparr>art_path = ''d/x.md'', art_content = ''new''\<rparr>], tp_Actions = []\<rparr>]"

definition demo_home :: world where
  "demo_home = \<lparr>w_disk = [(''e.md'', NFile ''old'' 416)], w_temps = [], w_next = 0, w_faults = []\<rparr>"

definition demo_prepared_plans :: prepared where
  "demo_prepared_plans = \<lparr>pr_paths = [''e.md'', ''d/x.md''], pr_artifacts = tp_Artifacts (hd demo_plans),
     pr_targetByPath = [(''e.md'', TargetOpenCode), (''d/x.md'', TargetOpenCode)], pr_manifest = NewOwnershipManifest\<rparr>"

lemma demo_digest: "digest demo_sha" "demo_sha x = demo_sha ''old'' \<longrightarrow> x = ''old''"
  by (auto simp: digest_def demo_sha_def valid_digest_def list_all_iff is_hex_def)

lemma demo_env_fields [simp]: "ae_sha demo_env = demo_sha" "ae_between demo_env = []" "ae_edits demo_env = (\<lambda>_. [])"
  "edits_spare keep demo_env" "ae_run demo_env a v = (True, v)"
  by (simp_all add: demo_env_def edits_spare_def)

lemma demo_plans_prepared:
  "prepareApply (ae_codec demo_env) (ae_servers demo_env) demo_plans [] None NoRecord demo_home = (Inr demo_prepared_plans, demo_home)"
  by code_simp

lemma demo_applied:
  "let (r, es, st, w) = applyPlans demo_env ''/'' demo_plans [] None NoRecord demo_home
   in es = [] \<and> dr_changed r = [''d/x.md'', ''e.md''] \<and> dr_backedUp r = [\<lparr>bk_Path = ''e.md'', bk_Copy = ''.takt-backups/e.md''\<rparr>]"
  by code_simp

lemma demo_apart: "backups_apart (map art_path (pr_artifacts demo_prepared_plans))"
  by code_simp

theorem replaced_content_is_backed_up_witness:
  "\<exists>j. lookup (snd (snd (snd (applyPlans demo_env ''/'' demo_plans [] None NoRecord demo_home)))) ''.takt-backups/e.md'' = Some (NFile ''old'' j)"
proof -
  obtain r es st w where a: "applyPlans demo_env ''/'' demo_plans [] None NoRecord demo_home = (r, es, st, w)" by (metis prod_cases4)
  have r: "''e.md'' \<in> set (dr_changed r)" "dr_backedUp r = [\<lparr>bk_Path = ''e.md'', bk_Copy = ''.takt-backups/e.md''\<rparr>]"
    using demo_applied a by simp_all
  have home: "lookup demo_home ''e.md'' = Some (NFile ''old'' 416)" by (simp add: demo_home_def lookup_def)
  show ?thesis
    using replaced_content_is_backed_up [OF a demo_plans_prepared r(1), of "''old''" 416] home demo_digest demo_apart r(2) a
    by (simp add: demo_prepared_plans_def NewOwnershipManifest_def)
qed

section \<open>Local edits\<close>

lemma collect_frame:
  assumes "collectPriorStates sha m as w = (x, w')" "digest sha" "\<forall>a \<in> set as. normal_path (art_path a)" "\<not> beneath BackupDir p"
  shows "lookup w' p = lookup w p"
  using writes_at [OF collect_ok(1) [OF assms(1) [unfolded collectPriorStates_def] assms(2,3)], of p] assms(4) like_beneath by auto

text \<open>An apply leaves a path that is none of its artifacts.\<close>

lemma applyPlans_frame:
  assumes run: "applyPlans env rootDir plans skip manifest st w = (r, es, st', w')" and sha: "digest (ae_sha env)"
    and held: "lookup w p \<noteq> None" and nb: "\<not> beneath BackupDir p" and spare: "edits_spare ((=) p) env"
    and out: "\<And>pr w1. prepareApply (ae_codec env) (ae_servers env) plans skip manifest st w = (Inr pr, w1) \<Longrightarrow>
      p \<notin> art_path ` set (pr_artifacts pr)"
  shows "lookup w' p = lookup w p \<and> p \<notin> set (dr_changed r)"
proof -
  obtain x w1 where prep: "prepareApply (ae_codec env) (ae_servers env) plans skip manifest st w = (x, w1)" by fastforce
  have L1: "lookup w1 = lookup w" by (rule same_disk_lookup [OF prepareApply_same [OF prep]])
  show ?thesis
  proof (cases x)
    case (Inl e)
    then show ?thesis using run prep L1 by (auto simp: applyPlans_def)
  next
    case (Inr pr)
    note prep = prep [unfolded Inr]
    have n: "\<forall>a \<in> set (pr_artifacts pr). normal_path (art_path a)" using prepareApply_ok(2) [OF prep] by blast
    note cf = collect_frame [OF _ sha n nb]
    show ?thesis
    proof (rule applyPlans_runs [OF run prep])
      assume "w' = snd (collectPriorStates (ae_sha env) (pr_manifest pr) (pr_artifacts pr) w1)" "r = no_report"
      then show ?thesis using cf [of "pr_manifest pr" w1] L1 by (metis prod.collapse report_fields(9) list.set(1) empty_iff)
    next
      fix priors w2 validated result es3 w3
      assume c: "collectPriorStates (ae_sha env) (pr_manifest pr) (pr_artifacts pr) w1 = (Inr priors, w2)"
        and d: "deployObserved (ae_sha env) (ae_edits env) (ae_cancel env) rootDir (pr_paths pr) (pr_artifacts pr)
           (observedFrom priors) (fold apply_edit (ae_between env) w2) = (result, es3, w3)"
        and r: "r = markBackedUpPaths priors (markSkippedPaths skip (pr_targetByPath pr) (as_report result))"
        and w': "\<And>q. lookup w' q = lookup w3 q"
      let ?v = "fold apply_edit (ae_between env) w2"
      have "lookup ?v p = lookup w2 p" using spare by (intro edits_frame) (auto simp: edits_spare_def list_all_iff)
      then have v: "lookup ?v p = lookup w p" using cf [OF c] L1 by simp
      have "lookup w3 p = lookup ?v p \<and> p \<notin> set (dr_changed result)"
      proof (rule deploy_frame [OF d])
        show "p \<notin> art_path ` set ns" if "prepareDeployment rootDir (pr_paths pr) (pr_artifacts pr) = Inr ns" for ns
          using prepared_paths(1) [OF that n] out [OF prep] by simp
        show "lookup ?v p \<noteq> None" using v held by simp
        show "\<forall>j. p \<notin> fst ` set (ae_edits env j)" using spare by (fastforce simp: edits_spare_def list_all_iff)
      qed
      then show ?thesis using v w' r by simp
    qed
  qed
qed

lemma execute_frame:
  assumes "\<And>a v. lookup (snd (run a v)) p = lookup v p"
  shows "executeProviderActions run as r w = (r', es, w') \<Longrightarrow> lookup w' p = lookup w p \<and> dr_changed r' = dr_changed r"
proof (induction as arbitrary: r w)
  case (Cons a as)
  obtain b w1 where b: "run a w = (b, w1)" by fastforce
  show ?case using Cons.prems Cons.IH [of _ w1] b assms [of a w] by (cases b) auto
qed simp

lemma applyPipeline_frame:
  assumes run: "applyPipeline env rootDir plans skip manifest st w = (r, es, st', w')" and sha: "digest (ae_sha env)"
    and held: "lookup w p \<noteq> None" and nb: "\<not> beneath BackupDir p" and spare: "edits_spare ((=) p) env"
    and out: "\<And>pr w1. prepareApply (ae_codec env) (ae_servers env) plans skip manifest st w = (Inr pr, w1) \<Longrightarrow>
      p \<notin> art_path ` set (pr_artifacts pr)"
    and cmd: "\<And>a v. lookup (snd (ae_run env a v)) p = lookup v p"
  shows "lookup w' p = lookup w p \<and> p \<notin> set (dr_changed r)"
proof (cases "preflightProviderActions (ae_lookPath env) plans")
  case (Inl e)
  then show ?thesis using run by (auto simp: applyPipeline_def)
next
  case (Inr actions)
  obtain r1 es1 st1 w1 where a: "applyPlans env rootDir plans skip manifest st w = (r1, es1, st1, w1)" by (metis prod_cases4)
  have f: "lookup w1 p = lookup w p \<and> p \<notin> set (dr_changed r1)" using a sha held nb spare out by (rule applyPlans_frame)
  show ?thesis
  proof (cases "es1 = []")
    case True
    obtain r2 es2 w2 where x: "executeProviderActions (ae_run env) actions r1 w1 = (r2, es2, w2)" by (metis prod_cases3)
    then have "r = r2" "w' = w2" using run Inr a True by (auto simp: applyPipeline_def)
    then show ?thesis using execute_frame [OF cmd x] f by simp
  next
    case False
    then show ?thesis using run Inr a f by (auto simp: applyPipeline_def)
  qed
qed

lemma expand_skip_same: "expand_skip sha m as skip w = (r, w') \<Longrightarrow> same_disk w w'"
proof (induction as arbitrary: skip w)
  case (Cons a as)
  from Cons.prems show ?case
    by (auto simp: managedRegularState_def split: option.splits prod.splits sum.splits if_splits
        dest!: file_state_same Cons.IH intro: same_disk_trans)
qed (simp add: same_disk_refl)

lemma expand_skip_grows: "expand_skip sha m as skip w = (Inr skip', w') \<Longrightarrow> set skip \<subseteq> set skip'"
proof (induction as arbitrary: skip w)
  case (Cons a as)
  from Cons.prems show ?case by (auto split: option.splits prod.splits sum.splits if_splits dest!: Cons.IH)
qed simp

lemma expand_skip_edited:
  "expand_skip sha m as skip w = (Inr skip', w') \<Longrightarrow> p \<in> art_path ` set as \<Longrightarrow> map_of (om_entries m) p = Some e \<Longrightarrow>
    lookup w p = Some (NFile c k) \<Longrightarrow> \<not> unedited sha e (lookup w p) \<Longrightarrow> p \<noteq> ''.'' \<Longrightarrow> p \<in> set skip'"
proof (induction as arbitrary: skip w)
  case (Cons a as)
  show ?case
  proof (cases "map_of (om_entries m) (art_path a)")
    case None
    then show ?thesis using Cons.prems by (intro Cons.IH [of skip w]) auto
  next
    case (Some e1)
    obtain x w1 where s: "managedRegularState sha (art_path a) e1 w = (x, w1)" by fastforce
    then obtain state con where x: "x = Inr (state, con)" using Cons.prems(1) Some by (cases x) auto
    have f: "managedFileState sha (art_path a) e1 w = (Inr (state, con), w1)"
      using s x by (auto simp: managedRegularState_def split: prod.splits sum.splits if_splits)
    have go: "expand_skip sha m as (if state = managedChanged then List.insert (art_path a) skip else skip) w1 = (Inr skip', w')"
      using Cons.prems(1) Some s x by simp
    have L: "lookup w1 = lookup w" by (rule same_disk_lookup [OF file_state_same [OF f]])
    show ?thesis
    proof (cases "art_path a = p")
      case True
      then have "(state, con) = state_of sha e (lookup w p)" using file_state_ok [OF f] Some Cons.prems(3,6) by (simp add: node_at_def)
      then have "state = managedChanged" using Cons.prems(4,5) by (auto simp: unedited_def split: if_splits)
      then show ?thesis using expand_skip_grows [OF go] True by auto
    next
      case False
      then show ?thesis using Cons.prems(2-6) L by (intro Cons.IH [OF go]) auto
    qed
  qed
qed simp

text \<open>C16: A sync leaves local edits alone: a file Takt manages whose content is no longer what Takt installed keeps its
  content, whether or not its plan is part of the sync and whichever calls fail, and is not reported as
  changed; only another process writing to the path, or an integration command, can change it. The path is not
  beneath \<open>.takt-backups\<close>, where the sync itself writes.\<close>

theorem sync_keeps_local_edits:
  assumes run: "SyncContextProgress env rootDir plans preserve st w = (r, es, st', w')"
    and m: "loadOrCreateManifest st w = Inr m" "map_of (om_entries m) p = Some e"
    and edited: "lookup w p = Some (NFile c k)" "\<not> unedited (ae_sha env) e (lookup w p)"
    and sha: "digest (ae_sha env)" and nb: "\<not> beneath BackupDir p" and spare: "edits_spare ((=) p) env"
    and cmd: "\<And>a v. lookup (snd (ae_run env a v)) p = lookup v p"
  shows "lookup w' p = lookup w p \<and> p \<notin> set (dr_changed r)"
proof -
  show ?thesis
  proof (cases "\<exists>flat skip w1. \<not> blank rootDir \<and> flattenPlans plans = Inr flat \<and>
      expandSkipWithLocalEdits (ae_sha env) m (fl_artifacts flat) preserve w = (Inr skip, w1)")
    case False
    have "expandSkipWithLocalEdits (ae_sha env) m as preserve w = (x, w1) \<Longrightarrow> lookup w1 = lookup w" for as x w1
      using expand_skip_same same_disk_lookup by (fastforce simp: expandSkipWithLocalEdits_def)
    then show ?thesis using run m(1) False
      by (auto simp: SyncContextProgress_def split: if_splits sum.splits prod.splits)
  next
    case True
    then obtain flat skip w1 where x: "\<not> blank rootDir" "flattenPlans plans = Inr flat"
        "expand_skip (ae_sha env) m (fl_artifacts flat) (skipSet preserve) w = (Inr skip, w1)"
      by (auto simp: expandSkipWithLocalEdits_def)
    have pipe: "applyPipeline env rootDir plans skip (Some m) st w1 = (r, es, st', w')"
      using run m(1) x by (simp add: SyncContextProgress_def expandSkipWithLocalEdits_def)
    have L: "lookup w1 = lookup w" by (rule same_disk_lookup [OF expand_skip_same [OF x(3)]])
    have "lookup w' p = lookup w1 p \<and> p \<notin> set (dr_changed r)"
    proof (rule applyPipeline_frame [OF pipe sha _ nb spare _ cmd])
      show "lookup w1 p \<noteq> None" using L edited by simp
      fix pr w2 assume prep: "prepareApply (ae_codec env) (ae_servers env) plans skip (Some m) st w1 = (Inr pr, w2)"
      show "p \<notin> art_path ` set (pr_artifacts pr)"
      proof
        assume p: "p \<in> art_path ` set (pr_artifacts pr)"
        then have "normal_path p" "p \<notin> set skip" using prepareApply_ok(2) [OF prep] by auto
        moreover have "p \<in> art_path ` set (fl_artifacts flat)" using prepareApply_ok(3) [OF prep x(2)] p by blast
        ultimately show False using expand_skip_edited [OF x(3) _ m(2) edited] normal_no_dot by blast
      qed
    qed
    then show ?thesis using L by simp
  qed
qed


text \<open>The first file is managed, and edited since.\<close>

definition demo_managed :: OwnershipManifest where
  "demo_managed = \<lparr>om_version = 1, om_entries = [(''e.md'', own_demo_entry ''e.md'' False [TargetOpenCode])]\<rparr>"

theorem sync_keeps_local_edits_witness:
  "lookup (snd (snd (snd (SyncContextProgress demo_env ''/'' demo_plans [] (Stored demo_managed) demo_home)))) ''e.md'' = Some (NFile ''old'' 416) \<and>
   dr_changed (fst (SyncContextProgress demo_env ''/'' demo_plans [] (Stored demo_managed) demo_home)) = [''d/x.md'']"
proof
  obtain r es st w where a: "SyncContextProgress demo_env ''/'' demo_plans [] (Stored demo_managed) demo_home = (r, es, st, w)" by (metis prod_cases4)
  have home: "lookup demo_home ''e.md'' = Some (NFile ''old'' 416)" by (simp add: demo_home_def lookup_def)
  have m: "loadOrCreateManifest (Stored demo_managed) demo_home = Inr demo_managed" by code_simp
  have e: "map_of (om_entries demo_managed) ''e.md'' = Some (own_demo_entry ''e.md'' False [TargetOpenCode])" by (simp add: demo_managed_def)
  have d: "demo_sha ''old'' \<noteq> demo_sha ''new''" by (simp add: demo_sha_def)
  have b: "\<not> beneath BackupDir ''e.md''" by code_simp
  show "lookup (snd (snd (snd (SyncContextProgress demo_env ''/'' demo_plans [] (Stored demo_managed) demo_home)))) ''e.md'' = Some (NFile ''old'' 416)"
    using sync_keeps_local_edits [OF a m e home _ _ b] home d demo_digest(1) a by (simp add: unedited_def own_demo_entry_def)
  show "dr_changed (fst (SyncContextProgress demo_env ''/'' demo_plans [] (Stored demo_managed) demo_home)) = [''d/x.md'']"
    by code_simp
qed

end
