(* ===== verification/Setup_Takeover_Props.thy ===== *)
theory Setup_Takeover_Props
  imports Setup_Apply_Props Setup_Preview_Props
begin

text \<open>
  Ownership after an apply: the manifest records exactly what was written, and what stood there before can be
  put back from it.
\<close>

section \<open>The entries of a batch\<close>

lemma entry_fields:
  assumes "NewOwnershipEntry sha p c mode pre prior backup ts = Inr e" "normal_path p"
  shows "oe_path e = p" "oe_sha e = sha c" "oe_preExisting e = pre" "oe_prior e = prior" "oe_backup e = backup" "oe_mode e = mode mod 512"
    "NormalizeRelPath p = Some p"
proof -
  obtain clean e0 where n: "NormalizeRelPath p = Some clean"
      "setPriorHash \<lparr>oe_path = clean, oe_sha = sha c, oe_mode = mode mod 512, oe_preExisting = pre, oe_prior = [], oe_backup = backup, oe_targets = []\<rparr> pre prior = Inr e0"
      "setOwnershipTargets e0 ts = Inr e"
    using assms(1) by (auto simp: NewOwnershipEntry_def and_then_eq_Inr split: option.splits if_splits)
  have "clean = p" using n(1) clean_normal_path [OF assms(2)] by (auto simp: NormalizeRelPath_def Let_def split: if_splits)
  then show "oe_path e = p" "oe_sha e = sha c" "oe_preExisting e = pre" "oe_prior e = prior" "oe_backup e = backup" "oe_mode e = mode mod 512"
      "NormalizeRelPath p = Some p"
    using n by (auto simp: setPriorHash_def setOwnershipTargets_def and_then_eq_Inr split: if_splits)
qed

definition recorded_as :: "(string \<Rightarrow> string) \<Rightarrow> (string, priorState) gomap \<Rightarrow> Artifact \<Rightarrow> OwnershipEntry \<Rightarrow> bool" where
  "recorded_as sha priors a e \<longleftrightarrow> (let s = mget zero_prior priors (art_path a) in
    oe_path e = art_path a \<and> NormalizeRelPath (art_path a) = Some (art_path a) \<and> oe_sha e = sha (art_content a) \<and> oe_preExisting e = ps_preExisting s \<and>
    oe_prior e = ps_priorSHA256 s \<and> oe_backup e = ps_backupPath s \<and> oe_mode e = ps_mode s mod 512)"

lemma built_entries:
  "buildOwnershipEntries sha as t priors = Inr es \<Longrightarrow> \<forall>a \<in> set as. normal_path (art_path a) \<Longrightarrow> list_all2 (recorded_as sha priors) as es"
proof (induction as arbitrary: es)
  case (Cons a as)
  obtain target e es1 where b: "NewOwnershipEntry sha (art_path a) (art_content a) (ps_mode (mget zero_prior priors (art_path a)))
      (ps_preExisting (mget zero_prior priors (art_path a))) (ps_priorSHA256 (mget zero_prior priors (art_path a)))
      (ps_backupPath (mget zero_prior priors (art_path a))) [target] = Inr e"
      "buildOwnershipEntries sha as t priors = Inr es1" "es = e # es1"
    using Cons.prems(1) by (auto simp: Let_def and_then_eq_Inr split: option.splits)
  have "normal_path (art_path a)" using Cons.prems(2) by simp
  note f = entry_fields [OF b(1) this]
  show ?case using b f Cons.IH [OF b(2)] Cons.prems(2) by (simp add: recorded_as_def Let_def)
qed simp

text \<open>Entries added under distinct paths: the map holds each, and is as before elsewhere.\<close>

lemma added_entries:
  "distinct (map oe_path es) \<Longrightarrow>
    map_of (fold (\<lambda>e m. mput (oe_path e) e m) es m0) q = (case find (\<lambda>e. oe_path e = q) es of Some e \<Rightarrow> Some e | None \<Rightarrow> map_of m0 q)"
proof (induction es arbitrary: m0)
  case (Cons e es)
  have "find (\<lambda>x. oe_path x = oe_path e) es = None" using Cons.prems by (simp add: find_None_iff) (metis image_eqI)
  then show ?case using Cons by (auto split: option.split)
qed simp

lemma find_entry: "distinct (map oe_path es) \<Longrightarrow> e \<in> set es \<Longrightarrow> find (\<lambda>x. oe_path x = oe_path e) es = Some e"
  by (induction es) auto

lemma abort_fails: "abort err tx w = (es, w') \<Longrightarrow> err \<noteq> [] \<Longrightarrow> es \<noteq> []"
  by (auto simp: abort_def split: prod.splits if_splits)

lemma deployed_wholly: "deployObserved sha edits cancel rootDir managed as obs w = (r, [], w') \<Longrightarrow>
    dr_notApplied r = [] \<and> (\<exists>ns. prepareDeployment rootDir managed as = Inr ns)"
  by (auto simp: deployObserved_def Let_def no_deployment_def stopCancelled_def errs_is_def
      split: sum.splits prod.splits if_splits dest: abort_fails)


section \<open>What is recorded\<close>

text \<open>An apply that reports no error, with no other process writing meanwhile.\<close>

lemma applied_ok:
  assumes run: "applyPlans env rootDir plans skip manifest st w = (r, [], st', w')"
    and prep: "prepareApply (ae_codec env) (ae_servers env) plans skip manifest st w = (Inr pr, w1)"
    and quiet: "ae_between env = []" "ae_edits env = (\<lambda>_. [])"
  obtains priors w2 validated result w3 m where
    "collectPriorStates (ae_sha env) (pr_manifest pr) (pr_artifacts pr) w1 = (Inr priors, w2)"
    "deployObserved (ae_sha env) (\<lambda>_. []) (ae_cancel env) rootDir (pr_paths pr) (pr_artifacts pr) (observedFrom priors) w2 = (result, [], w3)"
    "r = markBackedUpPaths priors (markSkippedPaths skip (pr_targetByPath pr) (as_report result))"
    "\<And>q. lookup w' q = lookup w3 q" "distinct (map art_path (pr_artifacts pr))" "st' = Stored m"
    "\<And>a. a \<in> set (pr_artifacts pr) \<Longrightarrow> \<exists>e. map_of (om_entries m) (art_path a) = Some e \<and> recorded_as (ae_sha env) priors a e"
    "\<And>q. q \<notin> art_path ` set (pr_artifacts pr) \<Longrightarrow> map_of (om_entries m) q = map_of (om_entries (pr_manifest pr)) q"
    "\<And>a. a \<in> set (pr_artifacts pr) \<Longrightarrow> holds_content (lookup w3) (art_path a) (art_content a)"
proof (rule applyPlans_runs [OF run prep])
  assume "([]::apply_error list) \<noteq> []"
  then show thesis by simp
next
  have n: "\<forall>a \<in> set (pr_artifacts pr). normal_path (art_path a)" using prepareApply_ok(2) [OF prep] by blast
  fix priors w2 validated result es3 w3
  assume c: "collectPriorStates (ae_sha env) (pr_manifest pr) (pr_artifacts pr) w1 = (Inr priors, w2)"
    and b: "buildOwnershipEntries (ae_sha env) (pr_artifacts pr) (pr_targetByPath pr) priors = Inr validated"
    and d: "deployObserved (ae_sha env) (ae_edits env) (ae_cancel env) rootDir (pr_paths pr) (pr_artifacts pr)
       (observedFrom priors) (fold apply_edit (ae_between env) w2) = (result, es3, w3)"
    and r: "r = markBackedUpPaths priors (markSkippedPaths skip (pr_targetByPath pr) (as_report result))"
    and w': "\<And>q. lookup w' q = lookup w3 q"
    and fin: "([]::apply_error list) = [] \<Longrightarrow> es3 = [] \<and> (\<exists>m w4. Add (pr_manifest pr) (filter (\<lambda>e. oe_path e \<notin> set (dr_notApplied r)) validated) = Inr m \<and>
         Save m st w3 = (True, st', w4))"
  then obtain m w4 where m: "es3 = []" "Add (pr_manifest pr) (filter (\<lambda>e. oe_path e \<notin> set (dr_notApplied r)) validated) = Inr m"
      "Save m st w3 = (True, st', w4)" by blast
  have d: "deployObserved (ae_sha env) (\<lambda>_. []) (ae_cancel env) rootDir (pr_paths pr) (pr_artifacts pr) (observedFrom priors) w2 = (result, [], w3)"
    using d quiet m(1) by simp
  obtain ns where ns: "prepareDeployment rootDir (pr_paths pr) (pr_artifacts pr) = Inr ns" using deployed_wholly [OF d] by blast
  have dist: "distinct (map art_path (pr_artifacts pr))" by (rule prepared_paths(2) [OF ns n])
  have all: "list_all2 (recorded_as (ae_sha env) priors) (pr_artifacts pr) validated" by (rule built_entries [OF b n])
  then have paths: "map oe_path validated = map art_path (pr_artifacts pr)"
    by (induction rule: list_all2_induct) (simp_all add: recorded_as_def Let_def)
  have "dr_notApplied r = []" using deployed_wholly [OF d] r by simp
  then have es: "om_entries m = fold (\<lambda>e m. mput (oe_path e) e m) validated (om_entries (pr_manifest pr))"
    using m(2) by (auto simp: Add_def split: if_splits)
  have at: "map_of (om_entries m) q = (case find (\<lambda>e. oe_path e = q) validated of Some e \<Rightarrow> Some e | None \<Rightarrow> map_of (om_entries (pr_manifest pr)) q)" for q
    unfolding es by (rule added_entries) (simp add: paths dist)
  show thesis
  proof (rule that [OF c d r w' dist])
    show "st' = Stored m" using m(3) by (auto simp: Save_def split: prod.splits if_splits)
    show "\<exists>e. map_of (om_entries m) (art_path a) = Some e \<and> recorded_as (ae_sha env) priors a e" if a: "a \<in> set (pr_artifacts pr)" for a
    proof -
      obtain e where e: "e \<in> set validated" "recorded_as (ae_sha env) priors a e"
        using all a by (metis in_set_conv_nth list_all2_conv_all_nth)
      have "oe_path e = art_path a" using e(2) by (simp add: recorded_as_def Let_def)
      then have "map_of (om_entries m) (art_path a) = Some e" using at [of "art_path a"] find_entry [of validated e] e(1) paths dist by simp
      then show ?thesis using e(2) by blast
    qed
    show "map_of (om_entries m) q = map_of (om_entries (pr_manifest pr)) q" if "q \<notin> art_path ` set (pr_artifacts pr)" for q
    proof -
      have "q \<notin> oe_path ` set validated" using that paths by (metis set_map)
      then have "find (\<lambda>e. oe_path e = q) validated = None" by (auto simp: find_None_iff)
      then show ?thesis using at by simp
    qed
    show "holds_content (lookup w3) (art_path a) (art_content a)" if "a \<in> set (pr_artifacts pr)" for a
      using deployment_outcome [OF d ns] prepared_same [OF ns n] that by simp
  qed
qed

text \<open>C18: The record is true to the disk: after an apply that reports no error, with nothing else writing meanwhile,
  every path that was not skipped holds the content that was to be deployed, and the saved manifest has an
  entry for it that recognises that content as Takt's own and unedited; the entries of all other paths are
  as they were.\<close>

theorem apply_records_what_it_wrote:
  assumes run: "applyPlans env rootDir plans skip manifest st w = (r, [], st', w')"
    and prep: "prepareApply (ae_codec env) (ae_servers env) plans skip manifest st w = (Inr pr, w1)"
    and quiet: "ae_between env = []" "ae_edits env = (\<lambda>_. [])" and sha: "digest (ae_sha env)"
  shows "\<exists>m. st' = Stored m \<and>
    (\<forall>a \<in> set (pr_artifacts pr). holds_content (lookup w') (art_path a) (art_content a) \<and>
      (\<exists>e. map_of (om_entries m) (art_path a) = Some e \<and> unedited (ae_sha env) e (lookup w' (art_path a)))) \<and>
    (\<forall>q. q \<notin> art_path ` set (pr_artifacts pr) \<longrightarrow> map_of (om_entries m) q = map_of (om_entries (pr_manifest pr)) q)"
proof (rule applied_ok [OF run prep quiet])
  fix priors w2 validated result w3 m
  assume w': "\<And>q. lookup w' q = lookup w3 q" and st: "st' = Stored m"
    and entry: "\<And>a. a \<in> set (pr_artifacts pr) \<Longrightarrow> \<exists>e. map_of (om_entries m) (art_path a) = Some e \<and> recorded_as (ae_sha env) priors a e"
    and rest: "\<And>q. q \<notin> art_path ` set (pr_artifacts pr) \<Longrightarrow> map_of (om_entries m) q = map_of (om_entries (pr_manifest pr)) q"
    and held: "\<And>a. a \<in> set (pr_artifacts pr) \<Longrightarrow> holds_content (lookup w3) (art_path a) (art_content a)"
  have "holds_content (lookup w') (art_path a) (art_content a) \<and>
      (\<exists>e. map_of (om_entries m) (art_path a) = Some e \<and> unedited (ae_sha env) e (lookup w' (art_path a)))"
    if a: "a \<in> set (pr_artifacts pr)" for a
  proof -
    obtain e where e: "map_of (om_entries m) (art_path a) = Some e" "recorded_as (ae_sha env) priors a e" using entry [OF a] by blast
    then show ?thesis using held [OF a] digest_suffix [OF sha, of "art_content a"] w'
      by (auto simp: recorded_as_def Let_def unedited_def holds_content_def)
  qed
  then show ?thesis using st rest by blast
qed


theorem apply_records_what_it_wrote_witness:
  "\<exists>m e. fst (snd (snd (applyPlans demo_env ''/'' demo_plans [] None NoRecord demo_home))) = Stored m \<and>
     map_of (om_entries m) ''d/x.md'' = Some e \<and>
     unedited demo_sha e (lookup (snd (snd (snd (applyPlans demo_env ''/'' demo_plans [] None NoRecord demo_home)))) ''d/x.md'')"
proof -
  obtain r es st w where a: "applyPlans demo_env ''/'' demo_plans [] None NoRecord demo_home = (r, es, st, w)" by (metis prod_cases4)
  then have "es = []" using demo_applied by simp
  then show ?thesis
    using apply_records_what_it_wrote [OF a [unfolded \<open>es = []\<close>] demo_plans_prepared] demo_digest(1) a
    by (auto simp: demo_prepared_plans_def demo_plans_def)
qed

section \<open>Undoing a takeover\<close>

lemma applyRestore_done:
  assumes "applyRestorePlan plan w = (Inr u, w')"
  shows "lookup w' (rp_destination plan) = Some (NFile (rp_content plan) (rp_mode plan))"
proof -
  obtain x1 w1 t w2 y w3 where s: "sys_mkdir_all (path_dir (rp_destination plan)) w = (x1, w1)"
      "sys_stage (path_dir (rp_destination plan)) (rp_content plan) (rp_mode plan) w1 = (Inr t, w2)"
      "sys_install t (rp_destination plan) w2 = (Inr y, w3)" "sys_sync (path_dir (rp_destination plan)) w3 = (Inr u, w')"
    using assms by (auto simp: applyRestorePlan_def Let_def split: prod.splits sum.splits)
  then show ?thesis using stage_ok [OF s(2)] install_ok [OF s(3)] synced_frame [OF s(4), of "rp_destination plan"] by auto
qed

text \<open>A backup of an accepted path is at an accepted path.\<close>

lemma backup_accepted:
  assumes "digest sha" "NormalizeRelPath p = Some p" "b \<in> backup_at sha p c"
  shows "NormalizeRelPath b = Some b"
proof -
  have n: "normal_path b" by (rule backup_normal [OF assms(1) normalized_path [OF assms(2)] assms(3)])
  obtain s where s: "b = BackupDir @ s" using assms(3) by (auto simp: backup_at_def)
  have "list_all is_hex (take 8 (sha c))" using assms(1) by (auto simp: digest_def valid_digest_def list_all_iff dest: in_set_takeD)
  then have "CHR 0x5C \<notin> set (take 8 (sha c))" by (auto simp: list_all_iff is_hex_def Let_def)
  moreover have "CHR 0x5C \<notin> set p" using assms(2) by (auto simp: NormalizeRelPath_def Let_def split: if_splits)
  ultimately have "CHR 0x5C \<notin> set b" using assms(3) by (auto simp: backup_at_def BackupDir_def)
  moreover have "''..'' \<notin> set (path_parts b)" using n by (auto simp: normal_path_def list_all_iff plain_def)
  moreover have "\<not> blank b" "\<not> has_prefix b ''/''" unfolding s
    by (simp_all add: BackupDir_def blank_def drop_spaces.simps space_len_def has_prefix_def)
  ultimately show ?thesis using clean_normal_path [OF n] normal_no_dot [OF n] by (simp add: NormalizeRelPath_def)
qed

lemma joins_accepted: "NormalizeRelPath p = Some p \<Longrightarrow> SafeJoin w p = (if verifyNoSymlinkEscape w p then Some p else None)"
proof -
  assume n: "NormalizeRelPath p = Some p"
  have "path_clean p = p" by (rule clean_normal_path [OF normalized_path [OF n]])
  then show ?thesis using n by (auto simp: SafeJoin_def NormalizeRelPath_def Let_def split: if_splits)
qed

text \<open>An entry whose backup stands and whose file is unedited: restoring is never refused, and brings the content back.\<close>

lemma restore_undoes:
  assumes undo: "restoreEntry sha e w = (x, w')"
    and p: "NormalizeRelPath (oe_path e) = Some (oe_path e)" and b: "NormalizeRelPath (oe_backup e) = Some (oe_backup e)"
    and backup: "lookup w (oe_backup e) = Some (NFile c j)" and prior: "oe_prior e = sha c"
    and current: "lookup w (oe_path e) = Some (NFile d k)" "unedited sha e (lookup w (oe_path e))"
    and inj: "sha d = sha c \<longrightarrow> d = c"
  shows "x = Inr () \<and> (\<exists>j. lookup w' (oe_path e) = Some (NFile c j)) \<or> x = Inl IOFailed \<or>
    x = Inl EscapesRoot \<and> \<not> (verifyNoSymlinkEscape w (oe_path e) \<and> verifyNoSymlinkEscape w (oe_backup e))"
proof -
  obtain r1 w1 where ld: "loadRestorePlan sha e w = (r1, w1)" by fastforce
  have L1: "lookup w1 = lookup w" by (rule same_disk_lookup [OF loadRestorePlan_ok(1) [OF ld]])
  have rd: "ReadRegularFile s v = (Inl err, v') \<Longrightarrow> err = IOFailed" for s v err v'
    by (auto simp: ReadRegularFile_def split: prod.splits sum.splits fsnode.splits)
  show ?thesis
  proof (cases r1)
    case (Inl err)
    then have "x = Inl err" using undo ld by (simp add: restoreEntry_def classifyRestoreEntry_def)
    moreover have "err = IOFailed \<or> err = EscapesRoot \<and> \<not> (verifyNoSymlinkEscape w (oe_path e) \<and> verifyNoSymlinkEscape w (oe_backup e))"
    proof (cases "verifyNoSymlinkEscape w (oe_backup e)")
      case False
      then show ?thesis using ld Inl p b joins_accepted [OF b] by (auto simp: loadRestorePlan_def normalizeRestorePaths_def)
    next
      case True
      obtain y v where y: "ReadRegularFile (oe_backup e) w = (y, v)" by fastforce
      have "leads_out v = leads_out w" using same_disk_lookup [OF regular_same [OF y]] by (intro ext) (simp add: leads_out_def)
      then have "verifyNoSymlinkEscape v = verifyNoSymlinkEscape w" by (intro ext) (simp add: verifyNoSymlinkEscape_def)
      then show ?thesis using ld Inl p b True y rd [of "oe_backup e" w] joins_accepted [OF b, of w] joins_accepted [OF p, of v]
        by (cases y) (auto simp: loadRestorePlan_def normalizeRestorePaths_def split: if_splits)
    qed
    ultimately show ?thesis by auto
  next
    case plan: (Inr plan)
    note pd = loadRestorePlan_ok(2) [OF ld plan]
    have dest: "rp_destination plan = oe_path e" using pd clean_normal_path [OF normalized_path [OF p]] by simp
    have "ReadRegularFile (oe_backup e) w = (Inr (rp_content plan), w1)"
      using ld plan p b joins_accepted [OF b] by (auto simp: loadRestorePlan_def normalizeRestorePaths_def split: option.splits prod.splits sum.splits if_splits)
    then have content: "rp_content plan = c" using regular_ok [of "oe_backup e" w "rp_content plan" w1] backup by auto
    then have hash: "rp_replacementHash plan = oe_prior e" using pd prior by simp
    obtain r2 w2 where f: "managedFileState sha (oe_path e) e w1 = (r2, w2)" by fastforce
    have L2: "lookup w2 = lookup w" using same_disk_lookup [OF file_state_same [OF f]] L1 by simp
    show ?thesis
    proof (cases r2)
      case (Inl err)
      then have "x = Inl err" "err = IOFailed" using undo ld plan dest f
        by (auto simp: restoreEntry_def classifyRestoreEntry_def managedFileState_def split: prod.splits sum.splits syserr.splits fsnode.splits if_splits)
      then show ?thesis by simp
    next
      case (Inr sc)
      have "sc = (managedUnchanged, Some d)"
        using file_state_ok [of sha "oe_path e" e w1 sc w2] f Inr L1 current normal_no_dot [OF normalized_path [OF p]] by (simp add: node_at_def unedited_def)
      then have r2: "r2 = Inr (managedUnchanged, Some d)" using Inr by simp
      show ?thesis
      proof (cases "sha d = sha c")
        case True
        then have "x = Inr ()" "w' = w2" using undo ld plan dest f r2 hash prior
          by (auto simp: restoreEntry_def classifyRestoreEntry_def Let_def)
        then show ?thesis using L2 current(1) inj True by simp
      next
        case False
        define plan1 where "plan1 = plan\<lparr>rp_currentHash := sha d, rp_disposition := restoreEligible\<rparr>"
        have ap: "applyRestorePlan plan1 w2 = (x, w')" using undo ld plan dest f r2 hash prior False
          by (auto simp: restoreEntry_def classifyRestoreEntry_def Let_def plan1_def)
        then have "\<forall>err. x = Inl err \<longrightarrow> err = IOFailed" by (auto simp: applyRestorePlan_def Let_def split: prod.splits sum.splits)
        then show ?thesis using applyRestore_done [of plan1 w2 "()" w'] ap dest content by (cases x) (auto simp: plan1_def)
      qed
    qed
  qed
qed

text \<open>On a disk that is a tree, the directories above what exists are there, and nothing is created for them.\<close>

lemma tree_dirs: "tree w \<Longrightarrow> lookup w p \<noteq> None \<Longrightarrow> is_dir w (path_dir p)"
  by (auto simp: tree_def mhas_keys [symmetric] mhas_def lookup_def)

lemma tree_above:
  assumes "tree w" "list_all plain ws" "ws \<noteq> []" "is_dir w (join_path ws)"
  shows "list_all (\<lambda>d. lookup w d = Some NDir) (components (join_path ws))"
proof -
  have ps: "path_parts (join_path ws) = ws" using parts_join assms(2,3) by blast
  have "lookup w (join_path (take (Suc n) ws)) = Some NDir" if "n < length ws" for n
    using that
  proof (induction "length ws - Suc n" arbitrary: n)
    case 0
    then have "take (Suc n) ws = ws" by simp
    moreover have "join_path ws \<noteq> ''.''"
    proof
      assume "join_path ws = ''.''"
      then have "ws = path_parts ''.''" using ps by simp
      then have "ws = [''.'']" by (simp add: path_parts_def split_on_plain)
      then show False using assms(2) by (simp add: plain_def)
    qed
    ultimately show ?case using assms(4) by (simp add: is_dir_def)
  next
    case (Suc k)
    let ?us = "take (Suc n) ws"
    have n: "Suc n < length ws" using Suc.hyps(2) by simp
    have up: "lookup w (join_path (take (Suc (Suc n)) ws)) = Some NDir" using Suc n by simp
    have next_: "take (Suc (Suc n)) ws = ?us @ [ws ! Suc n]" using n by (simp add: take_Suc_conv_app_nth)
    have pl: "list_all plain (?us @ [ws ! Suc n])" using assms(2) n by (metis append_take_drop_id list_all_append next_)
    have us: "?us \<noteq> []" using n by (cases ws) simp_all
    have "path_dir (join_path (take (Suc (Suc n)) ws)) = join_path ?us" unfolding next_ using path_dir_snoc pl us by simp
    then have "is_dir w (join_path ?us)" using tree_dirs [OF assms(1)] up by (metis option.distinct(1))
    moreover have "join_path ?us \<noteq> ''.''"
    proof
      assume "join_path ?us = ''.''"
      moreover have "path_parts (join_path ?us) = ?us" using parts_join us pl by simp
      ultimately have "?us = [''.'']" by (simp add: path_parts_def split_on_plain)
      then show False using pl by (simp add: plain_def)
    qed
    ultimately show ?case by (simp add: is_dir_def)
  qed
  then show ?thesis by (simp add: components_def Let_def ps list_all_iff)
qed

lemma mkdir_each_nothing: "list_all (\<lambda>d. lookup w d = Some NDir) ds \<Longrightarrow> mkdir_each ds w = (Inr (), w)"
  by (induction ds) simp_all

lemma mkdir_all_nothing:
  assumes "tree w" "normal_path p" "lookup w p \<noteq> None"
  shows "sys_mkdir_all (path_dir p) w = (Inr (), w)"
proof (cases "path_dir p = ''.''")
  case False
  obtain ws x where ws: "path_parts p = ws @ [x]" using parts_nonempty [of p] by (metis append_butlast_last_id)
  have pl: "list_all plain (ws @ [x])" using assms(2) ws by (simp add: normal_path_def)
  have "path_dir p = (if ws = [] then ''.'' else join_path ws)" using path_dir_snoc [OF pl] join_parts [of p] ws by simp
  then have "ws \<noteq> []" "path_dir p = join_path ws" using False by (auto split: if_splits)
  note d = this(2)
  have "is_dir w (join_path ws)" using tree_dirs [OF assms(1,3)] d by simp
  then have "list_all (\<lambda>d. lookup w d = Some NDir) (components (path_dir p))" using tree_above [OF assms(1) _ \<open>ws \<noteq> []\<close>] pl d by simp
  then show ?thesis using False by (simp add: sys_mkdir_all_def mkdir_each_nothing)
qed (simp add: sys_mkdir_all_def)

text \<open>Without a failing call the restoration of such an entry is not refused and does not fail.\<close>

lemma apply_restore_quiet:
  assumes "quiet w" "tree w" "normal_path (rp_destination plan)" "lookup w (rp_destination plan) = Some (NFile d k)"
  shows "fst (applyRestorePlan plan w) = Inr ()"
proof -
  have dir: "is_dir w (path_dir (rp_destination plan))" using tree_dirs [OF assms(2)] assms(4) by simp
  let ?p = "rp_destination plan" and ?c = "rp_content plan" and ?m = "rp_mode plan"
  define w2 where "w2 = w\<lparr>w_temps := mput (w_next w) (path_dir ?p, ?c, ?m) (w_temps w), w_next := w_next w + 1\<rparr>"
  define w3 where "w3 = w2\<lparr>w_disk := mput ?p (NFile ?c ?m) (w_disk w2), w_temps := mdel (w_next w) (w_temps w2)\<rparr>"
  have q: "quiet w2" "quiet w3" using assms(1) by (simp_all add: quiet_def w2_def w3_def)
  have st: "sys_stage (path_dir ?p) ?c ?m w = (Inr (w_next w), w2)" using dir by (simp add: sys_stage_def may_fail_quiet [OF assms(1)] w2_def)
  have "map_of (w_temps w2) (w_next w) = Some (path_dir ?p, ?c, ?m)" "lookup w2 ?p = Some (NFile d k)" "is_dir w2 (path_dir ?p)"
    using assms(4) dir by (simp_all add: w2_def lookup_def is_dir_def)
  then have ins: "sys_install (w_next w) ?p w2 = (Inr (), w3)" by (simp add: sys_install_def may_fail_quiet [OF q(1)] w3_def)
  have "path_dir ?p \<noteq> ?p \<or> path_dir ?p = ''.''" using dir assms(4) by (auto simp: is_dir_def)
  then have "is_dir w3 (path_dir ?p)" using dir by (auto simp: is_dir_def lookup_def w3_def w2_def)
  then have sy: "sys_sync (path_dir ?p) w3 = (Inr (), w3)" by (simp add: sys_sync_def may_fail_quiet [OF q(2)])
  show ?thesis using mkdir_all_nothing [OF assms(2,3)] assms(4) st ins sy by (simp add: applyRestorePlan_def Let_def)
qed

lemma restore_succeeds:
  assumes q: "quiet w" "tree w"
    and p: "NormalizeRelPath (oe_path e) = Some (oe_path e)" and b: "NormalizeRelPath (oe_backup e) = Some (oe_backup e)"
    and links: "verifyNoSymlinkEscape w (oe_path e)" "verifyNoSymlinkEscape w (oe_backup e)"
    and backup: "lookup w (oe_backup e) = Some (NFile c j)" and prior: "oe_prior e = sha c"
    and current: "lookup w (oe_path e) = Some (NFile d k)" "unedited sha e (lookup w (oe_path e))"
  shows "fst (restoreEntry sha e w) = Inr ()"
proof -
  have n: "normal_path (oe_path e)" by (rule normalized_path [OF p])
  have rd: "ReadRegularFile (oe_backup e) w = (Inr c, w)"
    using backup q(1) by (simp add: ReadRegularFile_def lstat_quiet sys_read_def may_fail_quiet)
  have sj: "SafeJoin w (oe_backup e) = Some (oe_backup e)" "SafeJoin w (oe_path e) = Some (oe_path e)"
    using joins_accepted [OF b] joins_accepted [OF p] links by simp_all
  have ld: "loadRestorePlan sha e w = (Inr \<lparr>rp_path = oe_path e, rp_destination = oe_path e, rp_content = c,
      rp_replacementHash = sha c, rp_currentHash = [], rp_mode = restoreMode (oe_mode e), rp_disposition = restoreEligible, rp_reason = None\<rparr>, w)"
    using p b sj rd by (auto simp: loadRestorePlan_def normalizeRestorePaths_def)
  have "state_of sha e (node_at w (oe_path e)) = (managedUnchanged, Some d)"
    using current normal_no_dot [OF n] by (simp add: node_at_def unedited_def)
  then have st: "managedFileState sha (oe_path e) e w = (Inr (managedUnchanged, Some d), w)" using file_state_quiet [OF q(1)] by simp
  show ?thesis
  proof (cases "sha d = sha c")
    case True
    then show ?thesis using ld st prior by (simp add: restoreEntry_def classifyRestoreEntry_def Let_def)
  next
    case False
    then show ?thesis using ld st prior apply_restore_quiet [OF q] n current(1)
      by (simp add: restoreEntry_def classifyRestoreEntry_def Let_def)
  qed
qed

text \<open>C15: Taking a file over can be undone: when an apply that reports no error has replaced a file Takt did not
  manage, with nothing else writing meanwhile, and the disk it leaves is a tree on which no call fails and no
  link on the way to the file or to its backup leads out of the root, then restoring the entry it recorded
  succeeds and puts the user's content back. Whatever fails or leads out, the restoration is never refused as a
  conflict, for a record that is malformed or for a backup that does not match, and when it succeeds the
  content is back. The digest tells the content from every other, and the backups of the batch lie apart.\<close>

theorem takeover_can_be_undone:
  assumes run: "applyPlans env rootDir plans skip manifest st w = (r, [], Stored m, w')"
    and prep: "prepareApply (ae_codec env) (ae_servers env) plans skip manifest st w = (Inr pr, w1)"
    and quiet: "ae_between env = []" "ae_edits env = (\<lambda>_. [])"
    and sha: "digest (ae_sha env)" "\<forall>x. ae_sha env x = ae_sha env c \<longrightarrow> x = c"
    and apart: "backups_apart (map art_path (pr_artifacts pr))"
    and p: "p \<in> art_path ` set (pr_artifacts pr)" "map_of (om_entries (pr_manifest pr)) p = None" "lookup w p = Some (NFile c k)"
    and undo: "map_of (om_entries m) p = Some e" "restoreEntry (ae_sha env) e w' = (x, w'')"
  shows "(w_faults w' = [] \<and> tree w' \<and> verifyNoSymlinkEscape w' p \<and> verifyNoSymlinkEscape w' (oe_backup e) \<longrightarrow> x = Inr ()) \<and>
    (x = Inr () \<and> (\<exists>j. lookup w'' p = Some (NFile c j)) \<or> x = Inl IOFailed \<or>
     x = Inl EscapesRoot \<and> \<not> (verifyNoSymlinkEscape w' p \<and> verifyNoSymlinkEscape w' (oe_backup e)))"
proof (rule applied_ok [OF run prep quiet])
  note n = prepareApply_ok [OF prep]
  have n: "\<forall>a \<in> set (pr_artifacts pr). normal_path (art_path a)" and L1: "lookup w1 = lookup w"
    using n(2) same_disk_lookup [OF n(1)] by blast+
  fix priors w2 validated result w3 m2
  assume c: "collectPriorStates (ae_sha env) (pr_manifest pr) (pr_artifacts pr) w1 = (Inr priors, w2)"
    and d: "deployObserved (ae_sha env) (\<lambda>_. []) (ae_cancel env) rootDir (pr_paths pr) (pr_artifacts pr) (observedFrom priors) w2 = (result, [], w3)"
    and w': "\<And>q. lookup w' q = lookup w3 q" and dist: "distinct (map art_path (pr_artifacts pr))" and m2: "Stored m = Stored m2"
    and entry: "\<And>a. a \<in> set (pr_artifacts pr) \<Longrightarrow> \<exists>e. map_of (om_entries m2) (art_path a) = Some e \<and> recorded_as (ae_sha env) priors a e"
    and held: "\<And>a. a \<in> set (pr_artifacts pr) \<Longrightarrow> holds_content (lookup w3) (art_path a) (art_content a)"
  obtain a where a: "a \<in> set (pr_artifacts pr)" "p = art_path a" using p(1) by blast
  have rec: "recorded_as (ae_sha env) priors a e" using entry [OF a(1)] a(2) undo(1) m2 by auto
  obtain j where cur: "lookup w' p = Some (NFile (art_content a) j)" using held [OF a(1)] w' a(2) by (auto simp: holds_content_def)
  let ?s = "mget zero_prior priors p"
  have "saved_from (ae_sha env) (pr_manifest pr) p ?s w1 w2"
    using collect_ok(2) [OF c [unfolded collectPriorStates_def] sha(1) n refl dist apart] a by auto
  then obtain i where b: "ps_backupPath ?s = ps_copied ?s" "ps_priorSHA256 ?s = ae_sha env c" "ps_copied ?s \<in> backup_at (ae_sha env) p c"
      "lookup w2 (ps_copied ?s) = Some (NFile c i)"
    using p(2,3) L1 unfolding saved_from_def by auto
  have e: "oe_path e = p" "oe_sha e = ae_sha env (art_content a)" "oe_prior e = ae_sha env c" "oe_backup e = ps_copied ?s"
      "NormalizeRelPath p = Some p"
    using rec a(2) b by (simp_all add: recorded_as_def Let_def)
  have acc: "NormalizeRelPath (oe_backup e) = Some (oe_backup e)" using backup_accepted [OF sha(1) e(5) b(3)] e(4) by simp
  have "lookup w3 (ps_copied ?s) = lookup w2 (ps_copied ?s)"
    using b(4) by (intro backup_survives [OF d n apart backup_beneath [OF b(3)]]) simp_all
  then have keep: "lookup w' (oe_backup e) = Some (NFile c i)" using w' b(4) e(4) by simp
  have "unedited (ae_sha env) e (lookup w' (oe_path e))"
    using cur e(1,2) digest_suffix [OF sha(1), of "art_content a"] by (simp add: unedited_def)
  then show ?thesis
    using restore_undoes [OF undo(2) _ acc keep, of "art_content a" j] restore_succeeds [OF _ _ _ acc _ _ keep, of "ae_sha env" "art_content a" j]
      e cur sha(2) undo(2) by (simp add: quiet_def)
qed

lemma demo_recorded:
  "let (_, _, st, w) = applyPlans demo_env ''/'' demo_plans [] None NoRecord demo_home
   in case st of Stored m \<Rightarrow> map_of (om_entries m) ''e.md'' \<noteq> None | _ \<Rightarrow> False"
  by code_simp

lemma demo_undone:
  "let (_, _, st, w) = applyPlans demo_env ''/'' demo_plans [] None NoRecord demo_home
   in case st of Stored m \<Rightarrow> fst (restoreEntry demo_sha (the (map_of (om_entries m) ''e.md'')) w) = Inr () | _ \<Rightarrow> False"
  by code_simp

theorem takeover_can_be_undone_witness:
  "\<exists>m e j. fst (snd (snd (applyPlans demo_env ''/'' demo_plans [] None NoRecord demo_home))) = Stored m \<and> map_of (om_entries m) ''e.md'' = Some e \<and>
     lookup (snd (restoreEntry demo_sha e (snd (snd (snd (applyPlans demo_env ''/'' demo_plans [] None NoRecord demo_home)))))) ''e.md'' =
       Some (NFile ''old'' j)"
proof -
  obtain r es st w where a: "applyPlans demo_env ''/'' demo_plans [] None NoRecord demo_home = (r, es, st, w)" by (metis prod_cases4)
  have es: "es = []" using demo_applied a by simp
  obtain m e where m: "st = Stored m" "map_of (om_entries m) ''e.md'' = Some e"
    using demo_recorded a by (cases st) auto
  obtain x w2 where u: "restoreEntry demo_sha e w = (x, w2)" by fastforce
  have "x = Inr ()" using demo_undone a m u by simp
  have home: "lookup demo_home ''e.md'' = Some (NFile ''old'' 416)" by (simp add: demo_home_def lookup_def)
  show ?thesis
    using takeover_can_be_undone [OF a [unfolded es m(1)] demo_plans_prepared _ _ _ _ demo_apart _ _ home m(2)] u \<open>x = Inr ()\<close>
      demo_digest a m by (simp add: demo_prepared_plans_def demo_plans_def NewOwnershipManifest_def)
qed


section \<open>Two limits\<close>

text \<open>
  A backup of other content is replaced when the call that looks for it fails for another reason than its
  absence: \<open>backupContent\<close> takes any such failure for a free place.
\<close>

lemma failed_inspection_replaces_a_backup:
  "let w = demo_home\<lparr>w_disk := [(''e.md'', NFile ''old'' 416), (''.takt-backups'', NDir), (''.takt-backups/e.md'', NFile ''older'' 384)],
         w_faults := [False, False, False, True]\<rparr>;
       (r, es, st, w') = applyPlans demo_env ''/'' demo_plans [] None NoRecord w
   in es = [] \<and> lookup w' ''.takt-backups/e.md'' = Some (NFile ''old'' 416)"
  by code_simp

text \<open>
  What stands at a destination that is not a regular file is not observed, so a file another process puts
  there before the deployment is replaced without a backup.
\<close>

lemma unobserved_file_is_replaced:
  "let env = demo_env\<lparr>ae_between := [(''e.md'', Some (NFile ''mine'' 420))]\<rparr>;
       w = demo_home\<lparr>w_disk := [(''e.md'', NLink None)]\<rparr>;
       (r, es, st, w') = applyPlans env ''/'' demo_plans [] None NoRecord w
   in es = [] \<and> dr_backedUp r = [] \<and> lookup w' ''e.md'' = Some (NFile ''new'' 420)"
  by code_simp

end
