(* ===== verification/Setup_Conflicts.thy ===== *)
theory Setup_Conflicts
  imports Setup_Apply
begin

text \<open>
  The conflicts of an apply, found before it (\<open>takt/setup/operations.go\<close>, \<open>conflict_impact.go\<close>,
  \<open>risk_acceptance.go\<close>): where it would overwrite content Takt does not own or discard an edit, what keeping
  the file means, and the refusal to keep one that cannot work. The record of accepted risks is represented
  by the list it encodes, empty when it is missing or unreadable.
\<close>

section \<open>Data\<close>

definition ImpactUnrelated :: string where "ImpactUnrelated = ''unrelated''"
definition ImpactUncertain :: string where "ImpactUncertain = ''uncertain''"
definition ImpactIncompatible :: string where "ImpactIncompatible = ''incompatible''"

record ConflictEntry =
  cf_Path :: string
  cf_Reason :: string
  cf_Impact :: string
  cf_Affects :: string
  cf_Consequence :: string
  cf_Alternative :: string
  cf_SHA256 :: string
  cf_Accepted :: bool
  cf_Line :: int
  cf_Column :: int

definition new_conflict :: "string \<Rightarrow> ConflictEntry" where
  "new_conflict p = \<lparr>cf_Path = p, cf_Reason = [], cf_Impact = [], cf_Affects = [], cf_Consequence = [], cf_Alternative = [],
     cf_SHA256 = [], cf_Accepted = False, cf_Line = 0, cf_Column = 0\<rparr>"

record RiskAcceptance =
  ra_Path :: string
  ra_SHA256 :: string
  ra_Impact :: string

definition loadRiskAcceptances :: "RiskAcceptance list \<Rightarrow> (string, RiskAcceptance) gomap" where
  "loadRiskAcceptances records = fold (\<lambda>r byPath. mput (ra_Path r) r byPath) records []"

text \<open>The records sorted by path, after the accepted ones replaced those of their paths.\<close>

definition RecordRiskAcceptances :: "RiskAcceptance list \<Rightarrow> RiskAcceptance list \<Rightarrow> RiskAcceptance list" where
  "RecordRiskAcceptances accepted records =
    (if accepted = [] then records
     else sort_key ra_Path (map snd (fold (\<lambda>r byPath. mput (ra_Path r) r byPath) accepted (loadRiskAcceptances records))))"

section \<open>Reading a conflict\<close>

datatype conflict_error = DetectOwn own_error | InspectManaged string | KeptIncompatible string | DetectPlan plan_error

type_synonym 'a detecting = "world \<Rightarrow> (conflict_error + 'a) \<times> world"

text \<open>\<open>os.Stat\<close> follows a link; the result says whether it leads to a regular file.\<close>

definition sys_stat_regular :: "string \<Rightarrow> bool syscall" where
  "sys_stat_regular p = may_fail (\<lambda>w. case lookup w p of
     None \<Rightarrow> (Inl ENotExist, w)
   | Some (NLink None) \<Rightarrow> (Inl ENotExist, w)
   | Some (NLink (Some _)) \<Rightarrow> (Inr True, w)
   | Some (NFile _ _) \<Rightarrow> (Inr True, w)
   | Some _ \<Rightarrow> (Inr False, w))"

definition unmergeableJSON :: "codec \<Rightarrow> string \<Rightarrow> InvalidJSONError option" where
  "unmergeableJSON cd current = (case ParseJSONObject cd current of Inl invalid \<Rightarrow> Some invalid | Inr _ \<Rightarrow> None)"

text \<open>A conflict with the content on disk, if there is any.\<close>

definition readUnmanagedConflict :: "(string \<Rightarrow> string) \<Rightarrow> codec \<Rightarrow> Artifact \<Rightarrow> ConflictEntry \<Rightarrow>
    (ConflictEntry \<times> string option) option detecting" where
  "readUnmanagedConflict sha cd a conflict w =
    (case sys_stat_regular (art_path a) w of
       (Inl ENotExist, w1) \<Rightarrow> (Inr None, w1)
     | (Inl _, w1) \<Rightarrow> (Inl (InspectManaged (art_path a)), w1)
     | (Inr False, w1) \<Rightarrow> (Inl (InspectManaged (art_path a)), w1)
     | (Inr True, w1) \<Rightarrow>
         (case sys_read (art_path a) w1 of
            (Inl _, w2) \<Rightarrow> (Inl (InspectManaged (art_path a)), w2)
          | (Inr current, w2) \<Rightarrow>
              let found = conflict\<lparr>cf_Reason := ''pre-existing'', cf_SHA256 := sha current\<rparr>
              in (Inr (if current = art_content a then None
                 else if \<not> isMergeableConfig (art_path a) then Some (found, Some current)
                 else case unmergeableJSON cd current of
                   None \<Rightarrow> None
                 | Some invalid \<Rightarrow> Some (found\<lparr>cf_Line := ij_Line invalid, cf_Column := ij_Column invalid\<rparr>, Some current)), w2)))"

definition readConflict :: "(string \<Rightarrow> string) \<Rightarrow> codec \<Rightarrow> Artifact \<Rightarrow> OwnershipEntry option \<Rightarrow>
    (ConflictEntry \<times> string option) option detecting" where
  "readConflict sha cd a owned w =
    (let conflict = new_conflict (art_path a)
     in case owned of
       None \<Rightarrow> readUnmanagedConflict sha cd a conflict w
     | Some entry \<Rightarrow>
         (case managedRegularState sha (art_path a) entry w of
            (Inl e, w1) \<Rightarrow> (Inl (DetectOwn e), w1)
          | (Inr (state, current), w1) \<Rightarrow>
              (Inr (if state = managedMissing then Some (conflict\<lparr>cf_Reason := ''missing''\<rparr>, None)
                    else if state = managedUnchanged \<or> current = Some (art_content a) then None
                    else Some (conflict\<lparr>cf_Reason := ''user-edited'', cf_SHA256 := sha (the current)\<rparr>, current)), w1)))"

section \<open>What keeping the file means\<close>

definition MemorySkillsDir :: string where
  "MemorySkillsDir = ''.opencode/skills''"

definition engramInjectedPaths :: "string list" where
  "engramInjectedPaths = [OpenCodeConfigRelativePath]"

text \<open>\<open>path.Ext\<close>: from the last dot of the last element on.\<close>

definition path_ext :: "string \<Rightarrow> string" where
  "path_ext p =
    (let base = rev (takeWhile (\<lambda>c. c \<noteq> CHR ''/'') (rev p))
     in if CHR ''.'' \<in> set base then CHR ''.'' # rev (takeWhile (\<lambda>c. c \<noteq> CHR ''.'') (rev base)) else [])"

definition capabilityFor :: "string \<Rightarrow> string" where
  "capabilityFor artifactPath =
    (if has_prefix artifactPath (MemorySkillsDir @ ''/'') then path_parts artifactPath ! 2 @ '' skill''
     else let base = path_base artifactPath
       in if path_base (path_dir artifactPath) = ''agents'' then ''OpenCode '' @ trim_suffix base (path_ext base) @ '' agent''
          else if base = ''opencode.json'' then ''OpenCode orchestrator agent and Takt configuration''
          else ''OpenCode '' @ base)"

definition classifyConflict :: "(string \<Rightarrow> string) \<Rightarrow> codec \<Rightarrow> Artifact \<Rightarrow> OwnershipEntry option \<Rightarrow> string option \<Rightarrow>
    ConflictEntry \<Rightarrow> ConflictEntry" where
  "classifyConflict sha cd a owned current conflict =
    (let c = conflict\<lparr>cf_Affects := capabilityFor (art_path a)\<rparr>
     in if cf_Reason c = ''missing'' \<and> art_path a \<in> set engramInjectedPaths then
          c\<lparr>cf_Impact := ImpactIncompatible,
            cf_Consequence := ''Takt memory setup recreates this file, so it cannot stay deleted.'',
            cf_Alternative := ''Restore Takt version to recreate it.''\<rparr>
        else if art_path a = OpenCodeConfigRelativePath \<and> current \<noteq> None \<and> unmergeableJSON cd (the current) \<noteq> None then
          c\<lparr>cf_Impact := ImpactIncompatible,
            cf_Consequence := ''Your version is not valid JSON, so Takt memory setup would replace its content instead of merging into it.'',
            cf_Alternative := ''Restore Takt version, or fix the JSON in '' @ art_path a @ '' and run this operation again.''\<rparr>
        else if (case owned of None \<Rightarrow> False | Some entry \<Rightarrow> sha (art_content a) = oe_sha entry) then
          c\<lparr>cf_Impact := ImpactUnrelated,
            cf_Consequence := ''This operation does not change Takt's version of this file.''\<rparr>
        else
          c\<lparr>cf_Impact := ImpactUncertain,
            cf_Consequence := ''Takt cannot guarantee the '' @ cf_Affects c @ '' '' @
              (if cf_Reason c = ''missing'' then ''while this file stays deleted'' else ''while your version is kept'') @ ''.''\<rparr>)"

definition conflictAccepted :: "ConflictEntry \<Rightarrow> (string, RiskAcceptance) gomap \<Rightarrow> bool" where
  "conflictAccepted conflict accepted =
    (case map_of accepted (cf_Path conflict) of
       None \<Rightarrow> False
     | Some prior \<Rightarrow> cf_Impact conflict = ImpactUncertain \<and> ra_Impact prior = cf_Impact conflict \<and> ra_SHA256 prior = cf_SHA256 conflict)"

definition detectArtifactConflict :: "(string \<Rightarrow> string) \<Rightarrow> codec \<Rightarrow> OwnershipManifest \<Rightarrow> (string, RiskAcceptance) gomap \<Rightarrow>
    Artifact \<Rightarrow> ConflictEntry option detecting" where
  "detectArtifactConflict sha cd m accepted a w =
    (let owned = map_of (om_entries m) (art_path a)
     in case readConflict sha cd a owned w of
       (Inl e, w1) \<Rightarrow> (Inl e, w1)
     | (Inr None, w1) \<Rightarrow> (Inr None, w1)
     | (Inr (Some (conflict, current)), w1) \<Rightarrow>
         let c1 = classifyConflict sha cd a owned current conflict;
             c2 = (if cf_Line c1 > 0
               then c1\<lparr>cf_Consequence := cf_Consequence c1 @ '' Its JSON does not parse at line '' @ Itoa (cf_Line c1) @
                 '', column '' @ Itoa (cf_Column c1) @ ''.''\<rparr>
               else c1)
         in (Inr (Some (c2\<lparr>cf_Accepted := conflictAccepted c2 accepted\<rparr>)), w1))"

fun detect_each :: "(string \<Rightarrow> string) \<Rightarrow> codec \<Rightarrow> OwnershipManifest \<Rightarrow> (string, RiskAcceptance) gomap \<Rightarrow> Artifact list \<Rightarrow>
    ConflictEntry list \<Rightarrow> ConflictEntry list detecting" where
  "detect_each sha cd m accepted [] conflicts w = (Inr conflicts, w)"
| "detect_each sha cd m accepted (a # as) conflicts w =
    (case detectArtifactConflict sha cd m accepted a w of
       (Inl e, w1) \<Rightarrow> (Inl e, w1)
     | (Inr None, w1) \<Rightarrow> detect_each sha cd m accepted as conflicts w1
     | (Inr (Some c), w1) \<Rightarrow> detect_each sha cd m accepted as (conflicts @ [c]) w1)"

definition DetectConflicts :: "(string \<Rightarrow> string) \<Rightarrow> codec \<Rightarrow> TargetPlan list \<Rightarrow> RiskAcceptance list \<Rightarrow> stored \<Rightarrow>
    ConflictEntry list detecting" where
  "DetectConflicts sha cd plans records st w =
    (case flattenPlans plans of
       Inl e \<Rightarrow> (Inl (DetectPlan e), w)
     | Inr flat \<Rightarrow>
         (case loadOrCreateManifest st w of
            Inl e \<Rightarrow> (Inl (DetectOwn e), w)
          | Inr m \<Rightarrow> detect_each sha cd m (loadRiskAcceptances records) (fl_artifacts flat) [] w))"

definition kept_incompatible :: "bool \<Rightarrow> string list \<Rightarrow> ConflictEntry \<Rightarrow> bool" where
  "kept_incompatible syncing preserve c \<longleftrightarrow>
    (cf_Path c \<in> set preserve \<or> syncing \<and> cf_Reason c = ''user-edited'') \<and> cf_Impact c = ImpactIncompatible"

definition RejectKeptIncompatible :: "(string \<Rightarrow> string) \<Rightarrow> codec \<Rightarrow> TargetPlan list \<Rightarrow> bool \<Rightarrow> string list \<Rightarrow> RiskAcceptance list \<Rightarrow>
    stored \<Rightarrow> unit detecting" where
  "RejectKeptIncompatible sha cd plans syncing preserve records st w =
    (case DetectConflicts sha cd plans records st w of
       (Inl e, w1) \<Rightarrow> (Inl e, w1)
     | (Inr conflicts, w1) \<Rightarrow>
         (case find (kept_incompatible syncing preserve) conflicts of
            None \<Rightarrow> (Inr (), w1)
          | Some c \<Rightarrow> (Inl (KeptIncompatible (cf_Path c)), w1)))"

end
