(* ===== verification/Setup_Conflicts_Props.thy ===== *)
theory Setup_Conflicts_Props
  imports Setup_Conflicts Setup_Apply_Props
begin

text \<open>
  Detecting conflicts foretells what an apply replaces: no content but Takt's own, or a configuration that is
  merged, is replaced without having been listed.
\<close>

section \<open>What is found at one path\<close>

lemma stat_regular: "sys_stat_regular p w = (r, w') \<Longrightarrow> same_disk w w' \<and>
    (\<forall>c k. lookup w p = Some (NFile c k) \<longrightarrow> r \<noteq> Inl ENotExist \<and> r \<noteq> Inr False)"
  by (rule next_result_cases [of w])
    (auto simp: sys_stat_regular_def may_fail_def same_disk_def lookup_def split: option.splits fsnode.splits if_splits)

lemma unmanaged_found:
  assumes "readUnmanagedConflict sha cd a conflict w = (Inr x, w')" "lookup w (art_path a) = Some (NFile c k)"
    and "c \<noteq> art_content a" "\<not> isMergeableConfig (art_path a) \<or> unmergeableJSON cd c \<noteq> None"
  shows "\<exists>f. x = Some (f, Some c) \<and> cf_Path f = cf_Path conflict \<and> cf_Reason f = ''pre-existing'' \<and> cf_SHA256 f = sha c"
proof -
  obtain r w1 where s: "sys_stat_regular (art_path a) w = (r, w1)" by fastforce
  note st = stat_regular [OF s]
  have r: "r = Inr True" using assms(1,2) s st by (auto simp: readUnmanagedConflict_def split: sum.splits syserr.splits bool.splits)
  obtain y w2 where rd: "sys_read (art_path a) w1 = (y, w2)" by fastforce
  have "lookup w1 (art_path a) = Some (NFile c k)" using st assms(2) same_disk_lookup [of w w1] by simp
  then have "y = Inr c" using assms(1) s r rd read_ok [of "art_path a" w1 _ w2]
    by (cases y) (auto simp: readUnmanagedConflict_def)
  then show ?thesis using assms s r rd by (cases "unmergeableJSON cd c") (auto simp: readUnmanagedConflict_def Let_def)
qed

lemma managed_found:
  assumes "readConflict sha cd a (Some e) w = (Inr x, w')" "lookup w (art_path a) = Some (NFile c k)" "art_path a \<noteq> ''.''"
    and "c \<noteq> art_content a" "\<not> unedited sha e (lookup w (art_path a))"
  shows "x = Some ((new_conflict (art_path a))\<lparr>cf_Reason := ''user-edited'', cf_SHA256 := sha c\<rparr>, Some c)"
proof -
  obtain r w1 where f: "managedFileState sha (art_path a) e w = (r, w1)" by fastforce
  obtain sc where r: "r = Inr sc" using assms(1) f by (cases r) (auto simp: readConflict_def managedRegularState_def)
  have "sc = state_of sha e (lookup w (art_path a))" using file_state_ok [OF f [unfolded r]] assms(3) by (simp add: node_at_def)
  then have "sc = (managedChanged, Some c)" using assms(2,5) by (auto simp: unedited_def)
  then show ?thesis using assms(1,4) f r by (auto simp: readConflict_def managedRegularState_def Let_def)
qed

text \<open>The rating keeps what names the conflict.\<close>

lemma classified_fields [simp]:
  "cf_Path (classifyConflict sha cd a owned current c) = cf_Path c"
  "cf_SHA256 (classifyConflict sha cd a owned current c) = cf_SHA256 c"
  "cf_Reason (classifyConflict sha cd a owned current c) = cf_Reason c"
  by (simp_all add: classifyConflict_def Let_def)

definition names_content :: "(string \<Rightarrow> string) \<Rightarrow> string \<Rightarrow> string \<Rightarrow> ConflictEntry \<Rightarrow> bool" where
  "names_content sha p c cf \<longleftrightarrow> cf_Path cf = p \<and> cf_SHA256 cf = sha c \<and> cf_Reason cf \<in> {''pre-existing'', ''user-edited''}"

lemma artifact_found:
  assumes d: "detectArtifactConflict sha cd m accepted a w = (Inr x, w')" and at: "lookup w (art_path a) = Some (NFile c k)" "art_path a \<noteq> ''.''"
    and new: "c \<noteq> art_content a" and own: "\<forall>e. map_of (om_entries m) (art_path a) = Some e \<longrightarrow> \<not> unedited sha e (lookup w (art_path a))"
    and json: "map_of (om_entries m) (art_path a) = None \<longrightarrow> \<not> isMergeableConfig (art_path a) \<or> unmergeableJSON cd c \<noteq> None"
  shows "\<exists>cf. x = Some cf \<and> names_content sha (art_path a) c cf"
proof -
  obtain r w1 where rc: "readConflict sha cd a (map_of (om_entries m) (art_path a)) w = (r, w1)" by fastforce
  then obtain y where y: "r = Inr y" using d by (cases r) (auto simp: detectArtifactConflict_def Let_def)
  have "\<exists>f. y = Some (f, Some c) \<and> names_content sha (art_path a) c f"
  proof (cases "map_of (om_entries m) (art_path a)")
    case None
    then have "readUnmanagedConflict sha cd a (new_conflict (art_path a)) w = (Inr y, w1)" using rc y by (simp add: readConflict_def)
    from unmanaged_found [OF this at(1) new] None json show ?thesis by (auto simp: names_content_def new_conflict_def)
  next
    case (Some e)
    from managed_found [OF rc [unfolded Some y] at new] own Some show ?thesis by (auto simp: names_content_def new_conflict_def)
  qed
  then show ?thesis using d rc y by (auto simp: detectArtifactConflict_def Let_def names_content_def split: if_splits)
qed

lemma detect_same: "detectArtifactConflict sha cd m accepted a w = (x, w') \<Longrightarrow> same_disk w w'"
  by (auto simp: detectArtifactConflict_def readConflict_def readUnmanagedConflict_def managedRegularState_def Let_def
      split: prod.splits sum.splits syserr.splits option.splits bool.splits if_splits
      dest!: file_state_same read_same stat_regular intro: same_disk_trans)

lemma detect_each_grows: "detect_each sha cd m accepted as cs w = (Inr cs', w') \<Longrightarrow> set cs \<subseteq> set cs'"
proof (induction as arbitrary: cs w)
  case (Cons a as)
  from Cons.prems show ?case by (auto split: prod.splits sum.splits option.splits dest!: Cons.IH)
qed simp

lemma detect_each_finds:
  "detect_each sha cd m accepted as cs w = (Inr cs', w') \<Longrightarrow> a \<in> set as \<Longrightarrow> lookup w (art_path a) = Some (NFile c k) \<Longrightarrow>
    art_path a \<noteq> ''.'' \<Longrightarrow> c \<noteq> art_content a \<Longrightarrow>
    \<forall>e. map_of (om_entries m) (art_path a) = Some e \<longrightarrow> \<not> unedited sha e (lookup w (art_path a)) \<Longrightarrow>
    map_of (om_entries m) (art_path a) = None \<longrightarrow> \<not> isMergeableConfig (art_path a) \<or> unmergeableJSON cd c \<noteq> None \<Longrightarrow>
    \<exists>cf \<in> set cs'. names_content sha (art_path a) c cf"
proof (induction as arbitrary: cs w)
  case (Cons b as)
  obtain x w1 where d: "detectArtifactConflict sha cd m accepted b w = (x, w1)" by fastforce
  then obtain y where y: "x = Inr y" using Cons.prems(1) by (cases x) auto
  have go: "detect_each sha cd m accepted as (case y of None \<Rightarrow> cs | Some f \<Rightarrow> cs @ [f]) w1 = (Inr cs', w')"
    using Cons.prems(1) d y by (cases y) auto
  show ?case
  proof (cases "a = b")
    case True
    then obtain cf where "y = Some cf" "names_content sha (art_path a) c cf"
      using artifact_found [OF d [unfolded y True [symmetric]], of c k] Cons.prems(3-7) by blast
    then show ?thesis using detect_each_grows [OF go] by auto
  next
    case False
    have L: "lookup w1 = lookup w" by (rule same_disk_lookup [OF detect_same [OF d]])
    show ?thesis by (rule Cons.IH [OF go]) (use False Cons.prems(2-7) L in auto)
  qed
qed simp

section \<open>What an apply replaces\<close>

text \<open>Where each artifact that is deployed comes from: planned, merged, and given the servers it had.\<close>

lemma merge_each_from:
  "merge_each cd dec m as w = (Inr bs, w') \<Longrightarrow> b \<in> set bs \<Longrightarrow>
    \<exists>a \<in> set as. \<exists>v x v1 v2. lookup v = lookup w \<and> mergePreexistingConfig cd m a v = (Inr x, v1) \<and>
      carryInjectedMCPServers cd dec x v1 = (Inr b, v2)"
proof (induction as arbitrary: w bs)
  case (Cons a as)
  obtain x w1 y w2 rest where s: "mergePreexistingConfig cd m a w = (Inr x, w1)" "carryInjectedMCPServers cd dec x w1 = (Inr y, w2)"
      "merge_each cd dec m as w2 = (Inr rest, w')" "bs = y # rest"
    using Cons.prems(1) by (auto split: prod.splits sum.splits)
  have L: "lookup w2 = lookup w" using same_disk_lookup [OF merge_preexisting_same [OF s(1)]] same_disk_lookup [OF carry_same [OF s(2)]] by simp
  show ?case
  proof (cases "b = y")
    case True
    then show ?thesis using s by (intro bexI [of _ a] exI [of _ w] exI [of _ x] exI [of _ w1] exI [of _ w2]) simp_all
  next
    case False
    then obtain a' v x v1 v2 where "a' \<in> set as" "lookup v = lookup w2" "mergePreexistingConfig cd m a' v = (Inr x, v1)"
        "carryInjectedMCPServers cd dec x v1 = (Inr b, v2)"
      using Cons.IH [OF s(3)] Cons.prems(2) s(4) by auto
    then show ?thesis using L by (intro bexI [of _ a'] exI [of _ v] exI [of _ x] exI [of _ v1] exI [of _ v2]) simp_all
  qed
qed simp

lemma read_present_file: "read_present p w = (Inr y, w') \<Longrightarrow> lookup w p = Some (NFile c k) \<Longrightarrow> y = Some c"
proof -
  assume r: "read_present p w = (Inr y, w')" and L: "lookup w p = Some (NFile c k)"
  obtain x w1 where l: "sys_lstat p w = (x, w1)" by fastforce
  have L1: "lookup w1 = lookup w" using l lstat_same same_disk_lookup by blast
  obtain z w2 where rd: "sys_read p w1 = (z, w2)" by fastforce
  show ?thesis
  proof (cases x)
    case (Inl e)
    then show ?thesis using r l L lstat_absent [of p w w1] by (cases e) (auto simp: read_present_def)
  next
    case (Inr n)
    then have "n = NFile c k" using lstat_ok [of p w n w1] l L by simp
    then have "\<exists>c'. z = Inr c' \<and> y = Some c'" using r l Inr rd by (cases z) (auto simp: read_present_def)
    then show ?thesis using read_ok [of p w1 _ w2] rd L L1 by auto
  qed
qed

text \<open>The content that is deployed over an existing configuration: the user's, with the planned members merged
  into it and, for OpenCode's, the registered servers as they were.\<close>

definition merges :: "codec \<Rightarrow> string \<Rightarrow> string \<Rightarrow> string \<Rightarrow> string \<Rightarrow> bool" where
  "merges cd p user planned deployed \<longleftrightarrow> (\<exists>merged. MergeJSONObjects cd user planned = Inr merged \<and>
     (deployed = merged \<or> p = OpenCodeConfigRelativePath \<and> (\<exists>servers. MergeJSONObjects cd merged servers = Inr deployed)))"

lemma merged_content:
  assumes "mergePreexistingConfig cd m a w = (Inr b, w')" "lookup w (art_path a) = Some (NFile c k)"
  shows "b = a \<and> (mhas (om_entries m) (art_path a) \<or> \<not> isMergeableConfig (art_path a) \<or>
      trim_space c \<in> {[], trim_space (art_content a)} \<or> (\<exists>e. MergeJSONObjects cd c (art_content a) = Inl e)) \<or>
    (\<exists>merged. MergeJSONObjects cd c (art_content a) = Inr merged \<and> b = a\<lparr>art_content := merged\<rparr>)"
proof (cases "\<not> isMergeableConfig (art_path a) \<or> mhas (om_entries m) (art_path a)")
  case True
  then show ?thesis using assms(1) by (auto simp: mergePreexistingConfig_def)
next
  case False
  obtain x w1 where r: "read_present (art_path a) w = (x, w1)" by fastforce
  then obtain y where "x = Inr y" using assms(1) False by (cases x) (auto simp: mergePreexistingConfig_def)
  then have "x = Inr (Some c)" using read_present_file r assms(2) by blast
  then show ?thesis using assms(1) r False
    by (auto simp: mergePreexistingConfig_def split: if_splits sum.splits)
qed

lemma carried_content:
  assumes "carryInjectedMCPServers cd dec a w = (Inr b, w')"
  shows "b = a \<or> art_path a = OpenCodeConfigRelativePath \<and> art_path b = art_path a \<and> (\<exists>s. MergeJSONObjects cd (art_content a) s = Inr (art_content b))"
  using assms by (auto simp: carryInjectedMCPServers_def Let_def split: if_splits prod.splits sum.splits option.splits)

lemma opencode_mergeable: "isMergeableConfig OpenCodeConfigRelativePath"
  by code_simp

lemma load_same: "lookup v = lookup w \<Longrightarrow> loadOrCreateManifest st v = loadOrCreateManifest st w"
proof -
  assume "lookup v = lookup w"
  then have "leads_out v = leads_out w" by (intro ext) (simp add: leads_out_def)
  then have "SafeJoin v = SafeJoin w" by (intro ext) (simp add: SafeJoin_def verifyNoSymlinkEscape_def)
  then show ?thesis by (cases st) (simp_all add: loadOrCreateManifest_def LoadOwnershipManifest_def)
qed

lemma prepared_fields:
  assumes "prepareApply cd dec plans skip None st w = (Inr pr, w1)" "flattenPlans plans = Inr flat"
  shows "loadOrCreateManifest st w = Inr (pr_manifest pr)"
    and "b \<in> set (pr_artifacts pr) \<Longrightarrow> \<exists>a \<in> set (fl_artifacts flat). \<exists>v x v1 v2. lookup v = lookup w \<and>
      mergePreexistingConfig cd (pr_manifest pr) a v = (Inr x, v1) \<and> carryInjectedMCPServers cd dec x v1 = (Inr b, v2)"
proof -
  obtain m merged where f: "loadOrCreateManifest st w = Inr m"
      "merge_each cd dec m (snd (activeWithoutSkipped flat skip)) w = (Inr merged, w1)" "pr_artifacts pr = merged" "pr_manifest pr = m"
    using assms by (auto simp: prepareApply_def split: sum.splits prod.splits)
  then show "loadOrCreateManifest st w = Inr (pr_manifest pr)" by simp
  assume "b \<in> set (pr_artifacts pr)"
  with merge_each_from [OF f(2)] f(3) obtain a v x v1 v2 where "a \<in> set (snd (activeWithoutSkipped flat skip))" "lookup v = lookup w"
      "mergePreexistingConfig cd m a v = (Inr x, v1)" "carryInjectedMCPServers cd dec x v1 = (Inr b, v2)" by blast
  then show "\<exists>a \<in> set (fl_artifacts flat). \<exists>v x v1 v2. lookup v = lookup w \<and>
      mergePreexistingConfig cd (pr_manifest pr) a v = (Inr x, v1) \<and> carryInjectedMCPServers cd dec x v1 = (Inr b, v2)"
    using f(4) by (intro bexI [of _ a] exI [of _ v] exI [of _ x] exI [of _ v1] exI [of _ v2]) (auto simp: activeWithoutSkipped_def)
qed

text \<open>The planned configurations are JSON objects.\<close>

definition planned_json :: "codec \<Rightarrow> flattenedPlans \<Rightarrow> bool" where
  "planned_json cd flat \<longleftrightarrow> list_all (\<lambda>a. isMergeableConfig (art_path a) \<longrightarrow> unmergeableJSON cd (art_content a) = None) (fl_artifacts flat)"

text \<open>What may be replaced without being listed: a configuration that Takt does not manage, when its content goes
  into what replaces it or differs from the planned one in surrounding white space at most, and OpenCode's when
  it is the planned one already.\<close>

definition excused :: "codec \<Rightarrow> OwnershipManifest \<Rightarrow> string \<Rightarrow> string \<Rightarrow> string \<Rightarrow> string \<Rightarrow> bool" where
  "excused cd m p user planned deployed \<longleftrightarrow>
    p = OpenCodeConfigRelativePath \<and> user = planned \<or>
    map_of (om_entries m) p = None \<and> isMergeableConfig p \<and> unmergeableJSON cd user = None \<and>
      (merges cd p user planned deployed \<or> trim_space user \<in> {[], trim_space planned})"

lemma merge_fails: "MergeJSONObjects cd user planned = Inl e \<Longrightarrow> unmergeableJSON cd user = None \<Longrightarrow> unmergeableJSON cd planned = None \<Longrightarrow> False"
  by (auto simp: MergeJSONObjects_def unmergeableJSON_def split: sum.splits)

text \<open>A file whose content changes is listed or excused.\<close>

lemma listed_or_excused:
  assumes detect: "detect_each sha cd m accepted as [] v = (Inr conflicts, v')" "a \<in> set as"
    and at: "lookup v (art_path a) = Some (NFile c k)" "art_path a \<noteq> ''.''"
    and own: "\<forall>e. map_of (om_entries m) (art_path a) = Some e \<longrightarrow> \<not> unedited sha e (lookup v (art_path a))"
    and made: "mergePreexistingConfig cd m a w = (Inr x, w1)" "carryInjectedMCPServers cd dec x w1 = (Inr b, w2)" "lookup w = lookup v"
    and changed: "c \<noteq> art_content b" and plan: "isMergeableConfig (art_path a) \<longrightarrow> unmergeableJSON cd (art_content a) = None"
  shows "(\<exists>cf \<in> set conflicts. names_content sha (art_path a) c cf) \<or> excused cd m (art_path a) c (art_content a) (art_content b)"
proof (cases "c = art_content a")
  case True
  note mc = merged_content [OF made(1)] and cc = carried_content [OF made(2)]
  have "lookup w (art_path a) = Some (NFile c k)" using at(1) made(3) by simp
  note mc = mc [OF this]
  have px: "art_path x = art_path a" using merge_path(1) [OF made(1)] .
  show ?thesis
  proof (cases "art_path a = OpenCodeConfigRelativePath")
    case False
    then have bx: "b = x" using cc px by auto
    then have "x \<noteq> a" using changed True by auto
    then obtain merged where "MergeJSONObjects cd c (art_content a) = Inr merged" "x = a\<lparr>art_content := merged\<rparr>" using mc by auto
    moreover have "\<not> (mhas (om_entries m) (art_path a) \<or> \<not> isMergeableConfig (art_path a))"
    proof
      assume "mhas (om_entries m) (art_path a) \<or> \<not> isMergeableConfig (art_path a)"
      then have "x = a" using made(1) by (auto simp: mergePreexistingConfig_def)
      then show False using \<open>x \<noteq> a\<close> by simp
    qed
    moreover have "trim_space c = trim_space (art_content a)" using True by simp
    ultimately show ?thesis using plan True by (auto simp: excused_def mhas_def)
  qed (use True in \<open>simp add: excused_def\<close>)
next
  case new: False
  show ?thesis
  proof (cases "map_of (om_entries m) (art_path a) = None \<longrightarrow> \<not> isMergeableConfig (art_path a) \<or> unmergeableJSON cd c \<noteq> None")
    case True
    then show ?thesis by (intro disjI1 detect_each_finds [OF detect at new own True])
  next
    case False
    then have j: "map_of (om_entries m) (art_path a) = None" "isMergeableConfig (art_path a)" "unmergeableJSON cd c = None" by auto
    have "lookup w (art_path a) = Some (NFile c k)" using at(1) made(3) by simp
    from merged_content [OF made(1) this] j(1,2) consider "x = a" "trim_space c \<in> {[], trim_space (art_content a)}"
      | e where "MergeJSONObjects cd c (art_content a) = Inl e"
      | merged where "MergeJSONObjects cd c (art_content a) = Inr merged" "x = a\<lparr>art_content := merged\<rparr>"
      by (auto simp: mhas_def)
    then show ?thesis
    proof cases
      case 2
      then show ?thesis using merge_fails j plan by blast
    next
      case 3
      then have "merges cd (art_path a) c (art_content a) (art_content b)"
        using carried_content [OF made(2)] by (auto simp: merges_def)
      then show ?thesis using j by (simp add: excused_def)
    qed (use j in \<open>simp add: excused_def\<close>)
  qed
qed

text \<open>C17: No replacement comes unannounced: whenever an apply reports that it backed a file up before replacing it, the
  conflicts detected beforehand, on the same disk and record, list the path with the digest of that very
  content, as pre-existing or as edited by the user. This holds for OpenCode's configuration and for every other
  JSON file too, edited or unreadable as JSON. Three cases are not listed, where the user's content is not
  lost: a JSON configuration that Takt does not manage and into which the planned one is merged, one whose
  content is blank or differs from the planned one in surrounding white space at most, and OpenCode's when it
  is exactly the planned one. The planned configurations are JSON objects, no other process writes in between,
  and the backups of the batch lie apart. This holds whichever calls fail during the apply.\<close>

theorem conflicts_foretell_backups:
  assumes run: "applyPlans env rootDir plans skip None st w = (r, es, st', w')"
    and prep: "prepareApply (ae_codec env) (ae_servers env) plans skip None st w = (Inr pr, w1)"
    and detect: "DetectConflicts (ae_sha env) (ae_codec env) plans records st v = (Inr conflicts, v')" "lookup v = lookup w"
    and b: "b \<in> set (dr_backedUp r)" and between: "ae_between env = []"
    and sha: "digest (ae_sha env)" and apart: "backups_apart (map art_path (pr_artifacts pr))"
    and plan: "flattenPlans plans = Inr flat" "planned_json (ae_codec env) flat"
  shows "\<exists>c k a b'. lookup w (bk_Path b) = Some (NFile c k) \<and>
    a \<in> set (fl_artifacts flat) \<and> b' \<in> set (pr_artifacts pr) \<and> art_path a = bk_Path b \<and> art_path b' = bk_Path b \<and>
    ((\<exists>cf \<in> set conflicts. names_content (ae_sha env) (bk_Path b) c cf) \<or>
     excused (ae_codec env) (pr_manifest pr) (bk_Path b) c (art_content a) (art_content b'))"
proof (rule applyPlans_runs [OF run prep])
  assume "r = no_report"
  then show ?thesis using b by (simp add: no_report_def)
next
  let ?p = "bk_Path b" and ?m = "pr_manifest pr"
  have n: "\<forall>a \<in> set (pr_artifacts pr). normal_path (art_path a)" using prepareApply_ok(2) [OF prep] by blast
  have L1: "lookup w1 = lookup w" by (rule same_disk_lookup [OF prepareApply_ok(1) [OF prep]])
  fix priors w2 validated result es3 w3
  assume c: "collectPriorStates (ae_sha env) ?m (pr_artifacts pr) w1 = (Inr priors, w2)"
    and d: "deployObserved (ae_sha env) (ae_edits env) (ae_cancel env) rootDir (pr_paths pr) (pr_artifacts pr)
       (observedFrom priors) (fold apply_edit (ae_between env) w2) = (result, es3, w3)"
    and r: "r = markBackedUpPaths priors (markSkippedPaths skip (pr_targetByPath pr) (as_report result))"
  have p: "?p \<in> set (dr_changed result)" "ps_copied (mget zero_prior priors ?p) \<noteq> []"
    using b r by (auto simp: markBackedUpPaths_def)
  obtain ns q where q: "prepareDeployment rootDir (pr_paths pr) (pr_artifacts pr) = Inr ns" "?p \<in> art_path ` set ns"
      "pd_path q = ?p" "agrees (lookup w2) q" "pd_exists q \<longrightarrow> (\<exists>a \<in> set ns. art_path a = ?p \<and> pd_original q \<noteq> art_content a)"
    using deploy_changed [OF d p(1)] between by auto
  have pin: "?p \<in> art_path ` set (pr_artifacts pr)" using q(2) prepared_paths(1) [OF q(1) n] by simp
  then have "saved_from (ae_sha env) ?m ?p (mget zero_prior priors ?p) w1 w2"
    using collect_ok(2) [OF c [unfolded collectPriorStates_def] sha n refl prepared_paths(2) [OF q(1) n] apart] by auto
  then obtain x k where x: "lookup w ?p = Some (NFile x k)"
      "\<forall>e. map_of (om_entries ?m) ?p = Some e \<longrightarrow> \<not> unedited (ae_sha env) e (lookup w ?p)"
    using p(2) L1 unfolding saved_from_def by metis
  have "\<not> beneath BackupDir ?p" using apart pin by (auto simp: backups_apart_def)
  then have "lookup w2 ?p = lookup w ?p" using collect_frame [OF c sha n] L1 by simp
  then have "pd_exists q" "pd_original q = x" using q(3,4) x(1) by (auto simp: agrees_def split: if_splits)
  then obtain a where a: "a \<in> set (pr_artifacts pr)" "art_path a = ?p" "x \<noteq> art_content a" using q(5) prepared_same [OF q(1) n] by auto
  obtain a0 u y u1 u2 where f: "a0 \<in> set (fl_artifacts flat)" "lookup u = lookup w"
      "mergePreexistingConfig (ae_codec env) ?m a0 u = (Inr y, u1)" "carryInjectedMCPServers (ae_codec env) (ae_servers env) y u1 = (Inr a, u2)"
    using prepared_fields(2) [OF prep plan(1) a(1)] by blast
  have path: "art_path a0 = ?p" using merge_path(1) [OF f(3)] merge_path(2) [OF f(4)] a(2) by simp
  have det: "detect_each (ae_sha env) (ae_codec env) ?m (loadRiskAcceptances records) (fl_artifacts flat) [] v = (Inr conflicts, v')"
    using detect(1) plan(1) prepared_fields(1) [OF prep plan(1)] load_same [OF detect(2), of st] by (simp add: DetectConflicts_def)
  have "?p \<noteq> ''.''" using a(1,2) n normal_no_dot by metis
  moreover have "isMergeableConfig (art_path a0) \<longrightarrow> unmergeableJSON (ae_codec env) (art_content a0) = None"
    using plan(2) f(1) by (simp add: planned_json_def list_all_iff)
  ultimately have "(\<exists>cf \<in> set conflicts. names_content (ae_sha env) ?p x cf) \<or> excused (ae_codec env) ?m ?p x (art_content a0) (art_content a)"
    using listed_or_excused [OF det f(1) _ _ _ f(3,4)] path x detect(2) f(2) a(3) by metis
  then show ?thesis using x(1) f(1) a(1,2) path by blast
qed

theorem conflicts_foretell_backups_witness:
  "\<exists>cf \<in> set (projr (fst (DetectConflicts demo_sha (ae_codec demo_env) demo_plans [] NoRecord demo_home))).
     names_content demo_sha ''e.md'' ''old'' cf"
proof -
  obtain r es st w where a: "applyPlans demo_env ''/'' demo_plans [] None NoRecord demo_home = (r, es, st, w)" by (metis prod_cases4)
  have b: "\<lparr>bk_Path = ''e.md'', bk_Copy = ''.takt-backups/e.md''\<rparr> \<in> set (dr_backedUp r)" using demo_applied a by simp
  obtain x v where d: "DetectConflicts (ae_sha demo_env) (ae_codec demo_env) demo_plans [] NoRecord demo_home = (x, v)" by fastforce
  have "isl (fst (DetectConflicts (ae_sha demo_env) (ae_codec demo_env) demo_plans [] NoRecord demo_home)) = False" by code_simp
  then obtain cs where x: "x = Inr cs" using d by (cases x) auto
  obtain flat where f: "flattenPlans demo_plans = Inr flat" "fl_artifacts flat = fl_artifacts (projr (flattenPlans demo_plans))"
  proof (cases "flattenPlans demo_plans")
    case (Inl e)
    have "isl (flattenPlans demo_plans) = False" by code_simp
    then show ?thesis using Inl by simp
  qed simp
  have "planned_json (ae_codec demo_env) (projr (flattenPlans demo_plans))" by code_simp
  then have p: "planned_json (ae_codec demo_env) flat" using f by simp
  have home: "lookup demo_home ''e.md'' = Some (NFile ''old'' 416)" by (simp add: demo_home_def lookup_def)
  have j: "\<not> isMergeableConfig ''e.md''" "''e.md'' \<noteq> OpenCodeConfigRelativePath" by code_simp+
  have s: "ae_sha demo_env = demo_sha" "ae_between demo_env = []" by (simp_all add: demo_env_def)
  have g: "digest (ae_sha demo_env)" using demo_digest(1) s by simp
  from conflicts_foretell_backups [OF a demo_plans_prepared d [unfolded x] refl b s(2) g demo_apart f(1) p]
  show ?thesis using d x home j s by (auto simp: excused_def)
qed

end
