(* ===== verification/Spec2Isabelle.thy ===== *)
theory Spec2Isabelle
  imports Hist_Props Disp_Props Vfs_Path_Props Vfs_Git_Props Disp_Recovery_Props Disp_Interlocutor Disp_Restore Gc_Analysis Gc_Props
    Cfg_Props Cfg_Section_Props Setup_Deploy_Faults Setup_Preview_Props Setup_Takeover_Props
    Setup_Conflicts_Props
begin

text \<open>
  Takt (\<open>src/takt\<close>, in Go) coordinates a crew of coding agents that work on one repository. What it must
  not get wrong is kept in five places, and this library is a model of them with the theorems that make
  them correct:

  \<^item> the execution history (\<open>takt/history\<close>): an append-only log of the acts of the crew. Every other state
    is a fold of it;
  \<^item> the dispatcher (\<open>takt/dispatch\<close>): admission, plans and their revision, contests, bounded recovery, the
    turn of the user-facing specialist. It reads the projection of the history and appends to it;
  \<^item> the virtual file system (\<open>takt/vfs\<close>): every agent stages its work under exclusive ownership, others judge
    it, and a consolidation writes it to the workspace or leaves the workspace as it was. It reads the
    projection, and its journal feeds the dispatcher's accounting and the maintenance cycle. Its shell
    guard decides which command lines run;
  \<^item> the maintenance cycle (\<open>takt/gc\<close>): what a collector may edit and when a cycle runs;
  \<^item> the installation (\<open>takt/setup\<close>): a batch of rendered files is deployed as a whole or undone, what it
    replaced is restored, and an uninstall removes what is Takt's and nothing the user has changed.

  Beside them stands the merging of the user's configuration (\<open>takt/internal/filemerge\<close>), which every
  deployment goes through.

  \<^bold>\<open>How the code is read.\<close> A Go struct is a record, whose fields keep their names behind the initials of the
  type; a closed set of constants is a datatype. A Go map is an association list with distinct keys, in
  the order in which \<open>range\<close> visits it; a theorem holds for every list, so for every order. An error is
  the list of the sentinels it wraps and \<open>nil\<close> is the empty list; a fallible function returns a sum. Go
  \<open>int\<close>s are integers. Where the budgets add (allowances, counters of unplanned units, stops, escalations,
  failures and spent actions, the ceilings computed from them, the products of the pace) the result is wrapped
  to 64 bits (\<open>wrap_int\<close>); revisions, sequence numbers, lengths, pending prerequisites and deferrals, which
  count recorded events or elements of a list, are not. A method
  of the virtual file system takes the instance and returns it beside its error or value
  (\<open>'a vstep\<close>). Names are those of the source; \<open>gc_\<close> or another short prefix keeps two methods of
  different types apart.

  \<^bold>\<open>The outside world.\<close> Each commit of a store and each system call of a flush consumes one result of a
  schedule (\<open>f_faults\<close>, \<open>h_faults\<close>), so that a theorem for every schedule covers every failure and every
  crash between two steps; a restart reloads what was committed (\<open>loadState\<close>). Code outside the
  repository is an argument: the record \<open>env\<close> holds Unicode normalization and folding, SHA-256, the JSON
  hashes, the random names and the catalog of agents; the code graph, the analyzers, the memory service
  and \<open>encoding/json\<close> are arguments of the definitions that call them. Three hypotheses speak of them:
  \<open>trusted\<close> (two drawn identifiers differ, and folding relates a name to itself), \<open>unguessed\<close>
  (no file of the workspace has the name of a temporary still to be drawn), and injectivity of SHA-256
  where a file is recognised by its hash.

  \<^bold>\<open>Theories.\<close> \<open>Takt_Prelude\<close>: maps, errors, strings, decimal numerals, 64-bit integers.
  \<open>Model_Role\<close>: role classes.

  \<open>Hist_Types\<close>, \<open>Hist_Fold\<close> (\<open>projection.go\<close>, \<open>execution.go\<close>: \<open>Project\<close> folds \<open>fold_entry\<close>, which is
  \<open>Projection.fold\<close>), \<open>Hist_Store\<close> (\<open>history.go\<close>: validation, \<open>AppendBatch\<close>, paging), \<open>Hist_Snapshot\<close>
  (\<open>snapshot.go\<close>; the fuel of \<open>walk\<close>, \<open>walk_fuel\<close>, exceeds the number of recorded prerequisites, and the walk
  visits no unit twice, so \<open>walk_complete\<close>). \<open>Hist_Laws\<close> and \<open>Hist_Props\<close> show what one entry can change:
  final acts stay, contests are never forgotten, an evaluation never regresses, an append is indivisible, and the
  inferred order of a snapshot is that of the units that had settled when the other was first admitted.

  \<open>Disp_Admission\<close> (\<open>policy.go\<close>, \<open>dispatch.go\<close>, \<open>contest.go\<close>, \<open>activity.go\<close>), \<open>Disp_Plan\<close> (\<open>plan.go\<close>, whose
  topological loop \<open>kahn\<close> is proved total by the pending counts that stay positive), \<open>Disp_Recovery\<close> and
  \<open>Disp_Restore\<close> (\<open>recovery.go\<close>), \<open>Disp_Interlocutor\<close> (\<open>interlocutor.go\<close>, \<open>seat.go\<close>, \<open>placeholders.go\<close>).
  \<open>Disp_Laws\<close>, \<open>Disp_Plan_Laws\<close>, \<open>Disp_Props\<close>, \<open>Disp_Recovery_Props\<close> show the ceilings, that a refusal
  consumes nothing, that a plan is accepted exactly when it has no cycle, and that recoveries stay within
  their budgets and are charged once for each distinct tool call since their cursor.

  \<open>Vfs_State\<close>, \<open>Vfs_Paths\<close> (\<open>paths.go\<close>, \<open>sensitive.go\<close>, \<open>reads.go\<close>; the walk to the root of a path,
  \<open>dir_chain\<close>, recurs on its length), \<open>Vfs_Store\<close> (\<open>storage.go\<close>), \<open>Vfs_Stage\<close> (\<open>vfs.go\<close>, \<open>operation.go\<close>,
  \<open>staged.go\<close>), \<open>Vfs_Bind\<close> (\<open>bindings.go\<close>), \<open>Vfs_Verdict\<close> (\<open>verdict.go\<close>), \<open>Vfs_Claims\<close> (\<open>claims.go\<close>,
  \<open>transfer.go\<close>), \<open>Vfs_Flush\<close> (\<open>recovery.go\<close>), \<open>Vfs_Cycle\<close> (\<open>cycle.go\<close>, \<open>maintenance.go\<close>, \<open>gc_state.go\<close>,
  \<open>repair.go\<close>), \<open>Vfs_Caller\<close> (\<open>caller.go\<close>, \<open>execution.go\<close>), \<open>Vfs_Git\<close> (the lexer and the classification of
  \<open>shell.go\<close> and the Git guards of \<open>vfs.go\<close>; every script a command runs is shorter than the command,
  which bounds the recursion). \<open>Vfs_System\<close> lets the modelled commands, restarts, failures and other programs
  interleave (\<open>evolves\<close>; the commands that import the work of a shell call, \<open>PrepareShell\<close>,
  \<open>CompleteShell\<close>, \<open>ContinueShell\<close> and \<open>ReleaseShell\<close>, are not among them); \<open>Vfs_Invariant\<close> is the locale of what each command may change, proved once for
  every command, and its interpretations give the invariants: staged work is owned, the journal is
  numbered, what was committed stays. \<open>Vfs_Rules\<close> holds the triples the step proofs use, \<open>Vfs_Recovery\<close>
  the differences a pending manifest allows, \<open>Vfs_Run_Props\<close>, \<open>Vfs_Stage_Props\<close>, \<open>Vfs_Flush_Props\<close>,
  \<open>Vfs_Path_Props\<close> and \<open>Vfs_Git_Props\<close> the properties; the latter says how a line is spelled (words of bare,
  quoted and escaped pieces, substitutions, operators, an open last command) and reads the spelling back.
  \<open>Vfs_Example\<close> the instance the witnesses run.

  \<open>Gc_Plan\<close> (\<open>plan.go\<close>, \<open>investigation.go\<close>, \<open>refutation.go\<close>, \<open>acceptance.go\<close>), \<open>Gc_Analysis\<close> (\<open>analyzers.go\<close>,
  \<open>snapshot.go\<close>), \<open>Gc_Pace\<close> (\<open>trigger.go\<close>, \<open>barrier.go\<close>, \<open>coordinator.go\<close>), \<open>Gc_Props\<close>. The reversion rate
  of the policy is a fraction, compared by cross multiplication.

  \<open>Cfg_Json\<close> (\<open>json_merge.go\<close>, \<open>remove.go\<close>, \<open>mcp.go\<close>), \<open>Cfg_Section\<close> (\<open>section.go\<close>) and their properties
  \<open>Cfg_Props\<close>, \<open>Cfg_Section_Props\<close>: a merge keeps what the user wrote, a registered server can be removed again,
  and an injected section holds its content and settles.

  \<open>Setup_Disk\<close>: the deployment root as a map from relative paths to what they hold, with the system calls the
  package makes; each consumes one result of a schedule (\<open>w_faults\<close>), and a temporary is kept under its
  number. \<open>Setup_Deploy\<close> (\<open>deploy.go\<close>); \<open>Setup_Deploy_Laws\<close>: the disk during a transaction is the one inspected
  under an overlay of what was created and installed; \<open>Setup_Deploy_Props\<close>: all or nothing, and an edit made
  meanwhile survives; \<open>Setup_Deploy_Faults\<close>: each call fails only by the schedule, so that one failure is
  always undone. \<open>Setup_Own\<close> (\<open>ownership.go\<close>, \<open>restore.go\<close>), \<open>Setup_Uninstall\<close> (the uninstall of
  \<open>operations.go\<close>), \<open>Setup_Uninstall_Laws\<close>, \<open>Setup_Uninstall_Props\<close> and \<open>Setup_Preview_Props\<close>: what each call
  leaves alone, that edits survive, and that the preview says what happens. \<open>Setup_Apply\<close> (the apply and the
  sync of \<open>operations.go\<close>, \<open>config_merge.go\<close>, \<open>provider_actions.go\<close>) composes them: flattening the plans, the
  backups, the deployment and the manifest; \<open>Setup_Apply_Laws\<close> says where backups lie and what collecting them
  leaves alone, \<open>Setup_Apply_Props\<close> that replaced content is backed up and local edits outlive a sync, and
  \<open>Setup_Takeover_Props\<close> that the record is true to the disk and a takeover can be undone. \<open>Setup_Conflicts\<close>
  (\<open>DetectConflicts\<close>, \<open>conflict_impact.go\<close>, \<open>risk_acceptance.go\<close>) is the preview of an apply, and
  \<open>Setup_Conflicts_Props\<close> that it lists what an apply replaces, but for the configurations it merges. \<open>Path_Laws\<close> holds the laws of the
  path functions they share with the virtual file system.

  \<^bold>\<open>Not modelled.\<close> Opening and migrating the SQLite files, file locks and the polling of another process's
  lock; the recursive walk of the workspace for globs; projecting, sandboxing and capturing a prepared shell
  call, and preparing a native inspection; the parsing of the packaged agents and of YAML and JSON texts;
  running analyzers, checks and the code graph, and parsing what they print; \<open>SubstituteIdentity\<close>, which
  reads embedded prompts; the encoding of a snapshot as JSON. The stored state is the value it encodes: the replacement of
  invalid UTF-8, a commit whose outcome is unknown and the fields of older formats are not represented. A number of
  a JSON text is kept by its text, without rounding to a float. A flush reads the workspace without failing; its
  writes fail by the schedule, and \<open>noteMissingDirs\<close> has no other failing inspection than a missing directory.
  A shell call (\<open>shellCall\<close>) has the fields the claims and the inspections consult. The limit of 16 MiB that
  \<open>ReadRegularFile\<close> sets is not kept in \<open>setup\<close>. Of \<open>setup\<close>, what a request renders, the surgical
  patch of edited agent models, drift and the records of operations are left out, and the integration
  commands are an argument. The other packages around the core are not modelled: \<open>memory\<close> (SQL and HTTP), \<open>lifecycle\<close>, \<open>doctor\<close>, \<open>obs\<close>, \<open>session\<close>, \<open>agents\<close>,
  \<open>engram\<close>, \<open>codegraph\<close>, \<open>verify\<close>, \<open>skills\<close>, \<open>cli\<close> and \<open>tui\<close>. Timestamps are integers where a decision reads
  them and left out elsewhere.
\<close>

end
